(* ===== verification/Prelude.thy ===== *)
theory Prelude
  imports Main
begin

text \<open>
  The prelude of the RegEngine development: the result type of fallible Python code
  (\<open>'e + 'a\<close>, \<open>Inl\<close> for a raised exception), its sequencing and its rules, the
  collections of rewrite rules the component theories fill, and generic facts on lists
  that several components use.
\<close>

section \<open>Collections\<close>

named_theorems py_simps \<open>evaluation rules of the Python value operations\<close>
named_theorems result_fields \<open>what an operation leaves in each field of its result\<close>
named_theorems frame_simps \<open>what an operation leaves unchanged\<close>

section \<open>Sequencing of fallible code\<close>

text \<open>
  \<open>and_then m f\<close> runs \<open>f\<close> on the value of \<open>m\<close>; an exception of \<open>m\<close> is the
  result, as an uncaught exception of the first statement is for a Python block.
\<close>

definition and_then :: "'e + 'a \<Rightarrow> ('a \<Rightarrow> 'e + 'b) \<Rightarrow> 'e + 'b" where
  "and_then m f = (case m of Inl e \<Rightarrow> Inl e | Inr a \<Rightarrow> f a)"

text \<open>\<open>try_except m h\<close>: the value of \<open>m\<close>, or what the handler makes of its exception.\<close>

definition try_except :: "'e + 'a \<Rightarrow> ('e \<Rightarrow> 'a) \<Rightarrow> 'a" where
  "try_except m h = (case m of Inl e \<Rightarrow> h e | Inr a \<Rightarrow> a)"

text \<open>The same for code that also changes a state; an exception keeps the state reached so far.\<close>

definition run_then :: "'s \<times> ('e + 'a) \<Rightarrow> ('a \<Rightarrow> 's \<Rightarrow> 's \<times> ('e + 'b)) \<Rightarrow> 's \<times> ('e + 'b)" where
  "run_then r f = (case r of (s, Inl e) \<Rightarrow> (s, Inl e) | (s, Inr a) \<Rightarrow> f a s)"

primrec map_err :: "('a \<Rightarrow> 'e + 'b) \<Rightarrow> 'a list \<Rightarrow> 'e + 'b list" where
  "map_err f [] = Inr []"
| "map_err f (x # xs) = and_then (f x) (\<lambda>y. and_then (map_err f xs) (\<lambda>ys. Inr (y # ys)))"

lemma and_then_Inl [simp]: "and_then (Inl e) f = Inl e"
  by (simp add: and_then_def)

lemma and_then_Inr [simp]: "and_then (Inr a) f = f a"
  by (simp add: and_then_def)

lemma and_then_eq_Inr_iff: "and_then m f = Inr b \<longleftrightarrow> (\<exists>a. m = Inr a \<and> f a = Inr b)"
  by (cases m) auto

lemma and_then_eq_Inl_iff:
  "and_then m f = Inl e \<longleftrightarrow> m = Inl e \<or> (\<exists>a. m = Inr a \<and> f a = Inl e)"
  by (cases m) auto

lemma and_then_InrE:
  assumes "and_then m f = Inr b"
  obtains a where "m = Inr a" and "f a = Inr b"
  using assms by (auto simp: and_then_eq_Inr_iff)

lemma and_then_if:
  "and_then (if c then m else n) f = (if c then and_then m f else and_then n f)"
  by simp

lemma run_then_simps [simp]: "run_then (s, Inl e) f = (s, Inl e)" "run_then (s, Inr a) f = f a s"
  by (simp_all add: run_then_def)

lemma run_then_eq_Inr_iff: "run_then r f = (s, Inr b) \<longleftrightarrow> (\<exists>s' a. r = (s', Inr a) \<and> f a s' = (s, Inr b))"
  by (cases r; cases "snd r") auto

lemma try_except_simps [simp]:
  "try_except (Inl e) h = h e"
  "try_except (Inr a) h = a"
  by (simp_all add: try_except_def)

text \<open>An update that leaves the rows of a selection alone.\<close>

lemma filter_map_frame:
  assumes "\<And>x. P (f x) = P x" and "\<And>x. P x \<Longrightarrow> f x = x"
  shows "filter P (map f xs) = filter P xs"
  using assms by (induction xs) auto

lemma map_err_Inr_length: "map_err f xs = Inr ys \<Longrightarrow> length ys = length xs"
  by (induction xs arbitrary: ys) (auto simp: and_then_eq_Inr_iff)

lemma map_err_Inr_nth:
  "map_err f xs = Inr ys \<Longrightarrow> i < length xs \<Longrightarrow> f (xs ! i) = Inr (ys ! i)"
proof (induction xs arbitrary: ys i)
  case Nil
  then show ?case by simp
next
  case (Cons x xs)
  then show ?case
    by (cases i) (auto simp: and_then_eq_Inr_iff)
qed

section \<open>Lists\<close>

lemma list_all_in_setD: "list_all P xs \<Longrightarrow> x \<in> set xs \<Longrightarrow> P x"
  by (simp add: list_all_iff)

lemma takeWhile_eq_all: "list_all P xs \<Longrightarrow> takeWhile P xs = xs"
  by (simp add: list_all_iff takeWhile_eq_all_conv)

lemma dropWhile_none: "xs = [] \<or> \<not> P (hd xs) \<Longrightarrow> dropWhile P xs = xs"
  by (cases xs) auto

lemma hd_dropWhile_not: "dropWhile P xs \<noteq> [] \<Longrightarrow> \<not> P (hd (dropWhile P xs))"
  by (induction xs) (auto split: if_splits)

lemma filter_empty_list_all: "filter P xs = [] \<longleftrightarrow> list_all (\<lambda>x. \<not> P x) xs"
  by (simp add: filter_empty_conv list_all_iff)

lemma fold_Cons_snoc: "fold (\<lambda>x acc. acc @ [f x]) xs ys = ys @ map f xs"
  by (induction xs arbitrary: ys) auto

end
