(* ===== verification/PyFloat.thy ===== *)
theory PyFloat
  imports Complex_Main Prelude
begin

text \<open>
  Python's \<open>float\<close>: IEEE-754 binary64 with round-half-even. A finite float is the rational
  it denotes (the two zeros are one value here: no code of the repository tells them
  apart except by formatting), beside the infinities and NaN. Every operation is the
  exact rational operation followed by \<open>round_double\<close>, as the standard prescribes.
\<close>

section \<open>Rounding to binary64\<close>

datatype pyfloat = Fin rat | PInf | NInf | NaN

fun bit_len :: "nat \<Rightarrow> nat" where
  "bit_len n = (if n = 0 then 0 else Suc (bit_len (n div 2)))"

declare bit_len.simps [simp del]

definition pow2 :: "int \<Rightarrow> rat" where
  "pow2 e = (if 0 \<le> e then 2 ^ nat e else 1 / 2 ^ nat (- e))"

text \<open>The binary exponent of a positive rational: \<open>pow2 e \<le> q < pow2 (e + 1)\<close>.\<close>

definition binexp :: "rat \<Rightarrow> int" where
  "binexp q =
     (let (p, d) = quotient_of q; e = int (bit_len (nat p)) - int (bit_len (nat d))
      in if pow2 e \<le> q then e else e - 1)"

definition round_half_even :: "rat \<Rightarrow> int" where
  "round_half_even x =
     (let f = \<lfloor>x\<rfloor>; r = x - of_int f
      in if r < 1 / 2 then f else if 1 / 2 < r then f + 1 else if even f then f else f + 1)"

text \<open>The distance between neighbouring doubles at \<open>q\<close> (subnormals share one distance).\<close>

definition ulp :: "rat \<Rightarrow> rat" where
  "ulp q = pow2 (max (binexp q - 52) (- 1074))"

definition round_pos :: "rat \<Rightarrow> rat" where
  "round_pos q = of_int (round_half_even (q / ulp q)) * ulp q"

definition round_double :: "rat \<Rightarrow> pyfloat" where
  "round_double q =
     (if q = 0 then Fin 0
      else let v = round_pos \<bar>q\<bar>
           in if pow2 1024 \<le> v then (if 0 < q then PInf else NInf)
              else Fin (if 0 < q then v else - v))"

section \<open>Arithmetic and comparison\<close>

definition fneg :: "pyfloat \<Rightarrow> pyfloat" where
  "fneg x = (case x of Fin a \<Rightarrow> Fin (- a) | PInf \<Rightarrow> NInf | NInf \<Rightarrow> PInf | NaN \<Rightarrow> NaN)"

fun fadd :: "pyfloat \<Rightarrow> pyfloat \<Rightarrow> pyfloat" where
  "fadd NaN _ = NaN"
| "fadd _ NaN = NaN"
| "fadd (Fin a) (Fin b) = round_double (a + b)"
| "fadd (Fin a) y = y"
| "fadd x (Fin b) = x"
| "fadd PInf PInf = PInf"
| "fadd NInf NInf = NInf"
| "fadd _ _ = NaN"

definition fsub :: "pyfloat \<Rightarrow> pyfloat \<Rightarrow> pyfloat" where
  "fsub x y = fadd x (fneg y)"

definition inf_of_sign :: "rat \<Rightarrow> pyfloat" where
  "inf_of_sign s = (if s = 0 then NaN else if 0 < s then PInf else NInf)"

fun fmul :: "pyfloat \<Rightarrow> pyfloat \<Rightarrow> pyfloat" where
  "fmul NaN _ = NaN"
| "fmul _ NaN = NaN"
| "fmul (Fin a) (Fin b) = round_double (a * b)"
| "fmul (Fin a) PInf = inf_of_sign a"
| "fmul (Fin a) NInf = inf_of_sign (- a)"
| "fmul PInf (Fin b) = inf_of_sign b"
| "fmul NInf (Fin b) = inf_of_sign (- b)"
| "fmul PInf y = y"
| "fmul NInf y = fneg y"

text \<open>Division by a non-zero finite constant, the only division the modelled code has.\<close>

fun fdiv_by :: "pyfloat \<Rightarrow> rat \<Rightarrow> pyfloat" where
  "fdiv_by (Fin a) c = round_double (a / c)"
| "fdiv_by PInf c = inf_of_sign c"
| "fdiv_by NInf c = inf_of_sign (- c)"
| "fdiv_by NaN c = NaN"

text \<open>\<open>x < y\<close>; every comparison with NaN is false, and \<open>x > y\<close> is \<open>flt y x\<close>.\<close>

fun flt :: "pyfloat \<Rightarrow> pyfloat \<Rightarrow> bool" where
  "flt NaN _ = False"
| "flt _ NaN = False"
| "flt (Fin a) (Fin b) = (a < b)"
| "flt NInf y = (y \<noteq> NInf)"
| "flt x PInf = (x \<noteq> PInf)"
| "flt _ _ = False"

definition fle :: "pyfloat \<Rightarrow> pyfloat \<Rightarrow> bool" where
  "fle x y \<longleftrightarrow> x \<noteq> NaN \<and> y \<noteq> NaN \<and> \<not> flt y x"

text \<open>Python's \<open>x == y\<close> on floats: NaN equals nothing.\<close>

definition feq :: "pyfloat \<Rightarrow> pyfloat \<Rightarrow> bool" where
  "feq x y \<longleftrightarrow> x \<noteq> NaN \<and> x = y"

section \<open>Facts about rounding\<close>

lemma bit_len_pos: "0 < n \<Longrightarrow> 0 < bit_len n"
  by (subst bit_len.simps) simp

lemma bit_len_bounds: "0 < n \<Longrightarrow> 2 ^ (bit_len n - 1) \<le> n \<and> n < 2 ^ bit_len n"
proof (induction n rule: bit_len.induct)
  case (1 n)
  show ?case
  proof (cases "n div 2 = 0")
    case True
    with "1.prems" have "n = 1" by linarith
    then show ?thesis by (simp add: bit_len.simps)
  next
    case False
    with "1.prems" "1.IH"
    have IH: "2 ^ (bit_len (n div 2) - 1) \<le> n div 2 \<and> n div 2 < 2 ^ bit_len (n div 2)"
      by simp
    have "bit_len n = Suc (bit_len (n div 2))"
      using "1.prems" by (subst bit_len.simps) simp
    moreover have "0 < bit_len (n div 2)"
      using False by (simp add: bit_len_pos)
    then obtain k where "bit_len (n div 2) = Suc k"
      using gr0_implies_Suc by blast
    ultimately show ?thesis
      using IH by simp linarith
  qed
qed

lemma pow2_pos [simp]: "0 < pow2 e"
  by (simp add: pow2_def)

lemma pow2_nonzero [simp]: "pow2 e \<noteq> 0"
  using pow2_pos [of e] by linarith

lemma pow2_add: "pow2 (a + b) = pow2 a * pow2 b"
proof -
  have eq: "pow2 e = 2 powi e" for e
    by (simp add: pow2_def power_int_def field_simps)
  show ?thesis by (simp add: eq power_int_add)
qed

lemma pow2_of_nat: "pow2 (int n) = 2 ^ n"
  by (simp add: pow2_def)

lemma pow2_diff: "pow2 (a - b) = pow2 a / pow2 b"
  using pow2_add [of "a - b" b] by (simp add: field_simps)

lemma pow2_mono: "a \<le> b \<Longrightarrow> pow2 a \<le> pow2 b"
proof -
  assume "a \<le> b"
  then have "pow2 b = pow2 a * 2 ^ nat (b - a)"
    using pow2_add [of a "b - a"] by (simp add: pow2_def)
  then show ?thesis by simp
qed

lemma pow2_one: "pow2 1 = 2"
  by (simp add: pow2_def)

lemma pow2_less_iff: "pow2 a < pow2 b \<longleftrightarrow> a < b"
proof
  assume "pow2 a < pow2 b"
  then show "a < b" using pow2_mono [of b a] by linarith
next
  assume "a < b"
  then have "pow2 (a + 1) \<le> pow2 b" by (simp add: pow2_mono)
  then have "2 * pow2 a \<le> pow2 b" by (simp add: pow2_add pow2_one)
  with pow2_pos [of a] show "pow2 a < pow2 b" by linarith
qed

lemma binexp_bounds:
  assumes "0 < q"
  shows "pow2 (binexp q) \<le> q" and "q < pow2 (binexp q + 1)"
proof -
  obtain p d where pd: "quotient_of q = (p, d)" by fastforce
  have d: "0 < d" using pd by (simp add: quotient_of_denom_pos)
  have q: "q = of_int p / of_int d" using pd by (rule quotient_of_div)
  have "0 < p" using assms d unfolding q by (simp add: zero_less_divide_iff)
  define a b where "a = bit_len (nat p)" and "b = bit_len (nat d)"
  define e where "e = int a - int b"
  have pb: "2 ^ (a - 1) \<le> nat p \<and> nat p < 2 ^ a" and db: "2 ^ (b - 1) \<le> nat d \<and> nat d < 2 ^ b"
    using bit_len_bounds [of "nat p"] bit_len_bounds [of "nat d"] \<open>0 < p\<close> \<open>0 < d\<close>
    unfolding a_def b_def by (simp_all only: zero_less_nat_eq)
  have ab: "0 < a" "0 < b"
    using \<open>0 < p\<close> \<open>0 < d\<close> by (simp_all add: a_def b_def bit_len_pos)
  have rp: "pow2 (int a - 1) \<le> of_int p" "of_int p < pow2 (int a)"
    and rd: "pow2 (int b - 1) \<le> of_int d" "of_int d < pow2 (int b)"
  proof -
    have *: "pow2 (int k - 1) = of_nat (2 ^ (k - 1))" if "0 < k" for k
      using that pow2_of_nat [of "k - 1"] by (simp add: of_nat_diff)
    have p': "of_int p = of_nat (nat p)" "of_int d = of_nat (nat d)"
      using \<open>0 < p\<close> \<open>0 < d\<close> by simp_all
    show "pow2 (int a - 1) \<le> of_int p" "pow2 (int b - 1) \<le> of_int d"
      unfolding p' * [OF ab(1)] * [OF ab(2)] of_nat_le_iff using pb db by simp_all
    show "of_int p < pow2 (int a)" "of_int d < pow2 (int b)"
      using pb db unfolding p' pow2_of_nat
      by (metis of_nat_less_iff of_nat_numeral of_nat_power)+
  qed
  have "pow2 (e - 1) * of_int d < pow2 (e - 1) * pow2 (int b)"
    using rd by simp
  also have "\<dots> = pow2 (int a - 1)"
    by (simp add: pow2_add [symmetric] e_def)
  also have "\<dots> \<le> of_int p" by (rule rp)
  finally have lo: "pow2 (e - 1) < q"
    using d by (simp add: q pos_less_divide_eq)
  have "of_int p < pow2 (e + 1) * pow2 (int b - 1)"
    using rp by (simp add: pow2_add [symmetric] e_def)
  also have "\<dots> \<le> pow2 (e + 1) * of_int d" using rd by simp
  finally have hi: "q < pow2 (e + 1)"
    using d by (simp add: q pos_divide_less_eq)
  have "binexp q = (if pow2 e \<le> q then e else e - 1)"
    by (simp add: binexp_def pd e_def a_def b_def)
  with lo hi show "pow2 (binexp q) \<le> q" and "q < pow2 (binexp q + 1)"
    by (auto split: if_splits)
qed

lemma round_half_even_int [simp]: "round_half_even (of_int n) = n"
  by (simp add: round_half_even_def)

text \<open>A rational that is a double already is not changed by rounding.\<close>

lemma round_pos_exact:
  assumes "0 < q" and q: "q = of_int m * pow2 k" and m: "m < 2 ^ 53" and k: "- 1074 \<le> k"
  shows "round_pos q = q"
proof -
  define u where "u = max (binexp q - 52) (- 1074)"
  have "q < pow2 53 * pow2 k"
  proof -
    have "(of_int m :: rat) < of_int (2 ^ 53)" using m by (simp only: of_int_less_iff)
    then have "of_int m < pow2 53" by (simp add: pow2_def)
    then show ?thesis unfolding q by (rule mult_strict_right_mono) simp
  qed
  then have "pow2 (binexp q) < pow2 (53 + k)"
    using binexp_bounds(1) [OF \<open>0 < q\<close>] by (simp add: pow2_add)
  then have "u \<le> k" using k by (simp add: pow2_less_iff u_def)
  then have "q = of_int (m * 2 ^ nat (k - u)) * pow2 u"
    using pow2_add [of "k - u" u] by (simp add: q pow2_def)
  moreover have "ulp q = pow2 u" by (simp add: ulp_def u_def)
  ultimately show ?thesis
    by (metis round_pos_def round_half_even_int nonzero_mult_div_cancel_right pow2_nonzero)
qed

lemma round_double_of_int:
  assumes "\<bar>n\<bar> < 2 ^ 53"
  shows "round_double (of_int n) = Fin (of_int n)"
proof (cases "n = 0")
  case True
  then show ?thesis by (simp add: round_double_def)
next
  case False
  let ?q = "of_int \<bar>n\<bar> :: rat"
  have "?q = of_int \<bar>n\<bar> * pow2 0" by (simp add: pow2_def)
  then have exact: "round_pos ?q = ?q"
    using round_pos_exact [of ?q "\<bar>n\<bar>" 0] False assms by simp
  have "?q < of_int (2 ^ 53)"
    using assms by (simp only: of_int_less_iff)
  also have "of_int (2 ^ 53) = pow2 53" by (simp add: pow2_def)
  also have "pow2 53 < pow2 1024" by (simp add: pow2_less_iff)
  finally have "\<not> pow2 1024 \<le> ?q" by (simp only: not_le)
  moreover have "\<bar>of_int n\<bar> = ?q" by simp
  ultimately have "round_double (of_int n) = Fin (if 0 < (of_int n :: rat) then ?q else - ?q)"
    using False unfolding round_double_def Let_def by (simp only: exact of_int_eq_0_iff if_False)
  then show ?thesis by auto
qed

text \<open>A shortcut for evaluation: integers of at most 53 bits are doubles.\<close>

lemma round_double_code [code]:
  "round_double q =
     (let (p, d) = quotient_of q
      in if d = 1 \<and> \<bar>p\<bar> < 9007199254740992 then Fin q
         else let v = round_pos \<bar>q\<bar>
              in if pow2 1024 \<le> v then (if 0 < q then PInf else NInf)
                 else Fin (if 0 < q then v else - v))"
proof -
  obtain p d where pd: "quotient_of q = (p, d)" by fastforce
  show ?thesis
  proof (cases "d = 1 \<and> \<bar>p\<bar> < 9007199254740992")
    case True
    then have "q = of_int p" using quotient_of_div [OF pd] by simp
    then show ?thesis using True pd round_double_of_int [of p] by simp
  next
    case False
    then have "q \<noteq> 0" using pd by (auto simp: quotient_of_int [of 0, simplified])
    then show ?thesis unfolding round_double_def pd prod.case Let_def if_not_P [OF False] by simp
  qed
qed

lemma round_double_numeral [py_simps]:
  "(numeral n :: int) < 2 ^ 53 \<Longrightarrow> round_double (numeral n) = Fin (numeral n)"
  "(numeral n :: int) < 2 ^ 53 \<Longrightarrow> round_double (- numeral n) = Fin (- numeral n)"
  "round_double 0 = Fin 0"
  "round_double 1 = Fin 1"
  using round_double_of_int [of "numeral n"] round_double_of_int [of "- numeral n"]
    round_double_of_int [of 0] round_double_of_int [of 1]
  by simp_all

lemma round_half_even_near:
  assumes "\<bar>x - of_int n\<bar> < 1 / 2"
  shows "round_half_even x = n"
proof -
  have "\<lfloor>x\<rfloor> = n \<or> \<lfloor>x\<rfloor> = n - 1" using assms by linarith
  then show ?thesis using assms by (auto simp: round_half_even_def Let_def)
qed

text \<open>A rational rounds to the nearest multiple of the distance of its binade.\<close>

lemma round_double_near:
  assumes k: "- 1074 \<le> k" "k < 900" and q: "pow2 (k + 52) \<le> q" "q < pow2 (k + 53)" and m: "\<bar>q / pow2 k - of_int m\<bar> < 1 / 2"
  shows "round_double q = Fin (of_int m * pow2 k)"
proof -
  have pos: "0 < q" using q(1) pow2_pos[of "k + 52"] by linarith
  have "pow2 (binexp q) < pow2 (k + 53)" "pow2 (k + 52) < pow2 (binexp q + 1)"
    using q binexp_bounds[OF pos] by linarith+
  then have "binexp q = k + 52" by (simp add: pow2_less_iff)
  then have "ulp q = pow2 k" using k by (simp add: ulp_def)
  then have r: "round_pos q = of_int m * pow2 k" by (simp add: round_pos_def round_half_even_near[OF m])
  have "of_int m - 1 / 2 < q / pow2 k" using m by linarith
  also have "q / pow2 k < pow2 (k + 53) / pow2 k" using q(2) by (simp add: divide_strict_right_mono)
  finally have "of_int m - 1 / 2 < pow2 53" by (simp add: pow2_add)
  then have "of_int m < pow2 54" by (simp add: pow2_def)
  then have "round_pos q < pow2 54 * pow2 k" unfolding r by (intro mult_strict_right_mono) simp_all
  also have "\<dots> \<le> pow2 1024" using k pow2_mono[of "54 + k" 1024] by (simp add: pow2_add)
  finally show ?thesis using pos by (simp add: round_double_def Let_def r not_le)
qed
lemma fadd_of_int:
  "\<bar>a + b\<bar> < 2 ^ 53 \<Longrightarrow> fadd (Fin (of_int a)) (Fin (of_int b)) = Fin (of_int (a + b))"
  using round_double_of_int [of "a + b"] by simp

lemma flt_irrefl [simp]: "\<not> flt x x"
  by (cases x) auto

lemma flt_NaN [simp]: "\<not> flt NaN x" "\<not> flt x NaN"
  by (cases x; simp)+

lemma flt_Fin_iff [simp]: "flt (Fin a) (Fin b) \<longleftrightarrow> a < b"
  by simp

lemma flt_trans: "flt x y \<Longrightarrow> flt y z \<Longrightarrow> flt x z"
  by (cases x; cases y; cases z) auto

lemma flt_asym: "flt x y \<Longrightarrow> \<not> flt y x"
  using flt_trans flt_irrefl by blast

end
