(* ===== verification/PyBase.thy ===== *)
theory PyBase
  imports PyFloat "HOL-Library.Sublist"
begin

text \<open>
  The part of Python the modelled code uses: exceptions, strings, dynamically typed
  values, dictionaries with string keys, truth testing, \<open>str()\<close> and \<open>float()\<close>.

  A \<open>str\<close> is a list of \<open>char\<close>, read as the code points below 256 (Latin-1), and the
  character classes are Python's on those code points. What the interpreter computes
  from text that is data (templates, patterns, timestamps, the printed form of floats and
  containers) is a parameter, the record \<open>pyrt\<close>.
\<close>

section \<open>Exceptions\<close>

datatype py_error =
    TypeError
  | ValueError string
  | AttributeError
  | KeyError string
  | IndexError
  | OverflowError
  | RegexError
  | DBAPIError string
  | RuntimeError string
  | PermissionError string
  | HTTPException nat string

text \<open>\<open>type(e).__name__\<close>\<close>

fun err_name :: "py_error \<Rightarrow> string" where
  "err_name TypeError = ''TypeError''"
| "err_name (ValueError _) = ''ValueError''"
| "err_name AttributeError = ''AttributeError''"
| "err_name (KeyError _) = ''KeyError''"
| "err_name IndexError = ''IndexError''"
| "err_name OverflowError = ''OverflowError''"
| "err_name RegexError = ''error''"
| "err_name (DBAPIError _) = ''DBAPIError''"
| "err_name (RuntimeError _) = ''RuntimeError''"
| "err_name (PermissionError _) = ''PermissionError''"
| "err_name (HTTPException _ _) = ''HTTPException''"

section \<open>Strings\<close>

definition ord :: "char \<Rightarrow> nat" where
  "ord c = of_char c"

definition py_isspace :: "char \<Rightarrow> bool" where
  "py_isspace c \<longleftrightarrow> (let n = ord c in 9 \<le> n \<and> n \<le> 13 \<or> 28 \<le> n \<and> n \<le> 32 \<or> n = 133 \<or> n = 160)"

text \<open>The regular-expression class \<open>\d\<close>, the characters \<open>int()\<close> reads.\<close>

definition is_dec_digit :: "char \<Rightarrow> bool" where
  "is_dec_digit c \<longleftrightarrow> 48 \<le> ord c \<and> ord c \<le> 57"

text \<open>\<open>str.isdigit\<close> also holds of the three superscript digits of Latin-1.\<close>

definition py_isdigit :: "string \<Rightarrow> bool" where
  "py_isdigit s \<longleftrightarrow> s \<noteq> [] \<and>
     list_all (\<lambda>c. is_dec_digit c \<or> ord c = 178 \<or> ord c = 179 \<or> ord c = 185) s"

definition is_ascii_alpha :: "char \<Rightarrow> bool" where
  "is_ascii_alpha c \<longleftrightarrow> 65 \<le> ord c \<and> ord c \<le> 90 \<or> 97 \<le> ord c \<and> ord c \<le> 122"

definition digit_val :: "char \<Rightarrow> int" where
  "digit_val c = int (ord c) - 48"

definition lower_char :: "char \<Rightarrow> char" where
  "lower_char c =
     (let n = ord c
      in if 65 \<le> n \<and> n \<le> 90 \<or> 192 \<le> n \<and> n \<le> 222 \<and> n \<noteq> 215 then char_of (n + 32) else c)"

definition upper_char :: "char \<Rightarrow> string" where
  "upper_char c =
     (let n = ord c
      in if 97 \<le> n \<and> n \<le> 122 \<or> 224 \<le> n \<and> n \<le> 254 \<and> n \<noteq> 247 then [char_of (n - 32)]
         else if n = 223 then ''SS'' else [c])"

definition py_lower :: "string \<Rightarrow> string" where
  "py_lower s = map lower_char s"

definition py_upper :: "string \<Rightarrow> string" where
  "py_upper s = concat (map upper_char s)"

definition rstrip_by :: "(char \<Rightarrow> bool) \<Rightarrow> string \<Rightarrow> string" where
  "rstrip_by P s = rev (dropWhile P (rev s))"

definition py_strip :: "string \<Rightarrow> string" where
  "py_strip s = rstrip_by py_isspace (dropWhile py_isspace s)"

definition rstrip_dots :: "string \<Rightarrow> string" where
  "rstrip_dots s = rstrip_by (\<lambda>c. c = CHR ''.'') s"

fun split_by :: "(char \<Rightarrow> bool) \<Rightarrow> string \<Rightarrow> string list" where
  "split_by P [] = [[]]"
| "split_by P (c # cs) =
     (if P c then [] # split_by P cs
      else case split_by P cs of [] \<Rightarrow> [[c]] | w # ws \<Rightarrow> (c # w) # ws)"

definition split_dot :: "string \<Rightarrow> string list" where
  "split_dot s = split_by (\<lambda>c. c = CHR ''.'') s"

definition py_words :: "string \<Rightarrow> string list" where
  "py_words s = filter (\<lambda>w. w \<noteq> []) (split_by py_isspace s)"

fun py_join :: "string \<Rightarrow> string list \<Rightarrow> string" where
  "py_join sep [] = []"
| "py_join sep [w] = w"
| "py_join sep (w # ws) = w @ sep @ py_join sep ws"

definition replace_char :: "char \<Rightarrow> string \<Rightarrow> string \<Rightarrow> string" where
  "replace_char a b s = concat (map (\<lambda>c. if c = a then b else [c]) s)"

fun py_contains :: "string \<Rightarrow> string \<Rightarrow> bool" where
  "py_contains k [] = (k = [])"
| "py_contains k (c # cs) = (prefix k (c # cs) \<or> py_contains k cs)"

text \<open>\<open>s.zfill(n)\<close> for a string without a sign.\<close>

definition py_zfill :: "nat \<Rightarrow> string \<Rightarrow> string" where
  "py_zfill n s = replicate (n - length s) (CHR ''0'') @ s"

text \<open>\<open>xs[i:j]\<close> for \<open>0 \<le> i\<close>: a negative \<open>j\<close> counts from the end.\<close>

definition py_slice :: "nat \<Rightarrow> int \<Rightarrow> 'a list \<Rightarrow> 'a list" where
  "py_slice i j xs =
     (let e = (if j < 0 then max 0 (int (length xs) + j) else j)
      in drop i (take (nat e) xs))"

definition in_quotes :: "string \<Rightarrow> string" where
  "in_quotes s = CHR 0x27 # s @ [CHR 0x27]"

definition nat_of_digits :: "string \<Rightarrow> nat" where
  "nat_of_digits s = foldl (\<lambda>n c. 10 * n + nat (digit_val c)) 0 s"

fun nat_str :: "nat \<Rightarrow> string" where
  "nat_str n = (if n < 10 then [char_of (48 + n)] else nat_str (n div 10) @ [char_of (48 + n mod 10)])"

declare nat_str.simps [simp del]

definition int_str :: "int \<Rightarrow> string" where
  "int_str i = (if i < 0 then CHR ''-'' # nat_str (nat (- i)) else nat_str (nat i))"

text \<open>The em dash of the messages is outside Latin-1 and written with two hyphens.\<close>

definition em_dash :: string where
  "em_dash = ''--''"

section \<open>Values\<close>

text \<open>
  A \<open>datetime\<close> is its wall-clock time (microseconds since year 1) and, when it is aware,
  its offset from UTC; a \<open>Decimal\<close> is sign, coefficient and exponent; a \<open>UUID\<close> is its
  canonical text.
\<close>

datatype pydatetime = Datetime int "int option"

datatype pyval =
    PNone
  | PBool bool
  | PInt int
  | PFloat pyfloat
  | PStr string
  | PList "pyval list"
  | PTuple "pyval list"
  | PSet "pyval list"
  | PDict "(string \<times> pyval) list"
  | PDatetime pydatetime
  | PDate int
  | PDecimal bool nat int
  | PUUID string

type_synonym pydict = "(string \<times> pyval) list"

text \<open>\<open>type(v).__name__\<close>\<close>

fun type_name :: "pyval \<Rightarrow> string" where
  "type_name PNone = ''NoneType''"
| "type_name (PBool _) = ''bool''"
| "type_name (PInt _) = ''int''"
| "type_name (PFloat _) = ''float''"
| "type_name (PStr _) = ''str''"
| "type_name (PList _) = ''list''"
| "type_name (PTuple _) = ''tuple''"
| "type_name (PSet _) = ''set''"
| "type_name (PDict _) = ''dict''"
| "type_name (PDatetime _) = ''datetime''"
| "type_name (PDate _) = ''date''"
| "type_name (PDecimal _ _ _) = ''Decimal''"
| "type_name (PUUID _) = ''UUID''"

text \<open>What the interpreter and the libraries compute from data, as parameters.\<close>

record pyrt =
  rt_str_obj :: "pyval \<Rightarrow> string"
  rt_str_format :: "string \<Rightarrow> pydict \<Rightarrow> py_error + string"
  rt_format_2f :: "pyfloat \<Rightarrow> string"
  rt_re_match :: "string \<Rightarrow> string \<Rightarrow> py_error + bool"
  rt_fromisoformat :: "string \<Rightarrow> py_error + pydatetime"
  rt_isoformat :: "pyval \<Rightarrow> string"
  rt_err_str :: "py_error \<Rightarrow> string"
  rt_json_dumps :: "pydict list \<Rightarrow> string"
  rt_json_sorted :: "bool \<Rightarrow> pyval \<Rightarrow> py_error + string"
  rt_json_loads :: "string \<Rightarrow> py_error + pyval"
  rt_uuid4 :: "nat \<Rightarrow> string"
  rt_pg_uuid :: "string \<Rightarrow> string option"

text \<open>A runtime for the concrete runs of this development.\<close>

definition example_rt :: pyrt where
  "example_rt =
     \<lparr>rt_str_obj = (\<lambda>_. ''<object>''), rt_str_format = (\<lambda>t _. Inr t),
      rt_format_2f = (\<lambda>_. ''0.00''), rt_re_match = (\<lambda>p s. Inr (p = s)),
      rt_fromisoformat = (\<lambda>_. Inl (ValueError ''Invalid isoformat string'')), rt_isoformat = (\<lambda>_. ''1970-01-01''),
      rt_err_str = err_name, rt_json_dumps = (\<lambda>_. ''[]''), rt_json_sorted = (\<lambda>_ _. Inr ''{}''),
      rt_json_loads = (\<lambda>_. Inr (PDict [])),
      rt_uuid4 = nat_str, rt_pg_uuid = Some\<rparr>"

text \<open>A text that the server reads as a \<open>uuid\<close> parameter.\<close>

definition uuid_arg :: "pyrt \<Rightarrow> string \<Rightarrow> py_error + string" where
  "uuid_arg rt s = (case rt_pg_uuid rt s of None \<Rightarrow> Inl (DBAPIError ''DataError'') | Some u \<Rightarrow> Inr u)"

text \<open>A row that a constraint of its table refuses.\<close>

definition integrity_error :: py_error where
  "integrity_error = DBAPIError ''IntegrityError''"

definition in_unit :: "pyfloat \<Rightarrow> bool" where
  "in_unit x \<longleftrightarrow> fle (Fin 0) x \<and> fle x (Fin 1)"

definition dict_get :: "pydict \<Rightarrow> string \<Rightarrow> pyval \<Rightarrow> pyval" where
  "dict_get d k dflt = (case map_of d k of None \<Rightarrow> dflt | Some v \<Rightarrow> v)"

text \<open>\<open>v.get(k, default)\<close>: anything but a dictionary has no attribute \<open>get\<close>.\<close>

definition py_get :: "pyval \<Rightarrow> string \<Rightarrow> pyval \<Rightarrow> py_error + pyval" where
  "py_get v k dflt = (case v of PDict d \<Rightarrow> Inr (dict_get d k dflt) | _ \<Rightarrow> Inl AttributeError)"

fun truthy :: "pyval \<Rightarrow> bool" where
  "truthy PNone = False"
| "truthy (PBool b) = b"
| "truthy (PInt i) = (i \<noteq> 0)"
| "truthy (PFloat x) = (x \<noteq> Fin 0)"
| "truthy (PStr s) = (s \<noteq> [])"
| "truthy (PList xs) = (xs \<noteq> [])"
| "truthy (PTuple xs) = (xs \<noteq> [])"
| "truthy (PSet xs) = (xs \<noteq> [])"
| "truthy (PDict d) = (d \<noteq> [])"
| "truthy (PDatetime _) = True"
| "truthy (PDate _) = True"
| "truthy (PDecimal _ c _) = (c \<noteq> 0)"
| "truthy (PUUID _) = True"

text \<open>\<open>v or w\<close> for values.\<close>

definition py_or :: "pyval \<Rightarrow> pyval \<Rightarrow> pyval" where
  "py_or v w = (if truthy v then v else w)"

text \<open>The items a \<open>for\<close> statement goes through.\<close>

definition py_iter :: "pyval \<Rightarrow> py_error + pyval list" where
  "py_iter v =
     (case v of
        PList xs \<Rightarrow> Inr xs | PTuple xs \<Rightarrow> Inr xs | PSet xs \<Rightarrow> Inr xs
      | PStr s \<Rightarrow> Inr (map (\<lambda>c. PStr [c]) s)
      | PDict d \<Rightarrow> Inr (map (\<lambda>(k, _). PStr k) d)
      | _ \<Rightarrow> Inl TypeError)"

fun hashable :: "pyval \<Rightarrow> bool" where
  "hashable (PList _) = False"
| "hashable (PSet _) = False"
| "hashable (PDict _) = False"
| "hashable (PTuple xs) = list_all hashable xs"
| "hashable _ = True"

fun py_str :: "pyrt \<Rightarrow> pyval \<Rightarrow> string" where
  "py_str rt PNone = ''None''"
| "py_str rt (PBool b) = (if b then ''True'' else ''False'')"
| "py_str rt (PInt i) = int_str i"
| "py_str rt (PStr s) = s"
| "py_str rt (PUUID s) = s"
| "py_str rt v = rt_str_obj rt v"

definition opt_str :: "string option \<Rightarrow> pyval" where
  "opt_str x = (case x of None \<Rightarrow> PNone | Some s \<Rightarrow> PStr s)"

text \<open>\<open>x or d\<close> for an optional string: an empty string is falsy.\<close>

definition str_or :: "string option \<Rightarrow> string \<Rightarrow> string" where
  "str_or x d = (case x of None \<Rightarrow> d | Some s \<Rightarrow> if s = [] then d else s)"

section \<open>float()\<close>

definition pow10 :: "int \<Rightarrow> rat" where
  "pow10 k = (if 0 \<le> k then 10 ^ nat k else 1 / 10 ^ nat (- k))"

definition split_sign :: "string \<Rightarrow> bool \<times> string" where
  "split_sign s =
     (case s of [] \<Rightarrow> (False, [])
      | c # cs \<Rightarrow> if c = CHR ''-'' then (True, cs) else if c = CHR ''+'' then (False, cs) else (False, s))"

definition parse_exponent :: "string \<Rightarrow> int option" where
  "parse_exponent s =
     (case s of [] \<Rightarrow> Some 0
      | c # cs \<Rightarrow>
          if c \<noteq> CHR ''e'' \<and> c \<noteq> CHR ''E'' then None
          else let (neg, ds) = split_sign cs
               in if ds = [] \<or> \<not> list_all is_dec_digit ds then None
                  else Some (if neg then - int (nat_of_digits ds) else int (nat_of_digits ds)))"

definition parse_decimal :: "string \<Rightarrow> rat option" where
  "parse_decimal s =
     (let ip = takeWhile is_dec_digit s; r = dropWhile is_dec_digit s;
          (fp, r') = (case r of [] \<Rightarrow> ([], r)
             | c # cs \<Rightarrow> if c = CHR ''.'' then (takeWhile is_dec_digit cs, dropWhile is_dec_digit cs)
                         else ([], r))
      in if ip = [] \<and> fp = [] then None
         else case parse_exponent r' of None \<Rightarrow> None
              | Some e \<Rightarrow> Some (of_nat (nat_of_digits (ip @ fp)) * pow10 (e - int (length fp))))"

text \<open>Underscores are accepted between digits only.\<close>

fun underscores_ok :: "bool \<Rightarrow> string \<Rightarrow> bool" where
  "underscores_ok p [] = True"
| "underscores_ok p (c # cs) =
     (if c = CHR ''_'' then p \<and> cs \<noteq> [] \<and> is_dec_digit (hd cs) \<and> underscores_ok False cs
      else underscores_ok (is_dec_digit c) cs)"

definition float_of_string :: "string \<Rightarrow> py_error + pyfloat" where
  "float_of_string s =
     (let (neg, u) = split_sign (py_strip s); low = py_lower u
      in if low = ''inf'' \<or> low = ''infinity'' then Inr (if neg then NInf else PInf)
         else if low = ''nan'' then Inr NaN
         else if \<not> underscores_ok False u then Inl (ValueError ''could not convert string to float'')
         else case parse_decimal (filter (\<lambda>c. c \<noteq> CHR ''_'') u) of
                None \<Rightarrow> Inl (ValueError ''could not convert string to float'')
              | Some q \<Rightarrow> Inr (round_double (if neg then - q else q)))"

definition float_of_rat :: "rat \<Rightarrow> py_error + pyfloat" where
  "float_of_rat q = (case round_double q of Fin v \<Rightarrow> Inr (Fin v) | _ \<Rightarrow> Inl OverflowError)"

fun to_float :: "pyval \<Rightarrow> py_error + pyfloat" where
  "to_float (PBool b) = Inr (Fin (if b then 1 else 0))"
| "to_float (PInt i) = float_of_rat (of_int i)"
| "to_float (PFloat x) = Inr x"
| "to_float (PStr s) = float_of_string s"
| "to_float (PDecimal neg c e) = Inr (round_double ((if neg then - 1 else 1) * of_nat c * pow10 e))"
| "to_float _ = Inl TypeError"

text \<open>\<open>try: float(v) / except (TypeError, ValueError): None\<close>; an \<open>OverflowError\<close> escapes.\<close>

definition float_or_none :: "pyval \<Rightarrow> py_error + pyfloat option" where
  "float_or_none v =
     (case to_float v of
        Inr x \<Rightarrow> Inr (Some x)
      | Inl TypeError \<Rightarrow> Inr None
      | Inl (ValueError _) \<Rightarrow> Inr None
      | Inl e \<Rightarrow> Inl e)"

section \<open>Order of timestamps\<close>

text \<open>
  Two aware datetimes compare as instants, two naive ones as wall-clock times; a naive and
  an aware one raise.
\<close>

fun dt_less :: "pydatetime \<Rightarrow> pydatetime \<Rightarrow> py_error + bool" where
  "dt_less (Datetime a (Some o1)) (Datetime b (Some o2)) = Inr (a - o1 < b - o2)"
| "dt_less (Datetime a None) (Datetime b None) = Inr (a < b)"
| "dt_less _ _ = Inl TypeError"

section \<open>Evaluation rules\<close>

lemma to_float_int [py_simps]:
  "\<bar>i\<bar> < 2 ^ 53 \<Longrightarrow> to_float (PInt i) = Inr (Fin (of_int i))"
  by (simp add: float_of_rat_def round_double_of_int)

lemma dict_get_Cons [simp]:
  "dict_get [] k dflt = dflt"
  "dict_get ((k', v) # d) k dflt = (if k = k' then v else dict_get d k dflt)"
  by (simp_all add: dict_get_def)

lemma py_get_simps [simp]:
  "py_get (PDict d) k dflt = Inr (dict_get d k dflt)"
  by (simp add: py_get_def)

lemma map_lower_char_idem: "lower_char (lower_char c) = lower_char c"
proof -
  have "65 \<le> n \<and> n \<le> 90 \<or> 192 \<le> n \<and> n \<le> 222 \<and> n \<noteq> 215 \<Longrightarrow>
      of_char (char_of (n + 32)) = n + (32 :: nat)" for n
    by auto
  then show ?thesis by (auto simp: lower_char_def ord_def Let_def)
qed

lemma py_lower_idem [simp]: "py_lower (py_lower s) = py_lower s"
  by (simp add: py_lower_def map_lower_char_idem)

lemma strip_ends:
  assumes "s \<noteq> []" "\<not> py_isspace (hd s)" "\<not> py_isspace (last s)"
  shows "py_strip s = s"
proof -
  have "dropWhile py_isspace s = s" using assms by (cases s) auto
  moreover have "dropWhile py_isspace (rev s) = rev s" using assms by (cases s rule: rev_cases) auto
  ultimately show ?thesis by (simp add: py_strip_def rstrip_by_def)
qed

lemma strip_again: "py_strip (py_strip s) = py_strip s"
proof (cases "py_strip s = []")
  case False
  let ?d = "dropWhile py_isspace s"
  have r: "py_strip s = rev (dropWhile py_isspace (rev ?d))" by (simp add: py_strip_def rstrip_by_def)
  then have ne: "dropWhile py_isspace (rev ?d) \<noteq> []" using False by simp
  then have "\<not> py_isspace (hd (dropWhile py_isspace (rev ?d)))" by (metis hd_dropWhile dropWhile_eq_Nil_conv)
  then have l: "\<not> py_isspace (last (py_strip s))" by (simp add: r last_rev)
  obtain u where "rev ?d = u @ dropWhile py_isspace (rev ?d)" by (metis takeWhile_dropWhile_id)
  then have "?d = py_strip s @ rev u" by (metis r rev_append rev_rev_ident)
  then have "hd (py_strip s) = hd ?d" "?d \<noteq> []" using False by (metis hd_append2, metis append_is_Nil_conv)
  then have "\<not> py_isspace (hd (py_strip s))" by (metis hd_dropWhile dropWhile_eq_Nil_conv)
  with l False show ?thesis by (intro strip_ends)
next
  case True
  have "py_strip [] = []" by (simp add: py_strip_def rstrip_by_def)
  then show ?thesis by (simp only: True)
qed

lemma isspace_lower [simp]: "py_isspace (lower_char c) = py_isspace c"
proof -
  have "65 \<le> n \<and> n \<le> 90 \<or> 192 \<le> n \<and> n \<le> 222 \<and> n \<noteq> 215 \<Longrightarrow>
      of_char (char_of (n + 32)) = n + (32 :: nat)" for n
    by auto
  then show ?thesis by (auto simp: lower_char_def ord_def Let_def py_isspace_def)
qed

lemma strip_lower: "py_strip (py_lower s) = py_lower (py_strip s)"
  by (simp add: py_strip_def rstrip_by_def py_lower_def dropWhile_map rev_map comp_def)

end
