(* ===== verification/FsmaValidation.thy ===== *)
theory FsmaValidation
  imports PyBase
begin

text \<open>
  \<^verbatim>\<open>services/shared/fsma_validation.py\<close>: GS1 and FDA identifier validation. The data classes
  are records, every validator is one definition, and the values it is given are
  dynamically typed (the code tests \<open>isinstance(value, str)\<close>). The locale
  \<open>gs1_validator\<close> is the contract the three GS1 validators share.
\<close>

section \<open>Data\<close>

datatype IdentifierType = TLC | GTIN | GLN | SSCC | UNKNOWN

datatype ValidationSeverity = ERROR | WARNING | INFO

record ValidationError =
  ve_field :: string
  ve_message :: string
  ve_severity :: ValidationSeverity

record ValidationResult =
  is_valid :: bool
  identifier_type :: IdentifierType
  original_value :: pyval
  normalized_value :: "string option"
  vr_errors :: "ValidationError list"
  vr_warnings :: "string list"

definition mk_error :: "string \<Rightarrow> string \<Rightarrow> ValidationError" where
  "mk_error f m = \<lparr>ve_field = f, ve_message = m, ve_severity = ERROR\<rparr>"

definition invalid_result :: "IdentifierType \<Rightarrow> pyval \<Rightarrow> string \<Rightarrow> string \<Rightarrow> ValidationResult" where
  "invalid_result ty v f m =
     \<lparr>is_valid = False, identifier_type = ty, original_value = v, normalized_value = None,
      vr_errors = [mk_error f m], vr_warnings = []\<rparr>"

definition valid_result :: "IdentifierType \<Rightarrow> pyval \<Rightarrow> string \<Rightarrow> string list \<Rightarrow> ValidationResult" where
  "valid_result ty v n ws =
     \<lparr>is_valid = True, identifier_type = ty, original_value = v, normalized_value = Some n,
      vr_errors = [], vr_warnings = ws\<rparr>"

section \<open>Check digits\<close>

text \<open>\<open>re.sub(r"\D", "", s)\<close>\<close>

definition strip_nondigits :: "string \<Rightarrow> string" where
  "strip_nondigits s = filter is_dec_digit s"

definition gs1_check_digit :: "string \<Rightarrow> int" where
  "gs1_check_digit digits =
     (let total = sum_list (map (\<lambda>(i, d). digit_val d * (if odd i then 1 else 3))
                              (List.enumerate 0 (rev digits)))
      in (10 - total mod 10) mod 10)"

definition validate_gs1_check :: "string \<Rightarrow> string \<Rightarrow> IdentifierType \<Rightarrow> ValidationResult option" where
  "validate_gs1_check clean field_name id_type =
     (let expected = gs1_check_digit (butlast clean)
      in if digit_val (last clean) \<noteq> expected
         then Some (invalid_result id_type (PStr clean) field_name
                      (''Check digit invalid (expected '' @ int_str expected @ '')''))
         else None)"

section \<open>Validators\<close>

definition validate_gln :: "pyval \<Rightarrow> ValidationResult" where
  "validate_gln gln =
     (case gln of
        PStr s \<Rightarrow>
          if s = [] then invalid_result GLN gln ''gln'' ''GLN is required''
          else let clean = strip_nondigits s
               in if length clean \<noteq> 13
                  then invalid_result GLN gln ''gln'' ''GLN must be 13 numeric digits''
                  else (case validate_gs1_check clean ''gln'' GLN of
                          Some chk \<Rightarrow> chk\<lparr>original_value := gln\<rparr>
                        | None \<Rightarrow> valid_result GLN gln clean [])
      | _ \<Rightarrow> invalid_result GLN gln ''gln'' ''GLN is required'')"

definition validate_gtin :: "pyval \<Rightarrow> ValidationResult" where
  "validate_gtin gtin =
     (case gtin of
        PStr s \<Rightarrow>
          if s = [] then invalid_result GTIN gtin ''gtin'' ''GTIN is required''
          else let clean = strip_nondigits s
               in if length clean \<notin> {8, 12, 13, 14}
                  then invalid_result GTIN gtin ''gtin'' ''GTIN must be 8, 12, 13, or 14 numeric digits''
                  else (case validate_gs1_check clean ''gtin'' GTIN of
                          Some chk \<Rightarrow> chk\<lparr>original_value := gtin\<rparr>
                        | None \<Rightarrow> valid_result GTIN gtin (py_zfill 14 clean)
                            (if length clean \<noteq> 14
                             then [''Normalized from GTIN-'' @ nat_str (length clean) @ '' to GTIN-14'']
                             else []))
      | _ \<Rightarrow> invalid_result GTIN gtin ''gtin'' ''GTIN is required'')"

definition tlc_lot_char :: "char \<Rightarrow> bool" where
  "tlc_lot_char c \<longleftrightarrow> is_ascii_alpha c \<or> is_dec_digit c \<or> c = CHR ''-'' \<or> c = CHR ''.''"

text \<open>\<open>^\d{14}[A-Za-z0-9\-\.]+$\<close> on a stripped string\<close>

definition tlc_production_pattern :: "string \<Rightarrow> bool" where
  "tlc_production_pattern s \<longleftrightarrow>
     14 < length s \<and> list_all is_dec_digit (take 14 s) \<and> list_all tlc_lot_char (drop 14 s)"

text \<open>\<open>^[A-Za-z0-9\-\._/]+$\<close> on a stripped string\<close>

definition tlc_usual_chars :: "string \<Rightarrow> bool" where
  "tlc_usual_chars s \<longleftrightarrow>
     s \<noteq> [] \<and> list_all (\<lambda>c. tlc_lot_char c \<or> c = CHR ''_'' \<or> c = CHR ''/'') s"

definition validate_tlc :: "pyrt \<Rightarrow> bool \<Rightarrow> pyval \<Rightarrow> ValidationResult" where
  "validate_tlc rt strict tlc =
     (let raw = (if truthy tlc then py_str rt tlc else []); cleaned = py_strip raw
      in if length cleaned < 3
         then invalid_result TLC (PStr raw) ''tlc'' ''TLC must be at least 3 characters''
         else valid_result TLC (PStr raw) cleaned
           ((if strict \<and> \<not> tlc_production_pattern cleaned
             then [''Warning: TLC does not match production pattern (14-digit GTIN prefix + alphanumeric lot suffix); this is not a validation failure'']
             else []) @
            (if \<not> tlc_usual_chars cleaned
             then [''TLC contains unusual characters; consider strict validation''] else []) @
            (if 50 < length cleaned then [''TLC is unusually long (>50 characters)''] else [])))"

definition validate_sscc :: "pyval \<Rightarrow> ValidationResult" where
  "validate_sscc sscc =
     (case sscc of
        PStr s \<Rightarrow>
          if s = [] then invalid_result SSCC sscc ''sscc'' ''SSCC is required''
          else let clean = strip_nondigits s
               in if length clean \<noteq> 18
                  then invalid_result SSCC sscc ''sscc'' ''SSCC must be 18 numeric digits''
                  else (case validate_gs1_check clean ''sscc'' SSCC of
                          Some chk \<Rightarrow> chk\<lparr>original_value := sscc\<rparr>
                        | None \<Rightarrow> valid_result SSCC sscc clean [])
      | _ \<Rightarrow> invalid_result SSCC sscc ''sscc'' ''SSCC is required'')"

section \<open>Public GS1 helpers\<close>

text \<open>
  \<open>isdigit\<close> lets superscript digits through; \<open>int(d)\<close> then raises the same exception class.
\<close>

definition calculate_gs1_check_digit :: "pyval \<Rightarrow> py_error + int" where
  "calculate_gs1_check_digit digits =
     (case digits of
        PStr s \<Rightarrow> if \<not> py_isdigit s \<or> \<not> list_all is_dec_digit s
                  then Inl (ValueError ''Expected numeric string'')
                  else Inr (gs1_check_digit s)
      | _ \<Rightarrow> Inl (ValueError ''Expected numeric string''))"

definition verify_gs1_check_digit :: "pyval \<Rightarrow> bool" where
  "verify_gs1_check_digit number =
     (case number of
        PStr s \<Rightarrow> 2 \<le> length s \<and> list_all is_dec_digit s \<and>
                  digit_val (last s) = gs1_check_digit (butlast s)
      | _ \<Rightarrow> False)"

definition normalize_gtin :: "pyval \<Rightarrow> py_error + string" where
  "normalize_gtin gtin =
     (case gtin of PStr s \<Rightarrow> Inr (py_zfill 14 (strip_nondigits s))
      | _ \<Rightarrow> Inl (ValueError ''Expected GTIN string''))"

definition extract_company_prefix :: "pyval \<Rightarrow> int \<Rightarrow> py_error + string" where
  "extract_company_prefix gtin14 prefix_length =
     (case gtin14 of
        PStr s \<Rightarrow> Inr (py_slice 1 (1 + prefix_length) (py_zfill 14 (strip_nondigits s)))
      | _ \<Rightarrow> Inl (ValueError ''Expected GTIN-14 string''))"

section \<open>Dispatch\<close>

definition detect_identifier_type :: "pyval \<Rightarrow> IdentifierType" where
  "detect_identifier_type v =
     (case v of
        PStr s \<Rightarrow>
          let clean = strip_nondigits s
          in if clean = s
             then (if length clean = 18 then SSCC
                   else if length clean = 13 then GLN
                   else if length clean \<in> {8, 12, 14} then GTIN
                   else TLC)
             else TLC
      | _ \<Rightarrow> UNKNOWN)"

fun validator_for :: "pyrt \<Rightarrow> bool \<Rightarrow> IdentifierType \<Rightarrow> (pyval \<Rightarrow> ValidationResult) option" where
  "validator_for rt strict GLN = Some validate_gln"
| "validator_for rt strict GTIN = Some validate_gtin"
| "validator_for rt strict TLC = Some (validate_tlc rt strict)"
| "validator_for rt strict SSCC = Some validate_sscc"
| "validator_for rt strict UNKNOWN = None"

definition validate_identifier ::
  "pyrt \<Rightarrow> pyval \<Rightarrow> IdentifierType option \<Rightarrow> bool \<Rightarrow> ValidationResult" where
  "validate_identifier rt v expected_type strict =
     (let id_type = (case expected_type of Some t \<Rightarrow> t | None \<Rightarrow> detect_identifier_type v)
      in case validator_for rt strict id_type of
           None \<Rightarrow> invalid_result id_type v ''identifier''
                     ''Unsupported identifier type: IdentifierType.UNKNOWN''
         | Some validator \<Rightarrow> validator v)"

definition validate_batch ::
  "pyrt \<Rightarrow> (pyval \<times> IdentifierType option) list \<Rightarrow> bool \<Rightarrow> ValidationResult list" where
  "validate_batch rt identifiers strict =
     map (\<lambda>(v, expected_type). validate_identifier rt v expected_type strict) identifiers"

section \<open>The weighted sum\<close>

text \<open>
  The total of a whole number, check digit included: weight 1 for the rightmost digit, then
  3, 1, 3 and so on. A number passes exactly when ten divides it.
\<close>

definition gs1_weight :: "nat \<Rightarrow> int" where
  "gs1_weight j = (if even j then 1 else 3)"

definition gs1_sum :: "string \<Rightarrow> int" where
  "gs1_sum s = (\<Sum>j<length s. gs1_weight j * digit_val (rev s ! j))"

lemma is_dec_digit_val: "is_dec_digit c \<longleftrightarrow> 0 \<le> digit_val c \<and> digit_val c \<le> 9"
  by (auto simp: is_dec_digit_def digit_val_def)

lemma digit_val_inj: "digit_val c = digit_val d \<longleftrightarrow> c = d"
  by (simp add: digit_val_def ord_def)

lemma enumerate_sum_list:
  "sum_list (map (\<lambda>(i, d). digit_val d * w i) (List.enumerate k xs)) =
   (\<Sum>j<length xs. w (k + j) * digit_val (xs ! j))"
proof (induction xs arbitrary: k)
  case Nil
  then show ?case by simp
next
  case (Cons x xs)
  have "(\<Sum>j<length (x # xs). w (k + j) * digit_val ((x # xs) ! j)) =
        w k * digit_val x + (\<Sum>j<length xs. w (Suc k + j) * digit_val (xs ! j))"
    by (simp only: length_Cons sum.lessThan_Suc_shift) simp
  then show ?case by (simp add: Cons.IH)
qed

lemma gs1_check_digit_eq:
  "gs1_check_digit ds = (10 - (\<Sum>j<length ds. gs1_weight (Suc j) * digit_val (rev ds ! j)) mod 10) mod 10"
proof -
  have "sum_list (map (\<lambda>(i, d). digit_val d * (if odd i then 1 else 3)) (List.enumerate 0 (rev ds))) =
        (\<Sum>j<length ds. gs1_weight (Suc j) * digit_val (rev ds ! j))"
    by (subst enumerate_sum_list [of "\<lambda>i. if odd i then 1 else 3"])
       (auto simp: gs1_weight_def intro!: sum.cong)
  then show ?thesis by (simp add: gs1_check_digit_def)
qed

lemma gs1_sum_snoc:
  "gs1_sum (ds @ [c]) = digit_val c + (\<Sum>j<length ds. gs1_weight (Suc j) * digit_val (rev ds ! j))"
proof -
  have "gs1_sum (ds @ [c]) =
        (\<Sum>j<Suc (length ds). gs1_weight j * digit_val ((c # rev ds) ! j))"
    by (simp add: gs1_sum_def)
  also have "\<dots> = gs1_weight 0 * digit_val c +
        (\<Sum>j<length ds. gs1_weight (Suc j) * digit_val (rev ds ! j))"
    by (subst sum.lessThan_Suc_shift) simp
  finally show ?thesis by (simp add: gs1_weight_def)
qed

lemma check_digit_unique:
  fixes c t :: int
  assumes "0 \<le> c" and "c \<le> 9"
  shows "c = (10 - t mod 10) mod 10 \<longleftrightarrow> (c + t) mod 10 = 0"
proof -
  define r where "r = t mod 10"
  have r: "0 \<le> r" "r < 10" by (simp_all add: r_def)
  have "(c + t) mod 10 = (c + r) mod 10" by (simp add: r_def mod_simps)
  moreover have "(c + r) mod 10 = (if c + r < 10 then c + r else c + r - 10)"
  proof (cases "c + r < 10")
    case True
    then show ?thesis using assms r by simp
  next
    case False
    have "(c + r) mod 10 = (c + r - 10) mod 10" by (simp only: minus_mod_self2)
    also have "\<dots> = c + r - 10"
      by (rule mod_pos_pos_trivial) (use assms r False in linarith)+
    finally show ?thesis using False by simp
  qed
  moreover have "(10 - r) mod 10 = (if r = 0 then 0 else 10 - r)"
  proof (cases "r = 0")
    case False
    then show ?thesis using r by (simp only: if_False mod_pos_pos_trivial)
  qed simp
  ultimately show ?thesis using assms r unfolding r_def [symmetric] by (simp split: if_splits) linarith
qed

lemma gs1_check_digit_iff_sum:
  assumes "is_dec_digit c"
  shows "digit_val c = gs1_check_digit ds \<longleftrightarrow> gs1_sum (ds @ [c]) mod 10 = 0"
proof -
  have "0 \<le> digit_val c" and "digit_val c \<le> 9"
    using assms by (simp_all add: is_dec_digit_val)
  then show ?thesis
    unfolding gs1_check_digit_eq gs1_sum_snoc by (rule check_digit_unique)
qed

lemma verify_iff_sum:
  "verify_gs1_check_digit (PStr s) \<longleftrightarrow>
     2 \<le> length s \<and> list_all is_dec_digit s \<and> gs1_sum s mod 10 = 0"
proof (cases s rule: rev_cases)
  case Nil
  then show ?thesis by (simp add: verify_gs1_check_digit_def)
next
  case (snoc ds c)
  then show ?thesis
    using gs1_check_digit_iff_sum [of c ds] by (auto simp: verify_gs1_check_digit_def)
qed

lemma gs1_sum_update:
  assumes "i < length s"
  shows "gs1_sum (s[i := d]) - gs1_sum s =
         gs1_weight (length s - 1 - i) * (digit_val d - digit_val (s ! i))"
proof -
  define k where "k = length s - 1 - i"
  have k: "k < length s" using assms by (simp add: k_def)
  have nth: "rev (s[i := d]) ! j = (if j = k then d else rev s ! j)" if "j < length s" for j
    using that assms by (auto simp: rev_update k_def nth_list_update)
  have ki: "rev s ! k = s ! i" using assms by (simp add: rev_nth k_def)
  have "gs1_sum (s[i := d]) - gs1_sum s =
        (\<Sum>j<length s. gs1_weight j * (digit_val (rev (s[i := d]) ! j) - digit_val (rev s ! j)))"
    by (simp add: gs1_sum_def sum_subtractf [symmetric] algebra_simps)
  also have "\<dots> = (\<Sum>j<length s. if j = k then gs1_weight k * (digit_val d - digit_val (s ! i)) else 0)"
    by (rule sum.cong) (auto simp: nth ki)
  also have "\<dots> = gs1_weight k * (digit_val d - digit_val (s ! i))"
    using k by simp
  finally show ?thesis by (simp add: k_def)
qed

lemma gs1_sum_Cons: "gs1_sum (c # t) = gs1_sum t + gs1_weight (length t) * digit_val c"
proof -
  have "(\<Sum>j<length t. gs1_weight j * digit_val ((rev t @ [c]) ! j)) =
        (\<Sum>j<length t. gs1_weight j * digit_val (rev t ! j))"
    by (rule sum.cong) (simp_all add: nth_append)
  then show ?thesis by (simp add: gs1_sum_def nth_append)
qed

lemma gs1_sum_pad: "gs1_sum (replicate n (CHR ''0'') @ s) = gs1_sum s"
  by (induction n) (simp_all add: gs1_sum_Cons digit_val_def ord_def)

lemma not_dvd_small_change:
  fixes w x y :: int
  assumes "w = 1 \<or> w = 3" and "0 \<le> x" "x \<le> 9" "0 \<le> y" "y \<le> 9" and "x \<noteq> y"
  shows "(w * (x - y)) mod 10 \<noteq> 0"
  using assms by auto presburger+

lemma mod10_shift:
  fixes x y t :: int
  assumes "x = t + y \<or> x = t - y" and "t mod 10 = 0"
  shows "x mod 10 = 0 \<longleftrightarrow> y mod 10 = 0"
  using assms by presburger

lemma double_mod10_iff:
  fixes a b :: int
  assumes "0 \<le> a" "a \<le> 9" "0 \<le> b" "b \<le> 9"
  shows "(2 * (b - a)) mod 10 = 0 \<longleftrightarrow> \<bar>a - b\<bar> \<in> {0, 5}"
proof
  assume "(2 * (b - a)) mod 10 = 0"
  then have "10 dvd 2 * (b - a)" by (rule mod_0_imp_dvd)
  then obtain k where k: "2 * (b - a) = 10 * k" ..
  then have "b - a = 5 * k" by presburger
  with assms have "- 2 < k \<and> k < 2" by presburger
  then have "k = - 1 \<or> k = 0 \<or> k = 1" by auto
  with k show "\<bar>a - b\<bar> \<in> {0, 5}" by auto
next
  assume "\<bar>a - b\<bar> \<in> {0, 5}"
  then consider "b - a = 0" | "b - a = 5" | "b - a = - 5" by fastforce
  then show "(2 * (b - a)) mod 10 = 0" by cases simp_all
qed

lemma gs1_sum_wrong_digit:
  assumes "gs1_sum s mod 10 = 0" and "i < length s"
    and "is_dec_digit (s ! i)" and "is_dec_digit d" and "d \<noteq> s ! i"
  shows "gs1_sum (s[i := d]) mod 10 \<noteq> 0"
proof -
  have "(gs1_weight (length s - 1 - i) * (digit_val d - digit_val (s ! i))) mod 10 \<noteq> 0"
    by (rule not_dvd_small_change)
       (use assms(3,4,5) in \<open>auto simp: gs1_weight_def is_dec_digit_val digit_val_inj\<close>)
  then show ?thesis
    using assms(1) gs1_sum_update [OF assms(2), of d] by presburger
qed

section \<open>The contract of the GS1 validators\<close>

text \<open>The helper returns a failure exactly when the public verifier rejects the digits.\<close>

lemma validate_gs1_check_verify:
  "2 \<le> length (strip_nondigits s) \<Longrightarrow>
   validate_gs1_check (strip_nondigits s) f ty =
     (if verify_gs1_check_digit (PStr (strip_nondigits s)) then None
      else Some (invalid_result ty (PStr (strip_nondigits s)) f
             (''Check digit invalid (expected '' @
              int_str (gs1_check_digit (butlast (strip_nondigits s))) @ '')'')))"
  by (simp add: validate_gs1_check_def verify_gs1_check_digit_def strip_nondigits_def Let_def
      list_all_iff)

lemma strip_nondigits_digits [simp]: "list_all is_dec_digit (strip_nondigits s)"
  by (simp add: strip_nondigits_def list_all_iff)

lemma strip_nondigits_idem [simp]:
  "list_all is_dec_digit s \<Longrightarrow> strip_nondigits s = s"
  by (simp add: strip_nondigits_def list_all_iff filter_id_conv)

locale gs1_validator =
  fixes validate :: "pyval \<Rightarrow> ValidationResult"
    and kind :: IdentifierType
    and lengths :: "nat set"
    and norm :: "string \<Rightarrow> string"
  assumes valid_iff: "is_valid (validate v) \<longleftrightarrow>
      (\<exists>s. v = PStr s \<and> length (strip_nondigits s) \<in> lengths \<and>
           verify_gs1_check_digit (PStr (strip_nondigits s)))"
    and typed: "identifier_type (validate v) = kind"
    and original: "original_value (validate v) = v"
    and normalized: "normalized_value (validate (PStr s)) =
      (if is_valid (validate (PStr s)) then Some (norm (strip_nondigits s)) else None)"
    and errors: "vr_errors (validate v) = [] \<longleftrightarrow> is_valid (validate v)"
begin

lemma separators_ignored:
  "is_valid (validate (PStr s)) \<longleftrightarrow> is_valid (validate (PStr (strip_nondigits s)))"
  by (simp add: valid_iff)

lemma rejects_non_string: "(\<And>s. v \<noteq> PStr s) \<Longrightarrow> \<not> is_valid (validate v)"
  by (simp add: valid_iff)

lemma rejects_wrong_digit:
  assumes "is_valid (validate (PStr s))" and "list_all is_dec_digit s"
    and "i < length s" and "is_dec_digit d" and "d \<noteq> s ! i"
  shows "\<not> is_valid (validate (PStr (s[i := d])))"
proof -
  have si: "is_dec_digit (s ! i)" using assms(2,3) by (simp add: list_all_length)
  have upd: "list_all is_dec_digit (s[i := d])"
    using assms(2,3,4) by (simp add: list_all_length nth_list_update)
  have "gs1_sum s mod 10 = 0"
    using assms(1,2) by (auto simp: valid_iff verify_iff_sum)
  then have "gs1_sum (s[i := d]) mod 10 \<noteq> 0"
    using assms(3) si assms(4,5) by (rule gs1_sum_wrong_digit)
  then show ?thesis
    using upd by (auto simp: valid_iff verify_iff_sum)
qed

end

lemma strip_nondigits_empty [simp]: "strip_nondigits [] = []"
  by (simp add: strip_nondigits_def)

lemmas validator_unfolds =
  invalid_result_def valid_result_def mk_error_def Let_def validate_gs1_check_verify

interpretation gln: gs1_validator validate_gln GLN "{13}" id
proof unfold_locales
  fix v s
  show "is_valid (validate_gln v) \<longleftrightarrow>
      (\<exists>s. v = PStr s \<and> length (strip_nondigits s) \<in> {13} \<and>
           verify_gs1_check_digit (PStr (strip_nondigits s)))"
    by (cases v) (auto simp: validate_gln_def validator_unfolds)
  show "identifier_type (validate_gln v) = GLN" "original_value (validate_gln v) = v"
    by (cases v; auto simp: validate_gln_def validator_unfolds)+
  show "normalized_value (validate_gln (PStr s)) =
      (if is_valid (validate_gln (PStr s)) then Some (id (strip_nondigits s)) else None)"
    by (auto simp: validate_gln_def validator_unfolds)
  show "vr_errors (validate_gln v) = [] \<longleftrightarrow> is_valid (validate_gln v)"
    by (cases v) (auto simp: validate_gln_def validator_unfolds)
qed

interpretation sscc: gs1_validator validate_sscc SSCC "{18}" id
proof unfold_locales
  fix v s
  show "is_valid (validate_sscc v) \<longleftrightarrow>
      (\<exists>s. v = PStr s \<and> length (strip_nondigits s) \<in> {18} \<and>
           verify_gs1_check_digit (PStr (strip_nondigits s)))"
    by (cases v) (auto simp: validate_sscc_def validator_unfolds)
  show "identifier_type (validate_sscc v) = SSCC" "original_value (validate_sscc v) = v"
    by (cases v; auto simp: validate_sscc_def validator_unfolds)+
  show "normalized_value (validate_sscc (PStr s)) =
      (if is_valid (validate_sscc (PStr s)) then Some (id (strip_nondigits s)) else None)"
    by (auto simp: validate_sscc_def validator_unfolds)
  show "vr_errors (validate_sscc v) = [] \<longleftrightarrow> is_valid (validate_sscc v)"
    by (cases v) (auto simp: validate_sscc_def validator_unfolds)
qed

interpretation gtin: gs1_validator validate_gtin GTIN "{8, 12, 13, 14}" "py_zfill 14"
proof unfold_locales
  fix v s
  show "is_valid (validate_gtin v) \<longleftrightarrow>
      (\<exists>s. v = PStr s \<and> length (strip_nondigits s) \<in> {8, 12, 13, 14} \<and>
           verify_gs1_check_digit (PStr (strip_nondigits s)))"
    by (cases v) (auto simp: validate_gtin_def validator_unfolds)
  show "identifier_type (validate_gtin v) = GTIN" "original_value (validate_gtin v) = v"
    by (cases v; auto simp: validate_gtin_def validator_unfolds)+
  show "normalized_value (validate_gtin (PStr s)) =
      (if is_valid (validate_gtin (PStr s)) then Some (py_zfill 14 (strip_nondigits s)) else None)"
    by (auto simp: validate_gtin_def validator_unfolds)
  show "vr_errors (validate_gtin v) = [] \<longleftrightarrow> is_valid (validate_gtin v)"
    by (cases v) (auto simp: validate_gtin_def validator_unfolds)
qed

section \<open>Properties\<close>

lemma digit_char: "0 \<le> k \<Longrightarrow> k \<le> 9 \<Longrightarrow> digit_val (char_of (48 + nat k)) = k"
  by (simp add: digit_val_def ord_def)

lemma gs1_check_digit_range: "0 \<le> gs1_check_digit ds" "gs1_check_digit ds \<le> 9"
  unfolding gs1_check_digit_eq by (auto simp flip: less_eq_iff_succ_less intro: pos_mod_bound)

text \<open>
  Appending the check digit that \<open>calculate_gs1_check_digit\<close> computes
  to the digits it was given yields a number that \<open>verify_gs1_check_digit\<close> accepts.
\<close>

theorem gs1_calculate_then_verify:
  assumes "calculate_gs1_check_digit (PStr ds) = Inr c"
  shows "verify_gs1_check_digit (PStr (ds @ [char_of (48 + nat c)]))"
proof -
  have ds: "list_all is_dec_digit ds" "ds \<noteq> []" and c: "c = gs1_check_digit ds"
    using assms by (auto simp: calculate_gs1_check_digit_def py_isdigit_def split: if_splits)
  have dv: "digit_val (char_of (48 + nat c)) = c"
    using gs1_check_digit_range unfolding c by (rule digit_char)
  then have "is_dec_digit (char_of (48 + nat c))"
    using gs1_check_digit_range [of ds] by (simp add: is_dec_digit_val c)
  with ds dv show ?thesis
    by (cases ds) (auto simp: verify_gs1_check_digit_def c)
qed

theorem gs1_calculate_then_verify_witness:
  "calculate_gs1_check_digit (PStr ''400638133393'') = Inr 1 \<and>
   verify_gs1_check_digit (PStr (''400638133393'' @ [char_of (48 + nat 1)]))"
proof -
  have h: "calculate_gs1_check_digit (PStr ''400638133393'') = Inr 1" by code_simp
  show ?thesis using h gs1_calculate_then_verify [OF h] by blast
qed

text \<open>
  Changing any single digit of a number that passes
  \<open>verify_gs1_check_digit\<close> into another digit makes it fail.
\<close>

theorem gs1_detects_single_digit_error:
  assumes "verify_gs1_check_digit (PStr s)" and "i < length s"
    and "is_dec_digit d" and "d \<noteq> s ! i"
  shows "\<not> verify_gs1_check_digit (PStr (s[i := d]))"
proof -
  have "is_dec_digit (s ! i)" and "gs1_sum s mod 10 = 0"
    using assms(1,2) by (simp_all add: verify_iff_sum list_all_length)
  then have "gs1_sum (s[i := d]) mod 10 \<noteq> 0"
    using assms(2-4) by (intro gs1_sum_wrong_digit)
  then show ?thesis by (simp add: verify_iff_sum)
qed

theorem gs1_detects_single_digit_error_witness:
  "verify_gs1_check_digit (PStr ''4006381333931'') \<and>
   \<not> verify_gs1_check_digit (PStr (''4006381333931''[2 := CHR ''7'']))"
proof -
  have h: "verify_gs1_check_digit (PStr ''4006381333931'')" by code_simp
  show ?thesis
    using h gs1_detects_single_digit_error [OF h, of 2 "CHR ''7''"]
    by (simp add: is_dec_digit_def ord_def)
qed

text \<open>
  Exchanging two neighbouring digits of a number that passes is
  detected exactly when the two digits differ by neither 0 nor 5: the blind spot of the
  3-1 weighting, stated exactly.
\<close>

theorem gs1_transposition_detected_iff:
  assumes "verify_gs1_check_digit (PStr s)" and "Suc i < length s"
  shows "verify_gs1_check_digit (PStr (s[i := s ! Suc i, Suc i := s ! i])) \<longleftrightarrow>
         \<bar>digit_val (s ! i) - digit_val (s ! Suc i)\<bar> \<in> {0, 5}"
proof -
  let ?a = "digit_val (s ! i)" and ?b = "digit_val (s ! Suc i)"
  let ?t = "s[i := s ! Suc i]" and ?n = "length s - 1"
  have dig: "0 \<le> ?a" "?a \<le> 9" "0 \<le> ?b" "?b \<le> 9"
    using assms by (simp_all add: verify_iff_sum list_all_length is_dec_digit_val)
  have t: "?t ! Suc i = s ! Suc i" by simp
  have s1: "gs1_sum ?t = gs1_sum s + gs1_weight (?n - i) * (?b - ?a)"
    using gs1_sum_update [of i s "s ! Suc i"] assms(2) by simp
  have s2: "gs1_sum (?t[Suc i := s ! i]) = gs1_sum ?t + gs1_weight (?n - Suc i) * (?a - ?b)"
    using gs1_sum_update [of "Suc i" ?t "s ! i"] assms(2) t by simp
  have "?n - i = Suc (?n - Suc i)" using assms(2) by simp
  then have "gs1_weight (?n - i) - gs1_weight (?n - Suc i) = 2 \<or>
             gs1_weight (?n - i) - gs1_weight (?n - Suc i) = - 2"
    by (simp add: gs1_weight_def)
  moreover have "gs1_sum (?t[Suc i := s ! i]) =
      gs1_sum s + (gs1_weight (?n - i) - gs1_weight (?n - Suc i)) * (?b - ?a)"
    unfolding s2 s1 by (simp add: algebra_simps)
  ultimately have "gs1_sum (?t[Suc i := s ! i]) = gs1_sum s + 2 * (?b - ?a) \<or>
             gs1_sum (?t[Suc i := s ! i]) = gs1_sum s - 2 * (?b - ?a)"
    by auto
  moreover have "gs1_sum s mod 10 = 0" using assms(1) by (simp add: verify_iff_sum)
  moreover have "(2 * (?b - ?a)) mod 10 = 0 \<longleftrightarrow> \<bar>?a - ?b\<bar> \<in> {0, 5}"
    using dig by (rule double_mod10_iff)
  ultimately have "gs1_sum (?t[Suc i := s ! i]) mod 10 = 0 \<longleftrightarrow> \<bar>?a - ?b\<bar> \<in> {0, 5}"
    using mod10_shift [of "gs1_sum (?t[Suc i := s ! i])" "gs1_sum s" "2 * (?b - ?a)"] by argo
  moreover have "list_all is_dec_digit (?t[Suc i := s ! i])"
    using assms by (simp add: verify_iff_sum list_all_length nth_list_update)
  ultimately show ?thesis using assms by (simp add: verify_iff_sum)
qed

theorem gs1_transposition_detected_iff_witness:
  "\<not> verify_gs1_check_digit (PStr (''4006381333931''[3 := CHR ''3'', Suc 3 := CHR ''6'']))"
proof -
  have h: "verify_gs1_check_digit (PStr ''4006381333931'')" by code_simp
  show ?thesis
    using gs1_transposition_detected_iff [OF h, of 3] by (simp add: digit_val_def ord_def)
qed

lemma zfill_strip_digits:
  "list_all is_dec_digit s \<Longrightarrow> strip_nondigits (py_zfill n s) = py_zfill n s"
  by (simp add: py_zfill_def strip_nondigits_def list_all_iff filter_id_conv is_dec_digit_def ord_def)

lemma verify_zfill:
  assumes "verify_gs1_check_digit (PStr s)"
  shows "verify_gs1_check_digit (PStr (py_zfill n s))"
proof -
  have "list_all is_dec_digit (py_zfill n s)"
    using assms by (auto simp: verify_iff_sum py_zfill_def list_all_iff is_dec_digit_def ord_def)
  then show ?thesis
    using assms by (simp add: verify_iff_sum py_zfill_def gs1_sum_pad)
qed

text \<open>
  A GTIN of any of the four lengths that \<open>validate_gtin\<close> accepts is
  normalized to exactly 14 digits that still carry a valid check digit, and validating the
  normalized number again accepts it, without a warning and with the same normalized value.
\<close>

theorem validate_gtin_normalizes:
  assumes "is_valid (validate_gtin v)"
  shows "\<exists>n. normalized_value (validate_gtin v) = Some n \<and> length n = 14 \<and>
             verify_gs1_check_digit (PStr n) \<and>
             validate_gtin (PStr n) = valid_result GTIN (PStr n) n []"
proof -
  obtain s where v: "v = PStr s" and len: "length (strip_nondigits s) \<in> {8, 12, 13, 14}"
    and ok: "verify_gs1_check_digit (PStr (strip_nondigits s))"
    using assms by (auto simp: gtin.valid_iff)
  define n where "n = py_zfill 14 (strip_nondigits s)"
  have norm: "normalized_value (validate_gtin v) = Some n"
    using assms by (simp add: v gtin.normalized n_def)
  have len14: "length n = 14" using len by (auto simp: n_def py_zfill_def)
  have ver: "verify_gs1_check_digit (PStr n)" using ok by (simp add: n_def verify_zfill)
  have strip: "strip_nondigits n = n" by (simp add: n_def zfill_strip_digits)
  have "validate_gtin (PStr n) = valid_result GTIN (PStr n) n []"
    using len14 ver strip validate_gs1_check_verify [of n]
    by (auto simp: validate_gtin_def py_zfill_def Let_def)
  with norm len14 ver show ?thesis by blast
qed

theorem validate_gtin_normalizes_witness:
  "is_valid (validate_gtin (PStr ''0 36000 29145 2'')) \<and>
   (\<exists>n. normalized_value (validate_gtin (PStr ''0 36000 29145 2'')) = Some n \<and> length n = 14)"
proof -
  have h: "is_valid (validate_gtin (PStr ''0 36000 29145 2''))" by code_simp
  show ?thesis using h validate_gtin_normalizes [OF h] by blast
qed

lemma validate_tlc_type: "identifier_type (validate_tlc rt strict v) = TLC"
  by (simp add: validate_tlc_def Let_def invalid_result_def valid_result_def)

lemma validate_tlc_errors: "vr_errors (validate_tlc rt strict v) = [] \<longleftrightarrow> is_valid (validate_tlc rt strict v)"
  by (simp add: validate_tlc_def Let_def invalid_result_def valid_result_def mk_error_def)

text \<open>
  \<open>validate_identifier\<close> fails closed: its verdict is always about the
  requested type (or the detected one when none was requested), it reports an error exactly
  when it rejects, and a value that is not a string is never accepted as a GLN, GTIN or SSCC
  nor when the type has to be detected.
\<close>

theorem validate_identifier_fails_closed:
  "identifier_type (validate_identifier rt v ty strict) =
     (case ty of Some t \<Rightarrow> t | None \<Rightarrow> detect_identifier_type v) \<and>
   (vr_errors (validate_identifier rt v ty strict) = [] \<longleftrightarrow>
      is_valid (validate_identifier rt v ty strict)) \<and>
   (is_valid (validate_identifier rt v ty strict) \<and> ty \<noteq> Some TLC \<longrightarrow> (\<exists>s. v = PStr s)) \<and>
   \<not> is_valid (validate_identifier rt v (Some UNKNOWN) strict)"
proof -
  define t where "t = (case ty of Some t \<Rightarrow> t | None \<Rightarrow> detect_identifier_type v)"
  have eq: "validate_identifier rt v ty strict =
      (case validator_for rt strict t of
         None \<Rightarrow> invalid_result t v ''identifier'' ''Unsupported identifier type: IdentifierType.UNKNOWN''
       | Some validator \<Rightarrow> validator v)"
    unfolding validate_identifier_def Let_def t_def [symmetric] ..
  have "identifier_type (validate_identifier rt v ty strict) = t"
    unfolding eq by (cases t)
      (simp_all add: gln.typed gtin.typed sscc.typed validate_tlc_type invalid_result_def)
  moreover have "vr_errors (validate_identifier rt v ty strict) = [] \<longleftrightarrow>
      is_valid (validate_identifier rt v ty strict)"
    unfolding eq by (cases t)
      (simp_all add: gln.errors gtin.errors sscc.errors validate_tlc_errors invalid_result_def mk_error_def)
  moreover have "\<exists>s. v = PStr s"
    if "is_valid (validate_identifier rt v ty strict)" and "ty \<noteq> Some TLC"
  proof (cases t)
    case TLC
    with that(2) show ?thesis
      by (cases v) (auto simp: t_def detect_identifier_type_def split: option.splits)
  qed (use that(1) in \<open>auto simp: eq gln.valid_iff gtin.valid_iff sscc.valid_iff invalid_result_def\<close>)
  moreover have "\<not> is_valid (validate_identifier rt v (Some UNKNOWN) strict)"
    by (simp add: validate_identifier_def invalid_result_def)
  ultimately show ?thesis unfolding t_def by blast
qed

theorem validate_identifier_fails_closed_witness:
  "\<not> is_valid (validate_identifier example_rt (PInt 4006381333931) (Some GLN) False)"
  using validate_identifier_fails_closed [of example_rt "PInt 4006381333931" "Some GLN" False] by auto

end
