(* ===== verification/RuleTypes.thy ===== *)
theory RuleTypes
  imports PyBase
begin

text \<open>
  \<^verbatim>\<open>services/shared/rules/types.py\<close>, \<^verbatim>\<open>utils.py\<close> and \<^verbatim>\<open>verdict.py\<close>: the data the rules engine
  passes around, the tri-state compliance verdict of one evaluated event, the dotted-path
  lookup, and the regulator-facing classification of persisted rule rows.
\<close>

section \<open>types.py\<close>

record RuleDefinition =
  rd_rule_id :: string
  rd_rule_version :: int
  rd_title :: string
  rd_description :: "string option"
  rd_severity :: string
  rd_category :: string
  rd_applicability_conditions :: pyval
  rd_citation_reference :: "string option"
  rd_effective_date :: int
  rd_retired_date :: "int option"
  rd_evaluation_logic :: pyval
  rd_failure_reason_template :: string
  rd_remediation_suggestion :: "string option"

record RuleEvaluationResult =
  rr_evaluation_id :: string
  rr_rule_id :: string
  rr_rule_version :: int
  rr_rule_title :: string
  rr_severity :: string
  rr_result :: string
  rr_why_failed :: "string option"
  rr_evidence :: "pydict list"
  rr_confidence :: pyfloat
  rr_citation_reference :: "string option"
  rr_remediation_suggestion :: "string option"
  rr_category :: string

record EvaluationSummary =
  es_event_id :: pyval
  es_total_rules :: nat
  es_passed :: nat
  es_failed :: nat
  es_warned :: nat
  es_skipped :: nat
  es_errored :: nat
  es_not_ftl_scoped :: nat
  es_no_verdict_reason :: "string option"
  es_results :: "RuleEvaluationResult list"
  es_critical_failures :: "RuleEvaluationResult list"

text \<open>A result with the fields every call site copies from the rule, the others at their defaults.\<close>

definition rule_result :: "string \<Rightarrow> RuleDefinition \<Rightarrow> string \<Rightarrow> RuleEvaluationResult" where
  "rule_result uid rule res =
     \<lparr>rr_evaluation_id = uid, rr_rule_id = rd_rule_id rule, rr_rule_version = rd_rule_version rule,
      rr_rule_title = rd_title rule, rr_severity = rd_severity rule, rr_result = res,
      rr_why_failed = None, rr_evidence = [], rr_confidence = Fin 1,
      rr_citation_reference = None, rr_remediation_suggestion = None,
      rr_category = rd_category rule\<rparr>"

text \<open>A rule for the concrete runs of this development.\<close>

definition sample_rule :: RuleDefinition where
  "sample_rule =
     \<lparr>rd_rule_id = ''r1'', rd_rule_version = 1, rd_title = ''Lot code present'', rd_description = None,
      rd_severity = ''critical'', rd_category = ''kde_presence'', rd_applicability_conditions = PDict [],
      rd_citation_reference = None, rd_effective_date = 0, rd_retired_date = None,
      rd_evaluation_logic = PDict [(''type'', PStr ''field_presence''), (''field'', PStr ''lot'')],
      rd_failure_reason_template = ''missing'', rd_remediation_suggestion = None\<rparr>"

definition new_summary :: "pyval \<Rightarrow> nat \<Rightarrow> EvaluationSummary" where
  "new_summary event_id n_rules =
     \<lparr>es_event_id = event_id, es_total_rules = n_rules, es_passed = 0, es_failed = 0, es_warned = 0,
      es_skipped = 0, es_errored = 0, es_not_ftl_scoped = 0, es_no_verdict_reason = None,
      es_results = [], es_critical_failures = []\<rparr>"

definition str_truthy :: "string option \<Rightarrow> bool" where
  "str_truthy x = (case x of None \<Rightarrow> False | Some s \<Rightarrow> s \<noteq> [])"

definition compliant :: "EvaluationSummary \<Rightarrow> bool option" where
  "compliant s =
     (if es_total_rules s = 0 then None
      else if str_truthy (es_no_verdict_reason s) then None
      else if es_total_rules s \<le> es_not_ftl_scoped s then None
      else Some (es_failed s = 0 \<and> es_errored s = 0))"

definition verdict :: "EvaluationSummary \<Rightarrow> string" where
  "verdict s = (case compliant s of Some True \<Rightarrow> ''pass'' | Some False \<Rightarrow> ''fail'' | None \<Rightarrow> ''no_verdict'')"

definition verdict_reason :: "EvaluationSummary \<Rightarrow> string option" where
  "verdict_reason s =
     (if compliant s \<noteq> None then None
      else if str_truthy (es_no_verdict_reason s) then es_no_verdict_reason s
      else if es_total_rules s = 0 then Some ''nothing_evaluated''
      else Some ''not_ftl_scoped'')"

section \<open>utils.py\<close>

fun walk_path :: "pyval \<Rightarrow> string list \<Rightarrow> pyval" where
  "walk_path v [] = v"
| "walk_path (PDict d) (p # ps) = walk_path (dict_get d p PNone) ps"
| "walk_path _ (p # ps) = PNone"

definition get_nested_value :: "pydict \<Rightarrow> string \<Rightarrow> pyval" where
  "get_nested_value data field_path = walk_path (PDict data) (split_dot field_path)"

text \<open>A path that is itself data: anything but a string has no \<open>split\<close>.\<close>

definition get_nested_value_at :: "pydict \<Rightarrow> pyval \<Rightarrow> py_error + pyval" where
  "get_nested_value_at data field_path =
     (case field_path of PStr p \<Rightarrow> Inr (get_nested_value data p) | _ \<Rightarrow> Inl AttributeError)"

section \<open>verdict.py\<close>

record EventVerdict =
  ev_status :: string
  ev_reason :: "string option"
  ev_failed :: "pydict list"
  ev_errored :: "pydict list"

definition event_verdict :: "string \<Rightarrow> string option \<Rightarrow> pydict list \<Rightarrow> pydict list \<Rightarrow> EventVerdict" where
  "event_verdict st r f e = \<lparr>ev_status = st, ev_reason = r, ev_failed = f, ev_errored = e\<rparr>"

definition status_label :: "EventVerdict \<Rightarrow> string" where
  "status_label v =
     (if ev_status v = ''NO_VERDICT'' \<and> str_truthy (ev_reason v)
      then ''NO_VERDICT:'' @ the (ev_reason v) else ev_status v)"

definition rule_result_token :: "pydict \<Rightarrow> string" where
  "rule_result_token row =
     (case dict_get row ''result'' PNone of
        PStr raw \<Rightarrow> if raw \<noteq> [] then py_lower raw
                    else if truthy (dict_get row ''passed'' PNone) then ''pass'' else ''fail''
      | _ \<Rightarrow> if truthy (dict_get row ''passed'' PNone) then ''pass'' else ''fail'')"

definition classify_event_verdict ::
  "pydict list option \<Rightarrow> string option \<Rightarrow> string option \<Rightarrow> EventVerdict" where
  "classify_event_verdict rule_results evaluation_verdict no_verdict_reason =
     (let rows = (case rule_results of None \<Rightarrow> [] | Some rs \<Rightarrow> rs);
          failed = filter (\<lambda>r. rule_result_token r = ''fail'') rows;
          errored = filter (\<lambda>r. rule_result_token r = ''error'') rows;
          v = py_lower (str_or evaluation_verdict [])
      in if failed \<noteq> [] then event_verdict ''FAIL'' None failed errored
         else if errored \<noteq> [] then event_verdict ''EVALUATION_ERROR'' None [] errored
         else if v = ''fail'' then event_verdict ''FAIL'' (Some ''persisted_verdict_fail'') [] []
         else if v = ''no_verdict''
              then event_verdict ''NO_VERDICT'' (Some (str_or no_verdict_reason ''unspecified'')) [] []
         else if rows = [] then event_verdict ''NO_RULES_EVALUATED'' None [] []
         else if list_ex (\<lambda>r. rule_result_token r \<in> {''pass'', ''warn''}) rows
              then event_verdict ''PASS'' None [] []
         else event_verdict ''NO_VERDICT'' (Some ''all_rules_skipped'') [] [])"

section \<open>Facts\<close>

lemma rule_result_fields [simp]:
  "rr_evaluation_id (rule_result uid rule res) = uid"
  "rr_rule_id (rule_result uid rule res) = rd_rule_id rule"
  "rr_rule_version (rule_result uid rule res) = rd_rule_version rule"
  "rr_rule_title (rule_result uid rule res) = rd_title rule"
  "rr_severity (rule_result uid rule res) = rd_severity rule"
  "rr_result (rule_result uid rule res) = res"
  "rr_why_failed (rule_result uid rule res) = None"
  "rr_evidence (rule_result uid rule res) = []"
  "rr_confidence (rule_result uid rule res) = Fin 1"
  "rr_citation_reference (rule_result uid rule res) = None"
  "rr_remediation_suggestion (rule_result uid rule res) = None"
  "rr_category (rule_result uid rule res) = rd_category rule"
  by (simp_all add: rule_result_def)

lemma new_summary_fields [simp]:
  "es_event_id (new_summary i n) = i" "es_total_rules (new_summary i n) = n"
  "es_passed (new_summary i n) = 0" "es_failed (new_summary i n) = 0"
  "es_warned (new_summary i n) = 0" "es_skipped (new_summary i n) = 0"
  "es_errored (new_summary i n) = 0" "es_not_ftl_scoped (new_summary i n) = 0"
  "es_no_verdict_reason (new_summary i n) = None" "es_results (new_summary i n) = []"
  "es_critical_failures (new_summary i n) = []"
  by (simp_all add: new_summary_def)

lemma str_truthy_simps [simp]: "\<not> str_truthy None" "str_truthy (Some s) \<longleftrightarrow> s \<noteq> []"
  by (simp_all add: str_truthy_def)

lemma compliant_True_iff:
  "compliant s = Some True \<longleftrightarrow>
     0 < es_total_rules s \<and> \<not> str_truthy (es_no_verdict_reason s) \<and>
     es_not_ftl_scoped s < es_total_rules s \<and> es_failed s = 0 \<and> es_errored s = 0"
  by (auto simp: compliant_def)

lemma compliant_False_iff:
  "compliant s = Some False \<longleftrightarrow>
     0 < es_total_rules s \<and> \<not> str_truthy (es_no_verdict_reason s) \<and>
     es_not_ftl_scoped s < es_total_rules s \<and> (0 < es_failed s \<or> 0 < es_errored s)"
  by (auto simp: compliant_def)

lemma verdict_cases:
  "verdict s = ''pass'' \<longleftrightarrow> compliant s = Some True"
  "verdict s = ''fail'' \<longleftrightarrow> compliant s = Some False"
  "verdict s = ''no_verdict'' \<longleftrightarrow> compliant s = None"
  by (auto simp: verdict_def split: option.splits bool.splits)

lemma verdict_reason_None_iff: "verdict_reason s = None \<longleftrightarrow> compliant s \<noteq> None"
  by (auto simp: verdict_reason_def compliant_def str_truthy_def split: option.splits)

lemma walk_path_None [simp]: "walk_path PNone ps = PNone"
  by (cases ps) simp_all

lemma walk_path_append: "walk_path v (ps @ qs) = walk_path (walk_path v ps) qs"
  by (induction v ps rule: walk_path.induct) simp_all

lemma get_nested_value_top: "CHR ''.'' \<notin> set k \<Longrightarrow> get_nested_value d k = dict_get d k PNone"
proof -
  have "split_by (\<lambda>c. c = CHR ''.'') k = [k]" if "CHR ''.'' \<notin> set k"
    using that by (induction k) auto
  then show "CHR ''.'' \<notin> set k \<Longrightarrow> ?thesis"
    by (simp add: get_nested_value_def split_dot_def)
qed

lemma classify_pass_char:
  "ev_status (classify_event_verdict rows verd reason) = ''PASS'' \<longleftrightarrow>
     (\<exists>rs. rows = Some rs \<and>
        list_ex (\<lambda>r. rule_result_token r = ''pass'' \<or> rule_result_token r = ''warn'') rs \<and>
        list_all (\<lambda>r. rule_result_token r \<noteq> ''fail'' \<and> rule_result_token r \<noteq> ''error'') rs) \<and>
     py_lower (str_or verd []) \<noteq> ''fail'' \<and> py_lower (str_or verd []) \<noteq> ''no_verdict''"
proof (cases rows)
  case None
  then show ?thesis by (simp add: classify_event_verdict_def Let_def event_verdict_def)
next
  case (Some rs)
  then show ?thesis
    by (auto simp: classify_event_verdict_def Let_def event_verdict_def filter_empty_conv
        list_all_iff list_ex_iff)
qed

section \<open>Properties\<close>

text \<open>
  The regulator-facing status is \<open>PASS\<close> exactly when some persisted row
  is affirmative (pass or warn), no row is a failure or an evaluator error, and the
  persisted verdict is neither fail nor no-verdict: evaluator crashes and no-verdicts can
  never surface as \<open>PASS\<close>.
\<close>

theorem classify_pass_iff:
  "ev_status (classify_event_verdict rows verd reason) = ''PASS'' \<longleftrightarrow>
     (\<exists>rs. rows = Some rs \<and>
        list_ex (\<lambda>r. rule_result_token r = ''pass'' \<or> rule_result_token r = ''warn'') rs \<and>
        list_all (\<lambda>r. rule_result_token r \<noteq> ''fail'' \<and> rule_result_token r \<noteq> ''error'') rs) \<and>
     py_lower (str_or verd []) \<noteq> ''fail'' \<and> py_lower (str_or verd []) \<noteq> ''no_verdict''"
  by (rule classify_pass_char)

text \<open>
  A failing row always decides: as soon as one row's token is \<open>fail\<close>
  the status is \<open>FAIL\<close> and the failing and erroring rows are all reported, whatever verdict
  was persisted for the event.
\<close>

theorem classify_fail_row_wins:
  assumes "r \<in> set rs" and "rule_result_token r = ''fail''"
  shows "classify_event_verdict (Some rs) verd reason =
         event_verdict ''FAIL'' None (filter (\<lambda>r. rule_result_token r = ''fail'') rs)
           (filter (\<lambda>r. rule_result_token r = ''error'') rs)"
proof -
  have "filter (\<lambda>r. rule_result_token r = ''fail'') rs \<noteq> []"
    using assms by (auto simp: filter_empty_conv)
  then show ?thesis by (simp add: classify_event_verdict_def Let_def)
qed

theorem classify_fail_row_wins_witness:
  "ev_status (classify_event_verdict (Some [[(''passed'', PBool False)]]) (Some ''pass'') None) = ''FAIL''"
proof -
  have h: "rule_result_token [(''passed'', PBool False)] = ''fail''" by code_simp
  show ?thesis
    using classify_fail_row_wins [of "[(''passed'', PBool False)]" "[[(''passed'', PBool False)]]"
        "Some ''pass''" None] h
    by (simp add: event_verdict_def)
qed

end
