(* ===== verification/Ftl.thy ===== *)
theory Ftl
  imports RuleTypes
begin

text \<open>
  \<^verbatim>\<open>services/shared/rules/ftl.py\<close>: is the food of an event on the FDA Food Traceability List,
  does a rule apply to its category, and the keyword table that derives a category from a
  product description.
\<close>

section \<open>Classification\<close>

definition ftl_category_names :: "string list" where
  "ftl_category_names =
     [''Leafy Greens'', ''Herbs'', ''Fresh-Cut Fruits'', ''Fresh-Cut Vegetables'', ''Finfish'',
      ''Crustaceans'', ''Molluscan Shellfish'', ''Smoked Finfish'', ''Soft Cheeses'', ''Shell Eggs'',
      ''Nut Butters'', ''Ready-to-Eat Deli Salads'', ''Fresh Tomatoes'', ''Fresh Peppers'',
      ''Fresh Cucumbers'', ''Fresh Sprouts'', ''Tropical Tree Fruits'', ''Fresh Melons'']"

definition ftl_categories :: "string list" where
  "ftl_categories = map py_lower ftl_category_names"

definition ftl_normalize :: "pyval \<Rightarrow> string option" where
  "ftl_normalize v =
     (case v of
        PStr s \<Rightarrow> let nrm = py_lower (py_strip s) in if nrm = [] then None else Some nrm
      | _ \<Rightarrow> None)"

definition category_paths :: "string list" where
  "category_paths = [''kdes.ftl_category'', ''ftl_category'', ''product.category'', ''product_category'']"

definition covered_paths :: "string list" where
  "covered_paths = [''kdes.ftl_covered'', ''ftl_covered'', ''product.ftl_covered'']"

fun first_category :: "pydict \<Rightarrow> string list \<Rightarrow> string option" where
  "first_category ev [] = None"
| "first_category ev (p # ps) =
     (case ftl_normalize (get_nested_value ev p) of
        Some nrm \<Rightarrow> if nrm \<in> set ftl_categories then Some nrm else first_category ev ps
      | None \<Rightarrow> first_category ev ps)"

definition get_ftl_category :: "pydict \<Rightarrow> string option" where
  "get_ftl_category ev = first_category ev category_paths"

definition event_has_ftl_hint :: "pydict \<Rightarrow> bool" where
  "event_has_ftl_hint ev \<longleftrightarrow>
     list_ex (\<lambda>p. get_nested_value ev p \<noteq> PNone) (covered_paths @ category_paths)"

fun first_flag :: "pydict \<Rightarrow> string list \<Rightarrow> bool option" where
  "first_flag ev [] = None"
| "first_flag ev (p # ps) =
     (case get_nested_value ev p of PBool b \<Rightarrow> Some b | _ \<Rightarrow> first_flag ev ps)"

definition nonblank_str :: "pyval \<Rightarrow> bool" where
  "nonblank_str v = (case v of PStr s \<Rightarrow> py_strip s \<noteq> [] | _ \<Rightarrow> False)"

definition is_ftl_food :: "pydict \<Rightarrow> bool option" where
  "is_ftl_food ev =
     (case first_flag ev covered_paths of
        Some b \<Rightarrow> Some b
      | None \<Rightarrow>
          if get_ftl_category ev \<noteq> None then Some True
          else if list_ex (\<lambda>p. nonblank_str (get_nested_value ev p)) category_paths then Some False
          else None)"

section \<open>Keywords\<close>

definition ftl_keyword_categories :: "(string \<times> string) list" where
  "ftl_keyword_categories =
     [(''smoked salmon'', ''Smoked Finfish''), (''smoked trout'', ''Smoked Finfish''),
      (''smoked whitefish'', ''Smoked Finfish''), (''smoked fish'', ''Smoked Finfish''),
      (''spinach'', ''Leafy Greens''), (''romaine'', ''Leafy Greens''), (''rm hrts'', ''Leafy Greens''),
      (''lettuce'', ''Leafy Greens''), (''kale'', ''Leafy Greens''), (''chard'', ''Leafy Greens''),
      (''arugula'', ''Leafy Greens''), (''endive'', ''Leafy Greens''), (''escarole'', ''Leafy Greens''),
      (''spring mix'', ''Leafy Greens''), (''greens'', ''Leafy Greens''), (''cilantro'', ''Herbs''),
      (''parsley'', ''Herbs''), (''basil'', ''Herbs''), (''mint'', ''Herbs''), (''chives'', ''Herbs''),
      (''dill'', ''Herbs''), (''tomato'', ''Fresh Tomatoes''), (''pepper'', ''Fresh Peppers''),
      (''cucumber'', ''Fresh Cucumbers''), (''cantaloupe'', ''Fresh Melons''),
      (''honeydew'', ''Fresh Melons''), (''melon'', ''Fresh Melons''), (''sprout'', ''Fresh Sprouts''),
      (''salmon'', ''Finfish''), (''tuna'', ''Finfish''), (''tilapia'', ''Finfish''),
      (''halibut'', ''Finfish''), (''snapper'', ''Finfish''), (''trout'', ''Finfish''),
      (''cod'', ''Finfish''), (''finfish'', ''Finfish''), (''shrimp'', ''Crustaceans''),
      (''prawn'', ''Crustaceans''), (''crab'', ''Crustaceans''), (''lobster'', ''Crustaceans''),
      (''crawfish'', ''Crustaceans''), (''oyster'', ''Molluscan Shellfish''),
      (''clam'', ''Molluscan Shellfish''), (''mussel'', ''Molluscan Shellfish''),
      (''scallop'', ''Molluscan Shellfish''), (''brie'', ''Soft Cheeses''),
      (''camembert'', ''Soft Cheeses''), (''queso fresco'', ''Soft Cheeses''),
      (''burrata'', ''Soft Cheeses''), (''soft cheese'', ''Soft Cheeses''),
      (''soft-ripened'', ''Soft Cheeses''), (''semi-soft cheese'', ''Soft Cheeses''),
      (''shell egg'', ''Shell Eggs''), (''eggs'', ''Shell Eggs''), (''peanut butter'', ''Nut Butters''),
      (''almond butter'', ''Nut Butters''), (''cashew butter'', ''Nut Butters''),
      (''nut butter'', ''Nut Butters''), (''deli salad'', ''Ready-to-Eat Deli Salads''),
      (''potato salad'', ''Ready-to-Eat Deli Salads''), (''chicken salad'', ''Ready-to-Eat Deli Salads''),
      (''egg salad'', ''Ready-to-Eat Deli Salads''), (''macaroni salad'', ''Ready-to-Eat Deli Salads''),
      (''pasta salad'', ''Ready-to-Eat Deli Salads''), (''mango'', ''Tropical Tree Fruits''),
      (''papaya'', ''Tropical Tree Fruits''), (''guava'', ''Tropical Tree Fruits''),
      (''lychee'', ''Tropical Tree Fruits''), (''starfruit'', ''Tropical Tree Fruits'')]"

definition infer_ftl_category_from_text :: "pyval \<Rightarrow> string option" where
  "infer_ftl_category_from_text txt =
     (case ftl_normalize txt of
        None \<Rightarrow> None
      | Some normalized \<Rightarrow>
          map_option snd (find (\<lambda>(keyword, category). py_contains keyword normalized) ftl_keyword_categories))"

section \<open>Scope of a rule\<close>

definition rule_applies_to_ftl_category :: "pydict \<Rightarrow> string option \<Rightarrow> py_error + bool" where
  "rule_applies_to_ftl_category applicability event_ftl_category =
     (let ftl_scope = dict_get applicability ''ftl_scope'' PNone
      in if \<not> truthy ftl_scope then Inr True
         else and_then (py_iter ftl_scope) (\<lambda>scope.
           let normalized_scope = map (\<lambda>s. str_or (ftl_normalize s) []) (filter truthy scope)
           in if ''all'' \<in> set normalized_scope then Inr True
              else Inr (case event_ftl_category of None \<Rightarrow> False
                        | Some c \<Rightarrow> c \<in> set normalized_scope)))"

section \<open>Facts\<close>

lemma first_category_in: "first_category ev ps = Some c \<Longrightarrow> c \<in> set ftl_categories"
  by (induction ps) (auto split: option.splits if_splits)

lemma get_ftl_category_in: "get_ftl_category ev = Some c \<Longrightarrow> c \<in> set ftl_categories"
  unfolding get_ftl_category_def by (rule first_category_in)

lemma first_category_hint:
  "first_category ev ps \<noteq> None \<Longrightarrow> \<exists>p \<in> set ps. get_nested_value ev p \<noteq> PNone"
  by (induction ps) (auto simp: ftl_normalize_def split: option.splits if_splits pyval.splits)

lemma first_flag_hint:
  "first_flag ev ps \<noteq> None \<Longrightarrow> \<exists>p \<in> set ps. get_nested_value ev p \<noteq> PNone"
  by (induction ps) (auto split: pyval.splits)

lemma nonblank_not_none: "nonblank_str v \<Longrightarrow> v \<noteq> PNone"
  by (auto simp: nonblank_str_def)

text \<open>An event that is classified at all carries a hint.\<close>

lemma is_ftl_food_has_hint: "is_ftl_food ev \<noteq> None \<Longrightarrow> event_has_ftl_hint ev"
  using first_category_hint [of ev category_paths] first_flag_hint [of ev covered_paths]
  by (auto simp: is_ftl_food_def event_has_ftl_hint_def list_ex_iff get_ftl_category_def
      dest: nonblank_not_none split: option.splits if_splits)

section \<open>Properties\<close>

text \<open>
  The first boolean coverage flag (KDE, then top level, then product)
  decides the classification alone; without a flag, a food is on the list exactly when one
  of its category fields names a listed category.
\<close>

theorem is_ftl_food_true_iff:
  "is_ftl_food ev = Some True \<longleftrightarrow>
     first_flag ev covered_paths = Some True \<or>
     first_flag ev covered_paths = None \<and>
       list_ex (\<lambda>p. \<exists>c. ftl_normalize (get_nested_value ev p) = Some c \<and> c \<in> set ftl_categories)
         category_paths"
proof -
  have "first_category ev ps \<noteq> None \<longleftrightarrow>
      list_ex (\<lambda>p. \<exists>c. ftl_normalize (get_nested_value ev p) = Some c \<and> c \<in> set ftl_categories) ps" for ps
    by (induction ps) (auto split: option.splits)
  then show ?thesis
    by (simp add: is_ftl_food_def get_ftl_category_def split: option.split)
qed

text \<open>
  Every keyword of the description table maps to a category that, in
  lower case, is on the authoritative list, so a derived hint is always one the
  classification recognises.
\<close>

theorem inferred_category_is_listed:
  assumes "infer_ftl_category_from_text txt = Some c"
  shows "py_lower c \<in> set ftl_categories"
proof -
  have table: "list_all (\<lambda>(k, cat). cat \<in> set ftl_category_names) ftl_keyword_categories"
    by (simp add: ftl_keyword_categories_def ftl_category_names_def)
  obtain nrm kc where "find (\<lambda>(keyword, category). py_contains keyword nrm) ftl_keyword_categories = Some kc"
    and "c = snd kc"
    using assms by (auto simp: infer_ftl_category_from_text_def split: option.splits)
  then have "kc \<in> set ftl_keyword_categories"
    by (metis find_Some_iff nth_mem)
  with table \<open>c = snd kc\<close> show ?thesis
    by (auto simp: list_all_iff ftl_categories_def)
qed

theorem inferred_category_is_listed_witness:
  "infer_ftl_category_from_text (PStr '' Smoked Salmon 8oz'') = Some ''Smoked Finfish'' \<and>
   py_lower ''Smoked Finfish'' \<in> set ftl_categories"
proof -
  have "ftl_normalize (PStr '' Smoked Salmon 8oz'') = Some ''smoked salmon 8oz''"
    by code_simp
  moreover have "py_contains ''smoked salmon'' ''smoked salmon 8oz''" by simp
  ultimately have h: "infer_ftl_category_from_text (PStr '' Smoked Salmon 8oz'') = Some ''Smoked Finfish''"
    by (simp add: infer_ftl_category_from_text_def ftl_keyword_categories_def del: py_contains.simps)
  show ?thesis using h inferred_category_is_listed [OF h] by blast
qed

end
