(* ===== verification/Uom.thy ===== *)
theory Uom
  imports RuleTypes
begin

text \<open>
  \<^verbatim>\<open>services/shared/rules/uom.py\<close>: unit-of-measure tables, conversion of quantities to
  pounds, temperature conversion and the choice of a temperature reading from a KDE
  dictionary, and the lifecycle order of critical tracking events. The decimal literals of
  the tables are the doubles Python reads them as.
\<close>

section \<open>Mass\<close>

definition mass_uom_to_lbs :: "(string \<times> pyfloat) list" where
  "mass_uom_to_lbs =
     [(''lbs'', Fin 1), (''lb'', Fin 1), (''pound'', Fin 1), (''pounds'', Fin 1),
      (''kg'', round_double (220462 / 100000)), (''kgs'', round_double (220462 / 100000)),
      (''kilogram'', round_double (220462 / 100000)), (''kilograms'', round_double (220462 / 100000)),
      (''oz'', Fin (1 / 16)), (''ounce'', Fin (1 / 16)), (''ounces'', Fin (1 / 16)),
      (''ton'', Fin 2000), (''tons'', Fin 2000), (''short_ton'', Fin 2000),
      (''metric_ton'', round_double (220462 / 100)), (''mt'', round_double (220462 / 100))]"

definition container_uom_to_lbs :: "(string \<times> pyfloat) list" where
  "container_uom_to_lbs =
     [(''case'', Fin 24), (''cases'', Fin 24), (''cs'', Fin 24), (''carton'', Fin 24),
      (''cartons'', Fin 24), (''bin'', Fin 800), (''bins'', Fin 800), (''pallet'', Fin 2000),
      (''pallets'', Fin 2000), (''crate'', Fin 40), (''crates'', Fin 40), (''box'', Fin 24),
      (''boxes'', Fin 24), (''bag'', Fin 5), (''bags'', Fin 5), (''bunch'', Fin (3 / 2)),
      (''bunches'', Fin (3 / 2)), (''head'', Fin 2), (''heads'', Fin 2), (''each'', Fin 1),
      (''ea'', Fin 1), (''unit'', Fin 1), (''units'', Fin 1), (''piece'', Fin 1),
      (''pieces'', Fin 1), (''pc'', Fin 1), (''pcs'', Fin 1)]"

text \<open>\<open>{**mass, **container}\<close>: a key of the second table overrides.\<close>

definition uom_to_lbs :: "string \<Rightarrow> pyfloat option" where
  "uom_to_lbs k = (case map_of container_uom_to_lbs k of Some f \<Rightarrow> Some f | None \<Rightarrow> map_of mass_uom_to_lbs k)"

definition uom_key :: "string \<Rightarrow> string" where
  "uom_key uom = rstrip_dots (py_strip (py_lower uom))"

definition is_mass_uom :: "string option \<Rightarrow> bool" where
  "is_mass_uom uom =
     (case uom of None \<Rightarrow> False
      | Some u \<Rightarrow> u \<noteq> [] \<and> map_of mass_uom_to_lbs (uom_key u) \<noteq> None)"

definition normalize_to_lbs :: "pyfloat \<Rightarrow> string \<Rightarrow> pyfloat option" where
  "normalize_to_lbs quantity uom =
     (case uom_to_lbs (uom_key uom) of None \<Rightarrow> None | Some factor \<Rightarrow> Some (fmul quantity factor))"

definition normalize_to_mass :: "pyfloat \<Rightarrow> string \<Rightarrow> pyval \<Rightarrow> py_error + pyfloat option" where
  "normalize_to_mass quantity uom weights =
     (let key = uom_key uom
      in case map_of mass_uom_to_lbs key of
           Some factor \<Rightarrow> Inr (Some (fmul quantity factor))
         | None \<Rightarrow>
             if \<not> truthy weights then Inr None
             else and_then (py_get weights key PNone) (\<lambda>override.
               if override = PNone then Inr None
               else and_then (to_float override) (\<lambda>x. Inr (Some (fmul quantity x)))))"

section \<open>Temperature\<close>

datatype temp_unit = Celsius | Fahrenheit

definition temp_unit_aliases :: "(string \<times> temp_unit) list" where
  "temp_unit_aliases =
     [(''c'', Celsius), (CHR 0xB0 # ''c'', Celsius), (''celsius'', Celsius), (''centigrade'', Celsius),
      (''degc'', Celsius), (''deg_c'', Celsius), (''degrees_c'', Celsius), (''degrees_celsius'', Celsius),
      (''f'', Fahrenheit), (CHR 0xB0 # ''f'', Fahrenheit), (''fahrenheit'', Fahrenheit),
      (''degf'', Fahrenheit), (''deg_f'', Fahrenheit), (''degrees_f'', Fahrenheit),
      (''degrees_fahrenheit'', Fahrenheit)]"

definition normalize_temp_unit :: "string option \<Rightarrow> temp_unit option" where
  "normalize_temp_unit unit =
     (case unit of None \<Rightarrow> None
      | Some u \<Rightarrow> map_of temp_unit_aliases (rstrip_dots (py_lower (py_strip u))))"

definition fahrenheit_to_celsius :: "pyfloat \<Rightarrow> pyfloat" where
  "fahrenheit_to_celsius value_f = fdiv_by (fmul (fsub value_f (Fin 32)) (Fin 5)) 9"

definition celsius_to_fahrenheit :: "pyfloat \<Rightarrow> pyfloat" where
  "celsius_to_fahrenheit value_c = fadd (fdiv_by (fmul value_c (Fin 9)) 5) (Fin 32)"

definition normalize_temperature :: "pyfloat \<Rightarrow> string \<Rightarrow> string \<Rightarrow> pyfloat option" where
  "normalize_temperature v unit target =
     (case (normalize_temp_unit (Some unit), normalize_temp_unit (Some target)) of
        (Some s, Some d) \<Rightarrow>
          if s = d then Some v
          else if s = Fahrenheit \<and> d = Celsius then Some (fahrenheit_to_celsius v)
          else Some (celsius_to_fahrenheit v)
      | _ \<Rightarrow> None)"

text \<open>The closure \<open>_get\<close>: the first of the three spellings that is present and not \<open>None\<close>.\<close>

fun first_present :: "pydict \<Rightarrow> string list \<Rightarrow> pyval" where
  "first_present kde [] = PNone"
| "first_present kde (k # ks) =
     (if dict_get kde k PNone \<noteq> PNone then dict_get kde k PNone else first_present kde ks)"

definition temp_get :: "pydict \<Rightarrow> string \<Rightarrow> pyval" where
  "temp_get kde name = first_present kde [name, py_lower name, py_upper name]"

definition as_temp_float :: "pyval \<Rightarrow> py_error + pyfloat option" where
  "as_temp_float raw = (case raw of PBool _ \<Rightarrow> Inr None | _ \<Rightarrow> float_or_none raw)"

text \<open>The two loops over keys whose scale the name fixes.\<close>

fun scaled_reading ::
  "(pyfloat \<Rightarrow> pyfloat) \<Rightarrow> pydict \<Rightarrow> string list \<Rightarrow> py_error + (pyfloat \<times> string) option" where
  "scaled_reading conv kde [] = Inr None"
| "scaled_reading conv kde (k # ks) =
     (let raw = temp_get kde k
      in if raw = PNone then scaled_reading conv kde ks
         else and_then (as_temp_float raw) (\<lambda>v.
           case v of Some x \<Rightarrow> Inr (Some (conv x, k)) | None \<Rightarrow> scaled_reading conv kde ks))"

definition unit_of_value :: "pyval \<Rightarrow> py_error + temp_unit option" where
  "unit_of_value unit_raw =
     (if \<not> truthy unit_raw then Inr None
      else case unit_raw of PStr u \<Rightarrow> Inr (normalize_temp_unit (Some u)) | _ \<Rightarrow> Inl AttributeError)"

text \<open>A bare reading without a usable unit: Celsius between -5 and 10, Fahrenheit otherwise.\<close>

definition inferred_unit :: "pyfloat \<Rightarrow> temp_unit" where
  "inferred_unit v = (if fle (Fin (- 5)) v \<and> fle v (Fin 10) then Celsius else Fahrenheit)"

fun generic_reading ::
  "pydict \<Rightarrow> (string \<times> string) list \<Rightarrow> py_error + (pyfloat \<times> string) option" where
  "generic_reading kde [] = Inr None"
| "generic_reading kde ((value_key, unit_key) # ks) =
     (let raw = temp_get kde value_key
      in if raw = PNone then generic_reading kde ks
         else and_then (as_temp_float raw) (\<lambda>v.
           case v of
             None \<Rightarrow> generic_reading kde ks
           | Some x \<Rightarrow>
               and_then (unit_of_value (temp_get kde unit_key)) (\<lambda>u.
                 let canonical_unit = (case u of Some c \<Rightarrow> c | None \<Rightarrow> inferred_unit x)
                 in Inr (Some (if canonical_unit = Celsius then x else fahrenheit_to_celsius x,
                               value_key)))))"

definition resolve_temperature_reading :: "pydict \<Rightarrow> py_error + (pyfloat \<times> string) option" where
  "resolve_temperature_reading kde =
     and_then (scaled_reading id kde [''cooling_temperature_celsius'', ''temperature_celsius'']) (\<lambda>r1.
       case r1 of Some r \<Rightarrow> Inr (Some r)
       | None \<Rightarrow>
           and_then (scaled_reading fahrenheit_to_celsius kde
                       [''cooling_temperature_fahrenheit'', ''temperature_fahrenheit'']) (\<lambda>r2.
             case r2 of Some r \<Rightarrow> Inr (Some r)
             | None \<Rightarrow>
                 generic_reading kde
                   [(''cooling_temperature'', ''cooling_temperature_unit''),
                    (''temperature'', ''temperature_unit'')]))"

section \<open>Lifecycle order\<close>

definition cte_lifecycle_order :: "(string \<times> nat) list" where
  "cte_lifecycle_order =
     [(''harvesting'', 0), (''cooling'', 1), (''initial_packing'', 2),
      (''first_land_based_receiving'', 3), (''transformation'', 4), (''shipping'', 5),
      (''receiving'', 6)]"

section \<open>Facts\<close>

lemma mass_and_container_disjoint:
  "map_of mass_uom_to_lbs k \<noteq> None \<Longrightarrow> map_of container_uom_to_lbs k = None"
proof -
  have "fst ` set mass_uom_to_lbs \<inter> fst ` set container_uom_to_lbs = {}"
    by (simp add: mass_uom_to_lbs_def container_uom_to_lbs_def)
  then show "map_of mass_uom_to_lbs k \<noteq> None \<Longrightarrow> ?thesis"
    by (metis disjoint_iff map_of_eq_None_iff)
qed

lemma is_mass_uom_Some:
  "is_mass_uom (Some u) \<longleftrightarrow> map_of mass_uom_to_lbs (uom_key u) \<noteq> None"
proof (cases u)
  case Nil
  have "uom_key [] = []"
    by (simp add: uom_key_def py_lower_def py_strip_def rstrip_by_def rstrip_dots_def)
  then show ?thesis using Nil by (simp add: is_mass_uom_def mass_uom_to_lbs_def)
qed (simp add: is_mass_uom_def)

lemma normalize_to_mass_mass_uom:
  "map_of mass_uom_to_lbs (uom_key u) = Some f \<Longrightarrow> normalize_to_mass q u w = Inr (Some (fmul q f))"
  by (simp add: normalize_to_mass_def)

lemma as_temp_float_no_type_error:
  "as_temp_float raw = Inl e \<Longrightarrow> e \<noteq> TypeError \<and> (\<forall>m. e \<noteq> ValueError m)"
  by (cases raw) (auto simp: as_temp_float_def float_or_none_def split: sum.splits py_error.splits)

section \<open>Properties\<close>

text \<open>
  A quantity in a unit that is no true mass unit is converted for a
  compliance comparison only through a weight the caller supplied for that very unit; the
  commodity-independent container approximations are never used.
\<close>

theorem normalize_to_mass_needs_weight:
  assumes "normalize_to_mass q u w = Inr (Some m)" and "\<not> is_mass_uom (Some u)"
  shows "\<exists>d x. w = PDict d \<and> dict_get d (uom_key u) PNone \<noteq> PNone \<and>
               to_float (dict_get d (uom_key u) PNone) = Inr x \<and> m = fmul q x"
  using assms
  by (auto simp: normalize_to_mass_def is_mass_uom_Some Let_def and_then_eq_Inr_iff py_get_def
      split: option.splits if_splits pyval.splits)

theorem normalize_to_mass_needs_weight_witness:
  "\<exists>d x. PDict [(''case'', PInt 30)] = PDict d \<and> dict_get d (uom_key ''Case'') PNone \<noteq> PNone \<and>
         to_float (dict_get d (uom_key ''Case'') PNone) = Inr x \<and> Fin 60 = fmul (Fin 2) x"
proof (rule normalize_to_mass_needs_weight)
  have "uom_key ''Case'' = ''case''" by code_simp
  then show "normalize_to_mass (Fin 2) ''Case'' (PDict [(''case'', PInt 30)]) = Inr (Some (Fin 60))"
    by (simp add: normalize_to_mass_def mass_uom_to_lbs_def float_of_rat_def py_simps)
  from \<open>uom_key ''Case'' = ''case''\<close> show "\<not> is_mass_uom (Some ''Case'')"
    by (simp add: is_mass_uom_def mass_uom_to_lbs_def)
qed

lemma scaled_reading_hit:
  "temp_get kde k = raw \<Longrightarrow> raw \<noteq> PNone \<Longrightarrow> as_temp_float raw = Inr (Some x) \<Longrightarrow>
   scaled_reading conv kde (k # ks) = Inr (Some (conv x, k))"
  by (simp add: Let_def)

lemma scaled_reading_miss:
  "temp_get kde k = PNone \<Longrightarrow> scaled_reading conv kde (k # ks) = scaled_reading conv kde ks"
  by (simp add: Let_def)

text \<open>
  An explicit Celsius reading decides: when
  \<open>cooling_temperature_celsius\<close> is absent and \<open>temperature_celsius\<close> parses as a number, that
  number is the result, unconverted, whatever Fahrenheit or unit-qualified fields say.
\<close>

theorem explicit_celsius_wins:
  assumes "temp_get kde ''cooling_temperature_celsius'' = PNone"
    and "temp_get kde ''temperature_celsius'' \<noteq> PNone"
    and "as_temp_float (temp_get kde ''temperature_celsius'') = Inr (Some x)"
  shows "resolve_temperature_reading kde = Inr (Some (x, ''temperature_celsius''))"
  using assms
  by (simp add: resolve_temperature_reading_def scaled_reading_miss scaled_reading_hit
      del: scaled_reading.simps)

theorem explicit_celsius_wins_witness:
  "resolve_temperature_reading
     [(''temperature_fahrenheit'', PInt 34), (''temperature_celsius'', PStr ''2'')] =
   Inr (Some (Fin 2, ''temperature_celsius''))"
  by (rule explicit_celsius_wins) code_simp+

end
