(* ===== verification/StatelessEval.thy ===== *)
theory StatelessEval
  imports FsmaValidation Uom
begin

text \<open>
  \<^verbatim>\<open>services/shared/rules/evaluators/stateless.py\<close>: the evaluators that look at one event only.
  Each takes the event, the rule's evaluation logic and the rule; \<open>uid\<close> is the fresh
  evaluation id of the result it builds, and an uncaught exception is \<open>Inl\<close>. The contract
  every evaluator of the engine meets is the locale \<open>rule_evaluator\<close>.
\<close>

section \<open>Results\<close>

text \<open>The pass and skip results, and the fail results, as every evaluator builds them.\<close>

definition checked_result :: "string \<Rightarrow> RuleDefinition \<Rightarrow> string \<Rightarrow> pydict list \<Rightarrow> RuleEvaluationResult" where
  "checked_result uid rule res evidence =
     (rule_result uid rule res)
       \<lparr>rr_evidence := evidence, rr_citation_reference := rd_citation_reference rule\<rparr>"

definition failed_result :: "string \<Rightarrow> RuleDefinition \<Rightarrow> string \<Rightarrow> pydict list \<Rightarrow> RuleEvaluationResult" where
  "failed_result uid rule why evidence =
     (checked_result uid rule ''fail'' evidence)
       \<lparr>rr_why_failed := Some why, rr_remediation_suggestion := rd_remediation_suggestion rule\<rparr>"

definition citation_or :: "RuleDefinition \<Rightarrow> string \<Rightarrow> string" where
  "citation_or rule dflt = str_or (rd_citation_reference rule) dflt"

definition last_segment :: "string \<Rightarrow> string" where
  "last_segment p = last (split_dot p)"

definition spaced :: "string \<Rightarrow> string" where
  "spaced s = replace_char (CHR ''_'') '' '' s"

definition quoted :: "string \<Rightarrow> string" where
  "quoted s = CHR 0x27 # s @ [CHR 0x27]"

definition event_type_or_unknown :: "pydict \<Rightarrow> pyval" where
  "event_type_or_unknown event = dict_get event ''event_type'' (PStr ''unknown'')"

definition format_reason ::
  "pyrt \<Rightarrow> RuleDefinition \<Rightarrow> pydict \<Rightarrow> string \<Rightarrow> string \<Rightarrow> pydict \<Rightarrow> py_error + string" where
  "format_reason rt rule event field_name field_path extra =
     rt_str_format rt (rd_failure_reason_template rule)
       ([(''field_name'', PStr field_name), (''field_path'', PStr field_path),
         (''citation'', PStr (citation_or rule ''FSMA 204'')),
         (''event_type'', event_type_or_unknown event)] @ extra)"

section \<open>Presence\<close>

fun value_is_present :: "pyval \<Rightarrow> bool" where
  "value_is_present PNone = False"
| "value_is_present (PStr s) = (py_strip s \<noteq> [])"
| "value_is_present (PList xs) = (xs \<noteq> [])"
| "value_is_present (PTuple xs) = (xs \<noteq> [])"
| "value_is_present (PSet xs) = (xs \<noteq> [])"
| "value_is_present (PDict d) = (d \<noteq> [])"
| "value_is_present _ = True"

definition shown_value :: "pyrt \<Rightarrow> pyval \<Rightarrow> pyval" where
  "shown_value rt v = (if v = PNone then PNone else PStr (take 200 (py_str rt v)))"

definition evaluate_field_presence ::
  "pyrt \<Rightarrow> string \<Rightarrow> pydict \<Rightarrow> pydict \<Rightarrow> RuleDefinition \<Rightarrow> py_error + RuleEvaluationResult" where
  "evaluate_field_presence rt uid event logic rule =
     (case dict_get logic ''field'' (PStr []) of
        PStr field_path \<Rightarrow>
          let v = get_nested_value event field_path;
              is_present = value_is_present v;
              evidence = [[(''field'', PStr field_path), (''value'', shown_value rt v),
                           (''expected'', PStr ''not_empty''), (''actual_present'', PBool is_present)]]
          in if is_present then Inr (checked_result uid rule ''pass'' evidence)
             else and_then (format_reason rt rule event (spaced (last_segment field_path)) field_path [])
                    (\<lambda>why. Inr (failed_result uid rule why evidence))
      | _ \<Rightarrow> Inl AttributeError)"

section \<open>Format\<close>

definition blank_value :: "pyval \<Rightarrow> bool" where
  "blank_value v = (case v of PNone \<Rightarrow> True | PStr s \<Rightarrow> py_strip s = [] | _ \<Rightarrow> False)"

definition py_re_match :: "pyrt \<Rightarrow> pyval \<Rightarrow> string \<Rightarrow> py_error + bool" where
  "py_re_match rt pattern s = (case pattern of PStr p \<Rightarrow> rt_re_match rt p s | _ \<Rightarrow> Inl TypeError)"

definition evaluate_field_format ::
  "pyrt \<Rightarrow> string \<Rightarrow> pydict \<Rightarrow> pydict \<Rightarrow> RuleDefinition \<Rightarrow> py_error + RuleEvaluationResult" where
  "evaluate_field_format rt uid event logic rule =
     and_then (py_get (dict_get logic ''params'' (PDict [])) ''pattern'' (PStr ''.*'')) (\<lambda>pattern.
       case dict_get logic ''field'' (PStr []) of
         PStr field_path \<Rightarrow>
           let v = get_nested_value event field_path;
               shown = (if truthy v then PStr (take 200 (py_str rt v)) else PNone);
               ev0 = [(''field'', PStr field_path), (''value'', shown), (''expected_pattern'', pattern)]
           in if blank_value v
              then and_then (format_reason rt rule event (last_segment field_path) field_path [])
                     (\<lambda>why. Inr (failed_result uid rule why [ev0]))
              else and_then (py_re_match rt pattern (py_str rt v)) (\<lambda>matches.
                let evidence = [ev0 @ [(''matches_pattern'', PBool matches)]]
                in if matches then Inr (checked_result uid rule ''pass'' evidence)
                   else Inr (failed_result uid rule
                          (last_segment field_path @ '' value '' @ quoted (take 50 (py_str rt v)) @
                           '' does not match required format ('' @ citation_or rule ''FSMA 204'' @ '')'')
                          evidence))
       | _ \<Rightarrow> Inl AttributeError)"

section \<open>Presence of several fields\<close>

definition field_entry :: "pyrt \<Rightarrow> pydict \<Rightarrow> pyval \<Rightarrow> py_error + (string \<times> bool \<times> pydict)" where
  "field_entry rt event fp =
     (case fp of
        PStr p \<Rightarrow>
          let v = get_nested_value event p; is_present = value_is_present v
          in Inr (p, is_present,
                  [(''field'', PStr p), (''value'', shown_value rt v), (''present'', PBool is_present)])
      | _ \<Rightarrow> Inl AttributeError)"

definition evaluate_multi_field_presence ::
  "pyrt \<Rightarrow> string \<Rightarrow> pydict \<Rightarrow> pydict \<Rightarrow> RuleDefinition \<Rightarrow> py_error + RuleEvaluationResult" where
  "evaluate_multi_field_presence rt uid event logic rule =
     (let params = dict_get logic ''params'' (PDict [])
      in and_then (py_get params ''fields'' (PList [])) (\<lambda>fields.
         and_then (py_get params ''require'' PNone) (\<lambda>require.
         and_then (py_iter fields) (\<lambda>items.
         and_then (map_err (field_entry rt event) items) (\<lambda>entries.
           let require_all = (require = PStr ''all'');
               evidence = map (\<lambda>(_, _, e). e) entries;
               present_flags = map (\<lambda>(_, b, _). b) entries;
               missing_fields = map fst (filter (\<lambda>(_, b, _). \<not> b) entries);
               passed = (if \<not> truthy fields then False
                         else if require_all then list_all id present_flags
                         else list_ex id present_flags)
           in if passed then Inr (checked_result uid rule ''pass'' evidence)
              else let failed_fields = (if require_all then missing_fields else map fst entries)
                   in and_then (format_reason rt rule event
                                  (py_join '', '' (map (\<lambda>f. spaced (last_segment f)) failed_fields))
                                  (py_join '', '' failed_fields) [])
                        (\<lambda>why. Inr (failed_result uid rule why evidence)))))))"

section \<open>Numeric range\<close>

definition coerce_float :: "pyval \<Rightarrow> py_error + pyfloat option" where
  "coerce_float v = (case v of PNone \<Rightarrow> Inr None | PBool _ \<Rightarrow> Inr None | _ \<Rightarrow> float_or_none v)"

definition degree_c :: string where
  "degree_c = [CHR 0xB0, CHR ''C'']"

text \<open>The value, the field it came from and a note.\<close>

definition resolve_numeric_value ::
  "pydict \<Rightarrow> pydict \<Rightarrow> py_error + (pyfloat option \<times> pyval \<times> string option)" where
  "resolve_numeric_value event logic =
     (let params = py_or (dict_get logic ''params'' (PDict [])) (PDict [])
      in and_then (py_get params ''source'' PNone) (\<lambda>src.
         if src = PStr ''temperature'' then
           and_then (py_get params ''root'' (PStr ''kdes'')) (\<lambda>root_path.
           and_then (if truthy root_path then get_nested_value_at event root_path else Inr (PDict event)) (\<lambda>root.
             case root of
               PDict kde \<Rightarrow>
                 and_then (resolve_temperature_reading kde) (\<lambda>resolved.
                   case resolved of
                     None \<Rightarrow> Inr (None, root_path, None)
                   | Some (value_c, source_key) \<Rightarrow>
                       Inr (Some value_c,
                            (case root_path of PStr (c # cs) \<Rightarrow> PStr ((c # cs) @ ''.'' @ source_key)
                             | _ \<Rightarrow> PStr source_key),
                            Some (''normalized to '' @ degree_c @ '' from kdes.'' @ source_key)))
             | _ \<Rightarrow> Inr (None, root_path, None)))
         else
           and_then (py_get params ''field'' PNone) (\<lambda>params_field.
             let field_path = py_or (dict_get logic ''field'' PNone) params_field
             in if truthy field_path then
                  and_then (get_nested_value_at event field_path) (\<lambda>raw.
                  and_then (coerce_float raw) (\<lambda>x. Inr (x, field_path, None)))
                else Inr (None, PNone, None))))"

text \<open>\<open>(evidence_field or "value").split(".")[-1].replace("_", " ")\<close> and \<open>evidence_field or ""\<close>.\<close>

definition field_label :: "pyval \<Rightarrow> py_error + string" where
  "field_label evidence_field =
     (case py_or evidence_field (PStr ''value'') of
        PStr p \<Rightarrow> Inr (spaced (last_segment p)) | _ \<Rightarrow> Inl AttributeError)"

definition range_reason ::
  "pyrt \<Rightarrow> RuleDefinition \<Rightarrow> pydict \<Rightarrow> string \<Rightarrow> pyval \<Rightarrow> pydict \<Rightarrow> string \<Rightarrow> py_error + string" where
  "range_reason rt rule event label evidence_field extra fallback =
     (if rd_failure_reason_template rule = [] then Inr fallback
      else rt_str_format rt (rd_failure_reason_template rule)
             ([(''field_name'', PStr label), (''field_path'', py_or evidence_field (PStr [])),
               (''citation'', PStr (citation_or rule ''FSMA 204'')),
               (''event_type'', event_type_or_unknown event)] @ extra))"

text \<open>\<open>bound is not None and cmp(float(bound))\<close>\<close>

definition out_of_bound :: "(pyfloat \<Rightarrow> bool) \<Rightarrow> pyval \<Rightarrow> py_error + bool" where
  "out_of_bound cmp bound =
     (if bound = PNone then Inr False else and_then (to_float bound) (\<lambda>b. Inr (cmp b)))"

definition evaluate_numeric_range ::
  "pyrt \<Rightarrow> string \<Rightarrow> pydict \<Rightarrow> pydict \<Rightarrow> RuleDefinition \<Rightarrow> py_error + RuleEvaluationResult" where
  "evaluate_numeric_range rt uid event logic rule =
     (let params = py_or (dict_get logic ''params'' (PDict [])) (PDict [])
      in and_then (py_get params ''min'' PNone) (\<lambda>min_v.
         and_then (py_get params ''max'' PNone) (\<lambda>max_v.
         and_then (py_get params ''unit'' PNone) (\<lambda>unit_raw.
         and_then (resolve_numeric_value event logic) (\<lambda>(x, evidence_field, note).
           let unit_label = py_or unit_raw (PStr ''C'');
               evidence = [[(''field'', evidence_field),
                            (''value'', case x of None \<Rightarrow> PNone | Some f \<Rightarrow> PFloat f),
                            (''expected_min'', min_v), (''expected_max'', max_v),
                            (''unit'', unit_label), (''note'', opt_str note)]];
               citation = citation_or rule ''FSMA 204'';
               shown_bounds = (\<lambda>shown. [(''min'', min_v), (''max'', max_v), (''value'', PStr shown),
                                     (''unit'', unit_label)])
           in case x of
                None \<Rightarrow>
                  and_then (py_get params ''missing_result'' PNone) (\<lambda>missing_result.
                    if missing_result = PStr ''skip'' then Inr (checked_result uid rule ''skip'' evidence)
                    else
                      and_then (field_label evidence_field) (\<lambda>label.
                      and_then (range_reason rt rule event label evidence_field (shown_bounds ''missing'')
                                  (label @ '' missing '' @ em_dash @ '' required for '' @ citation @
                                   '' numeric-range check''))
                        (\<lambda>why. Inr (failed_result uid rule why evidence))))
              | Some v \<Rightarrow>
                  and_then (out_of_bound (\<lambda>b. flt v b) min_v) (\<lambda>below_min.
                  and_then (out_of_bound (\<lambda>b. flt b v) max_v) (\<lambda>above_max.
                    if \<not> below_min \<and> \<not> above_max
                    then Inr (checked_result uid rule ''pass'' evidence)
                    else
                      and_then (field_label evidence_field) (\<lambda>label.
                        let u = py_str rt unit_label;
                            direction =
                              (if below_min \<and> above_max
                               then ''outside ['' @ py_str rt min_v @ '', '' @ py_str rt max_v @ ''] '' @ u
                               else if below_min then ''below minimum '' @ py_str rt min_v @ '' '' @ u
                               else ''above maximum '' @ py_str rt max_v @ '' '' @ u);
                            shown = rt_format_2f rt v
                        in and_then (range_reason rt rule event label evidence_field (shown_bounds shown)
                                       (label @ '' = '' @ shown @ '' '' @ u @ '' is '' @ direction @
                                        '' ('' @ citation @ '')''))
                             (\<lambda>why. Inr (failed_result uid rule why evidence))))))))))"

section \<open>GS1 check digit\<close>

definition evaluate_gs1_check_digit ::
  "pyrt \<Rightarrow> string \<Rightarrow> pydict \<Rightarrow> pydict \<Rightarrow> RuleDefinition \<Rightarrow> py_error + RuleEvaluationResult" where
  "evaluate_gs1_check_digit rt uid event logic rule =
     (case dict_get logic ''field'' (PStr []) of
        PStr field_path \<Rightarrow>
          let v = get_nested_value event field_path;
              raw = (if v = PNone then [] else py_strip (py_str rt v));
              ev0 = [(''field'', PStr field_path),
                     (''value'', if raw = [] then PNone else PStr (take 200 raw)),
                     (''expected'', PStr ''13-digit GS1 identifier with valid check digit'')]
          in if raw = [] \<or> \<not> py_isdigit raw
             then Inr (checked_result uid rule ''skip''
                    [ev0 @ [(''note'', PStr (''no numeric identifier provided '' @ em_dash @
                                             '' check digit not applicable''))]])
             else let valid = (length raw = 13 \<and> verify_gs1_check_digit (PStr raw));
                      evidence = [ev0 @ [(''check_digit_valid'', PBool valid)]];
                      reason = (if length raw \<noteq> 13 then ''wrong length'' else ''invalid GS1 check digit'')
                  in if valid then Inr (checked_result uid rule ''pass'' evidence)
                     else Inr (failed_result uid rule
                            (last_segment field_path @ '' value '' @ quoted (take 50 raw) @
                             '' is not a valid GS1 identifier ('' @ reason @ '') '' @ em_dash @ '' '' @
                             citation_or rule ''GS1 General Specifications'')
                            evidence)
      | _ \<Rightarrow> Inl AttributeError)"

section \<open>Dispatch\<close>

type_synonym evaluator =
  "string \<Rightarrow> pydict \<Rightarrow> pydict \<Rightarrow> RuleDefinition \<Rightarrow> py_error + RuleEvaluationResult"

definition EVALUATORS :: "pyrt \<Rightarrow> (string \<times> evaluator) list" where
  "EVALUATORS rt =
     [(''field_presence'', evaluate_field_presence rt),
      (''field_format'', evaluate_field_format rt),
      (''multi_field_presence'', evaluate_multi_field_presence rt),
      (''numeric_range'', evaluate_numeric_range rt),
      (''gs1_check_digit'', evaluate_gs1_check_digit rt)]"

section \<open>The contract of an evaluator\<close>

text \<open>
  A result carries the rule's identity and the evaluation id it was given, has one of the
  four outcomes an evaluator may report, and explains a failure.
\<close>

definition result_of_rule :: "string \<Rightarrow> RuleDefinition \<Rightarrow> RuleEvaluationResult \<Rightarrow> bool" where
  "result_of_rule uid rule r \<longleftrightarrow>
     rr_evaluation_id r = uid \<and> rr_rule_id r = rd_rule_id rule \<and> rr_rule_version r = rd_rule_version rule \<and>
     rr_rule_title r = rd_title rule \<and> rr_severity r = rd_severity rule \<and> rr_category r = rd_category rule"

definition evaluator_outcome :: "RuleEvaluationResult \<Rightarrow> bool" where
  "evaluator_outcome r \<longleftrightarrow>
     rr_result r \<in> {''pass'', ''fail'', ''warn'', ''skip''} \<and>
     (rr_result r = ''fail'' \<or> rr_result r = ''warn'' \<longrightarrow> rr_why_failed r \<noteq> None)"

locale rule_evaluator =
  fixes eval :: evaluator
  assumes stamped: "eval uid event logic rule = Inr r \<Longrightarrow> result_of_rule uid rule r"
    and outcome: "eval uid event logic rule = Inr r \<Longrightarrow> evaluator_outcome r"
begin

lemma never_error: "eval uid event logic rule = Inr r \<Longrightarrow> rr_result r \<noteq> ''error''"
  using outcome by (fastforce simp: evaluator_outcome_def)

lemma same_rule_same_severity:
  "eval uid event logic rule = Inr r \<Longrightarrow> rr_severity r = rd_severity rule"
  using stamped by (simp add: result_of_rule_def)

end

lemma checked_result_fields [result_fields]:
  "rr_result (checked_result uid rule res e) = res"
  "result_of_rule uid rule (checked_result uid rule res e)"
  "rr_evidence (checked_result uid rule res e) = e"
  "rr_why_failed (checked_result uid rule res e) = None"
  by (simp_all add: checked_result_def result_of_rule_def)

lemma failed_result_fields [result_fields]:
  "rr_result (failed_result uid rule why e) = ''fail''"
  "result_of_rule uid rule (failed_result uid rule why e)"
  "rr_evidence (failed_result uid rule why e) = e"
  "rr_why_failed (failed_result uid rule why e) = Some why"
  by (simp_all add: failed_result_def checked_result_def result_of_rule_def)

text \<open>The contract as a predicate on the outcome of one evaluation, with a rule per construct.\<close>

definition meets_contract :: "string \<Rightarrow> RuleDefinition \<Rightarrow> py_error + RuleEvaluationResult \<Rightarrow> bool" where
  "meets_contract uid rule m \<longleftrightarrow> (\<forall>r. m = Inr r \<longrightarrow> result_of_rule uid rule r \<and> evaluator_outcome r)"

lemma contract_raise: "meets_contract uid rule (Inl e)"
  by (simp add: meets_contract_def)

lemma contract_checked:
  "res = ''pass'' \<or> res = ''skip'' \<Longrightarrow> meets_contract uid rule (Inr (checked_result uid rule res e))"
  by (auto simp: meets_contract_def evaluator_outcome_def result_fields)

lemma contract_failed: "meets_contract uid rule (Inr (failed_result uid rule why e))"
  by (simp add: meets_contract_def evaluator_outcome_def result_fields)

lemma contract_and_then:
  "(\<And>a. meets_contract uid rule (f a)) \<Longrightarrow> meets_contract uid rule (and_then m f)"
  by (cases m) (simp_all add: contract_raise)

lemma contract_if:
  "meets_contract uid rule a \<Longrightarrow> meets_contract uid rule b \<Longrightarrow> meets_contract uid rule (if c then a else b)"
  by simp

lemma contract_option:
  "meets_contract uid rule a \<Longrightarrow> (\<And>x. meets_contract uid rule (f x)) \<Longrightarrow>
   meets_contract uid rule (case v of None \<Rightarrow> a | Some x \<Rightarrow> f x)"
  by (cases v) simp_all

lemma contract_prod:
  "(\<And>x y. meets_contract uid rule (f x y)) \<Longrightarrow> meets_contract uid rule (case p of (x, y) \<Rightarrow> f x y)"
  by (cases p) simp

lemma contract_on_str:
  "(\<And>p. meets_contract uid rule (f p)) \<Longrightarrow>
   meets_contract uid rule (case v of PStr p \<Rightarrow> f p | _ \<Rightarrow> Inl e)"
  by (cases v) (simp_all add: contract_raise)

lemmas contract_rules =
  contract_raise contract_checked contract_failed contract_and_then contract_if contract_option
  contract_prod contract_on_str

lemma rule_evaluatorI:
  assumes "\<And>uid event logic rule. meets_contract uid rule (ev uid event logic rule)"
  shows "rule_evaluator ev"
  using assms by unfold_locales (simp_all add: meets_contract_def)

interpretation presence: rule_evaluator "evaluate_field_presence rt"
  unfolding evaluate_field_presence_def Let_def
  by (rule rule_evaluatorI) (intro contract_rules; simp)

interpretation fmt: rule_evaluator "evaluate_field_format rt"
  unfolding evaluate_field_format_def Let_def
  by (rule rule_evaluatorI) (intro contract_rules; simp)

interpretation multi: rule_evaluator "evaluate_multi_field_presence rt"
  unfolding evaluate_multi_field_presence_def Let_def
  by (rule rule_evaluatorI) (intro contract_rules; simp)

interpretation range: rule_evaluator "evaluate_numeric_range rt"
  unfolding evaluate_numeric_range_def Let_def
  by (rule rule_evaluatorI) (intro contract_rules; simp)

interpretation gs1: rule_evaluator "evaluate_gs1_check_digit rt"
  unfolding evaluate_gs1_check_digit_def Let_def
  by (rule rule_evaluatorI) (intro contract_rules; simp)

text \<open>Every entry of the dispatch table is an evaluator in this sense.\<close>

lemma EVALUATORS_contract: "map_of (EVALUATORS rt) k = Some ev \<Longrightarrow> rule_evaluator ev"
  using presence.rule_evaluator_axioms fmt.rule_evaluator_axioms multi.rule_evaluator_axioms
    range.rule_evaluator_axioms gs1.rule_evaluator_axioms
  by (auto simp: EVALUATORS_def split: if_splits)

section \<open>Properties\<close>

text \<open>The outcome token of an evaluation, \<open>None\<close> when the evaluator raised.\<close>

definition result_token :: "py_error + RuleEvaluationResult \<Rightarrow> string option" where
  "result_token m = (case m of Inl _ \<Rightarrow> None | Inr r \<Rightarrow> Some (rr_result r))"

lemma result_token_simps [simp]:
  "result_token (Inl e) = None"
  "result_token (Inr r) = Some (rr_result r)"
  by (simp_all add: result_token_def)

lemma token_fail_only:
  "result_token (and_then m (\<lambda>why. Inr (failed_result uid rule why e))) \<in> {None, Some ''fail''}"
  by (cases m) (simp_all add: result_fields)

lemma token_fail_not_pass:
  "result_token (and_then m (\<lambda>why. Inr (failed_result uid rule why e))) \<noteq> Some ''pass''"
  by (cases m) (simp_all add: result_fields)

lemma map_err_field_entries:
  "map_err (field_entry rt event) (map PStr ps) =
     Inr (map (\<lambda>p. (p, value_is_present (get_nested_value event p),
                    [(''field'', PStr p), (''value'', shown_value rt (get_nested_value event p)),
                     (''present'', PBool (value_is_present (get_nested_value event p)))])) ps)"
  by (induction ps) (simp_all add: field_entry_def Let_def)

text \<open>
  A presence rule over several dotted paths passes exactly when the
  rule names at least one field and, in require-all mode, every named field is present, in
  any-of mode at least one is: a rule that names no field never passes an event.
\<close>

theorem multi_field_pass_iff:
  assumes "dict_get logic ''params'' (PDict []) = PDict params"
    and "dict_get params ''fields'' (PList []) = PList (map PStr ps)"
  shows "result_token (evaluate_multi_field_presence rt uid event logic rule) = Some ''pass'' \<longleftrightarrow>
         ps \<noteq> [] \<and>
         (if dict_get params ''require'' PNone = PStr ''all''
          then list_all (\<lambda>p. value_is_present (get_nested_value event p)) ps
          else list_ex (\<lambda>p. value_is_present (get_nested_value event p)) ps)"
  using assms
  by (auto simp: evaluate_multi_field_presence_def Let_def py_iter_def map_err_field_entries
      token_fail_not_pass result_fields comp_def list_all_iff list_ex_iff)

theorem multi_field_pass_iff_witness:
  "result_token (evaluate_multi_field_presence example_rt ''u1'' [(''lot'', PStr ''L1'')]
      [(''params'', PDict [(''fields'', PList (map PStr [''lot'', ''qty''])), (''require'', PStr ''all'')])]
      sample_rule) \<noteq> Some ''pass''"
proof -
  have "\<not> value_is_present (get_nested_value [(''lot'', PStr ''L1'')] ''qty'')" by code_simp
  then show ?thesis
    by (subst multi_field_pass_iff
        [where params = "[(''fields'', PList (map PStr [''lot'', ''qty''])), (''require'', PStr ''all'')]"
          and ps = "[''lot'', ''qty'']"]) simp_all
qed

lemma py_or_dict [simp]: "py_or (PDict d) (PDict []) = PDict d"
  by (simp add: py_or_def)

lemma numeric_range_value:
  assumes "dict_get logic ''params'' (PDict []) = PDict params"
    and "resolve_numeric_value event logic = Inr (Some v, fld, note)"
    and "out_of_bound (\<lambda>b. flt v b) (dict_get params ''min'' PNone) = Inr lowp"
    and "out_of_bound (\<lambda>b. flt b v) (dict_get params ''max'' PNone) = Inr highp"
  shows "result_token (evaluate_numeric_range rt uid event logic rule) = Some ''pass'' \<longleftrightarrow>
         \<not> lowp \<and> \<not> highp"
proof (cases "field_label fld")
  case (Inl e)
  then show ?thesis
    using assms by (simp add: evaluate_numeric_range_def Let_def result_fields)
next
  case (Inr l)
  then show ?thesis
    using assms by (simp add: evaluate_numeric_range_def Let_def result_fields token_fail_not_pass)
qed

text \<open>
  With numeric bounds in the rule, a finite reading passes a range rule
  exactly when it lies in the closed interval: both ends are inclusive.
\<close>

theorem numeric_range_inclusive:
  assumes "dict_get logic ''params'' (PDict []) = PDict params"
    and "dict_get params ''min'' PNone \<noteq> PNone" and "to_float (dict_get params ''min'' PNone) = Inr (Fin lo)"
    and "dict_get params ''max'' PNone \<noteq> PNone" and "to_float (dict_get params ''max'' PNone) = Inr (Fin hi)"
    and "resolve_numeric_value event logic = Inr (Some (Fin x), fld, note)"
  shows "result_token (evaluate_numeric_range rt uid event logic rule) = Some ''pass'' \<longleftrightarrow>
         lo \<le> x \<and> x \<le> hi"
  using numeric_range_value [OF assms(1,6)] assms(2-5)
  by (simp add: out_of_bound_def not_less)

theorem numeric_range_inclusive_witness:
  "result_token (evaluate_numeric_range example_rt ''u1'' [(''kdes'', PDict [(''temperature_celsius'', PInt 5)])]
      [(''params'', PDict [(''source'', PStr ''temperature''), (''min'', PInt 0), (''max'', PInt 5)])]
      sample_rule) = Some ''pass''"
proof -
  have r: "resolve_numeric_value [(''kdes'', PDict [(''temperature_celsius'', PInt 5)])]
        [(''params'', PDict [(''source'', PStr ''temperature''), (''min'', PInt 0), (''max'', PInt 5)])] =
      Inr (Some (Fin 5), PStr ''kdes.temperature_celsius'',
           Some (''normalized to '' @ degree_c @ '' from kdes.temperature_celsius''))"
    by code_simp
  show ?thesis
    by (subst numeric_range_inclusive [OF _ _ _ _ _ r, where lo = 0 and hi = 5
        and params = "[(''source'', PStr ''temperature''), (''min'', PInt 0), (''max'', PInt 5)]"])
      (simp_all add: py_simps del: to_float.simps)
qed

text \<open>
  A missing or unparseable reading never passes a range rule, and it is
  skipped only when the rule asks for that explicitly: a blank cold-chain field cannot make
  the audit pass.
\<close>

theorem numeric_range_missing_fails_closed:
  assumes "dict_get logic ''params'' (PDict []) = PDict params"
    and "resolve_numeric_value event logic = Inr (None, fld, note)"
  shows "result_token (evaluate_numeric_range rt uid event logic rule) \<noteq> Some ''pass'' \<and>
         (result_token (evaluate_numeric_range rt uid event logic rule) = Some ''skip'' \<longleftrightarrow>
          dict_get params ''missing_result'' PNone = PStr ''skip'')"
proof (cases "field_label fld")
  case (Inl e)
  then show ?thesis
    using assms by (simp add: evaluate_numeric_range_def Let_def result_fields)
next
  case (Inr l)
  have "result_token (and_then m (\<lambda>why. Inr (failed_result uid rule why e))) \<noteq> Some ''skip''" for m e
    by (cases m) (simp_all add: result_fields)
  with Inr show ?thesis
    using assms by (simp add: evaluate_numeric_range_def Let_def result_fields token_fail_not_pass)
qed

theorem numeric_range_missing_fails_closed_witness:
  "result_token (evaluate_numeric_range example_rt ''u1'' [(''kdes'', PDict [(''temperature'', PStr ''n/a'')])]
      [(''params'', PDict [(''source'', PStr ''temperature''), (''max'', PInt 5)])]
      sample_rule) \<noteq> Some ''pass''"
proof -
  have "resolve_numeric_value [(''kdes'', PDict [(''temperature'', PStr ''n/a'')])]
        [(''params'', PDict [(''source'', PStr ''temperature''), (''max'', PInt 5)])] =
      Inr (None, PStr ''kdes'', None)"
    by code_simp
  from numeric_range_missing_fails_closed [OF _ this] show ?thesis by simp
qed

text \<open>
  The reading NaN passes every range rule whose bounds are numbers,
  since both comparisons with it are false: a text field holding \<open>nan\<close> is read as a number
  and is never out of range.
\<close>

theorem numeric_range_nan_passes:
  assumes "dict_get logic ''params'' (PDict []) = PDict params"
    and "to_float (dict_get params ''min'' PNone) = Inr lo"
    and "to_float (dict_get params ''max'' PNone) = Inr hi"
    and "resolve_numeric_value event logic = Inr (Some NaN, fld, note)"
  shows "result_token (evaluate_numeric_range rt uid event logic rule) = Some ''pass''"
  using numeric_range_value [OF assms(1,4), of False False] assms(2,3)
  by (simp add: out_of_bound_def)

theorem numeric_range_nan_passes_witness:
  "result_token (evaluate_numeric_range example_rt ''u1'' [(''kdes'', PDict [(''hours'', PStr ''NaN'')])]
      [(''field'', PStr ''kdes.hours''), (''params'', PDict [(''min'', PInt 0), (''max'', PInt 5)])]
      sample_rule) = Some ''pass''"
proof -
  have r: "resolve_numeric_value [(''kdes'', PDict [(''hours'', PStr ''NaN'')])]
        [(''field'', PStr ''kdes.hours''), (''params'', PDict [(''min'', PInt 0), (''max'', PInt 5)])] =
      Inr (Some NaN, PStr ''kdes.hours'', None)"
    by code_simp
  show ?thesis
    by (rule numeric_range_nan_passes [OF _ _ _ r, where lo = "Fin 0" and hi = "Fin 5"
        and params = "[(''min'', PInt 0), (''max'', PInt 5)]"])
      (simp_all add: py_simps del: to_float.simps)
qed

text \<open>
  A GS1 check-digit rule passes an all-digit value exactly when it is
  a 13-digit number with a valid check digit, and otherwise fails it; a value that is not
  all digits is skipped, never failed.
\<close>

theorem gs1_check_digit_outcome:
  assumes "dict_get logic ''field'' (PStr []) = PStr p"
    and "get_nested_value event p = PStr s"
  shows "result_token (evaluate_gs1_check_digit rt uid event logic rule) =
         Some (if \<not> py_isdigit (py_strip s) then ''skip''
               else if length (py_strip s) = 13 \<and> verify_gs1_check_digit (PStr (py_strip s)) then ''pass''
               else ''fail'')"
  using assms
  by (auto simp: evaluate_gs1_check_digit_def Let_def result_fields py_isdigit_def)

theorem gs1_check_digit_outcome_witness:
  "result_token (evaluate_gs1_check_digit example_rt ''u1'' [(''gln'', PStr '' 0614141000011 '')]
      [(''field'', PStr ''gln'')] sample_rule) = Some ''fail''"
proof -
  have "get_nested_value [(''gln'', PStr '' 0614141000011 '')] ''gln'' = PStr '' 0614141000011 ''"
    by code_simp
  note gs1_check_digit_outcome [OF _ this, of "[(''field'', PStr ''gln'')]" example_rt "''u1''" sample_rule]
  moreover have "py_isdigit (py_strip '' 0614141000011 '')" by code_simp
  moreover have "\<not> verify_gs1_check_digit (PStr (py_strip '' 0614141000011 ''))" by code_simp
  ultimately show ?thesis by simp
qed

end
