(* ===== verification/DbSession.thy ===== *)
theory DbSession
  imports RuleTypes "HOL-Library.Char_ord" "HOL-Library.List_Lexorder"
begin

text \<open>
  The database as the rules engine uses it: the tables its SQL statements read and write,
  the statements themselves, and a session inside one open transaction.

  The meaning of a statement is the SQL text of the source. Which statements the server
  refuses (constraints, lost privileges, schema drift, a broken connection) is a parameter, a
  function \<open>faults\<close> of the statement's position, the statement and the tables. As PostgreSQL
  documents it, a refused statement leaves the transaction aborted, an aborted transaction
  refuses every statement up to a rollback, and a rollback to a savepoint restores the
  tables of that point and makes the transaction usable again.
\<close>

section \<open>Tables\<close>

record trace_row =
  te_event_id :: string
  te_tenant_id :: string
  te_traceability_lot_code :: string
  te_status :: string
  te_event_type :: string
  te_event_timestamp :: int
  te_product_reference :: "string option"
  te_quantity :: "pyfloat option"
  te_unit_of_measure :: "string option"
  te_evaluation_verdict :: "string option"
  te_no_verdict_reason :: "string option"
  te_evaluation_error :: "string option"
  te_evaluated_at :: "int option"

record eval_row =
  er_eval_id :: string
  er_tenant_id :: string
  er_event_id :: pyval
  er_rule_id :: string
  er_rule_version :: int
  er_result :: string
  er_why_failed :: "string option"
  er_evidence :: string
  er_confidence :: pyfloat

text \<open>A rule row holds the JSON columns as the driver returns them: a dictionary or text.\<close>

record db =
  db_rule_definitions :: "RuleDefinition list"
  db_traceability_events :: "trace_row list"
  db_rule_evaluations :: "eval_row list"
  db_deadletter :: "(eval_row \<times> string) list"

section \<open>Statements\<close>

record verdict_param =
  vp_tenant_id :: string
  vp_event_id :: pyval
  vp_verdict :: string
  vp_reason :: "string option"

datatype stmt =
    SelectRules
  | SelectRelated string string "string option"
  | InsertEvaluations "eval_row list"
  | InsertDeadletter eval_row string
  | UpdateVerdicts "verdict_param list"
  | UpdateError string pyval string
  | Savepoint
  | ReleaseSavepoint

record session =
  ss_db :: db
  ss_clock :: nat
  ss_now :: int
  ss_today :: int
  ss_aborted :: bool

type_synonym faults = "nat \<Rightarrow> stmt \<Rightarrow> db \<Rightarrow> string option"

text \<open>A parameter compared with a \<open>uuid\<close> column.\<close>

definition uuid_param :: "pyrt \<Rightarrow> pyval \<Rightarrow> string option" where
  "uuid_param rt v = (case v of PStr s \<Rightarrow> rt_pg_uuid rt s | PUUID u \<Rightarrow> Some u | _ \<Rightarrow> None)"

definition row_of_event :: "pyrt \<Rightarrow> string \<Rightarrow> pyval \<Rightarrow> trace_row \<Rightarrow> bool" where
  "row_of_event rt tenant event_id row \<longleftrightarrow>
     uuid_param rt (PStr tenant) = Some (te_tenant_id row) \<and> uuid_param rt event_id = Some (te_event_id row)"

definition stamp_verdict :: "pyrt \<Rightarrow> int \<Rightarrow> verdict_param \<Rightarrow> trace_row \<Rightarrow> trace_row" where
  "stamp_verdict rt now p row =
     (if row_of_event rt (vp_tenant_id p) (vp_event_id p) row
      then row\<lparr>te_evaluation_verdict := Some (vp_verdict p), te_no_verdict_reason := vp_reason p,
               te_evaluated_at := Some now\<rparr>
      else row)"

definition stamp_error :: "pyrt \<Rightarrow> int \<Rightarrow> string \<Rightarrow> pyval \<Rightarrow> string \<Rightarrow> trace_row \<Rightarrow> trace_row" where
  "stamp_error rt now tenant event_id msg row =
     (if row_of_event rt tenant event_id row
      then row\<lparr>te_evaluation_error := Some msg, te_evaluated_at := Some now\<rparr> else row)"

text \<open>Parameters that are no \<open>uuid\<close> make the statement fail on every database.\<close>

fun bad_uuid :: "pyrt \<Rightarrow> stmt \<Rightarrow> bool" where
  "bad_uuid rt (SelectRelated tlc tenant excl) =
     (rt_pg_uuid rt tenant = None \<or> (\<exists>x \<in> set_option excl. rt_pg_uuid rt x = None))"
| "bad_uuid rt (InsertEvaluations rows) =
     list_ex (\<lambda>r. uuid_param rt (er_event_id r) = None \<or> rt_pg_uuid rt (er_tenant_id r) = None) rows"
| "bad_uuid rt (InsertDeadletter r _) = (rt_pg_uuid rt (er_tenant_id r) = None)"
| "bad_uuid rt (UpdateVerdicts ps) =
     list_ex (\<lambda>p. uuid_param rt (vp_event_id p) = None \<or> rt_pg_uuid rt (vp_tenant_id p) = None) ps"
| "bad_uuid rt (UpdateError tenant event_id _) =
     (uuid_param rt event_id = None \<or> rt_pg_uuid rt tenant = None)"
| "bad_uuid rt _ = False"

fun apply_stmt :: "pyrt \<Rightarrow> int \<Rightarrow> stmt \<Rightarrow> db \<Rightarrow> db" where
  "apply_stmt rt now (InsertEvaluations rows) d =
     d\<lparr>db_rule_evaluations := db_rule_evaluations d @ rows\<rparr>"
| "apply_stmt rt now (InsertDeadletter r msg) d = d\<lparr>db_deadletter := db_deadletter d @ [(r, msg)]\<rparr>"
| "apply_stmt rt now (UpdateVerdicts ps) d =
     d\<lparr>db_traceability_events :=
         map (fold (stamp_verdict rt now) ps) (db_traceability_events d)\<rparr>"
| "apply_stmt rt now (UpdateError tenant event_id msg) d =
     d\<lparr>db_traceability_events := map (stamp_error rt now tenant event_id msg) (db_traceability_events d)\<rparr>"
| "apply_stmt rt now _ d = d"

section \<open>The session\<close>

definition tick :: "session \<Rightarrow> session" where
  "tick ss = ss\<lparr>ss_clock := Suc (ss_clock ss)\<rparr>"

definition refused :: "pyrt \<Rightarrow> faults \<Rightarrow> stmt \<Rightarrow> session \<Rightarrow> string option" where
  "refused rt fs st ss =
     (if ss_aborted ss then Some ''current transaction is aborted''
      else if bad_uuid rt st then Some ''invalid input syntax for type uuid''
      else fs (ss_clock ss) st (ss_db ss))"

text \<open>\<open>session.execute(...)\<close>\<close>

definition execute :: "pyrt \<Rightarrow> faults \<Rightarrow> stmt \<Rightarrow> session \<Rightarrow> session \<times> (py_error + unit)" where
  "execute rt fs st ss =
     (case refused rt fs st ss of
        Some msg \<Rightarrow> (tick ss\<lparr>ss_aborted := True\<rparr>, Inl (DBAPIError msg))
      | None \<Rightarrow> (tick ss\<lparr>ss_db := apply_stmt rt (ss_now ss) st (ss_db ss)\<rparr>, Inr ()))"

text \<open>\<open>savepoint.rollback()\<close>: back to the tables the savepoint saved.\<close>

definition rollback_to :: "db \<Rightarrow> session \<Rightarrow> session" where
  "rollback_to d ss = tick ss\<lparr>ss_db := d, ss_aborted := False\<rparr>"

text \<open>
  The pattern of every write of the engine: \<open>begin_nested()\<close> outside the \<open>try\<close>, then the
  statement and the commit inside it, and a rollback when either raises. The outer result is
  what \<open>begin_nested()\<close> raised; the inner one is what the \<open>except\<close> clause caught.
\<close>

definition in_savepoint ::
  "pyrt \<Rightarrow> faults \<Rightarrow> stmt \<Rightarrow> session \<Rightarrow> session \<times> (py_error + py_error option)" where
  "in_savepoint rt fs st ss =
     (case execute rt fs Savepoint ss of
        (ss0, Inl e) \<Rightarrow> (ss0, Inl e)
      | (ss0, Inr _) \<Rightarrow>
          (case execute rt fs st ss0 of
             (ss1, Inl e) \<Rightarrow> (rollback_to (ss_db ss0) ss1, Inr (Some e))
           | (ss1, Inr _) \<Rightarrow>
               (case execute rt fs ReleaseSavepoint ss1 of
                  (ss2, Inl e) \<Rightarrow> (rollback_to (ss_db ss0) ss2, Inr (Some e))
                | (ss2, Inr _) \<Rightarrow> (ss2, Inr None))))"

section \<open>Facts\<close>

lemma tick_fields [simp]:
  "ss_db (tick ss) = ss_db ss" "ss_now (tick ss) = ss_now ss" "ss_today (tick ss) = ss_today ss"
  "ss_aborted (tick ss) = ss_aborted ss" "ss_clock (tick ss) = Suc (ss_clock ss)"
  by (simp_all add: tick_def)

lemma rollback_to_fields [simp]:
  "ss_db (rollback_to d ss) = d" "ss_aborted (rollback_to d ss) = False"
  "ss_now (rollback_to d ss) = ss_now ss" "ss_today (rollback_to d ss) = ss_today ss"
  by (simp_all add: rollback_to_def)

lemma execute_refused:
  "execute rt fs st ss = (ss', Inl e) \<Longrightarrow> ss_db ss' = ss_db ss \<and> ss_aborted ss'"
  by (auto simp: execute_def split: option.splits)

lemma execute_done:
  "execute rt fs st ss = (ss', Inr u) \<Longrightarrow>
   ss_db ss' = apply_stmt rt (ss_now ss) st (ss_db ss) \<and> \<not> ss_aborted ss' \<and> \<not> ss_aborted ss"
  by (auto simp: execute_def refused_def split: option.splits if_splits)

lemma execute_frame [frame_simps]:
  "execute rt fs st ss = (ss', r) \<Longrightarrow> ss_now ss' = ss_now ss \<and> ss_today ss' = ss_today ss"
  by (auto simp: execute_def split: option.splits)

lemma execute_aborted:
  "ss_aborted ss \<Longrightarrow> \<exists>msg. execute rt fs st ss = (tick ss\<lparr>ss_aborted := True\<rparr>, Inl (DBAPIError msg))"
  by (simp add: execute_def refused_def)

text \<open>
  What a write in a savepoint leaves, in the three ways it can end: the savepoint could not
  be opened, the statement is in effect, or the tables are as before. In the last two cases
  the transaction is usable.
\<close>

lemma in_savepoint_cases:
  assumes "in_savepoint rt fs st ss = (ss', r)"
  obtains (unopened) e where "r = Inl e" and "ss_db ss' = ss_db ss" and "ss_aborted ss'"
  | (committed) "r = Inr None" and "ss_db ss' = apply_stmt rt (ss_now ss) st (ss_db ss)"
      and "\<not> ss_aborted ss'" and "\<not> ss_aborted ss"
  | (rolled_back) e where "r = Inr (Some e)" and "ss_db ss' = ss_db ss" and "\<not> ss_aborted ss'"
      and "\<not> ss_aborted ss"
proof -
  obtain ss0 r0 where e0: "execute rt fs Savepoint ss = (ss0, r0)" by fastforce
  show thesis
  proof (cases r0)
    case (Inl e)
    with e0 assms execute_refused [of rt fs Savepoint ss ss0 e] show thesis
      by (intro unopened [of e]) (auto simp: in_savepoint_def)
  next
    case (Inr u)
    with e0 have d0: "ss_db ss0 = ss_db ss" and n0: "ss_now ss0 = ss_now ss" and a0: "\<not> ss_aborted ss"
      using execute_done [of rt fs Savepoint ss ss0] execute_frame [of rt fs Savepoint ss ss0 r0] by auto
    obtain ss1 r1 where e1: "execute rt fs st ss0 = (ss1, r1)" by fastforce
    show thesis
    proof (cases r1)
      case (Inl e)
      with e0 e1 assms Inr d0 a0 show thesis
        by (intro rolled_back [of e]) (auto simp: in_savepoint_def)
    next
      case (Inr u1)
      with e1 have d1: "ss_db ss1 = apply_stmt rt (ss_now ss) st (ss_db ss)" and n1: "ss_now ss1 = ss_now ss"
        using execute_done [of rt fs st ss0 ss1] execute_frame [of rt fs st ss0 ss1 r1] d0 n0 by auto
      obtain ss2 r2 where e2: "execute rt fs ReleaseSavepoint ss1 = (ss2, r2)" by fastforce
      show thesis
      proof (cases r2)
        case (Inl e)
        with e0 e1 e2 assms \<open>r0 = Inr u\<close> Inr d0 a0 show thesis
          by (intro rolled_back [of e]) (auto simp: in_savepoint_def)
      next
        case (Inr u2)
        with e2 have "ss_db ss2 = ss_db ss1" and "\<not> ss_aborted ss2"
          using execute_done [of rt fs ReleaseSavepoint ss1 ss2] by auto
        with e0 e1 e2 assms \<open>r0 = Inr u\<close> \<open>r1 = Inr u1\<close> Inr d1 a0 show thesis
          by (intro committed) (auto simp: in_savepoint_def)
      qed
    qed
  qed
qed

lemma in_savepoint_frame [frame_simps]:
  "in_savepoint rt fs st ss = (ss', r) \<Longrightarrow> ss_now ss' = ss_now ss \<and> ss_today ss' = ss_today ss"
  by (auto simp: in_savepoint_def split: prod.splits sum.splits dest!: execute_frame)

end
