(* ===== verification/RelationalEval.thy ===== *)
theory RelationalEval
  imports StatelessEval DbSession
begin

text \<open>
  \<^verbatim>\<open>services/shared/rules/evaluators/relational.py\<close>: the evaluators that compare an event with
  the other active events of its lot. Each first decides whether it can run, then obtains
  the related events (the list the engine fetched before, or a query of its own), then
  judges; the judgement is a definition of its own. The tenant is the authenticated one, an
  argument, never a field of the event.
\<close>

section \<open>Results\<close>

definition skipped_result :: "string \<Rightarrow> RuleDefinition \<Rightarrow> string \<Rightarrow> RuleEvaluationResult" where
  "skipped_result uid rule why = (rule_result uid rule ''skip'')\<lparr>rr_why_failed := Some why\<rparr>"

definition passed_result :: "string \<Rightarrow> RuleDefinition \<Rightarrow> pydict list \<Rightarrow> RuleEvaluationResult" where
  "passed_result uid rule evidence = (rule_result uid rule ''pass'')\<lparr>rr_evidence := evidence\<rparr>"

definition warned_result :: "string \<Rightarrow> RuleDefinition \<Rightarrow> string \<Rightarrow> pydict list \<Rightarrow> RuleEvaluationResult" where
  "warned_result uid rule why evidence =
     (checked_result uid rule ''warn'' evidence)\<lparr>rr_why_failed := Some why\<rparr>"

section \<open>Related events\<close>

datatype event_time = TsNone | TsText string | TsTime pydatetime

record related_event =
  re_event_id :: string
  re_event_type :: string
  re_event_timestamp :: event_time
  re_product_reference :: "string option"
  re_quantity :: "pyfloat option"
  re_unit_of_measure :: "string option"

definition resolve_tenant :: "pydict \<Rightarrow> string option \<Rightarrow> RuleDefinition \<Rightarrow> string option" where
  "resolve_tenant event session_tenant_id rule =
     (case session_tenant_id of None \<Rightarrow> None | Some t \<Rightarrow> if t = [] then None else Some t)"

definition related_of_row :: "trace_row \<Rightarrow> related_event" where
  "related_of_row r =
     \<lparr>re_event_id = te_event_id r, re_event_type = te_event_type r,
      re_event_timestamp = TsTime (Datetime (te_event_timestamp r) (Some 0)),
      re_product_reference = te_product_reference r, re_quantity = te_quantity r,
      re_unit_of_measure = te_unit_of_measure r\<rparr>"

definition related_row :: "pyrt \<Rightarrow> string \<Rightarrow> string \<Rightarrow> string option \<Rightarrow> trace_row \<Rightarrow> bool" where
  "related_row rt tlc tenant exclude_id r \<longleftrightarrow>
     te_traceability_lot_code r = tlc \<and> rt_pg_uuid rt tenant = Some (te_tenant_id r) \<and>
     te_status r = ''active'' \<and>
     (case exclude_id of None \<Rightarrow> True | Some x \<Rightarrow> rt_pg_uuid rt x \<noteq> Some (te_event_id r))"

text \<open>
  A lot code that is no text cannot be compared with the column (a dictionary is refused by
  the driver already).
\<close>

definition fetch_related_events ::
  "pyrt \<Rightarrow> faults \<Rightarrow> session \<Rightarrow> pyval \<Rightarrow> string \<Rightarrow> string option \<Rightarrow>
   session \<times> (py_error + related_event list)" where
  "fetch_related_events rt fs ss tlc tenant exclude_id =
     (case tlc of
        PStr lot \<Rightarrow>
          (case execute rt fs (SelectRelated lot tenant exclude_id) ss of
             (ss1, Inl e) \<Rightarrow> (ss1, Inl e)
           | (ss1, Inr _) \<Rightarrow>
               (ss1, Inr (map related_of_row
                       (sort_key te_event_timestamp
                          (filter (related_row rt lot tenant exclude_id) (db_traceability_events (ss_db ss)))))))
      | PDict _ \<Rightarrow> (ss, Inl (DBAPIError ''cannot adapt type''))
      | _ \<Rightarrow> (tick ss\<lparr>ss_aborted := True\<rparr>, Inl (DBAPIError ''operator does not exist'')))"

definition related_or_fetch ::
  "pyrt \<Rightarrow> faults \<Rightarrow> session \<Rightarrow> pyval \<Rightarrow> string \<Rightarrow> pyval \<Rightarrow> related_event list option \<Rightarrow>
   session \<times> (py_error + related_event list)" where
  "related_or_fetch rt fs ss tlc tenant event_id related_events =
     (case related_events of
        Some rel \<Rightarrow> (ss, Inr rel)
      | None \<Rightarrow> fetch_related_events rt fs ss tlc tenant (Some (py_str rt event_id)))"

definition no_related :: "pyval \<Rightarrow> pydict list" where
  "no_related tlc = [[(''note'', PStr ''No related events for TLC''), (''tlc'', tlc)]]"

text \<open>The shape the three evaluators share once their guards passed.\<close>

definition judge_related ::
  "session \<times> (py_error + related_event list) \<Rightarrow> string \<Rightarrow> RuleDefinition \<Rightarrow> pyval \<Rightarrow>
   (related_event list \<Rightarrow> py_error + RuleEvaluationResult) \<Rightarrow>
   session \<times> (py_error + RuleEvaluationResult)" where
  "judge_related fetched uid rule tlc judge =
     (case fetched of
        (ss, Inl e) \<Rightarrow> (ss, Inl e)
      | (ss, Inr related) \<Rightarrow>
          (ss, if related = [] then Inr (passed_result uid rule (no_related tlc)) else judge related))"

section \<open>Temporal order\<close>

definition parse_event_time :: "pyrt \<Rightarrow> string \<Rightarrow> py_error + pydatetime" where
  "parse_event_time rt s = rt_fromisoformat rt (replace_char (CHR ''Z'') ''+00:00'' s)"

text \<open>\<open>CTE_LIFECYCLE_ORDER.get(event_type)\<close> for a value: a key must be hashable.\<close>

definition lifecycle_stage :: "pyval \<Rightarrow> py_error + nat option" where
  "lifecycle_stage v =
     (case v of
        PStr t \<Rightarrow> Inr (map_of cte_lifecycle_order t)
      | _ \<Rightarrow> if hashable v then Inr None else Inl TypeError)"

definition event_instant :: "pyrt \<Rightarrow> event_time \<Rightarrow> py_error + pydatetime option" where
  "event_instant rt t =
     (case t of
        TsNone \<Rightarrow> Inr None
      | TsText s \<Rightarrow> and_then (parse_event_time rt s) (\<lambda>d. Inr (Some d))
      | TsTime d \<Rightarrow> Inr (Some d))"

text \<open>Comparison of a \<open>datetime\<close> with the event's own timestamp, of whatever type that is.\<close>

definition dt_before :: "pyval \<Rightarrow> pyval \<Rightarrow> py_error + bool" where
  "dt_before a b =
     (case a of PDatetime d1 \<Rightarrow> (case b of PDatetime d2 \<Rightarrow> dt_less d1 d2 | _ \<Rightarrow> Inl TypeError)
      | _ \<Rightarrow> Inl TypeError)"

definition violation :: "pyrt \<Rightarrow> pyval \<Rightarrow> pyval \<Rightarrow> pyval \<Rightarrow> pyval \<Rightarrow> string \<Rightarrow> pydict" where
  "violation rt earlier_stage earlier_ts later_stage later_ts event_id =
     [(''earlier_stage'', earlier_stage), (''earlier_timestamp'', PStr (py_str rt earlier_ts)),
      (''later_stage'', later_stage), (''later_timestamp'', PStr (py_str rt later_ts)),
      (''event_id'', PStr event_id)]"

definition temporal_check ::
  "pyrt \<Rightarrow> pyval \<Rightarrow> nat \<Rightarrow> pyval \<Rightarrow> related_event \<Rightarrow> py_error + pydict option" where
  "temporal_check rt current_type current_stage current_ts evt =
     (case map_of cte_lifecycle_order (re_event_type evt) of
        None \<Rightarrow> Inr None
      | Some other_stage \<Rightarrow>
          and_then (event_instant rt (re_event_timestamp evt)) (\<lambda>t.
            case t of
              None \<Rightarrow> Inr None
            | Some d \<Rightarrow>
                let other_ts = PDatetime d; other_type = PStr (re_event_type evt) in
                if other_stage < current_stage then
                  and_then (dt_before current_ts other_ts) (\<lambda>b.
                    Inr (if b then Some (violation rt other_type other_ts current_type current_ts
                                           (re_event_id evt)) else None))
                else if current_stage < other_stage then
                  and_then (dt_before other_ts current_ts) (\<lambda>b.
                    Inr (if b then Some (violation rt current_type current_ts other_type other_ts
                                           (re_event_id evt)) else None))
                else Inr None))"

definition somes :: "'a option list \<Rightarrow> 'a list" where
  "somes xs = concat (map (\<lambda>x. case x of None \<Rightarrow> [] | Some a \<Rightarrow> [a]) xs)"

definition cfr_1310 :: string where
  "cfr_1310 = ''21 CFR '' @ [CHR 0xA7] @ ''1.1310''"

definition chronology_reason :: "pyrt \<Rightarrow> RuleDefinition \<Rightarrow> pyval \<Rightarrow> pydict \<Rightarrow> string" where
  "chronology_reason rt rule tlc v =
     ''Chronology paradox for TLC '' @ quoted (py_str rt tlc) @ '': '' @
     py_str rt (dict_get v ''later_stage'' PNone) @ '' (at '' @ py_str rt (dict_get v ''later_timestamp'' PNone) @
     '') occurs before '' @ py_str rt (dict_get v ''earlier_stage'' PNone) @ '' (at '' @
     py_str rt (dict_get v ''earlier_timestamp'' PNone) @
     ''). CTE events must follow the supply chain lifecycle order ('' @ citation_or rule cfr_1310 @ '').''"

definition judge_temporal ::
  "pyrt \<Rightarrow> string \<Rightarrow> pydict \<Rightarrow> RuleDefinition \<Rightarrow> pyval \<Rightarrow> related_event list \<Rightarrow>
   py_error + RuleEvaluationResult" where
  "judge_temporal rt uid event rule tlc related =
     (let current_type = dict_get event ''event_type'' (PStr []);
          raw_ts = dict_get event ''event_timestamp'' PNone
      in and_then (case raw_ts of PStr s \<Rightarrow> and_then (parse_event_time rt s) (\<lambda>d. Inr (PDatetime d))
                   | _ \<Rightarrow> Inr raw_ts) (\<lambda>current_ts.
         if current_ts = PNone then
           Inr (skipped_result uid rule
                  (''event_timestamp missing '' @ em_dash @ '' temporal order cannot be evaluated''))
         else
           and_then (lifecycle_stage current_type) (\<lambda>stage.
             case stage of
               None \<Rightarrow> Inr (skipped_result uid rule (''Unknown CTE type: '' @ py_str rt current_type))
             | Some current_stage \<Rightarrow>
                 and_then (map_err (temporal_check rt current_type current_stage current_ts) related) (\<lambda>found.
                   case somes found of
                     v # vs \<Rightarrow> Inr (failed_result uid rule (chronology_reason rt rule tlc v) (v # vs))
                   | [] \<Rightarrow>
                       Inr (passed_result uid rule
                              [[(''tlc'', tlc), (''events_checked'', PInt (int (length related))),
                                (''current_stage'', current_type)]])))))"

definition evaluate_temporal_order ::
  "pyrt \<Rightarrow> faults \<Rightarrow> string \<Rightarrow> pydict \<Rightarrow> pydict \<Rightarrow> RuleDefinition \<Rightarrow> session \<Rightarrow> string option \<Rightarrow>
   related_event list option \<Rightarrow> session \<times> (py_error + RuleEvaluationResult)" where
  "evaluate_temporal_order rt fs uid event logic rule ss tenant related_events =
     (let tlc = dict_get event ''traceability_lot_code'' (PStr []);
          event_id = dict_get event ''event_id'' (PStr [])
      in case resolve_tenant event tenant rule of
           Some auth_tid \<Rightarrow>
             if \<not> truthy tlc then
               (ss, Inr (skipped_result uid rule ''Missing TLC or authenticated tenant context for temporal check''))
             else judge_related (related_or_fetch rt fs ss tlc auth_tid event_id related_events) uid rule tlc
                    (judge_temporal rt uid event rule tlc)
         | None \<Rightarrow>
             (ss, Inr (skipped_result uid rule ''Missing TLC or authenticated tenant context for temporal check'')))"

section \<open>Identity consistency\<close>

definition normalize_product :: "string \<Rightarrow> string" where
  "normalize_product s = py_join '' '' (py_words (py_lower (py_strip s)))"

definition identity_mismatch :: "string \<Rightarrow> related_event \<Rightarrow> pydict option" where
  "identity_mismatch current_product evt =
     (case re_product_reference evt of
        None \<Rightarrow> None
      | Some other \<Rightarrow>
          if other = [] \<or> normalize_product other = normalize_product current_product then None
          else Some [(''event_id'', PStr (re_event_id evt)), (''event_type'', PStr (re_event_type evt)),
                     (''product_reference'', PStr other), (''current_product'', PStr current_product)])"

definition identity_reason :: "pyrt \<Rightarrow> RuleDefinition \<Rightarrow> pyval \<Rightarrow> string \<Rightarrow> pydict \<Rightarrow> string" where
  "identity_reason rt rule tlc current_product m =
     ''Product identity changed for TLC '' @ quoted (py_str rt tlc) @ '': '' @
     quoted (py_str rt (dict_get m ''product_reference'' PNone)) @ '' (at '' @
     py_str rt (dict_get m ''event_type'' PNone) @ '') vs '' @ quoted current_product @
     '' (current event). The same TLC must refer to the same product throughout the supply chain ('' @
     citation_or rule (cfr_1310 @ ''(a)'') @ '').''"

definition judge_identity ::
  "pyrt \<Rightarrow> string \<Rightarrow> RuleDefinition \<Rightarrow> pyval \<Rightarrow> pyval \<Rightarrow> related_event list \<Rightarrow>
   py_error + RuleEvaluationResult" where
  "judge_identity rt uid rule tlc current_product related =
     (case current_product of
        PStr product \<Rightarrow>
          (case somes (map (identity_mismatch product) related) of
             m # ms \<Rightarrow> Inr (failed_result uid rule (identity_reason rt rule tlc product m) (m # ms))
           | [] \<Rightarrow>
               Inr (passed_result uid rule
                      [[(''tlc'', tlc), (''events_checked'', PInt (int (length related))),
                        (''product'', current_product)]]))
      | _ \<Rightarrow> Inl AttributeError)"

definition identity_skip_reason :: string where
  "identity_skip_reason =
     ''Missing product_reference, TLC, or authenticated tenant context for identity check''"

definition evaluate_identity_consistency ::
  "pyrt \<Rightarrow> faults \<Rightarrow> string \<Rightarrow> pydict \<Rightarrow> pydict \<Rightarrow> RuleDefinition \<Rightarrow> session \<Rightarrow> string option \<Rightarrow>
   related_event list option \<Rightarrow> session \<times> (py_error + RuleEvaluationResult)" where
  "evaluate_identity_consistency rt fs uid event logic rule ss tenant related_events =
     (let tlc = dict_get event ''traceability_lot_code'' (PStr []);
          event_id = dict_get event ''event_id'' (PStr []);
          current_product = dict_get event ''product_reference'' PNone
      in case resolve_tenant event tenant rule of
           Some auth_tid \<Rightarrow>
             if \<not> truthy current_product \<or> \<not> truthy tlc
             then (ss, Inr (skipped_result uid rule identity_skip_reason))
             else judge_related (related_or_fetch rt fs ss tlc auth_tid event_id related_events) uid rule tlc
                    (judge_identity rt uid rule tlc current_product)
         | None \<Rightarrow> (ss, Inr (skipped_result uid rule identity_skip_reason)))"

section \<open>Mass balance\<close>

definition input_types :: "string list" where
  "input_types = [''harvesting'', ''receiving'', ''first_land_based_receiving'']"

definition origin_types :: "string list" where
  "origin_types = [''initial_packing'', ''transformation'']"

definition output_types :: "string list" where
  "output_types = [''shipping'']"

text \<open>Quantity, unit when one is given, event type.\<close>

type_synonym mass_entry = "pyfloat \<times> string option \<times> pyval"

definition unit_key :: "string \<Rightarrow> string" where
  "unit_key u = py_strip (py_lower u)"

definition current_unit :: "pyval \<Rightarrow> py_error + string option" where
  "current_unit v =
     (if \<not> truthy v then Inr None else case v of PStr u \<Rightarrow> Inr (Some u) | _ \<Rightarrow> Inl AttributeError)"

definition related_entry :: "related_event \<Rightarrow> mass_entry option" where
  "related_entry evt =
     (case re_quantity evt of
        None \<Rightarrow> None
      | Some q \<Rightarrow>
          Some (q, (case re_unit_of_measure evt of None \<Rightarrow> None | Some u \<Rightarrow> if u = [] then None else Some u),
                PStr (re_event_type evt)))"

text \<open>The set of units, as a list without repetitions.\<close>

definition units_of :: "mass_entry list \<Rightarrow> string list" where
  "units_of entries = remdups (map unit_key (somes (map (\<lambda>(_, u, _). u) entries)))"

fun convert_entries :: "pyval \<Rightarrow> mass_entry list \<Rightarrow> py_error + (pyfloat \<times> pyval) list option" where
  "convert_entries weights [] = Inr (Some [])"
| "convert_entries weights ((qty, uom, etype) # es) =
     and_then (case uom of None \<Rightarrow> Inr None | Some u \<Rightarrow> normalize_to_mass qty u weights) (\<lambda>mass.
       case mass of
         None \<Rightarrow> Inr None
       | Some m \<Rightarrow>
           and_then (convert_entries weights es) (\<lambda>rest.
             Inr (case rest of None \<Rightarrow> None | Some ms \<Rightarrow> Some ((m, etype) # ms))))"

definition type_in :: "pyval \<Rightarrow> string list \<Rightarrow> bool" where
  "type_in etype ts \<longleftrightarrow> (case etype of PStr t \<Rightarrow> t \<in> set ts | _ \<Rightarrow> False)"

text \<open>The running totals: primary input, origin input, output.\<close>

definition add_flow ::
  "pyfloat \<times> pyval \<Rightarrow> pyfloat \<times> pyfloat \<times> pyfloat \<Rightarrow> pyfloat \<times> pyfloat \<times> pyfloat" where
  "add_flow e t =
     (case e of (q, etype) \<Rightarrow> case t of (i, origin, out) \<Rightarrow>
        if type_in etype input_types then (fadd i q, origin, out)
        else if type_in etype origin_types then (i, fadd origin q, out)
        else if type_in etype output_types then (i, origin, fadd out q)
        else t)"

definition flow_totals :: "(pyfloat \<times> pyval) list \<Rightarrow> py_error + (pyfloat \<times> pyfloat)" where
  "flow_totals es =
     (if list_all (\<lambda>(_, t). hashable t) es
      then case fold add_flow es (Fin 0, Fin 0, Fin 0) of
             (i, origin, out) \<Rightarrow> Inr (if feq i (Fin 0) then origin else i, out)
      else Inl TypeError)"

text \<open>\<open>1 + tolerance_percent / 100\<close>\<close>

definition tolerance_factor :: "pyval \<Rightarrow> py_error + pyfloat" where
  "tolerance_factor v =
     and_then (case v of
         PInt i \<Rightarrow> float_of_rat (of_int i / 100)
       | PBool b \<Rightarrow> float_of_rat ((if b then 1 else 0) / 100)
       | PFloat x \<Rightarrow> Inr (fdiv_by x 100)
       | _ \<Rightarrow> Inl TypeError)
       (\<lambda>t. Inr (fadd (Fin 1) t))"

definition mixed_units_reason ::
  "pyrt \<Rightarrow> pyval \<Rightarrow> string list \<Rightarrow> pyfloat \<Rightarrow> pyfloat \<Rightarrow> string" where
  "mixed_units_reason rt tlc units total_input total_output =
     (if list_ex (\<lambda>u. \<not> is_mass_uom (Some u)) units
      then ''Mass balance check not comparable for TLC '' @ quoted (py_str rt tlc) @
           '': events mix mass and container/count units ('' @ py_join '', '' (sort units) @
           ''). Container UOMs (e.g. case/box/bin) are not convertible to mass without a '' @
           ''tenant/product container-weight mapping, so no pass/fail verdict is rendered.''
      else ''Mass balance check inconclusive for TLC '' @ quoted (py_str rt tlc) @
           '': mixed units of measure detected ('' @ py_join '', '' (sort units) @
           '') and not all could be converted. Cannot reliably compare input ('' @
           py_str rt (PFloat total_input) @ '') vs output ('' @ py_str rt (PFloat total_output) @ '').'')"

definition balance_verdict ::
  "pyrt \<Rightarrow> string \<Rightarrow> RuleDefinition \<Rightarrow> pyval \<Rightarrow> pyval \<Rightarrow> pydict list \<Rightarrow> pyfloat \<Rightarrow> pyfloat \<Rightarrow>
   py_error + RuleEvaluationResult" where
  "balance_verdict rt uid rule tlc tolerance_percent evidence total_input total_output =
     (if feq total_input (Fin 0) \<and> flt (Fin 0) total_output then
        Inr (warned_result uid rule
               (''Mass balance check for TLC '' @ quoted (py_str rt tlc) @ '': output quantity ('' @
                py_str rt (PFloat total_output) @ '') recorded but no input events found. '' @
                ''Input events (harvesting/receiving) may not yet be recorded.'') evidence)
      else
        and_then (tolerance_factor tolerance_percent) (\<lambda>f.
          let max_allowed = fmul total_input f
          in if flt max_allowed total_output then
               Inr (failed_result uid rule
                      (''Mass balance violation for TLC '' @ quoted (py_str rt tlc) @ '': total output ('' @
                       py_str rt (PFloat total_output) @ '') exceeds total input ('' @
                       py_str rt (PFloat total_input) @ '') by more than '' @ py_str rt tolerance_percent @
                       ''% tolerance (max allowed: '' @ rt_format_2f rt max_allowed @ ''). ('' @
                       citation_or rule cfr_1310 @ '').'') evidence)
             else Inr (passed_result uid rule evidence)))"

text \<open>All entries: the current event first, then the related ones that carry a quantity.\<close>

definition mass_entries ::
  "pyval \<Rightarrow> pyval \<Rightarrow> pyval \<Rightarrow> related_event list \<Rightarrow> py_error + mass_entry list" where
  "mass_entries current_quantity current_uom current_type related =
     and_then (to_float current_quantity) (\<lambda>q.
     and_then (current_unit current_uom) (\<lambda>u.
       Inr ((q, u, current_type) # somes (map related_entry related))))"

definition judge_mass ::
  "pyrt \<Rightarrow> string \<Rightarrow> pydict \<Rightarrow> pydict \<Rightarrow> RuleDefinition \<Rightarrow> pyval \<Rightarrow> related_event list \<Rightarrow>
   py_error + RuleEvaluationResult" where
  "judge_mass rt uid event logic rule tlc related =
     (let params = dict_get logic ''params'' (PDict [])
      in and_then (py_get params ''tolerance_percent'' (PFloat (Fin 1))) (\<lambda>tolerance_percent.
         and_then (py_get params ''container_weights'' PNone) (\<lambda>weights_raw.
         and_then (mass_entries (dict_get event ''quantity'' PNone) (dict_get event ''unit_of_measure'' (PStr []))
                     (dict_get event ''event_type'' (PStr [])) related) (\<lambda>entries.
           let units_seen = units_of entries;
               mixed = (1 < length units_seen)
           in and_then (if mixed then convert_entries (py_or weights_raw (PDict [])) entries else Inr None)
                (\<lambda>converted.
              and_then (flow_totals (case converted of Some ms \<Rightarrow> ms
                                     | None \<Rightarrow> map (\<lambda>(q, _, t). (q, t)) entries)) (\<lambda>(total_input, total_output).
                let use_converted = (converted \<noteq> None);
                    evidence = [[(''tlc'', tlc), (''total_input'', PFloat total_input),
                                 (''total_output'', PFloat total_output),
                                 (''tolerance_percent'', tolerance_percent),
                                 (''units_seen'', PList (map PStr units_seen)),
                                 (''events_checked'', PInt (int (length related) + 1)),
                                 (''uom_converted'', PBool use_converted)]]
                in if mixed \<and> \<not> use_converted then
                     Inr (warned_result uid rule
                            (mixed_units_reason rt tlc units_seen total_input total_output) evidence)
                   else balance_verdict rt uid rule tlc tolerance_percent evidence total_input total_output))))))"

definition mass_skip_reason :: string where
  "mass_skip_reason = ''Missing TLC, authenticated tenant context, or quantity for mass balance check''"

definition evaluate_mass_balance ::
  "pyrt \<Rightarrow> faults \<Rightarrow> string \<Rightarrow> pydict \<Rightarrow> pydict \<Rightarrow> RuleDefinition \<Rightarrow> session \<Rightarrow> string option \<Rightarrow>
   related_event list option \<Rightarrow> session \<times> (py_error + RuleEvaluationResult)" where
  "evaluate_mass_balance rt fs uid event logic rule ss tenant related_events =
     (let tlc = dict_get event ''traceability_lot_code'' (PStr []);
          event_id = dict_get event ''event_id'' (PStr [])
      in case resolve_tenant event tenant rule of
           Some auth_tid \<Rightarrow>
             if \<not> truthy tlc \<or> dict_get event ''quantity'' PNone = PNone
             then (ss, Inr (skipped_result uid rule mass_skip_reason))
             else judge_related (related_or_fetch rt fs ss tlc auth_tid event_id related_events) uid rule tlc
                    (judge_mass rt uid event logic rule tlc)
         | None \<Rightarrow> (ss, Inr (skipped_result uid rule mass_skip_reason)))"

section \<open>Dispatch\<close>

type_synonym relational_evaluator =
  "string \<Rightarrow> pydict \<Rightarrow> pydict \<Rightarrow> RuleDefinition \<Rightarrow> session \<Rightarrow> string option \<Rightarrow>
   related_event list option \<Rightarrow> session \<times> (py_error + RuleEvaluationResult)"

definition RELATIONAL_EVALUATORS :: "pyrt \<Rightarrow> faults \<Rightarrow> (string \<times> relational_evaluator) list" where
  "RELATIONAL_EVALUATORS rt fs =
     [(''temporal_order'', evaluate_temporal_order rt fs),
      (''identity_consistency'', evaluate_identity_consistency rt fs),
      (''mass_balance'', evaluate_mass_balance rt fs)]"

section \<open>The contract of a relational evaluator\<close>

definition same_but_tenant :: "pydict \<Rightarrow> pydict \<Rightarrow> bool" where
  "same_but_tenant e1 e2 \<longleftrightarrow> (\<forall>k. k \<noteq> ''tenant_id'' \<longrightarrow> map_of e1 k = map_of e2 k)"

definition tenant_rows :: "pyrt \<Rightarrow> string \<Rightarrow> session \<Rightarrow> trace_row list" where
  "tenant_rows rt t ss = filter (\<lambda>r. rt_pg_uuid rt t = Some (te_tenant_id r)) (db_traceability_events (ss_db ss))"

text \<open>Two sessions a tenant cannot tell apart: other tenants' rows may differ.\<close>

definition same_for_tenant :: "pyrt \<Rightarrow> faults \<Rightarrow> string option \<Rightarrow> session \<Rightarrow> session \<Rightarrow> bool" where
  "same_for_tenant rt fs tenant s1 s2 \<longleftrightarrow>
     (\<forall>t. tenant = Some t \<longrightarrow> tenant_rows rt t s1 = tenant_rows rt t s2) \<and>
     (\<forall>st. refused rt fs st s1 = refused rt fs st s2)"

text \<open>
  The laws: the shared contract of evaluators, no write, the authenticated tenant alone
  decides which rows are seen, and no verdict without a tenant.
\<close>

locale relational_contract =
  fixes rt :: pyrt and fs :: faults and reval :: relational_evaluator
  assumes meets: "meets_contract uid rule (snd (reval uid event logic rule ss tenant rel))"
    and tables_kept: "ss_db (fst (reval uid event logic rule ss tenant rel)) = ss_db ss"
    and payload_tenant_ignored:
      "same_but_tenant e1 e2 \<Longrightarrow> reval uid e1 logic rule ss tenant rel = reval uid e2 logic rule ss tenant rel"
    and other_tenants_invisible:
      "same_for_tenant rt fs tenant s1 s2 \<Longrightarrow>
       snd (reval uid event logic rule s1 tenant rel) = snd (reval uid event logic rule s2 tenant rel)"
    and prefetched_no_query:
      "fst (reval uid event logic rule ss tenant (Some xs)) = ss"
begin

lemma isolated:
  assumes "same_but_tenant e1 e2" and "same_for_tenant rt fs tenant s1 s2"
  shows "snd (reval uid e1 logic rule s1 tenant rel) = snd (reval uid e2 logic rule s2 tenant rel)"
  using payload_tenant_ignored [OF assms(1)] other_tenants_invisible [OF assms(2)] by metis

end

sublocale relational_contract \<subseteq>
  evaluator: rule_evaluator "\<lambda>uid event logic rule. snd (reval uid event logic rule ss tenant rel)"
  by (rule rule_evaluatorI) (rule meets)

lemma relational_result_fields [result_fields]:
  "rr_result (skipped_result uid rule why) = ''skip''"
  "rr_result (passed_result uid rule e) = ''pass''"
  "rr_result (warned_result uid rule why e) = ''warn''"
  by (simp_all add: skipped_result_def passed_result_def warned_result_def checked_result_def)

lemma relational_result_contracts:
  "meets_contract uid rule (Inr (skipped_result uid rule why))"
  "meets_contract uid rule (Inr (passed_result uid rule e))"
  "meets_contract uid rule (Inr (warned_result uid rule why e))"
  by (simp_all add: meets_contract_def evaluator_outcome_def result_of_rule_def skipped_result_def
      passed_result_def warned_result_def checked_result_def)

lemma contract_list:
  "meets_contract uid rule a \<Longrightarrow> (\<And>x xs. meets_contract uid rule (f x xs)) \<Longrightarrow>
   meets_contract uid rule (case v of [] \<Rightarrow> a | x # xs \<Rightarrow> f x xs)"
  by (cases v) simp_all

lemmas relational_rules = contract_rules relational_result_contracts contract_list

lemma judge_temporal_contract: "meets_contract uid rule (judge_temporal rt uid event rule tlc rel)"
  unfolding judge_temporal_def Let_def by (intro relational_rules)

lemma judge_identity_contract: "meets_contract uid rule (judge_identity rt uid rule tlc p rel)"
  unfolding judge_identity_def by (intro relational_rules)

lemma judge_mass_contract: "meets_contract uid rule (judge_mass rt uid event logic rule tlc rel)"
  unfolding judge_mass_def balance_verdict_def Let_def by (intro relational_rules)

lemmas judge_contracts = judge_temporal_contract judge_identity_contract judge_mass_contract

lemma judge_related_contract:
  "(\<And>rel. meets_contract uid rule (judge rel)) \<Longrightarrow>
   meets_contract uid rule (snd (judge_related fetched uid rule tlc judge))"
  by (auto simp: judge_related_def contract_raise relational_result_contracts split: prod.split sum.split)

lemma fst_judge_related [simp]: "fst (judge_related fetched uid rule tlc judge) = fst fetched"
  by (auto simp: judge_related_def split: prod.split sum.split)

lemma judge_related_snd_cong:
  "snd f1 = snd f2 \<Longrightarrow> snd (judge_related f1 uid rule tlc judge) = snd (judge_related f2 uid rule tlc judge)"
  by (cases f1; cases f2) (auto simp: judge_related_def split: sum.split)

lemma fetch_tables_kept: "ss_db (fst (fetch_related_events rt fs ss tlc t x)) = ss_db ss"
proof (cases tlc)
  case (PStr lot)
  obtain ss1 r where "execute rt fs (SelectRelated lot t x) ss = (ss1, r)" by fastforce
  then show ?thesis
    using PStr execute_refused [of rt fs "SelectRelated lot t x" ss ss1]
      execute_done [of rt fs "SelectRelated lot t x" ss ss1]
    by (cases r) (auto simp: fetch_related_events_def)
qed (simp_all add: fetch_related_events_def)

lemma related_or_fetch_tables_kept: "ss_db (fst (related_or_fetch rt fs ss tlc t eid rel)) = ss_db ss"
  by (simp add: related_or_fetch_def fetch_tables_kept split: option.split)

text \<open>The rows a query returns are rows of the given tenant.\<close>

lemma fetch_only_tenant_rows:
  assumes "fetch_related_events rt fs ss (PStr lot) t x = (ss', Inr rel)"
  shows "rel = map related_of_row (sort_key te_event_timestamp
                 (filter (related_row rt lot t x) (tenant_rows rt t ss)))"
proof -
  have "filter (related_row rt lot t x) (tenant_rows rt t ss) =
        filter (related_row rt lot t x) (db_traceability_events (ss_db ss))"
    by (auto simp: tenant_rows_def related_row_def intro: filter_cong)
  then show ?thesis
    using assms by (auto simp: fetch_related_events_def split: prod.splits sum.splits)
qed

lemma fetch_same_for_tenant:
  assumes "same_for_tenant rt fs (Some t) s1 s2"
  shows "snd (fetch_related_events rt fs s1 tlc t x) = snd (fetch_related_events rt fs s2 tlc t x)"
proof (cases tlc)
  case (PStr lot)
  have rows: "tenant_rows rt t s1 = tenant_rows rt t s2"
    and ref: "refused rt fs st s1 = refused rt fs st s2" for st
    using assms by (simp_all add: same_for_tenant_def)
  show ?thesis
  proof (cases "refused rt fs (SelectRelated lot t x) s1")
    case None
    then have "\<exists>a. fetch_related_events rt fs s (PStr lot) t x = (a, snd (fetch_related_events rt fs s (PStr lot) t x))
        \<and> isl (snd (fetch_related_events rt fs s (PStr lot) t x)) = False" if "s = s1 \<or> s = s2" for s
      using that ref by (auto simp: fetch_related_events_def execute_def)
    then show ?thesis
      using fetch_only_tenant_rows rows PStr by (metis sum.collapse(2))
  next
    case (Some msg)
    then show ?thesis using ref PStr by (simp add: fetch_related_events_def execute_def)
  qed
qed (simp_all add: fetch_related_events_def)

lemma related_or_fetch_same:
  "same_for_tenant rt fs (Some t) s1 s2 \<Longrightarrow>
   snd (related_or_fetch rt fs s1 tlc t eid rel) = snd (related_or_fetch rt fs s2 tlc t eid rel)"
  by (simp add: related_or_fetch_def fetch_same_for_tenant split: option.split)

lemma same_but_tenant_get:
  "same_but_tenant e1 e2 \<Longrightarrow> k \<noteq> ''tenant_id'' \<Longrightarrow> dict_get e1 k d = dict_get e2 k d"
  by (simp add: same_but_tenant_def dict_get_def)

lemma resolve_tenant_simp:
  "resolve_tenant event tenant rule = (if tenant = None \<or> tenant = Some [] then None else tenant)"
  by (simp add: resolve_tenant_def split: option.split)

lemma judge_temporal_payload:
  "same_but_tenant e1 e2 \<Longrightarrow> judge_temporal rt uid e1 rule tlc = judge_temporal rt uid e2 rule tlc"
  by (simp add: judge_temporal_def fun_eq_iff same_but_tenant_get)

lemma judge_mass_payload:
  "same_but_tenant e1 e2 \<Longrightarrow> judge_mass rt uid e1 logic rule tlc = judge_mass rt uid e2 logic rule tlc"
  by (simp add: judge_mass_def fun_eq_iff same_but_tenant_get)

lemmas relational_laws =
  relational_result_contracts judge_contracts judge_related_contract related_or_fetch_tables_kept
  same_but_tenant_get judge_temporal_payload judge_mass_payload resolve_tenant_simp

interpretation temporal: relational_contract rt fs "evaluate_temporal_order rt fs"
  by unfold_locales
    (auto simp: evaluate_temporal_order_def relational_laws Let_def related_or_fetch_def
      intro!: judge_related_snd_cong fetch_same_for_tenant fetch_tables_kept split: option.split)

interpretation identity: relational_contract rt fs "evaluate_identity_consistency rt fs"
  by unfold_locales
    (auto simp: evaluate_identity_consistency_def relational_laws Let_def related_or_fetch_def
      intro!: judge_related_snd_cong fetch_same_for_tenant fetch_tables_kept split: option.split)

interpretation mass: relational_contract rt fs "evaluate_mass_balance rt fs"
  by unfold_locales
    (auto simp: evaluate_mass_balance_def relational_laws Let_def related_or_fetch_def
      intro!: judge_related_snd_cong fetch_same_for_tenant fetch_tables_kept split: option.split)

lemma RELATIONAL_contract:
  "map_of (RELATIONAL_EVALUATORS rt fs) k = Some ev \<Longrightarrow> relational_contract rt fs ev"
  using temporal.relational_contract_axioms identity.relational_contract_axioms mass.relational_contract_axioms
  by (auto simp: RELATIONAL_EVALUATORS_def split: if_splits)

section \<open>Properties\<close>

text \<open>
  Claim C2 (safety). Tenant isolation of the cross-event rules: for every evaluator of the
  relational dispatch table, the result depends on the event's payload only outside its
  \<open>tenant_id\<close> field, and on the event table only through the rows of the authenticated
  tenant. Neither a forged payload nor another tenant's data changes it.
\<close>

theorem relational_tenant_isolation:
  assumes "map_of (RELATIONAL_EVALUATORS rt fs) kind = Some ev"
    and "same_but_tenant e1 e2" and "same_for_tenant rt fs tenant s1 s2"
  shows "snd (ev uid e1 logic rule s1 tenant rel) = snd (ev uid e2 logic rule s2 tenant rel)"
  using relational_contract.isolated [OF RELATIONAL_contract [OF assms(1)] assms(2,3)] .

definition sample_row :: "string \<Rightarrow> string \<Rightarrow> trace_row" where
  "sample_row tenant eid =
     \<lparr>te_event_id = eid, te_tenant_id = tenant, te_traceability_lot_code = ''L1'', te_status = ''active'',
      te_event_type = ''shipping'', te_event_timestamp = 5, te_product_reference = Some ''Kale'',
      te_quantity = Some (Fin 3), te_unit_of_measure = Some ''lb'', te_evaluation_verdict = None,
      te_no_verdict_reason = None, te_evaluation_error = None, te_evaluated_at = None\<rparr>"

definition sample_session :: "trace_row list \<Rightarrow> session" where
  "sample_session rows =
     \<lparr>ss_db = \<lparr>db_rule_definitions = [], db_traceability_events = rows, db_rule_evaluations = [],
               db_deadletter = []\<rparr>, ss_clock = 0, ss_now = 100, ss_today = 10, ss_aborted = False\<rparr>"

theorem relational_tenant_isolation_witness:
  "snd (evaluate_identity_consistency example_rt (\<lambda>_ _ _. None) ''u'' [(''tenant_id'', PStr ''B'')] [] sample_rule
          (sample_session [sample_row ''A'' ''e1'', sample_row ''B'' ''e2'']) (Some ''A'') None) =
   snd (evaluate_identity_consistency example_rt (\<lambda>_ _ _. None) ''u'' [] [] sample_rule
          (sample_session [sample_row ''A'' ''e1'']) (Some ''A'') None)"
proof (rule relational_tenant_isolation [where fs = "\<lambda>_ _ _. None" and rt = example_rt
        and kind = "''identity_consistency''"])
  show "map_of (RELATIONAL_EVALUATORS example_rt (\<lambda>_ _ _. None)) ''identity_consistency'' =
      Some (evaluate_identity_consistency example_rt (\<lambda>_ _ _. None))"
    by (simp add: RELATIONAL_EVALUATORS_def)
  show "same_but_tenant [(''tenant_id'', PStr ''B'')] []" by (simp add: same_but_tenant_def)
  show "same_for_tenant example_rt (\<lambda>_ _ _. None) (Some ''A'')
      (sample_session [sample_row ''A'' ''e1'', sample_row ''B'' ''e2''])
      (sample_session [sample_row ''A'' ''e1''])"
    by (simp add: same_for_tenant_def tenant_rows_def sample_session_def sample_row_def example_rt_def
        refused_def)
qed

text \<open>An earlier stage recorded after the event, or a later stage before it.\<close>

definition chronology_violation :: "nat \<Rightarrow> int \<Rightarrow> related_event \<Rightarrow> bool" where
  "chronology_violation stage instant evt =
     (case map_of cte_lifecycle_order (re_event_type evt) of
        None \<Rightarrow> False
      | Some s \<Rightarrow>
          (case re_event_timestamp evt of
             TsTime (Datetime w (Some off)) \<Rightarrow>
               s < stage \<and> instant < w - off \<or> stage < s \<and> w - off < instant
           | _ \<Rightarrow> False))"

definition aware_time :: "related_event \<Rightarrow> bool" where
  "aware_time evt = (case re_event_timestamp evt of TsTime (Datetime _ (Some _)) \<Rightarrow> True | _ \<Rightarrow> False)"

lemma temporal_check_aware:
  assumes "aware_time evt"
  shows "\<exists>v. temporal_check rt ct stage (PDatetime (Datetime w (Some off))) evt = Inr v \<and>
             (v \<noteq> None \<longleftrightarrow> chronology_violation stage (w - off) evt)"
  using assms
  by (cases "map_of cte_lifecycle_order (re_event_type evt)")
    (auto simp: temporal_check_def chronology_violation_def aware_time_def event_instant_def Let_def
      dt_before_def split: event_time.splits pydatetime.splits option.splits)

lemma somes_Nil_iff: "somes xs = [] \<longleftrightarrow> list_all (\<lambda>x. x = None) xs"
  by (induction xs) (auto simp: somes_def split: option.splits)

lemma temporal_checks_aware:
  assumes "list_all aware_time rel"
  shows "\<exists>vs. map_err (temporal_check rt ct stage (PDatetime (Datetime w (Some off)))) rel = Inr vs \<and>
              (somes vs \<noteq> [] \<longleftrightarrow> list_ex (chronology_violation stage (w - off)) rel)"
  using assms
proof (induction rel)
  case (Cons evt rel)
  then obtain v vs where "temporal_check rt ct stage (PDatetime (Datetime w (Some off))) evt = Inr v"
    "v \<noteq> None \<longleftrightarrow> chronology_violation stage (w - off) evt"
    "map_err (temporal_check rt ct stage (PDatetime (Datetime w (Some off)))) rel = Inr vs"
    "somes vs \<noteq> [] \<longleftrightarrow> list_ex (chronology_violation stage (w - off)) rel"
    using temporal_check_aware by fastforce
  then show ?case by (auto simp: somes_Nil_iff)
qed (simp add: somes_def)

text \<open>
  For an event of a known stage with an aware timestamp, compared
  with stored events (whose timestamps are aware), the temporal-order rule fails exactly
  when some related event of an earlier lifecycle stage happened later, or one of a later
  stage earlier; otherwise it passes. It neither raises nor skips.
\<close>

theorem temporal_order_outcome:
  assumes "truthy (dict_get event ''traceability_lot_code'' (PStr []))" and "tenant \<noteq> []"
    and "dict_get event ''event_timestamp'' PNone = PDatetime (Datetime w (Some off))"
    and "dict_get event ''event_type'' (PStr []) = PStr t" and "map_of cte_lifecycle_order t = Some stage"
    and "list_all aware_time rel"
  shows "result_token (snd (evaluate_temporal_order rt fs uid event logic rule ss (Some tenant) (Some rel))) =
         Some (if list_ex (chronology_violation stage (w - off)) rel then ''fail'' else ''pass'')"
proof -
  obtain vs where "map_err (temporal_check rt (PStr t) stage (PDatetime (Datetime w (Some off)))) rel = Inr vs"
    and "somes vs \<noteq> [] \<longleftrightarrow> list_ex (chronology_violation stage (w - off)) rel"
    using temporal_checks_aware [OF assms(6)] by blast
  then show ?thesis
    using assms(1-5)
    by (cases "somes vs")
      (auto simp: evaluate_temporal_order_def Let_def resolve_tenant_simp related_or_fetch_def
        judge_related_def judge_temporal_def lifecycle_stage_def result_fields)
qed

theorem temporal_order_outcome_witness:
  "result_token (snd (evaluate_temporal_order example_rt (\<lambda>_ _ _. None) ''u''
      [(''traceability_lot_code'', PStr ''L1''), (''event_type'', PStr ''harvesting''),
       (''event_timestamp'', PDatetime (Datetime 9 (Some 0)))] [] sample_rule (sample_session [])
      (Some ''A'') (Some [related_of_row (sample_row ''A'' ''e1'')]))) = Some ''fail''"
proof -
  have v: "list_ex (chronology_violation 0 (9 - 0)) [related_of_row (sample_row ''A'' ''e1'')]"
    by (simp add: chronology_violation_def related_of_row_def sample_row_def cte_lifecycle_order_def)
  show ?thesis
    by (subst temporal_order_outcome [where w = 9 and off = 0 and t = "''harvesting''" and stage = 0])
      (simp_all add: cte_lifecycle_order_def aware_time_def related_of_row_def
        v [unfolded related_of_row_def, simplified])
qed

text \<open>
  The identity rule fails exactly when some related event names a
  product that, up to case and white space, differs from the event's; related events without
  a product are ignored.
\<close>

theorem identity_consistency_outcome:
  assumes "truthy (dict_get event ''traceability_lot_code'' (PStr []))" and "tenant \<noteq> []"
    and "dict_get event ''product_reference'' PNone = PStr p" and "p \<noteq> []"
  shows "result_token (snd (evaluate_identity_consistency rt fs uid event logic rule ss (Some tenant) (Some rel))) =
         Some (if \<exists>evt \<in> set rel. \<exists>q. re_product_reference evt = Some q \<and> q \<noteq> [] \<and>
                    normalize_product q \<noteq> normalize_product p
               then ''fail'' else ''pass'')"
proof -
  have "somes (map (identity_mismatch p) rel) = [] \<longleftrightarrow>
      \<not> (\<exists>evt \<in> set rel. \<exists>q. re_product_reference evt = Some q \<and> q \<noteq> [] \<and>
           normalize_product q \<noteq> normalize_product p)"
    by (auto simp: somes_Nil_iff list_all_iff identity_mismatch_def split: option.split)
  then show ?thesis
    using assms
    by (cases "somes (map (identity_mismatch p) rel)")
      (auto simp: evaluate_identity_consistency_def Let_def resolve_tenant_simp related_or_fetch_def
        judge_related_def judge_identity_def result_fields)
qed

theorem identity_consistency_outcome_witness:
  "result_token (snd (evaluate_identity_consistency example_rt (\<lambda>_ _ _. None) ''u''
      [(''traceability_lot_code'', PStr ''L1''), (''product_reference'', PStr '' KALE '')] [] sample_rule
      (sample_session []) (Some ''A'') (Some [related_of_row (sample_row ''A'' ''e1'')]))) = Some ''pass''"
proof -
  have n: "normalize_product ''Kale'' = normalize_product '' KALE ''" by code_simp
  show ?thesis
    by (subst identity_consistency_outcome [where p = "'' KALE ''"])
      (simp_all add: related_of_row_def sample_row_def n)
qed

lemma convert_entries_blocked:
  assumes "convert_entries weights entries = Inr (Some ms)"
    and "(q, u, t) \<in> set entries"
  shows "\<exists>v m. u = Some v \<and> normalize_to_mass q v weights = Inr (Some m)"
  using assms
proof (induction entries arbitrary: ms)
  case (Cons e es)
  obtain q' u' t' where e: "e = (q', u', t')" by (cases e)
  with Cons.prems(1) obtain m ms' where
    "(case u' of None \<Rightarrow> Inr None | Some v \<Rightarrow> normalize_to_mass q' v weights) = Inr (Some m)"
    "convert_entries weights es = Inr (Some ms')"
    by (auto simp: and_then_eq_Inr_iff split: option.splits)
  with Cons e show ?case by (cases u') auto
qed simp

lemma mass_needs_weight_entry:
  assumes "normalize_to_mass q u w = Inr (Some m)"
  shows "is_mass_uom (Some u) \<or> (\<exists>d. w = PDict d \<and> dict_get d (uom_key u) PNone \<noteq> PNone)"
  using assms
  by (auto simp: normalize_to_mass_def is_mass_uom_Some Let_def and_then_eq_Inr_iff py_get_def
      split: option.splits if_splits pyval.splits)

text \<open>
  When the events of a lot mix units and some quantity is in a container
  or count unit for which the rule supplies no weight, the mass-balance rule renders no
  verdict: it neither passes nor fails.
\<close>

theorem mass_balance_no_verdict_without_weight:
  assumes "dict_get logic ''params'' (PDict []) = PDict params"
    and "dict_get params ''container_weights'' PNone = PDict weights"
    and "mass_entries (dict_get event ''quantity'' PNone) (dict_get event ''unit_of_measure'' (PStr []))
           (dict_get event ''event_type'' (PStr [])) rel = Inr entries"
    and "1 < length (units_of entries)"
    and "(q, Some u, t) \<in> set entries" and "\<not> is_mass_uom (Some u)"
    and "dict_get weights (uom_key u) PNone = PNone"
  shows "result_token (judge_mass rt uid event logic rule tlc rel) \<notin> {Some ''pass'', Some ''fail''}"
proof -
  have "py_or (PDict weights) (PDict []) = PDict weights" by (simp add: py_or_def)
  moreover have "convert_entries (PDict weights) entries \<noteq> Inr (Some ms)" for ms
    using convert_entries_blocked [of "PDict weights" entries ms q "Some u" t] assms(5-7) mass_needs_weight_entry
    by fastforce
  ultimately show ?thesis
    using assms(1-4)
    by (auto simp: judge_mass_def Let_def result_token_def and_then_eq_Inr_iff result_fields
        split: sum.splits option.splits)
qed

theorem mass_balance_no_verdict_without_weight_witness:
  "result_token (judge_mass example_rt ''u''
      [(''quantity'', PInt 2), (''unit_of_measure'', PStr ''case''), (''event_type'', PStr ''harvesting'')]
      [(''params'', PDict [(''container_weights'', PDict [(''box'', PInt 10)])])]
      sample_rule (PStr ''L1'') [related_of_row (sample_row ''A'' ''e1'')]) \<notin> {Some ''pass'', Some ''fail''}"
proof -
  have k: "uom_key ''case'' = ''case''" "unit_key ''case'' = ''case''" "unit_key ''lb'' = ''lb''" by code_simp+
  have e: "mass_entries (PInt 2) (PStr ''case'') (PStr ''harvesting'') [related_of_row (sample_row ''A'' ''e1'')] =
      Inr [(Fin 2, Some ''case'', PStr ''harvesting''), (Fin 3, Some ''lb'', PStr ''shipping'')]"
    by (simp add: mass_entries_def current_unit_def somes_def related_entry_def related_of_row_def sample_row_def
        py_simps del: to_float.simps)
  show ?thesis
    by (rule mass_balance_no_verdict_without_weight [where u = "''case''" and q = "Fin 2" and t = "PStr ''harvesting''"
          and weights = "[(''box'', PInt 10)]" and params = "[(''container_weights'', PDict [(''box'', PInt 10)])]"
          and entries = "[(Fin 2, Some ''case'', PStr ''harvesting''), (Fin 3, Some ''lb'', PStr ''shipping'')]"])
      (simp_all add: e k units_of_def somes_def is_mass_uom_def mass_uom_to_lbs_def)
qed

definition exact_flow :: "string list \<Rightarrow> (int \<times> string) list \<Rightarrow> int" where
  "exact_flow ts es = sum_list (map fst (filter (\<lambda>(_, t). t \<in> set ts) es))"

definition float_entry :: "int \<times> string \<Rightarrow> pyfloat \<times> pyval" where
  "float_entry e = (Fin (of_int (fst e)), PStr (snd e))"

lemma type_sets_disjoint:
  "t \<in> set input_types \<Longrightarrow> t \<notin> set origin_types \<and> t \<notin> set output_types"
  "t \<in> set origin_types \<Longrightarrow> t \<notin> set output_types"
  by (auto simp: input_types_def origin_types_def output_types_def)

lemma add_flow_exact:
  assumes "0 \<le> n" and "0 \<le> i" "0 \<le> g" "0 \<le> out" and "n + i + g + out < 2 ^ 53"
  shows "add_flow (float_entry (n, t)) (Fin (of_int i), Fin (of_int g), Fin (of_int out)) =
         (Fin (of_int (i + exact_flow input_types [(n, t)])), Fin (of_int (g + exact_flow origin_types [(n, t)])),
          Fin (of_int (out + exact_flow output_types [(n, t)])))"
proof -
  have "\<bar>i + n\<bar> < 2 ^ 53" "\<bar>g + n\<bar> < 2 ^ 53" "\<bar>out + n\<bar> < 2 ^ 53" using assms by simp_all
  then show ?thesis
    by (auto simp: add_flow_def float_entry_def exact_flow_def type_in_def fadd_of_int
        simp del: of_int_add fadd.simps dest: type_sets_disjoint)
qed

lemma exact_flow_Cons: "exact_flow ts (e # es) = exact_flow ts [e] + exact_flow ts es"
  by (auto simp: exact_flow_def)

lemma exact_flow_one: "0 \<le> fst e \<Longrightarrow> 0 \<le> exact_flow ts [e] \<and> exact_flow ts [e] \<le> fst e"
  by (auto simp: exact_flow_def)

lemma exact_flows_one:
  assumes "0 \<le> fst e"
  shows "exact_flow input_types [e] + exact_flow origin_types [e] + exact_flow output_types [e] \<le> fst e"
  using assms type_sets_disjoint [of "snd e"] by (auto simp: exact_flow_def split: prod.splits)

lemma fold_add_flow_exact:
  assumes "list_all (\<lambda>e. 0 \<le> fst e) es" and "0 \<le> i" "0 \<le> g" "0 \<le> out"
    and "i + g + out + sum_list (map fst es) < 2 ^ 53"
  shows "fold add_flow (map float_entry es) (Fin (of_int i), Fin (of_int g), Fin (of_int out)) =
         (Fin (of_int (i + exact_flow input_types es)), Fin (of_int (g + exact_flow origin_types es)),
          Fin (of_int (out + exact_flow output_types es)))"
  using assms
proof (induction es arbitrary: i g out)
  case Nil
  then show ?case by (simp add: exact_flow_def)
next
  case (Cons e es)
  have nonneg: "0 \<le> sum_list (map fst es)" and e: "0 \<le> fst e"
    using Cons.prems(1) by (auto simp: list_all_iff intro!: sum_list_nonneg)
  have i': "0 \<le> i + exact_flow input_types [e]" and g': "0 \<le> g + exact_flow origin_types [e]"
    and o': "0 \<le> out + exact_flow output_types [e]"
    using Cons.prems(2-4) exact_flow_one [OF e] by (simp_all add: add_nonneg_nonneg)
  have "i + g + out + (fst e + sum_list (map fst es)) < 2 ^ 53" using Cons.prems(5) by simp
  with exact_flows_one [OF e] have bound: "i + exact_flow input_types [e] + (g + exact_flow origin_types [e]) +
      (out + exact_flow output_types [e]) + sum_list (map fst es) < 2 ^ 53"
    by linarith
  have step: "add_flow (float_entry e) (Fin (of_int i), Fin (of_int g), Fin (of_int out)) =
         (Fin (of_int (i + exact_flow input_types [e])), Fin (of_int (g + exact_flow origin_types [e])),
          Fin (of_int (out + exact_flow output_types [e])))"
    using add_flow_exact [of "fst e" i g out "snd e"] Cons.prems nonneg e by simp
  have "fold add_flow (map float_entry es)
          (Fin (of_int (i + exact_flow input_types [e])), Fin (of_int (g + exact_flow origin_types [e])),
           Fin (of_int (out + exact_flow output_types [e]))) =
        (Fin (of_int (i + exact_flow input_types [e] + exact_flow input_types es)),
         Fin (of_int (g + exact_flow origin_types [e] + exact_flow origin_types es)),
         Fin (of_int (out + exact_flow output_types [e] + exact_flow output_types es)))"
    using Cons.prems(1) i' g' o' bound by (intro Cons.IH) (simp_all only: list.pred_inject)
  with step show ?case
    by (simp add: exact_flow_Cons [of _ e es] add.assoc del: of_int_add)
qed

text \<open>
  Claim C38 (bounds). For whole, non-negative quantities whose sum is below \<open>2 ^ 53\<close> the
  floating-point totals of the mass-balance rule are exact: the input is the sum over
  harvesting and receiving events, or, only when that sum is zero, the sum over packing and
  transformation events; the output is the sum over shipments. A primary input of quantity zero is thus treated like none.
\<close>

theorem flow_totals_exact:
  assumes "list_all (\<lambda>e. 0 \<le> fst e) es" and "sum_list (map fst es) < 2 ^ 53"
  shows "flow_totals (map float_entry es) =
         Inr (Fin (of_int (if exact_flow input_types es = 0 then exact_flow origin_types es
                           else exact_flow input_types es)),
              Fin (of_int (exact_flow output_types es)))"
proof -
  have "list_all (\<lambda>(_, t). hashable t) (map float_entry es)"
    by (simp add: list_all_iff float_entry_def)
  moreover have "fold add_flow (map float_entry es) (Fin 0, Fin 0, Fin 0) =
      (Fin (of_int (exact_flow input_types es)), Fin (of_int (exact_flow origin_types es)),
       Fin (of_int (exact_flow output_types es)))"
    using fold_add_flow_exact [of es 0 0 0] assms by simp
  ultimately show ?thesis by (simp add: flow_totals_def feq_def)
qed

theorem flow_totals_exact_witness:
  "flow_totals (map float_entry [(40, ''harvesting''), (38, ''initial_packing''), (30, ''shipping'')]) =
   Inr (Fin 40, Fin 30)"
proof -
  have "exact_flow input_types [(40, ''harvesting''), (38, ''initial_packing''), (30, ''shipping'')] = 40"
    "exact_flow output_types [(40, ''harvesting''), (38, ''initial_packing''), (30, ''shipping'')] = 30"
    by (simp_all add: exact_flow_def input_types_def output_types_def)
  then show ?thesis
    using flow_totals_exact [of "[(40, ''harvesting''), (38, ''initial_packing''), (30, ''shipping'')]"] by simp
qed

end
