(* ===== verification/RulesEngine.thy ===== *)
theory RulesEngine
  imports Ftl RelationalEval "HOL-Library.Multiset"
begin

text \<open>
  \<^verbatim>\<open>services/shared/rules/engine.py\<close>: the rules engine. Its state is the database session,
  the rule cache with its time of loading, and the number of clock readings and evaluation
  ids taken so far; every method returns the new state with its value or the exception it
  raised. The environment gives the interpreter, the database's refusals and the monotonic
  clock.
\<close>

section \<open>State\<close>

record engine_env =
  ee_rt :: pyrt
  ee_faults :: faults
  ee_clock :: "nat \<Rightarrow> pyfloat"

record engine =
  en_session :: "session option"
  en_cache_ttl_seconds :: int
  en_rules_cache :: "RuleDefinition list option"
  en_rules_cache_loaded_at :: "pyfloat option"
  en_clock_reads :: nat
  en_uuids :: nat

definition DEFAULT_CACHE_TTL_SECONDS :: int where
  "DEFAULT_CACHE_TTL_SECONDS = 60"

definition init_engine :: "session option \<Rightarrow> int option \<Rightarrow> engine" where
  "init_engine s ttl =
     \<lparr>en_session = s,
      en_cache_ttl_seconds = (case ttl of None \<Rightarrow> DEFAULT_CACHE_TTL_SECONDS | Some t \<Rightarrow> t),
      en_rules_cache = None, en_rules_cache_loaded_at = None, en_clock_reads = 0, en_uuids = 0\<rparr>"

definition read_clock :: "engine_env \<Rightarrow> engine \<Rightarrow> engine \<times> pyfloat" where
  "read_clock env en = (en\<lparr>en_clock_reads := Suc (en_clock_reads en)\<rparr>, ee_clock env (en_clock_reads en))"

section \<open>Rule cache\<close>

definition is_cache_fresh :: "engine_env \<Rightarrow> engine \<Rightarrow> engine \<times> bool" where
  "is_cache_fresh env en =
     (case (en_rules_cache en, en_rules_cache_loaded_at en) of
        (Some _, Some loaded_at) \<Rightarrow>
          if en_cache_ttl_seconds en \<le> 0 then (en, False)
          else let (en1, now) = read_clock env en
               in (en1, flt (fsub now loaded_at) (Fin (of_int (en_cache_ttl_seconds en))))
      | _ \<Rightarrow> (en, False))"

definition invalidate_cache :: "engine \<Rightarrow> engine" where
  "invalidate_cache en = en\<lparr>en_rules_cache := None, en_rules_cache_loaded_at := None\<rparr>"

text \<open>\<open>v if isinstance(v, dict) else json.loads(v or "{}")\<close>\<close>

definition json_column :: "pyrt \<Rightarrow> pyval \<Rightarrow> py_error + pyval" where
  "json_column rt v =
     (case v of
        PDict d \<Rightarrow> Inr v
      | _ \<Rightarrow> if \<not> truthy v then Inr (PDict [])
             else case v of PStr s \<Rightarrow> rt_json_loads rt s | _ \<Rightarrow> Inl TypeError)"

definition decode_rule :: "pyrt \<Rightarrow> RuleDefinition \<Rightarrow> py_error + RuleDefinition" where
  "decode_rule rt r =
     and_then (json_column rt (rd_applicability_conditions r)) (\<lambda>conditions.
     and_then (json_column rt (rd_evaluation_logic r)) (\<lambda>logic.
       Inr (r\<lparr>rd_applicability_conditions := conditions, rd_evaluation_logic := logic\<rparr>)))"

definition active_rule :: "int \<Rightarrow> RuleDefinition \<Rightarrow> bool" where
  "active_rule today r \<longleftrightarrow> rd_retired_date r = None \<and> rd_effective_date r \<le> today"

text \<open>\<open>ORDER BY severity DESC, category, title\<close>, in the order of code points.\<close>

definition rule_order :: "RuleDefinition list \<Rightarrow> RuleDefinition list" where
  "rule_order rs = rev (sort_key rd_severity (rev (sort_key rd_category (sort_key rd_title rs))))"

definition select_rules :: "session \<Rightarrow> RuleDefinition list" where
  "select_rules ss = rule_order (filter (active_rule (ss_today ss)) (db_rule_definitions (ss_db ss)))"

definition load_active_rules :: "engine_env \<Rightarrow> engine \<Rightarrow> engine \<times> (py_error + RuleDefinition list)" where
  "load_active_rules env en =
     (case en_session en of
        None \<Rightarrow> (en, Inl AttributeError)
      | Some ss \<Rightarrow>
          (case execute (ee_rt env) (ee_faults env) SelectRules ss of
             (ss1, Inl e) \<Rightarrow> (en\<lparr>en_session := Some ss1\<rparr>, Inl e)
           | (ss1, Inr _) \<Rightarrow>
               let en1 = en\<lparr>en_session := Some ss1\<rparr>
               in case map_err (decode_rule (ee_rt env)) (select_rules ss) of
                    Inl e \<Rightarrow> (en1, Inl e)
                  | Inr rules \<Rightarrow>
                      let (en2, now) = read_clock env en1
                      in (en2\<lparr>en_rules_cache := Some rules, en_rules_cache_loaded_at := Some now\<rparr>, Inr rules)))"

section \<open>Applicability\<close>

definition num_of :: "pyval \<Rightarrow> pyfloat option" where
  "num_of v =
     (case v of PBool b \<Rightarrow> Some (Fin (if b then 1 else 0)) | PInt i \<Rightarrow> Some (Fin (of_int i))
      | PFloat x \<Rightarrow> Some x | _ \<Rightarrow> None)"

definition py_eq :: "pyval \<Rightarrow> pyval \<Rightarrow> bool" where
  "py_eq a b = (case (num_of a, num_of b) of (Some x, Some y) \<Rightarrow> feq x y | _ \<Rightarrow> a = b)"

text \<open>\<open>x in container\<close>\<close>

definition py_in :: "pyval \<Rightarrow> pyval \<Rightarrow> py_error + bool" where
  "py_in x container =
     (case container of
        PList xs \<Rightarrow> Inr (list_ex (py_eq x) xs)
      | PTuple xs \<Rightarrow> Inr (list_ex (py_eq x) xs)
      | PSet xs \<Rightarrow> if hashable x then Inr (list_ex (py_eq x) xs) else Inl TypeError
      | PDict d \<Rightarrow> if hashable x then Inr (list_ex (\<lambda>(k, _). x = PStr k) d) else Inl TypeError
      | PStr s \<Rightarrow> (case x of PStr t \<Rightarrow> Inr (py_contains t s) | _ \<Rightarrow> Inl TypeError)
      | _ \<Rightarrow> Inl TypeError)"

definition cte_match :: "pyval \<Rightarrow> pyval \<Rightarrow> py_error + bool" where
  "cte_match event_type cte_types =
     (if \<not> truthy cte_types then Inr True
      else and_then (py_in event_type cte_types) (\<lambda>b.
             if b then Inr True else py_in (PStr ''all'') cte_types))"

definition scope_tokens :: "pyval list \<Rightarrow> string list" where
  "scope_tokens scope =
     concat (map (\<lambda>s. case s of PStr t \<Rightarrow> if py_strip t \<noteq> [] then [py_upper (py_strip t)] else [] | _ \<Rightarrow> []) scope)"

definition rule_is_applicable ::
  "pyval \<Rightarrow> string option \<Rightarrow> bool option \<Rightarrow> RuleDefinition \<Rightarrow> py_error + bool" where
  "rule_is_applicable event_type event_ftl_category event_is_ftl rule =
     (case py_or (rd_applicability_conditions rule) (PDict []) of
        PDict conditions \<Rightarrow>
          and_then (cte_match event_type (dict_get conditions ''cte_types'' (PList []))) (\<lambda>m.
            if \<not> m then Inr False
            else and_then (py_iter (py_or (dict_get conditions ''ftl_scope'' PNone) (PList []))) (\<lambda>scope.
              let tokens = scope_tokens scope
              in if ''ANY'' \<in> set tokens then Inr True
                 else if ''NON_FTL'' \<in> set tokens \<and> event_is_ftl \<noteq> Some True then Inr True
                 else if event_is_ftl = Some True
                      then rule_applies_to_ftl_category conditions event_ftl_category
                 else Inr False))
      | _ \<Rightarrow> Inl AttributeError)"

fun filter_err :: "('a \<Rightarrow> 'e + bool) \<Rightarrow> 'a list \<Rightarrow> 'e + 'a list" where
  "filter_err P [] = Inr []"
| "filter_err P (x # xs) =
     and_then (P x) (\<lambda>b. and_then (filter_err P xs) (\<lambda>ys. Inr (if b then x # ys else ys)))"

definition get_applicable_rules ::
  "engine_env \<Rightarrow> engine \<Rightarrow> pyval \<Rightarrow> RuleDefinition list option \<Rightarrow> string option \<Rightarrow> bool option \<Rightarrow>
   engine \<times> (py_error + RuleDefinition list)" where
  "get_applicable_rules env en event_type rules event_ftl_category event_is_ftl =
     (let (en2, loaded) =
        (case rules of
           Some rs \<Rightarrow> (en, Inr rs)
         | None \<Rightarrow>
             (case is_cache_fresh env en of
                (en1, True) \<Rightarrow> (en1, Inr (case en_rules_cache en1 of Some rs \<Rightarrow> rs | None \<Rightarrow> []))
              | (en1, False) \<Rightarrow> load_active_rules env en1))
      in (en2, and_then loaded
                 (filter_err (rule_is_applicable event_type event_ftl_category event_is_ftl))))"

section \<open>Evaluating one rule\<close>

definition error_result :: "string \<Rightarrow> RuleDefinition \<Rightarrow> string \<Rightarrow> RuleEvaluationResult" where
  "error_result uid rule why = (rule_result uid rule ''error'')\<lparr>rr_why_failed := Some why\<rparr>"

definition crash_reason :: "pyrt \<Rightarrow> py_error \<Rightarrow> string" where
  "crash_reason rt e = ''Evaluator crashed ('' @ err_name e @ ''): '' @ rt_err_str rt e"

definition tenant_given :: "string option \<Rightarrow> bool" where
  "tenant_given tenant = (case tenant of None \<Rightarrow> False | Some t \<Rightarrow> t \<noteq> [])"

text \<open>A dictionary lookup by a value: only a text can be one of the keys.\<close>

definition lookup_kind :: "(string \<times> 'a) list \<Rightarrow> pyval \<Rightarrow> 'a option" where
  "lookup_kind tbl v = (case v of PStr s \<Rightarrow> map_of tbl s | _ \<Rightarrow> None)"

definition evaluate_single_rule ::
  "engine_env \<Rightarrow> engine \<Rightarrow> pydict \<Rightarrow> RuleDefinition \<Rightarrow> string option \<Rightarrow> related_event list option \<Rightarrow>
   engine \<times> (py_error + RuleEvaluationResult)" where
  "evaluate_single_rule env en event rule tenant related_events =
     (case rd_evaluation_logic rule of
        PDict logic \<Rightarrow>
          let rt = ee_rt env; eval_type = dict_get logic ''type'' (PStr ''field_presence'');
              uid = rt_uuid4 rt (en_uuids en); en1 = en\<lparr>en_uuids := Suc (en_uuids en)\<rparr>
          in if \<not> hashable eval_type then (en, Inl TypeError)
             else case lookup_kind (EVALUATORS rt) eval_type of
               Some evaluator \<Rightarrow>
                 (en1, Inr (try_except (evaluator uid event logic rule)
                              (\<lambda>e. error_result uid rule (crash_reason rt e))))
             | None \<Rightarrow>
                 (case lookup_kind (RELATIONAL_EVALUATORS rt (ee_faults env)) eval_type of
                    Some evaluator \<Rightarrow>
                      (case en_session en of
                         None \<Rightarrow> (en1, Inr (error_result uid rule (''Relational rule '' @ quoted (py_str rt eval_type) @
                                   '' requires a DB session'')))
                       | Some ss \<Rightarrow>
                           if \<not> tenant_given tenant
                           then (en1, Inr (error_result uid rule (''Relational rule '' @ quoted (py_str rt eval_type) @
                                   '' requires an authenticated tenant_id from request context'')))
                           else (case evaluator uid event logic rule ss tenant related_events of
                                   (ss1, r) \<Rightarrow>
                                     (en1\<lparr>en_session := Some ss1\<rparr>,
                                      Inr (try_except r (\<lambda>e. error_result uid rule (crash_reason rt e))))))
                  | None \<Rightarrow>
                      (en1, Inr (error_result uid rule (''Unknown evaluation type '' @ quoted (py_str rt eval_type) @
                                '' '' @ em_dash @ '' rule cannot be evaluated''))))
      | _ \<Rightarrow> (en, Inl AttributeError))"

definition tally_result :: "EvaluationSummary \<Rightarrow> RuleEvaluationResult \<Rightarrow> EvaluationSummary" where
  "tally_result s r =
     (if rr_result r = ''pass'' then s\<lparr>es_passed := es_passed s + 1\<rparr>
      else if rr_result r = ''fail'' then
        s\<lparr>es_failed := es_failed s + 1,
          es_critical_failures :=
            (if rr_severity r = ''critical'' then es_critical_failures s @ [r] else es_critical_failures s)\<rparr>
      else if rr_result r = ''warn'' then s\<lparr>es_warned := es_warned s + 1\<rparr>
      else if rr_result r = ''error'' then
        s\<lparr>es_errored := es_errored s + 1,
          es_critical_failures :=
            (if rr_severity r = ''critical'' then es_critical_failures s @ [r] else es_critical_failures s)\<rparr>
      else if rr_result r = ''not_ftl_scoped'' then s\<lparr>es_not_ftl_scoped := es_not_ftl_scoped s + 1\<rparr>
      else s\<lparr>es_skipped := es_skipped s + 1\<rparr>)"

text \<open>A failed operational-quality rule of severity warning only warns.\<close>

definition soften :: "RuleEvaluationResult \<Rightarrow> RuleEvaluationResult" where
  "soften r =
     (if rr_result r = ''fail'' \<and> rr_severity r = ''warning'' \<and> rr_category r = ''operational_quality''
      then r\<lparr>rr_result := ''warn''\<rparr> else r)"

definition add_result :: "EvaluationSummary \<Rightarrow> RuleEvaluationResult \<Rightarrow> EvaluationSummary" where
  "add_result s r = tally_result (s\<lparr>es_results := es_results s @ [r]\<rparr>) r"

fun run_rules ::
  "engine_env \<Rightarrow> engine \<Rightarrow> pydict \<Rightarrow> string option \<Rightarrow> related_event list option \<Rightarrow> RuleDefinition list \<Rightarrow>
   EvaluationSummary \<Rightarrow> engine \<times> (py_error + EvaluationSummary)" where
  "run_rules env en event tenant rel [] s = (en, Inr s)"
| "run_rules env en event tenant rel (rule # rules) s =
     (case evaluate_single_rule env en event rule tenant rel of
        (en1, Inl e) \<Rightarrow> (en1, Inl e)
      | (en1, Inr r) \<Rightarrow> run_rules env en1 event tenant rel rules (add_result s (soften r)))"

section \<open>Pre-fetching related events\<close>

definition is_relational_rule :: "engine_env \<Rightarrow> RuleDefinition \<Rightarrow> py_error + bool" where
  "is_relational_rule env rule =
     and_then (py_get (py_or (rd_evaluation_logic rule) (PDict [])) ''type'' PNone) (\<lambda>kind.
       if hashable kind then Inr (lookup_kind (RELATIONAL_EVALUATORS (ee_rt env) (ee_faults env)) kind \<noteq> None)
       else Inl TypeError)"

fun any_err :: "('a \<Rightarrow> 'e + bool) \<Rightarrow> 'a list \<Rightarrow> 'e + bool" where
  "any_err P [] = Inr False"
| "any_err P (x # xs) = and_then (P x) (\<lambda>b. if b then Inr True else any_err P xs)"

definition prefetch_related_events ::
  "engine_env \<Rightarrow> engine \<Rightarrow> pydict \<Rightarrow> RuleDefinition list \<Rightarrow> string option \<Rightarrow>
   engine \<times> (py_error + related_event list option)" where
  "prefetch_related_events env en event rules tenant =
     (let tlc = dict_get event ''traceability_lot_code'' (PStr []);
          event_id = dict_get event ''event_id'' (PStr [])
      in case (en_session en, tenant) of
           (Some ss, Some t) \<Rightarrow>
             if t = [] \<or> \<not> truthy tlc then (en, Inr None)
             else (case any_err (is_relational_rule env) rules of
                     Inl e \<Rightarrow> (en, Inl e)
                   | Inr False \<Rightarrow> (en, Inr None)
                   | Inr True \<Rightarrow>
                       (case fetch_related_events (ee_rt env) (ee_faults env) ss tlc t
                               (if truthy event_id then Some (py_str (ee_rt env) event_id) else None) of
                          (ss1, Inl _) \<Rightarrow> (en\<lparr>en_session := Some ss1\<rparr>, Inr None)
                        | (ss1, Inr rel) \<Rightarrow> (en\<lparr>en_session := Some ss1\<rparr>, Inr (Some rel))))
         | _ \<Rightarrow> (en, Inr None))"

section \<open>Persistence\<close>

definition row_of_result :: "pyrt \<Rightarrow> string \<Rightarrow> pyval \<Rightarrow> RuleEvaluationResult \<Rightarrow> eval_row" where
  "row_of_result rt tenant event_id r =
     \<lparr>er_eval_id = rr_evaluation_id r, er_tenant_id = tenant, er_event_id = event_id,
      er_rule_id = rr_rule_id r, er_rule_version = rr_rule_version r, er_result = rr_result r,
      er_why_failed = rr_why_failed r, er_evidence = rt_json_dumps rt (rr_evidence r),
      er_confidence = rr_confidence r\<rparr>"

text \<open>A best-effort write: what the statement raised is logged and swallowed.\<close>

definition best_effort :: "pyrt \<Rightarrow> faults \<Rightarrow> stmt \<Rightarrow> session \<Rightarrow> session \<times> (py_error + unit)" where
  "best_effort rt fs st ss =
     (case in_savepoint rt fs st ss of (ss1, Inl e) \<Rightarrow> (ss1, Inl e) | (ss1, Inr _) \<Rightarrow> (ss1, Inr ()))"

definition write_evaluation_deadletter ::
  "pyrt \<Rightarrow> faults \<Rightarrow> eval_row \<Rightarrow> string \<Rightarrow> session \<Rightarrow> session \<times> (py_error + unit)" where
  "write_evaluation_deadletter rt fs row persist_error ss =
     best_effort rt fs (InsertDeadletter row persist_error) ss"

definition mark_event_evaluation_error ::
  "pyrt \<Rightarrow> faults \<Rightarrow> string \<Rightarrow> pyval \<Rightarrow> string \<Rightarrow> session \<Rightarrow> session \<times> (py_error + unit)" where
  "mark_event_evaluation_error rt fs tenant event_id error_message ss =
     best_effort rt fs (UpdateError tenant event_id error_message) ss"

fun salvage_rows ::
  "pyrt \<Rightarrow> faults \<Rightarrow> string \<Rightarrow> (pyval \<times> eval_row) list \<Rightarrow> session \<Rightarrow> session \<times> (py_error + unit)" where
  "salvage_rows rt fs tenant [] ss = (ss, Inr ())"
| "salvage_rows rt fs tenant ((event_id, row) # rows) ss =
     (case in_savepoint rt fs (InsertEvaluations [row]) ss of
        (ss1, Inl e) \<Rightarrow> (ss1, Inl e)
      | (ss1, Inr None) \<Rightarrow> salvage_rows rt fs tenant rows ss1
      | (ss1, Inr (Some row_err)) \<Rightarrow>
          (case mark_event_evaluation_error rt fs tenant event_id (rt_err_str rt row_err) ss1 of
             (ss2, Inl e) \<Rightarrow> (ss2, Inl e)
           | (ss2, Inr _) \<Rightarrow>
               (case write_evaluation_deadletter rt fs row (rt_err_str rt row_err) ss2 of
                  (ss3, Inl e) \<Rightarrow> (ss3, Inl e)
                | (ss3, Inr _) \<Rightarrow> salvage_rows rt fs tenant rows ss3)))"

text \<open>One savepoint for the whole list; on failure the rows one by one.\<close>

definition persist_rows ::
  "pyrt \<Rightarrow> faults \<Rightarrow> string \<Rightarrow> (pyval \<times> eval_row) list \<Rightarrow> session \<Rightarrow> session \<times> (py_error + unit)" where
  "persist_rows rt fs tenant rows ss =
     (case in_savepoint rt fs (InsertEvaluations (map snd rows)) ss of
        (ss1, Inl e) \<Rightarrow> (ss1, Inl e)
      | (ss1, Inr None) \<Rightarrow> (ss1, Inr ())
      | (ss1, Inr (Some _)) \<Rightarrow> salvage_rows rt fs tenant rows ss1)"

definition persist_evaluations ::
  "pyrt \<Rightarrow> faults \<Rightarrow> string \<Rightarrow> pyval \<Rightarrow> RuleEvaluationResult list \<Rightarrow> session \<Rightarrow>
   session \<times> (py_error + unit)" where
  "persist_evaluations rt fs tenant event_id results ss =
     (if results = [] then (ss, Inr ())
      else persist_rows rt fs tenant (map (\<lambda>r. (event_id, row_of_result rt tenant event_id r)) results) ss)"

definition verdict_params :: "string \<Rightarrow> (pyval \<times> EvaluationSummary) list \<Rightarrow> verdict_param list" where
  "verdict_params tenant verdicts =
     map (\<lambda>(event_id, summary).
            \<lparr>vp_tenant_id = tenant, vp_event_id = event_id, vp_verdict = verdict summary,
             vp_reason = verdict_reason summary\<rparr>)
       (filter (\<lambda>(event_id, _). truthy event_id) verdicts)"

definition persist_event_verdicts ::
  "pyrt \<Rightarrow> faults \<Rightarrow> string \<Rightarrow> (pyval \<times> EvaluationSummary) list \<Rightarrow> session \<Rightarrow>
   session \<times> (py_error + unit)" where
  "persist_event_verdicts rt fs tenant verdicts ss =
     (let params = verdict_params tenant verdicts
      in if params = [] then (ss, Inr ()) else best_effort rt fs (UpdateVerdicts params) ss)"

definition BATCH_CHUNK_SIZE :: nat where
  "BATCH_CHUNK_SIZE = 100"

function batch_persist_evaluations ::
  "pyrt \<Rightarrow> faults \<Rightarrow> string \<Rightarrow> (pyval \<times> RuleEvaluationResult) list \<Rightarrow> session \<Rightarrow>
   session \<times> (py_error + unit)" where
  "batch_persist_evaluations rt fs tenant results ss =
     (if results = [] then (ss, Inr ())
      else (case persist_rows rt fs tenant
                   (map (\<lambda>(event_id, r). (event_id, row_of_result rt tenant event_id r))
                      (take BATCH_CHUNK_SIZE results)) ss of
              (ss1, Inl e) \<Rightarrow> (ss1, Inl e)
            | (ss1, Inr _) \<Rightarrow>
                batch_persist_evaluations rt fs tenant (drop BATCH_CHUNK_SIZE results) ss1))"
  by pat_completeness auto
termination
  by (relation "measure (\<lambda>(rt, fs, tenant, results, ss). length results)") (auto simp: BATCH_CHUNK_SIZE_def)

declare batch_persist_evaluations.simps [simp del]

text \<open>A method of the session: without one, \<open>begin_nested\<close> is no attribute of \<open>None\<close>.\<close>

definition on_session ::
  "engine \<Rightarrow> (session \<Rightarrow> session \<times> (py_error + unit)) \<Rightarrow> engine \<times> (py_error + unit)" where
  "on_session en f =
     (case en_session en of
        None \<Rightarrow> (en, Inl AttributeError)
      | Some ss \<Rightarrow> (case f ss of (ss1, r) \<Rightarrow> (en\<lparr>en_session := Some ss1\<rparr>, r)))"

definition engine_persist_evaluations ::
  "engine_env \<Rightarrow> engine \<Rightarrow> string \<Rightarrow> pyval \<Rightarrow> RuleEvaluationResult list \<Rightarrow> engine \<times> (py_error + unit)" where
  "engine_persist_evaluations env en tenant event_id results =
     (if results = [] then (en, Inr ())
      else on_session en (persist_evaluations (ee_rt env) (ee_faults env) tenant event_id results))"

definition engine_persist_verdicts ::
  "engine_env \<Rightarrow> engine \<Rightarrow> string \<Rightarrow> (pyval \<times> EvaluationSummary) list \<Rightarrow> engine \<times> (py_error + unit)" where
  "engine_persist_verdicts env en tenant verdicts =
     (if verdict_params tenant verdicts = [] then (en, Inr ())
      else on_session en (persist_event_verdicts (ee_rt env) (ee_faults env) tenant verdicts))"

section \<open>Evaluating events\<close>

definition no_rules_reason :: "bool option \<Rightarrow> bool \<Rightarrow> string" where
  "no_rules_reason event_is_ftl has_ftl_hint =
     (if event_is_ftl = Some False then ''not_ftl_scoped''
      else if \<not> has_ftl_hint then ''ftl_classification_missing'' else ''no_rules_loaded'')"

text \<open>The persisting tail of a method that then returns \<open>summary\<close>.\<close>

definition then_return :: "engine \<times> (py_error + unit) \<Rightarrow> 'a \<Rightarrow> engine \<times> (py_error + 'a)" where
  "then_return p x = (fst p, and_then (snd p) (\<lambda>_. Inr x))"

definition persist_both ::
  "engine_env \<Rightarrow> engine \<Rightarrow> string \<Rightarrow> pyval \<Rightarrow> EvaluationSummary \<Rightarrow> engine \<times> (py_error + unit)" where
  "persist_both env en tenant event_id summary =
     (case engine_persist_evaluations env en tenant event_id (es_results summary) of
        (en1, Inl e) \<Rightarrow> (en1, Inl e)
      | (en1, Inr _) \<Rightarrow> engine_persist_verdicts env en1 tenant [(event_id, summary)])"

definition evaluate_event ::
  "engine_env \<Rightarrow> engine \<Rightarrow> pydict \<Rightarrow> bool \<Rightarrow> string option \<Rightarrow> engine \<times> (py_error + EvaluationSummary)" where
  "evaluate_event env en event persist tenant =
     (let event_type = dict_get event ''event_type'' (PStr []);
          event_id = dict_get event ''event_id'' (PStr []);
          event_is_ftl = is_ftl_food event
      in case get_applicable_rules env en event_type None (get_ftl_category event) event_is_ftl of
           (en1, Inl e) \<Rightarrow> (en1, Inl e)
         | (en1, Inr applicable) \<Rightarrow>
             if applicable = [] then
               let summary = (new_summary event_id 0)
                     \<lparr>es_no_verdict_reason := Some (no_rules_reason event_is_ftl (event_has_ftl_hint event))\<rparr>
               in if persist \<and> tenant_given tenant
                  then then_return (engine_persist_verdicts env en1 (the tenant) [(event_id, summary)]) summary
                  else (en1, Inr summary)
             else
               (case prefetch_related_events env en1 event applicable tenant of
                  (en2, Inl e) \<Rightarrow> (en2, Inl e)
                | (en2, Inr rel) \<Rightarrow>
                    (case run_rules env en2 event tenant rel applicable (new_summary event_id (length applicable)) of
                       (en3, Inl e) \<Rightarrow> (en3, Inl e)
                     | (en3, Inr s) \<Rightarrow>
                         let summary = (if event_is_ftl = Some False
                                        then s\<lparr>es_no_verdict_reason := Some ''not_ftl_scoped''\<rparr> else s)
                         in if persist \<and> tenant_given tenant
                            then then_return (persist_both env en3 (the tenant) event_id summary) summary
                            else (en3, Inr summary))))"

definition persist_summary ::
  "engine_env \<Rightarrow> engine \<Rightarrow> EvaluationSummary \<Rightarrow> string \<Rightarrow> pyval \<Rightarrow> engine \<times> (py_error + unit)" where
  "persist_summary env en summary tenant event_id =
     (let resolved_event_id = py_or event_id (es_event_id summary)
      in if \<not> truthy resolved_event_id
         then (en, Inl (ValueError ''persist_summary requires an event_id (either as kwarg or on summary.event_id)''))
         else persist_both env en tenant resolved_event_id summary)"

text \<open>The body of the batch loop, for one event.\<close>

definition evaluate_batch_event ::
  "engine_env \<Rightarrow> engine \<Rightarrow> RuleDefinition list \<Rightarrow> string \<Rightarrow> pydict \<Rightarrow> engine \<times> (py_error + EvaluationSummary)" where
  "evaluate_batch_event env en rules tenant event =
     (let event_type = dict_get event ''event_type'' (PStr []);
          event_id = dict_get event ''event_id'' (PStr []);
          event_is_ftl = is_ftl_food event
      in case get_applicable_rules env en event_type (Some rules) (get_ftl_category event) event_is_ftl of
           (en1, Inl e) \<Rightarrow> (en1, Inl e)
         | (en1, Inr applicable) \<Rightarrow>
             if applicable = [] then
               (en1, Inr ((new_summary event_id 0)
                     \<lparr>es_no_verdict_reason := Some (no_rules_reason event_is_ftl (event_has_ftl_hint event))\<rparr>))
             else
               (case prefetch_related_events env en1 event applicable (Some tenant) of
                  (en2, Inl e) \<Rightarrow> (en2, Inl e)
                | (en2, Inr rel) \<Rightarrow>
                    run_rules env en2 event (Some tenant) rel applicable
                      (new_summary event_id (length applicable))))"

fun evaluate_batch_events ::
  "engine_env \<Rightarrow> engine \<Rightarrow> RuleDefinition list \<Rightarrow> string \<Rightarrow> pydict list \<Rightarrow>
   engine \<times> (py_error + EvaluationSummary list)" where
  "evaluate_batch_events env en rules tenant [] = (en, Inr [])"
| "evaluate_batch_events env en rules tenant (event # events) =
     (case evaluate_batch_event env en rules tenant event of
        (en1, Inl e) \<Rightarrow> (en1, Inl e)
      | (en1, Inr s) \<Rightarrow>
          (case evaluate_batch_events env en1 rules tenant events of
             (en2, Inl e) \<Rightarrow> (en2, Inl e)
           | (en2, Inr ss) \<Rightarrow> (en2, Inr (s # ss))))"

definition persist_batch ::
  "engine_env \<Rightarrow> engine \<Rightarrow> string \<Rightarrow> EvaluationSummary list \<Rightarrow> engine \<times> (py_error + unit)" where
  "persist_batch env en tenant summaries =
     (let all_results = concat (map (\<lambda>s. map (Pair (es_event_id s)) (es_results s)) summaries)
      in case (if all_results = [] then (en, Inr ())
               else on_session en (batch_persist_evaluations (ee_rt env) (ee_faults env) tenant all_results)) of
           (en1, Inl e) \<Rightarrow> (en1, Inl e)
         | (en1, Inr _) \<Rightarrow>
             engine_persist_verdicts env en1 tenant
               (map (\<lambda>s. (es_event_id s, s)) (filter (\<lambda>s. truthy (es_event_id s)) summaries)))"

definition evaluate_events_batch ::
  "engine_env \<Rightarrow> engine \<Rightarrow> pydict list \<Rightarrow> string \<Rightarrow> bool \<Rightarrow> engine \<times> (py_error + EvaluationSummary list)" where
  "evaluate_events_batch env en events tenant persist =
     (if tenant = [] then (en, Inl (ValueError ''tenant_id is required for batch evaluation''))
      else case load_active_rules env en of
             (en1, Inl e) \<Rightarrow> (en1, Inl e)
           | (en1, Inr rules) \<Rightarrow>
               (case evaluate_batch_events env en1 rules tenant events of
                  (en2, Inl e) \<Rightarrow> (en2, Inl e)
                | (en2, Inr summaries) \<Rightarrow>
                    if persist then then_return (persist_batch env en2 tenant summaries) summaries
                    else (en2, Inr summaries)))"

section \<open>Facts on one rule\<close>

lemma lookup_kind_Some: "lookup_kind tbl v = Some x \<Longrightarrow> \<exists>k. map_of tbl k = Some x"
  by (auto simp: lookup_kind_def split: pyval.splits)

lemma error_result_fields [result_fields]:
  "rr_result (error_result uid rule why) = ''error''"
  "result_of_rule uid rule (error_result uid rule why)"
  "rr_why_failed (error_result uid rule why) = Some why"
  by (simp_all add: error_result_def result_of_rule_def)

text \<open>What the engine makes of an evaluator that meets the contract.\<close>

definition engine_outcome :: "string \<Rightarrow> RuleDefinition \<Rightarrow> RuleEvaluationResult \<Rightarrow> bool" where
  "engine_outcome uid rule r \<longleftrightarrow>
     result_of_rule uid rule r \<and> rr_result r \<in> {''pass'', ''fail'', ''warn'', ''skip'', ''error''} \<and>
     (rr_result r \<in> {''fail'', ''warn'', ''error''} \<longrightarrow> rr_why_failed r \<noteq> None)"

lemma engine_outcome_guarded:
  "meets_contract uid rule m \<Longrightarrow> engine_outcome uid rule (try_except m (\<lambda>e. error_result uid rule (f e)))"
  by (cases m) (auto simp: meets_contract_def engine_outcome_def evaluator_outcome_def result_fields)

lemma engine_outcome_error: "engine_outcome uid rule (error_result uid rule why)"
  by (simp add: engine_outcome_def result_fields)

lemma rule_evaluator_meets: "rule_evaluator ev \<Longrightarrow> meets_contract uid rule (ev uid event logic rule)"
  unfolding meets_contract_def using rule_evaluator.stamped rule_evaluator.outcome by fast

lemma evaluate_single_rule_outcome:
  assumes "evaluate_single_rule env en event rule tenant rel = (en', Inr r)"
  shows "engine_outcome (rt_uuid4 (ee_rt env) (en_uuids en)) rule r \<and> en_uuids en' = Suc (en_uuids en)"
proof -
  obtain logic where l: "rd_evaluation_logic rule = PDict logic"
    using assms by (auto simp: evaluate_single_rule_def split: pyval.splits)
  let ?uid = "rt_uuid4 (ee_rt env) (en_uuids en)" and ?kind = "dict_get logic ''type'' (PStr ''field_presence'')"
  consider (stateless) ev where "lookup_kind (EVALUATORS (ee_rt env)) ?kind = Some ev"
    | (relational) ev where "lookup_kind (EVALUATORS (ee_rt env)) ?kind = None"
        "lookup_kind (RELATIONAL_EVALUATORS (ee_rt env) (ee_faults env)) ?kind = Some ev"
    | (unknown) "lookup_kind (EVALUATORS (ee_rt env)) ?kind = None"
        "lookup_kind (RELATIONAL_EVALUATORS (ee_rt env) (ee_faults env)) ?kind = None"
    by fastforce
  then show ?thesis
  proof cases
    case stateless
    have "meets_contract ?uid rule (ev ?uid event logic rule)"
      using stateless EVALUATORS_contract lookup_kind_Some rule_evaluator_meets by metis
    then show ?thesis
      using assms l stateless
      by (auto simp: evaluate_single_rule_def Let_def engine_outcome_guarded split: if_splits)
  next
    case relational
    have "meets_contract ?uid rule (snd (ev ?uid event logic rule ss tenant rel))" for ss
      using relational(2) RELATIONAL_contract lookup_kind_Some relational_contract.meets by metis
    then have g: "engine_outcome ?uid rule (try_except x (\<lambda>e. error_result ?uid rule (f e)))"
      if "ev ?uid event logic rule ss tenant rel = (ss1, x)" for ss ss1 x f
      using that engine_outcome_guarded by (metis snd_conv)
    show ?thesis
      using assms l relational
      by (auto simp: evaluate_single_rule_def Let_def engine_outcome_error dest: g
          split: if_splits option.splits prod.splits)
  next
    case unknown
    then show ?thesis
      using assms l
      by (auto simp: evaluate_single_rule_def Let_def engine_outcome_error split: if_splits)
  qed
qed

section \<open>Facts on the summary\<close>

definition count_result :: "string \<Rightarrow> RuleEvaluationResult list \<Rightarrow> nat" where
  "count_result t rs = length (filter (\<lambda>r. rr_result r = t) rs)"

definition known_results :: "string list" where
  "known_results = [''pass'', ''fail'', ''warn'', ''error'', ''not_ftl_scoped'']"

text \<open>The counters and the list of critical failures say what the list of results says.\<close>

definition tallied :: "EvaluationSummary \<Rightarrow> bool" where
  "tallied s \<longleftrightarrow>
     es_passed s = count_result ''pass'' (es_results s) \<and> es_failed s = count_result ''fail'' (es_results s) \<and>
     es_warned s = count_result ''warn'' (es_results s) \<and> es_errored s = count_result ''error'' (es_results s) \<and>
     es_not_ftl_scoped s = count_result ''not_ftl_scoped'' (es_results s) \<and>
     es_skipped s = length (filter (\<lambda>r. rr_result r \<notin> set known_results) (es_results s)) \<and>
     es_critical_failures s =
       filter (\<lambda>r. rr_severity r = ''critical'' \<and> (rr_result r = ''fail'' \<or> rr_result r = ''error'')) (es_results s)"

lemma tallied_new [simp]: "tallied (new_summary i n)"
  by (simp add: tallied_def count_result_def)

lemma tallied_reason [simp]: "tallied (s\<lparr>es_no_verdict_reason := x\<rparr>) = tallied s"
  by (simp add: tallied_def)

lemma add_result_tallied: "tallied s \<Longrightarrow> tallied (add_result s r)"
  by (auto simp: tallied_def add_result_def tally_result_def count_result_def known_results_def)

lemma add_result_fields [simp]:
  "es_results (add_result s r) = es_results s @ [r]"
  "es_total_rules (add_result s r) = es_total_rules s"
  "es_event_id (add_result s r) = es_event_id s"
  "es_no_verdict_reason (add_result s r) = es_no_verdict_reason s"
  by (simp_all add: add_result_def tally_result_def)

text \<open>A result of the engine after the softening step.\<close>

definition result_for :: "RuleDefinition \<Rightarrow> RuleEvaluationResult \<Rightarrow> bool" where
  "result_for rule r \<longleftrightarrow> (\<exists>uid r0. engine_outcome uid rule r0 \<and> r = soften r0)"

lemma soften_fields [simp]:
  "rr_rule_id (soften r) = rr_rule_id r" "rr_severity (soften r) = rr_severity r"
  "rr_why_failed (soften r) = rr_why_failed r" "rr_evaluation_id (soften r) = rr_evaluation_id r"
  by (simp_all add: soften_def)

lemma soften_token: "rr_result (soften r) = rr_result r \<or> rr_result (soften r) = ''warn''"
  by (simp add: soften_def)

lemma result_for_token:
  assumes "result_for rule r"
  shows "rr_result r \<in> {''pass'', ''fail'', ''warn'', ''skip'', ''error''}"
proof -
  obtain r0 where "rr_result r0 \<in> {''pass'', ''fail'', ''warn'', ''skip'', ''error''}" and "r = soften r0"
    using assms by (auto simp only: result_for_def engine_outcome_def)
  then show ?thesis using soften_token [of r0] by (elim disjE) (simp_all only: insert_iff simp_thms)
qed

lemma result_for_rule: "result_for rule r \<Longrightarrow> rr_rule_id r = rd_rule_id rule \<and> rr_severity r = rd_severity rule"
  by (auto simp: result_for_def engine_outcome_def result_of_rule_def)

lemma run_rules_outcome:
  assumes "run_rules env en event tenant rel rules s = (en', Inr s')"
  shows "(tallied s \<longrightarrow> tallied s') \<and> es_total_rules s' = es_total_rules s \<and> es_event_id s' = es_event_id s \<and>
         es_no_verdict_reason s' = es_no_verdict_reason s \<and>
         (\<exists>rs. es_results s' = es_results s @ rs \<and> list_all2 result_for rules rs)"
  using assms
proof (induction rules arbitrary: en s)
  case (Cons rule rules)
  then obtain en1 r where e1: "evaluate_single_rule env en event rule tenant rel = (en1, Inr r)"
    and e2: "run_rules env en1 event tenant rel rules (add_result s (soften r)) = (en', Inr s')"
    by (auto split: prod.splits sum.splits)
  have r: "result_for rule (soften r)"
    using evaluate_single_rule_outcome [OF e1] by (auto simp: result_for_def)
  from Cons.IH [OF e2] obtain rs where "es_results s' = es_results s @ soften r # rs"
    and "list_all2 result_for rules rs"
    by auto
  with r have "\<exists>qs. es_results s' = es_results s @ qs \<and> list_all2 result_for (rule # rules) qs"
    by (intro exI [of _ "soften r # rs"]) simp
  with Cons.IH [OF e2] add_result_tallied [of s "soften r"] show ?case by simp
qed simp

lemma list_all2_result_tokens:
  "list_all2 result_for rules rs \<Longrightarrow> r \<in> set rs \<Longrightarrow> rr_result r \<in> {''pass'', ''fail'', ''warn'', ''skip'', ''error''}"
  by (auto simp: list_all2_conv_all_nth in_set_conv_nth dest!: result_for_token)

text \<open>The two ways \<open>evaluate_event\<close> returns: no applicable rule, or every applicable rule run.\<close>

lemma evaluate_event_cases:
  assumes "evaluate_event env en event persist tenant = (en', Inr s)"
  obtains (empty) "es_total_rules s = 0" and "es_results s = []" and "tallied s"
      and "es_no_verdict_reason s = Some (no_rules_reason (is_ftl_food event) (event_has_ftl_hint event))"
  | (run) rules where "rules \<noteq> []" and "tallied s" and "es_total_rules s = length rules"
      and "list_all2 result_for rules (es_results s)"
      and "es_no_verdict_reason s = (if is_ftl_food event = Some False then Some ''not_ftl_scoped'' else None)"
proof -
  obtain en1 rules where ap: "get_applicable_rules env en (dict_get event ''event_type'' (PStr [])) None
      (get_ftl_category event) (is_ftl_food event) = (en1, Inr rules)"
    using assms by (auto simp: evaluate_event_def Let_def split: prod.splits sum.splits)
  show thesis
  proof (cases "rules = []")
    case True
    have "s = (new_summary (dict_get event ''event_id'' (PStr [])) 0)
        \<lparr>es_no_verdict_reason := Some (no_rules_reason (is_ftl_food event) (event_has_ftl_hint event))\<rparr>"
      using assms ap True
      by (auto simp: evaluate_event_def Let_def then_return_def and_then_eq_Inr_iff split: if_splits)
    then show thesis by (intro empty) simp_all
  next
    case False
    obtain en2 rel en3 s0 where "prefetch_related_events env en1 event rules tenant = (en2, Inr rel)"
      and rr: "run_rules env en2 event tenant rel rules
            (new_summary (dict_get event ''event_id'' (PStr [])) (length rules)) = (en3, Inr s0)"
      and s: "s = (if is_ftl_food event = Some False then s0\<lparr>es_no_verdict_reason := Some ''not_ftl_scoped''\<rparr> else s0)"
      using assms ap False
      by (auto simp: evaluate_event_def Let_def then_return_def and_then_eq_Inr_iff
          split: if_splits prod.splits sum.splits)
    from run_rules_outcome [OF rr] s show thesis
      by (intro run [of rules] False) simp_all
  qed
qed

lemma tallied_length:
  assumes "tallied s"
  shows "es_passed s + es_failed s + es_warned s + es_skipped s + es_errored s + es_not_ftl_scoped s =
         length (es_results s)"
proof -
  have "count_result ''pass'' rs + count_result ''fail'' rs + count_result ''warn'' rs +
      length (filter (\<lambda>r. rr_result r \<notin> set known_results) rs) + count_result ''error'' rs +
      count_result ''not_ftl_scoped'' rs = length rs" for rs
    by (induction rs) (auto simp: count_result_def known_results_def)
  with assms show ?thesis by (simp add: tallied_def)
qed

lemma count_result_0: "count_result t rs = 0 \<longleftrightarrow> list_all (\<lambda>r. rr_result r \<noteq> t) rs"
  by (simp add: count_result_def filter_empty_conv list_all_iff)

section \<open>Properties\<close>

text \<open>
  The summary of an evaluated event is consistent: one result per
  applicable rule, the six counters partition the results exactly by their outcome, and the
  critical failures are the failing or erroring results of critical rules, in order.
\<close>

theorem evaluate_event_tallied:
  assumes "evaluate_event env en event persist tenant = (en', Inr s)"
  shows "tallied s \<and> length (es_results s) = es_total_rules s \<and>
         es_passed s + es_failed s + es_warned s + es_skipped s + es_errored s + es_not_ftl_scoped s =
           es_total_rules s"
  using assms
proof (cases rule: evaluate_event_cases)
  case empty
  then show ?thesis using tallied_length [of s] by simp
next
  case (run rules)
  then show ?thesis using tallied_length [of s] list_all2_lengthD by fastforce
qed

definition sample_env :: engine_env where
  "sample_env = \<lparr>ee_rt = example_rt, ee_faults = (\<lambda>_ _ _. None), ee_clock = (\<lambda>_. Fin 0)\<rparr>"

definition sample_engine :: "RuleDefinition list \<Rightarrow> trace_row list \<Rightarrow> engine" where
  "sample_engine rules rows =
     init_engine (Some ((sample_session rows)
       \<lparr>ss_db := (ss_db (sample_session rows))\<lparr>db_rule_definitions := rules\<rparr>\<rparr>)) None"

text \<open>A run: a presence rule, an event on the list with a blank lot field.\<close>

definition sample_event :: pydict where
  "sample_event = [(''ftl_covered'', PBool True), (''lot'', PStr '' ''), (''event_id'', PStr ''e1'')]"

definition run_ok :: "engine \<times> (py_error + EvaluationSummary) \<Rightarrow> (EvaluationSummary \<Rightarrow> bool) \<Rightarrow> bool" where
  "run_ok p P = (case snd p of Inl _ \<Rightarrow> False | Inr s \<Rightarrow> P s)"

lemma run_okE:
  assumes "run_ok p P"
  obtains en' s where "p = (en', Inr s)" and "P s"
  using assms by (cases p) (auto simp: run_ok_def split: sum.splits)

lemma sample_run:
  "run_ok (evaluate_event sample_env (sample_engine [sample_rule] []) sample_event False (Some ''A''))
     (\<lambda>s. verdict s = ''fail'' \<and> es_failed s = 1 \<and> es_total_rules s = 1 \<and> es_results s \<noteq> [])"
  by code_simp

theorem evaluate_event_tallied_witness:
  "\<exists>en' s. evaluate_event sample_env (sample_engine [sample_rule] []) sample_event False (Some ''A'') = (en', Inr s) \<and>
     tallied s \<and> length (es_results s) = 1"
  using sample_run by (rule run_okE) (auto dest: evaluate_event_tallied)

lemma no_rules_reason_nonempty [simp]: "no_rules_reason f h \<noteq> []"
  by (simp add: no_rules_reason_def)

text \<open>
  Claim C1 (safety). An event is stamped compliant exactly when at least one rule was
  evaluated for it, it is not classified as outside the Food Traceability List, and every
  rule passed, warned or was skipped: a missing rule set, a non-FTL food, a failed rule or a
  crashed evaluator can never give a compliant verdict. An event whose classification is missing is among those that can:
  it is compliant when the rules that opt in to such events pass, although the comments of the code say that it never is (see
  \<open>unclassified_meta_pass\<close> below).
\<close>

theorem evaluate_event_compliant_iff:
  assumes "evaluate_event env en event persist tenant = (en', Inr s)"
  shows "compliant s = Some True \<longleftrightarrow>
         es_results s \<noteq> [] \<and> is_ftl_food event \<noteq> Some False \<and>
         list_all (\<lambda>r. rr_result r = ''pass'' \<or> rr_result r = ''warn'' \<or> rr_result r = ''skip'') (es_results s)"
  using assms
proof (cases rule: evaluate_event_cases)
  case empty
  then show ?thesis by (simp add: compliant_True_iff)
next
  case (run rules)
  have len: "length (es_results s) = length rules" using run(4) by (simp add: list_all2_lengthD)
  have tok: "rr_result r \<in> {''pass'', ''fail'', ''warn'', ''skip'', ''error''}" if "r \<in> set (es_results s)" for r
    using list_all2_result_tokens [OF run(4) that] .
  then have scoped: "es_not_ftl_scoped s = 0"
    using run(2) by (fastforce simp: tallied_def count_result_0 list_all_iff)
  have "es_failed s = 0 \<and> es_errored s = 0 \<longleftrightarrow>
      list_all (\<lambda>r. rr_result r = ''pass'' \<or> rr_result r = ''warn'' \<or> rr_result r = ''skip'') (es_results s)"
    using run(2) tok by (fastforce simp: tallied_def count_result_0 list_all_iff)
  then show ?thesis
    using run(1,3,5) scoped len by (auto simp: compliant_True_iff)
qed

theorem evaluate_event_compliant_iff_witness:
  "\<exists>en' s. evaluate_event sample_env (sample_engine [sample_rule] []) sample_event False (Some ''A'') = (en', Inr s) \<and>
     \<not> list_all (\<lambda>r. rr_result r = ''pass'' \<or> rr_result r = ''warn'' \<or> rr_result r = ''skip'') (es_results s)"
proof -
  obtain en' s where run: "evaluate_event sample_env (sample_engine [sample_rule] []) sample_event False (Some ''A'') = (en', Inr s)"
    and s: "verdict s = ''fail''" "es_results s \<noteq> []"
    using sample_run by (rule run_okE) auto
  have "is_ftl_food sample_event \<noteq> Some False" by code_simp
  moreover have "compliant s \<noteq> Some True" using s verdict_cases(1) [of s] by auto
  ultimately show ?thesis using evaluate_event_compliant_iff [OF run] run s(2) by blast
qed

text \<open>
  An event explicitly classified as outside the list gets the verdict
  \<open>no_verdict\<close> with reason \<open>not_ftl_scoped\<close> from the single-event path, whatever its rules
  reported.
\<close>

theorem evaluate_event_non_ftl_no_verdict:
  assumes "evaluate_event env en event persist tenant = (en', Inr s)" and "is_ftl_food event = Some False"
  shows "verdict s = ''no_verdict'' \<and> verdict_reason s = Some ''not_ftl_scoped''"
  using assms(1)
  by (cases rule: evaluate_event_cases)
    (simp_all add: assms(2) verdict_def verdict_reason_def compliant_def no_rules_reason_def)

definition non_ftl_event :: pydict where
  "non_ftl_event = [(''ftl_covered'', PBool False), (''lot'', PStr ''L1''), (''event_id'', PStr ''e1'')]"

definition any_scope_rule :: RuleDefinition where
  "any_scope_rule = sample_rule\<lparr>rd_applicability_conditions := PDict [(''ftl_scope'', PList [PStr ''ANY''])]\<rparr>"

theorem evaluate_event_non_ftl_no_verdict_witness:
  "\<exists>en' s. evaluate_event sample_env (sample_engine [any_scope_rule] []) non_ftl_event False (Some ''A'') = (en', Inr s) \<and>
     es_passed s = 1 \<and> verdict s = ''no_verdict''"
proof -
  have "run_ok (evaluate_event sample_env (sample_engine [any_scope_rule] []) non_ftl_event False (Some ''A''))
      (\<lambda>s. es_passed s = 1)"
    by code_simp
  moreover have "is_ftl_food non_ftl_event = Some False" by code_simp
  ultimately show ?thesis
    by (auto elim!: run_okE dest: evaluate_event_non_ftl_no_verdict)
qed

text \<open>
  An event that says nothing about its classification is stamped compliant when a rule scoped to any food passes on it, on
  both paths: \<open>no_verdict_reason\<close> is set only when no rule applies or the event is classified as outside the list.
\<close>

definition unclassified_event :: pydict where
  "unclassified_event = [(''lot'', PStr ''L1''), (''event_id'', PStr ''e1'')]"

lemma unclassified_meta_pass:
  "is_ftl_food unclassified_event = None \<and> \<not> event_has_ftl_hint unclassified_event \<and>
   run_ok (evaluate_event sample_env (sample_engine [any_scope_rule] []) unclassified_event False (Some ''A''))
     (\<lambda>s. compliant s = Some True \<and> es_no_verdict_reason s = None) \<and>
   run_ok (evaluate_batch_event sample_env (sample_engine [] []) [any_scope_rule] ''A'' unclassified_event)
     (\<lambda>s. compliant s = Some True \<and> es_no_verdict_reason s = None)"
  by (intro conjI) code_simp+

text \<open>
  For an event not classified as outside the list, the batch path
  computes what the single-event path computes from the same cached rules: same summary, same
  state, or the same exception.
\<close>

theorem batch_event_agrees_with_single:
  assumes "is_cache_fresh env en = (en1, True)" and "en_rules_cache en1 = Some rules"
    and "is_ftl_food event \<noteq> Some False"
  shows "evaluate_event env en event False (Some tenant) = evaluate_batch_event env en1 rules tenant event"
  using assms
  by (auto simp: evaluate_event_def evaluate_batch_event_def get_applicable_rules_def Let_def
      split: prod.splits sum.splits)

theorem batch_event_agrees_with_single_witness:
  "evaluate_event sample_env
     ((sample_engine [] [])\<lparr>en_rules_cache := Some [sample_rule], en_rules_cache_loaded_at := Some (Fin 0)\<rparr>)
     sample_event False (Some ''A'') =
   evaluate_batch_event sample_env
     ((sample_engine [] [])\<lparr>en_rules_cache := Some [sample_rule], en_rules_cache_loaded_at := Some (Fin 0),
                            en_clock_reads := 1\<rparr>) [sample_rule] ''A'' sample_event"
proof (rule batch_event_agrees_with_single)
  show "is_cache_fresh sample_env
      ((sample_engine [] [])\<lparr>en_rules_cache := Some [sample_rule], en_rules_cache_loaded_at := Some (Fin 0)\<rparr>) =
    ((sample_engine [] [])\<lparr>en_rules_cache := Some [sample_rule], en_rules_cache_loaded_at := Some (Fin 0),
                            en_clock_reads := 1\<rparr>, True)"
    by (simp add: is_cache_fresh_def read_clock_def sample_engine_def init_engine_def sample_env_def
        DEFAULT_CACHE_TTL_SECONDS_def fsub_def fneg_def py_simps)
  show "is_ftl_food sample_event \<noteq> Some False" by code_simp
qed simp

text \<open>
  On an event classified as outside the list the two paths differ:
  with one passing rule scoped to any food, the batch path's verdict is \<open>pass\<close> while the
  single-event path's is \<open>no_verdict\<close>.
\<close>

theorem batch_stamps_non_ftl_pass:
  "is_ftl_food non_ftl_event = Some False \<and>
   run_ok (evaluate_batch_event sample_env (sample_engine [] []) [any_scope_rule] ''A'' non_ftl_event)
     (\<lambda>s. verdict s = ''pass'') \<and>
   run_ok (evaluate_event sample_env (sample_engine [any_scope_rule] []) non_ftl_event False (Some ''A''))
     (\<lambda>s. verdict s = ''no_verdict'')"
  by code_simp

text \<open>
  An evaluator that raises does not lose the rule: the engine reports an
  \<open>error\<close> result of that rule with the exception in its explanation, and an event with such a
  result is never compliant.
\<close>

theorem evaluator_crash_is_error:
  assumes "rd_evaluation_logic rule = PDict logic"
    and "dict_get logic ''type'' (PStr ''field_presence'') = PStr kind"
    and "map_of (EVALUATORS (ee_rt env)) kind = Some ev"
    and "ev (rt_uuid4 (ee_rt env) (en_uuids en)) event logic rule = Inl e"
  shows "\<exists>r. snd (evaluate_single_rule env en event rule tenant rel) = Inr r \<and> rr_result r = ''error'' \<and>
             rr_severity r = rd_severity rule \<and> rr_why_failed r = Some (crash_reason (ee_rt env) e)"
  using assms
  by (simp add: evaluate_single_rule_def lookup_kind_def Let_def error_result_def)

theorem evaluator_crash_is_error_witness:
  "\<exists>r. snd (evaluate_single_rule sample_env (sample_engine [] []) []
              (sample_rule\<lparr>rd_evaluation_logic := PDict [(''field'', PInt 3)]\<rparr>) None None) = Inr r \<and>
       rr_result r = ''error'' \<and> rr_severity r = ''critical'' \<and>
       rr_why_failed r = Some (crash_reason example_rt AttributeError)"
  using evaluator_crash_is_error [where rule = "sample_rule\<lparr>rd_evaluation_logic := PDict [(''field'', PInt 3)]\<rparr>"
      and logic = "[(''field'', PInt 3)]" and env = sample_env and kind = "''field_presence''"
      and ev = "evaluate_field_presence example_rt" and e = AttributeError and en = "sample_engine [] []"
      and event = "[]" and tenant = None and rel = None]
  by (simp add: EVALUATORS_def sample_env_def evaluate_field_presence_def sample_rule_def)

text \<open>
  A cross-event rule dispatched without an authenticated tenant is an
  error, not a skip, and no query is made: the session is left as it was.
\<close>

theorem relational_without_tenant_is_error:
  assumes "rd_evaluation_logic rule = PDict logic"
    and "dict_get logic ''type'' (PStr ''field_presence'') = PStr kind"
    and "map_of (RELATIONAL_EVALUATORS (ee_rt env) (ee_faults env)) kind = Some ev"
    and "\<not> tenant_given tenant"
  shows "\<exists>en' r. evaluate_single_rule env en event rule tenant rel = (en', Inr r) \<and> rr_result r = ''error'' \<and>
             rr_severity r = rd_severity rule \<and> en_session en' = en_session en"
proof -
  have "map_of (EVALUATORS (ee_rt env)) kind = None"
    using assms(3) by (auto simp: RELATIONAL_EVALUATORS_def EVALUATORS_def split: if_splits)
  then show ?thesis
    using assms
    by (auto simp: evaluate_single_rule_def lookup_kind_def Let_def error_result_def split: option.split)
qed

theorem relational_without_tenant_is_error_witness:
  "\<exists>en' r. evaluate_single_rule sample_env (sample_engine [] []) []
              (sample_rule\<lparr>rd_evaluation_logic := PDict [(''type'', PStr ''mass_balance'')]\<rparr>) (Some []) None = (en', Inr r) \<and>
       rr_result r = ''error'' \<and> en_session en' = en_session (sample_engine [] [])"
  using relational_without_tenant_is_error
    [where rule = "sample_rule\<lparr>rd_evaluation_logic := PDict [(''type'', PStr ''mass_balance'')]\<rparr>"
      and logic = "[(''type'', PStr ''mass_balance'')]" and env = sample_env and kind = "''mass_balance''"
      and tenant = "Some []" and en = "sample_engine [] []" and event = "[]" and rel = None
      and ev = "evaluate_mass_balance example_rt (\<lambda>_ _ _. None)"]
  by (fastforce simp: RELATIONAL_EVALUATORS_def sample_env_def tenant_given_def)

lemma filter_err_applies: "filter_err P xs = Inr ys \<Longrightarrow> y \<in> set ys \<Longrightarrow> P y = Inr True \<and> y \<in> set xs"
  by (induction xs arbitrary: ys) (auto simp: and_then_eq_Inr_iff split: if_splits)

lemma applicable_needs_opt_in:
  assumes "rule_is_applicable event_type category is_ftl rule = Inr True" and "is_ftl \<noteq> Some True"
  shows "\<exists>conditions scope. py_or (rd_applicability_conditions rule) (PDict []) = PDict conditions \<and>
           py_iter (py_or (dict_get conditions ''ftl_scope'' PNone) (PList [])) = Inr scope \<and>
           (''ANY'' \<in> set (scope_tokens scope) \<or> ''NON_FTL'' \<in> set (scope_tokens scope))"
  using assms
  by (auto simp: rule_is_applicable_def and_then_eq_Inr_iff Let_def split: pyval.splits if_splits)

lemma get_applicable_rules_applies:
  assumes "get_applicable_rules env en event_type rules category is_ftl = (en', Inr applicable)"
    and "rule \<in> set applicable"
  shows "rule_is_applicable event_type category is_ftl rule = Inr True"
  using assms
  by (auto simp: get_applicable_rules_def and_then_eq_Inr_iff split: prod.splits dest: filter_err_applies)

text \<open>
  For an event that is not known to be on the list, only rules that opt in
  through the scopes \<open>ANY\<close> or \<open>NON_FTL\<close> are selected, whether the rules were given, cached or
  loaded: no rule written for listed foods is run on an unclassified event.
\<close>

theorem unclassified_needs_opt_in:
  assumes "get_applicable_rules env en event_type rules category is_ftl = (en', Inr applicable)"
    and "rule \<in> set applicable" and "is_ftl \<noteq> Some True"
  shows "\<exists>conditions scope. py_or (rd_applicability_conditions rule) (PDict []) = PDict conditions \<and>
           py_iter (py_or (dict_get conditions ''ftl_scope'' PNone) (PList [])) = Inr scope \<and>
           (''ANY'' \<in> set (scope_tokens scope) \<or> ''NON_FTL'' \<in> set (scope_tokens scope))"
  using applicable_needs_opt_in [OF get_applicable_rules_applies [OF assms(1,2)] assms(3)] .

theorem unclassified_needs_opt_in_witness:
  "\<exists>conditions scope. py_or (rd_applicability_conditions any_scope_rule) (PDict []) = PDict conditions \<and>
     py_iter (py_or (dict_get conditions ''ftl_scope'' PNone) (PList [])) = Inr scope \<and>
     (''ANY'' \<in> set (scope_tokens scope) \<or> ''NON_FTL'' \<in> set (scope_tokens scope))"
proof (rule unclassified_needs_opt_in)
  show "get_applicable_rules sample_env (sample_engine [] []) (PStr ''shipping'') (Some [any_scope_rule, sample_rule])
      None None = (sample_engine [] [], Inr [any_scope_rule])"
    by code_simp
qed simp_all

lemma map_err_decode_fields:
  "map_err (decode_rule rt) rs = Inr rules \<Longrightarrow>
   map (\<lambda>r. (rd_rule_id r, rd_rule_version r, rd_retired_date r, rd_effective_date r)) rules =
   map (\<lambda>r. (rd_rule_id r, rd_rule_version r, rd_retired_date r, rd_effective_date r)) rs"
proof (induction rs arbitrary: rules)
  case (Cons r rs)
  then show ?case by (auto simp: and_then_eq_Inr_iff decode_rule_def)
qed simp

text \<open>
  Loading returns every active rule and nothing else: the identities
  of the returned rules are, with multiplicity, those of the rows that are not retired and
  already in effect; the cache then holds exactly that list, and no table changes.
\<close>

theorem load_active_rules_exact:
  assumes "load_active_rules env en = (en', Inr rules)" and "en_session en = Some ss"
  shows "mset (map (\<lambda>r. (rd_rule_id r, rd_rule_version r)) rules) =
           mset (map (\<lambda>r. (rd_rule_id r, rd_rule_version r))
                  (filter (active_rule (ss_today ss)) (db_rule_definitions (ss_db ss)))) \<and>
         list_all (active_rule (ss_today ss)) rules \<and> en_rules_cache en' = Some rules \<and>
         (\<exists>ss'. en_session en' = Some ss' \<and> ss_db ss' = ss_db ss)"
proof -
  obtain ss1 where ex: "execute (ee_rt env) (ee_faults env) SelectRules ss = (ss1, Inr ())"
    and dec: "map_err (decode_rule (ee_rt env)) (select_rules ss) = Inr rules"
    and en': "en_rules_cache en' = Some rules" "en_session en' = Some ss1"
    using assms by (auto simp: load_active_rules_def Let_def read_clock_def split: prod.splits sum.splits)
  have q: "map (\<lambda>r. (rd_rule_id r, rd_rule_version r, rd_retired_date r, rd_effective_date r)) rules =
      map (\<lambda>r. (rd_rule_id r, rd_rule_version r, rd_retired_date r, rd_effective_date r)) (select_rules ss)"
    by (rule map_err_decode_fields [OF dec])
  have ids: "map (\<lambda>r. (rd_rule_id r, rd_rule_version r)) rules =
      map (\<lambda>r. (rd_rule_id r, rd_rule_version r)) (select_rules ss)"
    using arg_cong [OF q, of "map (\<lambda>(a, b, _, _). (a, b))"] by (simp add: comp_def)
  have acts: "map (active_rule (ss_today ss)) rules = map (active_rule (ss_today ss)) (select_rules ss)"
    using arg_cong [OF q, of "map (\<lambda>(_, _, c, d). c = None \<and> d \<le> ss_today ss)"]
    by (simp add: comp_def active_rule_def [abs_def])
  have m: "mset (select_rules ss) = mset (filter (active_rule (ss_today ss)) (db_rule_definitions (ss_db ss)))"
    by (simp add: select_rules_def rule_order_def)
  have "set (select_rules ss) = set (filter (active_rule (ss_today ss)) (db_rule_definitions (ss_db ss)))"
    using m by (rule mset_eq_setD)
  then have "list_all id (map (active_rule (ss_today ss)) (select_rules ss))"
    by (auto simp: list_all_iff)
  with acts have "list_all id (map (active_rule (ss_today ss)) rules)" by simp
  then have "list_all (active_rule (ss_today ss)) rules" by (simp add: list_all_iff)
  moreover have "mset (map (\<lambda>r. (rd_rule_id r, rd_rule_version r)) rules) =
      mset (map (\<lambda>r. (rd_rule_id r, rd_rule_version r))
             (filter (active_rule (ss_today ss)) (db_rule_definitions (ss_db ss))))"
    using ids m by (metis mset_map)
  ultimately show ?thesis using en' execute_done [OF ex] by simp
qed

theorem load_active_rules_exact_witness:
  "\<exists>en' rules. load_active_rules sample_env
       (sample_engine [sample_rule, sample_rule\<lparr>rd_retired_date := Some 3\<rparr>] []) = (en', Inr rules) \<and>
     mset (map (\<lambda>r. (rd_rule_id r, rd_rule_version r)) rules) = {#(''r1'', 1)#}"
proof -
  let ?en = "sample_engine [sample_rule, sample_rule\<lparr>rd_retired_date := Some 3\<rparr>] []"
  have "isl (snd (load_active_rules sample_env ?en)) = False" by code_simp
  then obtain en' rules where l: "load_active_rules sample_env ?en = (en', Inr rules)"
    by (metis prod.collapse sum.collapse(2))
  then show ?thesis
    using load_active_rules_exact [OF l]
    by (simp add: sample_engine_def init_engine_def sample_session_def sample_rule_def active_rule_def)
qed

end
