(* ===== verification/EnginePersistence.thy ===== *)
theory EnginePersistence
  imports RulesEngine
begin

text \<open>
  What the persistence methods of the rules engine guarantee: failures stay inside their
  savepoints, no evaluation row is lost while the dead-letter table accepts writes, nothing
  outside the authenticated tenant changes, and the event-level verdict is the summary's.
\<close>

section \<open>Frames\<close>

text \<open>What a tenant's writes may change: its event rows, and rows appended under its id.\<close>

definition tenant_frame :: "pyrt \<Rightarrow> string \<Rightarrow> db \<Rightarrow> db \<Rightarrow> bool" where
  "tenant_frame rt t d d' \<longleftrightarrow>
     db_rule_definitions d' = db_rule_definitions d \<and>
     filter (\<lambda>r. rt_pg_uuid rt t \<noteq> Some (te_tenant_id r)) (db_traceability_events d') =
       filter (\<lambda>r. rt_pg_uuid rt t \<noteq> Some (te_tenant_id r)) (db_traceability_events d) \<and>
     (\<exists>new. db_rule_evaluations d' = db_rule_evaluations d @ new \<and> list_all (\<lambda>r. er_tenant_id r = t) new) \<and>
     (\<exists>new. db_deadletter d' = db_deadletter d @ new \<and> list_all (\<lambda>(r, _). er_tenant_id r = t) new)"

lemma tenant_frame_refl [simp]: "tenant_frame rt t d d"
  by (simp add: tenant_frame_def)

lemma tenant_frame_trans: "tenant_frame rt t a b \<Longrightarrow> tenant_frame rt t b c \<Longrightarrow> tenant_frame rt t a c"
  by (fastforce simp: tenant_frame_def)

fun stmt_of_tenant :: "string \<Rightarrow> stmt \<Rightarrow> bool" where
  "stmt_of_tenant t (InsertEvaluations rows) = list_all (\<lambda>r. er_tenant_id r = t) rows"
| "stmt_of_tenant t (InsertDeadletter r _) = (er_tenant_id r = t)"
| "stmt_of_tenant t (UpdateVerdicts ps) = list_all (\<lambda>p. vp_tenant_id p = t) ps"
| "stmt_of_tenant t (UpdateError tenant _ _) = (tenant = t)"
| "stmt_of_tenant t _ = True"

lemma stamp_verdicts_frame:
  assumes "list_all (\<lambda>p. vp_tenant_id p = t) ps"
  shows "te_tenant_id (fold (stamp_verdict rt now) ps row) = te_tenant_id row \<and>
         (rt_pg_uuid rt t \<noteq> Some (te_tenant_id row) \<longrightarrow> fold (stamp_verdict rt now) ps row = row)"
  using assms
  by (induction ps arbitrary: row) (auto simp: stamp_verdict_def row_of_event_def uuid_param_def)

lemma stamp_error_frame:
  "te_tenant_id (stamp_error rt now t eid msg row) = te_tenant_id row"
  "rt_pg_uuid rt t \<noteq> Some (te_tenant_id row) \<Longrightarrow> stamp_error rt now t eid msg row = row"
  by (simp_all add: stamp_error_def row_of_event_def uuid_param_def)

lemma events_frame:
  assumes "\<And>row. te_tenant_id (f row) = te_tenant_id row"
    and "\<And>row. rt_pg_uuid rt t \<noteq> Some (te_tenant_id row) \<Longrightarrow> f row = row"
  shows "tenant_frame rt t d (d\<lparr>db_traceability_events := map f (db_traceability_events d)\<rparr>)"
proof -
  have "filter (\<lambda>r. rt_pg_uuid rt t \<noteq> Some (te_tenant_id r)) (map f xs) =
      filter (\<lambda>r. rt_pg_uuid rt t \<noteq> Some (te_tenant_id r)) xs" for xs
    by (rule filter_map_frame) (simp_all add: assms)
  then show ?thesis by (simp add: tenant_frame_def)
qed

lemma stmt_of_tenant_frame:
  assumes "stmt_of_tenant t st"
  shows "tenant_frame rt t d (apply_stmt rt now st d)"
proof (cases st)
  case (InsertEvaluations rows)
  then show ?thesis using assms by (simp add: tenant_frame_def)
next
  case (InsertDeadletter r msg)
  then show ?thesis using assms by (simp add: tenant_frame_def)
next
  case (UpdateVerdicts ps)
  then have "list_all (\<lambda>p. vp_tenant_id p = t) ps" using assms by simp
  from stamp_verdicts_frame [OF this] UpdateVerdicts show ?thesis by (simp add: events_frame)
next
  case (UpdateError tenant eid msg)
  then show ?thesis using assms by (simp add: events_frame stamp_error_frame)
qed simp_all

lemma in_savepoint_tenant:
  assumes "in_savepoint rt fs st ss = (ss', r)" and "stmt_of_tenant t st"
  shows "tenant_frame rt t (ss_db ss) (ss_db ss')"
  using assms(1) by (cases rule: in_savepoint_cases) (simp_all add: stmt_of_tenant_frame assms(2))

lemma best_effort_tenant:
  assumes "best_effort rt fs st ss = (ss', r)" and "stmt_of_tenant t st"
  shows "tenant_frame rt t (ss_db ss) (ss_db ss')"
  using assms in_savepoint_tenant by (fastforce simp: best_effort_def split: prod.splits sum.splits)

text \<open>A write that opens its savepoint ends in a usable transaction.\<close>

definition savepoints_open :: "faults \<Rightarrow> bool" where
  "savepoints_open fs \<longleftrightarrow> (\<forall>n d. fs n Savepoint d = None)"

lemma in_savepoint_opens:
  assumes "savepoints_open fs" and "\<not> ss_aborted ss" and "in_savepoint rt fs st ss = (ss', r)"
  shows "isl r = False \<and> \<not> ss_aborted ss'"
  using assms(3)
proof (cases rule: in_savepoint_cases)
  case unopened
  then show ?thesis
    using assms by (auto simp: in_savepoint_def execute_def refused_def savepoints_open_def
        split: prod.splits sum.splits option.splits)
qed simp_all

lemma best_effort_opens:
  assumes "savepoints_open fs" and "\<not> ss_aborted ss"
  obtains ss' where "best_effort rt fs st ss = (ss', Inr ())" and "\<not> ss_aborted ss'"
proof -
  obtain ss' r where s: "in_savepoint rt fs st ss = (ss', r)" by fastforce
  with in_savepoint_opens [OF assms s] that [of ss'] show thesis
    by (cases r) (auto simp: best_effort_def)
qed

section \<open>Salvage\<close>

lemma salvage_rows_opens:
  "savepoints_open fs \<Longrightarrow> \<not> ss_aborted ss \<Longrightarrow>
   \<exists>ss'. salvage_rows rt fs tenant rows ss = (ss', Inr ()) \<and> \<not> ss_aborted ss'"
proof (induction rows arbitrary: ss)
  case (Cons er rows)
  obtain eid row where er: "er = (eid, row)" by (cases er)
  obtain ss1 r where s: "in_savepoint rt fs (InsertEvaluations [row]) ss = (ss1, r)" by fastforce
  with in_savepoint_opens [OF Cons.prems s] obtain x where x: "r = Inr x" "\<not> ss_aborted ss1"
    by (cases r) auto
  show ?case
  proof (cases x)
    case None
    then show ?thesis using Cons.IH [OF Cons.prems(1) x(2)] er s x by simp
  next
    case (Some e)
    obtain ss2 where m: "best_effort rt fs (UpdateError tenant eid (rt_err_str rt e)) ss1 = (ss2, Inr ())"
      "\<not> ss_aborted ss2"
      using best_effort_opens [OF Cons.prems(1) x(2)] by blast
    obtain ss3 where w: "best_effort rt fs (InsertDeadletter row (rt_err_str rt e)) ss2 = (ss3, Inr ())"
      "\<not> ss_aborted ss3"
      using best_effort_opens [OF Cons.prems(1) m(2)] by blast
    show ?thesis
      using Cons.IH [OF Cons.prems(1) w(2)] er s x Some m w
      by (simp add: mark_event_evaluation_error_def write_evaluation_deadletter_def)
  qed
qed simp

lemma persist_rows_opens:
  assumes "savepoints_open fs" and "\<not> ss_aborted ss"
  shows "\<exists>ss'. persist_rows rt fs tenant rows ss = (ss', Inr ()) \<and> \<not> ss_aborted ss'"
proof -
  obtain ss1 r where s: "in_savepoint rt fs (InsertEvaluations (map snd rows)) ss = (ss1, r)" by fastforce
  with in_savepoint_opens [OF assms s] obtain x where x: "r = Inr x" "\<not> ss_aborted ss1"
    by (cases r) auto
  then show ?thesis
    using salvage_rows_opens [OF assms(1) x(2)] s by (cases x) (auto simp: persist_rows_def)
qed

lemma batch_persist_opens:
  "savepoints_open fs \<Longrightarrow> \<not> ss_aborted ss \<Longrightarrow>
   \<exists>ss'. batch_persist_evaluations rt fs tenant results ss = (ss', Inr ()) \<and> \<not> ss_aborted ss'"
proof (induction rt fs tenant results ss rule: batch_persist_evaluations.induct)
  case (1 rt fs tenant results ss)
  show ?case
  proof (cases "results = []")
    case True
    then show ?thesis using 1 by (simp add: batch_persist_evaluations.simps)
  next
    case False
    obtain ss1 where p: "persist_rows rt fs tenant
        (map (\<lambda>(event_id, r). (event_id, row_of_result rt tenant event_id r)) (take BATCH_CHUNK_SIZE results)) ss =
        (ss1, Inr ())" "\<not> ss_aborted ss1"
      using persist_rows_opens [OF 1(2,3)] by blast
    with 1(1) [OF False p(1) [symmetric] refl] 1(2) False show ?thesis
      by (simp add: batch_persist_evaluations.simps [of rt fs tenant results])
  qed
qed

lemma salvage_rows_tenant:
  assumes "list_all (\<lambda>(_, r). er_tenant_id r = t) rows" and "salvage_rows rt fs t rows ss = (ss', r)"
  shows "tenant_frame rt t (ss_db ss) (ss_db ss')"
  using assms
proof (induction rows arbitrary: ss)
  case (Cons er rows)
  obtain eid row where er: "er = (eid, row)" by (cases er)
  with Cons.prems(1) have row: "er_tenant_id row = t" and rows: "list_all (\<lambda>(_, r). er_tenant_id r = t) rows"
    by simp_all
  obtain ss1 r1 where s: "in_savepoint rt fs (InsertEvaluations [row]) ss = (ss1, r1)" by fastforce
  have f1: "tenant_frame rt t (ss_db ss) (ss_db ss1)" using in_savepoint_tenant [OF s] row by simp
  show ?case
  proof (cases r1)
    case (Inl e)
    with Cons.prems(2) er s f1 show ?thesis by simp
  next
    case (Inr x)
    show ?thesis
    proof (cases x)
      case None
      with Cons.prems(2) er s Inr have "salvage_rows rt fs t rows ss1 = (ss', r)" by simp
      from tenant_frame_trans [OF f1 Cons.IH [OF rows this]] show ?thesis .
    next
      case (Some e)
      obtain ss2 r2 where m: "best_effort rt fs (UpdateError t eid (rt_err_str rt e)) ss1 = (ss2, r2)" by fastforce
      have f2: "tenant_frame rt t (ss_db ss) (ss_db ss2)"
        using tenant_frame_trans [OF f1 best_effort_tenant [OF m]] by simp
      obtain ss3 r3 where w: "best_effort rt fs (InsertDeadletter row (rt_err_str rt e)) ss2 = (ss3, r3)" by fastforce
      have f3: "tenant_frame rt t (ss_db ss) (ss_db ss3)"
        using tenant_frame_trans [OF f2 best_effort_tenant [OF w]] row by simp
      have "ss' = ss2 \<or> ss' = ss3 \<or> salvage_rows rt fs t rows ss3 = (ss', r)"
        using Cons.prems(2) er s Inr Some m w
        by (auto simp: mark_event_evaluation_error_def write_evaluation_deadletter_def split: sum.splits)
      then show ?thesis using f2 f3 tenant_frame_trans [OF f3 Cons.IH [OF rows]] by blast
    qed
  qed
qed simp

lemma persist_rows_tenant:
  assumes "list_all (\<lambda>(_, r). er_tenant_id r = t) rows" and "persist_rows rt fs t rows ss = (ss', r)"
  shows "tenant_frame rt t (ss_db ss) (ss_db ss')"
proof -
  obtain ss1 r1 where s: "in_savepoint rt fs (InsertEvaluations (map snd rows)) ss = (ss1, r1)" by fastforce
  have f1: "tenant_frame rt t (ss_db ss) (ss_db ss1)"
    using in_savepoint_tenant [OF s] assms(1) by (simp add: list_all_iff split_beta)
  have "ss' = ss1 \<or> salvage_rows rt fs t rows ss1 = (ss', r)"
    using assms(2) s by (auto simp: persist_rows_def split: sum.splits option.splits)
  then show ?thesis using f1 tenant_frame_trans [OF f1 salvage_rows_tenant [OF assms(1)]] by blast
qed

lemma row_of_result_tenant [simp]: "er_tenant_id (row_of_result rt t eid r) = t"
  by (simp add: row_of_result_def)

lemma batch_persist_tenant:
  "batch_persist_evaluations rt fs t results ss = (ss', r) \<Longrightarrow> tenant_frame rt t (ss_db ss) (ss_db ss')"
proof (induction rt fs t results ss rule: batch_persist_evaluations.induct)
  case (1 rt fs t results ss)
  let ?rows = "map (\<lambda>(event_id, r). (event_id, row_of_result rt t event_id r)) (take BATCH_CHUNK_SIZE results)"
  show ?case
  proof (cases "results = []")
    case True
    then show ?thesis using 1(2) by (simp add: batch_persist_evaluations.simps)
  next
    case False
    obtain ss1 r1 where p: "persist_rows rt fs t ?rows ss = (ss1, r1)" by fastforce
    have f: "tenant_frame rt t (ss_db ss) (ss_db ss1)"
      by (rule persist_rows_tenant [OF _ p]) (simp add: list_all_iff split_beta)
    have "ss' = ss1 \<or> (\<exists>u. r1 = Inr u \<and> batch_persist_evaluations rt fs t (drop BATCH_CHUNK_SIZE results) ss1 = (ss', r))"
      using 1(2) False p by (auto simp: batch_persist_evaluations.simps [of rt fs t results] split: sum.splits)
    then show ?thesis
      using f 1(1) [OF False p [symmetric]] tenant_frame_trans by blast
  qed
qed

section \<open>The contract of the persistence methods\<close>

text \<open>
  A write that absorbs the failures of its statements: as long as savepoints can be opened it
  returns normally and leaves a usable transaction, and it stays within the tenant's frame
  however it ends.
\<close>

locale absorbing_write =
  fixes rt :: pyrt and fs :: faults and t :: string
    and op :: "session \<Rightarrow> session \<times> (py_error + unit)"
  assumes usable:
      "savepoints_open fs \<Longrightarrow> \<not> ss_aborted ss \<Longrightarrow> \<exists>ss'. op ss = (ss', Inr ()) \<and> \<not> ss_aborted ss'"
    and frame: "op ss = (ss', r) \<Longrightarrow> tenant_frame rt t (ss_db ss) (ss_db ss')"
begin

lemma on_engine_frame:
  assumes "en_session en = Some ss"
  shows "\<exists>ss'. en_session (fst (on_session en op)) = Some ss' \<and> tenant_frame rt t (ss_db ss) (ss_db ss')"
  using assms frame by (auto simp: on_session_def split: prod.splits)

lemma on_engine_usable:
  assumes "en_session en = Some ss" and "savepoints_open fs" and "\<not> ss_aborted ss"
  shows "\<exists>ss'. snd (on_session en op) = Inr () \<and> en_session (fst (on_session en op)) = Some ss' \<and>
               \<not> ss_aborted ss'"
  using usable [OF assms(2,3)] assms(1) by (auto simp: on_session_def)

end

lemma absorbing_best_effort: "stmt_of_tenant t st \<Longrightarrow> absorbing_write rt fs t (best_effort rt fs st)"
  by unfold_locales (metis best_effort_opens, metis best_effort_tenant)

interpretation deadletter: absorbing_write rt fs "er_tenant_id row" "write_evaluation_deadletter rt fs row msg"
  unfolding write_evaluation_deadletter_def by (rule absorbing_best_effort) simp

interpretation marker: absorbing_write rt fs t "mark_event_evaluation_error rt fs t eid msg"
  unfolding mark_event_evaluation_error_def by (rule absorbing_best_effort) simp

lemma verdict_params_tenant: "list_all (\<lambda>p. vp_tenant_id p = t) (verdict_params t vs)"
  by (auto simp: verdict_params_def list_all_iff)

interpretation verdicts: absorbing_write rt fs t "persist_event_verdicts rt fs t vs"
proof -
  have "absorbing_write rt fs t (best_effort rt fs (UpdateVerdicts (verdict_params t vs)))"
    by (rule absorbing_best_effort) (simp add: verdict_params_tenant)
  then show "absorbing_write rt fs t (persist_event_verdicts rt fs t vs)"
    by (auto simp: persist_event_verdicts_def Let_def absorbing_write_def)
qed

interpretation evaluations: absorbing_write rt fs t "persist_evaluations rt fs t eid results"
proof
  show "\<exists>ss'. persist_evaluations rt fs t eid results ss = (ss', Inr ()) \<and> \<not> ss_aborted ss'"
    if "savepoints_open fs" "\<not> ss_aborted ss" for ss
    using that persist_rows_opens [OF that] by (simp add: persist_evaluations_def)
  show "tenant_frame rt t (ss_db ss) (ss_db ss')" if "persist_evaluations rt fs t eid results ss = (ss', r)" for ss ss' r
    using that persist_rows_tenant [of t "map (\<lambda>r. (eid, row_of_result rt t eid r)) results" rt fs ss ss' r]
    by (auto simp: persist_evaluations_def list_all_iff split: if_splits)
qed

interpretation batch: absorbing_write rt fs t "batch_persist_evaluations rt fs t results"
  by unfold_locales (auto intro: batch_persist_opens batch_persist_tenant)

section \<open>Evaluation reads only\<close>

definition tables :: "engine \<Rightarrow> db option" where
  "tables en = map_option ss_db (en_session en)"

lemma tables_session: "tables en = Some d \<longleftrightarrow> (\<exists>ss. en_session en = Some ss \<and> ss_db ss = d)"
  by (auto simp: tables_def)

lemma load_active_rules_tables: "tables (fst (load_active_rules env en)) = tables en"
proof (cases "en_session en")
  case (Some ss)
  obtain ss1 r where ex: "execute (ee_rt env) (ee_faults env) SelectRules ss = (ss1, r)" by fastforce
  have "ss_db ss1 = ss_db ss"
    using ex execute_refused [of "ee_rt env" "ee_faults env" SelectRules ss ss1]
      execute_done [of "ee_rt env" "ee_faults env" SelectRules ss ss1]
    by (cases r) auto
  with Some ex show ?thesis
    by (auto simp: load_active_rules_def tables_def Let_def read_clock_def split: sum.splits)
qed (simp add: load_active_rules_def)

lemma get_applicable_rules_tables: "tables (fst (get_applicable_rules env en et rules c f)) = tables en"
proof -
  obtain en1 b where f: "is_cache_fresh env en = (en1, b)" by fastforce
  have "tables en1 = tables en"
    using f by (auto simp: is_cache_fresh_def read_clock_def tables_def split: option.splits if_splits)
  then show ?thesis
    using f load_active_rules_tables [of env en1]
    by (cases b) (auto simp: get_applicable_rules_def split: option.splits prod.splits)
qed

lemma prefetch_tables: "tables (fst (prefetch_related_events env en event rules tenant)) = tables en"
proof -
  have kept: "ss_db ss1 = ss_db ss"
    if "fetch_related_events (ee_rt env) (ee_faults env) ss tlc t x = (ss1, r)" for ss ss1 tlc t x r
    using fetch_tables_kept [of "ee_rt env" "ee_faults env" ss tlc t x] that by simp
  show ?thesis
    by (auto simp: prefetch_related_events_def Let_def tables_def kept
        split: option.splits sum.splits bool.splits prod.splits)
qed

lemma evaluate_single_rule_tables: "tables (fst (evaluate_single_rule env en event rule tenant rel)) = tables en"
proof -
  have kept: "ss_db ss1 = ss_db ss"
    if "lookup_kind (RELATIONAL_EVALUATORS (ee_rt env) (ee_faults env)) k = Some ev"
      and "ev uid event logic rule ss tenant rel = (ss1, r)" for k ev uid logic ss ss1 r
    using that RELATIONAL_contract lookup_kind_Some relational_contract.tables_kept by (metis fst_conv)
  show ?thesis
    by (auto simp: evaluate_single_rule_def Let_def tables_def dest: kept
        split: pyval.split option.split prod.split)
qed

lemma run_rules_tables: "tables (fst (run_rules env en event tenant rel rules s)) = tables en"
proof (induction rules arbitrary: en s)
  case (Cons rule rules)
  obtain en1 r where e: "evaluate_single_rule env en event rule tenant rel = (en1, r)" by fastforce
  then have "tables en1 = tables en" using evaluate_single_rule_tables by (metis fst_conv)
  then show ?case using e Cons.IH by (cases r) simp_all
qed simp

lemma evaluate_batch_event_tables: "tables (fst (evaluate_batch_event env en rules tenant event)) = tables en"
proof -
  obtain en1 r1 where a: "get_applicable_rules env en (dict_get event ''event_type'' (PStr [])) (Some rules)
      (get_ftl_category event) (is_ftl_food event) = (en1, r1)" by fastforce
  then have t1: "tables en1 = tables en" using get_applicable_rules_tables by (metis fst_conv)
  show ?thesis
  proof (cases r1)
    case (Inr ap)
    obtain en2 r2 where p: "prefetch_related_events env en1 event ap (Some tenant) = (en2, r2)" by fastforce
    then have "tables en2 = tables en" using t1 prefetch_tables by (metis fst_conv)
    with a p t1 Inr show ?thesis
      by (auto simp: evaluate_batch_event_def Let_def run_rules_tables split: sum.split)
  qed (use a t1 in \<open>simp add: evaluate_batch_event_def Let_def\<close>)
qed

lemma evaluate_batch_events_tables: "tables (fst (evaluate_batch_events env en rules tenant events)) = tables en"
proof (induction events arbitrary: en)
  case (Cons event events)
  obtain en1 r where e: "evaluate_batch_event env en rules tenant event = (en1, r)" by fastforce
  then have "tables en1 = tables en" using evaluate_batch_event_tables by (metis fst_conv)
  moreover have "fst (evaluate_batch_events env en rules tenant (event # events)) =
      (case r of Inl _ \<Rightarrow> en1 | Inr _ \<Rightarrow> fst (evaluate_batch_events env en1 rules tenant events))"
    using e by (auto split: sum.split prod.split)
  ultimately show ?case using Cons.IH by (simp split: sum.split)
qed simp

text \<open>The frame of an engine operation.\<close>

definition engine_frame :: "pyrt \<Rightarrow> string \<Rightarrow> engine \<Rightarrow> engine \<Rightarrow> bool" where
  "engine_frame rt t en en' \<longleftrightarrow>
     (\<forall>d. tables en = Some d \<longrightarrow> (\<exists>d'. tables en' = Some d' \<and> tenant_frame rt t d d'))"

lemma engine_frame_trans: "engine_frame rt t a b \<Longrightarrow> engine_frame rt t b c \<Longrightarrow> engine_frame rt t a c"
  unfolding engine_frame_def using tenant_frame_trans by blast

lemma engine_frame_tables: "tables b = tables a \<Longrightarrow> engine_frame rt t a b"
  by (auto simp: engine_frame_def)

lemma on_session_engine_frame:
  "absorbing_write rt fs t op \<Longrightarrow> engine_frame rt t en (fst (on_session en op))"
  unfolding engine_frame_def tables_session using absorbing_write.on_engine_frame by blast

lemma engine_persist_evaluations_frame:
  "engine_frame (ee_rt env) t en (fst (engine_persist_evaluations env en t eid results))"
  using on_session_engine_frame [OF evaluations.absorbing_write_axioms]
  by (auto simp: engine_persist_evaluations_def intro: engine_frame_tables)

lemma engine_persist_verdicts_frame:
  "engine_frame (ee_rt env) t en (fst (engine_persist_verdicts env en t vs))"
  using on_session_engine_frame [OF verdicts.absorbing_write_axioms]
  by (auto simp: engine_persist_verdicts_def intro: engine_frame_tables)

lemma persist_both_frame: "engine_frame (ee_rt env) t en (fst (persist_both env en t eid s))"
proof -
  obtain en1 r where e: "engine_persist_evaluations env en t eid (es_results s) = (en1, r)" by fastforce
  then have "engine_frame (ee_rt env) t en en1" using engine_persist_evaluations_frame by (metis fst_conv)
  then show ?thesis
    using e engine_frame_trans [OF _ engine_persist_verdicts_frame] by (cases r) (auto simp: persist_both_def)
qed

lemma persist_batch_frame: "engine_frame (ee_rt env) t en (fst (persist_batch env en t summaries))"
proof -
  let ?rs = "concat (map (\<lambda>s. map (Pair (es_event_id s)) (es_results s)) summaries)"
  obtain en1 r where e: "(if ?rs = [] then (en, Inr ())
      else on_session en (batch_persist_evaluations (ee_rt env) (ee_faults env) t ?rs)) = (en1, r)" by fastforce
  have "engine_frame (ee_rt env) t en en1"
  proof (cases "?rs = []")
    case True
    with e show ?thesis by (intro engine_frame_tables) simp
  next
    case False
    with e have "en1 = fst (on_session en (batch_persist_evaluations (ee_rt env) (ee_faults env) t ?rs))"
      by (simp only: if_False fst_conv)
    then show ?thesis using on_session_engine_frame [OF batch.absorbing_write_axioms] by blast
  qed
  then show ?thesis
    using engine_frame_trans [OF _ engine_persist_verdicts_frame]
    by (cases r) (simp_all only: persist_batch_def Let_def e prod.case sum.case fst_conv)
qed

section \<open>Properties\<close>

text \<open>
  Claim C12 (safety). Evaluating an event for a tenant, with or without persistence and
  however it ends, never changes the rule table or another tenant's event rows, never
  removes or alters a stored evaluation or dead letter, and every row it appends carries the
  authenticated tenant.
\<close>

theorem evaluate_event_tenant_frame:
  "engine_frame (ee_rt env) t en (fst (evaluate_event env en event persist (Some t)))"
proof -
  obtain en1 r1 where a: "get_applicable_rules env en (dict_get event ''event_type'' (PStr [])) None
      (get_ftl_category event) (is_ftl_food event) = (en1, r1)" by fastforce
  then have t1: "tables en1 = tables en" using get_applicable_rules_tables by (metis fst_conv)
  show ?thesis
  proof (cases r1)
    case (Inl e)
    then show ?thesis using a t1 by (simp add: evaluate_event_def Let_def engine_frame_tables)
  next
    case (Inr ap)
    obtain en2 r2 where p: "prefetch_related_events env en1 event ap (Some t) = (en2, r2)" by fastforce
    then have t2: "tables en2 = tables en" using t1 prefetch_tables by (metis fst_conv)
    show ?thesis
    proof (cases r2)
      case (Inl e)
      then show ?thesis
        using a p t1 t2 Inr engine_frame_trans [OF engine_frame_tables [OF t1] engine_persist_verdicts_frame]
        by (auto simp: evaluate_event_def Let_def then_return_def engine_frame_tables)
    next
      case (Inr rel)
      obtain en3 r3 where rr: "run_rules env en2 event (Some t) rel ap
          (new_summary (dict_get event ''event_id'' (PStr [])) (length ap)) = (en3, r3)" by fastforce
      then have t3: "tables en3 = tables en" using t2 run_rules_tables by (metis fst_conv)
      show ?thesis
        using a p rr t1 t3 \<open>r1 = Inr ap\<close> Inr
          engine_frame_trans [OF engine_frame_tables [OF t1] engine_persist_verdicts_frame]
          engine_frame_trans [OF engine_frame_tables [OF t3] persist_both_frame]
        by (auto simp: evaluate_event_def Let_def then_return_def engine_frame_tables split: sum.split)
    qed
  qed
qed

text \<open>The same holds of a whole batch.\<close>

theorem evaluate_events_batch_tenant_frame:
  "engine_frame (ee_rt env) t en (fst (evaluate_events_batch env en events t persist))"
proof -
  obtain en1 r1 where l: "load_active_rules env en = (en1, r1)" by fastforce
  then have t1: "tables en1 = tables en" using load_active_rules_tables by (metis fst_conv)
  show ?thesis
  proof (cases r1)
    case (Inr rules)
    obtain en2 r2 where b: "evaluate_batch_events env en1 rules t events = (en2, r2)" by fastforce
    then have "tables en2 = tables en" using t1 evaluate_batch_events_tables by (metis fst_conv)
    then show ?thesis
      using l b Inr engine_frame_trans [OF engine_frame_tables persist_batch_frame]
      by (auto simp: evaluate_events_batch_def then_return_def engine_frame_tables split: sum.split)
  qed (use l t1 in \<open>auto simp: evaluate_events_batch_def engine_frame_tables\<close>)
qed

text \<open>
  Failures of evaluation writes are absorbed: in a usable transaction
  whose savepoints can be opened, persisting a summary returns normally, whatever statements
  the database refuses, and leaves the transaction usable for the caller.
\<close>

theorem persist_summary_absorbs_failures:
  assumes "en_session en = Some ss" and "\<not> ss_aborted ss" and "savepoints_open (ee_faults env)"
    and "truthy (py_or event_id (es_event_id s))"
  shows "\<exists>en' ss'. persist_summary env en s tenant event_id = (en', Inr ()) \<and> en_session en' = Some ss' \<and>
                  \<not> ss_aborted ss'"
proof -
  let ?eid = "py_or event_id (es_event_id s)"
  obtain en1 ss1 where e1: "engine_persist_evaluations env en tenant ?eid (es_results s) = (en1, Inr ())"
    and s1: "en_session en1 = Some ss1" "\<not> ss_aborted ss1"
  proof (cases "es_results s = []")
    case True
    then show thesis using that assms by (simp add: engine_persist_evaluations_def)
  next
    case False
    then show thesis
      using that evaluations.on_engine_usable [OF assms(1,3,2)]
      by (metis engine_persist_evaluations_def prod.collapse)
  qed
  obtain en2 ss2 where e2: "engine_persist_verdicts env en1 tenant [(?eid, s)] = (en2, Inr ())"
    and s2: "en_session en2 = Some ss2" "\<not> ss_aborted ss2"
  proof (cases "verdict_params tenant [(?eid, s)] = []")
    case True
    then show thesis using that s1 by (simp add: engine_persist_verdicts_def)
  next
    case False
    then show thesis
      using that verdicts.on_engine_usable [OF s1(1) assms(3) s1(2)]
      by (metis engine_persist_verdicts_def prod.collapse)
  qed
  have "persist_summary env en s tenant event_id = (en2, Inr ())"
    using assms(4) e1 e2 by (simp add: persist_summary_def persist_both_def Let_def)
  with s2 show ?thesis by blast
qed

theorem persist_summary_absorbs_failures_witness:
  "\<exists>en' ss'. persist_summary (sample_env\<lparr>ee_faults := \<lambda>_ st _. case st of Savepoint \<Rightarrow> None | _ \<Rightarrow> Some ''down''\<rparr>)
       (sample_engine [] []) (new_summary (PStr ''e1'') 1) ''A'' PNone = (en', Inr ()) \<and>
     en_session en' = Some ss' \<and> \<not> ss_aborted ss'"
proof (rule persist_summary_absorbs_failures)
  show "en_session (sample_engine [] []) = Some (sample_session [])"
    by (simp add: sample_engine_def init_engine_def sample_session_def)
qed (simp_all add: sample_session_def savepoints_open_def py_or_def)

text \<open>The dead-letter table takes every row, and a released savepoint stays released.\<close>

definition deadletter_accepts :: "faults \<Rightarrow> bool" where
  "deadletter_accepts fs \<longleftrightarrow>
     (\<forall>n r m d. fs n (InsertDeadletter r m) d = None) \<and> (\<forall>n d. fs n ReleaseSavepoint d = None)"

lemma deadletter_write:
  assumes "savepoints_open fs" and "deadletter_accepts fs" and "rt_pg_uuid rt (er_tenant_id row) \<noteq> None"
    and "\<not> ss_aborted ss"
  obtains ss' where "write_evaluation_deadletter rt fs row msg ss = (ss', Inr ())" and "\<not> ss_aborted ss'"
    and "ss_db ss' = (ss_db ss)\<lparr>db_deadletter := db_deadletter (ss_db ss) @ [(row, msg)]\<rparr>"
proof -
  obtain ss' r where s: "in_savepoint rt fs (InsertDeadletter row msg) ss = (ss', r)" by fastforce
  from s show thesis
  proof (cases rule: in_savepoint_cases)
    case (unopened e)
    then show thesis using in_savepoint_opens [OF assms(1,4) s] by simp
  next
    case committed
    then show thesis
      using that s by (simp add: write_evaluation_deadletter_def best_effort_def)
  next
    case (rolled_back e)
    then show thesis
      using s assms
      by (auto simp: in_savepoint_def execute_def refused_def savepoints_open_def deadletter_accepts_def
          split: prod.splits sum.splits option.splits if_splits)
  qed
qed

text \<open>The rows that are stored and those that are dead-lettered, together with what was there.\<close>

definition rows_conserved :: "eval_row list \<Rightarrow> db \<Rightarrow> db \<Rightarrow> bool" where
  "rows_conserved rows d d' \<longleftrightarrow>
     (\<exists>kept lost. db_rule_evaluations d' = db_rule_evaluations d @ kept \<and>
        map fst (db_deadletter d') = map fst (db_deadletter d) @ lost \<and> mset kept + mset lost = mset rows)"

lemma rows_conserved_step:
  assumes "rows_conserved rows d1 d2"
    and "db_rule_evaluations d1 = db_rule_evaluations d @ kept \<and> db_deadletter d1 = db_deadletter d \<and> kept = [row]
       \<or> db_rule_evaluations d1 = db_rule_evaluations d \<and> map fst (db_deadletter d1) = map fst (db_deadletter d) @ [row]"
  shows "rows_conserved (row # rows) d d2"
proof -
  obtain k l where "db_rule_evaluations d2 = db_rule_evaluations d1 @ k"
    "map fst (db_deadletter d2) = map fst (db_deadletter d1) @ l" "mset k + mset l = mset rows"
    using assms(1) by (auto simp: rows_conserved_def)
  with assms(2) show ?thesis
    unfolding rows_conserved_def
    by (elim disjE; intro exI [of _ "if db_rule_evaluations d1 = db_rule_evaluations d then k else row # k"]
        exI [of _ "if db_rule_evaluations d1 = db_rule_evaluations d then row # l else l"]) auto
qed

lemma salvage_rows_conserved:
  assumes "savepoints_open fs" and "deadletter_accepts fs"
    and "list_all (\<lambda>(_, r). rt_pg_uuid rt (er_tenant_id r) \<noteq> None) rows" and "\<not> ss_aborted ss"
    and "salvage_rows rt fs t rows ss = (ss', r)"
  shows "rows_conserved (map snd rows) (ss_db ss) (ss_db ss')"
  using assms(3-5)
proof (induction rows arbitrary: ss)
  case Nil
  then show ?case by (simp add: rows_conserved_def)
next
  case (Cons er rows)
  obtain eid row where er: "er = (eid, row)" by (cases er)
  have row: "rt_pg_uuid rt (er_tenant_id row) \<noteq> None"
    and rows: "list_all (\<lambda>(_, r). rt_pg_uuid rt (er_tenant_id r) \<noteq> None) rows"
    using Cons.prems(1) er by simp_all
  obtain ss1 r1 where s: "in_savepoint rt fs (InsertEvaluations [row]) ss = (ss1, r1)" by fastforce
  from s show ?case
  proof (cases rule: in_savepoint_cases)
    case (unopened e)
    then show ?thesis using in_savepoint_opens [OF assms(1) Cons.prems(2) s] by simp
  next
    case committed
    then have "salvage_rows rt fs t rows ss1 = (ss', r)" using Cons.prems(3) er s by simp
    from Cons.IH [OF rows committed(3) this] show ?thesis
      using committed er by (auto intro: rows_conserved_step)
  next
    case (rolled_back e)
    obtain ss2 r2 where m: "in_savepoint rt fs (UpdateError t eid (rt_err_str rt e)) ss1 = (ss2, r2)" by fastforce
    with in_savepoint_opens [OF assms(1) rolled_back(3) m] have m': "isl r2 = False" "\<not> ss_aborted ss2" by simp_all
    have d2: "db_rule_evaluations (ss_db ss2) = db_rule_evaluations (ss_db ss)"
      "db_deadletter (ss_db ss2) = db_deadletter (ss_db ss)"
      using m rolled_back(2) by (auto elim!: in_savepoint_cases)
    obtain ss3 where w: "write_evaluation_deadletter rt fs row (rt_err_str rt e) ss2 = (ss3, Inr ())"
      "\<not> ss_aborted ss3"
      "ss_db ss3 = (ss_db ss2)\<lparr>db_deadletter := db_deadletter (ss_db ss2) @ [(row, rt_err_str rt e)]\<rparr>"
      using deadletter_write [OF assms(1,2) row m'(2)] by blast
    have "salvage_rows rt fs t rows ss3 = (ss', r)"
      using Cons.prems(3) er s rolled_back m m' w
      by (cases r2) (auto simp: mark_event_evaluation_error_def best_effort_def)
    from Cons.IH [OF rows w(2) this] show ?thesis
      using w(3) d2 er by (auto intro: rows_conserved_step)
  qed
qed

text \<open>
  Claim C3 (safety). No evaluation row is lost or duplicated: when savepoints can be opened, no release of a savepoint
  is refused and the dead-letter table accepts writes, then after persisting an event's results each row
  is, with multiplicity, either among the stored evaluations or in the dead-letter table, and
  nothing else was added; this holds whichever inserts and updates the database refuses.
\<close>

theorem persist_evaluations_loses_nothing:
  assumes "savepoints_open fs" and "deadletter_accepts fs" and "rt_pg_uuid rt tenant \<noteq> None"
    and "\<not> ss_aborted ss" and "persist_evaluations rt fs tenant event_id results ss = (ss', r)"
  shows "r = Inr () \<and> rows_conserved (map (row_of_result rt tenant event_id) results) (ss_db ss) (ss_db ss')"
proof (cases "results = []")
  case True
  then show ?thesis using assms(5) by (simp add: persist_evaluations_def rows_conserved_def)
next
  case False
  let ?rows = "map (\<lambda>r. (event_id, row_of_result rt tenant event_id r)) results"
  have p: "persist_rows rt fs tenant ?rows ss = (ss', r)"
    using assms(5) False by (simp add: persist_evaluations_def)
  obtain ss1 r1 where s: "in_savepoint rt fs (InsertEvaluations (map snd ?rows)) ss = (ss1, r1)" by fastforce
  from s have "rows_conserved (map snd ?rows) (ss_db ss) (ss_db ss')"
  proof (cases rule: in_savepoint_cases)
    case (unopened e)
    then show ?thesis using in_savepoint_opens [OF assms(1,4) s] by simp
  next
    case committed
    then show ?thesis using p s by (auto simp: persist_rows_def rows_conserved_def)
  next
    case (rolled_back e)
    then have "salvage_rows rt fs tenant ?rows ss1 = (ss', r)" using p s by (simp add: persist_rows_def)
    moreover have "list_all (\<lambda>(_, r). rt_pg_uuid rt (er_tenant_id r) \<noteq> None) ?rows"
      using assms(3) by (simp add: list_all_iff)
    ultimately show ?thesis
      using salvage_rows_conserved [OF assms(1,2)] rolled_back(2,3) by metis
  qed
  moreover have "r = Inr ()" using persist_rows_opens [OF assms(1,4)] p by (metis prod.inject)
  ultimately show ?thesis by (simp add: comp_def)
qed

theorem persist_evaluations_loses_nothing_witness:
  "rows_conserved [row_of_result example_rt ''A'' (PStr ''e1'') (error_result ''u'' sample_rule ''boom'')]
     (ss_db (sample_session []))
     (ss_db (fst (persist_evaluations example_rt (\<lambda>_ st _. case st of InsertEvaluations _ \<Rightarrow> Some ''constraint'' | _ \<Rightarrow> None)
        ''A'' (PStr ''e1'') [error_result ''u'' sample_rule ''boom''] (sample_session []))))"
proof -
  let ?fs = "\<lambda>(_ :: nat) st (_ :: db). case st of InsertEvaluations _ \<Rightarrow> Some ''constraint'' | _ \<Rightarrow> None"
  have "savepoints_open ?fs" "deadletter_accepts ?fs" "rt_pg_uuid example_rt ''A'' \<noteq> None"
    "\<not> ss_aborted (sample_session [])"
    by (simp_all add: savepoints_open_def deadletter_accepts_def example_rt_def sample_session_def)
  note rule = persist_evaluations_loses_nothing [OF this]
  obtain ss' r where p: "persist_evaluations example_rt ?fs ''A'' (PStr ''e1'')
      [error_result ''u'' sample_rule ''boom''] (sample_session []) = (ss', r)" by fastforce
  from rule [OF p] show ?thesis by (simp only: p fst_conv list.map)
qed

lemma in_savepoint_commits:
  assumes "\<And>n d. fs n Savepoint d = None" and "\<And>n d. fs n st d = None" and "\<And>n d. fs n ReleaseSavepoint d = None"
    and "\<not> bad_uuid rt st" and "\<not> ss_aborted ss" and "in_savepoint rt fs st ss = (ss', r)"
  shows "r = Inr None \<and> ss_db ss' = apply_stmt rt (ss_now ss) st (ss_db ss)"
  using assms by (auto simp: in_savepoint_def execute_def refused_def)

text \<open>
  When the database accepts the update, stamping the verdict of one
  event sets exactly the verdict and the reason of the summary on the row of that event and
  tenant, and changes no other row.
\<close>

theorem persist_event_verdicts_stamps:
  assumes "\<And>n st d. fs n st d = None" and "\<not> ss_aborted ss" and "truthy eid"
    and "uuid_param rt eid = Some v" and "rt_pg_uuid rt t = Some u"
    and "persist_event_verdicts rt fs t [(eid, s)] ss = (ss', r)"
  shows "r = Inr () \<and>
         db_traceability_events (ss_db ss') =
           map (\<lambda>row. if te_tenant_id row = u \<and> te_event_id row = v
                      then row\<lparr>te_evaluation_verdict := Some (verdict s), te_no_verdict_reason := verdict_reason s,
                               te_evaluated_at := Some (ss_now ss)\<rparr>
                      else row) (db_traceability_events (ss_db ss))"
proof -
  let ?st = "UpdateVerdicts (verdict_params t [(eid, s)])"
  obtain ss1 r1 where i: "in_savepoint rt fs ?st ss = (ss1, r1)" by fastforce
  have "\<not> bad_uuid rt ?st" using assms(3-5) by (simp add: verdict_params_def)
  from in_savepoint_commits [OF assms(1,1,1) this assms(2) i]
  have c: "r1 = Inr None" "ss_db ss1 = apply_stmt rt (ss_now ss) ?st (ss_db ss)" by simp_all
  with i assms(3,6) have "ss' = ss1" "r = Inr ()"
    by (auto simp: persist_event_verdicts_def verdict_params_def best_effort_def)
  with c show ?thesis
    using assms(3-5) by (auto simp: verdict_params_def stamp_verdict_def row_of_event_def uuid_param_def)
qed

theorem persist_event_verdicts_stamps_witness:
  "map te_evaluation_verdict (db_traceability_events (ss_db (fst
     (persist_event_verdicts example_rt (\<lambda>_ _ _. None) ''A'' [(PStr ''e1'', new_summary (PStr ''e1'') 0)]
        (sample_session [sample_row ''A'' ''e1'', sample_row ''B'' ''e1'']))))) = [Some ''no_verdict'', None]"
proof -
  let ?ss = "sample_session [sample_row ''A'' ''e1'', sample_row ''B'' ''e1'']"
  obtain ss' r where p: "persist_event_verdicts example_rt (\<lambda>_ _ _. None) ''A''
      [(PStr ''e1'', new_summary (PStr ''e1'') 0)] ?ss = (ss', r)" by fastforce
  have "\<not> ss_aborted ?ss" "truthy (PStr ''e1'')" "uuid_param example_rt (PStr ''e1'') = Some ''e1''"
    "rt_pg_uuid example_rt ''A'' = Some ''A''"
    by (simp_all add: sample_session_def uuid_param_def example_rt_def)
  note stamped = persist_event_verdicts_stamps [OF refl this p, THEN conjunct2]
  show ?thesis
    unfolding p fst_conv stamped by (simp add: sample_session_def sample_row_def verdict_def compliant_def)
qed

text \<open>
  A pre-fetch of related events that the database refuses is swallowed, but
  it leaves the transaction aborted, since it runs outside any savepoint: persisting any
  result afterwards raises instead of being absorbed.
\<close>

theorem failed_prefetch_poisons_persistence:
  assumes "en_session en = Some ss" and "t \<noteq> []"
    and "dict_get event ''traceability_lot_code'' (PStr []) = PStr lot" and "lot \<noteq> []"
    and "any_err (is_relational_rule env) rules = Inr True"
    and "dict_get event ''event_id'' (PStr []) = PStr eid" and "eid \<noteq> []"
    and "refused (ee_rt env) (ee_faults env) (SelectRelated lot t (Some eid)) ss = Some msg"
    and "results \<noteq> []"
  shows "\<exists>en' e. prefetch_related_events env en event rules (Some t) = (en', Inr None) \<and>
           snd (engine_persist_evaluations env en' t (PStr eid) results) = Inl (DBAPIError e)"
proof -
  let ?ss1 = "tick ss\<lparr>ss_aborted := True\<rparr>"
  have "prefetch_related_events env en event rules (Some t) = (en\<lparr>en_session := Some ?ss1\<rparr>, Inr None)"
    using assms by (simp add: prefetch_related_events_def fetch_related_events_def execute_def)
  moreover have "\<exists>e. snd (engine_persist_evaluations env (en\<lparr>en_session := Some ?ss1\<rparr>) t (PStr eid) results) =
      Inl (DBAPIError e)"
    using assms(9)
    by (simp add: engine_persist_evaluations_def on_session_def persist_evaluations_def persist_rows_def
        in_savepoint_def execute_def refused_def)
  ultimately show ?thesis by blast
qed

theorem failed_prefetch_poisons_persistence_witness:
  "\<exists>en' e. prefetch_related_events
       (sample_env\<lparr>ee_faults := \<lambda>_ st _. case st of SelectRelated _ _ _ \<Rightarrow> Some ''timeout'' | _ \<Rightarrow> None\<rparr>)
       (sample_engine [] []) [(''traceability_lot_code'', PStr ''L1''), (''event_id'', PStr ''e1'')]
       [sample_rule\<lparr>rd_evaluation_logic := PDict [(''type'', PStr ''mass_balance'')]\<rparr>] (Some ''A'') = (en', Inr None) \<and>
     snd (engine_persist_evaluations
       (sample_env\<lparr>ee_faults := \<lambda>_ st _. case st of SelectRelated _ _ _ \<Rightarrow> Some ''timeout'' | _ \<Rightarrow> None\<rparr>)
       en' ''A'' (PStr ''e1'') [error_result ''u'' sample_rule ''boom'']) = Inl (DBAPIError e)"
proof (rule failed_prefetch_poisons_persistence)
  show "en_session (sample_engine [] []) = Some (sample_session [])"
    by (simp add: sample_engine_def init_engine_def sample_session_def)
  show "any_err (is_relational_rule
      (sample_env\<lparr>ee_faults := \<lambda>_ st _. case st of SelectRelated _ _ _ \<Rightarrow> Some ''timeout'' | _ \<Rightarrow> None\<rparr>))
      [sample_rule\<lparr>rd_evaluation_logic := PDict [(''type'', PStr ''mass_balance'')]\<rparr>] = Inr True"
    by (simp add: is_relational_rule_def py_or_def lookup_kind_def RELATIONAL_EVALUATORS_def)
  show "refused (ee_rt (sample_env\<lparr>ee_faults := \<lambda>_ st _. case st of SelectRelated _ _ _ \<Rightarrow> Some ''timeout'' | _ \<Rightarrow> None\<rparr>))
      (ee_faults (sample_env\<lparr>ee_faults := \<lambda>_ st _. case st of SelectRelated _ _ _ \<Rightarrow> Some ''timeout'' | _ \<Rightarrow> None\<rparr>))
      (SelectRelated ''L1'' ''A'' (Some ''e1'')) (sample_session []) = Some ''timeout''"
    by (simp add: refused_def sample_session_def sample_env_def example_rt_def)
qed simp_all

end
