(* ===== verification/Enforcement.thy ===== *)
theory Enforcement
  imports RulesEngine
begin

text \<open>
  \<^verbatim>\<open>services/shared/rules/enforcement.py\<close>: the decision to reject an event on its evaluation
  summary, under the mode of the environment variable \<open>RULES_ENGINE_ENFORCE\<close>. The module's
  process-wide state (modes already reported, tenants already warned, the no-verdict counter)
  is explicit; what it reads from its surroundings is the record \<open>surroundings\<close>.
\<close>

section \<open>State and surroundings\<close>

definition mode_off :: string where "mode_off = ''off''"
definition mode_cte_only :: string where "mode_cte_only = ''cte_only''"
definition mode_all :: string where "mode_all = ''all''"

definition VALID_MODES :: "string list" where
  "VALID_MODES = [mode_off, mode_cte_only, mode_all]"

text \<open>
  The variable, what the tenant context answers, and whether the metrics client takes an
  increment.
\<close>

record surroundings =
  su_enforce :: "string option"
  su_rls_tenant :: "py_error + pyval"
  su_metrics_ok :: bool

record enforcement_state =
  ef_reported_invalid_modes :: "string list"
  ef_no_verdict_warned :: "(string \<times> string) list"
  ef_no_verdict_accepted :: "(string \<times> string) list"

section \<open>Operations\<close>

definition current_mode :: "surroundings \<Rightarrow> enforcement_state \<Rightarrow> enforcement_state \<times> string" where
  "current_mode su st =
     (let raw = py_lower (py_strip (case su_enforce su of None \<Rightarrow> mode_off | Some v \<Rightarrow> v))
      in if raw = [] then (st, mode_off)
         else if raw \<notin> set VALID_MODES then
           (if raw \<in> set (ef_reported_invalid_modes st) then st
            else st\<lparr>ef_reported_invalid_modes := ef_reported_invalid_modes st @ [raw]\<rparr>, mode_all)
         else (st, raw))"

definition record_no_verdict_accept ::
  "pyrt \<Rightarrow> surroundings \<Rightarrow> string \<Rightarrow> enforcement_state \<Rightarrow> enforcement_state" where
  "record_no_verdict_accept rt su mode st =
     (let tenant = (case su_rls_tenant su of Inl _ \<Rightarrow> ''unknown'' | Inr v \<Rightarrow> py_str rt (py_or v (PStr ''unknown'')));
          st1 = (if su_metrics_ok su
                 then st\<lparr>ef_no_verdict_accepted := ef_no_verdict_accepted st @ [(mode, tenant)]\<rparr> else st)
      in if (tenant, mode) \<in> set (ef_no_verdict_warned st1) then st1
         else st1\<lparr>ef_no_verdict_warned := ef_no_verdict_warned st1 @ [(tenant, mode)]\<rparr>)"

definition first_failure_reason :: "EvaluationSummary \<Rightarrow> string" where
  "first_failure_reason s =
     (let candidates = (if es_critical_failures s \<noteq> [] then es_critical_failures s else es_results s)
      in case find (\<lambda>r. rr_result r = ''fail'' \<or> rr_result r = ''error'') candidates of
           None \<Rightarrow> ''rule_violation''
         | Some r \<Rightarrow> (if rr_rule_id r = [] then ''unknown_rule'' else rr_rule_id r) @ '': '' @
                     str_or (rr_why_failed r) ''failed'')"

definition should_reject ::
  "pyrt \<Rightarrow> surroundings \<Rightarrow> enforcement_state \<Rightarrow> EvaluationSummary \<Rightarrow>
   enforcement_state \<times> bool \<times> string option" where
  "should_reject rt su st s =
     (case current_mode su st of
        (st1, mode) \<Rightarrow>
          if mode = mode_off then (st1, False, None)
          else if compliant s = None then (record_no_verdict_accept rt su mode st1, False, None)
          else if mode = mode_cte_only then
            (if es_critical_failures s \<noteq> [] then (st1, True, Some (first_failure_reason s))
             else (st1, False, None))
          else if mode = mode_all then
            (if compliant s = Some False then (st1, True, Some (first_failure_reason s))
             else (st1, False, None))
          else (st1, False, None))"

definition handle_preeval_exception ::
  "surroundings \<Rightarrow> enforcement_state \<Rightarrow> py_error \<Rightarrow> string \<Rightarrow> enforcement_state \<times> (py_error + unit)" where
  "handle_preeval_exception su st err loc =
     (case current_mode su st of
        (st1, mode) \<Rightarrow>
          if mode = mode_off then (st1, Inr ())
          else (st1, Inl (HTTPException 500 ''RULES_ENGINE_EVAL_FAILED'')))"

section \<open>Facts\<close>

lemma modes_distinct [simp]:
  "mode_off \<noteq> mode_cte_only" "mode_off \<noteq> mode_all" "mode_cte_only \<noteq> mode_all"
  "mode_cte_only \<noteq> mode_off" "mode_all \<noteq> mode_off" "mode_all \<noteq> mode_cte_only"
  by (simp_all add: mode_off_def mode_cte_only_def mode_all_def)

text \<open>The mode as a function of the variable alone.\<close>

definition mode_of :: "string option \<Rightarrow> string" where
  "mode_of v =
     (let raw = py_lower (py_strip (case v of None \<Rightarrow> mode_off | Some s \<Rightarrow> s))
      in if raw = [] then mode_off else if raw \<in> set VALID_MODES then raw else mode_all)"

lemma current_mode_mode: "snd (current_mode su st) = mode_of (su_enforce su)"
  by (simp add: current_mode_def mode_of_def Let_def)

lemma mode_of_valid: "mode_of v = mode_off \<or> mode_of v = mode_cte_only \<or> mode_of v = mode_all"
  by (auto simp: mode_of_def Let_def VALID_MODES_def)

lemma tallied_critical_not_compliant:
  assumes "tallied s" and "es_critical_failures s \<noteq> []" and "compliant s \<noteq> None"
  shows "compliant s = Some False"
proof -
  obtain r where "r \<in> set (es_results s)" and "rr_result r = ''fail'' \<or> rr_result r = ''error''"
    using assms(1,2) by (auto simp: tallied_def filter_empty_conv)
  then have "count_result ''fail'' (es_results s) \<noteq> 0 \<or> count_result ''error'' (es_results s) \<noteq> 0"
    unfolding count_result_0 list_all_iff by blast
  then have "0 < es_failed s \<or> 0 < es_errored s" using assms(1) by (simp add: tallied_def)
  then show ?thesis using assms(3) by (auto simp: compliant_def split: if_splits)
qed

lemma should_reject_by_mode:
  "fst (snd (should_reject rt su st s)) \<longleftrightarrow>
     mode_of (su_enforce su) = mode_cte_only \<and> compliant s \<noteq> None \<and> es_critical_failures s \<noteq> [] \<or>
     mode_of (su_enforce su) = mode_all \<and> compliant s = Some False"
proof -
  obtain st1 m where c: "current_mode su st = (st1, m)" by fastforce
  then have "m = mode_of (su_enforce su)" using current_mode_mode by (metis snd_conv)
  then show ?thesis using c by (auto simp: should_reject_def)
qed

section \<open>Properties\<close>

text \<open>
  The reject decision depends only on the mode and the summary: the
  mode \<open>off\<close> never rejects, a no-verdict summary is never rejected, \<open>cte_only\<close> rejects exactly
  the judged summaries with a critical failure, \<open>all\<close> exactly the non-compliant ones. Metrics,
  tenant lookup and what was logged before have no influence.
\<close>

theorem should_reject_iff:
  "fst (snd (should_reject rt su st s)) \<longleftrightarrow>
     compliant s \<noteq> None \<and>
     (mode_of (su_enforce su) = mode_cte_only \<and> es_critical_failures s \<noteq> [] \<or>
      mode_of (su_enforce su) = mode_all \<and> compliant s = Some False)"
  unfolding should_reject_by_mode by auto

text \<open>
  The modes are ordered: on a summary of the engine, whatever \<open>cte_only\<close>
  rejects, \<open>all\<close> rejects too.
\<close>

theorem cte_only_rejects_less:
  assumes "evaluate_event env en event persist tenant = (en', Inr s)"
    and "mode_of (su_enforce su1) = mode_cte_only" and "mode_of (su_enforce su2) = mode_all"
    and "fst (snd (should_reject rt su1 st1 s))"
  shows "fst (snd (should_reject rt su2 st2 s))"
proof -
  have "tallied s" using assms(1) by (cases rule: evaluate_event_cases) simp_all
  moreover have "es_critical_failures s \<noteq> [] \<and> compliant s \<noteq> None"
    using assms(2,4) by (auto simp: should_reject_by_mode)
  ultimately have "compliant s = Some False" using tallied_critical_not_compliant by blast
  then show ?thesis using assms(3) by (simp add: should_reject_by_mode)
qed

definition enforcing :: "string \<Rightarrow> surroundings" where
  "enforcing v = \<lparr>su_enforce = Some v, su_rls_tenant = Inr PNone, su_metrics_ok = True\<rparr>"

definition fresh_state :: enforcement_state where
  "fresh_state = \<lparr>ef_reported_invalid_modes = [], ef_no_verdict_warned = [], ef_no_verdict_accepted = []\<rparr>"

theorem cte_only_rejects_less_witness:
  "\<exists>s. snd (evaluate_event sample_env (sample_engine [sample_rule] []) sample_event False (Some ''A'')) = Inr s \<and>
       fst (snd (should_reject example_rt (enforcing ''ALL'') fresh_state s))"
proof -
  have "run_ok (evaluate_event sample_env (sample_engine [sample_rule] []) sample_event False (Some ''A''))
      (\<lambda>s. fst (snd (should_reject example_rt (enforcing ''cte_only'') fresh_state s)))"
    by code_simp
  then obtain en' s where run: "evaluate_event sample_env (sample_engine [sample_rule] []) sample_event False
      (Some ''A'') = (en', Inr s)"
    and r: "fst (snd (should_reject example_rt (enforcing ''cte_only'') fresh_state s))"
    by (rule run_okE)
  have "mode_of (su_enforce (enforcing ''cte_only'')) = mode_cte_only" by code_simp
  moreover have "mode_of (su_enforce (enforcing ''ALL'')) = mode_all" by code_simp
  ultimately show ?thesis using cte_only_rejects_less [OF run _ _ r] run by fastforce
qed

text \<open>
  A rejection of an engine summary is always explained by a result:
  the reason names the rule and the explanation of some result that failed or errored, never
  the generic fallback.
\<close>

theorem rejection_names_a_failure:
  assumes "evaluate_event env en event persist tenant = (en', Inr s)"
    and "should_reject rt su st s = (st', True, reason)"
  shows "\<exists>r \<in> set (es_results s). (rr_result r = ''fail'' \<or> rr_result r = ''error'') \<and>
           reason = Some ((if rr_rule_id r = [] then ''unknown_rule'' else rr_rule_id r) @ '': '' @
                          str_or (rr_why_failed r) ''failed'')"
proof -
  have t: "tallied s" using assms(1) by (cases rule: evaluate_event_cases) simp_all
  have rej: "es_critical_failures s \<noteq> [] \<or> compliant s = Some False"
    using assms(2) should_reject_by_mode [of rt su st s] by auto
  let ?bad = "\<lambda>r. rr_result r = ''fail'' \<or> rr_result r = ''error''"
  let ?cs = "if es_critical_failures s \<noteq> [] then es_critical_failures s else es_results s"
  have crit: "set (es_critical_failures s) \<subseteq> {r \<in> set (es_results s). ?bad r}"
    using t by (auto simp: tallied_def)
  have "\<exists>r \<in> set ?cs. ?bad r"
  proof (cases "es_critical_failures s = []")
    case True
    with rej have "es_failed s \<noteq> 0 \<or> es_errored s \<noteq> 0" by (auto simp: compliant_False_iff)
    with t True show ?thesis by (auto simp: tallied_def count_result_0 list_all_iff)
  next
    case False
    with crit show ?thesis by (cases "es_critical_failures s") auto
  qed
  then have "find ?bad ?cs \<noteq> None" unfolding find_None_iff by blast
  then obtain r where f: "find ?bad ?cs = Some r" by blast
  then have "r \<in> set ?cs" and "?bad r" by (auto simp: find_Some_iff in_set_conv_nth)
  then have "r \<in> set (es_results s)" using crit by (auto split: if_splits)
  moreover have "reason = Some (first_failure_reason s)"
    using assms(2) by (auto simp: should_reject_def split: prod.splits if_splits)
  ultimately show ?thesis
    using f \<open>?bad r\<close> unfolding first_failure_reason_def Let_def by (intro bexI [of _ r]) simp_all
qed

theorem rejection_names_a_failure_witness:
  "\<exists>s reason. snd (evaluate_event sample_env (sample_engine [sample_rule] []) sample_event False (Some ''A'')) = Inr s \<and>
     snd (should_reject example_rt (enforcing ''all'') fresh_state s) = (True, reason) \<and> reason \<noteq> None"
proof -
  have "run_ok (evaluate_event sample_env (sample_engine [sample_rule] []) sample_event False (Some ''A''))
      (\<lambda>s. fst (snd (should_reject example_rt (enforcing ''all'') fresh_state s)))"
    by code_simp
  then obtain en' s where run: "evaluate_event sample_env (sample_engine [sample_rule] []) sample_event False
      (Some ''A'') = (en', Inr s)"
    and r: "fst (snd (should_reject example_rt (enforcing ''all'') fresh_state s))"
    by (rule run_okE)
  then obtain st' reason where sr: "should_reject example_rt (enforcing ''all'') fresh_state s = (st', True, reason)"
    by (metis (full_types) prod.collapse)
  from rejection_names_a_failure [OF run sr] run sr show ?thesis by auto
qed

text \<open>
  A value of the variable that is set, not blank and not a known mode
  enforces the strictest mode, so a typing error never disables the gate: non-compliant
  summaries are rejected, and a crashed pre-evaluation is refused with status 500.
\<close>

theorem unknown_mode_fails_closed:
  assumes "su_enforce su = Some v" and "py_strip v \<noteq> []"
    and "py_lower (py_strip v) \<notin> {''off'', ''cte_only'', ''all''}"
  shows "(compliant s = Some False \<longrightarrow> fst (snd (should_reject rt su st s))) \<and>
         snd (handle_preeval_exception su st e loc) = Inl (HTTPException 500 ''RULES_ENGINE_EVAL_FAILED'')"
proof -
  have m: "mode_of (su_enforce su) = mode_all"
    using assms by (simp add: mode_of_def Let_def VALID_MODES_def mode_off_def mode_cte_only_def mode_all_def py_lower_def)
  obtain st1 x where c: "current_mode su st = (st1, x)" by fastforce
  with m have "x = mode_all" using current_mode_mode by (metis snd_conv)
  with c m show ?thesis by (simp add: should_reject_by_mode handle_preeval_exception_def)
qed

theorem unknown_mode_fails_closed_witness:
  "snd (handle_preeval_exception (enforcing '' cte-only '') fresh_state TypeError ''epcis'') =
   Inl (HTTPException 500 ''RULES_ENGINE_EVAL_FAILED'')"
proof -
  have "py_strip '' cte-only '' \<noteq> []" "py_lower (py_strip '' cte-only '') \<notin> {''off'', ''cte_only'', ''all''}"
    by code_simp+
  from unknown_mode_fails_closed [OF _ this] show ?thesis by (simp add: enforcing_def)
qed

end
