(* ===== verification/CircuitBreaker.thy ===== *)
theory CircuitBreaker
  imports PyBase
begin

text \<open>
  \<^verbatim>\<open>services/shared/circuit_breaker.py\<close> and \<^verbatim>\<open>circuit_breaker_store.py\<close>: the circuit breaker
  over a pluggable store. The store protocol is a record of operations on a store of any
  type, its laws are the locale \<open>circuit_store_laws\<close>, and the in-memory store interprets it.
  Every reading of the monotonic clock is an argument; the function a breaker protects is
  represented by its outcome.
\<close>

section \<open>The store protocol\<close>

record 's CircuitStore =
  cs_get_state :: "'s \<Rightarrow> string \<Rightarrow> string"
  cs_set_state :: "'s \<Rightarrow> string \<Rightarrow> string \<Rightarrow> 's"
  cs_get_failure_count :: "'s \<Rightarrow> string \<Rightarrow> int"
  cs_incr_failure :: "'s \<Rightarrow> string \<Rightarrow> 's \<times> int"
  cs_reset_failures :: "'s \<Rightarrow> string \<Rightarrow> 's"
  cs_get_last_failure_time :: "'s \<Rightarrow> string \<Rightarrow> pyfloat"
  cs_set_last_failure_time :: "'s \<Rightarrow> string \<Rightarrow> pyfloat \<Rightarrow> 's"

section \<open>The in-memory store\<close>

record memory_store =
  ms_states :: "string \<Rightarrow> string option"
  ms_failures :: "string \<Rightarrow> int option"
  ms_last_failure :: "string \<Rightarrow> pyfloat option"

definition empty_store :: memory_store where
  "empty_store = \<lparr>ms_states = Map.empty, ms_failures = Map.empty, ms_last_failure = Map.empty\<rparr>"

definition get_or :: "(string \<Rightarrow> 'a option) \<Rightarrow> string \<Rightarrow> 'a \<Rightarrow> 'a" where
  "get_or m k d = (case m k of None \<Rightarrow> d | Some v \<Rightarrow> v)"

definition MemoryCircuitStore :: "memory_store CircuitStore" where
  "MemoryCircuitStore =
     \<lparr>cs_get_state = (\<lambda>s n. get_or (ms_states s) n ''CLOSED''),
      cs_set_state = (\<lambda>s n v. s\<lparr>ms_states := (ms_states s)(n \<mapsto> v)\<rparr>),
      cs_get_failure_count = (\<lambda>s n. get_or (ms_failures s) n 0),
      cs_incr_failure = (\<lambda>s n. let c = get_or (ms_failures s) n 0 + 1
                                in (s\<lparr>ms_failures := (ms_failures s)(n \<mapsto> c)\<rparr>, c)),
      cs_reset_failures = (\<lambda>s n. s\<lparr>ms_failures := (ms_failures s)(n \<mapsto> 0)\<rparr>),
      cs_get_last_failure_time = (\<lambda>s n. get_or (ms_last_failure s) n (Fin 0)),
      cs_set_last_failure_time = (\<lambda>s n t. s\<lparr>ms_last_failure := (ms_last_failure s)(n \<mapsto> t)\<rparr>)\<rparr>"

section \<open>Choice of the store\<close>

datatype backend = MemoryBackend | RedisBackend

text \<open>
  The module's cached store, the two environment variables, and what connecting to Redis
  raised, if anything.
\<close>

definition get_store ::
  "backend option \<Rightarrow> string option \<Rightarrow> string option \<Rightarrow> py_error option \<Rightarrow>
   backend option \<times> (py_error + backend)" where
  "get_store global_store backend_var fallback_var redis_init =
     (case global_store of
        Some s \<Rightarrow> (global_store, Inr s)
      | None \<Rightarrow>
          if py_lower (case backend_var of None \<Rightarrow> ''memory'' | Some v \<Rightarrow> v) = ''redis'' then
            (case redis_init of
               None \<Rightarrow> (Some RedisBackend, Inr RedisBackend)
             | Some _ \<Rightarrow>
                 if fallback_var = Some ''1'' then (Some MemoryBackend, Inr MemoryBackend)
                 else (None, Inl (RuntimeError ''CIRCUIT_BREAKER_BACKEND=redis was explicitly configured but Redis init failed'')))
          else (Some MemoryBackend, Inr MemoryBackend))"

definition reset_store :: "backend option" where
  "reset_store = None"

section \<open>The breaker\<close>

datatype CircuitState = CLOSED | OPEN | HALF_OPEN

fun state_value :: "CircuitState \<Rightarrow> string" where
  "state_value CLOSED = ''CLOSED''"
| "state_value OPEN = ''OPEN''"
| "state_value HALF_OPEN = ''HALF_OPEN''"

text \<open>\<open>CircuitState(text)\<close> raises on any other text.\<close>

definition parse_state :: "string \<Rightarrow> py_error + CircuitState" where
  "parse_state v =
     (if v = ''CLOSED'' then Inr CLOSED else if v = ''OPEN'' then Inr OPEN
      else if v = ''HALF_OPEN'' then Inr HALF_OPEN
      else Inl (ValueError ''not a valid CircuitState''))"

record 's breaker =
  cb_name :: string
  cb_failure_threshold :: int
  cb_recovery_timeout :: pyfloat
  cb_half_open_max_calls :: int
  cb_half_open_calls :: int
  cb_success_count :: int
  cb_total_calls :: int
  cb_store :: 's

text \<open>What a protected call may raise: the breaker's refusal, the function's own exception, a store error.\<close>

datatype 'e call_error = CircuitOpenError string pyfloat | Raised 'e | StoreError py_error

definition new_breaker :: "string \<Rightarrow> int \<Rightarrow> pyfloat \<Rightarrow> int \<Rightarrow> 's \<Rightarrow> 's breaker" where
  "new_breaker n threshold timeout max_calls s =
     \<lparr>cb_name = n, cb_failure_threshold = threshold, cb_recovery_timeout = timeout,
      cb_half_open_max_calls = max_calls, cb_half_open_calls = 0, cb_success_count = 0, cb_total_calls = 0,
      cb_store = s\<rparr>"

definition get_cb_state :: "'s CircuitStore \<Rightarrow> 's breaker \<Rightarrow> py_error + CircuitState" where
  "get_cb_state cs b = parse_state (cs_get_state cs (cb_store b) (cb_name b))"

definition set_cb_state :: "'s CircuitStore \<Rightarrow> CircuitState \<Rightarrow> 's breaker \<Rightarrow> 's breaker" where
  "set_cb_state cs v b = b\<lparr>cb_store := cs_set_state cs (cb_store b) (cb_name b) (state_value v)\<rparr>"

definition last_failure_time :: "'s CircuitStore \<Rightarrow> 's breaker \<Rightarrow> pyfloat" where
  "last_failure_time cs b = cs_get_last_failure_time cs (cb_store b) (cb_name b)"

definition failure_count :: "'s CircuitStore \<Rightarrow> 's breaker \<Rightarrow> int" where
  "failure_count cs b = cs_get_failure_count cs (cb_store b) (cb_name b)"

definition clear_failures :: "'s CircuitStore \<Rightarrow> 's breaker \<Rightarrow> 's breaker" where
  "clear_failures cs b = b\<lparr>cb_store := cs_reset_failures cs (cb_store b) (cb_name b)\<rparr>"

definition set_last_failure :: "'s CircuitStore \<Rightarrow> pyfloat \<Rightarrow> 's breaker \<Rightarrow> 's breaker" where
  "set_last_failure cs t b = b\<lparr>cb_store := cs_set_last_failure_time cs (cb_store b) (cb_name b) t\<rparr>"

definition transition_to ::
  "'s CircuitStore \<Rightarrow> CircuitState \<Rightarrow> 's breaker \<Rightarrow> 's breaker \<times> (py_error + unit)" where
  "transition_to cs new_state b =
     (case get_cb_state cs b of
        Inl e \<Rightarrow> (b, Inl e)
      | Inr _ \<Rightarrow>
          let b1 = set_cb_state cs new_state b
          in (if new_state = HALF_OPEN then b1\<lparr>cb_half_open_calls := 0\<rparr>
              else if new_state = CLOSED then clear_failures cs b1 else b1, Inr ()))"

definition state_at ::
  "'s CircuitStore \<Rightarrow> pyfloat \<Rightarrow> 's breaker \<Rightarrow> 's breaker \<times> (py_error + CircuitState)" where
  "state_at cs now b =
     (case get_cb_state cs b of
        Inl e \<Rightarrow> (b, Inl e)
      | Inr current \<Rightarrow>
          if current = OPEN \<and> fle (cb_recovery_timeout b) (fsub now (last_failure_time cs b)) then
            (case transition_to cs HALF_OPEN b of (b1, r) \<Rightarrow> (b1, and_then r (\<lambda>_. Inr HALF_OPEN)))
          else (b, Inr current))"

definition record_success :: "'s CircuitStore \<Rightarrow> 's breaker \<Rightarrow> 's breaker \<times> (py_error + unit)" where
  "record_success cs b0 =
     (let b = b0\<lparr>cb_success_count := cb_success_count b0 + 1\<rparr>
      in case get_cb_state cs b of
           Inl e \<Rightarrow> (b, Inl e)
         | Inr HALF_OPEN \<Rightarrow>
             let b1 = b\<lparr>cb_half_open_calls := cb_half_open_calls b + 1\<rparr>
             in if cb_half_open_max_calls b1 \<le> cb_half_open_calls b1 then transition_to cs CLOSED b1
                else (b1, Inr ())
         | Inr CLOSED \<Rightarrow> (clear_failures cs b, Inr ())
         | Inr OPEN \<Rightarrow> (b, Inr ()))"

definition record_failure :: "'s CircuitStore \<Rightarrow> pyfloat \<Rightarrow> 's breaker \<Rightarrow> 's breaker \<times> (py_error + unit)" where
  "record_failure cs now b =
     (case cs_incr_failure cs (cb_store b) (cb_name b) of
        (s1, count) \<Rightarrow>
          let b1 = set_last_failure cs now (b\<lparr>cb_store := s1\<rparr>)
          in case get_cb_state cs b1 of
               Inl e \<Rightarrow> (b1, Inl e)
             | Inr st \<Rightarrow>
                 if st = HALF_OPEN \<or> cb_failure_threshold b \<le> count then transition_to cs OPEN b1
                 else (b1, Inr ()))"

text \<open>\<open>max(0, retry_after)\<close>\<close>

definition non_negative :: "pyfloat \<Rightarrow> pyfloat" where
  "non_negative x = (if flt (Fin 0) x then x else Fin 0)"

definition check_state ::
  "'s CircuitStore \<Rightarrow> pyfloat \<Rightarrow> pyfloat \<Rightarrow> 's breaker \<Rightarrow> 's breaker \<times> ('e call_error + unit)" where
  "check_state cs now1 now2 b =
     (case state_at cs now1 b of
        (b1, Inl e) \<Rightarrow> (b1, Inl (StoreError e))
      | (b1, Inr st) \<Rightarrow>
          if st = OPEN
          then (b1, Inl (CircuitOpenError (cb_name b1)
                  (non_negative (fsub (cb_recovery_timeout b1) (fsub now2 (last_failure_time cs b1))))))
          else (b1, Inr ()))"

text \<open>
  A protected call. \<open>catches\<close> says which exceptions belong to the breaker's \<open>exceptions\<close>;
  whatever is raised inside the \<open>try\<close>, recording included, is counted when it does.
\<close>

definition protected_call ::
  "'s CircuitStore \<Rightarrow> pyfloat \<times> pyfloat \<times> pyfloat \<Rightarrow> ('e call_error \<Rightarrow> bool) \<Rightarrow> 'e + 'a \<Rightarrow> 's breaker \<Rightarrow>
   's breaker \<times> ('e call_error + 'a)" where
  "protected_call cs clock catches outcome b0 =
     (case clock of (now1, now2, now3) \<Rightarrow>
      let b = b0\<lparr>cb_total_calls := cb_total_calls b0 + 1\<rparr>;
          on_error = (\<lambda>e b1. if catches e
                             then (case record_failure cs now3 b1 of
                                     (b2, Inl se) \<Rightarrow> (b2, Inl (StoreError se)) | (b2, Inr _) \<Rightarrow> (b2, Inl e))
                             else (b1, Inl e))
      in case check_state cs now1 now2 b of
           (b1, Inl e) \<Rightarrow> (b1, Inl e)
         | (b1, Inr _) \<Rightarrow>
             (case outcome of
                Inl e \<Rightarrow> on_error (Raised e) b1
              | Inr result \<Rightarrow>
                  (case record_success cs b1 of
                     (b2, Inl se) \<Rightarrow> on_error (StoreError se) b2
                   | (b2, Inr _) \<Rightarrow> (b2, Inr result))))"

definition reset_breaker :: "'s CircuitStore \<Rightarrow> 's breaker \<Rightarrow> 's breaker \<times> (py_error + unit)" where
  "reset_breaker cs b =
     (case transition_to cs CLOSED b of
        (b1, Inl e) \<Rightarrow> (b1, Inl e)
      | (b1, Inr _) \<Rightarrow> (set_last_failure cs (Fin 0) (clear_failures cs b1), Inr ()))"

definition get_metrics :: "'s CircuitStore \<Rightarrow> pyfloat \<Rightarrow> 's breaker \<Rightarrow> 's breaker \<times> (py_error + pydict)" where
  "get_metrics cs now b =
     (case state_at cs now b of
        (b1, Inl e) \<Rightarrow> (b1, Inl e)
      | (b1, Inr st) \<Rightarrow>
          (b1, Inr [(''name'', PStr (cb_name b1)), (''state'', PStr (state_value st)),
                    (''failure_count'', PInt (failure_count cs b1)), (''success_count'', PInt (cb_success_count b1)),
                    (''total_calls'', PInt (cb_total_calls b1)),
                    (''failure_threshold'', PInt (cb_failure_threshold b1)),
                    (''recovery_timeout'', PFloat (cb_recovery_timeout b1))]))"

text \<open>The breakers the module declares, in their order, on the store they share.\<close>

definition predefined_circuits :: "'s \<Rightarrow> 's breaker list" where
  "predefined_circuits s =
     [new_breaker ''neo4j'' 5 (Fin 30) 3 s, new_breaker ''redis'' 10 (Fin 15) 3 s,
      new_breaker ''postgres'' 5 (Fin 30) 3 s, new_breaker ''kafka'' 5 (Fin 60) 3 s]"

text \<open>
  Metrics of breakers that share a store, one clock reading each. Reading a state may change
  the store, so the store of one is the store of the next; the first exception ends the list.
\<close>

fun get_all_circuit_metrics ::
  "'s CircuitStore \<Rightarrow> (pyfloat \<times> 's breaker) list \<Rightarrow> 's \<Rightarrow> 's \<times> 's breaker list \<times> (py_error + pydict list)" where
  "get_all_circuit_metrics cs [] s = (s, [], Inr [])"
| "get_all_circuit_metrics cs ((now, b) # bs) s =
     (case get_metrics cs now (b\<lparr>cb_store := s\<rparr>) of
        (b1, Inl e) \<Rightarrow> (cb_store b1, b1 # map snd bs, Inl e)
      | (b1, Inr m) \<Rightarrow>
          (case get_all_circuit_metrics cs bs (cb_store b1) of
             (s', bs', r) \<Rightarrow> (s', b1 # bs', and_then r (\<lambda>ms. Inr (m # ms)))))"

section \<open>The laws of a store\<close>

text \<open>
  What a breaker relies on: a value written for a name is read back for it until it is written
  again, the three quantities do not interfere, and names do not interfere.
\<close>

locale circuit_store_laws =
  fixes cs :: "'s CircuitStore"
  assumes state_set: "cs_get_state cs (cs_set_state cs s n v) m = (if m = n then v else cs_get_state cs s m)"
    and state_incr: "cs_get_state cs (fst (cs_incr_failure cs s n)) m = cs_get_state cs s m"
    and state_reset: "cs_get_state cs (cs_reset_failures cs s n) m = cs_get_state cs s m"
    and state_last: "cs_get_state cs (cs_set_last_failure_time cs s n t) m = cs_get_state cs s m"
    and count_set: "cs_get_failure_count cs (cs_set_state cs s n v) m = cs_get_failure_count cs s m"
    and count_incr: "cs_get_failure_count cs (fst (cs_incr_failure cs s n)) m =
          (if m = n then cs_get_failure_count cs s m + 1 else cs_get_failure_count cs s m)"
    and incr_value: "snd (cs_incr_failure cs s n) = cs_get_failure_count cs s n + 1"
    and count_reset: "cs_get_failure_count cs (cs_reset_failures cs s n) m =
          (if m = n then 0 else cs_get_failure_count cs s m)"
    and count_last: "cs_get_failure_count cs (cs_set_last_failure_time cs s n t) m = cs_get_failure_count cs s m"
    and last_set: "cs_get_last_failure_time cs (cs_set_state cs s n v) m = cs_get_last_failure_time cs s m"
    and last_incr: "cs_get_last_failure_time cs (fst (cs_incr_failure cs s n)) m = cs_get_last_failure_time cs s m"
    and last_reset: "cs_get_last_failure_time cs (cs_reset_failures cs s n) m = cs_get_last_failure_time cs s m"
    and last_last: "cs_get_last_failure_time cs (cs_set_last_failure_time cs s n t) m =
          (if m = n then t else cs_get_last_failure_time cs s m)"

text \<open>The abstract machine a breaker implements.\<close>

record circuit =
  ab_state :: CircuitState
  ab_failures :: int
  ab_last :: pyfloat
  ab_trials :: int

definition spec_state :: "pyfloat \<Rightarrow> pyfloat \<Rightarrow> circuit \<Rightarrow> circuit" where
  "spec_state timeout now c =
     (if ab_state c = OPEN \<and> fle timeout (fsub now (ab_last c)) then c\<lparr>ab_state := HALF_OPEN, ab_trials := 0\<rparr> else c)"

definition spec_success :: "int \<Rightarrow> circuit \<Rightarrow> circuit" where
  "spec_success max_calls c =
     (case ab_state c of
        CLOSED \<Rightarrow> c\<lparr>ab_failures := 0\<rparr>
      | OPEN \<Rightarrow> c
      | HALF_OPEN \<Rightarrow>
          if max_calls \<le> ab_trials c + 1
          then c\<lparr>ab_state := CLOSED, ab_failures := 0, ab_trials := ab_trials c + 1\<rparr>
          else c\<lparr>ab_trials := ab_trials c + 1\<rparr>)"

definition spec_failure :: "int \<Rightarrow> pyfloat \<Rightarrow> circuit \<Rightarrow> circuit" where
  "spec_failure threshold now c =
     (let c1 = c\<lparr>ab_failures := ab_failures c + 1, ab_last := now\<rparr>
      in if ab_state c = HALF_OPEN \<or> threshold \<le> ab_failures c1 then c1\<lparr>ab_state := OPEN\<rparr> else c1)"

definition spec_reset :: "circuit \<Rightarrow> circuit" where
  "spec_reset c = c\<lparr>ab_state := CLOSED, ab_failures := 0, ab_last := Fin 0\<rparr>"

text \<open>The abstraction: the breaker's view of the store under its name.\<close>

definition represents :: "'s CircuitStore \<Rightarrow> 's breaker \<Rightarrow> circuit \<Rightarrow> bool" where
  "represents cs b c \<longleftrightarrow>
     cs_get_state cs (cb_store b) (cb_name b) = state_value (ab_state c) \<and>
     cs_get_failure_count cs (cb_store b) (cb_name b) = ab_failures c \<and>
     cs_get_last_failure_time cs (cb_store b) (cb_name b) = ab_last c \<and>
     cb_half_open_calls b = ab_trials c"

text \<open>The breaker's parameters, and what the store holds for another name.\<close>

definition same_config :: "'s breaker \<Rightarrow> 's breaker \<Rightarrow> bool" where
  "same_config b b' \<longleftrightarrow>
     cb_name b' = cb_name b \<and> cb_failure_threshold b' = cb_failure_threshold b \<and>
     cb_recovery_timeout b' = cb_recovery_timeout b \<and> cb_half_open_max_calls b' = cb_half_open_max_calls b"

definition others_kept :: "'s CircuitStore \<Rightarrow> 's breaker \<Rightarrow> 's breaker \<Rightarrow> bool" where
  "others_kept cs b b' \<longleftrightarrow>
     (\<forall>m. m \<noteq> cb_name b \<longrightarrow>
        cs_get_state cs (cb_store b') m = cs_get_state cs (cb_store b) m \<and>
        cs_get_failure_count cs (cb_store b') m = cs_get_failure_count cs (cb_store b) m \<and>
        cs_get_last_failure_time cs (cb_store b') m = cs_get_last_failure_time cs (cb_store b) m)"

lemma parse_state_value [simp]: "parse_state (state_value st) = Inr st"
  by (cases st) (simp_all add: parse_state_def)

lemma parse_state_texts [simp]:
  "parse_state ''CLOSED'' = Inr CLOSED" "parse_state ''OPEN'' = Inr OPEN" "parse_state ''HALF_OPEN'' = Inr HALF_OPEN"
  by (simp_all add: parse_state_def)

lemmas breaker_unfolds =
  get_cb_state_def set_cb_state_def last_failure_time_def failure_count_def clear_failures_def
  set_last_failure_def transition_to_def represents_def same_config_def others_kept_def

context circuit_store_laws
begin

lemmas store_laws = state_set state_incr state_reset state_last count_set count_incr incr_value count_reset
  count_last last_set last_incr last_reset last_last

lemma state_refines:
  assumes "represents cs b c"
  shows "\<exists>b'. state_at cs now b = (b', Inr (ab_state (spec_state (cb_recovery_timeout b) now c))) \<and>
              represents cs b' (spec_state (cb_recovery_timeout b) now c) \<and> same_config b b' \<and> others_kept cs b b'"
  using assms by (auto simp: state_at_def spec_state_def breaker_unfolds store_laws Let_def)

lemma success_refines:
  assumes "represents cs b c"
  shows "\<exists>b'. record_success cs b = (b', Inr ()) \<and>
              represents cs b' (spec_success (cb_half_open_max_calls b) c) \<and> same_config b b' \<and> others_kept cs b b'"
  using assms
  by (cases "ab_state c")
    (auto simp: record_success_def spec_success_def breaker_unfolds store_laws Let_def simp del: state_value.simps)

lemma failure_refines:
  assumes "represents cs b c"
  shows "\<exists>b'. record_failure cs now b = (b', Inr ()) \<and>
              represents cs b' (spec_failure (cb_failure_threshold b) now c) \<and> same_config b b' \<and> others_kept cs b b'"
proof -
  obtain s1 k where i: "cs_incr_failure cs (cb_store b) (cb_name b) = (s1, k)" by fastforce
  have s1: "s1 = fst (cs_incr_failure cs (cb_store b) (cb_name b))"
    and k: "k = cs_get_failure_count cs (cb_store b) (cb_name b) + 1"
    using i incr_value [of "cb_store b" "cb_name b"] by simp_all
  have laws: "cs_get_state cs s1 m = cs_get_state cs (cb_store b) m"
    "cs_get_failure_count cs s1 m = (if m = cb_name b then k else cs_get_failure_count cs (cb_store b) m)"
    "cs_get_last_failure_time cs s1 m = cs_get_last_failure_time cs (cb_store b) m" for m
    unfolding s1 k by (simp_all add: state_incr count_incr last_incr)
  show ?thesis
    using assms i
    by (auto simp: record_failure_def spec_failure_def breaker_unfolds store_laws laws k Let_def)
qed

lemma reset_refines:
  assumes "represents cs b c"
  shows "\<exists>b'. reset_breaker cs b = (b', Inr ()) \<and> represents cs b' (spec_reset c) \<and> same_config b b' \<and>
              others_kept cs b b'"
  using assms by (auto simp: reset_breaker_def spec_reset_def breaker_unfolds store_laws Let_def)

end

interpretation mem: circuit_store_laws MemoryCircuitStore
  by unfold_locales (auto simp: MemoryCircuitStore_def get_or_def Let_def)

section \<open>Protected calls\<close>

text \<open>A failure counts when its exception is one the breaker is configured for; any other passes through and leaves the circuit alone.\<close>

definition spec_call ::
  "int \<Rightarrow> pyfloat \<Rightarrow> int \<Rightarrow> pyfloat \<Rightarrow> pyfloat \<Rightarrow> ('e \<Rightarrow> bool) \<Rightarrow> 'e + 'a \<Rightarrow> circuit \<Rightarrow> circuit" where
  "spec_call threshold timeout max_calls now1 now3 counted outcome c =
     (let c1 = spec_state timeout now1 c
      in if ab_state c1 = OPEN then c1
         else case outcome of Inl e \<Rightarrow> if counted e then spec_failure threshold now3 c1 else c1 | Inr _ \<Rightarrow> spec_success max_calls c1)"

lemma same_config_trans: "same_config a b \<Longrightarrow> same_config b c \<Longrightarrow> same_config a c"
  by (simp add: same_config_def)

lemma others_kept_trans: "others_kept cs a b \<Longrightarrow> same_config a b \<Longrightarrow> others_kept cs b c \<Longrightarrow> others_kept cs a c"
  by (simp add: others_kept_def same_config_def)

lemma represents_total_calls [simp]:
  "represents cs (b\<lparr>cb_total_calls := k\<rparr>) c = represents cs b c"
  "same_config (b\<lparr>cb_total_calls := k\<rparr>) b' = same_config b b'"
  "others_kept cs (b\<lparr>cb_total_calls := k\<rparr>) b' = others_kept cs b b'"
  by (simp_all add: represents_def same_config_def others_kept_def)

text \<open>The result a caller sees.\<close>

definition call_result ::
  "'s CircuitStore \<Rightarrow> pyfloat \<Rightarrow> CircuitState \<Rightarrow> 'e + 'a \<Rightarrow> 's breaker \<Rightarrow> 'e call_error + 'a" where
  "call_result cs now2 st outcome b =
     (if st = OPEN
      then Inl (CircuitOpenError (cb_name b)
             (non_negative (fsub (cb_recovery_timeout b) (fsub now2 (last_failure_time cs b)))))
      else case outcome of Inl e \<Rightarrow> Inl (Raised e) | Inr r \<Rightarrow> Inr r)"

context circuit_store_laws
begin

lemma call_refines:
  assumes "represents cs b c"
  shows "\<exists>b'. protected_call cs (now1, now2, now3) catches outcome b =
                (b', call_result cs now2 (ab_state (spec_state (cb_recovery_timeout b) now1 c)) outcome b) \<and>
              represents cs b' (spec_call (cb_failure_threshold b) (cb_recovery_timeout b) (cb_half_open_max_calls b)
                                  now1 now3 (\<lambda>e. catches (Raised e)) outcome c) \<and>
              same_config b b' \<and> others_kept cs b b'"
proof -
  let ?b = "b\<lparr>cb_total_calls := cb_total_calls b + 1\<rparr>"
  let ?c1 = "spec_state (cb_recovery_timeout b) now1 c"
  have "represents cs ?b c" using assms(1) by simp
  then obtain b1 where s: "state_at cs now1 ?b = (b1, Inr (ab_state ?c1))" and r1: "represents cs b1 ?c1"
    and k1: "same_config b b1" and o1: "others_kept cs b b1"
    using state_refines [of ?b c now1] by auto
  have last: "last_failure_time cs b1 = last_failure_time cs b"
    using assms(1) r1 by (simp add: last_failure_time_def represents_def spec_state_def)
  show ?thesis
  proof (cases "ab_state ?c1 = OPEN")
    case True
    then show ?thesis
      using s r1 k1 o1 last
      by (auto simp: protected_call_def check_state_def call_result_def spec_call_def Let_def same_config_def)
  next
    case False
    consider e where "outcome = Inl e" "\<not> catches (Raised e)" | e where "outcome = Inl e" "catches (Raised e)" | x where "outcome = Inr x"
      by (cases outcome) auto
    then show ?thesis
    proof cases
      case 1
      then show ?thesis
        using s False r1 k1 o1 by (simp add: protected_call_def check_state_def call_result_def spec_call_def Let_def)
    next
      case (2 e)
      obtain b2 where f: "record_failure cs now3 b1 = (b2, Inr ())"
        "represents cs b2 (spec_failure (cb_failure_threshold b) now3 ?c1)" "same_config b1 b2" "others_kept cs b1 b2"
        using failure_refines [OF r1, of now3] k1 by (auto simp: same_config_def)
      then show ?thesis
        using s False 2 same_config_trans [OF k1 f(3)] others_kept_trans [OF o1 k1 f(4)]
        by (simp add: protected_call_def check_state_def call_result_def spec_call_def Let_def)
    next
      case (3 x)
      obtain b2 where f: "record_success cs b1 = (b2, Inr ())"
        "represents cs b2 (spec_success (cb_half_open_max_calls b) ?c1)" "same_config b1 b2" "others_kept cs b1 b2"
        using success_refines [OF r1] k1 by (auto simp: same_config_def)
      then show ?thesis
        using s False 3 same_config_trans [OF k1 f(3)] others_kept_trans [OF o1 k1 f(4)]
        by (simp add: protected_call_def check_state_def call_result_def spec_call_def Let_def)
    qed
  qed
qed

end

section \<open>Reachable states\<close>

text \<open>
  The steps of one breaker: protected calls, observations of its state, resets, and the two
  recordings on their own, as concurrent calls that were admitted earlier complete.
\<close>

inductive breaker_step :: "'s CircuitStore \<Rightarrow> 's breaker \<Rightarrow> 's breaker \<Rightarrow> bool" for cs where
  step_call: "protected_call cs clock catches (outcome :: unit + unit) b = (b', r) \<Longrightarrow> breaker_step cs b b'"
| step_observe: "state_at cs now b = (b', r) \<Longrightarrow> breaker_step cs b b'"
| step_success: "record_success cs b = (b', r) \<Longrightarrow> breaker_step cs b b'"
| step_failure: "record_failure cs now b = (b', r) \<Longrightarrow> breaker_step cs b b'"
| step_reset: "reset_breaker cs b = (b', r) \<Longrightarrow> breaker_step cs b b'"

inductive_cases breaker_stepE: "breaker_step cs b b'"

inductive reachable :: "'s CircuitStore \<Rightarrow> 's breaker \<Rightarrow> 's breaker \<Rightarrow> bool" for cs b0 where
  reach_init: "reachable cs b0 b0"
| reach_step: "reachable cs b0 b \<Longrightarrow> breaker_step cs b b' \<Longrightarrow> reachable cs b0 b'"

definition circuit_inv :: "int \<Rightarrow> int \<Rightarrow> circuit \<Rightarrow> bool" where
  "circuit_inv threshold max_calls c \<longleftrightarrow>
     0 \<le> ab_failures c \<and> (ab_state c = CLOSED \<longleftrightarrow> ab_failures c < threshold) \<and>
     (ab_state c = HALF_OPEN \<longrightarrow> 0 \<le> ab_trials c \<and> ab_trials c < max_calls)"

lemma spec_inv:
  assumes "0 < t" and "0 < m" and "circuit_inv t m c"
  shows "circuit_inv t m (spec_state timeout now c)" and "circuit_inv t m (spec_success m c)"
    and "circuit_inv t m (spec_failure t now c)" and "circuit_inv t m (spec_reset c)"
  using assms
  by (auto simp: circuit_inv_def spec_state_def spec_success_def spec_failure_def spec_reset_def Let_def
      split: CircuitState.split)

lemma spec_call_inv:
  "0 < t \<Longrightarrow> 0 < m \<Longrightarrow> circuit_inv t m c \<Longrightarrow> circuit_inv t m (spec_call t timeout m now1 now3 counted outcome c)"
  by (simp add: spec_call_def Let_def spec_inv split: sum.split)

context circuit_store_laws
begin

lemma step_preserves:
  assumes "breaker_step cs b b'" and "represents cs b c" and "0 < cb_failure_threshold b"
    and "0 < cb_half_open_max_calls b" and "circuit_inv (cb_failure_threshold b) (cb_half_open_max_calls b) c"
  shows "\<exists>c'. represents cs b' c' \<and> circuit_inv (cb_failure_threshold b) (cb_half_open_max_calls b) c' \<and> same_config b b'"
  using assms(1)
proof cases
  case (step_call clock catches outcome r)
  obtain n1 n2 n3 where "clock = (n1, n2, n3)" by (cases clock)
  moreover have "circuit_inv (cb_failure_threshold b) (cb_half_open_max_calls b)
      (spec_call (cb_failure_threshold b) (cb_recovery_timeout b) (cb_half_open_max_calls b) n1 n3 (\<lambda>e. catches (Raised e)) outcome c)"
    by (rule spec_call_inv [OF assms(3-5)])
  ultimately show ?thesis
    using step_call call_refines [OF assms(2), of n1 n2 n3 catches outcome] by auto
next
  case (step_observe now r)
  with state_refines [OF assms(2), of now] spec_inv(1) [OF assms(3-5)] show ?thesis by auto
next
  case (step_success r)
  with success_refines [OF assms(2)] spec_inv(2) [OF assms(3-5)] show ?thesis by auto
next
  case (step_failure now r)
  with failure_refines [OF assms(2), of now] spec_inv(3) [OF assms(3-5)] show ?thesis by auto
next
  case (step_reset r)
  with reset_refines [OF assms(2)] spec_inv(4) [OF assms(3-5)] show ?thesis by auto
qed

lemma reachable_inv:
  assumes "reachable cs b0 b" and "represents cs b0 c0" and "0 < cb_failure_threshold b0"
    and "0 < cb_half_open_max_calls b0" and "circuit_inv (cb_failure_threshold b0) (cb_half_open_max_calls b0) c0"
  shows "\<exists>c. represents cs b c \<and> circuit_inv (cb_failure_threshold b0) (cb_half_open_max_calls b0) c \<and> same_config b0 b"
  using assms(1)
proof (induction rule: reachable.induct)
  case reach_init
  then show ?case using assms by (auto simp: same_config_def)
next
  case (reach_step b b')
  then obtain c where c: "represents cs b c" "same_config b0 b"
    "circuit_inv (cb_failure_threshold b) (cb_half_open_max_calls b) c"
    by (auto simp: same_config_def)
  then have p: "0 < cb_failure_threshold b" "0 < cb_half_open_max_calls b"
    using assms(3,4) by (simp_all add: same_config_def)
  from step_preserves [OF reach_step(2) c(1) p c(3)] c(2) show ?case
    by (auto simp: same_config_def)
qed

end

section \<open>Properties\<close>

text \<open>
  Claim C40 (refinement). On the in-memory store a protected call, of a breaker configured for any set of exceptions, implements the abstract
  circuit, in which a failure of another kind is not counted: after the call the store holds, for the breaker's name, the state, failure count,
  last failure time and trial count the abstract machine prescribes, the caller gets the
  function's own result or exception or the fast failure, and nothing held for another
  breaker changes.
\<close>

theorem protected_call_refines_circuit:
  assumes "represents MemoryCircuitStore b c"
  shows "\<exists>b'. protected_call MemoryCircuitStore (now1, now2, now3) catches outcome b =
                (b', call_result MemoryCircuitStore now2 (ab_state (spec_state (cb_recovery_timeout b) now1 c)) outcome b) \<and>
              represents MemoryCircuitStore b' (spec_call (cb_failure_threshold b) (cb_recovery_timeout b)
                (cb_half_open_max_calls b) now1 now3 (\<lambda>e. catches (Raised e)) outcome c) \<and>
              others_kept MemoryCircuitStore b b'"
  using mem.call_refines [OF assms, of now1 now2 now3 catches outcome] by blast

definition fresh_breaker :: "int \<Rightarrow> int \<Rightarrow> memory_store breaker" where
  "fresh_breaker threshold max_calls = new_breaker ''neo4j'' threshold (Fin 30) max_calls empty_store"

definition fresh_circuit :: circuit where
  "fresh_circuit = \<lparr>ab_state = CLOSED, ab_failures = 0, ab_last = Fin 0, ab_trials = 0\<rparr>"

lemma fresh_represents: "represents MemoryCircuitStore (fresh_breaker t m) fresh_circuit"
  by (simp add: represents_def fresh_breaker_def new_breaker_def fresh_circuit_def MemoryCircuitStore_def
      empty_store_def get_or_def)

theorem protected_call_refines_circuit_witness:
  "(\<exists>b'. protected_call MemoryCircuitStore (Fin 1, Fin 1, Fin 2) (\<lambda>e. e = Raised TypeError) (Inl TypeError :: py_error + nat)
           (fresh_breaker 1 3) = (b', Inl (Raised TypeError)) \<and>
         represents MemoryCircuitStore b' \<lparr>ab_state = OPEN, ab_failures = 1, ab_last = Fin 2, ab_trials = 0\<rparr>) \<and>
   (\<exists>b'. protected_call MemoryCircuitStore (Fin 1, Fin 1, Fin 2) (\<lambda>e. e = Raised TypeError) (Inl (ValueError []) :: py_error + nat)
           (fresh_breaker 1 3) = (b', Inl (Raised (ValueError []))) \<and>
         represents MemoryCircuitStore b' fresh_circuit)"
  using protected_call_refines_circuit [OF fresh_represents [of 1 3], of "Fin 1" "Fin 1" "Fin 2" "\<lambda>e. e = Raised TypeError"
      "Inl TypeError :: py_error + nat"]
    protected_call_refines_circuit [OF fresh_represents [of 1 3], of "Fin 1" "Fin 1" "Fin 2" "\<lambda>e. e = Raised TypeError"
      "Inl (ValueError []) :: py_error + nat"]
  by (auto simp: call_result_def spec_call_def spec_state_def spec_failure_def fresh_circuit_def fresh_breaker_def
      new_breaker_def Let_def)

text \<open>
  In every state a breaker reaches from a fresh in-memory store, by
  calls, observations, resets and recordings in any order, the stored state is one of the
  three, it is \<open>CLOSED\<close> exactly while the failure count is below the threshold, and in
  \<open>HALF_OPEN\<close> fewer trial calls than the maximum have succeeded.
\<close>

theorem reachable_breaker_invariant:
  assumes "reachable MemoryCircuitStore (fresh_breaker threshold max_calls) b"
    and "0 < threshold" and "0 < max_calls"
  shows "\<exists>st. get_cb_state MemoryCircuitStore b = Inr st \<and>
              (st = CLOSED \<longleftrightarrow> failure_count MemoryCircuitStore b < threshold) \<and>
              0 \<le> failure_count MemoryCircuitStore b \<and>
              (st = HALF_OPEN \<longrightarrow> cb_half_open_calls b < max_calls)"
proof -
  have "circuit_inv (cb_failure_threshold (fresh_breaker threshold max_calls))
      (cb_half_open_max_calls (fresh_breaker threshold max_calls)) fresh_circuit"
    using assms(2) by (simp add: circuit_inv_def fresh_circuit_def fresh_breaker_def new_breaker_def)
  then obtain c where "represents MemoryCircuitStore b c" and "circuit_inv threshold max_calls c"
    using mem.reachable_inv [OF assms(1) fresh_represents] assms(2,3)
    by (auto simp: fresh_breaker_def new_breaker_def)
  then show ?thesis
    by (intro exI [of _ "ab_state c"]) (auto simp: represents_def circuit_inv_def get_cb_state_def failure_count_def)
qed

theorem reachable_breaker_invariant_witness:
  "\<exists>b. reachable MemoryCircuitStore (fresh_breaker 1 3) b \<and> get_cb_state MemoryCircuitStore b = Inr OPEN \<and>
       \<not> failure_count MemoryCircuitStore b < 1"
proof -
  obtain b where s: "record_failure MemoryCircuitStore (Fin 5) (fresh_breaker 1 3) = (b, Inr ())"
    and r: "represents MemoryCircuitStore b (spec_failure 1 (Fin 5) fresh_circuit)"
    using mem.failure_refines [OF fresh_represents, of "Fin 5" 1 3] by (auto simp: fresh_breaker_def new_breaker_def)
  have reach: "reachable MemoryCircuitStore (fresh_breaker 1 3) b"
    by (rule reach_step [OF reach_init step_failure [OF s]])
  have "get_cb_state MemoryCircuitStore b = Inr OPEN"
    using r by (simp add: represents_def spec_failure_def fresh_circuit_def Let_def get_cb_state_def)
  with reachable_breaker_invariant [OF reach] reach show ?thesis by auto
qed

text \<open>
  While the circuit is open and the recovery timeout has not elapsed, a
  protected call fails at once with the retry delay, whatever the function would have done:
  the function has no influence on the result, and only the call counter changes.
\<close>

theorem open_circuit_fails_fast:
  assumes "get_cb_state MemoryCircuitStore b = Inr OPEN"
    and "\<not> fle (cb_recovery_timeout b) (fsub now1 (last_failure_time MemoryCircuitStore b))"
  shows "protected_call MemoryCircuitStore (now1, now2, now3) catches outcome b =
         (b\<lparr>cb_total_calls := cb_total_calls b + 1\<rparr>,
          Inl (CircuitOpenError (cb_name b) (non_negative (fsub (cb_recovery_timeout b)
                (fsub now2 (last_failure_time MemoryCircuitStore b))))))"
  using assms
  by (simp add: protected_call_def check_state_def state_at_def get_cb_state_def last_failure_time_def Let_def)

theorem open_circuit_fails_fast_witness:
  "snd (protected_call MemoryCircuitStore (Fin 10, Fin 11, Fin 12) (\<lambda>_. True) (Inr 0 :: py_error + nat)
          (set_last_failure MemoryCircuitStore (Fin 5) (set_cb_state MemoryCircuitStore OPEN (fresh_breaker 1 3)))) =
   Inl (CircuitOpenError ''neo4j'' (Fin 24))"
proof -
  let ?b = "set_last_failure MemoryCircuitStore (Fin 5) (set_cb_state MemoryCircuitStore OPEN (fresh_breaker 1 3))"
  have s: "get_cb_state MemoryCircuitStore ?b = Inr OPEN"
    and l: "last_failure_time MemoryCircuitStore ?b = Fin 5"
    and t: "cb_recovery_timeout ?b = Fin 30" "cb_name ?b = ''neo4j''"
    by (simp_all add: get_cb_state_def set_last_failure_def set_cb_state_def last_failure_time_def fresh_breaker_def
        new_breaker_def MemoryCircuitStore_def get_or_def)
  have "\<not> fle (Fin 30) (fsub (Fin 10) (Fin 5))" by code_simp
  moreover have "non_negative (fsub (Fin 30) (fsub (Fin 11) (Fin 5))) = Fin 24" by code_simp
  ultimately show ?thesis
    by (subst open_circuit_fails_fast [OF s]) (simp_all add: l t)
qed

definition fail_all :: "pyfloat list \<Rightarrow> memory_store breaker \<Rightarrow> memory_store breaker" where
  "fail_all ts b = fold (\<lambda>t b. fst (record_failure MemoryCircuitStore t b)) ts b"

definition succeed_times :: "nat \<Rightarrow> memory_store breaker \<Rightarrow> memory_store breaker" where
  "succeed_times n b = ((\<lambda>b. fst (record_success MemoryCircuitStore b)) ^^ n) b"

lemma fail_all_represents:
  "represents MemoryCircuitStore b c \<Longrightarrow>
   represents MemoryCircuitStore (fail_all ts b) (fold (spec_failure (cb_failure_threshold b)) ts c)"
proof (induction ts arbitrary: b c)
  case (Cons t ts)
  obtain b1 where "record_failure MemoryCircuitStore t b = (b1, Inr ())"
    "represents MemoryCircuitStore b1 (spec_failure (cb_failure_threshold b) t c)" "same_config b b1"
    using mem.failure_refines [OF Cons.prems, of t] by blast
  with Cons.IH [of b1] show ?case by (simp add: fail_all_def same_config_def)
qed (simp add: fail_all_def)

lemma spec_failures_closed:
  assumes "ab_state c = CLOSED" and "0 \<le> ab_failures c" and "ab_failures c < threshold"
  shows "ab_state (fold (spec_failure threshold) ts c) =
           (if threshold \<le> ab_failures c + int (length ts) then OPEN else CLOSED)"
proof -
  have open_stays: "ab_state (fold (spec_failure threshold) ts c) = OPEN"
    if "ab_state c = OPEN" "threshold \<le> ab_failures c" for ts c
    using that by (induction ts arbitrary: c) (auto simp: spec_failure_def Let_def)
  show ?thesis
    using assms
  proof (induction ts arbitrary: c)
    case (Cons t ts)
    have one: "ab_state (spec_failure threshold t c) =
        (if threshold \<le> ab_failures c + 1 then OPEN else CLOSED)"
      "ab_failures (spec_failure threshold t c) = ab_failures c + 1"
      using Cons.prems by (simp_all add: spec_failure_def Let_def)
    show ?case
    proof (cases "threshold \<le> ab_failures c + 1")
      case True
      with Cons.prems one open_stays [of "spec_failure threshold t c" ts] show ?thesis by simp
    next
      case False
      with Cons.prems one Cons.IH [of "spec_failure threshold t c"] show ?thesis by simp
    qed
  qed simp
qed

text \<open>
  A closed circuit without failures opens exactly when the number of
  consecutive failures reaches the threshold, not earlier.
\<close>

theorem circuit_opens_at_threshold:
  assumes "represents MemoryCircuitStore b c" and "ab_state c = CLOSED" and "ab_failures c = 0"
    and "0 < cb_failure_threshold b"
  shows "get_cb_state MemoryCircuitStore (fail_all ts b) =
         Inr (if cb_failure_threshold b \<le> int (length ts) then OPEN else CLOSED)"
  using fail_all_represents [OF assms(1), of ts] spec_failures_closed [of c "cb_failure_threshold b" ts] assms(2-4)
  by (simp add: represents_def get_cb_state_def del: state_value.simps)

theorem circuit_opens_at_threshold_witness:
  "get_cb_state MemoryCircuitStore (fail_all [Fin 1, Fin 2] (fresh_breaker 3 3)) = Inr CLOSED \<and>
   get_cb_state MemoryCircuitStore (fail_all [Fin 1, Fin 2, Fin 3] (fresh_breaker 3 3)) = Inr OPEN"
  using circuit_opens_at_threshold [OF fresh_represents, of 3 3]
  by (simp add: fresh_circuit_def fresh_breaker_def new_breaker_def)

lemma succeed_times_represents:
  "represents MemoryCircuitStore b c \<Longrightarrow>
   represents MemoryCircuitStore (succeed_times n b) ((spec_success (cb_half_open_max_calls b) ^^ n) c) \<and>
   same_config b (succeed_times n b)"
proof (induction n)
  case (Suc n)
  let ?b = "succeed_times n b"
  have k: "same_config b ?b" using Suc by simp
  obtain b1 where "record_success MemoryCircuitStore ?b = (b1, Inr ())"
    "represents MemoryCircuitStore b1 (spec_success (cb_half_open_max_calls ?b) ((spec_success (cb_half_open_max_calls b) ^^ n) c))"
    "same_config ?b b1"
    using mem.success_refines Suc by blast
  with k show ?case by (simp add: succeed_times_def same_config_def)
qed (simp add: succeed_times_def same_config_def)

lemma spec_successes_half_open:
  assumes "ab_state c = HALF_OPEN" and "ab_trials c = 0" and "0 < m"
  shows "(spec_success m ^^ n) c =
         (if int n < m then c\<lparr>ab_trials := int n\<rparr>
          else c\<lparr>ab_state := CLOSED, ab_failures := 0, ab_trials := m\<rparr>)"
proof (induction n)
  case 0
  have "c\<lparr>ab_trials := 0\<rparr> = c" using assms(2) by simp
  then show ?case using assms(3) by simp
next
  case (Suc n)
  then show ?case using assms by (auto simp: spec_success_def)
qed

text \<open>
  Recovery succeeds: from a half-open circuit without trials, the circuit
  closes, with its failure count cleared, exactly when the configured number of trial calls
  has succeeded in a row; until then it stays half-open.
\<close>

theorem half_open_recovers:
  assumes "represents MemoryCircuitStore b c" and "ab_state c = HALF_OPEN" and "ab_trials c = 0"
    and "0 < cb_half_open_max_calls b"
  shows "get_cb_state MemoryCircuitStore (succeed_times n b) =
           Inr (if cb_half_open_max_calls b \<le> int n then CLOSED else HALF_OPEN) \<and>
         (cb_half_open_max_calls b \<le> int n \<longrightarrow> failure_count MemoryCircuitStore (succeed_times n b) = 0)"
  using succeed_times_represents [OF assms(1), of n] spec_successes_half_open [OF assms(2-4), of n] assms(2)
  by (auto simp: represents_def get_cb_state_def failure_count_def)

theorem half_open_recovers_witness:
  "get_cb_state MemoryCircuitStore (succeed_times 3 (set_cb_state MemoryCircuitStore HALF_OPEN (fresh_breaker 1 3))) =
   Inr CLOSED"
proof -
  have r: "represents MemoryCircuitStore (set_cb_state MemoryCircuitStore HALF_OPEN (fresh_breaker 1 3))
      (fresh_circuit\<lparr>ab_state := HALF_OPEN\<rparr>)"
    by (simp add: represents_def set_cb_state_def fresh_breaker_def new_breaker_def fresh_circuit_def
        MemoryCircuitStore_def empty_store_def get_or_def)
  show ?thesis
    using half_open_recovers [OF r, of 3]
    by (simp add: fresh_circuit_def set_cb_state_def fresh_breaker_def new_breaker_def)
qed

text \<open>
  The half-open state admits every call: checking it neither refuses
  nor changes anything, so the number of calls in flight while the circuit is half-open is
  not bounded by \<open>half_open_max_calls\<close>.
\<close>

theorem half_open_admits_all:
  assumes "get_cb_state MemoryCircuitStore b = Inr HALF_OPEN"
  shows "((\<lambda>b. fst (check_state MemoryCircuitStore now1 now2 b :: memory_store breaker \<times> (py_error call_error + unit))) ^^ n) b = b \<and>
         (check_state MemoryCircuitStore now1 now2 b :: memory_store breaker \<times> (py_error call_error + unit)) = (b, Inr ())"
proof -
  have c: "(check_state MemoryCircuitStore now1 now2 b :: memory_store breaker \<times> (py_error call_error + unit)) = (b, Inr ())"
    using assms by (simp add: check_state_def state_at_def)
  have "((\<lambda>b. fst (check_state MemoryCircuitStore now1 now2 b :: memory_store breaker \<times> (py_error call_error + unit))) ^^ n) b = b"
    by (induction n) (simp_all add: c)
  with c show ?thesis by simp
qed

theorem half_open_admits_all_witness:
  "((\<lambda>b. fst (check_state MemoryCircuitStore (Fin 1) (Fin 1) b :: memory_store breaker \<times> (py_error call_error + unit))) ^^ 100)
     (set_cb_state MemoryCircuitStore HALF_OPEN (fresh_breaker 1 3)) =
   set_cb_state MemoryCircuitStore HALF_OPEN (fresh_breaker 1 3)"
proof -
  have "get_cb_state MemoryCircuitStore (set_cb_state MemoryCircuitStore HALF_OPEN (fresh_breaker 1 3)) = Inr HALF_OPEN"
    by (simp add: get_cb_state_def set_cb_state_def fresh_breaker_def new_breaker_def MemoryCircuitStore_def get_or_def)
  from half_open_admits_all [OF this] show ?thesis by blast
qed

text \<open>
  An explicitly configured Redis backend that cannot be reached is an error
  unless the fallback was allowed by its variable; nothing is cached then, so the next
  breaker tries again.
\<close>

theorem redis_backend_fails_loudly:
  assumes "py_lower v = ''redis''" and "fallback \<noteq> Some ''1''"
  shows "\<exists>m. get_store None (Some v) fallback (Some e) = (None, Inl (RuntimeError m))"
  using assms by (simp add: get_store_def)

theorem redis_backend_fails_loudly_witness:
  "\<exists>m. get_store None (Some ''Redis'') None (Some TypeError) = (None, Inl (RuntimeError m))"
proof (rule redis_backend_fails_loudly)
  show "py_lower ''Redis'' = ''redis''" by code_simp
qed simp

section \<open>Metrics\<close>

text \<open>Every circuit of the store is in one of the three states.\<close>

definition states_valid :: "memory_store \<Rightarrow> bool" where
  "states_valid s \<longleftrightarrow> (\<forall>n. \<exists>st. cs_get_state MemoryCircuitStore s n = state_value st)"

lemma states_valid_empty: "states_valid empty_store"
  by (auto simp: states_valid_def MemoryCircuitStore_def empty_store_def get_or_def intro: exI [of _ CLOSED])

lemma get_metrics_ok:
  assumes "states_valid (cb_store b)"
  shows "\<exists>b' m. get_metrics MemoryCircuitStore now b = (b', Inr m) \<and> states_valid (cb_store b') \<and>
           dict_get m ''name'' PNone = PStr (cb_name b)"
proof -
  obtain st where "cs_get_state MemoryCircuitStore (cb_store b) (cb_name b) = state_value st"
    using assms by (auto simp: states_valid_def)
  then have "represents MemoryCircuitStore b
      \<lparr>ab_state = st, ab_failures = failure_count MemoryCircuitStore b,
       ab_last = last_failure_time MemoryCircuitStore b, ab_trials = cb_half_open_calls b\<rparr>"
    by (simp add: represents_def failure_count_def last_failure_time_def)
  from mem.state_refines [OF this, of now] obtain b' c' where s: "state_at MemoryCircuitStore now b = (b', Inr (ab_state c'))"
    and r: "represents MemoryCircuitStore b' c'" and k: "same_config b b'" and ok: "others_kept MemoryCircuitStore b b'"
    by blast
  have "\<exists>st. cs_get_state MemoryCircuitStore (cb_store b') n = state_value st" for n
    using assms r k ok by (cases "n = cb_name b") (auto simp: states_valid_def represents_def same_config_def others_kept_def)
  with s k show ?thesis
    by (simp add: get_metrics_def states_valid_def same_config_def dict_get_def)
qed

text \<open>
  On a valid in-memory store the metrics never raise, cover the breakers in their order, and
  leave a valid store.
\<close>

theorem all_metrics_complete:
  assumes "states_valid s"
  shows "\<exists>s' bs' ms. get_all_circuit_metrics MemoryCircuitStore bs s = (s', bs', Inr ms) \<and> states_valid s' \<and>
           map (\<lambda>m. dict_get m ''name'' PNone) ms = map (PStr \<circ> cb_name \<circ> snd) bs"
  using assms
proof (induction bs arbitrary: s)
  case (Cons p bs)
  obtain now b where p: "p = (now, b)" by fastforce
  obtain b1 m where g: "get_metrics MemoryCircuitStore now (b\<lparr>cb_store := s\<rparr>) = (b1, Inr m)"
    and v: "states_valid (cb_store b1)" and n: "dict_get m ''name'' PNone = PStr (cb_name b)"
    using get_metrics_ok [of "b\<lparr>cb_store := s\<rparr>" now] Cons.prems by auto
  from Cons.IH [OF v] g n p show ?case by (auto simp: and_then_def)
qed simp

theorem predefined_metrics_complete:
  "\<exists>s' bs' ms. get_all_circuit_metrics MemoryCircuitStore (map (Pair now) (predefined_circuits empty_store)) empty_store =
     (s', bs', Inr ms) \<and>
     map (\<lambda>m. dict_get m ''name'' PNone) ms = map PStr [''neo4j'', ''redis'', ''postgres'', ''kafka'']"
  using all_metrics_complete [OF states_valid_empty, of "map (Pair now) (predefined_circuits empty_store)"]
  by (auto simp: predefined_circuits_def new_breaker_def)

end
