(* ===== verification/MerkleTree.thy ===== *)
theory MerkleTree
  imports PyBase
begin

text \<open>
  \<^verbatim>\<open>services/shared/merkle_tree.py\<close>: the Merkle tree over event hashes. The digest
  (\<open>hashlib.sha256(...).hexdigest()\<close>) is the parameter \<open>H\<close>; what is relied on is named: a digest
  is 64 characters long and has no separator (\<open>hex_digest\<close>), and there is no collision among
  the finitely many strings that were actually hashed.
\<close>

section \<open>Nodes\<close>

definition pair_input :: "string \<Rightarrow> string \<Rightarrow> string" where
  "pair_input l r = l @ ''|'' @ r"

definition leaf_input :: "string \<Rightarrow> string" where
  "leaf_input h = ''leaf|'' @ h"

definition hash_pair :: "(string \<Rightarrow> string) \<Rightarrow> string \<Rightarrow> string \<Rightarrow> string" where
  "hash_pair H l r = H (pair_input l r)"

definition hash_leaf :: "(string \<Rightarrow> string) \<Rightarrow> string \<Rightarrow> string" where
  "hash_leaf H h = H (leaf_input h)"

record MerkleProofStep =
  ps_position :: string
  ps_hash :: string

definition to_dict :: "MerkleProofStep \<Rightarrow> pydict" where
  "to_dict s = [(''position'', PStr (ps_position s)), (''hash'', PStr (ps_hash s))]"

definition from_dict :: "pydict \<Rightarrow> py_error + MerkleProofStep" where
  "from_dict d =
     (case map_of d ''position'' of
        None \<Rightarrow> Inl (KeyError ''position'')
      | Some p \<Rightarrow>
          (case map_of d ''hash'' of
             None \<Rightarrow> Inl (KeyError ''hash'')
           | Some h \<Rightarrow> (case (p, h) of (PStr ps, PStr hs) \<Rightarrow> Inr \<lparr>ps_position = ps, ps_hash = hs\<rparr>
                       | _ \<Rightarrow> Inl TypeError)))"

section \<open>The tree\<close>

record merkle_tree =
  mt_layers :: "string list list"
  mt_root :: string
  mt_leaf_count :: nat

text \<open>The strings hashed for the layer above: neighbours, and an odd last node with itself.\<close>

fun pair_inputs :: "string list \<Rightarrow> string list" where
  "pair_inputs [] = []"
| "pair_inputs [x] = [pair_input x x]"
| "pair_inputs (x # y # r) = pair_input x y # pair_inputs r"

definition next_layer :: "(string \<Rightarrow> string) \<Rightarrow> string list \<Rightarrow> string list" where
  "next_layer H current = map H (pair_inputs current)"

lemma length_pair_inputs: "length (pair_inputs xs) = (length xs + 1) div 2"
  by (induction xs rule: pair_inputs.induct) auto

function build_layers :: "(string \<Rightarrow> string) \<Rightarrow> string list \<Rightarrow> string list list" where
  "build_layers H current =
     (if length current \<le> 1 then [current] else current # build_layers H (next_layer H current))"
  by pat_completeness auto
termination
  by (relation "measure (\<lambda>(H, c). length c)") (auto simp: next_layer_def length_pair_inputs)

declare build_layers.simps [simp del]

definition padded_leaves :: "(string \<Rightarrow> string) \<Rightarrow> string list \<Rightarrow> string list" where
  "padded_leaves H hashes =
     (let leaves = map (hash_leaf H) hashes
      in if length leaves mod 2 = 1 \<and> 1 < length leaves then leaves @ [last leaves] else leaves)"

definition merkle_init :: "(string \<Rightarrow> string) \<Rightarrow> string list \<Rightarrow> merkle_tree" where
  "merkle_init H hashes =
     (if hashes = [] then \<lparr>mt_layers = [], mt_root = H ''empty'', mt_leaf_count = 0\<rparr>
      else let layers = build_layers H (padded_leaves H hashes)
           in \<lparr>mt_layers = layers, mt_root = hd (last layers), mt_leaf_count = length hashes\<rparr>)"

definition depth :: "merkle_tree \<Rightarrow> nat" where
  "depth t = (if mt_layers t = [] then 0 else length (mt_layers t) - 1)"

definition proof_step :: "string list \<Rightarrow> nat \<Rightarrow> MerkleProofStep" where
  "proof_step layer idx =
     (if idx mod 2 = 0
      then \<lparr>ps_position = ''right'', ps_hash = (if idx + 1 < length layer then layer ! (idx + 1) else layer ! idx)\<rparr>
      else \<lparr>ps_position = ''left'', ps_hash = layer ! (idx - 1)\<rparr>)"

fun proof_steps :: "string list list \<Rightarrow> nat \<Rightarrow> MerkleProofStep list" where
  "proof_steps [] idx = []"
| "proof_steps (layer # layers) idx = proof_step layer idx # proof_steps layers (idx div 2)"

definition generate_proof :: "merkle_tree \<Rightarrow> int \<Rightarrow> py_error + MerkleProofStep list" where
  "generate_proof t index =
     (if mt_layers t = [] \<or> index < 0 \<or> int (mt_leaf_count t) \<le> index then Inl IndexError
      else Inr (proof_steps (butlast (mt_layers t)) (nat index)))"

definition apply_step :: "(string \<Rightarrow> string) \<Rightarrow> string \<Rightarrow> MerkleProofStep \<Rightarrow> string" where
  "apply_step H current s =
     (if ps_position s = ''right'' then hash_pair H current (ps_hash s) else hash_pair H (ps_hash s) current)"

definition verify_proof :: "(string \<Rightarrow> string) \<Rightarrow> string \<Rightarrow> MerkleProofStep list \<Rightarrow> string \<Rightarrow> bool" where
  "verify_proof H event_hash path expected \<longleftrightarrow> foldl (apply_step H) (hash_leaf H event_hash) path = expected"

section \<open>Module-level functions\<close>

definition compute_merkle_root :: "(string \<Rightarrow> string) \<Rightarrow> string list \<Rightarrow> string" where
  "compute_merkle_root H hashes = mt_root (merkle_init H hashes)"

definition generate_proof_for :: "(string \<Rightarrow> string) \<Rightarrow> string list \<Rightarrow> int \<Rightarrow> py_error + MerkleProofStep list" where
  "generate_proof_for H hashes index = generate_proof (merkle_init H hashes) index"

section \<open>Completeness of proofs\<close>

lemma next_layer_nth:
  assumes "i < length xs"
  shows "next_layer H xs ! (i div 2) = apply_step H (xs ! i) (proof_step xs i) \<and>
         i div 2 < length (next_layer H xs)"
  using assms
proof (induction xs arbitrary: i rule: pair_inputs.induct)
  case (2 x)
  then show ?case by (simp add: next_layer_def apply_step_def proof_step_def hash_pair_def)
next
  case (3 x y r)
  show ?case
  proof (cases "i < 2")
    case True
    then have "i = 0 \<or> i = 1" by auto
    then show ?thesis by (auto simp: next_layer_def apply_step_def proof_step_def hash_pair_def)
  next
    case False
    then obtain j where i: "i = Suc (Suc j)" by (metis One_nat_def Suc_1 add_2_eq_Suc le_add_diff_inverse not_less)
    with 3 have "next_layer H r ! (j div 2) = apply_step H (r ! j) (proof_step r j)" "j div 2 < length (next_layer H r)"
      by simp_all
    moreover have "proof_step (x # y # r) i = proof_step r j"
      using i 3 by (cases j) (auto simp: proof_step_def)
    ultimately show ?thesis using i by (simp add: next_layer_def)
  qed
qed simp

lemma build_layers_not_Nil [simp]: "build_layers H xs \<noteq> []"
  by (subst build_layers.simps) simp

lemma proof_reaches_root:
  "i < length xs \<Longrightarrow>
   foldl (apply_step H) (xs ! i) (proof_steps (butlast (build_layers H xs)) i) = hd (last (build_layers H xs))"
proof (induction H xs arbitrary: i rule: build_layers.induct)
  case (1 H xs)
  show ?case
  proof (cases "length xs \<le> 1")
    case True
    with 1(2) have "xs = [xs ! 0]" "i = 0" by (cases xs; simp)+
    with True show ?thesis by (metis build_layers.simps butlast.simps(2) foldl_Nil last_ConsL list.sel(1) proof_steps.simps(1))
  next
    case False
    with next_layer_nth [OF 1(2), of H] 1(1) [OF False, of "i div 2"] show ?thesis
      by (simp add: build_layers.simps [of H xs])
  qed
qed

lemma padded_leaves_nth:
  "i < length hashes \<Longrightarrow> padded_leaves H hashes ! i = hash_leaf H (hashes ! i) \<and> i < length (padded_leaves H hashes)"
  by (auto simp: padded_leaves_def Let_def nth_append)

lemma merkle_path_verifies:
  assumes "i < length hashes"
  shows "\<exists>path. generate_proof (merkle_init H hashes) (int i) = Inr path \<and>
               verify_proof H (hashes ! i) path (mt_root (merkle_init H hashes))"
proof -
  have ne: "hashes \<noteq> []" using assms by auto
  have "foldl (apply_step H) (hash_leaf H (hashes ! i))
      (proof_steps (butlast (build_layers H (padded_leaves H hashes))) i) =
      hd (last (build_layers H (padded_leaves H hashes)))"
    using padded_leaves_nth [OF assms, of H] proof_reaches_root [of i "padded_leaves H hashes" H] by simp
  then show ?thesis
    using assms ne by (simp add: generate_proof_def merkle_init_def Let_def verify_proof_def)
qed

text \<open>
  Every event of a tree has an inclusion proof, and the proof verifies
  against the tree's root, for any digest function.
\<close>

theorem merkle_proof_complete:
  assumes "i < length hashes"
  shows "\<exists>path. generate_proof (merkle_init H hashes) (int i) = Inr path \<and>
               verify_proof H (hashes ! i) path (mt_root (merkle_init H hashes))"
  using assms by (rule merkle_path_verifies)

text \<open>A stand-in digest for concrete runs.\<close>

definition toy_digest :: "string \<Rightarrow> string" where
  "toy_digest s =
     (let n = length s mod 63; c = (if s = [] then CHR ''0'' else last s)
      in replicate n (CHR ''1'') @ replicate (63 - n) (CHR ''0'') @ [if c = CHR ''|'' then CHR ''p'' else c])"

theorem merkle_proof_complete_witness:
  "\<exists>path. generate_proof (merkle_init toy_digest [''a'', ''b'', ''c'']) (int 2) = Inr path \<and>
         verify_proof toy_digest ([''a'', ''b'', ''c''] ! 2) path (mt_root (merkle_init toy_digest [''a'', ''b'', ''c'']))"
  by (rule merkle_proof_complete) simp

section \<open>Soundness\<close>

definition hex_digest :: "(string \<Rightarrow> string) \<Rightarrow> bool" where
  "hex_digest H \<longleftrightarrow> (\<forall>x. length (H x) = 64 \<and> CHR ''|'' \<notin> set (H x))"

text \<open>The strings hashed while a tree is built, and while a proof is checked.\<close>

definition tree_inputs :: "(string \<Rightarrow> string) \<Rightarrow> string list \<Rightarrow> string list" where
  "tree_inputs H hashes =
     map leaf_input hashes @ concat (map pair_inputs (butlast (build_layers H (padded_leaves H hashes))))"

definition step_input :: "string \<Rightarrow> MerkleProofStep \<Rightarrow> string" where
  "step_input current s = (if ps_position s = ''right'' then pair_input current (ps_hash s) else pair_input (ps_hash s) current)"

fun step_inputs :: "(string \<Rightarrow> string) \<Rightarrow> string \<Rightarrow> MerkleProofStep list \<Rightarrow> string list" where
  "step_inputs H current [] = []"
| "step_inputs H current (s # ss) = step_input current s # step_inputs H (apply_step H current s) ss"

definition proof_inputs :: "(string \<Rightarrow> string) \<Rightarrow> string \<Rightarrow> MerkleProofStep list \<Rightarrow> string list" where
  "proof_inputs H e path = leaf_input e # step_inputs H (hash_leaf H e) path"

lemma apply_step_input: "apply_step H current s = H (step_input current s)"
  by (simp add: apply_step_def step_input_def hash_pair_def)

lemma step_inputs_snoc:
  "step_inputs H c (ss @ [s]) = step_inputs H c ss @ [step_input (foldl (apply_step H) c ss) s]"
  by (induction ss arbitrary: c) simp_all

lemma pair_input_inj:
  "length l = length l' \<Longrightarrow> pair_input l r = pair_input l' r' \<longleftrightarrow> l = l' \<and> r = r'"
  by (simp add: pair_input_def)

lemma pair_not_leaf: "length l = 64 \<Longrightarrow> CHR ''|'' \<notin> set l \<Longrightarrow> pair_input l r \<noteq> leaf_input h"
proof
  assume l: "length l = 64" "CHR ''|'' \<notin> set l" and eq: "pair_input l r = leaf_input h"
  have "pair_input l r ! 4 = l ! 4" using l(1) by (simp add: pair_input_def nth_append)
  moreover have "leaf_input h ! 4 = CHR ''|''" by (simp add: leaf_input_def)
  ultimately have "l ! 4 = CHR ''|''" using eq by simp
  moreover have "l ! 4 \<in> set l" using l(1) by simp
  ultimately show False using l(2) by simp
qed

lemma pair_inputs_mem:
  "x \<in> set (pair_inputs xs) \<Longrightarrow> \<exists>l \<in> set xs. \<exists>r \<in> set xs. x = pair_input l r"
  by (induction xs rule: pair_inputs.induct) auto

lemma next_layer_digest: "hex_digest H \<Longrightarrow> x \<in> set (next_layer H xs) \<Longrightarrow> length x = 64 \<and> CHR ''|'' \<notin> set x"
  by (auto simp: next_layer_def hex_digest_def)

lemma hash_leaf_digest: "hex_digest H \<Longrightarrow> length (hash_leaf H h) = 64 \<and> CHR ''|'' \<notin> set (hash_leaf H h)"
  by (simp add: hash_leaf_def hex_digest_def)

text \<open>
  A node on the path of a checked proof is a node of the tree: the layers are walked down
  from the root, one proof step per layer.
\<close>

definition node_in :: "(string \<Rightarrow> string) \<Rightarrow> string list list \<Rightarrow> string \<Rightarrow> bool" where
  "node_in H layers x \<longleftrightarrow> (\<exists>layer \<in> set layers. x \<in> set layer)"

lemma build_layers_parent:
  assumes "layer \<in> set (build_layers H xs)" and "x \<in> set layer"
  shows "x \<in> set xs \<or> (\<exists>lower \<in> set (butlast (build_layers H xs)). \<exists>inp \<in> set (pair_inputs lower). x = H inp)"
  using assms
proof (induction H xs rule: build_layers.induct)
  case (1 H xs)
  show ?case
  proof (cases "length xs \<le> 1")
    case True
    then show ?thesis using 1(2,3) by (simp add: build_layers.simps [of H xs])
  next
    case False
    have bl: "build_layers H xs = xs # build_layers H (next_layer H xs)"
      using False by (simp add: build_layers.simps [of H xs])
    show ?thesis
    proof (cases "layer = xs")
      case False
      with 1(2) bl have "layer \<in> set (build_layers H (next_layer H xs))" by simp
      with 1(1) [OF \<open>\<not> length xs \<le> 1\<close> this 1(3)] bl show ?thesis
        by (auto simp: next_layer_def)
    qed (use 1(3) in simp)
  qed
qed

lemma lower_layer_nodes:
  "lower \<in> set (butlast ls) \<Longrightarrow> l \<in> set lower \<Longrightarrow> node_in H ls l"
  by (auto simp: node_in_def dest: in_set_butlastD)

lemma padded_leaves_set: "hashes \<noteq> [] \<Longrightarrow> set (padded_leaves H hashes) = hash_leaf H ` set hashes"
  by (auto simp: padded_leaves_def Let_def last_map)

lemma layer_digest:
  assumes "hex_digest H" and "node_in H (build_layers H (padded_leaves H hashes)) x" and "hashes \<noteq> []"
  shows "length x = 64 \<and> CHR ''|'' \<notin> set x"
proof -
  obtain layer where "layer \<in> set (build_layers H (padded_leaves H hashes))" "x \<in> set layer"
    using assms(2) by (auto simp: node_in_def)
  from build_layers_parent [OF this] show ?thesis
    using assms padded_leaves_set [OF assms(3), of H] hash_leaf_digest
    by (auto simp: hex_digest_def)
qed

definition digest_steps :: "MerkleProofStep list \<Rightarrow> bool" where
  "digest_steps path = list_all (\<lambda>s. length (ps_hash s) = 64 \<and> CHR ''|'' \<notin> set (ps_hash s)) path"

lemma verified_node_is_leaf:
  assumes dig: "hex_digest H" and ne: "hashes \<noteq> []" and wf: "digest_steps path"
    and inj: "inj_on H (set (tree_inputs H hashes) \<union> set (proof_inputs H e path))"
    and node: "node_in H (build_layers H (padded_leaves H hashes)) (foldl (apply_step H) (hash_leaf H e) path)"
  shows "e \<in> set hashes"
  using wf inj node
proof (induction path rule: rev_induct)
  let ?ls = "build_layers H (padded_leaves H hashes)"
  have parent: "(\<exists>h \<in> set hashes. x = H (leaf_input h)) \<or>
      (\<exists>l r. node_in H ?ls l \<and> node_in H ?ls r \<and> pair_input l r \<in> set (tree_inputs H hashes) \<and> x = H (pair_input l r))"
    if n: "node_in H ?ls x" for x
  proof -
    obtain layer where "layer \<in> set ?ls" "x \<in> set layer" using n by (auto simp: node_in_def)
    from build_layers_parent [OF this] consider (leaf) "x \<in> set (padded_leaves H hashes)"
      | (inner) lower inp where "lower \<in> set (butlast ?ls)" "inp \<in> set (pair_inputs lower)" "x = H inp"
      by blast
    then show ?thesis
    proof cases
      case leaf
      then show ?thesis using padded_leaves_set [OF ne, of H] by (auto simp: hash_leaf_def)
    next
      case inner
      obtain l r where lr: "l \<in> set lower" "r \<in> set lower" "inp = pair_input l r"
        using pair_inputs_mem [OF inner(2)] by blast
      have "inp \<in> set (tree_inputs H hashes)" using inner(1,2) by (auto simp: tree_inputs_def)
      with lr inner lower_layer_nodes [OF inner(1)] show ?thesis by blast
    qed
  qed
  {
    case Nil
    have e: "leaf_input e \<in> set (tree_inputs H hashes) \<union> set (proof_inputs H e [])"
      by (simp add: proof_inputs_def)
    from parent [OF Nil(3)] consider (leaf) h where "h \<in> set hashes" "H (leaf_input e) = H (leaf_input h)"
      | (inner) l r where "node_in H ?ls l" "pair_input l r \<in> set (tree_inputs H hashes)"
          "H (leaf_input e) = H (pair_input l r)"
      by (auto simp: hash_leaf_def)
    then show ?case
    proof cases
      case leaf
      moreover have "leaf_input h \<in> set (tree_inputs H hashes)" using leaf(1) by (simp add: tree_inputs_def)
      ultimately have "leaf_input e = leaf_input h" using inj_onD [OF Nil(2) leaf(2) e] by simp
      then show ?thesis using leaf(1) by (simp add: leaf_input_def)
    next
      case inner
      then have "leaf_input e = pair_input l r" using inj_onD [OF Nil(2) inner(3) e] by simp
      then show ?thesis using pair_not_leaf layer_digest [OF dig inner(1) ne] by metis
    qed
  next
    case (snoc s path)
    let ?c = "foldl (apply_step H) (hash_leaf H e) path"
    have sub: "set (proof_inputs H e path) \<subseteq> set (proof_inputs H e (path @ [s]))"
      by (auto simp: proof_inputs_def step_inputs_snoc)
    have inj': "inj_on H (set (tree_inputs H hashes) \<union> set (proof_inputs H e path))"
      by (rule inj_on_subset [OF snoc.prems(2)]) (use sub in blast)
    have si: "step_input ?c s \<in> set (tree_inputs H hashes) \<union> set (proof_inputs H e (path @ [s]))"
      by (simp add: proof_inputs_def step_inputs_snoc)
    have c64: "length ?c = 64"
      using dig hash_leaf_digest [OF dig] by (cases path rule: rev_cases) (simp_all add: hex_digest_def apply_step_input)
    have c_clean: "CHR ''|'' \<notin> set ?c"
      using dig hash_leaf_digest [OF dig] by (cases path rule: rev_cases) (simp_all add: hex_digest_def apply_step_input)
    have s64: "length (ps_hash s) = 64" and wf': "digest_steps path"
      using snoc.prems(1) by (simp_all add: digest_steps_def)
    define a b where "a = (if ps_position s = ''right'' then ?c else ps_hash s)"
      and "b = (if ps_position s = ''right'' then ps_hash s else ?c)"
    then have ab: "step_input ?c s = pair_input a b" "length a = 64" "?c = a \<or> ?c = b"
      using c64 s64 by (simp_all add: step_input_def)
    have a_digest: "CHR ''|'' \<notin> set a"
      using snoc.prems(1) c_clean by (simp add: a_def digest_steps_def)
    from parent [OF snoc.prems(3)] consider (leaf) h where "h \<in> set hashes" "H (step_input ?c s) = H (leaf_input h)"
      | (inner) l r where "node_in H ?ls l" "node_in H ?ls r" "pair_input l r \<in> set (tree_inputs H hashes)"
          "H (step_input ?c s) = H (pair_input l r)"
      by (auto simp: apply_step_input [of H ?c s])
    then show ?case
    proof cases
      case leaf
      have "leaf_input h \<in> set (tree_inputs H hashes)" using leaf(1) by (simp add: tree_inputs_def)
      then have "pair_input a b = leaf_input h" using inj_onD [OF snoc.prems(2) leaf(2) si] ab(1) by simp
      then show ?thesis using pair_not_leaf [OF ab(2) a_digest] by metis
    next
      case inner
      have "pair_input a b = pair_input l r" using inj_onD [OF snoc.prems(2) inner(4) si] inner(3) ab(1) by simp
      then have "a = l \<and> b = r" using pair_input_inj ab(2) layer_digest [OF dig inner(1) ne] by simp
      then have "node_in H ?ls ?c" using ab(3) inner(1,2) by auto
      then show ?thesis using snoc.IH [OF wf' inj'] by blast
    qed
  }
qed

text \<open>
  Claim C39 (safety). Inclusion proofs are sound: if a proof whose siblings have the form of
  digests verifies an event hash against the root of a non-empty tree, and no two of the
  strings hashed in building the tree and in checking the proof collide, then the event hash
  is one of the tree's. The proof may have any length: the leaf prefix separates the levels.
\<close>

theorem merkle_proof_sound:
  assumes "hex_digest H" and "hashes \<noteq> []" and "digest_steps path"
    and "inj_on H (set (tree_inputs H hashes) \<union> set (proof_inputs H e path))"
    and "verify_proof H e path (mt_root (merkle_init H hashes))"
  shows "e \<in> set hashes"
proof (rule verified_node_is_leaf [OF assms(1-4)])
  let ?ls = "build_layers H (padded_leaves H hashes)"
  have "length (last (build_layers H xs)) = 1" if "xs \<noteq> []" for xs
    using that
  proof (induction H xs rule: build_layers.induct)
    case (1 H xs)
    show ?case
    proof (cases "length xs \<le> 1")
      case True
      with 1(2) show ?thesis by (cases xs) (simp_all add: build_layers.simps)
    next
      case False
      then have "next_layer H xs \<noteq> []" by (cases xs rule: pair_inputs.cases) (simp_all add: next_layer_def)
      with 1(1) [OF False] False show ?thesis by (simp add: build_layers.simps [of H xs])
    qed
  qed
  moreover have "padded_leaves H hashes \<noteq> []" using assms(2) by (simp add: padded_leaves_def Let_def)
  ultimately have "hd (last ?ls) \<in> set (last ?ls)" by (metis hd_in_set length_0_conv zero_neq_one)
  then have "node_in H ?ls (hd (last ?ls))" unfolding node_in_def using last_in_set build_layers_not_Nil by blast
  then show "node_in H ?ls (foldl (apply_step H) (hash_leaf H e) path)"
    using assms(2,5) by (simp add: verify_proof_def merkle_init_def Let_def)
qed

lemma toy_digest_hex: "hex_digest toy_digest"
  by (auto simp: hex_digest_def toy_digest_def Let_def)

lemma inj_on_distinct: "distinct (map f (remdups xs)) \<Longrightarrow> inj_on f (set xs)"
  by (metis distinct_map set_remdups)

theorem merkle_proof_sound_witness:
  "''b'' \<in> set [''a'', ''b'']"
proof (rule merkle_proof_sound [where H = toy_digest
      and path = "[\<lparr>ps_position = ''left'', ps_hash = hash_leaf toy_digest ''a''\<rparr>]"])
  show "inj_on toy_digest (set (tree_inputs toy_digest [''a'', ''b'']) \<union>
      set (proof_inputs toy_digest ''b'' [\<lparr>ps_position = ''left'', ps_hash = hash_leaf toy_digest ''a''\<rparr>]))"
    unfolding set_append [symmetric] by (rule inj_on_distinct) code_simp
  show "digest_steps [\<lparr>ps_position = ''left'', ps_hash = hash_leaf toy_digest ''a''\<rparr>]"
    using hash_leaf_digest [OF toy_digest_hex] by (simp add: digest_steps_def)
  show "verify_proof toy_digest ''b'' [\<lparr>ps_position = ''left'', ps_hash = hash_leaf toy_digest ''a''\<rparr>]
      (mt_root (merkle_init toy_digest [''a'', ''b'']))"
    by code_simp
qed (simp_all add: toy_digest_hex)

text \<open>
  Domain separation covers well-formed siblings only: a sibling with the
  text \<open>leaf\<close>, on the left, lifts the leaf digest of an event to the leaf digest of that
  digest. An event hash that is not in a tree holding its leaf digest as an event hash then
  verifies against the tree's root.
\<close>

theorem leaf_prefix_forgery:
  "verify_proof H e [\<lparr>ps_position = ''left'', ps_hash = ''leaf''\<rparr>] (mt_root (merkle_init H [hash_leaf H e]))"
  by (simp add: verify_proof_def merkle_init_def padded_leaves_def Let_def build_layers.simps apply_step_def
      hash_pair_def hash_leaf_def pair_input_def leaf_input_def)

section \<open>Tamper evidence\<close>

lemma pair_inputs_inj:
  assumes "length xs = length ys" and "list_all (\<lambda>x. length x = 64) xs" and "list_all (\<lambda>x. length x = 64) ys"
    and "pair_inputs xs = pair_inputs ys"
  shows "xs = ys"
  using assms
proof (induction xs arbitrary: ys rule: pair_inputs.induct)
  case (2 x)
  then show ?case by (cases ys rule: pair_inputs.cases) (auto simp: pair_input_inj)
next
  case (3 x y r)
  then obtain x' y' r' where "ys = x' # y' # r'" by (cases ys rule: pair_inputs.cases) auto
  with 3 show ?case by (auto simp: pair_input_inj)
qed simp

lemma build_layers_root_inj:
  assumes "hex_digest H" and "length xs = length ys" and "list_all (\<lambda>x. length x = 64) xs"
    and "list_all (\<lambda>x. length x = 64) ys"
    and "inj_on H (set (concat (map pair_inputs (butlast (build_layers H xs)))) \<union>
                   set (concat (map pair_inputs (butlast (build_layers H ys)))))"
    and "hd (last (build_layers H xs)) = hd (last (build_layers H ys))"
  shows "xs = ys"
  using assms
proof (induction H xs arbitrary: ys rule: build_layers.induct)
  case (1 H xs)
  show ?case
  proof (cases "length xs \<le> 1")
    case True
    with 1(3,7) show ?thesis by (cases xs; cases ys) (simp_all add: build_layers.simps)
  next
    case False
    have blx: "build_layers H xs = xs # build_layers H (next_layer H xs)"
      and bly: "build_layers H ys = ys # build_layers H (next_layer H ys)"
      using False 1(3) by (simp_all add: build_layers.simps [of H xs] build_layers.simps [of H ys])
    have d: "list_all (\<lambda>x. length x = 64) (next_layer H zs)" for zs
      using 1(2) by (simp add: list_all_iff next_layer_def hex_digest_def)
    have "next_layer H xs = next_layer H ys"
    proof (rule 1(1) [OF False])
      show "inj_on H (set (concat (map pair_inputs (butlast (build_layers H (next_layer H xs))))) \<union>
                     set (concat (map pair_inputs (butlast (build_layers H (next_layer H ys))))))"
        by (rule inj_on_subset [OF 1(6)]) (auto simp: blx bly)
    qed (use 1(2,3,7) d blx bly in \<open>simp_all add: next_layer_def length_pair_inputs\<close>)
    moreover have "inj_on H (set (pair_inputs xs) \<union> set (pair_inputs ys))"
      by (rule inj_on_subset [OF 1(6)]) (auto simp: blx bly)
    ultimately have "pair_inputs xs = pair_inputs ys"
      unfolding next_layer_def by (rule map_inj_on)
    then show ?thesis using pair_inputs_inj 1(3,4,5) by blast
  qed
qed

lemma padded_leaves_inj:
  assumes "length xs = length ys" and "padded_leaves H xs = padded_leaves H ys"
  shows "map (hash_leaf H) xs = map (hash_leaf H) ys"
  using assms by (auto simp: padded_leaves_def Let_def split: if_splits)

text \<open>
  The root commits to the whole sequence: two sequences of the same length
  with the same root are equal, unless two of the strings hashed for their trees collide. No
  event hash can be replaced, and no two exchanged, under an unchanged root.
\<close>

theorem merkle_root_commits:
  assumes "hex_digest H" and "length xs = length ys"
    and "inj_on H (set (tree_inputs H xs) \<union> set (tree_inputs H ys))"
    and "compute_merkle_root H xs = compute_merkle_root H ys"
  shows "xs = ys"
proof (cases "xs = []")
  case True
  then show ?thesis using assms(2) by simp
next
  case False
  then have ne: "ys \<noteq> []" using assms(2) by auto
  have d: "list_all (\<lambda>x. length x = 64) (padded_leaves H zs)" if "zs \<noteq> []" for zs
    using padded_leaves_set [OF that, of H] hash_leaf_digest [OF assms(1)] by (auto simp: list_all_iff)
  have "padded_leaves H xs = padded_leaves H ys"
  proof (rule build_layers_root_inj [OF assms(1)])
    show "length (padded_leaves H xs) = length (padded_leaves H ys)"
      using assms(2) by (simp add: padded_leaves_def Let_def)
    show "inj_on H (set (concat (map pair_inputs (butlast (build_layers H (padded_leaves H xs))))) \<union>
        set (concat (map pair_inputs (butlast (build_layers H (padded_leaves H ys))))))"
      by (rule inj_on_subset [OF assms(3)]) (auto simp: tree_inputs_def)
    show "hd (last (build_layers H (padded_leaves H xs))) = hd (last (build_layers H (padded_leaves H ys)))"
      using assms(4) False ne by (simp add: compute_merkle_root_def merkle_init_def Let_def)
  qed (use d False ne in blast)+
  then have "map H (map leaf_input xs) = map H (map leaf_input ys)"
    using padded_leaves_inj [OF assms(2), of H] by (simp add: hash_leaf_def [abs_def] comp_def)
  moreover have "inj_on H (set (map leaf_input xs) \<union> set (map leaf_input ys))"
    by (rule inj_on_subset [OF assms(3)]) (auto simp: tree_inputs_def)
  ultimately have "map leaf_input xs = map leaf_input ys" by (rule map_inj_on)
  moreover have "inj_on leaf_input (set xs \<union> set ys)" by (auto simp: inj_on_def leaf_input_def)
  ultimately show ?thesis by (rule map_inj_on)
qed

theorem merkle_root_commits_witness:
  "compute_merkle_root toy_digest [''a'', ''b''] \<noteq> compute_merkle_root toy_digest [''b'', ''a'']"
proof
  assume eq: "compute_merkle_root toy_digest [''a'', ''b''] = compute_merkle_root toy_digest [''b'', ''a'']"
  have "inj_on toy_digest (set (tree_inputs toy_digest [''a'', ''b'']) \<union> set (tree_inputs toy_digest [''b'', ''a'']))"
    unfolding set_append [symmetric] by (rule inj_on_distinct) code_simp
  from merkle_root_commits [OF toy_digest_hex _ this eq] show False by simp
qed

text \<open>
  The root does not commit to the number of events: appending a copy of
  the last event to an odd sequence of more than one leaves the root unchanged, for every
  digest function.
\<close>

theorem merkle_root_ignores_duplicate_tail:
  assumes "odd (length xs)" and "1 < length xs"
  shows "compute_merkle_root H (xs @ [last xs]) = compute_merkle_root H xs"
proof -
  have ne: "xs \<noteq> []" using assms(2) by auto
  have "last (map (hash_leaf H) xs) = hash_leaf H (last xs)" using ne by (simp add: last_map)
  then have "padded_leaves H (xs @ [last xs]) = padded_leaves H xs"
    using assms by (auto simp: padded_leaves_def Let_def odd_iff_mod_2_eq_one)
  then show ?thesis using ne by (simp add: compute_merkle_root_def merkle_init_def Let_def)
qed

theorem merkle_root_ignores_duplicate_tail_witness:
  "compute_merkle_root toy_digest ([''a'', ''b'', ''c''] @ [last [''a'', ''b'', ''c'']]) =
   compute_merkle_root toy_digest [''a'', ''b'', ''c'']"
  by (rule merkle_root_ignores_duplicate_tail) simp_all

section \<open>Depth\<close>

lemma build_layers_depth:
  "xs \<noteq> [] \<Longrightarrow> length xs \<le> 2 ^ (length (build_layers H xs) - 1) \<and>
     (length xs \<noteq> 1 \<longrightarrow> 2 ^ (length (build_layers H xs) - 2) < length xs)"
proof (induction H xs rule: build_layers.induct)
  case (1 H xs)
  show ?case
  proof (cases "length xs \<le> 1")
    case True
    with 1(2) show ?thesis by (cases xs) (simp_all add: build_layers.simps)
  next
    case False
    let ?n = "next_layer H xs"
    have len: "length ?n = (length xs + 1) div 2" by (simp add: next_layer_def length_pair_inputs)
    then have "0 < length ?n" using False by simp
    then have ne: "?n \<noteq> []" by simp
    obtain k where k: "length (build_layers H ?n) = Suc k"
      by (metis build_layers_not_Nil length_0_conv not0_implies_Suc)
    have bl: "length (build_layers H xs) = Suc (Suc k)"
      using False k by (simp add: build_layers.simps [of H xs])
    have up: "(length xs + 1) div 2 \<le> 2 ^ k" using 1(1) [OF False ne] k len by simp
    have low: "2 ^ (k - 1) < (length xs + 1) div 2 \<or> (length xs + 1) div 2 = 1"
      using 1(1) [OF False ne] k len by auto
    have "length xs \<le> 2 ^ Suc k" using up by simp
    moreover have "2 ^ k < length xs"
    proof (cases k)
      case 0
      then show ?thesis using False by simp
    next
      case (Suc j)
      have "length (build_layers H ?n) \<noteq> 1" using k Suc by simp
      then have "\<not> length ?n \<le> 1" by (auto simp: build_layers.simps [of H ?n])
      then have "2 ^ j < (length xs + 1) div 2" using low len Suc by simp
      then show ?thesis using Suc by simp
    qed
    ultimately show ?thesis using bl by simp
  qed
qed

text \<open>
  Proofs have logarithmic length: for a tree over \<open>n > 1\<close> events a proof has
  \<open>depth\<close> steps with \<open>2 ^ (depth - 1) \<le> n \<le> 2 ^ depth\<close>.
\<close>

theorem merkle_proof_length:
  assumes "1 < length hashes" and "generate_proof (merkle_init H hashes) i = Inr path"
  shows "length path = depth (merkle_init H hashes) \<and>
         length hashes \<le> 2 ^ depth (merkle_init H hashes) \<and>
         2 ^ (depth (merkle_init H hashes) - 1) \<le> length hashes"
proof -
  let ?ls = "build_layers H (padded_leaves H hashes)"
  have ne: "hashes \<noteq> []" using assms(1) by auto
  have "length (proof_steps layers j) = length layers" for layers j
    by (induction layers arbitrary: j) simp_all
  moreover have "path = proof_steps (butlast ?ls) (nat i)"
    using assms(2) ne by (auto simp: generate_proof_def merkle_init_def Let_def split: if_splits)
  ultimately have "length path = length ?ls - 1" by simp
  moreover have dp: "depth (merkle_init H hashes) = length ?ls - 1"
    using ne by (simp add: depth_def merkle_init_def Let_def)
  moreover have pl: "length (padded_leaves H hashes) = length hashes \<or> length (padded_leaves H hashes) = Suc (length hashes)"
    by (simp add: padded_leaves_def Let_def)
  moreover have "padded_leaves H hashes \<noteq> []" using ne by (simp add: padded_leaves_def Let_def)
  from build_layers_depth [OF this, of H] pl assms(1)
  have "length hashes \<le> 2 ^ (length ?ls - 1)" "2 ^ (length ?ls - 1 - 1) < Suc (length hashes) + 0"
    by (auto simp: numeral_2_eq_2)
  ultimately show ?thesis by simp
qed

theorem merkle_proof_length_witness:
  "\<exists>path. generate_proof (merkle_init toy_digest [''a'', ''b'', ''c'']) 1 = Inr path \<and> length path = 2"
proof -
  have "isl (generate_proof (merkle_init toy_digest [''a'', ''b'', ''c'']) 1) = False" by code_simp
  then obtain path where p: "generate_proof (merkle_init toy_digest [''a'', ''b'', ''c'']) 1 = Inr path"
    by (metis sum.collapse(2))
  moreover have "depth (merkle_init toy_digest [''a'', ''b'', ''c'']) = 2" by code_simp
  ultimately show ?thesis using merkle_proof_length [OF _ p] by simp
qed

end
