(* ===== verification/CteHashing.thy ===== *)
theory CteHashing
  imports MerkleTree
begin

text \<open>
  \<^verbatim>\<open>services/shared/cte_persistence/hashing.py\<close>: the normalisation of values before they are
  serialised, the event hash, the chain hash and the idempotency key. The digest is the
  parameter \<open>H\<close>, as in the Merkle tree; JSON text and ISO timestamps come from the runtime.
\<close>

section \<open>Normalisation\<close>

text \<open>\<open>format(d, "f")\<close> for a decimal with sign, coefficient and exponent.\<close>

definition decimal_fixed :: "bool \<Rightarrow> nat \<Rightarrow> int \<Rightarrow> string" where
  "decimal_fixed neg c e0 =
     (let e = (if c = 0 \<and> 0 < e0 then 0 else e0); ds = nat_str c; dot = e + int (length ds);
          (ip, fp) = (if dot < 0 then (''0'', replicate (nat (- dot)) (CHR ''0'') @ ds)
                      else if int (length ds) < dot then (ds @ replicate (nat dot - length ds) (CHR ''0''), [])
                      else (if dot = 0 then ''0'' else take (nat dot) ds, drop (nat dot) ds))
      in (if neg then ''-'' else []) @ ip @ (if fp = [] then [] else ''.'' @ fp))"

fun normalize_for_hashing :: "pyrt \<Rightarrow> pyval \<Rightarrow> pyval" where
  "normalize_for_hashing rt (PDatetime d) = PStr (rt_isoformat rt (PDatetime d))"
| "normalize_for_hashing rt (PDate d) = PStr (rt_isoformat rt (PDate d))"
| "normalize_for_hashing rt (PDecimal neg c e) = PStr (decimal_fixed neg c e)"
| "normalize_for_hashing rt (PUUID u) = PStr u"
| "normalize_for_hashing rt (PDict d) = PDict (map (\<lambda>p. (fst p, normalize_for_hashing rt (snd p))) d)"
| "normalize_for_hashing rt (PList xs) = PList (map (normalize_for_hashing rt) xs)"
| "normalize_for_hashing rt (PTuple xs) = PList (map (normalize_for_hashing rt) xs)"
| "normalize_for_hashing rt v = v"

section \<open>Hashes\<close>

definition description_keys :: "string list" where
  "description_keys = [''product_description'', ''description'', ''item_description'']"

definition stable_kdes :: "pydict \<Rightarrow> pydict" where
  "stable_kdes kdes = filter (\<lambda>(k, _). k \<notin> set description_keys) kdes"

definition event_fields ::
  "pyrt \<Rightarrow> string \<Rightarrow> string \<Rightarrow> string \<Rightarrow> pyfloat \<Rightarrow> string \<Rightarrow> string option \<Rightarrow> string \<Rightarrow> string list" where
  "event_fields rt event_id event_type tlc quantity uom gln timestamp =
     [event_id, event_type, tlc, py_str rt (PFloat quantity), uom, str_or gln [], timestamp]"

definition compute_event_hash ::
  "pyrt \<Rightarrow> (string \<Rightarrow> string) \<Rightarrow> string \<Rightarrow> string \<Rightarrow> string \<Rightarrow> string \<Rightarrow> pyfloat \<Rightarrow> string \<Rightarrow> string option \<Rightarrow>
   string option \<Rightarrow> string \<Rightarrow> pydict \<Rightarrow> py_error + string" where
  "compute_event_hash rt H event_id event_type tlc product_description quantity uom gln location_name timestamp kdes =
     and_then (rt_json_sorted rt False (normalize_for_hashing rt (PDict (stable_kdes kdes)))) (\<lambda>js.
       Inr (H (py_join ''|'' (event_fields rt event_id event_type tlc quantity uom gln timestamp @ [js]))))"

definition chain_input :: "string \<Rightarrow> string option \<Rightarrow> string" where
  "chain_input event_hash previous = str_or previous ''GENESIS'' @ ''|'' @ event_hash"

definition compute_chain_hash :: "(string \<Rightarrow> string) \<Rightarrow> string \<Rightarrow> string option \<Rightarrow> string" where
  "compute_chain_hash H event_hash previous = H (chain_input event_hash previous)"

definition compute_idempotency_key ::
  "pyrt \<Rightarrow> (string \<Rightarrow> string) \<Rightarrow> string \<Rightarrow> string \<Rightarrow> string \<Rightarrow> string \<Rightarrow> pydict \<Rightarrow> string option \<Rightarrow> string option \<Rightarrow>
   py_error + string" where
  "compute_idempotency_key rt H event_type tlc timestamp src kdes gln location_name =
     and_then (rt_json_sorted rt True (normalize_for_hashing rt (PDict
         [(''event_type'', PStr event_type), (''tlc'', PStr tlc), (''timestamp'', PStr timestamp),
          (''source'', PStr src), (''location_gln'', PStr (str_or gln [])),
          (''location_name'', PStr (str_or location_name [])), (''kdes'', PDict kdes)])))
       (\<lambda>canonical. Inr (H canonical))"

section \<open>Facts\<close>

lemma normalize_idem [simp]: "normalize_for_hashing rt (normalize_for_hashing rt v) = normalize_for_hashing rt v"
  by (induction rt v rule: normalize_for_hashing.induct) auto

lemma normalize_PDict_values:
  "normalize_for_hashing rt (PDict (map (\<lambda>p. (fst p, normalize_for_hashing rt (snd p))) d)) =
   normalize_for_hashing rt (PDict d)"
  by simp

lemma stable_kdes_map:
  "stable_kdes (map (\<lambda>p. (fst p, f (snd p))) d) = map (\<lambda>p. (fst p, f (snd p))) (stable_kdes d)"
  by (induction d) (auto simp: stable_kdes_def)

lemma py_join_snoc:
  "xs \<noteq> [] \<Longrightarrow> py_join sep (xs @ [y]) = py_join sep xs @ sep @ y"
  by (induction sep xs rule: py_join.induct) auto

lemma bar_split:
  assumes "CHR ''|'' \<notin> set a" and "CHR ''|'' \<notin> set b" and "a @ ''|'' @ s = b @ ''|'' @ t"
  shows "a = b \<and> s = t"
proof -
  have "takeWhile (\<lambda>c. c \<noteq> CHR ''|'') (x @ ''|'' @ u) = x" if "CHR ''|'' \<notin> set x" for x u :: string
    using that by (induction x) auto
  with assms have "a = b" by metis
  with assms(3) show ?thesis by simp
qed

lemma py_join_bar_inj:
  assumes "length xs = length ys" and "list_all (\<lambda>x. CHR ''|'' \<notin> set x) xs"
    and "list_all (\<lambda>x. CHR ''|'' \<notin> set x) ys" and "py_join ''|'' (xs @ [s]) = py_join ''|'' (ys @ [t])"
  shows "xs = ys \<and> s = t"
  using assms
proof (induction xs arbitrary: ys)
  case (Cons x xs)
  then obtain y ys' where y: "ys = y # ys'" by (cases ys) auto
  have j: "py_join ''|'' (z # zs @ [u]) = z @ ''|'' @ py_join ''|'' (zs @ [u])" for z zs u
    by (cases zs) auto
  have "x @ ''|'' @ py_join ''|'' (xs @ [s]) = y @ ''|'' @ py_join ''|'' (ys' @ [t])"
    using Cons.prems(4) by (simp only: y append_Cons j)
  then have "x = y \<and> py_join ''|'' (xs @ [s]) = py_join ''|'' (ys' @ [t])"
    using bar_split Cons.prems(2,3) y by (metis list.pred_inject(2))
  with Cons y show ?case by simp
qed simp

section \<open>Properties\<close>

text \<open>
  The event hash does not depend on descriptions: neither the product
  description nor the description entries among the KDEs, nor the location name, change it.
\<close>

theorem event_hash_ignores_descriptions:
  assumes "stable_kdes kdes1 = stable_kdes kdes2"
  shows "compute_event_hash rt H event_id event_type tlc desc1 quantity uom gln name1 timestamp kdes1 =
         compute_event_hash rt H event_id event_type tlc desc2 quantity uom gln name2 timestamp kdes2"
  using assms by (simp add: compute_event_hash_def)

theorem event_hash_ignores_descriptions_witness:
  "compute_event_hash example_rt toy_digest ''e'' ''shipping'' ''L1'' ''Kale'' (Fin 3) ''lb'' None (Some ''Dock'') ''t''
     [(''carrier'', PStr ''X''), (''description'', PStr ''old'')] =
   compute_event_hash example_rt toy_digest ''e'' ''shipping'' ''L1'' ''Organic kale'' (Fin 3) ''lb'' None None ''t''
     [(''carrier'', PStr ''X'')]"
  by (rule event_hash_ignores_descriptions) (simp add: stable_kdes_def description_keys_def)

text \<open>
  Without a digest collision the event hash identifies the event: if none of
  the seven scalar fields contains the separator, equal hashes mean equal fields (the
  quantity as it is printed) and equal serialised KDEs.
\<close>

theorem event_hash_identifies:
  assumes "compute_event_hash rt H i1 e1 l1 d1 q1 u1 g1 n1 t1 k1 = Inr h"
    and "compute_event_hash rt H i2 e2 l2 d2 q2 u2 g2 n2 t2 k2 = Inr h"
    and "rt_json_sorted rt False (normalize_for_hashing rt (PDict (stable_kdes k1))) = Inr j1"
    and "rt_json_sorted rt False (normalize_for_hashing rt (PDict (stable_kdes k2))) = Inr j2"
    and "inj_on H {py_join ''|'' (event_fields rt i1 e1 l1 q1 u1 g1 t1 @ [j1]),
                   py_join ''|'' (event_fields rt i2 e2 l2 q2 u2 g2 t2 @ [j2])}"
    and "list_all (\<lambda>x. CHR ''|'' \<notin> set x) (event_fields rt i1 e1 l1 q1 u1 g1 t1)"
    and "list_all (\<lambda>x. CHR ''|'' \<notin> set x) (event_fields rt i2 e2 l2 q2 u2 g2 t2)"
  shows "event_fields rt i1 e1 l1 q1 u1 g1 t1 = event_fields rt i2 e2 l2 q2 u2 g2 t2 \<and> j1 = j2"
proof (rule py_join_bar_inj)
  show "length (event_fields rt i1 e1 l1 q1 u1 g1 t1) = length (event_fields rt i2 e2 l2 q2 u2 g2 t2)"
    by (simp add: event_fields_def)
  have "H (py_join ''|'' (event_fields rt i1 e1 l1 q1 u1 g1 t1 @ [j1])) =
        H (py_join ''|'' (event_fields rt i2 e2 l2 q2 u2 g2 t2 @ [j2]))"
    using assms(1-4) by (simp add: compute_event_hash_def)
  then show "py_join ''|'' (event_fields rt i1 e1 l1 q1 u1 g1 t1 @ [j1]) =
        py_join ''|'' (event_fields rt i2 e2 l2 q2 u2 g2 t2 @ [j2])"
    using inj_onD [OF assms(5)] by blast
qed (use assms(6,7) in blast)+

theorem event_hash_identifies_witness:
  "compute_event_hash example_rt toy_digest ''e'' ''shipping'' ''L1'' [] (Fin 3) ''lb'' None None ''t'' [] \<noteq>
   compute_event_hash example_rt toy_digest ''e'' ''shipping'' ''L10'' [] (Fin 3) ''lb'' None None ''t'' []"
proof
  assume eq: "compute_event_hash example_rt toy_digest ''e'' ''shipping'' ''L1'' [] (Fin 3) ''lb'' None None ''t'' [] =
    compute_event_hash example_rt toy_digest ''e'' ''shipping'' ''L10'' [] (Fin 3) ''lb'' None None ''t'' []"
  obtain h where h: "compute_event_hash example_rt toy_digest ''e'' ''shipping'' ''L1'' [] (Fin 3) ''lb'' None None ''t'' [] = Inr h"
    by (simp add: compute_event_hash_def example_rt_def)
  have j: "rt_json_sorted example_rt False (normalize_for_hashing example_rt (PDict (stable_kdes []))) = Inr ''{}''"
    by (simp add: example_rt_def)
  have "inj_on toy_digest
      {py_join ''|'' (event_fields example_rt ''e'' ''shipping'' ''L1'' (Fin 3) ''lb'' None ''t'' @ [''{}'']),
       py_join ''|'' (event_fields example_rt ''e'' ''shipping'' ''L10'' (Fin 3) ''lb'' None ''t'' @ [''{}''])}"
    unfolding inj_on_def by code_simp
  from event_hash_identifies [OF h h [unfolded eq] j j this]
  show False by (simp add: event_fields_def str_or_def example_rt_def)
qed

text \<open>
  The separator is not escaped: moving a piece of text across it from
  the unit of measure to the location number gives a different event with the same hash.
\<close>

theorem event_hash_separator_ambiguity:
  assumes "b \<noteq> []" and "c \<noteq> []"
  shows "compute_event_hash rt H i e l d q (a @ ''|'' @ b) (Some c) n t k =
         compute_event_hash rt H i e l d q a (Some (b @ ''|'' @ c)) n t k"
  using assms by (simp add: compute_event_hash_def event_fields_def str_or_def)

theorem event_hash_separator_ambiguity_witness:
  "compute_event_hash example_rt toy_digest ''e'' ''shipping'' ''L1'' [] (Fin 3) (''lb'' @ ''|'' @ ''x'') (Some ''y'') None ''t'' [] =
   compute_event_hash example_rt toy_digest ''e'' ''shipping'' ''L1'' [] (Fin 3) ''lb'' (Some (''x'' @ ''|'' @ ''y'')) None ''t'' []"
  by (rule event_hash_separator_ambiguity) simp_all

text \<open>
  Keys survive normalisation: an event whose KDE values were already
  brought into their serialised form (a timestamp as ISO text, a decimal as fixed-point text)
  has the same idempotency key and the same event hash as the event it came from.
\<close>

theorem hashes_stable_under_normalization:
  "compute_idempotency_key rt H event_type tlc timestamp src
     (map (\<lambda>p. (fst p, normalize_for_hashing rt (snd p))) kdes) gln name =
   compute_idempotency_key rt H event_type tlc timestamp src kdes gln name \<and>
   compute_event_hash rt H event_id event_type tlc desc quantity uom gln name timestamp
     (map (\<lambda>p. (fst p, normalize_for_hashing rt (snd p))) kdes) =
   compute_event_hash rt H event_id event_type tlc desc quantity uom gln name timestamp kdes"
  by (simp add: compute_idempotency_key_def compute_event_hash_def stable_kdes_map comp_def)

section \<open>The hash chain\<close>

text \<open>The chain hash after a sequence of events, and the strings hashed on the way.\<close>

fun chain_from :: "(string \<Rightarrow> string) \<Rightarrow> string option \<Rightarrow> string list \<Rightarrow> string option" where
  "chain_from H prev [] = prev"
| "chain_from H prev (e # es) = chain_from H (Some (compute_chain_hash H e prev)) es"

fun chain_inputs :: "(string \<Rightarrow> string) \<Rightarrow> string option \<Rightarrow> string list \<Rightarrow> string list" where
  "chain_inputs H prev [] = []"
| "chain_inputs H prev (e # es) = chain_input e prev # chain_inputs H (Some (compute_chain_hash H e prev)) es"

lemma chain_from_snoc: "chain_from H p (es @ [e]) = Some (compute_chain_hash H e (chain_from H p es))"
  by (induction es arbitrary: p) simp_all

lemma chain_inputs_snoc: "chain_inputs H p (es @ [e]) = chain_inputs H p es @ [chain_input e (chain_from H p es)]"
  by (induction es arbitrary: p) simp_all

lemma chain_digest:
  assumes "hex_digest H" and "chain_from H None es = Some h"
  shows "length h = 64 \<and> CHR ''|'' \<notin> set h"
  using assms by (cases es rule: rev_cases) (auto simp: chain_from_snoc compute_chain_hash_def hex_digest_def)

lemma chain_prefix_clean: "hex_digest H \<Longrightarrow> CHR ''|'' \<notin> set (str_or (chain_from H None es) ''GENESIS'')"
  using chain_digest [of H es] by (cases "chain_from H None es") (auto simp: str_or_def)

lemma chain_state_inj:
  assumes "hex_digest H"
    and "str_or (chain_from H None xs) ''GENESIS'' = str_or (chain_from H None ys) ''GENESIS''"
  shows "chain_from H None xs = chain_from H None ys"
proof -
  have "str_or (chain_from H None zs) ''GENESIS'' =
      (case chain_from H None zs of None \<Rightarrow> ''GENESIS'' | Some h \<Rightarrow> h)" for zs
    using chain_digest [OF assms(1), of zs] by (cases "chain_from H None zs") (auto simp: str_or_def)
  moreover have "h \<noteq> ''GENESIS''" if "chain_from H None zs = Some h" for zs h
    using chain_digest [OF assms(1) that] by auto
  ultimately show ?thesis using assms(2) by (auto split: option.splits)
qed

lemma chain_from_inj:
  assumes "hex_digest H" and "inj_on H (set (chain_inputs H None xs) \<union> set (chain_inputs H None ys))"
    and "chain_from H None xs = chain_from H None ys"
  shows "xs = ys"
  using assms(2,3)
proof (induction xs arbitrary: ys rule: rev_induct)
  case Nil
  then show ?case by (cases ys rule: rev_cases) (simp_all add: chain_from_snoc)
next
  case (snoc x xs)
  then obtain y ys' where y: "ys = ys' @ [y]"
    by (cases ys rule: rev_cases) (simp_all add: chain_from_snoc)
  have "H (chain_input x (chain_from H None xs)) = H (chain_input y (chain_from H None ys'))"
    using snoc.prems(2) y by (simp add: chain_from_snoc compute_chain_hash_def)
  then have "chain_input x (chain_from H None xs) = chain_input y (chain_from H None ys')"
    by (rule inj_onD [OF snoc.prems(1)]) (simp_all add: y chain_inputs_snoc)
  then have "str_or (chain_from H None xs) ''GENESIS'' = str_or (chain_from H None ys') ''GENESIS'' \<and> x = y"
    unfolding chain_input_def
    by (rule bar_split [OF chain_prefix_clean [OF assms(1)] chain_prefix_clean [OF assms(1)]])
  then have "chain_from H None xs = chain_from H None ys'" "x = y"
    using chain_state_inj [OF assms(1)] by auto
  moreover have "inj_on H (set (chain_inputs H None xs) \<union> set (chain_inputs H None ys'))"
    by (rule inj_on_subset [OF snoc.prems(1)]) (auto simp: y chain_inputs_snoc)
  ultimately show ?case using snoc.IH y by blast
qed

text \<open>
  The chain hash commits to the whole history: two ledgers that start from
  the genesis seed and end in the same chain hash hold the same event hashes in the same
  order and number, unless two of the chain inputs hashed for them collide. Altering,
  removing, inserting or reordering any entry changes the head.
\<close>

theorem chain_hash_commits:
  assumes "hex_digest H" and "inj_on H (set (chain_inputs H None xs) \<union> set (chain_inputs H None ys))"
    and "chain_from H None xs = chain_from H None ys"
  shows "xs = ys"
  using assms by (rule chain_from_inj)

theorem chain_hash_commits_witness:
  "chain_from toy_digest None [''a'', ''b''] \<noteq> chain_from toy_digest None [''b'']"
proof
  assume eq: "chain_from toy_digest None [''a'', ''b''] = chain_from toy_digest None [''b'']"
  have "inj_on toy_digest (set (chain_inputs toy_digest None [''a'', ''b'']) \<union> set (chain_inputs toy_digest None [''b'']))"
    unfolding set_append [symmetric] by (rule inj_on_distinct) code_simp
  from chain_hash_commits [OF toy_digest_hex this eq] show False by simp
qed

end
