(* ===== verification/CteStore.thy ===== *)
theory CteStore
  imports CteHashing
begin

text \<open>
  \<^verbatim>\<open>services/shared/cte_persistence/\<close>: \<^verbatim>\<open>core.py\<close> (validation helpers), \<^verbatim>\<open>models.py\<close>, the single-event
  write path (\<^verbatim>\<open>writes.py\<close>) and chain verification (\<^verbatim>\<open>verification.py\<close>).

  The tables are lists of rows in the order of insertion. A write runs in the caller's
  transaction under the tenant's advisory lock; a call that raises is not committed, so it has
  no tables to return. Constraints of the schema that are not spelled out in the code
  (\<^verbatim>\<open>CHECK\<close> clauses and the like) are the predicates \<open>cs_event_ok\<close> and \<open>cs_alert_ok\<close> of the
  environment; primary keys, \<^verbatim>\<open>ON CONFLICT\<close> targets and the unique sequence number are part
  of the statements.
\<close>

section \<open>Tables and results\<close>

record cte_row =
  ce_id :: string
  ce_tenant_id :: string
  ce_event_type :: string
  ce_traceability_lot_code :: string
  ce_product_description :: string
  ce_quantity :: pyfloat
  ce_unit_of_measure :: string
  ce_location_gln :: "string option"
  ce_location_name :: "string option"
  ce_event_timestamp :: string
  ce_event_entry_timestamp :: string
  ce_source :: string
  ce_source_event_id :: "string option"
  ce_idempotency_key :: string
  ce_sha256_hash :: string
  ce_chain_hash :: string
  ce_epcis_event_type :: "string option"
  ce_epcis_action :: "string option"
  ce_epcis_biz_step :: "string option"
  ce_validation_status :: string

record kde_row =
  kr_tenant_id :: string
  kr_cte_event_id :: string
  kr_kde_key :: string
  kr_kde_value :: string
  kr_is_required :: bool

record ChainEntry =
  hc_tenant_id :: string
  hc_cte_event_id :: string
  hc_sequence_num :: int
  hc_event_hash :: string
  hc_previous_chain_hash :: "string option"
  hc_chain_hash :: "string option"

record cte_db =
  cd_events :: "cte_row list"
  cd_kdes :: "kde_row list"
  cd_chain :: "ChainEntry list"
  cd_alerts :: "pydict list"

record StoreResult =
  sr_success :: bool
  sr_event_id :: string
  sr_sha256_hash :: string
  sr_chain_hash :: string
  sr_idempotent :: bool
  sr_errors :: "pyval list"
  sr_alerts :: "pydict list"

record ChainVerification =
  cv_valid :: bool
  cv_chain_length :: nat
  cv_errors :: "string list"
  cv_orphan_chain_rows :: "int list"
  cv_missing_chain_rows :: "string list"
  cv_cte_events_count :: nat

record MerkleVerification =
  mv_valid :: bool
  mv_merkle_root :: "string option"
  mv_chain_length :: nat
  mv_tree_depth :: nat
  mv_errors :: "string list"
  mv_no_chain_evidence :: bool

datatype store_error = Raised py_error | DuplicateEventError string string

text \<open>The interpreter and the schema, as parameters.\<close>

record cte_env =
  cs_rt :: pyrt
  cs_H :: "string \<Rightarrow> string"
  cs_repr :: "pyval \<Rightarrow> string"
  cs_json :: "pyval \<Rightarrow> string"
  cs_event_ok :: "cte_row \<Rightarrow> bool"
  cs_alert_ok :: "pydict \<Rightarrow> bool"

section \<open>Validation helpers (core.py)\<close>

definition validation_status_valid :: string where
  "validation_status_valid = ''valid''"

definition validation_status_warning :: string where
  "validation_status_warning = ''warning''"

definition validation_status_rejected :: string where
  "validation_status_rejected = ''rejected''"

definition reject_severities :: "string list" where
  "reject_severities = [''reject'', ''error'', ''critical'']"

definition is_rejecting_validation_item :: "cte_env \<Rightarrow> pydict \<Rightarrow> bool" where
  "is_rejecting_validation_item env item \<longleftrightarrow>
     (let severity = py_lower (py_strip (py_str (cs_rt env) (dict_get item ''severity'' (PStr []))))
      in if severity \<in> set reject_severities then True
         else dict_get item ''alert_type'' PNone = PStr ''missing_required_kde'')"

definition derive_validation_status :: "cte_env \<Rightarrow> pydict list \<Rightarrow> pydict list \<Rightarrow> string" where
  "derive_validation_status env alerts validator_results =
     (if list_ex (is_rejecting_validation_item env) (alerts @ validator_results) then validation_status_rejected
      else if alerts \<noteq> [] \<or> validator_results \<noteq> [] then validation_status_warning
      else validation_status_valid)"

definition valid_alert_types :: "string list" where
  "valid_alert_types =
     [''missing_kde'', ''temperature_excursion'', ''deadline_approaching'', ''supplier_non_compliant'', ''chain_break'',
      ''export_failure'']"

text \<open>Membership in a frozen set raises on an unhashable value.\<close>

definition normalize_alert_type :: "pyval \<Rightarrow> py_error + pyval" where
  "normalize_alert_type raw_type =
     (if \<not> hashable raw_type then Inl TypeError
      else Inr (case raw_type of
                  PStr s \<Rightarrow> if s \<in> set valid_alert_types then raw_type else PStr ''missing_kde''
                | _ \<Rightarrow> PStr ''missing_kde''))"

definition alert_insert_params :: "string \<Rightarrow> string \<Rightarrow> pydict \<Rightarrow> py_error + pydict" where
  "alert_insert_params tenant_id event_id alert =
     and_then (normalize_alert_type (dict_get alert ''alert_type'' (PStr ''missing_kde''))) (\<lambda>ty.
       Inr [(''tenant_id'', PStr tenant_id), (''org_id'', PStr tenant_id), (''event_id'', PStr event_id),
            (''cte_event_id'', PStr event_id), (''severity'', dict_get alert ''severity'' (PStr ''warning'')),
            (''alert_type'', ty), (''title'', dict_get alert ''alert_type'' (PStr ''Compliance Alert'')),
            (''message'', dict_get alert ''message'' (PStr []))])"

text \<open>Five minutes, in microseconds.\<close>

definition future_skew_tolerance :: int where
  "future_skew_tolerance = 300000000"

text \<open>The end of year 9999, in microseconds: \<open>astimezone\<close> raises outside the years 1 to 9999.\<close>

definition datetime_max :: int where
  "datetime_max = 3652059 * 86400000000"

definition read_timestamp :: "cte_env \<Rightarrow> string \<Rightarrow> pyval \<Rightarrow> py_error + pydatetime" where
  "read_timestamp env field v =
     (case v of
        PDatetime d \<Rightarrow> Inr d
      | PStr s \<Rightarrow>
          (case rt_fromisoformat (cs_rt env) (replace_char (CHR ''Z'') ''+00:00'' (py_strip s)) of
             Inr d \<Rightarrow> Inr d
           | Inl (ValueError _) \<Rightarrow> Inl (ValueError (field @ '' is not a valid ISO-8601 timestamp: '' @ cs_repr env v))
           | Inl e \<Rightarrow> Inl e)
      | _ \<Rightarrow> Inl (ValueError (field @ '' must be a string or datetime, got '' @ type_name v)))"

definition iso_utc :: "cte_env \<Rightarrow> int \<Rightarrow> string" where
  "iso_utc env t = rt_isoformat (cs_rt env) (PDatetime (Datetime t (Some 0)))"

text \<open>The result is the instant in UTC; \<open>now\<close> is the clock.\<close>

definition parse_timestamp :: "cte_env \<Rightarrow> int \<Rightarrow> string \<Rightarrow> pyval \<Rightarrow> py_error + int" where
  "parse_timestamp env now field v =
     (if v = PNone \<or> (case v of PStr s \<Rightarrow> py_strip s = [] | _ \<Rightarrow> False) then
        Inl (ValueError (field @ '' is required and must be an ISO-8601 timestamp''))
      else
        and_then (read_timestamp env field v) (\<lambda>d. case d of Datetime w off \<Rightarrow>
          case off of
            None \<Rightarrow> Inl (ValueError (field @ '' must be timezone-aware (got naive datetime: '' @ cs_repr env v @
                      ''). FSMA records require an unambiguous UTC offset.''))
          | Some x \<Rightarrow>
              if w - x < 0 \<or> datetime_max \<le> w - x then Inl OverflowError
              else if now + future_skew_tolerance < w - x then
                Inl (ValueError (field @ '' is in the future beyond the allowed skew tolerance: '' @ iso_utc env (w - x) @
                  '' (now='' @ iso_utc env now @ '')''))
              else Inr (w - x)))"

definition allowed_cte_types :: "string list" where
  "allowed_cte_types =
     [''harvesting'', ''cooling'', ''initial_packing'', ''first_land_based_receiving'', ''shipping'', ''receiving'',
      ''transformation'']"

definition sorted_cte_types :: "string list" where
  "sorted_cte_types =
     [''cooling'', ''first_land_based_receiving'', ''harvesting'', ''initial_packing'', ''receiving'', ''shipping'',
      ''transformation'']"

definition validate_event_type :: "cte_env \<Rightarrow> pyval \<Rightarrow> py_error + string" where
  "validate_event_type env v =
     (case v of
        PStr s \<Rightarrow>
          if s = [] then Inl (ValueError (''event_type is required and must be a non-empty string, got '' @ type_name v @ '': '' @ cs_repr env v))
          else if s \<notin> set allowed_cte_types then
            Inl (ValueError (''event_type '' @ cs_repr env v @ '' is not a recognized FSMA 204 CTE type. Allowed: '' @
              cs_repr env (PList (map PStr sorted_cte_types)) @
              ''. Note: values are case-sensitive and must have no surrounding whitespace.''))
          else Inr s
      | _ \<Rightarrow> Inl (ValueError (''event_type is required and must be a non-empty string, got '' @ type_name v @ '': '' @ cs_repr env v)))"

text \<open>The serialiser distinguishes containers and numbers, text, and what is printed first.\<close>

definition jsonify_kde :: "cte_env \<Rightarrow> pyval \<Rightarrow> string" where
  "jsonify_kde env v =
     (case v of
        PDatetime _ \<Rightarrow> cs_json env (PStr (py_str (cs_rt env) v))
      | PDate _ \<Rightarrow> cs_json env (PStr (py_str (cs_rt env) v))
      | PDecimal _ _ _ \<Rightarrow> cs_json env (PStr (py_str (cs_rt env) v))
      | PUUID _ \<Rightarrow> cs_json env (PStr (py_str (cs_rt env) v))
      | PTuple _ \<Rightarrow> cs_json env (PStr (py_str (cs_rt env) v))
      | PSet _ \<Rightarrow> cs_json env (PStr (py_str (cs_rt env) v))
      | _ \<Rightarrow> cs_json env v)"

definition assert_not_exists :: "string \<Rightarrow> string \<Rightarrow> cte_db \<Rightarrow> store_error + unit" where
  "assert_not_exists sha tenant_id db =
     (case List.find (\<lambda>r. ce_sha256_hash r = sha \<and> ce_tenant_id r = tenant_id) (cd_events db) of
        None \<Rightarrow> Inr ()
      | Some r \<Rightarrow> Inl (DuplicateEventError (ce_id r) sha))"

section \<open>Statements\<close>

definition find_idempotent :: "string \<Rightarrow> string \<Rightarrow> cte_db \<Rightarrow> cte_row option" where
  "find_idempotent key tenant_id db =
     List.find (\<lambda>r. ce_idempotency_key r = key \<and> ce_tenant_id r = tenant_id) (cd_events db)"

text \<open>\<open>ORDER BY sequence_num\<close>; the head is the last row.\<close>

definition chain_of :: "string \<Rightarrow> cte_db \<Rightarrow> ChainEntry list" where
  "chain_of tenant_id db = sort_key hc_sequence_num (filter (\<lambda>r. hc_tenant_id r = tenant_id) (cd_chain db))"

definition chain_head :: "string \<Rightarrow> cte_db \<Rightarrow> ChainEntry option" where
  "chain_head tenant_id db = (case chain_of tenant_id db of [] \<Rightarrow> None | rs \<Rightarrow> Some (last rs))"

definition insert_event :: "cte_env \<Rightarrow> cte_row \<Rightarrow> cte_db \<Rightarrow> store_error + cte_db" where
  "insert_event env row db =
     (if find_idempotent (ce_idempotency_key row) (ce_tenant_id row) db \<noteq> None then Inr db
      else if ce_id row \<in> ce_id ` set (cd_events db) \<or> \<not> cs_event_ok env row then Inl (Raised (DBAPIError ''IntegrityError''))
      else Inr (db\<lparr>cd_events := cd_events db @ [row]\<rparr>))"

definition insert_kde :: "kde_row \<Rightarrow> cte_db \<Rightarrow> cte_db" where
  "insert_kde row db =
     (if list_ex (\<lambda>r. kr_cte_event_id r = kr_cte_event_id row \<and> kr_kde_key r = kr_kde_key row) (cd_kdes db) then db
      else db\<lparr>cd_kdes := cd_kdes db @ [row]\<rparr>)"

text \<open>The guard \<open>WHERE EXISTS\<close> on the event, and the unique key \<open>(tenant_id, sequence_num)\<close>.\<close>

definition insert_chain :: "ChainEntry \<Rightarrow> cte_db \<Rightarrow> store_error + cte_db" where
  "insert_chain row db =
     (if \<not> list_ex (\<lambda>r. ce_id r = hc_cte_event_id row \<and> ce_tenant_id r = hc_tenant_id row) (cd_events db) then Inr db
      else if list_ex (\<lambda>r. hc_tenant_id r = hc_tenant_id row \<and> hc_sequence_num r = hc_sequence_num row) (cd_chain db)
      then Inl (Raised (DBAPIError ''IntegrityError''))
      else Inr (db\<lparr>cd_chain := cd_chain db @ [row]\<rparr>))"

text \<open>An alert is written under a savepoint; one that fails is skipped.\<close>

definition insert_alert :: "cte_env \<Rightarrow> string \<Rightarrow> string \<Rightarrow> pydict \<Rightarrow> cte_db \<Rightarrow> cte_db" where
  "insert_alert env tenant_id event_id alert db =
     (case alert_insert_params tenant_id event_id alert of
        Inl _ \<Rightarrow> db
      | Inr row \<Rightarrow> if cs_alert_ok env row then db\<lparr>cd_alerts := cd_alerts db @ [row]\<rparr> else db)"

section \<open>The single-event write path (writes.py)\<close>

text \<open>
  A canonical event as the write path uses it: its tenant, and the digest of its copy with
  another identifier.
\<close>

record canonical_event =
  cn_tenant_id :: string
  cn_sha256 :: "string \<Rightarrow> string"

definition compute_canonical_event_hash :: "string \<Rightarrow> string \<Rightarrow> canonical_event \<Rightarrow> py_error + string" where
  "compute_canonical_event_hash event_id tenant_id event =
     (if cn_tenant_id event \<noteq> tenant_id
      then Inl (ValueError ''canonical_event tenant does not match persistence tenant'')
      else Inr (cn_sha256 event event_id))"

record cte_input =
  in_event_type :: pyval
  in_traceability_lot_code :: string
  in_product_description :: string
  in_quantity :: pyfloat
  in_unit_of_measure :: string
  in_event_timestamp :: pyval
  in_source :: string
  in_location_gln :: "string option"
  in_location_name :: "string option"
  in_kdes :: pydict
  in_alerts :: "pydict list"
  in_epcis_event_type :: "string option"
  in_epcis_action :: "string option"
  in_epcis_biz_step :: "string option"
  in_source_event_id :: "string option"
  in_event_entry_timestamp :: pyval
  in_validator_results :: "pydict list"
  in_canonical_event :: "canonical_event option"

definition rejection_reasons :: "cte_env \<Rightarrow> pydict list \<Rightarrow> pyval list" where
  "rejection_reasons env items =
     map (\<lambda>item. py_or (py_or (dict_get item ''reason'' PNone) (dict_get item ''message'' PNone))
            (PStr (py_str (cs_rt env) (PDict item))))
       (filter (is_rejecting_validation_item env) items)"

text \<open>The validated times of an event, as ISO text: when it happened, when it was entered.\<close>

definition event_times :: "cte_env \<Rightarrow> int \<Rightarrow> pyval \<Rightarrow> pyval \<Rightarrow> py_error + string \<times> string" where
  "event_times env now ts entry_ts =
     and_then (parse_timestamp env now ''event_timestamp'' ts) (\<lambda>t.
       if entry_ts = PNone then Inr (iso_utc env t, iso_utc env now)
       else and_then (parse_timestamp env now ''event_entry_timestamp'' entry_ts) (\<lambda>u.
              Inr (iso_utc env t, str_or (Some (iso_utc env u)) (iso_utc env now))))"

definition lift_error :: "py_error + 'a \<Rightarrow> store_error + 'a" where
  "lift_error m = (case m of Inl e \<Rightarrow> Inl (Raised e) | Inr a \<Rightarrow> Inr a)"

definition event_digest :: "cte_env \<Rightarrow> string \<Rightarrow> string \<Rightarrow> string \<Rightarrow> string \<Rightarrow> cte_input \<Rightarrow> py_error + string" where
  "event_digest env event_id tenant_id event_type timestamp inp =
     and_then (compute_event_hash (cs_rt env) (cs_H env) event_id event_type (in_traceability_lot_code inp)
         (in_product_description inp) (in_quantity inp) (in_unit_of_measure inp) (in_location_gln inp) (in_location_name inp)
         timestamp (in_kdes inp))
       (\<lambda>sha. case in_canonical_event inp of None \<Rightarrow> Inr sha | Some c \<Rightarrow> compute_canonical_event_hash event_id tenant_id c)"

text \<open>The place of the next entry: the hash it is chained to and its number.\<close>

definition next_link :: "string \<Rightarrow> cte_db \<Rightarrow> string option \<times> int" where
  "next_link tenant_id db =
     (case chain_head tenant_id db of
        None \<Rightarrow> (None, 1)
      | Some r \<Rightarrow> (hc_chain_hash r, hc_sequence_num r + 1))"

definition new_event_row ::
  "string \<Rightarrow> string \<Rightarrow> string \<Rightarrow> string \<times> string \<Rightarrow> string \<Rightarrow> string \<Rightarrow> string \<Rightarrow> string \<Rightarrow> cte_input \<Rightarrow> cte_row" where
  "new_event_row event_id tenant_id event_type ts key sha chain status inp =
     \<lparr>ce_id = event_id, ce_tenant_id = tenant_id, ce_event_type = event_type,
      ce_traceability_lot_code = in_traceability_lot_code inp, ce_product_description = in_product_description inp,
      ce_quantity = in_quantity inp, ce_unit_of_measure = in_unit_of_measure inp,
      ce_location_gln = in_location_gln inp, ce_location_name = in_location_name inp, ce_event_timestamp = fst ts,
      ce_event_entry_timestamp = snd ts, ce_source = in_source inp, ce_source_event_id = in_source_event_id inp,
      ce_idempotency_key = key, ce_sha256_hash = sha, ce_chain_hash = chain,
      ce_epcis_event_type = in_epcis_event_type inp, ce_epcis_action = in_epcis_action inp,
      ce_epcis_biz_step = in_epcis_biz_step inp, ce_validation_status = status\<rparr>"

definition kde_rows_of :: "cte_env \<Rightarrow> string \<Rightarrow> string \<Rightarrow> pydict \<Rightarrow> kde_row list" where
  "kde_rows_of env tenant_id event_id kdes =
     map (\<lambda>(k, v). \<lparr>kr_tenant_id = tenant_id, kr_cte_event_id = event_id, kr_kde_key = k, kr_kde_value = jsonify_kde env v,
            kr_is_required = False\<rparr>)
       (filter (\<lambda>(k, v). v \<noteq> PNone) kdes)"

definition idempotent_result :: "cte_row \<Rightarrow> StoreResult" where
  "idempotent_result r =
     \<lparr>sr_success = True, sr_event_id = ce_id r, sr_sha256_hash = ce_sha256_hash r, sr_chain_hash = ce_chain_hash r,
      sr_idempotent = True, sr_errors = [], sr_alerts = []\<rparr>"

text \<open>The part behind the idempotency check: hashes, rows and chain entry of a new event.\<close>

definition store_new ::
  "cte_env \<Rightarrow> string \<Rightarrow> string \<Rightarrow> string \<Rightarrow> string \<times> string \<Rightarrow> string \<Rightarrow> cte_input \<Rightarrow> cte_db \<Rightarrow> store_error + cte_db \<times> StoreResult" where
  "store_new env event_id tenant_id event_type ts key inp db =
     and_then (lift_error (event_digest env event_id tenant_id event_type (fst ts) inp)) (\<lambda>sha.
     and_then (assert_not_exists sha tenant_id db) (\<lambda>_.
       let status = derive_validation_status env (in_alerts inp) (in_validator_results inp);
           (previous, seq) = next_link tenant_id db;
           chain = compute_chain_hash (cs_H env) sha previous;
           res = \<lparr>sr_success = True, sr_event_id = event_id, sr_sha256_hash = sha, sr_chain_hash = chain,
                  sr_idempotent = False, sr_errors = [], sr_alerts = in_alerts inp\<rparr>
       in and_then (insert_event env (new_event_row event_id tenant_id event_type ts key sha chain status inp) db) (\<lambda>db1.
            if status = validation_status_rejected then
              Inr (db1, res\<lparr>sr_success := False,
                     sr_errors := rejection_reasons env (in_validator_results inp @ in_alerts inp)\<rparr>)
            else
              and_then (insert_chain
                  \<lparr>hc_tenant_id = tenant_id, hc_cte_event_id = event_id, hc_sequence_num = seq, hc_event_hash = sha,
                   hc_previous_chain_hash = previous, hc_chain_hash = Some chain\<rparr>
                  (fold insert_kde (kde_rows_of env tenant_id event_id (in_kdes inp)) db1))
                (\<lambda>db2. Inr (fold (insert_alert env tenant_id event_id) (in_alerts inp) db2, res)))))"

text \<open>\<open>event_id\<close> is the fresh \<open>uuid4\<close>.\<close>

definition store_event ::
  "cte_env \<Rightarrow> int \<Rightarrow> string \<Rightarrow> string \<Rightarrow> cte_input \<Rightarrow> cte_db \<Rightarrow> store_error + cte_db \<times> StoreResult" where
  "store_event env now event_id tenant_id inp db =
     and_then (lift_error (validate_event_type env (in_event_type inp))) (\<lambda>event_type.
     and_then (lift_error (event_times env now (in_event_timestamp inp) (in_event_entry_timestamp inp))) (\<lambda>ts.
     and_then (lift_error (compute_idempotency_key (cs_rt env) (cs_H env) event_type (in_traceability_lot_code inp) (fst ts)
         (in_source inp) (in_kdes inp) (in_location_gln inp) (in_location_name inp))) (\<lambda>key.
       case find_idempotent key tenant_id db of
         Some r \<Rightarrow> Inr (db, idempotent_result r)
       | None \<Rightarrow> store_new env event_id tenant_id event_type ts key inp db)))"

end
