(* ===== verification/ChainVerify.thy ===== *)
theory ChainVerify
  imports CteStore
begin

text \<open>
  \<^verbatim>\<open>services/shared/cte_persistence/verification.py\<close>: the walk over a tenant's hash chain, its
  cross-check against the event table, the Merkle summary and inclusion proofs; and what these
  say about tables written by the write path of \<open>CteStore\<close>.
\<close>

section \<open>Verification (verification.py)\<close>

definition short_hash :: "string option \<Rightarrow> string" where
  "short_hash v = (case v of None \<Rightarrow> ''missing'' | Some s \<Rightarrow> if s = [] then ''missing'' else take 16 s)"

definition accepted_events :: "string \<Rightarrow> cte_db \<Rightarrow> cte_row list" where
  "accepted_events tenant_id db =
     filter (\<lambda>r. ce_tenant_id r = tenant_id \<and> ce_validation_status r \<noteq> validation_status_rejected) (cd_events db)"

text \<open>Insertion order stands for \<open>ORDER BY ingested_at\<close>.\<close>

definition missing_chain_event_ids :: "string \<Rightarrow> cte_db \<Rightarrow> string list" where
  "missing_chain_event_ids tenant_id db =
     take 1000 (map ce_id (filter (\<lambda>r. \<not> list_ex (\<lambda>hc. hc_cte_event_id hc = ce_id r \<and> hc_tenant_id hc = tenant_id) (cd_chain db))
       (accepted_events tenant_id db)))"

text \<open>The left join: the event of a chain row, of the same tenant.\<close>

definition matched :: "cte_db \<Rightarrow> ChainEntry \<Rightarrow> bool" where
  "matched db row \<longleftrightarrow> list_ex (\<lambda>r. ce_id r = hc_cte_event_id row \<and> ce_tenant_id r = hc_tenant_id row) (cd_events db)"

definition row_errors ::
  "(string \<Rightarrow> string) \<Rightarrow> cte_db \<Rightarrow> int \<Rightarrow> ChainEntry option \<Rightarrow> ChainEntry \<Rightarrow> string list" where
  "row_errors H db expected_seq before row =
     (let seq = hc_sequence_num row; stored_prev = hc_previous_chain_hash row; stored_chain = hc_chain_hash row;
          recomputed = compute_chain_hash H (hc_event_hash row) stored_prev
      in (if seq \<noteq> expected_seq then [''Sequence gap: expected '' @ int_str expected_seq @ '', got '' @ int_str seq] else []) @
         (case before of
            None \<Rightarrow> if stored_prev \<noteq> None
                    then [''Genesis entry (seq='' @ int_str seq @ '') has non-null previous_chain_hash''] else []
          | Some b \<Rightarrow> if stored_prev \<noteq> hc_chain_hash b
                    then [''Chain break at seq='' @ int_str seq @ '': stored prev '' @ short_hash stored_prev @
                          ''... != expected '' @ short_hash (hc_chain_hash b) @ ''...''] else []) @
         (if Some recomputed \<noteq> stored_chain
          then [''Tamper detected at seq='' @ int_str seq @ '': recomputed chain_hash '' @ short_hash (Some recomputed) @
                ''... != stored '' @ short_hash stored_chain @ ''...''] else []) @
         (if \<not> matched db row
          then [''Orphan chain row at seq='' @ int_str seq @ '': cte_event_id='' @ hc_cte_event_id row @
                '' has no matching fsma.cte_events row''] else []))"

fun chain_errors :: "(string \<Rightarrow> string) \<Rightarrow> cte_db \<Rightarrow> int \<Rightarrow> ChainEntry option \<Rightarrow> ChainEntry list \<Rightarrow> string list" where
  "chain_errors H db i before [] = []"
| "chain_errors H db i before (row # rows) = row_errors H db i before row @ chain_errors H db (i + 1) (Some row) rows"

definition verify_chain :: "cte_env \<Rightarrow> string \<Rightarrow> cte_db \<Rightarrow> ChainVerification" where
  "verify_chain env tenant_id db =
     (let rows = chain_of tenant_id db;
          cte_events_count = length (accepted_events tenant_id db);
          missing_ids = missing_chain_event_ids tenant_id db
      in if rows = [] then
           if cte_events_count = 0 \<and> missing_ids = [] then
             \<lparr>cv_valid = True, cv_chain_length = 0, cv_errors = [], cv_orphan_chain_rows = [], cv_missing_chain_rows = [],
              cv_cte_events_count = 0\<rparr>
           else
             \<lparr>cv_valid = False, cv_chain_length = 0,
              cv_errors = [''Empty chain but '' @ nat_str cte_events_count @ '' non-rejected events exist ('' @
                nat_str (length missing_ids) @ '' missing chain rows)''],
              cv_orphan_chain_rows = [], cv_missing_chain_rows = missing_ids, cv_cte_events_count = cte_events_count\<rparr>
         else
           let walk = chain_errors (cs_H env) db 1 None rows;
               orphans = map hc_sequence_num (filter (\<lambda>r. \<not> matched db r) rows);
               missing = (if length rows \<noteq> cte_events_count then missing_ids else []);
               errors = walk @ (if missing = [] then []
                 else [''Chain row count ('' @ nat_str (length rows) @ '') != non-rejected event count ('' @
                       nat_str cte_events_count @ ''); '' @ nat_str (length missing) @ '' event(s) have no chain entry''])
           in \<lparr>cv_valid = (errors = [] \<and> orphans = [] \<and> missing = []), cv_chain_length = length rows, cv_errors = errors,
               cv_orphan_chain_rows = orphans, cv_missing_chain_rows = missing, cv_cte_events_count = cte_events_count\<rparr>)"

text \<open>
  What \<^verbatim>\<open>verify_chain_canonical\<close> of the canonical store answers for the tenant: an argument of the
  Merkle summary, which \<open>merkle_summary\<close> of the theory \<open>CanonicalSafety\<close> supplies.
\<close>

record canonical_answer =
  cw_valid :: bool
  cw_errors :: "string list"
  cw_chain_length :: nat
  cw_legacy_chain_rows :: nat

definition verify_chain_merkle :: "cte_env \<Rightarrow> canonical_answer \<Rightarrow> string \<Rightarrow> cte_db \<Rightarrow> MerkleVerification" where
  "verify_chain_merkle env answer tenant_id db =
     (let hashes = map hc_event_hash (chain_of tenant_id db); events_count = length (accepted_events tenant_id db)
      in if hashes = [] then
           if 0 < events_count then
             \<lparr>mv_valid = False, mv_merkle_root = None, mv_chain_length = 0, mv_tree_depth = 0,
              mv_errors = [''No chain rows exist for tenant with '' @ nat_str events_count @ '' non-rejected events '' @ em_dash @
                '' chain integrity cannot be attested (nothing was walked). Not a tamper verdict; failing closed rather than reporting valid.''],
              mv_no_chain_evidence = True\<rparr>
           else
             \<lparr>mv_valid = True, mv_merkle_root = None, mv_chain_length = 0, mv_tree_depth = 0, mv_errors = [],
              mv_no_chain_evidence = False\<rparr>
         else
           let tree = merkle_init (cs_H env) hashes;
               errors0 = cw_errors answer;
               errors1 = (if \<not> cw_valid answer \<and> errors0 = [] then [''Canonical chain verification failed''] else errors0);
               errors2 = errors1 @ (if cw_chain_length answer \<noteq> length hashes
                                    then [''Chain changed during Merkle verification; retry''] else []);
               errors3 = errors2 @ (if cw_legacy_chain_rows answer \<noteq> 0
                                    then [''Legacy-only event content cannot be attested by the canonical verifier''] else [])
           in \<lparr>mv_valid = (errors3 = []), mv_merkle_root = Some (mt_root tree), mv_chain_length = length hashes,
               mv_tree_depth = depth tree, mv_errors = errors3, mv_no_chain_evidence = False\<rparr>)"

record merkle_proof =
  mp_event_id :: string
  mp_event_hash :: string
  mp_index :: nat
  mp_merkle_root :: string
  mp_tree_depth :: nat
  mp_chain_length :: nat
  mp_proof :: "MerkleProofStep list"

text \<open>The loop keeps the last row of the event: its index and its hash.\<close>

fun find_target :: "string \<Rightarrow> nat \<Rightarrow> ChainEntry list \<Rightarrow> (nat \<times> string) option \<Rightarrow> (nat \<times> string) option" where
  "find_target event_id i [] acc = acc"
| "find_target event_id i (row # rows) acc =
     find_target event_id (Suc i) rows (if hc_cte_event_id row = event_id then Some (i, hc_event_hash row) else acc)"

definition get_merkle_proof :: "cte_env \<Rightarrow> string \<Rightarrow> string \<Rightarrow> cte_db \<Rightarrow> py_error + merkle_proof option" where
  "get_merkle_proof env tenant_id event_id db =
     (let rows = chain_of tenant_id db
      in if rows = [] then Inr None
         else case find_target event_id 0 rows None of
                None \<Rightarrow> Inr None
              | Some (target_index, target_hash) \<Rightarrow>
                  let tree = merkle_init (cs_H env) (map hc_event_hash rows)
                  in and_then (generate_proof tree (int target_index)) (\<lambda>steps.
                       Inr (Some \<lparr>mp_event_id = event_id, mp_event_hash = target_hash, mp_index = target_index,
                         mp_merkle_root = mt_root tree, mp_tree_depth = depth tree, mp_chain_length = length rows,
                         mp_proof = steps\<rparr>)))"

section \<open>What the walk accepts\<close>

text \<open>The chain as it should be: numbered from \<open>n\<close> and linked from \<open>prev\<close>.\<close>

fun linked :: "(string \<Rightarrow> string) \<Rightarrow> int \<Rightarrow> string option \<Rightarrow> ChainEntry list \<Rightarrow> bool" where
  "linked H n prev [] \<longleftrightarrow> True"
| "linked H n prev (r # rs) \<longleftrightarrow>
     hc_sequence_num r = n \<and> hc_previous_chain_hash r = prev \<and>
     hc_chain_hash r = Some (compute_chain_hash H (hc_event_hash r) prev) \<and> linked H (n + 1) (hc_chain_hash r) rs"

lemma row_errors_Nil_iff:
  "row_errors H db n before r = [] \<longleftrightarrow>
     hc_sequence_num r = n \<and> hc_previous_chain_hash r = Option.bind before hc_chain_hash \<and>
     hc_chain_hash r = Some (compute_chain_hash H (hc_event_hash r) (hc_previous_chain_hash r)) \<and> matched db r"
  by (auto simp: row_errors_def Let_def split: option.split)

lemma chain_errors_Nil_iff:
  "chain_errors H db n before rows = [] \<longleftrightarrow> linked H n (Option.bind before hc_chain_hash) rows \<and> (\<forall>r \<in> set rows. matched db r)"
  by (induction rows arbitrary: n before) (auto simp: row_errors_Nil_iff)

lemma verify_chain_valid_iff:
  "cv_valid (verify_chain env t db) \<longleftrightarrow>
     linked (cs_H env) 1 None (chain_of t db) \<and> (\<forall>r \<in> set (chain_of t db). matched db r) \<and>
     (length (chain_of t db) = length (accepted_events t db) \<or> chain_of t db \<noteq> [] \<and> missing_chain_event_ids t db = [])"
proof (cases "chain_of t db = []")
  case True
  then show ?thesis
    by (auto simp: verify_chain_def Let_def missing_chain_event_ids_def)
next
  case False
  then show ?thesis
    by (auto simp: verify_chain_def Let_def chain_errors_Nil_iff filter_empty_conv)
qed

lemma linked_sorted: "linked H n p rs \<Longrightarrow> sorted (map hc_sequence_num rs) \<and> (\<forall>r \<in> set rs. n \<le> hc_sequence_num r)"
  by (induction rs arbitrary: n p) fastforce+

lemma linked_snoc:
  "linked H n p (rs @ [r]) \<longleftrightarrow> linked H n p rs \<and> hc_sequence_num r = n + int (length rs) \<and>
     hc_previous_chain_hash r = (if rs = [] then p else hc_chain_hash (last rs)) \<and>
     hc_chain_hash r = Some (compute_chain_hash H (hc_event_hash r) (hc_previous_chain_hash r))"
  by (induction rs arbitrary: n p) (auto simp: algebra_simps)

lemma linked_bound: "linked H n p rs \<Longrightarrow> r \<in> set rs \<Longrightarrow> hc_sequence_num r < n + int (length rs)"
  by (induction rs arbitrary: n p) fastforce+

lemma linked_head: "linked H n p rs \<Longrightarrow> (if rs = [] then p else hc_chain_hash (last rs)) = chain_from H p (map hc_event_hash rs)"
  by (induction rs arbitrary: n p) auto

lemma linked_last_seq: "linked H n p rs \<Longrightarrow> rs \<noteq> [] \<Longrightarrow> hc_sequence_num (last rs) = n + int (length rs) - 1"
  by (cases rs rule: rev_cases) (auto simp: linked_snoc)

section \<open>The invariant of the write path\<close>

lemma lift_error_Inr_iff [simp]: "lift_error m = Inr a \<longleftrightarrow> m = Inr a"
  by (auto simp: lift_error_def split: sum.splits)

definition rows_of :: "string \<Rightarrow> cte_db \<Rightarrow> ChainEntry list" where
  "rows_of t db = filter (\<lambda>r. hc_tenant_id r = t) (cd_chain db)"

text \<open>
  Identifiers and idempotency keys are unique, each tenant's rows are a linked chain in the
  order of insertion, and they list the identifiers and hashes of its accepted events.
\<close>

definition store_ok :: "(string \<Rightarrow> string) \<Rightarrow> cte_db \<Rightarrow> bool" where
  "store_ok H db \<longleftrightarrow>
     distinct (map ce_id (cd_events db)) \<and>
     distinct (map (\<lambda>r. (ce_tenant_id r, ce_idempotency_key r)) (cd_events db)) \<and>
     (\<forall>t. linked H 1 None (rows_of t db) \<and>
          map (\<lambda>r. (hc_cte_event_id r, hc_event_hash r)) (rows_of t db) =
          map (\<lambda>e. (ce_id e, ce_sha256_hash e)) (accepted_events t db))"

definition empty_cte_db :: cte_db where
  "empty_cte_db = \<lparr>cd_events = [], cd_kdes = [], cd_chain = [], cd_alerts = []\<rparr>"

lemma store_ok_empty: "store_ok H empty_cte_db"
  by (simp add: store_ok_def empty_cte_db_def rows_of_def accepted_events_def)

lemma chain_of_linked: "linked H 1 None (rows_of t db) \<Longrightarrow> chain_of t db = rows_of t db"
  using linked_sorted [of H 1 None "rows_of t db"] by (simp add: chain_of_def rows_of_def sorted_sort_id sort_key_id_if_sorted)

lemma next_link_linked:
  assumes "linked H 1 None (rows_of t db)"
  shows "next_link t db = (chain_from H None (map hc_event_hash (rows_of t db)), 1 + int (length (rows_of t db)))"
  using linked_head [OF assms] linked_last_seq [OF assms]
  by (auto simp: next_link_def chain_head_def chain_of_linked [OF assms] split: list.split)

lemma fold_insert_kde [simp]:
  "cd_events (fold insert_kde ks db) = cd_events db" "cd_chain (fold insert_kde ks db) = cd_chain db"
  by (induction ks arbitrary: db) (simp_all add: insert_kde_def)

lemma fold_insert_alert [simp]:
  "cd_events (fold (insert_alert env t e) as db) = cd_events db" "cd_chain (fold (insert_alert env t e) as db) = cd_chain db"
  by (induction as arbitrary: db) (simp_all add: insert_alert_def split: sum.split)

lemma find_idempotent_Some:
  "find_idempotent key t db = Some r \<Longrightarrow> r \<in> set (cd_events db) \<and> ce_idempotency_key r = key \<and> ce_tenant_id r = t"
  by (auto simp: find_idempotent_def find_Some_iff)

lemma find_idempotent_None:
  "find_idempotent key t db = None \<longleftrightarrow> (t, key) \<notin> (\<lambda>r. (ce_tenant_id r, ce_idempotency_key r)) ` set (cd_events db)"
  by (auto simp: find_idempotent_def find_None_iff)

lemma insert_event_Inr:
  assumes "insert_event env row db = Inr db'" and "find_idempotent (ce_idempotency_key row) (ce_tenant_id row) db = None"
  shows "db' = db\<lparr>cd_events := cd_events db @ [row]\<rparr> \<and> ce_id row \<notin> ce_id ` set (cd_events db) \<and> cs_event_ok env row"
  using assms by (auto simp: insert_event_def split: if_splits)

text \<open>The entry a new event gets.\<close>

definition new_entry :: "(string \<Rightarrow> string) \<Rightarrow> string \<Rightarrow> string \<Rightarrow> string \<Rightarrow> cte_db \<Rightarrow> ChainEntry" where
  "new_entry H event_id t sha db =
     (let (previous, seq) = next_link t db
      in \<lparr>hc_tenant_id = t, hc_cte_event_id = event_id, hc_sequence_num = seq, hc_event_hash = sha,
          hc_previous_chain_hash = previous, hc_chain_hash = Some (compute_chain_hash H sha previous)\<rparr>)"

lemma store_new_effect:
  assumes "store_new env event_id t ty ts key inp db = Inr (db', res)" and "find_idempotent key t db = None"
  obtains sha row where
    "event_digest env event_id t ty (fst ts) inp = Inr sha" and "assert_not_exists sha t db = Inr ()"
    "row = new_event_row event_id t ty ts key sha (compute_chain_hash (cs_H env) sha (fst (next_link t db)))
       (derive_validation_status env (in_alerts inp) (in_validator_results inp)) inp"
    "event_id \<notin> ce_id ` set (cd_events db)" "cd_events db' = cd_events db @ [row]"
    "cd_chain db' = cd_chain db @ (if ce_validation_status row = validation_status_rejected then [] else [new_entry (cs_H env) event_id t sha db])"
    "sr_event_id res = event_id" "sr_sha256_hash res = sha" "sr_chain_hash res = ce_chain_hash row"
    "sr_success res \<longleftrightarrow> ce_validation_status row \<noteq> validation_status_rejected"
proof -
  obtain previous seq where nl: "next_link t db = (previous, seq)" by fastforce
  obtain sha where sha: "event_digest env event_id t ty (fst ts) inp = Inr sha" "assert_not_exists sha t db = Inr ()"
    using assms(1) by (auto simp: store_new_def lift_error_def and_then_eq_Inr_iff split: sum.splits)
  define status where "status = derive_validation_status env (in_alerts inp) (in_validator_results inp)"
  define row where "row = new_event_row event_id t ty ts key sha (compute_chain_hash (cs_H env) sha previous) status inp"
  obtain db1 where db1: "insert_event env row db = Inr db1"
    using assms(1) sha by (auto simp: store_new_def lift_error_def Let_def nl row_def status_def and_then_eq_Inr_iff)
  have ev: "db1 = db\<lparr>cd_events := cd_events db @ [row]\<rparr>" "event_id \<notin> ce_id ` set (cd_events db)"
    using insert_event_Inr [OF db1] assms(2) by (simp_all add: row_def new_event_row_def)
  have stat: "ce_validation_status row = status" by (simp add: row_def new_event_row_def)
  show thesis
  proof (rule that [OF sha])
    show "row = new_event_row event_id t ty ts key sha (compute_chain_hash (cs_H env) sha (fst (next_link t db)))
       (derive_validation_status env (in_alerts inp) (in_validator_results inp)) inp"
      by (simp add: row_def status_def nl)
    show "cd_events db' = cd_events db @ [row]"
      "cd_chain db' = cd_chain db @ (if ce_validation_status row = validation_status_rejected then [] else [new_entry (cs_H env) event_id t sha db])"
      "sr_event_id res = event_id" "sr_sha256_hash res = sha" "sr_chain_hash res = ce_chain_hash row"
      "sr_success res \<longleftrightarrow> ce_validation_status row \<noteq> validation_status_rejected"
      using assms(1) sha db1 ev(1)
      by (auto simp: store_new_def lift_error_def Let_def nl row_def [symmetric] status_def [symmetric] stat new_entry_def
          insert_chain_def and_then_eq_Inr_iff row_def new_event_row_def split: if_splits)
  qed (rule ev(2))
qed

text \<open>Appending one event, with its chain entry when it is accepted, keeps the invariant.\<close>

definition append_event :: "(string \<Rightarrow> string) \<Rightarrow> cte_row \<Rightarrow> cte_db \<Rightarrow> cte_db \<Rightarrow> bool" where
  "append_event H row db db' \<longleftrightarrow>
     cd_events db' = cd_events db @ [row] \<and>
     cd_chain db' = cd_chain db @
       (if ce_validation_status row = validation_status_rejected then []
        else [new_entry H (ce_id row) (ce_tenant_id row) (ce_sha256_hash row) db])"

lemma rows_of_append:
  "append_event H row db db' \<Longrightarrow>
   rows_of t db' = rows_of t db @
     (if ce_validation_status row \<noteq> validation_status_rejected \<and> ce_tenant_id row = t
      then [new_entry H (ce_id row) t (ce_sha256_hash row) db] else [])"
  by (auto simp: append_event_def rows_of_def new_entry_def split: prod.splits)

lemma accepted_append:
  "append_event H row db db' \<Longrightarrow>
   accepted_events t db' = accepted_events t db @
     (if ce_validation_status row \<noteq> validation_status_rejected \<and> ce_tenant_id row = t then [row] else [])"
  by (auto simp: append_event_def accepted_events_def)

lemma append_event_keeps_ok:
  assumes "store_ok H db" and "append_event H row db db'" and "ce_id row \<notin> ce_id ` set (cd_events db)"
    and "find_idempotent (ce_idempotency_key row) (ce_tenant_id row) db = None"
  shows "store_ok H db'"
proof -
  have link: "linked H 1 None (rows_of t db)"
    and eq: "map (\<lambda>r. (hc_cte_event_id r, hc_event_hash r)) (rows_of t db) = map (\<lambda>e. (ce_id e, ce_sha256_hash e)) (accepted_events t db)"
    for t using assms(1) by (simp_all add: store_ok_def)
  have "linked H 1 None (rows_of t db')" for t
    using link [of t] linked_head [OF link [of t]] next_link_linked [OF link [of t]]
    by (auto simp: rows_of_append [OF assms(2)] linked_snoc new_entry_def)
  moreover have "map (\<lambda>r. (hc_cte_event_id r, hc_event_hash r)) (rows_of t db') =
      map (\<lambda>e. (ce_id e, ce_sha256_hash e)) (accepted_events t db')" for t
    using eq [of t] by (auto simp: rows_of_append [OF assms(2)] accepted_append [OF assms(2)] new_entry_def split: prod.splits)
  moreover have "distinct (map ce_id (cd_events db'))"
      "distinct (map (\<lambda>r. (ce_tenant_id r, ce_idempotency_key r)) (cd_events db'))"
    using assms by (simp_all add: append_event_def store_ok_def find_idempotent_None)
  ultimately show ?thesis by (simp add: store_ok_def)
qed

lemma store_event_cases:
  assumes "store_event env now event_id t inp db = Inr (db', res)"
  obtains ty ts key where
    "validate_event_type env (in_event_type inp) = Inr ty"
    "event_times env now (in_event_timestamp inp) (in_event_entry_timestamp inp) = Inr ts"
    "compute_idempotency_key (cs_rt env) (cs_H env) ty (in_traceability_lot_code inp) (fst ts) (in_source inp) (in_kdes inp)
       (in_location_gln inp) (in_location_name inp) = Inr key"
    "(\<exists>r. find_idempotent key t db = Some r \<and> db' = db \<and> res = idempotent_result r) \<or>
     find_idempotent key t db = None \<and> store_new env event_id t ty ts key inp db = Inr (db', res)"
proof -
  from assms obtain ty ts key where k: "validate_event_type env (in_event_type inp) = Inr ty"
    "event_times env now (in_event_timestamp inp) (in_event_entry_timestamp inp) = Inr ts"
    "compute_idempotency_key (cs_rt env) (cs_H env) ty (in_traceability_lot_code inp) (fst ts) (in_source inp) (in_kdes inp)
       (in_location_gln inp) (in_location_name inp) = Inr key"
    and r: "(case find_idempotent key t db of Some r \<Rightarrow> Inr (db, idempotent_result r)
         | None \<Rightarrow> store_new env event_id t ty ts key inp db) = Inr (db', res)"
    unfolding store_event_def and_then_eq_Inr_iff lift_error_Inr_iff by blast
  show thesis by (rule that [OF k]) (use r in \<open>auto split: option.splits\<close>)
qed

lemma store_new_appends:
  assumes "store_new env event_id t ty ts key inp db = Inr (db', res)" and "find_idempotent key t db = None"
  obtains row where "append_event (cs_H env) row db db'" "ce_id row = event_id" "ce_tenant_id row = t" "ce_idempotency_key row = key"
    "ce_sha256_hash row = sr_sha256_hash res" "ce_chain_hash row = sr_chain_hash res" "sr_event_id res = event_id"
    "event_id \<notin> ce_id ` set (cd_events db)" "sr_success res \<longleftrightarrow> ce_validation_status row \<noteq> validation_status_rejected"
  by (rule store_new_effect [OF assms]) (auto simp: append_event_def new_event_row_def intro!: that)

lemma store_event_keeps_ok:
  assumes "store_event env now event_id t inp db = Inr (db', res)" and "store_ok (cs_H env) db"
  shows "store_ok (cs_H env) db'"
  using assms(1)
proof (rule store_event_cases)
  fix ty ts key
  assume "(\<exists>r. find_idempotent key t db = Some r \<and> db' = db \<and> res = idempotent_result r) \<or>
     find_idempotent key t db = None \<and> store_new env event_id t ty ts key inp db = Inr (db', res)"
  then show ?thesis
  proof (elim disjE exE conjE)
    assume new: "find_idempotent key t db = None" "store_new env event_id t ty ts key inp db = Inr (db', res)"
    from store_new_appends [OF new(2,1)] show ?thesis
      using append_event_keeps_ok [OF assms(2)] new(1) by metis
  qed (use assms(2) in simp)
qed

lemma store_ok_verifies:
  assumes "store_ok (cs_H env) db"
  shows "linked (cs_H env) 1 None (chain_of t db) \<and> (\<forall>r \<in> set (chain_of t db). matched db r) \<and>
    length (chain_of t db) = length (accepted_events t db)"
proof -
  have link: "linked (cs_H env) 1 None (rows_of t db)"
    and eq: "map (\<lambda>r. (hc_cte_event_id r, hc_event_hash r)) (rows_of t db) = map (\<lambda>e. (ce_id e, ce_sha256_hash e)) (accepted_events t db)"
    using assms by (simp_all add: store_ok_def)
  have "matched db r" if "r \<in> set (rows_of t db)" for r
  proof -
    have "(hc_cte_event_id r, hc_event_hash r) \<in> set (map (\<lambda>e. (ce_id e, ce_sha256_hash e)) (accepted_events t db))"
      using that by (simp only: eq [symmetric]) auto
    moreover have "hc_tenant_id r = t" using that by (simp add: rows_of_def)
    ultimately show ?thesis by (auto simp: matched_def accepted_events_def list_ex_iff)
  qed
  moreover have "length (rows_of t db) = length (accepted_events t db)"
    using arg_cong [OF eq, of length] by simp
  ultimately show ?thesis using link by (simp add: chain_of_linked [OF link])
qed

section \<open>Tables that were written\<close>

text \<open>The tables some sequence of successful writes produces, of any tenants, from empty ones.\<close>

inductive written :: "cte_env \<Rightarrow> cte_db \<Rightarrow> bool" for env where
  written_empty: "written env empty_cte_db"
| written_store: "written env db \<Longrightarrow> store_event env now event_id t inp db = Inr (db', res) \<Longrightarrow> written env db'"

lemma written_ok: "written env db \<Longrightarrow> store_ok (cs_H env) db"
  by (induction rule: written.induct) (auto simp: store_ok_empty intro: store_event_keeps_ok)

text \<open>
  Claim C4 (invariant). Whatever sequence of events of whatever tenants has been stored, retries,
  rejected and failed calls included, the verifier accepts the chain of every tenant: no error,
  no orphan, no missing entry, and as many chain rows as accepted events.
\<close>

theorem written_chain_verifies:
  assumes "written env db"
  shows "cv_valid (verify_chain env t db) \<and> cv_errors (verify_chain env t db) = [] \<and>
    cv_chain_length (verify_chain env t db) = cv_cte_events_count (verify_chain env t db)"
proof -
  note ok = store_ok_verifies [OF written_ok [OF assms], of t]
  have "cv_valid (verify_chain env t db)" using ok by (simp add: verify_chain_valid_iff)
  moreover have "cv_chain_length (verify_chain env t db) = cv_cte_events_count (verify_chain env t db)"
    using ok by (auto simp: verify_chain_def Let_def)
  moreover have "cv_valid (verify_chain env t db) \<Longrightarrow> cv_errors (verify_chain env t db) = []"
    by (auto simp: verify_chain_def Let_def split: if_splits)
  ultimately show ?thesis by blast
qed

text \<open>An environment for concrete runs: the serialiser shows lot and source, every text is the time 5, every row is accepted.\<close>

definition cte_toy_env :: cte_env where
  "cte_toy_env =
     \<lparr>cs_rt = example_rt\<lparr>rt_fromisoformat := (\<lambda>_. Inr (Datetime 5 (Some 0))),
        rt_json_sorted := (\<lambda>_ v. Inr (case v of PDict d \<Rightarrow> py_str example_rt (dict_get d ''tlc'' (PStr [])) @
          py_str example_rt (dict_get d ''source'' (PStr [])) | _ \<Rightarrow> []))\<rparr>,
      cs_H = toy_digest, cs_repr = type_name, cs_json = (\<lambda>_. ''{}''), cs_event_ok = (\<lambda>_. True), cs_alert_ok = (\<lambda>_. True)\<rparr>"

definition cte_toy_input :: "string \<Rightarrow> pydict list \<Rightarrow> cte_input" where
  "cte_toy_input tlc results =
     \<lparr>in_event_type = PStr ''shipping'', in_traceability_lot_code = tlc, in_product_description = ''Kale'', in_quantity = Fin 3,
      in_unit_of_measure = ''lb'', in_event_timestamp = PStr ''t'', in_source = ''api'', in_location_gln = None,
      in_location_name = None, in_kdes = [], in_alerts = [], in_epcis_event_type = None, in_epcis_action = None,
      in_epcis_biz_step = None, in_source_event_id = None, in_event_entry_timestamp = PNone,
      in_validator_results = results, in_canonical_event = None\<rparr>"

definition stored_db :: "cte_db \<Rightarrow> store_error + cte_db \<times> StoreResult \<Rightarrow> cte_db" where
  "stored_db db r = (case r of Inl _ \<Rightarrow> db | Inr (db', _) \<Rightarrow> db')"

definition cte_toy_db1 :: cte_db where
  "cte_toy_db1 = stored_db empty_cte_db (store_event cte_toy_env 9 ''e1'' ''t1'' (cte_toy_input ''L1'' []) empty_cte_db)"

definition cte_toy_db2 :: cte_db where
  "cte_toy_db2 = stored_db cte_toy_db1 (store_event cte_toy_env 9 ''e2'' ''t1'' (cte_toy_input ''L22'' []) cte_toy_db1)"

lemma written_stored: "written env db \<Longrightarrow> written env (stored_db db (store_event env now event_id t inp db))"
  by (auto simp: stored_db_def intro: written_store split: sum.split prod.split)

lemma written_toy: "written cte_toy_env cte_toy_db1" "written cte_toy_env cte_toy_db2"
  unfolding cte_toy_db2_def cte_toy_db1_def by (intro written_stored written_empty)+

theorem written_chain_verifies_witness:
  "cv_valid (verify_chain cte_toy_env ''t1'' cte_toy_db2) \<and> cv_chain_length (verify_chain cte_toy_env ''t1'' cte_toy_db2) = 2"
proof
  show "cv_valid (verify_chain cte_toy_env ''t1'' cte_toy_db2)"
    using written_chain_verifies [OF written_toy(2)] by blast
  show "cv_chain_length (verify_chain cte_toy_env ''t1'' cte_toy_db2) = 2" by code_simp
qed

section \<open>Idempotency\<close>

lemma parse_timestamp_mono:
  "parse_timestamp env now f v = Inr t \<Longrightarrow> now \<le> now2 \<Longrightarrow> parse_timestamp env now2 f v = Inr t"
  unfolding parse_timestamp_def
  by (cases "read_timestamp env f v") (auto split: if_splits pydatetime.splits option.splits)

lemma event_times_mono:
  assumes "event_times env now a b = Inr ts" and "now \<le> now2"
  obtains u where "event_times env now2 a b = Inr (fst ts, u)"
proof (cases "b = PNone")
  case True
  from assms(1) obtain t where t: "parse_timestamp env now ''event_timestamp'' a = Inr t" "ts = (iso_utc env t, iso_utc env now)"
    unfolding event_times_def True by (auto elim: and_then_InrE)
  show thesis by (rule that) (simp add: event_times_def True t parse_timestamp_mono [OF t(1) assms(2)])
next
  case False
  from assms(1) False obtain t v where t: "parse_timestamp env now ''event_timestamp'' a = Inr t"
      "parse_timestamp env now ''event_entry_timestamp'' b = Inr v" "fst ts = iso_utc env t"
    unfolding event_times_def by (auto elim!: and_then_InrE)
  show thesis
    by (rule that) (simp add: event_times_def False t parse_timestamp_mono [OF t(1) assms(2)] parse_timestamp_mono [OF t(2) assms(2)])
qed

lemma find_idempotent_unique:
  assumes "store_ok H db" and "r \<in> set (cd_events db)"
  shows "find_idempotent (ce_idempotency_key r) (ce_tenant_id r) db = Some r"
proof -
  have d: "distinct (map (\<lambda>r. (ce_tenant_id r, ce_idempotency_key r)) (cd_events db))" using assms(1) by (simp add: store_ok_def)
  have "find_idempotent (ce_idempotency_key r) (ce_tenant_id r) db \<noteq> None"
    using assms(2) unfolding find_idempotent_None by blast
  then obtain r' where r': "find_idempotent (ce_idempotency_key r) (ce_tenant_id r) db = Some r'" by blast
  note f = find_idempotent_Some [OF r']
  have "r' = r" using d f assms(2) by (auto simp: distinct_map dest: inj_onD)
  with r' show ?thesis by simp
qed

text \<open>
  Claim C33 (functional). Storing is idempotent: after a call that returned, the same call with a
  fresh identifier at any later time changes no table and answers with the identifier and the
  hashes of the first. It also answers success without an error, even when the first call
  reported that the event was rejected.
\<close>

theorem store_event_idempotent:
  assumes "store_ok (cs_H env) db" and "store_event env now id1 t inp db = Inr (db1, r1)" and "now \<le> now2"
  shows "store_event env now2 id2 t inp db1 =
    Inr (db1, \<lparr>sr_success = True, sr_event_id = sr_event_id r1, sr_sha256_hash = sr_sha256_hash r1,
               sr_chain_hash = sr_chain_hash r1, sr_idempotent = True, sr_errors = [], sr_alerts = []\<rparr>)"
  using assms(2)
proof (rule store_event_cases)
  fix ty ts key
  assume v: "validate_event_type env (in_event_type inp) = Inr ty"
    "event_times env now (in_event_timestamp inp) (in_event_entry_timestamp inp) = Inr ts"
    "compute_idempotency_key (cs_rt env) (cs_H env) ty (in_traceability_lot_code inp) (fst ts) (in_source inp) (in_kdes inp)
       (in_location_gln inp) (in_location_name inp) = Inr key"
    and c: "(\<exists>r. find_idempotent key t db = Some r \<and> db1 = db \<and> r1 = idempotent_result r) \<or>
     find_idempotent key t db = None \<and> store_new env id1 t ty ts key inp db = Inr (db1, r1)"
  obtain u where u: "event_times env now2 (in_event_timestamp inp) (in_event_entry_timestamp inp) = Inr (fst ts, u)"
    by (rule event_times_mono [OF v(2) assms(3)])
  have "\<exists>r. find_idempotent key t db1 = Some r \<and> ce_id r = sr_event_id r1 \<and> ce_sha256_hash r = sr_sha256_hash r1 \<and>
      ce_chain_hash r = sr_chain_hash r1"
    using c
  proof (elim disjE exE conjE)
    assume new: "find_idempotent key t db = None" "store_new env id1 t ty ts key inp db = Inr (db1, r1)"
    obtain row where row: "append_event (cs_H env) row db db1" "ce_id row = id1" "ce_tenant_id row = t" "ce_idempotency_key row = key"
      "ce_sha256_hash row = sr_sha256_hash r1" "ce_chain_hash row = sr_chain_hash r1" "sr_event_id r1 = id1"
      by (rule store_new_appends [OF new(2,1)])
    have "row \<in> set (cd_events db1)" using row(1) by (simp add: append_event_def)
    from find_idempotent_unique [OF store_event_keeps_ok [OF assms(2,1)] this] row show ?thesis by auto
  qed (simp add: idempotent_result_def)
  with v u show ?thesis by (auto simp: store_event_def lift_error_def idempotent_result_def)
qed

definition cte_reject :: "pydict list" where
  "cte_reject = [[(''severity'', PStr ''reject''), (''reason'', PStr ''bad lot'')]]"

theorem store_event_idempotent_witness:
  "(case store_event cte_toy_env 9 ''e1'' ''t1'' (cte_toy_input ''L1'' cte_reject) empty_cte_db of
      Inl _ \<Rightarrow> False
    | Inr (db1, r1) \<Rightarrow> \<not> sr_success r1 \<and> sr_errors r1 = [PStr ''bad lot''] \<and>
        (\<exists>r2. store_event cte_toy_env 10 ''e2'' ''t1'' (cte_toy_input ''L1'' cte_reject) db1 = Inr (db1, r2) \<and> sr_success r2))"
proof -
  obtain db1 r1 where s: "store_event cte_toy_env 9 ''e1'' ''t1'' (cte_toy_input ''L1'' cte_reject) empty_cte_db = Inr (db1, r1)"
      and r: "\<not> sr_success r1 \<and> sr_errors r1 = [PStr ''bad lot'']"
  proof -
    have "case store_event cte_toy_env 9 ''e1'' ''t1'' (cte_toy_input ''L1'' cte_reject) empty_cte_db of
        Inl _ \<Rightarrow> False | Inr (db1, r1) \<Rightarrow> \<not> sr_success r1 \<and> sr_errors r1 = [PStr ''bad lot'']"
      by code_simp
    then show thesis by (auto split: sum.splits intro: that)
  qed
  from store_event_idempotent [OF store_ok_empty s, of 10 "''e2''"] r show ?thesis by (simp add: s)
qed

text \<open>
  The guard against storing an event twice does not see content: the event hash
  covers the fresh identifier, so the same content sent under another source is stored and
  chained a second time.
\<close>

theorem duplicate_content_stored_twice:
  "(case store_event cte_toy_env 9 ''e10'' ''t1'' ((cte_toy_input ''L1'' [])\<lparr>in_source := ''upload''\<rparr>) cte_toy_db1 of
      Inl _ \<Rightarrow> False
    | Inr (db, r) \<Rightarrow> sr_success r \<and> \<not> sr_idempotent r \<and>
        map ce_traceability_lot_code (cd_events db) = [''L1'', ''L1''] \<and> length (chain_of ''t1'' db) = 2)"
  by code_simp

section \<open>What a verified chain commits to\<close>

text \<open>
  Claim C9 (safety). A verified chain is committed by its head: if the verifier accepts a tenant's
  chain in two states of the tables and the two chains end in the same hash, then they hold the
  same event hashes in the same order, barring a digest collision among the chain inputs.
  Altering, inserting, reordering or removing rows without changing the head is detected.
\<close>

theorem verified_chain_committed_by_head:
  assumes "hex_digest (cs_H env)" and "cv_valid (verify_chain env t db1)" and "cv_valid (verify_chain env t db2)"
    and "fst (next_link t db1) = fst (next_link t db2)"
    and "inj_on (cs_H env) (set (chain_inputs (cs_H env) None (map hc_event_hash (chain_of t db1))) \<union>
                            set (chain_inputs (cs_H env) None (map hc_event_hash (chain_of t db2))))"
  shows "map hc_event_hash (chain_of t db1) = map hc_event_hash (chain_of t db2)"
proof (rule chain_from_inj [OF assms(1,5)])
  have "fst (next_link t db) = chain_from (cs_H env) None (map hc_event_hash (chain_of t db))" if "cv_valid (verify_chain env t db)" for db
  proof -
    have "linked (cs_H env) 1 None (chain_of t db)" using that by (simp add: verify_chain_valid_iff)
    from linked_head [OF this] show ?thesis by (auto simp: next_link_def chain_head_def split: list.split)
  qed
  then show "chain_from (cs_H env) None (map hc_event_hash (chain_of t db1)) =
      chain_from (cs_H env) None (map hc_event_hash (chain_of t db2))"
    using assms(2,3,4) by metis
qed

theorem verified_chain_committed_by_head_witness:
  "fst (next_link ''t1'' cte_toy_db1) \<noteq> fst (next_link ''t1'' cte_toy_db2)"
proof
  assume eq: "fst (next_link ''t1'' cte_toy_db1) = fst (next_link ''t1'' cte_toy_db2)"
  have v: "cv_valid (verify_chain cte_toy_env ''t1'' cte_toy_db1)" "cv_valid (verify_chain cte_toy_env ''t1'' cte_toy_db2)"
    by code_simp+
  have h: "cs_H cte_toy_env = toy_digest" by (simp add: cte_toy_env_def)
  have "inj_on toy_digest (set (chain_inputs toy_digest None (map hc_event_hash (chain_of ''t1'' cte_toy_db1))) \<union>
      set (chain_inputs toy_digest None (map hc_event_hash (chain_of ''t1'' cte_toy_db2))))"
    unfolding set_append [symmetric] by (rule inj_on_distinct) code_simp
  from verified_chain_committed_by_head [of cte_toy_env, OF _ v eq] this toy_digest_hex
  have "length (map hc_event_hash (chain_of ''t1'' cte_toy_db1)) = length (map hc_event_hash (chain_of ''t1'' cte_toy_db2))"
    by (simp add: h)
  moreover have "length (chain_of ''t1'' cte_toy_db1) = 1" "length (chain_of ''t1'' cte_toy_db2) = 2" by code_simp+
  ultimately show False by simp
qed

text \<open>
  The verifier does not look at the events: any change of the stored events that
  keeps their identifiers, tenants and validation statuses, be it of quantities, lot codes or of
  the stored hash itself, leaves its answer exactly as it was.
\<close>

theorem verify_chain_ignores_content:
  assumes "\<forall>r. ce_id (f r) = ce_id r \<and> ce_tenant_id (f r) = ce_tenant_id r \<and> ce_validation_status (f r) = ce_validation_status r"
  shows "verify_chain env t (db\<lparr>cd_events := map f (cd_events db)\<rparr>) = verify_chain env t db"
proof -
  let ?d = "db\<lparr>cd_events := map f (cd_events db)\<rparr>"
  have acc: "accepted_events t ?d = map f (accepted_events t db)"
    using assms by (simp add: accepted_events_def filter_map comp_def)
  have m: "matched ?d = matched db"
    using assms by (auto simp: matched_def fun_eq_iff list_ex_iff)
  have "chain_of t ?d = chain_of t db" by (simp add: chain_of_def)
  moreover have "missing_chain_event_ids t ?d = missing_chain_event_ids t db"
    using assms by (simp add: missing_chain_event_ids_def acc filter_map comp_def)
  moreover have "chain_errors H ?d n b rows = chain_errors H db n b rows" for H n b rows
    by (induction rows arbitrary: n b) (simp_all add: row_errors_def m)
  ultimately show ?thesis by (simp add: verify_chain_def Let_def acc m)
qed

theorem verify_chain_ignores_content_witness:
  "cv_valid (verify_chain cte_toy_env ''t1'' (cte_toy_db2\<lparr>cd_events := map (\<lambda>r. r\<lparr>ce_quantity := Fin 9, ce_sha256_hash := []\<rparr>) (cd_events cte_toy_db2)\<rparr>))"
proof -
  have "cv_valid (verify_chain cte_toy_env ''t1'' cte_toy_db2)" by code_simp
  then show ?thesis
    using verify_chain_ignores_content [of "\<lambda>r. r\<lparr>ce_quantity := Fin 9, ce_sha256_hash := []\<rparr>" cte_toy_env "''t1''" cte_toy_db2] by simp
qed

text \<open>Tables in which the first event is chained twice and the second not at all.\<close>

definition doubled_db :: cte_db where
  "doubled_db = cte_toy_db2\<lparr>cd_chain := map (\<lambda>r. r\<lparr>hc_cte_event_id := ''e1''\<rparr>) (cd_chain cte_toy_db2)\<rparr>"

text \<open>
  The cross-check for events without a chain entry runs only when the number
  of chain rows differs from the number of accepted events: tables in which one event is chained
  twice and another not at all are reported valid, with no missing entry.
\<close>

theorem missing_entry_not_reported:
  "cv_valid (verify_chain cte_toy_env ''t1'' doubled_db) \<and> cv_missing_chain_rows (verify_chain cte_toy_env ''t1'' doubled_db) = [] \<and>
   missing_chain_event_ids ''t1'' doubled_db = [''e2'']"
proof -
  have "cv_valid (verify_chain cte_toy_env ''t1'' doubled_db)" by code_simp
  moreover have "cv_missing_chain_rows (verify_chain cte_toy_env ''t1'' doubled_db) = []" by code_simp
  moreover have "missing_chain_event_ids ''t1'' doubled_db = [''e2'']" by code_simp
  ultimately show ?thesis by blast
qed

section \<open>Inclusion proofs\<close>

lemma find_target_None: "find_target e i rows acc = None \<longleftrightarrow> acc = None \<and> (\<forall>r \<in> set rows. hc_cte_event_id r \<noteq> e)"
  by (induction rows arbitrary: i acc) auto

lemma find_target_Some:
  "find_target e i rows acc = Some (j, h) \<Longrightarrow>
   acc = Some (j, h) \<or> (i \<le> j \<and> j < i + length rows \<and> hc_cte_event_id (rows ! (j - i)) = e \<and> hc_event_hash (rows ! (j - i)) = h)"
proof (induction rows arbitrary: i acc)
  case (Cons r rows)
  let ?acc = "if hc_cte_event_id r = e then Some (i, hc_event_hash r) else acc"
  have "?acc = Some (j, h) \<or> (Suc i \<le> j \<and> j < Suc i + length rows \<and> hc_cte_event_id (rows ! (j - Suc i)) = e \<and>
      hc_event_hash (rows ! (j - Suc i)) = h)"
    using Cons.IH [of "Suc i" ?acc] Cons.prems by simp
  then show ?case by (auto simp: nth_Cons' split: if_splits)
qed simp

text \<open>
  Every stored and accepted event can be proved: for tables written by the
  write path, the proof request for the event succeeds, carries the event's own hash, and the
  proof verifies against the Merkle root of the tenant's chain.
\<close>

theorem stored_event_has_proof:
  assumes "written env db" and "e \<in> set (accepted_events t db)"
  shows "\<exists>p. get_merkle_proof env t (ce_id e) db = Inr (Some p) \<and> mp_event_hash p = ce_sha256_hash e \<and>
    verify_proof (cs_H env) (ce_sha256_hash e) (mp_proof p) (mp_merkle_root p) \<and>
    mp_merkle_root p = compute_merkle_root (cs_H env) (map hc_event_hash (chain_of t db))"
proof -
  have ok: "store_ok (cs_H env) db" by (rule written_ok [OF assms(1)])
  have link: "linked (cs_H env) 1 None (rows_of t db)"
    and eq: "map (\<lambda>r. (hc_cte_event_id r, hc_event_hash r)) (rows_of t db) = map (\<lambda>e. (ce_id e, ce_sha256_hash e)) (accepted_events t db)"
    using ok by (simp_all add: store_ok_def)
  let ?rows = "chain_of t db"
  have rows: "?rows = rows_of t db" by (rule chain_of_linked [OF link])
  have pairs: "(hc_cte_event_id r, hc_event_hash r) \<in> (\<lambda>e. (ce_id e, ce_sha256_hash e)) ` set (accepted_events t db)" if "r \<in> set ?rows" for r
    using that arg_cong [OF eq, of set] by (auto simp: rows)
  have "(ce_id e, ce_sha256_hash e) \<in> (\<lambda>r. (hc_cte_event_id r, hc_event_hash r)) ` set ?rows"
    using assms(2) arg_cong [OF eq, of set] by (auto simp: rows)
  then obtain r0 where "r0 \<in> set ?rows" "hc_cte_event_id r0 = ce_id e" by auto
  then obtain j h where j: "find_target (ce_id e) 0 ?rows None = Some (j, h)"
    using find_target_None [of "ce_id e" 0 ?rows None] by (cases "find_target (ce_id e) 0 ?rows None") auto
  from find_target_Some [OF j] have jl: "j < length ?rows" "hc_cte_event_id (?rows ! j) = ce_id e" "hc_event_hash (?rows ! j) = h"
    by simp_all
  obtain e' where "e' \<in> set (accepted_events t db)" "ce_id e' = ce_id e" "ce_sha256_hash e' = h"
    using pairs [of "?rows ! j"] jl by auto
  moreover have "inj_on ce_id (set (cd_events db))" using ok by (simp add: store_ok_def distinct_map)
  ultimately have h: "h = ce_sha256_hash e"
    using assms(2) by (auto simp: accepted_events_def dest: inj_onD)
  obtain path where "generate_proof (merkle_init (cs_H env) (map hc_event_hash ?rows)) (int j) = Inr path"
      "verify_proof (cs_H env) (map hc_event_hash ?rows ! j) path (mt_root (merkle_init (cs_H env) (map hc_event_hash ?rows)))"
    using merkle_path_verifies [of j "map hc_event_hash ?rows" "cs_H env"] jl(1) by auto
  with jl j h show ?thesis
    by (auto simp: get_merkle_proof_def Let_def compute_merkle_root_def)
qed

theorem stored_event_has_proof_witness:
  "\<exists>p. get_merkle_proof cte_toy_env ''t1'' ''e2'' cte_toy_db2 = Inr (Some p)"
proof -
  have "list_ex (\<lambda>e. ce_id e = ''e2'') (accepted_events ''t1'' cte_toy_db2)" by code_simp
  then obtain e where "e \<in> set (accepted_events ''t1'' cte_toy_db2)" "ce_id e = ''e2''" by (auto simp: list_ex_iff)
  with stored_event_has_proof [OF written_toy(2)] show ?thesis by metis
qed

end
