(* ===== verification/CteBatch.thy ===== *)
theory CteBatch
  imports ChainVerify
begin

text \<open>
  \<^verbatim>\<open>services/shared/cte_persistence/batch.py\<close>: the batch write path. All events of a call are
  prepared, hashed in memory along one running chain, and then inserted table by table. Chunks
  of statements are one statement here: their rows are inserted in order either way. One reading
  of the clock stands for those of the call.
\<close>

section \<open>Preparation\<close>

text \<open>An event of a batch; its quantity is whatever the caller put into the dictionary.\<close>

record batch_event =
  be_input :: cte_input
  be_quantity :: pyval

record prepared_event =
  pe_event_id :: string
  pe_idemp_key :: string
  pe_event_type :: string
  pe_timestamp :: string
  pe_event :: batch_event

definition prepare_event :: "cte_env \<Rightarrow> int \<Rightarrow> string \<Rightarrow> string \<times> batch_event \<Rightarrow> py_error + prepared_event" where
  "prepare_event env now src ie =
     (let inp = be_input (snd ie)
      in and_then (validate_event_type env (in_event_type inp)) (\<lambda>event_type.
         and_then (event_times env now (in_event_timestamp inp) (in_event_entry_timestamp inp)) (\<lambda>ts.
         and_then (compute_idempotency_key (cs_rt env) (cs_H env) event_type (in_traceability_lot_code inp) (fst ts) src
             (in_kdes inp) (in_location_gln inp) (in_location_name inp)) (\<lambda>key.
           Inr \<lparr>pe_event_id = fst ie, pe_idemp_key = key, pe_event_type = event_type, pe_timestamp = fst ts,
                pe_event = snd ie\<rparr>))))"

definition batch_quantity :: "cte_env \<Rightarrow> prepared_event \<Rightarrow> py_error + pyfloat" where
  "batch_quantity env p =
     (let raw_qty = be_quantity (pe_event p); tlc = in_traceability_lot_code (be_input (pe_event p))
      in if raw_qty = PNone then
           Inl (ValueError (''quantity is required for CTE event (tlc='' @ tlc @ '', type='' @ pe_event_type p @ '')''))
         else case to_float raw_qty of
                Inl (ValueError _) \<Rightarrow> Inl (ValueError (''quantity must be numeric, got '' @ cs_repr env raw_qty))
              | Inl TypeError \<Rightarrow> Inl (ValueError (''quantity must be numeric, got '' @ cs_repr env raw_qty))
              | Inl e \<Rightarrow> Inl e
              | Inr quantity \<Rightarrow>
                  if fle quantity (Fin 0)
                  then Inl (ValueError (''quantity must be > 0, got '' @ py_str (cs_rt env) (PFloat quantity) @ '' (tlc='' @ tlc @ '')''))
                  else Inr quantity)"

section \<open>The loop in memory\<close>

type_synonym known = "string \<Rightarrow> (string \<times> string \<times> string) option"

record batch_state =
  bs_existing :: known
  bs_previous :: "string option"
  bs_sequence :: int
  bs_event_rows :: "cte_row list"
  bs_kde_rows :: "kde_row list"
  bs_chain_rows :: "ChainEntry list"
  bs_alert_rows :: "(string \<times> pydict) list"
  bs_results :: "StoreResult list"

definition known_result :: "string \<times> string \<times> string \<Rightarrow> StoreResult" where
  "known_result k =
     (case k of (eid, sha, ch) \<Rightarrow>
        \<lparr>sr_success = True, sr_event_id = eid, sr_sha256_hash = sha, sr_chain_hash = ch, sr_idempotent = True,
         sr_errors = [], sr_alerts = []\<rparr>)"

text \<open>A new event; its entry time is not among the fields of the row, so the insert falls back to the clock.\<close>

definition batch_new ::
  "cte_env \<Rightarrow> int \<Rightarrow> string \<Rightarrow> string \<Rightarrow> cte_db \<Rightarrow> prepared_event \<Rightarrow> batch_state \<Rightarrow> store_error + batch_state" where
  "batch_new env now t src db p st =
     and_then (lift_error (batch_quantity env p)) (\<lambda>quantity.
       let inp = (be_input (pe_event p))\<lparr>in_quantity := quantity, in_source := src\<rparr>; event_id = pe_event_id p
       in and_then (lift_error (event_digest env event_id t (pe_event_type p) (pe_timestamp p) inp)) (\<lambda>sha.
          and_then (assert_not_exists sha t db) (\<lambda>_.
            let status = derive_validation_status env (in_alerts inp) (in_validator_results inp);
                chain = compute_chain_hash (cs_H env) sha (bs_previous st);
                row = new_event_row event_id t (pe_event_type p) (pe_timestamp p, iso_utc env now) (pe_idemp_key p) sha chain status inp;
                res = \<lparr>sr_success = True, sr_event_id = event_id, sr_sha256_hash = sha, sr_chain_hash = chain,
                       sr_idempotent = False, sr_errors = [], sr_alerts = in_alerts inp\<rparr>;
                st1 = st\<lparr>bs_existing := (bs_existing st)(pe_idemp_key p \<mapsto> (event_id, sha, chain)),
                         bs_event_rows := bs_event_rows st @ [row]\<rparr>
            in Inr (if status \<noteq> validation_status_rejected then
                 st1\<lparr>bs_kde_rows := bs_kde_rows st @ kde_rows_of env t event_id (in_kdes inp),
                     bs_chain_rows := bs_chain_rows st @
                       [\<lparr>hc_tenant_id = t, hc_cte_event_id = event_id, hc_sequence_num = bs_sequence st, hc_event_hash = sha,
                         hc_previous_chain_hash = bs_previous st, hc_chain_hash = Some chain\<rparr>],
                     bs_alert_rows := bs_alert_rows st @ map (\<lambda>a. (event_id, a)) (in_alerts inp),
                     bs_results := bs_results st @ [res],
                     bs_previous := Some chain, bs_sequence := bs_sequence st + 1\<rparr>
               else
                 st1\<lparr>bs_results := bs_results st @
                       [res\<lparr>sr_success := False,
                            sr_errors := rejection_reasons env (in_validator_results inp @ in_alerts inp)\<rparr>]\<rparr>))))"

definition batch_step ::
  "cte_env \<Rightarrow> int \<Rightarrow> string \<Rightarrow> string \<Rightarrow> cte_db \<Rightarrow> prepared_event \<Rightarrow> batch_state \<Rightarrow> store_error + batch_state" where
  "batch_step env now t src db p st =
     (case bs_existing st (pe_idemp_key p) of
        Some k \<Rightarrow> Inr (st\<lparr>bs_results := bs_results st @ [known_result k]\<rparr>)
      | None \<Rightarrow> batch_new env now t src db p st)"

fun batch_loop ::
  "cte_env \<Rightarrow> int \<Rightarrow> string \<Rightarrow> string \<Rightarrow> cte_db \<Rightarrow> prepared_event list \<Rightarrow> batch_state \<Rightarrow> store_error + batch_state" where
  "batch_loop env now t src db [] st = Inr st"
| "batch_loop env now t src db (p # ps) st =
     and_then (batch_step env now t src db p st) (\<lambda>st1. batch_loop env now t src db ps st1)"

section \<open>The inserts\<close>

text \<open>\<open>INSERT ... ON CONFLICT DO NOTHING RETURNING id\<close>: the tables and the identifiers that landed.\<close>

fun insert_events :: "cte_env \<Rightarrow> cte_row list \<Rightarrow> cte_db \<Rightarrow> store_error + cte_db \<times> string list" where
  "insert_events env [] db = Inr (db, [])"
| "insert_events env (row # rows) db =
     and_then (insert_event env row db) (\<lambda>db1.
     and_then (insert_events env rows db1) (\<lambda>(db2, ids).
       Inr (db2, (if find_idempotent (ce_idempotency_key row) (ce_tenant_id row) db = None then [ce_id row] else []) @ ids)))"

fun insert_chain_rows :: "ChainEntry list \<Rightarrow> cte_db \<Rightarrow> store_error + cte_db" where
  "insert_chain_rows [] db = Inr db"
| "insert_chain_rows (row # rows) db = and_then (insert_chain row db) (insert_chain_rows rows)"

text \<open>The position of the last prepared event with the key, whose result is rewritten to the winner's.\<close>

fun last_index :: "string \<Rightarrow> nat \<Rightarrow> string list \<Rightarrow> nat option \<Rightarrow> nat option" where
  "last_index k i [] acc = acc"
| "last_index k i (x # xs) acc = last_index k (Suc i) xs (if x = k then Some i else acc)"

definition patch_lost :: "string \<Rightarrow> cte_db \<Rightarrow> string list \<Rightarrow> string \<Rightarrow> StoreResult list \<Rightarrow> StoreResult list" where
  "patch_lost t db keys k results =
     (case (find_idempotent k t db, last_index k 0 keys None) of
        (Some r, Some i) \<Rightarrow> results[i := idempotent_result r]
      | _ \<Rightarrow> results)"

definition batch_insert ::
  "cte_env \<Rightarrow> string \<Rightarrow> string list \<Rightarrow> batch_state \<Rightarrow> cte_db \<Rightarrow> store_error + cte_db \<times> StoreResult list" where
  "batch_insert env t keys st db =
     and_then (insert_events env (bs_event_rows st) db) (\<lambda>(db1, inserted_ids).
       let lost = map ce_idempotency_key (filter (\<lambda>r. ce_id r \<notin> set inserted_ids) (bs_event_rows st));
           results = fold (patch_lost t db1 keys) lost (bs_results st)
       in and_then (insert_chain_rows (bs_chain_rows st) (fold insert_kde (bs_kde_rows st) db1)) (\<lambda>db2.
            Inr (fold (\<lambda>(event_id, alert). insert_alert env t event_id alert)
                   (filter (\<lambda>(event_id, _). event_id \<in> set inserted_ids) (bs_alert_rows st)) db2, results)))"

definition known_keys :: "string \<Rightarrow> cte_db \<Rightarrow> string list \<Rightarrow> known" where
  "known_keys t db keys k =
     (if k \<in> set keys
      then map_option (\<lambda>r. (ce_id r, ce_sha256_hash r, ce_chain_hash r)) (find_idempotent k t db) else None)"

definition init_batch :: "known \<Rightarrow> string option \<times> int \<Rightarrow> batch_state" where
  "init_batch existing link =
     \<lparr>bs_existing = existing, bs_previous = fst link, bs_sequence = snd link, bs_event_rows = [], bs_kde_rows = [],
      bs_chain_rows = [], bs_alert_rows = [], bs_results = []\<rparr>"

text \<open>The events come with the identifiers \<open>uuid4\<close> gives them.\<close>

definition store_events_batch ::
  "cte_env \<Rightarrow> int \<Rightarrow> string \<Rightarrow> string \<Rightarrow> (string \<times> batch_event) list \<Rightarrow> cte_db \<Rightarrow> store_error + cte_db \<times> StoreResult list" where
  "store_events_batch env now t src events db =
     (if events = [] then Inr (db, [])
      else
        and_then (lift_error (map_err (prepare_event env now src) events)) (\<lambda>prepared.
          let keys = map pe_idemp_key prepared
          in and_then (batch_loop env now t src db prepared (init_batch (known_keys t db keys) (next_link t db))) (\<lambda>st.
               batch_insert env t keys st db)))"

section \<open>The batch against a sequence of single writes\<close>

text \<open>The same events through the single-event path, one after the other, with the same identifiers.\<close>

definition single_input :: "string \<Rightarrow> batch_event \<Rightarrow> cte_input" where
  "single_input src e =
     (be_input e)\<lparr>in_quantity := (case be_quantity e of PFloat q \<Rightarrow> q | _ \<Rightarrow> in_quantity (be_input e)), in_source := src\<rparr>"

fun store_each ::
  "cte_env \<Rightarrow> int \<Rightarrow> string \<Rightarrow> string \<Rightarrow> (string \<times> batch_event) list \<Rightarrow> cte_db \<Rightarrow> store_error + cte_db \<times> StoreResult list" where
  "store_each env now t src [] db = Inr (db, [])"
| "store_each env now t src ((i, e) # es) db =
     and_then (store_event env now i t (single_input src e) db) (\<lambda>(db1, r).
     and_then (store_each env now t src es db1) (\<lambda>(db2, rs). Inr (db2, r # rs)))"

text \<open>An event with a positive quantity that states no entry time.\<close>

definition plain_event :: "batch_event \<Rightarrow> bool" where
  "plain_event e \<longleftrightarrow>
     (case be_quantity e of PFloat q \<Rightarrow> \<not> fle q (Fin 0) | _ \<Rightarrow> False) \<and> in_event_entry_timestamp (be_input e) = PNone"

definition alert_rows_of :: "cte_env \<Rightarrow> string \<Rightarrow> string \<times> pydict \<Rightarrow> pydict list" where
  "alert_rows_of env t ea =
     (case alert_insert_params t (fst ea) (snd ea) of Inl _ \<Rightarrow> [] | Inr row \<Rightarrow> if cs_alert_ok env row then [row] else [])"

lemma insert_alerts_eq:
  "fold (\<lambda>(event_id, alert). insert_alert env t event_id alert) eas db =
   db\<lparr>cd_alerts := cd_alerts db @ concat (map (alert_rows_of env t) eas)\<rparr>"
  by (induction eas arbitrary: db) (auto simp: insert_alert_def alert_rows_of_def split: sum.split)

lemma fold_alerts_pair:
  "fold (insert_alert env t e) as db = fold (\<lambda>(event_id, alert). insert_alert env t event_id alert) (map (\<lambda>a. (e, a)) as) db"
  by (induction as arbitrary: db) simp_all

definition add_kde :: "kde_row \<Rightarrow> kde_row list \<Rightarrow> kde_row list" where
  "add_kde row ks =
     (if list_ex (\<lambda>r. kr_cte_event_id r = kr_cte_event_id row \<and> kr_kde_key r = kr_kde_key row) ks then ks else ks @ [row])"

lemma insert_kdes_eq: "fold insert_kde ks db = db\<lparr>cd_kdes := fold add_kde ks (cd_kdes db)\<rparr>"
  by (induction ks arbitrary: db) (auto simp: insert_kde_def add_kde_def)

lemma insert_events_snoc:
  assumes "insert_events env rows db = Inr (db1, ids)" and "insert_event env row db1 = Inr db2"
    and "find_idempotent (ce_idempotency_key row) (ce_tenant_id row) db1 = None"
  shows "insert_events env (rows @ [row]) db = Inr (db2, ids @ [ce_id row])"
  using assms
  by (induction rows arbitrary: db ids) (auto simp: and_then_eq_Inr_iff split: prod.splits)

lemma insert_chain_rows_snoc: "insert_chain_rows (rows @ [row]) db = and_then (insert_chain_rows rows db) (insert_chain row)"
proof (induction rows arbitrary: db)
  case Nil
  show ?case by (cases "insert_chain row db") simp_all
next
  case (Cons a rows)
  then show ?case by (cases "insert_chain a db") simp_all
qed

text \<open>
  The state of the loop against the tables \<open>dbi\<close> of the sequence: the rows collected so far, on
  top of the initial tables \<open>db\<close>, are \<open>dbi\<close>, and the running link and the known keys are those
  of \<open>dbi\<close>.
\<close>

definition batch_sim ::
  "cte_env \<Rightarrow> string \<Rightarrow> string list \<Rightarrow> cte_db \<Rightarrow> batch_state \<Rightarrow> cte_db \<Rightarrow> StoreResult list \<Rightarrow> bool" where
  "batch_sim env t keys db st dbi rs \<longleftrightarrow>
     insert_events env (bs_event_rows st) db = Inr (db\<lparr>cd_events := cd_events dbi\<rparr>, map ce_id (bs_event_rows st)) \<and>
     cd_events dbi = cd_events db @ bs_event_rows st \<and>
     (\<forall>d. cd_chain d = cd_chain db \<and> set (cd_events dbi) \<subseteq> set (cd_events d) \<longrightarrow>
        insert_chain_rows (bs_chain_rows st) d = Inr (d\<lparr>cd_chain := cd_chain dbi\<rparr>)) \<and>
     cd_kdes dbi = fold add_kde (bs_kde_rows st) (cd_kdes db) \<and>
     cd_alerts dbi = cd_alerts db @ concat (map (alert_rows_of env t) (bs_alert_rows st)) \<and>
     fst ` set (bs_alert_rows st) \<subseteq> ce_id ` set (bs_event_rows st) \<and>
     next_link t dbi = (bs_previous st, bs_sequence st) \<and>
     (\<forall>k \<in> set keys. bs_existing st k = map_option (\<lambda>r. (ce_id r, ce_sha256_hash r, ce_chain_hash r)) (find_idempotent k t dbi)) \<and>
     bs_results st = rs"

lemma batch_sim_init: "batch_sim env t keys db (init_batch (known_keys t db keys) (next_link t db)) db []"
  by (auto simp: batch_sim_def init_batch_def known_keys_def)

lemma batch_sim_insert:
  assumes "batch_sim env t keys db st db' rs"
  shows "batch_insert env t keys st db = Inr (db', rs)"
proof -
  have lost: "filter (\<lambda>r. ce_id r \<notin> set (map ce_id (bs_event_rows st))) (bs_event_rows st) = []"
    by (simp add: filter_empty_conv)
  have al: "filter (\<lambda>(event_id, _). event_id \<in> set (map ce_id (bs_event_rows st))) (bs_alert_rows st) = bs_alert_rows st"
    using assms by (force simp: batch_sim_def intro!: filter_True)
  let ?d = "fold insert_kde (bs_kde_rows st) (db\<lparr>cd_events := cd_events db'\<rparr>)"
  have "insert_chain_rows (bs_chain_rows st) ?d = Inr (?d\<lparr>cd_chain := cd_chain db'\<rparr>)"
    using assms unfolding batch_sim_def by (simp add: insert_kdes_eq)
  moreover have "?d\<lparr>cd_chain := cd_chain db', cd_alerts := cd_alerts db @ concat (map (alert_rows_of env t) (bs_alert_rows st))\<rparr> = db'"
    using assms by (auto simp: batch_sim_def insert_kdes_eq intro!: cte_db.equality)
  ultimately show ?thesis
    using assms unfolding batch_insert_def
    by (simp add: batch_sim_def lost al insert_alerts_eq insert_kdes_eq del: set_map)
qed

definition status_of :: "cte_env \<Rightarrow> cte_input \<Rightarrow> string" where
  "status_of env inp = derive_validation_status env (in_alerts inp) (in_validator_results inp)"

lemma store_new_exact:
  assumes "store_new env i t ty ts key inp db = Inr (db', res)" and "find_idempotent key t db = None"
  obtains sha row where
    "event_digest env i t ty (fst ts) inp = Inr sha" "assert_not_exists sha t db = Inr ()"
    "row = new_event_row i t ty ts key sha (compute_chain_hash (cs_H env) sha (fst (next_link t db))) (status_of env inp) inp"
    "i \<notin> ce_id ` set (cd_events db)" "cs_event_ok env row"
    "db' = (if status_of env inp = validation_status_rejected then db\<lparr>cd_events := cd_events db @ [row]\<rparr>
            else db\<lparr>cd_events := cd_events db @ [row], cd_kdes := fold add_kde (kde_rows_of env t i (in_kdes inp)) (cd_kdes db),
                    cd_chain := cd_chain db @ [new_entry (cs_H env) i t sha db],
                    cd_alerts := cd_alerts db @ concat (map (\<lambda>a. alert_rows_of env t (i, a)) (in_alerts inp))\<rparr>)"
    "status_of env inp \<noteq> validation_status_rejected \<Longrightarrow>
      \<not> list_ex (\<lambda>r. hc_tenant_id r = t \<and> hc_sequence_num r = snd (next_link t db)) (cd_chain db)"
    "res = \<lparr>sr_success = (status_of env inp \<noteq> validation_status_rejected), sr_event_id = i, sr_sha256_hash = sha,
            sr_chain_hash = ce_chain_hash row, sr_idempotent = False,
            sr_errors = (if status_of env inp = validation_status_rejected
                         then rejection_reasons env (in_validator_results inp @ in_alerts inp) else []),
            sr_alerts = in_alerts inp\<rparr>"
proof -
  obtain previous seq where nl: "next_link t db = (previous, seq)" by fastforce
  obtain sha where sha: "event_digest env i t ty (fst ts) inp = Inr sha" "assert_not_exists sha t db = Inr ()"
    using assms(1) by (auto simp: store_new_def and_then_eq_Inr_iff)
  define row where "row = new_event_row i t ty ts key sha (compute_chain_hash (cs_H env) sha previous) (status_of env inp) inp"
  obtain db1 where db1: "insert_event env row db = Inr db1"
    using assms(1) sha by (auto simp: store_new_def lift_error_def Let_def nl row_def status_of_def and_then_eq_Inr_iff)
  have ev: "db1 = db\<lparr>cd_events := cd_events db @ [row]\<rparr>" "i \<notin> ce_id ` set (cd_events db)" "cs_event_ok env row"
    using insert_event_Inr [OF db1] assms(2) by (simp_all add: row_def new_event_row_def)
  have r: "ce_chain_hash row = compute_chain_hash (cs_H env) sha previous" "ce_id row = i" "ce_tenant_id row = t"
    by (simp_all add: row_def new_event_row_def)
  have nr: "new_event_row i t ty ts key sha (compute_chain_hash (cs_H env) sha previous)
      (derive_validation_status env (in_alerts inp) (in_validator_results inp)) inp = row"
    by (simp add: row_def status_of_def)
  note u = assms(1) [unfolded store_new_def sha lift_error_def sum.case and_then_Inr Let_def nl prod.case nr db1,
      folded status_of_def, unfolded and_then_Inr]
  have rowq: "row = new_event_row i t ty ts key sha (compute_chain_hash (cs_H env) sha (fst (next_link t db))) (status_of env inp) inp"
    by (simp add: row_def nl)
  show thesis
  proof (cases "status_of env inp = validation_status_rejected")
    case True
    with u show ?thesis
      by (intro that [OF sha rowq ev(2,3)]) (simp_all add: nl ev(1) r)
  next
    case False
    have q: "\<not> list_ex (\<lambda>r. hc_tenant_id r = t \<and> hc_sequence_num r = seq) (cd_chain db)"
      using u False by (auto simp: insert_chain_def ev(1) insert_kdes_eq r split: if_splits)
    show ?thesis
      by (rule that [OF sha rowq ev(2,3)])
         (use u False q in \<open>auto simp: nl ev(1) r insert_chain_def insert_kdes_eq new_entry_def fold_alerts_pair insert_alerts_eq comp_def\<close>)
  qed
qed

lemma find_idempotent_append:
  "find_idempotent k t (db\<lparr>cd_events := cd_events db @ [row]\<rparr>) =
     (case find_idempotent k t db of Some r \<Rightarrow> Some r
      | None \<Rightarrow> if ce_idempotency_key row = k \<and> ce_tenant_id row = t then Some row else None)"
proof -
  have "List.find P (xs @ [x]) = (case List.find P xs of Some r \<Rightarrow> Some r | None \<Rightarrow> if P x then Some x else None)"
    for P :: "cte_row \<Rightarrow> bool" and xs x
    by (induction xs) auto
  then show ?thesis by (simp add: find_idempotent_def)
qed

lemma find_idempotent_cong: "cd_events d = cd_events d' \<Longrightarrow> find_idempotent k t d = find_idempotent k t d'"
  by (simp add: find_idempotent_def)

lemma next_link_cong: "cd_chain d = cd_chain d' \<Longrightarrow> next_link t d = next_link t d'"
  by (simp add: next_link_def chain_head_def chain_of_def)

lemma assert_not_exists_prefix:
  "assert_not_exists sha t dbi = Inr () \<Longrightarrow> set (cd_events db) \<subseteq> set (cd_events dbi) \<Longrightarrow> assert_not_exists sha t db = Inr ()"
  by (auto simp: assert_not_exists_def find_None_iff split: option.splits)

lemma next_link_append:
  assumes "store_ok (cs_H env) db" and "cd_chain db' = cd_chain db @ [new_entry (cs_H env) i t sha db]"
  shows "next_link t db' = (Some (compute_chain_hash (cs_H env) sha (fst (next_link t db))), snd (next_link t db) + 1)"
proof -
  have l: "linked (cs_H env) 1 None (rows_of t db)" using assms(1) by (simp add: store_ok_def)
  have r: "rows_of t db' = rows_of t db @ [new_entry (cs_H env) i t sha db]"
    using assms(2) by (simp add: rows_of_def new_entry_def split: prod.splits)
  have l': "linked (cs_H env) 1 None (rows_of t db')"
    using l linked_head [OF l] next_link_linked [OF l] by (auto simp: r linked_snoc new_entry_def)
  show ?thesis
    using next_link_linked [OF l] next_link_linked [OF l'] by (simp add: r chain_from_snoc new_entry_def)
qed

text \<open>What the preparation of an event and its single write share.\<close>

lemma prepare_matches_store:
  assumes "store_event env now i t (single_input src e) db = Inr (db', res)" and "plain_event e"
  obtains p q where "prepare_event env now src (i, e) = Inr p" "pe_event_id p = i" "pe_event p = e"
    "batch_quantity env p = Inr q" "single_input src e = (be_input e)\<lparr>in_quantity := q, in_source := src\<rparr>"
    "(\<exists>r. find_idempotent (pe_idemp_key p) t db = Some r \<and> db' = db \<and> res = idempotent_result r) \<or>
     find_idempotent (pe_idemp_key p) t db = None \<and>
     store_new env i t (pe_event_type p) (pe_timestamp p, iso_utc env now) (pe_idemp_key p) (single_input src e) db = Inr (db', res)"
  using assms(1)
proof (rule store_event_cases)
  fix ty ts key
  assume v: "validate_event_type env (in_event_type (single_input src e)) = Inr ty"
    "event_times env now (in_event_timestamp (single_input src e)) (in_event_entry_timestamp (single_input src e)) = Inr ts"
    "compute_idempotency_key (cs_rt env) (cs_H env) ty (in_traceability_lot_code (single_input src e)) (fst ts)
      (in_source (single_input src e)) (in_kdes (single_input src e)) (in_location_gln (single_input src e))
      (in_location_name (single_input src e)) = Inr key"
    and c: "(\<exists>r. find_idempotent key t db = Some r \<and> db' = db \<and> res = idempotent_result r) \<or>
     find_idempotent key t db = None \<and> store_new env i t ty ts key (single_input src e) db = Inr (db', res)"
  obtain q where q: "be_quantity e = PFloat q" "\<not> fle q (Fin 0)" "in_event_entry_timestamp (be_input e) = PNone"
    using assms(2) by (auto simp: plain_event_def split: pyval.splits)
  define p where "p = \<lparr>pe_event_id = i, pe_idemp_key = key, pe_event_type = ty, pe_timestamp = fst ts, pe_event = e\<rparr>"
  have snd_ts: "snd ts = iso_utc env now"
    using v(2) q(3) by (auto simp: single_input_def event_times_def and_then_eq_Inr_iff)
  show thesis
  proof (rule that [of p q])
    show "prepare_event env now src (i, e) = Inr p"
      using v by (simp add: prepare_event_def Let_def single_input_def p_def)
    show "batch_quantity env p = Inr q" using q by (simp add: batch_quantity_def p_def Let_def)
    show "single_input src e = (be_input e)\<lparr>in_quantity := q, in_source := src\<rparr>" using q by (simp add: single_input_def)
    show "(\<exists>r. find_idempotent (pe_idemp_key p) t db = Some r \<and> db' = db \<and> res = idempotent_result r) \<or>
      find_idempotent (pe_idemp_key p) t db = None \<and>
      store_new env i t (pe_event_type p) (pe_timestamp p, iso_utc env now) (pe_idemp_key p) (single_input src e) db = Inr (db', res)"
      using c by (simp add: p_def snd_ts [symmetric])
  qed (simp_all add: p_def)
qed

lemma existing_append:
  assumes "ex k = map_option f (find_idempotent k t db)" and "find_idempotent key t db = None"
    and "ce_idempotency_key row = key" and "ce_tenant_id row = t" and "cd_events db' = cd_events db @ [row]"
  shows "(ex(key \<mapsto> f row)) k = map_option f (find_idempotent k t db')"
proof -
  have "find_idempotent k t db' = find_idempotent k t (db\<lparr>cd_events := cd_events db @ [row]\<rparr>)"
    by (rule find_idempotent_cong) (simp add: assms(5))
  with assms show ?thesis by (auto simp: find_idempotent_append split: option.split)
qed

lemma chain_hash_new_row: "ce_chain_hash (new_event_row i t ty ts key sha ch status inp) = ch"
  by (simp add: new_event_row_def)

lemma batch_step_new:
  assumes sim: "batch_sim env t keys db st dbi rs" and ok: "store_ok (cs_H env) dbi" and key: "pe_idemp_key p \<in> set keys"
    and q: "batch_quantity env p = Inr q" and inp: "inp = (be_input (pe_event p))\<lparr>in_quantity := q, in_source := src\<rparr>"
    and none: "find_idempotent (pe_idemp_key p) t dbi = None"
    and new: "store_new env (pe_event_id p) t (pe_event_type p) (pe_timestamp p, iso_utc env now) (pe_idemp_key p) inp dbi = Inr (db', res)"
  shows "\<exists>st'. batch_step env now t src db p st = Inr st' \<and> batch_sim env t keys db st' db' (rs @ [res])"
  using new none
proof (rule store_new_exact)
  fix sha row
  let ?i = "pe_event_id p" and ?H = "cs_H env"
  assume sha: "event_digest env ?i t (pe_event_type p) (fst (pe_timestamp p, iso_utc env now)) inp = Inr sha"
    and fresh_sha: "assert_not_exists sha t dbi = Inr ()"
    and row: "row = new_event_row ?i t (pe_event_type p) (pe_timestamp p, iso_utc env now) (pe_idemp_key p) sha
       (compute_chain_hash ?H sha (fst (next_link t dbi))) (status_of env inp) inp"
    and fresh: "?i \<notin> ce_id ` set (cd_events dbi)" and evok: "cs_event_ok env row"
    and db': "db' = (if status_of env inp = validation_status_rejected then dbi\<lparr>cd_events := cd_events dbi @ [row]\<rparr>
            else dbi\<lparr>cd_events := cd_events dbi @ [row], cd_kdes := fold add_kde (kde_rows_of env t ?i (in_kdes inp)) (cd_kdes dbi),
                    cd_chain := cd_chain dbi @ [new_entry ?H ?i t sha dbi],
                    cd_alerts := cd_alerts dbi @ concat (map (\<lambda>a. alert_rows_of env t (?i, a)) (in_alerts inp))\<rparr>)"
    and seq: "status_of env inp \<noteq> validation_status_rejected \<Longrightarrow>
      \<not> list_ex (\<lambda>r. hc_tenant_id r = t \<and> hc_sequence_num r = snd (next_link t dbi)) (cd_chain dbi)"
    and res: "res = \<lparr>sr_success = (status_of env inp \<noteq> validation_status_rejected), sr_event_id = ?i, sr_sha256_hash = sha,
            sr_chain_hash = ce_chain_hash row, sr_idempotent = False,
            sr_errors = (if status_of env inp = validation_status_rejected
                         then rejection_reasons env (in_validator_results inp @ in_alerts inp) else []),
            sr_alerts = in_alerts inp\<rparr>"
  have r: "ce_id row = ?i" "ce_tenant_id row = t" "ce_idempotency_key row = pe_idemp_key p" "ce_sha256_hash row = sha"
      "ce_chain_hash row = compute_chain_hash ?H sha (fst (next_link t dbi))"
    by (simp_all add: row new_event_row_def)
  note S = sim [unfolded batch_sim_def]
  have link: "next_link t dbi = (bs_previous st, bs_sequence st)" using S by blast
  have ev': "cd_events db' = cd_events dbi @ [row]" by (simp add: db')
  have "find_idempotent (pe_idemp_key p) t (db\<lparr>cd_events := cd_events dbi\<rparr>) = None"
    using none by (simp add: find_idempotent_def)
  then have ins: "insert_events env (bs_event_rows st @ [row]) db = Inr (db\<lparr>cd_events := cd_events db'\<rparr>, map ce_id (bs_event_rows st @ [row]))"
    using insert_events_snoc [OF conjunct1 [OF S], of row "db\<lparr>cd_events := cd_events db'\<rparr>"] fresh evok
    by (simp add: insert_event_def r ev')
  have ex: "bs_existing st k = map_option (\<lambda>r. (ce_id r, ce_sha256_hash r, ce_chain_hash r)) (find_idempotent k t dbi)"
    if "k \<in> set keys" for k using S that by blast
  have ex': "((bs_existing st)(pe_idemp_key p \<mapsto> (?i, sha, compute_chain_hash ?H sha (bs_previous st)))) k =
      map_option (\<lambda>r. (ce_id r, ce_sha256_hash r, ce_chain_hash r)) (find_idempotent k t db')" if "k \<in> set keys" for k
    using existing_append [of "bs_existing st" k, OF ex [OF that] none r(3,2) ev'] by (simp only: r link fst_conv)
  have exist: "bs_existing st (pe_idemp_key p) = None" using ex [OF key] none by simp
  have "assert_not_exists sha t db = Inr ()"
    by (rule assert_not_exists_prefix [OF fresh_sha]) (use S in auto)
  note u = this q sha [unfolded fst_conv inp] exist
  show ?thesis
  proof (cases "status_of env inp = validation_status_rejected")
    case True
    let ?st = "st\<lparr>bs_existing := (bs_existing st)(pe_idemp_key p \<mapsto> (?i, sha, compute_chain_hash ?H sha (bs_previous st))),
        bs_event_rows := bs_event_rows st @ [row], bs_results := rs @ [res]\<rparr>"
    have "batch_step env now t src db p st = Inr ?st"
      using True u S
      by (simp add: batch_step_def batch_new_def lift_error_def Let_def inp [symmetric] status_of_def [symmetric] res r link row chain_hash_new_row)
    moreover have "batch_sim env t keys db ?st db' (rs @ [res])"
    proof -
      have "next_link t db' = next_link t dbi" by (rule next_link_cong) (simp add: db' True)
      then show ?thesis using S ins ex' True unfolding batch_sim_def by (auto simp: db' link)
    qed
    ultimately show ?thesis by blast
  next
    case False
    let ?c = "compute_chain_hash ?H sha (bs_previous st)"
    let ?entry = "new_entry ?H ?i t sha dbi"
    let ?st = "st\<lparr>bs_existing := (bs_existing st)(pe_idemp_key p \<mapsto> (?i, sha, ?c)), bs_event_rows := bs_event_rows st @ [row],
        bs_kde_rows := bs_kde_rows st @ kde_rows_of env t ?i (in_kdes inp), bs_chain_rows := bs_chain_rows st @ [?entry],
        bs_alert_rows := bs_alert_rows st @ map (\<lambda>a. (?i, a)) (in_alerts inp), bs_results := rs @ [res],
        bs_previous := Some ?c, bs_sequence := bs_sequence st + 1\<rparr>"
    have "batch_step env now t src db p st = Inr ?st"
      using False u S
      by (simp add: batch_step_def batch_new_def lift_error_def Let_def inp [symmetric] status_of_def [symmetric] res r link row new_entry_def chain_hash_new_row)
    moreover have "batch_sim env t keys db ?st db' (rs @ [res])"
    proof -
      have "next_link t db' = (Some ?c, bs_sequence st + 1)"
        using next_link_append [OF ok, of db' ?i t sha] False by (simp add: db' link)
      moreover have "insert_chain_rows (bs_chain_rows st @ [?entry]) d = Inr (d\<lparr>cd_chain := cd_chain db'\<rparr>)"
        if "cd_chain d = cd_chain db" "set (cd_events db') \<subseteq> set (cd_events d)" for d
      proof -
        have "insert_chain_rows (bs_chain_rows st) d = Inr (d\<lparr>cd_chain := cd_chain dbi\<rparr>)" using S that ev' by auto
        moreover have "row \<in> set (cd_events d)" using that ev' by auto
        then have "insert_chain ?entry (d\<lparr>cd_chain := cd_chain dbi\<rparr>) = Inr (d\<lparr>cd_chain := cd_chain db'\<rparr>)"
          using seq [OF False] r False by (auto simp: insert_chain_def new_entry_def link db' list_ex_iff)
        ultimately show ?thesis by (simp add: insert_chain_rows_snoc)
      qed
      ultimately show ?thesis using S ins ex' False unfolding batch_sim_def by (auto simp: db' link r comp_def)
    qed
    ultimately show ?thesis by blast
  qed
qed

lemma batch_step_sim:
  assumes sim: "batch_sim env t keys db st dbi rs" and ok: "store_ok (cs_H env) dbi" and plain: "plain_event e"
    and st: "store_event env now i t (single_input src e) dbi = Inr (db', res)"
    and p: "prepare_event env now src (i, e) = Inr p" and key: "pe_idemp_key p \<in> set keys"
  shows "\<exists>st'. batch_step env now t src db p st = Inr st' \<and> batch_sim env t keys db st' db' (rs @ [res])"
  using st plain
proof (rule prepare_matches_store)
  fix p' q
  assume "prepare_event env now src (i, e) = Inr p'" and i: "pe_event_id p' = i" and e: "pe_event p' = e"
    and q: "batch_quantity env p' = Inr q" and inp: "single_input src e = (be_input e)\<lparr>in_quantity := q, in_source := src\<rparr>"
    and c: "(\<exists>r. find_idempotent (pe_idemp_key p') t dbi = Some r \<and> db' = dbi \<and> res = idempotent_result r) \<or>
     find_idempotent (pe_idemp_key p') t dbi = None \<and>
     store_new env i t (pe_event_type p') (pe_timestamp p', iso_utc env now) (pe_idemp_key p') (single_input src e) dbi = Inr (db', res)"
  with p have p': "p' = p" by simp
  show ?thesis
    using c
  proof (elim disjE exE conjE)
    fix r
    assume r: "find_idempotent (pe_idemp_key p') t dbi = Some r" "db' = dbi" "res = idempotent_result r"
    then have "bs_existing st (pe_idemp_key p) = Some (ce_id r, ce_sha256_hash r, ce_chain_hash r)"
      using sim key by (simp add: batch_sim_def p')
    then have "batch_step env now t src db p st = Inr (st\<lparr>bs_results := bs_results st @ [res]\<rparr>)"
      by (simp add: batch_step_def known_result_def r(3) idempotent_result_def)
    then show ?thesis using sim r(2) by (auto simp: batch_sim_def)
  next
    assume "find_idempotent (pe_idemp_key p') t dbi = None"
      "store_new env i t (pe_event_type p') (pe_timestamp p', iso_utc env now) (pe_idemp_key p') (single_input src e) dbi = Inr (db', res)"
    then show ?thesis
      using batch_step_new [OF sim ok key q [unfolded p']] inp i e by (simp add: p')
  qed
qed

lemma batch_loop_sim:
  assumes "batch_sim env t keys db st dbi rs" and "store_ok (cs_H env) dbi" and "list_all (\<lambda>ie. plain_event (snd ie)) events"
    and "store_each env now t src events dbi = Inr (db', rs')" and "map_err (prepare_event env now src) events = Inr ps"
    and "set (map pe_idemp_key ps) \<subseteq> set keys"
  shows "\<exists>st'. batch_loop env now t src db ps st = Inr st' \<and> batch_sim env t keys db st' db' (rs @ rs')"
  using assms
proof (induction events arbitrary: st dbi rs rs' ps)
  case (Cons ie events)
  obtain i e where ie: "ie = (i, e)" by (cases ie)
  obtain db1 r1 rs1 where s: "store_event env now i t (single_input src e) dbi = Inr (db1, r1)"
      "store_each env now t src events db1 = Inr (db', rs1)" "rs' = r1 # rs1"
    using Cons.prems(4) by (auto simp: ie and_then_eq_Inr_iff)
  obtain p ps1 where p: "prepare_event env now src (i, e) = Inr p" "map_err (prepare_event env now src) events = Inr ps1" "ps = p # ps1"
    using Cons.prems(5) by (auto simp: ie and_then_eq_Inr_iff)
  obtain st1 where st1: "batch_step env now t src db p st = Inr st1" "batch_sim env t keys db st1 db1 (rs @ [r1])"
    using batch_step_sim [OF Cons.prems(1,2) _ s(1) p(1)] Cons.prems(3,6) by (auto simp: ie p(3))
  from Cons.IH [OF st1(2) store_event_keeps_ok [OF s(1) Cons.prems(2)] _ s(2) p(2)] Cons.prems(3,6) st1(1)
  show ?case by (auto simp: s(3) p(3))
qed simp

lemma store_each_prepares:
  "store_each env now t src events db = Inr (db', rs) \<Longrightarrow> list_all (\<lambda>ie. plain_event (snd ie)) events \<Longrightarrow>
   \<exists>ps. map_err (prepare_event env now src) events = Inr ps"
proof (induction events arbitrary: db rs)
  case (Cons ie events)
  obtain i e where ie: "ie = (i, e)" by (cases ie)
  from Cons.prems obtain db1 r1 rs1 where s: "store_event env now i t (single_input src e) db = Inr (db1, r1)"
      "store_each env now t src events db1 = Inr (db', rs1)" "plain_event e"
    by (auto simp: ie and_then_eq_Inr_iff)
  obtain p where "prepare_event env now src (i, e) = Inr p" by (rule prepare_matches_store [OF s(1,3)])
  with Cons.IH [OF s(2)] Cons.prems(2) show ?case by (auto simp: ie)
qed simp

text \<open>
  Claim C11 (equivalence). The batch path writes what the single-event path writes: for events with a
  positive quantity and no entry time of their own, if storing them one by one succeeds, the
  batch call leaves exactly the same rows in all four tables and returns exactly the same
  results, duplicates within the batch, retries and rejected events included.
\<close>

theorem batch_equals_single_writes:
  assumes "store_ok (cs_H env) db" and "list_all (\<lambda>ie. plain_event (snd ie)) events"
    and "store_each env now t src events db = Inr (db', rs)"
  shows "store_events_batch env now t src events db = Inr (db', rs)"
proof (cases "events = []")
  case True
  then show ?thesis using assms(3) by (simp add: store_events_batch_def)
next
  case False
  obtain ps where ps: "map_err (prepare_event env now src) events = Inr ps"
    using store_each_prepares [OF assms(3,2)] by blast
  from batch_loop_sim [OF batch_sim_init assms(1,2,3) ps subset_refl]
  obtain st where "batch_loop env now t src db ps (init_batch (known_keys t db (map pe_idemp_key ps)) (next_link t db)) = Inr st"
      "batch_sim env t (map pe_idemp_key ps) db st db' rs"
    by auto
  with False ps show ?thesis
    by (simp add: store_events_batch_def lift_error_def Let_def batch_sim_insert)
qed

definition toy_batch_event :: "string \<Rightarrow> pydict list \<Rightarrow> pyval \<Rightarrow> batch_event" where
  "toy_batch_event tlc results entry =
     \<lparr>be_input = (cte_toy_input tlc results)\<lparr>in_event_entry_timestamp := entry\<rparr>, be_quantity = PFloat (Fin 3)\<rparr>"

definition toy_batch :: "(string \<times> batch_event) list" where
  "toy_batch = [(''e1'', toy_batch_event ''L1'' [] PNone), (''e2'', toy_batch_event ''L1'' [] PNone),
     (''e3'', toy_batch_event ''L22'' cte_reject PNone), (''e4'', toy_batch_event ''L333'' [] PNone)]"

theorem batch_equals_single_writes_witness:
  "\<exists>db' rs. store_events_batch cte_toy_env 9 ''t1'' ''api'' toy_batch empty_cte_db = Inr (db', rs) \<and>
     map sr_success rs = [True, True, False, True] \<and> map sr_idempotent rs = [False, True, False, False]"
proof -
  have plain: "list_all (\<lambda>ie. plain_event (snd ie)) toy_batch" by code_simp
  have "case store_each cte_toy_env 9 ''t1'' ''api'' toy_batch empty_cte_db of Inl _ \<Rightarrow> False
      | Inr (db', rs) \<Rightarrow> map sr_success rs = [True, True, False, True] \<and> map sr_idempotent rs = [False, True, False, False]"
    by code_simp
  then obtain db' rs where s: "store_each cte_toy_env 9 ''t1'' ''api'' toy_batch empty_cte_db = Inr (db', rs)"
      and r: "map sr_success rs = [True, True, False, True]" "map sr_idempotent rs = [False, True, False, False]"
    by (auto split: sum.splits)
  show ?thesis using batch_equals_single_writes [OF store_ok_empty plain s] r by (intro exI [of _ db'] exI [of _ rs]) simp
qed

text \<open>A clock whose texts are numbers, and an event entered at time 5.\<close>

definition stamp_env :: cte_env where
  "stamp_env = cte_toy_env\<lparr>cs_rt := (cs_rt cte_toy_env)\<lparr>rt_isoformat :=
     (\<lambda>v. case v of PDatetime (Datetime w _) \<Rightarrow> int_str w | _ \<Rightarrow> [])\<rparr>\<rparr>"

definition stamp_event :: batch_event where
  "stamp_event = toy_batch_event ''L1'' [] (PStr ''entered'')"

text \<open>
  The batch path drops the entry time of the caller: it validates it, but the
  row carries the time of the call, where the single-event path stores what was stated.
\<close>

theorem batch_drops_entry_time:
  "(case store_event stamp_env 9 ''e1'' ''t1'' (single_input ''api'' stamp_event) empty_cte_db of
      Inl _ \<Rightarrow> False | Inr (db1, _) \<Rightarrow> map ce_event_entry_timestamp (cd_events db1) = [''5'']) \<and>
   (case store_events_batch stamp_env 9 ''t1'' ''api'' [(''e1'', stamp_event)] empty_cte_db of
      Inl _ \<Rightarrow> False | Inr (db2, _) \<Rightarrow> map ce_event_entry_timestamp (cd_events db2) = [''9''])"
  by (rule conjI; code_simp)

end
