(* ===== verification/AuditChain.thy ===== *)
theory AuditChain
  imports MerkleTree
begin

text \<open>
  \<^verbatim>\<open>services/shared/audit_logging/schema.py\<close> and \<^verbatim>\<open>integrity.py\<close>: audit events, the message
  authentication code that signs them, the chain the codes form, and the two verifiers. The
  serialiser (\<open>json.dumps\<close> with sorted keys and \<open>default=str\<close>) and the code itself are fields of
  \<open>audit_env\<close>.
\<close>

section \<open>Enumerations\<close>

datatype AuditEventCategory =
    AUTHENTICATION | AUTHORIZATION | DATA_ACCESS | DATA_MODIFICATION | CONFIGURATION | SECURITY
  | SYSTEM | ADMIN | API | FILE

fun category_value :: "AuditEventCategory \<Rightarrow> string" where
  "category_value AuditEventCategory.AUTHENTICATION = ''authentication''"
| "category_value AuditEventCategory.AUTHORIZATION = ''authorization''"
| "category_value AuditEventCategory.DATA_ACCESS = ''data_access''"
| "category_value AuditEventCategory.DATA_MODIFICATION = ''data_modification''"
| "category_value AuditEventCategory.CONFIGURATION = ''configuration''"
| "category_value AuditEventCategory.SECURITY = ''security''"
| "category_value AuditEventCategory.SYSTEM = ''system''"
| "category_value AuditEventCategory.ADMIN = ''admin''"
| "category_value AuditEventCategory.API = ''api''"
| "category_value AuditEventCategory.FILE = ''file''"

definition all_categories :: "AuditEventCategory list" where
  "all_categories =
     [AuditEventCategory.AUTHENTICATION, AuditEventCategory.AUTHORIZATION,
      AuditEventCategory.DATA_ACCESS, AuditEventCategory.DATA_MODIFICATION,
      AuditEventCategory.CONFIGURATION, AuditEventCategory.SECURITY, AuditEventCategory.SYSTEM,
      AuditEventCategory.ADMIN, AuditEventCategory.API, AuditEventCategory.FILE]"

datatype AuditEventType =
    LOGIN_SUCCESS | LOGIN_FAILURE | LOGOUT | PASSWORD_CHANGE | PASSWORD_RESET_REQUEST
  | PASSWORD_RESET_COMPLETE | MFA_ENABLED | MFA_DISABLED | MFA_CHALLENGE | SESSION_CREATED
  | SESSION_EXPIRED | SESSION_REVOKED | TOKEN_ISSUED | TOKEN_REVOKED | TOKEN_REFRESH | ACCESS_GRANTED
  | ACCESS_DENIED | PERMISSION_GRANTED | PERMISSION_REVOKED | ROLE_ASSIGNED | ROLE_REMOVED
  | DATA_READ | DATA_SEARCH | DATA_EXPORT | SENSITIVE_DATA_ACCESS | PII_ACCESS | DATA_CREATE
  | DATA_UPDATE | DATA_DELETE | DATA_BULK_OPERATION | CONFIG_CHANGE | SETTINGS_UPDATE
  | FEATURE_ENABLED | FEATURE_DISABLED | SECURITY_ALERT | INTRUSION_ATTEMPT | INJECTION_ATTEMPT
  | XSS_ATTEMPT | RATE_LIMIT_EXCEEDED | SUSPICIOUS_ACTIVITY | IP_BLOCKED | API_KEY_COMPROMISED
  | SYSTEM_START | SYSTEM_SHUTDOWN | SERVICE_HEALTH | ERROR | USER_CREATED | USER_UPDATED
  | USER_DELETED | USER_SUSPENDED | USER_ACTIVATED | TENANT_CREATED | TENANT_UPDATED | TENANT_DELETED
  | API_CALL | API_ERROR | WEBHOOK_SENT | WEBHOOK_RECEIVED | FILE_UPLOAD | FILE_DOWNLOAD
  | FILE_DELETE

fun event_type_value :: "AuditEventType \<Rightarrow> string" where
  "event_type_value AuditEventType.LOGIN_SUCCESS = ''login_success''"
| "event_type_value AuditEventType.LOGIN_FAILURE = ''login_failure''"
| "event_type_value AuditEventType.LOGOUT = ''logout''"
| "event_type_value AuditEventType.PASSWORD_CHANGE = ''password_change''"
| "event_type_value AuditEventType.PASSWORD_RESET_REQUEST = ''password_reset_request''"
| "event_type_value AuditEventType.PASSWORD_RESET_COMPLETE = ''password_reset_complete''"
| "event_type_value AuditEventType.MFA_ENABLED = ''mfa_enabled''"
| "event_type_value AuditEventType.MFA_DISABLED = ''mfa_disabled''"
| "event_type_value AuditEventType.MFA_CHALLENGE = ''mfa_challenge''"
| "event_type_value AuditEventType.SESSION_CREATED = ''session_created''"
| "event_type_value AuditEventType.SESSION_EXPIRED = ''session_expired''"
| "event_type_value AuditEventType.SESSION_REVOKED = ''session_revoked''"
| "event_type_value AuditEventType.TOKEN_ISSUED = ''token_issued''"
| "event_type_value AuditEventType.TOKEN_REVOKED = ''token_revoked''"
| "event_type_value AuditEventType.TOKEN_REFRESH = ''token_refresh''"
| "event_type_value AuditEventType.ACCESS_GRANTED = ''access_granted''"
| "event_type_value AuditEventType.ACCESS_DENIED = ''access_denied''"
| "event_type_value AuditEventType.PERMISSION_GRANTED = ''permission_granted''"
| "event_type_value AuditEventType.PERMISSION_REVOKED = ''permission_revoked''"
| "event_type_value AuditEventType.ROLE_ASSIGNED = ''role_assigned''"
| "event_type_value AuditEventType.ROLE_REMOVED = ''role_removed''"
| "event_type_value AuditEventType.DATA_READ = ''data_read''"
| "event_type_value AuditEventType.DATA_SEARCH = ''data_search''"
| "event_type_value AuditEventType.DATA_EXPORT = ''data_export''"
| "event_type_value AuditEventType.SENSITIVE_DATA_ACCESS = ''sensitive_data_access''"
| "event_type_value AuditEventType.PII_ACCESS = ''pii_access''"
| "event_type_value AuditEventType.DATA_CREATE = ''data_create''"
| "event_type_value AuditEventType.DATA_UPDATE = ''data_update''"
| "event_type_value AuditEventType.DATA_DELETE = ''data_delete''"
| "event_type_value AuditEventType.DATA_BULK_OPERATION = ''data_bulk_operation''"
| "event_type_value AuditEventType.CONFIG_CHANGE = ''config_change''"
| "event_type_value AuditEventType.SETTINGS_UPDATE = ''settings_update''"
| "event_type_value AuditEventType.FEATURE_ENABLED = ''feature_enabled''"
| "event_type_value AuditEventType.FEATURE_DISABLED = ''feature_disabled''"
| "event_type_value AuditEventType.SECURITY_ALERT = ''security_alert''"
| "event_type_value AuditEventType.INTRUSION_ATTEMPT = ''intrusion_attempt''"
| "event_type_value AuditEventType.INJECTION_ATTEMPT = ''injection_attempt''"
| "event_type_value AuditEventType.XSS_ATTEMPT = ''xss_attempt''"
| "event_type_value AuditEventType.RATE_LIMIT_EXCEEDED = ''rate_limit_exceeded''"
| "event_type_value AuditEventType.SUSPICIOUS_ACTIVITY = ''suspicious_activity''"
| "event_type_value AuditEventType.IP_BLOCKED = ''ip_blocked''"
| "event_type_value AuditEventType.API_KEY_COMPROMISED = ''api_key_compromised''"
| "event_type_value AuditEventType.SYSTEM_START = ''system_start''"
| "event_type_value AuditEventType.SYSTEM_SHUTDOWN = ''system_shutdown''"
| "event_type_value AuditEventType.SERVICE_HEALTH = ''service_health''"
| "event_type_value AuditEventType.ERROR = ''error''"
| "event_type_value AuditEventType.USER_CREATED = ''user_created''"
| "event_type_value AuditEventType.USER_UPDATED = ''user_updated''"
| "event_type_value AuditEventType.USER_DELETED = ''user_deleted''"
| "event_type_value AuditEventType.USER_SUSPENDED = ''user_suspended''"
| "event_type_value AuditEventType.USER_ACTIVATED = ''user_activated''"
| "event_type_value AuditEventType.TENANT_CREATED = ''tenant_created''"
| "event_type_value AuditEventType.TENANT_UPDATED = ''tenant_updated''"
| "event_type_value AuditEventType.TENANT_DELETED = ''tenant_deleted''"
| "event_type_value AuditEventType.API_CALL = ''api_call''"
| "event_type_value AuditEventType.API_ERROR = ''api_error''"
| "event_type_value AuditEventType.WEBHOOK_SENT = ''webhook_sent''"
| "event_type_value AuditEventType.WEBHOOK_RECEIVED = ''webhook_received''"
| "event_type_value AuditEventType.FILE_UPLOAD = ''file_upload''"
| "event_type_value AuditEventType.FILE_DOWNLOAD = ''file_download''"
| "event_type_value AuditEventType.FILE_DELETE = ''file_delete''"

definition all_event_types :: "AuditEventType list" where
  "all_event_types =
     [AuditEventType.LOGIN_SUCCESS, AuditEventType.LOGIN_FAILURE, AuditEventType.LOGOUT,
      AuditEventType.PASSWORD_CHANGE, AuditEventType.PASSWORD_RESET_REQUEST,
      AuditEventType.PASSWORD_RESET_COMPLETE, AuditEventType.MFA_ENABLED,
      AuditEventType.MFA_DISABLED, AuditEventType.MFA_CHALLENGE, AuditEventType.SESSION_CREATED,
      AuditEventType.SESSION_EXPIRED, AuditEventType.SESSION_REVOKED, AuditEventType.TOKEN_ISSUED,
      AuditEventType.TOKEN_REVOKED, AuditEventType.TOKEN_REFRESH, AuditEventType.ACCESS_GRANTED,
      AuditEventType.ACCESS_DENIED, AuditEventType.PERMISSION_GRANTED,
      AuditEventType.PERMISSION_REVOKED, AuditEventType.ROLE_ASSIGNED, AuditEventType.ROLE_REMOVED,
      AuditEventType.DATA_READ, AuditEventType.DATA_SEARCH, AuditEventType.DATA_EXPORT,
      AuditEventType.SENSITIVE_DATA_ACCESS, AuditEventType.PII_ACCESS, AuditEventType.DATA_CREATE,
      AuditEventType.DATA_UPDATE, AuditEventType.DATA_DELETE, AuditEventType.DATA_BULK_OPERATION,
      AuditEventType.CONFIG_CHANGE, AuditEventType.SETTINGS_UPDATE, AuditEventType.FEATURE_ENABLED,
      AuditEventType.FEATURE_DISABLED, AuditEventType.SECURITY_ALERT,
      AuditEventType.INTRUSION_ATTEMPT, AuditEventType.INJECTION_ATTEMPT,
      AuditEventType.XSS_ATTEMPT, AuditEventType.RATE_LIMIT_EXCEEDED,
      AuditEventType.SUSPICIOUS_ACTIVITY, AuditEventType.IP_BLOCKED,
      AuditEventType.API_KEY_COMPROMISED, AuditEventType.SYSTEM_START,
      AuditEventType.SYSTEM_SHUTDOWN, AuditEventType.SERVICE_HEALTH, AuditEventType.ERROR,
      AuditEventType.USER_CREATED, AuditEventType.USER_UPDATED, AuditEventType.USER_DELETED,
      AuditEventType.USER_SUSPENDED, AuditEventType.USER_ACTIVATED, AuditEventType.TENANT_CREATED,
      AuditEventType.TENANT_UPDATED, AuditEventType.TENANT_DELETED, AuditEventType.API_CALL,
      AuditEventType.API_ERROR, AuditEventType.WEBHOOK_SENT, AuditEventType.WEBHOOK_RECEIVED,
      AuditEventType.FILE_UPLOAD, AuditEventType.FILE_DOWNLOAD, AuditEventType.FILE_DELETE]"

datatype AuditSeverity =
    DEBUG | INFO | WARNING | ERROR | CRITICAL

fun severity_value :: "AuditSeverity \<Rightarrow> string" where
  "severity_value AuditSeverity.DEBUG = ''debug''"
| "severity_value AuditSeverity.INFO = ''info''"
| "severity_value AuditSeverity.WARNING = ''warning''"
| "severity_value AuditSeverity.ERROR = ''error''"
| "severity_value AuditSeverity.CRITICAL = ''critical''"

definition all_severities :: "AuditSeverity list" where
  "all_severities =
     [AuditSeverity.DEBUG, AuditSeverity.INFO, AuditSeverity.WARNING, AuditSeverity.ERROR,
      AuditSeverity.CRITICAL]"

text \<open>\<open>Enum(text)\<close> raises on a text that is no value.\<close>

definition enum_of :: "('a \<Rightarrow> string) \<Rightarrow> 'a list \<Rightarrow> pyval \<Rightarrow> py_error + 'a" where
  "enum_of val members v =
     (case v of
        PStr s \<Rightarrow> (case List.find (\<lambda>m. val m = s) members of None \<Rightarrow> Inl (ValueError ''not a valid member'') | Some m \<Rightarrow> Inr m)
      | _ \<Rightarrow> Inl (ValueError ''not a valid member''))"

section \<open>Events\<close>

record AuditActor =
  ac_actor_id :: string
  ac_actor_type :: string
  ac_username :: "string option"
  ac_email :: "string option"
  ac_ip_address :: "string option"
  ac_user_agent :: "string option"
  ac_session_id :: "string option"
  ac_tenant_id :: "string option"
  ac_roles :: "string list"

record AuditResource =
  ar_resource_type :: string
  ar_resource_id :: string
  ar_resource_name :: "string option"
  ar_tenant_id :: "string option"
  ar_attributes :: pydict

record AuditContext =
  ax_request_id :: "string option"
  ax_correlation_id :: "string option"
  ax_environment :: "string option"
  ax_service_name :: "string option"
  ax_service_version :: "string option"
  ax_endpoint :: "string option"
  ax_http_method :: "string option"
  ax_http_status :: "int option"
  ax_duration_ms :: "pyfloat option"
  ax_extra :: pydict

record AuditEvent =
  ae_event_id :: string
  ae_timestamp :: pydatetime
  ae_event_type :: AuditEventType
  ae_category :: AuditEventCategory
  ae_severity :: AuditSeverity
  ae_actor :: AuditActor
  ae_action :: string
  ae_outcome :: string
  ae_resource :: "AuditResource option"
  ae_context :: "AuditContext option"
  ae_message :: "string option"
  ae_details :: pydict
  ae_tags :: "string list"
  ae_integrity_hash :: "string option"
  ae_previous_hash :: "string option"

text \<open>A dictionary entry for a value that is not \<open>None\<close>.\<close>

definition given :: "string \<Rightarrow> string option \<Rightarrow> pydict" where
  "given k x = (case x of None \<Rightarrow> [] | Some s \<Rightarrow> [(k, PStr s)])"

definition given_nonempty :: "string \<Rightarrow> string option \<Rightarrow> pydict" where
  "given_nonempty k x = (case x of None \<Rightarrow> [] | Some s \<Rightarrow> if s = [] then [] else [(k, PStr s)])"

definition actor_to_dict :: "AuditActor \<Rightarrow> pydict" where
  "actor_to_dict a =
     [(''actor_id'', PStr (ac_actor_id a)), (''actor_type'', PStr (ac_actor_type a))] @
     given ''username'' (ac_username a) @ given ''email'' (ac_email a) @ given ''ip_address'' (ac_ip_address a) @
     given ''user_agent'' (ac_user_agent a) @ given ''session_id'' (ac_session_id a) @
     given ''tenant_id'' (ac_tenant_id a) @ [(''roles'', PList (map PStr (ac_roles a)))]"

definition resource_to_dict :: "AuditResource \<Rightarrow> pydict" where
  "resource_to_dict r =
     [(''resource_type'', PStr (ar_resource_type r)), (''resource_id'', PStr (ar_resource_id r))] @
     given_nonempty ''resource_name'' (ar_resource_name r) @ given_nonempty ''tenant_id'' (ar_tenant_id r) @
     (if ar_attributes r = [] then [] else [(''attributes'', PDict (ar_attributes r))])"

definition context_to_dict :: "AuditContext \<Rightarrow> pydict" where
  "context_to_dict c =
     given ''request_id'' (ax_request_id c) @ given ''correlation_id'' (ax_correlation_id c) @
     given ''environment'' (ax_environment c) @ given ''service_name'' (ax_service_name c) @
     given ''service_version'' (ax_service_version c) @ given ''endpoint'' (ax_endpoint c) @
     given ''http_method'' (ax_http_method c) @
     (case ax_http_status c of None \<Rightarrow> [] | Some i \<Rightarrow> [(''http_status'', PInt i)]) @
     (case ax_duration_ms c of None \<Rightarrow> [] | Some x \<Rightarrow> [(''duration_ms'', PFloat x)]) @
     (if ax_extra c = [] then [] else [(''extra'', PDict (ax_extra c))])"

definition event_to_dict :: "pyrt \<Rightarrow> AuditEvent \<Rightarrow> pydict" where
  "event_to_dict rt e =
     [(''event_id'', PStr (ae_event_id e)), (''timestamp'', PStr (rt_isoformat rt (PDatetime (ae_timestamp e)))),
      (''event_type'', PStr (event_type_value (ae_event_type e))), (''category'', PStr (category_value (ae_category e))),
      (''severity'', PStr (severity_value (ae_severity e))), (''actor'', PDict (actor_to_dict (ae_actor e))),
      (''action'', PStr (ae_action e)), (''outcome'', PStr (ae_outcome e)),
      (''resource'', case ae_resource e of None \<Rightarrow> PNone | Some r \<Rightarrow> PDict (resource_to_dict r)),
      (''context'', case ae_context e of None \<Rightarrow> PNone | Some c \<Rightarrow> PDict (context_to_dict c)),
      (''message'', opt_str (ae_message e)), (''details'', PDict (ae_details e)),
      (''tags'', PList (map PStr (ae_tags e))), (''integrity_hash'', opt_str (ae_integrity_hash e)),
      (''previous_hash'', opt_str (ae_previous_hash e))]"

section \<open>Signing\<close>

record audit_env =
  au_rt :: pyrt
  au_json :: "pyval \<Rightarrow> string"
  au_hmac :: "string \<Rightarrow> string \<Rightarrow> string"

record integrity =
  ai_secret_key :: string
  ai_last_hash :: "string option"

definition init_integrity :: "string option \<Rightarrow> string option \<Rightarrow> py_error + integrity" where
  "init_integrity secret_key env_key =
     (let resolved = str_or secret_key (str_or env_key [])
      in if resolved = [] then Inl (ValueError ''Audit integrity key is required.'')
         else Inr \<lparr>ai_secret_key = resolved, ai_last_hash = None\<rparr>)"

definition audit_canonical :: "pyrt \<Rightarrow> AuditEvent \<Rightarrow> pydict" where
  "audit_canonical rt e =
     [(''event_id'', PStr (ae_event_id e)), (''timestamp'', PStr (rt_isoformat rt (PDatetime (ae_timestamp e)))),
      (''event_type'', PStr (event_type_value (ae_event_type e))), (''category'', PStr (category_value (ae_category e))),
      (''actor'', PDict (actor_to_dict (ae_actor e))), (''action'', PStr (ae_action e)),
      (''outcome'', PStr (ae_outcome e)), (''previous_hash'', opt_str (ae_previous_hash e))] @
     (case ae_resource e of None \<Rightarrow> [] | Some r \<Rightarrow> [(''resource'', PDict (resource_to_dict r))]) @
     (if ae_details e = [] then [] else [(''details'', PDict (ae_details e))])"

definition compute_hash :: "audit_env \<Rightarrow> integrity \<Rightarrow> AuditEvent \<Rightarrow> string" where
  "compute_hash env i e = au_hmac env (ai_secret_key i) (au_json env (PDict (audit_canonical (au_rt env) e)))"

definition sign_event :: "audit_env \<Rightarrow> integrity \<Rightarrow> AuditEvent \<Rightarrow> integrity \<times> AuditEvent" where
  "sign_event env i event =
     (let e1 = event\<lparr>ae_previous_hash := ai_last_hash i\<rparr>;
          h = compute_hash env i e1
      in (i\<lparr>ai_last_hash := Some h\<rparr>, e1\<lparr>ae_integrity_hash := Some h\<rparr>))"

text \<open>\<open>hmac.compare_digest\<close> on texts: equality, for ASCII texts only.\<close>

definition compare_digest :: "string \<Rightarrow> string \<Rightarrow> py_error + bool" where
  "compare_digest a b =
     (if list_all (\<lambda>c. ord c < 128) a \<and> list_all (\<lambda>c. ord c < 128) b then Inr (a = b) else Inl TypeError)"

definition verify_event :: "audit_env \<Rightarrow> integrity \<Rightarrow> AuditEvent \<Rightarrow> py_error + bool" where
  "verify_event env i e =
     (case ae_integrity_hash e of
        None \<Rightarrow> Inr False
      | Some h \<Rightarrow> if h = [] then Inr False else compare_digest h (compute_hash env i e))"

section \<open>Verifying chains\<close>

fun verify_links :: "audit_env \<Rightarrow> integrity \<Rightarrow> string option \<Rightarrow> AuditEvent list \<Rightarrow> py_error + bool" where
  "verify_links env i previous_hash [] = Inr True"
| "verify_links env i previous_hash (e # es) =
     (if ae_previous_hash e \<noteq> previous_hash then Inr False
      else and_then (verify_event env i e) (\<lambda>ok.
        if \<not> ok then Inr False else verify_links env i (ae_integrity_hash e) es))"

definition verify_audit_links :: "audit_env \<Rightarrow> integrity \<Rightarrow> AuditEvent list \<Rightarrow> py_error + bool" where
  "verify_audit_links env i events = verify_links env i None events"

definition tamper_entry :: "AuditEvent \<Rightarrow> nat \<Rightarrow> string \<Rightarrow> pydict \<Rightarrow> pydict" where
  "tamper_entry e idx issue extra =
     [(''event_id'', PStr (ae_event_id e)), (''index'', PInt (int idx)), (''issue'', PStr issue)] @ extra"

definition hash_missing :: "AuditEvent \<Rightarrow> bool" where
  "hash_missing e \<longleftrightarrow> ae_integrity_hash e = None \<or> ae_integrity_hash e = Some []"

fun tampered_entries ::
  "audit_env \<Rightarrow> integrity \<Rightarrow> string option \<Rightarrow> nat \<Rightarrow> AuditEvent list \<Rightarrow> py_error + pydict list" where
  "tampered_entries env i previous_hash idx [] = Inr []"
| "tampered_entries env i previous_hash idx (e # es) =
     (if hash_missing e then
        and_then (tampered_entries env i None (Suc idx) es) (\<lambda>rest.
          Inr (tamper_entry e idx ''missing_integrity_hash'' [] # rest))
      else
        and_then (verify_event env i e) (\<lambda>ok.
        and_then (tampered_entries env i (ae_integrity_hash e) (Suc idx) es) (\<lambda>rest.
          Inr ((if ae_previous_hash e \<noteq> previous_hash
                then [tamper_entry e idx ''chain_link_broken''
                        [(''expected_previous'', opt_str previous_hash), (''actual_previous'', opt_str (ae_previous_hash e))]]
                else []) @
               (if \<not> ok then [tamper_entry e idx ''hash_mismatch'' []] else []) @ rest))))"

record audit_report =
  rp_total_entries :: nat
  rp_is_valid :: bool
  rp_tampered_entries :: "pydict list"

definition verify_audit_chain :: "audit_env \<Rightarrow> integrity \<Rightarrow> AuditEvent list \<Rightarrow> py_error + audit_report" where
  "verify_audit_chain env i events =
     and_then (tampered_entries env i None 0 events) (\<lambda>tampered.
       Inr \<lparr>rp_total_entries = length events, rp_is_valid = (tampered = []), rp_tampered_entries = tampered\<rparr>)"

section \<open>Facts\<close>

lemma enum_values_distinct:
  "distinct (map event_type_value all_event_types)" "distinct (map category_value all_categories)"
  "distinct (map severity_value all_severities)"
  by code_simp+

lemma event_type_member: "t \<in> set all_event_types"
  by (cases t) (simp_all add: all_event_types_def)

lemma category_member: "c \<in> set all_categories"
  by (cases c) (simp_all add: all_categories_def)

lemma severity_member: "s \<in> set all_severities"
  by (cases s) (simp_all add: all_severities_def)

lemma enum_of_value:
  assumes "distinct (map val members)" and "m \<in> set members"
  shows "enum_of val members (PStr (val m)) = Inr m"
proof -
  have "List.find (\<lambda>x. val x = val m) members = Some m"
    using assms by (induction members) (auto simp: rev_image_eqI)
  then show ?thesis by (simp add: enum_of_def)
qed

lemmas enum_round_trip =
  enum_of_value [OF enum_values_distinct(1) event_type_member] enum_of_value [OF enum_values_distinct(2) category_member]
  enum_of_value [OF enum_values_distinct(3) severity_member]

lemma compute_hash_cong:
  "audit_canonical (au_rt env) e = audit_canonical (au_rt env) e' \<Longrightarrow> ai_secret_key i = ai_secret_key i' \<Longrightarrow>
   compute_hash env i e = compute_hash env i' e'"
  by (simp add: compute_hash_def)

lemma audit_canonical_hash [simp]: "audit_canonical rt (e\<lparr>ae_integrity_hash := h\<rparr>) = audit_canonical rt e"
  by (simp add: audit_canonical_def)

lemma compute_hash_ignores [simp]:
  "compute_hash env i (e\<lparr>ae_integrity_hash := h\<rparr>) = compute_hash env i e"
  "compute_hash env (i\<lparr>ai_last_hash := l\<rparr>) e = compute_hash env i e"
  by (simp_all add: compute_hash_def)

text \<open>The form of a hexadecimal message authentication code.\<close>

definition hex_code :: "string \<Rightarrow> bool" where
  "hex_code h \<longleftrightarrow> h \<noteq> [] \<and> list_all (\<lambda>c. ord c < 128) h"

definition hex_mac :: "audit_env \<Rightarrow> bool" where
  "hex_mac env \<longleftrightarrow> (\<forall>k d. hex_code (au_hmac env k d))"

lemma hex_code_compute: "hex_mac env \<Longrightarrow> hex_code (compute_hash env i e)"
  by (simp add: hex_mac_def compute_hash_def)

lemma verify_event_True_iff:
  "verify_event env i e = Inr True \<longleftrightarrow>
     (\<exists>h. ae_integrity_hash e = Some h \<and> hex_code h \<and> h = compute_hash env i e)"
  by (auto simp: verify_event_def compare_digest_def hex_code_def split: option.splits if_splits)

lemma verify_event_missing: "hash_missing e \<Longrightarrow> verify_event env i e = Inr False"
  by (auto simp: hash_missing_def verify_event_def)

lemma not_missing_verified: "verify_event env i e = Inr True \<Longrightarrow> \<not> hash_missing e"
  using verify_event_missing by fastforce

section \<open>Properties\<close>

text \<open>
  The two verifiers agree: the boolean one accepts a chain exactly when the reporting one
  returns a report without a tampered entry.
\<close>

lemma verify_links_tampered:
  "verify_links env i p es = Inr True \<longleftrightarrow> tampered_entries env i p n es = Inr []"
proof (induction es arbitrary: p n)
  case (Cons e es)
  show ?case
  proof (cases "verify_event env i e = Inr True")
    case True
    then show ?thesis using Cons [of "ae_integrity_hash e" "Suc n"] not_missing_verified [OF True]
      by (auto simp: and_then_eq_Inr_iff)
  next
    case False
    then show ?thesis
      by (auto simp: and_then_eq_Inr_iff tamper_entry_def)
  qed
qed simp

text \<open>
  The two verifiers of the audit chain agree: the boolean one accepts a
  sequence of events exactly when the reporting one returns a valid report, and then the
  report lists every entry and no tampering.
\<close>

theorem audit_verifiers_agree:
  "verify_audit_links env i events = Inr True \<longleftrightarrow>
     verify_audit_chain env i events =
       Inr \<lparr>rp_total_entries = length events, rp_is_valid = True, rp_tampered_entries = []\<rparr>"
  unfolding verify_audit_links_def verify_audit_chain_def verify_links_tampered [of env i None events 0]
  by (auto simp: and_then_eq_Inr_iff)

text \<open>Signing a sequence of events one after the other.\<close>

fun sign_all :: "audit_env \<Rightarrow> integrity \<Rightarrow> AuditEvent list \<Rightarrow> integrity \<times> AuditEvent list" where
  "sign_all env i [] = (i, [])"
| "sign_all env i (e # es) =
     (case sign_event env i e of (i1, e1) \<Rightarrow> case sign_all env i1 es of (i2, es1) \<Rightarrow> (i2, e1 # es1))"

lemma sign_event_verifies:
  assumes "hex_mac env" and "sign_event env i e = (i', e')"
  shows "verify_event env i e' = Inr True \<and> ae_previous_hash e' = ai_last_hash i \<and>
         ae_integrity_hash e' = ai_last_hash i' \<and> ai_secret_key i' = ai_secret_key i"
  using assms hex_code_compute [OF assms(1)]
  by (auto simp: sign_event_def Let_def verify_event_True_iff)

lemma verify_event_key: "ai_secret_key i = ai_secret_key i' \<Longrightarrow> verify_event env i e = verify_event env i' e"
  by (auto simp: verify_event_def compute_hash_def split: option.split)

lemma verify_links_key: "ai_secret_key i = ai_secret_key i' \<Longrightarrow> verify_links env i p es = verify_links env i' p es"
  by (induction es arbitrary: p) (simp_all add: verify_event_key [of i i'] and_then_def split: sum.split)

lemma sign_all_verifies:
  assumes "hex_mac env" and "sign_all env i es = (i', es')"
  shows "verify_links env i (ai_last_hash i) es' = Inr True \<and> length es' = length es"
  using assms(2)
proof (induction es arbitrary: i es')
  case (Cons e es)
  obtain i1 e1 es1 where s: "sign_event env i e = (i1, e1)" "sign_all env i1 es = (i', es1)" "es' = e1 # es1"
    using Cons.prems by (auto split: prod.splits)
  note v = sign_event_verifies [OF assms(1) s(1)]
  have "verify_links env i (ai_last_hash i1) es1 = Inr True"
    using Cons.IH [OF s(2)] v verify_links_key [of i1 i] by metis
  with v s Cons.IH [OF s(2)] show ?case by simp
qed simp

text \<open>
  What was signed verifies: signing any sequence of events with a fresh
  integrity object gives a chain both verifiers accept, for every serialiser.
\<close>

theorem signed_chain_verifies:
  assumes "hex_mac env" and "ai_last_hash i = None" and "sign_all env i es = (i', es')"
  shows "verify_audit_links env i es' = Inr True"
  using sign_all_verifies [OF assms(1,3)] assms(2) by (simp add: verify_audit_links_def)

text \<open>An environment for concrete runs: the serialiser shows the action, the code is the text behind the key.\<close>

definition toy_env :: audit_env where
  "toy_env = \<lparr>au_rt = example_rt,
     au_json = (\<lambda>v. case v of PDict d \<Rightarrow> py_str example_rt (dict_get d ''action'' PNone) | _ \<Rightarrow> ''{}''),
     au_hmac = (\<lambda>k d. take 8 (filter (\<lambda>c. ord c < 128) (k @ d) @ ''00000000''))\<rparr>"

definition toy_actor :: AuditActor where
  "toy_actor = \<lparr>ac_actor_id = ''u1'', ac_actor_type = ''user'', ac_username = None, ac_email = Some ''a@b.c'', ac_ip_address = None,
     ac_user_agent = None, ac_session_id = None, ac_tenant_id = Some ''t1'', ac_roles = []\<rparr>"

definition toy_event :: AuditEvent where
  "toy_event = \<lparr>ae_event_id = ''e1'', ae_timestamp = Datetime 0 (Some 0), ae_event_type = LOGIN_SUCCESS,
     ae_category = AUTHENTICATION, ae_severity = AuditSeverity.INFO, ae_actor = toy_actor, ae_action = ''login'',
     ae_outcome = ''success'', ae_resource = None, ae_context = None, ae_message = None, ae_details = [], ae_tags = [],
     ae_integrity_hash = None, ae_previous_hash = None\<rparr>"

definition toy_integrity :: integrity where
  "toy_integrity = \<lparr>ai_secret_key = ''key'', ai_last_hash = None\<rparr>"

lemma toy_env_mac: "hex_mac toy_env"
proof -
  have "hex_code (take 8 (filter (\<lambda>c. ord c < 128) (x :: string) @ ''00000000''))" for x
  proof -
    have "list_all (\<lambda>c. ord c < 128) (filter (\<lambda>c. ord c < 128) x @ ''00000000'')"
      by (simp add: list_all_iff ord_def)
    then show ?thesis by (auto simp: hex_code_def list_all_iff dest: in_set_takeD)
  qed
  then show ?thesis unfolding hex_mac_def toy_env_def by (simp del: filter_append take_append)
qed

theorem signed_chain_verifies_witness:
  "verify_audit_links toy_env toy_integrity (snd (sign_all toy_env toy_integrity [toy_event, toy_event])) = Inr True"
proof (rule signed_chain_verifies [OF toy_env_mac])
  show "ai_last_hash toy_integrity = None" by (simp add: toy_integrity_def)
  show "sign_all toy_env toy_integrity [toy_event, toy_event] =
      (fst (sign_all toy_env toy_integrity [toy_event, toy_event]), snd (sign_all toy_env toy_integrity [toy_event, toy_event]))"
    by simp
qed

section \<open>Tamper evidence\<close>

text \<open>The signed texts of a chain.\<close>

definition signed_text :: "audit_env \<Rightarrow> AuditEvent \<Rightarrow> string" where
  "signed_text env e = au_json env (PDict (audit_canonical (au_rt env) e))"

lemma previous_of_canonical:
  "audit_canonical rt e = audit_canonical rt e' \<Longrightarrow> ae_previous_hash e = ae_previous_hash e'"
  by (auto simp: audit_canonical_def opt_str_def split: option.splits)

lemma verify_links_snoc:
  "verify_links env i p (es @ [e]) = Inr True \<longleftrightarrow>
     verify_links env i p es = Inr True \<and> verify_event env i e = Inr True \<and>
     ae_previous_hash e = (if es = [] then p else ae_integrity_hash (last es))"
proof (induction es arbitrary: p)
  case Nil
  then show ?case by (auto simp: and_then_eq_Inr_iff)
next
  case (Cons a es)
  then show ?case by (cases es) (auto simp: and_then_eq_Inr_iff)
qed

lemma verified_has_hash:
  assumes "verify_links env i p es = Inr True" and "es \<noteq> []"
  shows "ae_integrity_hash (last es) \<noteq> None"
proof -
  obtain fs e where es: "es = fs @ [e]" using assms(2) by (metis append_butlast_last_id)
  then show ?thesis using assms(1) by (auto simp: verify_links_snoc verify_event_True_iff)
qed

text \<open>
  Claim C34 (safety). The last code commits to the whole audit trail: two chains that verify
  under the same key and end in the same code have, in the same order and number, the same
  signed content, provided neither the serialiser nor the code collides on the events of the
  two chains. Events cannot be altered, removed from the middle, inserted or reordered.
\<close>

theorem audit_chain_commits:
  assumes "verify_audit_links env i xs = Inr True" and "verify_audit_links env i ys = Inr True"
    and "xs \<noteq> []" and "ys \<noteq> []" and "ae_integrity_hash (last xs) = ae_integrity_hash (last ys)"
    and "inj_on (au_hmac env (ai_secret_key i)) (signed_text env ` (set xs \<union> set ys))"
    and "inj_on (\<lambda>c. au_json env (PDict c)) (audit_canonical (au_rt env) ` (set xs \<union> set ys))"
  shows "map (audit_canonical (au_rt env)) xs = map (audit_canonical (au_rt env)) ys"
  using assms unfolding verify_audit_links_def
proof (induction xs arbitrary: ys rule: rev_induct)
  case (snoc x xs)
  obtain zs y where ys: "ys = zs @ [y]" using snoc.prems(4) by (metis append_butlast_last_id)
  have x: "verify_links env i None xs = Inr True" "verify_event env i x = Inr True"
    "ae_previous_hash x = (if xs = [] then None else ae_integrity_hash (last xs))"
    using snoc.prems(1) by (simp_all add: verify_links_snoc)
  have y: "verify_links env i None zs = Inr True" "verify_event env i y = Inr True"
    "ae_previous_hash y = (if zs = [] then None else ae_integrity_hash (last zs))"
    using snoc.prems(2) by (simp_all add: ys verify_links_snoc)
  have "compute_hash env i x = compute_hash env i y"
    using x(2) y(2) snoc.prems(5) by (auto simp: ys verify_event_True_iff)
  then have "au_hmac env (ai_secret_key i) (signed_text env x) = au_hmac env (ai_secret_key i) (signed_text env y)"
    by (simp add: compute_hash_def signed_text_def)
  from inj_onD [OF snoc.prems(6) this] have "signed_text env x = signed_text env y" by (simp add: ys)
  then have "au_json env (PDict (audit_canonical (au_rt env) x)) = au_json env (PDict (audit_canonical (au_rt env) y))"
    by (simp add: signed_text_def)
  from inj_onD [OF snoc.prems(7) this] have c: "audit_canonical (au_rt env) x = audit_canonical (au_rt env) y"
    by (simp add: ys)
  have prev: "ae_previous_hash x = ae_previous_hash y" by (rule previous_of_canonical [OF c])
  have "map (audit_canonical (au_rt env)) xs = map (audit_canonical (au_rt env)) zs"
  proof (cases "xs = [] \<or> zs = []")
    case True
    then have "xs = []" and "zs = []"
      using prev x(3) y(3) verified_has_hash [OF x(1)] verified_has_hash [OF y(1)] by (auto split: if_splits)
    then show ?thesis by simp
  next
    case False
    have "inj_on (au_hmac env (ai_secret_key i)) (signed_text env ` (set xs \<union> set zs))"
      by (rule inj_on_subset [OF snoc.prems(6)]) (auto simp: ys)
    moreover have "inj_on (\<lambda>c. au_json env (PDict c)) (audit_canonical (au_rt env) ` (set xs \<union> set zs))"
      by (rule inj_on_subset [OF snoc.prems(7)]) (auto simp: ys)
    ultimately show ?thesis
      using snoc.IH [of zs] x y prev False by simp
  qed
  with c show ?case by (simp add: ys)
qed simp

theorem audit_chain_commits_witness:
  "ae_integrity_hash (last (snd (sign_all toy_env toy_integrity [toy_event]))) \<noteq>
   ae_integrity_hash (last (snd (sign_all toy_env toy_integrity [toy_event\<lparr>ae_action := ''logout''\<rparr>])))"
proof
  let ?x = "toy_event\<lparr>ae_integrity_hash := Some ''keylogin''\<rparr>"
  let ?y = "toy_event\<lparr>ae_action := ''logout'', ae_integrity_hash := Some ''keylogou''\<rparr>"
  have xs: "snd (sign_all toy_env toy_integrity [toy_event]) = [?x]"
    and ys: "snd (sign_all toy_env toy_integrity [toy_event\<lparr>ae_action := ''logout''\<rparr>]) = [?y]" by code_simp+
  assume "ae_integrity_hash (last (snd (sign_all toy_env toy_integrity [toy_event]))) =
    ae_integrity_hash (last (snd (sign_all toy_env toy_integrity [toy_event\<lparr>ae_action := ''logout''\<rparr>])))"
  then have eq: "ae_integrity_hash (last [?x]) = ae_integrity_hash (last [?y])" by (simp only: xs ys)
  have v: "verify_audit_links toy_env toy_integrity [?x] = Inr True"
    "verify_audit_links toy_env toy_integrity [?y] = Inr True" by code_simp+
  have t: "signed_text toy_env ?x = ''login''" "signed_text toy_env ?y = ''logout''"
    "au_hmac toy_env (ai_secret_key toy_integrity) ''login'' = ''keylogin''"
    "au_hmac toy_env (ai_secret_key toy_integrity) ''logout'' = ''keylogou''" by code_simp+
  have "map (audit_canonical (au_rt toy_env)) [?x] = map (audit_canonical (au_rt toy_env)) [?y]"
  proof (rule audit_chain_commits [OF v _ _ eq])
    show "inj_on (au_hmac toy_env (ai_secret_key toy_integrity)) (signed_text toy_env ` (set [?x] \<union> set [?y]))"
      using t by (simp del: filter_append take_append)
    show "inj_on (\<lambda>c. au_json toy_env (PDict c)) (audit_canonical (au_rt toy_env) ` (set [?x] \<union> set [?y]))"
      using t(1,2) by (auto simp: signed_text_def)
  qed simp_all
  then show False by (simp add: audit_canonical_def toy_event_def)
qed

end
