(* ===== verification/AuditLog.thy ===== *)
theory AuditLog
  imports AuditChain
begin

text \<open>
  \<^verbatim>\<open>services/shared/audit_logging/storage.py\<close> and \<^verbatim>\<open>writer.py\<close>: rehydration of stored events, the
  in-memory store, the logger that signs and stores, and the decorator that audits a call. The
  storage protocol is a record of operations, its promise the locale \<open>audit_backend_laws\<close>.
\<close>

section \<open>Rehydration\<close>

text \<open>\<open>payload[key]\<close>\<close>

definition dict_item :: "pydict \<Rightarrow> string \<Rightarrow> py_error + pyval" where
  "dict_item d k = (case map_of d k of None \<Rightarrow> Inl (KeyError k) | Some v \<Rightarrow> Inr v)"

text \<open>
  The dataclass fields are typed but not checked; a payload whose values have other types than
  the ones \<open>to_dict\<close> writes is outside the model, and read as if absent.
\<close>

definition text_of :: "pyval \<Rightarrow> string option" where
  "text_of v = (case v of PStr s \<Rightarrow> Some s | _ \<Rightarrow> None)"

definition text_item :: "pydict \<Rightarrow> string \<Rightarrow> py_error + string" where
  "text_item d k = and_then (dict_item d k) (\<lambda>v. case text_of v of None \<Rightarrow> Inl TypeError | Some s \<Rightarrow> Inr s)"

definition dict_or_empty :: "pyval \<Rightarrow> pydict" where
  "dict_or_empty v = (case v of PDict d \<Rightarrow> d | _ \<Rightarrow> [])"

definition texts_or_empty :: "pyval \<Rightarrow> string list" where
  "texts_or_empty v = (case v of PList xs \<Rightarrow> map (\<lambda>x. case x of PStr s \<Rightarrow> s | _ \<Rightarrow> []) xs | _ \<Rightarrow> [])"

definition get_text :: "pydict \<Rightarrow> string \<Rightarrow> string option" where
  "get_text d k = text_of (dict_get d k PNone)"

definition actor_from_dict :: "pydict \<Rightarrow> AuditActor" where
  "actor_from_dict d =
     \<lparr>ac_actor_id = (case get_text d ''actor_id'' of None \<Rightarrow> [] | Some s \<Rightarrow> s),
      ac_actor_type = (case get_text d ''actor_type'' of None \<Rightarrow> ''system'' | Some s \<Rightarrow> s),
      ac_username = get_text d ''username'', ac_email = None, ac_ip_address = get_text d ''ip_address'',
      ac_user_agent = get_text d ''user_agent'', ac_session_id = None, ac_tenant_id = get_text d ''tenant_id'',
      ac_roles = []\<rparr>"

definition resource_from_dict :: "pydict \<Rightarrow> py_error + AuditResource" where
  "resource_from_dict d =
     and_then (text_item d ''resource_type'') (\<lambda>ty. and_then (text_item d ''resource_id'') (\<lambda>rid.
       Inr \<lparr>ar_resource_type = ty, ar_resource_id = rid, ar_resource_name = get_text d ''resource_name'',
            ar_tenant_id = get_text d ''tenant_id'', ar_attributes = dict_or_empty (dict_get d ''attributes'' PNone)\<rparr>))"

definition context_from_dict :: "pydict \<Rightarrow> AuditContext" where
  "context_from_dict d =
     \<lparr>ax_request_id = get_text d ''request_id'', ax_correlation_id = get_text d ''correlation_id'',
      ax_environment = get_text d ''environment'', ax_service_name = get_text d ''service_name'',
      ax_service_version = None, ax_endpoint = get_text d ''endpoint'', ax_http_method = None,
      ax_http_status = None, ax_duration_ms = None, ax_extra = []\<rparr>"

definition timestamp_of :: "pyrt \<Rightarrow> pyval \<Rightarrow> py_error + pydatetime" where
  "timestamp_of rt v =
     (case v of PStr s \<Rightarrow> rt_fromisoformat rt s | PDatetime d \<Rightarrow> Inr d | _ \<Rightarrow> Inl TypeError)"

definition event_from_dict :: "pyrt \<Rightarrow> pydict \<Rightarrow> py_error + AuditEvent" where
  "event_from_dict rt payload =
     and_then (dict_item payload ''timestamp'') (\<lambda>ts. and_then (timestamp_of rt ts) (\<lambda>timestamp.
     and_then (text_item payload ''event_id'') (\<lambda>event_id.
     and_then (and_then (dict_item payload ''event_type'') (enum_of event_type_value all_event_types)) (\<lambda>event_type.
     and_then (and_then (dict_item payload ''category'') (enum_of category_value all_categories)) (\<lambda>category.
     and_then (and_then (dict_item payload ''severity'') (enum_of severity_value all_severities)) (\<lambda>severity.
     and_then (text_item payload ''action'') (\<lambda>action. and_then (text_item payload ''outcome'') (\<lambda>outcome.
     and_then (let r = dict_get payload ''resource'' PNone
               in if truthy r then and_then (resource_from_dict (dict_or_empty r)) (\<lambda>x. Inr (Some x)) else Inr None)
       (\<lambda>resource.
       let context = dict_get payload ''context'' PNone in
       Inr \<lparr>ae_event_id = event_id, ae_timestamp = timestamp, ae_event_type = event_type, ae_category = category,
            ae_severity = severity, ae_actor = actor_from_dict (dict_or_empty (dict_get payload ''actor'' PNone)),
            ae_action = action, ae_outcome = outcome, ae_resource = resource,
            ae_context = (if truthy context then Some (context_from_dict (dict_or_empty context)) else None),
            ae_message = get_text payload ''message'', ae_details = dict_or_empty (dict_get payload ''details'' PNone),
            ae_tags = texts_or_empty (dict_get payload ''tags'' PNone),
            ae_integrity_hash = get_text payload ''integrity_hash'',
            ae_previous_hash = get_text payload ''previous_hash''\<rparr>)))))))))"

section \<open>Storage\<close>

record 's AuditStorageBackend =
  ab_store :: "AuditEvent \<Rightarrow> 's \<Rightarrow> 's \<times> (py_error + bool)"
  ab_get_by_id :: "string \<Rightarrow> 's \<Rightarrow> AuditEvent option"

record memory_audit =
  ma_events :: "AuditEvent list"
  ma_max_events :: int
  ma_by_id :: "string \<Rightarrow> AuditEvent option"

definition init_memory :: "int \<Rightarrow> memory_audit" where
  "init_memory max_events = \<lparr>ma_events = [], ma_max_events = max_events, ma_by_id = Map.empty\<rparr>"

definition memory_store_event :: "AuditEvent \<Rightarrow> memory_audit \<Rightarrow> memory_audit \<times> (py_error + bool)" where
  "memory_store_event event s =
     (let events = ma_events s @ [event]; by_id = (ma_by_id s)(ae_event_id event \<mapsto> event)
      in if ma_max_events s < int (length events) then
           (let removed = hd events; s1 = s\<lparr>ma_events := tl events, ma_by_id := by_id\<rparr>
            in if by_id (ae_event_id removed) = None then (s1, Inl (KeyError (ae_event_id removed)))
               else (s1\<lparr>ma_by_id := by_id(ae_event_id removed := None)\<rparr>, Inr True))
         else (s\<lparr>ma_events := events, ma_by_id := by_id\<rparr>, Inr True))"

definition InMemoryAuditStorage :: "memory_audit AuditStorageBackend" where
  "InMemoryAuditStorage = \<lparr>ab_store = memory_store_event, ab_get_by_id = (\<lambda>i s. ma_by_id s i)\<rparr>"

definition clear_memory :: "memory_audit \<Rightarrow> memory_audit" where
  "clear_memory s = s\<lparr>ma_events := [], ma_by_id := Map.empty\<rparr>"

record audit_filter =
  af_start_time :: "pydatetime option"
  af_end_time :: "pydatetime option"
  af_event_types :: "AuditEventType list"
  af_actor_id :: "string option"
  af_resource_type :: "string option"
  af_resource_id :: "string option"
  af_tenant_id :: "string option"
  af_severity :: "AuditSeverity option"

text \<open>A filter text that is absent or empty does not filter.\<close>

definition asks_other :: "string option \<Rightarrow> string option \<Rightarrow> bool" where
  "asks_other wanted found = (case wanted of None \<Rightarrow> False | Some w \<Rightarrow> w \<noteq> [] \<and> found \<noteq> Some w)"

definition time_excludes :: "audit_filter \<Rightarrow> AuditEvent \<Rightarrow> py_error + bool" where
  "time_excludes f e =
     and_then (case af_start_time f of None \<Rightarrow> Inr False | Some t \<Rightarrow> dt_less (ae_timestamp e) t) (\<lambda>early.
       if early then Inr True
       else case af_end_time f of None \<Rightarrow> Inr False | Some t \<Rightarrow> dt_less t (ae_timestamp e))"

definition event_matches :: "audit_filter \<Rightarrow> AuditEvent \<Rightarrow> py_error + bool" where
  "event_matches f e =
     and_then (time_excludes f e) (\<lambda>excluded.
       Inr (\<not> excluded \<and>
            (af_event_types f = [] \<or> ae_event_type e \<in> set (af_event_types f)) \<and>
            \<not> asks_other (af_actor_id f) (Some (ac_actor_id (ae_actor e))) \<and>
            \<not> asks_other (af_resource_type f) (map_option ar_resource_type (ae_resource e)) \<and>
            \<not> asks_other (af_resource_id f) (map_option ar_resource_id (ae_resource e)) \<and>
            \<not> asks_other (af_tenant_id f) (ac_tenant_id (ae_actor e)) \<and>
            (case af_severity f of None \<Rightarrow> True | Some sv \<Rightarrow> ae_severity e = sv)))"

fun select_events :: "audit_filter \<Rightarrow> AuditEvent list \<Rightarrow> py_error + AuditEvent list" where
  "select_events f [] = Inr []"
| "select_events f (e # es) =
     and_then (event_matches f e) (\<lambda>m. and_then (select_events f es) (\<lambda>rest. Inr (if m then e # rest else rest)))"

text \<open>\<open>results[offset : offset + limit]\<close> for counts.\<close>

definition query_memory :: "audit_filter \<Rightarrow> nat \<Rightarrow> nat \<Rightarrow> memory_audit \<Rightarrow> py_error + AuditEvent list" where
  "query_memory f limit offset s =
     and_then (select_events f (ma_events s)) (\<lambda>results. Inr (take limit (drop offset results)))"

section \<open>The logger\<close>

record 's logger =
  lg_storage :: 's
  lg_integrity :: integrity
  lg_service_name :: string
  lg_environment :: string

record log_args =
  la_event_type :: AuditEventType
  la_category :: AuditEventCategory
  la_severity :: AuditSeverity
  la_actor :: AuditActor
  la_action :: string
  la_outcome :: string
  la_resource :: "AuditResource option"
  la_context :: "AuditContext option"
  la_message :: "string option"
  la_details :: pydict
  la_tags :: "string list"

definition empty_context :: AuditContext where
  "empty_context =
     \<lparr>ax_request_id = None, ax_correlation_id = None, ax_environment = None, ax_service_name = None,
      ax_service_version = None, ax_endpoint = None, ax_http_method = None, ax_http_status = None,
      ax_duration_ms = None, ax_extra = []\<rparr>"

text \<open>The fresh identifier and the time of the call are arguments.\<close>

definition unsigned_event :: "'s logger \<Rightarrow> string \<Rightarrow> pydatetime \<Rightarrow> log_args \<Rightarrow> AuditEvent" where
  "unsigned_event lg uid now a =
     (let context = (case la_context a of None \<Rightarrow> empty_context | Some c \<Rightarrow> c)
      in \<lparr>ae_event_id = uid, ae_timestamp = now, ae_event_type = la_event_type a, ae_category = la_category a,
          ae_severity = la_severity a, ae_actor = la_actor a, ae_action = la_action a, ae_outcome = la_outcome a,
          ae_resource = la_resource a,
          ae_context = Some (context\<lparr>ax_service_name := Some (lg_service_name lg),
                                     ax_environment := Some (lg_environment lg)\<rparr>),
          ae_message = la_message a, ae_details = la_details a, ae_tags = la_tags a,
          ae_integrity_hash = None, ae_previous_hash = None\<rparr>)"

definition create_event :: "audit_env \<Rightarrow> string \<Rightarrow> pydatetime \<Rightarrow> log_args \<Rightarrow> 's logger \<Rightarrow> 's logger \<times> AuditEvent" where
  "create_event env uid now a lg =
     (case sign_event env (lg_integrity lg) (unsigned_event lg uid now a) of
        (i, e) \<Rightarrow> (lg\<lparr>lg_integrity := i\<rparr>, e))"

text \<open>Hooks run after a successful write and their exceptions are logged; they do not show.\<close>

definition log_event ::
  "audit_env \<Rightarrow> 's AuditStorageBackend \<Rightarrow> string \<Rightarrow> pydatetime \<Rightarrow> log_args \<Rightarrow> 's logger \<Rightarrow>
   's logger \<times> (py_error + AuditEvent)" where
  "log_event env ab uid now a lg =
     (case create_event env uid now a lg of
        (lg1, event) \<Rightarrow>
          (case ab_store ab event (lg_storage lg1) of
             (s, Inl e) \<Rightarrow> (lg1\<lparr>lg_storage := s\<rparr>, Inl e)
           | (s, Inr stored) \<Rightarrow>
               (lg1\<lparr>lg_storage := s\<rparr>,
                if stored then Inr event
                else Inl (RuntimeError (''audit event '' @ ae_event_id event @
                       '' was not persisted (storage backend returned False)'')))))"

section \<open>Convenience methods\<close>

definition simple_actor :: "string \<Rightarrow> string \<Rightarrow> AuditActor" where
  "simple_actor actor_id actor_type =
     \<lparr>ac_actor_id = actor_id, ac_actor_type = actor_type, ac_username = None, ac_email = None, ac_ip_address = None,
      ac_user_agent = None, ac_session_id = None, ac_tenant_id = None, ac_roles = []\<rparr>"

definition login_success_args ::
  "string \<Rightarrow> string \<Rightarrow> string \<Rightarrow> string option \<Rightarrow> string option \<Rightarrow> bool \<Rightarrow> log_args" where
  "login_success_args user_id username ip user_agent tenant mfa_used =
     \<lparr>la_event_type = LOGIN_SUCCESS, la_category = AUTHENTICATION, la_severity = AuditSeverity.INFO,
      la_actor = (simple_actor user_id ''user'')\<lparr>ac_username := Some username, ac_ip_address := Some ip,
                   ac_user_agent := user_agent, ac_tenant_id := tenant\<rparr>,
      la_action = ''login'', la_outcome = ''success'', la_resource = None, la_context = None,
      la_message = Some (''User '' @ username @ '' logged in successfully''),
      la_details = [(''mfa_used'', PBool mfa_used)], la_tags = [''authentication'']\<rparr>"

definition login_failure_args ::
  "string \<Rightarrow> string \<Rightarrow> string \<Rightarrow> string option \<Rightarrow> string option \<Rightarrow> log_args" where
  "login_failure_args username ip reason user_agent tenant =
     \<lparr>la_event_type = LOGIN_FAILURE, la_category = AUTHENTICATION, la_severity = AuditSeverity.WARNING,
      la_actor = (simple_actor (''unknown:'' @ username) ''user'')\<lparr>ac_username := Some username,
                   ac_ip_address := Some ip, ac_user_agent := user_agent, ac_tenant_id := tenant\<rparr>,
      la_action = ''login'', la_outcome = ''failure'', la_resource = None, la_context = None,
      la_message = Some (''Login failed for '' @ username @ '': '' @ reason),
      la_details = [(''reason'', PStr reason)], la_tags = [''authentication'', ''security'']\<rparr>"

definition resource_path :: "AuditResource \<Rightarrow> string" where
  "resource_path r = ar_resource_type r @ ''/'' @ ar_resource_id r"

definition access_denied_args :: "AuditActor \<Rightarrow> AuditResource \<Rightarrow> string \<Rightarrow> AuditContext option \<Rightarrow> log_args" where
  "access_denied_args actor resource required_permission context =
     \<lparr>la_event_type = ACCESS_DENIED, la_category = AUTHORIZATION, la_severity = AuditSeverity.WARNING,
      la_actor = actor, la_action = ''access'', la_outcome = ''denied'', la_resource = Some resource,
      la_context = context,
      la_message = Some (''Access denied: '' @ required_permission @ '' on '' @ resource_path resource),
      la_details = [(''required_permission'', PStr required_permission)], la_tags = [''authorization'', ''security'']\<rparr>"

definition data_access_args ::
  "AuditActor \<Rightarrow> AuditResource \<Rightarrow> string \<Rightarrow> string list \<Rightarrow> AuditContext option \<Rightarrow> log_args" where
  "data_access_args actor resource access_type fields_accessed context =
     \<lparr>la_event_type = DATA_READ, la_category = DATA_ACCESS, la_severity = AuditSeverity.INFO, la_actor = actor,
      la_action = access_type, la_outcome = ''success'', la_resource = Some resource, la_context = context,
      la_message = Some (''Data accessed: '' @ resource_path resource),
      la_details = [(''fields_accessed'', PList (map PStr fields_accessed))], la_tags = [''data_access'']\<rparr>"

definition modification_type :: "string \<Rightarrow> AuditEventType" where
  "modification_type operation =
     (if operation = ''create'' then DATA_CREATE else if operation = ''delete'' then DATA_DELETE else DATA_UPDATE)"

definition data_modification_args ::
  "AuditActor \<Rightarrow> AuditResource \<Rightarrow> string \<Rightarrow> pydict \<Rightarrow> AuditContext option \<Rightarrow> log_args" where
  "data_modification_args actor resource operation changes context =
     \<lparr>la_event_type = modification_type operation, la_category = DATA_MODIFICATION, la_severity = AuditSeverity.INFO,
      la_actor = actor, la_action = operation, la_outcome = ''success'', la_resource = Some resource,
      la_context = context, la_message = Some (''Data '' @ operation @ '': '' @ resource_path resource),
      la_details = [(''changes'', PDict changes)], la_tags = [''data_modification'']\<rparr>"

definition security_event_args ::
  "AuditEventType \<Rightarrow> AuditActor \<Rightarrow> string \<Rightarrow> AuditSeverity \<Rightarrow> pydict \<Rightarrow> AuditContext option \<Rightarrow> log_args" where
  "security_event_args event_type actor description severity details context =
     \<lparr>la_event_type = event_type, la_category = SECURITY, la_severity = severity, la_actor = actor,
      la_action = ''security_event'', la_outcome = ''detected'', la_resource = None, la_context = context,
      la_message = Some description, la_details = details, la_tags = [''security'', ''alert'']\<rparr>"

definition sensitive_access_args ::
  "AuditActor \<Rightarrow> AuditResource \<Rightarrow> string \<Rightarrow> string \<Rightarrow> AuditContext option \<Rightarrow> log_args" where
  "sensitive_access_args actor resource data_classification reason context =
     \<lparr>la_event_type = SENSITIVE_DATA_ACCESS, la_category = DATA_ACCESS, la_severity = AuditSeverity.INFO,
      la_actor = actor, la_action = ''sensitive_access'', la_outcome = ''success'', la_resource = Some resource,
      la_context = context, la_message = Some (''Sensitive data accessed: '' @ resource_path resource),
      la_details = [(''data_classification'', PStr data_classification), (''access_reason'', PStr reason)],
      la_tags = [''sensitive_data'', ''pii'', ''compliance'']\<rparr>"

section \<open>The decorator\<close>

text \<open>
  The audited call: its keyword arguments, the actor among them if one is given, the duration
  measured, and the outcome of the wrapped function.
\<close>

record audited_call =
  cl_event_type :: AuditEventType
  cl_category :: AuditEventCategory
  cl_action :: string
  cl_resource_type :: "string option"
  cl_actor :: "AuditActor option"
  cl_kwargs :: pydict
  cl_duration_ms :: pyfloat

definition call_resource :: "pyrt \<Rightarrow> audited_call \<Rightarrow> AuditResource option" where
  "call_resource rt c =
     (case cl_resource_type c of
        None \<Rightarrow> None
      | Some ty \<Rightarrow>
          if ty = [] then None
          else let rid = py_or (dict_get (cl_kwargs c) ''id'' PNone) (dict_get (cl_kwargs c) (ty @ ''_id'') PNone)
               in if truthy rid
                  then Some \<lparr>ar_resource_type = ty, ar_resource_id = py_str rt rid, ar_resource_name = None,
                             ar_tenant_id = None, ar_attributes = []\<rparr>
                  else None)"

definition call_args :: "pyrt \<Rightarrow> audited_call \<Rightarrow> py_error + 'a \<Rightarrow> log_args" where
  "call_args rt c outcome =
     \<lparr>la_event_type = cl_event_type c, la_category = cl_category c,
      la_severity = (case outcome of Inl _ \<Rightarrow> AuditSeverity.ERROR | Inr _ \<Rightarrow> AuditSeverity.INFO),
      la_actor = (case cl_actor c of None \<Rightarrow> simple_actor ''system'' ''system'' | Some a \<Rightarrow> a),
      la_action = cl_action c, la_outcome = (case outcome of Inl _ \<Rightarrow> ''failure'' | Inr _ \<Rightarrow> ''success''),
      la_resource = call_resource rt c,
      la_context = Some (empty_context\<lparr>ax_duration_ms := Some (cl_duration_ms c)\<rparr>), la_message = None,
      la_details = (case outcome of
                      Inl e \<Rightarrow> if rt_err_str rt e = [] then [] else [(''error'', PStr (rt_err_str rt e))]
                    | Inr _ \<Rightarrow> []),
      la_tags = []\<rparr>"

definition audit_action ::
  "audit_env \<Rightarrow> 's AuditStorageBackend \<Rightarrow> string \<Rightarrow> pydatetime \<Rightarrow> audited_call \<Rightarrow> py_error + 'a \<Rightarrow> 's logger \<Rightarrow>
   's logger \<times> (py_error + 'a)" where
  "audit_action env ab uid now c outcome lg =
     (case log_event env ab uid now (call_args (au_rt env) c outcome) lg of
        (lg1, Inl audit_exc) \<Rightarrow> (lg1, case outcome of Inl e \<Rightarrow> Inl e | Inr _ \<Rightarrow> Inl audit_exc)
      | (lg1, Inr _) \<Rightarrow> (lg1, outcome))"

section \<open>What a stored event keeps\<close>

lemma get_text_given:
  "get_text (given k x) k = x" "k \<noteq> k' \<Longrightarrow> get_text (given k' x @ d) k = get_text d k"
  "get_text (given k x @ d) k = (case x of None \<Rightarrow> get_text d k | Some s \<Rightarrow> Some s)"
  by (auto simp: get_text_def given_def dict_get_def text_of_def split: option.split)

lemma get_text_nonempty:
  "k \<noteq> k' \<Longrightarrow> get_text (given_nonempty k' x @ d) k = get_text d k"
  "get_text (given_nonempty k x @ d) k = (if x = None \<or> x = Some [] then get_text d k else x)"
  by (auto simp: get_text_def given_nonempty_def dict_get_def text_of_def split: option.split)

lemma get_text_Cons:
  "get_text ((k', v) # d) k = (if k = k' then text_of v else get_text d k)" "get_text [] k = None"
  by (simp_all add: get_text_def text_of_def)

lemma text_of_simps [simp]: "text_of (PStr s) = Some s" "text_of (opt_str x) = x" "text_of (PList l) = None"
  "text_of (PDict d) = None"
  by (auto simp: text_of_def opt_str_def split: option.split)

text \<open>What rehydration makes of each part.\<close>

definition stored_actor :: "AuditActor \<Rightarrow> AuditActor" where
  "stored_actor a = a\<lparr>ac_email := None, ac_session_id := None, ac_roles := []\<rparr>"

definition nonempty_text :: "string option \<Rightarrow> string option" where
  "nonempty_text x = (if x = Some [] then None else x)"

definition stored_resource :: "AuditResource \<Rightarrow> AuditResource" where
  "stored_resource r = r\<lparr>ar_resource_name := nonempty_text (ar_resource_name r), ar_tenant_id := nonempty_text (ar_tenant_id r)\<rparr>"

lemma actor_from_to_dict: "actor_from_dict (actor_to_dict a) = stored_actor a"
  by (simp add: actor_from_dict_def actor_to_dict_def stored_actor_def get_text_given get_text_Cons split: option.split)

lemma dict_get_given_nonempty: "k \<noteq> k' \<Longrightarrow> dict_get (given_nonempty k' x @ d) k dflt = dict_get d k dflt"
  by (auto simp: given_nonempty_def dict_get_def split: option.split)

lemma resource_from_to_dict: "resource_from_dict (resource_to_dict r) = Inr (stored_resource r)"
proof -
  have "dict_or_empty (dict_get (resource_to_dict r) ''attributes'' PNone) = ar_attributes r"
    by (simp add: resource_to_dict_def dict_get_given_nonempty dict_or_empty_def)
  moreover have "get_text (resource_to_dict r) ''resource_name'' = nonempty_text (ar_resource_name r)"
      "get_text (resource_to_dict r) ''tenant_id'' = nonempty_text (ar_tenant_id r)"
    by (auto simp: resource_to_dict_def get_text_nonempty get_text_Cons nonempty_text_def)
  moreover have "text_item (resource_to_dict r) ''resource_type'' = Inr (ar_resource_type r)"
      "text_item (resource_to_dict r) ''resource_id'' = Inr (ar_resource_id r)"
    by (simp_all add: resource_to_dict_def text_item_def dict_item_def)
  ultimately show ?thesis by (simp add: resource_from_dict_def stored_resource_def)
qed

lemma resource_to_dict_stored: "resource_to_dict (stored_resource r) = resource_to_dict r"
  by (auto simp: resource_to_dict_def stored_resource_def nonempty_text_def given_nonempty_def split: option.split)

text \<open>The isoformat text of the event's timestamp is read back by \<open>fromisoformat\<close>.\<close>

definition timestamp_text_read :: "pyrt \<Rightarrow> AuditEvent \<Rightarrow> bool" where
  "timestamp_text_read rt e \<longleftrightarrow> rt_fromisoformat rt (rt_isoformat rt (PDatetime (ae_timestamp e))) = Inr (ae_timestamp e)"

lemma event_eqI:
  "r = e\<lparr>ae_actor := a, ae_resource := x, ae_context := ae_context r\<rparr> \<Longrightarrow>
   \<exists>c. r = e\<lparr>ae_actor := a, ae_resource := x, ae_context := c\<rparr>"
  by blast

lemma event_from_to_dict:
  assumes "timestamp_text_read rt e"
  shows "\<exists>c. event_from_dict rt (event_to_dict rt e) =
    Inr (e\<lparr>ae_actor := stored_actor (ae_actor e), ae_resource := map_option stored_resource (ae_resource e), ae_context := c\<rparr>)"
proof -
  have item: "dict_item (event_to_dict rt e) ''timestamp'' = Inr (PStr (rt_isoformat rt (PDatetime (ae_timestamp e))))"
    "text_item (event_to_dict rt e) ''event_id'' = Inr (ae_event_id e)"
    "dict_item (event_to_dict rt e) ''event_type'' = Inr (PStr (event_type_value (ae_event_type e)))"
    "dict_item (event_to_dict rt e) ''category'' = Inr (PStr (category_value (ae_category e)))"
    "dict_item (event_to_dict rt e) ''severity'' = Inr (PStr (severity_value (ae_severity e)))"
    "text_item (event_to_dict rt e) ''action'' = Inr (ae_action e)"
    "text_item (event_to_dict rt e) ''outcome'' = Inr (ae_outcome e)"
    by (simp_all add: event_to_dict_def text_item_def dict_item_def)
  have get: "dict_get (event_to_dict rt e) ''resource'' PNone =
      (case ae_resource e of None \<Rightarrow> PNone | Some r \<Rightarrow> PDict (resource_to_dict r))"
    "dict_get (event_to_dict rt e) ''actor'' PNone = PDict (actor_to_dict (ae_actor e))"
    "dict_get (event_to_dict rt e) ''details'' PNone = PDict (ae_details e)"
    "dict_get (event_to_dict rt e) ''tags'' PNone = PList (map PStr (ae_tags e))"
    "get_text (event_to_dict rt e) ''message'' = ae_message e"
    "get_text (event_to_dict rt e) ''integrity_hash'' = ae_integrity_hash e"
    "get_text (event_to_dict rt e) ''previous_hash'' = ae_previous_hash e"
    by (simp_all add: event_to_dict_def get_text_Cons)
  have "resource_to_dict r \<noteq> []" for r by (simp add: resource_to_dict_def)
  moreover have "timestamp_of rt (PStr (rt_isoformat rt (PDatetime (ae_timestamp e)))) = Inr (ae_timestamp e)"
    using assms by (simp add: timestamp_of_def timestamp_text_read_def)
  moreover have "texts_or_empty (PList (map PStr xs)) = xs" "dict_or_empty (PDict d) = d" for xs d
    by (simp_all add: texts_or_empty_def dict_or_empty_def comp_def)
  ultimately show ?thesis
    by (cases "ae_resource e")
       (auto simp: event_from_dict_def item get enum_round_trip Let_def actor_from_to_dict resource_from_to_dict
          intro!: event_eqI AuditEvent.equality)
qed

lemma actor_to_dict_stored_iff:
  "actor_to_dict (stored_actor a) = actor_to_dict a \<longleftrightarrow> ac_email a = None \<and> ac_session_id a = None \<and> ac_roles a = []"
proof
  assume eq: "actor_to_dict (stored_actor a) = actor_to_dict a"
  have "length (actor_to_dict (stored_actor a)) = length (actor_to_dict a)" by (simp add: eq)
  moreover have "dict_get (actor_to_dict x) ''roles'' PNone = PList (map PStr (ac_roles x))" for x
    by (simp add: actor_to_dict_def given_def split: option.split)
  then have "PList (map PStr (ac_roles (stored_actor a))) = PList (map PStr (ac_roles a))" by (metis eq)
  ultimately show "ac_email a = None \<and> ac_session_id a = None \<and> ac_roles a = []"
    by (auto simp: actor_to_dict_def stored_actor_def given_def split: option.splits)
qed (simp add: stored_actor_def actor_to_dict_def)

lemma canonical_stored_iff:
  "audit_canonical rt (e\<lparr>ae_actor := stored_actor (ae_actor e), ae_resource := map_option stored_resource (ae_resource e),
      ae_context := c\<rparr>) = audit_canonical rt e \<longleftrightarrow>
   ac_email (ae_actor e) = None \<and> ac_session_id (ae_actor e) = None \<and> ac_roles (ae_actor e) = []"
  by (cases "ae_resource e")
     (simp_all add: audit_canonical_def resource_to_dict_stored actor_to_dict_stored_iff)

text \<open>
  An event that verified when it was written verifies after it has been
  stored as a dictionary and rehydrated exactly when its actor had no email, no session and no
  roles: rehydration drops these three fields, which the code covers. Everything else the code
  covers survives the round trip. The hypotheses are that the timestamp's text is read back and
  that neither the serialiser nor the message authentication code collides on the two versions.
\<close>

theorem rehydrated_event_verifies_iff:
  assumes "verify_event env i e = Inr True" and "timestamp_text_read (au_rt env) e"
    and "event_from_dict (au_rt env) (event_to_dict (au_rt env) e) = Inr e'"
    and "inj_on (au_hmac env (ai_secret_key i)) {signed_text env e, signed_text env e'}"
    and "inj_on (\<lambda>c. au_json env (PDict c)) {audit_canonical (au_rt env) e, audit_canonical (au_rt env) e'}"
  shows "verify_event env i e' = Inr True \<longleftrightarrow>
    ac_email (ae_actor e) = None \<and> ac_session_id (ae_actor e) = None \<and> ac_roles (ae_actor e) = []"
proof -
  obtain c where e': "e' = e\<lparr>ae_actor := stored_actor (ae_actor e), ae_resource := map_option stored_resource (ae_resource e),
      ae_context := c\<rparr>"
    using event_from_to_dict [OF assms(2)] assms(3) by auto
  have "verify_event env i e' = Inr True \<longleftrightarrow> compute_hash env i e' = compute_hash env i e"
    using assms(1) by (auto simp: verify_event_True_iff e')
  also have "\<dots> \<longleftrightarrow> signed_text env e' = signed_text env e"
    using assms(4) by (auto simp: compute_hash_def signed_text_def inj_on_def)
  also have "\<dots> \<longleftrightarrow> audit_canonical (au_rt env) e' = audit_canonical (au_rt env) e"
    using assms(5) by (auto simp: signed_text_def inj_on_def)
  finally show ?thesis by (simp add: e' canonical_stored_iff)
qed

text \<open>An environment whose serialiser shows the number of actor fields and whose clock texts are read back.\<close>

definition mail_env :: audit_env where
  "mail_env = toy_env\<lparr>au_rt := example_rt\<lparr>rt_fromisoformat := (\<lambda>_. Inr (Datetime 0 (Some 0)))\<rparr>,
     au_json := (\<lambda>v. case v of PDict d \<Rightarrow> nat_str (length (dict_or_empty (dict_get d ''actor'' PNone))) | _ \<Rightarrow> ''{}'')\<rparr>"

definition mail_event :: AuditEvent where
  "mail_event = snd (sign_event mail_env toy_integrity toy_event)"

definition mail_read :: AuditEvent where
  "mail_read = (case event_from_dict (au_rt mail_env) (event_to_dict (au_rt mail_env) mail_event) of Inr e \<Rightarrow> e | Inl _ \<Rightarrow> mail_event)"

theorem rehydrated_event_verifies_iff_witness:
  "verify_event mail_env toy_integrity mail_event = Inr True \<and> verify_event mail_env toy_integrity mail_read \<noteq> Inr True"
proof -
  have v: "verify_event mail_env toy_integrity mail_event = Inr True" by code_simp
  have t: "timestamp_text_read (au_rt mail_env) mail_event" by code_simp
  have r: "event_from_dict (au_rt mail_env) (event_to_dict (au_rt mail_env) mail_event) = Inr mail_read"
    using event_from_to_dict [OF t] by (auto simp: mail_read_def)
  have m: "au_hmac mail_env (ai_secret_key toy_integrity) (signed_text mail_env mail_event) = ''key50000''"
      "au_hmac mail_env (ai_secret_key toy_integrity) (signed_text mail_env mail_read) = ''key40000''"
    by code_simp+
  have j: "au_json mail_env (PDict (audit_canonical (au_rt mail_env) mail_event)) = ''5''"
      "au_json mail_env (PDict (audit_canonical (au_rt mail_env) mail_read)) = ''4''"
    by code_simp+
  have "ac_email (ae_actor mail_event) \<noteq> None" by code_simp
  with rehydrated_event_verifies_iff [OF v t r] m j v show ?thesis by (auto simp: inj_on_def)
qed

section \<open>The promise of a store\<close>

text \<open>
  A store keeps an invariant of its own, and an event it reports as stored under an identifier
  it did not hold is found under that identifier. A store may refuse a write or raise.
\<close>

locale audit_backend_laws =
  fixes ab :: "'s AuditStorageBackend" and inv :: "'s \<Rightarrow> bool"
  assumes store_keeps: "inv s \<Longrightarrow> ab_get_by_id ab (ae_event_id e) s = None \<Longrightarrow> ab_store ab e s = (s', Inr True) \<Longrightarrow> inv s'"
    and store_finds: "inv s \<Longrightarrow> ab_get_by_id ab (ae_event_id e) s = None \<Longrightarrow> ab_store ab e s = (s', Inr True) \<Longrightarrow>
      ab_get_by_id ab (ae_event_id e) s' = Some e"
begin

lemma log_event_Inr:
  assumes "log_event env ab uid now a lg = (lg', Inr e)"
  shows "ab_store ab e (lg_storage lg) = (lg_storage lg', Inr True) \<and>
    sign_event env (lg_integrity lg) (unsigned_event lg uid now a) = (lg_integrity lg', e) \<and> ae_event_id e = uid"
  using assms
  by (auto simp: log_event_def create_event_def sign_event_def unsigned_event_def Let_def split: prod.splits sum.splits if_splits)

lemma logged_event_found:
  assumes "hex_mac env" and "inv (lg_storage lg)" and "ab_get_by_id ab uid (lg_storage lg) = None"
    and "log_event env ab uid now a lg = (lg', Inr e)"
  shows "inv (lg_storage lg') \<and> ab_get_by_id ab uid (lg_storage lg') = Some e \<and>
         verify_event env (lg_integrity lg') e = Inr True \<and> ae_previous_hash e = ai_last_hash (lg_integrity lg)"
proof -
  note l = log_event_Inr [OF assms(4)]
  note v = sign_event_verifies [OF assms(1) conjunct1 [OF conjunct2 [OF l]]]
  have "verify_event env (lg_integrity lg') e = Inr True"
    using v verify_event_key [of "lg_integrity lg'" "lg_integrity lg" env e] by simp
  moreover have "inv (lg_storage lg')" and "ab_get_by_id ab (ae_event_id e) (lg_storage lg') = Some e"
    using store_keeps [of "lg_storage lg" e] store_finds [of "lg_storage lg" e] l assms(2,3) by simp_all
  ultimately show ?thesis using v l by simp
qed

lemma audited_call_recorded:
  assumes "hex_mac env" and "inv (lg_storage lg)" and "ab_get_by_id ab uid (lg_storage lg) = None"
    and "audit_action env ab uid now c (Inr x) lg = (lg', Inr y)"
  shows "y = x \<and> (\<exists>e. ab_get_by_id ab uid (lg_storage lg') = Some e \<and> ae_outcome e = ''success'' \<and>
           ae_action e = cl_action c \<and> verify_event env (lg_integrity lg') e = Inr True)"
proof -
  obtain e where l: "log_event env ab uid now (call_args (au_rt env) c (Inr x)) lg = (lg', Inr e)" and y: "y = x"
    using assms(4) by (auto simp: audit_action_def split: prod.splits sum.splits)
  have "ae_outcome e = ''success''" "ae_action e = cl_action c"
    using log_event_Inr [OF l] by (auto simp: sign_event_def unsigned_event_def call_args_def Let_def)
  with logged_event_found [OF assms(1-3) l] y show ?thesis by blast
qed

end

text \<open>The invariant of the in-memory store: its list and its index hold the same events, each identifier once.\<close>

definition memory_ok :: "memory_audit \<Rightarrow> bool" where
  "memory_ok s \<longleftrightarrow> 1 \<le> ma_max_events s \<and> distinct (map ae_event_id (ma_events s)) \<and>
     (\<forall>k. ma_by_id s k = map_of (map (\<lambda>e. (ae_event_id e, e)) (ma_events s)) k)"

lemma map_of_events_None:
  "map_of (map (\<lambda>e. (ae_event_id e, e)) es) k = None \<longleftrightarrow> k \<notin> ae_event_id ` set es"
  by (auto simp: map_of_eq_None_iff image_image)

lemma map_of_events_snoc:
  assumes "ae_event_id e \<notin> ae_event_id ` set es"
  shows "([ae_event_id e \<mapsto> e] ++ map_of (map (\<lambda>e. (ae_event_id e, e)) es)) k =
    ((map_of (map (\<lambda>e. (ae_event_id e, e)) es))(ae_event_id e \<mapsto> e)) k"
proof (cases "k = ae_event_id e")
  case True
  then have "map_of (map (\<lambda>e. (ae_event_id e, e)) es) k = None" using assms by (simp only: map_of_events_None) simp
  with True show ?thesis by (simp add: map_add_def)
qed (simp add: map_add_def split: option.split)

lemma memory_store_fresh:
  assumes "memory_ok s" and "ma_by_id s (ae_event_id e) = None"
  shows "\<exists>s'. memory_store_event e s = (s', Inr True) \<and> memory_ok s' \<and> ma_by_id s' (ae_event_id e) = Some e"
proof -
  have fresh: "ae_event_id e \<notin> ae_event_id ` set (ma_events s)"
    using assms by (simp add: memory_ok_def map_of_events_None)
  show ?thesis
  proof (cases "ma_max_events s < int (length (ma_events s)) + 1")
    case False
    with assms fresh show ?thesis
      by (auto simp: memory_store_event_def memory_ok_def Let_def map_of_events_snoc)
  next
    case True
    then obtain x xs where ev: "ma_events s = x # xs" using assms(1) by (cases "ma_events s") (auto simp: memory_ok_def)
    have "ae_event_id x \<notin> ae_event_id ` set xs" using assms(1) by (simp add: memory_ok_def ev)
    then have "map_of (map (\<lambda>e. (ae_event_id e, e)) xs) (ae_event_id x) = None" by (simp only: map_of_events_None) simp
    with assms True fresh show ?thesis
      by (auto simp: memory_store_event_def memory_ok_def Let_def ev map_of_events_snoc)
  qed
qed

interpretation mem: audit_backend_laws InMemoryAuditStorage memory_ok
proof unfold_locales
  fix s e s'
  assume "memory_ok s" "ab_get_by_id InMemoryAuditStorage (ae_event_id e) s = None"
    "ab_store InMemoryAuditStorage e s = (s', Inr True)"
  with memory_store_fresh [of s e] show "memory_ok s'"
      "ab_get_by_id InMemoryAuditStorage (ae_event_id e) s' = Some e"
    by (auto simp: InMemoryAuditStorage_def)
qed

text \<open>
  A call audited with the in-memory store that returns has been recorded: under
  its identifier the store holds an event that shows the success of that action and that
  verifies, and the caller gets the function's own result. A result is never returned for a
  record that was not stored.
\<close>

theorem audited_call_is_recorded:
  assumes "hex_mac env" and "memory_ok (lg_storage lg)" and "ma_by_id (lg_storage lg) uid = None"
    and "audit_action env InMemoryAuditStorage uid now c (Inr x) lg = (lg', Inr y)"
  shows "y = x \<and> (\<exists>e. ma_by_id (lg_storage lg') uid = Some e \<and> ae_outcome e = ''success'' \<and>
           ae_action e = cl_action c \<and> verify_event env (lg_integrity lg') e = Inr True)"
proof -
  have get: "ab_get_by_id InMemoryAuditStorage k s = ma_by_id s k" for k s by (simp add: InMemoryAuditStorage_def)
  show ?thesis using mem.audited_call_recorded [OF assms(1,2) _ assms(4)] assms(3) by (simp add: get)
qed

definition toy_logger :: "memory_audit logger" where
  "toy_logger = \<lparr>lg_storage = init_memory 2, lg_integrity = toy_integrity, lg_service_name = ''s'', lg_environment = ''test''\<rparr>"

definition toy_call :: audited_call where
  "toy_call = \<lparr>cl_event_type = DATA_CREATE, cl_category = DATA_MODIFICATION, cl_action = ''create'', cl_resource_type = Some ''record'',
     cl_actor = Some toy_actor, cl_kwargs = [(''id'', PInt 7)], cl_duration_ms = Fin 1\<rparr>"

theorem audited_call_is_recorded_witness:
  "snd (audit_action toy_env InMemoryAuditStorage ''e1'' (Datetime 0 (Some 0)) toy_call (Inr (5 :: nat)) toy_logger) = Inr 5 \<and>
   (\<exists>e. ma_by_id (lg_storage (fst (audit_action toy_env InMemoryAuditStorage ''e1'' (Datetime 0 (Some 0)) toy_call
          (Inr (5 :: nat)) toy_logger))) ''e1'' = Some e \<and> ae_outcome e = ''success'')"
proof -
  let ?r = "audit_action toy_env InMemoryAuditStorage ''e1'' (Datetime 0 (Some 0)) toy_call (Inr (5 :: nat)) toy_logger"
  have ok: "snd ?r = Inr 5" by code_simp
  have "memory_ok (lg_storage toy_logger)" "ma_by_id (lg_storage toy_logger) ''e1'' = None"
    by (simp_all add: memory_ok_def toy_logger_def init_memory_def)
  from audited_call_is_recorded [OF toy_env_mac this, of "Datetime 0 (Some 0)" toy_call 5 "fst ?r" 5] ok
  show ?thesis by (metis prod.collapse)
qed

section \<open>The stored trail\<close>

text \<open>A sequence of log calls: fresh identifier, time and arguments of each.\<close>

fun log_all ::
  "audit_env \<Rightarrow> 's AuditStorageBackend \<Rightarrow> (string \<times> pydatetime \<times> log_args) list \<Rightarrow> 's logger \<Rightarrow> 's logger" where
  "log_all env ab [] lg = lg"
| "log_all env ab ((uid, now, a) # cs) lg = log_all env ab cs (fst (log_event env ab uid now a lg))"

text \<open>The stored list is a signed chain that starts at \<open>p\<close> and ends at the logger's last hash.\<close>

definition trail_from :: "audit_env \<Rightarrow> string option \<Rightarrow> memory_audit logger \<Rightarrow> bool" where
  "trail_from env p lg \<longleftrightarrow>
     verify_links env (lg_integrity lg) p (ma_events (lg_storage lg)) = Inr True \<and>
     ai_last_hash (lg_integrity lg) =
       (if ma_events (lg_storage lg) = [] then p else ae_integrity_hash (last (ma_events (lg_storage lg))))"

lemma log_event_memory:
  assumes "hex_mac env" and "trail_from env p lg" and "int (length (ma_events (lg_storage lg))) < ma_max_events (lg_storage lg)"
    and lg': "lg' = fst (log_event env InMemoryAuditStorage uid now a lg)"
  shows "trail_from env p lg' \<and> length (ma_events (lg_storage lg')) = Suc (length (ma_events (lg_storage lg))) \<and>
         ma_max_events (lg_storage lg') = ma_max_events (lg_storage lg)"
proof -
  obtain i e where s: "sign_event env (lg_integrity lg) (unsigned_event lg uid now a) = (i, e)" by fastforce
  have l: "lg_integrity lg' = i" "ma_events (lg_storage lg') = ma_events (lg_storage lg) @ [e]"
      "ma_max_events (lg_storage lg') = ma_max_events (lg_storage lg)"
    using assms(3) by (auto simp: lg' log_event_def create_event_def s InMemoryAuditStorage_def memory_store_event_def Let_def)
  note v = sign_event_verifies [OF assms(1) s]
  have "verify_links env i p (ma_events (lg_storage lg)) = Inr True" "verify_event env i e = Inr True"
    using assms(2) v verify_links_key [of i "lg_integrity lg"] verify_event_key [of i "lg_integrity lg"]
    by (simp_all add: trail_from_def)
  then show ?thesis using v assms(2) l by (auto simp: trail_from_def verify_links_snoc)
qed

lemma log_all_memory:
  assumes "hex_mac env" and "trail_from env p lg"
    and "int (length (ma_events (lg_storage lg)) + length cs) \<le> ma_max_events (lg_storage lg)"
  shows "trail_from env p (log_all env InMemoryAuditStorage cs lg) \<and>
    length (ma_events (lg_storage (log_all env InMemoryAuditStorage cs lg))) =
      length (ma_events (lg_storage lg)) + length cs"
  using assms(2,3)
proof (induction cs arbitrary: lg)
  case (Cons c cs)
  obtain uid now a where c: "c = (uid, now, a)" using prod_cases3 by blast
  have "int (length (ma_events (lg_storage lg))) < ma_max_events (lg_storage lg)" using Cons.prems(2) by simp
  note l = log_event_memory [OF assms(1) Cons.prems(1) this refl, of uid now a]
  with Cons.IH [of "fst (log_event env InMemoryAuditStorage uid now a lg)"] Cons.prems(2)
  show ?case by (simp add: c)
qed simp

text \<open>
  Once the store has dropped its oldest event, every event it holds points to a predecessor, the
  first one too.
\<close>

definition linked_after :: "bool \<Rightarrow> memory_audit logger \<Rightarrow> bool" where
  "linked_after trimmed lg \<longleftrightarrow>
     1 \<le> ma_max_events (lg_storage lg) \<and> (trimmed \<longrightarrow> ma_events (lg_storage lg) \<noteq> []) \<and>
     (ma_events (lg_storage lg) \<noteq> [] \<longrightarrow> ai_last_hash (lg_integrity lg) \<noteq> None) \<and>
     (\<forall>e \<in> set (if trimmed then ma_events (lg_storage lg) else tl (ma_events (lg_storage lg))). ae_previous_hash e \<noteq> None)"

lemma linked_after_log:
  assumes "linked_after b lg" and n: "n = int (length (ma_events (lg_storage lg)))" "n \<le> ma_max_events (lg_storage lg)"
    and lg': "lg' = fst (log_event env InMemoryAuditStorage uid now a lg)"
  shows "linked_after (b \<or> n = ma_max_events (lg_storage lg)) lg' \<and> ma_max_events (lg_storage lg') = ma_max_events (lg_storage lg) \<and>
    int (length (ma_events (lg_storage lg'))) = min (n + 1) (ma_max_events (lg_storage lg))"
proof -
  obtain i e where s: "sign_event env (lg_integrity lg) (unsigned_event lg uid now a) = (i, e)" by fastforce
  let ?es = "ma_events (lg_storage lg) @ [e]"
  have i: "ai_last_hash i \<noteq> None" "ae_previous_hash e = ai_last_hash (lg_integrity lg)"
    using s by (auto simp: sign_event_def Let_def)
  have l: "lg_integrity lg' = i" "ma_max_events (lg_storage lg') = ma_max_events (lg_storage lg)"
      "ma_events (lg_storage lg') = (if n = ma_max_events (lg_storage lg) then tl ?es else ?es)"
    using n by (auto simp: lg' log_event_def create_event_def s InMemoryAuditStorage_def memory_store_event_def Let_def
        split: prod.splits)
  show ?thesis
    using assms(1) n i by (cases "ma_events (lg_storage lg)") (auto simp: linked_after_def l min_def split: if_splits)
qed

lemma linked_after_log_all:
  assumes "linked_after b lg" and "int (length (ma_events (lg_storage lg))) \<le> ma_max_events (lg_storage lg)"
    and "b \<or> ma_max_events (lg_storage lg) < int (length (ma_events (lg_storage lg)) + length cs)"
  shows "linked_after True (log_all env InMemoryAuditStorage cs lg)"
  using assms
proof (induction cs arbitrary: b lg)
  case (Cons c cs)
  obtain uid now a where c: "c = (uid, now, a)" using prod_cases3 by blast
  define lg' where "lg' = fst (log_event env InMemoryAuditStorage uid now a lg)"
  note l = linked_after_log [OF Cons.prems(1) refl Cons.prems(2) lg'_def]
  have "linked_after True (log_all env InMemoryAuditStorage cs lg')"
    by (rule Cons.IH [OF conjunct1 [OF l]]) (use l Cons.prems(2,3) in auto)
  then show ?case by (simp add: c lg'_def)
qed simp

text \<open>
  The trail kept by the in-memory store verifies exactly as long as it has
  not been trimmed: after any sequence of log calls with a fresh logger, the verifier accepts
  the stored events iff their number does not exceed \<open>max_events\<close>. After the first trim the
  untampered trail is reported as broken, for ever.
\<close>

theorem memory_trail_verifies_iff:
  assumes "hex_mac env" and "lg_storage lg = init_memory m" and "1 \<le> m" and "ai_last_hash (lg_integrity lg) = None"
    and "lg' = log_all env InMemoryAuditStorage calls lg"
  shows "verify_audit_links env (lg_integrity lg') (ma_events (lg_storage lg')) = Inr (int (length calls) \<le> m)"
proof (cases "int (length calls) \<le> m")
  case True
  have "trail_from env None lg" using assms(2,4) by (simp add: trail_from_def init_memory_def)
  from log_all_memory [OF assms(1) this, of calls] True show ?thesis
    by (simp add: assms(2,5) init_memory_def trail_from_def verify_audit_links_def)
next
  case False
  have "linked_after False lg" using assms(2,3) by (simp add: linked_after_def init_memory_def)
  from linked_after_log_all [OF this, of calls env] False have "linked_after True lg'"
    using assms(3) by (simp add: assms(2,5) init_memory_def)
  then show ?thesis using False
    by (cases "ma_events (lg_storage lg')") (auto simp: linked_after_def verify_audit_links_def)
qed

definition toy_log :: "string \<Rightarrow> string \<times> pydatetime \<times> log_args" where
  "toy_log uid = (uid, Datetime 0 (Some 0), call_args example_rt toy_call (Inr (0 :: nat)))"

theorem memory_trail_verifies_iff_witness:
  "(let lg = log_all toy_env InMemoryAuditStorage [toy_log ''a'', toy_log ''b''] toy_logger
    in verify_audit_links toy_env (lg_integrity lg) (ma_events (lg_storage lg)) = Inr True) \<and>
   (let lg = log_all toy_env InMemoryAuditStorage [toy_log ''a'', toy_log ''b'', toy_log ''c''] toy_logger
    in verify_audit_links toy_env (lg_integrity lg) (ma_events (lg_storage lg)) = Inr False)"
proof -
  have "lg_storage toy_logger = init_memory 2" "1 \<le> (2 :: int)" "ai_last_hash (lg_integrity toy_logger) = None"
    by (simp_all add: toy_logger_def toy_integrity_def)
  note t = memory_trail_verifies_iff [OF toy_env_mac this refl]
  show ?thesis using t [of "[toy_log ''a'', toy_log ''b'']"] t [of "[toy_log ''a'', toy_log ''b'', toy_log ''c'']"]
    by (simp add: Let_def)
qed

text \<open>
  A write that the store refuses or that raises is reported as an exception,
  yet the logger's last hash has moved on to the hash of the event that was not stored: the
  next stored event points to a predecessor that no store holds.
\<close>

theorem refused_write_moves_chain:
  assumes "ab_store ab (snd (create_event env uid now a lg)) (lg_storage lg) = (s', r)" and "r \<noteq> Inr True"
    and "log_event env ab uid now a lg = (lg', res)"
  shows "(\<exists>err. res = Inl err) \<and> lg_storage lg' = s' \<and>
    ai_last_hash (lg_integrity lg') = ae_integrity_hash (snd (create_event env uid now a lg)) \<and>
    ae_previous_hash (snd (create_event env uid2 now2 a2 lg')) = ae_integrity_hash (snd (create_event env uid now a lg))"
  using assms
  by (auto simp: log_event_def create_event_def sign_event_def Let_def split: prod.splits sum.splits if_splits)

definition full_store :: "nat AuditStorageBackend" where
  "full_store = \<lparr>ab_store = (\<lambda>_ s. (s, Inr False)), ab_get_by_id = (\<lambda>_ _. None)\<rparr>"

definition full_logger :: "nat logger" where
  "full_logger = \<lparr>lg_storage = 0, lg_integrity = toy_integrity, lg_service_name = ''s'', lg_environment = ''test''\<rparr>"

theorem refused_write_moves_chain_witness:
  "(\<exists>err. snd (log_event toy_env full_store ''a'' (Datetime 0 None) (snd (snd (toy_log ''a''))) full_logger) = Inl err)"
proof -
  let ?a = "snd (snd (toy_log ''a''))"
  have "ab_store full_store (snd (create_event toy_env ''a'' (Datetime 0 None) ?a full_logger)) (lg_storage full_logger) = (0, Inr False)"
    by (simp add: full_store_def full_logger_def)
  from refused_write_moves_chain [OF this _ prod.collapse [symmetric]] show ?thesis by simp
qed

end
