(* ===== verification/TaskQueue.thy ===== *)
theory TaskQueue
  imports PyBase "HOL-Library.Product_Lexorder"
begin

text \<open>
  \<^verbatim>\<open>services/shared/task_queue.py\<close>: the durable task queue and its workers. The table is a list of
  rows; every method of a worker that touches it is one transaction, so the steps of several
  workers interleave transaction by transaction. Times are microseconds; \<open>now\<close> is the
  database's \<open>NOW()\<close> in the transaction. A handler is known by what it does with a claimed
  task: return or raise.
\<close>

section \<open>The table\<close>

datatype TaskStatus = Pending | Processing | Completed | Failed | Dead

definition task_queue_statuses :: "TaskStatus list" where
  "task_queue_statuses = [Pending, Processing, Completed, Failed, Dead]"

fun status_value :: "TaskStatus \<Rightarrow> string" where
  "status_value Pending = ''pending''"
| "status_value Processing = ''processing''"
| "status_value Completed = ''completed''"
| "status_value Failed = ''failed''"
| "status_value Dead = ''dead''"

record task_row =
  tk_id :: int
  tk_task_type :: string
  tk_payload :: pydict
  tk_tenant_id :: "string option"
  tk_priority :: int
  tk_max_attempts :: int
  tk_status :: TaskStatus
  tk_attempts :: int
  tk_idempotency_key :: "string option"
  tk_scheduled_at :: int
  tk_visibility_timeout :: "int option"
  tk_locked_by :: "string option"
  tk_locked_until :: "int option"
  tk_started_at :: "int option"
  tk_completed_at :: "int option"
  tk_created_at :: int
  tk_last_error :: "string option"

record task_table =
  tt_rows :: "task_row list"
  tt_next_id :: int

definition update_where :: "(task_row \<Rightarrow> bool) \<Rightarrow> (task_row \<Rightarrow> task_row) \<Rightarrow> task_table \<Rightarrow> task_table" where
  "update_where P f q = q\<lparr>tt_rows := map (\<lambda>r. if P r then f r else r) (tt_rows q)\<rparr>"

definition rowcount :: "(task_row \<Rightarrow> bool) \<Rightarrow> task_table \<Rightarrow> nat" where
  "rowcount P q = length (filter P (tt_rows q))"

definition secs :: "int \<Rightarrow> int" where
  "secs n = n * 1000000"

section \<open>Enqueue\<close>

record enqueue_args =
  eq_task_type :: string
  eq_payload :: pydict
  eq_tenant_id :: "string option"
  eq_priority :: int
  eq_max_attempts :: int
  eq_idempotency_key :: "string option"
  eq_scheduled_at :: "int option"
  eq_visibility_timeout :: "int option"

definition new_row :: "int \<Rightarrow> int \<Rightarrow> enqueue_args \<Rightarrow> task_row" where
  "new_row now i a =
     \<lparr>tk_id = i, tk_task_type = eq_task_type a, tk_payload = eq_payload a, tk_tenant_id = eq_tenant_id a,
      tk_priority = eq_priority a, tk_max_attempts = eq_max_attempts a, tk_status = Pending, tk_attempts = 0,
      tk_idempotency_key = eq_idempotency_key a,
      tk_scheduled_at = (case eq_scheduled_at a of None \<Rightarrow> now | Some s \<Rightarrow> s),
      tk_visibility_timeout = eq_visibility_timeout a, tk_locked_by = None, tk_locked_until = None, tk_started_at = None,
      tk_completed_at = None, tk_created_at = now, tk_last_error = None\<rparr>"

definition insert_row :: "int \<Rightarrow> enqueue_args \<Rightarrow> task_table \<Rightarrow> task_table \<times> int" where
  "insert_row now a q =
     (q\<lparr>tt_rows := tt_rows q @ [new_row now (tt_next_id q) a], tt_next_id := tt_next_id q + 1\<rparr>, tt_next_id q)"

text \<open>
  The row of the partial unique index. A refused insert still takes a number from the sequence.
  The payload is what the JSON column returns for it; one that cannot be serialised raises.
\<close>

definition find_key :: "string option \<Rightarrow> string option \<Rightarrow> task_table \<Rightarrow> task_row option" where
  "find_key tenant key q =
     List.find (\<lambda>r. tk_idempotency_key r \<noteq> None \<and> tk_tenant_id r \<noteq> None \<and> tk_tenant_id r = tenant \<and> tk_idempotency_key r = key)
       (tt_rows q)"

definition enqueue_task ::
  "(pydict \<Rightarrow> py_error + pydict) \<Rightarrow> int \<Rightarrow> enqueue_args \<Rightarrow> task_table \<Rightarrow> py_error + task_table \<times> int" where
  "enqueue_task jsonb now a q =
     (if eq_idempotency_key a \<noteq> None \<and> str_or (eq_tenant_id a) [] = [] then
        Inl (ValueError ''tenant_id is required when idempotency_key is provided'')
      else
        and_then (jsonb (eq_payload a)) (\<lambda>payload.
          let a1 = a\<lparr>eq_payload := payload\<rparr>
          in if eq_idempotency_key a = None then Inr (insert_row now a1 q)
             else case find_key (eq_tenant_id a) (eq_idempotency_key a) q of
                    Some r \<Rightarrow> Inr (q\<lparr>tt_next_id := tt_next_id q + 1\<rparr>, tk_id r)
                  | None \<Rightarrow> Inr (insert_row now a1 q)))"

section \<open>Operator helpers\<close>

record queue_summary =
  qs_counts :: "(TaskStatus \<times> nat) list"
  qs_retrying :: nat
  qs_stale_processing :: nat
  qs_oldest_pending_age :: "int option"
  qs_oldest_dead_age :: "int option"

definition oldest_age :: "int \<Rightarrow> task_row list \<Rightarrow> int option" where
  "oldest_age now rows = (case map tk_created_at rows of [] \<Rightarrow> None | c # cs \<Rightarrow> Some (now - fold min cs c))"

definition expired :: "int \<Rightarrow> task_row \<Rightarrow> bool" where
  "expired now r \<longleftrightarrow> (case tk_locked_until r of None \<Rightarrow> False | Some u \<Rightarrow> u < now)"

definition get_task_queue_summary :: "int \<Rightarrow> task_table \<Rightarrow> queue_summary" where
  "get_task_queue_summary now q =
     \<lparr>qs_counts = map (\<lambda>s. (s, rowcount (\<lambda>r. tk_status r = s) q)) task_queue_statuses,
      qs_retrying = rowcount (\<lambda>r. tk_status r = Pending \<and> now < tk_scheduled_at r) q,
      qs_stale_processing = rowcount (\<lambda>r. tk_status r = Processing \<and> expired now r) q,
      qs_oldest_pending_age = oldest_age now (filter (\<lambda>r. tk_status r = Pending \<and> tk_scheduled_at r \<le> now) (tt_rows q)),
      qs_oldest_dead_age = oldest_age now (filter (\<lambda>r. tk_status r = Dead) (tt_rows q))\<rparr>"

record replay_result =
  rr_id :: string
  rr_success :: bool
  rr_error :: "string option"

definition revive :: "int \<Rightarrow> task_row \<Rightarrow> task_row" where
  "revive now r =
     r\<lparr>tk_status := Pending, tk_attempts := 0, tk_last_error := None, tk_locked_by := None, tk_locked_until := None,
       tk_started_at := None, tk_completed_at := None, tk_scheduled_at := now\<rparr>"

definition dead_with_id :: "string \<Rightarrow> task_row \<Rightarrow> bool" where
  "dead_with_id i r \<longleftrightarrow> int_str (tk_id r) = i \<and> tk_status r = Dead"

text \<open>The requested identifiers: those to revive, and the answers for the others.\<close>

definition sort_request :: "task_table \<Rightarrow> string list \<Rightarrow> string list \<times> replay_result list" where
  "sort_request q ids =
     (let status = (\<lambda>i. map_option tk_status (List.find (\<lambda>r. int_str (tk_id r) = i) (tt_rows q)))
      in (filter (\<lambda>i. status i = Some Dead) ids,
          map (\<lambda>i. \<lparr>rr_id = i, rr_success = False,
                 rr_error = Some (case status i of None \<Rightarrow> ''not_found''
                                  | Some s \<Rightarrow> ''status_is_'' @ status_value s @ ''_not_dead'')\<rparr>)
            (filter (\<lambda>i. status i \<noteq> Some Dead) ids)))"

fun replay_targets :: "int \<Rightarrow> string list \<Rightarrow> task_table \<Rightarrow> task_table \<times> replay_result list" where
  "replay_targets now [] q = (q, [])"
| "replay_targets now (i # is) q =
     (let n = rowcount (dead_with_id i) q;
          (q2, rs) = replay_targets now is (update_where (dead_with_id i) (revive now) q)
      in (q2, (if n = 1 then \<lparr>rr_id = i, rr_success = True, rr_error = None\<rparr>
               else \<lparr>rr_id = i, rr_success = False, rr_error = Some ''no_rows_updated_race_condition''\<rparr>) # rs))"

record replay_report =
  rq_replayed :: nat
  rq_failed :: nat
  rq_results :: "replay_result list"

definition replay_dead_tasks ::
  "int \<Rightarrow> string list \<Rightarrow> int \<Rightarrow> task_table \<Rightarrow> py_error + task_table \<times> replay_report" where
  "replay_dead_tasks now ids limit q =
     (if limit < 1 \<or> 1000 < limit then Inl (ValueError ''limit must be between 1 and 1000'')
      else
        let (targets, refused) =
              (if ids \<noteq> [] then sort_request q ids
               else (map (\<lambda>r. int_str (tk_id r))
                       (take (nat limit) (sort_key tk_created_at (filter (\<lambda>r. tk_status r = Dead) (tt_rows q)))), []));
            (q2, done) = replay_targets now targets q;
            results = refused @ done;
            replayed = length (filter rr_success results)
        in Inr (q2, \<lparr>rq_replayed = replayed, rq_failed = length results - replayed, rq_results = results\<rparr>))"

section \<open>The worker\<close>

definition compute_backoff_seconds :: "int \<Rightarrow> int \<Rightarrow> int" where
  "compute_backoff_seconds attempts cap_seconds = min (30 * 2 ^ nat (max 0 attempts)) cap_seconds"

definition default_lock_duration_seconds :: int where
  "default_lock_duration_seconds = 300"

definition foreign_task_defer_seconds :: int where
  "foreign_task_defer_seconds = 1"

record worker =
  wk_id :: string
  wk_lock_duration :: int
  wk_task_types :: "string list"

text \<open>The assignments of both releases.\<close>

definition unlock :: "int \<Rightarrow> task_row \<Rightarrow> task_row" where
  "unlock sched r =
     r\<lparr>tk_status := Pending, tk_locked_by := None, tk_locked_until := None, tk_started_at := None, tk_scheduled_at := sched\<rparr>"

definition stale :: "int \<Rightarrow> task_row \<Rightarrow> bool" where
  "stale now r \<longleftrightarrow> tk_status r = Processing \<and> expired now r"

definition release_stale_locks :: "int \<Rightarrow> task_table \<Rightarrow> task_table" where
  "release_stale_locks now = update_where (stale now) (unlock now)"

definition held_by :: "int \<Rightarrow> string \<Rightarrow> task_row \<Rightarrow> bool" where
  "held_by i w r \<longleftrightarrow> tk_id r = i \<and> tk_status r = Processing \<and> tk_locked_by r = Some w"

definition release_claim :: "int \<Rightarrow> worker \<Rightarrow> int \<Rightarrow> int \<Rightarrow> task_table \<Rightarrow> task_table \<times> bool" where
  "release_claim now w i defer_secs q =
     (update_where (held_by i (wk_id w)) (unlock (now + secs (max 0 defer_secs))) q,
      rowcount (held_by i (wk_id w)) q \<noteq> 0)"

definition eligible :: "int \<Rightarrow> worker \<Rightarrow> task_row \<Rightarrow> bool" where
  "eligible now w r \<longleftrightarrow>
     tk_status r = Pending \<and> tk_scheduled_at r \<le> now \<and>
     (case tk_locked_until r of None \<Rightarrow> True | Some u \<Rightarrow> u \<le> now) \<and>
     (wk_task_types w = [] \<or> tk_task_type r \<in> set (wk_task_types w))"

text \<open>\<open>ORDER BY priority DESC, scheduled_at ASC, created_at ASC\<close>; equal rows in the order of the table.\<close>

definition claim_order :: "task_row \<Rightarrow> int \<times> int \<times> int" where
  "claim_order r = (- tk_priority r, tk_scheduled_at r, tk_created_at r)"

text \<open>\<open>DISTINCT ON (tenant_id)\<close>: the first row of each tenant in that order.\<close>

definition per_tenant :: "task_row list \<Rightarrow> task_row list" where
  "per_tenant rows =
     map (\<lambda>t. arg_min_list claim_order (filter (\<lambda>r. tk_tenant_id r = t) rows)) (remdups (map tk_tenant_id rows))"

definition claim_winner :: "int \<Rightarrow> worker \<Rightarrow> task_table \<Rightarrow> task_row option" where
  "claim_winner now w q =
     (case per_tenant (filter (eligible now w) (tt_rows q)) of
        [] \<Rightarrow> None
      | rs \<Rightarrow> Some (arg_min_list claim_order rs))"

record claimed_task =
  ct_id :: int
  ct_task_type :: string
  ct_payload :: pydict
  ct_attempts :: int
  ct_max_attempts :: int
  ct_tenant_id :: "string option"

definition claimed_of :: "task_row \<Rightarrow> claimed_task" where
  "claimed_of r =
     \<lparr>ct_id = tk_id r, ct_task_type = tk_task_type r, ct_payload = tk_payload r, ct_attempts = tk_attempts r,
      ct_max_attempts = tk_max_attempts r, ct_tenant_id = tk_tenant_id r\<rparr>"

definition lock_row :: "int \<Rightarrow> worker \<Rightarrow> task_row \<Rightarrow> task_row" where
  "lock_row now w r =
     r\<lparr>tk_status := Processing, tk_started_at := Some now, tk_locked_by := Some (wk_id w),
       tk_locked_until := Some (now + secs (case tk_visibility_timeout r of None \<Rightarrow> wk_lock_duration w | Some v \<Rightarrow> v))\<rparr>"

text \<open>\<open>busy\<close> tells the rows other open transactions have locked: \<open>SKIP LOCKED\<close> skips the winner if it is one.\<close>

definition claim_one :: "int \<Rightarrow> worker \<Rightarrow> (int \<Rightarrow> bool) \<Rightarrow> task_table \<Rightarrow> task_table \<times> claimed_task option" where
  "claim_one now w busy q =
     (case claim_winner now w q of
        None \<Rightarrow> (q, None)
      | Some r \<Rightarrow>
          if busy (tk_id r) then (q, None)
          else (update_where (\<lambda>x. tk_id x = tk_id r) (lock_row now w) q, Some (claimed_of r)))"

definition clamp_error :: "string \<Rightarrow> string option" where
  "clamp_error e = (if e = [] then None else Some (take 4000 e))"

definition mark_completed :: "int \<Rightarrow> int \<Rightarrow> task_table \<Rightarrow> task_table" where
  "mark_completed now i =
     update_where (\<lambda>r. tk_id r = i)
       (\<lambda>r. r\<lparr>tk_status := Completed, tk_completed_at := Some now, tk_locked_by := None, tk_locked_until := None,
              tk_last_error := None\<rparr>)"

definition mark_dead :: "int \<Rightarrow> int \<Rightarrow> string \<Rightarrow> int option \<Rightarrow> task_table \<Rightarrow> task_table" where
  "mark_dead now i e attempts =
     update_where (\<lambda>r. tk_id r = i)
       (\<lambda>r. r\<lparr>tk_status := Dead, tk_completed_at := Some now, tk_last_error := clamp_error e, tk_locked_by := None,
              tk_locked_until := None, tk_attempts := (case attempts of None \<Rightarrow> tk_attempts r | Some a \<Rightarrow> a)\<rparr>)"

definition retry_row :: "int \<Rightarrow> int \<Rightarrow> string \<Rightarrow> task_row \<Rightarrow> task_row" where
  "retry_row now new_attempts e r =
     r\<lparr>tk_status := Pending, tk_attempts := new_attempts, tk_last_error := clamp_error e, tk_locked_by := None,
       tk_locked_until := None, tk_scheduled_at := now + secs (compute_backoff_seconds new_attempts 600),
       tk_started_at := None\<rparr>"

definition mark_failed :: "int \<Rightarrow> claimed_task \<Rightarrow> string \<Rightarrow> task_table \<Rightarrow> task_table" where
  "mark_failed now task e =
     (let new_attempts = ct_attempts task + 1
      in if ct_max_attempts task \<le> new_attempts then mark_dead now (ct_id task) e (Some new_attempts)
         else update_where (\<lambda>r. tk_id r = ct_id task) (retry_row now new_attempts e))"

text \<open>
  The registry gives for a task type the outcome of its handler on a task; \<open>str(exc)\<close> of what it
  raises is the error text.
\<close>

type_synonym handlers = "string \<Rightarrow> (claimed_task \<Rightarrow> string + unit) option"

definition register_task_handler :: "string \<Rightarrow> (claimed_task \<Rightarrow> string + unit) \<Rightarrow> handlers \<Rightarrow> handlers" where
  "register_task_handler task_type handler hs = hs(task_type \<mapsto> handler)"

definition clear_task_handlers :: "handlers \<Rightarrow> handlers" where
  "clear_task_handlers hs = (\<lambda>_. None)"

definition dispatch :: "handlers \<Rightarrow> int \<Rightarrow> worker \<Rightarrow> claimed_task \<Rightarrow> task_table \<Rightarrow> task_table \<times> bool" where
  "dispatch hs now w task q =
     (case hs (ct_task_type task) of
        None \<Rightarrow> (fst (release_claim now w (ct_id task) foreign_task_defer_seconds q), False)
      | Some handler \<Rightarrow>
          (case handler task of
             Inl e \<Rightarrow> (mark_failed now task e q, True)
           | Inr _ \<Rightarrow> (mark_completed now (ct_id task) q, True)))"

text \<open>The handler ends at the later time \<open>fin\<close>.\<close>

definition run_once :: "handlers \<Rightarrow> int \<Rightarrow> int \<Rightarrow> worker \<Rightarrow> (int \<Rightarrow> bool) \<Rightarrow> task_table \<Rightarrow> task_table \<times> int option" where
  "run_once hs now fin w busy q =
     (case claim_one now w busy (release_stale_locks now q) of
        (q1, None) \<Rightarrow> (q1, None)
      | (q1, Some task) \<Rightarrow>
          (case dispatch hs fin w task q1 of (q2, mine) \<Rightarrow> (q2, if mine then Some (ct_id task) else None)))"

section \<open>Claiming\<close>

lemma per_tenant_min:
  assumes "x \<in> set rows"
  shows "\<exists>y \<in> set (per_tenant rows). claim_order y \<le> claim_order x"
proof -
  let ?g = "filter (\<lambda>r. tk_tenant_id r = tk_tenant_id x) rows"
  have "x \<in> set ?g" using assms by simp
  then have ne: "?g \<noteq> []" by (metis empty_iff empty_set)
  have "claim_order (arg_min_list claim_order ?g) \<le> claim_order x"
    unfolding f_arg_min_list_f [OF ne] using \<open>x \<in> set ?g\<close> by (intro Min_le) auto
  moreover have "arg_min_list claim_order ?g \<in> set (per_tenant rows)" using assms by (auto simp: per_tenant_def)
  ultimately show ?thesis by blast
qed

lemma per_tenant_subset: "set (per_tenant rows) \<subseteq> set rows"
proof
  fix y assume "y \<in> set (per_tenant rows)"
  then obtain x where "x \<in> set rows" and y: "y = arg_min_list claim_order (filter (\<lambda>r. tk_tenant_id r = tk_tenant_id x) rows)"
    by (auto simp: per_tenant_def)
  then have "filter (\<lambda>r. tk_tenant_id r = tk_tenant_id x) rows \<noteq> []" by (auto simp: filter_empty_conv)
  from arg_min_list_in [OF this, of claim_order] show "y \<in> set rows" by (simp add: y)
qed

lemma claim_winner_Some:
  assumes "claim_winner now w q = Some r"
  shows "r \<in> set (tt_rows q) \<and> eligible now w r \<and>
    (\<forall>x \<in> set (tt_rows q). eligible now w x \<longrightarrow> claim_order r \<le> claim_order x)"
proof -
  let ?es = "filter (eligible now w) (tt_rows q)"
  have ne: "per_tenant ?es \<noteq> []" and r: "r = arg_min_list claim_order (per_tenant ?es)"
    using assms by (auto simp: claim_winner_def split: list.splits)
  have "r \<in> set ?es" using arg_min_list_in [OF ne, of claim_order] per_tenant_subset [of ?es] by (auto simp: r)
  moreover have "claim_order r \<le> claim_order y" if "y \<in> set (per_tenant ?es)" for y
    using that by (simp add: r f_arg_min_list_f [OF ne] Min_le)
  then have "claim_order r \<le> claim_order x" if "x \<in> set ?es" for x
    using per_tenant_min [OF that] by (meson order_trans)
  ultimately show ?thesis by auto
qed

lemma claim_winner_None: "claim_winner now w q = None \<longleftrightarrow> (\<forall>x \<in> set (tt_rows q). \<not> eligible now w x)"
proof -
  have "per_tenant es = [] \<longleftrightarrow> es = []" for es by (simp add: per_tenant_def)
  moreover have "claim_winner now w q = None \<longleftrightarrow> per_tenant (filter (eligible now w) (tt_rows q)) = []"
    by (cases "per_tenant (filter (eligible now w) (tt_rows q))") (simp_all add: claim_winner_def)
  ultimately show ?thesis by (simp add: filter_empty_conv)
qed

text \<open>
  The per-tenant stage of the claim query has no effect: the task that is
  claimed is always one that comes first in the single global order (priority, then time), over
  the eligible tasks of all tenants. A tenant is not served while another one has an eligible
  task before its own; there is no fairness among tenants.
\<close>

theorem claim_is_global_order:
  "map_option claim_order (claim_winner now w q) =
     (case filter (eligible now w) (tt_rows q) of [] \<Rightarrow> None | rs \<Rightarrow> Some (Min (claim_order ` set rs)))"
proof (cases "claim_winner now w q")
  case None
  then have "filter (eligible now w) (tt_rows q) = []" by (simp add: claim_winner_None filter_empty_conv)
  with None show ?thesis by simp
next
  case (Some r)
  note c = claim_winner_Some [OF Some]
  have "Min (claim_order ` set (filter (eligible now w) (tt_rows q))) = claim_order r"
    using c by (intro Min_eqI) auto
  moreover have "filter (eligible now w) (tt_rows q) \<noteq> []" using c by (auto simp: filter_empty_conv)
  ultimately show ?thesis using Some by (cases "filter (eligible now w) (tt_rows q)") simp_all
qed

section \<open>Interleaved workers\<close>

record queue_state =
  st_table :: task_table
  st_running :: "(worker \<times> claimed_task) list"
  st_now :: int

text \<open>
  One transaction of anyone: time passes, a task is enqueued, expired locks are released, a worker
  claims a task, a worker that runs one finishes it or crashes, an operator revives dead tasks.
\<close>

inductive queue_step :: "handlers \<Rightarrow> queue_state \<Rightarrow> queue_state \<Rightarrow> bool" for hs where
  step_tick: "st_now s \<le> t \<Longrightarrow> queue_step hs s (s\<lparr>st_now := t\<rparr>)"
| step_enqueue: "enqueue_task jsonb (st_now s) a (st_table s) = Inr (q, i) \<Longrightarrow> queue_step hs s (s\<lparr>st_table := q\<rparr>)"
| step_release: "queue_step hs s (s\<lparr>st_table := release_stale_locks (st_now s) (st_table s)\<rparr>)"
| step_claim: "claim_one (st_now s) w busy (st_table s) = (q, Some task) \<Longrightarrow>
    queue_step hs s (s\<lparr>st_table := q, st_running := (w, task) # st_running s\<rparr>)"
| step_finish: "(w, task) \<in> set (st_running s) \<Longrightarrow> dispatch hs (st_now s) w task (st_table s) = (q, b) \<Longrightarrow>
    queue_step hs s (s\<lparr>st_table := q, st_running := remove1 (w, task) (st_running s)\<rparr>)"
| step_crash: "queue_step hs s (s\<lparr>st_running := remove1 wt (st_running s)\<rparr>)"
| step_replay: "replay_dead_tasks (st_now s) ids limit (st_table s) = Inr (q, rep) \<Longrightarrow> queue_step hs s (s\<lparr>st_table := q\<rparr>)"

inductive_cases queue_stepE: "queue_step hs s s'"

text \<open>
  A row is locked exactly while it is being processed; the attempts stay below the limit while it
  waits or runs, and never exceed it; the status \<open>failed\<close> does not occur.
\<close>

definition row_ok :: "task_row \<Rightarrow> bool" where
  "row_ok r \<longleftrightarrow>
     (tk_status r = Processing \<longleftrightarrow> tk_locked_by r \<noteq> None) \<and> (tk_locked_by r = None \<longleftrightarrow> tk_locked_until r = None) \<and>
     tk_status r \<noteq> Failed \<and> 0 \<le> tk_attempts r \<and> tk_attempts r \<le> max 1 (tk_max_attempts r) \<and>
     (tk_status r = Pending \<or> tk_status r = Processing \<longrightarrow> tk_attempts r < max 1 (tk_max_attempts r))"

definition task_ok :: "task_table \<Rightarrow> claimed_task \<Rightarrow> bool" where
  "task_ok q task \<longleftrightarrow>
     0 \<le> ct_attempts task \<and> ct_attempts task < max 1 (ct_max_attempts task) \<and>
     (\<forall>r \<in> set (tt_rows q). tk_id r = ct_id task \<longrightarrow> tk_max_attempts r = ct_max_attempts task)"

definition key_of :: "task_row \<Rightarrow> string option \<times> string option" where
  "key_of r = (tk_tenant_id r, tk_idempotency_key r)"

definition keyed :: "task_row \<Rightarrow> bool" where
  "keyed r \<longleftrightarrow> tk_idempotency_key r \<noteq> None \<and> tk_tenant_id r \<noteq> None"

definition table_ok :: "task_table \<Rightarrow> bool" where
  "table_ok q \<longleftrightarrow> distinct (map tk_id (tt_rows q)) \<and> (\<forall>r \<in> set (tt_rows q). tk_id r < tt_next_id q \<and> row_ok r) \<and>
     distinct (map key_of (filter keyed (tt_rows q)))"

definition queue_ok :: "queue_state \<Rightarrow> bool" where
  "queue_ok s \<longleftrightarrow> table_ok (st_table s) \<and> (\<forall>(w, task) \<in> set (st_running s). task_ok (st_table s) task \<and> ct_id task < tt_next_id (st_table s))"

text \<open>What no update touches.\<close>

definition identity_of :: "task_row \<Rightarrow> int \<times> string \<times> pydict \<times> string option \<times> string option \<times> int" where
  "identity_of r = (tk_id r, tk_task_type r, tk_payload r, tk_tenant_id r, tk_idempotency_key r, tk_max_attempts r)"

lemma update_where_identity:
  "(\<And>r. identity_of (f r) = identity_of r) \<Longrightarrow> map identity_of (tt_rows (update_where P f q)) = map identity_of (tt_rows q)"
  by (simp add: update_where_def)

lemma identity_table:
  assumes "map identity_of (tt_rows q') = map identity_of (tt_rows q)"
  shows "map tk_id (tt_rows q') = map tk_id (tt_rows q)" and "map key_of (filter keyed (tt_rows q')) = map key_of (filter keyed (tt_rows q))"
    and "task_ok q' t \<longleftrightarrow> task_ok q t"
proof -
  have "map tk_id rs = map fst (map identity_of rs)" for rs by (simp add: identity_of_def)
  then show "map tk_id (tt_rows q') = map tk_id (tt_rows q)" by (simp only: assms)
  have "map key_of (filter keyed rs) = map (\<lambda>(a, b, c, t, k, m). (t, k)) (filter (\<lambda>(a, b, c, t, k, m). k \<noteq> None \<and> t \<noteq> None) (map identity_of rs))" for rs
    by (induction rs) (auto simp: identity_of_def keyed_def key_of_def)
  then show "map key_of (filter keyed (tt_rows q')) = map key_of (filter keyed (tt_rows q))" by (simp only: assms)
  have "(\<forall>r \<in> set rs. tk_id r = i \<longrightarrow> tk_max_attempts r = m) \<longleftrightarrow> (\<forall>(a, b, c, t, k, n) \<in> set (map identity_of rs). a = i \<longrightarrow> n = m)" for rs i m
    by (auto simp: identity_of_def)
  then show "task_ok q' t \<longleftrightarrow> task_ok q t" by (simp only: task_ok_def assms)
qed

lemma table_ok_update:
  assumes "table_ok q" and "map identity_of (tt_rows q') = map identity_of (tt_rows q)" and "tt_next_id q' = tt_next_id q"
    and "\<forall>r \<in> set (tt_rows q'). row_ok r"
  shows "table_ok q'"
proof -
  note i = identity_table [OF assms(2)]
  have "tk_id ` set (tt_rows q') = tk_id ` set (tt_rows q)" using i(1) by (metis set_map)
  then have "\<forall>r \<in> set (tt_rows q'). tk_id r < tt_next_id q'"
    using assms(1,3) by (metis (no_types, lifting) image_iff table_ok_def)
  with assms(4) have "\<forall>r \<in> set (tt_rows q'). tk_id r < tt_next_id q' \<and> row_ok r" by blast
  with assms(1) i(1,2) show ?thesis unfolding table_ok_def by (simp only: simp_thms)
qed

lemma update_where_ok:
  assumes "table_ok q" and "\<And>r. identity_of (f r) = identity_of r"
    and "\<And>r. r \<in> set (tt_rows q) \<Longrightarrow> P r \<Longrightarrow> row_ok r \<Longrightarrow> row_ok (f r)"
  shows "table_ok (update_where P f q) \<and> map identity_of (tt_rows (update_where P f q)) = map identity_of (tt_rows q) \<and>
    tt_next_id (update_where P f q) = tt_next_id q"
proof -
  have n: "tt_next_id (update_where P f q) = tt_next_id q" by (simp add: update_where_def)
  have "\<forall>r \<in> set (tt_rows (update_where P f q)). row_ok r"
    using assms(1,3) by (auto simp: update_where_def table_ok_def)
  with table_ok_update [OF assms(1) update_where_identity [OF assms(2)] n] update_where_identity [OF assms(2)] n
  show ?thesis by blast
qed

text \<open>An operation that keeps the table well-formed and every row's identity.\<close>

definition keeps :: "task_table \<Rightarrow> task_table \<Rightarrow> bool" where
  "keeps q q' \<longleftrightarrow> table_ok q' \<and> map identity_of (tt_rows q') = map identity_of (tt_rows q) \<and> tt_next_id q' = tt_next_id q"

lemmas row_simps = identity_of_def row_ok_def

lemma release_stale_keeps: "table_ok q \<Longrightarrow> keeps q (release_stale_locks now q)"
  unfolding keeps_def release_stale_locks_def by (rule update_where_ok) (auto simp: row_simps unlock_def stale_def)

lemma release_claim_keeps: "table_ok q \<Longrightarrow> keeps q (fst (release_claim now w i d q))"
  unfolding keeps_def release_claim_def fst_conv by (rule update_where_ok) (auto simp: row_simps held_by_def unlock_def)

lemma mark_completed_keeps: "table_ok q \<Longrightarrow> keeps q (mark_completed now i q)"
  unfolding keeps_def mark_completed_def by (rule update_where_ok) (auto simp: row_simps)

lemma mark_failed_keeps:
  assumes "table_ok q" and "task_ok q task"
  shows "keeps q (mark_failed now task e q)"
proof (cases "ct_max_attempts task \<le> ct_attempts task + 1")
  case True
  then show ?thesis
    unfolding keeps_def mark_failed_def mark_dead_def Let_def if_P [OF True] using assms(1)
    by (intro update_where_ok) (use assms(2) in \<open>auto simp: row_simps task_ok_def\<close>)
next
  case False
  then show ?thesis
    unfolding keeps_def mark_failed_def Let_def if_not_P [OF False] using assms(1)
    by (intro update_where_ok) (use assms(2) in \<open>auto simp: row_simps task_ok_def retry_row_def\<close>)
qed

lemma dispatch_keeps:
  assumes "table_ok q" and "task_ok q task" and "dispatch hs now w task q = (q', b)"
  shows "keeps q q'"
  using assms(3) release_claim_keeps [OF assms(1)] mark_failed_keeps [OF assms(1,2)] mark_completed_keeps [OF assms(1)]
  by (auto simp: dispatch_def split: option.splits sum.splits)

lemma keeps_trans: "keeps q q1 \<Longrightarrow> keeps q1 q2 \<Longrightarrow> keeps q q2"
  by (simp add: keeps_def)

lemma replay_targets_keeps: "table_ok q \<Longrightarrow> replay_targets now is q = (q', rs) \<Longrightarrow> keeps q q'"
proof (induction "is" arbitrary: q rs)
  case Nil
  then show ?case by (simp add: keeps_def)
next
  case (Cons i "is")
  let ?q = "update_where (dead_with_id i) (revive now) q"
  have k: "keeps q ?q"
    unfolding keeps_def using Cons.prems(1) by (rule update_where_ok) (auto simp: row_simps revive_def)
  obtain rs' where "replay_targets now is ?q = (q', rs')"
    using Cons.prems(2) by (auto simp: Let_def split: prod.splits)
  with Cons.IH k show ?case using keeps_trans by (auto simp: keeps_def)
qed

lemma claim_one_keeps:
  assumes "table_ok q" and "claim_one now w busy q = (q', Some task)"
  shows "keeps q q' \<and> task_ok q task \<and> ct_id task < tt_next_id q"
proof -
  obtain r where r: "claim_winner now w q = Some r" "task = claimed_of r"
      "q' = update_where (\<lambda>x. tk_id x = tk_id r) (lock_row now w) q"
    using assms(2) by (auto simp: claim_one_def split: option.splits if_splits)
  note c = claim_winner_Some [OF r(1)]
  have same: "x = r" if "x \<in> set (tt_rows q)" "tk_id x = tk_id r" for x
    using assms(1) that c by (auto simp: table_ok_def distinct_map dest: inj_onD)
  have "row_ok (lock_row now w r)" if "row_ok r"
    using that c by (auto simp: row_simps lock_row_def eligible_def)
  then have "keeps q q'"
    unfolding keeps_def r(3) using assms(1)
    by (intro update_where_ok) (use same in \<open>auto simp: identity_of_def lock_row_def\<close>)
  moreover have "row_ok r" "tk_id r < tt_next_id q" using c assms(1) by (auto simp: table_ok_def)
  ultimately show ?thesis
    using same c by (auto simp: r(2) task_ok_def claimed_of_def row_ok_def eligible_def)
qed

lemma find_key_None:
  "find_key t k q = None \<Longrightarrow> t \<noteq> None \<Longrightarrow> k \<noteq> None \<Longrightarrow> (t, k) \<notin> key_of ` set (filter keyed (tt_rows q))"
  by (auto simp: find_key_def find_None_iff keyed_def key_of_def)

lemma insert_row_ok:
  assumes "table_ok q" and "insert_row now a q = (q', i)"
    and "eq_idempotency_key a = None \<or> find_key (eq_tenant_id a) (eq_idempotency_key a) q = None"
  shows "table_ok q'"
proof -
  have "keyed (new_row now (tt_next_id q) a) \<Longrightarrow> key_of (new_row now (tt_next_id q) a) \<notin> key_of ` set (filter keyed (tt_rows q))"
    using assms(3) find_key_None [of "eq_tenant_id a" "eq_idempotency_key a" q] by (auto simp: keyed_def key_of_def new_row_def)
  moreover have "row_ok (new_row now (tt_next_id q) a)" by (simp add: row_ok_def new_row_def max_def)
  moreover have "tk_id (new_row now (tt_next_id q) a) = tt_next_id q" by (simp add: new_row_def)
  ultimately show ?thesis
    using assms(1,2) by (force simp: insert_row_def table_ok_def)
qed

text \<open>Enqueueing keeps the rows there are, and adds at most one at the end.\<close>

lemma enqueue_ok:
  assumes "table_ok q" and "enqueue_task jsonb now a q = Inr (q', i)"
  shows "table_ok q' \<and> tt_next_id q \<le> tt_next_id q' \<and>
    (tt_rows q' = tt_rows q \<or> (\<exists>r. tt_rows q' = tt_rows q @ [r] \<and> tk_id r = tt_next_id q))"
proof -
  obtain payload where p: "jsonb (eq_payload a) = Inr payload" "eq_idempotency_key a \<noteq> None \<longrightarrow> str_or (eq_tenant_id a) [] \<noteq> []"
    using assms(2) by (auto simp: enqueue_task_def and_then_eq_Inr_iff split: if_splits)
  let ?a = "a\<lparr>eq_payload := payload\<rparr>"
  consider (new) "insert_row now ?a q = (q', i)" "eq_idempotency_key a = None \<or> find_key (eq_tenant_id a) (eq_idempotency_key a) q = None"
    | (old) "q' = q\<lparr>tt_next_id := tt_next_id q + 1\<rparr>"
    using assms(2) p by (auto simp: enqueue_task_def Let_def split: if_splits option.splits)
  then show ?thesis
  proof cases
    case new
    then show ?thesis using insert_row_ok [OF assms(1) new(1)] by (auto simp: insert_row_def new_row_def)
  next
    case old
    then show ?thesis using assms(1) by (force simp: table_ok_def)
  qed
qed

lemma keeps_task_ok: "keeps q q' \<Longrightarrow> task_ok q' t = task_ok q t"
  unfolding keeps_def using identity_table(3) by blast

lemma queue_ok_keeps:
  assumes "queue_ok s" and "keeps (st_table s) q" and "set run \<subseteq> set (st_running s)"
  shows "queue_ok (s\<lparr>st_table := q, st_running := run\<rparr>)"
  using assms keeps_task_ok [OF assms(2)] by (auto simp: queue_ok_def keeps_def)

lemma queue_step_ok:
  assumes "queue_step hs s s'" and "queue_ok s"
  shows "queue_ok s'"
  using assms(1)
proof (cases rule: queue_step.cases)
  case (step_tick t)
  then show ?thesis using assms(2) by (simp add: queue_ok_def)
next
  case (step_enqueue jsonb a q i)
  note e = enqueue_ok [OF _ step_enqueue(2)]
  have "task_ok q t" if "task_ok (st_table s) t" "ct_id t < tt_next_id (st_table s)" for t
    using that e assms(2) by (auto simp: queue_ok_def task_ok_def)
  with e assms(2) step_enqueue(1) show ?thesis by (fastforce simp: queue_ok_def)
next
  case step_release
  have "queue_ok (s\<lparr>st_table := release_stale_locks (st_now s) (st_table s), st_running := st_running s\<rparr>)"
    using queue_ok_keeps [OF assms(2) release_stale_keeps, of "st_running s" "st_now s"] assms(2) by (simp add: queue_ok_def)
  then show ?thesis using step_release by simp
next
  case (step_claim w busy q task)
  have c: "keeps (st_table s) q" "task_ok (st_table s) task" "ct_id task < tt_next_id (st_table s)"
    using claim_one_keeps [OF _ step_claim(2)] assms(2) by (auto simp: queue_ok_def)
  have "queue_ok (s\<lparr>st_table := q, st_running := st_running s\<rparr>)" by (rule queue_ok_keeps [OF assms(2) c(1) subset_refl])
  then show ?thesis
    using c keeps_task_ok [OF c(1)] by (auto simp: step_claim(1) queue_ok_def keeps_def)
next
  case (step_finish w task q b)
  have "keeps (st_table s) q"
    using dispatch_keeps [OF _ _ step_finish(3)] assms(2) step_finish(2) by (auto simp: queue_ok_def)
  then show ?thesis
    unfolding step_finish(1) by (intro queue_ok_keeps [OF assms(2)] set_remove1_subset)
next
  case (step_crash wt)
  then show ?thesis
    using assms(2) set_remove1_subset [of wt "st_running s"] by (auto simp: queue_ok_def)
next
  case (step_replay ids limit q rep)
  obtain targets rs where "replay_targets (st_now s) targets (st_table s) = (q, rs)"
    using step_replay(2) by (auto simp: replay_dead_tasks_def Let_def split: if_splits prod.splits)
  then have "keeps (st_table s) q" using replay_targets_keeps assms(2) by (auto simp: queue_ok_def)
  from queue_ok_keeps [OF assms(2) this subset_refl] show ?thesis by (simp add: step_replay(1))
qed

text \<open>
  Claim C27 (invariant). However enqueueing, several workers, crashes, expired locks and replays
  interleave, in every reachable state a task is locked exactly while it is being processed,
  its attempts never exceed its limit (\<open>max_attempts\<close>, or one when that is less) and stay below it while the task is still to be run, no two
  tasks share an identifier or a tenant's idempotency key, and no task has the status "failed".
\<close>

theorem reachable_queue_ok:
  assumes "(queue_step hs)\<^sup>*\<^sup>* s s'" and "queue_ok s"
  shows "queue_ok s'"
  using assms by (induction rule: rtranclp_induct) (auto intro: queue_step_ok)

definition toy_task :: task_row where
  "toy_task = new_row 0 7 \<lparr>eq_task_type = ''email'', eq_payload = [], eq_tenant_id = Some ''t1'', eq_priority = 0,
     eq_max_attempts = 3, eq_idempotency_key = None, eq_scheduled_at = None, eq_visibility_timeout = None\<rparr>"

definition toy_table :: task_table where
  "toy_table = \<lparr>tt_rows = [toy_task], tt_next_id = 8\<rparr>"

definition toy_worker :: "string \<Rightarrow> worker" where
  "toy_worker w = \<lparr>wk_id = w, wk_lock_duration = default_lock_duration_seconds, wk_task_types = []\<rparr>"

lemma toy_table_ok: "table_ok toy_table"
  by (simp add: table_ok_def toy_table_def toy_task_def new_row_def row_ok_def keyed_def)

theorem reachable_queue_ok_witness:
  "queue_ok \<lparr>st_table = fst (claim_one 0 (toy_worker ''A'') (\<lambda>_. False) toy_table),
     st_running = [(toy_worker ''A'', claimed_of toy_task)], st_now = 0\<rparr>"
proof -
  let ?s = "\<lparr>st_table = toy_table, st_running = [], st_now = 0\<rparr>"
  have w: "claim_winner 0 (toy_worker ''A'') toy_table = Some toy_task" by code_simp
  have "claim_one (st_now ?s) (toy_worker ''A'') (\<lambda>_. False) (st_table ?s) =
      (fst (claim_one 0 (toy_worker ''A'') (\<lambda>_. False) toy_table), Some (claimed_of toy_task))"
    by (simp add: claim_one_def w)
  from step_claim [OF this, of "\<lambda>_. None"]
  have "(queue_step (\<lambda>_. None))\<^sup>*\<^sup>* ?s (?s\<lparr>st_table := fst (claim_one 0 (toy_worker ''A'') (\<lambda>_. False) toy_table),
      st_running := (toy_worker ''A'', claimed_of toy_task) # st_running ?s\<rparr>)"
    by (rule r_into_rtranclp)
  moreover have "queue_ok ?s" using toy_table_ok by (simp add: queue_ok_def)
  ultimately show ?thesis using reachable_queue_ok by fastforce
qed

section \<open>Durability and idempotency\<close>

lemma queue_step_identities:
  assumes "queue_step hs s s'" and "queue_ok s"
  shows "prefix (map identity_of (tt_rows (st_table s))) (map identity_of (tt_rows (st_table s')))"
proof -
  have ok: "table_ok (st_table s)" using assms(2) by (simp add: queue_ok_def)
  have k: "keeps (st_table s) q \<Longrightarrow> prefix (map identity_of (tt_rows (st_table s))) (map identity_of (tt_rows q))" for q
    by (simp add: keeps_def)
  show ?thesis using assms(1)
  proof (cases rule: queue_step.cases)
    case (step_enqueue jsonb a q i)
    then show ?thesis using enqueue_ok [OF ok step_enqueue(2)] by auto
  next
    case step_release
    then show ?thesis using k release_stale_keeps [OF ok] by simp
  next
    case (step_claim w busy q task)
    then show ?thesis using k claim_one_keeps [OF ok step_claim(2)] by simp
  next
    case (step_finish w task q b)
    then show ?thesis using k dispatch_keeps [OF ok _ step_finish(3)] assms(2) by (auto simp: queue_ok_def)
  next
    case (step_replay ids limit q rep)
    obtain targets rs where "replay_targets (st_now s) targets (st_table s) = (q, rs)"
      using step_replay(2) by (auto simp: replay_dead_tasks_def Let_def split: if_splits prod.splits)
    then show ?thesis using k replay_targets_keeps [OF ok] step_replay(1) by auto
  qed simp_all
qed

text \<open>
  No task is ever lost: a task that is in the queue in some reachable state is
  still there in every later one, with the same identifier, type, payload, tenant, key and
  attempt limit, whatever workers, crashes and operators do in between.
\<close>

theorem no_task_lost:
  assumes "(queue_step hs)\<^sup>*\<^sup>* s s'" and "queue_ok s" and "r \<in> set (tt_rows (st_table s))"
  shows "\<exists>r' \<in> set (tt_rows (st_table s')). identity_of r' = identity_of r"
proof -
  have "prefix (map identity_of (tt_rows (st_table s))) (map identity_of (tt_rows (st_table s'))) \<and> queue_ok s'"
    using assms(1,2)
  proof (induction rule: rtranclp_induct)
    case (step y z)
    then show ?case using queue_step_identities [of hs y z] queue_step_ok [of hs y z] by (auto intro: prefix_order.trans)
  qed simp
  then obtain zs where "map identity_of (tt_rows (st_table s')) = map identity_of (tt_rows (st_table s)) @ zs"
    by (auto elim: prefixE)
  from arg_cong [OF this, of set] have "identity_of r \<in> identity_of ` set (tt_rows (st_table s'))"
    using assms(3) by simp
  then obtain r' where "r' \<in> set (tt_rows (st_table s'))" "identity_of r = identity_of r'" by blast
  then show ?thesis by (intro bexI [of _ r']) simp_all
qed

theorem no_task_lost_witness:
  "\<exists>r' \<in> set (tt_rows (release_stale_locks 0 toy_table)). identity_of r' = identity_of toy_task"
proof -
  let ?s = "\<lparr>st_table = toy_table, st_running = [], st_now = 0\<rparr>"
  have "(queue_step (\<lambda>_. None))\<^sup>*\<^sup>* ?s (?s\<lparr>st_table := release_stale_locks 0 toy_table\<rparr>)"
    using step_release [of "\<lambda>_. None" ?s] by (simp add: r_into_rtranclp)
  moreover have "queue_ok ?s" using toy_table_ok by (simp add: queue_ok_def)
  ultimately show ?thesis using no_task_lost [of "\<lambda>_. None" ?s _ toy_task] by (fastforce simp: toy_table_def)
qed

text \<open>
  Enqueueing under a key is idempotent: a second enqueue of any task with the
  same tenant and key, at any later time, answers with the identifier of the first and adds no
  task.
\<close>

theorem enqueue_idempotent:
  assumes "enqueue_task jsonb now a q = Inr (q1, i)" and "eq_idempotency_key a \<noteq> None" and "table_ok q"
    and "eq_tenant_id b = eq_tenant_id a" and "eq_idempotency_key b = eq_idempotency_key a"
    and "jsonb (eq_payload b) = Inr payload"
  shows "\<exists>q2. enqueue_task jsonb now2 b q1 = Inr (q2, i) \<and> tt_rows q2 = tt_rows q1"
proof -
  have ten: "str_or (eq_tenant_id a) [] \<noteq> []" "eq_tenant_id a \<noteq> None"
    using assms(1,2) by (auto simp: enqueue_task_def str_or_def split: if_splits option.splits)
  have "\<exists>r. find_key (eq_tenant_id a) (eq_idempotency_key a) q1 = Some r \<and> tk_id r = i"
  proof (cases "find_key (eq_tenant_id a) (eq_idempotency_key a) q")
    case (Some r)
    then show ?thesis using assms(1,2) ten
      by (auto simp: enqueue_task_def and_then_eq_Inr_iff Let_def find_key_def split: if_splits)
  next
    case None
    have snoc: "List.find P (xs @ [x]) = (case List.find P xs of None \<Rightarrow> if P x then Some x else None | Some y \<Rightarrow> Some y)"
      for P :: "task_row \<Rightarrow> bool" and xs x by (induction xs) auto
    show ?thesis using assms(1,2) ten None
      by (auto simp: enqueue_task_def and_then_eq_Inr_iff Let_def insert_row_def find_key_def snoc new_row_def split: if_splits)
  qed
  then show ?thesis using assms(2,4,5,6) ten by (auto simp: enqueue_task_def Let_def)
qed

definition keyed_args :: enqueue_args where
  "keyed_args = \<lparr>eq_task_type = ''email'', eq_payload = [], eq_tenant_id = Some ''t1'', eq_priority = 0, eq_max_attempts = 3,
     eq_idempotency_key = Some ''k'', eq_scheduled_at = None, eq_visibility_timeout = None\<rparr>"

theorem enqueue_idempotent_witness:
  "\<exists>q1 q2. enqueue_task Inr 5 keyed_args toy_table = Inr (q1, 8) \<and>
     enqueue_task Inr 6 (keyed_args\<lparr>eq_priority := 3\<rparr>) q1 = Inr (q2, 8) \<and> tt_rows q2 = tt_rows q1"
proof -
  obtain q1 where q1: "enqueue_task Inr 5 keyed_args toy_table = Inr (q1, 8)"
    by (simp add: enqueue_task_def keyed_args_def str_or_def toy_table_def find_key_def toy_task_def new_row_def insert_row_def)
  have "\<exists>q2. enqueue_task Inr 6 (keyed_args\<lparr>eq_priority := 3\<rparr>) q1 = Inr (q2, 8) \<and> tt_rows q2 = tt_rows q1"
    by (rule enqueue_idempotent [OF q1 _ toy_table_ok]) (simp_all add: keyed_args_def)
  with q1 show ?thesis by blast
qed

section \<open>Retries\<close>

text \<open>
  The delay before a retry lies between 30 seconds and the cap and does not
  shrink with further failures. The first retry waits 60 seconds, not the 30 the function's
  description promises, because the caller counts the failure before asking.
\<close>

theorem backoff_bounds:
  assumes "30 \<le> cap"
  shows "30 \<le> compute_backoff_seconds n cap \<and> compute_backoff_seconds n cap \<le> cap \<and>
    (n \<le> m \<longrightarrow> compute_backoff_seconds n cap \<le> compute_backoff_seconds m cap) \<and>
    compute_backoff_seconds 0 600 = 30 \<and> compute_backoff_seconds (0 + 1) 600 = 60"
proof -
  have "(1 :: int) \<le> 2 ^ k" for k by simp
  then have "30 \<le> compute_backoff_seconds n cap" using assms by (simp add: compute_backoff_seconds_def)
  moreover have "compute_backoff_seconds n cap \<le> compute_backoff_seconds m cap" if "n \<le> m"
    unfolding compute_backoff_seconds_def using that
    by (intro min.mono mult_left_mono power_increasing) auto
  ultimately show ?thesis by (simp add: compute_backoff_seconds_def)
qed

theorem backoff_bounds_witness:
  "30 \<le> compute_backoff_seconds 9 600 \<and> compute_backoff_seconds 9 600 \<le> 600"
  using backoff_bounds [of 600 9] by simp

lemma update_where_mem: "x \<in> set (tt_rows q) \<Longrightarrow> P x \<Longrightarrow> f x \<in> set (tt_rows (update_where P f q))"
  by (auto simp: update_where_def)

text \<open>
  A crash costs no attempt: claiming a task, crashing and having the lock expire
  leaves every attempt counter as it was and makes the task eligible again, so a task that
  kills its worker is run again without end and is never set aside.
\<close>

theorem crash_costs_no_attempt:
  assumes "claim_one now w busy q = (q1, Some task)" and "table_ok q"
    and "\<forall>r \<in> set (tt_rows q). now + secs (case tk_visibility_timeout r of None \<Rightarrow> wk_lock_duration w | Some v \<Rightarrow> v) < later" and "now \<le> later"
  shows "map tk_attempts (tt_rows (release_stale_locks later q1)) = map tk_attempts (tt_rows q) \<and>
    (\<exists>r \<in> set (tt_rows (release_stale_locks later q1)). tk_id r = ct_id task \<and> eligible later w r)"
proof -
  obtain r where r: "claim_winner now w q = Some r" "task = claimed_of r"
      "q1 = update_where (\<lambda>x. tk_id x = tk_id r) (lock_row now w) q"
    using assms(1) by (auto simp: claim_one_def split: option.splits if_splits)
  note c = claim_winner_Some [OF r(1)]
  have "map tk_attempts (tt_rows (release_stale_locks later q1)) = map tk_attempts (tt_rows q)"
    by (simp add: r(3) release_stale_locks_def update_where_def lock_row_def unlock_def comp_def)
  moreover have "lock_row now w r \<in> set (tt_rows q1)"
    unfolding r(3) using c by (intro update_where_mem) auto
  moreover have "stale later (lock_row now w r)"
    using c assms(3) by (simp add: stale_def lock_row_def expired_def)
  ultimately have "map tk_attempts (tt_rows (release_stale_locks later q1)) = map tk_attempts (tt_rows q)"
      "unlock later (lock_row now w r) \<in> set (tt_rows (release_stale_locks later q1))"
    unfolding release_stale_locks_def using update_where_mem by blast+
  moreover have "eligible later w (unlock later (lock_row now w r))" "tk_id (unlock later (lock_row now w r)) = ct_id task"
    using c by (simp_all add: unlock_def lock_row_def eligible_def r(2) claimed_of_def)
  ultimately show ?thesis by blast
qed

theorem crash_costs_no_attempt_witness:
  "\<exists>r \<in> set (tt_rows (release_stale_locks (secs 301) (fst (claim_one 0 (toy_worker ''A'') (\<lambda>_. False) toy_table)))).
     tk_id r = 7 \<and> eligible (secs 301) (toy_worker ''A'') r"
proof -
  have w: "claim_winner 0 (toy_worker ''A'') toy_table = Some toy_task" by code_simp
  have "claim_one 0 (toy_worker ''A'') (\<lambda>_. False) toy_table =
      (fst (claim_one 0 (toy_worker ''A'') (\<lambda>_. False) toy_table), Some (claimed_of toy_task))"
    by (simp add: claim_one_def w)
  from crash_costs_no_attempt [OF this toy_table_ok, of "secs 301"] show ?thesis
    by (simp add: toy_table_def toy_task_def new_row_def toy_worker_def default_lock_duration_seconds_def secs_def claimed_of_def)
qed

text \<open>
  One task among others: the number of times it has been claimed and its handler run to the end, by whatever workers and with whatever happens
  to the rest of the table before, between and meanwhile, as long as nobody else touches the row of the task (its lock does not expire).
\<close>

definition task_rows :: "int \<Rightarrow> task_table \<Rightarrow> task_row list" where
  "task_rows i q = filter (\<lambda>r. tk_id r = i) (tt_rows q)"

definition other_rows :: "int \<Rightarrow> task_table \<Rightarrow> task_row list" where
  "other_rows i q = filter (\<lambda>r. tk_id r \<noteq> i) (tt_rows q)"

inductive attempts :: "handlers \<Rightarrow> int \<Rightarrow> task_table \<Rightarrow> nat \<Rightarrow> task_table \<Rightarrow> bool" for hs i q0 where
  at_start: "attempts hs i q0 0 q0"
| at_other: "attempts hs i q0 n q \<Longrightarrow> task_rows i q' = task_rows i q \<Longrightarrow> attempts hs i q0 n q'"
| at_run: "attempts hs i q0 n q \<Longrightarrow> claim_one now w busy q = (q1, Some task) \<Longrightarrow> ct_id task = i \<Longrightarrow>
    task_rows i q2 = task_rows i q1 \<Longrightarrow> dispatch hs fin w task q2 = (q', b) \<Longrightarrow> attempts hs i q0 (Suc n) q'"

definition waiting :: "task_row \<Rightarrow> bool" where
  "waiting r \<longleftrightarrow> tk_status r = Pending \<and> tk_locked_until r = None"

definition always_fails :: "handlers \<Rightarrow> string \<Rightarrow> bool" where
  "always_fails hs ty \<longleftrightarrow> (\<exists>h. hs ty = Some h \<and> (\<forall>task. \<exists>e. h task = Inl e))"

lemma update_where_rows:
  "(\<And>r. tk_id (f r) = tk_id r) \<Longrightarrow> task_rows i (update_where (\<lambda>r. tk_id r = i) f q) = map f (task_rows i q)"
  "(\<And>r. tk_id (f r) = tk_id r) \<Longrightarrow> other_rows i (update_where (\<lambda>r. tk_id r = i) f q) = other_rows i q"
proof -
  have "filter (\<lambda>r. tk_id r = i) (map (\<lambda>r. if tk_id r = i then f r else r) rs) = map f (filter (\<lambda>r. tk_id r = i) rs) \<and>
      filter (\<lambda>r. tk_id r \<noteq> i) (map (\<lambda>r. if tk_id r = i then f r else r) rs) = filter (\<lambda>r. tk_id r \<noteq> i) rs"
    if "\<And>r. tk_id (f r) = tk_id r" for rs using that by (induction rs) auto
  then show "(\<And>r. tk_id (f r) = tk_id r) \<Longrightarrow> task_rows i (update_where (\<lambda>r. tk_id r = i) f q) = map f (task_rows i q)"
    "(\<And>r. tk_id (f r) = tk_id r) \<Longrightarrow> other_rows i (update_where (\<lambda>r. tk_id r = i) f q) = other_rows i q"
    by (simp_all add: task_rows_def other_rows_def update_where_def)
qed

lemma claim_one_row:
  assumes "claim_one now w busy q = (q1, Some task)" "task_rows (ct_id task) q = [r]"
  shows "eligible now w r" "task = claimed_of r" "task_rows (ct_id task) q1 = [lock_row now w r]" "other_rows (ct_id task) q1 = other_rows (ct_id task) q"
proof -
  from assms(1) obtain x where x: "claim_winner now w q = Some x" "q1 = update_where (\<lambda>y. tk_id y = tk_id x) (lock_row now w) q" "task = claimed_of x"
    by (auto simp: claim_one_def split: option.splits if_splits)
  have i: "ct_id task = tk_id x" by (simp add: x(3) claimed_of_def)
  have "x \<in> set (task_rows (ct_id task) q)" using claim_winner_Some[OF x(1)] by (simp add: task_rows_def i)
  then have "x = r" by (simp add: assms(2))
  then show "eligible now w r" "task = claimed_of r" using claim_winner_Some[OF x(1)] x(3) by simp_all
  show "task_rows (ct_id task) q1 = [lock_row now w r]" "other_rows (ct_id task) q1 = other_rows (ct_id task) q"
    using assms(2) \<open>x = r\<close> unfolding x(2) i by (subst update_where_rows; simp add: lock_row_def)+
qed

lemma fails_dispatch:
  assumes "dispatch hs fin w task q = (q', b)" "always_fails hs (ct_task_type task)"
  obtains e where "q' = mark_failed fin task e q"
  using assms by (auto simp: dispatch_def always_fails_def) (metis sum.simps(5) prod.inject)

lemma mark_failed_rows:
  "task_rows (ct_id task) (mark_failed fin task e q) =
     map (\<lambda>r. if ct_max_attempts task \<le> ct_attempts task + 1
       then r\<lparr>tk_status := Dead, tk_completed_at := Some fin, tk_last_error := clamp_error e, tk_locked_by := None, tk_locked_until := None,
              tk_attempts := ct_attempts task + 1\<rparr>
       else retry_row fin (ct_attempts task + 1) e r) (task_rows (ct_id task) q)"
  "other_rows (ct_id task) (mark_failed fin task e q) = other_rows (ct_id task) q"
  by (simp_all add: mark_failed_def mark_dead_def Let_def update_where_rows retry_row_def)

definition attempt_limit :: "task_row \<Rightarrow> int" where
  "attempt_limit r = max 1 (tk_max_attempts r)"

definition after_attempts :: "task_row \<Rightarrow> nat \<Rightarrow> task_row \<Rightarrow> bool" where
  "after_attempts r n r' \<longleftrightarrow>
     identity_of r' = identity_of r \<and> int n \<le> attempt_limit r \<and> tk_attempts r' = int n \<and>
     (if int n < attempt_limit r then waiting r' else tk_status r' = Dead \<and> tk_locked_until r' = None)"

lemma attempts_state:
  assumes "attempts hs i q n q'" "task_rows i q = [r]" "waiting r" "tk_attempts r = 0" "always_fails hs (tk_task_type r)"
  shows "\<exists>r'. task_rows i q' = [r'] \<and> after_attempts r n r'"
  using assms(1)
proof induction
  case at_start
  then show ?case using assms by (simp add: after_attempts_def attempt_limit_def less_max_iff_disj)
next
  case (at_run n q now w busy q1 task q2 fin q' b)
  then obtain x where x: "task_rows i q = [x]" "after_attempts r n x" by blast
  note c = claim_one_row[OF at_run.hyps(2), of x, unfolded at_run.hyps(3), OF x(1)]
  have same: "tk_task_type x = tk_task_type r" "tk_max_attempts x = tk_max_attempts r" using x(2) by (simp_all add: after_attempts_def identity_of_def)
  have "int n < attempt_limit r" using x(2) c(1) by (auto simp: after_attempts_def eligible_def split: if_splits)
  obtain e where e: "q' = mark_failed fin task e q2"
    using fails_dispatch[OF at_run.hyps(5)] assms(5) same c(2) by (auto simp: claimed_of_def)
  have "task_rows i q2 = [lock_row now w x]" using at_run.hyps(4) c(3) by simp
  with e mark_failed_rows(1)[of task fin e q2] at_run.hyps(3) c(2) \<open>int n < attempt_limit r\<close> x(2) same show ?case
    by (auto simp: after_attempts_def attempt_limit_def waiting_def claimed_of_def retry_row_def lock_row_def identity_of_def)
qed simp

lemma first_in_order_claimed:
  assumes "task_rows i q = [r]" "eligible now w r" "\<not> busy i"
    and "list_all (\<lambda>x. eligible now w x \<longrightarrow> claim_order r < claim_order x) (other_rows i q)"
  shows "snd (claim_one now w busy q) = Some (claimed_of r)"
proof -
  have r: "r \<in> set (tt_rows q)" "tk_id r = i" using assms(1) by (auto simp: task_rows_def filter_eq_Cons_iff)
  then obtain x where x: "claim_winner now w q = Some x" using assms(2) claim_winner_None[of now w q] by auto
  note c = claim_winner_Some[OF x]
  have "tk_id x = i"
  proof (rule ccontr)
    assume "tk_id x \<noteq> i"
    then have "claim_order r < claim_order x" using c assms(4) by (auto simp: list_all_iff other_rows_def)
    then show False using c r(1) assms(2) by fastforce
  qed
  then have "x \<in> set (task_rows i q)" using c by (simp add: task_rows_def)
  then have "x = r" by (simp add: assms(1))
  then show ?thesis using x assms(3) r(2) by (simp add: claim_one_def)
qed

text \<open>
  Claim C28 (liveness). A task whose handler always raises does not retry for ever, in whatever table it is and whatever becomes of the other tasks:
  after \<open>n\<close> runs its row has \<open>n\<close> attempts, and it is waiting, not locked, while \<open>n\<close> is below its limit (\<open>max_attempts\<close>, or one when that is less),
  and dead when \<open>n\<close> is the limit; there is no run after that. While it waits, a worker that handles its type claims it as soon as it is due and
  comes before the other tasks that are, and no run of it changes the row of another task.
\<close>

theorem failing_task_ends_dead:
  assumes "attempts hs i q n q'" "task_rows i q = [r]" "waiting r" "tk_attempts r = 0" "always_fails hs (tk_task_type r)"
  shows "\<exists>r'. task_rows i q' = [r'] \<and> int n \<le> attempt_limit r \<and> tk_attempts r' = int n \<and>
    (if int n < attempt_limit r then waiting r' else tk_status r' = Dead) \<and>
    (\<forall>now w busy. eligible now w r' \<and> \<not> busy i \<and> list_all (\<lambda>x. eligible now w x \<longrightarrow> claim_order r' < claim_order x) (other_rows i q') \<longrightarrow>
       snd (claim_one now w busy q') = Some (claimed_of r')) \<and>
    (\<forall>now w busy q1 task fin q2 b. claim_one now w busy q' = (q1, Some task) \<and> ct_id task = i \<and> dispatch hs fin w task q1 = (q2, b) \<longrightarrow>
       other_rows i q2 = other_rows i q')"
proof -
  obtain r' where r': "task_rows i q' = [r']" "after_attempts r n r'" using attempts_state[OF assms] by blast
  have "other_rows i q2 = other_rows i q'"
    if c: "claim_one now w busy q' = (q1, Some task)" "ct_id task = i" "dispatch hs fin w task q1 = (q2, b)" for now w busy q1 task fin q2 b
  proof -
    note row = claim_one_row[OF c(1), of r', unfolded c(2), OF r'(1)]
    have "ct_task_type task = tk_task_type r" using r'(2) by (simp add: row(2) claimed_of_def after_attempts_def identity_of_def)
    then obtain e where "q2 = mark_failed fin task e q1" using fails_dispatch[OF c(3)] assms(5) by auto
    then show ?thesis using mark_failed_rows(2)[of task fin e q1] row(4) c(2) by simp
  qed
  then show ?thesis using r' first_in_order_claimed[OF r'(1)] unfolding after_attempts_def
    by (intro exI[of _ r'] conjI) (auto split: if_splits)
qed

definition raising :: handlers where
  "raising ty = Some (\<lambda>_. Inl ''boom'')"

text \<open>A task with two attempts beside another one, and its two runs by different workers.\<close>

definition toy_pair :: task_table where
  "toy_pair = \<lparr>tt_rows = [toy_task\<lparr>tk_max_attempts := 2\<rparr>, toy_task\<lparr>tk_id := 8, tk_task_type := ''sms''\<rparr>], tt_next_id = 9\<rparr>"

definition email_worker :: "string \<Rightarrow> worker" where
  "email_worker w = (toy_worker w)\<lparr>wk_task_types := [''email'']\<rparr>"

definition toy_run :: "int \<Rightarrow> string \<Rightarrow> task_table \<Rightarrow> task_table" where
  "toy_run now w q = (case claim_one now (email_worker w) (\<lambda>_. False) q of (q1, Some task) \<Rightarrow> fst (dispatch raising (now + 1) (email_worker w) task q1) | (q1, None) \<Rightarrow> q1)"

lemma toy_run_attempt:
  assumes "attempts raising 7 q0 n q" "map_option ct_id (snd (claim_one now (email_worker w) (\<lambda>_. False) q)) = Some 7"
  shows "attempts raising 7 q0 (Suc n) (toy_run now w q)"
proof -
  obtain q1 task where c: "claim_one now (email_worker w) (\<lambda>_. False) q = (q1, Some task)" "ct_id task = 7"
    using assms(2) by (cases "claim_one now (email_worker w) (\<lambda>_. False) q") auto
  obtain q' b where d: "dispatch raising (now + 1) (email_worker w) task q1 = (q', b)" by fastforce
  from at_run[OF assms(1) c refl d] show ?thesis by (simp add: toy_run_def c d)
qed

theorem failing_task_ends_dead_witness:
  "\<exists>r'. task_rows 7 (toy_run (secs 100) ''B'' (toy_run 0 ''A'' toy_pair)) = [r'] \<and> tk_status r' = Dead \<and> tk_attempts r' = 2"
proof -
  let ?q = "toy_run (secs 100) ''B'' (toy_run 0 ''A'' toy_pair)"
  have "map_option ct_id (snd (claim_one 0 (email_worker ''A'') (\<lambda>_. False) toy_pair)) = Some 7"
    "map_option ct_id (snd (claim_one (secs 100) (email_worker ''B'') (\<lambda>_. False) (toy_run 0 ''A'' toy_pair))) = Some 7"
    by code_simp+
  then have run: "attempts raising 7 toy_pair (Suc (Suc 0)) ?q" using toy_run_attempt[OF toy_run_attempt[OF at_start]] by blast
  let ?r = "toy_task\<lparr>tk_max_attempts := 2\<rparr>"
  have "task_rows 7 toy_pair = [?r]" "waiting ?r" "tk_attempts ?r = 0" "always_fails raising (tk_task_type ?r)" "attempt_limit ?r = 2"
    by (simp_all add: task_rows_def toy_pair_def waiting_def toy_task_def new_row_def always_fails_def raising_def attempt_limit_def)
  from failing_task_ends_dead [OF run this(1-4)] this(5) show ?thesis by auto
qed

section \<open>A worker that lost its lock\<close>

text \<open>
  Worker A claims the task; its lock expires and worker B claims it too; A completes it, and then B's
  run raises.
\<close>

definition overrun_table :: task_table where
  "overrun_table =
     (let a = toy_worker ''A''; b = toy_worker ''B'';
          (q1, ta) = claim_one 0 a (\<lambda>_. False) toy_table;
          q2 = release_stale_locks (secs 301) q1;
          (q3, tb) = claim_one (secs 301) b (\<lambda>_. False) q2;
          q4 = mark_completed (secs 302) (ct_id (the ta)) q3
      in mark_failed (secs 303) (the tb) ''boom'' q4)"

text \<open>
  Completion is not final: neither the transition to completed nor the one to a
  retry checks that the worker still holds the lock, so a task that one worker has completed
  goes back to pending when a second worker, which claimed it after the lock had expired, fails,
  and it is then claimed and run again.
\<close>

theorem completed_task_runs_again:
  "map tk_status (tt_rows overrun_table) = [Pending] \<and> map tk_completed_at (tt_rows overrun_table) = [Some (secs 302)] \<and>
   snd (claim_one (secs 400) (toy_worker ''A'') (\<lambda>_. False) overrun_table) \<noteq> None"
proof -
  have "map tk_status (tt_rows overrun_table) = [Pending]" by code_simp
  moreover have "map tk_completed_at (tt_rows overrun_table) = [Some (secs 302)]" by code_simp
  moreover have "snd (claim_one (secs 400) (toy_worker ''A'') (\<lambda>_. False) overrun_table) \<noteq> None" by code_simp
  ultimately show ?thesis by blast
qed

end
