(* ===== verification/Permissions.thy ===== *)
theory Permissions
  imports PyBase
begin

text \<open>
  \<^verbatim>\<open>services/shared/permissions.py\<close>: matching of granted against required permissions, with
  wildcards, and the ranks of roles that bound what an inviter may confer. Permissions come
  from requests and rows, so they are dynamic values; a container that cannot be iterated
  raises.
\<close>

section \<open>Matching\<close>

definition normalize_permission :: "pyval \<Rightarrow> string" where
  "normalize_permission v =
     (case v of PStr s \<Rightarrow> replace_char (CHR '':'') ''.'' (py_lower (py_strip s)) | _ \<Rightarrow> [])"

definition root_permissions :: "string list" where
  "root_permissions = [''*'', ''admin.*'', ''super_admin'']"

text \<open>The test on normalised texts.\<close>

definition implies_normalized :: "string \<Rightarrow> string \<Rightarrow> bool" where
  "implies_normalized granted required \<longleftrightarrow>
     (if granted = [] \<or> required = [] then False
      else if granted \<in> set root_permissions then True
      else if granted = required then True
      else if suffix ''.*'' granted then
        (let namespace = take (length granted - 2) granted
         in length namespace + 1 < length required \<and> prefix (namespace @ ''.'') required)
      else False)"

definition permission_implies :: "pyval \<Rightarrow> pyval \<Rightarrow> bool" where
  "permission_implies granted required =
     implies_normalized (normalize_permission granted) (normalize_permission required)"

definition permission_list :: "pyval \<Rightarrow> py_error + pyval list" where
  "permission_list v = (case v of PNone \<Rightarrow> Inr [] | PStr s \<Rightarrow> Inr [v] | _ \<Rightarrow> py_iter v)"

definition has_permission :: "pyval \<Rightarrow> pyval \<Rightarrow> py_error + bool" where
  "has_permission granted required =
     and_then (permission_list granted) (\<lambda>ps. Inr (list_ex (\<lambda>p. permission_implies p required) ps))"

section \<open>Ranks of roles\<close>

definition role_rank_by_name :: "(string \<times> nat) list" where
  "role_rank_by_name =
     [(''owner'', 100), (''admin'', 80), (''manager'', 60), (''compliance_manager'', 60), (''editor'', 40),
      (''member'', 30), (''viewer'', 20), (''guest'', 10)]"

definition owner_rank :: nat where
  "owner_rank = 100"

definition owner_tier_permissions :: "string list" where
  "owner_tier_permissions = [''*'', ''admin.*'', ''super_admin'']"

definition name_rank :: "string option \<Rightarrow> nat" where
  "name_rank role_name =
     (case map_of role_rank_by_name (py_lower (py_strip (str_or role_name []))) of None \<Rightarrow> 0 | Some r \<Rightarrow> r)"

definition role_rank :: "string option \<Rightarrow> pyval \<Rightarrow> py_error + nat" where
  "role_rank role_name permissions =
     and_then (permission_list permissions) (\<lambda>ps.
       Inr (max (name_rank role_name)
              (if list_ex (\<lambda>p. normalize_permission p \<in> set owner_tier_permissions) ps then owner_rank else 0)))"

text \<open>\<open>list(v or [])\<close>\<close>

definition list_or_empty :: "pyval \<Rightarrow> py_error + pyval" where
  "list_or_empty v = and_then (py_iter (py_or v (PList []))) (\<lambda>xs. Inr (PList xs))"

definition can_invite_role ::
  "string option \<Rightarrow> pyval \<Rightarrow> string option \<Rightarrow> pyval \<Rightarrow> bool \<Rightarrow> py_error + bool" where
  "can_invite_role caller_role caller_permissions target_role target_permissions honor_grant_owner =
     and_then (list_or_empty caller_permissions) (\<lambda>caller_perms.
     and_then (list_or_empty target_permissions) (\<lambda>target_perms.
     and_then (role_rank caller_role caller_perms) (\<lambda>caller_rank.
     and_then (role_rank target_role target_perms) (\<lambda>target_rank.
     and_then (if honor_grant_owner then has_permission caller_perms (PStr ''users.invite.grant_owner'') else Inr False)
       (\<lambda>has_grant_owner.
         Inr (if owner_rank \<le> target_rank then owner_rank \<le> caller_rank \<or> has_grant_owner
              else target_rank \<le> caller_rank))))))"

section \<open>Facts\<close>

lemma root_implies: "g \<in> set root_permissions \<Longrightarrow> r \<noteq> [] \<Longrightarrow> implies_normalized g r"
  by (auto simp: implies_normalized_def root_permissions_def)

lemma suffix_split: "suffix ''.*'' g \<Longrightarrow> g = take (length g - 2) g @ ''.*''"
  by (auto simp: suffix_def)

text \<open>The three ways a permission covers another.\<close>

lemma implies_normalized_iff:
  "implies_normalized g r \<longleftrightarrow>
     r \<noteq> [] \<and> (g \<in> set root_permissions \<or> g = r \<or> (\<exists>ns act. g = ns @ ''.*'' \<and> r = ns @ ''.'' @ act \<and> act \<noteq> []))"
proof -
  have "suffix ''.*'' g \<and> length (take (length g - 2) g) + 1 < length r \<and> prefix (take (length g - 2) g @ ''.'') r \<longleftrightarrow>
      (\<exists>ns act. g = ns @ ''.*'' \<and> r = ns @ ''.'' @ act \<and> act \<noteq> [])" (is "?l \<longleftrightarrow> ?r")
  proof
    assume ?l
    then obtain act where "r = take (length g - 2) g @ ''.'' @ act" by (auto simp: prefix_def)
    with \<open>?l\<close> suffix_split [of g] show ?r by (intro exI [of _ "take (length g - 2) g"] exI [of _ act]) auto
  next
    assume ?r
    then obtain ns act where "g = ns @ ''.*''" "r = ns @ ''.'' @ act" "act \<noteq> []" by blast
    then show ?l by (cases act) (auto simp: suffix_def prefix_def)
  qed
  note covers = this
  have "implies_normalized g r \<longleftrightarrow> g \<noteq> [] \<and> r \<noteq> [] \<and> (g \<in> set root_permissions \<or> g = r \<or>
      suffix ''.*'' g \<and> length (take (length g - 2) g) + 1 < length r \<and> prefix (take (length g - 2) g @ ''.'') r)"
    unfolding implies_normalized_def Let_def by metis
  moreover have "g \<noteq> []" if "r \<noteq> [] \<and> (g \<in> set root_permissions \<or> g = r \<or> suffix ''.*'' g)"
    using that by (auto simp: root_permissions_def suffix_def)
  ultimately show ?thesis unfolding covers [symmetric] by blast
qed

lemma root_dot: "ns @ CHR ''.'' # act \<in> set root_permissions \<Longrightarrow> ns = ''admin'' \<and> act = ''*''"
  by (auto simp: root_permissions_def append_eq_Cons_conv Cons_eq_append_conv)

lemma implies_normalized_trans:
  assumes "implies_normalized a b" and "implies_normalized b c"
  shows "implies_normalized a c"
proof -
  have c: "c \<noteq> []" using assms(2) by (simp add: implies_normalized_iff)
  consider "a \<in> set root_permissions" | "a = b" | ns act where "a = ns @ ''.*''" "b = ns @ ''.'' @ act" "act \<noteq> []"
    using assms(1) by (auto simp: implies_normalized_iff)
  then show ?thesis
  proof cases
    case 3
    consider "b \<in> set root_permissions" | "b = c" | ns' act' where "b = ns' @ ''.*''" "c = ns' @ ''.'' @ act'" "act' \<noteq> []"
      using assms(2) by (auto simp: implies_normalized_iff)
    then show ?thesis
    proof cases
      case 1
      then have "ns @ CHR ''.'' # act \<in> set root_permissions" using 3(2) by simp
      then have "a = ''admin.*''" using root_dot 3(1) by fastforce
      then have "a \<in> set root_permissions" by (simp add: root_permissions_def)
      with c show ?thesis by (rule root_implies [rotated])
    next
      case 2
      with assms(1) show ?thesis by simp
    next
      case (3 ns' act')
      note inner = 3
      have "ns' @ ''.*'' = ns @ ''.'' @ act" using \<open>b = ns @ ''.'' @ act\<close> inner(1) by simp
      then obtain us where "ns' = ns @ us \<and> us @ ''.*'' = ''.'' @ act \<or> ns' @ us = ns \<and> ''.*'' = us @ ''.'' @ act"
        unfolding append_eq_append_conv2 by blast
      then have "\<exists>rest. c = ns @ ''.'' @ rest \<and> rest \<noteq> []"
      proof
        assume "ns' = ns @ us \<and> us @ ''.*'' = ''.'' @ act"
        then show ?thesis using inner(2,3) by (cases us) auto
      next
        assume "ns' @ us = ns \<and> ''.*'' = us @ ''.'' @ act"
        then show ?thesis using inner(2,3) \<open>act \<noteq> []\<close> by (cases us) (auto simp: Cons_eq_append_conv)
      qed
      with \<open>a = ns @ ''.*''\<close> c show ?thesis by (auto simp: implies_normalized_iff)
    qed
  qed (use assms c root_implies in auto)
qed

section \<open>Properties\<close>

text \<open>
  Coverage of permissions is transitive: what a permission covers by way of
  another one it covers directly, so a chain of wildcards never gives more than its first
  member says.
\<close>

theorem permission_implies_trans:
  assumes "permission_implies a b" and "permission_implies b c"
  shows "permission_implies a c"
  using assms unfolding permission_implies_def by (rule implies_normalized_trans)

theorem permission_implies_trans_witness:
  "permission_implies (PStr ''FDA:*'') (PStr ''fda.export.csv'')"
proof (rule permission_implies_trans)
  show "permission_implies (PStr ''FDA:*'') (PStr ''fda.export.*'')" by code_simp
  show "permission_implies (PStr ''fda.export.*'') (PStr ''fda.export.csv'')" by code_simp
qed

lemma owner_tier_root: "owner_tier_permissions = root_permissions"
  by (simp add: owner_tier_permissions_def root_permissions_def)

lemma name_rank_le: "name_rank n \<le> owner_rank"
proof -
  have "\<forall>p \<in> set role_rank_by_name. snd p \<le> owner_rank" by code_simp
  then show ?thesis by (auto simp: name_rank_def split: option.split dest!: map_of_SomeD)
qed

text \<open>
  Ranks never understate: a permission that covers two permissions without a common name
  space covers all of them, and a role that carries such a permission has the rank of an owner.
\<close>

lemma covers_all_is_root:
  assumes "implies_normalized p ''users.invite.grant_owner''" and "implies_normalized p ''fda.export''"
  shows "p \<in> set root_permissions"
proof (rule ccontr)
  assume no: "p \<notin> set root_permissions"
  then have "p = ''fda.export'' \<or> (\<exists>ns act. p = ns @ ''.*'' \<and> ''fda.export'' = ns @ ''.'' @ act)"
    using assms(2) by (auto simp: implies_normalized_iff)
  moreover have "p = ''users.invite.grant_owner'' \<or>
      (\<exists>ns act. p = ns @ ''.*'' \<and> ''users.invite.grant_owner'' = ns @ ''.'' @ act)"
    using assms(1) no by (auto simp: implies_normalized_iff)
  ultimately show False by (auto simp: Cons_eq_append_conv)
qed

text \<open>
  Claim C35 (safety). Without the escape hatch no invitation between roles whose permissions are lists raises privileges: the rank of the
  conferred role is at most the inviter's, and a role carrying a permission that covers
  everything can only be conferred by an owner.
\<close>

theorem invite_no_escalation:
  assumes "can_invite_role cr (PList cps) tr (PList tps) False = Inr True"
  shows "\<exists>c t. role_rank cr (PList cps) = Inr c \<and> role_rank tr (PList tps) = Inr t \<and> t \<le> c \<and>
           ((\<exists>p \<in> set tps. \<forall>q. normalize_permission q \<noteq> [] \<longrightarrow> permission_implies p q) \<longrightarrow> c = owner_rank)"
proof -
  have le: "r \<le> owner_rank" if "role_rank n ps = Inr r" for n ps r
    using that name_rank_le [of n] by (auto simp: role_rank_def and_then_eq_Inr_iff)
  obtain c t where r: "role_rank cr (PList cps) = Inr c" "role_rank tr (PList tps) = Inr t" and ct: "t \<le> c"
    using assms le
    by (fastforce simp: can_invite_role_def list_or_empty_def py_iter_def py_or_def and_then_eq_Inr_iff split: if_splits)
  have "c = owner_rank" if "p \<in> set tps" and "\<forall>q. normalize_permission q \<noteq> [] \<longrightarrow> permission_implies p q" for p
  proof -
    have "normalize_permission (PStr ''users.invite.grant_owner'') = ''users.invite.grant_owner''"
      "normalize_permission (PStr ''fda.export'') = ''fda.export''" by code_simp+
    with that(2) have "normalize_permission p \<in> set root_permissions"
      using covers_all_is_root unfolding permission_implies_def by (metis list.distinct(1))
    with that(1) r(2) have "owner_rank \<le> t"
      by (auto simp: role_rank_def permission_list_def py_iter_def owner_tier_root list_ex_iff)
    with ct le [OF r(1)] show ?thesis by simp
  qed
  with r ct show ?thesis by blast
qed

theorem invite_no_escalation_witness:
  "\<exists>c t. role_rank (Some ''Admin'') (PList [PStr ''users:*'']) = Inr c \<and>
     role_rank (Some ''viewer'') (PList [PStr ''fda.export'']) = Inr t \<and> t \<le> c"
proof -
  have "can_invite_role (Some ''Admin'') (PList [PStr ''users:*'']) (Some ''viewer'') (PList [PStr ''fda.export'']) False =
      Inr True"
    by code_simp
  from invite_no_escalation [OF this] show ?thesis by blast
qed

text \<open>
  A bare text as the inviter's permissions is split into its characters: the
  asterisk of a name-space wildcard then counts as the permission for everything, and a guest
  may confer the role of an owner, although the rank of the same text is a guest's.
\<close>

theorem bare_string_escalates:
  "can_invite_role (Some ''guest'') (PStr ''fda.*'') (Some ''owner'') PNone False = Inr True \<and>
   role_rank (Some ''guest'') (PStr ''fda.*'') = Inr 10 \<and> role_rank (Some ''owner'') PNone = Inr 100"
  by code_simp

text \<open>
  Ranks do not see the permission to grant ownership: a guest may confer a role of unknown name
  that carries it, and the invited user may then confer ownership.
\<close>

theorem two_step_escalation:
  "can_invite_role (Some ''guest'') PNone (Some ''helper'') (PList [PStr ''users.invite.grant_owner'']) True = Inr True \<and>
   can_invite_role (Some ''helper'') (PList [PStr ''users.invite.grant_owner'']) (Some ''owner'') PNone True = Inr True \<and>
   can_invite_role (Some ''guest'') PNone (Some ''owner'') PNone True = Inr False"
  by code_simp

end
