(* ===== verification/FdaExport.thy ===== *)
theory FdaExport
  imports Permissions
begin

text \<open>
  \<^verbatim>\<open>services/shared/fda_export/\<close>: neutralised spreadsheet cells, redaction of personal data, export
  windows, attachment file names and the pagination loop of the FDA exports. A row is an
  association list with distinct keys. The digest of \<^verbatim>\<open>hash_pii_value\<close> is the parameter \<open>H\<close>,
  \<open>date.fromisoformat\<close> the parameter \<open>df\<close>.
\<close>

section \<open>Cells (csv\_safety.py)\<close>

definition dangerous_prefixes :: "char list" where
  "dangerous_prefixes = [CHR ''='', CHR ''+'', CHR ''-'', CHR ''@'', CHR 0x09, CHR 0x0D]"

definition safe_cell :: "pyrt \<Rightarrow> pyval \<Rightarrow> string" where
  "safe_cell rt v =
     (if v = PNone then []
      else let s = py_str rt v
           in if s \<noteq> [] \<and> hd s \<in> set dangerous_prefixes then CHR 0x27 # s else s)"

definition safe_row :: "pyrt \<Rightarrow> pydict \<Rightarrow> pydict" where
  "safe_row rt row = map (\<lambda>(k, v). (k, PStr (safe_cell rt v))) row"

definition safe_sequence :: "pyrt \<Rightarrow> pyval list \<Rightarrow> string list" where
  "safe_sequence rt vs = map (safe_cell rt) vs"

section \<open>Personal data (pii.py)\<close>

definition pii_permission :: string where
  "pii_permission = ''fda.export.full_pii''"

definition pii_permission_aliases :: "string list" where
  "pii_permission_aliases = [''fda.export.full_pii'', ''fda.export.pii'']"

definition pii_redaction_placeholder :: string where
  "pii_redaction_placeholder = ''[REDACTED]''"

definition default_pii_columns :: "string list" where
  "default_pii_columns =
     [''Location Name'', ''Ship From Name'', ''Ship To Name'', ''Immediate Previous Source'', ''Receiving Location'',
      ''origin_name'', ''origin_address'', ''destination_name'', ''destination_address'', ''immediate_previous_source'']"

definition pii_key_substrings :: "string list" where
  "pii_key_substrings =
     [''address'', ''street'', ''location_name'', ''facility_name'', ''contact'', ''phone'', ''email'', ''owner_name'',
      ''operator_name'', ''driver_name'', ''receiver_name'', ''consignee_name'']"

definition caller_has_full_pii :: "string list option \<Rightarrow> bool" where
  "caller_has_full_pii caller_scopes =
     (case caller_scopes of
        None \<Rightarrow> False
      | Some cs \<Rightarrow>
          let scopes = map (\<lambda>s. py_lower (py_strip s)) (filter (\<lambda>s. s \<noteq> []) cs)
          in ''*'' \<in> set scopes \<or>
             list_ex (\<lambda>scope. scope \<in> set pii_permission_aliases \<or> scope = ''fda.*'' \<or> scope = ''fda:*'') scopes)"

definition hash_pii_value :: "(string \<Rightarrow> string) \<Rightarrow> int \<Rightarrow> string \<Rightarrow> string" where
  "hash_pii_value H len value = (if value = [] then [] else ''pii_'' @ py_slice 0 len (H value))"

text \<open>The cell of one column: only a nonempty string is replaced.\<close>

definition redact_cell :: "(string \<Rightarrow> string) \<Rightarrow> string \<Rightarrow> bool \<Rightarrow> pyval \<Rightarrow> pyval" where
  "redact_cell H strategy is_pii v =
     (case v of
        PStr s \<Rightarrow>
          if is_pii \<and> s \<noteq> [] then
            PStr (if strategy = ''hash'' then hash_pii_value H 12 s else pii_redaction_placeholder)
          else v
      | _ \<Rightarrow> v)"

definition redact_pii_row ::
  "(string \<Rightarrow> string) \<Rightarrow> string list option \<Rightarrow> string list option \<Rightarrow> string \<Rightarrow> pydict \<Rightarrow> pydict" where
  "redact_pii_row H caller_scopes pii_columns strategy row =
     (if caller_has_full_pii caller_scopes then row
      else let columns = (case pii_columns of None \<Rightarrow> default_pii_columns | Some cs \<Rightarrow> cs)
           in map (\<lambda>(key, v). (key, redact_cell H strategy (key \<in> set columns) v)) row)"

definition pii_key :: "string \<Rightarrow> bool" where
  "pii_key key \<longleftrightarrow> list_ex (\<lambda>marker. py_contains marker (py_lower key)) pii_key_substrings"

definition redact_pii_extras :: "string list option \<Rightarrow> pydict \<Rightarrow> pydict" where
  "redact_pii_extras caller_scopes extras =
     (if caller_has_full_pii caller_scopes then extras
      else map (\<lambda>(key, v). (key, redact_cell (\<lambda>_. []) ''placeholder'' (pii_key key) v)) extras)"

section \<open>Windows (windows.py)\<close>

definition max_export_window_days :: int where
  "max_export_window_days = 90"

record ExportWindow =
  ew_start :: int
  ew_end :: int

definition span_days :: "ExportWindow \<Rightarrow> int" where
  "span_days w = ew_end w - ew_start w"

definition micros_per_day :: int where
  "micros_per_day = 86400000000"

text \<open>
  \<open>value.astimezone(timezone.utc).date()\<close>, a naive time taken as UTC: dates are counted in days
  from 0001-01-01, and the conversion raises when it leaves the years 1 to 9999.
\<close>

definition utc_date :: "pydatetime \<Rightarrow> py_error + int" where
  "utc_date d =
     (case d of Datetime w off \<Rightarrow>
        let day = (w - (case off of None \<Rightarrow> 0 | Some x \<Rightarrow> x)) div micros_per_day
        in if 0 \<le> day \<and> day < 3652059 then Inr day else Inl OverflowError)"

definition coerce_text :: "pyrt \<Rightarrow> (string \<Rightarrow> py_error + int) \<Rightarrow> string \<Rightarrow> string \<Rightarrow> py_error + int" where
  "coerce_text rt df name s =
     (let raw = py_strip s
      in case df raw of
           Inr d \<Rightarrow> Inr d
         | Inl (ValueError _) \<Rightarrow>
             (case rt_fromisoformat rt (replace_char (CHR ''Z'') ''+00:00'' raw) of
                Inr parsed \<Rightarrow> utc_date parsed
              | Inl (ValueError _) \<Rightarrow> Inl (ValueError (name @ '' must be ISO-8601 YYYY-MM-DD''))
              | Inl e \<Rightarrow> Inl e)
         | Inl e \<Rightarrow> Inl e)"

definition coerce :: "pyrt \<Rightarrow> (string \<Rightarrow> py_error + int) \<Rightarrow> string \<Rightarrow> pyval \<Rightarrow> py_error + int" where
  "coerce rt df name v =
     (if v = PNone \<or> v = PStr [] then Inl (ValueError (name @ '' is required''))
      else case v of
             PDatetime d \<Rightarrow> utc_date d
           | PDate d \<Rightarrow> Inr d
           | PStr s \<Rightarrow> coerce_text rt df name s
           | _ \<Rightarrow> Inl (ValueError (name @ '' has an unsupported type: '' @ type_name v)))"

definition validate_export_window ::
  "pyrt \<Rightarrow> (string \<Rightarrow> py_error + int) \<Rightarrow> int \<Rightarrow> pyval \<Rightarrow> pyval \<Rightarrow> py_error + ExportWindow" where
  "validate_export_window rt df max_days start fin =
     and_then (coerce rt df ''start_date'' start) (\<lambda>start_d.
     and_then (coerce rt df ''end_date'' fin) (\<lambda>end_d.
       if end_d < start_d then Inl (ValueError ''end_date must be on or after start_date'')
       else let span = end_d - start_d
            in if max_days < span then
                 Inl (ValueError (''export window of '' @ int_str span @ '' days exceeds the '' @ int_str max_days @
                   ''-day FSMA-204 cap '' @ em_dash @ '' narrow the range or request an async batched job''))
               else Inr \<lparr>ew_start = start_d, ew_end = end_d\<rparr>))"

section \<open>File names (filenames.py)\<close>

definition max_filename_token :: int where
  "max_filename_token = 64"

definition safe_char :: "char \<Rightarrow> bool" where
  "safe_char c \<longleftrightarrow> is_ascii_alpha c \<or> is_dec_digit c \<or> c = CHR ''.'' \<or> c = CHR ''_'' \<or> c = CHR ''-''"

text \<open>\<open>s.replace("..", "_")\<close>: occurrences from the left, without overlap.\<close>

fun replace_dots :: "string \<Rightarrow> string" where
  "replace_dots (a # b # cs) =
     (if a = CHR ''.'' \<and> b = CHR ''.'' then CHR ''_'' # replace_dots cs else a # replace_dots (b # cs))"
| "replace_dots cs = cs"

lemma replace_dots_shorter: "py_contains ''..'' s \<Longrightarrow> length (replace_dots s) < length s"
proof -
  have "length (replace_dots s) \<le> length s" for s by (induction s rule: replace_dots.induct) auto
  then show "py_contains ''..'' s \<Longrightarrow> length (replace_dots s) < length s"
    by (induction s rule: replace_dots.induct) (auto simp: less_Suc_eq_le le_SucI split: if_splits)
qed

function collapse_dots :: "string \<Rightarrow> string" where
  "collapse_dots s = (if py_contains ''..'' s then collapse_dots (replace_dots s) else s)"
  by pat_completeness auto

termination
  by (relation "measure length") (simp_all only: in_measure wf_measure replace_dots_shorter)

declare collapse_dots.simps [simp del]

definition safe_filename_token :: "pyrt \<Rightarrow> int \<Rightarrow> pyval \<Rightarrow> string" where
  "safe_filename_token rt max_len raw =
     (if raw = PNone then ''all''
      else let cleaned = py_slice 0 max_len (map (\<lambda>c. if safe_char c then c else CHR ''_'') (py_str rt raw));
               collapsed = collapse_dots cleaned
           in if collapsed = [] then ''all'' else collapsed)"

definition format_date :: "pyrt \<Rightarrow> pyval \<Rightarrow> string" where
  "format_date rt v =
     (if v = PNone \<or> v = PStr [] then []
      else case v of
             PDatetime (Datetime w _) \<Rightarrow> rt_isoformat rt (PDate (w div micros_per_day))
           | PDate d \<Rightarrow> rt_isoformat rt v
           | _ \<Rightarrow> safe_filename_token rt 10 v)"

text \<open>\<open>extension.strip(". ")\<close>\<close>

definition strip_dots_blanks :: "string \<Rightarrow> string" where
  "strip_dots_blanks s = (let P = (\<lambda>c. c = CHR ''.'' \<or> c = CHR '' '') in rstrip_by P (dropWhile P s))"

definition safe_filename ::
  "pyrt \<Rightarrow> string \<Rightarrow> pyval \<Rightarrow> pyval \<Rightarrow> string option \<Rightarrow> string option \<Rightarrow> string \<Rightarrow> string" where
  "safe_filename rt pre start fin scope timestamp extension =
     (let start_s = format_date rt start;
          end_s = format_date rt fin;
          parts = [safe_filename_token rt max_filename_token (PStr pre)] @
            (case scope of None \<Rightarrow> [] | Some s \<Rightarrow> if s = [] then [] else [safe_filename_token rt max_filename_token (PStr s)]) @
            (if start_s = [] then [] else [safe_filename_token rt 10 (PStr start_s)]) @
            (if end_s = [] then [] else [safe_filename_token rt 10 (PStr end_s)]) @
            (case timestamp of None \<Rightarrow> [] | Some s \<Rightarrow> if s = [] then [] else [safe_filename_token rt 32 (PStr s)]);
          ext = safe_filename_token rt 8 (PStr (str_or (Some (strip_dots_blanks extension)) ''csv''))
      in py_join ''_'' parts @ ''.'' @ ext)"

section \<open>Pagination (pagination.py)\<close>

text \<open>
  The fetcher is the caller's: it takes the cursor and the limit and may change a state of its
  own. A run of the generator to its end is the list of the batches it yields and how it ends.
  \<open>None\<close> stands for a run that never ends.
\<close>

type_synonym ('s, 'a) fetcher = "string option \<Rightarrow> int \<Rightarrow> 's \<Rightarrow> 's \<times> (py_error + 'a list \<times> string option)"
type_synonym ('s, 'a) page_run = "'s \<times> 'a list list \<times> (py_error + unit)"

definition default_batch_size :: int where
  "default_batch_size = 500"

text \<open>The format \<open>{n:,}\<close>: a comma before every third digit from the right.\<close>

fun group_digits :: "string \<Rightarrow> string" where
  "group_digits (a # b # c # d # ds) = a # b # c # CHR '','' # group_digits (d # ds)"
| "group_digits ds = ds"

definition comma_int :: "int \<Rightarrow> string" where
  "comma_int i = (if i < 0 then ''-'' else []) @ rev (group_digits (rev (nat_str (nat \<bar>i\<bar>))))"

definition over_cap :: "int option \<Rightarrow> int \<Rightarrow> bool" where
  "over_cap max_events n = (case max_events of None \<Rightarrow> False | Some m \<Rightarrow> m < n)"

definition cap_error :: "int option \<Rightarrow> py_error" where
  "cap_error max_events =
     ValueError (''export exceeded the '' @ (case max_events of None \<Rightarrow> [] | Some m \<Rightarrow> comma_int m) @
       ''-event hard cap '' @ em_dash @ '' narrow the query or request an async batched job'')"

partial_function (option) pages ::
  "('s, 'a) fetcher \<Rightarrow> int \<Rightarrow> int option \<Rightarrow> string option \<Rightarrow> int \<Rightarrow> 's \<Rightarrow> ('s, 'a) page_run option" where
  "pages fetch batch_size max_events cursor n s =
     (case fetch cursor batch_size s of
        (s1, Inl e) \<Rightarrow> Some (s1, [], Inl e)
      | (s1, Inr (batch, next_cursor)) \<Rightarrow>
          if batch = [] then Some (s1, [], Inr ())
          else if over_cap max_events (n + int (length batch)) then Some (s1, [], Inl (cap_error max_events))
          else if next_cursor = None \<or> next_cursor = Some [] then Some (s1, [batch], Inr ())
          else Option.bind (pages fetch batch_size max_events next_cursor (n + int (length batch)) s1)
                 (\<lambda>(s2, batches, r). Some (s2, batch # batches, r)))"

definition paginate :: "('s, 'a) fetcher \<Rightarrow> int \<Rightarrow> int option \<Rightarrow> 's \<Rightarrow> ('s, 'a) page_run option" where
  "paginate fetch batch_size max_events s =
     (if batch_size \<le> 0 then Some (s, [], Inl (ValueError ''batch_size must be positive''))
      else pages fetch batch_size max_events None 0 s)"

section \<open>Cells\<close>

lemma safe_cell_cases:
  "safe_cell rt v = [] \<or> hd (safe_cell rt v) \<notin> set dangerous_prefixes"
  by (auto simp: safe_cell_def Let_def dangerous_prefixes_def)

lemma safe_cell_str: "safe_cell rt (PStr s) = (if s \<noteq> [] \<and> hd s \<in> set dangerous_prefixes then CHR 0x27 # s else s)"
  by (simp add: safe_cell_def)

text \<open>
  No exported cell starts with a character that a spreadsheet reads as a
  formula, whatever the value; a cell whose text was harmless is written unchanged, the text of
  a dangerous one is kept behind a quote, and neutralising twice changes nothing.
\<close>

theorem safe_cell_neutral:
  "(safe_cell rt v = [] \<or> hd (safe_cell rt v) \<notin> set dangerous_prefixes) \<and>
   safe_cell rt (PStr (safe_cell rt v)) = safe_cell rt v \<and>
   (v = PNone \<or> safe_cell rt v = py_str rt v \<or> safe_cell rt v = CHR 0x27 # py_str rt v)"
proof -
  have "safe_cell rt (PStr (safe_cell rt v)) = safe_cell rt v"
    using safe_cell_cases [of rt v] by (auto simp: safe_cell_str)
  moreover have "v = PNone \<or> safe_cell rt v = py_str rt v \<or> safe_cell rt v = CHR 0x27 # py_str rt v"
    by (auto simp: safe_cell_def Let_def)
  ultimately show ?thesis using safe_cell_cases by blast
qed

section \<open>Personal data\<close>

text \<open>Two rows with the same columns that differ only in which nonempty text a column of \<open>cols\<close> holds.\<close>

definition nonempty_texts :: "pyval \<Rightarrow> pyval \<Rightarrow> bool" where
  "nonempty_texts v w = (case v of PStr s \<Rightarrow> s \<noteq> [] \<and> (case w of PStr t \<Rightarrow> t \<noteq> [] | _ \<Rightarrow> False) | _ \<Rightarrow> False)"

definition same_but_for :: "(string \<Rightarrow> bool) \<Rightarrow> pydict \<Rightarrow> pydict \<Rightarrow> bool" where
  "same_but_for P r1 r2 \<longleftrightarrow>
     list_all2 (\<lambda>(k1, v1) (k2, v2). k1 = k2 \<and> (v1 = v2 \<or> P k1 \<and> nonempty_texts v1 v2)) r1 r2"

lemma redact_cell_same:
  "nonempty_texts v w \<Longrightarrow> strategy \<noteq> ''hash'' \<Longrightarrow> redact_cell H strategy True v = redact_cell H strategy True w"
  by (cases v; cases w) (simp_all add: nonempty_texts_def redact_cell_def)

lemma same_redacted:
  assumes "same_but_for P r1 r2" and "strategy \<noteq> ''hash''"
  shows "map (\<lambda>(key, v). (key, redact_cell H strategy (P key) v)) r1 =
         map (\<lambda>(key, v). (key, redact_cell H strategy (P key) v)) r2"
  using assms(1) unfolding same_but_for_def
proof (induction r1 r2 rule: list_all2_induct)
  case (Cons x xs y ys)
  then show ?case
    using redact_cell_same [OF _ assms(2), of "snd x" "snd y" H] by (cases x; cases y) auto
qed simp

text \<open>
  Claim C36 (safety). A caller without the permission learns nothing about personal data from a
  row redacted with any strategy but \<open>hash\<close>: rows that differ only in which nonempty texts the
  columns to redact hold (the default ones or those the caller of the function names) give the same export, and so do the
  additional fields whose key carries a marker. That a cell was empty or not, and values that are not text, remain visible.
  With the strategy \<open>hash\<close> the digest prefix of the text is written instead, which tells texts apart.
\<close>

theorem redaction_noninterference:
  assumes "\<not> caller_has_full_pii scopes" and "strategy \<noteq> ''hash''"
    and "same_but_for (\<lambda>k. k \<in> set (case columns of None \<Rightarrow> default_pii_columns | Some cs \<Rightarrow> cs)) r1 r2" and "same_but_for pii_key x1 x2"
  shows "redact_pii_row H scopes columns strategy r1 = redact_pii_row H scopes columns strategy r2 \<and>
         redact_pii_extras scopes x1 = redact_pii_extras scopes x2"
  using assms(1) same_redacted [OF assms(3,2), of H] same_redacted [OF assms(4), of "''placeholder''" "\<lambda>_. []"]
  by (simp add: redact_pii_row_def redact_pii_extras_def)

theorem redaction_noninterference_witness:
  "redact_pii_row (\<lambda>s. s) (Some [''fda.export'']) None ''placeholder'' [(''Location Name'', PStr ''Farm A''), (''TLC'', PStr ''L1'')] =
   redact_pii_row (\<lambda>s. s) (Some [''fda.export'']) None ''placeholder'' [(''Location Name'', PStr ''B''), (''TLC'', PStr ''L1'')]"
proof -
  have "\<not> caller_has_full_pii (Some [''fda.export''])" by code_simp
  moreover have "same_but_for (\<lambda>k. k \<in> set default_pii_columns) [(''Location Name'', PStr ''Farm A''), (''TLC'', PStr ''L1'')]
      [(''Location Name'', PStr ''B''), (''TLC'', PStr ''L1'')]"
    by code_simp
  moreover have "same_but_for pii_key [] []" by (simp add: same_but_for_def)
  ultimately show ?thesis
    using redaction_noninterference [of "Some [''fda.export'']" "''placeholder''" None] by simp
qed

text \<open>The scopes that lift redaction are covered by the permission check of the routers.\<close>

lemma normalize_dots: "py_lower (py_strip s) = t \<Longrightarrow> CHR '':'' \<notin> set t \<Longrightarrow> normalize_permission (PStr s) = t"
proof -
  have "CHR '':'' \<notin> set t \<Longrightarrow> replace_char (CHR '':'') ''.'' t = t" for t
    unfolding replace_char_def by (induction t) auto
  then show "py_lower (py_strip s) = t \<Longrightarrow> CHR '':'' \<notin> set t \<Longrightarrow> normalize_permission (PStr s) = t"
    by (simp add: normalize_permission_def)
qed

text \<open>
  Whoever receives unredacted rows holds, by the permission matching of
  the routers, one of the two permissions for personal data: the shortcut test of the exporter
  never grants what the permission system would refuse.
\<close>

theorem full_pii_is_permitted:
  assumes "caller_has_full_pii (Some scopes)"
  shows "has_permission (PList (map PStr scopes)) (PStr pii_permission) = Inr True \<or>
         has_permission (PList (map PStr scopes)) (PStr ''fda.export.pii'') = Inr True"
proof -
  obtain s where s: "s \<in> set scopes" and l: "py_lower (py_strip s) \<in> {''*'', ''fda.export.full_pii'', ''fda.export.pii'', ''fda.*'', ''fda:*''}"
    using assms by (auto simp: caller_has_full_pii_def Let_def list_ex_iff pii_permission_aliases_def)
  have norms: "normalize_permission (PStr pii_permission) = ''fda.export.full_pii''"
      "normalize_permission (PStr ''fda.export.pii'') = ''fda.export.pii''" "replace_char (CHR '':'') ''.'' ''fda:*'' = ''fda.*''"
    by code_simp+
  have n: "normalize_permission (PStr s) \<in> {''*'', ''fda.export.full_pii'', ''fda.export.pii'', ''fda.*''}"
    using l normalize_dots [of s] norms(3) by (auto simp: normalize_permission_def)
  have impl: "implies_normalized ''*'' ''fda.export.full_pii''" "implies_normalized ''fda.export.full_pii'' ''fda.export.full_pii''"
      "implies_normalized ''fda.*'' ''fda.export.full_pii''" "implies_normalized ''fda.export.pii'' ''fda.export.pii''"
    by code_simp+
  have "permission_implies (PStr s) (PStr pii_permission) \<or> permission_implies (PStr s) (PStr ''fda.export.pii'')"
    using n impl by (auto simp: permission_implies_def norms)
  then show ?thesis using s
    by (auto simp: has_permission_def permission_list_def py_iter_def list_ex_iff)
qed

theorem full_pii_is_permitted_witness:
  "has_permission (PList (map PStr [''fda:*''])) (PStr pii_permission) = Inr True \<or>
   has_permission (PList (map PStr [''fda:*''])) (PStr ''fda.export.pii'') = Inr True"
  by (rule full_pii_is_permitted) code_simp

text \<open>The converse fails: \<open>fda.export.*\<close> implies the permission and its holder gets redacted rows.\<close>

lemma namespace_grant_redacted:
  "has_permission (PList [PStr ''fda.export.*'']) (PStr pii_permission) = Inr True \<and>
   \<not> caller_has_full_pii (Some [''fda.export.*''])"
  by code_simp

section \<open>Windows\<close>

text \<open>
  A validated export window is ordered and at most \<open>max_days\<close> long, both of its
  ends are the dates the two inputs denote, and an absent or empty bound is always refused: no
  export is open on one side.
\<close>

theorem export_window_bounded:
  assumes "validate_export_window rt df max_days start fin = Inr w"
  shows "0 \<le> span_days w \<and> span_days w \<le> max_days \<and>
    coerce rt df ''start_date'' start = Inr (ew_start w) \<and> coerce rt df ''end_date'' fin = Inr (ew_end w) \<and>
    start \<notin> {PNone, PStr []} \<and> fin \<notin> {PNone, PStr []}"
  using assms
  by (auto simp: validate_export_window_def span_days_def Let_def coerce_def and_then_eq_Inr_iff split: if_splits)

theorem export_window_bounded_witness:
  "span_days \<lparr>ew_start = 700000, ew_end = 700090\<rparr> \<le> max_export_window_days"
proof -
  have "validate_export_window example_rt (\<lambda>_. Inl TypeError) max_export_window_days (PDate 700000) (PDate 700090) =
      Inr \<lparr>ew_start = 700000, ew_end = 700090\<rparr>"
    by code_simp
  from export_window_bounded [OF this] show ?thesis by simp
qed

section \<open>File names\<close>

lemma replace_dots_safe: "list_all safe_char s \<Longrightarrow> list_all safe_char (replace_dots s)"
  by (induction s rule: replace_dots.induct) (auto simp: safe_char_def)

lemma replace_dots_length: "length (replace_dots s) \<le> length s"
  by (induction s rule: replace_dots.induct) auto

lemma collapse_dots_ok:
  "\<not> py_contains ''..'' (collapse_dots s) \<and> length (collapse_dots s) \<le> length s \<and>
   (list_all safe_char s \<longrightarrow> list_all safe_char (collapse_dots s))"
proof (induction s rule: collapse_dots.induct)
  case (1 s)
  show ?case
  proof (cases "py_contains ''..'' s")
    case True
    then show ?thesis using 1 [OF True] replace_dots_safe [of s] replace_dots_length [of s]
      by (subst (1 2 3) collapse_dots.simps) auto
  next
    case False
    then show ?thesis by (subst (1 2 3) collapse_dots.simps) auto
  qed
qed

lemma py_slice_0: "0 \<le> j \<Longrightarrow> py_slice 0 j xs = take (nat j) xs"
  by (simp add: py_slice_def)

text \<open>A token is a nonempty text of the whitelist without two dots in a row, at most as long as asked (the word "all" apart).\<close>

definition good_token :: "int \<Rightarrow> string \<Rightarrow> bool" where
  "good_token n t \<longleftrightarrow> t \<noteq> [] \<and> list_all safe_char t \<and> \<not> py_contains ''..'' t \<and> int (length t) \<le> max n 3"

lemma safe_filename_token_good: "0 \<le> n \<Longrightarrow> good_token n (safe_filename_token rt n raw)"
proof -
  assume n: "0 \<le> n"
  define c where "c = py_slice 0 n (map (\<lambda>c. if safe_char c then c else CHR ''_'') (py_str rt raw))"
  have "safe_char (CHR ''_'')" by (simp add: safe_char_def)
  then have "list_all safe_char c"
    unfolding c_def py_slice_0 [OF n] by (auto simp: list_all_iff dest!: in_set_takeD)
  moreover have "int (length c) \<le> n" unfolding c_def py_slice_0 [OF n] using n by simp
  ultimately have c: "list_all safe_char c" "int (length c) \<le> n" by blast+
  have all: "good_token n ''all''"
    by (simp add: good_token_def safe_char_def is_ascii_alpha_def ord_def)
  show ?thesis
    using collapse_dots_ok [of c] c all
    by (auto simp: safe_filename_token_def Let_def c_def [symmetric] good_token_def max_def)
qed

lemma py_join_safe: "list_all (list_all safe_char) ws \<Longrightarrow> list_all safe_char (py_join ''_'' ws)"
  by (induction ws rule: induct_list012) (auto simp: safe_char_def)

text \<open>
  An attachment file name consists of characters of the whitelist only,
  whatever the request put into its parts: no carriage return, line feed, quote, blank or path
  separator can reach the header. Each token is also free of two dots in a row.
\<close>

theorem safe_filename_charset:
  "list_all safe_char (safe_filename rt pre start fin scope timestamp extension) \<and>
   \<not> list_ex (\<lambda>c. c \<in> {CHR 0x0A, CHR 0x0D, CHR 0x22, CHR '' '', CHR ''/'', CHR 0x5C})
       (safe_filename rt pre start fin scope timestamp extension)"
proof -
  have t: "list_all safe_char (safe_filename_token rt n v)" if "0 \<le> n" for n v
    using safe_filename_token_good [OF that, of rt v] by (simp add: good_token_def)
  have "safe_char (CHR ''.'')" "safe_char (CHR ''_'')" by (simp_all add: safe_char_def)
  then have all: "list_all safe_char (safe_filename rt pre start fin scope timestamp extension)"
    unfolding safe_filename_def Let_def
    by (auto simp: t max_filename_token_def intro!: py_join_safe split: option.split)
  have "safe_char c \<Longrightarrow> c \<notin> {CHR 0x0A, CHR 0x0D, CHR 0x22, CHR '' '', CHR ''/'', CHR 0x5C}" for c
    by (auto simp: safe_char_def is_ascii_alpha_def is_dec_digit_def ord_def)
  with all show ?thesis by (auto simp: list_all_iff list_ex_iff)
qed

text \<open>Two dots can still meet where the last token and the extension are joined.\<close>

lemma joined_dots: "safe_filename example_rt ''report.'' PNone PNone None None ''csv'' = ''report..csv''"
  by code_simp

section \<open>Pagination\<close>

text \<open>
  A fetcher that serves the list \<open>xs\<close>: every cursor denotes an offset, a page before the end is a
  nonempty piece from that offset, and its cursor denotes the offset behind it, or is absent
  when nothing is left.
\<close>

definition serves :: "('s, 'a) fetcher \<Rightarrow> int \<Rightarrow> (string option \<Rightarrow> nat) \<Rightarrow> 'a list \<Rightarrow> bool" where
  "serves fetch limit off xs \<longleftrightarrow> off None = 0 \<and>
     (\<forall>c s. off c < length xs \<longrightarrow>
        (\<exists>s' k nxt. fetch c limit s = (s', Inr (take k (drop (off c) xs), nxt)) \<and> 0 < k \<and>
           (if nxt = None \<or> nxt = Some [] then length xs \<le> off c + k
            else off nxt = min (length xs) (off c + k)))) \<and>
     (\<forall>c s. length xs \<le> off c \<longrightarrow> (\<exists>s' nxt. fetch c limit s = (s', Inr ([], nxt))))"

text \<open>What is left from offset \<open>o\<close> on is yielded to the end, or the cap raises on the way.\<close>

definition pages_ok :: "int option \<Rightarrow> 'a list \<Rightarrow> nat \<Rightarrow> ('s, 'a) page_run option \<Rightarrow> bool" where
  "pages_ok cap xs o1 r \<longleftrightarrow>
     (\<exists>s bs. [] \<notin> set bs \<and>
        (if over_cap cap (int (length xs)) \<and> o1 < length xs
         then r = Some (s, bs, Inl (cap_error cap)) \<and> prefix (concat bs) (drop o1 xs) \<and>
              \<not> (bs \<noteq> [] \<and> over_cap cap (int (o1 + length (concat bs))))
         else r = Some (s, bs, Inr ()) \<and> concat bs = drop o1 xs))"

lemma pages_ok_Cons:
  assumes "pages_ok cap xs (min (length xs) (o1 + k)) (Some (s, bs, r))" and "0 < k" and "o1 < length xs"
    and "\<not> over_cap cap (int (min (length xs) (o1 + k)))"
  shows "pages_ok cap xs o1 (Some (s, take k (drop o1 xs) # bs, r))"
proof -
  let ?b = "take k (drop o1 xs)"
  have b: "?b \<noteq> []" "length ?b = min (length xs) (o1 + k) - o1" using assms(2,3) by auto
  have d: "drop o1 xs = ?b @ drop (min (length xs) (o1 + k)) xs"
    using assms(3) by (metis append_take_drop_id drop_all drop_drop add.commute linorder_le_cases min.absorb1 min.absorb2 order_refl)
  show ?thesis
  proof (cases "over_cap cap (int (length xs))")
    case True
    then have "min (length xs) (o1 + k) < length xs" using assms(4) by (auto simp: min_def)
    then have m: "min (length xs) (o1 + k) = o1 + k" by simp
    from assms(1) True \<open>min _ _ < _\<close> have "[] \<notin> set bs" "r = Inl (cap_error cap)"
      and p: "prefix (concat bs) (drop (o1 + k) xs)" "\<not> (bs \<noteq> [] \<and> over_cap cap (int (o1 + k + length (concat bs))))"
      by (simp_all add: pages_ok_def m)
    moreover have "prefix (concat (?b # bs)) (drop o1 xs)" using p(1) d [unfolded m] by (metis concat.simps(2) same_prefix_prefix)
    moreover have "\<not> over_cap cap (int (o1 + length (concat (?b # bs))))"
      using p(2) assms(4) b(2) by (cases "bs = []") (simp_all add: m add.assoc)
    ultimately show ?thesis using True assms(3) b(1)
      unfolding pages_ok_def by (intro exI [of _ s] exI [of _ "?b # bs"]) simp
  next
    case False
    with assms(1) b d show ?thesis by (auto simp: pages_ok_def)
  qed
qed

lemma pages_serves:
  assumes serves: "serves fetch limit off xs" and "int (off c) = n" and "off c \<le> length xs"
  shows "pages_ok cap xs (off c) (pages fetch limit cap c n s)"
  using assms(2,3)
proof (induction "length xs - off c" arbitrary: c n s rule: less_induct)
  case less
  show ?case
  proof (cases "off c < length xs")
    case False
    then have "length xs \<le> off c" by simp
    then obtain s' nxt where "fetch c limit s = (s', Inr ([], nxt))"
      using serves unfolding serves_def by blast
    with False show ?thesis by (subst pages.simps) (simp add: pages_ok_def)
  next
    case True
    then obtain s' k nxt where f: "fetch c limit s = (s', Inr (take k (drop (off c) xs), nxt))" and k: "0 < k"
      and nxt: "if nxt = None \<or> nxt = Some [] then length xs \<le> off c + k else off nxt = min (length xs) (off c + k)"
      using serves unfolding serves_def by metis
    let ?b = "take k (drop (off c) xs)"
    have b: "?b \<noteq> []" "n + int (length ?b) = int (min (length xs) (off c + k))"
      using True k less.prems(1) by auto
    show ?thesis
    proof (cases "over_cap cap (n + int (length ?b))")
      case over: True
      then have "over_cap cap (int (length xs))"
        unfolding b(2) by (auto simp: over_cap_def split: option.splits)
      with over f b(1) True show ?thesis
        by (subst pages.simps) (simp add: pages_ok_def)
    next
      case False
      note under = this
      show ?thesis
      proof (cases "nxt = None \<or> nxt = Some []")
        case True
        with nxt have e: "length xs \<le> off c + k" by simp
        with under b(2) have "\<not> over_cap cap (int (length xs))" by (simp add: min_absorb1)
        moreover have "?b = drop (off c) xs" using e by simp
        ultimately show ?thesis using f b(1) under True
          by (subst pages.simps) (auto simp: pages_ok_def intro!: exI [of _ "[?b]"])
      next
        case False
        with nxt have off: "off nxt = min (length xs) (off c + k)" by simp
        let ?r = "pages fetch limit cap nxt (n + int (length ?b)) s'"
        have ok: "pages_ok cap xs (min (length xs) (off c + k)) ?r"
          using less.hyps [of nxt "n + int (length ?b)" s'] off b(2) True k by (simp add: min_def split: if_splits)
        then obtain s2 bs r where r: "?r = Some (s2, bs, r)" by (auto simp: pages_ok_def split: if_splits)
        have "pages fetch limit cap c n s = Some (s2, ?b # bs, r)"
          using f b(1) under False r by (subst pages.simps) auto
        with pages_ok_Cons [OF ok [unfolded r] k True] under b(2) show ?thesis by simp
      qed
    qed
  qed
qed

text \<open>
  Claim C37 (termination). Pagination over a fetcher that serves a result set always ends and never
  truncates it: without a cap, or within it, the batches are nonempty and their concatenation is
  the whole result set; when the set is larger than the cap, the run ends with the error, after
  a proper part of the set.
\<close>

theorem paginate_complete:
  assumes "serves fetch batch_size off xs" and "0 < batch_size"
  shows "\<exists>s' batches. [] \<notin> set batches \<and>
    (if over_cap max_events (int (length xs)) \<and> xs \<noteq> []
     then paginate fetch batch_size max_events s = Some (s', batches, Inl (cap_error max_events)) \<and>
          prefix (concat batches) xs \<and> concat batches \<noteq> xs
     else paginate fetch batch_size max_events s = Some (s', batches, Inr ()) \<and> concat batches = xs)"
proof -
  have "off None = 0" using assms(1) by (simp add: serves_def)
  with pages_serves [OF assms(1), of None 0 max_events s]
  have "pages_ok max_events xs 0 (paginate fetch batch_size max_events s)"
    using assms(2) by (simp add: paginate_def)
  then show ?thesis unfolding pages_ok_def by (auto split: if_splits)
qed

text \<open>A fetcher over a list whose cursor is a unary offset.\<close>

definition list_fetch :: "'a list \<Rightarrow> (unit, 'a) fetcher" where
  "list_fetch xs c limit s =
     (let o1 = (case c of None \<Rightarrow> 0 | Some t \<Rightarrow> length t); batch = take (nat limit) (drop o1 xs); o2 = o1 + length batch
      in (s, Inr (batch, if length xs \<le> o2 then None else Some (replicate o2 (CHR ''i'')))))"

definition unary :: "string option \<Rightarrow> nat" where
  "unary c = (case c of None \<Rightarrow> 0 | Some t \<Rightarrow> length t)"

lemma list_fetch_serves: "0 < limit \<Longrightarrow> serves (list_fetch xs) limit unary xs"
  unfolding serves_def list_fetch_def unary_def Let_def
  by (auto split: option.split intro!: exI [of _ "nat limit"] simp: min_def)

theorem paginate_complete_witness:
  "(\<exists>s' batches. paginate (list_fetch [1, 2, 3, 4, 5 :: int]) 2 None () = Some (s', batches, Inr ()) \<and> concat batches = [1, 2, 3, 4, 5]) \<and>
   (\<exists>s' batches. paginate (list_fetch [1, 2, 3, 4, 5 :: int]) 2 (Some 4) () = Some (s', batches, Inl (cap_error (Some 4))))"
  using paginate_complete [OF list_fetch_serves [of 2 "[1, 2, 3, 4, 5 :: int]"], of None "()"]
    paginate_complete [OF list_fetch_serves [of 2 "[1, 2, 3, 4, 5 :: int]"], of "Some 4" "()"]
  by (auto simp: over_cap_def)

text \<open>
  A page that is empty ends the run even when the fetcher handed out a cursor to
  more: every event behind an empty page is dropped without an error.
\<close>

theorem empty_page_truncates:
  assumes "fetch None batch_size s = (s1, Inr ([], Some cursor))" and "0 < batch_size"
  shows "paginate fetch batch_size max_events s = Some (s1, [], Inr ())"
  using assms by (subst paginate_def, subst pages.simps) simp

definition gap_fetch :: "(unit, nat) fetcher" where
  "gap_fetch c limit s = (s, Inr (if c = None then ([], Some ''p2'') else ([1, 2], None)))"

theorem empty_page_truncates_witness:
  "paginate gap_fetch 500 None () = Some ((), [], Inr ())"
  by (rule empty_page_truncates) (simp_all add: gap_fetch_def)

end
