(* ===== verification/PyDict.thy ===== *)
theory PyDict
  imports PyBase
begin

text \<open>
  Dictionaries whose order matters: association lists in the order of insertion, with the
  operations the source uses to build and to group them.
\<close>

text \<open>\<open>d[k] = v\<close>\<close>

fun put :: "'k \<Rightarrow> 'v \<Rightarrow> ('k \<times> 'v) list \<Rightarrow> ('k \<times> 'v) list" where
  "put k v [] = [(k, v)]"
| "put k v ((k', v') # d) = (if k' = k then (k, v) # d else (k', v') # put k v d)"

text \<open>\<open>setdefault(key, []).append(x)\<close> over a list: the groups in the order of first occurrence.\<close>

definition group_rows :: "('a \<Rightarrow> 'k) \<Rightarrow> 'a list \<Rightarrow> ('k \<times> 'a list) list" where
  "group_rows key xs = map (\<lambda>k. (k, filter (\<lambda>x. key x = k) xs)) (rev (remdups (rev (map key xs))))"

text \<open>A dictionary built from pairs: the place of the first, the value of the last.\<close>

definition dict_of :: "('k \<times> 'v) list \<Rightarrow> ('k \<times> 'v) list" where
  "dict_of ps = foldl (\<lambda>d (k, v). put k v d) [] ps"

section \<open>Facts\<close>

lemma keys_put [simp]: "fst ` set (put k v d) = insert k (fst ` set d)"
  by (induction d rule: put.induct) auto

lemma distinct_put [simp]: "distinct (map fst d) \<Longrightarrow> distinct (map fst (put k v d))"
  by (induction k v d rule: put.induct) (auto simp: image_iff)

lemma mem_putD: "x \<in> set (put k v d) \<Longrightarrow> x = (k, v) \<or> x \<in> set d"
  by (induction k v d rule: put.induct) (auto split: if_splits)

lemma put_not_Nil [simp]: "put k v d \<noteq> []"
  by (cases "(k, v, d)" rule: put.cases) auto

lemma Nil_put [simp]: "[] \<noteq> put k v d"
  by (metis put_not_Nil)

lemma map_of_put [simp]: "map_of (put k v d) = (map_of d)(k \<mapsto> v)"
  by (induction k v d rule: put.induct) (auto simp: fun_eq_iff)

lemma group_rowsD:
  assumes "(k, rows) \<in> set (group_rows key xs)"
  shows "rows = filter (\<lambda>x. key x = k) xs \<and> rows \<noteq> [] \<and> k \<in> key ` set xs"
  using assms by (auto simp: group_rows_def filter_empty_conv)

lemma group_rows_mem: "x \<in> set xs \<Longrightarrow> (key x, filter (\<lambda>y. key y = key x) xs) \<in> set (group_rows key xs)"
  by (auto simp: group_rows_def)

lemma dict_of_not_Nil: "ps \<noteq> [] \<Longrightarrow> dict_of ps \<noteq> []"
  by (cases ps rule: rev_cases) (auto simp: dict_of_def split: prod.splits)

lemma dict_of_keys: "fst ` set (dict_of ps) = fst ` set ps"
proof -
  have "fst ` set (foldl (\<lambda>d (k, v). put k v d) d ps) = fst ` set d \<union> fst ` set ps" for d
  proof (induction ps arbitrary: d)
    case (Cons kv ps)
    then show ?case by (cases kv) simp
  qed simp
  then show ?thesis by (simp add: dict_of_def)
qed

end
