(* ===== verification/RecallCustody.thy ===== *)
theory RecallCustody
  imports FdaExport PyDict "HOL-Library.Char_ord" "HOL-Library.List_Lexorder" "HOL-Library.Product_Lexorder"
begin

text \<open>
  \<^verbatim>\<open>services/shared/recall_reconstruction/\<close>: the record types (\<^verbatim>\<open>records.py\<close>, \<^verbatim>\<open>labels.py\<close>) and the
  builder of the per-pallet custody timelines with the gaps it finds (\<^verbatim>\<open>chain.py\<close>). Dictionaries
  whose order matters are association lists in the order of insertion. Times are aware, as the
  loader makes them, and compare as instants. Of \<^verbatim>\<open>RecordSet\<close> the fixture directory and the copy of the
  sync manifest are left out: neither module reads them.
\<close>

section \<open>Labels and records\<close>

datatype LinkLabel = LINKED | NO_LINK_ESTABLISHED | UNRESOLVED

datatype FindingType =
    MISSING_HANDOFF_SHIPPING
  | MISSING_HANDOFF_RECEIVING
  | MISSING_PALLET_CONTENTS
  | CONFLICTING_PALLET_CONTENTS
  | UNMATCHED_IDENTIFIER
  | QUANTITY_DISCREPANCY
  | SOURCE_UNAVAILABLE_AFTER_CUTOFF

fun finding_value :: "FindingType \<Rightarrow> string" where
  "finding_value MISSING_HANDOFF_SHIPPING = ''missing_handoff_shipping''"
| "finding_value MISSING_HANDOFF_RECEIVING = ''missing_handoff_receiving''"
| "finding_value MISSING_PALLET_CONTENTS = ''missing_pallet_contents''"
| "finding_value CONFLICTING_PALLET_CONTENTS = ''conflicting_pallet_contents''"
| "finding_value UNMATCHED_IDENTIFIER = ''unmatched_identifier''"
| "finding_value QUANTITY_DISCREPANCY = ''quantity_discrepancy''"
| "finding_value SOURCE_UNAVAILABLE_AFTER_CUTOFF = ''source_unavailable_after_cutoff''"

record SourceRef =
  sx_file :: string
  sx_row_number :: int
  sx_record_id :: string
  sx_file_sha256 :: string
  sx_source_system :: string

record SourceFile =
  fl_name :: string
  fl_source_system :: string
  fl_available :: bool
  fl_path :: "string option"
  fl_sha256 :: "string option"
  fl_synced_at :: "string option"
  fl_retained_from :: "string option"
  fl_unavailable_reason :: "string option"
  fl_row_count :: nat

record LotRecord =
  lt_lot_code :: string
  lt_gtin :: string
  lt_product_description :: string
  lt_quantity :: "pyfloat option"
  lt_unit_of_measure :: string
  lt_produced_at :: pydatetime
  lt_location_gln :: string
  lt_location_name :: string
  lt_source_ref :: SourceRef

record ContentsAssertion =
  ca_record_id :: string
  ca_pallet_id :: string
  ca_lot_code :: string
  ca_quantity :: "pyfloat option"
  ca_unit_of_measure :: string
  ca_recorded_at :: pydatetime
  ca_location_gln :: string
  ca_location_name :: string
  ca_source_ref :: SourceRef
  ca_derived_from :: "string list"
  ca_process_type :: "string option"

record Shipment =
  sh_shipment_id :: string
  sh_pallet_id :: string
  sh_from_gln :: string
  sh_from_name :: string
  sh_to_gln :: string
  sh_to_name :: string
  sh_shipped_at :: pydatetime
  sh_source_ref :: SourceRef

record ManualCorrection =
  mc_correction_id :: string
  mc_target_file :: string
  mc_target_record_id :: string
  mc_field :: string
  mc_value :: string
  mc_author :: string
  mc_reason :: string
  mc_evidence_ref :: string
  mc_asserted_at :: pydatetime
  mc_source_ref :: SourceRef
  mc_applied :: bool
  mc_not_applied_reason :: "string option"

record Receipt =
  rc_receipt_id :: string
  rc_shipment_ref :: "string option"
  rc_pallet_id :: string
  rc_location_gln :: string
  rc_location_name :: string
  rc_received_at :: pydatetime
  rc_counted_quantity :: "pyfloat option"
  rc_unit_of_measure :: string
  rc_source_ref :: SourceRef
  rc_corrections :: "ManualCorrection list"

record RepackRow =
  rw_record_id :: string
  rw_process_type :: string
  rw_input_pallet_id :: string
  rw_output_pallet_id :: string
  rw_lot_code :: string
  rw_quantity :: "pyfloat option"
  rw_unit_of_measure :: string
  rw_performed_at :: pydatetime
  rw_location_gln :: string
  rw_location_name :: string
  rw_source_ref :: SourceRef

record RequiredRecord =
  rd_record_type :: string
  rd_custodian :: string
  rd_location_gln :: string
  rd_after :: "pydatetime option"
  rd_before :: "pydatetime option"
  rd_detail :: string

record Finding =
  fi_finding_id :: string
  fi_type :: FindingType
  fi_pallet_id :: "string option"
  fi_lot_code :: "string option"
  fi_description :: string
  fi_blocking :: bool
  fi_source_refs :: "SourceRef list"
  fi_required_record :: "RequiredRecord option"
  fi_attributed_to_cutoff :: "(string \<times> string) option"
  fi_related_pallet_ids :: "string list"

record RecordSet =
  rs_case :: string
  rs_files :: "SourceFile list"
  rs_lots :: "LotRecord list"
  rs_contents :: "ContentsAssertion list"
  rs_shipments :: "Shipment list"
  rs_receipts :: "Receipt list"
  rs_repack_rows :: "RepackRow list"
  rs_corrections :: "ManualCorrection list"
  rs_load_findings :: "Finding list"
  rs_cutoffs :: "(string \<times> string) list"

text \<open>The interpreter: the runtime, the digest, and the float formats \<open>g\<close> and \<open>+g\<close>.\<close>

record recall_env =
  re_rt :: pyrt
  re_H :: "string \<Rightarrow> string"
  re_fmt_g :: "pyfloat \<Rightarrow> string"
  re_fmt_plus_g :: "pyfloat \<Rightarrow> string"

definition finding_id_for :: "recall_env \<Rightarrow> FindingType \<Rightarrow> string option \<Rightarrow> string option \<Rightarrow> string \<Rightarrow> string" where
  "finding_id_for env ftype pallet_id lot_code description =
     ''F-'' @ take 10 (re_H env (finding_value ftype @ ''|'' @ str_or pallet_id [] @ ''|'' @ str_or lot_code [] @ ''|'' @ description))"

definition short_ref :: "SourceRef \<Rightarrow> string" where
  "short_ref r = sx_file r @ ''#row'' @ int_str (sx_row_number r) @ ''('' @ sx_record_id r @ '')''"

definition iso :: "recall_env \<Rightarrow> pydatetime \<Rightarrow> string" where
  "iso env d = rt_isoformat (re_rt env) (PDatetime d)"

definition sentence :: "recall_env \<Rightarrow> RequiredRecord \<Rightarrow> string" where
  "sentence env r =
     (let window = (case (rd_after r, rd_before r) of
            (Some a, Some b) \<Rightarrow> '' between '' @ iso env a @ '' and '' @ iso env b
          | (Some a, None) \<Rightarrow> '' after '' @ iso env a
          | (None, Some b) \<Rightarrow> '' before '' @ iso env b
          | (None, None) \<Rightarrow> [])
      in rd_record_type r @ '' from '' @ rd_custodian r @ '' (GLN '' @ rd_location_gln r @ '')'' @ window @ '': '' @ rd_detail r)"

text \<open>Aware times as instants.\<close>

definition instant :: "pydatetime \<Rightarrow> int" where
  "instant d = (case d of Datetime w off \<Rightarrow> w - (case off of None \<Rightarrow> 0 | Some x \<Rightarrow> x))"

section \<open>Timelines\<close>

type_synonym lots = "(string \<times> pyfloat option) list"

record ContentsGroup =
  cg_record_id :: string
  cg_recorded_at :: pydatetime
  cg_location_gln :: string
  cg_location_name :: string
  cg_lots :: lots
  cg_unit_of_measure :: string
  cg_refs :: "SourceRef list"
  cg_derived_from :: "string list"
  cg_process_type :: "string option"

record RepackOp =
  ro_record_id :: string
  ro_process_type :: string
  ro_performed_at :: pydatetime
  ro_location_gln :: string
  ro_location_name :: string
  ro_inputs :: "string list"
  ro_outputs :: "(string \<times> lots) list"
  ro_unit_of_measure :: string
  ro_refs :: "SourceRef list"

datatype event_kind = KContents | KRepackOut | KReceived | KShipped | KRepackIn

datatype event_record =
    OfContents ContentsGroup
  | OfRepack RepackOp
  | OfShipment Shipment
  | OfReceipt Receipt

record PalletEvent =
  pv_kind :: event_kind
  pv_at :: pydatetime
  pv_location_gln :: string
  pv_location_name :: string
  pv_ref :: SourceRef
  pv_record :: event_record
  pv_shipment_id :: "string option"

record PalletTimeline =
  tl_pallet_id :: string
  tl_events :: "PalletEvent list"
  tl_contents_groups :: "ContentsGroup list"
  tl_parents :: "string list"
  tl_children :: "string list"
  tl_consumed_at :: "pydatetime option"
  tl_consumed_by_record :: "string option"

fun kind_order :: "event_kind \<Rightarrow> nat" where
  "kind_order KContents = 0"
| "kind_order KRepackOut = 1"
| "kind_order KReceived = 2"
| "kind_order KShipped = 3"
| "kind_order KRepackIn = 4"

fun kind_value :: "event_kind \<Rightarrow> string" where
  "kind_value KContents = ''contents''"
| "kind_value KRepackOut = ''repack_out''"
| "kind_value KReceived = ''received''"
| "kind_value KShipped = ''shipped''"
| "kind_value KRepackIn = ''repack_in''"

definition group_total :: "ContentsGroup \<Rightarrow> pyfloat option" where
  "group_total g =
     (if list_ex (\<lambda>(_, q). q = None) (cg_lots g) then None
      else Some (foldl (\<lambda>acc (_, q). fadd acc (the q)) (Fin 0) (cg_lots g)))"

definition sort_timeline :: "PalletTimeline \<Rightarrow> PalletTimeline" where
  "sort_timeline tm =
     tm\<lparr>tl_events := sort_key (\<lambda>e. (instant (pv_at e), kind_order (pv_kind e))) (tl_events tm),
        tl_contents_groups := sort_key (\<lambda>g. instant (cg_recorded_at g)) (tl_contents_groups tm)\<rparr>"

text \<open>The last group of the list that is not later than \<open>when\<close>.\<close>

definition contents_at :: "PalletTimeline \<Rightarrow> pydatetime \<Rightarrow> ContentsGroup option" where
  "contents_at tm t =
     foldl (\<lambda>latest g. if instant (cg_recorded_at g) \<le> instant t then Some g else latest) None (tl_contents_groups tm)"

definition latest_contents :: "PalletTimeline \<Rightarrow> ContentsGroup option" where
  "latest_contents tm = (case tl_contents_groups tm of [] \<Rightarrow> None | gs \<Rightarrow> Some (last gs))"

definition movements :: "PalletTimeline \<Rightarrow> PalletEvent list" where
  "movements tm = filter (\<lambda>e. pv_kind e = KShipped \<or> pv_kind e = KReceived) (tl_events tm)"

definition last_event :: "PalletTimeline \<Rightarrow> PalletEvent option" where
  "last_event tm = (case tl_events tm of [] \<Rightarrow> None | es \<Rightarrow> Some (last es))"

definition is_terminal :: "PalletTimeline \<Rightarrow> bool" where
  "is_terminal tm \<longleftrightarrow> tl_consumed_at tm = None"

definition last_location_before :: "PalletTimeline \<Rightarrow> pydatetime \<Rightarrow> PalletEvent option" where
  "last_location_before tm t =
     foldl (\<lambda>chosen e. if instant (pv_at e) < instant t then Some e else chosen) None (tl_events tm)"

section \<open>The custody model\<close>

record CustodyModel =
  cm_timelines :: "(string \<times> PalletTimeline) list"
  cm_repack_ops :: "(string \<times> RepackOp) list"
  cm_findings :: "Finding list"

definition parents_of :: "CustodyModel \<Rightarrow> string \<Rightarrow> string list" where
  "parents_of m p = (case map_of (cm_timelines m) p of None \<Rightarrow> [] | Some tm \<Rightarrow> tl_parents tm)"

text \<open>
  The loop of \<open>ancestors\<close>: the work list and the pallets seen so far, for a function giving the
  parents. It ends because every step shortens the list or adds a new pallet that occurs in the
  finite graph; the bound is the set of pallets that can still be added.
\<close>

definition graph_of :: "CustodyModel \<Rightarrow> string list" where
  "graph_of m = concat (map (\<lambda>(_, tm). tl_parents tm) (cm_timelines m))"

lemma parents_in_graph: "set (parents_of m p) \<subseteq> set (graph_of m)"
proof (cases "map_of (cm_timelines m) p")
  case (Some tm)
  then have "(p, tm) \<in> set (cm_timelines m)" by (rule map_of_SomeD)
  then have "set (tl_parents tm) \<subseteq> set (graph_of m)" by (fastforce simp: graph_of_def)
  with Some show ?thesis by (simp add: parents_of_def)
qed (simp add: parents_of_def)

function ancestors_loop :: "CustodyModel \<Rightarrow> string list \<Rightarrow> string list \<Rightarrow> string list" where
  "ancestors_loop m [] seen = seen"
| "ancestors_loop m (current # stack) seen =
     (if current \<in> set seen then ancestors_loop m stack seen
      else ancestors_loop m (stack @ parents_of m current) (seen @ [current]))"
  by pat_completeness auto

termination
proof (relation "measures [\<lambda>(m, stack, seen). card ((set (graph_of m) \<union> set stack) - set seen), \<lambda>(m, stack, seen). length stack]")
  fix m and current :: string and stack seen
  assume "current \<in> set seen"
  then have "(set (graph_of m) \<union> set (current # stack)) - set seen = (set (graph_of m) \<union> set stack) - set seen" by auto
  then show "((m, stack, seen), m, current # stack, seen) \<in>
      measures [\<lambda>(m, stack, seen). card ((set (graph_of m) \<union> set stack) - set seen), \<lambda>(m, stack, seen). length stack]"
    by simp
next
  fix m and current :: string and stack seen
  assume new: "current \<notin> set seen"
  have "(set (graph_of m) \<union> set (stack @ parents_of m current)) - set (seen @ [current]) \<subset>
      (set (graph_of m) \<union> set (current # stack)) - set seen"
    using parents_in_graph [of m current] new by auto
  from psubset_card_mono [OF _ this]
  show "((m, stack @ parents_of m current, seen @ [current]), m, current # stack, seen) \<in>
      measures [\<lambda>(m, stack, seen). card ((set (graph_of m) \<union> set stack) - set seen), \<lambda>(m, stack, seen). length stack]"
    by simp
qed simp

definition ancestors :: "CustodyModel \<Rightarrow> string \<Rightarrow> string list" where
  "ancestors m pallet_id = ancestors_loop m (parents_of m pallet_id) []"

definition in_scope :: "string list \<Rightarrow> Finding \<Rightarrow> bool" where
  "in_scope scope f \<longleftrightarrow>
     (case fi_pallet_id f of None \<Rightarrow> False | Some p \<Rightarrow> p \<in> set scope) \<or> list_ex (\<lambda>p. p \<in> set scope) (fi_related_pallet_ids f)"

definition findings_for :: "CustodyModel \<Rightarrow> string \<Rightarrow> Finding list" where
  "findings_for m pallet_id = filter (in_scope (pallet_id # ancestors m pallet_id)) (cm_findings m)"

definition blocking_findings_for :: "CustodyModel \<Rightarrow> string \<Rightarrow> Finding list" where
  "blocking_findings_for m pallet_id = filter fi_blocking (findings_for m pallet_id)"

text \<open>\<open>self.timelines[pid]\<close> raises for an ancestor without a timeline.\<close>

definition lineage_lots :: "CustodyModel \<Rightarrow> string \<Rightarrow> py_error + string list" where
  "lineage_lots m pallet_id =
     and_then (map_err (\<lambda>p. case map_of (cm_timelines m) p of
         None \<Rightarrow> Inl (KeyError p)
       | Some tm \<Rightarrow> Inr (concat (map (\<lambda>g. map fst (cg_lots g)) (tl_contents_groups tm))))
       (pallet_id # ancestors m pallet_id))
     (\<lambda>xs. Inr (concat xs))"

section \<open>The builder\<close>

record builder =
  bd_timelines :: "(string \<times> PalletTimeline) list"
  bd_repack_ops :: "(string \<times> RepackOp) list"
  bd_findings :: "Finding list"

definition new_timeline :: "string \<Rightarrow> PalletTimeline" where
  "new_timeline p =
     \<lparr>tl_pallet_id = p, tl_events = [], tl_contents_groups = [], tl_parents = [], tl_children = [], tl_consumed_at = None,
      tl_consumed_by_record = None\<rparr>"

text \<open>\<open>_tl(p)\<close>, and an update of the timeline it returns.\<close>

definition the_timeline :: "string \<Rightarrow> builder \<Rightarrow> PalletTimeline" where
  "the_timeline p b = (case map_of (bd_timelines b) p of None \<Rightarrow> new_timeline p | Some tm \<Rightarrow> tm)"

definition on_timeline :: "string \<Rightarrow> (PalletTimeline \<Rightarrow> PalletTimeline) \<Rightarrow> builder \<Rightarrow> builder" where
  "on_timeline p f b = b\<lparr>bd_timelines := put p (f (the_timeline p b)) (bd_timelines b)\<rparr>"

definition add_event :: "PalletEvent \<Rightarrow> PalletTimeline \<Rightarrow> PalletTimeline" where
  "add_event e tm = tm\<lparr>tl_events := tl_events tm @ [e]\<rparr>"

definition add_group :: "ContentsGroup \<Rightarrow> PalletTimeline \<Rightarrow> PalletTimeline" where
  "add_group g tm = tm\<lparr>tl_contents_groups := tl_contents_groups tm @ [g]\<rparr>"

definition blank_finding :: "recall_env \<Rightarrow> FindingType \<Rightarrow> string \<Rightarrow> string option \<Rightarrow> SourceRef list \<Rightarrow> Finding" where
  "blank_finding env ftype description pallet_id refs =
     \<lparr>fi_finding_id = finding_id_for env ftype pallet_id None description, fi_type = ftype, fi_pallet_id = pallet_id,
      fi_lot_code = None, fi_description = description, fi_blocking = True, fi_source_refs = refs,
      fi_required_record = None, fi_attributed_to_cutoff = None, fi_related_pallet_ids = []\<rparr>"

definition add_finding :: "Finding \<Rightarrow> builder \<Rightarrow> builder" where
  "add_finding f b = b\<lparr>bd_findings := bd_findings b @ [f]\<rparr>"

definition required :: "string \<Rightarrow> string \<Rightarrow> string \<Rightarrow> pydatetime option \<Rightarrow> pydatetime option \<Rightarrow> string \<Rightarrow> RequiredRecord" where
  "required ty cust gln aft bef detail =
     \<lparr>rd_record_type = ty, rd_custodian = cust, rd_location_gln = gln, rd_after = aft, rd_before = bef, rd_detail = detail\<rparr>"

definition earliest :: "pydatetime list \<Rightarrow> pydatetime" where
  "earliest ts = arg_min_list instant ts"

definition contents_group_of :: "string \<Rightarrow> ContentsAssertion list \<Rightarrow> ContentsGroup" where
  "contents_group_of record_id rows =
     (let first = hd rows
      in \<lparr>cg_record_id = record_id, cg_recorded_at = earliest (map ca_recorded_at rows), cg_location_gln = ca_location_gln first,
          cg_location_name = ca_location_name first, cg_lots = dict_of (map (\<lambda>r. (ca_lot_code r, ca_quantity r)) rows),
          cg_unit_of_measure = ca_unit_of_measure first, cg_refs = map ca_source_ref rows, cg_derived_from = [],
          cg_process_type = None\<rparr>)"

definition contents_event :: "ContentsGroup \<Rightarrow> PalletEvent" where
  "contents_event g =
     \<lparr>pv_kind = KContents, pv_at = cg_recorded_at g, pv_location_gln = cg_location_gln g, pv_location_name = cg_location_name g,
      pv_ref = hd (cg_refs g), pv_record = OfContents g, pv_shipment_id = None\<rparr>"

definition add_contents_assertions :: "RecordSet \<Rightarrow> builder \<Rightarrow> builder" where
  "add_contents_assertions rs b =
     foldl (\<lambda>b ((pallet_id, record_id), rows).
         let g = contents_group_of record_id rows in on_timeline pallet_id (add_event (contents_event g) \<circ> add_group g) b)
       b (group_rows (\<lambda>a. (ca_pallet_id a, ca_record_id a)) (rs_contents rs))"

section \<open>Repacks\<close>

text \<open>One row into the lots of its output pallet.\<close>

definition add_output_row :: "RepackRow \<Rightarrow> (string \<times> lots) list \<Rightarrow> (string \<times> lots) list" where
  "add_output_row row outputs =
     (let ls = (case map_of outputs (rw_output_pallet_id row) of None \<Rightarrow> [] | Some ls \<Rightarrow> ls);
          q = (case (map_of ls (rw_lot_code row), rw_quantity row) of
                 (Some (Some old), Some q) \<Rightarrow> Some (fadd old q)
               | _ \<Rightarrow> rw_quantity row)
      in put (rw_output_pallet_id row) (put (rw_lot_code row) q ls) outputs)"

definition repack_op_of :: "string \<Rightarrow> RepackRow list \<Rightarrow> RepackOp" where
  "repack_op_of record_id rows =
     (let first = hd rows
      in \<lparr>ro_record_id = record_id, ro_process_type = rw_process_type first,
          ro_performed_at = earliest (map rw_performed_at rows), ro_location_gln = rw_location_gln first,
          ro_location_name = rw_location_name first, ro_inputs = sort (remdups (map rw_input_pallet_id rows)),
          ro_outputs = foldl (\<lambda>o1 row. add_output_row row o1) [] rows, ro_unit_of_measure = rw_unit_of_measure first,
          ro_refs = map rw_source_ref rows\<rparr>)"

definition repack_event :: "event_kind \<Rightarrow> RepackOp \<Rightarrow> SourceRef \<Rightarrow> PalletEvent" where
  "repack_event kind op1 ref =
     \<lparr>pv_kind = kind, pv_at = ro_performed_at op1, pv_location_gln = ro_location_gln op1, pv_location_name = ro_location_name op1,
      pv_ref = ref, pv_record = OfRepack op1, pv_shipment_id = None\<rparr>"

text \<open>Adding the quantity of a lot to a total, in which an unknown quantity makes the total unknown.\<close>

definition add_total :: "lots \<Rightarrow> string \<times> pyfloat option \<Rightarrow> lots" where
  "add_total totals lq =
     (case lq of (lot, qty) \<Rightarrow>
        case map_of totals lot of
          None \<Rightarrow> put lot qty totals
        | Some old \<Rightarrow> put lot (case (old, qty) of (Some a, Some c) \<Rightarrow> Some (fadd a c) | _ \<Rightarrow> None) totals)"

definition unknown_input_finding :: "recall_env \<Rightarrow> RepackOp \<Rightarrow> string \<Rightarrow> Finding" where
  "unknown_input_finding env op1 p =
     (blank_finding env MISSING_PALLET_CONTENTS
        (''repack '' @ ro_record_id op1 @ '' consumed pallet '' @ p @ '' but no record states what was on it'') (Some p) (ro_refs op1))
     \<lparr>fi_related_pallet_ids := map fst (ro_outputs op1),
      fi_required_record := Some (required ''pallet contents record'' (ro_location_name op1) (ro_location_gln op1) None
        (Some (ro_performed_at op1)) (''contents of pallet '' @ p @ '' before repack '' @ ro_record_id op1))\<rparr>"

definition consume :: "RepackOp \<Rightarrow> PalletTimeline \<Rightarrow> PalletTimeline" where
  "consume op1 tm =
     add_event (repack_event KRepackIn op1 (hd (ro_refs op1)))
       (tm\<lparr>tl_consumed_at := Some (ro_performed_at op1), tl_consumed_by_record := Some (ro_record_id op1),
           tl_children := tl_children tm @ filter (\<lambda>p. p \<notin> set (tl_children tm)) (map fst (ro_outputs op1))\<rparr>)"

text \<open>One input pallet: the builder, the per-lot totals of the inputs, and the inputs of unknown contents.\<close>

definition consume_input ::
  "recall_env \<Rightarrow> RepackOp \<Rightarrow> string \<Rightarrow> builder \<times> lots \<times> string list \<Rightarrow> builder \<times> lots \<times> string list" where
  "consume_input env op1 p acc =
     (case acc of (b, totals, unknown) \<Rightarrow>
        let tm = the_timeline p b;
            b1 = on_timeline p (\<lambda>x. x) b;
            b2 = (if tl_events tm = [] \<and> tl_contents_groups tm = [] then
                    add_finding ((blank_finding env UNMATCHED_IDENTIFIER (''repack '' @ ro_record_id op1 @ '' names input pallet '' @ p @
                      '' that appears in no other record'') (Some p) (ro_refs op1))
                      \<lparr>fi_related_pallet_ids := map fst (ro_outputs op1)\<rparr>) b1
                  else b1)
        in case contents_at tm (ro_performed_at op1) of
             None \<Rightarrow> (on_timeline p (consume op1) (add_finding (unknown_input_finding env op1 p) b2), totals, unknown @ [p])
           | Some g \<Rightarrow> (on_timeline p (consume op1) b2, foldl add_total totals (cg_lots g), unknown))"

definition output_group :: "RepackOp \<Rightarrow> RepackRow list \<Rightarrow> string \<Rightarrow> lots \<Rightarrow> ContentsGroup" where
  "output_group op1 rows p ls =
     \<lparr>cg_record_id = ro_record_id op1, cg_recorded_at = ro_performed_at op1, cg_location_gln = ro_location_gln op1,
      cg_location_name = ro_location_name op1, cg_lots = ls, cg_unit_of_measure = ro_unit_of_measure op1,
      cg_refs = map rw_source_ref (filter (\<lambda>r. rw_output_pallet_id r = p) rows), cg_derived_from = ro_inputs op1,
      cg_process_type = Some (ro_process_type op1)\<rparr>"

definition add_output :: "RepackOp \<Rightarrow> RepackRow list \<Rightarrow> string \<times> lots \<Rightarrow> builder \<times> lots \<Rightarrow> builder \<times> lots" where
  "add_output op1 rows pl acc =
     (case (pl, acc) of ((p, ls), (b, totals)) \<Rightarrow>
        let g = output_group op1 rows p ls
        in (on_timeline p (\<lambda>tm. add_event (repack_event KRepackOut op1 (hd (cg_refs g)))
               ((add_group g tm)\<lparr>tl_parents := tl_parents tm @ filter (\<lambda>q. q \<notin> set (tl_parents tm)) (ro_inputs op1)\<rparr>)) b,
            foldl add_total totals ls))"

definition qty_text :: "recall_env \<Rightarrow> pyfloat option \<Rightarrow> string" where
  "qty_text env q = (case q of None \<Rightarrow> ''None'' | Some x \<Rightarrow> py_str (re_rt env) (PFloat x))"

definition fabs :: "pyfloat \<Rightarrow> pyfloat" where
  "fabs x = (case x of Fin a \<Rightarrow> Fin \<bar>a\<bar> | PInf \<Rightarrow> PInf | NInf \<Rightarrow> PInf | NaN \<Rightarrow> NaN)"

text \<open>\<open>abs(a - b) > 1e-9\<close>, with the double that the literal denotes.\<close>

definition nano :: pyfloat where
  "nano = Fin (4835703278458517 / 4835703278458516698824704)"

definition differ :: "pyfloat \<Rightarrow> pyfloat \<Rightarrow> bool" where
  "differ a c \<longleftrightarrow> flt nano (fabs (fsub a c))"

definition lot_mismatches :: "recall_env \<Rightarrow> lots \<Rightarrow> lots \<Rightarrow> string list" where
  "lot_mismatches env ins outs =
     map (\<lambda>lot. lot @ '': in='' @ qty_text env (Option.bind (map_of ins lot) (\<lambda>q. q)) @ '' out='' @
            qty_text env (Option.bind (map_of outs lot) (\<lambda>q. q)))
       (filter (\<lambda>lot. case (Option.bind (map_of ins lot) (\<lambda>q. q), Option.bind (map_of outs lot) (\<lambda>q. q)) of
            (Some a, Some c) \<Rightarrow> differ a c | _ \<Rightarrow> True)
         (sort (remdups (map fst ins @ map fst outs))))"

definition add_repack :: "recall_env \<Rightarrow> string \<times> RepackRow list \<Rightarrow> builder \<Rightarrow> builder" where
  "add_repack env rr b =
     (case rr of (record_id, rows) \<Rightarrow>
        let op1 = repack_op_of record_id rows;
            b0 = b\<lparr>bd_repack_ops := put record_id op1 (bd_repack_ops b)\<rparr>;
            (b1, input_totals, unknown_inputs) = foldl (\<lambda>acc p. consume_input env op1 p acc) (b0, [], []) (ro_inputs op1);
            (b2, output_totals) = foldl (\<lambda>acc pl. add_output op1 rows pl acc) (b1, []) (ro_outputs op1);
            mismatches = lot_mismatches env input_totals output_totals
        in if unknown_inputs = [] \<and> mismatches \<noteq> [] then
             add_finding ((blank_finding env QUANTITY_DISCREPANCY
               (''repack '' @ record_id @ '' does not reconcile per lot ('' @ py_join ''; '' mismatches @
                ''); output contents are recorded as asserted, not adjusted'') None (ro_refs op1))
               \<lparr>fi_related_pallet_ids := ro_inputs op1 @ map fst (ro_outputs op1)\<rparr>) b2
           else b2)"

definition add_repacks :: "recall_env \<Rightarrow> RecordSet \<Rightarrow> builder \<Rightarrow> builder" where
  "add_repacks env rs b =
     foldl (\<lambda>b rr. add_repack env rr b) b
       (sort_key (\<lambda>(_, rows). instant (earliest (map rw_performed_at rows))) (group_rows rw_record_id (rs_repack_rows rs)))"

section \<open>Movements\<close>

definition shipment_event :: "Shipment \<Rightarrow> PalletEvent" where
  "shipment_event s =
     \<lparr>pv_kind = KShipped, pv_at = sh_shipped_at s, pv_location_gln = sh_from_gln s, pv_location_name = sh_from_name s,
      pv_ref = sh_source_ref s, pv_record = OfShipment s, pv_shipment_id = Some (sh_shipment_id s)\<rparr>"

definition receipt_event :: "Receipt \<Rightarrow> PalletEvent" where
  "receipt_event r =
     \<lparr>pv_kind = KReceived, pv_at = rc_received_at r, pv_location_gln = rc_location_gln r, pv_location_name = rc_location_name r,
      pv_ref = rc_source_ref r, pv_record = OfReceipt r, pv_shipment_id = rc_shipment_ref r\<rparr>"

definition add_movements :: "RecordSet \<Rightarrow> builder \<Rightarrow> builder" where
  "add_movements rs b =
     foldl (\<lambda>b r. on_timeline (rc_pallet_id r) (add_event (receipt_event r)) b)
       (foldl (\<lambda>b s. on_timeline (sh_pallet_id s) (add_event (shipment_event s)) b) b (rs_shipments rs)) (rs_receipts rs)"

definition sort_timelines :: "builder \<Rightarrow> builder" where
  "sort_timelines b = b\<lparr>bd_timelines := map (\<lambda>(p, tm). (p, sort_timeline tm)) (bd_timelines b)\<rparr>"

section \<open>Checks\<close>

definition parse_ts :: "recall_env \<Rightarrow> string \<Rightarrow> py_error + pydatetime" where
  "parse_ts env v =
     (let t = py_strip v; t1 = (if suffix ''Z'' t then butlast t @ ''+00:00'' else t)
      in and_then (rt_fromisoformat (re_rt env) t1) (\<lambda>d. case d of Datetime w off \<Rightarrow>
           Inr (Datetime w (Some (case off of None \<Rightarrow> 0 | Some x \<Rightarrow> x)))))"

fun first_cutoff :: "recall_env \<Rightarrow> pydatetime \<Rightarrow> (string \<times> string) list \<Rightarrow> py_error + (string \<times> string) option" where
  "first_cutoff env t [] = Inr None"
| "first_cutoff env t ((src, cutoff) # cs) =
     and_then (parse_ts env cutoff) (\<lambda>d. if instant d < instant t then Inr (Some (src, cutoff)) else first_cutoff env t cs)"

definition cutoff_before :: "recall_env \<Rightarrow> RecordSet \<Rightarrow> pydatetime \<Rightarrow> py_error + (string \<times> string) option" where
  "cutoff_before env rs t = first_cutoff env t (sort_key fst (rs_cutoffs rs))"

fun fold_err :: "('a \<Rightarrow> 'b \<Rightarrow> 'e + 'b) \<Rightarrow> 'a list \<Rightarrow> 'b \<Rightarrow> 'e + 'b" where
  "fold_err f [] b = Inr b"
| "fold_err f (x # xs) b = and_then (f x b) (fold_err f xs)"

definition check_shipment ::
  "recall_env \<Rightarrow> RecordSet \<Rightarrow> (string \<times> string) list \<Rightarrow> (string \<times> string) \<times> Shipment \<Rightarrow> builder \<Rightarrow> py_error + builder" where
  "check_shipment env rs received ks b =
     (case ks of ((shipment_id, p), s) \<Rightarrow>
        if (shipment_id, p) \<in> set received then Inr b
        else and_then (cutoff_before env rs (sh_shipped_at s)) (\<lambda>cutoff.
          Inr (add_finding ((blank_finding env MISSING_HANDOFF_RECEIVING
            (''shipment '' @ shipment_id @ '' shows pallet '' @ p @ '' leaving '' @ sh_from_name s @ '' for '' @ sh_to_name s @
             ''; no receiving record for that pallet references this shipment'') (Some p) [sh_source_ref s])
            \<lparr>fi_attributed_to_cutoff := cutoff,
             fi_required_record := Some (required ''receiving record'' (sh_to_name s) (sh_to_gln s) (Some (sh_shipped_at s)) None
               (''receipt of pallet '' @ p @ '' against shipment '' @ shipment_id))\<rparr>) b)))"

definition custodian_of :: "PalletEvent option \<Rightarrow> string \<times> string" where
  "custodian_of prior = (case prior of None \<Rightarrow> (''unknown shipper'', []) | Some e \<Rightarrow> (pv_location_name e, pv_location_gln e))"

definition no_reference_finding :: "recall_env \<Rightarrow> Receipt \<Rightarrow> string \<times> string \<Rightarrow> Finding" where
  "no_reference_finding env r custodian =
     (blank_finding env MISSING_HANDOFF_SHIPPING
        (''receipt '' @ rc_receipt_id r @ '' of pallet '' @ rc_pallet_id r @ '' at '' @ rc_location_name r @
         '' carries no shipment reference'') (Some (rc_pallet_id r)) [rc_source_ref r])
     \<lparr>fi_required_record := Some (required ''shipping record'' (fst custodian) (snd custodian) None (Some (rc_received_at r))
        (''shipment that delivered pallet '' @ rc_pallet_id r @ '' to '' @ rc_location_name r @
         '', or an attested correction naming it''))\<rparr>"

definition cutoff_finding :: "recall_env \<Rightarrow> Receipt \<Rightarrow> string \<Rightarrow> string \<times> string \<Rightarrow> string \<times> string \<Rightarrow> py_error + Finding" where
  "cutoff_finding env r ref custodian cutoff =
     and_then (parse_ts env (snd cutoff)) (\<lambda>aft.
       Inr ((blank_finding env MISSING_HANDOFF_SHIPPING
         (''receipt '' @ rc_receipt_id r @ '' references shipment '' @ ref @ '' for pallet '' @ rc_pallet_id r @
          ''; that shipping record is not in the reviewed evidence because '' @ fst cutoff @ '' was last synchronized at '' @ snd cutoff)
         (Some (rc_pallet_id r)) [rc_source_ref r])
         \<lparr>fi_attributed_to_cutoff := Some cutoff,
          fi_required_record := Some (required ''shipping record'' (fst custodian) (snd custodian) (Some aft) (Some (rc_received_at r))
            (''shipment '' @ ref @ '' for pallet '' @ rc_pallet_id r @ '' (re-synchronize '' @ fst cutoff @
             '' or obtain the signed document)''))\<rparr>))"

definition unmatched_finding :: "recall_env \<Rightarrow> Receipt \<Rightarrow> string \<Rightarrow> string \<times> string \<Rightarrow> Finding" where
  "unmatched_finding env r ref custodian =
     (blank_finding env UNMATCHED_IDENTIFIER
        (''receipt '' @ rc_receipt_id r @ '' references shipment '' @ ref @ '' for pallet '' @ rc_pallet_id r @
         '', which no shipping record in the reviewed evidence contains'') (Some (rc_pallet_id r)) [rc_source_ref r])
     \<lparr>fi_required_record := Some (required ''shipping record'' (fst custodian) (snd custodian) None (Some (rc_received_at r))
        (''shipment '' @ ref @ '' listing pallet '' @ rc_pallet_id r))\<rparr>"

definition check_receipt ::
  "recall_env \<Rightarrow> RecordSet \<Rightarrow> (string \<times> string) list \<Rightarrow> Receipt \<Rightarrow> builder \<Rightarrow> py_error + builder" where
  "check_receipt env rs shipped r b =
     (let custodian = custodian_of (last_location_before (the_timeline (rc_pallet_id r) b) (rc_received_at r))
      in case rc_shipment_ref r of
           None \<Rightarrow> Inr (add_finding (no_reference_finding env r custodian) b)
         | Some ref \<Rightarrow>
             if (ref, rc_pallet_id r) \<in> set shipped then Inr b
             else and_then (cutoff_before env rs (rc_received_at r)) (\<lambda>cutoff.
               case cutoff of
                 Some c \<Rightarrow> and_then (cutoff_finding env r ref custodian c) (\<lambda>f. Inr (add_finding f b))
               | None \<Rightarrow> Inr (add_finding (unmatched_finding env r ref custodian) b)))"

definition check_handoffs :: "recall_env \<Rightarrow> RecordSet \<Rightarrow> builder \<Rightarrow> py_error + builder" where
  "check_handoffs env rs b =
     (let received = map (\<lambda>r. (the (rc_shipment_ref r), rc_pallet_id r)) (filter (\<lambda>r. str_or (rc_shipment_ref r) [] \<noteq> []) (rs_receipts rs));
          shipments = dict_of (map (\<lambda>s. ((sh_shipment_id s, sh_pallet_id s), s)) (rs_shipments rs))
      in and_then (fold_err (check_shipment env rs received) (sort_key fst shipments) b)
           (fold_err (check_receipt env rs (map fst shipments))
             (sort_key (\<lambda>r. (instant (rc_received_at r), rc_receipt_id r)) (rs_receipts rs))))"

definition is_candidate :: "string \<Rightarrow> PalletEvent \<Rightarrow> PalletTimeline \<Rightarrow> bool" where
  "is_candidate p first other \<longleftrightarrow>
     tl_pallet_id other \<noteq> p \<and> is_terminal other \<and>
     (case last_event other of
        None \<Rightarrow> False
      | Some e \<Rightarrow> pv_kind e = KReceived \<and> pv_location_gln e = pv_location_gln first \<and> instant (pv_at e) < instant (pv_at first))"

definition latest :: "pydatetime list \<Rightarrow> pydatetime option" where
  "latest ts = (case ts of [] \<Rightarrow> None | _ \<Rightarrow> Some (arg_min_list (\<lambda>t. - instant t) ts))"

definition candidate_text :: "recall_env \<Rightarrow> PalletTimeline list \<Rightarrow> string" where
  "candidate_text env cands =
     str_or (Some (py_join ''; '' (map (\<lambda>c. tl_pallet_id c @ '' ('' @
         py_join '', '' (map (\<lambda>(lot, q). lot @ '' '' @ qty_text env q) (case latest_contents c of None \<Rightarrow> [] | Some g \<Rightarrow> cg_lots g)) @ '')'')
       cands))) ''none identified''"

definition candidate_finding :: "recall_env \<Rightarrow> string \<Rightarrow> RequiredRecord \<Rightarrow> PalletTimeline \<Rightarrow> Finding" where
  "candidate_finding env p req c =
     (let e = the (last_event c)
      in (blank_finding env MISSING_PALLET_CONTENTS
           (''pallet '' @ tl_pallet_id c @ '' was received at '' @ pv_location_name e @ '' and has no later record; it is a possible input to pallet '' @
            p @ '', whose contents are unrecorded'') (Some (tl_pallet_id c)) [pv_ref e])
         \<lparr>fi_required_record := Some req, fi_related_pallet_ids := [p]\<rparr>)"

definition check_missing :: "recall_env \<Rightarrow> string \<times> PalletTimeline \<Rightarrow> builder \<Rightarrow> builder" where
  "check_missing env ptm b =
     (case ptm of (p, tm) \<Rightarrow>
        case movements tm of
          [] \<Rightarrow> b
        | first # _ \<Rightarrow>
            if contents_at tm (pv_at first) \<noteq> None then b
            else
              let cands = filter (is_candidate p first) (map snd (bd_timelines b));
                  req = required ''pallet contents or repack record'' (pv_location_name first) (pv_location_gln first)
                          (latest (map (\<lambda>c. pv_at (the (last_event c))) cands)) (Some (pv_at first))
                          (''what was on pallet '' @ p @ '' when it left '' @ pv_location_name first @
                           ''; pallets received there with no subsequent record and therefore possible inputs: '' @ candidate_text env cands);
                  f = (blank_finding env MISSING_PALLET_CONTENTS
                        (''pallet '' @ p @ '' was moved ('' @ kind_value (pv_kind first) @ '' at '' @ iso env (pv_at first) @ '' from '' @
                         pv_location_name first @ '') but no record states its contents'') (Some p) [pv_ref first])
                      \<lparr>fi_required_record := Some req, fi_related_pallet_ids := map tl_pallet_id cands\<rparr>
              in foldl (\<lambda>b c. add_finding (candidate_finding env p req c) b) (add_finding f b) cands)"

definition check_missing_contents :: "recall_env \<Rightarrow> builder \<Rightarrow> builder" where
  "check_missing_contents env b = foldl (\<lambda>b ptm. check_missing env ptm b) b (sort_key fst (bd_timelines b))"

definition lots_value :: "lots \<Rightarrow> pyval" where
  "lots_value ls = PDict (map (\<lambda>(lot, q). (lot, case q of None \<Rightarrow> PNone | Some x \<Rightarrow> PFloat x)) ls)"

text \<open>\<open>!=\<close> of two dictionaries: the order does not matter, and a NaN equals only itself as an object, here nothing.\<close>

definition lots_differ :: "lots \<Rightarrow> lots \<Rightarrow> bool" where
  "lots_differ a c \<longleftrightarrow>
     list_ex (\<lambda>(lot, q). case map_of c lot of
        None \<Rightarrow> True
      | Some r \<Rightarrow> (case (q, r) of (Some x, Some y) \<Rightarrow> \<not> feq x y | (None, None) \<Rightarrow> False | _ \<Rightarrow> True)) a \<or>
     list_ex (\<lambda>(lot, _). map_of a lot = None) c"

definition conflict_finding :: "recall_env \<Rightarrow> string \<Rightarrow> ContentsGroup \<Rightarrow> ContentsGroup \<Rightarrow> Finding" where
  "conflict_finding env p previous current =
     (blank_finding env CONFLICTING_PALLET_CONTENTS
        (''records '' @ cg_record_id previous @ '' and '' @ cg_record_id current @ '' disagree about pallet '' @ p @ '': '' @
         py_str (re_rt env) (lots_value (cg_lots previous)) @ '' vs '' @ py_str (re_rt env) (lots_value (cg_lots current)) @
         ''; neither is preferred'') (Some p) (cg_refs previous @ cg_refs current))
     \<lparr>fi_required_record := Some (required ''pallet contents record'' (cg_location_name current) (cg_location_gln current)
        (Some (cg_recorded_at previous)) (Some (cg_recorded_at current)) (''a record that reconciles the two statements of pallet '' @ p))\<rparr>"

definition check_conflicting_contents :: "recall_env \<Rightarrow> builder \<Rightarrow> builder" where
  "check_conflicting_contents env b =
     foldl (\<lambda>b (p, tm). foldl (\<lambda>b (previous, current).
         if cg_derived_from current = [] \<and> lots_differ (cg_lots previous) (cg_lots current)
         then add_finding (conflict_finding env p previous current) b else b)
       b (zip (tl_contents_groups tm) (List.tl (tl_contents_groups tm)))) b (sort_key fst (bd_timelines b))"

definition check_receipt_count :: "recall_env \<Rightarrow> Receipt \<Rightarrow> builder \<Rightarrow> builder" where
  "check_receipt_count env r b =
     (case contents_at (the_timeline (rc_pallet_id r) b) (rc_received_at r) of
        None \<Rightarrow> b
      | Some g \<Rightarrow>
          (case rc_counted_quantity r of
             None \<Rightarrow>
               add_finding ((blank_finding env QUANTITY_DISCREPANCY
                 (''receipt '' @ rc_receipt_id r @ '' records no count for pallet '' @ rc_pallet_id r) (Some (rc_pallet_id r)) [rc_source_ref r])
                 \<lparr>fi_blocking := False\<rparr>) b
           | Some counted \<Rightarrow>
               (case group_total g of
                  None \<Rightarrow> b
                | Some asserted \<Rightarrow>
                    if differ asserted counted then
                      add_finding ((blank_finding env QUANTITY_DISCREPANCY
                        (''receipt '' @ rc_receipt_id r @ '' counted '' @ re_fmt_g env counted @ '' on pallet '' @ rc_pallet_id r @
                         ''; records assert '' @ re_fmt_g env asserted @ '' (delta '' @ re_fmt_plus_g env (fsub counted asserted) @ '')'')
                        (Some (rc_pallet_id r)) (rc_source_ref r # cg_refs g))\<lparr>fi_blocking := False\<rparr>) b
                    else b)))"

definition names_or_none :: "recall_env \<Rightarrow> string list \<Rightarrow> string" where
  "names_or_none env ns = (if ns = [] then ''none'' else py_str (re_rt env) (PList (map PStr ns)))"

definition note_cutoff :: "recall_env \<Rightarrow> RecordSet \<Rightarrow> string \<times> string \<Rightarrow> builder \<Rightarrow> builder" where
  "note_cutoff env rs sc b =
     (case sc of (src, cutoff) \<Rightarrow>
        let of_source = (\<lambda>avail. map fl_name (filter (\<lambda>f. fl_source_system f = src \<and> fl_available f = avail) (rs_files rs)))
        in add_finding ((blank_finding env SOURCE_UNAVAILABLE_AFTER_CUTOFF
             (''source '' @ src @ '' unavailable; last successful synchronization '' @ cutoff @ ''; retained files used: '' @
              names_or_none env (of_source True) @ ''; not available: '' @ names_or_none env (of_source False) @
              ''. Movements recorded by '' @ src @ '' after '' @ cutoff @ '' cannot be established from this package'') None [])
             \<lparr>fi_blocking := False\<rparr>) b)"

definition build_custody :: "recall_env \<Rightarrow> RecordSet \<Rightarrow> py_error + CustodyModel" where
  "build_custody env rs =
     (let b0 = \<lparr>bd_timelines = [], bd_repack_ops = [], bd_findings = rs_load_findings rs\<rparr>;
          b1 = sort_timelines (add_movements rs (add_repacks env rs (add_contents_assertions rs b0)))
      in and_then (check_handoffs env rs b1) (\<lambda>b2.
           let b3 = check_conflicting_contents env (check_missing_contents env b2);
               b4 = foldl (\<lambda>b r. check_receipt_count env r b) b3 (rs_receipts rs);
               b5 = foldl (\<lambda>b sc. note_cutoff env rs sc b) b4 (sort_key fst (rs_cutoffs rs))
           in Inr \<lparr>cm_timelines = bd_timelines b5, cm_repack_ops = bd_repack_ops b5, cm_findings = bd_findings b5\<rparr>))"

end
