(* ===== verification/RecallWorksheet.thy ===== *)
theory RecallWorksheet
  imports RecallCustody
begin

text \<open>
  \<^verbatim>\<open>services/shared/recall_reconstruction/worksheet.py\<close>: the reviewer worksheet of a recall, one row
  per lot of every terminal pallet with its label, and the summary and the CSV file written from
  it; then the properties of the reconstruction: which pallets are ancestors, that the worksheet
  is built whenever the custody model is, that no pallet is lost, and what a label means.
\<close>

section \<open>Rows\<close>

fun label_value :: "LinkLabel \<Rightarrow> string" where
  "label_value LINKED = ''linked''"
| "label_value NO_LINK_ESTABLISHED = ''no_link_established''"
| "label_value UNRESOLVED = ''unresolved''"

record WorksheetRow =
  wr_pallet_id :: string
  wr_lot_code :: "string option"
  wr_product_description :: "string option"
  wr_gtin :: "string option"
  wr_quantity_asserted :: "pyfloat option"
  wr_unit_of_measure :: "string option"
  wr_pallet_quantity_asserted :: "pyfloat option"
  wr_pallet_quantity_counted_at_last_receipt :: "pyfloat option"
  wr_last_record_type :: "string option"
  wr_last_recorded_at :: "string option"
  wr_last_recorded_location :: "string option"
  wr_last_recorded_location_gln :: "string option"
  wr_destination :: "string option"
  wr_destination_gln :: "string option"
  wr_label :: LinkLabel
  wr_co_palletized_with_implicated_lot :: bool
  wr_lineage_includes_implicated_lot :: bool
  wr_lineage :: "string list"
  wr_supporting_records :: "SourceRef list"
  wr_finding_ids :: "string list"
  wr_unresolved_questions :: "string list"
  wr_notes :: "string list"

definition opt_float :: "pyfloat option \<Rightarrow> pyval" where
  "opt_float x = (case x of None \<Rightarrow> PNone | Some f \<Rightarrow> PFloat f)"

definition ref_as_dict :: "SourceRef \<Rightarrow> pyval" where
  "ref_as_dict r =
     PDict [(''file'', PStr (sx_file r)), (''row_number'', PInt (sx_row_number r)), (''record_id'', PStr (sx_record_id r)),
            (''file_sha256'', PStr (sx_file_sha256 r)), (''source_system'', PStr (sx_source_system r))]"

definition row_as_dict :: "WorksheetRow \<Rightarrow> pydict" where
  "row_as_dict r =
     [(''pallet_id'', PStr (wr_pallet_id r)),
      (''lot_code'', opt_str (wr_lot_code r)),
      (''product_description'', opt_str (wr_product_description r)),
      (''gtin'', opt_str (wr_gtin r)),
      (''quantity_asserted'', opt_float (wr_quantity_asserted r)),
      (''unit_of_measure'', opt_str (wr_unit_of_measure r)),
      (''pallet_quantity_asserted'', opt_float (wr_pallet_quantity_asserted r)),
      (''pallet_quantity_counted_at_last_receipt'', opt_float (wr_pallet_quantity_counted_at_last_receipt r)),
      (''last_record_type'', opt_str (wr_last_record_type r)),
      (''last_recorded_at'', opt_str (wr_last_recorded_at r)),
      (''last_recorded_location'', opt_str (wr_last_recorded_location r)),
      (''last_recorded_location_gln'', opt_str (wr_last_recorded_location_gln r)),
      (''destination'', opt_str (wr_destination r)),
      (''destination_gln'', opt_str (wr_destination_gln r)),
      (''label'', PStr (label_value (wr_label r))),
      (''co_palletized_with_implicated_lot'', PBool (wr_co_palletized_with_implicated_lot r)),
      (''lineage_includes_implicated_lot'', PBool (wr_lineage_includes_implicated_lot r)),
      (''lineage'', PList (map PStr (wr_lineage r))),
      (''supporting_records'', PList (map ref_as_dict (wr_supporting_records r))),
      (''finding_ids'', PList (map PStr (wr_finding_ids r))),
      (''unresolved_questions'', PList (map PStr (wr_unresolved_questions r))),
      (''notes'', PList (map PStr (wr_notes r)))]"

definition csv_columns :: "string list" where
  "csv_columns =
     [''label'', ''lot_code'', ''pallet_id'', ''product_description'', ''gtin'', ''quantity_asserted'', ''unit_of_measure'',
      ''pallet_quantity_asserted'', ''pallet_quantity_counted_at_last_receipt'', ''last_record_type'', ''last_recorded_at'',
      ''last_recorded_location'', ''last_recorded_location_gln'', ''destination'', ''destination_gln'',
      ''co_palletized_with_implicated_lot'', ''lineage_includes_implicated_lot'', ''lineage'', ''supporting_records'',
      ''finding_ids'', ''unresolved_questions'', ''notes'']"

record Worksheet =
  ws_implicated_lot :: string
  ws_case :: string
  ws_rows :: "WorksheetRow list"

section \<open>The worksheet\<close>

text \<open>\<open>refs.append(ref)\<close> unless it is there.\<close>

definition add_new :: "'a list \<Rightarrow> 'a \<Rightarrow> 'a list" where
  "add_new xs x = (if x \<in> set xs then xs else xs @ [x])"

definition corrections_of :: "event_record \<Rightarrow> ManualCorrection list" where
  "corrections_of r = (case r of OfReceipt rc \<Rightarrow> rc_corrections rc | _ \<Rightarrow> [])"

definition timeline_refs :: "PalletTimeline \<Rightarrow> SourceRef list" where
  "timeline_refs tm =
     concat (map cg_refs (tl_contents_groups tm)) @
     concat (map (\<lambda>e. pv_ref e # map mc_source_ref (corrections_of (pv_record e))) (tl_events tm))"

definition supporting_records :: "CustodyModel \<Rightarrow> PalletTimeline \<Rightarrow> py_error + SourceRef list" where
  "supporting_records m tm =
     and_then (map_err (\<lambda>p. case map_of (cm_timelines m) p of None \<Rightarrow> Inl (KeyError p) | Some other \<Rightarrow> Inr (timeline_refs other))
       (tl_pallet_id tm # ancestors m (tl_pallet_id tm)))
     (\<lambda>refs. Inr (foldl add_new [] (concat refs)))"

text \<open>The count of the last receipt; a received event always holds its receipt, a shipped one its shipment.\<close>

definition last_receipt_count :: "PalletTimeline \<Rightarrow> pyfloat option" where
  "last_receipt_count tm =
     (case find (\<lambda>e. pv_kind e = KReceived) (rev (tl_events tm)) of
        None \<Rightarrow> None
      | Some e \<Rightarrow> (case pv_record e of OfReceipt r \<Rightarrow> rc_counted_quantity r | _ \<Rightarrow> None))"

definition destination_of :: "PalletEvent option \<Rightarrow> string option \<times> string option \<times> string list" where
  "destination_of event =
     (case event of
        None \<Rightarrow> (None, None, [])
      | Some e \<Rightarrow>
          (case (pv_kind e, pv_record e) of
             (KReceived, _) \<Rightarrow> (Some (pv_location_name e), Some (pv_location_gln e), [])
           | (KShipped, OfShipment s) \<Rightarrow> (Some (sh_to_name s @ '' (receipt not recorded)''), Some (sh_to_gln s), [])
           | _ \<Rightarrow> (None, None, [''no shipment or receipt recorded for this pallet''])))"

definition question_of :: "recall_env \<Rightarrow> Finding \<Rightarrow> string" where
  "question_of env f = (case fi_required_record f of Some r \<Rightarrow> sentence env r | None \<Rightarrow> fi_description f)"

definition correction_note :: "(string \<Rightarrow> string) \<Rightarrow> ManualCorrection \<Rightarrow> string" where
  "correction_note repr c =
     ''manual correction '' @ mc_correction_id c @ '' applied to '' @ mc_target_record_id c @ ''.'' @ mc_field c @ ''='' @
     repr (mc_value c) @ '' by '' @ mc_author c @ '': '' @ mc_reason c @ '' [evidence: '' @ mc_evidence_ref c @ '']''"

definition row_label :: "Finding list \<Rightarrow> string \<Rightarrow> string \<Rightarrow> LinkLabel" where
  "row_label blocking lot implicated =
     (if blocking \<noteq> [] then UNRESOLVED else if lot = implicated then LINKED else NO_LINK_ESTABLISHED)"

text \<open>The fields that the rows of one pallet share.\<close>

definition common_row ::
  "recall_env \<Rightarrow> (string \<Rightarrow> string) \<Rightarrow> RecordSet \<Rightarrow> CustodyModel \<Rightarrow> string \<Rightarrow> PalletTimeline \<Rightarrow> SourceRef list \<Rightarrow> WorksheetRow" where
  "common_row env repr rs m pallet_id tm supporting =
     (let event = last_event tm;
          all_findings = findings_for m pallet_id;
          (dest, dest_gln, notes0) = destination_of event;
          notes1 = foldl add_new notes0 (map fi_description (filter (\<lambda>f. \<not> fi_blocking f) all_findings));
          notes2 = foldl add_new notes1 (map (correction_note repr)
            (filter (\<lambda>c. mc_applied c \<and> mc_source_ref c \<in> set supporting) (rs_corrections rs)))
      in \<lparr>wr_pallet_id = pallet_id, wr_lot_code = None, wr_product_description = None, wr_gtin = None,
          wr_quantity_asserted = None, wr_unit_of_measure = None,
          wr_pallet_quantity_asserted = Option.bind (latest_contents tm) group_total,
          wr_pallet_quantity_counted_at_last_receipt = last_receipt_count tm,
          wr_last_record_type = map_option (\<lambda>e. kind_value (pv_kind e)) event,
          wr_last_recorded_at = map_option (\<lambda>e. iso env (pv_at e)) event,
          wr_last_recorded_location = map_option pv_location_name event,
          wr_last_recorded_location_gln = map_option pv_location_gln event,
          wr_destination = dest, wr_destination_gln = dest_gln, wr_label = UNRESOLVED,
          wr_co_palletized_with_implicated_lot = False, wr_lineage_includes_implicated_lot = False,
          wr_lineage = ancestors m pallet_id, wr_supporting_records = supporting,
          wr_finding_ids = map fi_finding_id all_findings,
          wr_unresolved_questions = foldl add_new [] (map (question_of env) (blocking_findings_for m pallet_id)),
          wr_notes = notes2\<rparr>)"

definition product_by_lot :: "RecordSet \<Rightarrow> (string \<times> LotRecord) list" where
  "product_by_lot rs = dict_of (map (\<lambda>l. (lt_lot_code l, l)) (rs_lots rs))"

definition lot_row ::
  "RecordSet \<Rightarrow> Finding list \<Rightarrow> string list \<Rightarrow> ContentsGroup \<Rightarrow> string \<Rightarrow> WorksheetRow \<Rightarrow> string \<times> pyfloat option \<Rightarrow> WorksheetRow" where
  "lot_row rs blocking seen_lots g implicated common lq =
     (case lq of (lot, quantity) \<Rightarrow>
        let product = map_of (product_by_lot rs) lot
        in common\<lparr>wr_lot_code := Some lot, wr_product_description := map_option lt_product_description product,
             wr_gtin := map_option lt_gtin product, wr_quantity_asserted := quantity,
             wr_unit_of_measure := Some (cg_unit_of_measure g), wr_label := row_label blocking lot implicated,
             wr_co_palletized_with_implicated_lot := (lot \<noteq> implicated \<and> implicated \<in> fst ` set (cg_lots g)),
             wr_lineage_includes_implicated_lot := (lot \<noteq> implicated \<and> implicated \<in> set seen_lots)\<rparr>)"

text \<open>The rows of one pallet: none for a consumed pallet.\<close>

definition pallet_rows ::
  "recall_env \<Rightarrow> (string \<Rightarrow> string) \<Rightarrow> RecordSet \<Rightarrow> CustodyModel \<Rightarrow> string \<Rightarrow> string \<times> PalletTimeline \<Rightarrow> py_error + WorksheetRow list" where
  "pallet_rows env repr rs m implicated ptm =
     (case ptm of (pallet_id, tm) \<Rightarrow>
        if \<not> is_terminal tm then Inr []
        else and_then (lineage_lots m pallet_id) (\<lambda>lots.
          and_then (supporting_records m tm) (\<lambda>supporting.
            let common = common_row env repr rs m pallet_id tm supporting
            in case latest_contents tm of
                 None \<Rightarrow> Inr [common\<lparr>wr_lineage_includes_implicated_lot := (implicated \<in> set lots)\<rparr>]
               | Some g \<Rightarrow>
                   Inr (map (lot_row rs (blocking_findings_for m pallet_id) lots g implicated common) (sort_key fst (cg_lots g))))))"

definition build_worksheet ::
  "recall_env \<Rightarrow> (string \<Rightarrow> string) \<Rightarrow> RecordSet \<Rightarrow> CustodyModel \<Rightarrow> string \<Rightarrow> py_error + Worksheet" where
  "build_worksheet env repr rs m implicated =
     and_then (map_err (pallet_rows env repr rs m implicated) (sort_key fst (cm_timelines m))) (\<lambda>rows.
       Inr \<lparr>ws_implicated_lot = implicated, ws_case = rs_case rs, ws_rows = concat rows\<rparr>)"

section \<open>Summary and files\<close>

record sheet_summary =
  sm_by_label :: "(string \<times> nat) list"
  sm_linked_by_destination :: "(string \<times> (string \<times> pyfloat) list) list"
  sm_unresolved_quantity_by_lot :: "(string \<times> pyfloat) list"
  sm_unresolved_pallets :: "string list"

definition value_or :: "'v \<Rightarrow> 'k \<Rightarrow> ('k \<times> 'v) list \<Rightarrow> 'v" where
  "value_or v k d = (case map_of d k of None \<Rightarrow> v | Some w \<Rightarrow> w)"

definition add_quantity :: "string \<Rightarrow> pyfloat \<Rightarrow> (string \<times> pyfloat) list \<Rightarrow> (string \<times> pyfloat) list" where
  "add_quantity k q d = put k (fadd (value_or (Fin 0) k d) q) d"

text \<open>The lot and quantity that a row counts with: both present, the lot code not empty.\<close>

definition counted :: "WorksheetRow \<Rightarrow> (string \<times> pyfloat) option" where
  "counted r = (case (wr_lot_code r, wr_quantity_asserted r) of (Some lot, Some q) \<Rightarrow> if lot = [] then None else Some (lot, q) | _ \<Rightarrow> None)"

definition count_row :: "sheet_summary \<Rightarrow> WorksheetRow \<Rightarrow> sheet_summary" where
  "count_row s r =
     (let s1 = s\<lparr>sm_by_label := put (label_value (wr_label r)) (value_or 0 (label_value (wr_label r)) (sm_by_label s) + 1) (sm_by_label s)\<rparr>
      in case wr_label r of
           LINKED \<Rightarrow>
             (case counted r of
                None \<Rightarrow> s1
              | Some (lot, q) \<Rightarrow>
                  s1\<lparr>sm_linked_by_destination := put lot
                       (add_quantity (str_or (wr_destination_gln r) ''no destination recorded'') q (value_or [] lot (sm_linked_by_destination s1)))
                       (sm_linked_by_destination s1)\<rparr>)
         | UNRESOLVED \<Rightarrow>
             (let s2 = s1\<lparr>sm_unresolved_pallets := add_new (sm_unresolved_pallets s1) (wr_pallet_id r)\<rparr>
              in case counted r of
                   None \<Rightarrow> s2
                 | Some (lot, q) \<Rightarrow> s2\<lparr>sm_unresolved_quantity_by_lot := add_quantity lot q (sm_unresolved_quantity_by_lot s2)\<rparr>)
         | NO_LINK_ESTABLISHED \<Rightarrow> s1)"

definition summary :: "Worksheet \<Rightarrow> sheet_summary" where
  "summary ws =
     foldl count_row
       \<lparr>sm_by_label = map (\<lambda>l. (label_value l, 0)) [LINKED, NO_LINK_ESTABLISHED, UNRESOLVED],
        sm_linked_by_destination = [], sm_unresolved_quantity_by_lot = [], sm_unresolved_pallets = []\<rparr>
       (ws_rows ws)"

definition quantity_dict :: "(string \<times> pyfloat) list \<Rightarrow> pyval" where
  "quantity_dict d = PDict (map (\<lambda>(k, q). (k, PFloat q)) d)"

definition statement_text :: string where
  "statement_text =
     ''Labels describe the reviewed evidence only. 'no_link_established' is not a finding that product '' @
     ''is safe, and 'unresolved' quantities must be treated as potentially implicated until the named '' @
     ''record is obtained. Recall scope is a practitioner decision.''"

definition summary_dict :: "Worksheet \<Rightarrow> pydict" where
  "summary_dict ws =
     (let s = summary ws
      in [(''implicated_lot'', PStr (ws_implicated_lot ws)), (''case'', PStr (ws_case ws)),
          (''rows'', PInt (int (length (ws_rows ws)))),
          (''rows_by_label'', PDict (map (\<lambda>(k, n). (k, PInt (int n))) (sm_by_label s))),
          (''linked_quantity_by_lot_and_destination'', PDict (map (\<lambda>(k, d). (k, quantity_dict d)) (sm_linked_by_destination s))),
          (''unresolved_quantity_by_lot'', quantity_dict (sm_unresolved_quantity_by_lot s)),
          (''unresolved_pallets'', PList (map PStr (sm_unresolved_pallets s))),
          (''statement'', PStr statement_text)])"

text \<open>\<open>json.dumps(.., indent=2, sort_keys=True)\<close> is the parameter \<open>dumps\<close>.\<close>

definition to_json :: "(pyval \<Rightarrow> string) \<Rightarrow> Worksheet \<Rightarrow> string" where
  "to_json dumps ws = dumps (PDict [(''summary'', PDict (summary_dict ws)), (''rows'', PList (map (\<lambda>r. PDict (row_as_dict r)) (ws_rows ws)))])"

text \<open>The row as the CSV file has it, and the file: every field quoted, a quote doubled.\<close>

definition csv_data :: "WorksheetRow \<Rightarrow> pydict" where
  "csv_data r =
     put ''notes'' (PStr (py_join '' || '' (wr_notes r)))
      (put ''unresolved_questions'' (PStr (py_join '' || '' (wr_unresolved_questions r)))
        (put ''finding_ids'' (PStr (py_join '' '' (wr_finding_ids r)))
          (put ''supporting_records'' (PStr (py_join '' | '' (map short_ref (wr_supporting_records r))))
            (put ''lineage'' (PStr (py_join '' > '' (wr_lineage r))) (row_as_dict r)))))"

definition csv_cells :: "pyrt \<Rightarrow> WorksheetRow \<Rightarrow> string list" where
  "csv_cells rt r = map (\<lambda>col. safe_cell rt (dict_get (csv_data r) col PNone)) csv_columns"

definition quote_field :: "string \<Rightarrow> string" where
  "quote_field s = CHR 0x22 # replace_char CHR 0x22 [CHR 0x22, CHR 0x22] s @ [CHR 0x22]"

definition csv_line :: "string list \<Rightarrow> string" where
  "csv_line cells = py_join '','' (map quote_field cells) @ [CHR 0x0D, CHR 0x0A]"

definition to_csv :: "pyrt \<Rightarrow> Worksheet \<Rightarrow> string" where
  "to_csv rt ws = csv_line csv_columns @ concat (map (\<lambda>r. csv_line (csv_cells rt r)) (ws_rows ws))"

section \<open>The tolerance\<close>

lemma quotient_nano: "quotient_of (1 / 1000000000) = (1, 1000000000)"
proof -
  have "quotient_of (Fract 1 1000000000) = (1, 1000000000)" by (simp add: quotient_of_Fract normalize_def)
  moreover have "Fract 1 1000000000 = 1 / 1000000000" by (simp add: Fract_of_int_quotient)
  ultimately show ?thesis by simp
qed

lemma nano_is_the_literal: "round_double (1 / 1000000000) = nano"
proof -
  have "bit_len 1000000000 = 30" "bit_len (Suc 0) = 1" by (subst bit_len.simps, simp)+
  then have "binexp (1 / 1000000000) = - 30"
    unfolding binexp_def quotient_nano prod.case Let_def by (simp add: pow2_def)
  moreover have "\<lfloor>9444732965739290427392 / 1953125 :: rat\<rfloor> = 4835703278458516" by (simp add: floor_eq_iff)
  ultimately show ?thesis
    by (simp add: round_double_def round_pos_def ulp_def pow2_def round_half_even_def Let_def nano_def)
qed

section \<open>Ancestors\<close>

text \<open>\<open>q\<close> is a pallet that \<open>p\<close> was repacked from, in one step.\<close>

abbreviation parent :: "CustodyModel \<Rightarrow> string \<Rightarrow> string \<Rightarrow> bool" where
  "parent m p q \<equiv> q \<in> set (parents_of m p)"

lemma ancestors_loop_sound:
  "q \<in> set (ancestors_loop m stack seen) \<Longrightarrow> q \<in> set seen \<or> (\<exists>p\<in>set stack. (parent m)\<^sup>*\<^sup>* p q)"
proof (induction m stack seen rule: ancestors_loop.induct)
  case (2 m current stack seen)
  show ?case
  proof (cases "current \<in> set seen")
    case False
    with 2 consider "q \<in> set (seen @ [current])" | p where "p \<in> set (stack @ parents_of m current)" "(parent m)\<^sup>*\<^sup>* p q" by auto
    then show ?thesis
    proof cases
      case (2 p)
      then show ?thesis by (auto intro: converse_rtranclp_into_rtranclp [of "parent m" current p])
    qed auto
  qed (use 2 in auto)
qed simp

lemma ancestors_loop_complete:
  assumes "\<And>p q. p \<in> set seen \<Longrightarrow> parent m p q \<Longrightarrow> q \<in> set seen \<union> set stack"
  shows "set seen \<union> set stack \<subseteq> set (ancestors_loop m stack seen) \<and>
    (\<forall>p\<in>set (ancestors_loop m stack seen). set (parents_of m p) \<subseteq> set (ancestors_loop m stack seen))"
  using assms
proof (induction m stack seen rule: ancestors_loop.induct)
  case (2 m current stack seen)
  show ?case
  proof (cases "current \<in> set seen")
    case True
    with 2(1) 2(3) show ?thesis by (auto simp: insert_absorb)
  next
    case False
    have "set (seen @ [current]) \<union> set (stack @ parents_of m current) \<subseteq> set (ancestors_loop m (stack @ parents_of m current) (seen @ [current])) \<and>
      (\<forall>p\<in>set (ancestors_loop m (stack @ parents_of m current) (seen @ [current])).
        set (parents_of m p) \<subseteq> set (ancestors_loop m (stack @ parents_of m current) (seen @ [current])))"
      by (rule 2(2) [OF False]) (use 2(3) in auto)
    with False show ?thesis by auto
  qed
qed auto

lemma ancestors_loop_distinct: "distinct seen \<Longrightarrow> distinct (ancestors_loop m stack seen)"
  by (induction m stack seen rule: ancestors_loop.induct) auto

lemma set_ancestors: "set (ancestors m p) = {q. (parent m)\<^sup>+\<^sup>+ p q}"
proof (intro set_eqI iffI)
  fix q
  assume "q \<in> set (ancestors m p)"
  then obtain r where "parent m p r" "(parent m)\<^sup>*\<^sup>* r q"
    using ancestors_loop_sound [of q m "parents_of m p" "[]"] by (auto simp: ancestors_def)
  then show "q \<in> {q. (parent m)\<^sup>+\<^sup>+ p q}" by (auto intro: rtranclp_into_tranclp2)
next
  fix q
  assume "q \<in> {q. (parent m)\<^sup>+\<^sup>+ p q}"
  then have "(parent m)\<^sup>+\<^sup>+ p q" by simp
  then show "q \<in> set (ancestors m p)"
    using ancestors_loop_complete [of "[]" m "parents_of m p"]
    by (induction rule: tranclp_induct) (auto simp: ancestors_def)
qed

text \<open>
  Claim C31 (termination). The search for the lineage of a pallet ends on every custody model,
  records that repack pallets in a circle included, and it returns exactly the pallets reachable
  over one or more repacks, each once.
\<close>

theorem ancestors_are_the_lineage:
  "distinct (ancestors m p) \<and> set (ancestors m p) = {q. (\<lambda>a b. b \<in> set (parents_of m a))\<^sup>+\<^sup>+ p q}"
  using set_ancestors ancestors_loop_distinct [of "[]" m "parents_of m p"] by (simp add: ancestors_def)

section \<open>The builder keeps its timelines in order\<close>

text \<open>What every timeline satisfies while the pallets of \<open>D\<close> have one.\<close>

definition timeline_ok :: "RecordSet \<Rightarrow> string set \<Rightarrow> string \<Rightarrow> PalletTimeline \<Rightarrow> bool" where
  "timeline_ok rs D p tm \<longleftrightarrow>
     tl_pallet_id tm = p \<and> (\<forall>g\<in>set (tl_contents_groups tm). cg_lots g \<noteq> []) \<and> set (tl_parents tm) \<subseteq> D \<and>
     (tl_consumed_at tm = None \<or> p \<in> rw_input_pallet_id ` set (rs_repack_rows rs))"

abbreviation pallets :: "(string \<times> PalletTimeline) list \<Rightarrow> string set" where
  "pallets ts \<equiv> fst ` set ts"

definition timelines_ok :: "RecordSet \<Rightarrow> (string \<times> PalletTimeline) list \<Rightarrow> bool" where
  "timelines_ok rs ts \<longleftrightarrow> distinct (map fst ts) \<and> (\<forall>(p, tm)\<in>set ts. timeline_ok rs (pallets ts) p tm)"

abbreviation builder_ok :: "RecordSet \<Rightarrow> builder \<Rightarrow> bool" where
  "builder_ok rs b \<equiv> timelines_ok rs (bd_timelines b)"

lemma timeline_ok_mono: "timeline_ok rs D p tm \<Longrightarrow> D \<subseteq> E \<Longrightarrow> timeline_ok rs E p tm"
  by (auto simp: timeline_ok_def)

lemma pallets_on_timeline [simp]: "pallets (bd_timelines (on_timeline p f b)) = insert p (pallets (bd_timelines b))"
  by (simp add: on_timeline_def)

lemma findings_on_timeline [simp]: "bd_findings (on_timeline p f b) = bd_findings b"
  by (simp add: on_timeline_def)

lemma the_timeline_ok:
  assumes "builder_ok rs b"
  shows "timeline_ok rs (pallets (bd_timelines b)) p (the_timeline p b)"
proof (cases "map_of (bd_timelines b) p")
  case (Some tm)
  then have "(p, tm) \<in> set (bd_timelines b)" by (rule map_of_SomeD)
  with assms Some show ?thesis by (auto simp: the_timeline_def timelines_ok_def)
qed (simp add: the_timeline_def new_timeline_def timeline_ok_def)

lemma on_timeline_ok:
  assumes "builder_ok rs b"
    and "\<And>tm. timeline_ok rs (insert p (pallets (bd_timelines b))) p tm \<Longrightarrow> timeline_ok rs (insert p (pallets (bd_timelines b))) p (f tm)"
  shows "builder_ok rs (on_timeline p f b)"
proof -
  let ?D = "insert p (pallets (bd_timelines b))"
  have new: "timeline_ok rs ?D p (f (the_timeline p b))"
    by (rule assms(2), rule timeline_ok_mono [OF the_timeline_ok [OF assms(1)]]) auto
  have old: "timeline_ok rs ?D q tm" if "(q, tm) \<in> set (bd_timelines b)" for q tm
    using assms(1) that by (auto simp: timelines_ok_def intro: timeline_ok_mono)
  show ?thesis
    using assms(1) new old by (auto simp: timelines_ok_def on_timeline_def dest!: mem_putD)
qed

lemma add_finding_timelines [simp]: "bd_timelines (add_finding f b) = bd_timelines b"
  by (simp add: add_finding_def)

lemma add_finding_findings [simp]: "bd_findings (add_finding f b) = bd_findings b @ [f]"
  by (simp add: add_finding_def)

text \<open>A step keeps the invariant and every pallet and finding there is.\<close>

definition extends :: "RecordSet \<Rightarrow> builder \<Rightarrow> builder \<Rightarrow> bool" where
  "extends rs b c \<longleftrightarrow>
     (builder_ok rs b \<longrightarrow> builder_ok rs c) \<and> pallets (bd_timelines b) \<subseteq> pallets (bd_timelines c) \<and>
     set (bd_findings b) \<subseteq> set (bd_findings c)"

lemma extends_refl [simp]: "extends rs b b"
  by (simp add: extends_def)

lemma extends_trans: "extends rs a b \<Longrightarrow> extends rs b c \<Longrightarrow> extends rs a c"
  unfolding extends_def by blast

text \<open>Folds of steps, over a state of which the builder is a part; a step may need the pallets of \<open>D\<close>.\<close>

lemma extends_foldl:
  assumes "\<And>x s. x \<in> set xs \<Longrightarrow> D \<subseteq> pallets (bd_timelines (pr s)) \<Longrightarrow> extends rs (pr s) (pr (f s x))"
    and "D \<subseteq> pallets (bd_timelines (pr s))"
  shows "extends rs (pr s) (pr (foldl f s xs))"
  using assms
proof (induction xs arbitrary: s)
  case (Cons x xs)
  have step: "extends rs (pr s) (pr (f s x))" using Cons.prems by simp
  then have "D \<subseteq> pallets (bd_timelines (pr (f s x)))" using Cons.prems(2) by (auto simp: extends_def)
  then have "extends rs (pr (f s x)) (pr (foldl f (f s x) xs))" using Cons by simp
  with step show ?case by (auto intro: extends_trans)
qed simp

lemmas extends_foldl_plain = extends_foldl [where pr = "\<lambda>b. b" and D = "{}", simplified]

lemma extends_add_finding [simp]: "extends rs b (add_finding f b)"
  by (auto simp: extends_def)

lemma extends_on_timeline:
  assumes "\<And>tm. timeline_ok rs (insert p (pallets (bd_timelines b))) p tm \<Longrightarrow> timeline_ok rs (insert p (pallets (bd_timelines b))) p (f tm)"
  shows "extends rs b (on_timeline p f b)"
  using on_timeline_ok [of rs b p f] assms by (auto simp: extends_def)

lemma foldl_reaches:
  assumes "\<And>x s. x \<in> set xs \<Longrightarrow> D \<subseteq> pallets (bd_timelines (pr s)) \<Longrightarrow> extends rs (pr s) (pr (f s x))"
    and "\<And>s. k \<in> pallets (bd_timelines (pr (f s x)))" and "D \<subseteq> pallets (bd_timelines (pr s))" and "x \<in> set xs"
  shows "k \<in> pallets (bd_timelines (pr (foldl f s xs)))"
  using assms(1,3,4)
proof (induction xs arbitrary: s)
  case (Cons y xs)
  have step: "extends rs (pr s) (pr (f s y))" using Cons.prems by simp
  then have D: "D \<subseteq> pallets (bd_timelines (pr (f s y)))" using Cons.prems(2) by (auto simp: extends_def)
  then have rest: "extends rs (pr (f s y)) (pr (foldl f (f s y) xs))"
    by (intro extends_foldl [of xs D pr]) (use Cons.prems(1) in auto)
  show ?case
  proof (cases "x = y")
    case True
    with rest assms(2) [of s] show ?thesis by (auto simp: extends_def)
  qed (use Cons D in auto)
qed simp

lemmas foldl_reaches_plain = foldl_reaches [where pr = "\<lambda>b. b" and D = "{}", simplified]

section \<open>Every step of the builder extends it\<close>

lemma contents_group_lots: "rows \<noteq> [] \<Longrightarrow> cg_lots (contents_group_of record_id rows) \<noteq> []"
  by (simp add: contents_group_of_def Let_def dict_of_not_Nil)

lemma timeline_ok_add_event [simp]: "timeline_ok rs D p (add_event e tm) = timeline_ok rs D p tm"
  by (simp add: timeline_ok_def add_event_def)

lemma timeline_ok_add_group: "timeline_ok rs D p tm \<Longrightarrow> cg_lots g \<noteq> [] \<Longrightarrow> timeline_ok rs D p (add_group g tm)"
  by (auto simp: timeline_ok_def add_group_def)

lemma contents_step_extends:
  assumes "(k, rows) \<in> set (group_rows key xs)"
  shows "extends rs b (on_timeline p (add_event (contents_event (contents_group_of r rows)) \<circ> add_group (contents_group_of r rows)) b)"
proof -
  have "rows \<noteq> []" using group_rowsD [OF assms] by blast
  then show ?thesis by (intro extends_on_timeline) (simp add: timeline_ok_add_group contents_group_lots)
qed

lemma contents_extends:
  "extends rs b (add_contents_assertions rs b) \<and> ca_pallet_id ` set (rs_contents rs) \<subseteq> pallets (bd_timelines (add_contents_assertions rs b))"
proof -
  let ?step = "\<lambda>b ((pallet_id, record_id), rows).
    let g = contents_group_of record_id rows in on_timeline pallet_id (add_event (contents_event g) \<circ> add_group g) b"
  let ?xs = "group_rows (\<lambda>a. (ca_pallet_id a, ca_record_id a)) (rs_contents rs)"
  have step: "extends rs b (?step b x)" if "x \<in> set ?xs" for x b
  proof -
    obtain p r rows where "x = ((p, r), rows)" by (metis prod.exhaust)
    with that show ?thesis by (auto simp: Let_def intro: contents_step_extends)
  qed
  have "ca_pallet_id a \<in> pallets (bd_timelines (foldl ?step b ?xs))" if "a \<in> set (rs_contents rs)" for a
    by (rule foldl_reaches_plain [where rs = rs, OF step _ group_rows_mem [OF that]]) (auto simp: Let_def)
  with extends_foldl_plain [of ?xs rs ?step, OF step] show ?thesis by (auto simp: add_contents_assertions_def)
qed

lemma op_inputs [simp]: "set (ro_inputs (repack_op_of record_id rows)) = rw_input_pallet_id ` set rows"
  by (simp add: repack_op_of_def Let_def)

lemma output_rows:
  "fst ` set (foldl (\<lambda>o1 row. add_output_row row o1) os rows) = fst ` set os \<union> rw_output_pallet_id ` set rows"
  by (induction rows arbitrary: os) (auto simp: add_output_row_def Let_def)

lemma output_lots:
  "(\<forall>(p, ls)\<in>set os. ls \<noteq> []) \<Longrightarrow> \<forall>(p, ls)\<in>set (foldl (\<lambda>o1 row. add_output_row row o1) os rows). ls \<noteq> []"
proof (induction rows arbitrary: os)
  case (Cons row rows)
  have "\<forall>(p, ls)\<in>set (add_output_row row os). ls \<noteq> []"
    using Cons.prems by (auto simp: add_output_row_def Let_def dest!: mem_putD)
  then show ?case using Cons.IH by simp
qed simp

lemma op_outputs [simp]: "fst ` set (ro_outputs (repack_op_of record_id rows)) = rw_output_pallet_id ` set rows"
  by (simp add: repack_op_of_def Let_def output_rows)

lemma op_output_lots: "(p, ls) \<in> set (ro_outputs (repack_op_of record_id rows)) \<Longrightarrow> ls \<noteq> []"
  using output_lots [of "[]" rows] by (auto simp: repack_op_of_def Let_def)

lemma timeline_ok_consume:
  "timeline_ok rs D p tm \<Longrightarrow> p \<in> rw_input_pallet_id ` set (rs_repack_rows rs) \<Longrightarrow> timeline_ok rs D p (consume op1 tm)"
  by (simp add: consume_def) (simp add: timeline_ok_def)

lemma consume_input_extends:
  assumes "p \<in> rw_input_pallet_id ` set (rs_repack_rows rs)"
  shows "extends rs (fst s) (fst (consume_input env op1 p s)) \<and> p \<in> pallets (bd_timelines (fst (consume_input env op1 p s)))"
proof -
  obtain b totals unknown where s: "s = (b, totals, unknown)" by (cases s)
  have new: "extends rs b (on_timeline p (\<lambda>x. x) b)" by (rule extends_on_timeline)
  have use: "extends rs c (on_timeline p (consume op1) c)" for c
    using assms by (intro extends_on_timeline timeline_ok_consume)
  show ?thesis
    unfolding s consume_input_def Let_def
    by (auto split: option.split intro!: extends_trans [OF _ use] extends_trans [OF new]
        intro: extends_trans [OF extends_add_finding extends_add_finding])
qed

lemma add_output_extends:
  assumes "set (ro_inputs op1) \<subseteq> pallets (bd_timelines (fst s))" "snd pl \<noteq> []"
  shows "extends rs (fst s) (fst (add_output op1 rows pl s)) \<and> fst pl \<in> pallets (bd_timelines (fst (add_output op1 rows pl s)))"
proof -
  obtain b totals p ls where s: "s = (b, totals)" "pl = (p, ls)" by (cases s, cases pl)
  have "extends rs b (on_timeline p (\<lambda>tm. add_event e ((add_group (output_group op1 rows p ls) tm)
      \<lparr>tl_parents := tl_parents tm @ filter (\<lambda>q. q \<notin> set (tl_parents tm)) (ro_inputs op1)\<rparr>)) b)" for e
  proof (rule extends_on_timeline)
    fix tm
    assume "timeline_ok rs (insert p (pallets (bd_timelines b))) p tm"
    moreover have "set (ro_inputs op1) \<subseteq> insert p (pallets (bd_timelines b))" "ls \<noteq> []" using assms s by auto
    ultimately show "timeline_ok rs (insert p (pallets (bd_timelines b))) p (add_event e ((add_group (output_group op1 rows p ls) tm)
        \<lparr>tl_parents := tl_parents tm @ filter (\<lambda>q. q \<notin> set (tl_parents tm)) (ro_inputs op1)\<rparr>))"
      unfolding timeline_ok_add_event unfolding timeline_ok_def add_group_def output_group_def by simp blast
  qed
  then show ?thesis by (simp add: s add_output_def Let_def)
qed

lemma repack_step_extends:
  assumes "rows \<noteq> []" "set rows \<subseteq> set (rs_repack_rows rs)"
  shows "extends rs b (add_repack env (record_id, rows) b) \<and>
    rw_input_pallet_id ` set rows \<union> rw_output_pallet_id ` set rows \<subseteq> pallets (bd_timelines (add_repack env (record_id, rows) b))"
proof -
  let ?op = "repack_op_of record_id rows"
  define b0 where "b0 = b\<lparr>bd_repack_ops := put record_id ?op (bd_repack_ops b)\<rparr>"
  define s1 where "s1 = foldl (\<lambda>acc p. consume_input env ?op p acc) (b0, [], []) (ro_inputs ?op)"
  define s2 where "s2 = foldl (\<lambda>acc pl. add_output ?op rows pl acc) (fst s1, []) (ro_outputs ?op)"
  have step1: "extends rs (fst s) (fst (consume_input env ?op p s))" "p \<in> pallets (bd_timelines (fst (consume_input env ?op p s)))"
    if "p \<in> set (ro_inputs ?op)" for p and s :: "builder \<times> lots \<times> string list"
    using consume_input_extends [of p rs s env ?op] that assms(2) by auto
  have e1: "extends rs b0 (fst s1)"
    unfolding s1_def by (rule extends_foldl [where pr = fst and D = "{}" and s = "(b0, [], [])", unfolded fst_conv]) (rule step1(1), simp_all)
  have i1: "set (ro_inputs ?op) \<subseteq> pallets (bd_timelines (fst s1))"
    unfolding s1_def by (rule subsetI, rule foldl_reaches [where pr = fst and D = "{}", OF step1(1) step1(2)]) simp_all
  have step2: "extends rs (fst s) (fst (add_output ?op rows pl s))"
    if "pl \<in> set (ro_outputs ?op)" "set (ro_inputs ?op) \<subseteq> pallets (bd_timelines (fst s))" for pl s
    using add_output_extends [OF that(2)] op_output_lots that(1) by (cases pl) auto
  have e2: "extends rs (fst s1) (fst s2)"
    using extends_foldl [where pr = fst and s = "(fst s1, [])", OF step2] i1 by (simp add: s2_def)
  have i2: "fst pl \<in> pallets (bd_timelines (fst s2))" if "pl \<in> set (ro_outputs ?op)" for pl
    unfolding s2_def
    by (rule foldl_reaches [where pr = fst and rs = rs, OF step2 _ _ that])
      (use i1 in \<open>auto simp: add_output_def Let_def split: prod.split\<close>)
  have final: "add_repack env (record_id, rows) b = fst s2 \<or> (\<exists>f. add_repack env (record_id, rows) b = add_finding f (fst s2))"
    by (auto simp: add_repack_def Let_def s1_def s2_def b0_def split: prod.split)
  have "extends rs b b0" by (simp add: b0_def extends_def)
  with e1 e2 have all: "extends rs b (fst s2)" by (blast intro: extends_trans)
  have "rw_input_pallet_id ` set rows \<union> rw_output_pallet_id ` set rows \<subseteq> pallets (bd_timelines (fst s2))"
    using i1 i2 e2 unfolding op_inputs op_outputs [symmetric, of rows record_id] extends_def by blast
  with final all extends_trans [OF all extends_add_finding] show ?thesis by (elim disjE exE) simp_all
qed

lemma repacks_extend:
  "extends rs b (add_repacks env rs b) \<and>
   (\<forall>row\<in>set (rs_repack_rows rs). {rw_input_pallet_id row, rw_output_pallet_id row} \<subseteq> pallets (bd_timelines (add_repacks env rs b)))"
proof -
  let ?xs = "sort_key (\<lambda>(_, rows). instant (earliest (map rw_performed_at rows))) (group_rows rw_record_id (rs_repack_rows rs))"
  have step: "extends rs b (add_repack env x b) \<and>
      rw_input_pallet_id ` set (snd x) \<union> rw_output_pallet_id ` set (snd x) \<subseteq> pallets (bd_timelines (add_repack env x b))"
    if "x \<in> set ?xs" for x b
  proof -
    have "(fst x, snd x) \<in> set (group_rows rw_record_id (rs_repack_rows rs))" using that by simp
    note rows = group_rowsD [OF this]
    then have "snd x \<noteq> []" "set (snd x) \<subseteq> set (rs_repack_rows rs)" by auto
    from repack_step_extends [OF this, of b env "fst x"] show ?thesis by simp
  qed
  have "{rw_input_pallet_id row, rw_output_pallet_id row} \<subseteq> pallets (bd_timelines (foldl (\<lambda>b rr. add_repack env rr b) b ?xs))"
    if row: "row \<in> set (rs_repack_rows rs)" for row
  proof -
    let ?x = "(rw_record_id row, filter (\<lambda>y. rw_record_id y = rw_record_id row) (rs_repack_rows rs))"
    have x: "?x \<in> set ?xs" using group_rows_mem [OF row, of rw_record_id] by simp
    have "k \<in> pallets (bd_timelines (foldl (\<lambda>b rr. add_repack env rr b) b ?xs))"
      if "k \<in> rw_input_pallet_id ` set (snd ?x) \<union> rw_output_pallet_id ` set (snd ?x)" for k
    proof (rule foldl_reaches_plain [where rs = rs, OF _ _ x])
      show "k \<in> pallets (bd_timelines (add_repack env ?x c))" for c
        using step [OF x, THEN conjunct2] that by (rule subsetD)
    qed (use step in simp)
    then show ?thesis using row by auto
  qed
  with extends_foldl_plain [of ?xs rs] step show ?thesis by (simp add: add_repacks_def)
qed

lemma movements_extend:
  "extends rs b (add_movements rs b) \<and>
   sh_pallet_id ` set (rs_shipments rs) \<union> rc_pallet_id ` set (rs_receipts rs) \<subseteq> pallets (bd_timelines (add_movements rs b))"
proof -
  let ?f = "\<lambda>b s. on_timeline (sh_pallet_id s) (add_event (shipment_event s)) b"
  let ?g = "\<lambda>b r. on_timeline (rc_pallet_id r) (add_event (receipt_event r)) b"
  have f: "extends rs b (?f b s)" and g: "extends rs b (?g b r)" for b s r by (rule extends_on_timeline, simp)+
  have ef: "extends rs b (foldl ?f b xs)" and eg: "extends rs b (foldl ?g b ys)" for b xs ys
    using f g by (simp_all add: extends_foldl_plain)
  have "sh_pallet_id s \<in> pallets (bd_timelines (foldl ?f b (rs_shipments rs)))" if "s \<in> set (rs_shipments rs)" for s
    by (rule foldl_reaches_plain [where rs = rs, OF f _ that]) simp
  moreover have "rc_pallet_id r \<in> pallets (bd_timelines (foldl ?g c (rs_receipts rs)))" if "r \<in> set (rs_receipts rs)" for r c
    by (rule foldl_reaches_plain [where rs = rs, OF g _ that]) simp
  ultimately show ?thesis
    using extends_trans [OF ef eg] eg [of "foldl ?f b (rs_shipments rs)" "rs_receipts rs"]
    by (auto simp: add_movements_def extends_def)
qed

lemma sort_timelines_extends: "extends rs b (sort_timelines b)"
proof -
  have same: "map fst (bd_timelines (sort_timelines b)) = map fst (bd_timelines b)"
    by (simp add: sort_timelines_def split_beta comp_def)
  then have keys: "pallets (bd_timelines (sort_timelines b)) = pallets (bd_timelines b)" by (metis list.set_map)
  have "timeline_ok rs D p (sort_timeline tm) = timeline_ok rs D p tm" for D p tm
    by (simp add: timeline_ok_def sort_timeline_def)
  then have "builder_ok rs b \<Longrightarrow> builder_ok rs (sort_timelines b)"
    unfolding timelines_ok_def keys same by (auto simp: sort_timelines_def)
  moreover have "bd_findings (sort_timelines b) = bd_findings b" by (simp add: sort_timelines_def)
  ultimately show ?thesis unfolding extends_def keys by simp
qed

text \<open>The pallets that the records name.\<close>

definition named_pallets :: "RecordSet \<Rightarrow> string set" where
  "named_pallets rs =
     ca_pallet_id ` set (rs_contents rs) \<union> rw_input_pallet_id ` set (rs_repack_rows rs) \<union> rw_output_pallet_id ` set (rs_repack_rows rs) \<union>
     sh_pallet_id ` set (rs_shipments rs) \<union> rc_pallet_id ` set (rs_receipts rs)"

definition gathered :: "recall_env \<Rightarrow> RecordSet \<Rightarrow> builder" where
  "gathered env rs =
     sort_timelines (add_movements rs (add_repacks env rs (add_contents_assertions rs
       \<lparr>bd_timelines = [], bd_repack_ops = [], bd_findings = rs_load_findings rs\<rparr>)))"

lemma gathered_ok: "builder_ok rs (gathered env rs) \<and> named_pallets rs \<subseteq> pallets (bd_timelines (gathered env rs))"
proof -
  define b0 where "b0 = \<lparr>bd_timelines = [], bd_repack_ops = [], bd_findings = rs_load_findings rs\<rparr>"
  define b1 where "b1 = add_contents_assertions rs b0"
  define b2 where "b2 = add_repacks env rs b1"
  define b3 where "b3 = add_movements rs b2"
  have e3: "extends rs b3 (gathered env rs)"
    using sort_timelines_extends [of rs b3] by (simp add: gathered_def b3_def b2_def b1_def b0_def)
  have e2: "extends rs b2 (gathered env rs)" using movements_extend [of rs b2] e3 by (auto simp: b3_def intro: extends_trans)
  have e1: "extends rs b1 (gathered env rs)" using repacks_extend [of rs b1 env] e2 by (auto simp: b2_def intro: extends_trans)
  have e0: "extends rs b0 (gathered env rs)" using contents_extends [of rs b0] e1 by (auto simp: b1_def intro: extends_trans)
  have "builder_ok rs b0" by (simp add: b0_def timelines_ok_def)
  with e0 have "builder_ok rs (gathered env rs)" by (simp add: extends_def)
  moreover have "named_pallets rs \<subseteq> pallets (bd_timelines b1) \<union> pallets (bd_timelines b2) \<union> pallets (bd_timelines b3)"
    using contents_extends [of rs b0] repacks_extend [of rs b1 env] movements_extend [of rs b2]
    unfolding b1_def [symmetric] b2_def [symmetric] b3_def [symmetric] named_pallets_def by (simp add: image_subset_iff)
  ultimately show ?thesis using e1 e2 e3 unfolding extends_def by (meson Un_least subset_trans)
qed

section \<open>The checks only add findings\<close>

definition adds_findings :: "builder \<Rightarrow> builder \<Rightarrow> bool" where
  "adds_findings b c \<longleftrightarrow> bd_timelines c = bd_timelines b \<and> set (bd_findings b) \<subseteq> set (bd_findings c)"

lemma adds_refl [simp]: "adds_findings b b"
  by (simp add: adds_findings_def)

lemma adds_trans: "adds_findings a b \<Longrightarrow> adds_findings b c \<Longrightarrow> adds_findings a c"
  unfolding adds_findings_def by auto

lemma adds_add_finding [simp]: "adds_findings b (add_finding f b)"
  by (auto simp: adds_findings_def)

lemma adds_foldl: "(\<And>x b. adds_findings b (f b x)) \<Longrightarrow> adds_findings b (foldl f b xs)"
  by (induction xs arbitrary: b) (auto intro: adds_trans)

lemma adds_fold_err:
  "(\<And>x b c. f x b = Inr c \<Longrightarrow> adds_findings b c) \<Longrightarrow> fold_err f xs b = Inr c \<Longrightarrow> adds_findings b c"
proof (induction xs arbitrary: b)
  case (Cons x xs)
  then obtain d where "f x b = Inr d" "fold_err f xs d = Inr c" by (auto simp: and_then_eq_Inr_iff)
  with Cons show ?case by (blast intro: adds_trans)
qed simp

lemma fold_err_total: "(\<And>x b. x \<in> set xs \<Longrightarrow> \<exists>c. f x b = Inr c) \<Longrightarrow> \<exists>c. fold_err f xs b = Inr c"
proof (induction xs arbitrary: b)
  case (Cons x xs)
  then obtain c where "f x b = Inr c" by fastforce
  with Cons show ?case by simp
qed simp

lemma fold_err_append: "fold_err f (xs @ ys) b = and_then (fold_err f xs b) (fold_err f ys)"
  by (induction xs arbitrary: b) (auto simp: and_then_def split: sum.split)

lemma adds_check_shipment: "check_shipment env rs received ks b = Inr c \<Longrightarrow> adds_findings b c"
  by (auto simp: check_shipment_def and_then_eq_Inr_iff split: prod.splits if_splits)

lemma adds_check_receipt: "check_receipt env rs shipped r b = Inr c \<Longrightarrow> adds_findings b c"
  by (auto simp: check_receipt_def Let_def and_then_eq_Inr_iff split: option.splits if_splits)

lemma adds_check_handoffs:
  assumes "check_handoffs env rs b = Inr c"
  shows "adds_findings b c"
proof -
  obtain rd sd ks rcs d where s: "fold_err (check_shipment env rs rd) ks b = Inr d" and r: "fold_err (check_receipt env rs sd) rcs d = Inr c"
    using assms unfolding check_handoffs_def Let_def and_then_eq_Inr_iff by blast
  have "adds_findings b d" by (rule adds_fold_err [OF _ s]) (rule adds_check_shipment)
  moreover have "adds_findings d c" by (rule adds_fold_err [OF _ r]) (rule adds_check_receipt)
  ultimately show ?thesis by (rule adds_trans)
qed

lemma adds_check_missing_contents: "adds_findings b (check_missing_contents env b)"
proof -
  have some: "adds_findings b (foldl (\<lambda>b c. add_finding (g c) b) (add_finding f b) cs)" for g f cs and b :: builder
    by (rule adds_trans [OF adds_add_finding adds_foldl]) (rule adds_add_finding)
  have "adds_findings b (check_missing env ptm b)" for ptm b
  proof (cases ptm)
    case (Pair p tm)
    show ?thesis
      by (cases "movements tm") (simp_all only: Pair check_missing_def prod.case list.case Let_def some adds_refl if_split simp_thms)
  qed
  then show ?thesis unfolding check_missing_contents_def by (rule adds_foldl)
qed

lemma adds_check_conflicting_contents: "adds_findings b (check_conflicting_contents env b)"
  unfolding check_conflicting_contents_def by (auto intro!: adds_foldl split: prod.split)

lemma adds_check_receipt_count: "adds_findings b (check_receipt_count env r b)"
  by (auto simp: check_receipt_count_def split: option.split)

lemma adds_note_cutoff: "adds_findings b (note_cutoff env rs sc b)"
  by (auto simp: note_cutoff_def Let_def split: prod.split)

text \<open>Every cut-off of the manifest is a time.\<close>

definition cutoffs_ok :: "recall_env \<Rightarrow> RecordSet \<Rightarrow> bool" where
  "cutoffs_ok env rs \<longleftrightarrow> list_all (\<lambda>(_, c). case parse_ts env c of Inr _ \<Rightarrow> True | Inl _ \<Rightarrow> False) (rs_cutoffs rs)"

lemma first_cutoff_total:
  "list_all (\<lambda>(_, c). case parse_ts env c of Inr _ \<Rightarrow> True | Inl _ \<Rightarrow> False) cs \<Longrightarrow>
   \<exists>r. first_cutoff env t cs = Inr r \<and> (\<forall>x. r = Some x \<longrightarrow> (\<exists>d. parse_ts env (snd x) = Inr d))"
  by (induction env t cs rule: first_cutoff.induct) (auto split: sum.splits)

lemma cutoff_total:
  assumes "cutoffs_ok env rs"
  obtains r where "cutoff_before env rs t = Inr r" "\<And>x. r = Some x \<Longrightarrow> \<exists>d. parse_ts env (snd x) = Inr d"
  using first_cutoff_total [of env "sort_key fst (rs_cutoffs rs)" t] assms
  by (auto simp: cutoff_before_def cutoffs_ok_def list_all_iff)

lemma check_handoffs_total:
  assumes "cutoffs_ok env rs"
  shows "\<exists>c. check_handoffs env rs b = Inr c"
proof -
  have ship: "\<exists>c. check_shipment env rs received ks b = Inr c" for received ks b
    by (cases ks, rule cutoff_total [OF assms, of "sh_shipped_at (snd ks)"]) (auto simp: check_shipment_def)
  have rec: "\<exists>c. check_receipt env rs shipped r b = Inr c" for shipped r b
    by (rule cutoff_total [OF assms, of "rc_received_at r"])
      (auto simp: check_receipt_def Let_def cutoff_finding_def split: option.split)
  have ships: "\<exists>c. fold_err (check_shipment env rs received) xs b = Inr c" for received xs b
    by (rule fold_err_total) (rule ship)
  have recs: "\<exists>c. fold_err (check_receipt env rs shipped) xs b = Inr c" for shipped xs b
    by (rule fold_err_total) (rule rec)
  show ?thesis
    unfolding check_handoffs_def Let_def and_then_eq_Inr_iff using ships recs by blast
qed

lemma build_custody_steps:
  assumes "build_custody env rs = Inr m"
  obtains b2 b where "check_handoffs env rs (gathered env rs) = Inr b2" "adds_findings b2 b"
    "cm_timelines m = bd_timelines b" "cm_findings m = bd_findings b"
proof -
  from assms obtain b2 where b2: "check_handoffs env rs (gathered env rs) = Inr b2"
    by (auto simp: build_custody_def Let_def and_then_eq_Inr_iff gathered_def)
  define b3 where "b3 = check_conflicting_contents env (check_missing_contents env b2)"
  define b4 where "b4 = foldl (\<lambda>b r. check_receipt_count env r b) b3 (rs_receipts rs)"
  define b5 where "b5 = foldl (\<lambda>b sc. note_cutoff env rs sc b) b4 (sort_key fst (rs_cutoffs rs))"
  have "adds_findings b2 b3"
    unfolding b3_def by (rule adds_trans [OF adds_check_missing_contents adds_check_conflicting_contents])
  moreover have "adds_findings b3 b4" unfolding b4_def by (rule adds_foldl) (rule adds_check_receipt_count)
  moreover have "adds_findings b4 b5" unfolding b5_def by (rule adds_foldl) (rule adds_note_cutoff)
  ultimately have "adds_findings b2 b5" by (blast intro: adds_trans)
  moreover have "m = \<lparr>cm_timelines = bd_timelines b5, cm_repack_ops = bd_repack_ops b5, cm_findings = bd_findings b5\<rparr>"
    using assms b2 by (simp add: build_custody_def Let_def gathered_def b3_def b4_def b5_def)
  ultimately show ?thesis using b2 that by simp
qed

lemma custody_ok:
  assumes "build_custody env rs = Inr m"
  shows "timelines_ok rs (cm_timelines m) \<and> named_pallets rs \<subseteq> pallets (cm_timelines m)"
proof -
  obtain b2 b where *: "check_handoffs env rs (gathered env rs) = Inr b2" "adds_findings b2 b" "cm_timelines m = bd_timelines b"
    by (rule build_custody_steps [OF assms])
  with adds_check_handoffs [OF *(1)] gathered_ok [of rs env] show ?thesis by (simp add: adds_findings_def)
qed

lemma build_custody_total: "cutoffs_ok env rs \<Longrightarrow> \<exists>m. build_custody env rs = Inr m"
  using check_handoffs_total [of env rs "gathered env rs"] by (auto simp: build_custody_def Let_def gathered_def)

text \<open>
  Claim C32 (type). The custody model is well formed, whatever the records: every pallet has one
  timeline under its own name, every contents record of it names a lot, its parents have
  timelines too, only pallets that a repack row names as input are consumed, and every pallet
  that any record names has a timeline.
\<close>

theorem custody_model_well_formed:
  assumes "build_custody env rs = Inr m"
  shows "distinct (map fst (cm_timelines m)) \<and> named_pallets rs \<subseteq> fst ` set (cm_timelines m) \<and>
    list_all (\<lambda>(p, tm). tl_pallet_id tm = p \<and> (\<forall>g\<in>set (tl_contents_groups tm). cg_lots g \<noteq> []) \<and>
      set (tl_parents tm) \<subseteq> fst ` set (cm_timelines m) \<and>
      (is_terminal tm \<or> p \<in> rw_input_pallet_id ` set (rs_repack_rows rs))) (cm_timelines m)"
  using custody_ok [OF assms] by (simp add: timelines_ok_def timeline_ok_def is_terminal_def list_all_iff)

section \<open>The worksheet\<close>

lemma parent_in_model:
  assumes "timelines_ok rs (cm_timelines m)" "parent m p q"
  shows "q \<in> pallets (cm_timelines m)"
proof -
  from assms(2) obtain tm where tm: "map_of (cm_timelines m) p = Some tm" "q \<in> set (tl_parents tm)"
    by (cases "map_of (cm_timelines m) p") (auto simp: parents_of_def)
  have "timeline_ok rs (pallets (cm_timelines m)) p tm"
    using assms(1) map_of_SomeD [OF tm(1)] by (auto simp: timelines_ok_def)
  with tm(2) show ?thesis unfolding timeline_ok_def by blast
qed

lemma ancestor_in_model:
  assumes "timelines_ok rs (cm_timelines m)" "q \<in> set (ancestors m p)"
  shows "\<exists>tm. map_of (cm_timelines m) q = Some tm"
proof -
  from assms(2) obtain r where "parent m r q" by (auto simp: set_ancestors elim: tranclp.cases)
  with parent_in_model [OF assms(1)] show ?thesis by (auto simp: map_of_eq_None_iff simp flip: not_None_eq)
qed

lemma sort_key_Nil_iff [simp]: "sort_key f xs = [] \<longleftrightarrow> xs = []"
  by (metis length_0_conv length_sort)

lemma map_err_total: "(\<And>x. x \<in> set xs \<Longrightarrow> \<exists>y. f x = Inr y) \<Longrightarrow> \<exists>ys. map_err f xs = Inr ys"
  by (induction xs) fastforce+

lemma map_err_mem:
  "map_err f xs = Inr ys \<Longrightarrow> y \<in> set ys \<Longrightarrow> \<exists>x\<in>set xs. f x = Inr y"
  "map_err f xs = Inr ys \<Longrightarrow> x \<in> set xs \<Longrightarrow> \<exists>y\<in>set ys. f x = Inr y"
  by (induction xs arbitrary: ys) (auto simp: and_then_eq_Inr_iff)

lemma pallet_rows_total:
  assumes ok: "timelines_ok rs (cm_timelines m)" and p: "(p, tm) \<in> set (cm_timelines m)"
  shows "\<exists>rows. pallet_rows env repr rs m lot (p, tm) = Inr rows \<and> (is_terminal tm \<longrightarrow> rows \<noteq> []) \<and> (\<forall>r\<in>set rows. wr_pallet_id r = p)"
proof -
  have id: "tl_pallet_id tm = p" and lots: "\<And>g. latest_contents tm = Some g \<Longrightarrow> cg_lots g \<noteq> []"
    using ok p by (auto simp: timelines_ok_def timeline_ok_def latest_contents_def split: list.splits if_splits)
  have there: "\<exists>tm. map_of (cm_timelines m) q = Some tm" if "q \<in> set (p # ancestors m p)" for q
    using that ancestor_in_model [OF ok] p by (auto simp: weak_map_of_SomeI)
  obtain ls where "lineage_lots m p = Inr ls"
    using map_err_total [of "p # ancestors m p" "\<lambda>p. case map_of (cm_timelines m) p of None \<Rightarrow> Inl (KeyError p)
       | Some tm \<Rightarrow> Inr (concat (map (\<lambda>g. map fst (cg_lots g)) (tl_contents_groups tm)))"] there
    by (fastforce simp: lineage_lots_def)
  moreover obtain sup where "supporting_records m tm = Inr sup"
    using map_err_total [of "p # ancestors m p" "\<lambda>p. case map_of (cm_timelines m) p of None \<Rightarrow> Inl (KeyError p) | Some other \<Rightarrow> Inr (timeline_refs other)"] there
    by (fastforce simp: supporting_records_def id)
  moreover have "wr_pallet_id (common_row env repr rs m p tm sup) = p" by (simp add: common_row_def Let_def split: prod.split)
  ultimately show ?thesis
    using lots by (auto simp: pallet_rows_def Let_def lot_row_def split: option.split)
qed

text \<open>
  Claim C30 (liveness). If the cut-offs of the manifest are times, the custody model and the
  worksheet are built without an error, and no product is lost on the way: every pallet that any
  contents, shipping, receiving or repack record names, and that no repack consumed, has a row.
\<close>

theorem recall_covers_every_pallet:
  assumes "cutoffs_ok env rs"
  shows "\<exists>m ws. build_custody env rs = Inr m \<and> build_worksheet env repr rs m lot = Inr ws \<and>
    (\<forall>p. p \<in> named_pallets rs \<and> p \<notin> rw_input_pallet_id ` set (rs_repack_rows rs) \<longrightarrow> (\<exists>row\<in>set (ws_rows ws). wr_pallet_id row = p))"
proof -
  obtain m where m: "build_custody env rs = Inr m" using build_custody_total [OF assms] by blast
  have ok: "timelines_ok rs (cm_timelines m)" and named: "named_pallets rs \<subseteq> pallets (cm_timelines m)" using custody_ok [OF m] by auto
  obtain rows where rows: "map_err (pallet_rows env repr rs m lot) (sort_key fst (cm_timelines m)) = Inr rows"
    using map_err_total [of "sort_key fst (cm_timelines m)" "pallet_rows env repr rs m lot"] pallet_rows_total [OF ok] by fastforce
  have "\<exists>row\<in>set (concat rows). wr_pallet_id row = p" if p: "p \<in> named_pallets rs" "p \<notin> rw_input_pallet_id ` set (rs_repack_rows rs)" for p
  proof -
    obtain tm where tm: "(p, tm) \<in> set (cm_timelines m)" using named p(1) by auto
    with ok p(2) have "is_terminal tm" by (auto simp: timelines_ok_def timeline_ok_def is_terminal_def)
    moreover obtain rs' where "pallet_rows env repr rs m lot (p, tm) = Inr rs'" "rs' \<in> set rows"
      using map_err_mem(2) [OF rows, of "(p, tm)"] tm by auto
    ultimately show ?thesis using pallet_rows_total [OF ok tm, of env repr lot] by (auto simp: neq_Nil_conv) (metis list.set_intros(1))
  qed
  then show ?thesis using m rows by (auto simp: build_worksheet_def)
qed

lemma worksheet_rowE:
  assumes "build_worksheet env repr rs m lot = Inr ws" "row \<in> set (ws_rows ws)"
  obtains tm where "(wr_pallet_id row, tm) \<in> set (cm_timelines m)" "is_terminal tm" "wr_lineage row = ancestors m (wr_pallet_id row)"
    "latest_contents tm = None" "wr_label row = UNRESOLVED"
  | tm g l q where "(wr_pallet_id row, tm) \<in> set (cm_timelines m)" "is_terminal tm" "wr_lineage row = ancestors m (wr_pallet_id row)"
    "latest_contents tm = Some g" "(l, q) \<in> set (cg_lots g)" "wr_lot_code row = Some l" "wr_quantity_asserted row = q"
    "wr_label row = row_label (blocking_findings_for m (wr_pallet_id row)) l lot"
proof -
  obtain rows where rows: "map_err (pallet_rows env repr rs m lot) (sort_key fst (cm_timelines m)) = Inr rows" "row \<in> set (concat rows)"
    using assms by (auto simp: build_worksheet_def and_then_eq_Inr_iff)
  then obtain rs' where rs': "rs' \<in> set rows" "row \<in> set rs'" by auto
  obtain p tm where p: "(p, tm) \<in> set (cm_timelines m)" "pallet_rows env repr rs m lot (p, tm) = Inr rs'"
    using map_err_mem(1) [OF rows(1) rs'(1)] by auto
  have c: "wr_pallet_id (common_row env repr rs m p tm sup) = p \<and> wr_lineage (common_row env repr rs m p tm sup) = ancestors m p \<and>
      wr_label (common_row env repr rs m p tm sup) = UNRESOLVED" for sup
    by (simp add: common_row_def Let_def split: prod.split)
  have terminal: "is_terminal tm" using p(2) rs'(2) by (auto simp: pallet_rows_def split: if_splits)
  show ?thesis
  proof (cases "latest_contents tm")
    case None
    with p(2) rs'(2) p(1) c terminal show ?thesis
      by (intro that(1) [of tm]) (auto simp: pallet_rows_def Let_def and_then_eq_Inr_iff)
  next
    case (Some g)
    with p(2) rs'(2) terminal obtain ls sup lq where lq: "lq \<in> set (cg_lots g)"
        and row: "row = lot_row rs (blocking_findings_for m p) ls g lot (common_row env repr rs m p tm sup) lq"
      by (auto simp: pallet_rows_def Let_def and_then_eq_Inr_iff)
    with Some p(1) c terminal show ?thesis
      by (intro that(2) [of tm g "fst lq" "snd lq"]) (auto simp: lot_row_def Let_def split_beta)
  qed
qed

lemma no_blocking_findings:
  "blocking_findings_for m p = [] \<longleftrightarrow> (\<forall>f\<in>set (cm_findings m). fi_blocking f \<longrightarrow> \<not> in_scope (p # ancestors m p) f)"
  by (auto simp: blocking_findings_for_def findings_for_def filter_empty_conv)

text \<open>
  Claim C29 (safety). A row that is not labelled unresolved stands on evidence: the pallet's
  latest contents record states the lot of the row with its quantity, no blocking finding names
  the pallet or any pallet of its lineage, and the label is \<open>linked\<close> exactly for the implicated lot.
\<close>

theorem resolved_row_is_supported:
  assumes "build_worksheet env repr rs m lot = Inr ws" "row \<in> set (ws_rows ws)" "wr_label row \<noteq> UNRESOLVED"
  shows "(\<exists>tm g l. (wr_pallet_id row, tm) \<in> set (cm_timelines m) \<and> is_terminal tm \<and> latest_contents tm = Some g \<and>
      (l, wr_quantity_asserted row) \<in> set (cg_lots g) \<and> wr_lot_code row = Some l \<and> (wr_label row = LINKED \<longleftrightarrow> l = lot)) \<and>
    (\<forall>f\<in>set (cm_findings m). fi_blocking f \<longrightarrow> \<not> in_scope (wr_pallet_id row # ancestors m (wr_pallet_id row)) f)"
  using assms(1,2)
proof (cases rule: worksheet_rowE)
  case (2 tm g l q)
  with assms(3) have "blocking_findings_for m (wr_pallet_id row) = []" by (auto simp: row_label_def split: if_splits)
  with 2 show ?thesis by (auto simp: no_blocking_findings row_label_def)
qed (use assms(3) in simp)

lemma missing_receipt_finding:
  assumes "check_handoffs env rs b = Inr c" "s \<in> set (rs_shipments rs)"
    and "\<forall>r\<in>set (rs_receipts rs). rc_shipment_ref r \<noteq> Some (sh_shipment_id s) \<or> rc_pallet_id r \<noteq> sh_pallet_id s"
  shows "\<exists>f\<in>set (bd_findings c). fi_blocking f \<and> fi_pallet_id f = Some (sh_pallet_id s)"
proof -
  define received where "received = map (\<lambda>r. (the (rc_shipment_ref r), rc_pallet_id r)) (filter (\<lambda>r. str_or (rc_shipment_ref r) [] \<noteq> []) (rs_receipts rs))"
  define ships where "ships = dict_of (map (\<lambda>s. ((sh_shipment_id s, sh_pallet_id s), s)) (rs_shipments rs))"
  obtain d where d: "fold_err (check_shipment env rs received) (sort_key fst ships) b = Inr d"
      and c: "fold_err (check_receipt env rs (map fst ships)) (sort_key (\<lambda>r. (instant (rc_received_at r), rc_receipt_id r)) (rs_receipts rs)) d = Inr c"
    using assms(1) unfolding check_handoffs_def Let_def and_then_eq_Inr_iff received_def ships_def by blast
  let ?k = "(sh_shipment_id s, sh_pallet_id s)"
  have "?k \<in> fst ` set ships" unfolding ships_def dict_of_keys using assms(2) by force
  then obtain s' where "(?k, s') \<in> set (sort_key fst ships)" by auto
  then obtain xs ys where split: "sort_key fst ships = xs @ (?k, s') # ys" by (meson split_list)
  have new: "?k \<notin> set received"
    using assms(3) by (auto simp: received_def str_or_def split: option.splits)
  from d obtain e e' where e: "check_shipment env rs received (?k, s') e = Inr e'" and rest: "fold_err (check_shipment env rs received) ys e' = Inr d"
    unfolding split fold_err_append by (auto simp: and_then_eq_Inr_iff)
  have "\<exists>f\<in>set (bd_findings e'). fi_blocking f \<and> fi_pallet_id f = Some (sh_pallet_id s)"
    using e new by (auto simp: check_shipment_def and_then_eq_Inr_iff blank_finding_def)
  moreover have "adds_findings e' d" by (rule adds_fold_err [OF _ rest]) (rule adds_check_shipment)
  moreover have "adds_findings d c" by (rule adds_fold_err [OF _ c]) (rule adds_check_receipt)
  ultimately show ?thesis by (auto simp: adds_findings_def)
qed

text \<open>
  A shipment that no receipt of the pallet references leaves the pallet, and
  everything repacked from it, unresolved: no row of a pallet with it in its lineage is reported
  as linked or as not linked.
\<close>

theorem unreceived_shipment_stays_unresolved:
  assumes "build_custody env rs = Inr m" "build_worksheet env repr rs m lot = Inr ws" "s \<in> set (rs_shipments rs)"
    and "\<forall>r\<in>set (rs_receipts rs). rc_shipment_ref r \<noteq> Some (sh_shipment_id s) \<or> rc_pallet_id r \<noteq> sh_pallet_id s"
    and "row \<in> set (ws_rows ws)" "sh_pallet_id s \<in> set (wr_pallet_id row # wr_lineage row)"
  shows "wr_label row = UNRESOLVED"
proof -
  obtain b2 b where b: "check_handoffs env rs (gathered env rs) = Inr b2" "adds_findings b2 b" "cm_findings m = bd_findings b"
    using assms(1) by (rule build_custody_steps)
  from missing_receipt_finding [OF b(1) assms(3,4)] b(2,3)
  obtain f where f: "f \<in> set (cm_findings m)" "fi_blocking f" "fi_pallet_id f = Some (sh_pallet_id s)"
    by (auto simp: adds_findings_def)
  show ?thesis
    using assms(2,5)
  proof (cases rule: worksheet_rowE)
    case (2 tm g l q)
    with assms(6) f have "blocking_findings_for m (wr_pallet_id row) \<noteq> []"
      unfolding no_blocking_findings in_scope_def by auto
    with 2 show ?thesis by (simp add: row_label_def)
  qed
qed

section \<open>Summary\<close>

lemma label_value_inj [simp]: "label_value a = label_value b \<longleftrightarrow> a = b"
  by (cases a; cases b) simp_all

lemma count_row_labels:
  "map_of (sm_by_label (count_row s r)) = (map_of (sm_by_label s))(label_value (wr_label r) \<mapsto> value_or 0 (label_value (wr_label r)) (sm_by_label s) + 1)"
  "sm_unresolved_pallets (count_row s r) =
     (if wr_label r = UNRESOLVED then add_new (sm_unresolved_pallets s) (wr_pallet_id r) else sm_unresolved_pallets s)"
  by (auto simp: count_row_def Let_def split: LinkLabel.split option.split)

lemma count_rows:
  assumes "map_of (sm_by_label s) (label_value l) = Some n" "distinct (sm_unresolved_pallets s)"
  shows "map_of (sm_by_label (foldl count_row s rows)) (label_value l) = Some (n + length (filter (\<lambda>r. wr_label r = l) rows)) \<and>
    distinct (sm_unresolved_pallets (foldl count_row s rows)) \<and>
    set (sm_unresolved_pallets (foldl count_row s rows)) =
      set (sm_unresolved_pallets s) \<union> wr_pallet_id ` set (filter (\<lambda>r. wr_label r = UNRESOLVED) rows)"
  using assms
proof (induction rows arbitrary: s n)
  case (Cons r rows)
  have "map_of (sm_by_label (count_row s r)) (label_value l) = Some (if wr_label r = l then n + 1 else n)"
    using Cons.prems(1) by (auto simp: count_row_labels value_or_def)
  moreover have "distinct (sm_unresolved_pallets (count_row s r))"
    using Cons.prems(2) by (auto simp: count_row_labels add_new_def)
  ultimately show ?case
    using Cons.IH [of "count_row s r" "if wr_label r = l then n + 1 else n"] by (auto simp: count_row_labels add_new_def)
qed simp

text \<open>
  The summary of a worksheet counts every row under its own label, so that
  the counts add up to the number of rows, and lists each pallet with an unresolved row once.
\<close>

theorem summary_counts_rows:
  "map_of (sm_by_label (summary ws)) (label_value l) = Some (length (filter (\<lambda>r. wr_label r = l) (ws_rows ws))) \<and>
   distinct (sm_unresolved_pallets (summary ws)) \<and>
   set (sm_unresolved_pallets (summary ws)) = wr_pallet_id ` {r \<in> set (ws_rows ws). wr_label r = UNRESOLVED}"
proof -
  define s0 where "s0 = \<lparr>sm_by_label = map (\<lambda>l. (label_value l, 0 :: nat)) [LINKED, NO_LINK_ESTABLISHED, UNRESOLVED],
    sm_linked_by_destination = [], sm_unresolved_quantity_by_lot = [], sm_unresolved_pallets = []\<rparr>"
  have "map_of (sm_by_label s0) (label_value l) = Some 0" "sm_unresolved_pallets s0 = []"
    by (cases l) (simp_all add: s0_def)
  with count_rows [of s0 l 0 "ws_rows ws"] show ?thesis by (simp add: summary_def s0_def)
qed

section \<open>Concrete reconstructions\<close>

definition demo_env :: recall_env where
  "demo_env = \<lparr>re_rt = example_rt, re_H = (\<lambda>s. ''0''), re_fmt_g = (\<lambda>_. ''5''), re_fmt_plus_g = (\<lambda>_. ''+5'')\<rparr>"

definition demo_ref :: "string \<Rightarrow> SourceRef" where
  "demo_ref r = \<lparr>sx_file = ''f.csv'', sx_row_number = 1, sx_record_id = r, sx_file_sha256 = [], sx_source_system = ''wms''\<rparr>"

definition demo_contents :: "string \<Rightarrow> string \<Rightarrow> string \<Rightarrow> ContentsAssertion" where
  "demo_contents r p lot =
     \<lparr>ca_record_id = r, ca_pallet_id = p, ca_lot_code = lot, ca_quantity = Some (Fin 5), ca_unit_of_measure = ''case'',
      ca_recorded_at = Datetime 10 (Some 0), ca_location_gln = ''g1'', ca_location_name = ''Farm'', ca_source_ref = demo_ref r,
      ca_derived_from = [], ca_process_type = None\<rparr>"

definition demo_repack :: "string \<Rightarrow> string \<Rightarrow> string \<Rightarrow> pyfloat option \<Rightarrow> RepackRow" where
  "demo_repack i out lot q =
     \<lparr>rw_record_id = ''K1'', rw_process_type = ''repack'', rw_input_pallet_id = i, rw_output_pallet_id = out, rw_lot_code = lot,
      rw_quantity = q, rw_unit_of_measure = ''case'', rw_performed_at = Datetime 30 (Some 0), rw_location_gln = ''g2'',
      rw_location_name = ''Packer'', rw_source_ref = demo_ref ''K1''\<rparr>"

definition demo_shipment :: "string \<Rightarrow> Shipment" where
  "demo_shipment p =
     \<lparr>sh_shipment_id = ''S1'', sh_pallet_id = p, sh_from_gln = ''g1'', sh_from_name = ''Farm'', sh_to_gln = ''g2'',
      sh_to_name = ''Packer'', sh_shipped_at = Datetime 20 (Some 0), sh_source_ref = demo_ref ''S1''\<rparr>"

definition demo_rs :: "ContentsAssertion list \<Rightarrow> Shipment list \<Rightarrow> RepackRow list \<Rightarrow> RecordSet" where
  "demo_rs cs ss ks =
     \<lparr>rs_case = ''case'', rs_files = [], rs_lots = [], rs_contents = cs, rs_shipments = ss, rs_receipts = [],
      rs_repack_rows = ks, rs_corrections = [], rs_load_findings = [], rs_cutoffs = []\<rparr>"

definition demo_sheet :: "RecordSet \<Rightarrow> string \<Rightarrow> py_error + Worksheet" where
  "demo_sheet rs lot = and_then (build_custody demo_env rs) (\<lambda>m. build_worksheet demo_env (\<lambda>s. s) rs m lot)"

text \<open>The pallet, lot, quantity and label of the rows, with the flag on the lineage.\<close>

definition sheet_rows :: "py_error + Worksheet \<Rightarrow> (string \<times> string option \<times> pyfloat option \<times> LinkLabel \<times> bool) list" where
  "sheet_rows r = (case r of Inl _ \<Rightarrow> [] | Inr ws \<Rightarrow>
     map (\<lambda>x. (wr_pallet_id x, wr_lot_code x, wr_quantity_asserted x, wr_label x, wr_lineage_includes_implicated_lot x)) (ws_rows ws))"

text \<open>
  The order of two rows of one repack record decides the verdict: a row of
  unknown quantity followed by one of five cases of the same lot is read as five cases and the
  output pallet is reported as linked; with the rows the other way round the quantity is unknown
  and the pallet is unresolved.
\<close>

theorem unknown_quantity_forgotten:
  "sheet_rows (demo_sheet (demo_rs [demo_contents ''C1'' ''P1'' ''A''] [] [demo_repack ''P1'' ''P2'' ''A'' None, demo_repack ''P1'' ''P2'' ''A'' (Some (Fin 5))]) ''A'') =
     [(''P2'', Some ''A'', Some (Fin 5), LINKED, False)] \<and>
   sheet_rows (demo_sheet (demo_rs [demo_contents ''C1'' ''P1'' ''A''] [] [demo_repack ''P1'' ''P2'' ''A'' (Some (Fin 5)), demo_repack ''P1'' ''P2'' ''A'' None]) ''A'') =
     [(''P2'', Some ''A'', None, UNRESOLVED, False)]"
  by code_simp

text \<open>
  A row is reported as having no link although the records on its chain name
  the implicated lot: a pallet of two lots is repacked into a pallet each, and the row of the
  other lot carries \<open>no_link_established\<close> with the lineage flag set.
\<close>

theorem no_link_row_with_implicated_lineage:
  "sheet_rows (demo_sheet (demo_rs [demo_contents ''C1'' ''P1'' ''A'', demo_contents ''C1'' ''P1'' ''B''] []
       [demo_repack ''P1'' ''P2'' ''A'' (Some (Fin 5)), demo_repack ''P1'' ''P3'' ''B'' (Some (Fin 5))]) ''A'') =
     [(''P2'', Some ''A'', Some (Fin 5), LINKED, False), (''P3'', Some ''B'', Some (Fin 5), NO_LINK_ESTABLISHED, True)]"
  by code_simp

definition kept_rs :: RecordSet where
  "kept_rs = demo_rs [demo_contents ''C1'' ''P1'' ''A''] [] [demo_repack ''P1'' ''P2'' ''A'' (Some (Fin 5))]"

definition sent_rs :: RecordSet where
  "sent_rs = demo_rs [demo_contents ''C1'' ''P1'' ''A''] [demo_shipment ''P1''] [demo_repack ''P1'' ''P2'' ''A'' (Some (Fin 5))]"

definition parents_rows :: "py_error + Worksheet \<Rightarrow> (LinkLabel \<times> string list) list" where
  "parents_rows r = (case r of Inl _ \<Rightarrow> [] | Inr ws \<Rightarrow> map (\<lambda>x. (wr_label x, wr_lineage x)) (ws_rows ws))"

lemma demo_rowE:
  assumes "parents_rows (demo_sheet rs lot) = [(l, ps)]"
  obtains m ws row where "build_custody demo_env rs = Inr m" "build_worksheet demo_env (\<lambda>s. s) rs m lot = Inr ws"
    "row \<in> set (ws_rows ws)" "wr_label row = l" "wr_lineage row = ps"
proof (cases "demo_sheet rs lot")
  case (Inr ws)
  then obtain m where m: "build_custody demo_env rs = Inr m" "build_worksheet demo_env (\<lambda>s. s) rs m lot = Inr ws"
    by (auto simp: demo_sheet_def and_then_eq_Inr_iff)
  from assms Inr obtain row where "ws_rows ws = [row]" "wr_label row = l" "wr_lineage row = ps"
    by (auto simp: parents_rows_def map_eq_Cons_conv)
  with m show ?thesis by (intro that) auto
qed (use assms in \<open>simp add: parents_rows_def\<close>)

theorem custody_model_well_formed_witness:
  "\<exists>m. build_custody demo_env kept_rs = Inr m \<and> distinct (map fst (cm_timelines m)) \<and>
     named_pallets kept_rs \<subseteq> fst ` set (cm_timelines m)"
proof -
  have "cutoffs_ok demo_env kept_rs" by (simp add: cutoffs_ok_def kept_rs_def demo_rs_def)
  then obtain m where m: "build_custody demo_env kept_rs = Inr m" using build_custody_total by blast
  with custody_model_well_formed [OF m] show ?thesis by blast
qed

theorem recall_covers_every_pallet_witness:
  "cutoffs_ok demo_env kept_rs \<and>
   (\<exists>m ws. build_custody demo_env kept_rs = Inr m \<and> build_worksheet demo_env (\<lambda>s. s) kept_rs m ''A'' = Inr ws \<and>
      (\<exists>row\<in>set (ws_rows ws). wr_pallet_id row = ''P2''))"
proof -
  have ok: "cutoffs_ok demo_env kept_rs" and n: "''P2'' \<in> named_pallets kept_rs"
      and i: "''P2'' \<notin> rw_input_pallet_id ` set (rs_repack_rows kept_rs)"
    by (simp_all add: cutoffs_ok_def kept_rs_def demo_rs_def named_pallets_def demo_repack_def demo_contents_def)
  show ?thesis using recall_covers_every_pallet [OF ok, of "\<lambda>s. s" "''A''"] ok n i by blast
qed

theorem resolved_row_is_supported_witness:
  "\<exists>m ws row. build_worksheet demo_env (\<lambda>s. s) kept_rs m ''A'' = Inr ws \<and> row \<in> set (ws_rows ws) \<and> wr_label row = LINKED \<and>
     wr_lineage row = [''P1''] \<and> wr_lot_code row = Some ''A'' \<and>
     (\<forall>f\<in>set (cm_findings m). fi_blocking f \<longrightarrow> \<not> in_scope (wr_pallet_id row # ancestors m (wr_pallet_id row)) f)"
proof -
  have "parents_rows (demo_sheet kept_rs ''A'') = [(LINKED, [''P1''])]" by code_simp
  then obtain m ws row where *: "build_worksheet demo_env (\<lambda>s. s) kept_rs m ''A'' = Inr ws" "row \<in> set (ws_rows ws)"
      "wr_label row = LINKED" "wr_lineage row = [''P1'']"
    by (rule demo_rowE)
  from resolved_row_is_supported [OF *(1,2)] *(3) * show ?thesis by auto
qed

theorem unreceived_shipment_stays_unresolved_witness:
  "\<exists>m ws row. build_custody demo_env sent_rs = Inr m \<and> build_worksheet demo_env (\<lambda>s. s) sent_rs m ''A'' = Inr ws \<and>
     row \<in> set (ws_rows ws) \<and> wr_lineage row = [''P1''] \<and> wr_label row = UNRESOLVED"
proof -
  have "parents_rows (demo_sheet sent_rs ''A'') = [(UNRESOLVED, [''P1''])]" by code_simp
  then obtain m ws row where *: "build_custody demo_env sent_rs = Inr m" "build_worksheet demo_env (\<lambda>s. s) sent_rs m ''A'' = Inr ws"
      "row \<in> set (ws_rows ws)" "wr_lineage row = [''P1'']"
    by (rule demo_rowE)
  have s: "demo_shipment ''P1'' \<in> set (rs_shipments sent_rs)" "rs_receipts sent_rs = []" "sh_pallet_id (demo_shipment ''P1'') = ''P1''"
    by (simp_all add: sent_rs_def demo_rs_def demo_shipment_def)
  from unreceived_shipment_stays_unresolved [OF *(1,2) s(1) _ *(3)] s * show ?thesis by auto
qed

end
