(* ===== verification/RequestWorkflow.thy ===== *)
theory RequestWorkflow
  imports PyDict "HOL-Library.Char_ord" "HOL-Library.List_Lexorder" "HOL-Library.Product_Lexorder"
begin

text \<open>
  \<^verbatim>\<open>services/shared/request_workflow/\<close>: the workflow of an FDA records request, from intake to
  submission and amendment. The tables are lists of rows; every operation reads them, changes
  them and commits. A commit that the server refuses rolls back to the state before the
  operation and raises. Identifiers are the texts of UUIDs, times are microseconds in UTC. Columns
  that the workflow only copies into a package are kept as a dictionary of the row.
\<close>

section \<open>Constants (constants.py)\<close>

datatype WorkflowStage =
    Intake | Scoping | Collecting | Gap_Analysis | Exception_Triage | Assembling | Internal_Review | Ready | Submitted | Amended

fun stage_value :: "WorkflowStage \<Rightarrow> string" where
  "stage_value Intake = ''intake''"
| "stage_value Scoping = ''scoping''"
| "stage_value Collecting = ''collecting''"
| "stage_value Gap_Analysis = ''gap_analysis''"
| "stage_value Exception_Triage = ''exception_triage''"
| "stage_value Assembling = ''assembling''"
| "stage_value Internal_Review = ''internal_review''"
| "stage_value Ready = ''ready''"
| "stage_value Submitted = ''submitted''"
| "stage_value Amended = ''amended''"

definition workflow_stages :: "WorkflowStage list" where
  "workflow_stages =
     [Intake, Scoping, Collecting, Gap_Analysis, Exception_Triage, Assembling, Internal_Review, Ready, Submitted, Amended]"

definition valid_signoff_types :: "string list" where
  "valid_signoff_types = [''scope_approval'', ''package_review'', ''final_approval'', ''submission_authorization'']"

definition valid_scope_types :: "string list" where
  "valid_scope_types = [''tlc_trace'', ''product_recall'', ''facility_audit'', ''date_range'', ''custom'']"

definition required_signoff_types :: "string list" where
  "required_signoff_types = [''final_approval'', ''scope_approval'']"

definition valid_submission_types :: "string list" where
  "valid_submission_types = [''initial'', ''amendment'', ''supplement'', ''correction'']"

definition valid_submission_methods :: "string list" where
  "valid_submission_methods = [''export'', ''email'', ''portal'', ''mail'', ''other'']"

definition valid_request_channels :: "string list" where
  "valid_request_channels = [''email'', ''phone'', ''portal'', ''letter'', ''drill'', ''other'']"

definition default_response_hours :: int where
  "default_response_hours = 24"

section \<open>Tables\<close>

record request_case =
  wc_case_id :: string
  wc_tenant_id :: string
  wc_received_at :: int
  wc_due_at :: int
  wc_requesting_party :: string
  wc_request_channel :: string
  wc_scope_type :: string
  wc_scope_description :: "string option"
  wc_products :: "string list"
  wc_lots :: "string list"
  wc_facilities :: "string list"
  wc_status :: WorkflowStage
  wc_reviewer :: "string option"
  wc_final_approver :: "string option"
  wc_total_records :: nat
  wc_gap_count :: nat
  wc_active_exception_count :: nat
  wc_submission_timestamp :: "int option"
  wc_submission_notes :: "string option"
  wc_created_at :: int
  wc_updated_at :: int

record wf_event =
  we_event_id :: string
  we_tenant_id :: string
  we_status :: string
  we_event_type :: string
  we_timestamp :: int
  we_product_reference :: "string option"
  we_lot_reference :: "string option"
  we_traceability_lot_code :: "string option"
  we_from_facility :: "string option"
  we_to_facility :: "string option"
  we_created_at :: int
  we_amended_at :: "int option"
  we_rest :: pydict

record wf_evaluation =
  vl_evaluation_id :: string
  vl_tenant_id :: string
  vl_event_id :: string
  vl_rule_id :: string
  vl_rule_version :: int
  vl_result :: string
  vl_why_failed :: "string option"
  vl_evaluated_at :: int
  vl_rest :: pydict

record wf_rule =
  rl_rule_id :: string
  rl_rule_version :: int
  rl_title :: string
  rl_severity :: string
  rl_category :: string
  rl_citation :: "string option"

record wf_exception =
  xc_case_id :: string
  xc_tenant_id :: string
  xc_request_case_id :: "string option"
  xc_linked_event_ids :: "string list"
  xc_severity :: string
  xc_status :: string
  xc_source_supplier :: "string option"
  xc_source_facility :: "string option"
  xc_rule_category :: "string option"
  xc_created_at :: int
  xc_rest :: pydict

record wf_signoff =
  so_id :: string
  so_tenant_id :: string
  so_case_id :: string
  so_type :: string
  so_signed_by :: string
  so_signed_at :: int
  so_notes :: "string option"

record wf_entity =
  en_entity_id :: string
  en_tenant_id :: string
  en_name :: string
  en_type :: string
  en_confidence :: "pyfloat option"

record wf_alias =
  al_entity_id :: string
  al_tenant_id :: string
  al_value :: string
  al_type :: string

record wf_review =
  iw_review_id :: string
  iw_tenant_id :: string
  iw_entity_a :: string
  iw_entity_b :: string
  iw_status :: string
  iw_confidence :: rat

record wf_package =
  pk_package_id :: string
  pk_tenant_id :: string
  pk_case_id :: string
  pk_version :: int
  pk_contents :: pydict
  pk_hash :: string
  pk_gap :: pydict
  pk_diff :: "pydict option"
  pk_generated_at :: int
  pk_generated_by :: "string option"

record wf_submission =
  sb_id :: string
  sb_tenant_id :: string
  sb_case_id :: string
  sb_package_id :: string
  sb_type :: string
  sb_submitted_to :: string
  sb_submitted_by :: string
  sb_method :: string
  sb_notes :: "string option"
  sb_package_hash :: string
  sb_record_count :: pyval
  sb_submitted_at :: int

record wf_db =
  wd_cases :: "request_case list"
  wd_events :: "wf_event list"
  wd_evaluations :: "wf_evaluation list"
  wd_rules :: "wf_rule list"
  wd_exceptions :: "wf_exception list"
  wd_signoffs :: "wf_signoff list"
  wd_entities :: "wf_entity list"
  wd_aliases :: "wf_alias list"
  wd_reviews :: "wf_review list"
  wd_packages :: "wf_package list"
  wd_submissions :: "wf_submission list"

text \<open>
  The surroundings: runtime, digest, \<open>json.dumps(.., sort_keys=True, default=str)\<close>, \<open>round(.., 2)\<close>,
  and whether the server accepts the commit that leads to a state.
\<close>

record wf_env =
  wv_rt :: pyrt
  wv_H :: "string \<Rightarrow> string"
  wv_json :: "pyval \<Rightarrow> string"
  wv_round2 :: "pyfloat \<Rightarrow> pyfloat"
  wv_commit_ok :: "wf_db \<Rightarrow> bool"

type_synonym 'a wf_result = "wf_db \<times> (py_error + 'a)"

section \<open>Helpers (utils.py)\<close>

definition utc :: "int \<Rightarrow> pyval" where
  "utc t = PDatetime (Datetime t (Some 0))"

definition opt_uuid :: "string option \<Rightarrow> pyval" where
  "opt_uuid x = (case x of None \<Rightarrow> PNone | Some s \<Rightarrow> PUUID s)"

fun serial :: "pyrt \<Rightarrow> pyval \<Rightarrow> pyval" where
  "serial rt (PUUID s) = PStr s"
| "serial rt (PDatetime d) = PStr (rt_isoformat rt (PDatetime d))"
| "serial rt v = v"

definition row_to_serializable :: "pyrt \<Rightarrow> pydict \<Rightarrow> pydict" where
  "row_to_serializable rt d = map (\<lambda>(k, v). (k, serial rt v)) d"

text \<open>\<open>int(x)\<close> of a finite float truncates.\<close>

definition trunc_float :: "pyfloat \<Rightarrow> int" where
  "trunc_float x = (case x of Fin q \<Rightarrow> if 0 \<le> q then \<lfloor>q\<rfloor> else \<lceil>q\<rceil> | _ \<Rightarrow> 0)"

definition float_abs :: "pyfloat \<Rightarrow> pyfloat" where
  "float_abs x = (case x of Fin q \<Rightarrow> Fin \<bar>q\<bar> | NInf \<Rightarrow> PInf | _ \<Rightarrow> x)"

definition minutes_of :: "pyfloat \<Rightarrow> int" where
  "minutes_of x = trunc_float (fmul (fsub x (Fin (of_int (trunc_float x)))) (Fin 60))"

definition format_countdown :: "pyfloat \<Rightarrow> string" where
  "format_countdown hours =
     (if fle hours (Fin 0) then
        ''OVERDUE by '' @ int_str (trunc_float (float_abs hours)) @ ''h '' @ int_str (minutes_of (float_abs hours)) @ ''m''
      else
        let h = trunc_float hours; m = minutes_of hours
        in if 24 \<le> h then int_str (h div 24) @ ''d '' @ int_str (h mod 24) @ ''h '' @ int_str m @ ''m remaining''
           else int_str h @ ''h '' @ int_str m @ ''m remaining'')"

text \<open>The commit at the end of an operation that started in \<open>db0\<close>.\<close>

definition safe_commit :: "wf_env \<Rightarrow> wf_db \<Rightarrow> wf_db \<Rightarrow> 'a \<Rightarrow> 'a wf_result" where
  "safe_commit env db0 db1 a =
     (if wv_commit_ok env db1 then (db1, Inr a) else (db0, Inl (DBAPIError ''OperationalError'')))"

definition find_case :: "string \<Rightarrow> string \<Rightarrow> wf_db \<Rightarrow> request_case option" where
  "find_case t cid db = List.find (\<lambda>c. wc_case_id c = cid \<and> wc_tenant_id c = t) (wd_cases db)"

definition get_case :: "string \<Rightarrow> string \<Rightarrow> wf_db \<Rightarrow> py_error + request_case" where
  "get_case t cid db =
     (case find_case t cid db of
        None \<Rightarrow> Inl (ValueError (''Request case '' @ cid @ '' not found for tenant '' @ t @ ''.''))
      | Some c \<Rightarrow> Inr c)"

definition update_case :: "string \<Rightarrow> string \<Rightarrow> (request_case \<Rightarrow> request_case) \<Rightarrow> wf_db \<Rightarrow> wf_db" where
  "update_case t cid f db =
     db\<lparr>wd_cases := map (\<lambda>c. if wc_case_id c = cid \<and> wc_tenant_id c = t then f c else c) (wd_cases db)\<rparr>"

text \<open>\<open>x = ANY(xs)\<close>: a null is in no array; an empty list of the case sets no condition.\<close>

definition any_of :: "string option \<Rightarrow> string list \<Rightarrow> bool" where
  "any_of x xs = (case x of None \<Rightarrow> False | Some s \<Rightarrow> s \<in> set xs)"

definition in_scope_of :: "string \<Rightarrow> request_case \<Rightarrow> wf_event \<Rightarrow> bool" where
  "in_scope_of t c e \<longleftrightarrow>
     we_tenant_id e = t \<and> we_status e = ''active'' \<and>
     (wc_products c = [] \<or> any_of (we_product_reference e) (wc_products c)) \<and>
     (wc_lots c = [] \<or> any_of (we_lot_reference e) (wc_lots c) \<or> any_of (we_traceability_lot_code e) (wc_lots c)) \<and>
     (wc_facilities c = [] \<or> any_of (we_from_facility e) (wc_facilities c) \<or> any_of (we_to_facility e) (wc_facilities c))"

definition scope_event_ids :: "string \<Rightarrow> request_case \<Rightarrow> wf_db \<Rightarrow> string list" where
  "scope_event_ids t c db = map we_event_id (filter (in_scope_of t c) (wd_events db))"

definition evaluations_of :: "string \<Rightarrow> string list \<Rightarrow> wf_db \<Rightarrow> wf_evaluation list" where
  "evaluations_of t ids db = filter (\<lambda>v. vl_tenant_id v = t \<and> vl_event_id v \<in> set ids) (wd_evaluations db)"

text \<open>The join with the rule that the evaluation names, at its version.\<close>

definition judged :: "string \<Rightarrow> string list \<Rightarrow> wf_db \<Rightarrow> (wf_evaluation \<times> wf_rule) list" where
  "judged t ids db =
     concat (map (\<lambda>v. map (Pair v) (filter (\<lambda>r. rl_rule_id r = vl_rule_id v \<and> rl_rule_version r = vl_rule_version v) (wd_rules db)))
       (evaluations_of t ids db))"

definition exceptions_of :: "string \<Rightarrow> string \<Rightarrow> string list \<Rightarrow> wf_db \<Rightarrow> wf_exception list" where
  "exceptions_of t cid ids db =
     filter (\<lambda>x. xc_tenant_id x = t \<and> (xc_request_case_id x = Some cid \<or> list_ex (\<lambda>e. e \<in> set ids) (xc_linked_event_ids x)))
       (wd_exceptions db)"

definition is_open :: "wf_exception \<Rightarrow> bool" where
  "is_open x \<longleftrightarrow> xc_status x \<noteq> ''resolved'' \<and> xc_status x \<noteq> ''waived''"

definition missing_evaluations :: "string \<Rightarrow> string list \<Rightarrow> wf_db \<Rightarrow> string list" where
  "missing_evaluations t ids db = filter (\<lambda>e. e \<notin> vl_event_id ` set (evaluations_of t ids db)) ids"

definition judged_columns :: "wf_evaluation \<times> wf_rule \<Rightarrow> pydict" where
  "judged_columns vr =
     (case vr of (v, r) \<Rightarrow>
        [(''evaluation_id'', PUUID (vl_evaluation_id v)), (''event_id'', PUUID (vl_event_id v)), (''rule_id'', PUUID (vl_rule_id v)),
         (''rule_version'', PInt (vl_rule_version v)), (''result'', PStr (vl_result v)), (''why_failed'', opt_str (vl_why_failed v)),
         (''evaluated_at'', utc (vl_evaluated_at v)), (''rule_title'', PStr (rl_title r)), (''severity'', PStr (rl_severity r)),
         (''category'', PStr (rl_category r)), (''citation_reference'', opt_str (rl_citation r))] @ vl_rest v)"

definition pick :: "string list \<Rightarrow> pydict \<Rightarrow> pydict" where
  "pick ks d = filter (\<lambda>(k, _). k \<in> set ks) d"

definition exception_columns :: "wf_exception \<Rightarrow> pydict" where
  "exception_columns x =
     [(''case_id'', PUUID (xc_case_id x)), (''severity'', PStr (xc_severity x)), (''status'', PStr (xc_status x)),
      (''source_supplier'', opt_str (xc_source_supplier x)), (''source_facility_reference'', opt_str (xc_source_facility x)),
      (''rule_category'', opt_str (xc_rule_category x)), (''created_at'', utc (xc_created_at x))] @ xc_rest x"

definition compute_gap_snapshot :: "wf_env \<Rightarrow> string \<Rightarrow> string \<Rightarrow> string list \<Rightarrow> wf_db \<Rightarrow> pydict" where
  "compute_gap_snapshot env t cid ids db =
     (let failed = filter (\<lambda>(v, _). vl_result v = ''fail'' \<or> vl_result v = ''warn'') (judged t ids db);
          unresolved = filter is_open (exceptions_of t cid ids db)
      in [(''missing_events'', PList (map PStr (missing_evaluations t ids db))),
          (''failed_rules'', PList (map (\<lambda>vr. PDict (row_to_serializable (wv_rt env)
             (pick [''evaluation_id'', ''event_id'', ''rule_id'', ''result'', ''why_failed'', ''rule_title'', ''severity''] (judged_columns vr)))) failed)),
          (''unresolved_exceptions'', PList (map (\<lambda>x. PDict (row_to_serializable (wv_rt env)
             (pick [''case_id'', ''severity'', ''status'', ''source_supplier''] (exception_columns x)))) unresolved)),
          (''gap_owners'', PDict (map (\<lambda>(k, xs). (k, PList (map (\<lambda>x. PStr (xc_case_id x)) xs)))
             (group_rows (\<lambda>x. str_or (xc_source_supplier x) ''unknown'') unresolved)))])"

definition texts_in :: "pyrt \<Rightarrow> pyval \<Rightarrow> string list" where
  "texts_in rt v = (case v of PList xs \<Rightarrow> map (py_str rt) xs | _ \<Rightarrow> [])"

definition case_ids_in :: "pyrt \<Rightarrow> pyval \<Rightarrow> string list" where
  "case_ids_in rt v =
     (case v of PList xs \<Rightarrow> map (\<lambda>x. case x of PDict d \<Rightarrow> py_str rt (dict_get d ''case_id'' (PStr [])) | _ \<Rightarrow> []) xs | _ \<Rightarrow> [])"

definition dict_in :: "pyval \<Rightarrow> pydict" where
  "dict_in v = (case v of PDict d \<Rightarrow> d | _ \<Rightarrow> [])"

definition sorted_difference :: "string list \<Rightarrow> string list \<Rightarrow> pyval" where
  "sorted_difference xs ys = PList (map PStr (sort (remdups (filter (\<lambda>x. x \<notin> set ys) xs))))"

text \<open>The keys of the summaries are taken in the order of the two dictionaries.\<close>

definition summary_changes :: "pydict \<Rightarrow> pydict \<Rightarrow> pydict" where
  "summary_changes prior new =
     map (\<lambda>k. (k, PDict [(''prior'', dict_get prior k PNone), (''new'', dict_get new k PNone)]))
       (filter (\<lambda>k. dict_get prior k PNone \<noteq> dict_get new k PNone) (remdups (map fst prior @ map fst new)))"

definition compute_diff :: "wf_env \<Rightarrow> string \<Rightarrow> string \<Rightarrow> int \<Rightarrow> pydict \<Rightarrow> wf_db \<Rightarrow> pydict" where
  "compute_diff env t cid prior_version new db =
     (case List.find (\<lambda>p. pk_case_id p = cid \<and> pk_tenant_id p = t \<and> pk_version p = prior_version) (wd_packages db) of
        None \<Rightarrow> [(''error'', PStr (''Prior version '' @ int_str prior_version @ '' not found''))]
      | Some p \<Rightarrow>
          let rt = wv_rt env; prior = pk_contents p;
              old_ids = texts_in rt (dict_get prior ''event_ids'' (PList []));
              new_ids = texts_in rt (dict_get new ''event_ids'' (PList []));
              old_exc = case_ids_in rt (dict_get prior ''exception_cases'' (PList []));
              new_exc = case_ids_in rt (dict_get new ''exception_cases'' (PList []))
          in [(''prior_version'', PInt prior_version), (''prior_hash'', PStr (pk_hash p)),
              (''events_added'', sorted_difference new_ids old_ids), (''events_removed'', sorted_difference old_ids new_ids),
              (''exceptions_added'', sorted_difference new_exc old_exc), (''exceptions_resolved'', sorted_difference old_exc new_exc),
              (''summary_changes'', PDict (summary_changes (dict_in (dict_get prior ''summary'' (PDict []))) (dict_in (dict_get new ''summary'' (PDict [])))))])"

section \<open>Intake and scope (intake.py)\<close>

record case_args =
  ca_requesting_party :: string
  ca_request_channel :: string
  ca_scope_type :: string
  ca_scope_description :: "string option"
  ca_response_hours :: int
  ca_response_due_at :: "int option"
  ca_products :: "string list"
  ca_lots :: "string list"
  ca_facilities :: "string list"
  ca_reviewer :: "string option"
  ca_final_approver :: "string option"

definition hours :: "int \<Rightarrow> int" where
  "hours n = n * 3600000000"

definition new_case :: "int \<Rightarrow> string \<Rightarrow> string \<Rightarrow> case_args \<Rightarrow> request_case" where
  "new_case now cid t a =
     \<lparr>wc_case_id = cid, wc_tenant_id = t, wc_received_at = now,
      wc_due_at = (case ca_response_due_at a of Some d \<Rightarrow> d | None \<Rightarrow> now + hours (ca_response_hours a)),
      wc_requesting_party = ca_requesting_party a, wc_request_channel = ca_request_channel a, wc_scope_type = ca_scope_type a,
      wc_scope_description = ca_scope_description a, wc_products = ca_products a, wc_lots = ca_lots a,
      wc_facilities = ca_facilities a, wc_status = Intake, wc_reviewer = ca_reviewer a, wc_final_approver = ca_final_approver a,
      wc_total_records = 0, wc_gap_count = 0, wc_active_exception_count = 0, wc_submission_timestamp = None,
      wc_submission_notes = None, wc_created_at = now, wc_updated_at = now\<rparr>"

text \<open>The primary key refuses an identifier that exists.\<close>

definition create_request_case :: "wf_env \<Rightarrow> int \<Rightarrow> string \<Rightarrow> string \<Rightarrow> case_args \<Rightarrow> wf_db \<Rightarrow> request_case wf_result" where
  "create_request_case env now cid t a db =
     (if ca_request_channel a \<notin> set valid_request_channels
      then (db, Inl (ValueError (''Invalid request_channel: '' @ ca_request_channel a)))
      else if ca_scope_type a \<notin> set valid_scope_types
      then (db, Inl (ValueError (''Invalid scope_type: '' @ ca_scope_type a)))
      else if cid \<in> wc_case_id ` set (wd_cases db) then (db, Inl (DBAPIError ''IntegrityError''))
      else let c = new_case now cid t a in safe_commit env db (db\<lparr>wd_cases := wd_cases db @ [c]\<rparr>) c)"

record scope_args =
  sa_products :: "string list option"
  sa_lots :: "string list option"
  sa_facilities :: "string list option"
  sa_scope_type :: "string option"
  sa_scope_description :: "string option"

definition default_to :: "'a option \<Rightarrow> 'a \<Rightarrow> 'a" where
  "default_to x d = (case x of None \<Rightarrow> d | Some y \<Rightarrow> y)"

definition rescope :: "int \<Rightarrow> scope_args \<Rightarrow> request_case \<Rightarrow> request_case" where
  "rescope now a c =
     c\<lparr>wc_status := Scoping, wc_updated_at := now, wc_products := default_to (sa_products a) (wc_products c),
       wc_lots := default_to (sa_lots a) (wc_lots c), wc_facilities := default_to (sa_facilities a) (wc_facilities c),
       wc_scope_type := default_to (sa_scope_type a) (wc_scope_type c),
       wc_scope_description := (case sa_scope_description a of None \<Rightarrow> wc_scope_description c | Some s \<Rightarrow> Some s)\<rparr>"

text \<open>The check of the stage that most operations start with: the case, or the exception.\<close>

definition in_stage :: "string \<Rightarrow> string \<Rightarrow> WorkflowStage list \<Rightarrow> string \<Rightarrow> string \<Rightarrow> wf_db \<Rightarrow> py_error + request_case" where
  "in_stage verb hint stages t cid db =
     and_then (get_case t cid db) (\<lambda>c.
       if wc_status c \<in> set stages then Inr c
       else Inl (ValueError (''Cannot '' @ verb @ '' in status '' @ in_quotes (stage_value (wc_status c)) @ ''. '' @ hint)))"

text \<open>An empty text as scope type is not checked, and an absent one keeps the old type.\<close>

definition update_scope :: "wf_env \<Rightarrow> int \<Rightarrow> string \<Rightarrow> string \<Rightarrow> scope_args \<Rightarrow> wf_db \<Rightarrow> request_case wf_result" where
  "update_scope env now t cid a db =
     (if str_or (sa_scope_type a) [] \<noteq> [] \<and> the (sa_scope_type a) \<notin> set valid_scope_types
      then (db, Inl (ValueError (''Invalid scope_type: '' @ the (sa_scope_type a))))
      else case in_stage ''update scope'' ''Case must be in 'intake' or 'scoping'.'' [Intake, Scoping] t cid db of
             Inl e \<Rightarrow> (db, Inl e)
           | Inr c \<Rightarrow> safe_commit env db (update_case t cid (rescope now a) db) (rescope now a c))"

section \<open>Collection and gap analysis (collection.py)\<close>

definition event_columns :: "wf_event \<Rightarrow> pydict" where
  "event_columns e =
     [(''event_id'', PUUID (we_event_id e)), (''event_type'', PStr (we_event_type e)), (''event_timestamp'', utc (we_timestamp e)),
      (''product_reference'', opt_str (we_product_reference e)), (''lot_reference'', opt_str (we_lot_reference e)),
      (''traceability_lot_code'', opt_str (we_traceability_lot_code e)),
      (''from_facility_reference'', opt_str (we_from_facility e)), (''to_facility_reference'', opt_str (we_to_facility e))] @ we_rest e"

definition scope_events :: "string \<Rightarrow> request_case \<Rightarrow> wf_db \<Rightarrow> wf_event list" where
  "scope_events t c db = sort_key we_timestamp (filter (in_scope_of t c) (wd_events db))"

definition collect_records :: "wf_env \<Rightarrow> int \<Rightarrow> string \<Rightarrow> string \<Rightarrow> wf_db \<Rightarrow> (pydict list \<times> nat) wf_result" where
  "collect_records env now t cid db =
     (case in_stage ''collect'' ''Case must be in 'scoping' or 'collecting'.'' [Scoping, Collecting] t cid db of
        Inl e \<Rightarrow> (db, Inl e)
      | Inr c \<Rightarrow>
          let events = map (\<lambda>e. filter (\<lambda>(k, _). k \<noteq> ''normalized_payload'') (event_columns e)) (scope_events t c db);
              n = length events
          in safe_commit env db
               (update_case t cid (\<lambda>c. c\<lparr>wc_status := Collecting, wc_total_records := n, wc_updated_at := now\<rparr>) db) (events, n))"

record gap_report =
  gr_missing_events :: "string list"
  gr_failed_rules :: "pydict list"
  gr_unresolved :: "pydict list"
  gr_gap_owners :: "(string \<times> string list) list"

definition gap_report_of :: "string \<Rightarrow> string \<Rightarrow> request_case \<Rightarrow> wf_db \<Rightarrow> gap_report" where
  "gap_report_of t cid c db =
     (let ids = scope_event_ids t c db;
          failed = sort_key (\<lambda>(v, r). (rl_severity r, vl_evaluated_at v))
            (filter (\<lambda>(v, _). vl_result v = ''fail'' \<or> vl_result v = ''warn'') (judged t ids db));
          unresolved = sort_key (\<lambda>x. (xc_severity x, xc_created_at x)) (filter is_open (exceptions_of t cid ids db))
      in \<lparr>gr_missing_events = missing_evaluations t ids db,
          gr_failed_rules = map (\<lambda>vr. filter (\<lambda>(k, _). k \<noteq> ''evaluated_at'') (judged_columns vr)) failed,
          gr_unresolved = map (\<lambda>x. pick [''case_id'', ''severity'', ''status'', ''source_supplier'', ''source_facility_reference'',
             ''rule_category'', ''recommended_remediation'', ''owner_user_id'', ''due_date'', ''created_at''] (exception_columns x)) unresolved,
          gr_gap_owners = map (\<lambda>(k, xs). (k, map xc_case_id xs))
            (group_rows (\<lambda>x. str_or (xc_source_supplier x) (str_or (xc_source_facility x) ''unknown'')) unresolved)\<rparr>)"

definition run_gap_analysis :: "wf_env \<Rightarrow> int \<Rightarrow> string \<Rightarrow> string \<Rightarrow> wf_db \<Rightarrow> gap_report wf_result" where
  "run_gap_analysis env now t cid db =
     (case in_stage ''run gap analysis'' ''Case must be in 'collecting' or 'gap_analysis'.'' [Collecting, Gap_Analysis] t cid db of
        Inl e \<Rightarrow> (db, Inl e)
      | Inr c \<Rightarrow>
          let g = gap_report_of t cid c db;
              n = length (gr_missing_events g) + length (gr_failed_rules g) + length (gr_unresolved g)
          in safe_commit env db
               (update_case t cid (\<lambda>c. c\<lparr>wc_status := Gap_Analysis, wc_gap_count := n,
                  wc_active_exception_count := length (gr_unresolved g), wc_updated_at := now\<rparr>) db) g)"

section \<open>Assembly and signoff (assembly.py)\<close>

definition compute_manifest_hash :: "wf_env \<Rightarrow> pydict \<Rightarrow> string" where
  "compute_manifest_hash env contents = wv_H env (wv_json env (PDict (filter (\<lambda>(k, _). k \<noteq> ''package_hash'') contents)))"

text \<open>The rule catalogue (\<^verbatim>\<open>rules/versions.py\<close>), the entities with their aliases, and the signoffs, as read at assembly time.\<close>

definition rule_catalog :: "wf_db \<Rightarrow> pydict" where
  "rule_catalog db =
     dict_of (map (\<lambda>r. (rl_rule_id r, PDict [(''version'', PInt (rl_rule_version r)), (''title'', PStr (rl_title r)),
         (''severity'', PStr (rl_severity r)), (''category'', PStr (rl_category r))])) (sort_key rl_rule_id (wd_rules db)))"

definition identity_snapshot :: "string \<Rightarrow> wf_db \<Rightarrow> pydict" where
  "identity_snapshot t db =
     map (\<lambda>e. (en_entity_id e, PDict [(''name'', PStr (en_name e)), (''type'', PStr (en_type e)),
         (''confidence'', (case en_confidence e of None \<Rightarrow> PNone | Some x \<Rightarrow> if feq x (Fin 0) then PNone else PFloat x)),
         (''aliases'', PList (map (\<lambda>a. PDict [(''value'', PStr (al_value a)), (''type'', PStr (al_type a))])
            (filter (\<lambda>a. al_tenant_id a = t \<and> al_entity_id a = en_entity_id e \<and> al_value a \<noteq> []) (wd_aliases db))))]))
       (filter (\<lambda>e. en_tenant_id e = t) (wd_entities db))"

text \<open>This query has no condition on the tenant.\<close>

definition signoff_snapshot :: "wf_env \<Rightarrow> string \<Rightarrow> wf_db \<Rightarrow> pyval list" where
  "signoff_snapshot env cid db =
     map (\<lambda>s. PDict (row_to_serializable (wv_rt env) [(''signoff_type'', PStr (so_type s)), (''signed_by'', PStr (so_signed_by s)),
         (''signed_at'', utc (so_signed_at s)), (''notes'', opt_str (so_notes s))]))
       (sort_key so_signed_at (filter (\<lambda>s. so_case_id s = cid) (wd_signoffs db)))"

text \<open>The rows of the exceptions in the package, and what is read from each of them.\<close>

definition exception_rows :: "wf_env \<Rightarrow> string \<Rightarrow> string \<Rightarrow> string list \<Rightarrow> wf_db \<Rightarrow> pydict list" where
  "exception_rows env t cid ids db =
     map (\<lambda>x. row_to_serializable (wv_rt env) (exception_columns x)) (sort_key xc_created_at (exceptions_of t cid ids db))"

definition waiver_state :: "wf_env \<Rightarrow> pydict list \<Rightarrow> pyval list" where
  "waiver_state env rows =
     map (\<lambda>e. PStr (py_str (wv_rt env) (dict_get e ''exception_id'' PNone)))
       (filter (\<lambda>e. dict_get e ''status'' PNone = PStr ''waived'') rows)"

definition exception_state :: "wf_env \<Rightarrow> pydict list \<Rightarrow> pydict" where
  "exception_state env rows =
     dict_of (map (\<lambda>e. (py_str (wv_rt env) (dict_get e ''exception_id'' (PStr [])),
         PDict [(''status'', dict_get e ''status'' PNone), (''resolution'', dict_get e ''resolution_summary'' PNone)]))
       (filter (\<lambda>e. truthy (dict_get e ''exception_id'' PNone)) rows))"

definition next_version :: "string \<Rightarrow> string \<Rightarrow> wf_db \<Rightarrow> int" where
  "next_version t cid db =
     fold max (map pk_version (filter (\<lambda>p. pk_case_id p = cid \<and> pk_tenant_id p = t) (wd_packages db))) 0 + 1"

definition count_dicts :: "string \<Rightarrow> string \<Rightarrow> pydict list \<Rightarrow> pyval" where
  "count_dicts k v rows = PInt (int (length (filter (\<lambda>d. dict_get d k PNone = PStr v) rows)))"

text \<open>The manifest without its hash; \<open>version\<close> is the number of the package.\<close>

definition package_manifest :: "wf_env \<Rightarrow> int \<Rightarrow> string \<Rightarrow> string \<Rightarrow> string option \<Rightarrow> request_case \<Rightarrow> int \<Rightarrow> wf_db \<Rightarrow> pydict" where
  "package_manifest env now t cid generated_by c version db =
     (let rt = wv_rt env; ids = scope_event_ids t c db;
          events = map (\<lambda>e. row_to_serializable rt (event_columns e))
            (sort_key we_timestamp (filter (\<lambda>e. we_tenant_id e = t \<and> we_event_id e \<in> set ids \<and> we_status e = ''active'') (wd_events db)));
          evals = map (\<lambda>vr. row_to_serializable rt (judged_columns vr)) (sort_key (\<lambda>(v, _). vl_evaluated_at v) (judged t ids db));
          excs = exception_rows env t cid ids db;
          sorted_ids = map PStr (sort ids)
      in [(''manifest_version'', PStr ''1.0''), (''request_case_id'', PStr cid), (''tenant_id'', PStr t),
          (''version_number'', PInt version), (''assembled_at'', PStr (rt_isoformat rt (utc now))), (''generated_by'', opt_str generated_by),
          (''scoped_event_ids'', PList sorted_ids),
          (''rule_evaluation_ids'', PList (map PStr (sort (filter (\<lambda>i. i \<noteq> []) (map (\<lambda>(v, _). vl_evaluation_id v) (judged t ids db)))))),
          (''rule_versions'', PDict (rule_catalog db)), (''identity_state'', PDict (identity_snapshot t db)),
          (''exception_state'', PDict (exception_state env excs)), (''signoff_state'', PList (signoff_snapshot env cid db)),
          (''waiver_state'', PList (waiver_state env excs)),
          (''scope'', PDict [(''scope_type'', PStr (wc_scope_type c)), (''scope_description'', opt_str (wc_scope_description c)),
             (''affected_products'', PList (map PStr (wc_products c))), (''affected_lots'', PList (map PStr (wc_lots c))),
             (''affected_facilities'', PList (map PStr (wc_facilities c)))]),
          (''event_ids'', PList sorted_ids), (''trace_data'', PList (map PDict events)), (''rule_evaluations'', PList (map PDict evals)),
          (''exception_cases'', PList (map PDict excs)), (''gap_analysis'', PDict (compute_gap_snapshot env t cid ids db)),
          (''summary'', PDict [(''total_events'', PInt (int (length events))), (''total_rule_evaluations'', PInt (int (length evals))),
             (''failed_evaluations'', count_dicts ''result'' ''fail'' evals), (''warned_evaluations'', count_dicts ''result'' ''warn'' evals),
             (''total_exceptions'', PInt (int (length excs))),
             (''open_exceptions'', PInt (int (length (filter (\<lambda>e. dict_get e ''status'' PNone \<notin> {PStr ''resolved'', PStr ''waived''}) excs))))])])"

definition sealed :: "wf_env \<Rightarrow> pydict \<Rightarrow> pydict" where
  "sealed env m = m @ [(''package_hash'', PStr (compute_manifest_hash env m))]"

definition assemble_response_package ::
  "wf_env \<Rightarrow> int \<Rightarrow> string \<Rightarrow> string \<Rightarrow> string \<Rightarrow> string option \<Rightarrow> wf_db \<Rightarrow> wf_package wf_result" where
  "assemble_response_package env now pkg_id t cid generated_by db =
     (case in_stage ''assemble''
        ''Case must be in one of ('gap_analysis', 'exception_triage', 'assembling', 'internal_review').''
        [Gap_Analysis, Exception_Triage, Assembling, Internal_Review] t cid db of
        Inl e \<Rightarrow> (db, Inl e)
      | Inr c \<Rightarrow>
          let version = next_version t cid db;
              manifest = package_manifest env now t cid generated_by c version db;
              contents = sealed env manifest;
              ids = scope_event_ids t c db;
              p = \<lparr>pk_package_id = pkg_id, pk_tenant_id = t, pk_case_id = cid, pk_version = version, pk_contents = contents,
                   pk_hash = compute_manifest_hash env manifest, pk_gap = compute_gap_snapshot env t cid ids db,
                   pk_diff = (if 1 < version then Some (compute_diff env t cid (version - 1) contents db) else None),
                   pk_generated_at = now, pk_generated_by = generated_by\<rparr>;
              n = length (filter (\<lambda>e. we_tenant_id e = t \<and> we_event_id e \<in> set ids \<and> we_status e = ''active'') (wd_events db))
          in if pkg_id \<in> pk_package_id ` set (wd_packages db) then (db, Inl (DBAPIError ''IntegrityError''))
             else safe_commit env db
               (update_case t cid (\<lambda>c. c\<lparr>wc_status := Assembling, wc_total_records := n, wc_updated_at := now\<rparr>)
                 (db\<lparr>wd_packages := wd_packages db @ [p]\<rparr>)) p)"

definition status_transitions :: "(string \<times> WorkflowStage) list" where
  "status_transitions =
     [(''scope_approval'', Exception_Triage), (''package_review'', Internal_Review), (''final_approval'', Ready),
      (''submission_authorization'', Ready)]"

definition insert_signoff :: "wf_signoff \<Rightarrow> wf_db \<Rightarrow> wf_db" where
  "insert_signoff s db =
     (if list_ex (\<lambda>x. so_tenant_id x = so_tenant_id s \<and> so_case_id x = so_case_id s \<and> so_type x = so_type s) (wd_signoffs db) then db
      else db\<lparr>wd_signoffs := wd_signoffs db @ [s]\<rparr>)"

definition signed_case :: "int \<Rightarrow> string \<Rightarrow> string \<Rightarrow> request_case \<Rightarrow> request_case" where
  "signed_case now ty signed_by c =
     c\<lparr>wc_updated_at := now, wc_status := default_to (map_of status_transitions ty) (wc_status c),
       wc_reviewer := (if ty = ''package_review'' then Some signed_by else wc_reviewer c),
       wc_final_approver := (if ty = ''final_approval'' then Some signed_by else wc_final_approver c)\<rparr>"

text \<open>The answer: the new signoff and the stage of the case after it.\<close>

definition add_signoff ::
  "wf_env \<Rightarrow> int \<Rightarrow> string \<Rightarrow> string \<Rightarrow> string \<Rightarrow> string \<Rightarrow> string \<Rightarrow> string option \<Rightarrow> wf_db \<Rightarrow> (wf_signoff \<times> WorkflowStage) wf_result" where
  "add_signoff env now sid t cid ty signed_by notes db =
     (if ty \<notin> set valid_signoff_types then
        (db, Inl (ValueError (''Invalid signoff_type: '' @ ty @ ''. Must be one of '' @ py_str (wv_rt env) (PList (map PStr valid_signoff_types)) @ ''.'')))
      else case get_case t cid db of
        Inl e \<Rightarrow> (db, Inl e)
      | Inr c \<Rightarrow>
          let s = \<lparr>so_id = sid, so_tenant_id = t, so_case_id = cid, so_type = ty, so_signed_by = signed_by, so_signed_at = now,
                   so_notes = notes\<rparr>
          in safe_commit env db (update_case t cid (signed_case now ty signed_by) (insert_signoff s db))
               (s, default_to (map_of status_transitions ty) (wc_status c)))"

end
