(* ===== verification/RequestSubmission.thy ===== *)
theory RequestSubmission
  imports RequestWorkflow
begin

text \<open>
  \<^verbatim>\<open>services/shared/request_workflow/\<close>: the gate before submission and the sweep over the deadlines
  (\<^verbatim>\<open>assembly.py\<close>), submission and amendment (\<^verbatim>\<open>submission.py\<close>) and the queries (\<^verbatim>\<open>queries.py\<close>). The tables
  of the review queue and of the rules are taken to exist, so that the two queries in
  \<open>try\<close> blocks do not raise.
\<close>

section \<open>Blocking defects (assembly.py)\<close>

datatype wf_blocker =
    CriticalRuleFailure (bl_event: string) (bl_rule: string) (bl_title: string) (bl_citation: "string option") (bl_why: "string option")
  | UnresolvedCriticalException (bl_exception: string) (bl_supplier: "string option") (bl_category: "string option")
  | UnevaluatedEvent (bl_event: string) (bl_event_type: string) (bl_tlc: "string option")
  | MissingSignoff (bl_signoff: string)
  | IdentityAmbiguity (bl_review: string) (bl_name_a: string) (bl_name_b: string) (bl_similarity: rat)
  | StaleEvaluations (bl_details: "(string \<times> string \<times> string) list")

fun blocker_message :: "wf_blocker \<Rightarrow> string" where
  "blocker_message (CriticalRuleFailure e r title c w) =
     ''Critical rule '' @ in_quotes title @ '' failed on event '' @ take 8 e @ ''... with no waiver or resolution.''"
| "blocker_message (UnresolvedCriticalException x supplier cat) =
     ''Critical exception from '' @ str_or supplier ''unknown'' @ '' in '' @ in_quotes (str_or cat ''unknown'') @ '' is unresolved.''"
| "blocker_message (UnevaluatedEvent e ty tlc) =
     ''Event '' @ take 8 e @ ''... ('' @ ty @ '') has no rule evaluations '' @ em_dash @ '' cannot verify compliance.''"
| "blocker_message (MissingSignoff s) = ''Required signoff '' @ in_quotes s @ '' has not been provided.''"
| "blocker_message (IdentityAmbiguity r a b q) =
     ''Identity ambiguity: '' @ in_quotes a @ '' and '' @ in_quotes b @ '' are '' @ int_str \<lfloor>q * 100\<rfloor> @
     ''% similar but unresolved. This may split traceability chains.''"
| "blocker_message (StaleEvaluations ds) =
     nat_str (length ds) @ '' evaluation(s) are stale '' @ em_dash @ '' re-evaluate before submission.''"

text \<open>\<open>NOT EXISTS\<close> a closed exception of the tenant that is linked to the event.\<close>

definition covered :: "string \<Rightarrow> string \<Rightarrow> wf_db \<Rightarrow> bool" where
  "covered t e db \<longleftrightarrow> list_ex (\<lambda>x. xc_tenant_id x = t \<and> e \<in> set (xc_linked_event_ids x) \<and> \<not> is_open x) (wd_exceptions db)"

definition critical_failures :: "string \<Rightarrow> string list \<Rightarrow> wf_db \<Rightarrow> wf_blocker list" where
  "critical_failures t ids db =
     map (\<lambda>(v, r). CriticalRuleFailure (vl_event_id v) (vl_rule_id v) (rl_title r) (rl_citation r) (vl_why_failed v))
       (filter (\<lambda>(v, r). vl_result v = ''fail'' \<and> rl_severity r = ''critical'' \<and> \<not> covered t (vl_event_id v) db) (judged t ids db))"

definition critical_exceptions :: "string \<Rightarrow> string \<Rightarrow> string list \<Rightarrow> wf_db \<Rightarrow> wf_blocker list" where
  "critical_exceptions t cid ids db =
     map (\<lambda>x. UnresolvedCriticalException (xc_case_id x) (xc_source_supplier x) (xc_rule_category x))
       (filter (\<lambda>x. is_open x \<and> xc_severity x = ''critical'') (exceptions_of t cid ids db))"

definition unevaluated :: "string \<Rightarrow> string list \<Rightarrow> wf_db \<Rightarrow> wf_blocker list" where
  "unevaluated t ids db =
     map (\<lambda>e. UnevaluatedEvent (we_event_id e) (we_event_type e) (we_traceability_lot_code e))
       (filter (\<lambda>e. we_tenant_id e = t \<and> we_event_id e \<in> set ids \<and> we_status e = ''active'' \<and>
            \<not> list_ex (\<lambda>v. vl_tenant_id v = t \<and> vl_event_id v = we_event_id e) (wd_evaluations db)) (wd_events db))"

definition missing_signoffs :: "string \<Rightarrow> string \<Rightarrow> wf_db \<Rightarrow> wf_blocker list" where
  "missing_signoffs t cid db =
     map MissingSignoff (filter (\<lambda>ty. \<not> list_ex (\<lambda>s. so_case_id s = cid \<and> so_tenant_id s = t \<and> so_type s = ty) (wd_signoffs db))
       (sort required_signoff_types))"

definition identity_issues :: "string \<Rightarrow> wf_db \<Rightarrow> wf_blocker list" where
  "identity_issues t db =
     take 20 (concat (map (\<lambda>w.
       concat (map (\<lambda>a. map (\<lambda>b. IdentityAmbiguity (iw_review_id w) (en_name a) (en_name b) (iw_confidence w))
           (filter (\<lambda>b. en_entity_id b = iw_entity_b w \<and> en_tenant_id b = t) (wd_entities db)))
         (filter (\<lambda>a. en_entity_id a = iw_entity_a w \<and> en_tenant_id a = t) (wd_entities db))))
       (filter (\<lambda>w. iw_tenant_id w = t \<and> iw_status w = ''pending'' \<and> 85 / 100 \<le> iw_confidence w) (wd_reviews db))))"

text \<open>The join of an evaluation with its event and with the rule of its identifier, at any version.\<close>

definition event_modified :: "wf_event \<Rightarrow> int" where
  "event_modified e = (case we_amended_at e of Some a \<Rightarrow> a | None \<Rightarrow> we_created_at e)"

definition stale_rows :: "string \<Rightarrow> string list \<Rightarrow> wf_db \<Rightarrow> (wf_evaluation \<times> wf_event \<times> wf_rule) list" where
  "stale_rows t ids db =
     filter (\<lambda>(v, e, r). vl_evaluated_at v < event_modified e \<or> rl_rule_version r \<noteq> vl_rule_version v)
       (concat (map (\<lambda>v.
          concat (map (\<lambda>e. map (\<lambda>r. (v, e, r)) (filter (\<lambda>r. rl_rule_id r = vl_rule_id v) (wd_rules db)))
            (filter (\<lambda>e. we_event_id e = vl_event_id v \<and> we_tenant_id e = t) (wd_events db))))
        (evaluations_of t ids db)))"

definition stale_evaluations :: "string \<Rightarrow> string list \<Rightarrow> wf_db \<Rightarrow> wf_blocker list" where
  "stale_evaluations t ids db =
     (let rows = stale_rows t ids db
      in if rows = [] then []
         else [StaleEvaluations (map (\<lambda>(v, e, r). (vl_event_id v, vl_rule_id v,
                 if vl_evaluated_at v < event_modified e then ''event_modified'' else ''rule_version_changed'')) rows)])"

definition warning_count :: "string \<Rightarrow> string list \<Rightarrow> wf_db \<Rightarrow> nat" where
  "warning_count t ids db =
     length (filter (\<lambda>(v, r). vl_result v = ''fail'' \<and> rl_severity r = ''warning'') (judged t ids db))"

record defect_check =
  dc_can_submit :: bool
  dc_blockers :: "wf_blocker list"
  dc_warnings :: "(string \<times> nat \<times> string) list"
  dc_blocker_count :: nat
  dc_warning_count :: nat

definition defects_of :: "string \<Rightarrow> string \<Rightarrow> request_case \<Rightarrow> wf_db \<Rightarrow> wf_blocker list" where
  "defects_of t cid c db =
     (let ids = scope_event_ids t c db
      in critical_failures t ids db @ critical_exceptions t cid ids db @ unevaluated t ids db @ missing_signoffs t cid db @
         identity_issues t db @ stale_evaluations t ids db)"

definition check_blocking_defects :: "string \<Rightarrow> string \<Rightarrow> wf_db \<Rightarrow> py_error + defect_check" where
  "check_blocking_defects t cid db =
     and_then (get_case t cid db) (\<lambda>c.
       let blockers = defects_of t cid c db;
           n = warning_count t (scope_event_ids t c db) db;
           warnings = (if 0 < n then [(''non_critical_failures'', n, nat_str n @ '' non-critical rule warning(s) present.'')] else [])
       in Inr \<lparr>dc_can_submit = (blockers = []), dc_blockers = blockers, dc_warnings = warnings,
               dc_blocker_count = length blockers, dc_warning_count = length warnings\<rparr>)"

section \<open>Deadlines (assembly.py)\<close>

definition deadline_status_max_cases :: nat where
  "deadline_status_max_cases = 500"

record deadline_row =
  dl_case_id :: string
  dl_status :: WorkflowStage
  dl_requesting_party :: string
  dl_scope_description :: "string option"
  dl_due_at :: string
  dl_hours_remaining :: pyfloat
  dl_countdown :: string
  dl_urgency :: string
  dl_gap_count :: nat
  dl_exception_count :: nat

text \<open>The epoch difference of the server in hours, read as a float.\<close>

definition hours_between :: "int \<Rightarrow> int \<Rightarrow> pyfloat" where
  "hours_between now due = round_double (of_int (due - now) / 3600000000)"

definition urgency_of :: "int \<Rightarrow> int \<Rightarrow> string" where
  "urgency_of now due =
     (if due < now then ''overdue'' else if flt (hours_between now due) (Fin 2) then ''critical''
      else if flt (hours_between now due) (Fin 6) then ''urgent'' else ''normal'')"

definition is_active_case :: "string \<Rightarrow> request_case \<Rightarrow> bool" where
  "is_active_case t c \<longleftrightarrow> wc_tenant_id c = t \<and> wc_status c \<noteq> Submitted \<and> wc_status c \<noteq> Amended"

definition deadline_row_of :: "wf_env \<Rightarrow> int \<Rightarrow> request_case \<Rightarrow> deadline_row" where
  "deadline_row_of env now c =
     \<lparr>dl_case_id = wc_case_id c, dl_status = wc_status c, dl_requesting_party = wc_requesting_party c,
      dl_scope_description = wc_scope_description c, dl_due_at = rt_isoformat (wv_rt env) (utc (wc_due_at c)),
      dl_hours_remaining = wv_round2 env (hours_between now (wc_due_at c)),
      dl_countdown = format_countdown (hours_between now (wc_due_at c)), dl_urgency = urgency_of now (wc_due_at c),
      dl_gap_count = wc_gap_count c, dl_exception_count = wc_active_exception_count c\<rparr>"

definition check_deadline_status :: "wf_env \<Rightarrow> int \<Rightarrow> string \<Rightarrow> nat \<Rightarrow> wf_db \<Rightarrow> deadline_row list" where
  "check_deadline_status env now t limit db =
     map (deadline_row_of env now) (take limit (sort_key wc_due_at (filter (is_active_case t) (wd_cases db))))"

section \<open>Submission (submission.py)\<close>

record submit_args =
  sm_submitted_by :: string
  sm_submitted_to :: "string option"
  sm_method :: string
  sm_notes :: "string option"
  sm_type :: string
  sm_force :: bool

definition record_count :: "pydict \<Rightarrow> pyval" where
  "record_count contents = dict_get (dict_in (dict_get contents ''summary'' (PDict []))) ''total_events'' (PInt 0)"

definition find_package :: "string \<Rightarrow> string \<Rightarrow> string \<Rightarrow> wf_db \<Rightarrow> wf_package option" where
  "find_package t cid pid db =
     List.find (\<lambda>p. pk_package_id p = pid \<and> pk_tenant_id p = t \<and> pk_case_id p = cid) (wd_packages db)"

definition refused_by_defects :: "defect_check \<Rightarrow> py_error" where
  "refused_by_defects d =
     ValueError (''Cannot submit: '' @ nat_str (dc_blocker_count d) @ '' blocking defect(s). '' @
       py_join ''; '' (map blocker_message (take 5 (dc_blockers d))))"

definition log_submission :: "int \<Rightarrow> string \<Rightarrow> string \<Rightarrow> string \<Rightarrow> submit_args \<Rightarrow> request_case \<Rightarrow> wf_package \<Rightarrow> wf_submission" where
  "log_submission now sid t cid a c p =
     \<lparr>sb_id = sid, sb_tenant_id = t, sb_case_id = cid, sb_package_id = pk_package_id p, sb_type = sm_type a,
      sb_submitted_to = str_or (sm_submitted_to a) (if wc_requesting_party c = [] then ''FDA'' else wc_requesting_party c),
      sb_submitted_by = sm_submitted_by a, sb_method = sm_method a, sb_notes = sm_notes a, sb_package_hash = pk_hash p,
      sb_record_count = record_count (pk_contents p), sb_submitted_at = now\<rparr>"

definition submitted_case :: "int \<Rightarrow> string option \<Rightarrow> request_case \<Rightarrow> request_case" where
  "submitted_case now notes c =
     c\<lparr>wc_status := Submitted, wc_submission_timestamp := Some now, wc_submission_notes := notes, wc_updated_at := now\<rparr>"

definition submit_package ::
  "wf_env \<Rightarrow> int \<Rightarrow> string \<Rightarrow> string \<Rightarrow> string \<Rightarrow> string \<Rightarrow> submit_args \<Rightarrow> wf_db \<Rightarrow> wf_submission wf_result" where
  "submit_package env now sid t cid pid a db =
     (if sm_type a \<notin> set valid_submission_types then (db, Inl (ValueError (''Invalid submission_type: '' @ sm_type a)))
      else if sm_method a \<notin> set valid_submission_methods then (db, Inl (ValueError (''Invalid submission_method: '' @ sm_method a)))
      else case in_stage ''submit'' ''Case must be in 'ready', 'submitted', or 'amended'.'' [Ready, Submitted, Amended] t cid db of
        Inl e \<Rightarrow> (db, Inl e)
      | Inr c \<Rightarrow>
          (case check_blocking_defects t cid db of
             Inl e \<Rightarrow> (db, Inl e)
           | Inr d \<Rightarrow>
               if \<not> dc_can_submit d \<and> \<not> sm_force a then (db, Inl (refused_by_defects d))
               else case find_package t cid pid db of
                 None \<Rightarrow> (db, Inl (ValueError (''Package '' @ pid @ '' not found for case '' @ cid @ ''.'')))
               | Some p \<Rightarrow>
                   let s = log_submission now sid t cid a c p
                   in if sid \<in> sb_id ` set (wd_submissions db) then (db, Inl (DBAPIError ''IntegrityError''))
                      else safe_commit env db
                        (update_case t cid (submitted_case now (sm_notes a)) (db\<lparr>wd_submissions := wd_submissions db @ [s]\<rparr>)) s))"

definition set_stage :: "int \<Rightarrow> WorkflowStage \<Rightarrow> request_case \<Rightarrow> request_case" where
  "set_stage now s c = c\<lparr>wc_status := s, wc_updated_at := now\<rparr>"

definition restored_stage :: "WorkflowStage \<Rightarrow> WorkflowStage" where
  "restored_stage s = (if s \<noteq> Assembling then s else Amended)"

text \<open>Three commits; when the assembly raises, the stage before it is put back and the exception goes on.\<close>

definition create_amendment :: "wf_env \<Rightarrow> int \<Rightarrow> string \<Rightarrow> string \<Rightarrow> string \<Rightarrow> string option \<Rightarrow> wf_db \<Rightarrow> wf_package wf_result" where
  "create_amendment env now pkg_id t cid generated_by db =
     (case in_stage ''amend'' ''Case must be in 'submitted', 'amended', or 'assembling'.'' [Submitted, Amended, Assembling] t cid db of
        Inl e \<Rightarrow> (db, Inl e)
      | Inr c \<Rightarrow>
          (case safe_commit env db (update_case t cid (set_stage now Assembling) db) () of
             (db0, Inl e) \<Rightarrow> (db0, Inl e)
           | (db1, Inr _) \<Rightarrow>
               (case assemble_response_package env now pkg_id t cid generated_by db1 of
                  (db2, Inl e) \<Rightarrow>
                    (case safe_commit env db2 (update_case t cid (set_stage now (restored_stage (wc_status c))) db2) () of
                       (db3, Inl e') \<Rightarrow> (db3, Inl e')
                     | (db3, Inr _) \<Rightarrow> (db3, Inl e))
                | (db2, Inr p) \<Rightarrow> safe_commit env db2 (update_case t cid (set_stage now Amended) db2) p)))"

section \<open>Queries (queries.py)\<close>

record active_row =
  ac_case :: request_case
  ac_hours_remaining :: pyfloat
  ac_countdown :: string
  ac_is_overdue :: bool
  ac_signoff_count :: nat
  ac_package_count :: nat

definition get_active_cases :: "wf_env \<Rightarrow> int \<Rightarrow> string \<Rightarrow> bool \<Rightarrow> wf_db \<Rightarrow> active_row list" where
  "get_active_cases env now t include_submitted db =
     map (\<lambda>c. \<lparr>ac_case = c, ac_hours_remaining = wv_round2 env (hours_between now (wc_due_at c)),
         ac_countdown = format_countdown (hours_between now (wc_due_at c)), ac_is_overdue = (wc_due_at c < now),
         ac_signoff_count = length (filter (\<lambda>s. so_case_id s = wc_case_id c \<and> so_tenant_id s = t) (wd_signoffs db)),
         ac_package_count = length (filter (\<lambda>p. pk_case_id p = wc_case_id c \<and> pk_tenant_id p = t) (wd_packages db))\<rparr>)
       (sort_key wc_due_at (filter (\<lambda>c. wc_tenant_id c = t \<and> (include_submitted \<or> is_active_case t c)) (wd_cases db)))"

text \<open>The left join: a package with no submission appears once, with no submission.\<close>

definition submissions_of :: "string \<Rightarrow> wf_package \<Rightarrow> wf_db \<Rightarrow> wf_submission option list" where
  "submissions_of t p db =
     (let ss = filter (\<lambda>s. sb_tenant_id s = t \<and> sb_package_id s = pk_package_id p) (wd_submissions db)
      in if ss = [] then [None] else map Some ss)"

definition get_package_history :: "string \<Rightarrow> string \<Rightarrow> wf_db \<Rightarrow> py_error + (wf_package \<times> wf_submission option) list" where
  "get_package_history t cid db =
     and_then (get_case t cid db) (\<lambda>_.
       Inr (concat (map (\<lambda>p. map (Pair p) (submissions_of t p db))
         (sort_key pk_version (filter (\<lambda>p. pk_case_id p = cid \<and> pk_tenant_id p = t) (wd_packages db))))))"

end
