(* ===== verification/WorkflowSafety.thy ===== *)
theory WorkflowSafety
  imports RequestSubmission "HOL-Library.Sublist"
begin

text \<open>
  What the request workflow guarantees: the contract every operation keeps (\<open>tenant_operation\<close>,
  and \<open>atomic_operation\<close> for those that change nothing when they raise), its interpretation on the
  eight operations that write, the invariant of the reachable tables, and the gate before
  submission.
\<close>

section \<open>The records and their invariant\<close>

definition package_ok :: "wf_env \<Rightarrow> wf_package \<Rightarrow> bool" where
  "package_ok env p \<longleftrightarrow>
     pk_hash p = compute_manifest_hash env (pk_contents p) \<and> dict_get (pk_contents p) ''package_hash'' PNone = PStr (pk_hash p)"

definition versions :: "string \<Rightarrow> string \<Rightarrow> wf_db \<Rightarrow> int list" where
  "versions t cid db = map pk_version (filter (\<lambda>p. pk_case_id p = cid \<and> pk_tenant_id p = t) (wd_packages db))"

definition numbered :: "int list \<Rightarrow> bool" where
  "numbered vs \<longleftrightarrow> vs = map int [1..<Suc (length vs)]"

definition submission_ok :: "wf_db \<Rightarrow> wf_submission \<Rightarrow> bool" where
  "submission_ok db s \<longleftrightarrow>
     (\<exists>p \<in> set (wd_packages db). pk_package_id p = sb_package_id s \<and> pk_tenant_id p = sb_tenant_id s \<and>
        pk_case_id p = sb_case_id s \<and> pk_hash p = sb_package_hash s)"

definition signoff_key :: "wf_signoff \<Rightarrow> string \<times> string \<times> string" where
  "signoff_key s = (so_tenant_id s, so_case_id s, so_type s)"

definition records_ok :: "wf_env \<Rightarrow> wf_db \<Rightarrow> bool" where
  "records_ok env db \<longleftrightarrow>
     distinct (map wc_case_id (wd_cases db)) \<and> distinct (map pk_package_id (wd_packages db)) \<and>
     list_all (package_ok env) (wd_packages db) \<and> (\<forall>t cid. numbered (versions t cid db)) \<and>
     list_all (submission_ok db) (wd_submissions db) \<and> distinct (map signoff_key (wd_signoffs db))"

text \<open>What one tenant owns of the workflow, and what the workflow only reads.\<close>

definition tenant_view ::
  "string \<Rightarrow> wf_db \<Rightarrow> request_case list \<times> wf_signoff list \<times> wf_package list \<times> wf_submission list" where
  "tenant_view u db =
     (filter (\<lambda>c. wc_tenant_id c = u) (wd_cases db), filter (\<lambda>s. so_tenant_id s = u) (wd_signoffs db),
      filter (\<lambda>p. pk_tenant_id p = u) (wd_packages db), filter (\<lambda>s. sb_tenant_id s = u) (wd_submissions db))"

definition evidence ::
  "wf_db \<Rightarrow> wf_event list \<times> wf_evaluation list \<times> wf_rule list \<times> wf_exception list \<times> wf_entity list \<times> wf_alias list \<times> wf_review list" where
  "evidence db = (wd_events db, wd_evaluations db, wd_rules db, wd_exceptions db, wd_entities db, wd_aliases db, wd_reviews db)"

definition only_adds :: "wf_db \<Rightarrow> wf_db \<Rightarrow> bool" where
  "only_adds db db' \<longleftrightarrow>
     prefix (wd_packages db) (wd_packages db') \<and> prefix (wd_submissions db) (wd_submissions db') \<and> prefix (wd_signoffs db) (wd_signoffs db')"

section \<open>The contract of an operation\<close>

locale tenant_operation =
  fixes env :: wf_env and tenant :: string and run :: "wf_db \<Rightarrow> 'a wf_result"
  assumes foreign: "u \<noteq> tenant \<Longrightarrow> tenant_view u (fst (run db)) = tenant_view u db"
    and reads: "evidence (fst (run db)) = evidence db"
    and adds: "only_adds db (fst (run db))"
    and keeps: "records_ok env db \<Longrightarrow> records_ok env (fst (run db))"
begin

lemma package_kept: "p \<in> set (wd_packages db) \<Longrightarrow> p \<in> set (wd_packages (fst (run db)))"
  using adds[of db] by (auto simp: only_adds_def prefix_def)

lemma signoff_kept: "s \<in> set (wd_signoffs db) \<Longrightarrow> s \<in> set (wd_signoffs (fst (run db)))"
  using adds[of db] by (auto simp: only_adds_def prefix_def)

end

locale atomic_operation = tenant_operation +
  assumes atomic: "run db = (db', Inl e) \<Longrightarrow> db' = db"
begin

lemma changed_only_on_success: "fst (run db) \<noteq> db \<Longrightarrow> \<exists>a. snd (run db) = Inr a"
proof (cases "run db")
  case (Pair db' r)
  then show "fst (run db) \<noteq> db \<Longrightarrow> \<exists>a. snd (run db) = Inr a" using atomic[of db db'] by (cases r) auto
qed

end

section \<open>What the building blocks keep\<close>

text \<open>A state that an operation started in \<open>db\<close> for a tenant may leave behind.\<close>

definition step_ok :: "wf_env \<Rightarrow> string \<Rightarrow> wf_db \<Rightarrow> wf_db \<Rightarrow> bool" where
  "step_ok env t db db' \<longleftrightarrow>
     (\<forall>u. u \<noteq> t \<longrightarrow> tenant_view u db' = tenant_view u db) \<and> evidence db' = evidence db \<and> only_adds db db' \<and>
     (records_ok env db \<longrightarrow> records_ok env db')"

lemma step_ok_refl [simp]: "step_ok env t db db"
  by (simp add: step_ok_def only_adds_def)

lemma step_ok_trans: "step_ok env t a b \<Longrightarrow> step_ok env t b c \<Longrightarrow> step_ok env t a c"
  by (auto simp: step_ok_def only_adds_def)

lemma commit_ok: "step_ok env t db db1 \<Longrightarrow> step_ok env t db (fst (safe_commit env db db1 a))"
  by (simp add: safe_commit_def)

lemma commit_atomic: "safe_commit env db db1 a = (db', Inl e) \<Longrightarrow> db' = db"
  by (auto simp: safe_commit_def split: if_splits)

lemma commit_Inr: "safe_commit env db db1 a = (db', Inr b) \<longleftrightarrow> db' = db1 \<and> b = a \<and> wv_commit_ok env db1"
  by (auto simp: safe_commit_def)

lemma operationI:
  assumes "\<And>db. step_ok env t db (fst (run db))"
  shows "tenant_operation env t run"
  using assms unfolding step_ok_def by unfold_locales blast+

definition keeps_case :: "(request_case \<Rightarrow> request_case) \<Rightarrow> bool" where
  "keeps_case f \<longleftrightarrow> (\<forall>c. wc_case_id (f c) = wc_case_id c \<and> wc_tenant_id (f c) = wc_tenant_id c)"

lemma update_case_tables [simp]:
  "wd_packages (update_case t cid f db) = wd_packages db" "wd_submissions (update_case t cid f db) = wd_submissions db"
  "wd_signoffs (update_case t cid f db) = wd_signoffs db" "evidence (update_case t cid f db) = evidence db"
  by (simp_all add: update_case_def evidence_def)

lemma update_case_ids:
  "keeps_case f \<Longrightarrow> map wc_case_id (wd_cases (update_case t cid f db)) = map wc_case_id (wd_cases db)"
  by (simp add: update_case_def keeps_case_def)

lemma update_case_foreign:
  assumes "keeps_case f" "u \<noteq> t"
  shows "filter (\<lambda>c. wc_tenant_id c = u) (wd_cases (update_case t cid f db)) = filter (\<lambda>c. wc_tenant_id c = u) (wd_cases db)"
proof -
  have "filter (\<lambda>c. wc_tenant_id c = u) (map (\<lambda>c. if wc_case_id c = cid \<and> wc_tenant_id c = t then f c else c) cs) =
      filter (\<lambda>c. wc_tenant_id c = u) cs" for cs
    using assms by (induction cs) (auto simp: keeps_case_def)
  then show ?thesis by (simp add: update_case_def)
qed

lemma submission_ok_cong: "wd_packages db' = wd_packages db \<Longrightarrow> submission_ok db' = submission_ok db"
  by (simp add: submission_ok_def fun_eq_iff)

lemma update_case_ok:
  assumes "keeps_case f"
  shows "step_ok env t db (update_case t cid f db)"
  unfolding step_ok_def
proof (intro conjI allI impI)
  show "tenant_view u (update_case t cid f db) = tenant_view u db" if "u \<noteq> t" for u
    using update_case_foreign[OF assms that] by (simp add: tenant_view_def)
  show "records_ok env (update_case t cid f db)" if "records_ok env db"
    using that by (simp add: records_ok_def update_case_ids[OF assms] versions_def submission_ok_cong[of "update_case t cid f db" db])
qed (simp_all add: only_adds_def)

lemma new_case_ok:
  assumes "wc_case_id c \<notin> wc_case_id ` set (wd_cases db)" "wc_tenant_id c = t"
  shows "step_ok env t db (db\<lparr>wd_cases := wd_cases db @ [c]\<rparr>)"
  using assms by (auto simp: step_ok_def tenant_view_def evidence_def only_adds_def records_ok_def versions_def
      submission_ok_cong[of "db\<lparr>wd_cases := wd_cases db @ [c]\<rparr>" db])

lemma insert_signoff_eq:
  "insert_signoff s db =
     (if signoff_key s \<in> signoff_key ` set (wd_signoffs db) then db else db\<lparr>wd_signoffs := wd_signoffs db @ [s]\<rparr>)"
proof -
  have "list_ex (\<lambda>x. so_tenant_id x = so_tenant_id s \<and> so_case_id x = so_case_id s \<and> so_type x = so_type s) xs \<longleftrightarrow>
      signoff_key s \<in> signoff_key ` set xs" for xs
    by (induction xs) (auto simp: signoff_key_def)
  then show ?thesis by (simp only: insert_signoff_def)
qed

lemma signoff_ok:
  assumes "so_tenant_id s = t"
  shows "step_ok env t db (insert_signoff s db)"
proof (cases "signoff_key s \<in> signoff_key ` set (wd_signoffs db)")
  case True
  then show ?thesis by (simp add: insert_signoff_eq)
next
  case False
  let ?db = "db\<lparr>wd_signoffs := wd_signoffs db @ [s]\<rparr>"
  from False have "insert_signoff s db = ?db" by (simp only: insert_signoff_eq if_False)
  moreover have "records_ok env ?db" if "records_ok env db"
    using that False by (simp add: records_ok_def versions_def submission_ok_cong[of ?db db])
  ultimately show ?thesis
    using assms by (simp add: step_ok_def tenant_view_def evidence_def only_adds_def)
qed

lemma submission_logged_ok:
  assumes "sb_tenant_id s = t" "submission_ok db s"
  shows "step_ok env t db (db\<lparr>wd_submissions := wd_submissions db @ [s]\<rparr>)"
  using assms by (auto simp: step_ok_def tenant_view_def evidence_def only_adds_def records_ok_def versions_def
      submission_ok_cong[of "db\<lparr>wd_submissions := wd_submissions db @ [s]\<rparr>" db])

lemma next_version_numbered:
  assumes "numbered (versions t cid db)"
  shows "next_version t cid db = int (length (versions t cid db)) + 1"
proof -
  have "fold max (map int [1..<Suc n]) 0 = int n" for n
    by (induction n) auto
  then have "fold max (versions t cid db) 0 = int (length (versions t cid db))"
    using assms unfolding numbered_def by metis
  then show ?thesis by (simp add: next_version_def versions_def)
qed

lemma package_added_ok:
  assumes "pk_package_id p \<notin> pk_package_id ` set (wd_packages db)" "pk_tenant_id p = t" "package_ok env p"
    "pk_case_id p = cid" "pk_version p = next_version t cid db"
  shows "step_ok env t db (db\<lparr>wd_packages := wd_packages db @ [p]\<rparr>)"
proof -
  let ?db = "db\<lparr>wd_packages := wd_packages db @ [p]\<rparr>"
  have "numbered (versions u k ?db)" if "\<forall>t cid. numbered (versions t cid db)" for u k
  proof (cases "u = t \<and> k = cid")
    case True
    then have "versions u k ?db = versions t cid db @ [int (length (versions t cid db)) + 1]"
      using assms that next_version_numbered[of t cid db] by (auto simp: versions_def)
    moreover have "versions t cid db = map int [1..<Suc (length (versions t cid db))]"
      using that by (simp add: numbered_def)
    ultimately show ?thesis by (simp add: numbered_def)
  next
    case False
    then have "versions u k ?db = versions u k db" using assms by (auto simp: versions_def)
    with that show ?thesis by simp
  qed
  moreover have "submission_ok db s \<Longrightarrow> submission_ok ?db s" for s by (auto simp: submission_ok_def)
  ultimately show ?thesis
    using assms by (auto simp: step_ok_def tenant_view_def evidence_def only_adds_def records_ok_def list_all_iff)
qed

section \<open>Every operation keeps the contract\<close>

lemma get_caseD: "get_case t cid db = Inr c \<Longrightarrow> find_case t cid db = Some c"
  by (auto simp: get_case_def split: option.splits)

lemma in_stageD: "in_stage verb hint stages t cid db = Inr c \<Longrightarrow> find_case t cid db = Some c \<and> wc_status c \<in> set stages"
  by (auto simp: in_stage_def and_then_def dest!: get_caseD split: sum.splits if_splits)

lemma find_caseD: "find_case t cid db = Some c \<Longrightarrow> c \<in> set (wd_cases db) \<and> wc_case_id c = cid \<and> wc_tenant_id c = t"
  by (auto simp: find_case_def find_Some_iff)

lemma find_packageD:
  "find_package t cid pid db = Some p \<Longrightarrow>
     p \<in> set (wd_packages db) \<and> pk_package_id p = pid \<and> pk_tenant_id p = t \<and> pk_case_id p = cid"
  by (auto simp: find_package_def find_Some_iff)

lemma keeps_caseI [simp]:
  "keeps_case (rescope now a)" "keeps_case (signed_case now ty by_whom)" "keeps_case (submitted_case now notes)"
  "keeps_case (set_stage now s)"
  by (simp_all add: keeps_case_def rescope_def signed_case_def submitted_case_def set_stage_def)

lemma manifest_unsealed: "''package_hash'' \<notin> fst ` set (package_manifest env now t cid g c n db)"
  by (simp add: package_manifest_def Let_def)

lemma hash_of_sealed: "compute_manifest_hash env (sealed env m) = compute_manifest_hash env m"
  by (simp add: compute_manifest_hash_def sealed_def)

lemma dict_get_sealed: "''package_hash'' \<notin> fst ` set m \<Longrightarrow> dict_get (sealed env m) ''package_hash'' d = PStr (compute_manifest_hash env m)"
  by (simp add: sealed_def dict_get_def map_add_def map_of_eq_None_iff[THEN iffD2])

lemma create_step: "step_ok env t db (fst (create_request_case env now cid t a db))"
  unfolding create_request_case_def Let_def
  by (simp add: commit_ok new_case_ok new_case_def)

lemma update_scope_step: "step_ok env t db (fst (update_scope env now t cid a db))"
  unfolding update_scope_def by (auto simp: commit_ok update_case_ok split: sum.split)

lemma collect_step: "step_ok env t db (fst (collect_records env now t cid db))"
  unfolding collect_records_def Let_def
  by (auto intro!: commit_ok update_case_ok simp: keeps_case_def split: sum.split)

lemma gap_step: "step_ok env t db (fst (run_gap_analysis env now t cid db))"
  unfolding run_gap_analysis_def Let_def
  by (auto intro!: commit_ok update_case_ok simp: keeps_case_def split: sum.split)

lemma assemble_step: "step_ok env t db (fst (assemble_response_package env now pkg_id t cid g db))"
proof (cases "in_stage ''assemble'' ''Case must be in one of ('gap_analysis', 'exception_triage', 'assembling', 'internal_review').''
        [Gap_Analysis, Exception_Triage, Assembling, Internal_Review] t cid db")
  case (Inr c)
  show ?thesis
  proof (cases "pkg_id \<in> pk_package_id ` set (wd_packages db)")
    case False
    show ?thesis
      unfolding assemble_response_package_def Inr sum.case Let_def if_not_P[OF False]
      by (rule commit_ok, rule step_ok_trans[OF _ update_case_ok], rule package_added_ok[where cid = cid])
        (simp_all add: False package_ok_def hash_of_sealed dict_get_sealed[OF manifest_unsealed] keeps_case_def)
  qed (simp add: assemble_response_package_def Inr Let_def)
qed (simp add: assemble_response_package_def)

lemma signoff_step: "step_ok env t db (fst (add_signoff env now sid t cid ty who notes db))"
  unfolding add_signoff_def Let_def
  by (auto intro!: commit_ok step_ok_trans[OF signoff_ok update_case_ok] split: sum.split)

lemma logged_ok:
  assumes "find_package t cid pid db = Some p"
  shows "submission_ok db (log_submission now sid t cid a c p)"
  using find_packageD[OF assms] by (auto simp: submission_ok_def log_submission_def)

lemma logged_tenant [simp]: "sb_tenant_id (log_submission now sid t cid a c p) = t"
  by (simp add: log_submission_def)

lemma submit_step: "step_ok env t db (fst (submit_package env now sid t cid pid a db))"
  unfolding submit_package_def Let_def
  by (auto intro!: commit_ok step_ok_trans[OF submission_logged_ok update_case_ok] logged_ok
      split: sum.split option.split)

lemma stage_step: "step_ok env t db (fst (safe_commit env db (update_case t cid (set_stage now s) db) b))"
  by (simp add: commit_ok update_case_ok)

lemma amend_step: "step_ok env t db (fst (create_amendment env now pkg_id t cid g db))"
proof (cases "in_stage ''amend'' ''Case must be in 'submitted', 'amended', or 'assembling'.'' [Submitted, Amended, Assembling] t cid db")
  case (Inr c)
  obtain db1 r where 1: "safe_commit env db (update_case t cid (set_stage now Assembling) db) () = (db1, r)"
    by (cases "safe_commit env db (update_case t cid (set_stage now Assembling) db) ()")
  have a: "step_ok env t db db1" using stage_step[of env t db cid now Assembling "()"] 1 by simp
  obtain db2 q where 2: "assemble_response_package env now pkg_id t cid g db1 = (db2, q)"
    by (cases "assemble_response_package env now pkg_id t cid g db1")
  have b: "step_ok env t db db2" using step_ok_trans[OF a assemble_step[of env t db1 now pkg_id cid g]] 2 by simp
  show ?thesis
    using a step_ok_trans[OF b stage_step[of env t db2 cid now "restored_stage (wc_status c)" "()"]]
      step_ok_trans[OF b stage_step[of env t db2 cid now Amended]]
    unfolding create_amendment_def Inr sum.case 1 2 prod.case
    by (auto split: sum.split prod.split)
qed (simp add: create_amendment_def)

lemma atomicI:
  assumes "\<And>db. step_ok env t db (fst (run db))" "\<And>db db' e. run db = (db', Inl e) \<Longrightarrow> db' = db"
  shows "atomic_operation env t run"
  using operationI[OF assms(1)] assms(2) by (simp add: atomic_operation_def atomic_operation_axioms_def)

interpretation create: atomic_operation env t "create_request_case env now cid t a" for env t now cid a
  by (rule atomicI[OF create_step]) (auto simp: create_request_case_def Let_def dest: commit_atomic split: if_splits)

interpretation scope: atomic_operation env t "update_scope env now t cid a" for env t now cid a
  by (rule atomicI[OF update_scope_step]) (auto simp: update_scope_def dest: commit_atomic split: if_splits sum.splits)

interpretation collect: atomic_operation env t "collect_records env now t cid" for env t now cid
  by (rule atomicI[OF collect_step]) (auto simp: collect_records_def Let_def dest: commit_atomic split: sum.splits)

interpretation gap: atomic_operation env t "run_gap_analysis env now t cid" for env t now cid
  by (rule atomicI[OF gap_step]) (auto simp: run_gap_analysis_def Let_def dest: commit_atomic split: sum.splits)

interpretation assembly: atomic_operation env t "assemble_response_package env now pkg_id t cid g" for env t now pkg_id cid g
  by (rule atomicI[OF assemble_step])
    (auto simp only: assemble_response_package_def Let_def prod.inject split: if_splits sum.splits dest: commit_atomic)

interpretation signoff: atomic_operation env t "add_signoff env now sid t cid ty who nt" for env t now sid cid ty who nt
  by (rule atomicI[OF signoff_step]) (auto simp: add_signoff_def Let_def dest: commit_atomic split: if_splits sum.splits)

interpretation submission: atomic_operation env t "submit_package env now sid t cid pid a" for env t now sid cid pid a
  by (rule atomicI[OF submit_step])
    (auto simp: submit_package_def Let_def dest: commit_atomic split: if_splits sum.splits option.splits)

interpretation amendment: tenant_operation env t "create_amendment env now pkg_id t cid g" for env t now pkg_id cid g
  by (rule operationI) (rule amend_step)

section \<open>Reachable tables\<close>

text \<open>
  Any tenant runs any operation, with a server that accepts or refuses the commits as it likes; between
  them the other services may change the events, evaluations, rules, exceptions and entities.
\<close>

inductive wf_step :: "wf_env \<Rightarrow> wf_db \<Rightarrow> wf_db \<Rightarrow> bool" for env where
  st_create: "wf_step env db (fst (create_request_case (env\<lparr>wv_commit_ok := ok\<rparr>) now cid t a db))"
| st_scope: "wf_step env db (fst (update_scope (env\<lparr>wv_commit_ok := ok\<rparr>) now t cid sa db))"
| st_collect: "wf_step env db (fst (collect_records (env\<lparr>wv_commit_ok := ok\<rparr>) now t cid db))"
| st_gap: "wf_step env db (fst (run_gap_analysis (env\<lparr>wv_commit_ok := ok\<rparr>) now t cid db))"
| st_assemble: "wf_step env db (fst (assemble_response_package (env\<lparr>wv_commit_ok := ok\<rparr>) now pkg_id t cid g db))"
| st_signoff: "wf_step env db (fst (add_signoff (env\<lparr>wv_commit_ok := ok\<rparr>) now sid t cid ty who notes db))"
| st_submit: "wf_step env db (fst (submit_package (env\<lparr>wv_commit_ok := ok\<rparr>) now sid t cid pid sub db))"
| st_amend: "wf_step env db (fst (create_amendment (env\<lparr>wv_commit_ok := ok\<rparr>) now pkg_id t cid g db))"
| st_outside: "wf_step env db (db\<lparr>wd_events := es, wd_evaluations := vs, wd_rules := rs, wd_exceptions := xs,
     wd_entities := ns, wd_aliases := as, wd_reviews := ws\<rparr>)"

definition no_requests :: "wf_db \<Rightarrow> bool" where
  "no_requests db \<longleftrightarrow> wd_cases db = [] \<and> wd_packages db = [] \<and> wd_submissions db = [] \<and> wd_signoffs db = []"

lemma records_ok_commit: "records_ok (env\<lparr>wv_commit_ok := ok\<rparr>) db = records_ok env db"
  by (simp add: records_ok_def package_ok_def[abs_def] compute_manifest_hash_def)

lemma step_keeps: "wf_step env db db' \<Longrightarrow> records_ok env db \<Longrightarrow> records_ok env db' \<and> only_adds db db'"
proof (induction rule: wf_step.induct)
  case (st_outside db ws as ns xs rs vs es)
  let ?db = "db\<lparr>wd_events := es, wd_evaluations := vs, wd_rules := rs, wd_exceptions := xs,
     wd_entities := ns, wd_aliases := as, wd_reviews := ws\<rparr>"
  from st_outside show ?case
    by (simp add: records_ok_def only_adds_def versions_def submission_ok_cong[of ?db db])
qed (metis records_ok_commit create.keeps create.adds scope.keeps scope.adds collect.keeps collect.adds gap.keeps gap.adds
    assembly.keeps assembly.adds signoff.keeps signoff.adds submission.keeps submission.adds amendment.keeps amendment.adds)+

lemma steps_keep: "(wf_step env)\<^sup>*\<^sup>* db db' \<Longrightarrow> records_ok env db \<Longrightarrow> records_ok env db' \<and> only_adds db db'"
proof (induction rule: rtranclp_induct)
  case (step b c)
  then show ?case using step_keeps[of env b c] by (auto simp: only_adds_def)
qed (simp add: only_adds_def)

lemma no_requests_ok: "no_requests db \<Longrightarrow> records_ok env db"
  by (simp add: no_requests_def records_ok_def versions_def numbered_def)

section \<open>The gate before submission\<close>

definition fully_evaluated :: "string \<Rightarrow> wf_event \<Rightarrow> wf_db \<Rightarrow> bool" where
  "fully_evaluated t e db \<longleftrightarrow> (\<exists>v \<in> set (wd_evaluations db). vl_tenant_id v = t \<and> vl_event_id v = we_event_id e)"

definition failures_covered :: "string \<Rightarrow> wf_event \<Rightarrow> wf_db \<Rightarrow> bool" where
  "failures_covered t e db \<longleftrightarrow>
     (\<forall>v \<in> set (wd_evaluations db). \<forall>r \<in> set (wd_rules db).
        vl_tenant_id v = t \<and> vl_event_id v = we_event_id e \<and> rl_rule_id r = vl_rule_id v \<and> rl_rule_version r = vl_rule_version v \<and>
        vl_result v = ''fail'' \<and> rl_severity r = ''critical'' \<longrightarrow>
        (\<exists>x \<in> set (wd_exceptions db). xc_tenant_id x = t \<and> we_event_id e \<in> set (xc_linked_event_ids x) \<and> \<not> is_open x))"

definition evaluations_fresh :: "string \<Rightarrow> wf_event \<Rightarrow> wf_db \<Rightarrow> bool" where
  "evaluations_fresh t e db \<longleftrightarrow>
     (\<forall>v \<in> set (wd_evaluations db). \<forall>r \<in> set (wd_rules db).
        vl_tenant_id v = t \<and> vl_event_id v = we_event_id e \<and> rl_rule_id r = vl_rule_id v \<longrightarrow>
        event_modified e \<le> vl_evaluated_at v \<and> rl_rule_version r = vl_rule_version v)"

lemma judged_iff:
  "(v, r) \<in> set (judged t ids db) \<longleftrightarrow>
     v \<in> set (wd_evaluations db) \<and> r \<in> set (wd_rules db) \<and> vl_tenant_id v = t \<and> vl_event_id v \<in> set ids \<and>
     rl_rule_id r = vl_rule_id v \<and> rl_rule_version r = vl_rule_version v"
  by (auto simp: judged_def evaluations_of_def)

lemma stale_rows_iff:
  "(v, e, r) \<in> set (stale_rows t ids db) \<longleftrightarrow>
     v \<in> set (wd_evaluations db) \<and> e \<in> set (wd_events db) \<and> r \<in> set (wd_rules db) \<and> vl_tenant_id v = t \<and> vl_event_id v \<in> set ids \<and>
     we_event_id e = vl_event_id v \<and> we_tenant_id e = t \<and> rl_rule_id r = vl_rule_id v \<and>
     (vl_evaluated_at v < event_modified e \<or> rl_rule_version r \<noteq> vl_rule_version v)"
  by (auto simp: stale_rows_def evaluations_of_def)

lemma scope_event_idsI: "e \<in> set (wd_events db) \<Longrightarrow> in_scope_of t c e \<Longrightarrow> we_event_id e \<in> set (scope_event_ids t c db)"
  by (auto simp: scope_event_ids_def)

lemma critical_failures_Nil:
  assumes "critical_failures t ids db = []" "we_event_id e \<in> set ids"
  shows "failures_covered t e db"
proof -
  have "covered t (vl_event_id v) db"
    if "(v, r) \<in> set (judged t ids db)" "vl_result v = ''fail''" "rl_severity r = ''critical''" for v r
    using assms(1) that by (fastforce simp: critical_failures_def filter_empty_conv)
  then show ?thesis
    using assms(2) unfolding failures_covered_def judged_iff covered_def list_ex_iff by metis
qed

lemma unevaluated_Nil:
  assumes "unevaluated t ids db = []" "we_event_id e \<in> set ids" "e \<in> set (wd_events db)" "we_tenant_id e = t" "we_status e = ''active''"
  shows "fully_evaluated t e db"
  using assms by (auto simp: unevaluated_def filter_empty_conv fully_evaluated_def list_ex_iff)

lemma stale_Nil:
  assumes "stale_evaluations t ids db = []" "we_event_id e \<in> set ids" "e \<in> set (wd_events db)" "we_tenant_id e = t"
  shows "evaluations_fresh t e db"
proof -
  have "stale_rows t ids db = []" using assms(1) by (simp add: stale_evaluations_def Let_def split: if_splits)
  then have "(v, e, r) \<notin> set (stale_rows t ids db)" for v r by simp
  with assms show ?thesis unfolding evaluations_fresh_def stale_rows_iff by (metis not_less)
qed

lemma missing_signoffs_Nil:
  assumes "missing_signoffs t cid db = []" "ty \<in> {''scope_approval'', ''final_approval''}"
  shows "\<exists>s \<in> set (wd_signoffs db). so_case_id s = cid \<and> so_tenant_id s = t \<and> so_type s = ty"
proof -
  have "ty \<in> set (sort required_signoff_types)" using assms(2) by (auto simp: required_signoff_types_def)
  with assms(1) show ?thesis by (auto simp: missing_signoffs_def filter_empty_conv list_ex_iff)
qed

lemma critical_exceptions_Nil:
  assumes "critical_exceptions t cid ids db = []" "x \<in> set (exceptions_of t cid ids db)" "xc_severity x = ''critical''"
  shows "\<not> is_open x"
  using assms by (auto simp: critical_exceptions_def filter_empty_conv)

text \<open>When a submission is accepted, and what it leaves.\<close>

lemma submit_iff:
  "submit_package env now sid t cid pid a db = (db', Inr s) \<longleftrightarrow>
     sm_type a \<in> set valid_submission_types \<and> sm_method a \<in> set valid_submission_methods \<and>
     (\<exists>c p. find_case t cid db = Some c \<and> wc_status c \<in> {Ready, Submitted, Amended} \<and>
        (sm_force a \<or> defects_of t cid c db = []) \<and> find_package t cid pid db = Some p \<and> sid \<notin> sb_id ` set (wd_submissions db) \<and>
        s = log_submission now sid t cid a c p \<and>
        db' = update_case t cid (submitted_case now (sm_notes a)) (db\<lparr>wd_submissions := wd_submissions db @ [s]\<rparr>) \<and>
        wv_commit_ok env db')"
proof (cases "find_case t cid db")
  case None
  then show ?thesis by (simp add: submit_package_def in_stage_def get_case_def and_then_def)
next
  case (Some c)
  then show ?thesis
    by (cases "find_package t cid pid db")
      (auto simp: submit_package_def in_stage_def get_case_def and_then_def check_blocking_defects_def Let_def commit_Inr)
qed

text \<open>
  Claim C6 (safety). A package that is submitted without force belongs to the case, is logged with the hash the
  package was stored with, and its case passed the gate: every event in scope is evaluated, none of its
  evaluations is older than the event or than the rule, every critical failure is covered by a resolved or
  waived exception, every critical exception of the case or of its events is resolved or waived, and
  both required signoffs are there.
\<close>

theorem submit_gate:
  assumes "submit_package env now sid t cid pid a db = (db', Inr s)" "\<not> sm_force a"
  shows "\<exists>c p. find_case t cid db = Some c \<and> wc_status c \<in> {Ready, Submitted, Amended} \<and>
     find_package t cid pid db = Some p \<and> sb_package_hash s = pk_hash p \<and> s \<in> set (wd_submissions db') \<and>
     (\<forall>e \<in> set (wd_events db). in_scope_of t c e \<longrightarrow>
        fully_evaluated t e db \<and> failures_covered t e db \<and> evaluations_fresh t e db) \<and>
     (\<forall>x \<in> set (exceptions_of t cid (scope_event_ids t c db) db). xc_severity x = ''critical'' \<longrightarrow> \<not> is_open x) \<and>
     (\<forall>ty \<in> {''scope_approval'', ''final_approval''}.
        \<exists>g \<in> set (wd_signoffs db). so_case_id g = cid \<and> so_tenant_id g = t \<and> so_type g = ty)"
proof -
  from assms obtain c p where c: "find_case t cid db = Some c" "wc_status c \<in> {Ready, Submitted, Amended}"
    and gate: "defects_of t cid c db = []" and p: "find_package t cid pid db = Some p"
    and s: "s = log_submission now sid t cid a c p" "s \<in> set (wd_submissions db')"
    unfolding submit_iff by auto
  let ?ids = "scope_event_ids t c db"
  from gate have d: "critical_failures t ?ids db = []" "critical_exceptions t cid ?ids db = []" "unevaluated t ?ids db = []"
    "missing_signoffs t cid db = []" "stale_evaluations t ?ids db = []"
    by (simp_all add: defects_of_def Let_def)
  have "fully_evaluated t e db \<and> failures_covered t e db \<and> evaluations_fresh t e db"
    if "e \<in> set (wd_events db)" "in_scope_of t c e" for e
    using that scope_event_idsI[OF that] unevaluated_Nil[OF d(3)] critical_failures_Nil[OF d(1)] stale_Nil[OF d(5)]
    by (simp add: in_scope_of_def)
  moreover have "sb_package_hash s = pk_hash p" by (simp add: s log_submission_def)
  ultimately show ?thesis
    using c p s(2) critical_exceptions_Nil[OF d(2)] missing_signoffs_Nil[OF d(4)] by blast
qed

text \<open>A case that is ready, with one event in scope.\<close>

definition wf_sample_env :: wf_env where
  "wf_sample_env = \<lparr>wv_rt = example_rt, wv_H = (\<lambda>s. ''h'' @ s), wv_json = (\<lambda>_. ''json''), wv_round2 = (\<lambda>x. x), wv_commit_ok = (\<lambda>_. True)\<rparr>"

definition sample_case :: "WorkflowStage \<Rightarrow> request_case" where
  "sample_case s = (new_case 0 ''c1'' ''t1''
     \<lparr>ca_requesting_party = ''FDA'', ca_request_channel = ''email'', ca_scope_type = ''tlc_trace'', ca_scope_description = None,
      ca_response_hours = 24, ca_response_due_at = None, ca_products = [], ca_lots = [], ca_facilities = [],
      ca_reviewer = None, ca_final_approver = None\<rparr>)\<lparr>wc_status := s\<rparr>"

definition wf_sample_event :: wf_event where
  "wf_sample_event = \<lparr>we_event_id = ''e1'', we_tenant_id = ''t1'', we_status = ''active'', we_event_type = ''shipping'', we_timestamp = 5,
     we_product_reference = None, we_lot_reference = None, we_traceability_lot_code = Some ''L1'', we_from_facility = None,
     we_to_facility = None, we_created_at = 10, we_amended_at = None, we_rest = []\<rparr>"

definition sample_evaluation :: "string \<Rightarrow> int \<Rightarrow> wf_evaluation" where
  "sample_evaluation res at_time = \<lparr>vl_evaluation_id = ''v1'', vl_tenant_id = ''t1'', vl_event_id = ''e1'', vl_rule_id = ''r1'',
     vl_rule_version = 1, vl_result = res, vl_why_failed = None, vl_evaluated_at = at_time, vl_rest = []\<rparr>"

definition sample_signoff :: "string \<Rightarrow> wf_signoff" where
  "sample_signoff ty = \<lparr>so_id = ty, so_tenant_id = ''t1'', so_case_id = ''c1'', so_type = ty, so_signed_by = ''qa'', so_signed_at = 20,
     so_notes = None\<rparr>"

definition sample_package :: wf_package where
  "sample_package = \<lparr>pk_package_id = ''p1'', pk_tenant_id = ''t1'', pk_case_id = ''c1'', pk_version = 1,
     pk_contents = sealed wf_sample_env [], pk_hash = compute_manifest_hash wf_sample_env [], pk_gap = [], pk_diff = None,
     pk_generated_at = 15, pk_generated_by = None\<rparr>"

definition sample_db :: "WorkflowStage \<Rightarrow> wf_evaluation list \<Rightarrow> wf_db" where
  "sample_db s evaluations =
     \<lparr>wd_cases = [sample_case s], wd_events = [wf_sample_event], wd_evaluations = evaluations,
      wd_rules = [\<lparr>rl_rule_id = ''r1'', rl_rule_version = 1, rl_title = ''TLC'', rl_severity = ''critical'', rl_category = ''kde'',
        rl_citation = None\<rparr>],
      wd_exceptions = [], wd_signoffs = map sample_signoff [''scope_approval'', ''final_approval''], wd_entities = [],
      wd_aliases = [], wd_reviews = [], wd_packages = [sample_package], wd_submissions = []\<rparr>"

definition sample_args :: submit_args where
  "sample_args = \<lparr>sm_submitted_by = ''qa'', sm_submitted_to = None, sm_method = ''export'', sm_notes = None, sm_type = ''initial'',
     sm_force = False\<rparr>"

definition accepted :: "'a wf_result \<Rightarrow> bool" where
  "accepted r = (case snd r of Inr _ \<Rightarrow> True | Inl _ \<Rightarrow> False)"

lemma accepted_iff: "accepted r \<longleftrightarrow> (\<exists>db a. r = (db, Inr a))"
  by (cases r) (auto simp: accepted_def split: sum.splits)

lemma sample_accepted: "accepted (submit_package wf_sample_env 30 ''s1'' ''t1'' ''c1'' ''p1'' sample_args (sample_db Ready [sample_evaluation ''pass'' 12]))"
  by code_simp

theorem submit_gate_witness:
  "fully_evaluated ''t1'' wf_sample_event (sample_db Ready [sample_evaluation ''pass'' 12])"
proof -
  let ?db = "sample_db Ready [sample_evaluation ''pass'' 12]"
  obtain db' s where "submit_package wf_sample_env 30 ''s1'' ''t1'' ''c1'' ''p1'' sample_args ?db = (db', Inr s)"
    using sample_accepted unfolding accepted_iff by blast
  moreover have "\<not> sm_force sample_args" by (simp add: sample_args_def)
  ultimately obtain c where "find_case ''t1'' ''c1'' ?db = Some c"
    "\<forall>e \<in> set (wd_events ?db). in_scope_of ''t1'' c e \<longrightarrow> fully_evaluated ''t1'' e ?db"
    using submit_gate[of wf_sample_env 30 "''s1''" "''t1''" "''c1''" "''p1''" sample_args ?db] by blast
  moreover have "find_case ''t1'' ''c1'' ?db = Some (sample_case Ready)" by code_simp
  moreover have "in_scope_of ''t1'' (sample_case Ready) wf_sample_event" by code_simp
  moreover have "wf_sample_event \<in> set (wd_events ?db)" by (simp add: sample_db_def)
  ultimately show ?thesis by simp
qed

text \<open>
  An evaluation that ended in an error does not block: the gate asks for \<open>fail\<close>, and any evaluation counts as an evaluation.
\<close>

lemma errored_evaluation_passes_the_gate:
  "accepted (submit_package wf_sample_env 30 ''s1'' ''t1'' ''c1'' ''p1'' sample_args (sample_db Ready [sample_evaluation ''error'' 12]))"
  by code_simp

text \<open>A failed evaluation does.\<close>

lemma failed_evaluation_is_refused:
  "snd (submit_package wf_sample_env 30 ''s1'' ''t1'' ''c1'' ''p1'' sample_args (sample_db Ready [sample_evaluation ''fail'' 12])) =
     Inl (ValueError ''Cannot submit: 1 blocking defect(s). Critical rule 'TLC' failed on event e1... with no waiver or resolution.'')"
  by code_simp

section \<open>Reachable records\<close>

text \<open>
  Claim C7 (invariant). Whatever tenants do, in whatever order and with whatever commits refused: the stored hash of every
  package is the hash of its stored contents, the versions of a case are 1 to n without gap, every
  logged submission names a stored package of its case and tenant with that package's hash, no signoff type is
  given twice for a case, and the identifiers of cases and packages are unique.
\<close>

theorem workflow_records_ok:
  assumes "no_requests db" "(wf_step env)\<^sup>*\<^sup>* db db'"
  shows "records_ok env db'"
  using steps_keep[OF assms(2) no_requests_ok[OF assms(1)]] by simp

definition empty_db :: wf_db where
  "empty_db = \<lparr>wd_cases = [], wd_events = [], wd_evaluations = [], wd_rules = [], wd_exceptions = [], wd_signoffs = [],
     wd_entities = [], wd_aliases = [], wd_reviews = [], wd_packages = [], wd_submissions = []\<rparr>"

theorem workflow_records_ok_witness:
  "records_ok wf_sample_env (fst (create_request_case wf_sample_env 0 ''c1'' ''t1''
     \<lparr>ca_requesting_party = ''FDA'', ca_request_channel = ''email'', ca_scope_type = ''custom'', ca_scope_description = None,
      ca_response_hours = 24, ca_response_due_at = None, ca_products = [], ca_lots = [], ca_facilities = [],
      ca_reviewer = None, ca_final_approver = None\<rparr> empty_db))"
proof (rule workflow_records_ok)
  show "no_requests empty_db" by (simp add: no_requests_def empty_db_def)
  have "wf_sample_env\<lparr>wv_commit_ok := wv_commit_ok wf_sample_env\<rparr> = wf_sample_env" by simp
  then show "(wf_step wf_sample_env)\<^sup>*\<^sup>* empty_db (fst (create_request_case wf_sample_env 0 ''c1'' ''t1''
     \<lparr>ca_requesting_party = ''FDA'', ca_request_channel = ''email'', ca_scope_type = ''custom'', ca_scope_description = None,
      ca_response_hours = 24, ca_response_due_at = None, ca_products = [], ca_lots = [], ca_facilities = [],
      ca_reviewer = None, ca_final_approver = None\<rparr> empty_db))"
    by (metis r_into_rtranclp wf_step.st_create)
qed

text \<open>
  Claim C15 (safety). No operation of one tenant changes a case, signoff, package or submission of another, and none
  changes the events, evaluations, rules, exceptions or entities it judges by; packages, submissions and
  signoffs are only added.
\<close>

theorem workflow_tenant_frame:
  assumes "u \<noteq> t"
    "db' \<in> {fst (create_request_case env now cid t a db), fst (update_scope env now t cid sa db), fst (collect_records env now t cid db),
      fst (run_gap_analysis env now t cid db), fst (assemble_response_package env now pkg_id t cid g db),
      fst (add_signoff env now sid t cid ty who nt db), fst (submit_package env now sid t cid pid sub db),
      fst (create_amendment env now pkg_id t cid g db)}"
  shows "tenant_view u db' = tenant_view u db \<and> evidence db' = evidence db \<and> only_adds db db'"
  using assms(2) create.foreign[OF assms(1)] scope.foreign[OF assms(1)] collect.foreign[OF assms(1)] gap.foreign[OF assms(1)]
    assembly.foreign[OF assms(1)] signoff.foreign[OF assms(1)] submission.foreign[OF assms(1)] amendment.foreign[OF assms(1)]
  by (elim insertE emptyE)
    (simp_all add: create.reads create.adds scope.reads scope.adds collect.reads collect.adds gap.reads gap.adds
      assembly.reads assembly.adds signoff.reads signoff.adds submission.reads submission.adds amendment.reads amendment.adds)

theorem workflow_tenant_frame_witness:
  "tenant_view ''t2'' (fst (add_signoff wf_sample_env 30 ''x'' ''t1'' ''c1'' ''package_review'' ''qa'' None (sample_db Ready []))) =
     tenant_view ''t2'' (sample_db Ready [])"
  by (rule workflow_tenant_frame[THEN conjunct1, of "''t2''" "''t1''"], simp, blast)

section \<open>Evaluations that are out of date\<close>

text \<open>
  An out-of-date evaluation blocks for good: evaluations are only ever added, and the gate looks at every
  one of them and not at the latest of each rule. Whatever evaluations are added for the same events and rules, the submission
  without force is refused.
\<close>

theorem stale_evaluation_blocks_for_good:
  assumes "find_case t cid db = Some c" "stale_rows t (scope_event_ids t c db) db \<noteq> []"
    and "set (wd_evaluations db) \<subseteq> set (wd_evaluations db')" "wd_events db' = wd_events db" "wd_rules db' = wd_rules db"
    and "find_case t cid db' = Some c'" "scope_event_ids t c' db' = scope_event_ids t c db" "\<not> sm_force a"
  shows "fst (submit_package env now sid t cid pid a db') = db' \<and> \<not> accepted (submit_package env now sid t cid pid a db')"
proof -
  from assms(2) obtain v e r where "(v, e, r) \<in> set (stale_rows t (scope_event_ids t c db) db)"
    by (metis hd_in_set prod_cases3)
  with assms have "(v, e, r) \<in> set (stale_rows t (scope_event_ids t c' db') db')"
    unfolding stale_rows_iff by auto
  then have "defects_of t cid c' db' \<noteq> []"
    by (auto simp: defects_of_def stale_evaluations_def Let_def)
  with assms have "\<not> accepted (submit_package env now sid t cid pid a db')"
    unfolding accepted_iff submit_iff by simp
  moreover from this have "fst (submit_package env now sid t cid pid a db') = db'"
    using submission.changed_only_on_success by (metis accepted_def sum.case(2))
  ultimately show ?thesis by simp
qed

theorem stale_evaluation_blocks_for_good_witness:
  "\<not> accepted (submit_package wf_sample_env 30 ''s1'' ''t1'' ''c1'' ''p1'' sample_args
      (sample_db Ready [sample_evaluation ''pass'' 9, (sample_evaluation ''pass'' 25)\<lparr>vl_evaluation_id := ''v2''\<rparr>]))"
proof (rule stale_evaluation_blocks_for_good[THEN conjunct2])
  show "find_case ''t1'' ''c1'' (sample_db Ready [sample_evaluation ''pass'' 9]) = Some (sample_case Ready)" by code_simp
  show "find_case ''t1'' ''c1'' (sample_db Ready [sample_evaluation ''pass'' 9, (sample_evaluation ''pass'' 25)\<lparr>vl_evaluation_id := ''v2''\<rparr>]) =
    Some (sample_case Ready)" by code_simp
  show "stale_rows ''t1'' (scope_event_ids ''t1'' (sample_case Ready) (sample_db Ready [sample_evaluation ''pass'' 9]))
    (sample_db Ready [sample_evaluation ''pass'' 9]) \<noteq> []" by code_simp
qed (simp_all add: sample_db_def sample_args_def scope_event_ids_def)

section \<open>Assembly, signoffs and amendments\<close>

text \<open>
  The manifest of a package never names an exception: the rows of the exceptions carry the column
  \<open>case_id\<close>, and the state of the exceptions is read under \<open>exception_id\<close>. The recorded state of the
  exceptions is empty, and the list of the waived ones holds one \<open>None\<close> for each.
\<close>

theorem manifest_omits_exceptions:
  assumes "list_all (\<lambda>x. ''exception_id'' \<notin> fst ` set (xc_rest x)) (wd_exceptions db)"
  shows "dict_get (package_manifest env now t cid g c n db) ''exception_state'' PNone = PDict [] \<and>
    dict_get (package_manifest env now t cid g c n db) ''waiver_state'' PNone =
      PList (map (\<lambda>_. PStr (py_str (wv_rt env) PNone))
        (filter (\<lambda>e. dict_get e ''status'' PNone = PStr ''waived'') (exception_rows env t cid (scope_event_ids t c db) db)))"
proof -
  let ?rows = "exception_rows env t cid (scope_event_ids t c db) db"
  have none: "dict_get e ''exception_id'' d = d" if "e \<in> set ?rows" for e d
  proof -
    from that obtain x where x: "x \<in> set (wd_exceptions db)" and e: "e = row_to_serializable (wv_rt env) (exception_columns x)"
      by (auto simp: exception_rows_def exceptions_of_def)
    have "fst ` set e = fst ` set (exception_columns x)"
      by (simp add: e row_to_serializable_def image_image split_def)
    moreover have "''exception_id'' \<notin> fst ` set (exception_columns x)"
      using x assms by (auto simp: exception_columns_def list_all_iff)
    ultimately show ?thesis by (simp add: dict_get_def map_of_eq_None_iff[THEN iffD2])
  qed
  have 1: "exception_state env ?rows = []"
    using none by (simp add: exception_state_def dict_of_def filter_False)
  have 2: "waiver_state env ?rows = map (\<lambda>_. PStr (py_str (wv_rt env) PNone)) (filter (\<lambda>e. dict_get e ''status'' PNone = PStr ''waived'') ?rows)"
    using none by (auto simp: waiver_state_def)
  show ?thesis
    unfolding package_manifest_def Let_def 1 2 by (simp add: dict_get_def)
qed

theorem manifest_omits_exceptions_witness:
  "dict_get (package_manifest wf_sample_env 30 ''t1'' ''c1'' None (sample_case Assembling) 1
     ((sample_db Assembling [])\<lparr>wd_exceptions := [\<lparr>xc_case_id = ''x1'', xc_tenant_id = ''t1'', xc_request_case_id = Some ''c1'',
       xc_linked_event_ids = [], xc_severity = ''critical'', xc_status = ''waived'', xc_source_supplier = None,
       xc_source_facility = None, xc_rule_category = None, xc_created_at = 3, xc_rest = []\<rparr>]\<rparr>)) ''exception_state'' PNone = PDict []"
  by (rule manifest_omits_exceptions[THEN conjunct1]) simp

text \<open>A signoff moves a case from any stage: the approval of the scope takes a submitted case back to triage.\<close>

lemma signoff_moves_any_stage:
  "wc_status (hd (wd_cases (fst (add_signoff wf_sample_env 30 ''x'' ''t1'' ''c1'' ''final_approval'' ''qa'' None (sample_db Intake []))))) = Ready"
  "wc_status (hd (wd_cases (fst (add_signoff wf_sample_env 30 ''x'' ''t1'' ''c1'' ''scope_approval'' ''qa'' None (sample_db Submitted []))))) =
     Exception_Triage"
  by code_simp+

lemma assemble_Inr:
  assumes "assemble_response_package env now pkg_id t cid g db = (db', Inr p)"
  obtains c where "find_case t cid db = Some c" "pk_tenant_id p = t" "pk_case_id p = cid" "pk_version p = next_version t cid db"
    "pk_contents p = sealed env (package_manifest env now t cid g c (pk_version p) db)"
    "pk_diff p = (if 1 < pk_version p then Some (compute_diff env t cid (pk_version p - 1) (pk_contents p) db) else None)"
    "wd_packages db' = wd_packages db @ [p]"
proof (cases "in_stage ''assemble'' ''Case must be in one of ('gap_analysis', 'exception_triage', 'assembling', 'internal_review').''
        [Gap_Analysis, Exception_Triage, Assembling, Internal_Review] t cid db")
  case (Inl e)
  with assms have False by (simp add: assemble_response_package_def)
  then show ?thesis ..
next
  case (Inr c)
  with assms have fresh: "pkg_id \<notin> pk_package_id ` set (wd_packages db)"
    by (auto simp: assemble_response_package_def Let_def split: if_splits)
  have stored: "find_case t cid db = Some c" using in_stageD[OF Inr] by simp
  from assms show ?thesis
    unfolding assemble_response_package_def Inr sum.case Let_def if_not_P[OF fresh] commit_Inr
    by (elim conjE, intro that[OF stored]) simp_all
qed

lemma numbered_mem: "numbered vs \<Longrightarrow> 1 \<le> n \<Longrightarrow> n \<le> int (length vs) \<Longrightarrow> n \<in> set vs"
proof -
  assume "numbered vs" and n: "1 \<le> n" "n \<le> int (length vs)"
  then have "n = int (nat n)" "nat n \<in> set [1..<Suc (length vs)]" by auto
  then have "n \<in> set (map int [1..<Suc (length vs)])" by (metis image_eqI list.set_map)
  with \<open>numbered vs\<close> show "n \<in> set vs" unfolding numbered_def by simp
qed

lemma compute_diff_found:
  assumes "v \<in> set (versions t cid db)"
  shows "\<exists>q \<in> set (wd_packages db). pk_tenant_id q = t \<and> pk_case_id q = cid \<and> pk_version q = v \<and>
     dict_get (compute_diff env t cid v contents db) ''prior_hash'' PNone = PStr (pk_hash q)"
proof -
  let ?P = "\<lambda>p. pk_case_id p = cid \<and> pk_tenant_id p = t \<and> pk_version p = v"
  from assms have "List.find ?P (wd_packages db) \<noteq> None" by (auto simp: versions_def find_None_iff)
  then obtain q where q: "List.find ?P (wd_packages db) = Some q" by blast
  then have "q \<in> set (wd_packages db)" "?P q" by (auto simp: find_Some_iff)
  moreover have "dict_get (compute_diff env t cid v contents db) ''prior_hash'' PNone = PStr (pk_hash q)"
    by (simp add: compute_diff_def q Let_def dict_get_def)
  ultimately show ?thesis by blast
qed

text \<open>
  In records that satisfy the invariant, an assembled package gets the next version of its case, and every
  version but the first carries a comparison with the stored version right before it, named by its hash:
  the prior version is always found.
\<close>

theorem assembled_version_follows:
  assumes "records_ok env db" "assemble_response_package env now pkg_id t cid g db = (db', Inr p)"
  shows "pk_version p = int (length (versions t cid db)) + 1 \<and> wd_packages db' = wd_packages db @ [p] \<and>
    (pk_version p = 1 \<and> pk_diff p = None \<or>
     (\<exists>q \<in> set (wd_packages db). \<exists>d. pk_tenant_id q = t \<and> pk_case_id q = cid \<and> pk_version q = pk_version p - 1 \<and>
        pk_diff p = Some d \<and> dict_get d ''prior_hash'' PNone = PStr (pk_hash q)))"
proof -
  from assms(1) have num: "numbered (versions t cid db)" by (simp add: records_ok_def)
  from assms(2) obtain c where v: "pk_version p = next_version t cid db"
    and d: "pk_diff p = (if 1 < pk_version p then Some (compute_diff env t cid (pk_version p - 1) (pk_contents p) db) else None)"
    and w: "wd_packages db' = wd_packages db @ [p]"
    by (rule assemble_Inr)
  have len: "pk_version p = int (length (versions t cid db)) + 1" using v next_version_numbered[OF num] by simp
  show ?thesis
  proof (cases "1 < pk_version p")
    case True
    have "pk_version p - 1 \<in> set (versions t cid db)" using True len by (intro numbered_mem[OF num]) linarith+
    from compute_diff_found[OF this, of env "pk_contents p"] show ?thesis using len w d True by auto
  qed (use len w d in simp)
qed

definition sample_records :: wf_db where
  "sample_records = (sample_db Assembling [])\<lparr>wd_signoffs := []\<rparr>"

lemma sample_records_ok: "records_ok wf_sample_env sample_records"
proof -
  have "numbered (versions t cid sample_records)" for t cid
    by (cases "t = ''t1'' \<and> cid = ''c1''")
      (auto simp: numbered_def versions_def sample_records_def sample_db_def sample_package_def)
  then show ?thesis
    by (simp add: records_ok_def sample_records_def sample_db_def package_ok_def sample_package_def hash_of_sealed dict_get_sealed)
qed

lemma sample_assembled: "accepted (assemble_response_package wf_sample_env 30 ''p2'' ''t1'' ''c1'' None sample_records)"
  by code_simp

theorem assembled_version_follows_witness:
  "\<exists>db' p. assemble_response_package wf_sample_env 30 ''p2'' ''t1'' ''c1'' None sample_records = (db', Inr p) \<and> pk_version p = 2"
proof -
  obtain db' p where "assemble_response_package wf_sample_env 30 ''p2'' ''t1'' ''c1'' None sample_records = (db', Inr p)"
    using sample_assembled unfolding accepted_iff by blast
  moreover from assembled_version_follows[OF sample_records_ok this]
  have "pk_version p = int (length (versions ''t1'' ''c1'' sample_records)) + 1" by simp
  moreover have "length (versions ''t1'' ''c1'' sample_records) = 1" by code_simp
  ultimately show ?thesis by simp
qed

section \<open>Deadlines\<close>

text \<open>
  The sweep over the deadlines reports open cases of the tenant only, the closest deadline first. An open case is
  left out only when the sweep is full and every case in it is due no later; up to the limit, nothing is left out.
\<close>

theorem deadline_sweep:
  assumes "c \<in> set (wd_cases db)" "is_active_case t c"
  shows "\<exists>cs. check_deadline_status env now t limit db = map (deadline_row_of env now) cs \<and> sorted (map wc_due_at cs) \<and>
    set cs \<subseteq> {x \<in> set (wd_cases db). is_active_case t x} \<and> length cs \<le> limit \<and>
    (c \<in> set cs \<or> length cs = limit \<and> (\<forall>x \<in> set cs. wc_due_at x \<le> wc_due_at c))"
proof -
  let ?all = "sort_key wc_due_at (filter (is_active_case t) (wd_cases db))"
  have srt: "sorted (map wc_due_at (take limit ?all @ drop limit ?all))" by simp
  have "c \<in> set (take limit ?all @ drop limit ?all)" using assms by simp
  then have c: "c \<in> set (take limit ?all) \<or> c \<in> set (drop limit ?all)" by (simp only: set_append Un_iff)
  have "length (take limit ?all) = limit \<and> (\<forall>x \<in> set (take limit ?all). wc_due_at x \<le> wc_due_at c)" if "c \<in> set (drop limit ?all)"
  proof -
    have "limit < length ?all" using that by (metis drop_all empty_iff empty_set not_less)
    then show ?thesis using srt that unfolding map_append sorted_append by (simp add: image_iff)
  qed
  moreover have "set (take limit ?all) \<subseteq> {x \<in> set (wd_cases db). is_active_case t x}" by (auto dest!: in_set_takeD)
  ultimately show ?thesis
    using srt c unfolding check_deadline_status_def map_append sorted_append by (intro exI[of _ "take limit ?all"]) auto
qed

theorem deadline_sweep_witness:
  "\<exists>cs. check_deadline_status wf_sample_env 30 ''t1'' 500 (sample_db Ready []) = map (deadline_row_of wf_sample_env 30) cs \<and>
     sample_case Ready \<in> set cs"
proof -
  have "sample_case Ready \<in> set (wd_cases (sample_db Ready []))" by (simp add: sample_db_def)
  moreover have "is_active_case ''t1'' (sample_case Ready)" by code_simp
  ultimately obtain cs where "check_deadline_status wf_sample_env 30 ''t1'' 500 (sample_db Ready []) = map (deadline_row_of wf_sample_env 30) cs"
    "set cs \<subseteq> {x \<in> set (wd_cases (sample_db Ready [])). is_active_case ''t1'' x}" "sample_case Ready \<in> set cs \<or> length cs = 500"
    using deadline_sweep[of "sample_case Ready" "sample_db Ready []" "''t1''" wf_sample_env 30 500] by blast
  moreover have "length cs \<noteq> 500" if "check_deadline_status wf_sample_env 30 ''t1'' 500 (sample_db Ready []) = map (deadline_row_of wf_sample_env 30) cs"
  proof -
    have "length cs = length (check_deadline_status wf_sample_env 30 ''t1'' 500 (sample_db Ready []))" by (simp add: that)
    also have "\<dots> = 1" by (simp add: check_deadline_status_def sample_db_def is_active_case_def sample_case_def new_case_def)
    finally show ?thesis by simp
  qed
  ultimately show ?thesis by blast
qed

text \<open>Past the limit the sweep does drop overdue cases: here two are overdue, and a sweep of one reports one.\<close>

lemma sweep_drops_overdue:
  "map dl_urgency (check_deadline_status wf_sample_env (hours 25) ''t1'' 1
     ((sample_db Ready [])\<lparr>wd_cases := [sample_case Ready, (sample_case Ready)\<lparr>wc_case_id := ''c2''\<rparr>]\<rparr>)) = [''overdue'']"
  "length (filter (\<lambda>c. wc_due_at c < hours 25) [sample_case Ready, (sample_case Ready)\<lparr>wc_case_id := ''c2''\<rparr>]) = 2"
  by (simp_all add: check_deadline_status_def is_active_case_def sample_case_def new_case_def deadline_row_of_def urgency_of_def hours_def)

end
