(* ===== verification/ExceptionQueue.thy ===== *)
theory ExceptionQueue
  imports DbSession WorkflowSafety
begin

text \<open>
  \<^verbatim>\<open>services/shared/exception_queue.py\<close>: the cases that failed evaluations open, their owners, comments,
  resolutions and waivers; and \<^verbatim>\<open>services/ingestion/app/remediation/state.py\<close>, the other writer of that table, which moves
  the remediation cases of suppliers and mirrors their state. The state is the tables and the number of identifiers drawn so far; the
  caller commits, so an operation that raises leaves what its statements did up to then.
  The constraints of the tables (\<^verbatim>\<open>V045__exception_remediation_queue.sql\<close>) refuse rows. The clock is read once per operation.
\<close>

section \<open>Data\<close>

record ExceptionCase =
  ec_case_id :: string
  ec_tenant_id :: string
  ec_severity :: string
  ec_status :: string
  ec_linked_event_ids :: "string list"
  ec_linked_rule_evaluation_ids :: "string list"
  ec_owner_user_id :: "string option"
  ec_due_date :: "int option"
  ec_source_supplier :: "string option"
  ec_source_facility_reference :: "string option"
  ec_rule_category :: "string option"
  ec_recommended_remediation :: "string option"
  ec_resolution_summary :: "string option"
  ec_waiver_reason :: "string option"
  ec_waiver_approved_by :: "string option"
  ec_waiver_approved_at :: "int option"
  ec_request_case_id :: "string option"
  ec_created_at :: int
  ec_updated_at :: int
  ec_resolved_at :: "int option"

record ExceptionComment =
  ct_id :: string
  ct_tenant_id :: string
  ct_case_id :: string
  ct_author_user_id :: string
  ct_comment_text :: string
  ct_comment_type :: string
  ct_created_at :: int

record ExceptionSignoff =
  xs_id :: string
  xs_tenant_id :: string
  xs_case_id :: string
  xs_signoff_type :: string
  xs_signed_by :: string
  xs_signed_at :: int
  xs_reason :: "string option"

record remediation_case =
  rm_id :: string
  rm_tenant_id :: string
  rm_exception_case_id :: "string option"
  rm_status :: string

record queue =
  xq_cases :: "ExceptionCase list"
  xq_comments :: "ExceptionComment list"
  xq_signoffs :: "ExceptionSignoff list"
  xq_remediations :: "remediation_case list"
  xq_uuids :: nat

type_synonym 'a xq_result = "queue \<times> (py_error + 'a)"

definition severity_due_days :: "(string \<times> int) list" where
  "severity_due_days = [(''critical'', 3), (''warning'', 14), (''info'', 30)]"

definition case_severities :: "string list" where
  "case_severities = [''critical'', ''warning'', ''info'']"

definition comment_types :: "string list" where
  "comment_types = [''note'', ''status_change'', ''assignment'', ''supplier_response'', ''system'']"

definition days :: "int \<Rightarrow> int" where
  "days n = n * 86400000000"

section \<open>Tenant context (tenant\_context.py)\<close>

text \<open>The validated tenant, as the server stores it; \<open>repr\<close> is the runtime's.\<close>

definition set_tenant_context :: "pyrt \<Rightarrow> string \<Rightarrow> py_error + string" where
  "set_tenant_context rt t =
     (if t = [] then Inl (ValueError (''tenant_id must be a non-empty UUID string; got str='' @ in_quotes []))
      else case rt_pg_uuid rt t of
             None \<Rightarrow> Inl (ValueError (''tenant_id is not a valid UUID: '' @ in_quotes t))
           | Some u \<Rightarrow> Inr u)"

text \<open>\<open>CAST(xs AS uuid[])\<close>\<close>

definition uuid_array :: "pyrt \<Rightarrow> pyval list \<Rightarrow> py_error + string list" where
  "uuid_array rt vs =
     (if list_all (\<lambda>v. uuid_param rt v \<noteq> None) vs then Inr (map (\<lambda>v. the (uuid_param rt v)) vs)
      else Inl (DBAPIError ''DataError''))"

section \<open>Helpers\<close>

definition draw :: "pyrt \<Rightarrow> queue \<Rightarrow> string \<times> queue" where
  "draw rt q = (rt_uuid4 rt (xq_uuids q), q\<lparr>xq_uuids := Suc (xq_uuids q)\<rparr>)"

definition add_comment_row :: "pyrt \<Rightarrow> int \<Rightarrow> string \<Rightarrow> string \<Rightarrow> string \<Rightarrow> string \<Rightarrow> string \<Rightarrow> queue \<Rightarrow> ExceptionComment xq_result" where
  "add_comment_row rt now u cid author msg ty q =
     (let (i, q1) = draw rt q;
          c = \<lparr>ct_id = i, ct_tenant_id = u, ct_case_id = cid, ct_author_user_id = author, ct_comment_text = msg,
               ct_comment_type = ty, ct_created_at = now\<rparr>
      in if ty \<notin> set comment_types \<or> i \<in> ct_id ` set (xq_comments q1) \<or> cid \<notin> ec_case_id ` set (xq_cases q1)
         then (q1, Inl (DBAPIError ''IntegrityError''))
         else (q1\<lparr>xq_comments := xq_comments q1 @ [c]\<rparr>, Inr c))"

definition add_signoff_row :: "pyrt \<Rightarrow> int \<Rightarrow> string \<Rightarrow> string \<Rightarrow> string \<Rightarrow> string \<Rightarrow> string option \<Rightarrow> queue \<Rightarrow> ExceptionSignoff xq_result" where
  "add_signoff_row rt now u cid ty who reason q =
     (let (i, q1) = draw rt q;
          s = \<lparr>xs_id = i, xs_tenant_id = u, xs_case_id = cid, xs_signoff_type = ty, xs_signed_by = who, xs_signed_at = now, xs_reason = reason\<rparr>
      in if i \<in> xs_id ` set (xq_signoffs q1) \<or> cid \<notin> ec_case_id ` set (xq_cases q1) then (q1, Inl (DBAPIError ''IntegrityError''))
         else (q1\<lparr>xq_signoffs := xq_signoffs q1 @ [s]\<rparr>, Inr s))"

definition severity_rank :: "string \<Rightarrow> nat" where
  "severity_rank s = (if s = ''critical'' then 0 else if s = ''warning'' then 1 else if s = ''info'' then 2 else 99)"

text \<open>\<open>min(severities, key=..)\<close>: the first with the least rank; no call passes an empty list.\<close>

definition highest_severity :: "string list \<Rightarrow> string" where
  "highest_severity ss = foldl (\<lambda>best s. if severity_rank s < severity_rank best then s else best) (hd ss) (tl ss)"

section \<open>Reading\<close>

definition is_case :: "string \<Rightarrow> string \<Rightarrow> ExceptionCase \<Rightarrow> bool" where
  "is_case u cid c \<longleftrightarrow> ec_case_id c = cid \<and> ec_tenant_id c = u"

definition get_exception :: "pyrt \<Rightarrow> string \<Rightarrow> string \<Rightarrow> queue \<Rightarrow> py_error + ExceptionCase option" where
  "get_exception rt t cid q =
     and_then (set_tenant_context rt t) (\<lambda>u. and_then (uuid_arg rt cid) (\<lambda>k. Inr (List.find (is_case u k) (xq_cases q))))"

text \<open>\<open>LIKE\<close>: a percent sign is any text, an underscore any character, a backslash takes the next one literally.\<close>

fun like :: "string \<Rightarrow> string \<Rightarrow> bool" where
  "like [] s = (s = [])"
| "like (p # ps) s =
     (if p = CHR ''%'' then like ps s \<or> (case s of [] \<Rightarrow> False | _ # s' \<Rightarrow> like (p # ps) s')
      else if p = CHR ''_'' then (case s of [] \<Rightarrow> False | _ # s' \<Rightarrow> like ps s')
      else if p = CHR 0x5C then (case ps of [] \<Rightarrow> False | q # qs \<Rightarrow> (case s of [] \<Rightarrow> False | c # s' \<Rightarrow> c = q \<and> like qs s'))
      else (case s of [] \<Rightarrow> False | c # s' \<Rightarrow> c = p \<and> like ps s'))"

definition ilike :: "string \<Rightarrow> string option \<Rightarrow> bool" where
  "ilike pat s = (case s of None \<Rightarrow> False | Some x \<Rightarrow> like (py_lower pat) (py_lower x))"

definition containing :: "string \<Rightarrow> string" where
  "containing s = ''%'' @ s @ ''%''"

record exception_filter =
  ef_severity :: "string option"
  ef_status :: "string option"
  ef_source_supplier :: "string option"
  ef_due_before :: "int option"
  ef_facility :: "string option"
  ef_category :: "string option"

definition passes :: "'a option \<Rightarrow> ('a \<Rightarrow> bool) \<Rightarrow> bool" where
  "passes f P = (case f of None \<Rightarrow> True | Some x \<Rightarrow> P x)"

definition passes_filter :: "exception_filter \<Rightarrow> ExceptionCase \<Rightarrow> bool" where
  "passes_filter f c \<longleftrightarrow>
     passes (ef_severity f) (\<lambda>s. ec_severity c = s) \<and> passes (ef_status f) (\<lambda>s. ec_status c = s) \<and>
     passes (ef_source_supplier f) (\<lambda>s. ilike (containing s) (ec_source_supplier c)) \<and>
     passes (ef_due_before f) (\<lambda>d. case ec_due_date c of None \<Rightarrow> False | Some x \<Rightarrow> x \<le> d) \<and>
     passes (ef_facility f) (\<lambda>s. ilike (containing s) (ec_source_facility_reference c)) \<and>
     passes (ef_category f) (\<lambda>s. ec_rule_category c = Some s)"

definition list_rank :: "string \<Rightarrow> nat" where
  "list_rank s = (if s = ''critical'' then 1 else if s = ''warning'' then 2 else if s = ''info'' then 3 else 4)"

definition list_order :: "ExceptionCase \<Rightarrow> nat \<times> (nat \<times> int) \<times> int" where
  "list_order c =
     (list_rank (ec_severity c), (case ec_due_date c of Some d \<Rightarrow> (0, d) | None \<Rightarrow> (1, 0)), - ec_created_at c)"

definition list_exceptions :: "pyrt \<Rightarrow> string \<Rightarrow> exception_filter \<Rightarrow> nat \<Rightarrow> nat \<Rightarrow> queue \<Rightarrow> py_error + ExceptionCase list" where
  "list_exceptions rt t f limit offset q =
     and_then (set_tenant_context rt t) (\<lambda>u.
       Inr (take limit (drop offset (sort_key list_order (filter (\<lambda>c. ec_tenant_id c = u \<and> passes_filter f c) (xq_cases q))))))"

definition case_closed :: "ExceptionCase \<Rightarrow> bool" where
  "case_closed c \<longleftrightarrow> ec_status c = ''resolved'' \<or> ec_status c = ''waived''"

definition get_unresolved_blocking_count :: "pyrt \<Rightarrow> string \<Rightarrow> queue \<Rightarrow> py_error + nat" where
  "get_unresolved_blocking_count rt t q =
     and_then (set_tenant_context rt t) (\<lambda>u.
       Inr (length (filter (\<lambda>c. ec_tenant_id c = u \<and> ec_severity c = ''critical'' \<and> \<not> case_closed c) (xq_cases q))))"

section \<open>Writing\<close>

record new_exception =
  nx_severity :: string
  nx_rule_category :: string
  nx_remediation :: "string option"
  nx_event_ids :: "pyval list"
  nx_evaluation_ids :: "pyval list"
  nx_supplier :: "string option"
  nx_facility :: "string option"
  nx_due_date :: "int option"
  nx_request_case_id :: "string option"

definition due_date_of :: "int \<Rightarrow> new_exception \<Rightarrow> int" where
  "due_date_of now a =
     (case nx_due_date a of Some d \<Rightarrow> d
      | None \<Rightarrow> now + days (default_to (map_of severity_due_days (nx_severity a)) 14))"

definition open_case :: "int \<Rightarrow> string \<Rightarrow> string \<Rightarrow> string list \<Rightarrow> string list \<Rightarrow> new_exception \<Rightarrow> ExceptionCase" where
  "open_case now u cid evs vals a =
     \<lparr>ec_case_id = cid, ec_tenant_id = u, ec_severity = nx_severity a, ec_status = ''open'', ec_linked_event_ids = evs,
      ec_linked_rule_evaluation_ids = vals, ec_owner_user_id = None, ec_due_date = Some (due_date_of now a),
      ec_source_supplier = nx_supplier a, ec_source_facility_reference = nx_facility a, ec_rule_category = Some (nx_rule_category a),
      ec_recommended_remediation = nx_remediation a, ec_resolution_summary = None, ec_waiver_reason = None,
      ec_waiver_approved_by = None, ec_waiver_approved_at = None, ec_request_case_id = nx_request_case_id a,
      ec_created_at = now, ec_updated_at = now, ec_resolved_at = None\<rparr>"

definition insert_case :: "pyrt \<Rightarrow> int \<Rightarrow> string \<Rightarrow> string \<Rightarrow> new_exception \<Rightarrow> queue \<Rightarrow> unit xq_result" where
  "insert_case rt now u cid a q =
     (case uuid_array rt (nx_event_ids a) of Inl e \<Rightarrow> (q, Inl e)
      | Inr evs \<Rightarrow>
     (case uuid_array rt (nx_evaluation_ids a) of Inl e \<Rightarrow> (q, Inl e)
      | Inr vals \<Rightarrow>
     (case (case nx_request_case_id a of None \<Rightarrow> Inr None | Some i \<Rightarrow> and_then (uuid_arg rt i) (\<lambda>k. Inr (Some k))) of Inl e \<Rightarrow> (q, Inl e)
      | Inr req \<Rightarrow>
          if nx_severity a \<notin> set case_severities \<or> cid \<in> ec_case_id ` set (xq_cases q) then (q, Inl (DBAPIError ''IntegrityError''))
          else (q\<lparr>xq_cases := xq_cases q @ [open_case now u cid evs vals (a\<lparr>nx_request_case_id := req\<rparr>)]\<rparr>, Inr ()))))"

definition create_exception :: "pyrt \<Rightarrow> int \<Rightarrow> string \<Rightarrow> new_exception \<Rightarrow> queue \<Rightarrow> ExceptionCase option xq_result" where
  "create_exception rt now t a q =
     (case set_tenant_context rt t of Inl e \<Rightarrow> (q, Inl e)
      | Inr u \<Rightarrow>
          let (cid, q1) = draw rt q
          in case insert_case rt now u cid a q1 of
               (q2, Inl e) \<Rightarrow> (q2, Inl e)
             | (q2, Inr _) \<Rightarrow>
                 (case add_comment_row rt now u cid ''system''
                    (''Exception case created. Severity: '' @ nx_severity a @ '', Category: '' @ nx_rule_category a @ ''.'') ''system'' q2 of
                    (q3, Inl e) \<Rightarrow> (q3, Inl e)
                  | (q3, Inr _) \<Rightarrow> (q3, Inr (List.find (is_case u cid) (xq_cases q3)))))"

text \<open>
  The statement that the three updates share: the rows of the case that satisfy a condition change; when there is none
  the operation answers nothing, otherwise what follows runs, and the case is read again.
\<close>

definition update_rows :: "string \<Rightarrow> string \<Rightarrow> (ExceptionCase \<Rightarrow> bool) \<Rightarrow> (ExceptionCase \<Rightarrow> ExceptionCase) \<Rightarrow> queue \<Rightarrow> queue" where
  "update_rows u cid P f q = q\<lparr>xq_cases := map (\<lambda>c. if is_case u cid c \<and> P c then f c else c) (xq_cases q)\<rparr>"

definition has_row :: "string \<Rightarrow> string \<Rightarrow> (ExceptionCase \<Rightarrow> bool) \<Rightarrow> queue \<Rightarrow> bool" where
  "has_row u cid P q \<longleftrightarrow> list_ex (\<lambda>c. is_case u cid c \<and> P c) (xq_cases q)"

definition updating ::
  "pyrt \<Rightarrow> string \<Rightarrow> string \<Rightarrow> (ExceptionCase \<Rightarrow> bool) \<Rightarrow> (ExceptionCase \<Rightarrow> ExceptionCase) \<Rightarrow>
   (string \<Rightarrow> string \<Rightarrow> queue \<Rightarrow> unit xq_result) \<Rightarrow> queue \<Rightarrow> ExceptionCase option xq_result" where
  "updating rt t cid P f after q =
     (case and_then (set_tenant_context rt t) (\<lambda>u. and_then (uuid_arg rt cid) (\<lambda>k. Inr (u, k))) of
        Inl e \<Rightarrow> (q, Inl e)
      | Inr (u, k) \<Rightarrow>
          if \<not> has_row u k P q then (q, Inr None)
          else case after u k (update_rows u k P f q) of
                 (q1, Inl e) \<Rightarrow> (q1, Inl e)
               | (q1, Inr _) \<Rightarrow> (q1, Inr (List.find (is_case u k) (xq_cases q1))))"

definition forget :: "'a xq_result \<Rightarrow> unit xq_result" where
  "forget r = (fst r, case snd r of Inl e \<Rightarrow> Inl e | Inr _ \<Rightarrow> Inr ())"

definition then_do :: "unit xq_result \<Rightarrow> (queue \<Rightarrow> unit xq_result) \<Rightarrow> unit xq_result" where
  "then_do r f = (case r of (q, Inl e) \<Rightarrow> (q, Inl e) | (q, Inr _) \<Rightarrow> f q)"

definition assigned :: "int \<Rightarrow> string \<Rightarrow> ExceptionCase \<Rightarrow> ExceptionCase" where
  "assigned now owner c =
     c\<lparr>ec_owner_user_id := Some owner, ec_status := (if ec_status c = ''open'' then ''in_review'' else ec_status c), ec_updated_at := now\<rparr>"

definition assign_owner :: "pyrt \<Rightarrow> int \<Rightarrow> string \<Rightarrow> string \<Rightarrow> string \<Rightarrow> string \<Rightarrow> queue \<Rightarrow> ExceptionCase option xq_result" where
  "assign_owner rt now t cid owner assigned_by q =
     updating rt t cid (\<lambda>_. True) (assigned now owner)
       (\<lambda>u k q. forget (add_comment_row rt now u k assigned_by (''Case assigned to '' @ owner @ ''.'') ''assignment'' q)) q"

definition resolved :: "int \<Rightarrow> string \<Rightarrow> ExceptionCase \<Rightarrow> ExceptionCase" where
  "resolved now summary c =
     c\<lparr>ec_status := ''resolved'', ec_resolution_summary := Some summary, ec_resolved_at := Some now, ec_updated_at := now\<rparr>"

definition resolve_exception :: "pyrt \<Rightarrow> int \<Rightarrow> string \<Rightarrow> string \<Rightarrow> string \<Rightarrow> string \<Rightarrow> queue \<Rightarrow> ExceptionCase option xq_result" where
  "resolve_exception rt now t cid summary resolved_by q =
     updating rt t cid (\<lambda>c. \<not> case_closed c) (resolved now summary)
       (\<lambda>u k q. then_do (forget (add_signoff_row rt now u k ''approve'' resolved_by (Some summary) q))
          (\<lambda>q. forget (add_comment_row rt now u k resolved_by (''Case resolved: '' @ summary) ''status_change'' q))) q"

definition waived :: "int \<Rightarrow> string \<Rightarrow> string \<Rightarrow> ExceptionCase \<Rightarrow> ExceptionCase" where
  "waived now reason who c =
     c\<lparr>ec_status := ''waived'', ec_waiver_reason := Some reason, ec_waiver_approved_by := Some who, ec_waiver_approved_at := Some now,
       ec_resolved_at := Some now, ec_updated_at := now\<rparr>"

definition waive_exception :: "pyrt \<Rightarrow> int \<Rightarrow> string \<Rightarrow> string \<Rightarrow> string \<Rightarrow> string \<Rightarrow> queue \<Rightarrow> ExceptionCase option xq_result" where
  "waive_exception rt now t cid reason approved_by q =
     updating rt t cid (\<lambda>c. \<not> case_closed c) (waived now reason approved_by)
       (\<lambda>u k q. then_do (forget (add_signoff_row rt now u k ''waive'' approved_by (Some reason) q))
          (\<lambda>q. forget (add_comment_row rt now u k approved_by (''Case waived: '' @ reason) ''status_change'' q))) q"

definition add_comment :: "pyrt \<Rightarrow> int \<Rightarrow> string \<Rightarrow> string \<Rightarrow> string \<Rightarrow> string \<Rightarrow> string \<Rightarrow> queue \<Rightarrow> ExceptionComment xq_result" where
  "add_comment rt now t cid author msg ty q =
     (case and_then (set_tenant_context rt t) (\<lambda>u. and_then (uuid_arg rt cid) (\<lambda>k. Inr (u, k))) of
        Inl e \<Rightarrow> (q, Inl e)
      | Inr (u, k) \<Rightarrow>
          (case List.find (is_case u k) (xq_cases q) of
             None \<Rightarrow> (q, Inl (ValueError (''Exception case '' @ cid @ '' not found for tenant '' @ t)))
           | Some _ \<Rightarrow> add_comment_row rt now u k author msg ty q))"

definition list_comments :: "pyrt \<Rightarrow> string \<Rightarrow> string \<Rightarrow> queue \<Rightarrow> py_error + ExceptionComment list" where
  "list_comments rt t cid q =
     and_then (set_tenant_context rt t) (\<lambda>u. and_then (uuid_arg rt cid) (\<lambda>k.
       Inr (sort_key ct_created_at (filter (\<lambda>c. ct_case_id c = k \<and> ct_tenant_id c = u) (xq_comments q)))))"

section \<open>Cases from an evaluation\<close>

definition remediation_part :: "RuleEvaluationResult \<Rightarrow> string option" where
  "remediation_part r =
     (if str_or (rr_remediation_suggestion r) [] \<noteq> [] then Some (''['' @ rr_rule_title r @ ''] '' @ the (rr_remediation_suggestion r))
      else if str_or (rr_why_failed r) [] \<noteq> [] then Some (''['' @ rr_rule_title r @ ''] '' @ the (rr_why_failed r))
      else None)"

definition exception_of_group ::
  "EvaluationSummary \<Rightarrow> string option \<Rightarrow> string option \<Rightarrow> string \<times> RuleEvaluationResult list \<Rightarrow> new_exception" where
  "exception_of_group summary supplier facility g =
     (case g of (category, fs) \<Rightarrow>
        let parts = map the (filter (\<lambda>x. x \<noteq> None) (map remediation_part fs))
        in \<lparr>nx_severity = highest_severity (map rr_severity fs), nx_rule_category = category,
            nx_remediation = (if parts = [] then None else Some (py_join [CHR 0x0A] parts)),
            nx_event_ids = (if truthy (es_event_id summary) then [es_event_id summary] else []),
            nx_evaluation_ids = map (\<lambda>f. PStr (rr_evaluation_id f)) fs, nx_supplier = supplier, nx_facility = facility,
            nx_due_date = None, nx_request_case_id = None\<rparr>)"

fun create_each :: "pyrt \<Rightarrow> int \<Rightarrow> string \<Rightarrow> new_exception list \<Rightarrow> queue \<Rightarrow> ExceptionCase option list xq_result" where
  "create_each rt now t [] q = (q, Inr [])"
| "create_each rt now t (a # as) q =
     (case create_exception rt now t a q of
        (q1, Inl e) \<Rightarrow> (q1, Inl e)
      | (q1, Inr c) \<Rightarrow>
          (case create_each rt now t as q1 of (q2, Inl e) \<Rightarrow> (q2, Inl e) | (q2, Inr cs) \<Rightarrow> (q2, Inr (c # cs))))"

definition failures_of :: "EvaluationSummary \<Rightarrow> RuleEvaluationResult list" where
  "failures_of summary = filter (\<lambda>r. rr_result r = ''fail'') (es_results summary)"

definition create_exceptions_from_evaluation ::
  "pyrt \<Rightarrow> int \<Rightarrow> string \<Rightarrow> EvaluationSummary \<Rightarrow> string option \<Rightarrow> string option \<Rightarrow> queue \<Rightarrow> ExceptionCase option list xq_result" where
  "create_exceptions_from_evaluation rt now t summary supplier facility q =
     create_each rt now t (map (exception_of_group summary supplier facility) (group_rows rr_category (failures_of summary))) q"

section \<open>Remediation cases (state.py)\<close>

definition allowed_transitions :: "(string \<times> string list) list" where
  "allowed_transitions =
     [(''detected'', [''auto_resolution_attempted'', ''supplier_action_required'']),
      (''auto_resolution_attempted'', [''supplier_action_required'', ''released'']),
      (''supplier_action_required'', [''notification_ready'', ''escalated'']),
      (''notification_ready'', [''awaiting_supplier'']),
      (''awaiting_supplier'', [''correction_submitted'', ''escalated'', ''notification_ready'']),
      (''correction_submitted'', [''revalidating'']),
      (''revalidating'', [''released'', ''buyer_review'']),
      (''buyer_review'', [''notification_ready'', ''released'', ''escalated'']),
      (''released'', []),
      (''escalated'', [''notification_ready''])]"

definition exception_mirror :: "(string \<times> string) list" where
  "exception_mirror =
     [(''notification_ready'', ''awaiting_supplier''), (''awaiting_supplier'', ''awaiting_supplier''),
      (''correction_submitted'', ''awaiting_supplier''), (''revalidating'', ''awaiting_supplier''),
      (''buyer_review'', ''in_review''), (''escalated'', ''in_review'')]"

definition is_remediation :: "string \<Rightarrow> string \<Rightarrow> remediation_case \<Rightarrow> bool" where
  "is_remediation u k m \<longleftrightarrow> rm_id m = k \<and> rm_tenant_id m = u"

definition mirror_update :: "int \<Rightarrow> string \<Rightarrow> string \<Rightarrow> string \<Rightarrow> queue \<Rightarrow> queue" where
  "mirror_update now mirrored u k q =
     (case List.find (is_remediation u k) (xq_remediations q) of
        None \<Rightarrow> q
      | Some m \<Rightarrow> (case rm_exception_case_id m of
          None \<Rightarrow> q
        | Some cid \<Rightarrow> update_rows u cid (\<lambda>c. \<not> case_closed c) (\<lambda>c. c\<lparr>ec_status := mirrored, ec_updated_at := now\<rparr>) q))"

text \<open>The mirror is best-effort, in a savepoint of its own: \<open>ok\<close> tells whether the server accepts it.\<close>

definition mirror_exception :: "bool \<Rightarrow> int \<Rightarrow> string \<Rightarrow> string \<Rightarrow> string \<Rightarrow> queue \<Rightarrow> queue" where
  "mirror_exception ok now to_status u k q =
     (case map_of exception_mirror to_status of None \<Rightarrow> q | Some mirrored \<Rightarrow> if ok then mirror_update now mirrored u k q else q)"

text \<open>The audit entry that is written in between has its own tables.\<close>

definition transition :: "pyrt \<Rightarrow> bool \<Rightarrow> int \<Rightarrow> string \<Rightarrow> string \<Rightarrow> string \<Rightarrow> string \<Rightarrow> queue \<Rightarrow> unit xq_result" where
  "transition rt ok now t cid to_status expected_from q =
     (if to_status \<notin> set (default_to (map_of allowed_transitions expected_from) [])
      then (q, Inl (HTTPException 409 (''E_ILLEGAL_TRANSITION: '' @ expected_from @ '' -> '' @ to_status)))
      else case and_then (uuid_arg rt cid) (\<lambda>k. and_then (uuid_arg rt t) (\<lambda>u. Inr (u, k))) of
             Inl e \<Rightarrow> (q, Inl e)
           | Inr (u, k) \<Rightarrow>
               let due = (\<lambda>m. is_remediation u k m \<and> rm_status m = expected_from)
               in if \<not> list_ex due (xq_remediations q)
                  then (q, Inl (HTTPException 409 (''E_STALE_TRANSITION: case not in '' @ in_quotes expected_from)))
                  else (mirror_exception ok now to_status u k
                         (q\<lparr>xq_remediations := map (\<lambda>m. if due m then m\<lparr>rm_status := to_status\<rparr> else m) (xq_remediations q)\<rparr>), Inr ()))"

section \<open>The life of a case\<close>

text \<open>A case with the signoffs that name it.\<close>

definition case_ok :: "ExceptionSignoff list \<Rightarrow> ExceptionCase \<Rightarrow> bool" where
  "case_ok ss c \<longleftrightarrow>
     ec_severity c \<in> set case_severities \<and>
     (if ec_status c = ''resolved'' then
        ec_resolved_at c \<noteq> None \<and> ec_resolution_summary c \<noteq> None \<and> ec_waiver_reason c = None \<and>
        map (\<lambda>s. (xs_tenant_id s, xs_signoff_type s, xs_reason s)) ss = [(ec_tenant_id c, ''approve'', ec_resolution_summary c)]
      else if ec_status c = ''waived'' then
        ec_resolved_at c \<noteq> None \<and> ec_waiver_reason c \<noteq> None \<and> ec_resolution_summary c = None \<and>
        map (\<lambda>s. (xs_tenant_id s, xs_signoff_type s, xs_reason s, Some (xs_signed_by s))) ss =
          [(ec_tenant_id c, ''waive'', ec_waiver_reason c, ec_waiver_approved_by c)]
      else ss = [] \<and> ec_resolved_at c = None \<and> ec_resolution_summary c = None \<and> ec_waiver_reason c = None \<and>
        ec_status c \<in> set [''open'', ''in_review'', ''awaiting_supplier''])"

definition signoffs_of :: "string \<Rightarrow> queue \<Rightarrow> ExceptionSignoff list" where
  "signoffs_of k q = filter (\<lambda>s. xs_case_id s = k) (xq_signoffs q)"

definition exceptions_ok :: "queue \<Rightarrow> bool" where
  "exceptions_ok q \<longleftrightarrow>
     distinct (map ec_case_id (xq_cases q)) \<and> (\<forall>c \<in> set (xq_cases q). case_ok (signoffs_of (ec_case_id c) q) c) \<and>
     xs_case_id ` set (xq_signoffs q) \<subseteq> ec_case_id ` set (xq_cases q) \<and>
     ct_case_id ` set (xq_comments q) \<subseteq> ec_case_id ` set (xq_cases q)"

text \<open>What another tenant has in the queue, and the cases that are closed, with what a later owner leaves alone.\<close>

definition queue_view :: "string \<Rightarrow> queue \<Rightarrow> ExceptionCase list \<times> ExceptionComment list \<times> ExceptionSignoff list \<times> remediation_case list" where
  "queue_view u q =
     (filter (\<lambda>c. ec_tenant_id c = u) (xq_cases q), filter (\<lambda>c. ct_tenant_id c = u) (xq_comments q),
      filter (\<lambda>s. xs_tenant_id s = u) (xq_signoffs q), filter (\<lambda>m. rm_tenant_id m = u) (xq_remediations q))"

definition outcome :: "ExceptionCase \<Rightarrow> string \<times> string \<times> string \<times> string option \<times> string option \<times> string option \<times> int option" where
  "outcome c = (ec_case_id c, ec_tenant_id c, ec_status c, ec_resolution_summary c, ec_waiver_reason c, ec_waiver_approved_by c,
     ec_resolved_at c)"

definition outcomes :: "queue \<Rightarrow> (string \<times> string \<times> string \<times> string option \<times> string option \<times> string option \<times> int option) set" where
  "outcomes q = outcome ` {c \<in> set (xq_cases q). case_closed c}"

locale queue_operation =
  fixes tenant :: string and run :: "queue \<Rightarrow> 'a xq_result"
  assumes keeps: "run q = (q', Inr a) \<Longrightarrow> exceptions_ok q \<Longrightarrow> exceptions_ok q'"
    and foreign: "u \<noteq> tenant \<Longrightarrow> queue_view u (fst (run q)) = queue_view u q"
    and final: "outcomes q \<subseteq> outcomes (fst (run q))"

text \<open>The three laws, as a relation between the states before and after.\<close>

definition leads :: "string \<Rightarrow> queue \<Rightarrow> queue \<Rightarrow> bool" where
  "leads t q q' \<longleftrightarrow> (\<forall>u. u \<noteq> t \<longrightarrow> queue_view u q' = queue_view u q) \<and> outcomes q \<subseteq> outcomes q'"

lemma leads_refl [simp]: "leads t q q" by (simp add: leads_def)

lemma leads_trans: "leads t a b \<Longrightarrow> leads t b c \<Longrightarrow> leads t a c" by (auto simp: leads_def)

lemma draw_eq: "draw rt q = (rt_uuid4 rt (xq_uuids q), q\<lparr>xq_uuids := Suc (xq_uuids q)\<rparr>)"
  by (simp add: draw_def)

lemma uuids_ok [simp]: "exceptions_ok (q\<lparr>xq_uuids := n\<rparr>) = exceptions_ok q"
  by (simp add: exceptions_ok_def signoffs_of_def)

lemma uuids_leads [simp]: "leads t q (q\<lparr>xq_uuids := n\<rparr>)"
  by (simp add: leads_def queue_view_def outcomes_def)

lemma comment_leads: "leads u q (fst (add_comment_row rt now u k author msg ty q))"
  by (simp add: add_comment_row_def draw_eq Let_def leads_def queue_view_def outcomes_def)

lemma signoff_leads: "leads u q (fst (add_signoff_row rt now u k ty who r q))"
  by (simp add: add_signoff_row_def draw_eq Let_def leads_def queue_view_def outcomes_def)

lemma comment_Inr:
  assumes "add_comment_row rt now u k author msg ty q = (q', Inr c)"
  shows "q' = q\<lparr>xq_uuids := Suc (xq_uuids q), xq_comments := xq_comments q @ [c]\<rparr>" "ct_case_id c = k" "ct_tenant_id c = u"
    "k \<in> ec_case_id ` set (xq_cases q)"
  using assms by (auto simp: add_comment_row_def draw_eq Let_def split: if_splits)

lemma signoff_Inr:
  assumes "add_signoff_row rt now u k ty who r q = (q', Inr s)"
  shows "q' = q\<lparr>xq_uuids := Suc (xq_uuids q), xq_signoffs := xq_signoffs q @ [s]\<rparr>"
    "xs_case_id s = k" "xs_tenant_id s = u" "xs_signoff_type s = ty" "xs_signed_by s = who" "xs_reason s = r"
    "k \<in> ec_case_id ` set (xq_cases q)"
  using assms by (auto simp: add_signoff_row_def draw_eq Let_def split: if_splits)

lemma comment_ok:
  assumes "add_comment_row rt now u k author msg ty q = (q', Inr c)" "exceptions_ok q"
  shows "exceptions_ok q'"
  using assms(2) comment_Inr[OF assms(1)] by (simp add: exceptions_ok_def signoffs_of_def)

lemma comment_cases [simp]: "xq_cases (fst (add_comment_row rt now u k author msg ty q)) = xq_cases q"
  by (simp add: add_comment_row_def draw_eq Let_def)

definition keeps_key :: "(ExceptionCase \<Rightarrow> ExceptionCase) \<Rightarrow> bool" where
  "keeps_key f \<longleftrightarrow> (\<forall>c. ec_case_id (f c) = ec_case_id c \<and> ec_tenant_id (f c) = ec_tenant_id c)"

lemma keeps_keyI [simp]: "keeps_key (assigned now owner)" "keeps_key (resolved now s)" "keeps_key (waived now r w)"
  by (simp_all add: keeps_key_def assigned_def resolved_def waived_def)

lemma update_rows_ids: "keeps_key f \<Longrightarrow> map ec_case_id (xq_cases (update_rows u k P f q)) = map ec_case_id (xq_cases q)"
  by (simp add: update_rows_def keeps_key_def)

lemma update_rows_leads:
  assumes "keeps_key f" "\<And>c. case_closed c \<Longrightarrow> P c \<Longrightarrow> case_closed (f c) \<and> outcome (f c) = outcome c"
  shows "leads u q (update_rows u k P f q)"
proof -
  have "filter (\<lambda>c. ec_tenant_id c = v) (map (\<lambda>c. if is_case u k c \<and> P c then f c else c) cs) = filter (\<lambda>c. ec_tenant_id c = v) cs"
    if "v \<noteq> u" for v cs
    using assms(1) that by (induction cs) (auto simp: is_case_def keeps_key_def)
  moreover have "outcome c \<in> outcomes (update_rows u k P f q)" if "c \<in> set (xq_cases q)" "case_closed c" for c
  proof -
    define g where "g = (\<lambda>c. if is_case u k c \<and> P c then f c else c)"
    have "g c \<in> set (xq_cases (update_rows u k P f q))" using that by (simp add: update_rows_def g_def)
    moreover have "case_closed (g c)" "outcome c = outcome (g c)" using that assms(2)[of c] by (simp_all add: g_def)
    ultimately show ?thesis unfolding outcomes_def by simp
  qed
  then have "outcomes q \<subseteq> outcomes (update_rows u k P f q)" by (auto simp: outcomes_def[of q])
  ultimately show ?thesis by (simp add: leads_def queue_view_def update_rows_def)
qed

definition tenant_of :: "pyrt \<Rightarrow> string \<Rightarrow> string" where
  "tenant_of rt t = (case set_tenant_context rt t of Inr u \<Rightarrow> u | Inl _ \<Rightarrow> t)"

lemma updating_leads:
  assumes "\<And>u k q. leads u q (update_rows u k P f q)" "\<And>u k q. leads u q (fst (after u k q))"
  shows "leads (tenant_of rt t) q (fst (updating rt t cid P f after q))"
proof (cases "set_tenant_context rt t")
  case (Inr u)
  have "leads u q (fst (after u k (update_rows u k P f q)))" for k
    using leads_trans[OF assms(1) assms(2)] .
  then show ?thesis
    by (auto simp: updating_def tenant_of_def Inr and_then_def split: sum.split prod.split) (metis fst_conv)+
qed (simp add: updating_def and_then_def)

lemma updating_Inr:
  assumes "updating rt t cid P f after q = (q', Inr r)"
  obtains "q' = q" | u k where "has_row u k P q" "after u k (update_rows u k P f q) = (q', Inr ())"
  using assms by (auto simp: updating_def split: sum.splits prod.splits if_splits)

lemma forget_Inr: "forget r = (q, Inr x) \<longleftrightarrow> (\<exists>a. r = (q, Inr a))"
  by (cases r) (auto simp: forget_def split: sum.splits)

lemma then_do_Inr: "then_do r f = (q', Inr x) \<longleftrightarrow> (\<exists>q. r = (q, Inr ()) \<and> f q = (q', Inr x))"
  by (auto simp: then_do_def split: prod.splits sum.splits)

lemma forget_fst [simp]: "fst (forget r) = fst r" by (simp add: forget_def)

lemma then_do_leads: "leads u q (fst r) \<Longrightarrow> (\<And>q. leads u q (fst (g q))) \<Longrightarrow> leads u q (fst (then_do r g))"
  by (cases r) (auto simp: then_do_def intro: leads_trans split: sum.split)

lemma updated_row:
  assumes "c' \<in> set (xq_cases (update_rows u k P f q))"
  obtains c where "c \<in> set (xq_cases q)" "c' = (if is_case u k c \<and> P c then f c else c)"
  using assms by (auto simp: update_rows_def)

lemma assign_rows_ok:
  assumes "exceptions_ok q"
  shows "exceptions_ok (update_rows u k (\<lambda>_. True) (assigned now owner) q)"
proof -
  let ?q = "update_rows u k (\<lambda>_. True) (assigned now owner) q"
  have "case_ok (signoffs_of (ec_case_id c') ?q) c'" if c': "c' \<in> set (xq_cases ?q)" for c'
  proof -
    obtain c where c: "c \<in> set (xq_cases q)" "c' = (if is_case u k c \<and> True then assigned now owner c else c)"
      using c' by (rule updated_row)
    with assms have "case_ok (signoffs_of (ec_case_id c) q) c" by (simp add: exceptions_ok_def)
    moreover have "signoffs_of (ec_case_id c') ?q = signoffs_of (ec_case_id c) q"
      by (simp add: signoffs_of_def update_rows_def c assigned_def)
    ultimately show ?thesis by (auto simp: c(2) case_ok_def assigned_def)
  qed
  moreover have "ec_case_id ` set (xq_cases ?q) = ec_case_id ` set (xq_cases q)"
    using update_rows_ids[OF keeps_keyI(1), of u k "\<lambda>_. True" now owner q] by (metis set_map)
  ultimately show ?thesis
    using assms update_rows_ids[OF keeps_keyI(1), of u k "\<lambda>_. True" now owner q] by (simp add: exceptions_ok_def) (simp add: update_rows_def)
qed

text \<open>Closing: the one open row of the case changes, and the one signoff that names it is added.\<close>

lemma close_rows_ok:
  assumes ok: "exceptions_ok q" and row: "has_row u k (\<lambda>c. \<not> case_closed c) q" and key: "keeps_key f"
    and s: "xs_case_id s = k" and f: "\<And>c. case_ok [] c \<Longrightarrow> ec_tenant_id c = u \<Longrightarrow> case_ok [s] (f c)"
  shows "exceptions_ok (update_rows u k (\<lambda>c. \<not> case_closed c) f q\<lparr>xq_uuids := n, xq_signoffs := xq_signoffs q @ [s]\<rparr>)"
proof -
  let ?q1 = "update_rows u k (\<lambda>c. \<not> case_closed c) f q"
  let ?q = "?q1\<lparr>xq_uuids := n, xq_signoffs := xq_signoffs q @ [s]\<rparr>"
  from row obtain c0 where c0: "c0 \<in> set (xq_cases q)" "is_case u k c0" "\<not> case_closed c0" by (auto simp: has_row_def list_ex_iff)
  have only: "c = c0" if "c \<in> set (xq_cases q)" "ec_case_id c = k" for c
    using ok that c0 by (auto simp: exceptions_ok_def is_case_def distinct_map dest: inj_onD)
  have "case_ok (signoffs_of (ec_case_id c') ?q) c'" if c': "c' \<in> set (xq_cases ?q1)" for c'
  proof -
    obtain c where c: "c \<in> set (xq_cases q)" and c'_eq: "c' = (if is_case u k c \<and> \<not> case_closed c then f c else c)"
      using c' by (rule updated_row)
    have cok: "case_ok (signoffs_of (ec_case_id c) q) c" using ok c by (simp add: exceptions_ok_def)
    have id: "ec_case_id c' = ec_case_id c" using key by (simp add: c'_eq keeps_key_def)
    show ?thesis
    proof (cases "ec_case_id c = k")
      case True
      with only c c0 have "c = c0" "c' = f c" by (auto simp: c'_eq)
      moreover have "signoffs_of k q = []" using cok True c0 \<open>c = c0\<close> by (auto simp: case_ok_def case_closed_def split: if_splits)
      ultimately show ?thesis
        using f[of c] cok True s c0 id by (simp add: signoffs_of_def is_case_def)
    next
      case False
      then have "c' = c" using c'_eq by (auto simp: is_case_def)
      with False cok s show ?thesis by (simp add: signoffs_of_def)
    qed
  qed
  moreover have ids: "map ec_case_id (xq_cases ?q1) = map ec_case_id (xq_cases q)" by (rule update_rows_ids[OF key])
  moreover have "ec_case_id ` set (xq_cases ?q1) = ec_case_id ` set (xq_cases q)" using ids by (metis set_map)
  moreover have "k \<in> ec_case_id ` set (xq_cases q)" using c0 by (auto simp: is_case_def)
  ultimately show ?thesis
    using ok s by (simp add: exceptions_ok_def) (simp add: update_rows_def)
qed

lemma update_rows_uuids [simp]: "xq_signoffs (update_rows u k P f q) = xq_signoffs q"
  by (simp add: update_rows_def)

lemma closing_ok:
  assumes "updating rt t cid (\<lambda>c. \<not> case_closed c) f
      (\<lambda>u k q. then_do (forget (add_signoff_row rt now u k ty who (Some reason) q))
         (\<lambda>q. forget (add_comment_row rt now u k author (msg) ''status_change'' q))) q = (q', Inr r)"
    and "exceptions_ok q" "keeps_key f"
    and f: "\<And>s c. xs_tenant_id s = ec_tenant_id c \<Longrightarrow> xs_signoff_type s = ty \<Longrightarrow> xs_signed_by s = who \<Longrightarrow> xs_reason s = Some reason \<Longrightarrow>
      case_ok [] c \<Longrightarrow> case_ok [s] (f c)"
  shows "exceptions_ok q'"
  using assms(1)
proof (cases rule: updating_Inr)
  case (2 u k)
  then obtain q1 s c where s: "add_signoff_row rt now u k ty who (Some reason) (update_rows u k (\<lambda>c. \<not> case_closed c) f q) = (q1, Inr s)"
    and c: "add_comment_row rt now u k author msg ''status_change'' q1 = (q', Inr c)"
    by (auto simp: then_do_Inr forget_Inr)
  note s = signoff_Inr[OF s]
  have "exceptions_ok q1"
    unfolding s(1) update_rows_uuids using assms(2) 2(1) assms(3) s(2)
    by (rule close_rows_ok) (rule f, simp_all add: s)
  with c show ?thesis by (rule comment_ok)
qed (use assms(2) in simp)

lemma resolve_ok: "resolve_exception rt now t cid summary who q = (q', Inr r) \<Longrightarrow> exceptions_ok q \<Longrightarrow> exceptions_ok q'"
  unfolding resolve_exception_def
  by (rule closing_ok, assumption, assumption, simp) (auto simp: case_ok_def resolved_def split: if_splits)

lemma waive_ok: "waive_exception rt now t cid reason who q = (q', Inr r) \<Longrightarrow> exceptions_ok q \<Longrightarrow> exceptions_ok q'"
  unfolding waive_exception_def
  by (rule closing_ok, assumption, assumption, simp) (auto simp: case_ok_def waived_def split: if_splits)

lemma assign_ok:
  assumes "assign_owner rt now t cid owner who q = (q', Inr r)" "exceptions_ok q"
  shows "exceptions_ok q'"
  using assms(1) unfolding assign_owner_def
proof (cases rule: updating_Inr)
  case (2 u k)
  then obtain c where "add_comment_row rt now u k who (''Case assigned to '' @ owner @ ''.'') ''assignment''
      (update_rows u k (\<lambda>_. True) (assigned now owner) q) = (q', Inr c)"
    by (auto simp: forget_Inr)
  then show ?thesis using assign_rows_ok[OF assms(2)] by (rule comment_ok)
qed (use assms(2) in simp)

lemma closed_outcome:
  "case_closed c \<Longrightarrow> case_closed (assigned now owner c) \<and> outcome (assigned now owner c) = outcome c"
  by (auto simp: case_closed_def outcome_def assigned_def)

lemma resolve_leads: "leads (tenant_of rt t) q (fst (resolve_exception rt now t cid summary who q))"
  unfolding resolve_exception_def
  by (rule updating_leads, rule update_rows_leads) (simp_all add: then_do_leads signoff_leads comment_leads)

lemma waive_leads: "leads (tenant_of rt t) q (fst (waive_exception rt now t cid reason who q))"
  unfolding waive_exception_def
  by (rule updating_leads, rule update_rows_leads) (simp_all add: then_do_leads signoff_leads comment_leads)

lemma assign_leads: "leads (tenant_of rt t) q (fst (assign_owner rt now t cid owner who q))"
  unfolding assign_owner_def
  by (rule updating_leads, rule update_rows_leads) (simp_all add: closed_outcome comment_leads)

lemma add_comment_leads: "leads (tenant_of rt t) q (fst (add_comment rt now t cid author msg ty q))"
  by (auto simp: add_comment_def and_then_def tenant_of_def comment_leads split: sum.split option.split)

lemma add_comment_ok: "add_comment rt now t cid author msg ty q = (q', Inr c) \<Longrightarrow> exceptions_ok q \<Longrightarrow> exceptions_ok q'"
  by (auto simp: add_comment_def intro: comment_ok split: sum.splits option.splits)

text \<open>A new case.\<close>

lemma insert_Inr:
  assumes "insert_case rt now u k a q = (q', Inr x)"
  obtains evs vals req where "uuid_array rt (nx_event_ids a) = Inr evs" "uuid_array rt (nx_evaluation_ids a) = Inr vals"
    "nx_severity a \<in> set case_severities" "k \<notin> ec_case_id ` set (xq_cases q)"
    "q' = q\<lparr>xq_cases := xq_cases q @ [open_case now u k evs vals (a\<lparr>nx_request_case_id := req\<rparr>)]\<rparr>"
  using assms by (auto simp: insert_case_def split: sum.splits if_splits)

lemma open_case_key [simp]:
  "ec_case_id (open_case now u k evs vals a) = k" "ec_tenant_id (open_case now u k evs vals a) = u"
  "ec_severity (open_case now u k evs vals a) = nx_severity a" "ec_linked_event_ids (open_case now u k evs vals a) = evs"
  "ec_status (open_case now u k evs vals a) = ''open''" "ec_rule_category (open_case now u k evs vals a) = Some (nx_rule_category a)"
  "ec_linked_rule_evaluation_ids (open_case now u k evs vals a) = vals"
  by (simp_all add: open_case_def)

lemma insert_leads: "leads u q (fst (insert_case rt now u k a q))"
  by (auto simp: insert_case_def leads_def queue_view_def outcomes_def split: sum.split)

lemma insert_ok:
  assumes "insert_case rt now u k a q = (q', Inr x)" "exceptions_ok q"
  shows "exceptions_ok q'"
proof -
  from assms(1) obtain evs vals req where n: "nx_severity a \<in> set case_severities" "k \<notin> ec_case_id ` set (xq_cases q)"
    and q': "q' = q\<lparr>xq_cases := xq_cases q @ [open_case now u k evs vals (a\<lparr>nx_request_case_id := req\<rparr>)]\<rparr>"
    by (rule insert_Inr)
  have "signoffs_of k q = []" using n(2) assms(2) by (auto simp: exceptions_ok_def signoffs_of_def filter_empty_conv)
  then have "case_ok (signoffs_of k q) (open_case now u k evs vals (a\<lparr>nx_request_case_id := req\<rparr>))" using n(1) by (simp add: case_ok_def open_case_def)
  moreover have "signoffs_of c q' = signoffs_of c q" for c by (simp add: signoffs_of_def q')
  ultimately show ?thesis using assms(2) n(2) by (auto simp: exceptions_ok_def q')
qed

lemma create_Inr:
  assumes "create_exception rt now t a q = (q', Inr r)"
  obtains u evs vals req c where "set_tenant_context rt t = Inr u" "uuid_array rt (nx_event_ids a) = Inr evs"
    "uuid_array rt (nx_evaluation_ids a) = Inr vals" "xq_cases q' = xq_cases q @ [c]"
    "c = open_case now u (rt_uuid4 rt (xq_uuids q)) evs vals (a\<lparr>nx_request_case_id := req\<rparr>)" "r = Some c" "exceptions_ok q \<Longrightarrow> exceptions_ok q'"
proof -
  obtain u where u: "set_tenant_context rt t = Inr u" using assms by (auto simp: create_exception_def split: sum.splits)
  let ?k = "rt_uuid4 rt (xq_uuids q)" and ?q1 = "q\<lparr>xq_uuids := Suc (xq_uuids q)\<rparr>"
  let ?c = "\<lambda>req evs vals. open_case now u ?k evs vals (a\<lparr>nx_request_case_id := req\<rparr>)"
  obtain q2 x where i: "insert_case rt now u ?k a ?q1 = (q2, Inr x)"
    using assms by (auto simp: create_exception_def u draw_eq Let_def split: prod.splits sum.splits)
  obtain m where c: "add_comment_row rt now u ?k ''system''
      (''Exception case created. Severity: '' @ nx_severity a @ '', Category: '' @ nx_rule_category a @ ''.'') ''system'' q2 = (q', Inr m)"
    and r: "r = List.find (is_case u ?k) (xq_cases q')"
    using assms by (auto simp: create_exception_def u draw_eq Let_def i split: prod.splits sum.splits)
  from i obtain evs vals req where e: "uuid_array rt (nx_event_ids a) = Inr evs" "uuid_array rt (nx_evaluation_ids a) = Inr vals"
    and fresh: "?k \<notin> ec_case_id ` set (xq_cases ?q1)"
    and q2: "q2 = ?q1\<lparr>xq_cases := xq_cases ?q1 @ [?c req evs vals]\<rparr>" by (rule insert_Inr)
  have cs: "xq_cases q' = xq_cases q @ [?c req evs vals]" by (simp add: comment_Inr(1)[OF c] q2)
  have "List.find (is_case u ?k) (xs @ [y]) = Some y" if "?k \<notin> ec_case_id ` set xs" "is_case u ?k y" for xs y
    using that by (induction xs) (auto simp: is_case_def)
  from this[of "xq_cases q" "?c req evs vals"] fresh
  have "r = Some (?c req evs vals)" by (simp add: r cs is_case_def)
  moreover have "exceptions_ok q'" if "exceptions_ok q" using that insert_ok[OF i] comment_ok[OF c] by simp
  ultimately show ?thesis using that u e cs by blast
qed

lemma create_leads: "leads (tenant_of rt t) q (fst (create_exception rt now t a q))"
proof (cases "set_tenant_context rt t")
  case (Inr u)
  let ?k = "rt_uuid4 rt (xq_uuids q)" and ?q1 = "q\<lparr>xq_uuids := Suc (xq_uuids q)\<rparr>"
  let ?msg = "''Exception case created. Severity: '' @ nx_severity a @ '', Category: '' @ nx_rule_category a @ ''.''"
  obtain q2 x where i: "insert_case rt now u ?k a ?q1 = (q2, x)" by (cases "insert_case rt now u ?k a ?q1")
  obtain q3 y where m: "add_comment_row rt now u ?k ''system'' ?msg ''system'' q2 = (q3, y)"
    by (cases "add_comment_row rt now u ?k ''system'' ?msg ''system'' q2")
  have 2: "leads u q q2" using leads_trans[OF uuids_leads[of u q] insert_leads[of u ?q1 rt now ?k a]] by (simp add: i)
  then have 3: "leads u q q3" using leads_trans[OF 2 comment_leads[of u q2 rt now ?k "''system''" ?msg "''system''"]] by (simp only: m fst_conv)
  have "fst (create_exception rt now t a q) \<in> {q2, q3}"
    unfolding create_exception_def Inr draw_eq Let_def sum.case prod.case i
    by (cases x; cases y) (simp_all only: m sum.case prod.case fst_conv insert_iff simp_thms)
  with 2 3 show ?thesis by (auto simp: tenant_of_def Inr)
qed (simp add: create_exception_def)

lemma create_each_leads: "leads (tenant_of rt t) q (fst (create_each rt now t as q))"
proof (induction as arbitrary: q)
  case (Cons a as)
  obtain q1 x where c: "create_exception rt now t a q = (q1, x)" by (cases "create_exception rt now t a q")
  obtain q2 y where r: "create_each rt now t as q1 = (q2, y)" by (cases "create_each rt now t as q1")
  have 1: "leads (tenant_of rt t) q q1" using create_leads[of rt t q now a] by (simp add: c)
  have 2: "leads (tenant_of rt t) q q2" using leads_trans[OF 1 Cons[of q1]] by (simp add: r)
  have "fst (create_each rt now t (a # as) q) \<in> {q1, q2}" by (cases x; cases y) (simp_all add: c r)
  with 1 2 show ?case by auto
qed simp

lemma create_each_ok: "create_each rt now t as q = (q', Inr cs) \<Longrightarrow> exceptions_ok q \<Longrightarrow> exceptions_ok q'"
proof (induction as arbitrary: q cs)
  case (Cons a as)
  then obtain q1 c cs' where "create_exception rt now t a q = (q1, Inr c)" "create_each rt now t as q1 = (q', Inr cs')"
    by (auto split: prod.splits sum.splits)
  with Cons show ?case by (metis create_Inr)
qed simp

lemma queue_operationI:
  assumes "\<And>q q' a. run q = (q', Inr a) \<Longrightarrow> exceptions_ok q \<Longrightarrow> exceptions_ok q'" "\<And>q. leads u q (fst (run q))"
  shows "queue_operation u run"
  using assms unfolding leads_def by unfold_locales blast+

interpretation creating: queue_operation "tenant_of rt t" "create_exception rt now t a" for rt now t a
  by (rule queue_operationI[OF _ create_leads]) (erule create_Inr, blast)

interpretation assigning: queue_operation "tenant_of rt t" "assign_owner rt now t cid owner who" for rt now t cid owner who
  by (rule queue_operationI[OF assign_ok assign_leads])

interpretation resolving: queue_operation "tenant_of rt t" "resolve_exception rt now t cid summary who" for rt now t cid summary who
  by (rule queue_operationI[OF resolve_ok resolve_leads])

interpretation waiving: queue_operation "tenant_of rt t" "waive_exception rt now t cid reason who" for rt now t cid reason who
  by (rule queue_operationI[OF waive_ok waive_leads])

interpretation commenting: queue_operation "tenant_of rt t" "add_comment rt now t cid author msg ty" for rt now t cid author msg ty
  by (rule queue_operationI[OF add_comment_ok add_comment_leads])

interpretation evaluating: queue_operation "tenant_of rt t" "create_exceptions_from_evaluation rt now t summary supplier facility"
  for rt now t summary supplier facility
  unfolding create_exceptions_from_evaluation_def[abs_def] by (rule queue_operationI[OF create_each_ok create_each_leads])

text \<open>The mirror of a remediation case changes only the status of an open case.\<close>

lemma mirror_rows_ok:
  assumes "exceptions_ok q" "mirrored \<in> snd ` set exception_mirror"
  shows "exceptions_ok (update_rows u k (\<lambda>c. \<not> case_closed c) (\<lambda>c. c\<lparr>ec_status := mirrored, ec_updated_at := now\<rparr>) q)"
proof -
  let ?f = "\<lambda>c. c\<lparr>ec_status := mirrored, ec_updated_at := now\<rparr>"
  let ?q = "update_rows u k (\<lambda>c. \<not> case_closed c) ?f q"
  have key: "keeps_key ?f" by (simp add: keeps_key_def)
  have m: "mirrored = ''awaiting_supplier'' \<or> mirrored = ''in_review''" using assms(2) by (auto simp: exception_mirror_def)
  have "case_ok (signoffs_of (ec_case_id c') ?q) c'" if c': "c' \<in> set (xq_cases ?q)" for c'
  proof -
    obtain c where c: "c \<in> set (xq_cases q)" "c' = (if is_case u k c \<and> \<not> case_closed c then ?f c else c)"
      using c' by (rule updated_row)
    with assms(1) have "case_ok (signoffs_of (ec_case_id c) q) c" by (simp add: exceptions_ok_def)
    moreover have "signoffs_of (ec_case_id c') ?q = signoffs_of (ec_case_id c) q" by (simp add: signoffs_of_def c)
    ultimately show ?thesis using m by (auto simp: c(2) case_ok_def case_closed_def split: if_splits)
  qed
  moreover note ids = update_rows_ids[OF key, of u k "\<lambda>c. \<not> case_closed c" q]
  moreover have "ec_case_id ` set (xq_cases ?q) = ec_case_id ` set (xq_cases q)" using ids by (metis set_map)
  ultimately show ?thesis using assms(1) by (simp add: exceptions_ok_def) (simp add: update_rows_def)
qed

lemma remediations_ok [simp]: "exceptions_ok (q\<lparr>xq_remediations := ms\<rparr>) = exceptions_ok q"
  by (simp add: exceptions_ok_def signoffs_of_def)

lemma mirror_cases:
  obtains "mirror_exception ok now to_status u k q = q" | cid mirrored where "mirrored \<in> snd ` set exception_mirror"
    "mirror_exception ok now to_status u k q = update_rows u cid (\<lambda>c. \<not> case_closed c) (\<lambda>c. c\<lparr>ec_status := mirrored, ec_updated_at := now\<rparr>) q"
proof (cases "map_of exception_mirror to_status")
  case (Some mirrored)
  then have "mirrored \<in> snd ` set exception_mirror" by (metis imageI map_of_SomeD snd_conv)
  then show thesis using Some that by (fastforce simp: mirror_exception_def mirror_update_def split: option.splits if_splits)
qed (use that in \<open>simp add: mirror_exception_def\<close>)

lemma mirror_ok: "exceptions_ok q \<Longrightarrow> exceptions_ok (mirror_exception ok now to_status u k q)"
  by (cases rule: mirror_cases[of ok now to_status u k q]) (simp_all add: mirror_rows_ok)

lemma mirror_leads: "leads u q (mirror_exception ok now to_status u k q)"
  by (cases rule: mirror_cases[of ok now to_status u k q]) (auto intro!: update_rows_leads simp: keeps_key_def)

definition cast_tenant :: "pyrt \<Rightarrow> string \<Rightarrow> string" where
  "cast_tenant rt t = (case uuid_arg rt t of Inr u \<Rightarrow> u | Inl _ \<Rightarrow> t)"

lemma remediation_leads:
  "leads u q (q\<lparr>xq_remediations := map (\<lambda>m. if is_remediation u k m \<and> P m then m\<lparr>rm_status := st\<rparr> else m) (xq_remediations q)\<rparr>)"
  by (auto simp: leads_def queue_view_def outcomes_def is_remediation_def filter_map_frame)

lemma transition_ok: "transition rt ok now t cid to_status expected q = (q', Inr x) \<Longrightarrow> exceptions_ok q \<Longrightarrow> exceptions_ok q'"
  by (auto simp: transition_def Let_def mirror_ok split: if_splits sum.splits)

lemma transition_leads: "leads (cast_tenant rt t) q (fst (transition rt ok now t cid to_status expected q))"
  using leads_trans[OF remediation_leads mirror_leads]
  by (auto simp: transition_def Let_def cast_tenant_def and_then_def split: sum.split)

interpretation remediating: queue_operation "cast_tenant rt t" "transition rt ok now t cid to_status expected" for rt ok now t cid to_status expected
  by (rule queue_operationI[OF transition_ok transition_leads])

text \<open>
  The queue over time: the caller commits what succeeds and rolls back what raises. The rows of the remediation cases appear and go by
  other operations of the service.
\<close>

inductive queue_reach :: "pyrt \<Rightarrow> queue \<Rightarrow> queue \<Rightarrow> bool" for rt q0 where
  qr_start: "queue_reach rt q0 q0"
| qr_create: "queue_reach rt q0 q \<Longrightarrow> create_exception rt now t a q = (q', Inr r) \<Longrightarrow> queue_reach rt q0 q'"
| qr_assign: "queue_reach rt q0 q \<Longrightarrow> assign_owner rt now t cid owner who q = (q', Inr r) \<Longrightarrow> queue_reach rt q0 q'"
| qr_resolve: "queue_reach rt q0 q \<Longrightarrow> resolve_exception rt now t cid summary who q = (q', Inr r) \<Longrightarrow> queue_reach rt q0 q'"
| qr_waive: "queue_reach rt q0 q \<Longrightarrow> waive_exception rt now t cid reason who q = (q', Inr r) \<Longrightarrow> queue_reach rt q0 q'"
| qr_comment: "queue_reach rt q0 q \<Longrightarrow> add_comment rt now t cid author msg ty q = (q', Inr c) \<Longrightarrow> queue_reach rt q0 q'"
| qr_evaluation: "queue_reach rt q0 q \<Longrightarrow> create_exceptions_from_evaluation rt now t es supplier facility q = (q', Inr cs) \<Longrightarrow>
    queue_reach rt q0 q'"
| qr_transition: "queue_reach rt q0 q \<Longrightarrow> transition rt ok now t cid to_status expected q = (q', Inr x) \<Longrightarrow> queue_reach rt q0 q'"
| qr_remediations: "queue_reach rt q0 q \<Longrightarrow> queue_reach rt q0 (q\<lparr>xq_remediations := ms\<rparr>)"

lemma queue_reach_keeps: "queue_reach rt q0 q \<Longrightarrow> exceptions_ok q0 \<Longrightarrow> exceptions_ok q \<and> outcomes q0 \<subseteq> outcomes q"
proof (induction rule: queue_reach.induct)
  case (qr_create q now t a q' r)
  then show ?case using creating.keeps creating.final[of q rt now t a] by (metis fst_conv subset_trans)
next
  case (qr_assign q now t cid owner who q' r)
  then show ?case using assigning.keeps assigning.final[of q rt now t cid owner who] by (metis fst_conv subset_trans)
next
  case (qr_resolve q now t cid summary who q' r)
  then show ?case using resolving.keeps resolving.final[of q rt now t cid summary who] by (metis fst_conv subset_trans)
next
  case (qr_waive q now t cid reason who q' r)
  then show ?case using waiving.keeps waiving.final[of q rt now t cid reason who] by (metis fst_conv subset_trans)
next
  case (qr_comment q now t cid author msg ty q' c)
  then show ?case using commenting.keeps commenting.final[of q rt now t cid author msg ty] by (metis fst_conv subset_trans)
next
  case (qr_evaluation q now t es supplier facility q' cs)
  then show ?case using evaluating.keeps evaluating.final[of q rt now t es supplier facility] by (metis fst_conv subset_trans)
next
  case (qr_transition q ok now t cid to_status expected q' x)
  then show ?case using remediating.keeps remediating.final[of q rt ok now t cid to_status expected] by (metis fst_conv subset_trans)
next
  case (qr_remediations q ms)
  then show ?case by (simp add: outcomes_def)
qed simp

definition empty_queue :: queue where
  "empty_queue = \<lparr>xq_cases = [], xq_comments = [], xq_signoffs = [], xq_remediations = [], xq_uuids = 0\<rparr>"

lemma empty_queue_ok: "exceptions_ok empty_queue"
  by (simp add: exceptions_ok_def empty_queue_def)

text \<open>
  Claim C8 (invariant). In a queue grown from nothing every resolved case has its summary and exactly one signoff, an approval with
  that summary as its reason; every waived case has its reason and exactly one signoff, a waiver by the recorded approver
  with that reason; every other case is open, in review or awaiting the supplier and has no signoff. A case that was closed keeps its outcome for good, whatever
  the remediation of the supplier does.
\<close>

theorem exception_lifecycle:
  assumes "queue_reach rt empty_queue q" "queue_reach rt q q'"
  shows "(\<forall>c \<in> set (xq_cases q'). case_ok (signoffs_of (ec_case_id c) q') c) \<and> outcomes q \<subseteq> outcomes q'"
  using queue_reach_keeps[OF assms(2)] queue_reach_keeps[OF assms(1) empty_queue_ok] by (simp add: exceptions_ok_def)

definition sample_exception :: new_exception where
  "sample_exception = \<lparr>nx_severity = ''critical'', nx_rule_category = ''kde'', nx_remediation = None, nx_event_ids = [PStr ''e1''],
     nx_evaluation_ids = [], nx_supplier = Some ''Acme'', nx_facility = None, nx_due_date = None, nx_request_case_id = None\<rparr>"

definition sample_remediation :: remediation_case where
  "sample_remediation =
     \<lparr>rm_id = ''m1'', rm_tenant_id = ''t1'', rm_exception_case_id = Some ''0'', rm_status = ''supplier_action_required''\<rparr>"

text \<open>A case, the supplier's remediation case beside it, the notification of the supplier, and the waiver.\<close>

definition sample_opened :: queue where
  "sample_opened = fst (create_exception example_rt 5 ''t1'' sample_exception empty_queue)"

definition sample_notified :: queue where
  "sample_notified =
     fst (transition example_rt True 6 ''t1'' ''m1'' ''notification_ready'' ''supplier_action_required'' (sample_opened\<lparr>xq_remediations := [sample_remediation]\<rparr>))"

definition sample_queue :: queue where
  "sample_queue = fst (waive_exception example_rt 7 ''t1'' ''0'' ''duplicate'' ''qa'' sample_notified)"

lemma run_Inr: "(case snd r of Inr _ \<Rightarrow> True | Inl _ \<Rightarrow> False) \<Longrightarrow> \<exists>a. r = (fst r, Inr a)"
  by (cases r) (auto split: sum.splits)

lemma sample_notified_reached: "queue_reach example_rt empty_queue sample_notified"
proof -
  have "case snd (create_exception example_rt 5 ''t1'' sample_exception empty_queue) of Inr _ \<Rightarrow> True | Inl _ \<Rightarrow> False" by code_simp
  then obtain a where "create_exception example_rt 5 ''t1'' sample_exception empty_queue = (sample_opened, Inr a)"
    using run_Inr unfolding sample_opened_def by blast
  then have 1: "queue_reach example_rt empty_queue sample_opened" by (rule qr_create[OF qr_start])
  let ?q = "sample_opened\<lparr>xq_remediations := [sample_remediation]\<rparr>"
  have "case snd (transition example_rt True 6 ''t1'' ''m1'' ''notification_ready'' ''supplier_action_required'' ?q) of Inr _ \<Rightarrow> True | Inl _ \<Rightarrow> False"
    by code_simp
  then obtain b where "transition example_rt True 6 ''t1'' ''m1'' ''notification_ready'' ''supplier_action_required'' ?q = (sample_notified, Inr b)"
    using run_Inr unfolding sample_notified_def by blast
  then show ?thesis by (rule qr_transition[OF qr_remediations[OF 1]])
qed

text \<open>
  The documented life of a case is open, in review, awaiting the supplier, closed. The mirror takes a case from open to awaiting the supplier
  with no review, and an escalation takes it back to the review.
\<close>

lemma lifecycle_order_not_kept:
  "map ec_status (xq_cases sample_opened) = [''open''] \<and> map ec_status (xq_cases sample_notified) = [''awaiting_supplier''] \<and>
   map ec_status (xq_cases (fst (transition example_rt True 8 ''t1'' ''m1'' ''escalated'' ''awaiting_supplier''
     (fst (transition example_rt True 7 ''t1'' ''m1'' ''awaiting_supplier'' ''notification_ready'' sample_notified))))) = [''in_review'']"
  by (intro conjI) code_simp+

theorem exception_lifecycle_witness:
  "map ec_status (xq_cases sample_notified) = [''awaiting_supplier''] \<and> map ec_status (xq_cases sample_queue) = [''waived''] \<and>
   list_all (\<lambda>c. case_ok (signoffs_of (ec_case_id c) sample_queue) c) (xq_cases sample_queue)"
proof -
  have "case snd (waive_exception example_rt 7 ''t1'' ''0'' ''duplicate'' ''qa'' sample_notified) of Inr _ \<Rightarrow> True | Inl _ \<Rightarrow> False" by code_simp
  then obtain b where "waive_exception example_rt 7 ''t1'' ''0'' ''duplicate'' ''qa'' sample_notified = (sample_queue, Inr b)"
    using run_Inr unfolding sample_queue_def by blast
  then have "queue_reach example_rt sample_notified sample_queue" by (rule qr_waive[OF qr_start])
  note exception_lifecycle[OF sample_notified_reached this]
  moreover have "map ec_status (xq_cases sample_queue) = [''waived'']" by code_simp
  ultimately show ?thesis using lifecycle_order_not_kept by (simp add: list_all_iff)
qed

section \<open>From a failed evaluation to the gate of the request workflow\<close>

lemma highest_severity_least:
  assumes "ss \<noteq> []"
  shows "highest_severity ss \<in> set ss \<and> (\<forall>s \<in> set ss. severity_rank (highest_severity ss) \<le> severity_rank s)"
proof -
  let ?f = "\<lambda>best s. if severity_rank s < severity_rank best then s else best"
  have "foldl ?f b xs \<in> insert b (set xs) \<and> (\<forall>s \<in> insert b (set xs). severity_rank (foldl ?f b xs) \<le> severity_rank s)" for b xs
  proof (induction xs arbitrary: b)
    case (Cons x xs)
    from Cons[of "?f b x"] show ?case by auto
  qed simp
  from this[of "hd ss" "tl ss"] assms show ?thesis
    by (cases ss) (simp_all add: highest_severity_def)
qed

lemma highest_severity_critical: "''critical'' \<in> set ss \<Longrightarrow> highest_severity ss = ''critical''"
  using highest_severity_least[of ss] by (fastforce simp: severity_rank_def split: if_splits)

definition made_from :: "pyrt \<Rightarrow> string \<Rightarrow> new_exception \<Rightarrow> ExceptionCase \<Rightarrow> bool" where
  "made_from rt u a c \<longleftrightarrow>
     ec_tenant_id c = u \<and> ec_status c = ''open'' \<and> ec_severity c = nx_severity a \<and> ec_rule_category c = Some (nx_rule_category a) \<and>
     uuid_array rt (nx_event_ids a) = Inr (ec_linked_event_ids c) \<and>
     uuid_array rt (nx_evaluation_ids a) = Inr (ec_linked_rule_evaluation_ids c)"

lemma create_each_Inr:
  assumes "create_each rt now t as q = (q', Inr cs)"
  shows "\<exists>news. xq_cases q' = xq_cases q @ news \<and> cs = map Some news \<and> list_all2 (made_from rt (tenant_of rt t)) as news"
  using assms
proof (induction as arbitrary: q cs)
  case (Cons a as)
  then obtain q1 r cs' where c: "create_exception rt now t a q = (q1, Inr r)" and rest: "create_each rt now t as q1 = (q', Inr cs')"
    and cs: "cs = r # cs'"
    by (auto split: prod.splits sum.splits)
  from c obtain u evs vals req c where n: "set_tenant_context rt t = Inr u" "uuid_array rt (nx_event_ids a) = Inr evs"
    "uuid_array rt (nx_evaluation_ids a) = Inr vals" "xq_cases q1 = xq_cases q @ [c]"
    "c = open_case now u (rt_uuid4 rt (xq_uuids q)) evs vals (a\<lparr>nx_request_case_id := req\<rparr>)" "r = Some c"
    by (rule create_Inr)
  then have "xq_cases q1 = xq_cases q @ [c]" "r = Some c" "made_from rt (tenant_of rt t) a c"
    by (simp_all add: made_from_def tenant_of_def)
  moreover obtain news where "xq_cases q' = xq_cases q1 @ news" "cs' = map Some news" "list_all2 (made_from rt (tenant_of rt t)) as news"
    using Cons.IH[OF rest] by blast
  ultimately show ?case by (intro exI[of _ "c # news"]) (simp add: cs)
qed simp

definition of_failures :: "pyrt \<Rightarrow> string \<Rightarrow> EvaluationSummary \<Rightarrow> string \<times> RuleEvaluationResult list \<Rightarrow> ExceptionCase \<Rightarrow> bool" where
  "of_failures rt u summary g c \<longleftrightarrow>
     ec_tenant_id c = u \<and> ec_status c = ''open'' \<and> ec_rule_category c = Some (fst g) \<and>
     ec_severity c = highest_severity (map rr_severity (snd g)) \<and>
     uuid_array rt (map (\<lambda>f. PStr (rr_evaluation_id f)) (snd g)) = Inr (ec_linked_rule_evaluation_ids c) \<and>
     (truthy (es_event_id summary) \<longrightarrow> map Some (ec_linked_event_ids c) = [uuid_param rt (es_event_id summary)])"

lemma made_of_failures:
  "made_from rt u (exception_of_group summary supplier facility g) c \<Longrightarrow> of_failures rt u summary g c"
  by (cases g) (auto simp: made_from_def of_failures_def exception_of_group_def Let_def uuid_array_def dest!: sym[of "[_]"] split: if_splits)

text \<open>
  The cases that an evaluation opens: one for each category that has a failure, in the order in which the
  categories first fail, with the severity of its worst failure, linked to the event and to the evaluations of exactly its failures.
\<close>

theorem exceptions_from_evaluation:
  assumes "create_exceptions_from_evaluation rt now t summary supplier facility q = (q', Inr cs)"
  shows "\<exists>news. xq_cases q' = xq_cases q @ news \<and> cs = map Some news \<and>
    list_all2 (of_failures rt (tenant_of rt t) summary) (group_rows rr_category (failures_of summary)) news"
proof -
  from create_each_Inr[OF assms[unfolded create_exceptions_from_evaluation_def]]
  obtain news where "xq_cases q' = xq_cases q @ news" "cs = map Some news"
    and made: "list_all2 (made_from rt (tenant_of rt t))
      (map (exception_of_group summary supplier facility) (group_rows rr_category (failures_of summary))) news"
    by blast
  moreover from made have "list_all2 (of_failures rt (tenant_of rt t) summary) (group_rows rr_category (failures_of summary)) news"
    unfolding list_all2_map1 by (rule list_all2_mono) (rule made_of_failures)
  ultimately show ?thesis by blast
qed

lemma critical_case_opened:
  assumes "create_exceptions_from_evaluation rt now t summary supplier facility q = (q', Inr cs)"
    and "r \<in> set (es_results summary)" "rr_result r = ''fail''" "rr_severity r = ''critical''"
    and "truthy (es_event_id summary)"
  shows "\<exists>c \<in> set (xq_cases q'). ec_tenant_id c = tenant_of rt t \<and> ec_severity c = ''critical'' \<and> ec_status c = ''open'' \<and>
    map Some (ec_linked_event_ids c) = [uuid_param rt (es_event_id summary)]"
proof -
  from create_each_Inr[OF assms(1)[unfolded create_exceptions_from_evaluation_def]]
  obtain news where q': "xq_cases q' = xq_cases q @ news"
    and made: "list_all2 (made_from rt (tenant_of rt t))
      (map (exception_of_group summary supplier facility) (group_rows rr_category (failures_of summary))) news"
    by blast
  let ?fs = "filter (\<lambda>x. rr_category x = rr_category r) (failures_of summary)"
  have "r \<in> set (failures_of summary)" using assms by (simp add: failures_of_def)
  then have g: "(rr_category r, ?fs) \<in> set (group_rows rr_category (failures_of summary))" by (rule group_rows_mem)
  then obtain i where i: "i < length (group_rows rr_category (failures_of summary))"
    "group_rows rr_category (failures_of summary) ! i = (rr_category r, ?fs)" by (auto simp: in_set_conv_nth)
  with made have "made_from rt (tenant_of rt t) (exception_of_group summary supplier facility (rr_category r, ?fs)) (news ! i)"
    and "i < length news" by (auto simp: list_all2_conv_all_nth)
  then have "of_failures rt (tenant_of rt t) summary (rr_category r, ?fs) (news ! i)" "i < length news"
    by (auto intro: made_of_failures)
  moreover have "''critical'' \<in> set (map rr_severity ?fs)" using \<open>r \<in> set (failures_of summary)\<close> assms(4) by force
  ultimately show ?thesis
    using assms(5) highest_severity_critical[of "map rr_severity ?fs"] unfolding of_failures_def q'
    by (intro bexI[of _ "news ! i"]) simp_all
qed

text \<open>The row of a case as the request workflow reads it.\<close>

definition as_wf_exception :: "ExceptionCase \<Rightarrow> wf_exception" where
  "as_wf_exception c =
     \<lparr>xc_case_id = ec_case_id c, xc_tenant_id = ec_tenant_id c, xc_request_case_id = ec_request_case_id c,
      xc_linked_event_ids = ec_linked_event_ids c, xc_severity = ec_severity c, xc_status = ec_status c,
      xc_source_supplier = ec_source_supplier c, xc_source_facility = ec_source_facility_reference c,
      xc_rule_category = ec_rule_category c, xc_created_at = ec_created_at c, xc_rest = []\<rparr>"

text \<open>
  Claim C14 (safety). A critical failure stops the package: once an evaluation with a critical failure has opened its cases, and as long as they are as it left them,
  a request whose scope has the event cannot be submitted without force.
\<close>

theorem critical_failure_blocks_submission:
  assumes "create_exceptions_from_evaluation rt now t summary supplier facility q = (q', Inr cs)"
    and "r \<in> set (es_results summary)" "rr_result r = ''fail''" "rr_severity r = ''critical''"
    and "truthy (es_event_id summary)" "uuid_param rt (es_event_id summary) = Some (we_event_id e)"
    and "wd_exceptions db = map as_wf_exception (xq_cases q')" "find_case (tenant_of rt t) cid db = Some c"
    and "e \<in> set (wd_events db)" "in_scope_of (tenant_of rt t) c e" "\<not> sm_force a"
  shows "\<not> accepted (submit_package env now' sid (tenant_of rt t) cid pid a db)"
proof
  assume "accepted (submit_package env now' sid (tenant_of rt t) cid pid a db)"
  then obtain db' s where s: "submit_package env now' sid (tenant_of rt t) cid pid a db = (db', Inr s)" unfolding accepted_iff by blast
  have gate: "defects_of (tenant_of rt t) cid c db = []" using s assms(8,11) unfolding submit_iff by auto
  obtain x where x: "x \<in> set (xq_cases q')" "ec_tenant_id x = tenant_of rt t" "ec_severity x = ''critical''" "ec_status x = ''open''"
    "ec_linked_event_ids x = [we_event_id e]"
    using critical_case_opened[OF assms(1-5)] assms(6) by auto
  let ?ids = "scope_event_ids (tenant_of rt t) c db"
  have "as_wf_exception x \<in> set (exceptions_of (tenant_of rt t) cid ?ids db)"
    using x assms(7) scope_event_idsI[OF assms(9,10)] by (auto simp: exceptions_of_def as_wf_exception_def)
  moreover have "critical_exceptions (tenant_of rt t) cid ?ids db = []" using gate by (simp add: defects_of_def Let_def)
  ultimately have "\<not> is_open (as_wf_exception x)" using x by (intro critical_exceptions_Nil) (auto simp: as_wf_exception_def)
  with x(4) show False by (simp add: is_open_def as_wf_exception_def)
qed

definition sample_failure :: RuleEvaluationResult where
  "sample_failure = \<lparr>rr_evaluation_id = ''v1'', rr_rule_id = ''r1'', rr_rule_version = 1, rr_rule_title = ''TLC'', rr_severity = ''critical'',
     rr_result = ''fail'', rr_why_failed = Some ''no lot code'', rr_evidence = [], rr_confidence = Fin 1, rr_citation_reference = None,
     rr_remediation_suggestion = None, rr_category = ''kde''\<rparr>"

definition sample_summary :: EvaluationSummary where
  "sample_summary = \<lparr>es_event_id = PStr ''e1'', es_total_rules = 1, es_passed = 0, es_failed = 1, es_warned = 0, es_skipped = 0,
     es_errored = 0, es_not_ftl_scoped = 0, es_no_verdict_reason = None, es_results = [sample_failure], es_critical_failures = [sample_failure]\<rparr>"

definition sample_evaluated :: "ExceptionCase option list xq_result" where
  "sample_evaluated = create_exceptions_from_evaluation example_rt 5 ''t1'' sample_summary None None empty_queue"

lemma sample_evaluated_Inr:
  "\<exists>cs. create_exceptions_from_evaluation example_rt 5 ''t1'' sample_summary None None empty_queue = (fst sample_evaluated, Inr cs)"
proof -
  have "case snd sample_evaluated of Inr _ \<Rightarrow> True | Inl _ \<Rightarrow> False" by code_simp
  from run_Inr[OF this] show ?thesis unfolding sample_evaluated_def .
qed

theorem exceptions_from_evaluation_witness:
  "\<exists>c. xq_cases (fst sample_evaluated) = [c] \<and> ec_severity c = highest_severity [''critical''] \<and> ec_linked_event_ids c = [''e1'']"
proof -
  obtain cs where "create_exceptions_from_evaluation example_rt 5 ''t1'' sample_summary None None empty_queue = (fst sample_evaluated, Inr cs)"
    using sample_evaluated_Inr by blast
  from exceptions_from_evaluation[OF this] obtain news where "xq_cases (fst sample_evaluated) = news"
    "list_all2 (of_failures example_rt (tenant_of example_rt ''t1'') sample_summary) (group_rows rr_category (failures_of sample_summary)) news"
    by (auto simp: empty_queue_def)
  moreover have "group_rows rr_category (failures_of sample_summary) = [(''kde'', [sample_failure])]" by code_simp
  ultimately show ?thesis
    by (auto simp: list_all2_Cons1 of_failures_def sample_summary_def sample_failure_def uuid_param_def example_rt_def)
qed

definition sample_blocked_db :: wf_db where
  "sample_blocked_db = (sample_db Ready [sample_evaluation ''pass'' 12])\<lparr>wd_exceptions := map as_wf_exception (xq_cases (fst sample_evaluated))\<rparr>"

theorem critical_failure_blocks_submission_witness:
  "\<not> accepted (submit_package wf_sample_env 30 ''s1'' ''t1'' ''c1'' ''p1'' sample_args sample_blocked_db)"
proof -
  obtain cs where cs: "create_exceptions_from_evaluation example_rt 5 ''t1'' sample_summary None None empty_queue = (fst sample_evaluated, Inr cs)"
    using sample_evaluated_Inr by blast
  have t: "tenant_of example_rt ''t1'' = ''t1''" by code_simp
  have "find_case ''t1'' ''c1'' sample_blocked_db = Some (sample_case Ready)" by code_simp
  moreover have "in_scope_of ''t1'' (sample_case Ready) wf_sample_event" by code_simp
  moreover have "uuid_param example_rt (es_event_id sample_summary) = Some (we_event_id wf_sample_event)" by code_simp
  ultimately show ?thesis
    using critical_failure_blocks_submission[OF cs, of sample_failure wf_sample_event sample_blocked_db "''c1''" "sample_case Ready" sample_args
        wf_sample_env 30 "''s1''" "''p1''"]
    by (simp add: t sample_summary_def sample_failure_def sample_blocked_db_def sample_db_def sample_args_def)
qed

text \<open>
  A failure without a case of its own is covered by any closed case of its event: here the waiver of an informational label issue lets the
  package with the critical failure through.
\<close>

lemma unrelated_waiver_covers:
  "accepted (submit_package wf_sample_env 30 ''s1'' ''t1'' ''c1'' ''p1'' sample_args
     ((sample_db Ready [sample_evaluation ''fail'' 12])\<lparr>wd_exceptions :=
        [as_wf_exception (waived 9 ''cosmetic'' ''qa'' (open_case 5 ''t1'' ''x1'' [''e1''] [] (sample_exception\<lparr>nx_severity := ''info'', nx_rule_category := ''label''\<rparr>)))]\<rparr>))"
  by code_simp

section \<open>Searching by a part of a name\<close>

definition plain_text :: "string \<Rightarrow> bool" where
  "plain_text s \<longleftrightarrow> CHR ''%'' \<notin> set s \<and> CHR ''_'' \<notin> set s \<and> CHR 0x5C \<notin> set s"

lemma like_any: "like [CHR ''%''] s" by (induction s) simp_all

lemma like_plain: "plain_text p \<Longrightarrow> like (p @ ps) s \<longleftrightarrow> (\<exists>s'. s = p @ s' \<and> like ps s')"
proof (induction p arbitrary: s)
  case (Cons x p)
  then have "plain_text p" "x \<noteq> CHR ''%''" "x \<noteq> CHR ''_''" "x \<noteq> CHR 0x5C" by (auto simp: plain_text_def)
  with Cons show ?case by (cases s) auto
qed simp

lemma like_percent: "like (CHR ''%'' # ps) s \<longleftrightarrow> (\<exists>a b. s = a @ b \<and> like ps b)"
proof (induction s)
  case (Cons x s)
  have "like (CHR ''%'' # ps) (x # s) \<longleftrightarrow> like ps (x # s) \<or> like (CHR ''%'' # ps) s" by simp
  with Cons show ?case by (auto simp: Cons_eq_append_conv)
qed simp

lemma lower_char_letter: "lower_char c \<noteq> c \<Longrightarrow> (97::nat) \<le> of_char (lower_char c)"
  by (auto simp: lower_char_def Let_def split: if_splits)

lemma plain_lower:
  assumes "plain_text s"
  shows "plain_text (py_lower s)"
proof -
  have "lower_char c \<noteq> d" if "c \<noteq> d" "(of_char d :: nat) < 97" for c d
    using lower_char_letter[of c] that by auto
  then have "lower_char c \<notin> {CHR ''%'', CHR ''_'', CHR 0x5C}" if "c \<notin> {CHR ''%'', CHR ''_'', CHR 0x5C}" for c
    using that by simp
  with assms show ?thesis unfolding plain_text_def py_lower_def by (simp add: image_iff) metis
qed

text \<open>
  The search by supplier or by facility finds exactly the rows whose text contains the searched one,
  in any case of letters, provided the searched text has no percent sign, underscore or backslash.
\<close>

theorem ilike_is_containment:
  assumes "plain_text s"
  shows "ilike (containing s) x \<longleftrightarrow> (\<exists>y. x = Some y \<and> sublist (py_lower s) (py_lower y))"
proof -
  have "lower_char CHR ''%'' = CHR ''%''" by code_simp
  then have low: "py_lower (containing s) = CHR ''%'' # py_lower s @ [CHR ''%'']"
    by (simp add: containing_def py_lower_def)
  have "like (py_lower s @ [CHR ''%'']) b \<longleftrightarrow> (\<exists>d. b = py_lower s @ d)" for b
    unfolding like_plain[OF plain_lower[OF assms]] using like_any by blast
  then have "like (py_lower (containing s)) z \<longleftrightarrow> sublist (py_lower s) z" for z
    unfolding low like_percent sublist_def by blast
  then show ?thesis by (cases x) (simp_all add: ilike_def)
qed

theorem ilike_is_containment_witness: "ilike (containing ''acme'') (Some ''The ACME Farm'')"
proof -
  have "py_lower ''The ACME Farm'' = ''the '' @ py_lower ''acme'' @ '' farm''" by code_simp
  then have "sublist (py_lower ''acme'') (py_lower ''The ACME Farm'')" unfolding sublist_def by blast
  moreover have "plain_text ''acme''" by (simp add: plain_text_def)
  ultimately show ?thesis using ilike_is_containment[of "''acme''" "Some ''The ACME Farm''"] by blast
qed

text \<open>With such a sign it finds more: the underscore stands for any character.\<close>

lemma search_underscore_is_wildcard: "ilike (containing ''lot_7'') (Some ''LOT-7'') \<and> \<not> sublist (py_lower ''lot_7'') (py_lower ''LOT-7'')"
proof
  show "ilike (containing ''lot_7'') (Some ''LOT-7'')" by code_simp
  show "\<not> sublist (py_lower ''lot_7'') (py_lower ''LOT-7'')" by code_simp
qed

end
