(* ===== verification/CanonicalEvent.thy ===== *)
theory CanonicalEvent
  imports Ftl PyDict
begin

text \<open>
  \<^verbatim>\<open>services/shared/canonical_event.py\<close>: the canonical traceability event, its preparation for storage, the dispatch on the
  schema version, and the normalisation of webhook events and CSV rows into it. The checks of the fields that the data-model
  library runs are the parameter \<open>ce_check\<close>; \<open>field_checks\<close> states what the class declares of them. The EPCIS documents are in
  \<^verbatim>\<open>EpcisCanonical\<close>.
\<close>

section \<open>Enumerations\<close>

datatype CTEType = Harvesting | Cooling | Initial_Packing | First_Land_Based_Receiving | Shipping | Receiving | Transformation

fun cte_value :: "CTEType \<Rightarrow> string" where
  "cte_value Harvesting = ''harvesting''"
| "cte_value Cooling = ''cooling''"
| "cte_value Initial_Packing = ''initial_packing''"
| "cte_value First_Land_Based_Receiving = ''first_land_based_receiving''"
| "cte_value Shipping = ''shipping''"
| "cte_value Receiving = ''receiving''"
| "cte_value Transformation = ''transformation''"

definition cte_types :: "CTEType list" where
  "cte_types = [Harvesting, Cooling, Initial_Packing, First_Land_Based_Receiving, Shipping, Receiving, Transformation]"

text \<open>\<open>CTEType(s)\<close>\<close>

definition cte_of :: "string \<Rightarrow> CTEType option" where
  "cte_of s = List.find (\<lambda>t. cte_value t = s) cte_types"

datatype EventStatus = Active | Superseded | Rejected | Draft

datatype IngestionSource =
    Webhook_Api | Csv_Upload | Xlsx_Upload | Epcis_Api | Epcis_Xml | Edi | Manual | Mobile_Capture | Supplier_Portal | Legacy_V002

fun source_value :: "IngestionSource \<Rightarrow> string" where
  "source_value Webhook_Api = ''webhook_api''"
| "source_value Csv_Upload = ''csv_upload''"
| "source_value Xlsx_Upload = ''xlsx_upload''"
| "source_value Epcis_Api = ''epcis_api''"
| "source_value Epcis_Xml = ''epcis_xml''"
| "source_value Edi = ''edi''"
| "source_value Manual = ''manual''"
| "source_value Mobile_Capture = ''mobile_capture''"
| "source_value Supplier_Portal = ''supplier_portal''"
| "source_value Legacy_V002 = ''legacy_v002''"

section \<open>The event\<close>

record ProvenanceMetadata =
  pm_source_file_name :: "string option"
  pm_mapper_name :: string
  pm_mapper_version :: string
  pm_rules_applied :: "string list"
  pm_original_format :: string

text \<open>
  The event as it is built and stored. The references are the values that the caller passed; the checks let texts and \<open>None\<close> through.
\<close>

record TraceabilityEvent =
  cv_event_id :: string
  cv_tenant_id :: string
  cv_schema_version :: int
  cv_source_system :: IngestionSource
  cv_source_record_id :: pyval
  cv_ingestion_run_id :: "string option"
  cv_event_type :: CTEType
  cv_event_timestamp :: pydatetime
  cv_event_timezone :: pyval
  cv_product_reference :: pyval
  cv_lot_reference :: pyval
  cv_traceability_lot_code :: string
  cv_quantity :: pyfloat
  cv_unit_of_measure :: string
  cv_from_entity :: pyval
  cv_to_entity :: pyval
  cv_from_facility :: pyval
  cv_to_facility :: pyval
  cv_transport :: pyval
  cv_kdes :: pydict
  cv_raw_payload :: pydict
  cv_normalized_payload :: pydict
  cv_provenance :: ProvenanceMetadata
  cv_status :: EventStatus
  cv_sha256_hash :: "string option"
  cv_idempotency_key :: "string option"
  cv_epcis_event_type :: pyval
  cv_epcis_action :: pyval
  cv_epcis_biz_step :: pyval

text \<open>
  The surroundings: runtime, digest, \<open>json.dumps\<close> with sorted keys, with sorted keys and no blanks, and plain (all ASCII), \<open>repr\<close>,
  \<open>dateutil\<close>, the two environment variables, the decoding of bytes, and the checks of the fields.
\<close>

record can_env =
  ce_rt :: pyrt
  ce_H :: "string \<Rightarrow> string"
  ce_json_sorted :: "pyval \<Rightarrow> string"
  ce_json_compact :: "pyval \<Rightarrow> string"
  ce_json_plain :: "pyval \<Rightarrow> string"
  ce_repr :: "pyval \<Rightarrow> string"
  ce_dateutil :: "string \<Rightarrow> py_error + pydatetime"
  ce_max_bytes :: "string option"
  ce_lossless :: "string option"
  ce_dec :: "nat list \<Rightarrow> string"
  ce_check :: "TraceabilityEvent \<Rightarrow> py_error option"

definition text_or_none :: "pyval \<Rightarrow> bool" where
  "text_or_none v = (case v of PStr _ \<Rightarrow> True | PNone \<Rightarrow> True | _ \<Rightarrow> False)"

text \<open>What the declarations of the class promise: \<open>min_length=3\<close>, \<open>ge=0\<close>, and optional texts.\<close>

definition field_checks :: "can_env \<Rightarrow> bool" where
  "field_checks env \<longleftrightarrow>
     (\<forall>ev. ce_check env ev = None \<longrightarrow>
        3 \<le> length (cv_traceability_lot_code ev) \<and> \<not> flt (cv_quantity ev) (Fin 0) \<and>
        list_all text_or_none [cv_product_reference ev, cv_lot_reference ev, cv_from_facility ev, cv_to_facility ev,
          cv_from_entity ev, cv_to_entity ev, cv_transport ev])"

section \<open>Size of the raw payload\<close>

definition raw_payload_default_max_bytes :: int where
  "raw_payload_default_max_bytes = 256 * 1024"

definition raw_payload_hard_ceiling_bytes :: int where
  "raw_payload_hard_ceiling_bytes = 1024 * 1024"

text \<open>\<open>int(s)\<close>\<close>

definition int_of_string :: "string \<Rightarrow> int option" where
  "int_of_string s =
     (let (neg, u) = split_sign (py_strip s); ds = filter (\<lambda>c. c \<noteq> CHR ''_'') u
      in if ds = [] \<or> \<not> underscores_ok False u \<or> \<not> list_all is_dec_digit ds then None
         else Some (if neg then - int (nat_of_digits ds) else int (nat_of_digits ds)))"

definition raw_payload_max_bytes :: "string option \<Rightarrow> int" where
  "raw_payload_max_bytes raw =
     (case raw of None \<Rightarrow> raw_payload_default_max_bytes
      | Some s \<Rightarrow>
          (case int_of_string s of None \<Rightarrow> raw_payload_default_max_bytes
           | Some v \<Rightarrow>
               if v \<le> 0 then raw_payload_default_max_bytes
               else if raw_payload_hard_ceiling_bytes < v then raw_payload_hard_ceiling_bytes else v))"

definition payload_too_large :: "int \<Rightarrow> int \<Rightarrow> py_error" where
  "payload_too_large sz max_bytes =
     ValueError (''raw_payload serialized size '' @ int_str sz @ '' bytes exceeds max '' @ int_str max_bytes @
       '' bytes (#1290). Set REGENGINE_RAW_PAYLOAD_MAX_BYTES to override, up to '' @ int_str raw_payload_hard_ceiling_bytes @ '' bytes.'')"

definition enforce_raw_payload_size :: "can_env \<Rightarrow> TraceabilityEvent \<Rightarrow> py_error + unit" where
  "enforce_raw_payload_size env ev =
     (if cv_raw_payload ev = [] then Inr ()
      else let max_bytes = raw_payload_max_bytes (ce_max_bytes env); sz = int (length (ce_json_plain env (PDict (cv_raw_payload ev))))
           in if max_bytes < sz then Inl (payload_too_large sz max_bytes) else Inr ())"

section \<open>Validators\<close>

definition schema_version :: int where
  "schema_version = 1"

definition known_versions :: "int list" where
  "known_versions = [1]"

definition legacy_schema_version_strings :: "string list" where
  "legacy_schema_version_strings = [''1.0.0'', ''1.0'', ''1'', ''v1'', ''v1.0'', ''v1.0.0'']"

definition coerce_schema_version :: "can_env \<Rightarrow> pyval \<Rightarrow> py_error + int" where
  "coerce_schema_version env v =
     (case v of
        PNone \<Rightarrow> Inr schema_version
      | PBool _ \<Rightarrow> Inl (ValueError (''schema_version must be int, got bool: '' @ ce_repr env v))
      | PInt i \<Rightarrow> Inr i
      | PFloat x \<Rightarrow>
          (case x of Fin q \<Rightarrow> if q = of_int \<lfloor>q\<rfloor> then Inr \<lfloor>q\<rfloor> else Inl (ValueError (''schema_version float not recognised: '' @ ce_repr env v))
           | _ \<Rightarrow> Inl (ValueError (''schema_version float not recognised: '' @ ce_repr env v)))
      | PStr s \<Rightarrow>
          if py_strip s \<in> set legacy_schema_version_strings then Inr 1
          else (case int_of_string (py_strip s) of Some i \<Rightarrow> Inr i
                | None \<Rightarrow> Inl (ValueError (''schema_version string not recognised: '' @ ce_repr env v)))
      | _ \<Rightarrow> Inl TypeError)"

definition in_utc :: "pydatetime \<Rightarrow> pydatetime" where
  "in_utc d = (case d of Datetime t None \<Rightarrow> Datetime t (Some 0) | _ \<Rightarrow> d)"

definition parse_event_timestamp :: "can_env \<Rightarrow> pyval \<Rightarrow> py_error + pydatetime" where
  "parse_event_timestamp env v =
     (case v of
        PDatetime d \<Rightarrow> Inr (in_utc d)
      | PStr s \<Rightarrow>
          let z = replace_char CHR ''Z'' ''+00:00'' s
          in (case rt_fromisoformat (ce_rt env) z of
                Inr d \<Rightarrow> Inr (in_utc d)
              | Inl (ValueError _) \<Rightarrow> and_then (ce_dateutil env z) (\<lambda>d. Inr (in_utc d))
              | Inl e \<Rightarrow> Inl e)
      | _ \<Rightarrow> Inl (ValueError (''Cannot parse timestamp: '' @ py_str (ce_rt env) v)))"

section \<open>Hashes and preparation\<close>

definition event_iso :: "can_env \<Rightarrow> pydatetime \<Rightarrow> string" where
  "event_iso env d = rt_isoformat (ce_rt env) (PDatetime d)"

definition text_or_empty :: "can_env \<Rightarrow> pyval \<Rightarrow> string" where
  "text_or_empty env v = (if truthy v then py_str (ce_rt env) v else [])"

definition compute_sha256_hash :: "can_env \<Rightarrow> TraceabilityEvent \<Rightarrow> string" where
  "compute_sha256_hash env ev =
     ce_H env (py_join ''|''
       [cv_event_id ev, cte_value (cv_event_type ev), cv_traceability_lot_code ev, text_or_empty env (cv_product_reference ev),
        py_str (ce_rt env) (PFloat (cv_quantity ev)), cv_unit_of_measure ev, text_or_empty env (cv_from_facility ev),
        text_or_empty env (cv_to_facility ev), event_iso env (cv_event_timestamp ev), ce_json_sorted env (PDict (cv_kdes ev))])"

definition idempotency_key_of :: "can_env \<Rightarrow> TraceabilityEvent \<Rightarrow> string" where
  "idempotency_key_of env ev =
     ce_H env (ce_json_compact env (PDict
       [(''event_type'', PStr (cte_value (cv_event_type ev))), (''tlc'', PStr (cv_traceability_lot_code ev)),
        (''timestamp'', PStr (event_iso env (cv_event_timestamp ev))), (''source'', PStr (source_value (cv_source_system ev))),
        (''from_facility'', py_or (cv_from_facility ev) (PStr [])), (''to_facility'', py_or (cv_to_facility ev) (PStr [])),
        (''kdes'', PDict (cv_kdes ev))]))"

definition build_normalized_payload :: "can_env \<Rightarrow> TraceabilityEvent \<Rightarrow> pydict" where
  "build_normalized_payload env ev =
     [(''event_id'', PStr (cv_event_id ev)), (''event_type'', PStr (cte_value (cv_event_type ev))),
      (''traceability_lot_code'', PStr (cv_traceability_lot_code ev)), (''product_reference'', cv_product_reference ev),
      (''lot_reference'', cv_lot_reference ev), (''quantity'', PFloat (cv_quantity ev)), (''unit_of_measure'', PStr (cv_unit_of_measure ev)),
      (''event_timestamp'', PStr (event_iso env (cv_event_timestamp ev))), (''event_timezone'', cv_event_timezone ev),
      (''from_entity_reference'', cv_from_entity ev), (''to_entity_reference'', cv_to_entity ev),
      (''from_facility_reference'', cv_from_facility ev), (''to_facility_reference'', cv_to_facility ev),
      (''transport_reference'', cv_transport ev), (''kdes'', PDict (cv_kdes ev)), (''schema_version'', PInt (cv_schema_version ev))]"

definition apply_ftl_hint :: "TraceabilityEvent \<Rightarrow> TraceabilityEvent" where
  "apply_ftl_hint ev =
     (if event_has_ftl_hint [(''kdes'', PDict (cv_kdes ev))] then ev
      else case infer_ftl_category_from_text (py_or (cv_product_reference ev) (dict_get (cv_kdes ev) ''product_description'' PNone)) of
             None \<Rightarrow> ev
           | Some c \<Rightarrow> ev\<lparr>cv_kdes := put ''ftl_covered'' (PBool True) (put ''ftl_category'' (PStr c) (cv_kdes ev))\<rparr>)"

definition sealed_event :: "can_env \<Rightarrow> TraceabilityEvent \<Rightarrow> TraceabilityEvent" where
  "sealed_event env ev =
     ev\<lparr>cv_sha256_hash := Some (compute_sha256_hash env ev), cv_idempotency_key := Some (idempotency_key_of env ev),
        cv_normalized_payload := build_normalized_payload env ev\<rparr>"

definition prepare_for_persistence :: "can_env \<Rightarrow> TraceabilityEvent \<Rightarrow> py_error + TraceabilityEvent" where
  "prepare_for_persistence env ev =
     and_then (enforce_raw_payload_size env ev) (\<lambda>_. Inr (sealed_event env (apply_ftl_hint ev)))"

section \<open>Construction and dispatch\<close>

text \<open>The constructor: the timestamp goes through its validator, then the checks of the fields decide.\<close>

definition make_event :: "can_env \<Rightarrow> pyval \<Rightarrow> TraceabilityEvent \<Rightarrow> py_error + TraceabilityEvent" where
  "make_event env ts ev =
     and_then (parse_event_timestamp env ts) (\<lambda>d.
       let ev1 = ev\<lparr>cv_event_timestamp := d\<rparr>
       in case ce_check env ev1 of None \<Rightarrow> Inr ev1 | Some e \<Rightarrow> Inl e)"

text \<open>
  A payload that came over the wire: a text or bytes of JSON, or a value. \<open>loads\<close> is \<open>json.loads\<close>: what it raises is a \<open>JSONDecodeError\<close>, given by
  its text, or another exception (of the decoding of the bytes, or of a number that is too long). \<open>validate\<close> is \<open>model_validate\<close>.
\<close>

datatype wire_payload = Wire_Text string | Wire_Bytes "nat list" | Wire_Value pyval

definition wire_document :: "(wire_payload \<Rightarrow> (string + py_error) + pyval) \<Rightarrow> wire_payload \<Rightarrow> py_error + pyval" where
  "wire_document loads payload =
     (case payload of
        Wire_Value (PDict d) \<Rightarrow> Inr (PDict d)
      | Wire_Value _ \<Rightarrow> Inl TypeError
      | _ \<Rightarrow> (case loads payload of
               Inr v \<Rightarrow> Inr v
             | Inl (Inl m) \<Rightarrow> Inl (ValueError (''traceability_event_payload_not_json: '' @ m))
             | Inl (Inr e) \<Rightarrow> Inl e))"

definition parse_traceability_event ::
  "can_env \<Rightarrow> (wire_payload \<Rightarrow> (string + py_error) + pyval) \<Rightarrow> (pydict \<Rightarrow> py_error + TraceabilityEvent) \<Rightarrow> wire_payload \<Rightarrow>
   py_error + TraceabilityEvent" where
  "parse_traceability_event env loads validate payload =
     and_then (wire_document loads payload)
       (\<lambda>raw. case raw of
          PDict d \<Rightarrow>
            let raw_version = dict_get d ''schema_version'' (PInt schema_version)
            in (case coerce_schema_version env raw_version of
                  Inl e \<Rightarrow> Inl (ValueError (''schema_version_unsupported:'' @ ce_repr env raw_version @ '' (coercion failed: '' @
                    rt_err_str (ce_rt env) e @ '')''))
                | Inr peeked \<Rightarrow>
                    if peeked \<notin> set known_versions then Inl (ValueError (''schema_version_unsupported:'' @ int_str peeked)) else validate d)
        | v \<Rightarrow> Inl (ValueError (''traceability_event_payload_not_object: got '' @ type_name v)))"

definition uuid_of :: "can_env \<Rightarrow> string \<Rightarrow> py_error + string" where
  "uuid_of env s = (case rt_pg_uuid (ce_rt env) s of Some u \<Rightarrow> Inr u | None \<Rightarrow> Inl (ValueError ''badly formed hexadecimal UUID string''))"

definition opt_uuid_of :: "can_env \<Rightarrow> string option \<Rightarrow> py_error + string option" where
  "opt_uuid_of env s = (if str_or s [] = [] then Inr None else and_then (uuid_of env (the s)) (\<lambda>u. Inr (Some u)))"

text \<open>An event with the defaults of the class.\<close>

definition blank_event :: "string \<Rightarrow> string \<Rightarrow> IngestionSource \<Rightarrow> CTEType \<Rightarrow> TraceabilityEvent" where
  "blank_event uid t src ty =
     \<lparr>cv_event_id = uid, cv_tenant_id = t, cv_schema_version = schema_version, cv_source_system = src, cv_source_record_id = PNone,
      cv_ingestion_run_id = None, cv_event_type = ty, cv_event_timestamp = Datetime 0 (Some 0), cv_event_timezone = PStr ''UTC'',
      cv_product_reference = PNone, cv_lot_reference = PNone, cv_traceability_lot_code = [], cv_quantity = Fin 0, cv_unit_of_measure = [],
      cv_from_entity = PNone, cv_to_entity = PNone, cv_from_facility = PNone, cv_to_facility = PNone, cv_transport = PNone, cv_kdes = [],
      cv_raw_payload = [], cv_normalized_payload = [],
      cv_provenance = \<lparr>pm_source_file_name = None, pm_mapper_name = ''unknown'', pm_mapper_version = ''1.0.0'', pm_rules_applied = [],
        pm_original_format = ''unknown''\<rparr>,
      cv_status = Active, cv_sha256_hash = None, cv_idempotency_key = None, cv_epcis_event_type = PNone, cv_epcis_action = PNone,
      cv_epcis_biz_step = PNone\<rparr>"

section \<open>Webhook events\<close>

record webhook_event =
  wh_cte_type :: string
  wh_traceability_lot_code :: string
  wh_product_description :: string
  wh_quantity :: pyfloat
  wh_unit_of_measure :: string
  wh_location_gln :: "string option"
  wh_location_name :: "string option"
  wh_timestamp :: pyval
  wh_kdes :: pydict
  wh_input_lots :: "pyval list"

definition set_default :: "string \<Rightarrow> pyval \<Rightarrow> pydict \<Rightarrow> pydict" where
  "set_default k v d = (if map_of d k = None then d @ [(k, v)] else d)"

definition webhook_raw_payload :: "string \<Rightarrow> webhook_event \<Rightarrow> pydict" where
  "webhook_raw_payload src e =
     [(''cte_type'', PStr (wh_cte_type e)), (''source'', PStr src), (''traceability_lot_code'', PStr (wh_traceability_lot_code e)),
      (''product_description'', PStr (wh_product_description e)), (''quantity'', PFloat (wh_quantity e)),
      (''unit_of_measure'', PStr (wh_unit_of_measure e)), (''location_gln'', opt_str (wh_location_gln e)),
      (''location_name'', opt_str (wh_location_name e)), (''timestamp'', wh_timestamp e), (''kdes'', PDict (wh_kdes e))] @
     (if wh_input_lots e = [] then [] else [(''input_traceability_lot_codes'', PList (wh_input_lots e))])"

definition webhook_kdes :: "string \<Rightarrow> webhook_event \<Rightarrow> pydict" where
  "webhook_kdes src e =
     (let kdes = set_default ''ingest_source'' (PStr src) (wh_kdes e)
      in if wh_input_lots e = [] then kdes else set_default ''input_lot_codes'' (PList (wh_input_lots e)) kdes)"

definition first_truthy :: "pyval list \<Rightarrow> pyval" where
  "first_truthy vs = foldr py_or (butlast vs) (last vs)"

text \<open>The facility a webhook event comes from and the one it goes to.\<close>

definition webhook_from :: "pydict \<Rightarrow> webhook_event \<Rightarrow> pyval" where
  "webhook_from kdes e =
     (let from = first_truthy [opt_str (wh_location_gln e), dict_get kdes ''ship_from_gln'' PNone, dict_get kdes ''ship_from_location'' PNone,
                   opt_str (wh_location_name e)]
      in if wh_cte_type e = ''shipping'' then py_or from (opt_str (wh_location_name e)) else from)"

definition webhook_to :: "pydict \<Rightarrow> webhook_event \<Rightarrow> pyval" where
  "webhook_to kdes e =
     (let to = first_truthy [dict_get kdes ''ship_to_gln'' PNone, dict_get kdes ''ship_to_location'' PNone, dict_get kdes ''receiving_location'' PNone]
      in if wh_cte_type e = ''receiving'' then first_truthy [to, opt_str (wh_location_name e), opt_str (wh_location_gln e)] else to)"

definition normalize_webhook_event ::
  "can_env \<Rightarrow> string \<Rightarrow> webhook_event \<Rightarrow> string \<Rightarrow> string \<Rightarrow> pydict option \<Rightarrow> string option \<Rightarrow> py_error + TraceabilityEvent" where
  "normalize_webhook_event env uid e t src raw run_id =
     (let kdes = webhook_kdes src e
      in and_then (uuid_of env t) (\<lambda>tenant. and_then (opt_uuid_of env run_id) (\<lambda>run.
         case cte_of (wh_cte_type e) of
           None \<Rightarrow> Inl (ValueError (ce_repr env (PStr (wh_cte_type e)) @ '' is not a valid CTEType''))
         | Some ty \<Rightarrow>
             and_then (make_event env (wh_timestamp e)
               ((blank_event uid tenant Webhook_Api ty)\<lparr>cv_ingestion_run_id := run,
                  cv_product_reference := PStr (wh_product_description e), cv_lot_reference := PStr (wh_traceability_lot_code e),
                  cv_traceability_lot_code := wh_traceability_lot_code e, cv_quantity := wh_quantity e,
                  cv_unit_of_measure := wh_unit_of_measure e, cv_from_facility := webhook_from kdes e, cv_to_facility := webhook_to kdes e,
                  cv_from_entity := first_truthy [dict_get kdes ''ship_from_entity'' PNone, dict_get kdes ''harvester_business_name'' PNone],
                  cv_to_entity := first_truthy [dict_get kdes ''ship_to_entity'' PNone, dict_get kdes ''immediate_previous_source'' PNone],
                  cv_transport := first_truthy [dict_get kdes ''carrier'' PNone, dict_get kdes ''transport_reference'' PNone],
                  cv_kdes := kdes, cv_raw_payload := (case raw of Some r \<Rightarrow> r | None \<Rightarrow> webhook_raw_payload src e),
                  cv_provenance := \<lparr>pm_source_file_name = None, pm_mapper_name = ''webhook_v2_normalizer'', pm_mapper_version = ''1.0.0'',
                    pm_rules_applied = [''webhook_kde_extraction'', ''facility_reference_mapping''], pm_original_format = ''json''\<rparr>\<rparr>))
               (prepare_for_persistence env))))"

section \<open>CSV rows\<close>

definition csv_cte_type_map :: "(string \<times> string) list" where
  "csv_cte_type_map =
     [(''harvest'', ''harvesting''), (''harvesting'', ''harvesting''), (''cool'', ''cooling''), (''cooling'', ''cooling''),
      (''pack'', ''initial_packing''), (''initial_packing'', ''initial_packing''), (''initial packing'', ''initial_packing''),
      (''first_land_based_receiving'', ''first_land_based_receiving''), (''ship'', ''shipping''), (''shipping'', ''shipping''),
      (''receive'', ''receiving''), (''receiving'', ''receiving''), (''transform'', ''transformation''), (''transformation'', ''transformation'')]"

definition nonblank :: "pyrt \<Rightarrow> pyval \<Rightarrow> bool" where
  "nonblank rt v \<longleftrightarrow> v \<noteq> PNone \<and> py_strip (py_str rt v) \<noteq> []"

text \<open>The mapped columns, and the others that hold something.\<close>

definition csv_mapped :: "(string \<times> string) list \<Rightarrow> pydict \<Rightarrow> pydict" where
  "csv_mapped mapping row = foldl (\<lambda>d (c, v). case map_of mapping c of Some f \<Rightarrow> put f v d | None \<Rightarrow> d) [] row"

definition csv_kdes :: "pyrt \<Rightarrow> (string \<times> string) list \<Rightarrow> pydict \<Rightarrow> pydict" where
  "csv_kdes rt mapping row = filter (\<lambda>(c, v). map_of mapping c = None \<and> nonblank rt v) row"

definition csv_first :: "pyrt \<Rightarrow> pydict \<Rightarrow> string list \<Rightarrow> pyval option" where
  "csv_first rt mapped names =
     map_option (\<lambda>k. dict_get mapped k PNone) (List.find (\<lambda>k. nonblank rt (dict_get mapped k PNone)) names)"

definition strip_text :: "pyrt \<Rightarrow> pyval \<Rightarrow> string" where
  "strip_text rt v = py_strip (py_str rt v)"

definition csv_event_type :: "pyrt \<Rightarrow> pydict \<Rightarrow> string option" where
  "csv_event_type rt mapped =
     (case csv_first rt mapped [''event_type''] of None \<Rightarrow> None
      | Some v \<Rightarrow> map_of csv_cte_type_map (py_strip (py_lower (py_str rt v))))"

definition csv_quantity :: "pyrt \<Rightarrow> pydict \<Rightarrow> pyfloat option" where
  "csv_quantity rt mapped =
     (case csv_first rt mapped [''quantity''] of None \<Rightarrow> None
      | Some v \<Rightarrow> (case float_of_string (strip_text rt v) of Inr x \<Rightarrow> Some x | Inl _ \<Rightarrow> None))"

definition csv_missing :: "pyrt \<Rightarrow> pydict \<Rightarrow> string list" where
  "csv_missing rt mapped =
     map hd (filter (\<lambda>names. csv_first rt mapped names = None)
       [[''event_type''], [''event_timestamp'', ''timestamp''], [''traceability_lot_code'', ''tlc''], [''quantity''], [''unit_of_measure'']])"

definition csv_invalid :: "can_env \<Rightarrow> pydict \<Rightarrow> string list" where
  "csv_invalid env mapped =
     (let rt = ce_rt env
      in (case csv_first rt mapped [''event_type''] of None \<Rightarrow> []
          | Some v \<Rightarrow> if csv_event_type rt mapped = None
              then [''event_type='' @ ce_repr env (PStr (strip_text rt v)) @
                ('' (accepted: cooling, first_land_based_receiving, harvesting, initial_packing, receiving, shipping, transformation)'')]
              else []) @
         (case csv_first rt mapped [''quantity''] of None \<Rightarrow> []
          | Some v \<Rightarrow> if csv_quantity rt mapped = None then [''quantity='' @ ce_repr env (PStr (strip_text rt v)) @ '' (not a number)''] else []))"

definition csv_error :: "nat option \<Rightarrow> string list \<Rightarrow> string list \<Rightarrow> py_error" where
  "csv_error row_number missing invalid =
     ValueError (''CSV '' @ (case row_number of Some n \<Rightarrow> ''row '' @ nat_str n | None \<Rightarrow> ''row'') @ '' cannot be normalized: '' @
       py_join '' | '' ((if missing = [] then [] else [''missing '' @ py_join '', '' missing]) @
         (if invalid = [] then [] else [''invalid '' @ py_join ''; '' invalid])))"

text \<open>\<open>mapped.get(a, mapped.get(b, ..))\<close>: the first of the names that is a key.\<close>

definition get_first_key :: "pydict \<Rightarrow> string list \<Rightarrow> pyval \<Rightarrow> pyval" where
  "get_first_key d ks dflt = foldr (\<lambda>k v. dict_get d k v) ks dflt"

definition csv_event ::
  "can_env \<Rightarrow> string \<Rightarrow> string \<Rightarrow> string option \<Rightarrow> string option \<Rightarrow> nat option \<Rightarrow> pydict \<Rightarrow> pydict \<Rightarrow> pydict \<Rightarrow> CTEType \<Rightarrow> pyfloat \<Rightarrow> TraceabilityEvent" where
  "csv_event env uid tenant run file_name row_number row mapped kdes ty q =
     (let rt = ce_rt env; tlc = strip_text rt (the (csv_first rt mapped [''traceability_lot_code'', ''tlc'']))
      in (blank_event uid tenant Csv_Upload ty)\<lparr>cv_ingestion_run_id := run,
           cv_source_record_id := (case row_number of Some n \<Rightarrow> PStr (nat_str n) | None \<Rightarrow> PNone),
           cv_product_reference := get_first_key mapped [''product_description'', ''product_reference''] (PStr []),
           cv_lot_reference := (case csv_first rt mapped [''lot_reference''] of Some v \<Rightarrow> py_or v (PStr tlc) | None \<Rightarrow> PStr tlc),
           cv_traceability_lot_code := tlc, cv_quantity := q,
           cv_unit_of_measure := py_lower (strip_text rt (the (csv_first rt mapped [''unit_of_measure'']))),
           cv_from_facility := get_first_key mapped [''from_facility_reference'', ''ship_from_location'', ''location_gln''] PNone,
           cv_to_facility := get_first_key mapped [''to_facility_reference'', ''ship_to_location''] PNone,
           cv_from_entity := dict_get mapped ''from_entity_reference'' PNone, cv_to_entity := dict_get mapped ''to_entity_reference'' PNone,
           cv_transport := get_first_key mapped [''transport_reference'', ''carrier''] PNone, cv_kdes := kdes, cv_raw_payload := row,
           cv_provenance := \<lparr>pm_source_file_name = file_name, pm_mapper_name = ''csv_normalizer'', pm_mapper_version = ''1.1.0'',
             pm_rules_applied = [''csv_column_mapping''], pm_original_format = ''csv''\<rparr>\<rparr>)"

definition normalize_csv_row ::
  "can_env \<Rightarrow> string \<Rightarrow> pydict \<Rightarrow> string \<Rightarrow> (string \<times> string) list \<Rightarrow> string option \<Rightarrow> string option \<Rightarrow> nat option \<Rightarrow> py_error + TraceabilityEvent" where
  "normalize_csv_row env uid row t mapping run_id file_name row_number =
     (let rt = ce_rt env; mapped = csv_mapped mapping row; kdes = csv_kdes rt mapping row;
          missing = csv_missing rt mapped; invalid = csv_invalid env mapped
      in if missing \<noteq> [] \<or> invalid \<noteq> [] then Inl (csv_error row_number missing invalid)
         else and_then (uuid_of env t) (\<lambda>tenant. and_then (opt_uuid_of env run_id) (\<lambda>run.
           case cte_of (the (csv_event_type rt mapped)) of
             None \<Rightarrow> Inl (ValueError '' is not a valid CTEType'')
           | Some ty \<Rightarrow>
               and_then (make_event env (the (csv_first rt mapped [''event_timestamp'', ''timestamp'']))
                   (csv_event env uid tenant run file_name row_number row mapped kdes ty (the (csv_quantity rt mapped))))
                 (prepare_for_persistence env))))"

section \<open>Preparation\<close>

lemma hint_paths:
  "event_has_ftl_hint [(''kdes'', PDict k)] \<longleftrightarrow> dict_get k ''ftl_covered'' PNone \<noteq> PNone \<or> dict_get k ''ftl_category'' PNone \<noteq> PNone"
proof -
  have s: "split_dot ''kdes.ftl_covered'' = [''kdes'', ''ftl_covered'']" "split_dot ''ftl_covered'' = [''ftl_covered'']"
    "split_dot ''product.ftl_covered'' = [''product'', ''ftl_covered'']" "split_dot ''kdes.ftl_category'' = [''kdes'', ''ftl_category'']"
    "split_dot ''ftl_category'' = [''ftl_category'']" "split_dot ''product.category'' = [''product'', ''category'']"
    "split_dot ''product_category'' = [''product_category'']"
    by code_simp+
  show ?thesis
    by (simp add: event_has_ftl_hint_def covered_paths_def category_paths_def get_nested_value_def s dict_get_def)
qed

lemma sealed_fields [simp]:
  "cv_kdes (sealed_event env ev) = cv_kdes ev" "cv_product_reference (sealed_event env ev) = cv_product_reference ev"
  "cv_raw_payload (sealed_event env ev) = cv_raw_payload ev" "compute_sha256_hash env (sealed_event env ev) = compute_sha256_hash env ev"
  "idempotency_key_of env (sealed_event env ev) = idempotency_key_of env ev"
  "build_normalized_payload env (sealed_event env ev) = build_normalized_payload env ev"
  by (simp_all add: sealed_event_def compute_sha256_hash_def idempotency_key_of_def build_normalized_payload_def)

lemma sealed_again: "sealed_event env (sealed_event env ev) = sealed_event env ev"
proof -
  have "sealed_event env (sealed_event env ev) =
      (sealed_event env ev)\<lparr>cv_sha256_hash := Some (compute_sha256_hash env ev), cv_idempotency_key := Some (idempotency_key_of env ev),
        cv_normalized_payload := build_normalized_payload env ev\<rparr>"
    by (simp add: sealed_event_def[of env "sealed_event env ev"])
  then show ?thesis by (simp add: sealed_event_def)
qed

lemma hint_raw [simp]: "cv_raw_payload (apply_ftl_hint ev) = cv_raw_payload ev"
  by (simp add: apply_ftl_hint_def split: option.split)

lemma hint_sealed: "apply_ftl_hint (sealed_event env ev) = sealed_event env ev" if "apply_ftl_hint ev = ev"
proof (cases "event_has_ftl_hint [(''kdes'', PDict (cv_kdes ev))]")
  case False
  with that have "infer_ftl_category_from_text (py_or (cv_product_reference ev) (dict_get (cv_kdes ev) ''product_description'' PNone)) = None"
  proof (cases "infer_ftl_category_from_text (py_or (cv_product_reference ev) (dict_get (cv_kdes ev) ''product_description'' PNone))")
    case (Some c)
    with False that have "cv_kdes ev = put ''ftl_covered'' (PBool True) (put ''ftl_category'' (PStr c) (cv_kdes ev))"
      by (auto simp: apply_ftl_hint_def dest: arg_cong[of _ _ cv_kdes])
    then have "map_of (cv_kdes ev) ''ftl_covered'' = Some (PBool True)" by (metis map_of_put fun_upd_same)
    with False show ?thesis by (simp add: hint_paths dict_get_def)
  qed
  with False show ?thesis by (simp add: apply_ftl_hint_def)
qed (simp add: apply_ftl_hint_def)

lemma hint_again: "apply_ftl_hint (apply_ftl_hint ev) = apply_ftl_hint ev"
proof (cases "infer_ftl_category_from_text (py_or (cv_product_reference ev) (dict_get (cv_kdes ev) ''product_description'' PNone))")
  case None
  then show ?thesis by (simp add: apply_ftl_hint_def)
next
  case (Some c)
  have "event_has_ftl_hint [(''kdes'', PDict (put ''ftl_covered'' (PBool True) (put ''ftl_category'' (PStr c) (cv_kdes ev))))]"
    by (simp add: hint_paths dict_get_def)
  with Some show ?thesis by (simp add: apply_ftl_hint_def)
qed

lemma prepare_Inr:
  "prepare_for_persistence env ev = Inr ev' \<longleftrightarrow> enforce_raw_payload_size env ev = Inr () \<and> ev' = sealed_event env (apply_ftl_hint ev)"
  by (auto simp: prepare_for_persistence_def and_then_def split: sum.splits)

lemma max_bytes_bounds: "1 \<le> raw_payload_max_bytes raw \<and> raw_payload_max_bytes raw \<le> raw_payload_hard_ceiling_bytes"
  by (auto simp: raw_payload_max_bytes_def raw_payload_default_max_bytes_def raw_payload_hard_ceiling_bytes_def split: option.split)

text \<open>
  Claim C16 (roundtrip). A prepared event verifies against itself: its stored hash and its stored idempotency key are those recomputed from the stored
  event, the KDEs with the inferred classification included, and preparing it again changes nothing.
\<close>

theorem prepared_event_verifies:
  assumes "prepare_for_persistence env ev = Inr ev'"
  shows "cv_sha256_hash ev' = Some (compute_sha256_hash env ev') \<and> cv_idempotency_key ev' = Some (idempotency_key_of env ev') \<and>
    cv_normalized_payload ev' = build_normalized_payload env ev' \<and> prepare_for_persistence env ev' = Inr ev'"
proof -
  from assms have sz: "enforce_raw_payload_size env ev = Inr ()" and ev': "ev' = sealed_event env (apply_ftl_hint ev)"
    by (simp_all add: prepare_Inr)
  have "enforce_raw_payload_size env ev' = Inr ()" using sz unfolding ev' by (simp only: enforce_raw_payload_size_def sealed_fields hint_raw)
  moreover have "sealed_event env (apply_ftl_hint ev') = ev'" by (simp add: ev' hint_sealed hint_again sealed_again)
  ultimately have "prepare_for_persistence env ev' = Inr ev'" by (simp add: prepare_Inr)
  moreover have "cv_sha256_hash ev' = Some (compute_sha256_hash env ev')" "cv_idempotency_key ev' = Some (idempotency_key_of env ev')"
    "cv_normalized_payload ev' = build_normalized_payload env ev'"
    unfolding ev' sealed_fields by (simp_all add: sealed_event_def)
  ultimately show ?thesis by simp
qed

text \<open>
  The inferred classification never overrides the caller: every KDE that holds a value keeps it, a KDE is added only when the
  caller gave no classification and the product text names a listed food, and an accepted raw payload is within the configured size, which no
  setting lifts above one mebibyte.
\<close>

theorem preparation_respects_caller:
  assumes "prepare_for_persistence env ev = Inr ev'"
  shows "(\<forall>k. dict_get (cv_kdes ev) k PNone \<noteq> PNone \<longrightarrow> dict_get (cv_kdes ev') k PNone = dict_get (cv_kdes ev) k PNone) \<and>
    (cv_kdes ev' \<noteq> cv_kdes ev \<longrightarrow> \<not> event_has_ftl_hint [(''kdes'', PDict (cv_kdes ev))] \<and>
       dict_get (cv_kdes ev') ''ftl_category'' PNone \<in> PStr ` set ftl_category_names) \<and>
    (cv_raw_payload ev' \<noteq> [] \<longrightarrow> length (ce_json_plain env (PDict (cv_raw_payload ev'))) \<le> 1048576)"
proof -
  from assms have sz: "enforce_raw_payload_size env ev = Inr ()" and ev': "ev' = sealed_event env (apply_ftl_hint ev)"
    by (simp_all add: prepare_Inr)
  have "int (length (ce_json_plain env (PDict (cv_raw_payload ev')))) \<le> 1048576" if "cv_raw_payload ev' \<noteq> []"
    using sz that max_bytes_bounds[of "ce_max_bytes env"]
    by (simp add: ev' enforce_raw_payload_size_def Let_def raw_payload_hard_ceiling_bytes_def split: if_splits)
  then have size: "cv_raw_payload ev' \<noteq> [] \<longrightarrow> length (ce_json_plain env (PDict (cv_raw_payload ev'))) \<le> 1048576" by simp
  show ?thesis
  proof (cases "cv_kdes (apply_ftl_hint ev) = cv_kdes ev")
    case True
    then show ?thesis using size by (simp add: ev')
  next
    case False
    then obtain c where h: "\<not> event_has_ftl_hint [(''kdes'', PDict (cv_kdes ev))]"
      and c: "infer_ftl_category_from_text (py_or (cv_product_reference ev) (dict_get (cv_kdes ev) ''product_description'' PNone)) = Some c"
      and k: "cv_kdes (apply_ftl_hint ev) = put ''ftl_covered'' (PBool True) (put ''ftl_category'' (PStr c) (cv_kdes ev))"
      by (auto simp: apply_ftl_hint_def split: if_splits option.splits)
    have "c \<in> set ftl_category_names"
    proof -
      have table: "list_all (\<lambda>(k, cat). cat \<in> set ftl_category_names) ftl_keyword_categories"
        by (simp add: ftl_keyword_categories_def ftl_category_names_def)
      from c obtain kc where "kc \<in> set ftl_keyword_categories" "c = snd kc"
        by (auto simp: infer_ftl_category_from_text_def find_Some_iff split: option.splits) (metis nth_mem snd_conv)
      with table show ?thesis by (auto simp: list_all_iff)
    qed
    then show ?thesis using size h by (auto simp: ev' k dict_get_def hint_paths)
  qed
qed

section \<open>What normalisation may say\<close>

lemma csv_complete:
  assumes "csv_missing rt mapped = []"
  shows "csv_first rt mapped [''event_type''] \<noteq> None" "csv_first rt mapped [''event_timestamp'', ''timestamp''] \<noteq> None"
    "csv_first rt mapped [''traceability_lot_code'', ''tlc''] \<noteq> None" "csv_first rt mapped [''quantity''] \<noteq> None"
    "csv_first rt mapped [''unit_of_measure''] \<noteq> None"
  using assms by (auto simp: csv_missing_def split: if_splits)

lemma prepare_keeps:
  assumes "prepare_for_persistence env ev = Inr ev'"
  shows "cv_traceability_lot_code ev' = cv_traceability_lot_code ev" "cv_quantity ev' = cv_quantity ev"
    "cv_unit_of_measure ev' = cv_unit_of_measure ev" "cv_event_type ev' = cv_event_type ev" "cv_raw_payload ev' = cv_raw_payload ev"
    "cv_event_timestamp ev' = cv_event_timestamp ev" "cv_tenant_id ev' = cv_tenant_id ev"
proof -
  have e: "ev' = sealed_event env (apply_ftl_hint ev)" using assms by (simp add: prepare_Inr)
  show "cv_traceability_lot_code ev' = cv_traceability_lot_code ev" "cv_quantity ev' = cv_quantity ev"
    "cv_unit_of_measure ev' = cv_unit_of_measure ev" "cv_event_type ev' = cv_event_type ev" "cv_raw_payload ev' = cv_raw_payload ev"
    "cv_event_timestamp ev' = cv_event_timestamp ev" "cv_tenant_id ev' = cv_tenant_id ev"
    unfolding e by (simp_all add: sealed_event_def apply_ftl_hint_def split: option.split)
qed

lemma make_Inr:
  "make_event env ts ev = Inr ev' \<longleftrightarrow> (\<exists>d. parse_event_timestamp env ts = Inr d \<and> ev' = ev\<lparr>cv_event_timestamp := d\<rparr> \<and> ce_check env ev' = None)"
  by (auto simp: make_event_def and_then_def Let_def split: sum.splits option.splits)

text \<open>
  A CSV row is never completed: a row that is accepted has its event type, timestamp, lot code, quantity and unit in cells that are
  not blank, and the event carries exactly those, the type through the table of accepted names, with the row as its raw
  payload; the lot code has three characters or more and the quantity is not negative.
\<close>

theorem csv_row_not_completed:
  assumes "field_checks env" "normalize_csv_row env uid row t mapping run_id file_name row_number = Inr ev"
  shows "\<exists>ty ts tlc q uom. let rt = ce_rt env; mapped = csv_mapped mapping row in
    csv_first rt mapped [''event_type''] = Some ty \<and>
      map_of csv_cte_type_map (py_strip (py_lower (py_str rt ty))) = Some (cte_value (cv_event_type ev)) \<and>
    csv_first rt mapped [''event_timestamp'', ''timestamp''] = Some ts \<and> parse_event_timestamp env ts = Inr (cv_event_timestamp ev) \<and>
    csv_first rt mapped [''traceability_lot_code'', ''tlc''] = Some tlc \<and> cv_traceability_lot_code ev = strip_text rt tlc \<and>
    csv_first rt mapped [''quantity''] = Some q \<and> float_of_string (strip_text rt q) = Inr (cv_quantity ev) \<and>
    csv_first rt mapped [''unit_of_measure''] = Some uom \<and> cv_unit_of_measure ev = py_lower (strip_text rt uom) \<and>
    cv_raw_payload ev = row \<and> 3 \<le> length (cv_traceability_lot_code ev) \<and> \<not> flt (cv_quantity ev) (Fin 0)"
proof -
  let ?rt = "ce_rt env" and ?m = "csv_mapped mapping row"
  let ?kdes = "csv_kdes ?rt mapping row"
  have none: "csv_missing ?rt ?m = []" "csv_invalid env ?m = []"
    using assms(2) by (auto simp: normalize_csv_row_def Let_def split: if_splits)
  then obtain ty ts tlc q uom where f: "csv_first ?rt ?m [''event_type''] = Some ty"
    "csv_first ?rt ?m [''event_timestamp'', ''timestamp''] = Some ts" "csv_first ?rt ?m [''traceability_lot_code'', ''tlc''] = Some tlc"
    "csv_first ?rt ?m [''quantity''] = Some q" "csv_first ?rt ?m [''unit_of_measure''] = Some uom"
    using csv_complete[OF none(1)] by auto
  with none(2) have "csv_event_type ?rt ?m \<noteq> None" "csv_quantity ?rt ?m \<noteq> None"
    by (auto simp: csv_invalid_def Let_def split: if_splits)
  then obtain cty x where c: "csv_event_type ?rt ?m = Some cty" and x: "csv_quantity ?rt ?m = Some x" by auto
  from assms(2) none obtain tenant run cte ev1 where cte: "cte_of cty = Some cte"
    and made: "make_event env ts (csv_event env uid tenant run file_name row_number row ?m ?kdes cte x) = Inr ev1"
    and prep: "prepare_for_persistence env ev1 = Inr ev"
    by (auto simp: normalize_csv_row_def Let_def and_then_def f c x split: sum.splits option.splits)
  have v: "cte_value cte = cty" using cte by (auto simp: cte_of_def find_Some_iff)
  from made obtain d where d: "parse_event_timestamp env ts = Inr d"
    and ev1: "ev1 = (csv_event env uid tenant run file_name row_number row ?m ?kdes cte x)\<lparr>cv_event_timestamp := d\<rparr>"
    and chk: "ce_check env ev1 = None"
    unfolding make_Inr by blast
  have "3 \<le> length (cv_traceability_lot_code ev1) \<and> \<not> flt (cv_quantity ev1) (Fin 0)"
    using assms(1) chk by (simp add: field_checks_def)
  moreover have "map_of csv_cte_type_map (py_strip (py_lower (py_str ?rt ty))) = Some cty" using c f(1) by (simp add: csv_event_type_def)
  moreover have "float_of_string (strip_text ?rt q) = Inr x" using x f(4) by (auto simp: csv_quantity_def split: sum.splits)
  moreover have "cv_event_type ev1 = cte" "cv_quantity ev1 = x" "cv_traceability_lot_code ev1 = strip_text ?rt tlc"
    "cv_unit_of_measure ev1 = py_lower (strip_text ?rt uom)" "cv_raw_payload ev1 = row" "cv_event_timestamp ev1 = d"
    by (simp_all add: ev1 csv_event_def blank_event_def Let_def f)
  ultimately show ?thesis
    unfolding Let_def prepare_keeps[OF prep] using f d v by (intro exI[of _ ty] exI[of _ ts] exI[of _ tlc] exI[of _ q] exI[of _ uom]) simp
qed

definition sample_can_env :: can_env where
  "sample_can_env = \<lparr>ce_rt = example_rt, ce_H = (\<lambda>s. ''h'' @ s), ce_json_sorted = (\<lambda>_. ''{}''), ce_json_compact = (\<lambda>_. ''{}''),
     ce_json_plain = (\<lambda>_. ''{}''), ce_repr = py_str example_rt, ce_dateutil = (\<lambda>_. Inr (Datetime 0 None)), ce_max_bytes = None,
     ce_lossless = None, ce_dec = (\<lambda>_. []),
     ce_check = (\<lambda>ev. if 3 \<le> length (cv_traceability_lot_code ev) \<and> \<not> flt (cv_quantity ev) (Fin 0) \<and>
        list_all text_or_none [cv_product_reference ev, cv_lot_reference ev, cv_from_facility ev, cv_to_facility ev,
          cv_from_entity ev, cv_to_entity ev, cv_transport ev] then None else Some (ValueError ''validation error''))\<rparr>"

lemma sample_field_checks: "field_checks sample_can_env"
  by (simp add: field_checks_def sample_can_env_def)

definition is_Inr :: "'a + 'b \<Rightarrow> bool" where
  "is_Inr r = (case r of Inr _ \<Rightarrow> True | Inl _ \<Rightarrow> False)"

lemma is_InrD: "is_Inr r \<Longrightarrow> \<exists>x. r = Inr x"
  by (auto simp: is_Inr_def split: sum.splits)

definition sample_csv_row :: pydict where
  "sample_csv_row = [(''Type'', PStr '' Ship ''), (''When'', PStr ''2026-01-01''), (''Lot'', PStr ''LOT1''), (''Qty'', PStr ''4''), (''Unit'', PStr ''Case'')]"

definition sample_mapping :: "(string \<times> string) list" where
  "sample_mapping = [(''Type'', ''event_type''), (''When'', ''timestamp''), (''Lot'', ''tlc''), (''Qty'', ''quantity''), (''Unit'', ''unit_of_measure'')]"

theorem csv_row_not_completed_witness:
  "\<exists>ev. normalize_csv_row sample_can_env ''u1'' sample_csv_row ''t1'' sample_mapping None None (Some 7) = Inr ev \<and> 3 \<le> length (cv_traceability_lot_code ev)"
proof -
  have "is_Inr (normalize_csv_row sample_can_env ''u1'' sample_csv_row ''t1'' sample_mapping None None (Some 7))" by code_simp
  then obtain ev where ev: "normalize_csv_row sample_can_env ''u1'' sample_csv_row ''t1'' sample_mapping None None (Some 7) = Inr ev" using is_InrD by blast
  from csv_row_not_completed[OF sample_field_checks ev] show ?thesis using ev by (auto simp: Let_def)
qed

definition sample_event_in :: TraceabilityEvent where
  "sample_event_in = (blank_event ''u1'' ''t1'' Csv_Upload Shipping)\<lparr>cv_product_reference := PStr ''Fresh Cucumbers'', cv_raw_payload := sample_csv_row\<rparr>"

theorem prepared_event_verifies_witness:
  "\<exists>ev. prepare_for_persistence sample_can_env sample_event_in = Inr ev \<and> cv_sha256_hash ev = Some (compute_sha256_hash sample_can_env ev)"
proof -
  have "is_Inr (prepare_for_persistence sample_can_env sample_event_in)" by code_simp
  then obtain ev where "prepare_for_persistence sample_can_env sample_event_in = Inr ev" using is_InrD by blast
  with prepared_event_verifies[OF this] show ?thesis by blast
qed

theorem preparation_respects_caller_witness:
  "\<exists>ev. prepare_for_persistence sample_can_env sample_event_in = Inr ev \<and>
     length (ce_json_plain sample_can_env (PDict (cv_raw_payload ev))) \<le> 1048576"
proof -
  have "is_Inr (prepare_for_persistence sample_can_env sample_event_in)" by code_simp
  then obtain ev where ev: "prepare_for_persistence sample_can_env sample_event_in = Inr ev" using is_InrD by blast
  moreover have "cv_raw_payload ev \<noteq> []" using prepare_keeps(5)[OF ev] by (simp add: sample_event_in_def sample_csv_row_def)
  ultimately show ?thesis using preparation_respects_caller[OF ev] by blast
qed

text \<open>
  An event is read from the wire only when its document is an object whose version, absent, null, a number or a text, stands for the one version
  that is known, and the validation of the fields accepts it.
\<close>

lemma parsed_version_known:
  assumes "parse_traceability_event env loads validate payload = Inr ev"
  shows "\<exists>d. wire_document loads payload = Inr (PDict d) \<and> validate d = Inr ev \<and>
    (case dict_get d ''schema_version'' (PInt schema_version) of
       PNone \<Rightarrow> True | PInt i \<Rightarrow> i = 1 | PFloat x \<Rightarrow> x = Fin 1
     | PStr s \<Rightarrow> py_strip s \<in> set legacy_schema_version_strings \<or> int_of_string (py_strip s) = Some 1
     | _ \<Rightarrow> False)"
proof -
  obtain raw where raw: "wire_document loads payload = Inr raw"
    using assms by (auto simp: parse_traceability_event_def and_then_eq_Inr_iff)
  obtain d where d: "wire_document loads payload = Inr (PDict d)" "validate d = Inr ev"
    and v: "coerce_schema_version env (dict_get d ''schema_version'' (PInt schema_version)) = Inr 1"
    using assms raw by (cases raw) (auto simp: parse_traceability_event_def and_then_def Let_def known_versions_def split: sum.splits if_splits)
  have "case w of PNone \<Rightarrow> True | PInt i \<Rightarrow> i = 1 | PFloat x \<Rightarrow> x = Fin 1
      | PStr s \<Rightarrow> py_strip s \<in> set legacy_schema_version_strings \<or> int_of_string (py_strip s) = Some 1 | _ \<Rightarrow> False"
    if "coerce_schema_version env w = Inr 1" for w
    using that by (cases w) (auto simp: coerce_schema_version_def split: if_splits option.splits pyfloat.splits)
  from this[OF v] d show ?thesis by blast
qed

text \<open>
  A receiving event records the place it happens at as the place it comes from: the GLN of the event goes before the ship-from KDEs.
\<close>

lemma receiving_comes_from_itself:
  "webhook_from [(''ship_from_gln'', PStr ''0614141000005'')]
     \<lparr>wh_cte_type = ''receiving'', wh_traceability_lot_code = ''LOT1'', wh_product_description = ''x'', wh_quantity = Fin 1, wh_unit_of_measure = ''case'',
      wh_location_gln = Some ''0614141000012'', wh_location_name = Some ''Dock'', wh_timestamp = PNone, wh_kdes = [], wh_input_lots = []\<rparr> =
   PStr ''0614141000012''"
  by code_simp

end
