(* ===== verification/LotIdentity.thy ===== *)
theory LotIdentity
  imports FsmaValidation
begin

text \<open>
  \<^verbatim>\<open>services/shared/epcis_lot_identity.py\<close>: the identity of a lot in an EPCIS document, as a full class URI (an LGTIN or
  a GS1 Digital Link) or as a bare token. The regular expressions are written as parsers. \<open>unquote\<close> and \<open>quote\<close> of the
  standard library are modelled on Latin-1 texts; how bytes that are not ASCII decode is the parameter \<open>dec\<close>.
\<close>

section \<open>Percent encoding (urllib.parse)\<close>

definition hex_value :: "char \<Rightarrow> nat option" where
  "hex_value c =
     (let n = ord c
      in if 48 \<le> n \<and> n \<le> 57 then Some (n - 48) else if 65 \<le> n \<and> n \<le> 70 then Some (n - 55)
         else if 97 \<le> n \<and> n \<le> 102 then Some (n - 87) else None)"

definition hex_digit :: "nat \<Rightarrow> char" where
  "hex_digit n = char_of (if n < 10 then 48 + n else 55 + n)"

fun pct_decode :: "string \<Rightarrow> nat list" where
  "pct_decode [] = []"
| "pct_decode (c # a # b # cs) =
     (case (c = CHR ''%'', hex_value a, hex_value b) of
        (True, Some x, Some y) \<Rightarrow> (16 * x + y) # pct_decode cs
      | _ \<Rightarrow> ord c # pct_decode (a # b # cs))"
| "pct_decode (c # cs) = ord c # pct_decode cs"

definition decode_bytes :: "(nat list \<Rightarrow> string) \<Rightarrow> nat list \<Rightarrow> string" where
  "decode_bytes dec bs = (if list_all (\<lambda>b. b < 128) bs then map char_of bs else dec bs)"

definition is_ascii :: "char \<Rightarrow> bool" where
  "is_ascii c \<longleftrightarrow> ord c < 128"

text \<open>Each run of ASCII characters is decoded on its own.\<close>

function unquote_runs :: "(nat list \<Rightarrow> string) \<Rightarrow> string \<Rightarrow> string" where
  "unquote_runs dec [] = []"
| "unquote_runs dec (c # cs) =
     (if is_ascii c then decode_bytes dec (pct_decode (c # takeWhile is_ascii cs)) @ unquote_runs dec (dropWhile is_ascii cs)
      else c # unquote_runs dec cs)"
  by pat_completeness auto
termination by (relation "measure (length \<circ> snd)") (auto simp: le_imp_less_Suc length_dropWhile_le)

definition unquote :: "(nat list \<Rightarrow> string) \<Rightarrow> string \<Rightarrow> string" where
  "unquote dec s = (if CHR ''%'' \<in> set s then unquote_runs dec s else s)"

definition quote_safe :: "char \<Rightarrow> bool" where
  "quote_safe c \<longleftrightarrow> is_ascii_alpha c \<or> is_dec_digit c \<or> c \<in> {CHR ''_'', CHR ''-'', CHR ''.'', CHR ''~''}"

definition utf8 :: "nat \<Rightarrow> nat list" where
  "utf8 n = (if n < 128 then [n] else [192 + n div 64, 128 + n mod 64])"

definition quote_char :: "char \<Rightarrow> string" where
  "quote_char c =
     (if quote_safe c then [c] else concat (map (\<lambda>b. [CHR ''%'', hex_digit (b div 16), hex_digit (b mod 16)]) (utf8 (ord c))))"

definition quote :: "string \<Rightarrow> string" where
  "quote s = concat (map quote_char s)"

section \<open>GTINs\<close>

text \<open>Written out from the left: the digits at the even places count three times.\<close>

definition lot_check_digit :: "string \<Rightarrow> string" where
  "lot_check_digit ds =
     int_str ((10 - sum_list (map (\<lambda>(i, c). digit_val c * (if even i then 3 else 1)) (List.enumerate 0 ds)) mod 10) mod 10)"

definition company_item_to_gtin14 :: "string \<Rightarrow> string \<Rightarrow> string option" where
  "company_item_to_gtin14 company item =
     (if \<not> py_isdigit company \<or> \<not> py_isdigit item \<or> item = [] then None
      else if length company + length item \<noteq> 13 then None
      else let digits13 = hd item # company @ tl item
           in if length digits13 \<noteq> 13 then None else Some (digits13 @ lot_check_digit digits13))"

text \<open>The check digit is computed and compared, and the digits are returned either way.\<close>

definition normalize_gtin14 :: "string option \<Rightarrow> string option" where
  "normalize_gtin14 raw =
     (let digits = strip_nondigits (str_or raw [])
      in if digits = [] then None
         else if length digits < 8 \<or> 14 < length digits then None
         else Some (py_zfill 14 digits))"

section \<open>Class URIs\<close>

record LotIdentity =
  li_canonical_id :: string
  li_lot_token :: string
  li_gtin :: "string option"
  li_is_full_class_uri :: bool

text \<open>A prefix, in any case of letters, and what follows it.\<close>

definition after_prefix :: "string \<Rightarrow> string \<Rightarrow> string option" where
  "after_prefix pre s = (if take (length pre) (py_lower s) = pre then Some (drop (length pre) s) else None)"

text \<open>\<open>(\d+)\.\<close>\<close>

definition digits_dot :: "string \<Rightarrow> (string \<times> string) option" where
  "digits_dot s =
     (let d = takeWhile is_dec_digit s; r = dropWhile is_dec_digit s
      in if d = [] \<or> r = [] \<or> hd r \<noteq> CHR ''.'' then None else Some (d, tl r))"

definition match_epc :: "string \<Rightarrow> string \<Rightarrow> (string \<times> string \<times> string) option" where
  "match_epc pre s =
     (case after_prefix pre s of None \<Rightarrow> None
      | Some r \<Rightarrow>
     (case digits_dot r of None \<Rightarrow> None
      | Some (company, r1) \<Rightarrow>
     (case digits_dot r1 of None \<Rightarrow> None
      | Some (item, lot) \<Rightarrow> if lot = [] \<or> CHR 0x0A \<in> set lot then None else Some (company, item, lot))))"

definition lgtin_prefix :: string where
  "lgtin_prefix = ''urn:epc:class:lgtin:''"

definition sgtin_prefix :: string where
  "sgtin_prefix = ''urn:epc:id:sgtin:''"

definition digital_link_prefix :: string where
  "digital_link_prefix = ''https://id.gs1.org/01/''"

definition match_digital_link :: "string \<Rightarrow> (string \<times> string) option" where
  "match_digital_link s =
     (case after_prefix digital_link_prefix s of None \<Rightarrow> None
      | Some r \<Rightarrow>
          let g = takeWhile is_dec_digit r; r1 = dropWhile is_dec_digit r
          in if length g < 8 \<or> 14 < length g then None
             else case after_prefix ''/10/'' r1 of None \<Rightarrow> None
                  | Some lot \<Rightarrow>
                      if lot = [] \<or> list_ex (\<lambda>c. c \<in> {CHR ''/'', CHR ''?'', CHR ''#''}) lot then None else Some (g, lot))"

definition parse_class_uri :: "(nat list \<Rightarrow> string) \<Rightarrow> pyval \<Rightarrow> LotIdentity option" where
  "parse_class_uri dec value =
     (case value of
        PStr s \<Rightarrow>
          let t = py_strip s
          in if t = [] \<or> py_contains ''0000000.000000'' t then None
             else (case match_epc lgtin_prefix t of
                     Some (company, item, lot_raw) \<Rightarrow>
                       let lot = unquote dec lot_raw
                       in if lot = [] then None
                          else Some \<lparr>li_canonical_id = t, li_lot_token = lot, li_gtin = company_item_to_gtin14 company item,
                                     li_is_full_class_uri = True\<rparr>
                   | None \<Rightarrow>
                  (case match_digital_link t of
                     Some (gtin_raw, lot_raw) \<Rightarrow>
                       let lot = py_strip (unquote dec lot_raw)
                       in if lot = [] then None
                          else Some \<lparr>li_canonical_id = t, li_lot_token = lot,
                                     li_gtin = Some (case normalize_gtin14 (Some gtin_raw) of Some g \<Rightarrow> g | None \<Rightarrow> py_zfill 14 gtin_raw),
                                     li_is_full_class_uri = True\<rparr>
                   | None \<Rightarrow> None))
      | _ \<Rightarrow> None)"

definition is_full_class_uri :: "(nat list \<Rightarrow> string) \<Rightarrow> pyval \<Rightarrow> bool" where
  "is_full_class_uri dec value = (case parse_class_uri dec value of Some p \<Rightarrow> li_is_full_class_uri p | None \<Rightarrow> False)"

text \<open>\<open>s.rsplit(c, 1)\<close> with two parts: what is after the last \<open>c\<close>.\<close>

definition after_last :: "char \<Rightarrow> string \<Rightarrow> string option" where
  "after_last c s = (if c \<in> set s then Some (rev (takeWhile (\<lambda>x. x \<noteq> c) (rev s))) else None)"

definition lot_token_only :: "(nat list \<Rightarrow> string) \<Rightarrow> pyval \<Rightarrow> string option" where
  "lot_token_only dec value =
     (case parse_class_uri dec value of
        Some p \<Rightarrow> Some (li_lot_token p)
      | None \<Rightarrow>
          (case value of
             PStr s \<Rightarrow>
               let t = py_strip s; l = py_lower t
               in if t = [] then None
                  else if prefix ''urn:epc:'' l \<and> (py_contains ''lgtin'' l \<or> py_contains ''sgtin'' l)
                  then (case after_last CHR ''.'' t of Some x \<Rightarrow> if x = [] then None else Some (unquote dec x) | None \<Rightarrow> None)
                  else if py_contains ''://'' t \<or> prefix ''urn:epc:'' l then None
                  else Some t
           | _ \<Rightarrow> None))"

definition given_gtin :: "string option \<Rightarrow> string option" where
  "given_gtin gtin = (if str_or gtin [] \<noteq> [] then normalize_gtin14 gtin else None)"

definition or_else :: "string option \<Rightarrow> string option \<Rightarrow> string option" where
  "or_else x y = (if str_or x [] \<noteq> [] then x else y)"

definition bare_identity :: "string \<Rightarrow> string option \<Rightarrow> LotIdentity" where
  "bare_identity token g = \<lparr>li_canonical_id = token, li_lot_token = token, li_gtin = g, li_is_full_class_uri = False\<rparr>"

definition digital_link :: "string \<Rightarrow> string \<Rightarrow> string" where
  "digital_link g token = ''https://id.gs1.org/01/'' @ g @ ''/10/'' @ quote token"

definition normalize_epcis_lot :: "(nat list \<Rightarrow> string) \<Rightarrow> bool \<Rightarrow> pyval \<Rightarrow> string option \<Rightarrow> LotIdentity option" where
  "normalize_epcis_lot dec use_full value gtin =
     (case parse_class_uri dec value of
        Some p \<Rightarrow> Some (if use_full then p else bare_identity (li_lot_token p) (or_else (li_gtin p) (given_gtin gtin)))
      | None \<Rightarrow>
          (case (case value of PStr s \<Rightarrow> match_epc sgtin_prefix (py_strip s) | _ \<Rightarrow> None) of
             Some (company, item, serial_raw) \<Rightarrow>
               let serial = unquote dec serial_raw
               in Some \<lparr>li_canonical_id = (if use_full then (case value of PStr s \<Rightarrow> py_strip s | _ \<Rightarrow> []) else serial), li_lot_token = serial,
                        li_gtin = or_else (company_item_to_gtin14 company item) (given_gtin gtin), li_is_full_class_uri = False\<rparr>
           | None \<Rightarrow>
               (case lot_token_only dec value of
                  None \<Rightarrow> None
                | Some token \<Rightarrow>
                    if token = [] then None
                    else case given_gtin gtin of
                           None \<Rightarrow> Some (bare_identity token None)
                         | Some g \<Rightarrow>
                             if use_full then Some \<lparr>li_canonical_id = digital_link g token, li_lot_token = token, li_gtin = Some g,
                               li_is_full_class_uri = True\<rparr>
                             else Some (bare_identity token (Some g)))))"

definition lot_missing_error :: py_error where
  "lot_missing_error = ValueError (''EPCIS event carries no lot identifier (ILMD traceabilityLotCode or lotNumber, '' @
     ''an LGTIN or SGTIN EPC, or traceability_lot_code); refusing to fabricate one'')"

fun first_some :: "'a option list \<Rightarrow> 'a option" where
  "first_some [] = None"
| "first_some (Some x # xs) = Some x"
| "first_some (None # xs) = first_some xs"

definition resolve_stored_lot :: "(nat list \<Rightarrow> string) \<Rightarrow> bool \<Rightarrow> pyval \<Rightarrow> pyval \<Rightarrow> pyval \<Rightarrow> string option \<Rightarrow> py_error + LotIdentity" where
  "resolve_stored_lot dec lossless epc_or_class ilmd_tlc flat_tlc gtin =
     (case first_some (map (parse_class_uri dec) [epc_or_class, ilmd_tlc, flat_tlc]) of
        Some p \<Rightarrow> Inr (if lossless then p else bare_identity (li_lot_token p) (or_else (li_gtin p) (given_gtin gtin)))
      | None \<Rightarrow>
          (case first_some (map (\<lambda>v. normalize_epcis_lot dec lossless v gtin) [ilmd_tlc, flat_tlc, epc_or_class]) of
             Some i \<Rightarrow> Inr i
           | None \<Rightarrow> Inl lot_missing_error))"

definition lossless_enabled :: "string option \<Rightarrow> bool" where
  "lossless_enabled env = (py_lower (py_strip (str_or env ''0'')) \<in> {''1'', ''true'', ''yes'', ''on''})"

section \<open>Check digits agree\<close>

lemma lot_check_digit_eq:
  assumes "odd (length ds)"
  shows "lot_check_digit ds = int_str (gs1_check_digit ds)"
proof -
  let ?n = "length ds"
  let ?w = "\<lambda>i::nat. if even i then 3 else 1 :: int"
  have "(\<Sum>j<?n. ?w j * digit_val (ds ! j)) = (\<Sum>j<?n. ?w (?n - Suc j) * digit_val (ds ! (?n - Suc j)))"
    by (rule sum.nat_diff_reindex [symmetric])
  also have "\<dots> = (\<Sum>j<?n. gs1_weight (Suc j) * digit_val (rev ds ! j))"
    using assms by (intro sum.cong) (auto simp: rev_nth gs1_weight_def)
  finally show ?thesis
    unfolding lot_check_digit_def gs1_check_digit_eq
    using enumerate_sum_list[of ?w 0 ds] by simp
qed

lemma int_str_digit:
  assumes "0 \<le> i" "i \<le> 9"
  shows "\<exists>c. int_str i = [c] \<and> digit_val c = i \<and> is_dec_digit c"
proof -
  from assms have "int_str i = [char_of (48 + nat i)]" by (simp add: int_str_def nat_str.simps)
  moreover have "ord (char_of (48 + nat i)) = 48 + nat i" using assms by (simp add: ord_def)
  ultimately show ?thesis using assms by (simp add: digit_val_def is_dec_digit_def)
qed

lemma rebuilt_gtin:
  assumes "company_item_to_gtin14 company item = Some g" "list_all is_dec_digit company" "list_all is_dec_digit item"
  shows "length g = 14 \<and> verify_gs1_check_digit (PStr g)"
proof -
  let ?d = "hd item # company @ tl item"
  from assms(1) have g: "g = ?d @ lot_check_digit ?d" and l: "length ?d = 13" and i: "item \<noteq> []"
    by (auto simp: company_item_to_gtin14_def Let_def split: if_splits)
  obtain c where c: "lot_check_digit ?d = [c]" "digit_val c = gs1_check_digit ?d" "is_dec_digit c"
    using lot_check_digit_eq[of ?d] l int_str_digit gs1_check_digit_range[of ?d] by (metis odd_numeral)
  have "list_all is_dec_digit ?d" using assms(2,3) i by (cases item) auto
  moreover have "butlast (?d @ [c]) = ?d" "last (?d @ [c]) = c" by (rule butlast_snoc, rule last_snoc)
  ultimately show ?thesis using c l unfolding g c(1) verify_gs1_check_digit_def pyval.case by (simp del: append.simps)
qed

section \<open>A Digital Link that is written is read back\<close>

definition plain_token :: "string \<Rightarrow> bool" where
  "plain_token s \<longleftrightarrow> s \<noteq> [] \<and> list_all is_ascii s \<and> py_strip s = s"

lemma hex_value_digit: "n < 16 \<Longrightarrow> hex_value (hex_digit n) = Some n"
  by (auto simp: hex_value_def hex_digit_def ord_def Let_def)

lemma pct_decode_skip: "c \<noteq> CHR ''%'' \<Longrightarrow> pct_decode (c # s) = ord c # pct_decode s"
  by (cases s rule: pct_decode.cases) (auto split: option.splits)

lemma pct_decode_hex: "x < 16 \<Longrightarrow> y < 16 \<Longrightarrow> pct_decode (CHR ''%'' # hex_digit x # hex_digit y # s) = (16 * x + y) # pct_decode s"
  by (simp add: hex_value_digit)

lemma quote_Cons: "quote (c # s) = quote_char c @ quote s" by (simp add: quote_def)

lemma quote_char_ascii:
  "is_ascii c \<Longrightarrow> quote_char c = (if quote_safe c then [c] else [CHR ''%'', hex_digit (ord c div 16), hex_digit (ord c mod 16)])"
  by (simp add: quote_char_def utf8_def is_ascii_def)

lemma quote_safe_percent: "quote_safe c \<Longrightarrow> c \<noteq> CHR ''%''"
  by (auto simp: quote_safe_def is_ascii_alpha_def is_dec_digit_def ord_def)

lemma pct_decode_quote: "list_all is_ascii s \<Longrightarrow> pct_decode (quote s) = map ord s"
proof (induction s)
  case (Cons c s)
  then show ?case
    by (simp add: quote_Cons quote_char_ascii pct_decode_skip quote_safe_percent pct_decode_hex is_ascii_def less_mult_imp_div_less
        del: pct_decode.simps)
qed (simp add: quote_def)

definition link_char :: "char \<Rightarrow> bool" where
  "link_char c \<longleftrightarrow> is_ascii c \<and> ord c \<notin> {35, 47, 63} \<and> \<not> py_isspace c"

lemma hex_digit_link: "n < 16 \<Longrightarrow> link_char (hex_digit n)"
  by (auto simp: link_char_def is_ascii_def hex_digit_def ord_def py_isspace_def Let_def)

lemma quote_safe_link: "quote_safe c \<Longrightarrow> link_char c"
  by (auto simp: quote_safe_def link_char_def is_ascii_def is_ascii_alpha_def is_dec_digit_def ord_def py_isspace_def Let_def)

lemma quote_link: "list_all is_ascii s \<Longrightarrow> list_all link_char (quote s)"
proof (induction s)
  case (Cons c s)
  moreover have "link_char CHR ''%''" by (simp add: link_char_def is_ascii_def ord_def py_isspace_def)
  ultimately show ?case
    by (simp add: quote_Cons quote_char_ascii quote_safe_link hex_digit_link is_ascii_def less_mult_imp_div_less)
qed (simp add: quote_def)

lemma after_prefix_append: "py_lower pre = pre \<Longrightarrow> after_prefix pre (pre @ r) = Some r"
  by (simp add: after_prefix_def py_lower_def)

lemma takeWhile_digits:
  "list_all is_dec_digit g \<Longrightarrow> \<not> is_dec_digit c \<Longrightarrow> takeWhile is_dec_digit (g @ c # r) = g \<and> dropWhile is_dec_digit (g @ c # r) = c # r"
  by (induction g) auto

lemma unquote_quote:
  assumes "list_all is_ascii s"
  shows "unquote dec (quote s) = s"
proof (cases "CHR ''%'' \<in> set (quote s)")
  case True
  then have ne: "quote s \<noteq> []" by auto
  have ascii: "list_all is_ascii (quote s)" using quote_link[OF assms] by (simp add: list_all_iff link_char_def)
  from ne obtain c cs where q: "quote s = c # cs" by (cases "quote s") auto
  have "unquote_runs dec (quote s) = decode_bytes dec (pct_decode (quote s))"
  proof -
    have tw: "takeWhile is_ascii cs = cs" "dropWhile is_ascii cs = []"
      using ascii by (simp_all add: q list_all_iff takeWhile_eq_all_conv)
    moreover have "is_ascii c" using ascii by (simp add: q)
    ultimately show ?thesis by (simp only: q unquote_runs.simps tw if_True append_Nil2)
  qed
  also have "\<dots> = s"
    unfolding pct_decode_quote[OF assms] using assms
    by (simp add: decode_bytes_def list_all_iff is_ascii_def ord_def list.map_comp comp_def)
  finally show ?thesis using True by (simp add: unquote_def)
next
  case False
  have "quote s = s" if "list_all is_ascii s" "CHR ''%'' \<notin> set (quote s)" for s
    using that by (induction s) (auto simp: quote_Cons quote_char_ascii quote_def[of "[]"] split: if_splits)
  with False assms show ?thesis by (simp add: unquote_def)
qed

lemma quote_not_Nil: "s \<noteq> [] \<Longrightarrow> list_all is_ascii s \<Longrightarrow> quote s \<noteq> []"
  by (cases s) (auto simp: quote_Cons quote_char_ascii)

lemma match_digital_link_written:
  assumes "length g = 14" "list_all is_dec_digit g" "plain_token token"
  shows "match_digital_link (digital_link g token) = Some (g, quote token)"
proof -
  have t: "list_all is_ascii token" "token \<noteq> []" using assms(3) by (simp_all add: plain_token_def)
  have pre: "py_lower digital_link_prefix = digital_link_prefix" "py_lower ''/10/'' = ''/10/''" by code_simp+
  have "\<not> list_ex (\<lambda>c. c \<in> {CHR ''/'', CHR ''?'', CHR ''#''}) (quote token)"
    using quote_link[OF t(1)] by (auto simp: list_ex_iff list_all_iff link_char_def ord_def)
  moreover have "after_prefix ''/10/'' (CHR ''/'' # ''10/'' @ quote token) = Some (quote token)"
    using after_prefix_append[OF pre(2), of "quote token"] by simp
  moreover have "after_prefix digital_link_prefix (digital_link g token) = Some (g @ ''/10/'' @ quote token)"
    using after_prefix_append[OF pre(1)] by (simp only: digital_link_def digital_link_prefix_def)
  moreover have "\<not> is_dec_digit CHR ''/''" by (simp add: is_dec_digit_def ord_def)
  ultimately show ?thesis
    using takeWhile_digits[OF assms(2), of "CHR ''/''" "''10/'' @ quote token"] assms(1) quote_not_Nil[OF t(2,1)]
    by (simp add: match_digital_link_def)
qed

lemma given_gtin_digits:
  assumes "given_gtin gtin = Some g"
  shows "length g = 14 \<and> list_all is_dec_digit g \<and> normalize_gtin14 (Some g) = Some g"
proof -
  have zero: "is_dec_digit CHR ''0''" by (simp add: is_dec_digit_def ord_def)
  from assms have 1: "length g = 14" and 2: "list_all is_dec_digit g"
    using zero by (auto simp: given_gtin_def normalize_gtin14_def Let_def py_zfill_def strip_nondigits_def list_all_iff split: if_splits)
  moreover have "strip_nondigits g = g" using 2 by (simp add: strip_nondigits_def list_all_iff)
  ultimately show ?thesis by (auto simp: normalize_gtin14_def str_or_def py_zfill_def)
qed

lemma digital_link_strip:
  assumes "plain_token token"
  shows "py_strip (digital_link g token) = digital_link g token"
proof -
  have q: "quote token \<noteq> []" "list_all link_char (quote token)"
    using assms by (simp_all add: plain_token_def quote_not_Nil quote_link)
  then have "link_char (last (quote token))" by (simp add: list_all_iff)
  then have "\<not> py_isspace (last (digital_link g token))" using q(1) by (simp add: digital_link_def link_char_def)
  moreover have "hd (digital_link g token) = CHR ''h''" by (simp add: digital_link_def)
  moreover have "\<not> py_isspace CHR ''h''" by (simp add: py_isspace_def ord_def)
  ultimately show ?thesis by (intro strip_ends) (simp_all add: digital_link_def)
qed

lemma digital_link_no_epc: "match_epc lgtin_prefix (digital_link g token) = None"
proof -
  have "hd (py_lower (digital_link g token)) = CHR ''h''"
    by (simp add: digital_link_def py_lower_def lower_char_def ord_def Let_def)
  then have "take (length lgtin_prefix) (py_lower (digital_link g token)) \<noteq> lgtin_prefix"
    by (auto simp: lgtin_prefix_def digital_link_def py_lower_def dest!: arg_cong[of _ _ hd])
  then show ?thesis by (simp add: match_epc_def after_prefix_def)
qed

lemma parse_written_link:
  assumes "given_gtin gtin = Some g" "plain_token token" "\<not> py_contains ''0000000.000000'' (digital_link g token)"
  shows "parse_class_uri dec (PStr (digital_link g token)) =
    Some \<lparr>li_canonical_id = digital_link g token, li_lot_token = token, li_gtin = Some g, li_is_full_class_uri = True\<rparr>"
proof -
  note g = given_gtin_digits[OF assms(1)]
  have "digital_link g token \<noteq> []" by (simp add: digital_link_def)
  moreover have "match_digital_link (digital_link g token) = Some (g, quote token)"
    using g assms(2) by (simp add: match_digital_link_written)
  moreover have "unquote dec (quote token) = token" "py_strip token = token" "token \<noteq> []"
    using assms(2) by (simp_all add: plain_token_def unquote_quote)
  ultimately show ?thesis
    using g assms(3) by (simp add: parse_class_uri_def digital_link_strip[OF assms(2)] digital_link_no_epc)
qed

lemma canonical_stripped:
  assumes "parse_class_uri dec value = Some p"
  obtains s where "value = PStr s" "li_canonical_id p = py_strip s"
proof -
  from assms obtain s where s: "value = PStr s" by (cases "value") (auto simp: parse_class_uri_def)
  moreover have "li_canonical_id p = py_strip s"
    using assms unfolding s by (auto simp: parse_class_uri_def Let_def split: if_splits option.splits prod.splits)
  ultimately show ?thesis by (rule that)
qed

lemma parse_again:
  assumes "parse_class_uri dec value = Some p"
  shows "parse_class_uri dec (PStr (li_canonical_id p)) = Some p"
proof -
  from assms obtain s where "value = PStr s" "li_canonical_id p = py_strip s" by (rule canonical_stripped)
  with assms show ?thesis by (simp add: parse_class_uri_def strip_again)
qed

text \<open>
  Claim C22 (roundtrip). The full identity of a lot survives storage: whatever full class URI the normaliser returns, read from the value or rebuilt
  from a bare token and a GTIN, parses back to the same identity, with the same token and the same GTIN. The token is ASCII without blanks at its
  ends, and the URI does not hold the placeholder \<open>0000000.000000\<close>.
\<close>

theorem lot_identity_roundtrip:
  assumes "normalize_epcis_lot dec True value gtin = Some i" "li_is_full_class_uri i"
    and "plain_token (li_lot_token i)" "\<not> py_contains ''0000000.000000'' (li_canonical_id i)"
  shows "parse_class_uri dec (PStr (li_canonical_id i)) = Some i"
proof (cases "parse_class_uri dec value")
  case (Some p)
  with assms(1) have "i = p" by (simp add: normalize_epcis_lot_def)
  with parse_again[OF Some] show ?thesis by simp
next
  case None
  with assms(1,2) obtain g token where g: "given_gtin gtin = Some g"
    and i: "i = \<lparr>li_canonical_id = digital_link g token, li_lot_token = token, li_gtin = Some g, li_is_full_class_uri = True\<rparr>"
    by (auto simp: normalize_epcis_lot_def bare_identity_def Let_def split: option.splits prod.splits if_splits)
  show ?thesis
    unfolding i LotIdentity.select_convs using g assms(3,4) by (intro parse_written_link) (simp_all add: i)
qed

theorem lot_identity_roundtrip_witness:
  "parse_class_uri (\<lambda>_. []) (PStr ''https://id.gs1.org/01/00614141123452/10/LOT%207'') =
     Some \<lparr>li_canonical_id = ''https://id.gs1.org/01/00614141123452/10/LOT%207'', li_lot_token = ''LOT 7'', li_gtin = Some ''00614141123452'',
           li_is_full_class_uri = True\<rparr>"
proof -
  let ?i = "\<lparr>li_canonical_id = ''https://id.gs1.org/01/00614141123452/10/LOT%207'', li_lot_token = ''LOT 7'', li_gtin = Some ''00614141123452'',
           li_is_full_class_uri = True\<rparr>"
  have "normalize_epcis_lot (\<lambda>_. []) True (PStr ''LOT 7'') (Some ''614141123452'') = Some ?i" by code_simp
  moreover have "li_is_full_class_uri ?i" by simp
  moreover have "plain_token (li_lot_token ?i)" by code_simp
  moreover have "\<not> py_contains ''0000000.000000'' (li_canonical_id ?i)" by code_simp
  ultimately have "parse_class_uri (\<lambda>_. []) (PStr (li_canonical_id ?i)) = Some ?i" by (rule lot_identity_roundtrip)
  then show ?thesis by simp
qed

lemma match_epc_digits:
  assumes "match_epc pre s = Some (c, i, l)"
  shows "list_all is_dec_digit c \<and> list_all is_dec_digit i"
proof -
  have all: "list_all is_dec_digit (takeWhile is_dec_digit x)" for x by (auto simp: list_all_iff dest: set_takeWhileD)
  have "list_all is_dec_digit d" if "digits_dot x = Some (d, r)" for x d r
    using that all[of x] by (auto simp: digits_dot_def Let_def split: if_splits)
  with assms show ?thesis by (auto simp: match_epc_def split: option.splits if_splits)
qed

text \<open>
  The GTIN that is rebuilt from the company prefix and item reference of an LGTIN passes the check-digit validation of the
  identifier validator: the two ways of computing the digit, from the left here and from the right there, agree on thirteen digits.
\<close>

theorem lgtin_gtin_validates:
  assumes "parse_class_uri dec value = Some p" "match_epc lgtin_prefix (li_canonical_id p) \<noteq> None" "li_gtin p = Some g"
  shows "length g = 14 \<and> verify_gs1_check_digit (PStr g)"
proof -
  from assms(2) obtain c i l where m: "match_epc lgtin_prefix (li_canonical_id p) = Some (c, i, l)" by auto
  have "company_item_to_gtin14 c i = Some g"
  proof -
    from assms(1) obtain s where "li_canonical_id p = py_strip s" by (rule canonical_stripped)
    then have "py_strip (li_canonical_id p) = li_canonical_id p" by (simp add: strip_again)
    with parse_again[OF assms(1)] m assms(3) show ?thesis
      by (auto simp: parse_class_uri_def Let_def dest!: arg_cong[of _ p li_gtin] split: if_splits)
  qed
  with match_epc_digits[OF m] show ?thesis by (intro rebuilt_gtin) auto
qed

theorem lgtin_gtin_validates_witness: "verify_gs1_check_digit (PStr ''10614141234520'')"
proof -
  let ?v = "PStr ''urn:epc:class:lgtin:0614141.123452.L7''"
  let ?p = "\<lparr>li_canonical_id = ''urn:epc:class:lgtin:0614141.123452.L7'', li_lot_token = ''L7'', li_gtin = Some ''10614141234520'',
    li_is_full_class_uri = True\<rparr>"
  have "parse_class_uri (\<lambda>_. []) ?v = Some ?p" by code_simp
  moreover have "match_epc lgtin_prefix (li_canonical_id ?p) \<noteq> None" by code_simp
  moreover have "li_gtin ?p = Some ''10614141234520''" by simp
  ultimately show ?thesis using lgtin_gtin_validates by blast
qed

end
