(* ===== verification/EpcisCanonical.thy ===== *)
theory EpcisCanonical
  imports CanonicalEvent LotIdentity
begin

text \<open>
  \<^verbatim>\<open>services/shared/canonical_event.py\<close>, the part for EPCIS documents: business step, lot code, quantity, unit and inputs of an event, and its
  normalisation into the canonical event. A document is a dictionary as \<open>json.loads\<close> returns it. The \<open>ilmd\<close> and \<open>extension\<close>
  members that are copied into the KDEs are taken to be objects when they are not empty.
\<close>

section \<open>Quantity and unit\<close>

text \<open>\<open>d.get(k)\<close> in a chain of \<open>or\<close>\<close>

definition fetch :: "pydict \<Rightarrow> string \<Rightarrow> pyval" where
  "fetch d k = dict_get d k PNone"

definition epcis_quantity_element :: "pydict \<Rightarrow> py_error + pydict option" where
  "epcis_quantity_element d =
     and_then (py_get (dict_get d ''extension'' (PDict [])) ''quantityList'' PNone) (\<lambda>ext.
       Inr (case first_truthy [ext, fetch d ''quantityList'', fetch d ''outputQuantityList'', fetch d ''inputQuantityList'', PList []] of
              PList (PDict e # _) \<Rightarrow> Some e
            | _ \<Rightarrow> None))"

definition no_unit_error :: py_error where
  "no_unit_error = ValueError ''EPCIS event carries a quantity but no unit of measure (quantity.uom); refusing to assume one''"

definition epcis_unit_of_measure :: "can_env \<Rightarrow> pydict \<Rightarrow> py_error + string" where
  "epcis_unit_of_measure env d =
     and_then (epcis_quantity_element d) (\<lambda>el.
       if (case el of Some e \<Rightarrow> fetch e ''quantity'' \<noteq> PNone | None \<Rightarrow> False)
       then Inr (py_str (ce_rt env) (py_or (fetch (the el) ''uom'') (PStr ''each'')))
       else case fetch d ''quantity'' of
              PDict flat \<Rightarrow> if truthy (fetch flat ''uom'') then Inr (py_str (ce_rt env) (fetch flat ''uom'')) else Inl no_unit_error
            | _ \<Rightarrow> Inl no_unit_error)"

text \<open>The number, when there is one; the unit that is returned beside it is not used.\<close>

definition flat_quantity :: "pydict \<Rightarrow> py_error + pyfloat option" where
  "flat_quantity d =
     (case fetch d ''quantity'' of
        PDict flat \<Rightarrow> if fetch flat ''value'' \<noteq> PNone then float_or_none (fetch flat ''value'') else Inr None
      | _ \<Rightarrow> Inr None)"

definition extract_epcis_quantity :: "pydict \<Rightarrow> py_error + pyfloat option" where
  "extract_epcis_quantity d =
     and_then (epcis_quantity_element d) (\<lambda>el.
       case el of
         Some e \<Rightarrow> if fetch e ''quantity'' \<noteq> PNone then float_or_none (fetch e ''quantity'') else flat_quantity d
       | None \<Rightarrow> flat_quantity d)"

definition no_quantity_error :: py_error where
  "no_quantity_error = ValueError (''EPCIS event has no numeric quantity '' @ em_dash @ '' cannot emit canonical TraceabilityEvent. Supply quantity via '' @
     ''extension.quantityList or reject the event before normalization (#1249).'')"

definition require_epcis_quantity :: "pydict \<Rightarrow> py_error + pyfloat" where
  "require_epcis_quantity d =
     and_then (extract_epcis_quantity d) (\<lambda>q. case q of Some x \<Rightarrow> Inr x | None \<Rightarrow> Inl no_quantity_error)"

section \<open>Business step\<close>

definition bizstep_to_cte_type :: "(string \<times> CTEType option) list" where
  "bizstep_to_cte_type =
     [(''urn:epcglobal:cbv:bizstep:receiving'', Some Receiving), (''urn:epcglobal:cbv:bizstep:shipping'', Some Shipping),
      (''urn:epcglobal:cbv:bizstep:transforming'', Some Transformation), (''urn:epcglobal:cbv:bizstep:commissioning'', Some Initial_Packing),
      (''urn:epcglobal:cbv:bizstep:packing'', Some Initial_Packing), (''urn:epcglobal:cbv:bizstep:harvesting'', Some Harvesting),
      (''urn:epcglobal:cbv:bizstep:planting'', None), (''urn:epcglobal:cbv:bizstep:storing'', Some Cooling),
      (''urn:epcglobal:cbv:bizstep:landing'', Some First_Land_Based_Receiving), (''urn:fsma:traceability:growing'', None),
      (''urn:fsma:traceability:harvesting'', Some Harvesting), (''urn:fsma:traceability:cooling'', Some Cooling),
      (''urn:fsma:traceability:initial_packing'', Some Initial_Packing),
      (''urn:fsma:traceability:first_land_based_receiving'', Some First_Land_Based_Receiving), (''urn:fsma:traceability:shipping'', Some Shipping),
      (''urn:fsma:traceability:receiving'', Some Receiving), (''urn:fsma:traceability:transformation'', Some Transformation)]"

text \<open>The three refusals, by the start of their messages.\<close>

definition resolve_bizstep :: "can_env \<Rightarrow> pyval \<Rightarrow> py_error + CTEType" where
  "resolve_bizstep env biz_step =
     (let raw = (if biz_step = PNone then [] else py_strip (py_str (ce_rt env) biz_step)); lowered = py_lower raw
      in if raw = [] then Inl (ValueError ''EPCIS event has no bizStep'')
         else case map_of bizstep_to_cte_type lowered of
                Some (Some ty) \<Rightarrow> Inr ty
              | Some None \<Rightarrow> Inl (ValueError (''bizStep '' @ ce_repr env (PStr raw) @ '' maps to the non-CTE activity 'growing', which is not one''))
              | None \<Rightarrow>
                  (case cte_of lowered of Some ty \<Rightarrow> Inr ty
                   | None \<Rightarrow> Inl (ValueError (''bizStep '' @ ce_repr env (PStr raw) @ '' has no FSMA 204 CTE mapping''))))"

section \<open>Lot code\<close>

definition epc_last_segment :: "pyrt \<Rightarrow> pyval \<Rightarrow> string option" where
  "epc_last_segment rt epc =
     (let t = py_strip (py_str rt (py_or epc (PStr []))); l = py_lower t
      in if \<not> py_contains ''lgtin'' l \<and> \<not> py_contains ''sgtin'' l then None
         else case after_last CHR ''.'' t of Some x \<Rightarrow> if x = [] then None else Some x | None \<Rightarrow> None)"

text \<open>\<open>s.rsplit(c, 1)[0]\<close>: the text before the last \<open>c\<close>, or all of it.\<close>

definition before_last :: "char \<Rightarrow> string \<Rightarrow> string" where
  "before_last c s = (if c \<in> set s then rev (tl (dropWhile (\<lambda>x. x \<noteq> c) (rev s))) else s)"

definition epc_gtin :: "pyrt \<Rightarrow> pyval \<Rightarrow> string option" where
  "epc_gtin rt epc =
     (let t = py_strip (py_str rt (py_or epc (PStr [])))
      in if epc_last_segment rt (PStr t) = None then None
         else let pre = before_last CHR ''.'' t; g = (case after_last CHR '':'' pre of Some x \<Rightarrow> x | None \<Rightarrow> pre)
              in if g = [] then None else Some g)"

definition epcis_list :: "pydict \<Rightarrow> string \<Rightarrow> pyval list" where
  "epcis_list d k = (case fetch d k of PList xs \<Rightarrow> xs | _ \<Rightarrow> [])"

definition object_in :: "pyval \<Rightarrow> pydict" where
  "object_in v = (case v of PDict d \<Rightarrow> d | _ \<Rightarrow> [])"

text \<open>The EPCs of the event and the classes of its quantities, on the output side.\<close>

definition event_epcs :: "pydict \<Rightarrow> pyval list" where
  "event_epcs d = epcis_list d ''epcList'' @ epcis_list d ''outputEPCList''"

definition event_classes :: "pydict \<Rightarrow> pyval list" where
  "event_classes d =
     map (\<lambda>q. fetch (object_in q) ''epcClass'')
       (filter (\<lambda>q. truthy (fetch (object_in q) ''epcClass''))
         (epcis_list d ''outputQuantityList'' @ epcis_list d ''quantityList'' @ epcis_list (object_in (fetch d ''extension'')) ''quantityList''))"

definition first_text :: "pyrt \<Rightarrow> pydict \<Rightarrow> string list \<Rightarrow> string option" where
  "first_text rt d ks = first_some (map (\<lambda>k. if nonblank rt (fetch d k) then Some (strip_text rt (fetch d k)) else None) ks)"

definition ilmd_keys :: "string list" where
  "ilmd_keys = [''fsma:traceabilityLotCode'', ''traceabilityLotCode'', ''cbvmda:lotNumber'', ''lotNumber'']"

definition segment_of :: "pyrt \<Rightarrow> string \<Rightarrow> pyval \<Rightarrow> string option" where
  "segment_of rt kind epc = (if py_contains kind (py_lower (py_str rt epc)) then epc_last_segment rt epc else None)"

definition legacy_lot_code :: "can_env \<Rightarrow> pydict \<Rightarrow> py_error + string \<times> string option" where
  "legacy_lot_code env d =
     (let rt = ce_rt env; epcs = event_epcs d; classes = event_classes d;
          gtin = first_some (map (epc_gtin rt) (epcs @ classes))
      in case first_some
           [first_text rt (object_in (fetch d ''ilmd'')) ilmd_keys,
            first_some (map (segment_of rt ''lgtin'') (epcs @ classes)),
            first_some (map (segment_of rt ''sgtin'') epcs),
            first_text rt d [''traceability_lot_code'', ''lotNumber'']] of
           Some tlc \<Rightarrow> Inr (tlc, gtin)
         | None \<Rightarrow> Inl lot_missing_error)"

text \<open>With the lossless identity: the class URI first, then the bare code of the document.\<close>

definition lossless_gtin :: "can_env \<Rightarrow> pyval list \<Rightarrow> string option" where
  "lossless_gtin env es =
     first_some (map (\<lambda>e.
       case (case parse_class_uri (ce_dec env) e of Some p \<Rightarrow> or_else (li_gtin p) None | None \<Rightarrow> None) of
         Some g \<Rightarrow> Some g
       | None \<Rightarrow> (case normalize_epcis_lot (ce_dec env) False e None of Some i \<Rightarrow> or_else (li_gtin i) None | None \<Rightarrow> None)) es)"

definition lossless_text :: "can_env \<Rightarrow> string option \<Rightarrow> pydict \<Rightarrow> string list \<Rightarrow> (string \<times> string option) option" where
  "lossless_text env gtin d ks =
     (case List.find (\<lambda>k. nonblank (ce_rt env) (fetch d k)) ks of
        None \<Rightarrow> None
      | Some k \<Rightarrow>
          (case normalize_epcis_lot (ce_dec env) True (fetch d k) None of
             Some i \<Rightarrow> Some (li_canonical_id i, or_else (li_gtin i) gtin)
           | None \<Rightarrow> Some (strip_text (ce_rt env) (fetch d k), gtin)))"

definition lossless_sgtin :: "can_env \<Rightarrow> string option \<Rightarrow> pyval \<Rightarrow> (string \<times> string option) option" where
  "lossless_sgtin env gtin epc =
     (if \<not> py_contains ''sgtin'' (py_lower (py_str (ce_rt env) epc)) then None
      else case normalize_epcis_lot (ce_dec env) True epc None of
             Some i \<Rightarrow> Some (li_canonical_id i, or_else (li_gtin i) gtin)
           | None \<Rightarrow> map_option (\<lambda>s. (s, gtin)) (epc_last_segment (ce_rt env) epc))"

definition lossless_lot_code :: "can_env \<Rightarrow> pydict \<Rightarrow> py_error + string \<times> string option" where
  "lossless_lot_code env d =
     (let epcs = event_epcs d; classes = event_classes d; gtin = lossless_gtin env (classes @ epcs)
      in case first_some
           [map_option (\<lambda>p. (li_canonical_id p, or_else (li_gtin p) gtin)) (first_some (map (parse_class_uri (ce_dec env)) (classes @ epcs))),
            lossless_text env gtin (object_in (fetch d ''ilmd'')) ilmd_keys,
            first_some (map (lossless_sgtin env gtin) epcs),
            lossless_text env gtin d [''traceability_lot_code'', ''lotNumber'']] of
           Some r \<Rightarrow> Inr r
         | None \<Rightarrow> Inl lot_missing_error)"

definition epcis_lot_code :: "can_env \<Rightarrow> pydict \<Rightarrow> py_error + string \<times> string option" where
  "epcis_lot_code env d = (if lossless_enabled (ce_lossless env) then lossless_lot_code env d else legacy_lot_code env d)"

section \<open>Inputs of a transformation\<close>

text \<open>\<open>float(q) if q is not None else None\<close>, with no number when it does not convert.\<close>

definition input_quantity :: "pyval \<Rightarrow> py_error + pyfloat option" where
  "input_quantity v = (if v = PNone then Inr None else float_or_none v)"

definition input_unit :: "pyval \<Rightarrow> pyfloat option \<Rightarrow> pyval" where
  "input_unit uom q = (case q of None \<Rightarrow> PNone | Some _ \<Rightarrow> py_or uom (PStr ''each''))"

definition opt_number :: "pyfloat option \<Rightarrow> pyval" where
  "opt_number q = (case q of None \<Rightarrow> PNone | Some x \<Rightarrow> PFloat x)"

fun legacy_class_inputs :: "pyrt \<Rightarrow> pyval list \<Rightarrow> string list \<Rightarrow> py_error + pydict list \<times> string list" where
  "legacy_class_inputs rt [] seen = Inr ([], seen)"
| "legacy_class_inputs rt (PDict e # es) seen =
     (case epc_last_segment rt (fetch e ''epcClass'') of
        None \<Rightarrow> legacy_class_inputs rt es seen
      | Some lot \<Rightarrow>
          if lot \<in> set seen then legacy_class_inputs rt es seen
          else and_then (input_quantity (fetch e ''quantity'')) (\<lambda>q.
            and_then (legacy_class_inputs rt es (lot # seen)) (\<lambda>(rest, seen').
              Inr ([(''traceability_lot_code'', PStr lot), (''quantity'', opt_number q), (''unit_of_measure'', input_unit (fetch e ''uom'') q),
                    (''epc_class'', fetch e ''epcClass'')] # rest, seen'))))"
| "legacy_class_inputs rt (_ # es) seen = legacy_class_inputs rt es seen"

fun legacy_epc_inputs :: "pyrt \<Rightarrow> pyval list \<Rightarrow> string list \<Rightarrow> pydict list" where
  "legacy_epc_inputs rt [] seen = []"
| "legacy_epc_inputs rt (e # es) seen =
     (case epc_last_segment rt e of
        None \<Rightarrow> legacy_epc_inputs rt es seen
      | Some seg \<Rightarrow>
          if seg \<in> set seen then legacy_epc_inputs rt es seen
          else [(''traceability_lot_code'', PStr seg), (''quantity'', PFloat (Fin 1)), (''unit_of_measure'', PStr ''each''),
                (''epc'', PStr (py_str rt e))] # legacy_epc_inputs rt es (seg # seen))"

definition legacy_transformation_inputs :: "pyrt \<Rightarrow> pydict \<Rightarrow> py_error + pydict list" where
  "legacy_transformation_inputs rt d =
     and_then (legacy_class_inputs rt (epcis_list d ''inputQuantityList'') []) (\<lambda>(xs, seen).
       Inr (xs @ legacy_epc_inputs rt (epcis_list d ''inputEPCList'') seen))"

text \<open>With the lossless identity: the key of an input and its token.\<close>

definition class_key :: "can_env \<Rightarrow> pyval \<Rightarrow> (string \<times> string) option" where
  "class_key env c =
     (case normalize_epcis_lot (ce_dec env) True c None of
        Some i \<Rightarrow> if li_lot_token i = [] then None else Some (li_canonical_id i, li_lot_token i)
      | None \<Rightarrow> map_option (\<lambda>t. (t, t)) (epc_last_segment (ce_rt env) c))"

fun class_inputs :: "can_env \<Rightarrow> pyval list \<Rightarrow> string list \<Rightarrow> py_error + pydict list" where
  "class_inputs env [] seen = Inr []"
| "class_inputs env (PDict e # es) seen =
     (case class_key env (fetch e ''epcClass'') of
        None \<Rightarrow> class_inputs env es seen
      | Some (key, token) \<Rightarrow>
          if key \<in> set seen then class_inputs env es seen
          else and_then (input_quantity (fetch e ''quantity'')) (\<lambda>q.
            and_then (class_inputs env es (key # seen)) (\<lambda>rest.
              Inr ([(''traceability_lot_code'', PStr key), (''lot_token'', PStr token), (''quantity'', opt_number q),
                    (''unit_of_measure'', input_unit (fetch e ''uom'') q), (''epc_class'', fetch e ''epcClass'')] # rest))))"
| "class_inputs env (_ # es) seen = class_inputs env es seen"

definition epc_token :: "can_env \<Rightarrow> pyval \<Rightarrow> string option" where
  "epc_token env e =
     (case normalize_epcis_lot (ce_dec env) True e None of
        Some i \<Rightarrow> if li_lot_token i = [] then None else Some (li_lot_token i)
      | None \<Rightarrow> epc_last_segment (ce_rt env) e)"

fun epc_inputs :: "can_env \<Rightarrow> pyval list \<Rightarrow> string list \<Rightarrow> pydict list" where
  "epc_inputs env [] seen = []"
| "epc_inputs env (e # es) seen =
     (let key = strip_text (ce_rt env) e
      in case epc_token env e of
           None \<Rightarrow> epc_inputs env es seen
         | Some token \<Rightarrow>
             if key \<in> set seen then epc_inputs env es seen
             else [(''traceability_lot_code'', PStr key), (''lot_token'', PStr token), (''quantity'', PFloat (Fin 1)),
                   (''unit_of_measure'', PStr ''each''), (''epc'', PStr (py_str (ce_rt env) e))] # epc_inputs env es (key # seen))"

definition epcis_transformation_inputs :: "can_env \<Rightarrow> pydict \<Rightarrow> py_error + pydict list" where
  "epcis_transformation_inputs env d =
     (if lossless_enabled (ce_lossless env) then
        and_then (class_inputs env (epcis_list d ''inputQuantityList'') []) (\<lambda>xs. Inr (xs @ epc_inputs env (epcis_list d ''inputEPCList'') []))
      else legacy_transformation_inputs (ce_rt env) d)"

section \<open>The event\<close>

definition object_of :: "pyval \<Rightarrow> py_error + pydict" where
  "object_of v = (if \<not> truthy v then Inr [] else case v of PDict d \<Rightarrow> Inr d | _ \<Rightarrow> Inl TypeError)"

definition update_dict :: "pydict \<Rightarrow> pydict \<Rightarrow> pydict" where
  "update_dict d e = foldl (\<lambda>d (k, v). put k v d) d e"

definition epcis_kdes :: "can_env \<Rightarrow> pydict \<Rightarrow> CTEType \<Rightarrow> string option \<Rightarrow> py_error + pydict" where
  "epcis_kdes env d ty gtin =
     and_then (object_of (fetch d ''ilmd'')) (\<lambda>ilmd. and_then (object_of (fetch d ''extension'')) (\<lambda>ext.
       let kdes = update_dict (if str_or gtin [] = [] then [] else [(''gtin'', PStr (the gtin))]) (update_dict ilmd ext)
       in if ty \<noteq> Transformation then Inr kdes
          else and_then (epcis_transformation_inputs env d) (\<lambda>inputs.
            Inr (if inputs = [] then kdes
                 else set_default ''input_lot_codes'' (PList (map (\<lambda>e. fetch e ''traceability_lot_code'') inputs))
                        (put ''inputs'' (PList (map PDict inputs)) kdes)))))"

definition place_of :: "pydict \<Rightarrow> string \<Rightarrow> pyval" where
  "place_of d k = (case fetch d k of PDict p \<Rightarrow> fetch p ''id'' | v \<Rightarrow> v)"

definition normalize_epcis_event :: "can_env \<Rightarrow> string \<Rightarrow> pydict \<Rightarrow> string \<Rightarrow> string option \<Rightarrow> py_error + TraceabilityEvent" where
  "normalize_epcis_event env uid d t run_id =
     (let biz_step = dict_get d ''bizStep'' (PStr [])
      in and_then (resolve_bizstep env biz_step) (\<lambda>ty.
         and_then (epcis_lot_code env d) (\<lambda>(tlc, gtin).
         if length tlc < 3
         then Inl (ValueError (''EPCIS lot identifier '' @ ce_repr env (PStr tlc) @ '' is shorter than 3 characters; refusing to rewrite it''))
         else if \<not> truthy (fetch d ''eventTime'')
         then Inl (ValueError ''EPCIS event has no eventTime; refusing to stamp the current time as the event time'')
         else
         and_then (epcis_kdes env d ty gtin) (\<lambda>kdes.
         and_then (uuid_of env t) (\<lambda>tenant.
         and_then (opt_uuid_of env run_id) (\<lambda>run.
         and_then (require_epcis_quantity d) (\<lambda>q.
         and_then (epcis_unit_of_measure env d) (\<lambda>uom.
         and_then (make_event env (fetch d ''eventTime'')
           ((blank_event uid tenant Epcis_Api ty)\<lparr>cv_source_record_id := fetch d ''eventID'', cv_ingestion_run_id := run,
              cv_event_timezone := dict_get d ''eventTimeZoneOffset'' (PStr ''UTC''),
              cv_product_reference := dict_get d ''productDescription'' (dict_get kdes ''gtin'' (PStr [])), cv_lot_reference := PStr tlc,
              cv_traceability_lot_code := tlc, cv_quantity := q, cv_unit_of_measure := uom,
              cv_from_facility := place_of d ''readPoint'', cv_to_facility := place_of d ''bizLocation'', cv_kdes := kdes, cv_raw_payload := d,
              cv_provenance := \<lparr>pm_source_file_name = None, pm_mapper_name = ''epcis_normalizer'', pm_mapper_version = ''1.0.0'',
                pm_rules_applied = [''epcis_bizstep_mapping'', ''epc_uri_parsing''],
                pm_original_format = (if truthy (fetch d ''_xml_source'') then ''epcis_xml'' else ''epcis_json'')\<rparr>,
              cv_epcis_event_type := dict_get d ''type'' (fetch d ''eventType''), cv_epcis_action := fetch d ''action'',
              cv_epcis_biz_step := biz_step\<rparr>))
         (prepare_for_persistence env)))))))))"

end
