(* ===== verification/EpcisIngest.thy ===== *)
theory EpcisIngest
  imports EpcisCanonical
begin

text \<open>
  \<^verbatim>\<open>services/ingestion/app/epcis/extraction.py\<close> and \<^verbatim>\<open>normalization.py\<close>: the writer of the ingestion service, which turns the same EPCIS event
  into the row of the older event table, in the transaction that stores the canonical event. The last section compares the two writers.
\<close>

section \<open>Extraction (extraction.py)\<close>

definition present_ilmd_text :: "pyrt \<Rightarrow> pyval \<Rightarrow> string option" where
  "present_ilmd_text rt v = (if v = PNone \<or> v = PStr [] then None else Some (py_str rt v))"

definition local_name_of :: "string \<Rightarrow> string" where
  "local_name_of k = last (split_by (\<lambda>c. c = CHR '':'') k)"

definition lookup_ilmd :: "pyrt \<Rightarrow> pydict \<Rightarrow> string list \<Rightarrow> string \<Rightarrow> string" where
  "lookup_ilmd rt ilmd preferred local_name =
     (case first_some
        (map (\<lambda>k. case map_of ilmd k of None \<Rightarrow> None | Some v \<Rightarrow> present_ilmd_text rt v) preferred @
         map (\<lambda>(k, v). if k \<in> set preferred \<or> local_name_of k \<noteq> local_name then None else present_ilmd_text rt v) ilmd) of
        Some s \<Rightarrow> s | None \<Rightarrow> [])"

definition extract_lot_data :: "pyrt \<Rightarrow> pydict option \<Rightarrow> string \<times> string" where
  "extract_lot_data rt ilmd =
     (case ilmd of None \<Rightarrow> ([], [])
      | Some d \<Rightarrow>
          if d = [] then ([], [])
          else let lot_code = lookup_ilmd rt d [''cbvmda:lotNumber'', ''lotNumber''] ''lotNumber'';
                   tlc = lookup_ilmd rt d [''fsma:traceabilityLotCode'', ''traceabilityLotCode''] ''traceabilityLotCode''
               in (lot_code, if tlc = [] then lot_code else tlc))"

text \<open>\<open>s.split(c, 1)[0]\<close>\<close>

definition before_first :: "char \<Rightarrow> string \<Rightarrow> string" where
  "before_first c s = takeWhile (\<lambda>x. x \<noteq> c) s"

definition lot_from_digital_link :: "(nat list \<Rightarrow> string) \<Rightarrow> string \<Rightarrow> (string \<times> string) option" where
  "lot_from_digital_link dec s =
     (let segments = filter (\<lambda>x. x \<noteq> []) (split_by (\<lambda>c. c = CHR ''/'') (before_first CHR ''#'' (before_first CHR ''?'' s)));
          rest = dropWhile (\<lambda>x. x \<noteq> ''01'') segments
      in if length rest < 4 then None
         else let gtin = rest ! 1; lot = py_strip (unquote dec (rest ! 3))
              in if \<not> py_isdigit gtin \<or> length gtin < 8 \<or> 14 < length gtin then None
                 else if rest ! 2 \<noteq> ''10'' \<or> ''21'' \<in> set (drop 2 rest) \<or> lot = [] then None
                 else Some (lot, s))"

definition lot_from_identifier :: "(nat list \<Rightarrow> string) \<Rightarrow> pyval \<Rightarrow> (string \<times> string) option" where
  "lot_from_identifier dec v =
     (case v of
        PStr s \<Rightarrow>
          let t = py_strip s
          in if t = [] then None
             else (case match_epc lgtin_prefix t of
                     Some (_, _, raw) \<Rightarrow> if unquote dec raw = [] then None else Some (unquote dec raw, t)
                   | None \<Rightarrow> lot_from_digital_link dec t)
      | _ \<Rightarrow> None)"

definition identifier_strings :: "pyval \<Rightarrow> string list" where
  "identifier_strings v =
     (case v of
        PList xs \<Rightarrow>
          concat (map (\<lambda>x. case x of PStr s \<Rightarrow> if py_strip s = [] then [] else [py_strip s]
            | PDict d \<Rightarrow> (case fetch d ''epcClass'' of PStr s \<Rightarrow> if py_strip s = [] then [] else [py_strip s] | _ \<Rightarrow> [])
            | _ \<Rightarrow> []) xs)
      | _ \<Rightarrow> [])"

definition lot_level_identifiers :: "pydict \<Rightarrow> string list" where
  "lot_level_identifiers d =
     (if fetch d ''type'' = PStr ''TransformationEvent''
      then identifier_strings (fetch d ''outputQuantityList'') @ identifier_strings (fetch d ''outputEPCList'')
      else identifier_strings (fetch (object_in (fetch d ''extension'')) ''quantityList'') @
        concat (map (\<lambda>k. identifier_strings (fetch d k))
          [''quantityList'', ''childQuantityList'', ''outputQuantityList'', ''epcList'', ''childEPCs'', ''outputEPCList'']))"

definition ilmd_dict :: "pydict \<Rightarrow> pydict option" where
  "ilmd_dict d =
     (case fetch d ''ilmd'' of
        PDict (x # xs) \<Rightarrow> Some (x # xs)
      | v \<Rightarrow> (case fetch (object_in (fetch d ''extension'')) ''ilmd'' of
                PDict (y # ys) \<Rightarrow> Some (y # ys)
              | _ \<Rightarrow> (case v of PDict e \<Rightarrow> Some e | _ \<Rightarrow> None)))"

definition extract_event_lot :: "can_env \<Rightarrow> pydict \<Rightarrow> string \<times> string" where
  "extract_event_lot env d =
     (case extract_lot_data (ce_rt env) (ilmd_dict d) of
        (lot_code, tlc) \<Rightarrow>
          if tlc \<noteq> [] \<or> lot_code \<noteq> [] then (lot_code, tlc)
          else (case first_some (map (\<lambda>s. lot_from_identifier (ce_dec env) (PStr s)) (lot_level_identifiers d)) of
                  Some p \<Rightarrow> p | None \<Rightarrow> ([], [])))"

definition extract_location_id :: "pyrt \<Rightarrow> pydict \<Rightarrow> string \<Rightarrow> string" where
  "extract_location_id rt d k =
     (case dict_get d k (PDict []) of PDict p \<Rightarrow> if truthy (fetch p ''id'') then py_str rt (fetch p ''id'') else [] | _ \<Rightarrow> [])"

definition extract_party_id :: "pyrt \<Rightarrow> pydict \<Rightarrow> string \<Rightarrow> string \<Rightarrow> string" where
  "extract_party_id rt d k nested =
     (case dict_get d k (PList []) of
        PList (x # _) \<Rightarrow> let v = fetch (object_in x) nested in if truthy v then py_str rt v else []
      | _ \<Rightarrow> [])"

section \<open>Normalisation (normalization.py)\<close>

definition event_type_map :: "(string \<times> string) list" where
  "event_type_map =
     [(''urn:epcglobal:cbv:bizstep:receiving'', ''receiving''), (''urn:epcglobal:cbv:bizstep:shipping'', ''shipping''),
      (''urn:epcglobal:cbv:bizstep:transforming'', ''transformation''), (''urn:epcglobal:cbv:bizstep:commissioning'', ''initial_packing''),
      (''urn:epcglobal:cbv:bizstep:packing'', ''initial_packing''), (''urn:epcglobal:cbv:bizstep:harvesting'', ''harvesting''),
      (''urn:epcglobal:cbv:bizstep:planting'', ''growing''), (''urn:epcglobal:cbv:bizstep:storing'', ''cooling''),
      (''urn:epcglobal:cbv:bizstep:landing'', ''first_land_based_receiving''), (''urn:fsma:traceability:growing'', ''growing''),
      (''urn:fsma:traceability:harvesting'', ''harvesting''), (''urn:fsma:traceability:cooling'', ''cooling''),
      (''urn:fsma:traceability:initial_packing'', ''initial_packing''),
      (''urn:fsma:traceability:first_land_based_receiving'', ''first_land_based_receiving''), (''urn:fsma:traceability:shipping'', ''shipping''),
      (''urn:fsma:traceability:receiving'', ''receiving''), (''urn:fsma:traceability:transformation'', ''transformation'')]"

definition cbv_bizstep_prefix :: string where
  "cbv_bizstep_prefix = ''urn:epcglobal:cbv:bizstep:''"

definition bare_bizstep :: "string \<Rightarrow> bool" where
  "bare_bizstep s \<longleftrightarrow> s \<noteq> [] \<and> is_ascii_alpha (hd s) \<and> list_all (\<lambda>c. is_ascii_alpha c \<or> is_dec_digit c \<or> c = CHR ''_'') s"

definition web_bizstep_name :: "string \<Rightarrow> string option" where
  "web_bizstep_name lowered =
     first_some (map (\<lambda>m. if prefix m lowered
         then Some (before_first CHR ''#'' (before_first CHR ''?'' (before_first CHR ''/'' (drop (length m) lowered)))) else None)
       [''https://ref.gs1.org/cbv/bizstep-'', ''http://ref.gs1.org/cbv/bizstep-''])"

definition canonical_bizstep :: "pyrt \<Rightarrow> pyval \<Rightarrow> string" where
  "canonical_bizstep rt v =
     (if v = PNone then []
      else let raw = py_strip (py_str rt v); lowered = py_lower raw
           in if raw = [] then []
              else if prefix cbv_bizstep_prefix lowered then lowered
              else if prefix ''urn:'' lowered then raw
              else case web_bizstep_name lowered of
                     Some name \<Rightarrow> if name = [] then raw else cbv_bizstep_prefix @ name
                   | None \<Rightarrow> if bare_bizstep raw then cbv_bizstep_prefix @ lowered else raw)"

definition event_idempotency_key :: "can_env \<Rightarrow> pydict \<Rightarrow> string" where
  "event_idempotency_key env d =
     (if truthy (fetch d ''eventID'') then py_str (ce_rt env) (fetch d ''eventID'') else ce_H env (ce_json_compact env (PDict d)))"

definition quantity_list :: "pydict \<Rightarrow> pyval list" where
  "quantity_list d =
     (case first_some (map (\<lambda>v. if truthy v then Some v else None)
        [fetch (object_in (fetch d ''extension'')) ''quantityList'', fetch d ''quantityList'', fetch d ''childQuantityList'',
         fetch d ''outputQuantityList'', fetch d ''inputQuantityList'']) of
        Some (PList xs) \<Rightarrow> xs | _ \<Rightarrow> [])"

definition quantity_element :: "can_env \<Rightarrow> pydict \<Rightarrow> pydict option" where
  "quantity_element env d =
     (case quantity_list d of
        PDict e # es \<Rightarrow>
          (case first_some (map (\<lambda>x. case x of PDict f \<Rightarrow> if lot_from_identifier (ce_dec env) (fetch f ''epcClass'') \<noteq> None then Some f else None
              | _ \<Rightarrow> None) (PDict e # es)) of
             Some f \<Rightarrow> Some f | None \<Rightarrow> Some e)
      | _ \<Rightarrow> None)"

record epcis_cte =
  ec_event_type :: string
  ec_epcis_event_type :: pyval
  ec_epcis_action :: pyval
  ec_epcis_biz_step :: pyval
  ec_event_time :: pyval
  ec_event_timezone :: pyval
  ec_lot_code :: string
  ec_tlc :: string
  ec_product_id :: pyval
  ec_location_id :: string
  ec_source_location_id :: string
  ec_dest_location_id :: string
  ec_quantity :: pyval
  ec_unit_of_measure :: pyval

definition normalize_epcis_to_cte :: "can_env \<Rightarrow> pydict \<Rightarrow> py_error + epcis_cte" where
  "normalize_epcis_to_cte env d =
     (let rt = ce_rt env; (lot_code, tlc) = extract_event_lot env d; el = quantity_element env d
      in case map_of event_type_map (canonical_bizstep rt (fetch d ''bizStep'')) of
           None \<Rightarrow> Inl (HTTPException 400 ''unmapped_bizstep'')
         | Some ty \<Rightarrow>
             Inr \<lparr>ec_event_type = ty, ec_epcis_event_type = fetch d ''type'', ec_epcis_action = fetch d ''action'',
                  ec_epcis_biz_step = fetch d ''bizStep'', ec_event_time = fetch d ''eventTime'',
                  ec_event_timezone = dict_get d ''eventTimeZoneOffset'' (PStr ''+00:00''), ec_lot_code = lot_code, ec_tlc = tlc,
                  ec_product_id = (case dict_get d ''epcList'' (PList []) of PList (x # _) \<Rightarrow> x | _ \<Rightarrow> PNone),
                  ec_location_id = (if extract_location_id rt d ''bizLocation'' \<noteq> [] then extract_location_id rt d ''bizLocation''
                     else extract_location_id rt d ''readPoint''),
                  ec_source_location_id = extract_party_id rt d ''sourceList'' ''source'',
                  ec_dest_location_id = extract_party_id rt d ''destinationList'' ''destination'',
                  ec_quantity = (case el of Some e \<Rightarrow> fetch e ''quantity'' | None \<Rightarrow> PNone),
                  ec_unit_of_measure = (case el of Some e \<Rightarrow> fetch e ''uom'' | None \<Rightarrow> PNone)\<rparr>)"

record kde =
  kd_type :: string
  kd_value :: string
  kd_required :: bool

text \<open>\<open>key.split(":", 1)[-1]\<close>\<close>

definition after_colon :: "string \<Rightarrow> string" where
  "after_colon k = (case dropWhile (\<lambda>c. c \<noteq> CHR '':'') k of [] \<Rightarrow> k | _ # r \<Rightarrow> r)"

definition extract_kdes :: "pyrt \<Rightarrow> pydict \<Rightarrow> py_error + kde list" where
  "extract_kdes rt d =
     and_then
       (if truthy (fetch d ''ilmd'') then Inr (fetch d ''ilmd'')
        else and_then (py_get (dict_get d ''extension'' (PDict [])) ''ilmd'' PNone) (\<lambda>v. Inr (py_or v (PDict []))))
       (\<lambda>ilmd. case ilmd of
          PDict items \<Rightarrow>
            Inr (map (\<lambda>(k, v). \<lparr>kd_type = after_colon k, kd_value = py_str rt v,
                  kd_required = (after_colon k \<in> {''traceabilityLotCode'', ''lotNumber''})\<rparr>) (filter (\<lambda>(_, v). v \<noteq> PNone) items))
        | _ \<Rightarrow> Inl AttributeError)"

text \<open>The share of the required KDEs that are filled, before it is rounded to two places.\<close>

definition kde_completeness :: "kde list \<Rightarrow> rat" where
  "kde_completeness kdes =
     (let required = filter kd_required kdes
      in of_nat (length (filter (\<lambda>k. kd_value k \<noteq> []) required)) / of_nat (if required = [] then 1 else length required))"

definition compliance_alerts :: "epcis_cte \<Rightarrow> kde list \<Rightarrow> (string \<times> string \<times> string) list" where
  "compliance_alerts n kdes =
     (if ec_tlc n = [] then [(''critical'', ''missing_kde'', ''Traceability lot code is missing'')] else []) @
     (if ec_event_type n \<in> {''shipping'', ''receiving''} \<and> (ec_source_location_id n = [] \<or> ec_dest_location_id n = [])
      then [(''warning'', ''incomplete_route'', ''Shipping/receiving event is missing source or destination identifiers'')] else []) @
     (if kdes = [] then [(''warning'', ''missing_kde'', ''No ILMD KDE fields were provided'')] else [])"

section \<open>Nothing is made up\<close>

text \<open>
  What a document says, without regard to the order in which the code asks: the texts that may name the lot, and the quantities with their
  units. A unit may be missing in an element of a list, which then counts pieces, and not in the flat form.
\<close>

definition lot_texts :: "pydict \<Rightarrow> pyval list" where
  "lot_texts d =
     event_classes d @ event_epcs d @ map (fetch (object_in (fetch d ''ilmd''))) ilmd_keys @ map (fetch d) [''traceability_lot_code'', ''lotNumber'']"

definition quantity_elements :: "pydict \<Rightarrow> pyval list" where
  "quantity_elements d =
     epcis_list (object_in (fetch d ''extension'')) ''quantityList'' @ epcis_list d ''quantityList'' @ epcis_list d ''outputQuantityList'' @
     epcis_list d ''inputQuantityList''"

definition stated_unit :: "can_env \<Rightarrow> pyval \<Rightarrow> string" where
  "stated_unit env u = (if truthy u then py_str (ce_rt env) u else ''each'')"

definition states_quantity :: "can_env \<Rightarrow> pydict \<Rightarrow> pyfloat \<Rightarrow> string \<Rightarrow> bool" where
  "states_quantity env d q uom \<longleftrightarrow>
     (\<exists>e. PDict e \<in> set (quantity_elements d) \<and> to_float (fetch e ''quantity'') = Inr q \<and> uom = stated_unit env (fetch e ''uom'')) \<or>
     (\<exists>flat. fetch d ''quantity'' = PDict flat \<and> to_float (fetch flat ''value'') = Inr q \<and> truthy (fetch flat ''uom'') \<and>
        uom = stated_unit env (fetch flat ''uom''))"

text \<open>The text itself or its end, as it stands or with its percent signs decoded.\<close>

definition names_lot :: "can_env \<Rightarrow> string \<Rightarrow> pyval \<Rightarrow> bool" where
  "names_lot env tlc v \<longleftrightarrow> (\<exists>x. suffix x (strip_text (ce_rt env) v) \<and> (tlc = x \<or> tlc = unquote (ce_dec env) x))"

lemma first_someD: "first_some os = Some x \<Longrightarrow> Some x \<in> set os"
  by (induction os rule: first_some.induct) auto

lemma after_last_suffix: "after_last c s = Some x \<Longrightarrow> suffix x s"
  by (auto simp: after_last_def suffix_to_prefix takeWhile_is_prefix split: if_splits)

lemma names_whole: "names_lot env (strip_text (ce_rt env) v) v"
  by (auto simp: names_lot_def intro!: exI[of _ "strip_text (ce_rt env) v"])

lemma strip_Nil: "py_strip [] = []"
  by (simp add: py_strip_def rstrip_by_def)

lemma segment_names: "epc_last_segment (ce_rt env) v = Some x \<Longrightarrow> names_lot env x v"
  using after_last_suffix[of "CHR ''.''" "strip_text (ce_rt env) v" x]
  by (cases "truthy v") (auto simp: epc_last_segment_def names_lot_def strip_text_def py_or_def Let_def after_last_def strip_Nil split: if_splits option.splits)

lemma class_uri_names: "parse_class_uri dec v = Some i \<Longrightarrow> li_canonical_id i = strip_text rt v"
  by (cases v) (auto simp: parse_class_uri_def strip_text_def Let_def split: if_splits option.splits)

lemma token_names:
  assumes "lot_token_only (ce_dec env) v = Some x" "parse_class_uri (ce_dec env) v = None"
  shows "names_lot env x v"
  using assms after_last_suffix
  by (cases v) (fastforce simp: lot_token_only_def names_lot_def strip_text_def Let_def split: if_splits option.splits)+

lemma normalized_names:
  assumes "normalize_epcis_lot (ce_dec env) True v None = Some i"
  shows "names_lot env (li_canonical_id i) v"
proof (cases "parse_class_uri (ce_dec env) v")
  case None
  consider (serial) "\<exists>s. v = PStr s \<and> li_canonical_id i = py_strip s" | (token) "lot_token_only (ce_dec env) v = Some (li_canonical_id i)"
    using assms None
    by (auto simp: normalize_epcis_lot_def given_gtin_def str_or_def bare_identity_def Let_def split: option.splits if_splits pyval.splits)
  then show ?thesis
  proof cases
    case serial
    then have "li_canonical_id i = strip_text (ce_rt env) v" by (auto simp: strip_text_def)
    then show ?thesis using names_whole[of env v] by simp
  next
    case token
    then show ?thesis using None by (rule token_names)
  qed
next
  case (Some p)
  then have "li_canonical_id i = strip_text (ce_rt env) v"
    using assms class_uri_names[OF Some] by (auto simp: normalize_epcis_lot_def)
  then show ?thesis using names_whole[of env v] by simp
qed

lemma lossless_text_names:
  assumes "lossless_text env g d ks = Some (x, g')"
  shows "\<exists>v \<in> set (map (fetch d) ks). names_lot env x v"
proof -
  from assms obtain k where k: "List.find (\<lambda>k. nonblank (ce_rt env) (fetch d k)) ks = Some k" by (auto simp: lossless_text_def split: option.splits)
  then have "k \<in> set ks" by (auto simp: find_Some_iff)
  moreover have "names_lot env x (fetch d k)"
    using assms k names_whole normalized_names by (auto simp: lossless_text_def split: option.splits)
  ultimately show ?thesis by auto
qed

lemma lot_code_stated:
  assumes "epcis_lot_code env d = Inr (x, g)"
  shows "\<exists>v \<in> set (lot_texts d). names_lot env x v"
proof (cases "lossless_enabled (ce_lossless env)")
  case True
  define gtin where "gtin = lossless_gtin env (event_classes d @ event_epcs d)"
  have "Some (x, g) \<in> set [map_option (\<lambda>p. (li_canonical_id p, or_else (li_gtin p) gtin)) (first_some (map (parse_class_uri (ce_dec env)) (event_classes d @ event_epcs d))),
      lossless_text env gtin (object_in (fetch d ''ilmd'')) ilmd_keys, first_some (map (lossless_sgtin env gtin) (event_epcs d)),
      lossless_text env gtin d [''traceability_lot_code'', ''lotNumber'']]"
    using assms True by (intro first_someD) (simp add: epcis_lot_code_def lossless_lot_code_def gtin_def Let_def split: option.splits)
  then consider "Some (x, g) = map_option (\<lambda>p. (li_canonical_id p, or_else (li_gtin p) gtin)) (first_some (map (parse_class_uri (ce_dec env)) (event_classes d @ event_epcs d)))"
    | "Some (x, g) = lossless_text env gtin (object_in (fetch d ''ilmd'')) ilmd_keys"
    | "Some (x, g) = first_some (map (lossless_sgtin env gtin) (event_epcs d))"
    | "Some (x, g) = lossless_text env gtin d [''traceability_lot_code'', ''lotNumber'']"
    unfolding list.set insert_iff empty_iff by blast
  then show ?thesis
  proof cases
    case 1
    then obtain p where p: "first_some (map (parse_class_uri (ce_dec env)) (event_classes d @ event_epcs d)) = Some p" "x = li_canonical_id p"
      by (cases "first_some (map (parse_class_uri (ce_dec env)) (event_classes d @ event_epcs d))") simp_all
    obtain v where v: "v \<in> set (event_classes d @ event_epcs d)" "parse_class_uri (ce_dec env) v = Some p"
      using first_someD[OF p(1)] by (metis (no_types, lifting) in_set_conv_nth length_map nth_map)
    then have "names_lot env x v" using names_whole[of env v] class_uri_names[OF v(2), of "ce_rt env"] p(2) by simp
    then show ?thesis using v(1) by (auto simp: lot_texts_def)
  next
    case 2
    then show ?thesis using lossless_text_names[OF 2[symmetric]] by (auto simp: lot_texts_def)
  next
    case 3
    then obtain e where e: "e \<in> set (event_epcs d)" "lossless_sgtin env gtin e = Some (x, g)"
      using first_someD[OF 3[symmetric]] by (metis (no_types, lifting) in_set_conv_nth length_map nth_map)
    then have "names_lot env x e" using normalized_names segment_names by (auto simp: lossless_sgtin_def split: if_splits option.splits)
    then show ?thesis using e(1) by (auto simp: lot_texts_def)
  next
    case 4
    then show ?thesis using lossless_text_names[OF 4[symmetric]] by (auto simp: lot_texts_def)
  qed
next
  case False
  let ?rt = "ce_rt env"
  have field: "\<exists>v \<in> set (map (fetch e) ks). names_lot env x v" if "first_text ?rt e ks = Some x" for e ks
    using first_someD[OF that[unfolded first_text_def]] names_whole by (auto split: if_splits)
  have seg: "\<exists>v \<in> set vs. names_lot env x v" if "first_some (map (segment_of ?rt kind) vs) = Some x" for kind vs
    using first_someD[OF that] segment_names[OF sym] by (auto simp: segment_of_def split: if_splits)
  have "Some x \<in> set [first_text ?rt (object_in (fetch d ''ilmd'')) ilmd_keys, first_some (map (segment_of ?rt ''lgtin'') (event_epcs d @ event_classes d)),
      first_some (map (segment_of ?rt ''sgtin'') (event_epcs d)), first_text ?rt d [''traceability_lot_code'', ''lotNumber'']]"
    using assms False by (intro first_someD) (simp add: epcis_lot_code_def legacy_lot_code_def Let_def split: option.splits)
  then consider "Some x = first_text ?rt (object_in (fetch d ''ilmd'')) ilmd_keys" | "Some x = first_some (map (segment_of ?rt ''lgtin'') (event_epcs d @ event_classes d))"
    | "Some x = first_some (map (segment_of ?rt ''sgtin'') (event_epcs d))" | "Some x = first_text ?rt d [''traceability_lot_code'', ''lotNumber'']"
    unfolding list.set insert_iff empty_iff by blast
  then show ?thesis
  proof cases
    case 1
    then show ?thesis using field[OF 1[symmetric]] by (auto simp: lot_texts_def)
  next
    case 2
    then show ?thesis using seg[OF 2[symmetric]] by (auto simp: lot_texts_def)
  next
    case 3
    then show ?thesis using seg[OF 3[symmetric]] by (auto simp: lot_texts_def)
  next
    case 4
    then show ?thesis using field[OF 4[symmetric]] by (auto simp: lot_texts_def)
  qed
qed

lemma quantity_element_mem:
  assumes "epcis_quantity_element d = Inr (Some e)"
  shows "PDict e \<in> set (quantity_elements d)"
  using assms
  by (auto simp: epcis_quantity_element_def quantity_elements_def and_then_eq_Inr_iff py_get_def fetch_def object_in_def epcis_list_def dict_get_def
      first_truthy_def py_or_def split: pyval.splits list.splits option.splits if_splits)

lemma float_Some: "float_or_none v = Inr (Some q) \<Longrightarrow> to_float v = Inr q"
  by (auto simp: float_or_none_def split: sum.splits py_error.splits)

lemma quantity_stated:
  assumes "extract_epcis_quantity d = Inr (Some q)" "epcis_unit_of_measure env d = Inr uom"
  shows "states_quantity env d q uom"
proof -
  obtain el where el: "epcis_quantity_element d = Inr el" using assms(1) by (auto simp: extract_epcis_quantity_def and_then_eq_Inr_iff)
  show ?thesis
  proof (cases "\<exists>e. el = Some e \<and> fetch e ''quantity'' \<noteq> PNone")
    case True
    then obtain e where e: "el = Some e" "fetch e ''quantity'' \<noteq> PNone" by blast
    then have "to_float (fetch e ''quantity'') = Inr q" "uom = stated_unit env (fetch e ''uom'')"
      using assms el float_Some by (auto simp: extract_epcis_quantity_def epcis_unit_of_measure_def stated_unit_def py_or_def)
    then show ?thesis using quantity_element_mem[of d e] el e(1) by (auto simp: states_quantity_def)
  next
    case False
    then have "flat_quantity d = Inr (Some q)"
      using assms(1) el by (auto simp: extract_epcis_quantity_def split: option.splits)
    moreover have "(case fetch d ''quantity'' of PDict flat \<Rightarrow> if truthy (fetch flat ''uom'') then Inr (py_str (ce_rt env) (fetch flat ''uom'')) else Inl no_unit_error
        | _ \<Rightarrow> Inl no_unit_error) = Inr uom"
      using assms(2) el False by (auto simp: epcis_unit_of_measure_def split: option.splits)
    ultimately show ?thesis
      by (auto simp: flat_quantity_def states_quantity_def stated_unit_def float_Some split: pyval.splits if_splits)
  qed
qed

definition plain_step :: "pyrt \<Rightarrow> pyval \<Rightarrow> string" where
  "plain_step rt v = py_lower (strip_text rt v)"

lemma resolved_step:
  assumes "resolve_bizstep env b = Inr ty"
  shows "b \<noteq> PNone" "(plain_step (ce_rt env) b, Some ty) \<in> set bizstep_to_cte_type \<or> plain_step (ce_rt env) b = cte_value ty"
  using assms
  by (auto simp: resolve_bizstep_def plain_step_def strip_text_def cte_of_def find_Some_iff Let_def dest: map_of_SomeD split: if_splits option.splits)

text \<open>
  Claim C21 (safety). Nothing in an accepted EPCIS event is made up: the business step of the document, in lower case, is one that the table
  lists for the type of the event or the name of the type; the lot code has at least three characters and is a text in one of the places
  where the document may name a lot, or the end of one; quantity and unit are those of one quantity of the document, where an element of a list without
  a unit counts pieces; the time is its own; and the document is kept as the raw payload. A document that lacks one of them is refused.
\<close>

theorem epcis_event_not_completed:
  assumes "normalize_epcis_event env uid d t run_id = Inr ev"
  shows "((plain_step (ce_rt env) (fetch d ''bizStep''), Some (cv_event_type ev)) \<in> set bizstep_to_cte_type \<or>
      plain_step (ce_rt env) (fetch d ''bizStep'') = cte_value (cv_event_type ev)) \<and>
    list_ex (names_lot env (cv_traceability_lot_code ev)) (lot_texts d) \<and> 3 \<le> length (cv_traceability_lot_code ev) \<and>
    states_quantity env d (cv_quantity ev) (cv_unit_of_measure ev) \<and>
    truthy (fetch d ''eventTime'') \<and> parse_event_timestamp env (fetch d ''eventTime'') = Inr (cv_event_timestamp ev) \<and> cv_raw_payload ev = d"
proof -
  from assms obtain ty tlc gtin where ty: "resolve_bizstep env (dict_get d ''bizStep'' (PStr [])) = Inr ty"
    and lot: "epcis_lot_code env d = Inr (tlc, gtin)" and len: "\<not> length tlc < 3" and time: "truthy (fetch d ''eventTime'')"
    by (auto simp: normalize_epcis_event_def Let_def and_then_eq_Inr_iff split: if_splits)
  from assms obtain ev0 ev1 q uom where q: "require_epcis_quantity d = Inr q" and u: "epcis_unit_of_measure env d = Inr uom"
    and made: "make_event env (fetch d ''eventTime'') ev0 = Inr ev1"
    and ev0: "cv_event_type ev0 = ty" "cv_traceability_lot_code ev0 = tlc" "cv_quantity ev0 = q" "cv_unit_of_measure ev0 = uom" "cv_raw_payload ev0 = d"
    and prep: "prepare_for_persistence env ev1 = Inr ev"
    by (auto simp: normalize_epcis_event_def Let_def and_then_eq_Inr_iff ty lot blank_event_def split: if_splits)
  from made obtain s where s: "parse_event_timestamp env (fetch d ''eventTime'') = Inr s" and ev1: "ev1 = ev0\<lparr>cv_event_timestamp := s\<rparr>"
    unfolding make_Inr by blast
  have "extract_epcis_quantity d = Inr (Some q)"
    using q by (auto simp: require_epcis_quantity_def and_then_eq_Inr_iff split: option.splits)
  then have "states_quantity env d q uom" using u by (rule quantity_stated)
  moreover have "dict_get d ''bizStep'' (PStr []) = fetch d ''bizStep''"
    using ty by (auto simp: fetch_def dict_get_def resolve_bizstep_def strip_Nil Let_def split: option.splits)
  ultimately show ?thesis
    unfolding prepare_keeps[OF prep] using resolved_step[OF ty] lot_code_stated[OF lot] len time s by (auto simp: ev1 ev0 list_ex_iff)
qed

section \<open>Two writers of one event\<close>

lemma writer_tables:
  "map fst event_type_map = map fst bizstep_to_cte_type"
  "map (\<lambda>(k, s). (k, if s = ''growing'' then None else cte_of s)) event_type_map = bizstep_to_cte_type"
  by code_simp+

lemma tables_agree:
  assumes "map_of event_type_map k = Some s"
  shows "map_of bizstep_to_cte_type k = Some (if s = ''growing'' then None else cte_of s)"
proof -
  have "map_of (map (\<lambda>(k, s). (k, f s)) xs) k = map_option f (map_of xs k)" for f :: "string \<Rightarrow> CTEType option" and xs
    by (induction xs) auto
  from this[of "\<lambda>s. if s = ''growing'' then None else cte_of s" event_type_map] assms show ?thesis
    unfolding writer_tables(2) by simp
qed

lemma table_keys:
  assumes "map_of event_type_map k = Some s"
  shows "prefix ''urn:'' k \<and> py_lower k = k"
proof -
  have "list_all (\<lambda>k. prefix ''urn:'' k \<and> py_lower k = k) (map fst event_type_map)" by code_simp
  moreover have "k \<in> set (map fst event_type_map)" using assms by (force dest: map_of_SomeD)
  ultimately show ?thesis by (auto simp: list_all_iff)
qed

lemma cte_of_Some: "cte_of s = Some ty \<Longrightarrow> s = cte_value ty"
  by (auto simp: cte_of_def find_Some_iff)

lemma cte_value_of [simp]: "cte_of (cte_value ty) = Some ty"
  by (cases ty) (simp_all add: cte_of_def cte_types_def)

lemma bizstep_keys:
  assumes "map_of bizstep_to_cte_type k = Some x"
  shows "prefix ''urn:'' k"
proof -
  have "k \<in> set (map fst bizstep_to_cte_type)" using assms by (force dest: map_of_SomeD)
  then have "k \<in> set (map fst event_type_map)" by (simp only: writer_tables(1))
  then show ?thesis using table_keys by (metis (no_types, lifting) map_of_eq_None_iff option.exhaust set_map)
qed

lemma cte_values_plain:
  "\<not> prefix ''urn:'' (cte_value ty)" "web_bizstep_name (cte_value ty) = None"
  "map_of event_type_map (cbv_bizstep_prefix @ cte_value ty) = Some s \<Longrightarrow> s = cte_value ty"
proof -
  have all: "list_all (\<lambda>ty. \<not> prefix ''urn:'' (cte_value ty) \<and> web_bizstep_name (cte_value ty) = None \<and>
      map_of event_type_map (cbv_bizstep_prefix @ cte_value ty) \<in> {None, Some (cte_value ty)}) cte_types" by code_simp
  have "ty \<in> set cte_types" by (cases ty) (simp_all add: cte_types_def)
  with all show "\<not> prefix ''urn:'' (cte_value ty)" "web_bizstep_name (cte_value ty) = None"
    "map_of event_type_map (cbv_bizstep_prefix @ cte_value ty) = Some s \<Longrightarrow> s = cte_value ty"
    by (auto simp: list_all_iff)
qed

lemma resolve_Inr:
  assumes "resolve_bizstep env v = Inr ty"
  defines "raw \<equiv> py_strip (py_str (ce_rt env) v)"
  shows "v \<noteq> PNone \<and> raw \<noteq> [] \<and>
    (map_of bizstep_to_cte_type (py_lower raw) = Some (Some ty) \<or> map_of bizstep_to_cte_type (py_lower raw) = None \<and> py_lower raw = cte_value ty)"
  using assms(1) unfolding raw_def resolve_bizstep_def Let_def
  by (auto dest: cte_of_Some split: if_splits option.splits)

text \<open>
  When both writers accept the business step of an event, they agree on its type: the older row and the canonical event never
  carry different event types.
\<close>

theorem writers_agree_on_type:
  assumes "resolve_bizstep env v = Inr ty" "map_of event_type_map (canonical_bizstep (ce_rt env) v) = Some s"
  shows "s = cte_value ty"
proof -
  let ?raw = "py_strip (py_str (ce_rt env) v)"
  let ?low = "py_lower ?raw"
  have v: "v \<noteq> PNone" "?raw \<noteq> []" and r: "map_of bizstep_to_cte_type ?low = Some (Some ty) \<or>
      map_of bizstep_to_cte_type ?low = None \<and> ?low = cte_value ty"
    using resolve_Inr[OF assms(1)] by auto
  have same: "s = cte_value ty" if "map_of event_type_map ?low = Some s"
  proof -
    have "map_of bizstep_to_cte_type ?low = Some (if s = ''growing'' then None else cte_of s)" by (rule tables_agree[OF that])
    with r show ?thesis by (auto dest: cte_of_Some split: if_splits)
  qed
  have raw: ?thesis if "canonical_bizstep (ce_rt env) v = ?raw"
    using same table_keys[of ?raw s] assms(2) that by simp
  show ?thesis
  proof (cases "prefix ''urn:'' ?low")
    case True
    then have "canonical_bizstep (ce_rt env) v \<in> {?low, ?raw}" using v by (simp add: canonical_bizstep_def Let_def)
    then show ?thesis using raw same assms(2) by auto
  next
    case False
    then have "map_of bizstep_to_cte_type ?low = None" by (metis bizstep_keys option.exhaust)
    then have low: "?low = cte_value ty" using r by auto
    have "\<not> prefix cbv_bizstep_prefix ?low" using False by (auto simp: cbv_bizstep_prefix_def prefix_def)
    then have "canonical_bizstep (ce_rt env) v \<in> {?raw, cbv_bizstep_prefix @ ?low}"
      using False v cte_values_plain(2)[of ty] by (simp add: canonical_bizstep_def Let_def low)
    then show ?thesis using raw assms(2) cte_values_plain(3)[of ty s] by (auto simp: low)
  qed
qed

theorem writers_agree_on_type_witness: "''cooling'' = cte_value Cooling"
proof (rule writers_agree_on_type)
  show "resolve_bizstep sample_can_env (PStr ''urn:epcglobal:cbv:bizstep:Storing'') = Inr Cooling" by code_simp
  show "map_of event_type_map (canonical_bizstep (ce_rt sample_can_env) (PStr ''urn:epcglobal:cbv:bizstep:Storing'')) = Some ''cooling''" by code_simp
qed

text \<open>They do not accept the same steps: a web URI and the bare name of another step on one side, a bare event type and a capital letter on the other.\<close>

lemma writers_accept_different_steps:
  "map (\<lambda>s. (map_of event_type_map (canonical_bizstep example_rt (PStr s)) \<noteq> None, is_Inr (resolve_bizstep sample_can_env (PStr s))))
     [''https://ref.gs1.org/cbv/BizStep-receiving'', ''storing'', ''cooling'', ''URN:fsma:traceability:cooling''] =
   [(True, False), (True, False), (False, True), (False, True)]"
  by code_simp

text \<open>An event with a serialized class before the lot.\<close>

definition mixed_event :: pydict where
  "mixed_event =
     [(''type'', PStr ''ObjectEvent''), (''bizStep'', PStr ''urn:epcglobal:cbv:bizstep:shipping''), (''eventTime'', PStr ''2026-01-01''),
      (''quantityList'', PList [
         PDict [(''epcClass'', PStr ''urn:epc:idpat:sgtin:0614141.112345.*''), (''quantity'', PInt 12)],
         PDict [(''epcClass'', PStr ''urn:epc:class:lgtin:0614141.112345.LOT9''), (''quantity'', PInt 500), (''uom'', PStr ''KGM'')]])]"

text \<open>
  The two writers can store different quantities for one event: of an event with a serialized class before the lot, the older row
  gets the quantity and unit of the lot and the canonical event those of the first element.
\<close>

theorem writers_disagree_on_quantity:
  "map_option (\<lambda>e. (fetch e ''quantity'', fetch e ''uom'')) (quantity_element sample_can_env mixed_event) = Some (PInt 500, PStr ''KGM'') \<and>
   (case normalize_epcis_event sample_can_env ''u1'' mixed_event ''t1'' None of
      Inr ev \<Rightarrow> (cv_quantity ev, cv_unit_of_measure ev) = (Fin 12, ''each'') | Inl _ \<Rightarrow> False)"
proof
  show "map_option (\<lambda>e. (fetch e ''quantity'', fetch e ''uom'')) (quantity_element sample_can_env mixed_event) = Some (PInt 500, PStr ''KGM'')"
    by code_simp
  show "case normalize_epcis_event sample_can_env ''u1'' mixed_event ''t1'' None of
      Inr ev \<Rightarrow> (cv_quantity ev, cv_unit_of_measure ev) = (Fin 12, ''each'') | Inl _ \<Rightarrow> False"
    by code_simp
qed

theorem epcis_event_not_completed_witness:
  "\<exists>ev. normalize_epcis_event sample_can_env ''u1'' mixed_event ''t1'' None = Inr ev \<and> cv_raw_payload ev = mixed_event \<and>
     states_quantity sample_can_env mixed_event (cv_quantity ev) (cv_unit_of_measure ev) \<and>
     list_ex (names_lot sample_can_env (cv_traceability_lot_code ev)) (lot_texts mixed_event)"
proof -
  have "is_Inr (normalize_epcis_event sample_can_env ''u1'' mixed_event ''t1'' None)" by code_simp
  then obtain ev where "normalize_epcis_event sample_can_env ''u1'' mixed_event ''t1'' None = Inr ev" using is_InrD by blast
  with epcis_event_not_completed[OF this] show ?thesis by blast
qed

text \<open>An explicit null as extension makes the canonical writer raise an exception that is not a refusal.\<close>

lemma null_extension_crashes:
  "normalize_epcis_event sample_can_env ''u1'' (put ''extension'' PNone mixed_event) ''t1'' None = Inl AttributeError"
  "is_Inr (normalize_epcis_to_cte sample_can_env (put ''extension'' PNone mixed_event))"
  by code_simp+

text \<open>Two inputs of different products that share a lot number: the resolver that is on by default keeps one of them.\<close>

lemma inputs_of_two_products_merge:
  "(case epcis_transformation_inputs sample_can_env
       [(''inputQuantityList'', PList [PDict [(''epcClass'', PStr ''urn:epc:class:lgtin:0614141.112345.LOT9''), (''quantity'', PInt 5)],
          PDict [(''epcClass'', PStr ''urn:epc:class:lgtin:0614141.998877.LOT9''), (''quantity'', PInt 7)]])] of
      Inr xs \<Rightarrow> map (\<lambda>x. (fetch x ''traceability_lot_code'', fetch x ''quantity'')) xs | Inl _ \<Rightarrow> []) =
   [(PStr ''LOT9'', PFloat (Fin 5))]"
  by code_simp

end
