(* ===== verification/SequenceMatcher.thy ===== *)
theory SequenceMatcher
  imports PyBase
begin

text \<open>
  The similarity of two texts as \<open>difflib.SequenceMatcher(None, a, b).ratio()\<close> of the standard library
  computes it: the longest block that the texts share, found row by row with the lengths of the common
  runs that end at each position, then the same to the left and to the right of it. Characters that are
  popular in a second text of 200 characters or more start no block. Used by the fuzzy matching of the identity resolution.
  Shown: a block lies within both texts, the ratio is between 0 and 1, and equal short texts have ratio 1.
\<close>

section \<open>The longest block\<close>

text \<open>The elements that \<open>autojunk\<close> removes from the index of \<open>b\<close>.\<close>

definition popular :: "string \<Rightarrow> char \<Rightarrow> bool" where
  "popular b c \<longleftrightarrow> 200 \<le> length b \<and> length b div 100 + 1 < count_list b c"

text \<open>\<open>newj2len\<close>: the length of the common run that ends here, from the row of the character before.\<close>

definition next_row :: "(char \<Rightarrow> bool) \<Rightarrow> char \<Rightarrow> string \<Rightarrow> nat list \<Rightarrow> nat list" where
  "next_row pop c b old = map2 (\<lambda>x n. if x = c \<and> \<not> pop x then Suc n else 0) b (0 # old)"

definition improve :: "nat \<Rightarrow> nat \<times> nat \<Rightarrow> nat \<times> nat \<times> nat \<Rightarrow> nat \<times> nat \<times> nat" where
  "improve i = (\<lambda>(j, n) (bi, bj, bn). if bn < n then (Suc i - n, Suc j - n, n) else (bi, bj, bn))"

fun scan_rows :: "(char \<Rightarrow> bool) \<Rightarrow> string \<Rightarrow> nat \<Rightarrow> string \<Rightarrow> nat list \<Rightarrow> nat \<times> nat \<times> nat \<Rightarrow> nat \<times> nat \<times> nat" where
  "scan_rows pop b i [] old best = best"
| "scan_rows pop b i (c # a) old best =
     (let new = next_row pop c b old in scan_rows pop b (Suc i) a new (fold (improve i) (enumerate 0 new) best))"

text \<open>How far two texts agree from their start.\<close>

fun common_prefix :: "string \<Rightarrow> string \<Rightarrow> nat" where
  "common_prefix (x # a) (y # b) = (if x = y then Suc (common_prefix a b) else 0)"
| "common_prefix _ _ = 0"

definition find_longest_match :: "(char \<Rightarrow> bool) \<Rightarrow> string \<Rightarrow> string \<Rightarrow> nat \<times> nat \<times> nat" where
  "find_longest_match pop a b =
     (let (i, j, n) = scan_rows pop b 0 a (replicate (length b) 0) (0, 0, 0);
          l = common_prefix (rev (take i a)) (rev (take j b));
          r = common_prefix (drop (i + n) a) (drop (j + n) b)
      in (i - l, j - l, n + l + r))"

lemma length_next_row [simp]: "length old = length b \<Longrightarrow> length (next_row pop c b old) = length b"
  by (simp add: next_row_def)

lemma nth_next_row:
  "length old = length b \<Longrightarrow> j < length b \<Longrightarrow>
   next_row pop c b old ! j = (if b ! j = c \<and> \<not> pop (b ! j) then Suc ((0 # old) ! j) else 0)"
  by (simp add: next_row_def)

text \<open>A run that ends at \<open>j\<close> in row \<open>i\<close> starts within both texts.\<close>

definition run_row :: "nat \<Rightarrow> nat list \<Rightarrow> bool" where
  "run_row i row \<longleftrightarrow> (\<forall>j < length row. row ! j \<le> i \<and> row ! j \<le> Suc j)"

lemma run_row_next:
  assumes "length old = length b" "run_row i old"
  shows "run_row (Suc i) (next_row pop c b old)"
  unfolding run_row_def
proof (intro allI impI)
  fix j
  assume "j < length (next_row pop c b old)"
  then have j: "j < length b" using assms(1) by simp
  have "(0 # old) ! j \<le> i \<and> (0 # old) ! j \<le> j"
    using assms j by (cases j) (auto simp: run_row_def)
  then show "next_row pop c b old ! j \<le> Suc i \<and> next_row pop c b old ! j \<le> Suc j"
    using assms(1) j by (simp add: nth_next_row)
qed

definition fits :: "nat \<Rightarrow> nat \<Rightarrow> nat \<times> nat \<times> nat \<Rightarrow> bool" where
  "fits la lb = (\<lambda>(i, j, n). i + n \<le> la \<and> j + n \<le> lb)"

lemma fits_mono: "fits la lb m \<Longrightarrow> la \<le> la' \<Longrightarrow> fits la' lb m"
  by (auto simp: fits_def)

lemma improve_fold:
  assumes "\<forall>(j, n) \<in> set xs. n \<le> Suc i \<and> n \<le> Suc j \<and> j < lb" "fits (Suc i) lb best"
  shows "fits (Suc i) lb (fold (improve i) xs best)"
  using assms
proof (induction xs arbitrary: best)
  case (Cons x xs)
  have "fits (Suc i) lb (improve i x best)"
    using Cons.prems by (cases x; cases best) (auto simp: improve_def fits_def)
  then show ?case using Cons by simp
qed simp

text \<open>The best run is at least as long as every entry of the rows.\<close>

definition size_of :: "nat \<times> nat \<times> nat \<Rightarrow> nat" where
  "size_of = (\<lambda>(i, j, n). n)"

lemma size_improve: "size_of best \<le> size_of (improve i x best)" "snd x \<le> size_of (improve i x best)"
  by (cases x; cases best; simp add: improve_def size_of_def)+

lemma size_fold: "size_of best \<le> size_of (fold (improve i) xs best)"
proof (induction xs arbitrary: best)
  case (Cons x xs)
  show ?case using order_trans[OF size_improve(1)[of best i x] Cons.IH[of "improve i x best"]] by simp
qed simp

lemma size_fold_member: "x \<in> set xs \<Longrightarrow> snd x \<le> size_of (fold (improve i) xs best)"
proof (induction xs arbitrary: best)
  case (Cons y xs)
  show ?case
  proof (cases "x = y")
    case True
    then show ?thesis using order_trans[OF size_improve(2)[of y i best] size_fold[of "improve i y best" i xs]] by simp
  next
    case False
    then show ?thesis using Cons by (simp del: split_paired_All)
  qed
qed simp

lemma in_enumerate: "x \<in> set (enumerate 0 row) \<longleftrightarrow> fst x < length row \<and> snd x = row ! fst x"
  by (cases x) (auto simp: in_set_enumerate_eq)

lemma scan_rows_within:
  assumes "length old = length b" "run_row i old" "fits i (length b) best"
  shows "fits (i + length a) (length b) (scan_rows pop b i a old best)"
  using assms
proof (induction a arbitrary: i old best)
  case (Cons c a)
  let ?new = "next_row pop c b old"
  have ok: "run_row (Suc i) ?new" using Cons.prems by (intro run_row_next)
  have "\<forall>(j, n) \<in> set (enumerate 0 ?new). n \<le> Suc i \<and> n \<le> Suc j \<and> j < length b"
    using ok Cons.prems(1) by (auto simp: in_set_enumerate_eq run_row_def)
  then have "fits (Suc i) (length b) (fold (improve i) (enumerate 0 ?new) best)"
    using Cons.prems(3) by (intro improve_fold) (auto intro: fits_mono)
  then show ?case using Cons.IH[OF _ ok] Cons.prems(1) by (simp add: Let_def)
qed simp

lemma common_prefix_le: "common_prefix a b \<le> length a" "common_prefix a b \<le> length b"
  by (induction a b rule: common_prefix.induct) auto

lemma find_longest_match_within: "fits (length a) (length b) (find_longest_match pop a b)"
proof -
  obtain i j n where scan: "scan_rows pop b 0 a (replicate (length b) 0) (0, 0, 0) = (i, j, n)" by (metis prod_cases3)
  have "fits (0 + length a) (length b) (scan_rows pop b 0 a (replicate (length b) 0) (0, 0, 0))"
    by (rule scan_rows_within) (auto simp: run_row_def fits_def)
  then have "i + n \<le> length a" "j + n \<le> length b" unfolding scan by (simp_all add: fits_def)
  moreover have "common_prefix (rev (take i a)) (rev (take j b)) \<le> i" "common_prefix (rev (take i a)) (rev (take j b)) \<le> j"
    using common_prefix_le[of "rev (take i a)" "rev (take j b)"] by simp_all
  moreover have "common_prefix (drop (i + n) a) (drop (j + n) b) \<le> length a - (i + n)"
    "common_prefix (drop (i + n) a) (drop (j + n) b) \<le> length b - (j + n)"
    using common_prefix_le[of "drop (i + n) a" "drop (j + n) b"] by simp_all
  ultimately show ?thesis by (auto simp: find_longest_match_def scan fits_def Let_def)
qed

section \<open>All blocks\<close>

text \<open>
  The sum of the sizes of \<open>get_matching_blocks\<close>, over parts of the two texts; which characters are popular was
  decided for the whole second text.
\<close>

function matches :: "(char \<Rightarrow> bool) \<Rightarrow> string \<Rightarrow> string \<Rightarrow> nat" where
  "matches pop a b =
     (case find_longest_match pop a b of (i, j, n) \<Rightarrow>
        if n = 0 then 0 else n + matches pop (take i a) (take j b) + matches pop (drop (i + n) a) (drop (j + n) b))"
  by pat_completeness auto
termination
proof (relation "measure (\<lambda>(pop, a, b). length a)", goal_cases)
  case (2 pop a b i t j n)
  then show ?case using find_longest_match_within[of a b pop] by (auto simp: fits_def)
next
  case (3 pop a b i t j n)
  then show ?case using find_longest_match_within[of a b pop] by (auto simp: fits_def)
qed simp

declare matches.simps [simp del]

lemma matches_le: "matches pop a b \<le> length a \<and> matches pop a b \<le> length b"
proof (induction pop a b rule: matches.induct)
  case (1 pop a b)
  obtain i j n where m: "find_longest_match pop a b = (i, j, n)" by (metis prod_cases3)
  have "i + n \<le> length a" "j + n \<le> length b" using find_longest_match_within[of a b pop] by (simp_all add: m fits_def)
  then show ?case using 1[OF m[symmetric] refl] by (subst (1 2) matches.simps) (auto simp: m)
qed

definition ratio :: "string \<Rightarrow> string \<Rightarrow> pyfloat" where
  "ratio a b =
     (let n = length a + length b
      in if n = 0 then Fin 1 else fdiv_by (fmul (Fin 2) (Fin (of_nat (matches (popular b) a b)))) (of_nat n))"

section \<open>The ratio of equal texts\<close>

lemma scan_rows_size: "size_of best \<le> size_of (scan_rows pop b i a old best)"
proof (induction a arbitrary: i old best)
  case (Cons c a)
  let ?best = "fold (improve i) (enumerate 0 (next_row pop c b old)) best"
  show ?case using order_trans[OF size_fold Cons.IH[of ?best "Suc i" "next_row pop c b old"]] by (simp add: Let_def)
qed simp

text \<open>Without popular characters the runs along the diagonal of equal texts grow by one in each row.\<close>

lemma scan_rows_diagonal:
  assumes "length old = length b" "a = drop i b" "0 < i \<longrightarrow> i \<le> length b \<longrightarrow> old ! (i - 1) = i" "a \<noteq> []"
  shows "length b \<le> size_of (scan_rows (\<lambda>_. False) b i a old best)"
  using assms
proof (induction a arbitrary: i old best)
  case (Cons c a)
  let ?new = "next_row (\<lambda>_. False) c b old"
  have i: "i < length b" and c: "b ! i = c" and a: "a = drop (Suc i) b"
    using Cons.prems(2) by (metis drop_all list.distinct(1) not_le, metis nth_via_drop, metis drop_Suc list.sel(3) tl_drop)
  have new: "?new ! i = Suc i"
    using Cons.prems(1,3) i c by (cases i) (auto simp: nth_next_row)
  show ?case
  proof (cases "a = []")
    case True
    then have "length b = Suc i" using a i by simp
    moreover have "Suc i \<le> size_of (fold (improve i) (enumerate 0 ?new) best)"
      using size_fold_member[of "(i, Suc i)" "enumerate 0 ?new" i best] new i Cons.prems(1) by (simp add: in_enumerate)
    ultimately show ?thesis using True by (simp add: Let_def)
  next
    case False
    then show ?thesis
      using Cons.IH[of ?new "Suc i" "fold (improve i) (enumerate 0 ?new) best"] a new Cons.prems(1) False by (simp add: Let_def)
  qed
qed simp

lemma matches_self:
  "matches (\<lambda>_. False) a a = length a"
proof (cases "a = []")
  case True
  then show ?thesis using matches_le[of "\<lambda>_. False" a a] by simp
next
  case False
  obtain i j n where scan: "scan_rows (\<lambda>_. False) a 0 a (replicate (length a) 0) (0, 0, 0) = (i, j, n)" by (metis prod_cases3)
  have "length a \<le> n"
    using scan_rows_diagonal[of "replicate (length a) 0" a a 0 "(0, 0, 0)"] False by (simp add: scan size_of_def)
  moreover obtain i' j' n' where m: "find_longest_match (\<lambda>_. False) a a = (i', j', n')" by (metis prod_cases3)
  moreover have "n \<le> n'" using m by (auto simp: find_longest_match_def scan Let_def)
  moreover have "n' \<le> length a" using find_longest_match_within[of a a "\<lambda>_. False"] by (simp add: m fits_def)
  ultimately have "n' = length a" by simp
  then have "length a \<le> matches (\<lambda>_. False) a a" by (subst matches.simps) (simp add: m)
  then show ?thesis using matches_le[of "\<lambda>_. False" a a] by simp
qed

section \<open>Bounds of the ratio\<close>

lemma round_half_even_le: "x \<le> of_int n \<Longrightarrow> round_half_even x \<le> n"
proof -
  assume x: "x \<le> of_int n"
  show ?thesis
  proof (cases "x = of_int n")
    case False
    then have "\<lfloor>x\<rfloor> < n" using x by (simp add: floor_less_iff)
    then show ?thesis by (auto simp: round_half_even_def Let_def)
  qed simp
qed

lemma round_half_even_nonneg: "0 \<le> x \<Longrightarrow> 0 \<le> round_half_even x"
  by (auto simp: round_half_even_def Let_def)

lemma round_double_unit:
  assumes "0 \<le> q" "q \<le> 1"
  shows "\<exists>r. round_double q = Fin r \<and> 0 \<le> r \<and> r \<le> 1"
proof (cases "q = 0 \<or> q = 1")
  case True
  then show ?thesis using round_double_of_int[of 1] round_double_of_int[of 0] by fastforce
next
  case False
  then have q: "0 < q" "q < 1" using assms by auto
  define u where "u = max (binexp q - 52) (- 1074)"
  have "pow2 (binexp q) < pow2 0" using binexp_bounds(1)[OF q(1)] q(2) by (simp add: pow2_def[of 0])
  then have u: "u \<le> 0" by (simp add: pow2_less_iff u_def)
  have ulp: "ulp q = pow2 u" by (simp add: ulp_def u_def)
  have one: "pow2 u * of_int (2 ^ nat (- u)) = 1" using u by (simp add: pow2_def)
  have "q / pow2 u \<le> of_int (2 ^ nat (- u))"
    using q(2) one by (simp add: pos_divide_le_eq mult.commute)
  then have "of_int (round_half_even (q / pow2 u)) \<le> (of_int (2 ^ nat (- u)) :: rat)"
    by (simp only: of_int_le_iff round_half_even_le)
  then have "of_int (round_half_even (q / pow2 u)) * pow2 u \<le> of_int (2 ^ nat (- u)) * pow2 u"
    by (rule mult_right_mono) (simp add: less_imp_le)
  then have le: "round_pos q \<le> 1" using one by (simp only: round_pos_def ulp mult.commute)
  have ge: "0 \<le> round_pos q"
    using q(1) by (simp add: round_pos_def ulp round_half_even_nonneg less_imp_le)
  have "(1::rat) < pow2 1024" using pow2_less_iff[of 0 1024] by (simp add: pow2_def[of 0])
  then have "\<not> pow2 1024 \<le> round_pos q" using le by (meson not_le order.strict_trans1)
  then show ?thesis using q le ge by (auto simp: round_double_def Let_def)
qed

lemma ratio_unit:
  assumes "length a + length b < 2 ^ 50"
  shows "\<exists>r. ratio a b = Fin r \<and> 0 \<le> r \<and> r \<le> 1"
proof (cases "length a + length b = 0")
  case True
  then show ?thesis by (simp add: ratio_def)
next
  case False
  let ?m = "matches (popular b) a b" and ?n = "length a + length b"
  have m: "2 * ?m \<le> ?n" using matches_le[of "popular b" a b] by linarith
  have "fmul (Fin 2) (Fin (of_nat ?m)) = round_double (of_int (2 * int ?m))" by simp
  also have "\<dots> = Fin (of_int (2 * int ?m))" using m assms by (intro round_double_of_int) simp
  finally have "ratio a b = round_double (of_int (2 * int ?m) / of_nat ?n)" 
    using False by (auto simp: ratio_def Let_def)
  moreover have "(of_int (2 * int ?m) :: rat) \<le> of_nat ?n" using m by (simp flip: of_nat_mult of_nat_add)
  then have "(of_int (2 * int ?m) / of_nat ?n :: rat) \<le> 1" using False by (intro mult_imp_div_pos_le) (auto simp del: of_nat_add simp: of_nat_0_less_iff)
  ultimately show ?thesis using round_double_unit[of "of_int (2 * int ?m) / of_nat ?n"] by simp
qed

lemma ratio_self:
  assumes "length a < 200"
  shows "ratio a a = Fin 1"
proof (cases "a = []")
  case False
  have "popular a = (\<lambda>_. False)" using assms by (auto simp: popular_def)
  then have "matches (popular a) a a = length a" by (simp add: matches_self)
  moreover have "round_double (of_int (2 * int (length a))) = Fin (of_int (2 * int (length a)))"
    using assms by (intro round_double_of_int) simp
  moreover have "round_double 1 = Fin 1" using round_double_of_int[of 1] by simp
  moreover have one: "(2 * of_nat (length a) / of_nat (length a + length a) :: rat) = 1" using False by (simp add: field_simps)
  ultimately show ?thesis using False by (simp add: ratio_def Let_def one del: of_nat_add)
qed (simp add: ratio_def)

end
