(* ===== verification/IdentityStore.thy ===== *)
theory IdentityStore
  imports SequenceMatcher PyDict "HOL-Library.Char_ord" "HOL-Library.List_Lexorder" "HOL-Library.Product_Lexorder"
begin

text \<open>
  \<^verbatim>\<open>services/shared/identity_resolution\<close>: canonical entities, their aliases, merges that can be reversed, and the queue
  of pairs that a person has to judge. The state is the four tables and the number of identifiers drawn so far. The
  constraints of the tables (\<^verbatim>\<open>V047__identity_resolution.sql\<close>, and the unique keys that \<^verbatim>\<open>v078\<close> adds) refuse rows; the caller
  commits, so an operation that raises leaves what its statements did up to then in the open transaction. Each operation reads
  the clock once. The similarity of the extension \<open>pg_trgm\<close>, which may be missing, is a parameter. The
  advisory lock has no effect on the tables.
\<close>

section \<open>Constants and identifiers (constants.py, normalization.py)\<close>

definition valid_entity_types :: "string list" where
  "valid_entity_types = [''firm'', ''facility'', ''product'', ''lot'', ''trading_relationship'']"

definition valid_alias_types :: "string list" where
  "valid_alias_types =
     [''name'', ''gln'', ''gtin'', ''fda_registration'', ''internal_code'', ''duns'', ''tlc'', ''tlc_prefix'', ''address_variant'',
      ''abbreviation'', ''trade_name'']"

definition valid_review_statuses :: "string list" where
  "valid_review_statuses = [''confirmed_match'', ''confirmed_distinct'', ''deferred'']"

text \<open>A literal is the nearest double; the values are given so that evaluation does not round.\<close>

definition ambiguous_threshold_low :: pyfloat where
  "ambiguous_threshold_low = Fin (5404319552844595 / 9007199254740992)"

definition ambiguous_threshold_high :: pyfloat where
  "ambiguous_threshold_high = Fin (8106479329266893 / 9007199254740992)"

definition four_fifths :: pyfloat where
  "four_fifths = Fin (3602879701896397 / 4503599627370496)"

definition one_fifth :: pyfloat where
  "one_fifth = Fin (3602879701896397 / 18014398509481984)"

definition seven_tenths :: pyfloat where
  "seven_tenths = Fin (3152519739159347 / 4503599627370496)"

lemma literals:
  "ambiguous_threshold_low = round_double (60 / 100)" "ambiguous_threshold_high = round_double (90 / 100)"
  "four_fifths = round_double (8 / 10)" "one_fifth = round_double (2 / 10)" "seven_tenths = round_double (7 / 10)"
  using round_double_near[of "- 53" "60 / 100" 5404319552844595] round_double_near[of "- 53" "90 / 100" 8106479329266893]
    round_double_near[of "- 53" "8 / 10" 7205759403792794] round_double_near[of "- 55" "2 / 10" 7205759403792794]
    round_double_near[of "- 53" "7 / 10" 6305039478318694]
  by (simp_all add: pow2_def ambiguous_threshold_low_def ambiguous_threshold_high_def four_fifths_def one_fifth_def seven_tenths_def)

definition structured_alias_types :: "string list" where
  "structured_alias_types = [''gln'', ''gtin'', ''fda_registration'', ''internal_code'', ''duns'']"

definition normalize_identifier :: "string \<Rightarrow> string \<Rightarrow> string" where
  "normalize_identifier kind v =
     (if kind \<notin> set structured_alias_types then v
      else let n = py_strip v in if prefix ''urn:'' (py_lower n) then py_lower n else n)"

section \<open>Tables\<close>

record contact =
  co_address :: "string option"
  co_city :: "string option"
  co_state :: "string option"
  co_country :: "string option"
  co_contact_name :: "string option"
  co_contact_phone :: "string option"
  co_contact_email :: "string option"

record entity =
  et_id :: string
  et_tenant :: string
  et_type :: string
  et_name :: string
  et_gln :: "string option"
  et_gtin :: "string option"
  et_fda_registration :: "string option"
  et_internal_id :: "string option"
  et_contact :: contact
  et_verification :: string
  et_confidence :: "pyfloat option"
  et_active :: bool
  et_created_at :: int
  et_updated_at :: int
  et_created_by :: "string option"

record entity_alias =
  ea_id :: string
  ea_tenant :: string
  ea_entity :: string
  ea_type :: string
  ea_value :: string
  ea_source_system :: string
  ea_source_file :: "string option"
  ea_confidence :: pyfloat
  ea_created_at :: int
  ea_created_by :: "string option"

record merge_row =
  mg_id :: string
  mg_tenant :: string
  mg_action :: string
  mg_sources :: "string list"
  mg_target :: string
  mg_reason :: "string option"
  mg_performed_by :: string
  mg_performed_at :: int
  mg_reversed :: bool
  mg_reversed_by :: "string option"
  mg_reversed_at :: "int option"
  mg_snapshot :: "(string \<times> (string \<times> string) list) list option"

record review_row =
  rv_id :: string
  rv_tenant :: string
  rv_a :: string
  rv_b :: string
  rv_match_type :: string
  rv_confidence :: pyfloat
  rv_fields :: pydict
  rv_status :: string
  rv_resolved_by :: "string option"
  rv_resolved_at :: "int option"
  rv_notes :: "string option"
  rv_created_at :: int
  rv_previous :: "string option"

record identity_db =
  id_entities :: "entity list"
  id_aliases :: "entity_alias list"
  id_merges :: "merge_row list"
  id_reviews :: "review_row list"
  id_uuids :: nat

record id_env =
  ie_rt :: pyrt
  ie_similarity :: "(string \<Rightarrow> string \<Rightarrow> rat) option"

record identity_service =
  sv_principal :: "string option"
  sv_allow_cross_tenant :: bool

type_synonym 'a id_result = "identity_db \<times> (py_error + 'a)"

text \<open>The constraint of the column, which has no \<open>tlc\<close>.\<close>

definition column_alias_types :: "string list" where
  "column_alias_types =
     [''name'', ''gln'', ''gtin'', ''fda_registration'', ''internal_code'', ''duns'', ''tlc_prefix'', ''address_variant'', ''abbreviation'',
      ''trade_name'']"

definition must_be :: "string list \<Rightarrow> string" where
  "must_be xs = ''. Must be one of ['' @ py_join '', '' (map in_quotes (sort xs)) @ '']''"

definition draw_id :: "id_env \<Rightarrow> identity_db \<Rightarrow> string \<times> identity_db" where
  "draw_id env db = (rt_uuid4 (ie_rt env) (id_uuids db), db\<lparr>id_uuids := Suc (id_uuids db)\<rparr>)"

definition lift :: "py_error + 'a \<Rightarrow> identity_db \<Rightarrow> 'a id_result" where
  "lift r db = (db, r)"

section \<open>The tenant lock (service.py)\<close>

definition verify_tenant_access :: "identity_service \<Rightarrow> string \<Rightarrow> py_error + unit" where
  "verify_tenant_access sv t =
     (if sv_allow_cross_tenant sv then Inr ()
      else case sv_principal sv of
             None \<Rightarrow> Inr ()
           | Some p \<Rightarrow>
               if t = [] then Inl (PermissionError ''identity_resolution: tenant_id is required'')
               else if t \<noteq> p then Inl (PermissionError ''identity_resolution: tenant_id does not match the authenticated principal's tenant. Cross-tenant writes require an explicit platform-admin grant; see #1230.'')
               else Inr ())"

section \<open>Registration (registration.py)\<close>

definition is_entity :: "string \<Rightarrow> string \<Rightarrow> entity \<Rightarrow> bool" where
  "is_entity u i e \<longleftrightarrow> et_tenant e = u \<and> et_id e = i"

definition require_entity :: "id_env \<Rightarrow> string \<Rightarrow> string \<Rightarrow> identity_db \<Rightarrow> py_error + (string \<times> string)" where
  "require_entity env t eid db =
     and_then (uuid_arg (ie_rt env) t) (\<lambda>u. and_then (uuid_arg (ie_rt env) eid) (\<lambda>i.
       if list_ex (is_entity u i) (id_entities db) then Inr (u, i)
       else Inl (ValueError (''Entity '' @ in_quotes eid @ '' not found for tenant '' @ in_quotes t))))"

record alias_args =
  aa_type :: string
  aa_value :: string
  aa_source_system :: string
  aa_source_file :: "string option"
  aa_confidence :: pyfloat
  aa_created_by :: "string option"

definition same_key :: "entity_alias \<Rightarrow> entity_alias \<Rightarrow> bool" where
  "same_key a b \<longleftrightarrow> ea_tenant a = ea_tenant b \<and> ea_type a = ea_type b \<and> ea_value a = ea_value b"

definition insert_alias :: "id_env \<Rightarrow> int \<Rightarrow> string \<Rightarrow> string \<Rightarrow> alias_args \<Rightarrow> identity_db \<Rightarrow> string id_result" where
  "insert_alias env now t eid a db =
     (let (i, db1) = draw_id env db
      in run_then (lift (and_then (uuid_arg (ie_rt env) t) (\<lambda>u. and_then (uuid_arg (ie_rt env) eid) (\<lambda>k. Inr (u, k)))) db1)
         (\<lambda>(u, k) db.
            let row = \<lparr>ea_id = i, ea_tenant = u, ea_entity = k, ea_type = aa_type a,
                       ea_value = normalize_identifier (aa_type a) (aa_value a), ea_source_system = aa_source_system a,
                       ea_source_file = aa_source_file a, ea_confidence = aa_confidence a, ea_created_at = now,
                       ea_created_by = aa_created_by a\<rparr>
            in if aa_type a \<notin> set column_alias_types \<or> \<not> in_unit (aa_confidence a) then (db, Inl integrity_error)
               else if list_ex (\<lambda>x. ea_entity x = k \<and> ea_type x = ea_type row \<and> ea_value x = ea_value row) (id_aliases db) then (db, Inr i)
               else if list_ex (\<lambda>x. same_key row x \<or> ea_id x = i) (id_aliases db) \<or> k \<notin> et_id ` set (id_entities db)
                    then (db, Inl integrity_error)
               else (db\<lparr>id_aliases := id_aliases db @ [row]\<rparr>, Inr i)))"

record entity_args =
  ga_gln :: "string option"
  ga_gtin :: "string option"
  ga_fda_registration :: "string option"
  ga_internal_id :: "string option"
  ga_contact :: contact
  ga_confidence :: pyfloat
  ga_created_by :: "string option"

definition new_entity :: "int \<Rightarrow> string \<Rightarrow> string \<Rightarrow> string \<Rightarrow> string \<Rightarrow> entity_args \<Rightarrow> entity" where
  "new_entity now i u ty name a =
     \<lparr>et_id = i, et_tenant = u, et_type = ty, et_name = name, et_gln = map_option (normalize_identifier ''gln'') (ga_gln a),
      et_gtin = map_option (normalize_identifier ''gtin'') (ga_gtin a),
      et_fda_registration = map_option (normalize_identifier ''fda_registration'') (ga_fda_registration a),
      et_internal_id = map_option (normalize_identifier ''internal_code'') (ga_internal_id a), et_contact = ga_contact a,
      et_verification = ''unverified'', et_confidence = Some (ga_confidence a), et_active = True, et_created_at = now, et_updated_at = now,
      et_created_by = ga_created_by a\<rparr>"

definition insert_entity :: "entity \<Rightarrow> identity_db \<Rightarrow> entity id_result" where
  "insert_entity e db =
     (if et_id e \<in> et_id ` set (id_entities db) \<or> \<not> (case et_confidence e of None \<Rightarrow> True | Some c \<Rightarrow> in_unit c) then (db, Inl integrity_error)
      else (db\<lparr>id_entities := id_entities db @ [e]\<rparr>, Inr e))"

text \<open>The name first, then the identifiers that are given.\<close>

definition seed_aliases :: "entity \<Rightarrow> (string \<times> string) list" where
  "seed_aliases e =
     (''name'', et_name e) # concat (map (\<lambda>(ty, v). if str_or v [] \<noteq> [] then [(ty, the v)] else [])
       [(''gln'', et_gln e), (''gtin'', et_gtin e), (''fda_registration'', et_fda_registration e), (''internal_code'', et_internal_id e)])"

fun insert_aliases :: "id_env \<Rightarrow> int \<Rightarrow> string \<Rightarrow> string \<Rightarrow> alias_args list \<Rightarrow> identity_db \<Rightarrow> unit id_result" where
  "insert_aliases env now t eid [] db = (db, Inr ())"
| "insert_aliases env now t eid (a # as) db = run_then (insert_alias env now t eid a db) (\<lambda>_. insert_aliases env now t eid as)"

definition own_alias :: "string option \<Rightarrow> string \<times> string \<Rightarrow> alias_args" where
  "own_alias who = (\<lambda>(ty, v). \<lparr>aa_type = ty, aa_value = v, aa_source_system = ''identity_resolution'', aa_source_file = None,
     aa_confidence = Fin 1, aa_created_by = who\<rparr>)"

definition register_entity ::
  "id_env \<Rightarrow> identity_service \<Rightarrow> int \<Rightarrow> string \<Rightarrow> string \<Rightarrow> string \<Rightarrow> entity_args \<Rightarrow> identity_db \<Rightarrow> entity id_result" where
  "register_entity env sv now t ty name a db =
     run_then (lift (verify_tenant_access sv t) db) (\<lambda>_ db.
       if ty \<notin> set valid_entity_types then (db, Inl (ValueError (''Invalid entity_type '' @ in_quotes ty @ must_be valid_entity_types)))
       else let (i, db1) = draw_id env db
            in run_then (lift (uuid_arg (ie_rt env) t) db1) (\<lambda>u db.
               run_then (insert_entity (new_entity now i u ty name a) db) (\<lambda>e db.
               run_then (insert_aliases env now t i (map (own_alias (ga_created_by a)) (seed_aliases e)) db) (\<lambda>_ db. (db, Inr e)))))"

definition add_alias :: "id_env \<Rightarrow> identity_service \<Rightarrow> int \<Rightarrow> string \<Rightarrow> string \<Rightarrow> alias_args \<Rightarrow> identity_db \<Rightarrow> string id_result" where
  "add_alias env sv now t eid a db =
     run_then (lift (verify_tenant_access sv t) db) (\<lambda>_ db.
       if aa_type a \<notin> set valid_alias_types then (db, Inl (ValueError (''Invalid alias_type '' @ in_quotes (aa_type a) @ must_be valid_alias_types)))
       else let a' = a\<lparr>aa_value := normalize_identifier (aa_type a) (aa_value a)\<rparr>
            in run_then (lift (require_entity env t eid db) db) (\<lambda>_. insert_alias env now t eid a'))"

section \<open>Lookup (matching.py)\<close>

text \<open>Aliases of a tenant joined with their active entities.\<close>

definition joined :: "string \<Rightarrow> (entity_alias \<Rightarrow> bool) \<Rightarrow> (entity \<Rightarrow> bool) \<Rightarrow> identity_db \<Rightarrow> (entity \<times> entity_alias) list" where
  "joined u P Q db =
     concat (map (\<lambda>a. map (\<lambda>e. (e, a)) (filter (\<lambda>e. is_entity u (ea_entity a) e \<and> et_active e \<and> Q e) (id_entities db)))
       (filter (\<lambda>a. ea_tenant a = u \<and> P a) (id_aliases db)))"

text \<open>Descending, with NULL first.\<close>

definition down :: "pyfloat option \<Rightarrow> nat \<times> rat" where
  "down c = (case c of None \<Rightarrow> (0, 0) | Some (Fin r) \<Rightarrow> (1, - r) | Some _ \<Rightarrow> (1, 0))"

definition match_order :: "entity \<times> entity_alias \<Rightarrow> (nat \<times> rat) \<times> int \<times> string" where
  "match_order = (\<lambda>(e, a). (down (et_confidence e), et_created_at e, et_id e))"

definition find_entity_by_alias :: "id_env \<Rightarrow> string \<Rightarrow> string \<Rightarrow> string \<Rightarrow> identity_db \<Rightarrow> py_error + (entity \<times> entity_alias) list" where
  "find_entity_by_alias env t ty v db =
     and_then (uuid_arg (ie_rt env) t) (\<lambda>u.
       Inr (sort_key match_order (joined u (\<lambda>a. ea_type a = ty \<and> ea_value a = normalize_identifier ty v) (\<lambda>_. True) db)))"

record potential_match =
  pm_entity :: entity
  pm_confidence :: pyfloat
  pm_alias :: string

definition round4 :: "pyfloat \<Rightarrow> pyfloat" where
  "round4 x = (case x of Fin r \<Rightarrow> round_double (of_int (round_half_even (r * 10000)) / 10000) | _ \<Rightarrow> x)"

definition fmax :: "pyfloat \<Rightarrow> pyfloat \<Rightarrow> pyfloat" where
  "fmax x y = (if flt x y then y else x)"

definition fmin :: "pyfloat \<Rightarrow> pyfloat \<Rightarrow> pyfloat" where
  "fmin x y = (if flt y x then y else x)"

definition sim_floor :: "pyfloat \<Rightarrow> pyfloat" where
  "sim_floor threshold = fmax one_fifth (fmin (fmul threshold seven_tenths) four_fifths)"

definition name_like :: "string list" where
  "name_like = [''name'', ''trade_name'', ''abbreviation'']"

definition name_rows :: "string \<Rightarrow> string option \<Rightarrow> identity_db \<Rightarrow> (entity \<times> entity_alias) list" where
  "name_rows u ty db = joined u (\<lambda>a. ea_type a \<in> set name_like) (\<lambda>e. case ty of None \<Rightarrow> True | Some x \<Rightarrow> et_type e = x) db"

definition candidate_rows ::
  "id_env \<Rightarrow> bool \<Rightarrow> string \<Rightarrow> pyfloat \<Rightarrow> nat \<Rightarrow> (entity \<times> entity_alias) list \<Rightarrow> (entity \<times> entity_alias) list" where
  "candidate_rows env case_sensitive q threshold limit rows =
     (case ie_similarity env of
        Some sim \<Rightarrow>
          if \<not> case_sensitive \<and> q \<noteq> []
          then let s = (\<lambda>(e, a). sim (py_lower (ea_value a)) q)
               in take (max (limit * 20) 100) (sort_key (\<lambda>r. - s r) (filter (\<lambda>r. fle (sim_floor threshold) (Fin (s r))) rows))
          else rows
      | None \<Rightarrow> rows)"

definition fuzzy_norm :: "bool \<Rightarrow> string \<Rightarrow> string" where
  "fuzzy_norm case_sensitive s = (if case_sensitive then s else py_strip (py_lower s))"

definition score_row ::
  "bool \<Rightarrow> string \<Rightarrow> pyfloat \<Rightarrow> entity \<times> entity_alias \<Rightarrow> potential_match list \<Rightarrow> potential_match list" where
  "score_row case_sensitive q threshold = (\<lambda>(e, a) scored.
     let r = ratio q (fuzzy_norm case_sensitive (ea_value a))
     in if flt r threshold then scored
        else if et_id e \<in> (\<lambda>m. et_id (pm_entity m)) ` set scored
             then map (\<lambda>m. if et_id (pm_entity m) = et_id e \<and> flt (pm_confidence m) r
                           then m\<lparr>pm_confidence := round4 r, pm_alias := ea_value a\<rparr> else m) scored
        else scored @ [\<lparr>pm_entity = e, pm_confidence = round4 r, pm_alias = ea_value a\<rparr>])"

definition find_potential_matches ::
  "id_env \<Rightarrow> string \<Rightarrow> string \<Rightarrow> string option \<Rightarrow> pyfloat \<Rightarrow> nat \<Rightarrow> bool \<Rightarrow> identity_db \<Rightarrow> py_error + potential_match list" where
  "find_potential_matches env t name ty threshold limit case_sensitive db =
     (if (case ty of None \<Rightarrow> False | Some x \<Rightarrow> x \<notin> set valid_entity_types) then Inl (ValueError (''Invalid entity_type '' @ in_quotes (the ty)))
      else and_then (uuid_arg (ie_rt env) t) (\<lambda>u.
        let q = fuzzy_norm case_sensitive name;
            rows = candidate_rows env case_sensitive q threshold limit (name_rows u ty db);
            scored = fold (score_row case_sensitive q threshold) rows []
        in Inr (take limit (sort_key (\<lambda>m. down (Some (pm_confidence m))) scored))))"

definition get_entity :: "id_env \<Rightarrow> string \<Rightarrow> string \<Rightarrow> identity_db \<Rightarrow> py_error + (entity \<times> entity_alias list) option" where
  "get_entity env t eid db =
     and_then (uuid_arg (ie_rt env) t) (\<lambda>u. and_then (uuid_arg (ie_rt env) eid) (\<lambda>i.
       Inr (map_option (\<lambda>e. (e, sort_key (\<lambda>a. (ea_type a, ea_value a)) (filter (\<lambda>a. ea_tenant a = u \<and> ea_entity a = i) (id_aliases db))))
         (List.find (is_entity u i) (id_entities db)))))"

section \<open>Merge and split (merging.py)\<close>

text \<open>An update of aliases is refused when two rows would share a unique key.\<close>

definition unique_aliases :: "entity_alias list \<Rightarrow> bool" where
  "unique_aliases as \<longleftrightarrow>
     distinct (map (\<lambda>a. (ea_entity a, ea_type a, ea_value a)) as) \<and> distinct (map (\<lambda>a. (ea_tenant a, ea_type a, ea_value a)) as)"

definition update_aliases :: "(entity_alias \<Rightarrow> bool) \<Rightarrow> string \<Rightarrow> identity_db \<Rightarrow> unit id_result" where
  "update_aliases P i db =
     (let as = map (\<lambda>a. if P a then a\<lparr>ea_entity := i\<rparr> else a) (id_aliases db)
      in if unique_aliases as then (db\<lparr>id_aliases := as\<rparr>, Inr ()) else (db, Inl integrity_error))"

definition set_active :: "int \<Rightarrow> bool \<Rightarrow> string \<Rightarrow> string list \<Rightarrow> identity_db \<Rightarrow> identity_db" where
  "set_active now b u is db =
     db\<lparr>id_entities := map (\<lambda>e. if et_tenant e = u \<and> et_id e \<in> set is then e\<lparr>et_active := b, et_updated_at := now\<rparr> else e) (id_entities db)\<rparr>"

definition snapshot_of :: "string \<Rightarrow> string \<Rightarrow> identity_db \<Rightarrow> (string \<times> string) list" where
  "snapshot_of u i db = sort (map (\<lambda>a. (ea_type a, ea_value a)) (filter (\<lambda>a. ea_tenant a = u \<and> ea_entity a = i) (id_aliases db)))"

definition insert_merge :: "merge_row \<Rightarrow> identity_db \<Rightarrow> merge_row id_result" where
  "insert_merge m db =
     (if mg_id m \<in> mg_id ` set (id_merges db) then (db, Inl integrity_error) else (db\<lparr>id_merges := id_merges db @ [m]\<rparr>, Inr m))"

definition close_reviews :: "int \<Rightarrow> string option \<Rightarrow> string \<Rightarrow> string list \<Rightarrow> identity_db \<Rightarrow> identity_db" where
  "close_reviews now who u is db =
     db\<lparr>id_reviews := map (\<lambda>r. if rv_tenant r = u \<and> rv_status r = ''pending'' \<and> (rv_a r \<in> set is \<or> rv_b r \<in> set is)
          then r\<lparr>rv_status := ''confirmed_match'', rv_resolved_by := who, rv_resolved_at := Some now,
                 rv_notes := Some ''Auto-resolved by merge operation''\<rparr> else r) (id_reviews db)\<rparr>"

fun require_all :: "id_env \<Rightarrow> string \<Rightarrow> string list \<Rightarrow> identity_db \<Rightarrow> py_error + (string \<times> string) list" where
  "require_all env t [] db = Inr []"
| "require_all env t (x # xs) db = and_then (require_entity env t x db) (\<lambda>k. and_then (require_all env t xs db) (\<lambda>ks. Inr (k # ks)))"

text \<open>
  The statements of a merge. The snapshot is taken for one source, the one that the loop over
  the sources ended with, under the spelling that the caller used for it.
\<close>

definition merge_statements ::
  "id_env \<Rightarrow> int \<Rightarrow> string \<Rightarrow> string list \<Rightarrow> string \<Rightarrow> string \<Rightarrow> string option \<Rightarrow> string option \<Rightarrow> identity_db \<Rightarrow> merge_row id_result" where
  "merge_statements env now u is last_source j reason who db =
     (let (m, db1) = draw_id env db;
          snapshot = [(last_source, snapshot_of u (last is) db1)];
          held = map (\<lambda>a. (ea_type a, ea_value a)) (filter (\<lambda>a. ea_tenant a = u \<and> ea_entity a = j) (id_aliases db1))
      in run_then (update_aliases (\<lambda>a. ea_tenant a = u \<and> ea_entity a \<in> set is \<and> (ea_type a, ea_value a) \<notin> set held) j db1) (\<lambda>_ db.
         let db = db\<lparr>id_aliases := filter (\<lambda>a. \<not> (ea_tenant a = u \<and> ea_entity a \<in> set is)) (id_aliases db)\<rparr>;
             db = set_active now False u is db
         in case who of
              None \<Rightarrow> (db, Inl integrity_error)
            | Some w \<Rightarrow>
                run_then (insert_merge \<lparr>mg_id = m, mg_tenant = u, mg_action = ''merge'', mg_sources = is, mg_target = j, mg_reason = reason,
                    mg_performed_by = w, mg_performed_at = now, mg_reversed = False, mg_reversed_by = None, mg_reversed_at = None,
                    mg_snapshot = Some snapshot\<rparr> db)
                  (\<lambda>row db. (close_reviews now who u is db, Inr row))))"

definition merge_entities_bulk ::
  "id_env \<Rightarrow> identity_service \<Rightarrow> int \<Rightarrow> string \<Rightarrow> string list \<Rightarrow> string \<Rightarrow> string option \<Rightarrow> string option \<Rightarrow> identity_db \<Rightarrow> merge_row id_result" where
  "merge_entities_bulk env sv now t sources target reason who db =
     run_then (lift (verify_tenant_access sv t) db) (\<lambda>_ db.
       if sources = [] then (db, Inl (ValueError ''source_entity_ids must not be empty''))
       else if \<not> distinct sources then (db, Inl (ValueError ''source_entity_ids must not contain duplicates''))
       else if target \<in> set sources then (db, Inl (ValueError ''Cannot merge an entity with itself''))
       else run_then (lift (require_all env t sources db) db) (\<lambda>ks db.
            run_then (lift (require_entity env t target db) db) (\<lambda>(u, j).
              merge_statements env now u (map snd ks) (last sources) j reason who)))"

definition merge_entities ::
  "id_env \<Rightarrow> identity_service \<Rightarrow> int \<Rightarrow> string \<Rightarrow> string \<Rightarrow> string \<Rightarrow> string option \<Rightarrow> string option \<Rightarrow> identity_db \<Rightarrow> merge_row id_result" where
  "merge_entities env sv now t source target reason who db =
     run_then (lift (verify_tenant_access sv t) db) (\<lambda>_. merge_entities_bulk env sv now t [source] target reason who)"

definition give_back :: "string \<Rightarrow> string \<Rightarrow> string \<Rightarrow> string \<times> string \<Rightarrow> identity_db \<Rightarrow> unit id_result" where
  "give_back u j i = (\<lambda>(ty, v) db.
     if ty = [] \<or> v = [] then (db, Inr ())
     else update_aliases (\<lambda>a. ea_tenant a = u \<and> ea_entity a = j \<and> ea_type a = ty \<and> ea_value a = v) i db)"

fun give_back_all :: "string \<Rightarrow> string \<Rightarrow> string \<Rightarrow> (string \<times> string) list \<Rightarrow> identity_db \<Rightarrow> unit id_result" where
  "give_back_all u j i [] db = (db, Inr ())"
| "give_back_all u j i (x # xs) db = run_then (give_back u j i x db) (\<lambda>_. give_back_all u j i xs)"

fun restore_sources ::
  "int \<Rightarrow> string \<Rightarrow> string \<Rightarrow> (string \<times> (string \<times> string) list) list \<Rightarrow> string list \<Rightarrow> identity_db \<Rightarrow> unit id_result" where
  "restore_sources now u j snapshot [] db = (db, Inr ())"
| "restore_sources now u j snapshot (i # is) db =
     run_then (give_back_all u j i (case map_of snapshot i of None \<Rightarrow> [] | Some xs \<Rightarrow> xs) (set_active now True u [i] db))
       (\<lambda>_. restore_sources now u j snapshot is)"

definition is_merge :: "string \<Rightarrow> string \<Rightarrow> merge_row \<Rightarrow> bool" where
  "is_merge u m r \<longleftrightarrow> mg_tenant r = u \<and> mg_id r = m"

definition split_entity :: "id_env \<Rightarrow> identity_service \<Rightarrow> int \<Rightarrow> string \<Rightarrow> string \<Rightarrow> string option \<Rightarrow> identity_db \<Rightarrow> merge_row id_result" where
  "split_entity env sv now t merge_id who db =
     run_then (lift (verify_tenant_access sv t) db) (\<lambda>_ db.
     run_then (lift (and_then (uuid_arg (ie_rt env) t) (\<lambda>u. and_then (uuid_arg (ie_rt env) merge_id) (\<lambda>m. Inr (u, m)))) db) (\<lambda>(u, m) db.
       case List.find (is_merge u m) (id_merges db) of
         None \<Rightarrow> (db, Inl (ValueError (''Merge record '' @ in_quotes merge_id @ '' not found for tenant '' @ in_quotes t)))
       | Some row \<Rightarrow>
           if mg_action row \<noteq> ''merge'' then (db, Inl (ValueError (''Record '' @ in_quotes merge_id @ '' is not a merge action'')))
           else if mg_reversed row then (db, Inl (ValueError (''Merge '' @ in_quotes merge_id @ '' has already been reversed'')))
           else case mg_snapshot row of
             None \<Rightarrow> (db, Inl (ValueError (''Merge '' @ in_quotes merge_id @ '' was recorded before v069 and has no alias_snapshot. Split is refused to prevent silent loss of GLN/GTIN/FDA aliases that would otherwise stay on the target entity. Reconstruct aliases manually if reversal is required (#1207).'')))
           | Some snapshot \<Rightarrow>
               run_then (restore_sources now u (mg_target row) snapshot (mg_sources row) db) (\<lambda>_ db.
                 let db = db\<lparr>id_merges := map (\<lambda>r. if is_merge u m r
                       then r\<lparr>mg_reversed := True, mg_reversed_by := who, mg_reversed_at := Some now\<rparr> else r) (id_merges db)\<rparr>;
                     (s, db) = draw_id env db
                 in case who of
                      None \<Rightarrow> (db, Inl integrity_error)
                    | Some w \<Rightarrow> insert_merge \<lparr>mg_id = s, mg_tenant = u, mg_action = ''split'', mg_sources = mg_sources row, mg_target = mg_target row,
                        mg_reason = Some (''Reversal of merge '' @ merge_id), mg_performed_by = w, mg_performed_at = now, mg_reversed = False,
                        mg_reversed_by = None, mg_reversed_at = None, mg_snapshot = None\<rparr> db)))"

section \<open>The review queue (review.py)\<close>

definition review_open :: "review_row \<Rightarrow> bool" where
  "review_open r \<longleftrightarrow> rv_status r = ''pending'' \<or> rv_status r = ''deferred''"

definition of_pair :: "string \<Rightarrow> string \<Rightarrow> string \<Rightarrow> review_row \<Rightarrow> bool" where
  "of_pair u a b r \<longleftrightarrow> rv_tenant r = u \<and> rv_a r = a \<and> rv_b r = b"

definition match_types :: "string list" where
  "match_types = [''ambiguous'', ''exact'', ''likely'', ''unresolved'']"

text \<open>The open review of the pair, newest first, and the closed one, latest resolution first and unresolved ones last.\<close>

definition open_review :: "string \<Rightarrow> string \<Rightarrow> string \<Rightarrow> identity_db \<Rightarrow> review_row option" where
  "open_review u a b db =
     (case sort_key (\<lambda>r. - rv_created_at r) (filter (\<lambda>r. of_pair u a b r \<and> review_open r) (id_reviews db)) of [] \<Rightarrow> None | r # _ \<Rightarrow> Some r)"

definition closed_order :: "review_row \<Rightarrow> (nat \<times> int) \<times> int" where
  "closed_order r = ((case rv_resolved_at r of None \<Rightarrow> (1, 0) | Some n \<Rightarrow> (0, - n)), - rv_created_at r)"

definition closed_review :: "string \<Rightarrow> string \<Rightarrow> string \<Rightarrow> identity_db \<Rightarrow> review_row option" where
  "closed_review u a b db =
     (case sort_key closed_order (filter (\<lambda>r. of_pair u a b r \<and> (rv_status r = ''confirmed_match'' \<or> rv_status r = ''confirmed_distinct''))
        (id_reviews db)) of [] \<Rightarrow> None | r # _ \<Rightarrow> Some r)"

definition insert_review :: "review_row \<Rightarrow> identity_db \<Rightarrow> review_row id_result" where
  "insert_review r db =
     (if rv_id r \<in> rv_id ` set (id_reviews db) \<or> \<not> {rv_a r, rv_b r} \<subseteq> et_id ` set (id_entities db) \<or> \<not> in_unit (rv_confidence r) \<or>
         list_ex (\<lambda>x. rv_a x = rv_a r \<and> rv_b x = rv_b r \<and> review_open x) (id_reviews db)
      then (db, Inl integrity_error) else (db\<lparr>id_reviews := id_reviews db @ [r]\<rparr>, Inr r))"

definition queue_for_review ::
  "id_env \<Rightarrow> identity_service \<Rightarrow> int \<Rightarrow> string \<Rightarrow> string \<Rightarrow> string \<Rightarrow> string \<Rightarrow> pyfloat \<Rightarrow> pydict \<Rightarrow> identity_db \<Rightarrow> (review_row \<times> bool) id_result" where
  "queue_for_review env sv now t x y match_type conf ev db =
     run_then (lift (verify_tenant_access sv t) db) (\<lambda>_ db.
       if match_type \<notin> set match_types then (db, Inl (ValueError (''Invalid match_type '' @ in_quotes match_type @ must_be match_types)))
       else run_then (lift (and_then (uuid_arg (ie_rt env) t) (\<lambda>u. and_then (uuid_arg (ie_rt env) (min x y)) (\<lambda>a.
              and_then (uuid_arg (ie_rt env) (max x y)) (\<lambda>b. Inr (u, a, b))))) db) (\<lambda>(u, a, b) db.
         case open_review u a b db of
           Some r \<Rightarrow> (db, Inr (r, True))
         | None \<Rightarrow>
             let (i, db1) = draw_id env db
             in run_then (insert_review \<lparr>rv_id = i, rv_tenant = u, rv_a = a, rv_b = b, rv_match_type = match_type, rv_confidence = conf,
                  rv_fields = ev, rv_status = ''pending'', rv_resolved_by = None, rv_resolved_at = None, rv_notes = None,
                  rv_created_at = now, rv_previous = map_option rv_id (closed_review u a b db)\<rparr> db1) (\<lambda>r db. (db, Inr (r, False)))))"

definition verification_rank :: "string \<Rightarrow> int" where
  "verification_rank s = (if s = ''verified'' then 2 else if s = ''pending_review'' then 1 else 0)"

definition rank :: "entity option \<Rightarrow> int \<times> pyfloat \<times> int option" where
  "rank e = (case e of None \<Rightarrow> (- 1, Fin (- 1), None)
     | Some x \<Rightarrow> (verification_rank (et_verification x), (case et_confidence x of Some c \<Rightarrow> c | None \<Rightarrow> Fin 0), Some (et_created_at x)))"

text \<open>Earlier wins; \<open>None\<close> is the latest date there is.\<close>

definition earlier :: "int option \<Rightarrow> int option \<Rightarrow> bool" where
  "earlier x y = (case x of None \<Rightarrow> False | Some a \<Rightarrow> (case y of None \<Rightarrow> True | Some b \<Rightarrow> a < b))"

definition first_wins :: "string \<Rightarrow> string \<Rightarrow> entity option \<Rightarrow> entity option \<Rightarrow> bool \<times> string" where
  "first_wins a b x y =
     (let (va, ca, da) = rank x; (vb, cb, db) = rank y
      in if va \<noteq> vb then (vb < va, ''verification_status'')
         else if \<not> feq ca cb then (flt cb ca, ''confidence_score'')
         else if da \<noteq> db then (earlier da db, ''created_at'')
         else (a < b, ''entity_id_lex''))"

definition pick_merge_target :: "string \<Rightarrow> string \<Rightarrow> string \<Rightarrow> identity_db \<Rightarrow> string \<times> string \<times> string" where
  "pick_merge_target u a b db =
     (let (wins, why) = first_wins a b (List.find (is_entity u a) (id_entities db)) (List.find (is_entity u b) (id_entities db))
      in if wins then (b, a, why) else (a, b, why))"

record review_answer =
  an_review :: review_row
  an_merge :: "merge_row option"
  an_why :: "string option"

definition is_review :: "string \<Rightarrow> string \<Rightarrow> review_row \<Rightarrow> bool" where
  "is_review u i r \<longleftrightarrow> rv_tenant r = u \<and> rv_id r = i"

definition judged_review :: "int \<Rightarrow> string \<Rightarrow> string option \<Rightarrow> string option \<Rightarrow> review_row \<Rightarrow> review_row" where
  "judged_review now resolution who notes_text r =
     r\<lparr>rv_status := resolution, rv_resolved_by := who, rv_resolved_at := Some now, rv_notes := notes_text\<rparr>"

text \<open>The merge that a confirmed match triggers: towards the target that was asked for, or the one that ranks higher.\<close>

definition merge_reviewed ::
  "id_env \<Rightarrow> identity_service \<Rightarrow> int \<Rightarrow> string \<Rightarrow> string \<Rightarrow> string \<Rightarrow> string option \<Rightarrow> string option \<Rightarrow> review_row \<Rightarrow> identity_db \<Rightarrow>
   review_answer id_result" where
  "merge_reviewed env sv now t u review_id target who r db =
     (let (src, tgt, why) = (case target of
            Some x \<Rightarrow> (if x = rv_a r then rv_b r else rv_a r, x, ''explicit_override'')
          | None \<Rightarrow> pick_merge_target u (rv_a r) (rv_b r) db)
      in run_then (merge_entities env sv now t src tgt
           (Some (''Confirmed match via review '' @ review_id @ '' (target selected by '' @ why @ '')'')) who db)
           (\<lambda>m db. (db, Inr \<lparr>an_review = r, an_merge = Some m, an_why = Some why\<rparr>)))"

definition resolve_review ::
  "id_env \<Rightarrow> identity_service \<Rightarrow> int \<Rightarrow> string \<Rightarrow> string \<Rightarrow> string \<Rightarrow> string option \<Rightarrow> string option \<Rightarrow> bool \<Rightarrow> string option \<Rightarrow> identity_db \<Rightarrow>
   review_answer id_result" where
  "resolve_review env sv now t review_id resolution who notes_text auto_merge target db =
     run_then (lift (verify_tenant_access sv t) db) (\<lambda>_ db.
       if resolution \<notin> set valid_review_statuses
       then (db, Inl (ValueError (''Invalid resolution '' @ in_quotes resolution @ must_be valid_review_statuses)))
       else run_then (lift (and_then (uuid_arg (ie_rt env) t) (\<lambda>u. and_then (uuid_arg (ie_rt env) review_id) (\<lambda>i. Inr (u, i)))) db) (\<lambda>(u, i) db.
         case List.find (is_review u i) (id_reviews db) of
           None \<Rightarrow> (db, Inl (ValueError (''Review '' @ in_quotes review_id @ '' not found for tenant '' @ in_quotes t)))
         | Some r \<Rightarrow>
             if \<not> review_open r
             then (db, Inl (ValueError (''Review '' @ in_quotes review_id @ '' is already resolved with status '' @ in_quotes (rv_status r))))
             else if (case target of None \<Rightarrow> False | Some x \<Rightarrow> x \<noteq> rv_a r \<and> x \<noteq> rv_b r)
             then (db, Inl (ValueError (''target_entity_id '' @ in_quotes (the target) @ '' is not part of review '' @ in_quotes review_id @
                '' (expected one of '' @ in_quotes (rv_a r) @ '' or '' @ in_quotes (rv_b r) @ '')'')))
             else
               let db = db\<lparr>id_reviews := map (\<lambda>x. if is_review u i x then judged_review now resolution who notes_text x else x) (id_reviews db)\<rparr>;
                   r' = judged_review now resolution who notes_text r
               in if resolution = ''confirmed_match'' \<and> auto_merge
                  then merge_reviewed env sv now t u review_id target who r' db
                  else (db, Inr \<lparr>an_review = r', an_merge = None, an_why = None\<rparr>)))"

definition pending_order :: "review_row \<times> entity \<times> entity \<Rightarrow> (nat \<times> rat) \<times> int" where
  "pending_order = (\<lambda>(r, _). (down (Some (rv_confidence r)), rv_created_at r))"

definition list_pending_reviews :: "id_env \<Rightarrow> string \<Rightarrow> nat \<Rightarrow> nat \<Rightarrow> identity_db \<Rightarrow> py_error + (review_row \<times> entity \<times> entity) list" where
  "list_pending_reviews env t limit offset db =
     and_then (uuid_arg (ie_rt env) t) (\<lambda>u.
       Inr (take limit (drop offset (sort_key pending_order
         (concat (map (\<lambda>r. concat (map (\<lambda>x. map (\<lambda>y. (r, x, y)) (filter (is_entity u (rv_b r)) (id_entities db)))
            (filter (is_entity u (rv_a r)) (id_entities db))))
          (filter (\<lambda>r. rv_tenant r = u \<and> review_open r) (id_reviews db))))))))"

section \<open>Resolution of the references of an event (resolver.py)\<close>

definition is_number :: "nat \<Rightarrow> string \<Rightarrow> bool" where
  "is_number n s \<longleftrightarrow> py_isdigit s \<and> length s = n"

definition search_types :: "string \<Rightarrow> string \<Rightarrow> string list" where
  "search_types alias_type reference =
     [alias_type] @ (if alias_type = ''name'' then [''trade_name'', ''abbreviation''] else []) @
     (if is_number 13 reference then [''gln''] else []) @ (if is_number 14 reference then [''gtin''] else [])"

fun first_known :: "id_env \<Rightarrow> string \<Rightarrow> string \<Rightarrow> string list \<Rightarrow> identity_db \<Rightarrow> py_error + entity option" where
  "first_known env t reference [] db = Inr None"
| "first_known env t reference (ty # tys) db =
     and_then (find_entity_by_alias env t ty reference db) (\<lambda>ms.
       case filter et_active (map fst ms) of e # _ \<Rightarrow> Inr (Some e) | [] \<Rightarrow> first_known env t reference tys db)"

definition no_contact :: contact where
  "no_contact = \<lparr>co_address = None, co_city = None, co_state = None, co_country = None, co_contact_name = None, co_contact_phone = None,
     co_contact_email = None\<rparr>"

definition reference_args :: "string \<Rightarrow> string option \<Rightarrow> entity_args" where
  "reference_args reference who =
     \<lparr>ga_gln = (if is_number 13 reference then Some reference else None), ga_gtin = (if is_number 14 reference then Some reference else None),
      ga_fda_registration = None, ga_internal_id = None, ga_contact = no_contact, ga_confidence = four_fifths, ga_created_by = who\<rparr>"

text \<open>\<open>except (ValueError, RuntimeError)\<close>: the alias is dropped; every other exception goes on.\<close>

definition tolerate :: "'a id_result \<Rightarrow> unit id_result" where
  "tolerate r = (case r of (db, Inr _) \<Rightarrow> (db, Inr ()) | (db, Inl e) \<Rightarrow>
     (case e of ValueError _ \<Rightarrow> (db, Inr ()) | RuntimeError _ \<Rightarrow> (db, Inr ()) | _ \<Rightarrow> (db, Inl e)))"

definition review_fields :: "string \<Rightarrow> string \<Rightarrow> string \<Rightarrow> potential_match \<Rightarrow> pydict" where
  "review_fields reference entity_type source_system m =
     [(''search_reference'', PStr reference), (''matched_alias'', PStr (pm_alias m)), (''entity_type'', PStr entity_type),
      (''source_system'', PStr source_system)]"

fun queue_matches ::
  "id_env \<Rightarrow> identity_service \<Rightarrow> int \<Rightarrow> string \<Rightarrow> string \<Rightarrow> string \<Rightarrow> string \<Rightarrow> string \<Rightarrow> potential_match list \<Rightarrow> string \<Rightarrow> identity_db \<Rightarrow>
   string id_result" where
  "queue_matches env sv now t new_id reference ty src [] resolution db = (db, Inr resolution)"
| "queue_matches env sv now t new_id reference ty src (m # ms) resolution db =
     (let conf = pm_confidence m;
          queue = (\<lambda>mt. run_then (queue_for_review env sv now t new_id (et_id (pm_entity m)) mt conf (review_fields reference ty src m) db)
                     (\<lambda>_. queue_matches env sv now t new_id reference ty src ms ''new_with_review''))
      in if fle ambiguous_threshold_low conf \<and> flt conf ambiguous_threshold_high then queue ''ambiguous''
         else if fle ambiguous_threshold_high conf then queue ''likely''
         else queue_matches env sv now t new_id reference ty src ms resolution db)"

text \<open>A reference that no alias names: the similar entities, the new entity, its alias, the reviews.\<close>

definition register_reference ::
  "id_env \<Rightarrow> identity_service \<Rightarrow> int \<Rightarrow> string \<Rightarrow> string \<Rightarrow> string \<Rightarrow> string \<Rightarrow> string \<Rightarrow> string option \<Rightarrow> identity_db \<Rightarrow>
   (entity \<times> string) id_result" where
  "register_reference env sv now t reference ty src alias_type who db =
     run_then (lift (if alias_type \<in> set name_like
                     then find_potential_matches env t reference (Some ty) ambiguous_threshold_low 20 False db else Inr []) db) (\<lambda>fuzzy db.
     run_then (register_entity env sv now t ty reference (reference_args reference who) db) (\<lambda>e db.
     run_then (if alias_type \<noteq> ''name''
               then tolerate (insert_alias env now t (et_id e) \<lparr>aa_type = alias_type, aa_value = reference, aa_source_system = src,
                 aa_source_file = None, aa_confidence = Fin 1, aa_created_by = who\<rparr> db) else (db, Inr ())) (\<lambda>_ db.
     run_then (queue_matches env sv now t (et_id e) reference ty src fuzzy ''new'' db) (\<lambda>how db. (db, Inr (e, how))))))"

definition resolve_or_register ::
  "id_env \<Rightarrow> identity_service \<Rightarrow> int \<Rightarrow> string \<Rightarrow> string \<Rightarrow> string \<Rightarrow> string \<Rightarrow> string \<Rightarrow> string option \<Rightarrow> identity_db \<Rightarrow>
   (entity \<times> string) id_result" where
  "resolve_or_register env sv now t reference ty src alias_type who db =
     run_then (lift (first_known env t reference (search_types alias_type reference) db) db) (\<lambda>known db.
       case known of
         Some e \<Rightarrow> (db, Inr (e, ''existing''))
       | None \<Rightarrow> register_reference env sv now t reference ty src alias_type who db)"

text \<open>A reference of the event: absent or empty ones are skipped, a value that is no text has no \<open>isdigit\<close>.\<close>

definition event_reference ::
  "id_env \<Rightarrow> identity_service \<Rightarrow> int \<Rightarrow> string \<Rightarrow> string \<Rightarrow> string option \<Rightarrow> pydict \<Rightarrow> string \<Rightarrow> string \<Rightarrow> string \<Rightarrow> identity_db \<Rightarrow>
   (entity \<times> string) list id_result" where
  "event_reference env sv now t src who event key ty alias_type db =
     (let v = dict_get event key PNone
      in if \<not> truthy v then (db, Inr [])
         else case v of
                PStr s \<Rightarrow> run_then (resolve_or_register env sv now t s ty src alias_type who db) (\<lambda>x db. (db, Inr [x]))
              | _ \<Rightarrow> (db, Inl AttributeError))"

record registered =
  rg_facilities :: "(entity \<times> string) list"
  rg_products :: "(entity \<times> string) list"
  rg_firms :: "(entity \<times> string) list"
  rg_lots :: "(entity \<times> string) list"

definition lot_prefix_alias ::
  "id_env \<Rightarrow> int \<Rightarrow> string \<Rightarrow> string \<Rightarrow> string option \<Rightarrow> pydict \<Rightarrow> (entity \<times> string) list \<Rightarrow> identity_db \<Rightarrow> unit id_result" where
  "lot_prefix_alias env now t src who event lots db =
     (case (lots, dict_get event ''traceability_lot_code'' PNone) of
        ((e, _) # _, PStr tlc) \<Rightarrow>
          if 14 < length tlc \<and> py_isdigit (take 14 tlc)
          then tolerate (insert_alias env now t (et_id e) \<lparr>aa_type = ''tlc_prefix'', aa_value = take 14 tlc, aa_source_system = src,
            aa_source_file = None, aa_confidence = four_fifths, aa_created_by = who\<rparr> db)
          else (db, Inr ())
      | _ \<Rightarrow> (db, Inr ()))"

definition auto_register_from_event ::
  "id_env \<Rightarrow> identity_service \<Rightarrow> int \<Rightarrow> string \<Rightarrow> pydict \<Rightarrow> string \<Rightarrow> string option \<Rightarrow> identity_db \<Rightarrow> registered id_result" where
  "auto_register_from_event env sv now t event src who db =
     (let ref = event_reference env sv now t src who event
      in run_then (lift (verify_tenant_access sv t) db) (\<lambda>_ db.
         run_then (ref ''from_facility_reference'' ''facility'' ''name'' db) (\<lambda>f1 db.
         run_then (ref ''to_facility_reference'' ''facility'' ''name'' db) (\<lambda>f2 db.
         run_then (ref ''product_reference'' ''product'' ''name'' db) (\<lambda>ps db.
         run_then (ref ''from_entity_reference'' ''firm'' ''name'' db) (\<lambda>e1 db.
         run_then (ref ''to_entity_reference'' ''firm'' ''name'' db) (\<lambda>e2 db.
         run_then (ref ''traceability_lot_code'' ''lot'' ''tlc'' db) (\<lambda>ls db.
         run_then (lot_prefix_alias env now t src who event ls db) (\<lambda>_ db.
           (db, Inr \<lparr>rg_facilities = f1 @ f2, rg_products = ps, rg_firms = e1 @ e2, rg_lots = ls\<rparr>))))))))))"

end
