(* ===== verification/IdentitySafety.thy ===== *)
theory IdentitySafety
  imports IdentityStore
begin

text \<open>
  What the identity resolution promises. Every statement is lawful: it touches rows of its tenant only, keeps the consistency
  of the tables and removes no entity; the locale \<open>identity_operation\<close> lifts this to the operations. Shown: the tenant
  lock and frame, the invariant of the tables, that a split undoes a merge of one source exactly and
  gives back the aliases of one source only of a merge of several, that a reference resolves to the same entity again, what the fuzzy search
  finds, and which lots can never be registered.
\<close>

section \<open>Consistent tables\<close>

definition has :: "string \<Rightarrow> string \<Rightarrow> identity_db \<Rightarrow> bool" where
  "has u i db \<longleftrightarrow> list_ex (is_entity u i) (id_entities db)"

definition rows_for :: "string \<Rightarrow> identity_db \<Rightarrow> entity list \<times> entity_alias list \<times> merge_row list \<times> review_row list" where
  "rows_for w db =
     (filter (\<lambda>e. et_tenant e = w) (id_entities db), filter (\<lambda>a. ea_tenant a = w) (id_aliases db),
      filter (\<lambda>m. mg_tenant m = w) (id_merges db), filter (\<lambda>r. rv_tenant r = w) (id_reviews db))"

definition alias_ok :: "identity_db \<Rightarrow> entity_alias \<Rightarrow> bool" where
  "alias_ok db a \<longleftrightarrow>
     ea_type a \<in> set column_alias_types \<and> ea_value a = normalize_identifier (ea_type a) (ea_value a) \<and> has (ea_tenant a) (ea_entity a) db"

definition merge_ok :: "identity_db \<Rightarrow> merge_row \<Rightarrow> bool" where
  "merge_ok db m \<longleftrightarrow> list_all (\<lambda>i. has (mg_tenant m) i db) (mg_target m # mg_sources m)"

definition reviews_ok :: "review_row list \<Rightarrow> bool" where
  "reviews_ok rs \<longleftrightarrow> distinct (map rv_id rs) \<and> distinct (map (\<lambda>r. (rv_a r, rv_b r)) (filter review_open rs))"

definition identity_ok :: "id_env \<Rightarrow> identity_db \<Rightarrow> bool" where
  "identity_ok env db \<longleftrightarrow>
     distinct (map et_id (id_entities db)) \<and> list_all (\<lambda>i. rt_pg_uuid (ie_rt env) i = Some i) (map et_id (id_entities db)) \<and> unique_aliases (id_aliases db) \<and> list_all (alias_ok db) (id_aliases db) \<and>
     distinct (map mg_id (id_merges db)) \<and> list_all (merge_ok db) (id_merges db) \<and> reviews_ok (id_reviews db)"

definition lawful :: "id_env \<Rightarrow> string option \<Rightarrow> identity_db \<Rightarrow> identity_db \<Rightarrow> bool" where
  "lawful env u db db' \<longleftrightarrow>
     (\<forall>w. u \<noteq> Some w \<longrightarrow> rows_for w db' = rows_for w db) \<and> (identity_ok env db \<longrightarrow> identity_ok env db') \<and> (\<forall>w i. has w i db \<longrightarrow> has w i db')"

lemma lawful_refl [simp]: "lawful env u db db"
  by (simp add: lawful_def)

lemma lawful_trans [trans]: "lawful env u a b \<Longrightarrow> lawful env u b c \<Longrightarrow> lawful env u a c"
  by (auto simp: lawful_def)

lemma lawful_has: "lawful env u db db' \<Longrightarrow> has w i db \<Longrightarrow> has w i db'"
  by (simp add: lawful_def)

lemma lawful_run_then:
  assumes "lawful env u db (fst r)" "\<And>s a. r = (s, Inr a) \<Longrightarrow> lawful env u s (fst (f a s))"
  shows "lawful env u db (fst (run_then r f))"
  using assms by (cases r; cases "snd r") (auto intro: lawful_trans)

lemma fst_lift [simp]: "fst (lift r db) = db"
  by (simp add: lift_def)

lemma lift_Inr_iff [simp]: "lift r db = (s, Inr a) \<longleftrightarrow> s = db \<and> r = Inr a"
  by (auto simp: lift_def)

lemma lawful_lift:
  assumes "\<And>a. r = Inr a \<Longrightarrow> lawful env u db (fst (f a db))"
  shows "lawful env u db (fst (run_then (lift r db) f))"
  using assms by (intro lawful_run_then) auto

lemma uuid_arg_Inr [simp]: "uuid_arg rt t = Inr u \<longleftrightarrow> rt_pg_uuid rt t = Some u"
  by (auto simp: uuid_arg_def split: option.splits)

section \<open>The statements are lawful\<close>

lemma has_cong: "id_entities db' = id_entities db \<Longrightarrow> has w i db' = has w i db"
  by (simp add: has_def)

lemma ok_cong:
  assumes "id_entities db' = id_entities db"
  shows "alias_ok db' a = alias_ok db a" "merge_ok db' m = merge_ok db m"
  using has_cong[OF assms] by (simp_all add: alias_ok_def merge_ok_def)

lemma normalize_identifier_idem [simp]: "normalize_identifier k (normalize_identifier k v) = normalize_identifier k v"
  by (simp add: normalize_identifier_def Let_def strip_again strip_lower)

lemma lawful_draw [simp]: "lawful env u db (snd (draw_id env db))"
  by (auto simp: lawful_def draw_id_def rows_for_def has_def identity_ok_def alias_ok_def[abs_def] merge_ok_def[abs_def])

lemma draw_tables [simp]:
  "id_entities (snd (draw_id env db)) = id_entities db" "id_aliases (snd (draw_id env db)) = id_aliases db"
  "id_merges (snd (draw_id env db)) = id_merges db" "id_reviews (snd (draw_id env db)) = id_reviews db"
  by (simp_all add: draw_id_def)

text \<open>A statement on the aliases of a tenant.\<close>

lemma lawful_aliases:
  assumes "\<And>w. u \<noteq> Some w \<Longrightarrow> filter (\<lambda>a. ea_tenant a = w) as = filter (\<lambda>a. ea_tenant a = w) (id_aliases db)"
    and "identity_ok env db \<Longrightarrow> unique_aliases as \<and> list_all (alias_ok db) as"
  shows "lawful env u db (db\<lparr>id_aliases := as\<rparr>)"
proof -
  have "alias_ok (db\<lparr>id_aliases := as\<rparr>) = alias_ok db" "merge_ok (db\<lparr>id_aliases := as\<rparr>) = merge_ok db"
    by (auto intro!: ext ok_cong)
  then show ?thesis using assms by (auto simp: lawful_def rows_for_def has_def identity_ok_def)
qed

lemma filter_map_keep:
  assumes "\<And>x. x \<in> set xs \<Longrightarrow> P (f x) = P x" "\<And>x. x \<in> set xs \<Longrightarrow> P x \<Longrightarrow> f x = x"
  shows "filter P (map f xs) = filter P xs"
  using assms by (induction xs) auto

lemma unique_aliases_snoc:
  assumes "unique_aliases as" "\<not> list_ex (\<lambda>x. same_key row x) as" "\<not> list_ex (\<lambda>x. ea_entity x = ea_entity row \<and> ea_type x = ea_type row \<and> ea_value x = ea_value row) as"
  shows "unique_aliases (as @ [row])"
  using assms by (auto simp: unique_aliases_def same_key_def list_ex_iff)

lemma lawful_insert_alias:
  assumes "\<And>u i. rt_pg_uuid (ie_rt env) t = Some u \<Longrightarrow> rt_pg_uuid (ie_rt env) eid = Some i \<Longrightarrow> has u i db"
  shows "lawful env (rt_pg_uuid (ie_rt env) t) db (fst (insert_alias env now t eid a db))"
proof -
  obtain i db1 where d: "draw_id env db = (i, db1)" by fastforce
  have db1: "lawful env w db db1" "id_entities db1 = id_entities db" for w
    using lawful_draw[of env w db] draw_tables[of env db] unfolding d by simp_all
  have add: "lawful env (Some u) db1 (db1\<lparr>id_aliases := id_aliases db1 @ [row]\<rparr>)"
    if "ea_tenant row = u" "has u (ea_entity row) db" "ea_type row \<in> set column_alias_types"
      "ea_value row = normalize_identifier (ea_type row) (ea_value row)" "\<not> list_ex (same_key row) (id_aliases db1)"
      "\<not> list_ex (\<lambda>x. ea_entity x = ea_entity row \<and> ea_type x = ea_type row \<and> ea_value x = ea_value row) (id_aliases db1)" for u row
    using that db1(2) by (intro lawful_aliases) (auto simp: identity_ok_def alias_ok_def has_cong[OF db1(2)] intro: unique_aliases_snoc)
  show ?thesis
  proof (cases "rt_pg_uuid (ie_rt env) t")
    case (Some u)
    show ?thesis
    proof (cases "rt_pg_uuid (ie_rt env) eid")
      case k: (Some k)
      show ?thesis
        using assms[OF Some k] db1(1) add[of _ u]
        by (auto simp: insert_alias_def d lift_def uuid_arg_def Some k Let_def list_ex_iff intro!: lawful_trans[OF db1(1)])
    qed (use db1 in \<open>simp add: insert_alias_def d lift_def uuid_arg_def Some\<close>)
  qed (use db1 in \<open>simp add: insert_alias_def d lift_def uuid_arg_def\<close>)
qed

lemma lawful_insert_entity: "u = Some (et_tenant e) \<Longrightarrow> rt_pg_uuid (ie_rt env) (et_id e) = Some (et_id e) \<Longrightarrow> lawful env u db (fst (insert_entity e db))"
proof -
  assume u: "u = Some (et_tenant e)" and id: "rt_pg_uuid (ie_rt env) (et_id e) = Some (et_id e)"
  let ?db = "db\<lparr>id_entities := id_entities db @ [e]\<rparr>"
  have grow: "has w i db \<Longrightarrow> has w i ?db" for w i by (auto simp: has_def)
  then have "alias_ok db a \<Longrightarrow> alias_ok ?db a" "merge_ok db m \<Longrightarrow> merge_ok ?db m" for a m
    by (auto simp: alias_ok_def merge_ok_def list_all_iff)
  then show ?thesis
    using u id grow by (auto simp: insert_entity_def lawful_def rows_for_def identity_ok_def list_all_iff)
qed

lemma lawful_update_aliases:
  assumes "\<And>a. P a \<Longrightarrow> u = Some (ea_tenant a) \<and> has (ea_tenant a) i db"
  shows "lawful env u db (fst (update_aliases P i db))"
proof -
  let ?f = "\<lambda>a. if P a then a\<lparr>ea_entity := i\<rparr> else a"
  have "lawful env u db (db\<lparr>id_aliases := map ?f (id_aliases db)\<rparr>)" if "unique_aliases (map ?f (id_aliases db))"
  proof (rule lawful_aliases)
    show "filter (\<lambda>a. ea_tenant a = w) (map ?f (id_aliases db)) = filter (\<lambda>a. ea_tenant a = w) (id_aliases db)" if "u \<noteq> Some w" for w
      using that assms by (intro filter_map_keep) auto
    show "unique_aliases (map ?f (id_aliases db)) \<and> list_all (alias_ok db) (map ?f (id_aliases db))" if "identity_ok env db"
      using that \<open>unique_aliases _\<close> assms by (auto simp: identity_ok_def list_all_iff alias_ok_def)
  qed
  then show ?thesis by (simp add: update_aliases_def Let_def)
qed

lemma unique_aliases_filter: "unique_aliases as \<Longrightarrow> unique_aliases (filter P as)"
  by (simp add: unique_aliases_def distinct_map_filter)

lemma lawful_delete_aliases:
  assumes "\<And>a. \<not> P a \<Longrightarrow> u = Some (ea_tenant a)"
  shows "lawful env u db (db\<lparr>id_aliases := filter P (id_aliases db)\<rparr>)"
proof (rule lawful_aliases)
  show "filter (\<lambda>a. ea_tenant a = w) (filter P (id_aliases db)) = filter (\<lambda>a. ea_tenant a = w) (id_aliases db)" if "u \<noteq> Some w" for w
    using that assms by (auto intro!: filter_cong)
qed (auto simp: identity_ok_def list_all_iff unique_aliases_filter)

lemma list_ex_map: "list_ex P (map f xs) = list_ex (P \<circ> f) xs"
  by (induction xs) auto

lemma has_set_active [simp]: "has w i (set_active now b u is db) = has w i db"
proof -
  have "is_entity w i \<circ> (\<lambda>e. if et_tenant e = u \<and> et_id e \<in> set is then e\<lparr>et_active := b, et_updated_at := now\<rparr> else e) = is_entity w i"
    by (rule ext) (simp add: is_entity_def)
  then show ?thesis by (simp add: has_def set_active_def list_ex_map)
qed

lemma lawful_set_active: "lawful env (Some u) db (set_active now b u is db)"
proof -
  have "map et_id (id_entities (set_active now b u is db)) = map et_id (id_entities db)"
    by (auto simp: set_active_def)
  moreover have "rows_for w (set_active now b u is db) = rows_for w db" if "w \<noteq> u" for w
    using that by (auto simp: rows_for_def set_active_def intro!: filter_map_keep)
  moreover have "alias_ok (set_active now b u is db) = alias_ok db" "merge_ok (set_active now b u is db) = merge_ok db"
    by (auto simp: alias_ok_def merge_ok_def fun_eq_iff)
  ultimately show ?thesis unfolding lawful_def identity_ok_def by (auto simp: has_def[symmetric] simp del: map_map) (auto simp: set_active_def)
qed

lemma lawful_merges:
  assumes "\<And>w. u \<noteq> Some w \<Longrightarrow> filter (\<lambda>m. mg_tenant m = w) ms = filter (\<lambda>m. mg_tenant m = w) (id_merges db)"
    and "identity_ok env db \<Longrightarrow> distinct (map mg_id ms) \<and> list_all (merge_ok db) ms"
  shows "lawful env u db (db\<lparr>id_merges := ms\<rparr>)"
proof -
  have "alias_ok (db\<lparr>id_merges := ms\<rparr>) = alias_ok db" "merge_ok (db\<lparr>id_merges := ms\<rparr>) = merge_ok db"
    by (auto intro!: ext ok_cong)
  then show ?thesis using assms by (auto simp: lawful_def rows_for_def has_def identity_ok_def)
qed

lemma lawful_insert_merge:
  assumes "u = Some (mg_tenant m)" "identity_ok env db \<Longrightarrow> merge_ok db m"
  shows "lawful env u db (fst (insert_merge m db))"
proof (cases "mg_id m \<in> mg_id ` set (id_merges db)")
  case False
  then have "lawful env u db (db\<lparr>id_merges := id_merges db @ [m]\<rparr>)"
    using assms by (intro lawful_merges) (auto simp: identity_ok_def)
  then show ?thesis using False by (simp add: insert_merge_def)
qed (simp add: insert_merge_def)

lemma lawful_reverse:
  "lawful env (Some u) db (db\<lparr>id_merges := map (\<lambda>r. if is_merge u m r
     then r\<lparr>mg_reversed := True, mg_reversed_by := who, mg_reversed_at := now\<rparr> else r) (id_merges db)\<rparr>)"
  (is "lawful env _ _ (db\<lparr>id_merges := map ?f _\<rparr>)")
proof (rule lawful_merges)
  show "filter (\<lambda>m. mg_tenant m = w) (map ?f (id_merges db)) = filter (\<lambda>m. mg_tenant m = w) (id_merges db)" if "Some u \<noteq> Some w" for w
    using that by (intro filter_map_keep) (auto simp: is_merge_def)
  have "mg_id \<circ> ?f = mg_id" by (rule ext) simp
  then show "distinct (map mg_id (map ?f (id_merges db))) \<and> list_all (merge_ok db) (map ?f (id_merges db))" if "identity_ok env db"
    using that by (auto simp: identity_ok_def list_all_iff merge_ok_def)
qed

lemma lawful_reviews:
  assumes "\<And>w. u \<noteq> Some w \<Longrightarrow> filter (\<lambda>r. rv_tenant r = w) rs = filter (\<lambda>r. rv_tenant r = w) (id_reviews db)"
    and "identity_ok env db \<Longrightarrow> reviews_ok rs"
  shows "lawful env u db (db\<lparr>id_reviews := rs\<rparr>)"
proof -
  have "alias_ok (db\<lparr>id_reviews := rs\<rparr>) = alias_ok db" "merge_ok (db\<lparr>id_reviews := rs\<rparr>) = merge_ok db"
    by (auto intro!: ext ok_cong)
  then show ?thesis using assms by (auto simp: lawful_def rows_for_def has_def identity_ok_def)
qed

text \<open>An update that opens no closed review keeps at most one open review of a pair.\<close>

lemma reviews_ok_map:
  assumes "reviews_ok rs" "\<And>r. r \<in> set rs \<Longrightarrow> rv_id (f r) = rv_id r \<and> rv_a (f r) = rv_a r \<and> rv_b (f r) = rv_b r \<and> (review_open (f r) \<longrightarrow> review_open r)"
  shows "reviews_ok (map f rs)"
proof -
  have "map rv_id (map f rs) = map rv_id rs" using assms(2) by auto
  moreover have "map (\<lambda>r. (rv_a r, rv_b r)) (filter review_open (map f rs)) =
      map (\<lambda>r. (rv_a r, rv_b r)) (filter (\<lambda>r. review_open (f r)) (filter review_open rs))"
    using assms(2) by (induction rs) auto
  ultimately show ?thesis using assms(1) distinct_map_filter[of "\<lambda>r. (rv_a r, rv_b r)" "filter review_open rs" "\<lambda>r. review_open (f r)"]
    unfolding reviews_ok_def by (simp only:)
qed

lemma lawful_close_reviews: "lawful env (Some u) db (close_reviews now who u is db)"
  unfolding close_reviews_def
proof (rule lawful_reviews)
  fix w
  assume "Some u \<noteq> Some w"
  then show "filter (\<lambda>r. rv_tenant r = w) (map (\<lambda>r. if rv_tenant r = u \<and> rv_status r = ''pending'' \<and> (rv_a r \<in> set is \<or> rv_b r \<in> set is)
      then r\<lparr>rv_status := ''confirmed_match'', rv_resolved_by := who, rv_resolved_at := Some now, rv_notes := Some ''Auto-resolved by merge operation''\<rparr> else r) (id_reviews db)) =
    filter (\<lambda>r. rv_tenant r = w) (id_reviews db)"
    by (intro filter_map_keep) auto
qed (auto simp: identity_ok_def review_open_def intro!: reviews_ok_map split: if_splits)

lemma lawful_insert_review: "u = Some (rv_tenant r) \<Longrightarrow> lawful env u db (fst (insert_review r db))"
proof (cases "fst (insert_review r db) = db")
  case False
  assume u: "u = Some (rv_tenant r)"
  have new: "rv_id r \<notin> rv_id ` set (id_reviews db)" "\<not> list_ex (\<lambda>x. rv_a x = rv_a r \<and> rv_b x = rv_b r \<and> review_open x) (id_reviews db)"
    and fst: "fst (insert_review r db) = db\<lparr>id_reviews := id_reviews db @ [r]\<rparr>"
    using False by (auto simp: insert_review_def split: if_splits)
  have "lawful env u db (db\<lparr>id_reviews := id_reviews db @ [r]\<rparr>)"
    using u new by (intro lawful_reviews) (auto simp: identity_ok_def reviews_ok_def list_ex_iff)
  then show ?thesis by (simp add: fst)
qed simp

lemma lawful_judged:
  assumes "List.find (is_review u i) (id_reviews db) = Some r" "review_open r"
  shows "lawful env (Some u) db (db\<lparr>id_reviews := map (\<lambda>x. if is_review u i x then judged_review now res who nt x else x) (id_reviews db)\<rparr>)"
    (is "lawful env _ _ (db\<lparr>id_reviews := map ?f _\<rparr>)")
proof (rule lawful_reviews)
  show "filter (\<lambda>r. rv_tenant r = w) (map ?f (id_reviews db)) = filter (\<lambda>r. rv_tenant r = w) (id_reviews db)" if "Some u \<noteq> Some w" for w
    using that by (intro filter_map_keep) (auto simp: is_review_def judged_review_def)
  show "reviews_ok (map ?f (id_reviews db))" if ok: "identity_ok env db"
  proof (rule reviews_ok_map)
    show "reviews_ok (id_reviews db)" using ok by (simp add: identity_ok_def)
    fix x
    assume x: "x \<in> set (id_reviews db)"
    have r: "r \<in> set (id_reviews db)" "is_review u i r" using assms(1) by (auto simp: find_Some_iff)
    have "x = r" if "is_review u i x"
      using ok x r that by (auto simp: identity_ok_def reviews_ok_def is_review_def distinct_map dest: inj_onD)
    then show "rv_id (?f x) = rv_id x \<and> rv_a (?f x) = rv_a x \<and> rv_b (?f x) = rv_b x \<and> (review_open (?f x) \<longrightarrow> review_open x)"
      using assms(2) by (auto simp: judged_review_def)
  qed
qed

section \<open>The operations are lawful\<close>

text \<open>Documented of the standard library and the server: a fresh identifier is a text that the server reads as itself.\<close>

definition uuid_texts :: "id_env \<Rightarrow> bool" where
  "uuid_texts env \<longleftrightarrow> (\<forall>n. rt_pg_uuid (ie_rt env) (rt_uuid4 (ie_rt env) n) = Some (rt_uuid4 (ie_rt env) n))"

abbreviation tenant_uuid :: "id_env \<Rightarrow> string \<Rightarrow> string option" where
  "tenant_uuid env t \<equiv> rt_pg_uuid (ie_rt env) t"

lemma lawful_insert_aliases:
  assumes "\<And>u i. tenant_uuid env t = Some u \<Longrightarrow> rt_pg_uuid (ie_rt env) eid = Some i \<Longrightarrow> has u i db"
  shows "lawful env (tenant_uuid env t) db (fst (insert_aliases env now t eid as db))"
  using assms
proof (induction as arbitrary: db)
  case (Cons a as)
  have first: "lawful env (tenant_uuid env t) db (fst (insert_alias env now t eid a db))" using Cons.prems by (rule lawful_insert_alias)
  then have "lawful env (tenant_uuid env t) s (fst (insert_aliases env now t eid as s))" if "insert_alias env now t eid a db = (s, Inr x)" for s x
    using that Cons.prems by (intro Cons.IH) (auto intro: lawful_has)
  then show ?case using first by (auto intro: lawful_run_then)
qed simp

lemma insert_entity_Inr: "insert_entity e db = (s, Inr x) \<Longrightarrow> x = e \<and> s = db\<lparr>id_entities := id_entities db @ [e]\<rparr>"
  by (auto simp: insert_entity_def split: if_splits)

lemma lawful_register:
  assumes "uuid_texts env"
  shows "lawful env (tenant_uuid env t) db (fst (register_entity env sv now t ty name a db))"
proof -
  obtain i db1 where d: "draw_id env db = (i, db1)" by fastforce
  have db1: "lawful env w db db1" for w using lawful_draw[of env w db] unfolding d by simp
  have i: "rt_pg_uuid (ie_rt env) i = Some i" using assms d by (auto simp: uuid_texts_def draw_id_def)
  have "lawful env (tenant_uuid env t) db (fst (run_then (lift (uuid_arg (ie_rt env) t) db1) (\<lambda>u db.
      run_then (insert_entity (new_entity now i u ty name a) db) (\<lambda>e db.
        run_then (insert_aliases env now t i (map (own_alias (ga_created_by a)) (seed_aliases e)) db) (\<lambda>_ db. (db, Inr e))))))"
  proof (rule lawful_trans[OF db1], rule lawful_lift, rule lawful_run_then, goal_cases)
    case (1 u)
    then show ?case using i by (intro lawful_insert_entity) (simp_all add: new_entity_def)
  next
    case (2 u s e)
    then have "has u i s" by (auto dest!: insert_entity_Inr simp: has_def is_entity_def new_entity_def)
    then have "lawful env (tenant_uuid env t) s (fst (insert_aliases env now t i xs s))" for xs
      using 2(1) i by (intro lawful_insert_aliases) auto
    then show ?case by (intro lawful_run_then) simp_all
  qed
  then show ?thesis
    unfolding register_entity_def by (intro lawful_lift) (simp add: d Let_def)
qed

lemma require_entity_Inr: "require_entity env t eid db = Inr (u, i) \<Longrightarrow> tenant_uuid env t = Some u \<and> rt_pg_uuid (ie_rt env) eid = Some i \<and> has u i db"
  by (auto simp: require_entity_def and_then_eq_Inr_iff has_def split: if_splits)

lemma lawful_add_alias: "lawful env (tenant_uuid env t) db (fst (add_alias env sv now t eid a db))"
  unfolding add_alias_def
  by (auto intro!: lawful_lift lawful_insert_alias simp: Let_def dest!: require_entity_Inr)

lemma require_all_Inr:
  "require_all env t xs db = Inr ks \<Longrightarrow> length ks = length xs \<and> list_all (\<lambda>(u, i). tenant_uuid env t = Some u \<and> has u i db) ks \<and>
   map (\<lambda>x. rt_pg_uuid (ie_rt env) x) xs = map (\<lambda>(u, i). Some i) ks"
  by (induction xs arbitrary: ks) (auto simp: and_then_eq_Inr_iff dest!: require_entity_Inr)

lemma lawful_merge_statements:
  assumes "list_all (\<lambda>i. has u i db) (j # is)"
  shows "lawful env (Some u) db (fst (merge_statements env now u is l j reason who db))"
proof -
  obtain m db1 where d: "draw_id env db = (m, db1)" by fastforce
  have db1: "lawful env w db db1" for w using lawful_draw[of env w db] unfolding d by simp
  have j: "has u j db1" using assms lawful_has[OF db1[of None]] by simp
  show ?thesis
    unfolding merge_statements_def d prod.case Let_def
  proof (rule lawful_trans[OF db1], rule lawful_run_then, goal_cases)
    case 1
    then show ?case using j by (intro lawful_update_aliases) auto
  next
    case (2 s x)
    define s1 where "s1 = s\<lparr>id_aliases := filter (\<lambda>a. \<not> (ea_tenant a = u \<and> ea_entity a \<in> set is)) (id_aliases s)\<rparr>"
    have s: "id_entities s = id_entities db1" using 2 by (auto simp: update_aliases_def Let_def split: if_splits)
    have 1: "lawful env (Some u) s s1" unfolding s1_def by (rule lawful_delete_aliases) auto
    have 3: "lawful env (Some u) s1 (set_active now False u is s1)" by (rule lawful_set_active)
    have "id_entities s1 = id_entities db"
      using s draw_tables(1)[of env db] unfolding d s1_def by simp
    then have "list_all (\<lambda>i. has u i (set_active now False u is s1)) (j # is)"
      using assms by (simp add: has_cong[of s1 db])
    then have ins: "lawful env (Some u) (set_active now False u is s1) (fst (insert_merge row (set_active now False u is s1)))"
      if "mg_tenant row = u" "mg_target row = j" "mg_sources row = is" for row
      using that by (intro lawful_insert_merge) (auto simp: merge_ok_def)
    show ?case
      unfolding s1_def[symmetric]
    proof (cases who)
      case (Some w)
      then show "lawful env (Some u) s (fst (case who of None \<Rightarrow> (set_active now False u is s1, Inl integrity_error)
        | Some w \<Rightarrow> run_then (insert_merge \<lparr>mg_id = m, mg_tenant = u, mg_action = ''merge'', mg_sources = is, mg_target = j, mg_reason = reason,
              mg_performed_by = w, mg_performed_at = now, mg_reversed = False, mg_reversed_by = None, mg_reversed_at = None,
              mg_snapshot = Some [(l, snapshot_of u (last is) db1)]\<rparr> (set_active now False u is s1))
            (\<lambda>row db. (close_reviews now who u is db, Inr row))))"
        using ins by (auto intro!: lawful_trans[OF 1] lawful_trans[OF 3] lawful_run_then lawful_close_reviews)
    qed (use lawful_trans[OF 1 3] in simp)
  qed
qed

lemma lawful_merge_bulk: "lawful env (tenant_uuid env t) db (fst (merge_entities_bulk env sv now t sources target reason who db))"
proof -
  have "lawful env (tenant_uuid env t) db (fst (merge_statements env now u (map snd ks) l j reason who db))"
    if "require_all env t sources db = Inr ks" "require_entity env t target db = Inr (u, j)" for ks u j l
  proof -
    have j: "tenant_uuid env t = Some u" "has u j db" using require_entity_Inr[OF that(2)] by auto
    then have "list_all (\<lambda>i. has u i db) (j # map snd ks)"
      using require_all_Inr[OF that(1)] by (auto simp: list_all_iff)
    then show ?thesis using lawful_merge_statements by (simp add: j)
  qed
  then show ?thesis
    unfolding merge_entities_bulk_def by (auto intro!: lawful_lift split: prod.splits)
qed

lemma lawful_merge: "lawful env (tenant_uuid env t) db (fst (merge_entities env sv now t source target reason who db))"
  unfolding merge_entities_def by (intro lawful_lift lawful_merge_bulk)

lemma lawful_give_back:
  "has u i db \<Longrightarrow> lawful env (Some u) db (fst (give_back u j i x db))"
  by (cases x) (auto simp: give_back_def intro!: lawful_update_aliases)

lemma lawful_give_back_all:
  "has u i db \<Longrightarrow> lawful env (Some u) db (fst (give_back_all u j i xs db))"
proof (induction xs arbitrary: db)
  case (Cons x xs)
  have first: "lawful env (Some u) db (fst (give_back u j i x db))" using Cons.prems by (rule lawful_give_back)
  then have "lawful env (Some u) s (fst (give_back_all u j i xs s))" if "give_back u j i x db = (s, Inr y)" for s y
    using that Cons.prems by (intro Cons.IH) (auto intro: lawful_has)
  then show ?case using first by (auto intro: lawful_run_then)
qed simp

lemma lawful_restore:
  "list_all (\<lambda>i. has u i db) is \<Longrightarrow> lawful env (Some u) db (fst (restore_sources now u j snapshot is db))"
proof (induction "is" arbitrary: db)
  case (Cons i "is")
  let ?db = "set_active now True u [i] db" and ?xs = "case map_of snapshot i of None \<Rightarrow> [] | Some xs \<Rightarrow> xs"
  have first: "lawful env (Some u) db (fst (give_back_all u j i ?xs ?db))"
    using Cons.prems by (intro lawful_trans[OF lawful_set_active lawful_give_back_all]) simp
  then have "lawful env (Some u) s (fst (restore_sources now u j snapshot is s))" if "give_back_all u j i ?xs ?db = (s, Inr y)" for s y
    using that Cons.prems by (intro Cons.IH) (auto simp: list_all_iff intro: lawful_has)
  then show ?case using first by (auto intro: lawful_run_then)
qed simp

lemma lawful_split:
  assumes ok: "identity_ok env db"
  shows "lawful env (tenant_uuid env t) db (fst (split_entity env sv now t merge_id who db))"
proof -
  have "lawful env (Some u) db (fst (run_then (restore_sources now u (mg_target row) snapshot (mg_sources row) db) f))"
    if "List.find (is_merge u m) (id_merges db) = Some row" "\<And>s. identity_ok env s \<Longrightarrow> list_all (\<lambda>i. has u i s) (mg_target row # mg_sources row) \<Longrightarrow> lawful env (Some u) s (fst (f () s))"
    for u m row snapshot f
  proof -
    have "row \<in> set (id_merges db)" "mg_tenant row = u" using that(1) by (auto simp: find_Some_iff is_merge_def)
    then have has: "list_all (\<lambda>i. has u i db) (mg_target row # mg_sources row)"
      using ok by (auto simp: identity_ok_def list_all_iff merge_ok_def)
    then have restore: "lawful env (Some u) db (fst (restore_sources now u (mg_target row) snapshot (mg_sources row) db))"
      by (intro lawful_restore) simp
    then have "lawful env (Some u) s (fst (f () s))" if "restore_sources now u (mg_target row) snapshot (mg_sources row) db = (s, Inr ())" for s
      using that has ok by (intro \<open>\<And>s. _ \<Longrightarrow> _ \<Longrightarrow> lawful env (Some u) s (fst (f () s))\<close>) (auto simp: lawful_def list_all_iff)
    then show ?thesis using restore by (auto intro: lawful_run_then)
  qed note step = this
  show ?thesis
    unfolding split_entity_def
  proof (rule lawful_lift, rule lawful_lift, clarsimp simp: and_then_eq_Inr_iff split: option.split, rule step, assumption, goal_cases)
    case (1 u m row snapshot s)
    let ?s1 = "s\<lparr>id_merges := map (\<lambda>r. if is_merge u m r then r\<lparr>mg_reversed := True, mg_reversed_by := who, mg_reversed_at := Some now\<rparr> else r) (id_merges s)\<rparr>"
    obtain k s2 where d: "draw_id env ?s1 = (k, s2)" by fastforce
    have "lawful env (Some u) ?s1 s2" using lawful_draw[of env "Some u" ?s1] unfolding d by simp
    then have s2: "lawful env (Some u) s s2" by (rule lawful_trans[OF lawful_reverse])
    have "id_entities s2 = id_entities s" using draw_tables(1)[of env ?s1] unfolding d by simp
    then have has: "has u i s2 = has u i s" for i by (rule has_cong)
    have "lawful env (Some u) s2 (fst (insert_merge r s2))" if "mg_tenant r = u" "mg_target r = mg_target row" "mg_sources r = mg_sources row" for r
      using that 1 has by (intro lawful_insert_merge) (auto simp: merge_ok_def)
    then show ?case unfolding d prod.case using s2 by (cases who) (auto intro: lawful_trans[OF s2])
  qed
qed

lemma lawful_queue: "lawful env (tenant_uuid env t) db (fst (queue_for_review env sv now t x y match_type conf ev db))"
  unfolding queue_for_review_def
proof (rule lawful_lift, clarsimp, rule lawful_lift, clarsimp simp: and_then_eq_Inr_iff split: option.split, goal_cases)
  case (1 u a b)
  obtain i db1 where d: "draw_id env db = (i, db1)" by fastforce
  have "lawful env (Some u) db db1" using lawful_draw[of env "Some u" db] unfolding d by simp
  then show ?case unfolding d by (auto intro!: lawful_trans[of _ _ db db1] lawful_run_then lawful_insert_review)
qed

lemma lawful_merge_reviewed: "lawful env (tenant_uuid env t) db (fst (merge_reviewed env sv now t u rid target who r db))"
  unfolding merge_reviewed_def Let_def by (auto intro!: lawful_run_then lawful_merge split: prod.split)

lemma lawful_resolve_review: "lawful env (tenant_uuid env t) db (fst (resolve_review env sv now t rid res who nt am target db))"
  unfolding resolve_review_def
proof (rule lawful_lift, clarsimp, rule lawful_lift, clarsimp simp: and_then_eq_Inr_iff Let_def split: option.split_asm, goal_cases)
  case (1 u i)
  show ?case
  proof (cases "List.find (is_review u i) (id_reviews db)")
    case (Some r)
    let ?db = "db\<lparr>id_reviews := map (\<lambda>x. if is_review u i x then judged_review now res who nt x else x) (id_reviews db)\<rparr>"
    have "lawful env (Some u) db (fst (merge_reviewed env sv now t u rid target who x ?db))" if "review_open r" for x
      using lawful_merge_reviewed[of env t ?db sv now u rid target who x] 1 by (intro lawful_trans[OF lawful_judged[OF Some that]]) simp
    then show ?thesis using 1 Some lawful_judged[OF Some] by (auto simp: Let_def)
  qed simp
qed

lemma joined_mem:
  "(e, a) \<in> set (joined u P Q db) \<longleftrightarrow>
   e \<in> set (id_entities db) \<and> a \<in> set (id_aliases db) \<and> ea_tenant a = u \<and> P a \<and> is_entity u (ea_entity a) e \<and> et_active e \<and> Q e"
  by (auto simp: joined_def)

lemma first_known_Some:
  assumes "first_known env t reference tys db = Inr (Some e)"
  shows "\<exists>u. tenant_uuid env t = Some u \<and> e \<in> set (id_entities db) \<and> et_tenant e = u \<and> et_active e"
  using assms
proof (induction tys)
  case (Cons ty tys)
  then obtain u ms where u: "tenant_uuid env t = Some u" and ms: "find_entity_by_alias env t ty reference db = Inr ms"
    and rest: "(case filter et_active (map fst ms) of e # _ \<Rightarrow> Inr (Some e) | [] \<Rightarrow> first_known env t reference tys db) = Inr (Some e)"
    by (auto simp: and_then_eq_Inr_iff find_entity_by_alias_def)
  show ?case
  proof (cases "filter et_active (map fst ms)")
    case (Cons x xs)
    then have "e \<in> set (filter et_active (map fst ms))" using rest by simp
    then show ?thesis using ms u by (auto simp: find_entity_by_alias_def joined_mem is_entity_def and_then_eq_Inr_iff)
  qed (use rest Cons.IH in auto)
qed simp

lemma register_Inr:
  assumes "register_entity env sv now t ty name a db = (s, Inr e)" "uuid_texts env"
  shows "\<exists>u. tenant_uuid env t = Some u \<and> et_tenant e = u \<and> has u (et_id e) s \<and> rt_pg_uuid (ie_rt env) (et_id e) = Some (et_id e)"
proof -
  obtain i db1 where d: "draw_id env db = (i, db1)" by fastforce
  have i: "rt_pg_uuid (ie_rt env) i = Some i" using assms(2) d by (auto simp: uuid_texts_def draw_id_def)
  obtain u s1 where u: "tenant_uuid env t = Some u" and e: "e = new_entity now i u ty name a"
    and s1: "insert_entity e db1 = (s1, Inr e)"
    and s: "insert_aliases env now t i (map (own_alias (ga_created_by a)) (seed_aliases e)) s1 = (s, Inr ())"
    using assms(1) by (auto simp: register_entity_def run_then_eq_Inr_iff d Let_def dest: insert_entity_Inr split: if_splits)
  have h: "has u i s1" using insert_entity_Inr[OF s1] by (auto simp: has_def is_entity_def e new_entity_def)
  then have "lawful env (tenant_uuid env t) s1 (fst (insert_aliases env now t i (map (own_alias (ga_created_by a)) (seed_aliases e)) s1))"
    using u i by (intro lawful_insert_aliases) auto
  then have "has u i s" using h by (simp add: s lawful_has)
  then show ?thesis using u i by (simp add: e new_entity_def)
qed

lemma lawful_tolerate: "lawful env u db (fst (tolerate r)) = lawful env u db (fst r)"
  by (cases r; cases "snd r") (auto simp: tolerate_def split: py_error.splits)

lemma lawful_queue_matches:
  "lawful env (tenant_uuid env t) db (fst (queue_matches env sv now t new_id reference ty src ms how db))"
proof (induction ms arbitrary: how db)
  case (Cons m ms)
  have "lawful env (tenant_uuid env t) db (fst (run_then (queue_for_review env sv now t new_id (et_id (pm_entity m)) mt (pm_confidence m) ev db)
      (\<lambda>_. queue_matches env sv now t new_id reference ty src ms ''new_with_review'')))" for mt ev
    using Cons.IH by (intro lawful_run_then lawful_queue)
  then show ?case using Cons.IH by (simp add: Let_def)
qed simp

lemma lawful_register_reference:
  assumes "uuid_texts env"
  shows "lawful env (tenant_uuid env t) db (fst (register_reference env sv now t reference ty src alias_type who db))"
  unfolding register_reference_def
proof (rule lawful_lift, rule lawful_run_then, goal_cases)
  case 1
  show ?case using assms by (rule lawful_register)
next
  case (2 fuzzy s e)
  then have "has u i s" if "tenant_uuid env t = Some u" "rt_pg_uuid (ie_rt env) (et_id e) = Some i" for u i
    using register_Inr[OF 2(2) assms] that by auto
  then show ?case
    by (intro lawful_run_then lawful_queue_matches) (auto simp: lawful_tolerate intro: lawful_insert_alias)
qed

lemma lawful_resolve:
  assumes "uuid_texts env"
  shows "lawful env (tenant_uuid env t) db (fst (resolve_or_register env sv now t reference ty src alias_type who db))"
  unfolding resolve_or_register_def
  using lawful_register_reference[OF assms] by (auto intro!: lawful_lift split: option.split)

text \<open>The entity that a reference resolves to is one of the tenant.\<close>

definition owned :: "id_env \<Rightarrow> string \<Rightarrow> entity \<Rightarrow> identity_db \<Rightarrow> bool" where
  "owned env t e db \<longleftrightarrow> (\<exists>u. tenant_uuid env t = Some u \<and> has u (et_id e) db \<and> rt_pg_uuid (ie_rt env) (et_id e) = Some (et_id e))"

lemma owned_mono: "owned env t e db \<Longrightarrow> lawful env u db db' \<Longrightarrow> owned env t e db'"
  by (auto simp: owned_def intro: lawful_has)

lemma resolve_owned:
  assumes "resolve_or_register env sv now t reference ty src alias_type who db = (s, Inr (e, how))" "uuid_texts env" "identity_ok env db"
  shows "owned env t e s"
proof -
  obtain known where k: "first_known env t reference (search_types alias_type reference) db = Inr known"
    and rest: "(case known of Some e \<Rightarrow> (db, Inr (e, ''existing'')) | None \<Rightarrow> register_reference env sv now t reference ty src alias_type who db) =
      (s, Inr (e, how))"
    using assms(1) by (auto simp: resolve_or_register_def run_then_eq_Inr_iff)
  show ?thesis
  proof (cases known)
    case (Some x)
    then have "x = e" "s = db" using rest by simp_all
    then show ?thesis
      using first_known_Some[of env t reference _ db e] k Some assms(3)
      by (auto simp: owned_def has_def list_ex_iff is_entity_def identity_ok_def list_all_iff)
  next
    case None
    then obtain s1 s2 fuzzy x how' where reg: "register_entity env sv now t ty reference (reference_args reference who) db = (s1, Inr x)"
      and ins: "(if alias_type \<noteq> ''name''
          then tolerate (insert_alias env now t (et_id x) \<lparr>aa_type = alias_type, aa_value = reference, aa_source_system = src,
            aa_source_file = None, aa_confidence = Fin 1, aa_created_by = who\<rparr> s1) else (s1, Inr ())) = (s2, Inr ())"
      and q: "queue_matches env sv now t (et_id x) reference ty src fuzzy ''new'' s2 = (s, Inr how')" and e: "x = e"
      using rest by (auto simp: register_reference_def run_then_eq_Inr_iff)
    have own: "owned env t x s1" using register_Inr[OF reg assms(2)] by (auto simp: owned_def)
    then have "lawful env (tenant_uuid env t) s1 (fst (if alias_type \<noteq> ''name''
          then tolerate (insert_alias env now t (et_id x) \<lparr>aa_type = alias_type, aa_value = reference, aa_source_system = src,
            aa_source_file = None, aa_confidence = Fin 1, aa_created_by = who\<rparr> s1) else (s1, Inr ())))"
      by (auto simp: lawful_tolerate owned_def intro!: lawful_insert_alias)
    then have "owned env t x s2" using own by (auto simp: ins intro: owned_mono)
    moreover have "lawful env (tenant_uuid env t) s2 s"
      using lawful_queue_matches[of env t s2 sv now "et_id x" reference ty src fuzzy "''new''"] by (simp add: q)
    ultimately show ?thesis using e by (auto intro: owned_mono)
  qed
qed

lemma lawful_event_reference:
  assumes "uuid_texts env"
  shows "lawful env (tenant_uuid env t) db (fst (event_reference env sv now t src who event key ty alias_type db))"
  unfolding event_reference_def Let_def
  by (auto split: pyval.split intro!: lawful_run_then lawful_resolve[OF assms])

lemma event_reference_owned:
  assumes "event_reference env sv now t src who event key ty alias_type db = (s, Inr xs)" "uuid_texts env" "identity_ok env db"
  shows "list_all (\<lambda>(e, _). owned env t e s) xs"
  using assms resolve_owned[OF _ assms(2,3)]
  by (auto simp: event_reference_def Let_def run_then_eq_Inr_iff split: if_splits pyval.splits)

lemma lawful_lot_prefix:
  assumes "list_all (\<lambda>(e, _). owned env t e db) lots"
  shows "lawful env (tenant_uuid env t) db (fst (lot_prefix_alias env now t src who event lots db))"
  using assms
  by (auto simp: lot_prefix_alias_def lawful_tolerate owned_def split: list.split pyval.split intro!: lawful_insert_alias)

lemma lawful_run_ok:
  assumes "identity_ok env db" "lawful env u db (fst r)" "\<And>s a. identity_ok env s \<Longrightarrow> lawful env u s (fst (f a s))"
  shows "lawful env u db (fst (run_then r f))"
  using assms by (intro lawful_run_then) (auto simp: lawful_def)

lemma lawful_auto_register:
  assumes "uuid_texts env" "identity_ok env db"
  shows "lawful env (tenant_uuid env t) db (fst (auto_register_from_event env sv now t event src who db))"
proof -
  note ref = lawful_event_reference[OF assms(1)]
  have lots: "lawful env (tenant_uuid env t) d (fst (run_then (event_reference env sv now t src who event ''traceability_lot_code'' ''lot'' ''tlc'' d)
      (\<lambda>ls d. run_then (lot_prefix_alias env now t src who event ls d) (\<lambda>_ d. (d, Inr (f ls))))))" if "identity_ok env d" for d and f :: "_ \<Rightarrow> registered"
    using event_reference_owned[OF _ assms(1) that] by (intro lawful_run_then ref lawful_lot_prefix) auto
  show ?thesis
    unfolding auto_register_from_event_def Let_def
    by (rule lawful_lift, rule lawful_run_ok[OF assms(2) ref], rule lawful_run_ok[OF _ ref], assumption,
        rule lawful_run_ok[OF _ ref], assumption, rule lawful_run_ok[OF _ ref], assumption, rule lawful_run_ok[OF _ ref], assumption,
        rule lots)
qed

section \<open>The contract of an operation\<close>

text \<open>
  An operation of the service, given the service object and the tenant as texts: the tenant lock comes before any effect, and
  in consistent tables its effect is lawful.
\<close>

locale identity_operation =
  fixes env :: id_env and opr :: "identity_service \<Rightarrow> string \<Rightarrow> identity_db \<Rightarrow> 'a id_result"
  assumes locked: "verify_tenant_access sv t = Inl e \<Longrightarrow> opr sv t db = (db, Inl e)"
    and lawful_opr: "uuid_texts env \<Longrightarrow> identity_ok env db \<Longrightarrow> lawful env (tenant_uuid env t) db (fst (opr sv t db))"
begin

lemma keeps_tables: "uuid_texts env \<Longrightarrow> identity_ok env db \<Longrightarrow> identity_ok env (fst (opr sv t db))"
  using lawful_opr by (simp add: lawful_def)

lemma other_tenants: "uuid_texts env \<Longrightarrow> identity_ok env db \<Longrightarrow> tenant_uuid env t \<noteq> Some w \<Longrightarrow> rows_for w (fst (opr sv t db)) = rows_for w db"
  using lawful_opr by (simp add: lawful_def)

lemma no_entity_lost: "uuid_texts env \<Longrightarrow> identity_ok env db \<Longrightarrow> has u i db \<Longrightarrow> has u i (fst (opr sv t db))"
  using lawful_opr lawful_has by blast

lemma foreign_tenant_refused:
  assumes "sv_principal sv = Some p" "\<not> sv_allow_cross_tenant sv" "t \<noteq> p"
  shows "\<exists>msg. opr sv t db = (db, Inl (PermissionError msg))"
proof -
  obtain msg where "verify_tenant_access sv t = Inl (PermissionError msg)"
    using assms by (cases "t = []") (auto simp: verify_tenant_access_def)
  then show ?thesis using locked by blast
qed

lemma framed:
  assumes "uuid_texts env" "identity_ok env db" "tenant_uuid env t \<noteq> Some w"
  shows "rows_for w (fst (opr sv t db)) = rows_for w db \<and>
    (sv_principal sv = Some p \<and> \<not> sv_allow_cross_tenant sv \<and> t \<noteq> p \<longrightarrow> fst (opr sv t db) = db)"
  using other_tenants[OF assms] foreign_tenant_refused[of sv p t db] by auto

end

lemma run_then_lift_Inl [simp]: "run_then (lift (Inl e) db) f = (db, Inl e)"
  by (simp add: lift_def)

interpretation registering: identity_operation env "\<lambda>sv t. register_entity env sv now t ty name a"
proof unfold_locales
qed (simp add: register_entity_def, simp add: lawful_register)

interpretation aliasing: identity_operation env "\<lambda>sv t. add_alias env sv now t eid a"
proof unfold_locales
qed (simp add: add_alias_def, simp add: lawful_add_alias)

interpretation merging: identity_operation env "\<lambda>sv t. merge_entities_bulk env sv now t sources target reason who"
proof unfold_locales
qed (simp add: merge_entities_bulk_def, simp add: lawful_merge_bulk)

interpretation merging_one: identity_operation env "\<lambda>sv t. merge_entities env sv now t source target reason who"
proof unfold_locales
qed (simp add: merge_entities_def, simp add: lawful_merge)

interpretation splitting: identity_operation env "\<lambda>sv t. split_entity env sv now t mid who"
proof unfold_locales
qed (simp add: split_entity_def, simp add: lawful_split)

interpretation queueing: identity_operation env "\<lambda>sv t. queue_for_review env sv now t x y mt conf ev"
proof unfold_locales
qed (simp add: queue_for_review_def, simp add: lawful_queue)

interpretation reviewing: identity_operation env "\<lambda>sv t. resolve_review env sv now t rid res who nt am target"
proof unfold_locales
qed (simp add: resolve_review_def, simp add: lawful_resolve_review)

interpretation ingesting: identity_operation env "\<lambda>sv t. auto_register_from_event env sv now t event src who"
proof unfold_locales
qed (simp add: auto_register_from_event_def Let_def, simp add: lawful_auto_register)

section \<open>Reachable tables\<close>

definition no_identities :: identity_db where
  "no_identities = \<lparr>id_entities = [], id_aliases = [], id_merges = [], id_reviews = [], id_uuids = 0\<rparr>"

lemma no_identities_ok: "identity_ok env no_identities"
  by (simp add: identity_ok_def no_identities_def unique_aliases_def reviews_ok_def)

text \<open>Operations of any tenant and any service object; one that raises is rolled back.\<close>

inductive id_step :: "id_env \<Rightarrow> identity_db \<Rightarrow> identity_db \<Rightarrow> bool" for env where
  "register_entity env sv now t ty name a db = (db', Inr e) \<Longrightarrow> id_step env db db'"
| "add_alias env sv now t eid al db = (db', Inr i) \<Longrightarrow> id_step env db db'"
| "merge_entities_bulk env sv now t sources target reason who db = (db', Inr m) \<Longrightarrow> id_step env db db'"
| "merge_entities env sv now t source target reason who db = (db', Inr m) \<Longrightarrow> id_step env db db'"
| "split_entity env sv now t mid who db = (db', Inr m) \<Longrightarrow> id_step env db db'"
| "queue_for_review env sv now t x y mt conf ev db = (db', Inr r) \<Longrightarrow> id_step env db db'"
| "resolve_review env sv now t rid res who nt am tgt db = (db', Inr r') \<Longrightarrow> id_step env db db'"
| "auto_register_from_event env sv now t event src who db = (db', Inr g) \<Longrightarrow> id_step env db db'"

lemma id_step_ok:
  assumes "id_step env db db'" "uuid_texts env" "identity_ok env db"
  shows "identity_ok env db'"
  using assms(1)
proof cases
  case (1 sv now t ty name a e)
  then show ?thesis using registering.keeps_tables[OF assms(2,3), where now = now and sv = sv and t = t] by (metis fst_conv)
next
  case (2 sv now t eid al i)
  then show ?thesis using aliasing.keeps_tables[OF assms(2,3), where now = now and sv = sv and t = t] by (metis fst_conv)
next
  case (3 sv now t sources target reason who m)
  then show ?thesis using merging.keeps_tables[OF assms(2,3), where now = now and sv = sv and t = t] by (metis fst_conv)
next
  case (4 sv now t source target reason who m)
  then show ?thesis using merging_one.keeps_tables[OF assms(2,3), where now = now and sv = sv and t = t] by (metis fst_conv)
next
  case (5 sv now t mid who m)
  then show ?thesis using splitting.keeps_tables[OF assms(2,3), where now = now and sv = sv and t = t] by (metis fst_conv)
next
  case (6 sv now t x y mt conf ev r)
  then show ?thesis using queueing.keeps_tables[OF assms(2,3), where now = now and sv = sv and t = t] by (metis fst_conv)
next
  case (7 sv now t rid res who nt am tgt r')
  then show ?thesis using reviewing.keeps_tables[OF assms(2,3), where now = now and sv = sv and t = t] by (metis fst_conv)
next
  case (8 sv now t event src who g)
  then show ?thesis using ingesting.keeps_tables[OF assms(2,3), where now = now and sv = sv and t = t] by (metis fst_conv)
qed

lemma reachable_ok: "(id_step env)\<^sup>*\<^sup>* no_identities db \<Longrightarrow> uuid_texts env \<Longrightarrow> identity_ok env db"
  by (induction rule: rtranclp_induct) (auto intro: no_identities_ok id_step_ok)

section \<open>Merge and split\<close>

definition moved :: "string \<Rightarrow> string list \<Rightarrow> string \<Rightarrow> entity_alias \<Rightarrow> entity_alias" where
  "moved u is j a = (if ea_tenant a = u \<and> ea_entity a \<in> set is then a\<lparr>ea_entity := j\<rparr> else a)"

definition returned :: "string \<Rightarrow> string \<Rightarrow> string \<Rightarrow> (string \<times> string) set \<Rightarrow> entity_alias \<Rightarrow> entity_alias" where
  "returned u j i K a = (if ea_tenant a = u \<and> ea_entity a = j \<and> (ea_type a, ea_value a) \<in> K then a\<lparr>ea_entity := i\<rparr> else a)"

text \<open>Within a tenant, a key belongs to one entity.\<close>

lemma key_owner:
  assumes "unique_aliases as" "a \<in> set as" "b \<in> set as" "ea_tenant a = ea_tenant b" "ea_type a = ea_type b" "ea_value a = ea_value b"
  shows "a = b"
  using assms by (auto simp: unique_aliases_def distinct_map dest!: inj_onD)

lemma merge_bulk_Inr:
  assumes "merge_entities_bulk env sv now t sources target reason who db = (db', Inr m)" "identity_ok env db"
    and "list_all (\<lambda>i. rt_pg_uuid (ie_rt env) i = Some i) (target # sources)"
  shows "\<exists>u. tenant_uuid env t = Some u \<and> target \<notin> set sources \<and> distinct sources \<and> sources \<noteq> [] \<and>
    id_aliases db' = map (moved u sources target) (id_aliases db) \<and>
    id_entities db' = id_entities (set_active now False u sources db) \<and>
    m \<in> set (id_merges db') \<and> mg_tenant m = u \<and> mg_action m = ''merge'' \<and> \<not> mg_reversed m \<and> mg_sources m = sources \<and> mg_target m = target \<and>
    mg_snapshot m = Some [(last sources, snapshot_of u (last sources) db)] \<and> rt_uuid4 (ie_rt env) (id_uuids db) = mg_id m"
proof -
  obtain ks u j where s: "sources \<noteq> []" "distinct sources" "target \<notin> set sources"
    and ks: "require_all env t sources db = Inr ks" and j: "require_entity env t target db = Inr (u, j)"
    and run: "merge_statements env now u (map snd ks) (last sources) j reason who db = (db', Inr m)"
    using assms(1) by (auto simp: merge_entities_bulk_def run_then_eq_Inr_iff split: if_splits prod.splits)
  have u: "tenant_uuid env t = Some u" "j = target" using require_entity_Inr[OF j] assms(3) by auto
  have "map Some sources = map (\<lambda>x. rt_pg_uuid (ie_rt env) x) sources" using assms(3) by (auto simp: list_all_iff)
  then have "map Some sources = map Some (map snd ks)" using require_all_Inr[OF ks] by (simp add: case_prod_beta comp_def)
  then have ids: "map snd ks = sources" by (metis inj_Some inj_map_eq_map)
  let ?held = "map (\<lambda>a. (ea_type a, ea_value a)) (filter (\<lambda>a. ea_tenant a = u \<and> ea_entity a = target) (id_aliases db))"
  let ?P = "\<lambda>a. ea_tenant a = u \<and> ea_entity a \<in> set sources \<and> (ea_type a, ea_value a) \<notin> set ?held"
  have P: "?P a = (ea_tenant a = u \<and> ea_entity a \<in> set sources)" if "a \<in> set (id_aliases db)" for a
  proof -
    have "(ea_type a, ea_value a) \<notin> set ?held" if "ea_tenant a = u" "ea_entity a \<in> set sources"
    proof
      assume "(ea_type a, ea_value a) \<in> set ?held"
      then obtain b where b: "b \<in> set (id_aliases db)" "ea_tenant b = u" "ea_entity b = target" "ea_type a = ea_type b" "ea_value a = ea_value b"
        by auto
      then have "a = b" using that \<open>a \<in> _\<close> assms(2) by (intro key_owner[of "id_aliases db"]) (auto simp: identity_ok_def)
      then show False using b(3) that(2) s(3) by simp
    qed
    then show ?thesis by blast
  qed
  then have mv: "map (\<lambda>a. if ?P a then a\<lparr>ea_entity := target\<rparr> else a) (id_aliases db) = map (moved u sources target) (id_aliases db)"
    by (auto simp: moved_def)
  have left: "\<not> (ea_tenant (moved u sources target a) = u \<and> ea_entity (moved u sources target a) \<in> set sources)" for a
    using s(3) by (simp add: moved_def)
  have keep: "filter (\<lambda>a. \<not> (ea_tenant a = u \<and> ea_entity a \<in> set sources)) (map (moved u sources target) as) = map (moved u sources target) as" for as
    using left by (intro filter_True ballI) (metis (no_types, lifting) imageE set_map)
  have kept: "filter (\<lambda>a. \<not> (ea_tenant a = u \<and> ea_entity a \<in> set sources)) (map (\<lambda>a. if ?P a then a\<lparr>ea_entity := target\<rparr> else a) (id_aliases db)) =
      map (moved u sources target) (id_aliases db)"
    unfolding mv by (rule keep)
  obtain w where who: "who = Some w" using run by (cases who) (auto simp: merge_statements_def draw_id_def run_then_eq_Inr_iff)
  show ?thesis
    using run s u(1) unfolding ids u(2) merge_statements_def draw_id_def who
    by (auto simp: run_then_eq_Inr_iff Let_def update_aliases_def set_active_def insert_merge_def close_reviews_def snapshot_of_def
        kept[simplified] split: if_splits)
qed

lemma give_back_Inr:
  assumes "give_back u j i x db = (s, Inr y)"
  shows "s = db\<lparr>id_aliases := map (returned u j i ({x} \<inter> {(ty, v). ty \<noteq> [] \<and> v \<noteq> []})) (id_aliases db)\<rparr>"
proof (cases x)
  case (Pair ty v)
  show ?thesis
  proof (cases "ty = [] \<or> v = []")
    case True
    then have "s = db" "returned u j i ({x} \<inter> {(ty, v). ty \<noteq> [] \<and> v \<noteq> []}) = (\<lambda>a. a)"
      using assms by (auto simp: Pair give_back_def returned_def fun_eq_iff)
    then show ?thesis by simp
  next
    case False
    then have "map (\<lambda>a. if ea_tenant a = u \<and> ea_entity a = j \<and> ea_type a = ty \<and> ea_value a = v then a\<lparr>ea_entity := i\<rparr> else a) as =
        map (returned u j i ({x} \<inter> {(ty, v). ty \<noteq> [] \<and> v \<noteq> []})) as" for as
      by (intro map_cong) (auto simp: returned_def Pair)
    then show ?thesis using assms False by (auto simp: Pair give_back_def update_aliases_def Let_def split: if_splits)
  qed
qed

lemma returned_twice:
  "i \<noteq> j \<Longrightarrow> returned u j i K (returned u j i L a) = returned u j i (K \<union> L) a"
  by (auto simp: returned_def)

lemma give_back_all_Inr:
  assumes "give_back_all u j i xs db = (s, Inr y)" "i \<noteq> j"
  shows "s = db\<lparr>id_aliases := map (returned u j i (set xs \<inter> {(ty, v). ty \<noteq> [] \<and> v \<noteq> []})) (id_aliases db)\<rparr>"
  using assms(1)
proof (induction xs arbitrary: db)
  case Nil
  have "returned u j i {} = (\<lambda>a. a)" by (auto simp: returned_def)
  then show ?case using Nil by simp
next
  case (Cons x xs)
  let ?ne = "{(ty, v). ty \<noteq> [] \<and> v \<noteq> []} :: (string \<times> string) set"
  obtain s1 z where g: "give_back u j i x db = (s1, Inr z)" and r: "give_back_all u j i xs s1 = (s, Inr y)"
    using Cons.prems by (auto simp: run_then_eq_Inr_iff)
  have "(set xs \<inter> ?ne) \<union> ({x} \<inter> ?ne) = set (x # xs) \<inter> ?ne" by auto
  then have "map (returned u j i (set xs \<inter> ?ne)) (map (returned u j i ({x} \<inter> ?ne)) as) = map (returned u j i (set (x # xs) \<inter> ?ne)) as" for as
    using returned_twice[OF assms(2), of u "set xs \<inter> ?ne" "{x} \<inter> ?ne"] by simp
  then show ?case using Cons.IH[OF r] unfolding give_back_Inr[OF g] by simp
qed

text \<open>The snapshot names one source: the others come back without aliases.\<close>

lemma restore_none:
  assumes "restore_sources now u j [(l, xs)] is db = (s, Inr y)" "l \<notin> set is"
  shows "id_aliases s = id_aliases db \<and> id_entities s = id_entities (set_active now True u is db) \<and> id_merges s = id_merges db"
  using assms
proof (induction "is" arbitrary: db)
  case (Cons i "is")
  have "restore_sources now u j [(l, xs)] is (set_active now True u [i] db) = (s, Inr y)" using Cons.prems by auto
  then show ?case using Cons by (auto simp: set_active_def)
qed (simp add: set_active_def)

lemma restore_append:
  "restore_sources now u j snapshot (is @ is') db = run_then (restore_sources now u j snapshot is db) (\<lambda>_. restore_sources now u j snapshot is')"
  by (induction "is" arbitrary: db) (auto simp: run_then_def split: prod.split sum.split)

lemma restore_last:
  assumes "restore_sources now u j [(l, xs)] (is @ [l]) db = (s, Inr y)" "l \<notin> set is" "l \<noteq> j"
  shows "id_aliases s = map (returned u j l (set xs \<inter> {(ty, v). ty \<noteq> [] \<and> v \<noteq> []})) (id_aliases db) \<and>
    id_entities s = id_entities (set_active now True u (is @ [l]) db) \<and> id_merges s = id_merges db"
proof -
  obtain s1 z where 1: "restore_sources now u j [(l, xs)] is db = (s1, Inr z)" and 2: "restore_sources now u j [(l, xs)] [l] s1 = (s, Inr y)"
    using assms(1) unfolding restore_append run_then_eq_Inr_iff by blast
  have "give_back_all u j l xs (set_active now True u [l] s1) = (s, Inr y)" using 2 by (auto simp: run_then_eq_Inr_iff)
  from give_back_all_Inr[OF this assms(3)] restore_none[OF 1 assms(2)] show ?thesis by (auto simp: set_active_def)
qed

lemma find_merge:
  assumes "identity_ok env db" "m \<in> set (id_merges db)"
  shows "List.find (is_merge (mg_tenant m) (mg_id m)) (id_merges db) = Some m"
proof -
  obtain x where x: "List.find (is_merge (mg_tenant m) (mg_id m)) (id_merges db) = Some x"
    using assms(2) by (cases "List.find (is_merge (mg_tenant m) (mg_id m)) (id_merges db)") (auto simp: find_None_iff is_merge_def)
  then have "x \<in> set (id_merges db)" "mg_id x = mg_id m" by (auto simp: find_Some_iff is_merge_def)
  then have "x = m" using assms by (auto simp: identity_ok_def distinct_map dest: inj_onD)
  then show ?thesis using x by simp
qed

lemma split_Inr:
  assumes "split_entity env sv now t (mg_id m) who db = (s, Inr r)" "identity_ok env db" "m \<in> set (id_merges db)"
    and "rt_pg_uuid (ie_rt env) (mg_id m) = Some (mg_id m)" "tenant_uuid env t = Some (mg_tenant m)" "mg_snapshot m = Some snapshot"
  shows "\<exists>s1. restore_sources now (mg_tenant m) (mg_target m) snapshot (mg_sources m) db = (s1, Inr ()) \<and>
    id_aliases s = id_aliases s1 \<and> id_entities s = id_entities s1"
  using assms(1) find_merge[OF assms(2,3)] assms(4,5,6)
  by (auto simp: split_entity_def run_then_eq_Inr_iff uuid_arg_def Let_def draw_id_def insert_merge_def
      split: if_splits option.splits prod.splits)

text \<open>The split itself never fails on consistent tables.\<close>

lemma distinct_map_coarser:
  "distinct (map g xs) \<Longrightarrow> (\<And>x y. x \<in> set xs \<Longrightarrow> y \<in> set xs \<Longrightarrow> f x = f y \<Longrightarrow> g x = g y) \<Longrightarrow> distinct (map f xs)"
  unfolding distinct_map inj_on_def by blast

lemma has_tenant:
  assumes "identity_ok env db" "has u i db" "has w i db"
  shows "u = w"
proof -
  obtain x y where "x \<in> set (id_entities db)" "et_tenant x = u" "et_id x = i" "y \<in> set (id_entities db)" "et_tenant y = w" "et_id y = i"
    using assms(2,3) by (auto simp: has_def list_ex_iff is_entity_def)
  then show ?thesis using assms(1) by (auto simp: identity_ok_def distinct_map dest: inj_onD)
qed

lemma update_aliases_returns:
  assumes "identity_ok env db" "has u i db" "\<And>a. P a \<Longrightarrow> ea_tenant a = u"
  shows "\<exists>s. update_aliases P i db = (s, Inr ()) \<and> identity_ok env s \<and> (\<forall>w k. has w k s = has w k db) \<and> id_merges s = id_merges db \<and> id_uuids s = id_uuids db"
proof -
  let ?f = "\<lambda>a. if P a then a\<lparr>ea_entity := i\<rparr> else a"
  have keys: "ea_tenant (?f a) = ea_tenant a" "ea_type (?f a) = ea_type a" "ea_value (?f a) = ea_value a" for a by auto
  have own: "has (ea_tenant (?f a)) (ea_entity (?f a)) db" if "a \<in> set (id_aliases db)" for a
    using that assms by (auto simp: identity_ok_def list_all_iff alias_ok_def)
  have d: "distinct (map (\<lambda>a. (ea_tenant (?f a), ea_type (?f a), ea_value (?f a))) (id_aliases db))"
    unfolding keys using assms(1) by (simp add: identity_ok_def unique_aliases_def)
  have "distinct (map (\<lambda>a. (ea_entity (?f a), ea_type (?f a), ea_value (?f a))) (id_aliases db))"
  proof (rule distinct_map_coarser[OF d])
    fix a b assume "a \<in> set (id_aliases db)" "b \<in> set (id_aliases db)"
      and eq: "(ea_entity (?f a), ea_type (?f a), ea_value (?f a)) = (ea_entity (?f b), ea_type (?f b), ea_value (?f b))"
    then have "has (ea_tenant (?f a)) (ea_entity (?f a)) db" "has (ea_tenant (?f b)) (ea_entity (?f a)) db" using own[of a] own[of b] by simp_all
    then have "ea_tenant (?f a) = ea_tenant (?f b)" by (rule has_tenant[OF assms(1)])
    then show "(ea_tenant (?f a), ea_type (?f a), ea_value (?f a)) = (ea_tenant (?f b), ea_type (?f b), ea_value (?f b))" using eq by simp
  qed
  then have "unique_aliases (map ?f (id_aliases db))" using d by (simp add: unique_aliases_def comp_def)
  then have s: "update_aliases P i db = (db\<lparr>id_aliases := map ?f (id_aliases db)\<rparr>, Inr ())" by (simp add: update_aliases_def)
  have "lawful env (Some u) db (fst (update_aliases P i db))" using assms(2,3) by (intro lawful_update_aliases) auto
  then show ?thesis using assms(1) s by (simp add: lawful_def has_def)
qed

lemma give_back_all_returns:
  assumes "identity_ok env db" "has u i db"
  shows "\<exists>s. give_back_all u j i xs db = (s, Inr ()) \<and> identity_ok env s \<and> (\<forall>w k. has w k s = has w k db) \<and> id_merges s = id_merges db \<and> id_uuids s = id_uuids db"
  using assms
proof (induction xs arbitrary: db)
  case (Cons x xs)
  have "\<exists>s. give_back u j i x db = (s, Inr ()) \<and> identity_ok env s \<and> (\<forall>w k. has w k s = has w k db) \<and> id_merges s = id_merges db \<and> id_uuids s = id_uuids db"
  proof (cases "fst x = [] \<or> snd x = []")
    case True
    then show ?thesis using Cons.prems by (auto simp: give_back_def case_prod_beta)
  next
    case False
    then have "give_back u j i x db = update_aliases (\<lambda>a. ea_tenant a = u \<and> ea_entity a = j \<and> ea_type a = fst x \<and> ea_value a = snd x) i db"
      by (simp add: give_back_def case_prod_beta)
    moreover have "\<exists>s. update_aliases (\<lambda>a. ea_tenant a = u \<and> ea_entity a = j \<and> ea_type a = fst x \<and> ea_value a = snd x) i db = (s, Inr ()) \<and> identity_ok env s \<and>
        (\<forall>w k. has w k s = has w k db) \<and> id_merges s = id_merges db \<and> id_uuids s = id_uuids db"
      by (rule update_aliases_returns[OF Cons.prems]) simp
    ultimately show ?thesis by simp
  qed
  then obtain s where s: "give_back u j i x db = (s, Inr ())" "identity_ok env s" "\<forall>w k. has w k s = has w k db" "id_merges s = id_merges db" "id_uuids s = id_uuids db"
    by blast
  obtain s' where "give_back_all u j i xs s = (s', Inr ())" "identity_ok env s'" "\<forall>w k. has w k s' = has w k s" "id_merges s' = id_merges s" "id_uuids s' = id_uuids s"
    using Cons.IH[of s] s Cons.prems(2) by auto
  then show ?case using s by simp
qed simp

lemma restore_returns:
  assumes "identity_ok env db" "list_all (\<lambda>i. has u i db) is"
  shows "\<exists>s. restore_sources now u j snapshot is db = (s, Inr ()) \<and> id_merges s = id_merges db \<and> id_uuids s = id_uuids db"
  using assms
proof (induction "is" arbitrary: db)
  case (Cons i "is")
  let ?db = "set_active now True u [i] db"
  have "identity_ok env ?db" using lawful_set_active Cons.prems(1) by (auto simp: lawful_def)
  moreover have "has u i ?db" using Cons.prems(2) by simp
  ultimately obtain s where s: "give_back_all u j i (case map_of snapshot i of None \<Rightarrow> [] | Some xs \<Rightarrow> xs) ?db = (s, Inr ())" "identity_ok env s"
    "\<forall>w k. has w k s = has w k ?db" "id_merges s = id_merges ?db" "id_uuids s = id_uuids ?db" using give_back_all_returns by blast
  have "list_all (\<lambda>i. has u i s) is" using s(3) Cons.prems(2) by simp
  from Cons.IH[OF s(2) this] show ?case using s by (auto simp: set_active_def)
qed simp

lemma split_returns:
  assumes "identity_ok env db" "m \<in> set (id_merges db)" "mg_action m = ''merge''" "\<not> mg_reversed m" "mg_snapshot m = Some snapshot"
    and "rt_pg_uuid (ie_rt env) (mg_id m) = Some (mg_id m)" "tenant_uuid env t = Some (mg_tenant m)" "verify_tenant_access sv t = Inr ()"
    and "rt_uuid4 (ie_rt env) (id_uuids db) \<notin> mg_id ` set (id_merges db)"
  shows "\<exists>s r. split_entity env sv now t (mg_id m) (Some w) db = (s, Inr r)"
proof -
  have "list_all (\<lambda>i. has (mg_tenant m) i db) (mg_sources m)" using assms(1,2) by (auto simp: identity_ok_def list_all_iff merge_ok_def)
  from restore_returns[OF assms(1) this, of now "mg_target m" snapshot] obtain s
    where s: "restore_sources now (mg_tenant m) (mg_target m) snapshot (mg_sources m) db = (s, Inr ())" "id_merges s = id_merges db" "id_uuids s = id_uuids db"
    by blast
  show ?thesis
    using s assms(3-9) find_merge[OF assms(1,2)]
    by (auto simp: split_entity_def uuid_arg_def lift_def Let_def draw_id_def insert_merge_def)
qed

lemma snapshot_keys:
  "set (snapshot_of u i db) = {(ea_type a, ea_value a) | a. a \<in> set (id_aliases db) \<and> ea_tenant a = u \<and> ea_entity a = i}"
  by (auto simp: snapshot_of_def)

lemma column_type_nonempty: "ty \<in> set column_alias_types \<Longrightarrow> ty \<noteq> []"
  by (auto simp: column_alias_types_def)

definition reactivated :: "string \<Rightarrow> string list \<Rightarrow> int \<Rightarrow> entity \<Rightarrow> entity" where
  "reactivated u is now e = (if et_tenant e = u \<and> et_id e \<in> set is then e\<lparr>et_active := True, et_updated_at := now\<rparr> else e)"

lemma split_after_merge:
  assumes env: "uuid_texts env" and ok: "identity_ok env db"
    and canon: "list_all (\<lambda>i. rt_pg_uuid (ie_rt env) i = Some i) (target # sources)"
    and texts: "\<And>a. a \<in> set (id_aliases db) \<Longrightarrow> ea_entity a \<in> set sources \<Longrightarrow> ea_value a \<noteq> []"
    and merge: "merge_entities_bulk env sv now t sources target reason who db = (db1, Inr m)"
    and split: "split_entity env sv' now' t (mg_id m) who' db1 = (db2, Inr r)" and t: "tenant_uuid env t = Some u"
  shows "id_aliases db2 = map (moved u (butlast sources) target) (id_aliases db) \<and>
    id_entities db2 = map (reactivated u sources now') (id_entities db)"
proof -
  let ?l = "last sources" and ?ne = "{(ty, v). ty \<noteq> [] \<and> v \<noteq> []} :: (string \<times> string) set"
  have m: "target \<notin> set sources" "distinct sources" "sources \<noteq> []" "id_aliases db1 = map (moved u sources target) (id_aliases db)"
    "id_entities db1 = id_entities (set_active now False u sources db)" "m \<in> set (id_merges db1)" "mg_tenant m = u" "mg_sources m = sources"
    "mg_target m = target" "mg_snapshot m = Some [(?l, snapshot_of u ?l db)]" "rt_uuid4 (ie_rt env) (id_uuids db) = mg_id m"
    using merge_bulk_Inr[OF merge ok canon] t by auto
  have ok1: "identity_ok env db1" using id_step_ok[OF id_step.intros(3)[OF merge] env ok] .
  have id: "rt_pg_uuid (ie_rt env) (mg_id m) = Some (mg_id m)" using env m(11) by (metis uuid_texts_def)
  obtain s1 where s1: "restore_sources now' u target [(?l, snapshot_of u ?l db)] sources db1 = (s1, Inr ())"
    and db2: "id_aliases db2 = id_aliases s1" "id_entities db2 = id_entities s1"
    using split_Inr[OF split ok1 m(6) id _ m(10)] t m(7,8,9) by auto
  have src: "sources = butlast sources @ [?l]" "?l \<notin> set (butlast sources)" "?l \<in> set sources" "?l \<noteq> target"
    using m(1,2,3) by (auto simp: append_butlast_last_id dest: distinct_butlast)
      (metis append_butlast_last_id distinct_append not_distinct_conv_prefix)+
  have r: "id_aliases s1 = map (returned u target ?l (set (snapshot_of u ?l db) \<inter> ?ne)) (id_aliases db1)"
    "id_entities s1 = id_entities (set_active now' True u sources db1)"
    using restore_last[of now' u target ?l "snapshot_of u ?l db" "butlast sources" db1 s1 "()"] s1 src by auto
  have "returned u target ?l (set (snapshot_of u ?l db) \<inter> ?ne) (moved u sources target a) = moved u (butlast sources) target a"
    if a: "a \<in> set (id_aliases db)" for a
  proof (cases "ea_tenant a = u \<and> (ea_entity a \<in> set sources \<or> ea_entity a = target)")
    case True
    have key: "(ea_type a, ea_value a) \<in> set (snapshot_of u ?l db) \<inter> ?ne \<longleftrightarrow> ea_entity a = ?l"
    proof
      assume "(ea_type a, ea_value a) \<in> set (snapshot_of u ?l db) \<inter> ?ne"
      then obtain b where b: "b \<in> set (id_aliases db)" "ea_tenant b = u" "ea_entity b = ?l" "ea_type a = ea_type b" "ea_value a = ea_value b"
        by (auto simp: snapshot_keys)
      then have "a = b" using a True ok by (intro key_owner[of "id_aliases db"]) (auto simp: identity_ok_def)
      then show "ea_entity a = ?l" using b(3) by simp
    next
      assume l: "ea_entity a = ?l"
      have "ea_type a \<in> set column_alias_types" using ok a by (auto simp: identity_ok_def list_all_iff alias_ok_def)
      then show "(ea_type a, ea_value a) \<in> set (snapshot_of u ?l db) \<inter> ?ne"
        using a l True texts[OF a] src(3) column_type_nonempty by (auto simp: snapshot_keys)
    qed
    have "set sources = insert ?l (set (butlast sources))" by (subst src(1)) simp
    then show ?thesis using True key src(2,4) m(1) by (auto simp: returned_def moved_def)
  next
    case False
    then show ?thesis by (auto simp: returned_def moved_def dest: in_set_butlastD)
  qed
  then have "id_aliases db2 = map (moved u (butlast sources) target) (id_aliases db)" by (simp add: db2 r m(4))
  moreover have "id_entities db2 = map (reactivated u sources now') (id_entities db)"
    unfolding db2 r(2) by (auto simp: set_active_def m(5) reactivated_def)
  ultimately show ?thesis by blast
qed

section \<open>Resolving a reference again\<close>

lemma insert_alias_Inr:
  assumes "insert_alias env now t eid a db = (s, Inr i)"
  shows "\<exists>k. rt_pg_uuid (ie_rt env) eid = Some k \<and> set (id_aliases db) \<subseteq> set (id_aliases s) \<and> id_entities s = id_entities db \<and>
    aa_type a \<in> set column_alias_types \<and>
    (\<exists>x \<in> set (id_aliases s). ea_entity x = k \<and> ea_type x = aa_type a \<and> ea_value x = normalize_identifier (aa_type a) (aa_value a))"
  using assms
  by (auto simp: insert_alias_def draw_id_def run_then_eq_Inr_iff and_then_eq_Inr_iff Let_def list_ex_iff split: if_splits prod.splits)

lemma insert_aliases_mono:
  "insert_aliases env now t eid as db = (s, Inr y) \<Longrightarrow> set (id_aliases db) \<subseteq> set (id_aliases s) \<and> id_entities s = id_entities db"
proof (induction as arbitrary: db)
  case (Cons a as)
  then show ?case by (fastforce simp: run_then_eq_Inr_iff dest!: insert_alias_Inr)
qed simp

lemma register_named:
  assumes "register_entity env sv now t ty name a db = (s, Inr e)" "uuid_texts env"
  shows "e \<in> set (id_entities s) \<and> et_active e \<and> tenant_uuid env t = Some (et_tenant e) \<and>
    (\<exists>x \<in> set (id_aliases s). ea_entity x = et_id e \<and> ea_type x = ''name'' \<and> ea_value x = name)"
proof -
  obtain i db1 where d: "draw_id env db = (i, db1)" by fastforce
  have i: "rt_pg_uuid (ie_rt env) i = Some i" using assms(2) d by (auto simp: uuid_texts_def draw_id_def)
  obtain u s1 where u: "tenant_uuid env t = Some u" and e: "e = new_entity now i u ty name a"
    and s1: "insert_entity e db1 = (s1, Inr e)"
    and s: "insert_aliases env now t i (map (own_alias (ga_created_by a)) (seed_aliases e)) s1 = (s, Inr ())"
    using assms(1) by (auto simp: register_entity_def run_then_eq_Inr_iff d Let_def dest: insert_entity_Inr split: if_splits)
  obtain rest where "seed_aliases e = (''name'', name) # rest" by (simp add: seed_aliases_def e new_entity_def)
  then obtain s2 z where s2: "insert_alias env now t i (own_alias (ga_created_by a) (''name'', name)) s1 = (s2, Inr z)"
    and rest: "insert_aliases env now t i (map (own_alias (ga_created_by a)) rest) s2 = (s, Inr ())"
    using s by (auto simp: run_then_eq_Inr_iff)
  have "normalize_identifier ''name'' name = name" by (simp add: normalize_identifier_def structured_alias_types_def)
  then have "\<exists>x \<in> set (id_aliases s2). ea_entity x = i \<and> ea_type x = ''name'' \<and> ea_value x = name"
    using insert_alias_Inr[OF s2] i by (auto simp: own_alias_def)
  moreover have "id_entities s = id_entities s1"
    using insert_alias_Inr[OF s2] insert_aliases_mono[OF rest] by auto
  ultimately show ?thesis
    using insert_aliases_mono[OF rest] insert_entity_Inr[OF s1] u by (auto simp: e new_entity_def)
qed

lemma queue_keeps:
  "queue_for_review env sv now t x y mt conf ev db = (s, Inr r) \<Longrightarrow> id_entities s = id_entities db \<and> id_aliases s = id_aliases db"
  by (auto simp: queue_for_review_def run_then_eq_Inr_iff insert_review_def draw_id_def Let_def split: if_splits option.splits prod.splits)

lemma queue_matches_keeps:
  "queue_matches env sv now t new_id reference ty src ms how db = (s, Inr h) \<Longrightarrow> id_entities s = id_entities db \<and> id_aliases s = id_aliases db"
proof (induction ms arbitrary: how db)
  case (Cons m ms)
  then show ?case by (fastforce simp: run_then_eq_Inr_iff Let_def dest: queue_keeps split: if_splits)
qed simp

text \<open>An active entity with a name is what the name leads to.\<close>

lemma first_known_named:
  assumes ok: "identity_ok env db" and e: "e \<in> set (id_entities db)" "et_active e" "tenant_uuid env t = Some (et_tenant e)"
    and x: "x \<in> set (id_aliases db)" "ea_entity x = et_id e" "ea_type x = ''name''" "ea_value x = name"
  shows "first_known env t name (''name'' # tys) db = Inr (Some e)"
proof -
  let ?ms = "joined (et_tenant e) (\<lambda>a. ea_type a = ''name'' \<and> ea_value a = normalize_identifier ''name'' name) (\<lambda>_. True) db"
  have n: "normalize_identifier ''name'' name = name" by (simp add: normalize_identifier_def structured_alias_types_def)
  have one: "e' = e" if "e' \<in> set (id_entities db)" "et_id e' = et_id e" for e'
    using ok e(1) that by (auto simp: identity_ok_def distinct_map dest: inj_onD)
  have "has (ea_tenant x) (et_id e) db" using ok x by (auto simp: identity_ok_def list_all_iff alias_ok_def)
  then have xt: "ea_tenant x = et_tenant e" using one by (fastforce simp: has_def list_ex_iff is_entity_def)
  have mem: "(e, x) \<in> set ?ms" using e x xt n by (simp add: joined_mem is_entity_def)
  have all: "e' = e" if "(e', a) \<in> set ?ms" for e' a
  proof -
    have a: "a \<in> set (id_aliases db)" "ea_tenant a = et_tenant e" "ea_type a = ''name''" "ea_value a = name" "e' \<in> set (id_entities db)"
      "et_id e' = ea_entity a" using that n by (auto simp: joined_mem is_entity_def)
    then have "a = x" using ok x xt by (intro key_owner[of "id_aliases db"]) (auto simp: identity_ok_def)
    then show "e' = e" using one a x(2) by simp
  qed
  let ?es = "filter et_active (map fst (sort_key match_order ?ms))"
  have "e \<in> set ?es" "set ?es \<subseteq> {e}" using mem all e(2) by force+
  then obtain es where "?es = e # es" by (cases ?es) auto
  then show ?thesis using e(3) by (simp add: find_entity_by_alias_def uuid_arg_def)
qed

text \<open>
  Claim C26 (functional). A reference by name that was resolved or registered is known right after: resolving it by name again in that state, for any type of
  entity, from any source and whatever the clock says, returns the same entity as an existing one and changes nothing. Later merges may change the answer.
\<close>

theorem resolve_again:
  assumes "uuid_texts env" "identity_ok env db" "resolve_or_register env sv now t reference ty src ''name'' who db = (db', Inr (e, how))"
  shows "resolve_or_register env sv' now' t reference ty' src' ''name'' who' db' = (db', Inr (e, ''existing''))"
proof -
  let ?tys = "search_types ''name'' reference"
  obtain tys where tys: "?tys = ''name'' # tys" by (simp add: search_types_def)
  have "first_known env t reference ?tys db' = Inr (Some e)"
  proof (cases "first_known env t reference ?tys db")
    case (Inr known)
    show ?thesis
    proof (cases known)
      case (Some x)
      then show ?thesis using assms(3) Inr by (simp add: resolve_or_register_def lift_def)
    next
      case None
      then obtain s1 fuzzy h where reg: "register_entity env sv now t ty reference (reference_args reference who) db = (s1, Inr e)"
        and q: "queue_matches env sv now t (et_id e) reference ty src fuzzy ''new'' s1 = (db', Inr h)"
        using assms(3) Inr by (auto simp: resolve_or_register_def lift_def register_reference_def run_then_eq_Inr_iff)
      have ok: "identity_ok env db'"
        using lawful_resolve[OF assms(1), of t db sv now reference ty src "''name''" who] assms(2,3) by (simp add: lawful_def)
      obtain x where "x \<in> set (id_aliases db')" "ea_entity x = et_id e" "ea_type x = ''name''" "ea_value x = reference"
        using register_named[OF reg assms(1)] queue_matches_keeps[OF q] by auto
      then show ?thesis
        unfolding tys using register_named[OF reg assms(1)] queue_matches_keeps[OF q] ok by (intro first_known_named) auto
    qed
  qed (use assms(3) in \<open>simp add: resolve_or_register_def lift_def\<close>)
  then show ?thesis by (simp add: resolve_or_register_def lift_def)
qed

section \<open>Lots\<close>

lemma no_tlc_alias:
  assumes "identity_ok env db"
  shows "joined u (\<lambda>a. ea_type a = ''tlc'' \<and> P a) Q db = []"
proof -
  have "list_all (\<lambda>a. ea_type a \<noteq> ''tlc'') (id_aliases db)"
    using assms by (auto simp: identity_ok_def list_all_iff alias_ok_def column_alias_types_def)
  then show ?thesis by (auto simp: joined_def list_all_iff filter_empty_conv)
qed

lemma tolerate_refused: "snd r = Inl (DBAPIError m) \<Longrightarrow> snd (tolerate r) = Inl (DBAPIError m)"
  by (cases r) (auto simp: tolerate_def)

lemma lot_reference_fails:
  assumes "identity_ok env db" "\<not> is_number 13 tlc" "\<not> is_number 14 tlc"
  shows "\<exists>e. snd (resolve_or_register env sv now t tlc ty src ''tlc'' who db) = Inl e"
proof -
  have "search_types ''tlc'' tlc = [''tlc'']" using assms by (simp add: search_types_def)
  then have fk: "first_known env t tlc (search_types ''tlc'' tlc) db \<in> range Inl \<union> {Inr None}"
    using no_tlc_alias[OF assms(1)] by (cases "tenant_uuid env t") (auto simp: find_entity_by_alias_def uuid_arg_def)
  have "\<exists>e. snd (register_reference env sv now t tlc ty src ''tlc'' who db) = Inl e"
  proof (rule ccontr)
    assume "\<nexists>e. snd (register_reference env sv now t tlc ty src ''tlc'' who db) = Inl e"
    then obtain s x where "register_reference env sv now t tlc ty src ''tlc'' who db = (s, Inr x)" by (metis prod.collapse sum.exhaust)
    then obtain e :: entity and s1 s2 where "tolerate (insert_alias env now t (et_id e) \<lparr>aa_type = ''tlc'', aa_value = tlc, aa_source_system = src,
        aa_source_file = None, aa_confidence = Fin 1, aa_created_by = who\<rparr> s1) = (s2, Inr ())"
      by (simp add: register_reference_def run_then_eq_Inr_iff) blast
    moreover have refused: "\<exists>m. snd (insert_alias env now t (et_id e) a s1) = Inl (DBAPIError m)" if "aa_type a = ''tlc''" for a
      using that by (auto simp: insert_alias_def draw_id_def run_then_def lift_def uuid_arg_def column_alias_types_def integrity_error_def Let_def
          split: prod.splits sum.splits option.splits)
    moreover from refused[of "\<lparr>aa_type = ''tlc'', aa_value = tlc, aa_source_system = src, aa_source_file = None, aa_confidence = Fin 1,
        aa_created_by = who\<rparr>"]
    obtain m where "snd (insert_alias env now t (et_id e) \<lparr>aa_type = ''tlc'', aa_value = tlc, aa_source_system = src,
        aa_source_file = None, aa_confidence = Fin 1, aa_created_by = who\<rparr> s1) = Inl (DBAPIError m)" by auto
    ultimately show False using tolerate_refused by (metis snd_conv sum.distinct(1))
  qed
  then show ?thesis using fk by (auto simp: resolve_or_register_def lift_def)
qed

text \<open>
  No lot is ever registered from an event: for every event with a lot code that is not a number of 13 or 14 digits the registration raises, because
  the lot is stored under the alias type \<open>tlc\<close>, which the table refuses with an error that is not caught.
\<close>

theorem lot_never_registered:
  assumes "uuid_texts env" "identity_ok env db"
    and "dict_get event ''traceability_lot_code'' PNone = PStr tlc" "tlc \<noteq> []" "\<not> is_number 13 tlc" "\<not> is_number 14 tlc"
  shows "\<exists>e. snd (auto_register_from_event env sv now t event src who db) = Inl e"
proof (rule ccontr)
  let ?ref = "event_reference env sv now t src who event"
  assume "\<nexists>e. snd (auto_register_from_event env sv now t event src who db) = Inl e"
  then obtain s g where "auto_register_from_event env sv now t event src who db = (s, Inr g)" by (metis prod.collapse sum.exhaust)
  then obtain d1 x1 d2 x2 d3 x3 d4 x4 d5 x5 d6 x6
    where r: "?ref ''from_facility_reference'' ''facility'' ''name'' db = (d1, Inr x1)" "?ref ''to_facility_reference'' ''facility'' ''name'' d1 = (d2, Inr x2)"
      "?ref ''product_reference'' ''product'' ''name'' d2 = (d3, Inr x3)" "?ref ''from_entity_reference'' ''firm'' ''name'' d3 = (d4, Inr x4)"
      "?ref ''to_entity_reference'' ''firm'' ''name'' d4 = (d5, Inr x5)" "?ref ''traceability_lot_code'' ''lot'' ''tlc'' d5 = (d6, Inr x6)"
    unfolding auto_register_from_event_def Let_def run_then_eq_Inr_iff lift_Inr_iff by blast
  have step: "identity_ok env d \<Longrightarrow> ?ref k ty al d = (d', Inr x) \<Longrightarrow> identity_ok env d'" for d d' k ty al x
    using lawful_event_reference[OF assms(1), of t d sv now src who event k ty al] by (simp add: lawful_def)
  have "identity_ok env d5" using assms(2) r(1-5) step by blast
  from lot_reference_fails[OF this assms(5,6), of sv now t "''lot''" src who] r(6) assms(3,4)
  show False by (auto simp: event_reference_def run_then_eq_Inr_iff)
qed

definition sample_id_env :: id_env where
  "sample_id_env = \<lparr>ie_rt = example_rt, ie_similarity = None\<rparr>"

definition open_service :: identity_service where
  "open_service = \<lparr>sv_principal = Some ''t1'', sv_allow_cross_tenant = False\<rparr>"

lemma sample_uuid_texts: "uuid_texts sample_id_env"
  by (simp add: uuid_texts_def sample_id_env_def example_rt_def)

lemma run_Inr_E: "case snd r of Inr _ \<Rightarrow> True | Inl _ \<Rightarrow> False \<Longrightarrow> \<exists>x. r = (fst r, Inr x)"
  by (cases r; cases "snd r") auto

theorem resolve_again_witness:
  "\<exists>e. resolve_or_register sample_id_env open_service 9 ''t1'' ''Acme'' ''firm'' ''y'' ''name'' None
      (fst (resolve_or_register sample_id_env open_service 5 ''t1'' ''Acme'' ''facility'' ''x'' ''name'' None no_identities)) =
     (fst (resolve_or_register sample_id_env open_service 5 ''t1'' ''Acme'' ''facility'' ''x'' ''name'' None no_identities), Inr (e, ''existing''))"
proof -
  have "case snd (resolve_or_register sample_id_env open_service 5 ''t1'' ''Acme'' ''facility'' ''x'' ''name'' None no_identities) of
      Inr _ \<Rightarrow> True | Inl _ \<Rightarrow> False" by code_simp
  from run_Inr_E[OF this] obtain e how where
    "resolve_or_register sample_id_env open_service 5 ''t1'' ''Acme'' ''facility'' ''x'' ''name'' None no_identities =
     (fst (resolve_or_register sample_id_env open_service 5 ''t1'' ''Acme'' ''facility'' ''x'' ''name'' None no_identities), Inr (e, how))"
    by (metis prod.collapse)
  from resolve_again[OF sample_uuid_texts no_identities_ok this] show ?thesis by blast
qed

theorem lot_never_registered_witness:
  "\<exists>e. snd (auto_register_from_event sample_id_env open_service 5 ''t1'' [(''traceability_lot_code'', PStr ''LOT-1'')] ''x'' None no_identities) = Inl e"
  by (rule lot_never_registered[OF sample_uuid_texts no_identities_ok, of _ "''LOT-1''"])
    (simp_all add: is_number_def py_isdigit_def is_dec_digit_def)

section \<open>Properties of the operations\<close>

text \<open>
  Claim C23 (invariant). Whatever the tenants do, in whatever order: identifiers are unique, no two aliases of a tenant share type and value, every alias belongs to
  an entity of its tenant and its value is normalised, every merge names entities of its tenant, and a pair of entities has at
  most one open review.
\<close>

theorem reachable_identity_ok:
  assumes "uuid_texts env" "(id_step env)\<^sup>*\<^sup>* no_identities db"
  shows "identity_ok env db"
  using reachable_ok assms by blast

definition two_firms :: identity_db where
  "two_firms = fst (register_entity sample_id_env open_service 6 ''t1'' ''firm'' ''Beta'' (reference_args ''Beta'' None)
     (fst (register_entity sample_id_env open_service 5 ''t1'' ''firm'' ''Acme'' (reference_args ''Acme'' None) no_identities)))"

lemma two_firms_reachable: "(id_step sample_id_env)\<^sup>*\<^sup>* no_identities two_firms"
proof -
  let ?one = "register_entity sample_id_env open_service 5 ''t1'' ''firm'' ''Acme'' (reference_args ''Acme'' None) no_identities"
  let ?two = "register_entity sample_id_env open_service 6 ''t1'' ''firm'' ''Beta'' (reference_args ''Beta'' None) (fst ?one)"
  have "case snd ?one of Inr _ \<Rightarrow> True | Inl _ \<Rightarrow> False" "case snd ?two of Inr _ \<Rightarrow> True | Inl _ \<Rightarrow> False" by code_simp+
  then obtain a b where ab: "?one = (fst ?one, Inr a)" "?two = (two_firms, Inr b)" using run_Inr_E unfolding two_firms_def by blast
  have "id_step sample_id_env no_identities (fst ?one)" by (rule id_step.intros(1)[OF ab(1)])
  moreover have "id_step sample_id_env (fst ?one) two_firms" by (rule id_step.intros(1)[OF ab(2)])
  ultimately show ?thesis by simp
qed

theorem reachable_identity_ok_witness: "identity_ok sample_id_env two_firms \<and> map et_id (id_entities two_firms) = [''0'', ''2'']"
  using reachable_identity_ok[OF sample_uuid_texts two_firms_reachable] by (simp, code_simp)

text \<open>
  Claim C24 (roundtrip). A split that says who performs it undoes a merge of one entity: it succeeds, every alias is then where it was before the merge,
  and the entities are as before, with the source active. The identifiers of the entities are in the server's spelling, no alias of the source has an
  empty value, and the identifier drawn for the split is new. Without a name for who performs it the split is refused.
\<close>

theorem merge_split_roundtrip:
  assumes "uuid_texts env" "identity_ok env db" "tenant_uuid env t = Some u"
    and "rt_pg_uuid (ie_rt env) source = Some source" "rt_pg_uuid (ie_rt env) target = Some target"
    and "list_all (\<lambda>a. ea_entity a = source \<longrightarrow> ea_value a \<noteq> []) (id_aliases db)"
    and "merge_entities env sv now t source target reason who db = (db1, Inr m)"
    and "verify_tenant_access sv' t = Inr ()" "rt_uuid4 (ie_rt env) (id_uuids db1) \<notin> mg_id ` set (id_merges db1)"
  shows "\<exists>db2 r. split_entity env sv' now' t (mg_id m) (Some w) db1 = (db2, Inr r) \<and>
    id_aliases db2 = id_aliases db \<and> id_entities db2 = map (reactivated u [source] now') (id_entities db)"
proof -
  have merge: "merge_entities_bulk env sv now t [source] target reason who db = (db1, Inr m)"
    using assms(7) by (auto simp: merge_entities_def run_then_eq_Inr_iff)
  have canon: "list_all (\<lambda>i. rt_pg_uuid (ie_rt env) i = Some i) [target, source]" using assms(4,5) by simp
  have ok: "identity_ok env db1" using id_step_ok[OF id_step.intros(3)[OF merge] assms(1,2)] .
  have m: "m \<in> set (id_merges db1)" "mg_tenant m = u" "mg_action m = ''merge''" "\<not> mg_reversed m"
    "mg_snapshot m = Some [(source, snapshot_of u source db)]" "rt_uuid4 (ie_rt env) (id_uuids db) = mg_id m"
    using merge_bulk_Inr[OF merge assms(2) canon] assms(3) by auto
  have "rt_pg_uuid (ie_rt env) (mg_id m) = Some (mg_id m)" using assms(1) m(6) by (metis uuid_texts_def)
  then obtain db2 r where split: "split_entity env sv' now' t (mg_id m) (Some w) db1 = (db2, Inr r)"
    using split_returns[OF ok m(1,3-5) _ _ assms(8,9)] assms(3) m(2) by blast
  have "moved u (butlast [source]) target = (\<lambda>a. a)" by (auto simp: moved_def)
  then show ?thesis
    using split_after_merge[OF assms(1,2) canon _ merge split assms(3)] assms(6) split by (auto simp: list_all_iff)
qed

theorem merge_split_roundtrip_witness:
  "\<exists>db1 m db2 r. merge_entities sample_id_env open_service 7 ''t1'' ''2'' ''0'' None (Some ''qa'') two_firms = (db1, Inr m) \<and>
     split_entity sample_id_env open_service 8 ''t1'' (mg_id m) (Some ''qa'') db1 = (db2, Inr r) \<and> id_aliases db2 = id_aliases two_firms"
proof -
  let ?m = "merge_entities sample_id_env open_service 7 ''t1'' ''2'' ''0'' None (Some ''qa'') two_firms"
  have "case snd ?m of Inr m \<Rightarrow> True | Inl _ \<Rightarrow> False" by code_simp
  then obtain m where m: "?m = (fst ?m, Inr m)" by (cases ?m; cases "snd ?m") auto
  have "rt_uuid4 (ie_rt sample_id_env) (id_uuids (fst ?m)) \<notin> set (map mg_id (id_merges (fst ?m)))" by code_simp
  moreover have "verify_tenant_access open_service ''t1'' = Inr ()" by code_simp
  moreover have "list_all (\<lambda>a. ea_entity a = ''2'' \<longrightarrow> ea_value a \<noteq> []) (id_aliases two_firms)" by code_simp
  moreover have "tenant_uuid sample_id_env x = Some x" for x by (simp add: sample_id_env_def example_rt_def)
  moreover have "identity_ok sample_id_env two_firms" using reachable_ok[OF two_firms_reachable sample_uuid_texts] .
  ultimately obtain db2 r where "split_entity sample_id_env open_service 8 ''t1'' (mg_id m) (Some ''qa'') (fst ?m) = (db2, Inr r)" "id_aliases db2 = id_aliases two_firms"
    using merge_split_roundtrip[OF sample_uuid_texts _ _ _ _ _ m, of "''t1''" open_service 8 "''qa''"] by (auto simp: image_set[symmetric] simp del: image_set)
  then show ?thesis using m by blast
qed

text \<open>
  A split does not undo a merge of several entities: every alias of a source other than the last one stays with the target, while the source is
  active again and is left without any name or identifier.
\<close>

theorem bulk_split_strands_aliases:
  assumes "uuid_texts env" "identity_ok env db" "tenant_uuid env t = Some u"
    and "list_all (\<lambda>i. rt_pg_uuid (ie_rt env) i = Some i) (target # sources)" "list_all (\<lambda>a. ea_value a \<noteq> []) (id_aliases db)"
    and "merge_entities_bulk env sv now t sources target reason who db = (db1, Inr m)"
    and "split_entity env sv' now' t (mg_id m) who' db1 = (db2, Inr r)" and "i \<in> set (butlast sources)"
  shows "list_all (\<lambda>a. \<not> (ea_tenant a = u \<and> ea_entity a = i)) (id_aliases db2) \<and>
    list_all (\<lambda>a. ea_tenant a = u \<and> ea_entity a = i \<longrightarrow> a\<lparr>ea_entity := target\<rparr> \<in> set (id_aliases db2)) (id_aliases db) \<and>
    list_all (\<lambda>e. et_tenant e = u \<and> et_id e = i \<longrightarrow> et_active e) (id_entities db2)"
proof -
  have r: "id_aliases db2 = map (moved u (butlast sources) target) (id_aliases db)" "id_entities db2 = map (reactivated u sources now') (id_entities db)"
    using split_after_merge[OF assms(1,2,4) _ assms(6,7,3)] assms(5) by (auto simp: list_all_iff)
  have "target \<notin> set sources" using merge_bulk_Inr[OF assms(6,2,4)] by blast
  then have "target \<noteq> i" using assms(8) by (auto dest: in_set_butlastD)
  then have "\<not> (ea_tenant (moved u (butlast sources) target a) = u \<and> ea_entity (moved u (butlast sources) target a) = i)" for a
    using assms(8) by (auto simp: moved_def)
  moreover have "a\<lparr>ea_entity := target\<rparr> = moved u (butlast sources) target a" if "ea_tenant a = u" "ea_entity a = i" for a
    using that assms(8) by (simp add: moved_def)
  moreover have "et_tenant (reactivated u sources now' e) = u \<and> et_id (reactivated u sources now' e) = i \<Longrightarrow> et_active (reactivated u sources now' e)" for e
    using in_set_butlastD[OF assms(8)] by (simp add: reactivated_def split: if_splits)
  ultimately show ?thesis unfolding r list_all_iff set_map by (metis (no_types, lifting) imageE imageI)
qed

definition three_firms :: identity_db where
  "three_firms = fst (register_entity sample_id_env open_service 7 ''t1'' ''firm'' ''Gamma'' (reference_args ''Gamma'' None) two_firms)"

theorem bulk_split_strands_aliases_witness:
  "\<exists>db1 m db2 r. merge_entities_bulk sample_id_env open_service 8 ''t1'' [''0'', ''2''] ''4'' None (Some ''qa'') three_firms = (db1, Inr m) \<and>
     split_entity sample_id_env open_service 9 ''t1'' (mg_id m) (Some ''qa'') db1 = (db2, Inr r) \<and>
     list_all (\<lambda>a. \<not> (ea_tenant a = ''t1'' \<and> ea_entity a = ''0'')) (id_aliases db2)"
proof -
  let ?m = "merge_entities_bulk sample_id_env open_service 8 ''t1'' [''0'', ''2''] ''4'' None (Some ''qa'') three_firms"
  have "case snd ?m of Inr m \<Rightarrow> mg_id m = ''6'' | Inl _ \<Rightarrow> False" by code_simp
  then obtain m where m: "?m = (fst ?m, Inr m)" "mg_id m = ''6''" by (cases ?m; cases "snd ?m") auto
  have "case snd (split_entity sample_id_env open_service 9 ''t1'' ''6'' (Some ''qa'') (fst ?m)) of Inr _ \<Rightarrow> True | Inl _ \<Rightarrow> False" by code_simp
  from run_Inr_E[OF this] obtain db2 r where s: "split_entity sample_id_env open_service 9 ''t1'' (mg_id m) (Some ''qa'') (fst ?m) = (db2, Inr r)"
    unfolding m(2) by blast
  have id: "tenant_uuid sample_id_env x = Some x" for x by (simp add: sample_id_env_def example_rt_def)
  have "list_all (\<lambda>a. ea_value a \<noteq> []) (id_aliases three_firms)" by code_simp
  moreover have "identity_ok sample_id_env three_firms"
    unfolding three_firms_def by (rule registering.keeps_tables[OF sample_uuid_texts reachable_ok[OF two_firms_reachable sample_uuid_texts]])
  ultimately have "list_all (\<lambda>a. \<not> (ea_tenant a = ''t1'' \<and> ea_entity a = ''0'')) (id_aliases db2)"
    using bulk_split_strands_aliases[OF sample_uuid_texts _ id _ _ m(1) s, of "''0''"] by (simp add: id)
  then show ?thesis using m(1) s by blast
qed

text \<open>
  Claim C25 (safety). No operation for one tenant changes a row of another in any of the four tables, and with a service that is bound to a tenant an
  operation for any other changes nothing at all.
\<close>

theorem identity_tenant_frame:
  assumes "uuid_texts env" "identity_ok env db" "tenant_uuid env t \<noteq> Some w"
    "db' \<in> {fst (register_entity env sv now t ty name a db), fst (add_alias env sv now t eid al db),
      fst (merge_entities_bulk env sv now t sources target reason who db), fst (merge_entities env sv now t source target reason who db),
      fst (split_entity env sv now t mid who db), fst (queue_for_review env sv now t x y mt conf ev db),
      fst (resolve_review env sv now t rid res who nt am tgt db), fst (auto_register_from_event env sv now t event src who db)}"
  shows "rows_for w db' = rows_for w db \<and> (sv_principal sv = Some p \<and> \<not> sv_allow_cross_tenant sv \<and> t \<noteq> p \<longrightarrow> db' = db)"
proof -
  note frames = registering.framed[OF assms(1-3)] aliasing.framed[OF assms(1-3)] merging.framed[OF assms(1-3)]
    merging_one.framed[OF assms(1-3)] splitting.framed[OF assms(1-3)] queueing.framed[OF assms(1-3)]
    reviewing.framed[OF assms(1-3)] ingesting.framed[OF assms(1-3)]
  from assms(4) show ?thesis by (elim insertE emptyE) (erule ssubst, rule frames)+
qed

theorem identity_tenant_frame_witness:
  "rows_for ''t1'' (fst (register_entity sample_id_env open_service 7 ''t2'' ''firm'' ''Acme'' (reference_args ''Acme'' None) two_firms)) = rows_for ''t1'' two_firms \<and>
   fst (register_entity sample_id_env open_service 7 ''t2'' ''firm'' ''Acme'' (reference_args ''Acme'' None) two_firms) = two_firms"
proof -
  have "tenant_uuid sample_id_env ''t2'' \<noteq> Some ''t1''" by (simp add: sample_id_env_def example_rt_def)
  from identity_tenant_frame[OF sample_uuid_texts reachable_ok[OF two_firms_reachable sample_uuid_texts] this insertI1, where sv = open_service and p = "''t1''"]
  show ?thesis by (auto simp: open_service_def)
qed

section \<open>Where the code and its documentation part\<close>

text \<open>The column \<open>performed_by\<close> must not be null: a merge without a user, which the signatures allow, always fails.\<close>

lemma merge_needs_user: "\<exists>e. snd (merge_entities_bulk env sv now t sources target reason None db) = Inl e"
proof (rule ccontr)
  assume "\<nexists>e. snd (merge_entities_bulk env sv now t sources target reason None db) = Inl e"
  then obtain s m where "merge_entities_bulk env sv now t sources target reason None db = (s, Inr m)" by (metis prod.collapse sum.exhaust)
  then show False by (auto simp: merge_entities_bulk_def merge_statements_def draw_id_def run_then_eq_Inr_iff split: if_splits prod.splits)
qed

text \<open>The exact lookup does not compare the type: a facility with the name of a firm is that firm.\<close>

lemma facility_resolves_to_firm:
  "case snd (resolve_or_register sample_id_env open_service 9 ''t1'' ''Acme'' ''facility'' ''csv'' ''name'' None two_firms) of
     Inl _ \<Rightarrow> False | Inr (e, how) \<Rightarrow> et_type e = ''firm'' \<and> how = ''existing''"
  by code_simp

text \<open>Splits are not bound to the reverse order of the merges: undoing the first of two restores nothing and succeeds.\<close>

definition chained_merges :: identity_db where
  "chained_merges = fst (merge_entities sample_id_env open_service 9 ''t1'' ''2'' ''4'' None (Some ''qa'')
     (fst (merge_entities sample_id_env open_service 8 ''t1'' ''0'' ''2'' None (Some ''qa'') three_firms)))"

lemma early_split_restores_nothing:
  "case split_entity sample_id_env open_service 10 ''t1'' ''6'' (Some ''qa'') chained_merges of
     (_, Inl _) \<Rightarrow> False | (db, Inr _) \<Rightarrow> id_aliases db = id_aliases chained_merges \<and> list_all et_active (filter (\<lambda>e. et_id e = ''0'') (id_entities db))"
  by code_simp

end
