(* ===== verification/CanonicalStore.thy ===== *)
theory CanonicalStore
  imports CanonicalEvent ChainVerify
begin

text \<open>
  \<^verbatim>\<open>services/shared/canonical_persistence/\<close>: the writer of canonical events (\<^verbatim>\<open>writer.py\<close>), its copy into the legacy tables
  (\<^verbatim>\<open>legacy_dual_write.py\<close>) and the count of billable events (\<^verbatim>\<open>services/ingestion/app/stripe_billing/usage.py\<close>).

  The tables are lists of rows in the order of insertion; the hash chain and the legacy tables are those of \<^verbatim>\<open>CteStore\<close>, which
  both writers share. An operation runs under the tenant's advisory lock in one transaction; one that raises is rolled back and
  returns no tables. Tenant and event identifiers are UUIDs in the server's spelling. The graph messages that are sent after the
  commit are not part of the tables and are left out.
\<close>

section \<open>Tables\<close>

text \<open>
  A row of \<^verbatim>\<open>fsma.traceability_events\<close>. A \<open>timestamptz\<close> column holds the instant and loses the offset; a \<open>jsonb\<close> column holds what
  the driver reads back from it.
\<close>

record canonical_row =
  tv_event_id :: string
  tv_tenant_id :: string
  tv_source_system :: string
  tv_source_record_id :: pyval
  tv_source_file_id :: "string option"
  tv_ingestion_run_id :: "string option"
  tv_event_type :: string
  tv_event_timestamp :: int
  tv_event_timezone :: pyval
  tv_product_reference :: pyval
  tv_lot_reference :: pyval
  tv_traceability_lot_code :: string
  tv_quantity :: pyfloat
  tv_unit_of_measure :: string
  tv_from_entity :: pyval
  tv_to_entity :: pyval
  tv_from_facility :: pyval
  tv_to_facility :: pyval
  tv_transport :: pyval
  tv_kdes :: pyval
  tv_raw_payload :: pyval
  tv_normalized_payload :: pyval
  tv_provenance :: pyval
  tv_confidence_score :: pyfloat
  tv_status :: string
  tv_supersedes :: "string option"
  tv_schema_version :: string
  tv_sha256_hash :: string
  tv_chain_hash :: "string option"
  tv_idempotency_key :: "string option"
  tv_epcis_event_type :: pyval
  tv_epcis_action :: pyval
  tv_epcis_biz_step :: pyval
  tv_created_at :: int
  tv_amended_at :: "int option"

text \<open>A row of \<^verbatim>\<open>fsma.transformation_links\<close>; confidence and source of the link are constants.\<close>

record link_row =
  lk_tenant_id :: string
  lk_event_id :: string
  lk_input_tlc :: string
  lk_input_event_id :: "string option"
  lk_input_quantity :: "pyfloat option"
  lk_input_unit :: "string option"
  lk_output_tlc :: string
  lk_output_quantity :: pyfloat
  lk_output_unit :: string
  lk_process_type :: "string option"

datatype IngestionRunStatus = Processing | Completed | Partial | Failed

record IngestionRun =
  ir_id :: string
  ir_tenant_id :: string
  ir_source_system :: IngestionSource
  ir_source_file_name :: "string option"
  ir_source_file_hash :: "string option"
  ir_source_file_size :: "int option"
  ir_record_count :: int
  ir_accepted_count :: int
  ir_rejected_count :: int
  ir_mapper_version :: string
  ir_schema_version :: string
  ir_status :: IngestionRunStatus
  ir_initiated_by :: "string option"
  ir_completed_at :: "int option"
  ir_errors :: "pydict list"

text \<open>The ledger of counted events with their period, and a counter for each tenant and period.\<close>

record usage_counter =
  uc_tenant_id :: string
  uc_period_start :: int
  uc_period_end :: int
  uc_unit_count :: nat

record canonical_db =
  kb_events :: "canonical_row list"
  kb_legacy :: cte_db
  kb_links :: "link_row list"
  kb_runs :: "IngestionRun list"
  kb_ledger :: "(string \<times> string \<times> int) list"
  kb_counters :: "usage_counter list"

record CanonicalStoreResult =
  cr_success :: bool
  cr_event_id :: string
  cr_sha256_hash :: string
  cr_chain_hash :: "string option"
  cr_idempotent :: bool
  cr_legacy_event_id :: "string option"

record store_options =
  wo_dual_write :: bool
  wo_skip_chain_write :: bool
  wo_meter_usage :: bool

text \<open>An event with the fields of the class that only the writer uses, and what \<^verbatim>\<open>to_dict\<close> gives for its provenance.\<close>

record submission =
  sn_event :: TraceabilityEvent
  sn_source_file_id :: "string option"
  sn_confidence_score :: pyfloat
  sn_supersedes :: "string option"
  sn_provenance :: pydict

text \<open>
  The surroundings of the writer: those of the event, those of the legacy tables, what the driver reads back from a \<open>jsonb\<close> column,
  what becomes of a value that is bound to a column of texts, and which links the server refuses (a lot code too long for the index).
\<close>

record store_env =
  en_can :: can_env
  en_cte :: cte_env
  en_jsonb :: "string \<Rightarrow> pyval"
  en_text :: "pyval \<Rightarrow> py_error + string option"
  en_link_refused :: "link_row \<Rightarrow> bool"

section \<open>Billable events (usage.py)\<close>

text \<open>The lengths of the months and the place of a day in its month, by the calendar of \<^verbatim>\<open>datetime.date\<close>; day 0 is 0001-01-01. The last month, December 9999, has no next one there and is left out.\<close>

definition month_lengths :: "bool \<Rightarrow> int list" where
  "month_lengths leap = [31, if leap then 29 else 28, 31, 30, 31, 30, 31, 31, 30, 31, 30, 31]"

fun day_in_month :: "int list \<Rightarrow> int \<Rightarrow> int \<times> int" where
  "day_in_month [] n = (n, n + 1)"
| "day_in_month (l # ls) n = (if n < l then (n, l) else day_in_month ls (n - l))"

definition month_of_day :: "int \<Rightarrow> int \<times> int" where
  "month_of_day d =
     (let n = d mod 146097; n100 = n div 36524; n = n mod 36524; n4 = n div 1461; n = n mod 1461; n1 = n div 365; n = n mod 365
      in if n1 = 4 \<or> n100 = 4 then (30, 31) else day_in_month (month_lengths (n1 = 3 \<and> (n4 \<noteq> 24 \<or> n100 = 3))) n)"

definition current_billing_period :: "int \<Rightarrow> int \<times> int" where
  "current_billing_period as_of = (let (day, len) = month_of_day as_of in (as_of - day, as_of - day + len))"

text \<open>The instant of a timestamp; a naive one is taken as UTC.\<close>

definition utc_instant :: "pydatetime \<Rightarrow> int" where
  "utc_instant d = (case d of Datetime w off \<Rightarrow> w - (case off of None \<Rightarrow> 0 | Some x \<Rightarrow> x))"

definition count_unit :: "string \<Rightarrow> int \<times> int \<Rightarrow> usage_counter list \<Rightarrow> usage_counter list" where
  "count_unit t period cs =
     (let same = (\<lambda>c. uc_tenant_id c = t \<and> uc_period_start c = fst period)
      in if list_ex same cs then map (\<lambda>c. if same c then c\<lparr>uc_unit_count := Suc (uc_unit_count c)\<rparr> else c) cs
         else cs @ [\<lparr>uc_tenant_id = t, uc_period_start = fst period, uc_period_end = snd period, uc_unit_count = 1\<rparr>])"

definition increment_usage_for_event :: "string \<Rightarrow> string \<Rightarrow> pydatetime \<Rightarrow> canonical_db \<Rightarrow> canonical_db" where
  "increment_usage_for_event t event_id timestamp db =
     (let period = current_billing_period (utc_instant timestamp div 86400000000)
      in if list_ex (\<lambda>(u, e, _). u = t \<and> e = event_id) (kb_ledger db) then db
         else db\<lparr>kb_ledger := kb_ledger db @ [(t, event_id, fst period)], kb_counters := count_unit t period (kb_counters db)\<rparr>)"

section \<open>Ingestion runs (writer.py)\<close>

definition create_ingestion_run :: "IngestionRun \<Rightarrow> canonical_db \<Rightarrow> py_error + canonical_db \<times> string" where
  "create_ingestion_run run db =
     (if ir_id run \<in> ir_id ` set (kb_runs db) then Inl integrity_error
      else Inr (db\<lparr>kb_runs := kb_runs db @ [run\<lparr>ir_accepted_count := 0, ir_rejected_count := 0, ir_completed_at := None, ir_errors := []\<rparr>]\<rparr>, ir_id run))"

definition complete_ingestion_run ::
  "store_env \<Rightarrow> int \<Rightarrow> string \<Rightarrow> string \<Rightarrow> int \<Rightarrow> int \<Rightarrow> pydict list \<Rightarrow> canonical_db \<Rightarrow> py_error + canonical_db" where
  "complete_ingestion_run env now run_id t accepted rejected errors db =
     (let same = (\<lambda>r. ir_id r = run_id \<and> ir_tenant_id r = t)
      in if \<not> list_ex same (kb_runs db)
         then Inl (ValueError (''complete_ingestion_run: no run matched id='' @ ce_repr (en_can env) (PStr run_id) @ '' for tenant='' @
                ce_repr (en_can env) (PStr t) @ ''. Either the run does not exist or belongs to a different tenant '' @ em_dash @
                '' refusing silent no-op write (#1263).''))
         else Inr (db\<lparr>kb_runs := map (\<lambda>r. if same r then r\<lparr>ir_accepted_count := accepted, ir_rejected_count := rejected,
                ir_status := (if rejected = 0 then Completed else Partial), ir_completed_at := Some now, ir_errors := errors\<rparr> else r) (kb_runs db)\<rparr>))"

section \<open>The copy in the legacy tables (legacy dual write)\<close>

fun event_status_value :: "EventStatus \<Rightarrow> string" where
  "event_status_value Active = ''active''"
| "event_status_value Superseded = ''superseded''"
| "event_status_value Rejected = ''rejected''"
| "event_status_value Draft = ''draft''"

definition map_validation_status :: "string \<Rightarrow> string" where
  "map_validation_status s =
     (case map_of [(''active'', ''valid''), (''superseded'', ''valid''), (''rejected'', ''rejected''), (''draft'', ''valid'')] s of
        None \<Rightarrow> ''valid'' | Some v \<Rightarrow> v)"

definition opt_text :: "pyval \<Rightarrow> string option" where
  "opt_text v = (case v of PStr s \<Rightarrow> Some s | _ \<Rightarrow> None)"

text \<open>In this table an absent key and an absent time of entry are the empty text.\<close>

definition legacy_row :: "store_env \<Rightarrow> TraceabilityEvent \<Rightarrow> string \<Rightarrow> string option \<Rightarrow> cte_row" where
  "legacy_row env ev sha chain =
     \<lparr>ce_id = cv_event_id ev, ce_tenant_id = cv_tenant_id ev, ce_event_type = cte_value (cv_event_type ev),
      ce_traceability_lot_code = cv_traceability_lot_code ev, ce_product_description = text_or_empty (en_can env) (cv_product_reference ev),
      ce_quantity = cv_quantity ev, ce_unit_of_measure = cv_unit_of_measure ev,
      ce_location_gln = opt_text (py_or (cv_from_facility ev) (cv_to_facility ev)),
      ce_location_name = opt_text (py_or (cv_from_facility ev) (cv_to_facility ev)),
      ce_event_timestamp = iso_utc (en_cte env) (utc_instant (cv_event_timestamp ev)), ce_event_entry_timestamp = [],
      ce_source = source_value (cv_source_system ev), ce_source_event_id = opt_text (cv_source_record_id ev),
      ce_idempotency_key = str_or (cv_idempotency_key ev) [], ce_sha256_hash = sha, ce_chain_hash = str_or chain [],
      ce_epcis_event_type = opt_text (cv_epcis_event_type ev), ce_epcis_action = opt_text (cv_epcis_action ev),
      ce_epcis_biz_step = opt_text (cv_epcis_biz_step ev), ce_validation_status = map_validation_status (event_status_value (cv_status ev))\<rparr>"

definition insert_legacy :: "cte_env \<Rightarrow> cte_row \<Rightarrow> cte_db \<Rightarrow> py_error + cte_db" where
  "insert_legacy env row db =
     (if \<not> cs_event_ok env row then Inl integrity_error
      else if ce_idempotency_key row \<noteq> [] \<and> find_idempotent (ce_idempotency_key row) (ce_tenant_id row) db \<noteq> None then Inr db
      else if ce_id row \<in> ce_id ` set (cd_events db) then Inl integrity_error
      else Inr (db\<lparr>cd_events := cd_events db @ [row]\<rparr>))"

text \<open>The values of an event refer to its row in the table of the events.\<close>

definition insert_legacy_kde :: "kde_row \<Rightarrow> cte_db \<Rightarrow> py_error + cte_db" where
  "insert_legacy_kde row db =
     (if kr_cte_event_id row \<notin> ce_id ` set (cd_events db) then Inl integrity_error else Inr (insert_kde row db))"

fun insert_legacy_kdes :: "kde_row list \<Rightarrow> cte_db \<Rightarrow> py_error + cte_db" where
  "insert_legacy_kdes [] db = Inr db"
| "insert_legacy_kdes (k # ks) db = and_then (insert_legacy_kde k db) (insert_legacy_kdes ks)"

definition dual_write_legacy :: "store_env \<Rightarrow> TraceabilityEvent \<Rightarrow> string \<Rightarrow> string option \<Rightarrow> canonical_db \<Rightarrow> py_error + canonical_db" where
  "dual_write_legacy env ev sha chain db =
     and_then (insert_legacy (en_cte env) (legacy_row env ev sha chain) (kb_legacy db)) (\<lambda>l.
     and_then (insert_legacy_kdes (kde_rows_of (en_cte env) (cv_tenant_id ev) (cv_event_id ev) (cv_kdes ev)) l) (\<lambda>l.
       Inr (db\<lparr>kb_legacy := l\<rparr>)))"

section \<open>Writing one event (writer.py)\<close>

definition prepared :: "store_env \<Rightarrow> TraceabilityEvent \<Rightarrow> py_error + TraceabilityEvent" where
  "prepared env ev = (if str_or (cv_sha256_hash ev) [] = [] then prepare_for_persistence (en_can env) ev else Inr ev)"

definition stored_row :: "string \<Rightarrow> string \<Rightarrow> canonical_db \<Rightarrow> canonical_row option" where
  "stored_row t key db = List.find (\<lambda>r. tv_idempotency_key r = Some key \<and> tv_tenant_id r = t) (kb_events db)"

definition replay_answer :: "canonical_row \<Rightarrow> CanonicalStoreResult" where
  "replay_answer r =
     \<lparr>cr_success = True, cr_event_id = tv_event_id r, cr_sha256_hash = tv_sha256_hash r, cr_chain_hash = tv_chain_hash r, cr_idempotent = True,
      cr_legacy_event_id = None\<rparr>"

text \<open>The parameters of the insert: the size of the raw payload is checked once more.\<close>

definition event_to_params :: "store_env \<Rightarrow> int \<Rightarrow> submission \<Rightarrow> TraceabilityEvent \<Rightarrow> string option \<Rightarrow> py_error + canonical_row" where
  "event_to_params env now sub ev chain =
     (let raw = ce_json_plain (en_can env) (PDict (cv_raw_payload ev)); max_bytes = raw_payload_max_bytes (ce_max_bytes (en_can env));
          jsonb = (\<lambda>d. en_jsonb env (ce_json_plain (en_can env) (PDict d)))
      in if max_bytes < int (length raw) then Inl (payload_too_large (int (length raw)) max_bytes)
         else Inr \<lparr>tv_event_id = cv_event_id ev, tv_tenant_id = cv_tenant_id ev, tv_source_system = source_value (cv_source_system ev),
           tv_source_record_id = cv_source_record_id ev, tv_source_file_id = sn_source_file_id sub, tv_ingestion_run_id = cv_ingestion_run_id ev,
           tv_event_type = cte_value (cv_event_type ev), tv_event_timestamp = utc_instant (cv_event_timestamp ev),
           tv_event_timezone = cv_event_timezone ev, tv_product_reference = cv_product_reference ev, tv_lot_reference = cv_lot_reference ev,
           tv_traceability_lot_code = cv_traceability_lot_code ev, tv_quantity = cv_quantity ev, tv_unit_of_measure = cv_unit_of_measure ev,
           tv_from_entity = cv_from_entity ev, tv_to_entity = cv_to_entity ev, tv_from_facility = cv_from_facility ev,
           tv_to_facility = cv_to_facility ev, tv_transport = cv_transport ev, tv_kdes = jsonb (cv_kdes ev), tv_raw_payload = en_jsonb env raw,
           tv_normalized_payload = jsonb (cv_normalized_payload ev), tv_provenance = jsonb (sn_provenance sub),
           tv_confidence_score = sn_confidence_score sub, tv_status = event_status_value (cv_status ev), tv_supersedes = sn_supersedes sub,
           tv_schema_version = int_str (cv_schema_version ev), tv_sha256_hash = str_or (cv_sha256_hash ev) [], tv_chain_hash = chain,
           tv_idempotency_key = cv_idempotency_key ev, tv_epcis_event_type = cv_epcis_event_type ev, tv_epcis_action = cv_epcis_action ev,
           tv_epcis_biz_step = cv_epcis_biz_step ev, tv_created_at = now, tv_amended_at = None\<rparr>)"

text \<open>The checks of the table; the server orders NaN after every number.\<close>

definition row_checks :: "canonical_row \<Rightarrow> bool" where
  "row_checks r \<longleftrightarrow> (tv_quantity r = NaN \<or> flt (Fin 0) (tv_quantity r)) \<and> in_unit (tv_confidence_score r)"

text \<open>\<^verbatim>\<open>ON CONFLICT (tenant_id, idempotency_key) DO NOTHING\<close>: the flag tells whether the row landed.\<close>

definition insert_canonical_row :: "canonical_row \<Rightarrow> canonical_db \<Rightarrow> py_error + canonical_db \<times> bool" where
  "insert_canonical_row r db =
     (if \<not> row_checks r then Inl integrity_error
      else if (case tv_idempotency_key r of None \<Rightarrow> False | Some k \<Rightarrow> stored_row (tv_tenant_id r) k db \<noteq> None) then Inr (db, False)
      else if tv_event_id r \<in> tv_event_id ` set (kb_events db) then Inl integrity_error
      else Inr (db\<lparr>kb_events := kb_events db @ [r]\<rparr>, True))"

text \<open>Foreign keys, checked at the end of the statement: the superseded event, and the run of the same tenant.\<close>

definition references_ok :: "canonical_db \<Rightarrow> canonical_row \<Rightarrow> bool" where
  "references_ok db r \<longleftrightarrow>
     (case tv_supersedes r of None \<Rightarrow> True | Some s \<Rightarrow> s \<in> tv_event_id ` set (kb_events db)) \<and>
     (case tv_ingestion_run_id r of None \<Rightarrow> True | Some i \<Rightarrow> list_ex (\<lambda>x. ir_id x = i \<and> ir_tenant_id x = tv_tenant_id r) (kb_runs db))"

definition insert_canonical_event :: "canonical_row \<Rightarrow> canonical_db \<Rightarrow> py_error + canonical_db \<times> bool" where
  "insert_canonical_event r db =
     and_then (insert_canonical_row r db) (\<lambda>(db1, landed). if landed \<and> \<not> references_ok db1 r then Inl integrity_error else Inr (db1, landed))"

text \<open>With \<^verbatim>\<open>skip_chain_write\<close> the entry that the legacy writer made for the event is reused.\<close>

definition chain_hash_for :: "store_options \<Rightarrow> string \<Rightarrow> string \<Rightarrow> string \<Rightarrow> string \<Rightarrow> canonical_db \<Rightarrow> py_error + string option" where
  "chain_hash_for opt t event_id sha computed db =
     (if \<not> wo_skip_chain_write opt then Inr (Some computed)
      else case List.find (\<lambda>c. hc_tenant_id c = t \<and> hc_cte_event_id c = event_id) (cd_chain (kb_legacy db)) of
             None \<Rightarrow> Inr (Some computed)
           | Some c \<Rightarrow> if hc_event_hash c \<noteq> sha then Inl (ValueError ''Canonical content does not match the existing ledger event hash'')
                       else Inr (hc_chain_hash c))"

definition mark_superseded :: "int \<Rightarrow> string \<Rightarrow> string \<Rightarrow> string option \<Rightarrow> canonical_db \<Rightarrow> py_error + canonical_db" where
  "mark_superseded now t event_id superseded db =
     (case superseded of
        None \<Rightarrow> Inr db
      | Some s \<Rightarrow>
          if s = event_id then Inl (ValueError ''Event cannot supersede itself'')
          else Inr (db\<lparr>kb_events := map (\<lambda>r. if tv_event_id r = s \<and> tv_tenant_id r = t \<and> tv_status r = ''active''
                 then r\<lparr>tv_status := ''superseded'', tv_amended_at := Some now\<rparr> else r) (kb_events db)\<rparr>))"

definition add_chain_entry :: "ChainEntry \<Rightarrow> canonical_db \<Rightarrow> py_error + canonical_db" where
  "add_chain_entry c db =
     (if list_ex (\<lambda>r. hc_tenant_id r = hc_tenant_id c \<and> hc_sequence_num r = hc_sequence_num c) (cd_chain (kb_legacy db)) then Inl integrity_error
      else Inr (db\<lparr>kb_legacy := (kb_legacy db)\<lparr>cd_chain := cd_chain (kb_legacy db) @ [c]\<rparr>\<rparr>))"

text \<open>\<^verbatim>\<open>WHERE EXISTS\<close> the event in the canonical table.\<close>

definition insert_chain_entry :: "ChainEntry \<Rightarrow> canonical_db \<Rightarrow> py_error + canonical_db" where
  "insert_chain_entry c db =
     (if list_ex (\<lambda>r. tv_event_id r = hc_cte_event_id c \<and> tv_tenant_id r = hc_tenant_id c) (kb_events db) then add_chain_entry c db else Inr db)"

section \<open>Transformation links (writer.py)\<close>

definition link_process_type :: "TraceabilityEvent \<Rightarrow> pyval" where
  "link_process_type ev =
     (let p = dict_get (cv_kdes ev) ''process_type'' PNone
      in if \<not> truthy p \<and> cv_event_type ev = Initial_Packing then PStr ''initial_packing'' else p)"

text \<open>The details of the inputs by lot code; the last entry of a lot counts.\<close>

definition input_details :: "TraceabilityEvent \<Rightarrow> py_error + (string \<times> pydict) list" where
  "input_details ev =
     and_then (py_iter (py_or (dict_get (cv_kdes ev) ''inputs'' PNone) (PList []))) (\<lambda>xs.
       Inr (dict_of (concat (map (\<lambda>x. case x of
          PDict d \<Rightarrow> (case dict_get d ''traceability_lot_code'' PNone of PStr s \<Rightarrow> [(py_strip s, d)] | _ \<Rightarrow> []) | _ \<Rightarrow> []) xs))))"

definition latest_event_of :: "string \<Rightarrow> string \<Rightarrow> canonical_db \<Rightarrow> string option" where
  "latest_event_of t tlc db =
     (case sort_key (\<lambda>r. - tv_event_timestamp r) (filter (\<lambda>r. tv_tenant_id r = t \<and> tv_traceability_lot_code r = tlc) (kb_events db)) of
        [] \<Rightarrow> None | r # _ \<Rightarrow> Some (tv_event_id r))"

definition link_of :: "store_env \<Rightarrow> TraceabilityEvent \<Rightarrow> pydict \<Rightarrow> string \<Rightarrow> canonical_db \<Rightarrow> py_error + link_row" where
  "link_of env ev detail input_tlc db =
     (let q = dict_get detail ''quantity'' PNone
      in and_then (if q = PNone then Inr None else and_then (to_float q) (\<lambda>x. Inr (Some x))) (\<lambda>quantity.
         and_then (en_text env (dict_get detail ''unit_of_measure'' PNone)) (\<lambda>u.
         and_then (en_text env (link_process_type ev)) (\<lambda>process.
           Inr \<lparr>lk_tenant_id = cv_tenant_id ev, lk_event_id = cv_event_id ev, lk_input_tlc = input_tlc,
             lk_input_event_id = latest_event_of (cv_tenant_id ev) input_tlc db, lk_input_quantity = quantity, lk_input_unit = u,
             lk_output_tlc = cv_traceability_lot_code ev, lk_output_quantity = cv_quantity ev, lk_output_unit = cv_unit_of_measure ev,
             lk_process_type = process\<rparr>))))"

definition same_link :: "link_row \<Rightarrow> link_row \<Rightarrow> bool" where
  "same_link a b \<longleftrightarrow>
     lk_tenant_id a = lk_tenant_id b \<and> lk_event_id a = lk_event_id b \<and> lk_input_tlc a = lk_input_tlc b \<and> lk_output_tlc a = lk_output_tlc b"

fun for_each :: "('a \<Rightarrow> canonical_db \<Rightarrow> py_error + canonical_db) \<Rightarrow> 'a list \<Rightarrow> canonical_db \<Rightarrow> py_error + canonical_db" where
  "for_each f [] db = Inr db"
| "for_each f (x # xs) db = and_then (f x db) (for_each f xs)"

text \<open>
  Every exception of an input is logged and the input skipped. One that is raised before a statement is sent leaves the transaction as it
  is. One that the server raises aborts it, since there is no savepoint: the statements that follow are refused and the commit of the caller
  keeps nothing, which is the error here. The single write answers success in that case, because no statement follows.
\<close>

definition add_link :: "store_env \<Rightarrow> TraceabilityEvent \<Rightarrow> (string \<times> pydict) list \<Rightarrow> pyval \<Rightarrow> canonical_db \<Rightarrow> py_error + canonical_db" where
  "add_link env ev details input db =
     (case input of
        PStr s \<Rightarrow>
          if s = [] then Inr db
          else (case link_of env ev (case map_of details (py_strip s) of None \<Rightarrow> [] | Some d \<Rightarrow> d) (py_strip s) db of
                  Inl _ \<Rightarrow> Inr db
                | Inr l \<Rightarrow>
                    if list_ex (same_link l) (kb_links db) then Inr db
                    else if en_link_refused env l then Inl (DBAPIError ''InFailedSqlTransaction'')
                    else Inr (db\<lparr>kb_links := kb_links db @ [l]\<rparr>))
      | _ \<Rightarrow> Inr db)"

definition create_transformation_links :: "store_env \<Rightarrow> TraceabilityEvent \<Rightarrow> canonical_db \<Rightarrow> py_error + canonical_db" where
  "create_transformation_links env ev db =
     (if cv_event_type ev \<noteq> Transformation \<and> cv_event_type ev \<noteq> Initial_Packing then Inr db
      else case dict_get (cv_kdes ev) ''input_lot_codes'' (PList []) of
             PList codes \<Rightarrow> if codes = [] then Inr db
                            else and_then (input_details ev) (\<lambda>details. for_each (add_link env ev details) codes db)
           | _ \<Rightarrow> Inr db)"

section \<open>persist event and its batch (writer.py)\<close>

definition chain_entry :: "TraceabilityEvent \<Rightarrow> int \<Rightarrow> string \<Rightarrow> string option \<Rightarrow> string \<Rightarrow> ChainEntry" where
  "chain_entry ev seq sha previous chain =
     \<lparr>hc_tenant_id = cv_tenant_id ev, hc_cte_event_id = cv_event_id ev, hc_sequence_num = seq, hc_event_hash = sha,
      hc_previous_chain_hash = previous, hc_chain_hash = Some chain\<rparr>"

definition meter :: "store_options \<Rightarrow> TraceabilityEvent \<Rightarrow> canonical_db \<Rightarrow> canonical_db" where
  "meter opt ev db =
     (if wo_meter_usage opt then increment_usage_for_event (cv_tenant_id ev) (cv_event_id ev) (cv_event_timestamp ev) db else db)"

text \<open>What follows the insert of a new row.\<close>

definition complete_write ::
  "store_env \<Rightarrow> store_options \<Rightarrow> int \<Rightarrow> submission \<Rightarrow> TraceabilityEvent \<Rightarrow> int \<Rightarrow> string \<Rightarrow> string option \<Rightarrow> string option \<Rightarrow> string \<Rightarrow> canonical_db \<Rightarrow>
   py_error + canonical_db \<times> CanonicalStoreResult" where
  "complete_write env opt now sub ev seq sha previous chain computed db =
     and_then (mark_superseded now (cv_tenant_id ev) (cv_event_id ev) (sn_supersedes sub) (meter opt ev db)) (\<lambda>db.
     and_then (if wo_skip_chain_write opt then Inr db else insert_chain_entry (chain_entry ev seq sha previous computed) db) (\<lambda>db.
     and_then (if wo_dual_write opt then dual_write_legacy env ev sha chain db else Inr db) (\<lambda>db.
     and_then (create_transformation_links env ev db) (\<lambda>db.
       Inr (db, \<lparr>cr_success = True, cr_event_id = cv_event_id ev, cr_sha256_hash = sha, cr_chain_hash = chain, cr_idempotent = False,
         cr_legacy_event_id = (if wo_dual_write opt then Some (cv_event_id ev) else None)\<rparr>)))))"

definition write_new ::
  "store_env \<Rightarrow> store_options \<Rightarrow> int \<Rightarrow> submission \<Rightarrow> TraceabilityEvent \<Rightarrow> canonical_db \<Rightarrow> py_error + canonical_db \<times> CanonicalStoreResult" where
  "write_new env opt now sub ev db =
     (let t = cv_tenant_id ev; sha = str_or (cv_sha256_hash ev) []; key = str_or (cv_idempotency_key ev) [];
          (previous, seq) = next_link t (kb_legacy db); computed = compute_chain_hash (cs_H (en_cte env)) sha previous
      in and_then (chain_hash_for opt t (cv_event_id ev) sha computed db) (\<lambda>chain.
         and_then (event_to_params env now sub ev chain) (\<lambda>row.
         and_then (insert_canonical_event row db) (\<lambda>(db1, landed).
           case (if landed \<or> key = [] then None else stored_row t key db1) of
             Some r \<Rightarrow> Inr (db1, replay_answer r)
           | None \<Rightarrow> complete_write env opt now sub ev seq sha previous chain computed db1))))"

definition persist_event ::
  "store_env \<Rightarrow> store_options \<Rightarrow> int \<Rightarrow> submission \<Rightarrow> canonical_db \<Rightarrow> py_error + canonical_db \<times> CanonicalStoreResult" where
  "persist_event env opt now sub db =
     and_then (prepared env (sn_event sub)) (\<lambda>ev.
       let key = str_or (cv_idempotency_key ev) []
       in case (if key = [] then None else stored_row (cv_tenant_id ev) key db) of
            Some r \<Rightarrow> Inr (db, replay_answer r)
          | None \<Rightarrow> write_new env opt now sub ev db)"

text \<open>
  The plan of a batch: what is answered for each event, and the new events with their chain entries. \<open>known\<close> maps the keys that are
  stored, or planned so far, to identifier and hashes.
\<close>

type_synonym replay = "string \<times> string \<times> string option"

definition known_answer :: "replay \<Rightarrow> CanonicalStoreResult" where
  "known_answer r = (case r of (i, sha, chain) \<Rightarrow>
     \<lparr>cr_success = True, cr_event_id = i, cr_sha256_hash = sha, cr_chain_hash = chain, cr_idempotent = True, cr_legacy_event_id = None\<rparr>)"

definition new_result :: "TraceabilityEvent \<Rightarrow> string \<Rightarrow> string \<Rightarrow> CanonicalStoreResult" where
  "new_result ev sha chain =
     \<lparr>cr_success = True, cr_event_id = cv_event_id ev, cr_sha256_hash = sha, cr_chain_hash = Some chain, cr_idempotent = False,
      cr_legacy_event_id = None\<rparr>"

fun plan_batch ::
  "(string \<Rightarrow> string) \<Rightarrow> (string \<times> replay) list \<Rightarrow> string option \<Rightarrow> int \<Rightarrow> (submission \<times> TraceabilityEvent) list \<Rightarrow>
   CanonicalStoreResult list \<times> (submission \<times> TraceabilityEvent \<times> ChainEntry) list" where
  "plan_batch H known previous seq [] = ([], [])"
| "plan_batch H known previous seq ((sub, ev) # evs) =
     (let key = str_or (cv_idempotency_key ev) []
      in case (if key = [] then None else map_of known key) of
           Some r \<Rightarrow> (let (rs, new) = plan_batch H known previous seq evs in (known_answer r # rs, new))
         | None \<Rightarrow>
             let sha = str_or (cv_sha256_hash ev) []; chain = compute_chain_hash H sha previous;
                 known' = (if key = [] then known else put key (cv_event_id ev, sha, Some chain) known);
                 (rs, new) = plan_batch H known' (Some chain) (seq + 1) evs
             in (new_result ev sha chain # rs, (sub, ev, chain_entry ev seq sha previous chain) # new))"

function chunked :: "nat \<Rightarrow> 'a list \<Rightarrow> 'a list list" where
  "chunked n xs = (if xs = [] \<or> n = 0 then [] else take n xs # chunked n (drop n xs))"
  by auto
termination by (relation "measure (\<lambda>(n, xs). length xs)") auto

declare chunked.simps [simp del]

text \<open>One statement: the rows land or conflict one after another, the references are checked at its end.\<close>

fun insert_rows :: "canonical_row list \<Rightarrow> canonical_db \<Rightarrow> py_error + canonical_db \<times> canonical_row list" where
  "insert_rows [] db = Inr (db, [])"
| "insert_rows (r # rs) db =
     and_then (insert_canonical_row r db) (\<lambda>(db1, landed).
     and_then (insert_rows rs db1) (\<lambda>(db2, inserted). Inr (db2, if landed then r # inserted else inserted)))"

definition batch_insert_canonical_events ::
  "store_env \<Rightarrow> int \<Rightarrow> (submission \<times> TraceabilityEvent \<times> ChainEntry) list \<Rightarrow> canonical_db \<Rightarrow> py_error + canonical_db \<times> string list" where
  "batch_insert_canonical_events env now items db =
     and_then (map_err (\<lambda>(sub, ev, c). event_to_params env now sub ev (hc_chain_hash c)) items) (\<lambda>rows.
     and_then (insert_rows rows db) (\<lambda>(db1, inserted).
       if list_all (references_ok db1) inserted then Inr (db1, map tv_event_id inserted) else Inl integrity_error))"

fun insert_chunks ::
  "store_env \<Rightarrow> int \<Rightarrow> (submission \<times> TraceabilityEvent \<times> ChainEntry) list list \<Rightarrow> canonical_db \<Rightarrow> py_error + canonical_db \<times> string list" where
  "insert_chunks env now [] db = Inr (db, [])"
| "insert_chunks env now (items # rest) db =
     and_then (batch_insert_canonical_events env now items db) (\<lambda>(db1, ids).
     and_then (insert_chunks env now rest db1) (\<lambda>(db2, ids'). Inr (db2, ids @ ids')))"

text \<open>An event that did not land has lost its key to another writer: its answer, at the last place of the key, is that of the winner.\<close>

definition patch_results ::
  "string \<Rightarrow> TraceabilityEvent list \<Rightarrow> string list \<Rightarrow> canonical_db \<Rightarrow> CanonicalStoreResult list \<Rightarrow> CanonicalStoreResult list" where
  "patch_results t evs keys db results =
     fold (\<lambda>r rs. case List.find (\<lambda>i. cv_idempotency_key (evs ! i) = tv_idempotency_key r) (rev [0..<length evs]) of
             None \<Rightarrow> rs | Some i \<Rightarrow> rs[i := replay_answer r])
       (filter (\<lambda>r. tv_tenant_id r = t \<and> (case tv_idempotency_key r of None \<Rightarrow> False | Some k \<Rightarrow> k \<in> set keys)) (kb_events db)) results"

definition stored_keys :: "string \<Rightarrow> TraceabilityEvent list \<Rightarrow> canonical_db \<Rightarrow> (string \<times> replay) list" where
  "stored_keys t evs db =
     (let keys = filter (\<lambda>k. k \<noteq> []) (map (\<lambda>e. str_or (cv_idempotency_key e) []) evs)
      in concat (map (\<lambda>r. case tv_idempotency_key r of
           Some k \<Rightarrow> if tv_tenant_id r = t \<and> k \<in> set keys then [(k, tv_event_id r, tv_sha256_hash r, tv_chain_hash r)] else [] | None \<Rightarrow> [])
           (kb_events db)))"

definition write_batch ::
  "store_env \<Rightarrow> store_options \<Rightarrow> int \<Rightarrow> string \<Rightarrow> submission list \<Rightarrow> TraceabilityEvent list \<Rightarrow> canonical_db \<Rightarrow>
   py_error + canonical_db \<times> CanonicalStoreResult list" where
  "write_batch env opt now t subs evs db =
     (let (previous, seq) = next_link t (kb_legacy db);
          (results, new) = plan_batch (cs_H (en_cte env)) (stored_keys t evs db) previous seq (zip subs evs)
      in and_then (insert_chunks env now (chunked 50 new) db) (\<lambda>(db, ids).
           let landed = filter (\<lambda>(_, ev, _). cv_event_id ev \<in> set ids) new;
               lost = filter (\<lambda>(_, ev, _). cv_event_id ev \<notin> set ids) new;
               keys = filter (\<lambda>k. k \<noteq> []) (map (\<lambda>(_, ev, _). str_or (cv_idempotency_key ev) []) lost);
               results = (if keys = [] then results else patch_results t evs keys db results)
           in and_then (for_each (\<lambda>(_, _, c). add_chain_entry c) landed db) (\<lambda>db.
              and_then (for_each (\<lambda>(_, ev, _). create_transformation_links env ev) landed db) (\<lambda>db.
              and_then (for_each (\<lambda>(_, ev, _) db. Inr (meter opt ev db)) landed db) (\<lambda>db.
              and_then (if wo_dual_write opt then for_each (\<lambda>(_, ev, c). dual_write_legacy env ev (hc_event_hash c) (hc_chain_hash c)) landed db
                        else Inr db) (\<lambda>db. Inr (db, results)))))))"

definition persist_events_batch ::
  "store_env \<Rightarrow> store_options \<Rightarrow> int \<Rightarrow> submission list \<Rightarrow> canonical_db \<Rightarrow> py_error + canonical_db \<times> CanonicalStoreResult list" where
  "persist_events_batch env opt now subs db =
     (case subs of
        [] \<Rightarrow> Inr (db, [])
      | first # rest \<Rightarrow>
          let t = cv_tenant_id (sn_event first)
          in case List.find (\<lambda>s. cv_tenant_id (sn_event s) \<noteq> t) rest of
               Some s \<Rightarrow> Inl (ValueError (''persist_events_batch requires a single-tenant batch; got tenant_id='' @ in_quotes t @ '' and UUID('' @
                 in_quotes (cv_tenant_id (sn_event s)) @ '')''))
             | None \<Rightarrow> and_then (map_err (\<lambda>s. prepared env (sn_event s)) subs) (\<lambda>evs. write_batch env opt now t subs evs db))"

section \<open>Trace queries (writer.py)\<close>

record trace_link =
  wl_event_id :: string
  wl_process_type :: "string option"
  wl_depth :: int
  wl_input_tlc :: string
  wl_output_tlc :: string
  wl_quantity :: "pyfloat option"
  wl_unit :: "string option"

record TraceWalk =
  tw_links :: "trace_link list"
  tw_truncated :: bool
  tw_depth_exhausted :: bool
  tw_direction :: string
  tw_max_depth :: int
  tw_max_results :: int

definition trace_default_max_results :: int where
  "trace_default_max_results = 10000"

text \<open>The lots of a link in the direction of the walk; \<open>float(q) if q else None\<close> drops a zero.\<close>

definition link_from :: "bool \<Rightarrow> link_row \<Rightarrow> string" where
  "link_from forward l = (if forward then lk_input_tlc l else lk_output_tlc l)"

definition link_to :: "bool \<Rightarrow> link_row \<Rightarrow> string" where
  "link_to forward l = (if forward then lk_output_tlc l else lk_input_tlc l)"

definition nonzero :: "pyfloat option \<Rightarrow> pyfloat option" where
  "nonzero q = (if q = Some (Fin 0) then None else q)"

definition trace_link_of :: "bool \<Rightarrow> int \<Rightarrow> link_row \<Rightarrow> trace_link" where
  "trace_link_of forward level l =
     \<lparr>wl_event_id = lk_event_id l, wl_process_type = lk_process_type l, wl_depth = level, wl_input_tlc = lk_input_tlc l,
      wl_output_tlc = lk_output_tlc l,
      wl_quantity = nonzero (if forward then Some (lk_output_quantity l) else lk_input_quantity l),
      wl_unit = (if forward then Some (lk_output_unit l) else lk_input_unit l)\<rparr>"

definition trace_rows :: "string \<Rightarrow> bool \<Rightarrow> string \<Rightarrow> canonical_db \<Rightarrow> link_row list" where
  "trace_rows t forward tlc db = filter (\<lambda>l. lk_tenant_id l = t \<and> link_from forward l = tlc) (kb_links db)"

text \<open>The links of one lot: collected until there are \<open>cap\<close> of them, with the lots to look at next.\<close>

fun expand ::
  "bool \<Rightarrow> int \<Rightarrow> int \<Rightarrow> string list \<Rightarrow> link_row list \<Rightarrow> trace_link list \<Rightarrow> (string \<times> int) list \<Rightarrow>
   trace_link list \<times> (string \<times> int) list \<times> bool" where
  "expand forward cap level visited [] results queue = (results, queue, False)"
| "expand forward cap level visited (l # ls) results queue =
     (if cap \<le> int (length results) then (results, queue, True)
      else expand forward cap level visited ls (results @ [trace_link_of forward (level + 1) l])
             (if link_to forward l \<in> set visited then queue else queue @ [(link_to forward l, level + 1)]))"

lemma expand_queue:
  "expand forward cap level visited ls results queue = (rs, q, tr) \<Longrightarrow> set q \<subseteq> set queue \<union> (\<lambda>l. (link_to forward l, level + 1)) ` set ls"
  by (induction ls arbitrary: results queue) (fastforce split: if_splits)+

text \<open>The loop of the walk. Every lot is expanded once, so it ends also when the links have cycles.\<close>

function walk_loop ::
  "string \<Rightarrow> bool \<Rightarrow> int \<Rightarrow> int \<Rightarrow> canonical_db \<Rightarrow> (string \<times> int) list \<Rightarrow> string list \<Rightarrow> trace_link list \<Rightarrow> bool \<Rightarrow> trace_link list \<times> bool \<times> bool" where
  "walk_loop t forward max_depth cap db [] visited results exhausted = (results, False, exhausted)"
| "walk_loop t forward max_depth cap db ((tlc, level) # queue) visited results exhausted =
     (if tlc \<in> set visited then walk_loop t forward max_depth cap db queue visited results exhausted
      else if max_depth \<le> level then walk_loop t forward max_depth cap db queue visited results True
      else case expand forward cap level (tlc # visited) (trace_rows t forward tlc db) results queue of
             (results', queue', truncated) \<Rightarrow>
               if truncated then (results', True, exhausted)
               else walk_loop t forward max_depth cap db queue' (tlc # visited) results' exhausted)"
  by pat_completeness auto

definition lots_left :: "bool \<Rightarrow> canonical_db \<Rightarrow> (string \<times> int) list \<Rightarrow> string list \<Rightarrow> string set" where
  "lots_left forward db queue visited = (fst ` set queue \<union> link_to forward ` set (kb_links db)) - set visited"

lemma lots_left_finite: "finite (lots_left forward db queue visited)"
  by (simp add: lots_left_def)

lemma lots_left_pop: "lots_left forward db queue visited \<subseteq> lots_left forward db ((tlc, level) # queue) visited"
  by (auto simp: lots_left_def)

lemma lots_left_expand:
  assumes "expand forward cap level (tlc # visited) (trace_rows t forward tlc db) results queue = (rs, q, tr)" "tlc \<notin> set visited"
  shows "card (lots_left forward db q (tlc # visited)) < card (lots_left forward db ((tlc, level) # queue) visited)"
proof (rule psubset_card_mono[OF lots_left_finite])
  have "fst ` set q \<subseteq> fst ` set queue \<union> link_to forward ` set (kb_links db)"
    using expand_queue[OF assms(1)] by (fastforce simp: trace_rows_def)
  then have "lots_left forward db q (tlc # visited) \<subseteq> lots_left forward db ((tlc, level) # queue) visited" by (auto simp: lots_left_def)
  moreover have "tlc \<in> lots_left forward db ((tlc, level) # queue) visited" "tlc \<notin> lots_left forward db q (tlc # visited)"
    using assms(2) by (simp_all add: lots_left_def)
  ultimately show "lots_left forward db q (tlc # visited) \<subset> lots_left forward db ((tlc, level) # queue) visited" by blast
qed

termination walk_loop
proof (relation "measures [\<lambda>(_, fw, _, _, db, q, vis, _, _). card (lots_left fw db q vis), \<lambda>(_, _, _, _, _, q, _, _, _). length q]", goal_cases)
  case (2 t forward max_depth cap db tlc level queue visited results exhausted)
  then show ?case using card_mono[OF lots_left_finite lots_left_pop, of forward db queue visited tlc level] by (auto simp: le_less)
next
  case (3 t forward max_depth cap db tlc level queue visited results exhausted)
  then show ?case using card_mono[OF lots_left_finite lots_left_pop, of forward db queue visited tlc level] by (auto simp: le_less)
next
  case 4
  then show ?case using lots_left_expand by (simp add: eq_commute)
qed simp

definition trace_walk :: "string \<Rightarrow> string \<Rightarrow> string \<Rightarrow> int \<Rightarrow> int \<Rightarrow> canonical_db \<Rightarrow> py_error + TraceWalk" where
  "trace_walk t tlc direction max_depth max_results db =
     (if direction \<noteq> ''forward'' \<and> direction \<noteq> ''backward''
      then Inl (ValueError (''direction must be '' @ in_quotes ''forward'' @ '' or '' @ in_quotes ''backward'' @ '', got '' @ in_quotes direction))
      else if max_depth < 1 then Inl (ValueError (''max_depth must be >= 1, got '' @ int_str max_depth))
      else case walk_loop t (direction = ''forward'') max_depth max_results db [(tlc, 0)] [] [] False of
             (links, truncated, exhausted) \<Rightarrow>
               Inr \<lparr>tw_links = links, tw_truncated = truncated, tw_depth_exhausted = exhausted, tw_direction = direction,
                 tw_max_depth = max_depth, tw_max_results = max_results\<rparr>)"

definition trace_forward :: "string \<Rightarrow> string \<Rightarrow> int \<Rightarrow> int \<Rightarrow> canonical_db \<Rightarrow> py_error + trace_link list \<times> bool" where
  "trace_forward t tlc max_depth max_results db =
     and_then (trace_walk t tlc ''forward'' max_depth max_results db) (\<lambda>w. Inr (tw_links w, tw_truncated w))"

definition trace_backward :: "string \<Rightarrow> string \<Rightarrow> int \<Rightarrow> int \<Rightarrow> canonical_db \<Rightarrow> py_error + trace_link list \<times> bool" where
  "trace_backward t tlc max_depth max_results db =
     and_then (trace_walk t tlc ''backward'' max_depth max_results db) (\<lambda>w. Inr (tw_links w, tw_truncated w))"

section \<open>Reads (writer.py)\<close>

definition iso_of :: "store_env \<Rightarrow> int \<Rightarrow> pyval" where
  "iso_of env i = PStr (event_iso (en_can env) (Datetime i (Some 0)))"

text \<open>\<open>v if isinstance(v, dict) else json.loads(v or "{}")\<close>\<close>

definition read_json_column :: "store_env \<Rightarrow> pyval \<Rightarrow> py_error + pyval" where
  "read_json_column env v =
     (case v of
        PDict d \<Rightarrow> Inr v
      | _ \<Rightarrow> if \<not> truthy v then rt_json_loads (ce_rt (en_can env)) ''{}''
             else case v of PStr s \<Rightarrow> rt_json_loads (ce_rt (en_can env)) s | _ \<Rightarrow> Inl TypeError)"

definition float_or_zero :: "pyfloat \<Rightarrow> pyval" where
  "float_or_zero q = (if q = Fin 0 then PInt 0 else PFloat q)"

definition float_or_one :: "pyfloat \<Rightarrow> pyval" where
  "float_or_one q = (if q = Fin 0 then PFloat (Fin 1) else PFloat q)"

definition get_event :: "store_env \<Rightarrow> string \<Rightarrow> string \<Rightarrow> bool \<Rightarrow> canonical_db \<Rightarrow> py_error + pydict option" where
  "get_event env t event_id include_raw_payload db =
     (case List.find (\<lambda>r. tv_tenant_id r = t \<and> tv_event_id r = event_id) (kb_events db) of
        None \<Rightarrow> Inr None
      | Some r \<Rightarrow>
          and_then (read_json_column env (tv_kdes r)) (\<lambda>kdes.
          and_then (read_json_column env (tv_normalized_payload r)) (\<lambda>payload.
          and_then (read_json_column env (tv_provenance r)) (\<lambda>provenance.
            let columns =
              [(''event_id'', PStr (tv_event_id r)), (''tenant_id'', PStr (tv_tenant_id r)), (''source_system'', PStr (tv_source_system r)),
               (''source_record_id'', tv_source_record_id r), (''event_type'', PStr (tv_event_type r)),
               (''event_timestamp'', iso_of env (tv_event_timestamp r)), (''event_timezone'', tv_event_timezone r),
               (''product_reference'', tv_product_reference r), (''lot_reference'', tv_lot_reference r),
               (''traceability_lot_code'', PStr (tv_traceability_lot_code r)), (''quantity'', float_or_zero (tv_quantity r)),
               (''unit_of_measure'', PStr (tv_unit_of_measure r)), (''from_entity_reference'', tv_from_entity r),
               (''to_entity_reference'', tv_to_entity r), (''from_facility_reference'', tv_from_facility r),
               (''to_facility_reference'', tv_to_facility r), (''transport_reference'', tv_transport r), (''kdes'', kdes),
               (''normalized_payload'', payload), (''provenance_metadata'', provenance), (''confidence_score'', float_or_one (tv_confidence_score r)),
               (''status'', PStr (tv_status r)), (''supersedes_event_id'', opt_str (tv_supersedes r)),
               (''schema_version'', PStr (tv_schema_version r)), (''sha256_hash'', PStr (tv_sha256_hash r)),
               (''chain_hash'', opt_str (tv_chain_hash r)), (''created_at'', iso_of env (tv_created_at r)),
               (''amended_at'', case tv_amended_at r of None \<Rightarrow> PNone | Some i \<Rightarrow> iso_of env i)]
            in if include_raw_payload then and_then (read_json_column env (tv_raw_payload r)) (\<lambda>raw. Inr (Some (columns @ [(''raw_payload'', raw)])))
               else Inr (Some columns)))))"

definition tlc_columns :: "store_env \<Rightarrow> canonical_row \<Rightarrow> py_error + pydict" where
  "tlc_columns env r =
     and_then (read_json_column env (tv_kdes r)) (\<lambda>kdes.
     and_then (read_json_column env (tv_provenance r)) (\<lambda>provenance.
       Inr [(''event_id'', PStr (tv_event_id r)), (''event_type'', PStr (tv_event_type r)),
         (''traceability_lot_code'', PStr (tv_traceability_lot_code r)), (''product_reference'', tv_product_reference r),
         (''quantity'', float_or_zero (tv_quantity r)), (''unit_of_measure'', PStr (tv_unit_of_measure r)),
         (''from_facility_reference'', tv_from_facility r), (''to_facility_reference'', tv_to_facility r),
         (''event_timestamp'', iso_of env (tv_event_timestamp r)), (''sha256_hash'', PStr (tv_sha256_hash r)),
         (''chain_hash'', opt_str (tv_chain_hash r)), (''source_system'', PStr (tv_source_system r)), (''status'', PStr (tv_status r)),
         (''kdes'', kdes), (''provenance_metadata'', provenance), (''confidence_score'', float_or_one (tv_confidence_score r)),
         (''created_at'', iso_of env (tv_created_at r))]))"

text \<open>The bounds of the query are instants, or absent.\<close>

definition active_rows :: "string \<Rightarrow> string \<Rightarrow> int option \<Rightarrow> int option \<Rightarrow> canonical_db \<Rightarrow> canonical_row list" where
  "active_rows t tlc start_date end_date db =
     sort_key tv_event_timestamp (filter (\<lambda>r. tv_tenant_id r = t \<and> tv_traceability_lot_code r = tlc \<and> tv_status r = ''active'' \<and>
       (case start_date of None \<Rightarrow> True | Some a \<Rightarrow> a \<le> tv_event_timestamp r) \<and>
       (case end_date of None \<Rightarrow> True | Some b \<Rightarrow> tv_event_timestamp r \<le> b)) (kb_events db))"

definition query_events_by_tlc ::
  "store_env \<Rightarrow> string \<Rightarrow> string \<Rightarrow> int option \<Rightarrow> int option \<Rightarrow> canonical_db \<Rightarrow> py_error + pydict list" where
  "query_events_by_tlc env t tlc start_date end_date db = map_err (tlc_columns env) (active_rows t tlc start_date end_date db)"

section \<open>Verification (verification.py)\<close>

definition chain_verify_reads_canonical :: "string option \<Rightarrow> bool" where
  "chain_verify_reads_canonical setting =
     (py_lower (py_strip (case setting of None \<Rightarrow> ''1'' | Some s \<Rightarrow> s)) \<in> set [''1'', ''true'', ''yes'', ''on''])"

text \<open>The offset that was hashed, from the copy of the timestamp in the normalised payload.\<close>

definition timestamp_hint :: "canonical_row \<Rightarrow> string option" where
  "timestamp_hint r = (case tv_normalized_payload r of PDict d \<Rightarrow> opt_text (dict_get d ''event_timestamp'' PNone) | _ \<Rightarrow> None)"

definition original_offset :: "store_env \<Rightarrow> string option \<Rightarrow> int" where
  "original_offset env hint =
     (case hint of
        None \<Rightarrow> 0
      | Some s \<Rightarrow> (case rt_fromisoformat (ce_rt (en_can env)) s of Inr (Datetime _ (Some off)) \<Rightarrow> off | _ \<Rightarrow> 0))"

definition kdes_object :: "store_env \<Rightarrow> pyval \<Rightarrow> py_error + pydict" where
  "kdes_object env raw =
     (case raw of
        PNone \<Rightarrow> Inr []
      | PDict d \<Rightarrow> Inr d
      | PStr s \<Rightarrow>
          (case rt_json_loads (ce_rt (en_can env)) s of
             Inl _ \<Rightarrow> Inl (ValueError ''kdes blob is not valid JSON'')
           | Inr (PDict d) \<Rightarrow> Inr d
           | Inr _ \<Rightarrow> Inl (ValueError ''kdes blob is not an object''))
      | _ \<Rightarrow> Inl (ValueError ''kdes blob is not an object''))"

text \<open>The text that is hashed for a stored row.\<close>

definition row_text :: "store_env \<Rightarrow> string \<Rightarrow> canonical_row \<Rightarrow> pydict \<Rightarrow> string" where
  "row_text env event_id r kdes =
     (let off = original_offset env (timestamp_hint r)
      in py_join ''|''
           [event_id, tv_event_type r, tv_traceability_lot_code r, text_or_empty (en_can env) (tv_product_reference r),
            py_str (ce_rt (en_can env)) (PFloat (tv_quantity r)), tv_unit_of_measure r, text_or_empty (en_can env) (tv_from_facility r),
            text_or_empty (en_can env) (tv_to_facility r), event_iso (en_can env) (Datetime (tv_event_timestamp r + off) (Some off)),
            ce_json_sorted (en_can env) (PDict kdes)])"

definition recompute_event_sha256 :: "store_env \<Rightarrow> string \<Rightarrow> canonical_row \<Rightarrow> pydict \<Rightarrow> string" where
  "recompute_event_sha256 env event_id r kdes = ce_H (en_can env) (row_text env event_id r kdes)"

record CanonicalChainVerification =
  ck_valid :: bool
  ck_chain_length :: nat
  ck_errors :: "string list"
  ck_orphan_chain_rows :: "int list"
  ck_tamper_rows :: "int list"
  ck_events_count :: nat
  ck_events_without_chain_row :: nat
  ck_legacy_chain_rows :: "int list"
  ck_no_chain_evidence :: bool

record walk_state =
  vs_errors :: "string list"
  vs_orphans :: "int list"
  vs_tampers :: "int list"
  vs_legacy :: "int list"

definition report :: "string \<Rightarrow> walk_state \<Rightarrow> walk_state" where
  "report msg st = st\<lparr>vs_errors := vs_errors st @ [msg]\<rparr>"

definition tampered :: "int \<Rightarrow> walk_state \<Rightarrow> walk_state" where
  "tampered seq st = (if seq \<in> set (vs_tampers st) then st else st\<lparr>vs_tampers := vs_tampers st @ [seq]\<rparr>)"

definition head16 :: "string option \<Rightarrow> string" where
  "head16 v = take 16 (case v of None \<Rightarrow> ''None'' | Some s \<Rightarrow> s)"

text \<open>The two left joins of a chain row.\<close>

definition canonical_match :: "canonical_db \<Rightarrow> ChainEntry \<Rightarrow> canonical_row option" where
  "canonical_match db c = List.find (\<lambda>r. tv_event_id r = hc_cte_event_id c \<and> tv_tenant_id r = hc_tenant_id c) (kb_events db)"

definition check_links :: "(string \<Rightarrow> string) \<Rightarrow> int \<Rightarrow> ChainEntry option \<Rightarrow> ChainEntry \<Rightarrow> walk_state \<Rightarrow> walk_state" where
  "check_links H expected_seq before c st =
     (let seq = hc_sequence_num c; prev = hc_previous_chain_hash c; recomputed = compute_chain_hash H (hc_event_hash c) prev;
          st = (if seq \<noteq> expected_seq then report (''Sequence gap: expected '' @ int_str expected_seq @ '', got '' @ int_str seq) st else st);
          st = (case before of
                  None \<Rightarrow> if prev \<noteq> None then report (''Genesis entry (seq='' @ int_str seq @ '') has non-null previous_chain_hash'') st else st
                | Some b \<Rightarrow> if prev \<noteq> hc_chain_hash b
                            then report (''Chain break at seq='' @ int_str seq @ '': stored prev '' @ head16 prev @ ''... != expected '' @
                                   head16 (hc_chain_hash b) @ ''...'') st else st)
      in if Some recomputed \<noteq> hc_chain_hash c
         then tampered seq (report (''Tamper detected at seq='' @ int_str seq @ '': recomputed chain_hash '' @ take 16 recomputed @ ''... != stored '' @
                head16 (hc_chain_hash c) @ ''...'') st)
         else st)"

definition verify_content :: "store_env \<Rightarrow> bool \<Rightarrow> ChainEntry \<Rightarrow> canonical_row \<Rightarrow> walk_state \<Rightarrow> walk_state" where
  "verify_content env in_legacy c r st =
     (let seq = hc_sequence_num c;
          st = (if \<not> in_legacy \<and> hc_event_hash c \<noteq> tv_sha256_hash r
                then report (''Chain-row tamper at seq='' @ int_str seq @ '': chain event_hash '' @ take 16 (hc_event_hash c) @
                       ''... != canonical sha256_hash '' @ take 16 (tv_sha256_hash r) @ ''...'') (tampered seq st)
                else st)
      in case kdes_object env (tv_kdes r) of
           Inl _ \<Rightarrow> tampered seq (report (''Unreadable KDE blob at seq='' @ int_str seq @ '': event content cannot be recomputed'') st)
         | Inr kdes \<Rightarrow>
             let recomputed = recompute_event_sha256 env (hc_cte_event_id c) r kdes
             in if recomputed \<noteq> tv_sha256_hash r
                then report (''Event tamper at seq='' @ int_str seq @ '': recomputed event_hash '' @ take 16 recomputed @ ''... != stored '' @
                       take 16 (tv_sha256_hash r) @ ''...'') (tampered seq st)
                else st)"

definition verify_row :: "store_env \<Rightarrow> canonical_db \<Rightarrow> int \<Rightarrow> ChainEntry option \<Rightarrow> ChainEntry \<Rightarrow> walk_state \<Rightarrow> walk_state" where
  "verify_row env db expected_seq before c st =
     (let st = check_links (cs_H (en_cte env)) expected_seq before c st; in_legacy = matched (kb_legacy db) c; seq = hc_sequence_num c
      in case canonical_match db c of
           Some r \<Rightarrow> verify_content env in_legacy c r st
         | None \<Rightarrow>
             if in_legacy then st\<lparr>vs_legacy := vs_legacy st @ [seq]\<rparr>
             else report (''Orphan chain row at seq='' @ int_str seq @ '': cte_event_id='' @ hc_cte_event_id c @ '' has no matching row in either store'')
                    (st\<lparr>vs_orphans := vs_orphans st @ [seq]\<rparr>))"

fun verify_rows :: "store_env \<Rightarrow> canonical_db \<Rightarrow> int \<Rightarrow> ChainEntry option \<Rightarrow> ChainEntry list \<Rightarrow> walk_state \<Rightarrow> walk_state" where
  "verify_rows env db i before [] st = st"
| "verify_rows env db i before (c # cs) st = verify_rows env db (i + 1) (Some c) cs (verify_row env db i before c st)"

definition canonical_events_count :: "string \<Rightarrow> canonical_db \<Rightarrow> nat" where
  "canonical_events_count t db = length (filter (\<lambda>r. tv_tenant_id r = t \<and> tv_status r \<noteq> ''rejected'') (kb_events db))"

definition verify_chain_canonical :: "store_env \<Rightarrow> string \<Rightarrow> canonical_db \<Rightarrow> CanonicalChainVerification" where
  "verify_chain_canonical env t db =
     (let rows = chain_of t (kb_legacy db); count = canonical_events_count t db;
          st = verify_rows env db 1 None rows \<lparr>vs_errors = [], vs_orphans = [], vs_tampers = [], vs_legacy = []\<rparr>;
          no_evidence = (rows = [] \<and> 0 < count);
          errors = vs_errors st @ (if no_evidence
            then [''No chain rows exist for tenant with '' @ nat_str count @ '' non-rejected canonical events '' @ em_dash @
                  '' an unreadable or emptied chain is indistinguishable from chain-less ingestion, so chain integrity cannot be attested (nothing was walked). Not a tamper verdict; failing closed rather than reporting VERIFIED.'']
            else [])
      in \<lparr>ck_valid = (errors = [] \<and> vs_orphans st = [] \<and> vs_tampers st = []), ck_chain_length = length rows, ck_errors = errors,
          ck_orphan_chain_rows = vs_orphans st, ck_tamper_rows = vs_tampers st, ck_events_count = count,
          ck_events_without_chain_row = count - (length rows - length (vs_legacy st)), ck_legacy_chain_rows = vs_legacy st,
          ck_no_chain_evidence = no_evidence\<rparr>)"

end
