(* ===== verification/CanonicalChain.thy ===== *)
theory CanonicalChain
  imports CanonicalStore
begin

text \<open>
  The hash chain that the canonical and the legacy writer share: what the canonical verifier accepts, what an accepted chain
  commits to, and that every sequence of writes leaves a chain that is accepted.
\<close>

section \<open>What the verifier accepts\<close>

definition clean :: "walk_state \<Rightarrow> bool" where
  "clean st \<longleftrightarrow> vs_errors st = [] \<and> vs_orphans st = [] \<and> vs_tampers st = []"

text \<open>The hash of a row is that of its content.\<close>

definition content_sound :: "store_env \<Rightarrow> canonical_row \<Rightarrow> bool" where
  "content_sound env r \<longleftrightarrow>
     (case kdes_object env (tv_kdes r) of Inl _ \<Rightarrow> False | Inr k \<Rightarrow> recompute_event_sha256 env (tv_event_id r) r k = tv_sha256_hash r)"

definition row_sound :: "store_env \<Rightarrow> canonical_db \<Rightarrow> ChainEntry \<Rightarrow> bool" where
  "row_sound env db c \<longleftrightarrow>
     (case canonical_match db c of
        None \<Rightarrow> matched (kb_legacy db) c
      | Some r \<Rightarrow> (matched (kb_legacy db) c \<or> hc_event_hash c = tv_sha256_hash r) \<and> content_sound env r)"

lemma clean_simps [simp]:
  "\<not> clean (report m st)" "clean (tampered s st) \<longleftrightarrow> False" "\<not> clean (tampered s (report m st))"
  "clean (st\<lparr>vs_legacy := l\<rparr>) \<longleftrightarrow> clean st"
  by (auto simp: clean_def report_def tampered_def)

lemma check_links_clean:
  "clean (check_links H n before c st) \<longleftrightarrow>
     clean st \<and> hc_sequence_num c = n \<and> hc_previous_chain_hash c = Option.bind before hc_chain_hash \<and>
     hc_chain_hash c = Some (compute_chain_hash H (hc_event_hash c) (hc_previous_chain_hash c))"
  by (auto simp: check_links_def Let_def split: option.split)

lemma canonical_match_Some:
  "canonical_match db c = Some r \<Longrightarrow> r \<in> set (kb_events db) \<and> tv_event_id r = hc_cte_event_id c \<and> tv_tenant_id r = hc_tenant_id c"
  by (auto simp: canonical_match_def find_Some_iff)

lemma canonical_match_None:
  "canonical_match db c = None \<longleftrightarrow> (\<forall>r \<in> set (kb_events db). \<not> (tv_event_id r = hc_cte_event_id c \<and> tv_tenant_id r = hc_tenant_id c))"
  by (auto simp: canonical_match_def find_None_iff)

lemma verify_content_clean:
  assumes "tv_event_id r = hc_cte_event_id c"
  shows "clean (verify_content env legacy c r st) \<longleftrightarrow> clean st \<and> (legacy \<or> hc_event_hash c = tv_sha256_hash r) \<and> content_sound env r"
  using assms by (auto simp: verify_content_def content_sound_def Let_def split: sum.split)

lemma verify_row_clean:
  "clean (verify_row env db n before c st) \<longleftrightarrow>
     clean st \<and> hc_sequence_num c = n \<and> hc_previous_chain_hash c = Option.bind before hc_chain_hash \<and>
     hc_chain_hash c = Some (compute_chain_hash (cs_H (en_cte env)) (hc_event_hash c) (hc_previous_chain_hash c)) \<and> row_sound env db c"
proof (cases "canonical_match db c")
  case None
  then show ?thesis by (auto simp: verify_row_def row_sound_def Let_def check_links_clean)
next
  case (Some r)
  then have "tv_event_id r = hc_cte_event_id c" using canonical_match_Some by blast
  from verify_content_clean[OF this] Some show ?thesis by (auto simp: verify_row_def row_sound_def Let_def check_links_clean)
qed

lemma verify_rows_clean:
  "clean (verify_rows env db n before cs st) \<longleftrightarrow>
     clean st \<and> linked (cs_H (en_cte env)) n (Option.bind before hc_chain_hash) cs \<and> (\<forall>c \<in> set cs. row_sound env db c)"
  by (induction cs arbitrary: n before st) (auto simp: verify_row_clean)

definition no_evidence :: "string \<Rightarrow> canonical_db \<Rightarrow> bool" where
  "no_evidence t db \<longleftrightarrow> chain_of t (kb_legacy db) = [] \<and> canonical_events_count t db \<noteq> 0"

lemma ck_valid_iff:
  "ck_valid (verify_chain_canonical env t db) \<longleftrightarrow>
     linked (cs_H (en_cte env)) 1 None (chain_of t (kb_legacy db)) \<and> (\<forall>c \<in> set (chain_of t (kb_legacy db)). row_sound env db c) \<and>
     \<not> no_evidence t db"
proof -
  let ?st = "verify_rows env db 1 None (chain_of t (kb_legacy db)) \<lparr>vs_errors = [], vs_orphans = [], vs_tampers = [], vs_legacy = []\<rparr>"
  have "ck_valid (verify_chain_canonical env t db) \<longleftrightarrow> clean ?st \<and> \<not> no_evidence t db"
    by (auto simp: verify_chain_canonical_def Let_def clean_def no_evidence_def)
  then show ?thesis by (simp add: verify_rows_clean) (simp add: clean_def)
qed

section \<open>What an accepted chain commits to\<close>

text \<open>The texts whose hashes the verifier recomputes, along the chain.\<close>

definition chained_texts :: "store_env \<Rightarrow> string \<Rightarrow> canonical_db \<Rightarrow> string list" where
  "chained_texts env t db =
     concat (map (\<lambda>c. case canonical_match db c of
        None \<Rightarrow> []
      | Some r \<Rightarrow> (case kdes_object env (tv_kdes r) of Inl _ \<Rightarrow> [] | Inr k \<Rightarrow> [row_text env (tv_event_id r) r k])) (chain_of t (kb_legacy db)))"

text \<open>No entry of the chain belongs to an event of the legacy table.\<close>

definition canonical_only :: "string \<Rightarrow> canonical_db \<Rightarrow> bool" where
  "canonical_only t db \<longleftrightarrow> list_all (\<lambda>c. \<not> matched (kb_legacy db) c) (chain_of t (kb_legacy db))"

lemma map_concat_single: "(\<And>x. x \<in> set xs \<Longrightarrow> \<exists>y. f x = [y] \<and> h y = g x) \<Longrightarrow> map h (concat (map f xs)) = map g xs"
  by (induction xs) (auto, fastforce)

lemma chained_texts_hash:
  assumes "ck_valid (verify_chain_canonical env t db)" "canonical_only t db"
  shows "map (ce_H (en_can env)) (chained_texts env t db) = map hc_event_hash (chain_of t (kb_legacy db))"
  unfolding chained_texts_def
proof (rule map_concat_single)
  fix c assume c: "c \<in> set (chain_of t (kb_legacy db))"
  then have "row_sound env db c" "\<not> matched (kb_legacy db) c" using assms by (auto simp: ck_valid_iff canonical_only_def list_all_iff)
  then show "\<exists>y. (case canonical_match db c of None \<Rightarrow> []
      | Some r \<Rightarrow> (case kdes_object env (tv_kdes r) of Inl _ \<Rightarrow> [] | Inr k \<Rightarrow> [row_text env (tv_event_id r) r k])) = [y] \<and>
      ce_H (en_can env) y = hc_event_hash c"
    by (auto simp: row_sound_def content_sound_def recompute_event_sha256_def split: option.splits sum.splits)
qed

lemma accepted_head:
  assumes "ck_valid (verify_chain_canonical env t db)"
  shows "fst (next_link t (kb_legacy db)) = chain_from (cs_H (en_cte env)) None (map hc_event_hash (chain_of t (kb_legacy db)))"
proof -
  have "linked (cs_H (en_cte env)) 1 None (chain_of t (kb_legacy db))" using assms by (simp add: ck_valid_iff)
  from linked_head[OF this] show ?thesis by (auto simp: next_link_def chain_head_def split: list.split)
qed

text \<open>
  Claim C10 (safety). The head of an accepted chain commits to the content of the events: if the verifier accepts a tenant in two states of
  the tables, no chained event of which has a copy in the legacy table, and the chains end in the same hash, then the hashed texts of
  the events (identifier, type, lot, product, quantity, unit, facilities, time with its offset, key data) are the same in the same
  order, barring a collision of the digest. Rewriting a stored event together with its stored hash is detected.
\<close>

theorem canonical_content_committed:
  assumes "hex_digest (cs_H (en_cte env))"
    and "ck_valid (verify_chain_canonical env t db1)" "ck_valid (verify_chain_canonical env t db2)" "canonical_only t db1" "canonical_only t db2"
    and "fst (next_link t (kb_legacy db1)) = fst (next_link t (kb_legacy db2))"
    and "inj_on (cs_H (en_cte env)) (set (chain_inputs (cs_H (en_cte env)) None (map hc_event_hash (chain_of t (kb_legacy db1)))) \<union>
                                     set (chain_inputs (cs_H (en_cte env)) None (map hc_event_hash (chain_of t (kb_legacy db2)))))"
    and "inj_on (ce_H (en_can env)) (set (chained_texts env t db1) \<union> set (chained_texts env t db2))"
  shows "chained_texts env t db1 = chained_texts env t db2"
proof -
  have "map hc_event_hash (chain_of t (kb_legacy db1)) = map hc_event_hash (chain_of t (kb_legacy db2))"
    using assms(6) by (intro chain_from_inj[OF assms(1,7)]) (simp add: accepted_head[OF assms(2)] accepted_head[OF assms(3)])
  then have "map (ce_H (en_can env)) (chained_texts env t db1) = map (ce_H (en_can env)) (chained_texts env t db2)"
    using chained_texts_hash[OF assms(2,4)] chained_texts_hash[OF assms(3,5)] by simp
  then show ?thesis using map_inj_on[OF _ assms(8)] by blast
qed

section \<open>The invariant of the writers\<close>

text \<open>
  Identifiers are unique, every row has the hash of its content, each tenant's entries are a linked chain, and an entry belongs to a
  legacy event or has the hash of its canonical event.
\<close>

definition backed :: "canonical_db \<Rightarrow> ChainEntry \<Rightarrow> bool" where
  "backed db c \<longleftrightarrow> matched (kb_legacy db) c \<or>
     (\<exists>r \<in> set (kb_events db). tv_event_id r = hc_cte_event_id c \<and> tv_tenant_id r = hc_tenant_id c \<and> tv_sha256_hash r = hc_event_hash c)"

definition canon_ok :: "store_env \<Rightarrow> canonical_db \<Rightarrow> bool" where
  "canon_ok env db \<longleftrightarrow>
     distinct (map tv_event_id (kb_events db)) \<and> (\<forall>r \<in> set (kb_events db). content_sound env r) \<and>
     (\<forall>t. linked (cs_H (en_cte env)) 1 None (rows_of t (kb_legacy db))) \<and> (\<forall>c \<in> set (cd_chain (kb_legacy db)). backed db c)"

lemma canon_ok_row_sound:
  assumes "canon_ok env db" "c \<in> set (cd_chain (kb_legacy db))"
  shows "row_sound env db c"
proof (cases "canonical_match db c")
  case None
  have "backed db c" using assms by (simp add: canon_ok_def)
  then have "matched (kb_legacy db) c" using None unfolding backed_def canonical_match_None by blast
  with None show ?thesis by (simp add: row_sound_def)
next
  case (Some r)
  note r = canonical_match_Some[OF Some]
  have "r' = r" if "r' \<in> set (kb_events db)" "tv_event_id r' = hc_cte_event_id c" for r'
  proof -
    have "inj_on tv_event_id (set (kb_events db))" using assms(1) by (simp add: canon_ok_def distinct_map)
    from inj_onD[OF this, of r' r] that r show ?thesis by simp
  qed
  moreover have "backed db c" "content_sound env r" using assms r by (auto simp: canon_ok_def)
  ultimately show ?thesis using Some by (auto simp: row_sound_def backed_def)
qed

lemma canon_ok_verifies:
  assumes "canon_ok env db"
  shows "ck_valid (verify_chain_canonical env t db) \<longleftrightarrow> \<not> no_evidence t db"
proof -
  have link: "linked (cs_H (en_cte env)) 1 None (rows_of t (kb_legacy db))" using assms by (simp add: canon_ok_def)
  have "row_sound env db c" if "c \<in> set (chain_of t (kb_legacy db))" for c
    using canon_ok_row_sound[OF assms] that by (auto simp: chain_of_linked[OF link] rows_of_def)
  then show ?thesis using link by (simp add: ck_valid_iff chain_of_linked[OF link])
qed

text \<open>A step that keeps the chain and the content of the rows.\<close>

lemma canon_ok_mono:
  assumes "canon_ok env db" "kb_events db' = map f (kb_events db)"
    and "\<And>r. tv_event_id (f r) = tv_event_id r \<and> tv_tenant_id (f r) = tv_tenant_id r \<and> tv_sha256_hash (f r) = tv_sha256_hash r \<and>
          content_sound env (f r) = content_sound env r"
    and "cd_chain (kb_legacy db') = cd_chain (kb_legacy db)" "set (cd_events (kb_legacy db)) \<subseteq> set (cd_events (kb_legacy db'))"
  shows "canon_ok env db'"
proof -
  have "map tv_event_id (kb_events db') = map tv_event_id (kb_events db)" using assms(2,3) by (simp add: comp_def)
  moreover have "content_sound env r" if "r \<in> set (kb_events db')" for r
    using that assms(1,2,3) by (auto simp: canon_ok_def)
  moreover have "rows_of t (kb_legacy db') = rows_of t (kb_legacy db)" for t by (simp add: rows_of_def assms(4))
  moreover have "backed db' c" if "backed db c" for c
    using that assms(2,3,5) by (fastforce simp: backed_def matched_def list_ex_iff)
  ultimately show ?thesis using assms(1,4) by (simp add: canon_ok_def)
qed

lemma canon_ok_same:
  "canon_ok env db \<Longrightarrow> kb_events db' = kb_events db \<Longrightarrow> kb_legacy db' = kb_legacy db \<Longrightarrow> canon_ok env db'"
  by (rule canon_ok_mono[of env db db' "\<lambda>r. r"]) simp_all

lemma canon_ok_row:
  assumes "canon_ok env db" "content_sound env r" "tv_event_id r \<notin> tv_event_id ` set (kb_events db)"
  shows "canon_ok env (db\<lparr>kb_events := kb_events db @ [r]\<rparr>)"
  using assms by (auto simp: canon_ok_def backed_def)

lemma rows_of_snoc: "rows_of t (l\<lparr>cd_chain := cd_chain l @ [c]\<rparr>) = rows_of t l @ (if hc_tenant_id c = t then [c] else [])"
  by (simp add: rows_of_def)

lemma canon_ok_entry:
  assumes "canon_ok env db" "next_link (hc_tenant_id c) (kb_legacy db) = (hc_previous_chain_hash c, hc_sequence_num c)"
    and "hc_chain_hash c = Some (compute_chain_hash (cs_H (en_cte env)) (hc_event_hash c) (hc_previous_chain_hash c))" "backed db c"
  shows "canon_ok env (db\<lparr>kb_legacy := (kb_legacy db)\<lparr>cd_chain := cd_chain (kb_legacy db) @ [c]\<rparr>\<rparr>)"
proof -
  let ?db = "db\<lparr>kb_legacy := (kb_legacy db)\<lparr>cd_chain := cd_chain (kb_legacy db) @ [c]\<rparr>\<rparr>"
  have link: "linked (cs_H (en_cte env)) 1 None (rows_of t (kb_legacy db))" for t using assms(1) by (simp add: canon_ok_def)
  have "linked (cs_H (en_cte env)) 1 None (rows_of t (kb_legacy ?db))" for t
    using link[of t] assms(2,3) next_link_linked[OF link[of t]] linked_head[OF link[of t]]
    by (auto simp: rows_of_snoc linked_snoc)
  moreover have "backed ?db d" if "backed db d" for d using that by (simp add: backed_def matched_def)
  ultimately show ?thesis using assms(1,4) by (simp add: canon_ok_def)
qed

section \<open>Events that survive the columns\<close>

text \<open>
  What the store relies on of the server and of the driver: a \<open>jsonb\<close> column gives back key data with the same sorted dump and the text of
  the timestamp, and a timestamp with an offset survives \<open>isoformat\<close> and \<open>fromisoformat\<close>.
\<close>

definition columns_keep :: "store_env \<Rightarrow> TraceabilityEvent \<Rightarrow> bool" where
  "columns_keep env ev \<longleftrightarrow>
     (case kdes_object env (en_jsonb env (ce_json_plain (en_can env) (PDict (cv_kdes ev)))) of
        Inl _ \<Rightarrow> False | Inr k \<Rightarrow> ce_json_sorted (en_can env) (PDict k) = ce_json_sorted (en_can env) (PDict (cv_kdes ev))) \<and>
     (case en_jsonb env (ce_json_plain (en_can env) (PDict (cv_normalized_payload ev))) of
        PDict p \<Rightarrow> dict_get p ''event_timestamp'' PNone = dict_get (cv_normalized_payload ev) ''event_timestamp'' PNone | _ \<Rightarrow> False) \<and>
     (case cv_event_timestamp ev of
        Datetime w (Some off) \<Rightarrow> rt_fromisoformat (ce_rt (en_can env)) (event_iso (en_can env) (cv_event_timestamp ev)) = Inr (Datetime w (Some off))
      | _ \<Rightarrow> False)"

text \<open>An event that arrives without a hash, or with the hashes that \<^verbatim>\<open>prepare_for_persistence\<close> computes.\<close>

definition sealed_ok :: "can_env \<Rightarrow> TraceabilityEvent \<Rightarrow> bool" where
  "sealed_ok env ev \<longleftrightarrow>
     cv_sha256_hash ev = Some (compute_sha256_hash env ev) \<and> cv_normalized_payload ev = build_normalized_payload env ev \<and>
     cv_idempotency_key ev \<noteq> Some []"

definition honest :: "store_env \<Rightarrow> submission \<Rightarrow> bool" where
  "honest env sub \<longleftrightarrow> (case prepared env (sn_event sub) of Inl _ \<Rightarrow> True | Inr ev \<Rightarrow> sealed_ok (en_can env) ev \<and> columns_keep env ev)"

lemma params_fields:
  assumes "event_to_params env now sub ev chain = Inr row"
  shows "tv_event_id row = cv_event_id ev" "tv_tenant_id row = cv_tenant_id ev" "tv_idempotency_key row = cv_idempotency_key ev"
    "tv_sha256_hash row = str_or (cv_sha256_hash ev) []" "tv_chain_hash row = chain" "tv_status row = event_status_value (cv_status ev)"
    "tv_supersedes row = sn_supersedes sub"
  using assms by (auto simp: event_to_params_def Let_def split: if_splits)

lemma params_content_sound:
  assumes "event_to_params env now sub ev chain = Inr row" "sealed_ok (en_can env) ev" "columns_keep env ev"
  shows "content_sound env row"
proof -
  let ?c = "en_can env"
  obtain k where k: "kdes_object env (en_jsonb env (ce_json_plain ?c (PDict (cv_kdes ev)))) = Inr k"
      "ce_json_sorted ?c (PDict k) = ce_json_sorted ?c (PDict (cv_kdes ev))"
    using assms(3) by (auto simp: columns_keep_def split: sum.splits)
  obtain p where p: "en_jsonb env (ce_json_plain ?c (PDict (cv_normalized_payload ev))) = PDict p"
      "dict_get p ''event_timestamp'' PNone = PStr (event_iso ?c (cv_event_timestamp ev))"
    using assms(2,3) by (auto simp: columns_keep_def sealed_ok_def build_normalized_payload_def dict_get_def split: pyval.splits)
  obtain w off where d: "cv_event_timestamp ev = Datetime w (Some off)"
      "rt_fromisoformat (ce_rt ?c) (event_iso ?c (cv_event_timestamp ev)) = Inr (Datetime w (Some off))"
    using assms(3) by (auto simp: columns_keep_def split: pydatetime.splits option.splits)
  have hint: "timestamp_hint row = Some (event_iso ?c (cv_event_timestamp ev))"
    using assms(1) p by (auto simp: event_to_params_def Let_def timestamp_hint_def opt_text_def split: if_splits)
  have off: "original_offset env (timestamp_hint row) = off" using d(2) by (simp add: hint original_offset_def)
  have "kdes_object env (tv_kdes row) = Inr k" using assms(1) k(1) by (auto simp: event_to_params_def Let_def split: if_splits)
  moreover have "recompute_event_sha256 env (tv_event_id row) row k = compute_sha256_hash ?c ev"
    unfolding recompute_event_sha256_def row_text_def compute_sha256_hash_def Let_def off
    using assms(1) k(2) d(1) by (auto simp: event_to_params_def Let_def utc_instant_def split: if_splits)
  moreover have "tv_sha256_hash row = compute_sha256_hash ?c ev"
    using params_fields(4)[OF assms(1)] assms(2) by (simp add: sealed_ok_def str_or_def)
  ultimately show ?thesis by (simp add: content_sound_def)
qed

section \<open>Writes keep the invariant\<close>

lemma meter_fields [simp]: "kb_events (meter opt ev db) = kb_events db" "kb_legacy (meter opt ev db) = kb_legacy db" "kb_links (meter opt ev db) = kb_links db"
  by (simp_all add: meter_def increment_usage_for_event_def Let_def)

lemma for_each_keeps:
  assumes "\<And>x db db'. x \<in> set xs \<Longrightarrow> f x db = Inr db' \<Longrightarrow> P db \<Longrightarrow> P db'" "for_each f xs db = Inr db'" "P db"
  shows "P db'"
  using assms
proof (induction xs arbitrary: db)
  case (Cons x xs)
  from Cons.prems(2) obtain db1 where step: "f x db = Inr db1" "for_each f xs db1 = Inr db'" by (auto simp: and_then_eq_Inr_iff)
  have "P db1" using Cons.prems(1)[OF _ step(1) Cons.prems(3)] by simp
  from Cons.IH[OF _ step(2) this] Cons.prems(1) show ?case by (meson list.set_intros(2))
qed simp

definition same_but_links :: "canonical_db \<Rightarrow> canonical_db \<Rightarrow> bool" where
  "same_but_links a b \<longleftrightarrow> kb_events b = kb_events a \<and> kb_legacy b = kb_legacy a \<and> kb_ledger b = kb_ledger a \<and> kb_counters b = kb_counters a"

lemma add_link_fields: "add_link env ev ds x db = Inr db' \<Longrightarrow> same_but_links db db'"
  by (auto simp: add_link_def same_but_links_def split: pyval.splits sum.splits if_splits)

lemma links_fields:
  assumes "create_transformation_links env ev db = Inr db'"
  shows "kb_events db' = kb_events db" "kb_legacy db' = kb_legacy db" "kb_ledger db' = kb_ledger db" "kb_counters db' = kb_counters db"
proof -
  have each: "same_but_links db db'" if "for_each (add_link env ev ds) xs db = Inr db'" for ds xs
    by (rule for_each_keeps[OF _ that, where P = "same_but_links db"]) (use add_link_fields in \<open>fastforce simp: same_but_links_def\<close>)+
  have "same_but_links db db'"
    using assms each by (auto simp: create_transformation_links_def and_then_eq_Inr_iff same_but_links_def split: if_splits pyval.splits)
  then show "kb_events db' = kb_events db" "kb_legacy db' = kb_legacy db" "kb_ledger db' = kb_ledger db" "kb_counters db' = kb_counters db"
    by (simp_all add: same_but_links_def)
qed

lemma insert_legacy_kdes_fields:
  "insert_legacy_kdes ks l = Inr l' \<Longrightarrow> cd_chain l' = cd_chain l \<and> cd_events l' = cd_events l"
  by (induction ks arbitrary: l) (auto simp: insert_legacy_kde_def insert_kde_def and_then_eq_Inr_iff split: if_splits)

lemma dual_write_fields:
  assumes "dual_write_legacy env ev sha chain db = Inr db'"
  shows "kb_events db' = kb_events db" "cd_chain (kb_legacy db') = cd_chain (kb_legacy db)"
    "set (cd_events (kb_legacy db)) \<subseteq> set (cd_events (kb_legacy db'))" "kb_ledger db' = kb_ledger db" "kb_counters db' = kb_counters db"
  using assms insert_legacy_kdes_fields
  by (fastforce simp: dual_write_legacy_def insert_legacy_def and_then_eq_Inr_iff split: if_splits)+

lemma canon_ok_dual_write: "dual_write_legacy env ev sha chain db = Inr db' \<Longrightarrow> canon_ok env db \<Longrightarrow> canon_ok env db'"
  by (rule canon_ok_mono[of env db db' "\<lambda>r. r"]) (simp_all add: dual_write_fields)

lemma canon_ok_links: "create_transformation_links env ev db = Inr db' \<Longrightarrow> canon_ok env db \<Longrightarrow> canon_ok env db'"
  by (rule canon_ok_same[of env db]) (simp_all add: links_fields)

lemma canon_ok_meter: "canon_ok env db \<Longrightarrow> canon_ok env (meter opt ev db)"
  by (rule canon_ok_same[of env db]) simp_all

lemma content_sound_status:
  "content_sound env (r\<lparr>tv_status := s, tv_amended_at := a\<rparr>) = content_sound env r"
  by (simp add: content_sound_def recompute_event_sha256_def row_text_def timestamp_hint_def cong: sum.case_cong)

lemma mark_superseded_fields:
  assumes "mark_superseded now t e s db = Inr db'"
  obtains f where "kb_events db' = map f (kb_events db)" "kb_legacy db' = kb_legacy db" "kb_ledger db' = kb_ledger db" "kb_counters db' = kb_counters db"
    "\<And>r. tv_event_id (f r) = tv_event_id r \<and> tv_tenant_id (f r) = tv_tenant_id r \<and> tv_sha256_hash (f r) = tv_sha256_hash r \<and>
      content_sound env (f r) = content_sound env r"
proof (cases s)
  case None
  with assms show thesis by (intro that[of "\<lambda>r. r"]) (simp_all add: mark_superseded_def)
next
  case (Some x)
  let ?f = "\<lambda>r. if tv_event_id r = x \<and> tv_tenant_id r = t \<and> tv_status r = ''active'' then r\<lparr>tv_status := ''superseded'', tv_amended_at := Some now\<rparr> else r"
  from assms Some show thesis by (intro that[of ?f]) (auto simp: mark_superseded_def content_sound_status split: if_splits)
qed

lemma canon_ok_superseded:
  assumes "mark_superseded now t e s db = Inr db'" "canon_ok env db"
  shows "canon_ok env db'"
  using assms(1)
proof (rule mark_superseded_fields[of _ _ _ _ _ _ env])
  fix f assume "kb_events db' = map f (kb_events db)" "kb_legacy db' = kb_legacy db"
    "\<And>r. tv_event_id (f r) = tv_event_id r \<and> tv_tenant_id (f r) = tv_tenant_id r \<and> tv_sha256_hash (f r) = tv_sha256_hash r \<and>
      content_sound env (f r) = content_sound env r"
  then show ?thesis by (intro canon_ok_mono[OF assms(2), of db' f]) simp_all
qed

text \<open>The insert of a new row.\<close>

lemma insert_row_Inr:
  assumes "insert_canonical_row r db = Inr (db', landed)"
  shows "if landed then db' = db\<lparr>kb_events := kb_events db @ [r]\<rparr> \<and> tv_event_id r \<notin> tv_event_id ` set (kb_events db)
    else db' = db \<and> (\<exists>k. tv_idempotency_key r = Some k \<and> stored_row (tv_tenant_id r) k db \<noteq> None)"
  using assms by (auto simp: insert_canonical_row_def split: if_splits option.splits)

lemma insert_event_Inr_row:
  assumes "insert_canonical_event r db = Inr (db', landed)"
  shows "insert_canonical_row r db = Inr (db', landed)"
  using assms by (auto simp: insert_canonical_event_def and_then_eq_Inr_iff split: if_splits)

lemma row_insert_ok:
  assumes "insert_canonical_row r db = Inr (db', True)" "canon_ok env db" "content_sound env r"
  shows "canon_ok env db' \<and> kb_legacy db' = kb_legacy db \<and> r \<in> set (kb_events db')"
  using insert_row_Inr[OF assms(1)] canon_ok_row[OF assms(2,3)] by simp

text \<open>What follows the insert, for an event whose row is there.\<close>

lemma complete_write_ok:
  assumes "complete_write env opt now sub ev seq sha previous chain computed db = Inr (db', res)" "canon_ok env db"
    and "next_link (cv_tenant_id ev) (kb_legacy db) = (previous, seq)" "computed = compute_chain_hash (cs_H (en_cte env)) sha previous"
    and "row \<in> set (kb_events db)" "tv_event_id row = cv_event_id ev" "tv_tenant_id row = cv_tenant_id ev" "tv_sha256_hash row = sha"
  shows "canon_ok env db'"
proof -
  let ?c = "chain_entry ev seq sha previous computed"
  from assms(1) obtain db1 db2 db3 where steps:
    "mark_superseded now (cv_tenant_id ev) (cv_event_id ev) (sn_supersedes sub) (meter opt ev db) = Inr db1"
    "(if wo_skip_chain_write opt then Inr db1 else insert_chain_entry ?c db1) = Inr db2"
    "(if wo_dual_write opt then dual_write_legacy env ev sha chain db2 else Inr db2) = Inr db3"
    "create_transformation_links env ev db3 = Inr db'"
    unfolding complete_write_def and_then_eq_Inr_iff by blast
  obtain f where f: "kb_events db1 = map f (kb_events db)" "kb_legacy db1 = kb_legacy db"
      "\<And>r. tv_event_id (f r) = tv_event_id r \<and> tv_tenant_id (f r) = tv_tenant_id r \<and> tv_sha256_hash (f r) = tv_sha256_hash r \<and>
        content_sound env (f r) = content_sound env r"
    using mark_superseded_fields[OF steps(1), of env] by auto
  have ok1: "canon_ok env db1" by (rule canon_ok_superseded[OF steps(1) canon_ok_meter[OF assms(2)]])
  have "backed db1 ?c" using assms(5-8) f by (auto simp: backed_def chain_entry_def)
  then have entry: "canon_ok env (db1\<lparr>kb_legacy := (kb_legacy db1)\<lparr>cd_chain := cd_chain (kb_legacy db1) @ [?c]\<rparr>\<rparr>)"
    using assms(3,4) f(2) by (intro canon_ok_entry[OF ok1]) (simp_all add: chain_entry_def)
  then have "canon_ok env db2" using steps(2) ok1 by (auto simp: insert_chain_entry_def add_chain_entry_def split: if_splits)
  then have "canon_ok env db3" using steps(3) canon_ok_dual_write by (auto split: if_splits)
  then show ?thesis by (rule canon_ok_links[OF steps(4)])
qed

text \<open>A call that returns replays a stored event or writes a new row and completes it.\<close>

lemma write_new_cases:
  assumes "write_new env opt now sub ev db = Inr (db', res)" "cv_idempotency_key ev \<noteq> Some []"
  obtains (replay) r where "db' = db" "res = replay_answer r"
  | (new) row chain previous seq db1 where "next_link (cv_tenant_id ev) (kb_legacy db) = (previous, seq)" "event_to_params env now sub ev chain = Inr row"
      "insert_canonical_event row db = Inr (db1, True)"
      "complete_write env opt now sub ev seq (str_or (cv_sha256_hash ev) []) previous chain
         (compute_chain_hash (cs_H (en_cte env)) (str_or (cv_sha256_hash ev) []) previous) db1 = Inr (db', res)"
proof -
  let ?t = "cv_tenant_id ev" and ?sha = "str_or (cv_sha256_hash ev) []" and ?key = "str_or (cv_idempotency_key ev) []"
  obtain previous seq where nl: "next_link ?t (kb_legacy db) = (previous, seq)" by fastforce
  let ?h = "compute_chain_hash (cs_H (en_cte env)) ?sha previous"
  from assms(1) obtain chain row z where pre: "event_to_params env now sub ev chain = Inr row" "insert_canonical_event row db = Inr z"
    "(case z of (db1, landed) \<Rightarrow> case (if landed \<or> ?key = [] then None else stored_row ?t ?key db1) of Some r \<Rightarrow> Inr (db1, replay_answer r)
      | None \<Rightarrow> complete_write env opt now sub ev seq ?sha previous chain ?h db1) = Inr (db', res)"
    unfolding write_new_def Let_def nl prod.case and_then_eq_Inr_iff by blast
  obtain db1 landed where z: "z = (db1, landed)" by fastforce
  show thesis
  proof (cases landed)
    case True
    with pre nl z show thesis by (intro new[of previous seq chain row db1]) simp_all
  next
    case False
    have "insert_canonical_row row db = Inr (db1, landed)" by (rule insert_event_Inr_row) (use pre(2) z in simp)
    then obtain k where k: "db1 = db" "cv_idempotency_key ev = Some k" "stored_row ?t k db \<noteq> None"
      using insert_row_Inr[of row db db1 landed] params_fields[OF pre(1)] False by auto
    then obtain r where "stored_row ?t ?key db = Some r" "?key \<noteq> []" using assms(2) by (auto simp: str_or_def)
    with pre(3) z False k(1) show thesis by (intro replay[of r]) simp_all
  qed
qed

lemma persist_event_cases:
  assumes "persist_event env opt now sub db = Inr (db', res)" "honest env sub"
  obtains (replay) r where "db' = db" "res = replay_answer r"
  | (new) ev row chain previous seq db1 where "prepared env (sn_event sub) = Inr ev" "sealed_ok (en_can env) ev" "columns_keep env ev"
      "next_link (cv_tenant_id ev) (kb_legacy db) = (previous, seq)" "event_to_params env now sub ev chain = Inr row"
      "insert_canonical_event row db = Inr (db1, True)"
      "complete_write env opt now sub ev seq (str_or (cv_sha256_hash ev) []) previous chain
         (compute_chain_hash (cs_H (en_cte env)) (str_or (cv_sha256_hash ev) []) previous) db1 = Inr (db', res)"
proof -
  obtain ev where ev: "prepared env (sn_event sub) = Inr ev"
    and r: "(case (if str_or (cv_idempotency_key ev) [] = [] then None else stored_row (cv_tenant_id ev) (str_or (cv_idempotency_key ev) []) db) of
       Some r \<Rightarrow> Inr (db, replay_answer r) | None \<Rightarrow> write_new env opt now sub ev db) = Inr (db', res)"
    using assms(1) unfolding persist_event_def and_then_eq_Inr_iff Let_def by blast
  have ok: "sealed_ok (en_can env) ev" "columns_keep env ev" using assms(2) ev by (simp_all add: honest_def)
  consider r where "db' = db" "res = replay_answer r" | "write_new env opt now sub ev db = Inr (db', res)"
    using r by (auto split: option.splits if_splits)
  then show thesis
  proof cases
    case 2
    have "cv_idempotency_key ev \<noteq> Some []" using ok(1) by (simp add: sealed_ok_def)
    with 2 show thesis
    proof (cases rule: write_new_cases)
      case (new row chain previous seq db1)
      then show thesis by (rule that(2)[OF ev ok])
    qed (rule that(1))
  qed (rule that(1))
qed

lemma persist_event_ok:
  assumes "persist_event env opt now sub db = Inr (db', res)" "honest env sub" "canon_ok env db"
  shows "canon_ok env db'"
  using assms(1,2)
proof (cases rule: persist_event_cases)
  case (new ev row chain previous seq db1)
  note row = row_insert_ok[OF insert_event_Inr_row[OF new(6)] assms(3) params_content_sound[OF new(5,2,3)]]
  from complete_write_ok[OF new(7)] row new(4) params_fields[OF new(5)] show ?thesis by auto
qed (use assms(3) in simp)

section \<open>Batches keep the invariant\<close>

definition nonempty_keys :: "string option list \<Rightarrow> string list" where
  "nonempty_keys ks = filter (\<lambda>k. k \<noteq> []) (map (\<lambda>k. str_or k []) ks)"

lemma nonempty_keys_simps [simp]:
  "nonempty_keys [] = []" "nonempty_keys (k # ks) = (if str_or k [] = [] then nonempty_keys ks else str_or k [] # nonempty_keys ks)"
  "nonempty_keys (ks @ ls) = nonempty_keys ks @ nonempty_keys ls"
  by (simp_all add: nonempty_keys_def)

lemma plan_batch_Cons_cases:
  assumes "plan_batch H known previous seq ((sub, ev) # zs) = (rs, new)"
  obtains (known) r rs' where "str_or (cv_idempotency_key ev) [] \<noteq> []" "plan_batch H known previous seq zs = (rs', new)" "rs = known_answer r # rs'"
  | (fresh) known' rs' new' chain where "chain = compute_chain_hash H (str_or (cv_sha256_hash ev) []) previous"
      "plan_batch H known' (Some chain) (seq + 1) zs = (rs', new')"
      "new = (sub, ev, chain_entry ev seq (str_or (cv_sha256_hash ev) []) previous chain) # new'"
      "rs = new_result ev (str_or (cv_sha256_hash ev) []) chain # rs'"
      "known' = (if str_or (cv_idempotency_key ev) [] = [] then known
         else put (str_or (cv_idempotency_key ev) []) (cv_event_id ev, str_or (cv_sha256_hash ev) [], Some chain) known)"
      "str_or (cv_idempotency_key ev) [] = [] \<or> str_or (cv_idempotency_key ev) [] \<notin> fst ` set known"
proof (cases "if str_or (cv_idempotency_key ev) [] = [] then None else map_of known (str_or (cv_idempotency_key ev) [])")
  case None
  let ?key = "str_or (cv_idempotency_key ev) []" and ?sha = "str_or (cv_sha256_hash ev) []"
  let ?chain = "compute_chain_hash H ?sha previous"
  let ?known = "if ?key = [] then known else put ?key (cv_event_id ev, ?sha, Some ?chain) known"
  obtain rs' new' where rest: "plan_batch H ?known (Some ?chain) (seq + 1) zs = (rs', new')" by fastforce
  have "?key = [] \<or> ?key \<notin> fst ` set known" using None by (auto simp: map_of_eq_None_iff split: if_splits)
  moreover have "(rs, new) = (new_result ev ?sha ?chain # rs', (sub, ev, chain_entry ev seq ?sha previous ?chain) # new')"
    using assms unfolding plan_batch.simps Let_def None option.case rest prod.case by (rule sym)
  ultimately show thesis by (intro fresh[OF refl rest]) simp_all
next
  case (Some r)
  obtain rs' new' where rest: "plan_batch H known previous seq zs = (rs', new')" by fastforce
  have "(rs, new) = (known_answer r # rs', new')" using assms unfolding plan_batch.simps Let_def Some option.case rest prod.case by (rule sym)
  then show thesis using rest Some by (intro known[of rs' r]) (auto split: if_splits)
qed

lemma plan_new:
  assumes "plan_batch H known previous seq zs = (rs, new)" "(sub, ev, c) \<in> set new"
  shows "(sub, ev) \<in> set zs \<and> hc_cte_event_id c = cv_event_id ev \<and> hc_tenant_id c = cv_tenant_id ev \<and> hc_event_hash c = str_or (cv_sha256_hash ev) []"
  using assms
proof (induction zs arbitrary: known previous seq rs new)
  case (Cons z zs)
  obtain s e where z: "z = (s, e)" by fastforce
  from Cons.prems(1)[unfolded z] show ?case
  proof (cases rule: plan_batch_Cons_cases)
    case (known r rs')
    from Cons.IH[OF known(2) Cons.prems(2)] show ?thesis by simp
  next
    case (fresh known' rs' new' chain)
    from Cons.prems(2) have "(sub, ev, c) \<in> set new' \<or> sub = s \<and> ev = e \<and> c = chain_entry e seq (str_or (cv_sha256_hash e) []) previous chain"
      by (auto simp: fresh(3))
    with Cons.IH[OF fresh(2)] show ?thesis by (auto simp: z chain_entry_def)
  qed
qed simp

lemma plan_linked:
  "plan_batch H known previous seq zs = (rs, new) \<Longrightarrow> linked H seq previous (map (\<lambda>(_, _, c). c) new)"
proof (induction zs arbitrary: known previous seq rs new)
  case (Cons z zs)
  obtain s e where z: "z = (s, e)" by fastforce
  from Cons.prems[unfolded z] show ?case
  proof (cases rule: plan_batch_Cons_cases)
    case (known r rs')
    from Cons.IH[OF known(2)] show ?thesis .
  next
    case (fresh known' rs' new' chain)
    from Cons.IH[OF fresh(2)] show ?thesis by (simp add: fresh(1,3) chain_entry_def)
  qed
qed simp

lemma plan_keys:
  assumes "plan_batch H known previous seq zs = (rs, new)"
  shows "distinct (nonempty_keys (map (\<lambda>(_, ev, _). cv_idempotency_key ev) new)) \<and>
    set (nonempty_keys (map (\<lambda>(_, ev, _). cv_idempotency_key ev) new)) \<inter> fst ` set known = {}"
  using assms
proof (induction zs arbitrary: known previous seq rs new)
  case (Cons z zs)
  obtain s e where z: "z = (s, e)" by fastforce
  from Cons.prems[unfolded z] show ?case
  proof (cases rule: plan_batch_Cons_cases)
    case (known r rs')
    from Cons.IH[OF known(2)] show ?thesis .
  next
    case (fresh known' rs' new' chain)
    from Cons.IH[OF fresh(2)] fresh(6) show ?thesis by (auto simp: fresh(3,5) split: if_splits)
  qed
qed simp

lemma concat_chunked: "0 < n \<Longrightarrow> concat (chunked n xs) = xs"
  by (induction n xs rule: chunked.induct) (subst chunked.simps, auto)

text \<open>Rows whose keys are new all land.\<close>

lemma stored_row_None: "stored_row t k db = None \<longleftrightarrow> (\<forall>r \<in> set (kb_events db). \<not> (tv_idempotency_key r = Some k \<and> tv_tenant_id r = t))"
  by (auto simp: stored_row_def find_None_iff)

lemma insert_rows_all:
  assumes "insert_rows rs db = Inr (db', ins)" "\<forall>r \<in> set rs. tv_tenant_id r = t \<and> tv_idempotency_key r \<noteq> Some []"
    and "distinct (nonempty_keys (map tv_idempotency_key rs))" "\<forall>k \<in> set (nonempty_keys (map tv_idempotency_key rs)). stored_row t k db = None"
    and "canon_ok env db" "\<forall>r \<in> set rs. content_sound env r"
  shows "ins = rs \<and> kb_events db' = kb_events db @ rs \<and> kb_legacy db' = kb_legacy db \<and> canon_ok env db'"
  using assms
proof (induction rs arbitrary: db ins)
  case (Cons r rs)
  from Cons.prems(1) obtain db1 landed ins' where steps: "insert_canonical_row r db = Inr (db1, landed)" "insert_rows rs db1 = Inr (db', ins')"
    "ins = (if landed then r # ins' else ins')" by (auto simp: and_then_eq_Inr_iff)
  have landed
  proof (rule ccontr)
    assume "\<not> landed"
    then obtain k where k: "tv_idempotency_key r = Some k" "stored_row t k db \<noteq> None" using insert_row_Inr[OF steps(1)] Cons.prems(2) by auto
    then have "k \<noteq> []" using Cons.prems(2) by auto
    then show False using Cons.prems(4) k by (simp add: str_or_def)
  qed
  then have db1: "db1 = db\<lparr>kb_events := kb_events db @ [r]\<rparr>" "canon_ok env db1"
    using insert_row_Inr[OF steps(1)] row_insert_ok[of r db db1 env] steps(1) Cons.prems(5,6) by simp_all
  have "stored_row t k db1 = None" if k: "k \<in> set (nonempty_keys (map tv_idempotency_key rs))" for k
  proof -
    have "k \<noteq> []" using k by (auto simp: nonempty_keys_def)
    then have "tv_idempotency_key r \<noteq> Some k" using Cons.prems(3) k by (auto simp: str_or_def)
    moreover have "stored_row t k db = None" using Cons.prems(4) k by auto
    ultimately show ?thesis by (auto simp: stored_row_None db1(1))
  qed
  from Cons.IH[OF steps(2) _ _ _ db1(2)] this Cons.prems(2,3,6)
  have "ins' = rs \<and> kb_events db' = kb_events db1 @ rs \<and> kb_legacy db' = kb_legacy db1 \<and> canon_ok env db'" by (auto split: if_splits)
  then show ?case using steps(3) \<open>landed\<close> by (simp add: db1(1))
qed simp

lemma map_err_all2: "map_err f xs = Inr ys \<Longrightarrow> list_all2 (\<lambda>x y. f x = Inr y) xs ys"
  by (induction xs arbitrary: ys) (auto simp: and_then_eq_Inr_iff)

text \<open>The rows of the planned events.\<close>

definition planned_rows :: "store_env \<Rightarrow> int \<Rightarrow> (submission \<times> TraceabilityEvent \<times> ChainEntry) list \<Rightarrow> canonical_row list \<Rightarrow> bool" where
  "planned_rows env now items rows \<longleftrightarrow> list_all2 (\<lambda>(sub, ev, c) row. event_to_params env now sub ev (hc_chain_hash c) = Inr row) items rows"

lemma planned_rows_Cons:
  "planned_rows env now ((sub, ev, c) # items) rows \<longleftrightarrow>
     (\<exists>r rs. rows = r # rs \<and> event_to_params env now sub ev (hc_chain_hash c) = Inr r \<and> planned_rows env now items rs)"
  by (auto simp: planned_rows_def list_all2_Cons1)

lemma planned_rows_fields:
  assumes "planned_rows env now items rows"
  shows "map tv_event_id rows = map (\<lambda>(_, ev, _). cv_event_id ev) items \<and>
    map tv_idempotency_key rows = map (\<lambda>(_, ev, _). cv_idempotency_key ev) items"
  using assms
proof (induction items arbitrary: rows)
  case (Cons z items)
  obtain sub ev c where z: "z = (sub, ev, c)" using prod_cases3 by blast
  then show ?case using Cons by (auto simp: planned_rows_Cons params_fields)
qed (simp add: planned_rows_def)

lemma planned_rows_mem:
  assumes "planned_rows env now items rows" "r \<in> set rows"
  obtains sub ev c where "(sub, ev, c) \<in> set items" "event_to_params env now sub ev (hc_chain_hash c) = Inr r"
proof -
  obtain i where i: "i < length rows" "r = rows ! i" using assms(2) by (metis in_set_conv_nth)
  obtain sub ev c where z: "items ! i = (sub, ev, c)" using prod_cases3 by blast
  have "i < length items" using assms(1) i(1) by (simp add: planned_rows_def list_all2_lengthD)
  moreover from this have "event_to_params env now sub ev (hc_chain_hash c) = Inr r"
    using assms(1) i z by (auto simp: planned_rows_def list_all2_conv_all_nth)
  ultimately show thesis using z by (intro that[of sub ev c]) (metis nth_mem)+
qed

text \<open>What makes the items of one tenant good.\<close>

definition good_items :: "store_env \<Rightarrow> string \<Rightarrow> (submission \<times> TraceabilityEvent \<times> ChainEntry) list \<Rightarrow> bool" where
  "good_items env t items \<longleftrightarrow>
     (\<forall>(sub, ev, c) \<in> set items. cv_tenant_id ev = t \<and> sealed_ok (en_can env) ev \<and> columns_keep env ev)"

definition free_keys :: "string \<Rightarrow> (submission \<times> TraceabilityEvent \<times> ChainEntry) list \<Rightarrow> canonical_db \<Rightarrow> bool" where
  "free_keys t items db \<longleftrightarrow>
     (let ks = nonempty_keys (map (\<lambda>(_, ev, _). cv_idempotency_key ev) items) in distinct ks \<and> (\<forall>k \<in> set ks. stored_row t k db = None))"

lemma planned_rows_good:
  assumes "planned_rows env now items rows" "good_items env t items" "r \<in> set rows"
  shows "tv_tenant_id r = t \<and> tv_idempotency_key r \<noteq> Some [] \<and> content_sound env r"
  using assms(1,3)
proof (rule planned_rows_mem)
  fix sub ev c assume i: "(sub, ev, c) \<in> set items" and p: "event_to_params env now sub ev (hc_chain_hash c) = Inr r"
  have g: "cv_tenant_id ev = t" "sealed_ok (en_can env) ev" "columns_keep env ev" using assms(2) i by (auto simp: good_items_def)
  then show ?thesis using params_content_sound[OF p g(2,3)] params_fields[OF p] by (simp add: sealed_ok_def)
qed

lemma batch_insert_all:
  assumes "batch_insert_canonical_events env now items db = Inr (db', ids)" "good_items env t items" "free_keys t items db" "canon_ok env db"
  shows "\<exists>rows. planned_rows env now items rows \<and> kb_events db' = kb_events db @ rows \<and> ids = map tv_event_id rows \<and>
    kb_legacy db' = kb_legacy db \<and> canon_ok env db'"
proof -
  obtain rows z where pre: "map_err (\<lambda>(sub, ev, c). event_to_params env now sub ev (hc_chain_hash c)) items = Inr rows"
    "insert_rows rows db = Inr z" "(case z of (db1, inserted) \<Rightarrow> if list_all (references_ok db1) inserted then Inr (db1, map tv_event_id inserted)
      else Inl integrity_error) = Inr (db', ids)"
    using assms(1) unfolding batch_insert_canonical_events_def and_then_eq_Inr_iff by blast
  obtain db1 ins where "z = (db1, ins)" by fastforce
  with pre have ins: "insert_rows rows db = Inr (db', ins)" "ids = map tv_event_id ins" by (auto split: if_splits)
  have rows: "planned_rows env now items rows"
    using map_err_all2[OF pre(1)] by (auto simp: planned_rows_def elim!: list_all2_mono split: prod.splits)
  note good = planned_rows_good[OF rows assms(2)] and fields = planned_rows_fields[OF rows]
  have "ins = rows \<and> kb_events db' = kb_events db @ rows \<and> kb_legacy db' = kb_legacy db \<and> canon_ok env db'"
    by (rule insert_rows_all[OF ins(1) _ _ _ assms(4), of t]) (use good fields assms(3) in \<open>auto simp: free_keys_def Let_def\<close>)
  with rows ins(2) show ?thesis by blast
qed

lemma free_keys_rest:
  assumes "free_keys t (xs @ ys) db" "planned_rows env now xs rows" "kb_events db' = kb_events db @ rows"
  shows "free_keys t xs db \<and> free_keys t ys db'"
proof -
  note d = assms(1)[unfolded free_keys_def Let_def map_append nonempty_keys_simps(3) distinct_append set_append]
  have "stored_row t k db' = None" if k: "k \<in> set (nonempty_keys (map (\<lambda>(_, ev, _). cv_idempotency_key ev) ys))" for k
  proof -
    have "k \<noteq> []" using k by (auto simp: nonempty_keys_def)
    then have "k \<in> set (nonempty_keys (map tv_idempotency_key rows))" if "r \<in> set rows" "tv_idempotency_key r = Some k" for r
      using that by (force simp: nonempty_keys_def str_or_def)
    then have "tv_idempotency_key r \<noteq> Some k" if "r \<in> set rows" for r
      using that d k planned_rows_fields[OF assms(2)] by auto
    moreover have "stored_row t k db = None" using d k by blast
    ultimately show ?thesis by (auto simp: stored_row_None assms(3))
  qed
  then show ?thesis using d by (simp add: free_keys_def Let_def)
qed

lemma insert_chunks_all:
  assumes "insert_chunks env now css db = Inr (db', ids)" "good_items env t (concat css)" "free_keys t (concat css) db" "canon_ok env db"
  shows "\<exists>rows. planned_rows env now (concat css) rows \<and> kb_events db' = kb_events db @ rows \<and> ids = map tv_event_id rows \<and>
    kb_legacy db' = kb_legacy db \<and> canon_ok env db'"
  using assms
proof (induction css arbitrary: db ids)
  case (Cons items css)
  from Cons.prems(1) obtain db1 ids1 ids2 where steps: "batch_insert_canonical_events env now items db = Inr (db1, ids1)"
    "insert_chunks env now css db1 = Inr (db', ids2)" "ids = ids1 @ ids2" by (auto simp: and_then_eq_Inr_iff)
  have good: "good_items env t items" "good_items env t (concat css)" using Cons.prems(2) by (auto simp: good_items_def)
  have free: "free_keys t items db" using Cons.prems(3) by (simp add: free_keys_def Let_def)
  obtain rows1 where r1: "planned_rows env now items rows1" "kb_events db1 = kb_events db @ rows1" "ids1 = map tv_event_id rows1"
      "kb_legacy db1 = kb_legacy db" "canon_ok env db1" using batch_insert_all[OF steps(1) good(1) free Cons.prems(4)] by blast
  have "free_keys t (concat css) db1" using free_keys_rest[OF _ r1(1,2)] Cons.prems(3) by simp
  from Cons.IH[OF steps(2) good(2) this r1(5)] obtain rows2 where r2: "planned_rows env now (concat css) rows2" "kb_events db' = kb_events db1 @ rows2"
      "ids2 = map tv_event_id rows2" "kb_legacy db' = kb_legacy db1" "canon_ok env db'" by blast
  have "planned_rows env now (concat (items # css)) (rows1 @ rows2)" using r1(1) r2(1) by (simp add: planned_rows_def list_all2_appendI)
  then show ?case using r1 r2 steps(3) by (intro exI[of _ "rows1 @ rows2"]) simp
qed (simp add: planned_rows_def)

text \<open>The entries of the plan continue the chain.\<close>

lemma next_link_snoc:
  assumes "canon_ok env db" "canon_ok env db'" "rows_of t (kb_legacy db') = rows_of t (kb_legacy db) @ [c]"
  shows "next_link t (kb_legacy db') = (hc_chain_hash c, hc_sequence_num c + 1)"
proof -
  have link: "linked (cs_H (en_cte env)) 1 None (rows_of t (kb_legacy db))" "linked (cs_H (en_cte env)) 1 None (rows_of t (kb_legacy db'))"
    using assms(1,2) by (simp_all add: canon_ok_def)
  show ?thesis using next_link_linked[OF link(2)] linked_head[OF link(2)] linked_last_seq[OF link(2)] by (simp add: assms(3))
qed

lemma add_chain_entry_Inr:
  "add_chain_entry c db = Inr db' \<Longrightarrow> db' = db\<lparr>kb_legacy := (kb_legacy db)\<lparr>cd_chain := cd_chain (kb_legacy db) @ [c]\<rparr>\<rparr>"
  by (auto simp: add_chain_entry_def split: if_splits)

lemma add_entries_ok:
  assumes "for_each (\<lambda>(_, _, c). add_chain_entry c) items db = Inr db'" "canon_ok env db" "next_link t (kb_legacy db) = (previous, seq)"
    and "linked (cs_H (en_cte env)) seq previous (map (\<lambda>(_, _, c). c) items)" "\<forall>(_, _, c) \<in> set items. hc_tenant_id c = t \<and> backed db c"
  shows "canon_ok env db'"
  using assms
proof (induction items arbitrary: db previous seq)
  case (Cons z items)
  obtain sub ev c where z: "z = (sub, ev, c)" using prod_cases3 by blast
  let ?db = "db\<lparr>kb_legacy := (kb_legacy db)\<lparr>cd_chain := cd_chain (kb_legacy db) @ [c]\<rparr>\<rparr>"
  have rest: "for_each (\<lambda>(_, _, c). add_chain_entry c) items ?db = Inr db'"
    using Cons.prems(1) by (auto simp: z and_then_eq_Inr_iff dest: add_chain_entry_Inr)
  have c: "hc_tenant_id c = t" "backed db c" "hc_sequence_num c = seq" "hc_previous_chain_hash c = previous"
    "hc_chain_hash c = Some (compute_chain_hash (cs_H (en_cte env)) (hc_event_hash c) previous)" using Cons.prems(4,5) by (auto simp: z)
  have ok: "canon_ok env ?db" using c Cons.prems(3) by (intro canon_ok_entry[OF Cons.prems(2)]) simp_all
  have "next_link t (kb_legacy ?db) = (hc_chain_hash c, seq + 1)"
    using next_link_snoc[OF Cons.prems(2) ok, of t c] c by (simp add: rows_of_snoc)
  moreover have "\<forall>(_, _, d) \<in> set items. hc_tenant_id d = t \<and> backed ?db d" using Cons.prems(5) by (auto simp: z backed_def matched_def)
  ultimately show ?case using Cons.IH[OF rest ok, of "hc_chain_hash c" "seq + 1"] Cons.prems(4) c(3) by (auto simp: z)
qed simp

lemma stored_keys_mem:
  assumes "r \<in> set (kb_events db)" "tv_tenant_id r = t" "tv_idempotency_key r = Some k" "k \<noteq> []" "e \<in> set evs" "cv_idempotency_key e = Some k"
  shows "k \<in> fst ` set (stored_keys t evs db)"
proof -
  have "(k, tv_event_id r, tv_sha256_hash r, tv_chain_hash r) \<in> set (stored_keys t evs db)"
    using assms by (force simp: stored_keys_def Let_def str_or_def)
  then show ?thesis by force
qed

lemma plan_free_keys:
  assumes "plan_batch H (stored_keys t evs db) previous seq (zip subs evs) = (rs, new)"
  shows "free_keys t new db"
proof -
  let ?ks = "nonempty_keys (map (\<lambda>(_, ev, _). cv_idempotency_key ev) new)"
  note keys = plan_keys[OF assms]
  have "stored_row t k db = None" if k: "k \<in> set ?ks" for k
  proof -
    obtain sub ev c where z: "(sub, ev, c) \<in> set new" "k = str_or (cv_idempotency_key ev) []" "k \<noteq> []" using k by (auto simp: nonempty_keys_def)
    then have "ev \<in> set evs" "cv_idempotency_key ev = Some k"
      using plan_new[OF assms z(1)] by (auto simp: str_or_def dest: set_zip_rightD split: option.splits if_splits)
    then have "tv_idempotency_key r \<noteq> Some k" if "r \<in> set (kb_events db)" "tv_tenant_id r = t" for r
      using stored_keys_mem[OF that _ z(3), of ev evs] keys k by blast
    then show ?thesis by (auto simp: stored_row_None)
  qed
  with keys show ?thesis by (simp add: free_keys_def Let_def)
qed

text \<open>Nothing of a batch is lost under the tenant's lock, and the answers are those of the plan.\<close>

lemma write_batch_steps:
  assumes "write_batch env opt now t subs evs db = Inr (db', res)" "canon_ok env db"
    and "\<forall>ev \<in> set evs. cv_tenant_id ev = t \<and> sealed_ok (en_can env) ev \<and> columns_keep env ev"
  obtains previous seq new rows db1 db2 db3 db4 where
    "next_link t (kb_legacy db) = (previous, seq)"
    "plan_batch (cs_H (en_cte env)) (stored_keys t evs db) previous seq (zip subs evs) = (res, new)" "good_items env t new"
    "planned_rows env now new rows" "kb_events db1 = kb_events db @ rows" "kb_legacy db1 = kb_legacy db" "canon_ok env db1"
    "insert_chunks env now (chunked 50 new) db = Inr (db1, map tv_event_id rows)"
    "for_each (\<lambda>(_, _, c). add_chain_entry c) new db1 = Inr db2" "for_each (\<lambda>(_, ev, _). create_transformation_links env ev) new db2 = Inr db3"
    "for_each (\<lambda>(_, ev, _) db. Inr (meter opt ev db)) new db3 = Inr db4"
    "(if wo_dual_write opt then for_each (\<lambda>(_, ev, c). dual_write_legacy env ev (hc_event_hash c) (hc_chain_hash c)) new db4 else Inr db4) = Inr db'"
proof -
  obtain previous seq where nl: "next_link t (kb_legacy db) = (previous, seq)" by fastforce
  obtain results new where plan: "plan_batch (cs_H (en_cte env)) (stored_keys t evs db) previous seq (zip subs evs) = (results, new)" by fastforce
  have good: "good_items env t new" using plan_new[OF plan] assms(3) by (auto simp: good_items_def dest!: set_zip_rightD)
  have chunks: "concat (chunked 50 new) = new" by (simp add: concat_chunked)
  obtain z where z: "insert_chunks env now (chunked 50 new) db = Inr z"
    using assms(1) unfolding write_batch_def Let_def nl plan prod.case and_then_eq_Inr_iff by blast
  obtain db1 ids where zz: "z = (db1, ids)" by fastforce
  have "free_keys t (concat (chunked 50 new)) db" "good_items env t (concat (chunked 50 new))" using plan_free_keys[OF plan] good by (simp_all add: chunks)
  from insert_chunks_all[OF z[unfolded zz] this(2,1) assms(2)] obtain rows where rows: "planned_rows env now new rows" "kb_events db1 = kb_events db @ rows"
    "ids = map tv_event_id rows" "kb_legacy db1 = kb_legacy db" "canon_ok env db1" by (auto simp: chunks)
  have ids: "ids = map (\<lambda>(_, ev, _). cv_event_id ev) new" using planned_rows_fields[OF rows(1)] rows(3) by simp
  have landed: "filter (\<lambda>(_, ev, _). cv_event_id ev \<in> set ids) new = new" "filter (\<lambda>(_, ev, _). cv_event_id ev \<notin> set ids) new = []"
    by (force simp: ids filter_id_conv filter_empty_conv)+
  from assms(1) obtain db2 db3 db4 where steps: "for_each (\<lambda>(_, _, c). add_chain_entry c) new db1 = Inr db2"
    "for_each (\<lambda>(_, ev, _). create_transformation_links env ev) new db2 = Inr db3"
    "for_each (\<lambda>(_, ev, _) db. Inr (meter opt ev db)) new db3 = Inr db4"
    "(if wo_dual_write opt then for_each (\<lambda>(_, ev, c). dual_write_legacy env ev (hc_event_hash c) (hc_chain_hash c)) new db4 else Inr db4) = Inr db'"
    "res = results"
    unfolding write_batch_def Let_def nl plan prod.case z zz and_then_Inr landed
    by (auto simp: and_then_eq_Inr_iff)
  show thesis using plan good rows z steps by (intro that[OF nl, of new rows db1 db2 db3 db4]) (simp_all add: zz)
qed

lemma for_each_cases: "for_each (\<lambda>(_, ev, c). f ev c) items db = Inr db' \<Longrightarrow> (\<And>ev c db db'. f ev c db = Inr db' \<Longrightarrow> P db \<Longrightarrow> P db') \<Longrightarrow> P db \<Longrightarrow> P db'"
  by (rule for_each_keeps[of items "\<lambda>(_, ev, c). f ev c" P db db']) auto

lemma write_batch_ok:
  assumes "write_batch env opt now t subs evs db = Inr (db', res)" "canon_ok env db"
    and "\<forall>ev \<in> set evs. cv_tenant_id ev = t \<and> sealed_ok (en_can env) ev \<and> columns_keep env ev"
  shows "canon_ok env db'"
  using assms
proof (rule write_batch_steps)
  fix previous seq new rows db1 db2 db3 db4
  assume nl: "next_link t (kb_legacy db) = (previous, seq)"
    and plan: "plan_batch (cs_H (en_cte env)) (stored_keys t evs db) previous seq (zip subs evs) = (res, new)" and good: "good_items env t new"
    and rows: "planned_rows env now new rows" "kb_events db1 = kb_events db @ rows" "kb_legacy db1 = kb_legacy db" "canon_ok env db1"
    and steps: "for_each (\<lambda>(_, _, c). add_chain_entry c) new db1 = Inr db2" "for_each (\<lambda>(_, ev, _). create_transformation_links env ev) new db2 = Inr db3"
      "for_each (\<lambda>(_, ev, _) db. Inr (meter opt ev db)) new db3 = Inr db4"
      "(if wo_dual_write opt then for_each (\<lambda>(_, ev, c). dual_write_legacy env ev (hc_event_hash c) (hc_chain_hash c)) new db4 else Inr db4) = Inr db'"
  have "hc_tenant_id c = t \<and> backed db1 c" if i: "(sub, ev, c) \<in> set new" for sub ev c
  proof -
    obtain n where n: "n < length new" "new ! n = (sub, ev, c)" using i by (metis in_set_conv_nth)
    have len: "length rows = length new" using rows(1) by (simp add: planned_rows_def list_all2_lengthD)
    have p: "event_to_params env now sub ev (hc_chain_hash c) = Inr (rows ! n)"
      using rows(1) n by (auto simp: planned_rows_def list_all2_conv_all_nth)
    have "rows ! n \<in> set (kb_events db1)" using n len by (simp add: rows(2))
    then show ?thesis using plan_new[OF plan i] good i params_fields[OF p] by (auto simp: backed_def good_items_def)
  qed
  then have ok2: "canon_ok env db2"
    using add_entries_ok[OF steps(1) rows(4), of t previous seq] nl rows(3) plan_linked[OF plan] by auto
  have ok3: "canon_ok env db3"
    using for_each_cases[of "\<lambda>ev _. create_transformation_links env ev" new db2 db3 "canon_ok env", OF steps(2) canon_ok_links ok2] .
  have "canon_ok env db4"
    using for_each_cases[of "\<lambda>ev _ db. Inr (meter opt ev db)" new db3 db4 "canon_ok env", OF steps(3) _ ok3] by (auto intro: canon_ok_meter)
  then show ?thesis using steps(4) for_each_cases[of "\<lambda>ev c. dual_write_legacy env ev (hc_event_hash c) (hc_chain_hash c)" new db4 db' "canon_ok env"]
    canon_ok_dual_write by (auto split: if_splits)
qed

lemma prepared_tenant: "prepared env ev = Inr ev' \<Longrightarrow> cv_tenant_id ev' = cv_tenant_id ev"
  by (auto simp: prepared_def prepare_Inr sealed_event_def apply_ftl_hint_def split: if_splits option.splits)

lemma persist_events_batch_cases:
  assumes "persist_events_batch env opt now subs db = Inr (db', res)"
  obtains (empty) "subs = []" "db' = db" "res = []"
  | (batch) t evs where "\<forall>s \<in> set subs. cv_tenant_id (sn_event s) = t" "map_err (\<lambda>s. prepared env (sn_event s)) subs = Inr evs"
      "write_batch env opt now t subs evs db = Inr (db', res)"
proof (cases subs)
  case (Cons first rest)
  let ?t = "cv_tenant_id (sn_event first)"
  have find: "List.find (\<lambda>s. cv_tenant_id (sn_event s) \<noteq> ?t) rest = None"
    using assms by (cases "List.find (\<lambda>s. cv_tenant_id (sn_event s) \<noteq> ?t) rest") (auto simp: persist_events_batch_def Cons Let_def)
  then obtain evs where "map_err (\<lambda>s. prepared env (sn_event s)) subs = Inr evs" "write_batch env opt now ?t subs evs db = Inr (db', res)"
    using assms unfolding persist_events_batch_def Cons list.case Let_def find option.case and_then_eq_Inr_iff by blast
  moreover have "\<forall>s \<in> set subs. cv_tenant_id (sn_event s) = ?t" using find by (auto simp: find_None_iff Cons)
  ultimately show thesis by (intro batch)
qed (use assms empty in \<open>simp add: persist_events_batch_def\<close>)

lemma honest_batch_cases:
  assumes "persist_events_batch env opt now subs db = Inr (db', res)" "\<forall>s \<in> set subs. honest env s"
  obtains (empty) "subs = []" "db' = db" "res = []"
  | (batch) t evs where "\<forall>s \<in> set subs. cv_tenant_id (sn_event s) = t" "write_batch env opt now t subs evs db = Inr (db', res)"
      "\<forall>ev \<in> set evs. cv_tenant_id ev = t \<and> sealed_ok (en_can env) ev \<and> columns_keep env ev"
  using assms(1)
proof (cases rule: persist_events_batch_cases)
  case (batch t evs)
  note all2 = map_err_all2[OF batch(2)]
  have "cv_tenant_id ev = t \<and> sealed_ok (en_can env) ev \<and> columns_keep env ev" if ev: "ev \<in> set evs" for ev
  proof -
    obtain i where i: "i < length evs" "evs ! i = ev" using ev by (auto simp: in_set_conv_nth)
    have prep: "prepared env (sn_event (subs ! i)) = Inr ev" using list_all2_nthD2[OF all2 i(1)] i(2) by simp
    have mem: "subs ! i \<in> set subs" using list_all2_lengthD[OF all2] i(1) by simp
    have "honest env (subs ! i)" "cv_tenant_id (sn_event (subs ! i)) = t" using assms(2) batch(1) mem by simp_all
    then show ?thesis using prep prepared_tenant[OF prep] by (simp add: honest_def)
  qed
  then show thesis using batch(1,3) that(2) by blast
qed (rule that(1))

lemma persist_events_batch_ok:
  assumes "persist_events_batch env opt now subs db = Inr (db', res)" "\<forall>s \<in> set subs. honest env s" "canon_ok env db"
  shows "canon_ok env db'"
  using assms(1,2) by (cases rule: honest_batch_cases) (use assms(3) write_batch_ok in \<open>auto\<close>)

section \<open>Tables that were written\<close>

lemma store_event_ok:
  assumes "store_event (en_cte env) now event_id t inp (kb_legacy db) = Inr (l, res)" "canon_ok env db"
  shows "canon_ok env (db\<lparr>kb_legacy := l\<rparr>)"
  using assms(1)
proof (rule store_event_cases)
  fix ty ts key
  assume "(\<exists>r. find_idempotent key t (kb_legacy db) = Some r \<and> l = kb_legacy db \<and> res = idempotent_result r) \<or>
     find_idempotent key t (kb_legacy db) = None \<and> store_new (en_cte env) event_id t ty ts key inp (kb_legacy db) = Inr (l, res)"
  then show ?thesis
  proof (elim disjE exE conjE)
    assume new: "find_idempotent key t (kb_legacy db) = None" "store_new (en_cte env) event_id t ty ts key inp (kb_legacy db) = Inr (l, res)"
    obtain row where row: "append_event (cs_H (en_cte env)) row (kb_legacy db) l" by (rule store_new_appends[OF new(2,1)])
    have link: "linked (cs_H (en_cte env)) 1 None (rows_of u (kb_legacy db))" for u using assms(2) by (simp add: canon_ok_def)
    have "linked (cs_H (en_cte env)) 1 None (rows_of u l)" for u
      using link[of u] linked_head[OF link[of u]] next_link_linked[OF link[of u]] by (auto simp: rows_of_append[OF row] linked_snoc new_entry_def)
    moreover have "backed (db\<lparr>kb_legacy := l\<rparr>) c" if "c \<in> set (cd_chain l)" for c
    proof (cases "c \<in> set (cd_chain (kb_legacy db))")
      case True
      then have "backed db c" using assms(2) by (simp add: canon_ok_def)
      then show ?thesis using row by (auto simp: backed_def matched_def append_event_def)
    next
      case False
      then have "c = new_entry (cs_H (en_cte env)) (ce_id row) (ce_tenant_id row) (ce_sha256_hash row) (kb_legacy db)"
        using that row by (auto simp: append_event_def split: if_splits)
      then show ?thesis using row by (simp add: backed_def matched_def append_event_def new_entry_def split_beta)
    qed
    ultimately show ?thesis using assms(2) by (simp add: canon_ok_def)
  qed (use assms(2) in \<open>simp add: canon_ok_same[of env db]\<close>)
qed

definition empty_canonical_db :: canonical_db where
  "empty_canonical_db = \<lparr>kb_events = [], kb_legacy = empty_cte_db, kb_links = [], kb_runs = [], kb_ledger = [], kb_counters = []\<rparr>"

text \<open>
  The tables that any sequence of returning calls of the two writers leaves, of any tenants and with any options, from empty ones;
  events come without hashes or as \<^verbatim>\<open>prepare_for_persistence\<close> makes them.
\<close>

inductive canon_written :: "store_env \<Rightarrow> canonical_db \<Rightarrow> bool" for env where
  canon_empty: "canon_written env empty_canonical_db"
| canon_event: "canon_written env db \<Longrightarrow> honest env sub \<Longrightarrow> persist_event env opt now sub db = Inr (db', res) \<Longrightarrow> canon_written env db'"
| canon_batch: "canon_written env db \<Longrightarrow> list_all (honest env) subs \<Longrightarrow> persist_events_batch env opt now subs db = Inr (db', rs) \<Longrightarrow> canon_written env db'"
| canon_legacy: "canon_written env db \<Longrightarrow> store_event (en_cte env) now event_id t inp (kb_legacy db) = Inr (l, r) \<Longrightarrow> canon_written env (db\<lparr>kb_legacy := l\<rparr>)"
| canon_run: "canon_written env db \<Longrightarrow> create_ingestion_run run db = Inr (db', i) \<Longrightarrow> canon_written env db'"
| canon_run_done: "canon_written env db \<Longrightarrow> complete_ingestion_run env now run_id t a b errors db = Inr db' \<Longrightarrow> canon_written env db'"

lemma canon_written_ok: "canon_written env db \<Longrightarrow> canon_ok env db"
proof (induction rule: canon_written.induct)
  case canon_empty
  then show ?case by (simp add: canon_ok_def empty_canonical_db_def empty_cte_db_def rows_of_def)
next
  case (canon_batch db subs opt now db' rs)
  then show ?case using persist_events_batch_ok by (auto simp: list_all_iff)
next
  case (canon_run db run db' i)
  then show ?case by (auto simp: create_ingestion_run_def split: if_splits intro: canon_ok_same)
next
  case (canon_run_done db now run_id t a b errors db')
  then show ?case by (auto simp: complete_ingestion_run_def Let_def split: if_splits intro: canon_ok_same)
qed (auto intro: persist_event_ok store_event_ok)

text \<open>
  Claim C5 (invariant). Whatever the two writers have stored, one by one or in batches, with or without the copy in the legacy tables, retries
  and refused calls included, the canonical verifier finds no orphan and no tampered row for any tenant, and its verdict is valid unless
  the tenant has events and no chain entry at all.
\<close>

theorem canonical_chain_verifies:
  assumes "canon_written env db"
  shows "ck_orphan_chain_rows (verify_chain_canonical env t db) = [] \<and> ck_tamper_rows (verify_chain_canonical env t db) = [] \<and>
    (ck_valid (verify_chain_canonical env t db) \<longleftrightarrow> \<not> ck_no_chain_evidence (verify_chain_canonical env t db))"
proof -
  note ok = canon_written_ok[OF assms]
  have link: "linked (cs_H (en_cte env)) 1 None (rows_of t (kb_legacy db))" using ok by (simp add: canon_ok_def)
  let ?init = "\<lparr>vs_errors = [], vs_orphans = [], vs_tampers = [], vs_legacy = []\<rparr>"
  have "clean (verify_rows env db 1 None (chain_of t (kb_legacy db)) ?init)"
    using link canon_ok_row_sound[OF ok] by (auto simp: verify_rows_clean chain_of_linked[OF link]) (auto simp: clean_def rows_of_def)
  then show ?thesis by (auto simp: verify_chain_canonical_def Let_def clean_def)
qed

text \<open>An environment for concrete runs: keys show the lot, columns read back the one timestamp there is.\<close>

definition canon_toy_env :: store_env where
  "canon_toy_env =
     \<lparr>en_can = sample_can_env\<lparr>ce_rt := example_rt\<lparr>rt_fromisoformat := (\<lambda>_. Inr (Datetime 5 (Some 0)))\<rparr>, ce_H := toy_digest,
        ce_json_compact := (\<lambda>v. case v of PDict d \<Rightarrow> py_str example_rt (dict_get d ''tlc'' (PStr [])) | _ \<Rightarrow> [])\<rparr>,
      en_cte = cte_toy_env, en_jsonb = (\<lambda>_. PDict [(''event_timestamp'', PStr ''1970-01-01'')]), en_text = (\<lambda>v. Inr (opt_text v)),
      en_link_refused = (\<lambda>l. 2000 < length (lk_input_tlc l))\<rparr>"

definition toy_submission :: "string \<Rightarrow> string \<Rightarrow> string option \<Rightarrow> submission" where
  "toy_submission e tlc old =
     \<lparr>sn_event = (blank_event e ''t1'' Csv_Upload Shipping)\<lparr>cv_traceability_lot_code := tlc, cv_quantity := Fin 2, cv_unit_of_measure := ''kg'',
        cv_event_timestamp := Datetime 5 (Some 0)\<rparr>,
      sn_source_file_id = None, sn_confidence_score = Fin 1, sn_supersedes = old, sn_provenance = []\<rparr>"

definition plain_options :: store_options where
  "plain_options = \<lparr>wo_dual_write = False, wo_skip_chain_write = False, wo_meter_usage = True\<rparr>"

definition kept_db :: "canonical_db \<Rightarrow> py_error + canonical_db \<times> 'a \<Rightarrow> canonical_db" where
  "kept_db db r = (case r of Inl _ \<Rightarrow> db | Inr (db', _) \<Rightarrow> db')"

definition canon_toy1 :: canonical_db where
  "canon_toy1 = kept_db empty_canonical_db (persist_event canon_toy_env plain_options 9 (toy_submission ''e1'' ''L1'' None) empty_canonical_db)"

definition canon_toy2 :: canonical_db where
  "canon_toy2 = kept_db canon_toy1 (persist_events_batch canon_toy_env plain_options 9
     [toy_submission ''e2'' ''L22'' (Some ''e1''), toy_submission ''e3'' ''L1'' None] canon_toy1)"

lemma toy_honest: "honest canon_toy_env (toy_submission ''e1'' ''L1'' None)"
  "list_all (honest canon_toy_env) [toy_submission ''e2'' ''L22'' (Some ''e1''), toy_submission ''e3'' ''L1'' None]"
  by code_simp+

lemma canon_written_toy: "canon_written canon_toy_env canon_toy1" "canon_written canon_toy_env canon_toy2"
proof -
  show 1: "canon_written canon_toy_env canon_toy1" unfolding canon_toy1_def kept_db_def
    by (auto split: sum.split prod.split intro: canon_empty canon_event[OF canon_empty toy_honest(1)])
  show "canon_written canon_toy_env canon_toy2" unfolding canon_toy2_def kept_db_def
    by (auto split: sum.split prod.split intro: 1 canon_batch[OF 1 toy_honest(2)])
qed

theorem canonical_chain_verifies_witness:
  "ck_valid (verify_chain_canonical canon_toy_env ''t1'' canon_toy2) \<and> ck_chain_length (verify_chain_canonical canon_toy_env ''t1'' canon_toy2) = 2"
proof -
  have "\<not> ck_no_chain_evidence (verify_chain_canonical canon_toy_env ''t1'' canon_toy2)" by code_simp
  moreover have "ck_chain_length (verify_chain_canonical canon_toy_env ''t1'' canon_toy2) = 2" by code_simp
  ultimately show ?thesis using canonical_chain_verifies[OF canon_written_toy(2), of "''t1''"] by blast
qed

theorem canonical_content_committed_witness:
  "fst (next_link ''t1'' (kb_legacy canon_toy1)) \<noteq> fst (next_link ''t1'' (kb_legacy canon_toy2))"
proof
  assume eq: "fst (next_link ''t1'' (kb_legacy canon_toy1)) = fst (next_link ''t1'' (kb_legacy canon_toy2))"
  have h: "cs_H (en_cte canon_toy_env) = toy_digest" "ce_H (en_can canon_toy_env) = toy_digest" by (simp_all add: canon_toy_env_def cte_toy_env_def)
  have v: "ck_valid (verify_chain_canonical canon_toy_env ''t1'' canon_toy1)" "ck_valid (verify_chain_canonical canon_toy_env ''t1'' canon_toy2)"
    "canonical_only ''t1'' canon_toy1" "canonical_only ''t1'' canon_toy2" by code_simp+
  have "inj_on toy_digest (set (chain_inputs toy_digest None (map hc_event_hash (chain_of ''t1'' (kb_legacy canon_toy1)))) \<union>
      set (chain_inputs toy_digest None (map hc_event_hash (chain_of ''t1'' (kb_legacy canon_toy2)))))"
    unfolding set_append [symmetric] by (rule inj_on_distinct) code_simp
  moreover have "inj_on toy_digest (set (chained_texts canon_toy_env ''t1'' canon_toy1) \<union> set (chained_texts canon_toy_env ''t1'' canon_toy2))"
    unfolding set_append [symmetric] by (rule inj_on_distinct) code_simp
  ultimately have "chained_texts canon_toy_env ''t1'' canon_toy1 = chained_texts canon_toy_env ''t1'' canon_toy2"
    using canonical_content_committed[of canon_toy_env, OF _ v eq] toy_digest_hex by (simp add: h)
  moreover have "chained_texts canon_toy_env ''t1'' canon_toy1 \<noteq> chained_texts canon_toy_env ''t1'' canon_toy2" by code_simp
  ultimately show False by simp
qed

end
