(* ===== verification/CanonicalSafety.thy ===== *)
theory CanonicalSafety
  imports CanonicalChain
begin

text \<open>
  What the canonical store guarantees besides its chain: trace walks, the count of billable events, supersession and the separation of tenants.
\<close>

section \<open>Trace walks\<close>

text \<open>One link of the tenant, in the direction of the walk.\<close>

definition lot_step :: "string \<Rightarrow> bool \<Rightarrow> canonical_db \<Rightarrow> string \<Rightarrow> string \<Rightarrow> bool" where
  "lot_step t forward db a b \<longleftrightarrow> (\<exists>l \<in> set (trace_rows t forward a db). link_to forward l = b)"

lemma trace_rows_mem: "l \<in> set (trace_rows t forward a db) \<longleftrightarrow> l \<in> set (kb_links db) \<and> lk_tenant_id l = t \<and> link_from forward l = a"
  by (auto simp: trace_rows_def)

lemma expand_complete:
  assumes "expand forward cap level visited ls results queue = (rs, q, False)"
  shows "rs = results @ map (trace_link_of forward (level + 1)) ls \<and>
    q = queue @ map (\<lambda>l. (link_to forward l, level + 1)) (filter (\<lambda>l. link_to forward l \<notin> set visited) ls)"
  using assms by (induction ls arbitrary: results queue) (fastforce split: if_splits)+

lemma expand_sound:
  assumes "expand forward cap level visited ls results queue = (rs, q, tr)"
  shows "set rs \<subseteq> set results \<union> trace_link_of forward (level + 1) ` set ls \<and> int (length rs) \<le> max cap (int (length results))"
  using assms
proof (induction ls arbitrary: results queue)
  case (Cons l ls)
  show ?case
  proof (cases "cap \<le> int (length results)")
    case False
    with Cons.prems have "expand forward cap level visited ls (results @ [trace_link_of forward (level + 1) l])
        (if link_to forward l \<in> set visited then queue else queue @ [(link_to forward l, level + 1)]) = (rs, q, tr)" by simp
    from Cons.IH[OF this] False show ?thesis by auto
  qed (use Cons.prems in auto)
qed simp

text \<open>The length of the shortest walk between two lots; a link of the answer is a stored one, one deeper than the distance of the lot it leaves.\<close>

definition lot_distance :: "string \<Rightarrow> bool \<Rightarrow> canonical_db \<Rightarrow> string \<Rightarrow> nat \<Rightarrow> string \<Rightarrow> bool" where
  "lot_distance t forward db a n b \<longleftrightarrow> (lot_step t forward db ^^ n) a b \<and> (\<forall>m < n. \<not> (lot_step t forward db ^^ m) a b)"

definition at_distance :: "string \<Rightarrow> bool \<Rightarrow> canonical_db \<Rightarrow> string \<Rightarrow> trace_link \<Rightarrow> bool" where
  "at_distance t forward db start w \<longleftrightarrow>
     (\<exists>l n. l \<in> set (kb_links db) \<and> lk_tenant_id l = t \<and> lot_distance t forward db start n (link_from forward l) \<and>
        w = trace_link_of forward (int n + 1) l)"

text \<open>
  The frontier of the walk: the queue is in the order of its levels, which differ by at most one, every lot in it can be reached in as many
  links as its level says, and what a visited lot leads to is visited, in the queue at no later a level, or too deep.
\<close>

definition frontier :: "string \<Rightarrow> bool \<Rightarrow> int \<Rightarrow> canonical_db \<Rightarrow> string \<Rightarrow> (string \<times> int) list \<Rightarrow> string list \<Rightarrow> bool" where
  "frontier t forward max_depth db start queue visited \<longleftrightarrow>
     sorted (map snd queue) \<and>
     (\<forall>(x, d) \<in> set queue. 0 \<le> d \<and> (lot_step t forward db ^^ nat d) start x \<and> d \<le> snd (hd queue) + 1) \<and>
     (start \<in> set visited \<or> (start, 0) \<in> set queue) \<and>
     (\<forall>v \<in> set visited. \<forall>n y. (lot_step t forward db ^^ n) start v \<longrightarrow> lot_step t forward db v y \<longrightarrow>
        y \<in> set visited \<or> max_depth \<le> int n + 1 \<or> (\<exists>d. (y, d) \<in> set queue \<and> d \<le> int n + 1))"

lemma frontier_visited:
  assumes "frontier t forward max_depth db start queue visited" "(lot_step t forward db ^^ m) start x" "int m < max_depth"
    and later: "\<And>y d. (y, d) \<in> set queue \<Longrightarrow> int m < d"
  shows "x \<in> set visited"
  using assms(2,3) later
proof (induction m arbitrary: x)
  case 0
  then show ?case using assms(1) by (fastforce simp: frontier_def)
next
  case (Suc m)
  obtain v where v: "(lot_step t forward db ^^ m) start v" "lot_step t forward db v x" using Suc.prems(1) by auto
  have "int m < d" if "(y, d) \<in> set queue" for y d using Suc.prems(3)[OF that] by simp
  then have "v \<in> set visited" using Suc.IH[OF v(1)] Suc.prems(2) by simp
  then have "x \<in> set visited \<or> max_depth \<le> int m + 1 \<or> (\<exists>d. (x, d) \<in> set queue \<and> d \<le> int m + 1)"
    using assms(1) v by (auto simp: frontier_def)
  then show ?case using Suc.prems(2) Suc.prems(3)[of x] by fastforce
qed

lemma frontier_head:
  assumes "frontier t forward max_depth db start ((tlc, level) # queue) visited" "tlc \<notin> set visited" "level < max_depth"
  shows "0 \<le> level \<and> lot_distance t forward db start (nat level) tlc"
proof -
  have level: "0 \<le> level" "(lot_step t forward db ^^ nat level) start tlc" using assms(1) by (auto simp: frontier_def)
  have "\<not> (lot_step t forward db ^^ m) start tlc" if m: "m < nat level" for m
  proof
    assume walk: "(lot_step t forward db ^^ m) start tlc"
    have "int m < d" if "(y, d) \<in> set ((tlc, level) # queue)" for y d
      using that assms(1) m by (fastforce simp: frontier_def)
    then have "tlc \<in> set visited" using frontier_visited[OF assms(1) walk] m assms(3) by fastforce
    then show False using assms(2) by simp
  qed
  with level show ?thesis by (simp add: lot_distance_def)
qed

lemma frontier_pop:
  assumes "frontier t forward max_depth db start ((tlc, level) # queue) visited" "1 \<le> max_depth" "tlc \<in> set visited \<or> max_depth \<le> level"
  shows "frontier t forward max_depth db start queue visited"
proof -
  have "d \<le> snd (hd queue) + 1" if "(x, d) \<in> set queue" for x d
    using assms(1) that by (cases queue) (fastforce simp: frontier_def)+
  moreover have "start \<in> set visited \<or> (start, 0) \<in> set queue" using assms by (auto simp: frontier_def)
  moreover have "y \<in> set visited \<or> max_depth \<le> int n + 1 \<or> (\<exists>d. (y, d) \<in> set queue \<and> d \<le> int n + 1)"
    if "v \<in> set visited" "(lot_step t forward db ^^ n) start v" "lot_step t forward db v y" for v n y
  proof -
    have "y \<in> set visited \<or> max_depth \<le> int n + 1 \<or> (\<exists>d. (y, d) \<in> set ((tlc, level) # queue) \<and> d \<le> int n + 1)"
      using assms(1) that unfolding frontier_def by blast
    then show ?thesis using assms(3) by auto
  qed
  ultimately show ?thesis using assms(1) unfolding frontier_def by (auto simp: case_prod_beta)
qed

lemma frontier_expand:
  assumes "frontier t forward max_depth db start ((tlc, level) # queue) visited" "tlc \<notin> set visited" "level < max_depth"
    and q': "q' = queue @ map (\<lambda>l. (link_to forward l, level + 1)) (filter (\<lambda>l. link_to forward l \<notin> set (tlc # visited)) (trace_rows t forward tlc db))"
  shows "frontier t forward max_depth db start q' (tlc # visited)"
proof -
  let ?new = "map (\<lambda>l. (link_to forward l, level + 1)) (filter (\<lambda>l. link_to forward l \<notin> set (tlc # visited)) (trace_rows t forward tlc db))"
  have level: "0 \<le> level" "(lot_step t forward db ^^ nat level) start tlc" "\<And>m. (lot_step t forward db ^^ m) start tlc \<Longrightarrow> nat level \<le> m"
    using frontier_head[OF assms(1-3)] by (auto simp: lot_distance_def) (meson not_le)
  have old: "level \<le> d \<and> d \<le> level + 1 \<and> (lot_step t forward db ^^ nat d) start x" if "(x, d) \<in> set queue" for x d
    using assms(1) that by (fastforce simp: frontier_def)
  have new: "d = level + 1 \<and> lot_step t forward db tlc x" if "(x, d) \<in> set ?new" for x d using that by (auto simp: lot_step_def)
  have range: "level \<le> d \<and> d \<le> level + 1 \<and> (lot_step t forward db ^^ nat d) start x" if "(x, d) \<in> set q'" for x d
  proof (cases "(x, d) \<in> set queue")
    case False
    then have "d = level + 1" "lot_step t forward db tlc x" using that new by (auto simp: q')
    moreover from this have "(lot_step t forward db ^^ Suc (nat level)) start x" using level(2) by auto
    ultimately show ?thesis using level(1) by (simp add: Suc_nat_eq_nat_zadd1 add.commute)
  qed (use old in blast)
  have "level \<le> snd (hd q')" if "q' \<noteq> []" using range[of "fst (hd q')" "snd (hd q')"] that by simp
  then have "\<forall>(x, d) \<in> set q'. 0 \<le> d \<and> (lot_step t forward db ^^ nat d) start x \<and> d \<le> snd (hd q') + 1"
    using range level(1) by (fastforce simp: neq_Nil_conv)
  moreover have "sorted (map snd q')"
    using assms(1) old by (auto simp: q' frontier_def sorted_append sorted_map comp_def sorted_wrt_map intro: sorted_wrt_mono_rel)
  moreover have "start \<in> set (tlc # visited) \<or> (start, 0) \<in> set q'" using assms(1) by (auto simp: frontier_def q')
  moreover have "y \<in> set (tlc # visited) \<or> max_depth \<le> int n + 1 \<or> (\<exists>d. (y, d) \<in> set q' \<and> d \<le> int n + 1)"
    if v: "v \<in> set (tlc # visited)" "(lot_step t forward db ^^ n) start v" "lot_step t forward db v y" for v n y
  proof (cases "v = tlc \<and> y \<notin> set (tlc # visited)")
    case True
    then have "(y, level + 1) \<in> set q'" using v(3) by (auto simp: q' lot_step_def)
    moreover have "level \<le> int n" using level(3)[of n] v(2) True by simp
    ultimately show ?thesis by auto
  next
    case False
    then have "y \<in> set (tlc # visited) \<or> v \<in> set visited" using v(1) by auto
    moreover have "y \<in> set visited \<or> max_depth \<le> int n + 1 \<or> (\<exists>d. (y, d) \<in> set ((tlc, level) # queue) \<and> d \<le> int n + 1)" if "v \<in> set visited"
      using assms(1) that v(2,3) unfolding frontier_def by blast
    ultimately show ?thesis by (auto simp: q')
  qed
  ultimately show ?thesis unfolding frontier_def by blast
qed

text \<open>What the walk has when it ends, from a state whose visited lots have their links in the results.\<close>

definition links_taken :: "string \<Rightarrow> bool \<Rightarrow> canonical_db \<Rightarrow> string set \<Rightarrow> trace_link list \<Rightarrow> bool" where
  "links_taken t forward db vis rs \<longleftrightarrow> (\<forall>v \<in> vis. \<forall>l \<in> set (trace_rows t forward v db). \<exists>d. trace_link_of forward d l \<in> set rs)"

lemma walk_breadth_first:
  assumes "walk_loop t forward max_depth cap db queue visited results exhausted = (rs, tr, ex)" "1 \<le> max_depth"
    and "frontier t forward max_depth db start queue visited" "links_taken t forward db (set visited) results"
    and "\<forall>w \<in> set results. at_distance t forward db start w \<and> wl_depth w \<le> max_depth"
  shows "(\<forall>w \<in> set rs. at_distance t forward db start w \<and> wl_depth w \<le> max_depth) \<and> int (length rs) \<le> max cap (int (length results)) \<and>
    (\<not> tr \<longrightarrow> links_taken t forward db {x. \<exists>n. int n < max_depth \<and> (lot_step t forward db ^^ n) start x} rs)"
  using assms
proof (induction t forward max_depth cap db queue visited results exhausted arbitrary: rs tr ex rule: walk_loop.induct)
  case (1 t forward max_depth cap db visited results exhausted)
  then show ?case using frontier_visited[OF 1(3)] by (fastforce simp: links_taken_def)
next
  case (2 t forward max_depth cap db tlc level queue visited results exhausted)
  consider "tlc \<in> set visited" | "tlc \<notin> set visited" "max_depth \<le> level" | "tlc \<notin> set visited" "\<not> max_depth \<le> level" by blast
  then show ?case
  proof cases
    case 1
    then have "walk_loop t forward max_depth cap db queue visited results exhausted = (rs, tr, ex)" using "2.prems"(1) by simp
    from "2.IH"(1)[OF 1 this "2.prems"(2) frontier_pop[OF "2.prems"(3,2) disjI1[OF 1]] "2.prems"(4,5)] show ?thesis .
  next
    case 2
    then have "walk_loop t forward max_depth cap db queue visited results True = (rs, tr, ex)" using "2.prems"(1) by simp
    from "2.IH"(2)[OF 2 this "2.prems"(2) frontier_pop[OF "2.prems"(3,2) disjI2[OF 2(2)]] "2.prems"(4,5)] show ?thesis .
  next
    case 3
    then have level: "level < max_depth" by simp
    obtain rs' q' tr' where e: "expand forward cap level (tlc # visited) (trace_rows t forward tlc db) results queue = (rs', q', tr')"
      by (cases "expand forward cap level (tlc # visited) (trace_rows t forward tlc db) results queue") auto
    have head: "0 \<le> level" "lot_distance t forward db start (nat level) tlc" using frontier_head[OF "2.prems"(3) 3(1) level] by simp_all
    have "at_distance t forward db start w \<and> wl_depth w \<le> max_depth" if "w \<in> trace_link_of forward (level + 1) ` set (trace_rows t forward tlc db)" for w
      using that head level by (auto simp: at_distance_def trace_rows_mem trace_link_of_def intro!: exI[of _ "nat level"])
    then have rs': "\<forall>w \<in> set rs'. at_distance t forward db start w \<and> wl_depth w \<le> max_depth" "int (length rs') \<le> max cap (int (length results))"
      using expand_sound[OF e] "2.prems"(5) by blast+
    show ?thesis
    proof (cases tr')
      case True
      then show ?thesis using "2.prems"(1) 3 e rs' by auto
    next
      case False
      then have run: "walk_loop t forward max_depth cap db q' (tlc # visited) rs' exhausted = (rs, tr, ex)" using "2.prems"(1) 3 e by simp
      have full: "rs' = results @ map (trace_link_of forward (level + 1)) (trace_rows t forward tlc db)"
        and q': "q' = queue @ map (\<lambda>l. (link_to forward l, level + 1)) (filter (\<lambda>l. link_to forward l \<notin> set (tlc # visited)) (trace_rows t forward tlc db))"
        using expand_complete[of forward cap level "tlc # visited" "trace_rows t forward tlc db" results queue rs' q'] e False by simp_all
      have "links_taken t forward db (set (tlc # visited)) rs'"
        using "2.prems"(4) by (auto simp: links_taken_def full) blast
      from "2.IH"(3)[OF 3 e[symmetric] refl False run "2.prems"(2) frontier_expand[OF "2.prems"(3) 3(1) level q'] this rs'(1)] rs'(2)
      show ?thesis by auto
    qed
  qed
qed

lemma walk_flag:
  "walk_loop t forward max_depth cap db queue visited results exhausted = (rs, tr, ex) \<Longrightarrow> exhausted \<Longrightarrow> ex"
proof (induction t forward max_depth cap db queue visited results exhausted rule: walk_loop.induct)
  case (2 t forward max_depth cap db tlc level queue visited results exhausted)
  consider "tlc \<in> set visited" | "tlc \<notin> set visited" "max_depth \<le> level" | "tlc \<notin> set visited" "\<not> max_depth \<le> level" by blast
  then show ?case
  proof cases
    case 1
    then show ?thesis using "2.IH"(1)[OF 1] "2.prems" by simp
  next
    case 2
    then show ?thesis using "2.IH"(2)[OF 2] "2.prems" by simp
  next
    case 3
    obtain rs' q' tr' where e: "expand forward cap level (tlc # visited) (trace_rows t forward tlc db) results queue = (rs', q', tr')"
      by (cases "expand forward cap level (tlc # visited) (trace_rows t forward tlc db) results queue") auto
    then show ?thesis using "2.IH"(3)[OF 3 e[symmetric] refl] "2.prems" 3 by (cases tr') auto
  qed
qed simp

lemma walk_complete:
  assumes "walk_loop t forward max_depth cap db queue visited results exhausted = (rs, False, False)"
    and "\<forall>v \<in> set visited. \<forall>l \<in> set (trace_rows t forward v db).
      (\<exists>d. trace_link_of forward d l \<in> set results) \<and> link_to forward l \<in> set visited \<union> fst ` set queue"
  shows "\<exists>vis. set visited \<union> fst ` set queue \<subseteq> vis \<and>
    (\<forall>v \<in> vis. \<forall>l \<in> set (trace_rows t forward v db). (\<exists>d. trace_link_of forward d l \<in> set rs) \<and> link_to forward l \<in> vis)"
  using assms
proof (induction t forward max_depth cap db queue visited results exhausted arbitrary: rs rule: walk_loop.induct)
  case (1 t forward max_depth cap db visited results exhausted)
  then show ?case by (intro exI[of _ "set visited"]) auto
next
  case (2 t forward max_depth cap db tlc level queue visited results exhausted)
  consider "tlc \<in> set visited" | "tlc \<notin> set visited" "max_depth \<le> level" | "tlc \<notin> set visited" "\<not> max_depth \<le> level" by blast
  then show ?case
  proof cases
    case 1
    then have run: "walk_loop t forward max_depth cap db queue visited results exhausted = (rs, False, False)" using "2.prems"(1) by simp
    have eq: "set visited \<union> fst ` set ((tlc, level) # queue) = set visited \<union> fst ` set queue" using 1 by auto
    show ?thesis using "2.IH"(1)[OF 1 run] "2.prems"(2) unfolding eq by blast
  next
    case 2
    then show ?thesis using "2.prems"(1) walk_flag[of t forward max_depth cap db queue visited results True rs False False] by simp
  next
    case 3
    obtain rs' q' tr' where e: "expand forward cap level (tlc # visited) (trace_rows t forward tlc db) results queue = (rs', q', tr')"
      by (cases "expand forward cap level (tlc # visited) (trace_rows t forward tlc db) results queue") auto
    have tr': "\<not> tr'" using "2.prems"(1) 3 e by auto
    then have run: "walk_loop t forward max_depth cap db q' (tlc # visited) rs' exhausted = (rs, False, False)" using "2.prems"(1) 3 e by simp
    have rs': "rs' = results @ map (trace_link_of forward (level + 1)) (trace_rows t forward tlc db)"
      and q': "q' = queue @ map (\<lambda>l. (link_to forward l, level + 1)) (filter (\<lambda>l. link_to forward l \<notin> set (tlc # visited)) (trace_rows t forward tlc db))"
      using expand_complete[of forward cap level "tlc # visited" "trace_rows t forward tlc db" results queue rs' q'] e tr' by simp_all
    have "\<forall>v \<in> set (tlc # visited). \<forall>l \<in> set (trace_rows t forward v db).
        (\<exists>d. trace_link_of forward d l \<in> set rs') \<and> link_to forward l \<in> set (tlc # visited) \<union> fst ` set q'"
    proof (intro ballI)
      fix v l assume v: "v \<in> set (tlc # visited)" and l: "l \<in> set (trace_rows t forward v db)"
      show "(\<exists>d. trace_link_of forward d l \<in> set rs') \<and> link_to forward l \<in> set (tlc # visited) \<union> fst ` set q'"
      proof (cases "v = tlc")
        case True
        then show ?thesis using l by (auto simp: rs' q' image_image image_Un)
      next
        case False
        then have old: "(\<exists>d. trace_link_of forward d l \<in> set results) \<and> link_to forward l \<in> set visited \<union> fst ` set ((tlc, level) # queue)"
          using v l "2.prems"(2) by auto
        then obtain d where d: "trace_link_of forward d l \<in> set rs'" by (auto simp: rs')
        have "link_to forward l \<in> set (tlc # visited) \<union> fst ` set q'" using old by (auto simp: q')
        with d show ?thesis by blast
      qed
    qed
    from "2.IH"(3)[OF 3 e[symmetric] refl tr' run this] show ?thesis by (auto simp: q')
  qed
qed

lemma reaches_inside:
  assumes "(lot_step t forward db)\<^sup>*\<^sup>* start x" "start \<in> vis" "\<forall>v \<in> vis. \<forall>l \<in> set (trace_rows t forward v db). link_to forward l \<in> vis"
  shows "x \<in> vis"
  using assms by (induction rule: rtranclp_induct) (auto simp: lot_step_def)

text \<open>
  Claim C18 (termination). A trace ends on every table of links, cycles included, with at most \<open>max_results\<close> links. Each is a stored link of the
  tenant whose depth is one more than the length of the shortest walk from the lot to where the link starts, and at most \<open>max_depth\<close>. Unless
  the answer is flagged as truncated it has every link of the tenant that starts fewer than \<open>max_depth\<close> links away, and with neither flag
  raised every link that can be reached from the lot.
\<close>

theorem trace_walk_complete:
  assumes "direction = ''forward'' \<or> direction = ''backward''" "1 \<le> max_depth"
  shows "\<exists>w. trace_walk t tlc direction max_depth max_results db = Inr w \<and> int (length (tw_links w)) \<le> max max_results 0 \<and>
    list_all (at_distance t (direction = ''forward'') db tlc) (tw_links w) \<and> list_all (\<lambda>l. wl_depth l \<le> max_depth) (tw_links w) \<and>
    (\<not> tw_truncated w \<longrightarrow>
      list_all (\<lambda>l. lk_tenant_id l = t \<and>
          (if tw_depth_exhausted w then \<exists>n. int n < max_depth \<and> (lot_step t (direction = ''forward'') db ^^ n) tlc (link_from (direction = ''forward'') l)
           else (lot_step t (direction = ''forward'') db)\<^sup>*\<^sup>* tlc (link_from (direction = ''forward'') l)) \<longrightarrow>
        (\<exists>d. trace_link_of (direction = ''forward'') d l \<in> set (tw_links w))) (kb_links db))"
proof -
  let ?fw = "direction = ''forward''"
  obtain rs tr ex where run: "walk_loop t ?fw max_depth max_results db [(tlc, 0)] [] [] False = (rs, tr, ex)"
    by (cases "walk_loop t ?fw max_depth max_results db [(tlc, 0)] [] [] False") auto
  have "frontier t ?fw max_depth db tlc [(tlc, 0)] []" by (simp add: frontier_def)
  from walk_breadth_first[OF run assms(2) this]
  have sound: "list_all (at_distance t ?fw db tlc) rs" "list_all (\<lambda>l. wl_depth l \<le> max_depth) rs" "int (length rs) \<le> max max_results 0"
    and near: "\<not> tr \<Longrightarrow> links_taken t ?fw db {x. \<exists>n. int n < max_depth \<and> (lot_step t ?fw db ^^ n) tlc x} rs"
    by (auto simp: list_all_iff links_taken_def)
  have "\<exists>d. trace_link_of ?fw d l \<in> set rs"
    if flags: "\<not> tr" "\<not> ex" and l: "l \<in> set (kb_links db)" "lk_tenant_id l = t" "(lot_step t ?fw db)\<^sup>*\<^sup>* tlc (link_from ?fw l)" for l
  proof -
    obtain vis where vis: "tlc \<in> vis"
      "\<forall>v \<in> vis. \<forall>l \<in> set (trace_rows t ?fw v db). (\<exists>d. trace_link_of ?fw d l \<in> set rs) \<and> link_to ?fw l \<in> vis"
      using walk_complete[of t ?fw max_depth max_results db "[(tlc, 0)]" "[]" "[]" False rs] run flags by auto
    then have "link_from ?fw l \<in> vis" using reaches_inside[OF l(3) vis(1)] by blast
    then show ?thesis using vis(2) l by (auto simp: trace_rows_mem)
  qed
  moreover have "\<exists>d. trace_link_of ?fw d l \<in> set rs"
    if "\<not> tr" "l \<in> set (kb_links db)" "lk_tenant_id l = t" "int n < max_depth" "(lot_step t ?fw db ^^ n) tlc (link_from ?fw l)" for l n
    using near[OF that(1)] that(2-5) by (auto simp: links_taken_def trace_rows_mem)
  ultimately show ?thesis using assms run sound by (auto simp: trace_walk_def list_all_iff split: if_splits)
qed

text \<open>Three lots in a cycle.\<close>

definition toy_link :: "string \<Rightarrow> string \<Rightarrow> string \<Rightarrow> link_row" where
  "toy_link e a b =
     \<lparr>lk_tenant_id = ''t1'', lk_event_id = e, lk_input_tlc = a, lk_input_event_id = None, lk_input_quantity = None, lk_input_unit = None,
      lk_output_tlc = b, lk_output_quantity = Fin 1, lk_output_unit = ''kg'', lk_process_type = None\<rparr>"

definition toy_cycle :: canonical_db where
  "toy_cycle = empty_canonical_db\<lparr>kb_links := [toy_link ''e1'' ''A'' ''B'', toy_link ''e2'' ''B'' ''C'', toy_link ''e3'' ''C'' ''A'']\<rparr>"

theorem trace_walk_complete_witness:
  "\<exists>w. trace_walk ''t1'' ''A'' ''forward'' 5 100 toy_cycle = Inr w \<and> list_all (at_distance ''t1'' True toy_cycle ''A'') (tw_links w) \<and>
     map (\<lambda>l. (wl_output_tlc l, wl_depth l)) (tw_links w) = [(''B'', 1), (''C'', 2), (''A'', 3)]"
proof -
  obtain w where w: "trace_walk ''t1'' ''A'' ''forward'' 5 100 toy_cycle = Inr w" "list_all (at_distance ''t1'' True toy_cycle ''A'') (tw_links w)"
    using trace_walk_complete[of "''forward''" 5 "''t1''" "''A''" 100 toy_cycle] by auto
  have "case trace_walk ''t1'' ''A'' ''forward'' 5 100 toy_cycle of Inl _ \<Rightarrow> False | Inr w \<Rightarrow> map (\<lambda>l. (wl_output_tlc l, wl_depth l)) (tw_links w) = [(''B'', 1), (''C'', 2), (''A'', 3)]"
    by code_simp
  then show ?thesis using w by simp
qed

section \<open>Billable events\<close>

lemma day_in_month_range: "0 \<le> n \<Longrightarrow> n < sum_list ls \<Longrightarrow> day_in_month ls n = (d, l) \<Longrightarrow> l \<in> set ls \<and> 0 \<le> d \<and> d < l"
proof (induction ls arbitrary: n)
  case (Cons a ls)
  show ?case
  proof (cases "n < a")
    case False
    with Cons.prems have "0 \<le> n - a" "n - a < sum_list ls" "day_in_month ls (n - a) = (d, l)" by simp_all
    from Cons.IH[OF this] show ?thesis by simp
  qed (use Cons.prems in auto)
qed simp

lemma month_of_day_range:
  assumes "month_of_day d = (i, l)"
  shows "28 \<le> l \<and> l \<le> 31 \<and> 0 \<le> i \<and> i < l"
proof -
  let ?n = "d mod 146097 mod 36524 mod 1461 mod 365"
  let ?ls = "\<lambda>b. month_lengths b"
  have n: "0 \<le> ?n" "?n < 365" by simp_all
  have ls: "365 \<le> sum_list (?ls b)" "\<forall>x \<in> set (?ls b). 28 \<le> x \<and> x \<le> 31" for b by (simp_all add: month_lengths_def)
  have "(i, l) = (30, 31) \<or> (\<exists>b. day_in_month (?ls b) ?n = (i, l))" using assms by (auto simp: month_of_day_def Let_def split: if_splits)
  then show ?thesis
  proof
    assume "\<exists>b. day_in_month (?ls b) ?n = (i, l)"
    then obtain b where b: "day_in_month (?ls b) ?n = (i, l)" by blast
    from day_in_month_range[OF n(1) _ b] n(2) ls[of b] show ?thesis by force
  qed simp
qed

text \<open>The period of a day is a month that contains it.\<close>

lemma billing_period_contains:
  assumes "current_billing_period d = (a, b)"
  shows "a \<le> d \<and> d < b \<and> 28 \<le> b - a \<and> b - a \<le> 31"
proof -
  obtain i l where m: "month_of_day d = (i, l)" by fastforce
  from assms month_of_day_range[OF m] show ?thesis by (auto simp: current_billing_period_def m)
qed

definition billed_units :: "string \<Rightarrow> canonical_db \<Rightarrow> nat" where
  "billed_units t db = sum_list (map uc_unit_count (filter (\<lambda>c. uc_tenant_id c = t) (kb_counters db)))"

definition ledger_units :: "string \<Rightarrow> canonical_db \<Rightarrow> nat" where
  "ledger_units t db = length (filter (\<lambda>(u, _, _). u = t) (kb_ledger db))"

text \<open>A counter for each tenant and month, in step with the ledger; a ledger row for each counted event, which is stored.\<close>

definition usage_ok :: "canonical_db \<Rightarrow> bool" where
  "usage_ok db \<longleftrightarrow>
     distinct (map (\<lambda>c. (uc_tenant_id c, uc_period_start c)) (kb_counters db)) \<and> (\<forall>t. billed_units t db = ledger_units t db) \<and>
     distinct (map (\<lambda>(t, e, _). (t, e)) (kb_ledger db)) \<and>
     (\<forall>(t, e, _) \<in> set (kb_ledger db). (t, e) \<in> (\<lambda>r. (tv_tenant_id r, tv_event_id r)) ` set (kb_events db))"

lemma bump_one:
  assumes "distinct (map key cs)" "k \<in> key ` set cs" "\<And>c. key c = k \<Longrightarrow> Q c" "\<And>c. key (inc c) = key c \<and> Q (inc c) = Q c \<and> g (inc c) = Suc (g c)"
  shows "sum_list (map g (filter Q (map (\<lambda>c. if key c = k then inc c else c) cs))) = Suc (sum_list (map g (filter Q cs)))"
  using assms(1,2)
proof (induction cs)
  case (Cons c cs)
  show ?case
  proof (cases "key c = k")
    case True
    then have "map (\<lambda>c. if key c = k then inc c else c) cs = cs" using Cons.prems(1) by (intro map_idI) (metis distinct.simps(2) image_eqI list.set_map list.simps(9))
    then show ?thesis using True assms(3,4) by auto
  qed (use Cons assms in auto)
qed simp

lemma bump_none:
  assumes "\<And>c. key c = k \<Longrightarrow> \<not> Q c" "\<And>c. Q (inc c) = Q c"
  shows "sum_list (map g (filter Q (map (\<lambda>c. if key c = k then inc c else c) cs))) = sum_list (map g (filter Q cs))"
  using assms by (induction cs) auto

lemma count_unit_effect:
  assumes "distinct (map (\<lambda>c. (uc_tenant_id c, uc_period_start c)) cs)"
  shows "distinct (map (\<lambda>c. (uc_tenant_id c, uc_period_start c)) (count_unit t p cs)) \<and>
    sum_list (map uc_unit_count (filter (\<lambda>c. uc_tenant_id c = u) (count_unit t p cs))) =
    sum_list (map uc_unit_count (filter (\<lambda>c. uc_tenant_id c = u) cs)) + (if u = t then 1 else 0)"
proof -
  let ?key = "\<lambda>c. (uc_tenant_id c, uc_period_start c)" and ?inc = "\<lambda>c. c\<lparr>uc_unit_count := Suc (uc_unit_count c)\<rparr>"
  let ?same = "\<lambda>c. uc_tenant_id c = t \<and> uc_period_start c = fst p"
  have same: "?same c \<longleftrightarrow> ?key c = (t, fst p)" for c by auto
  show ?thesis
  proof (cases "list_ex ?same cs")
    case True
    then have new: "count_unit t p cs = map (\<lambda>c. if ?key c = (t, fst p) then ?inc c else c) cs" by (simp add: count_unit_def)
    have mem: "(t, fst p) \<in> ?key ` set cs" using True by (force simp: list_ex_iff)
    have "map ?key (count_unit t p cs) = map ?key cs" by (simp add: new)
    moreover have "sum_list (map uc_unit_count (filter (\<lambda>c. uc_tenant_id c = u) (count_unit t p cs))) =
      sum_list (map uc_unit_count (filter (\<lambda>c. uc_tenant_id c = u) cs)) + (if u = t then 1 else 0)"
    proof (cases "u = t")
      case True
      then show ?thesis using bump_one[OF assms mem, of "\<lambda>c. uc_tenant_id c = u" ?inc uc_unit_count] unfolding new by auto
    next
      case False
      then show ?thesis using bump_none[of ?key "(t, fst p)" "\<lambda>c. uc_tenant_id c = u" ?inc uc_unit_count cs] unfolding new by auto
    qed
    ultimately show ?thesis using assms by metis
  next
    case False
    then have "count_unit t p cs = cs @ [\<lparr>uc_tenant_id = t, uc_period_start = fst p, uc_period_end = snd p, uc_unit_count = 1\<rparr>]"
      by (simp add: count_unit_def)
    then show ?thesis using assms False by (auto simp: list_ex_iff)
  qed
qed

lemma increment_usage_ok:
  assumes "usage_ok db" "(t, e) \<in> (\<lambda>r. (tv_tenant_id r, tv_event_id r)) ` set (kb_events db)"
  shows "usage_ok (increment_usage_for_event t e ts db)"
proof (cases "list_ex (\<lambda>(u, x, _). u = t \<and> x = e) (kb_ledger db)")
  case True
  then show ?thesis using assms(1) by (simp add: increment_usage_for_event_def Let_def)
next
  case False
  let ?p = "current_billing_period (utc_instant ts div 86400000000)"
  let ?db = "db\<lparr>kb_ledger := kb_ledger db @ [(t, e, fst ?p)], kb_counters := count_unit t ?p (kb_counters db)\<rparr>"
  have d: "distinct (map (\<lambda>c. (uc_tenant_id c, uc_period_start c)) (kb_counters db))" using assms(1) by (simp add: usage_ok_def)
  note cu = count_unit_effect[OF d, of t ?p]
  have "billed_units u ?db = ledger_units u ?db" for u
    using cu[of u] assms(1) by (simp add: billed_units_def ledger_units_def usage_ok_def)
  moreover have "distinct (map (\<lambda>(t, e, _). (t, e)) (kb_ledger ?db))"
    using False assms(1) by (auto simp: usage_ok_def list_ex_iff)
  ultimately have "usage_ok ?db" using cu assms unfolding usage_ok_def by (auto simp: split_beta)
  then show ?thesis using False by (simp add: increment_usage_for_event_def Let_def)
qed

lemma usage_ok_mono:
  assumes "usage_ok db" "kb_ledger db' = kb_ledger db" "kb_counters db' = kb_counters db"
    and "(\<lambda>r. (tv_tenant_id r, tv_event_id r)) ` set (kb_events db) \<subseteq> (\<lambda>r. (tv_tenant_id r, tv_event_id r)) ` set (kb_events db')"
  shows "usage_ok db'"
  using assms unfolding usage_ok_def billed_units_def ledger_units_def by fastforce

lemma meter_usage_ok:
  assumes "usage_ok db" "r \<in> set (kb_events db)" "tv_tenant_id r = cv_tenant_id ev" "tv_event_id r = cv_event_id ev"
  shows "usage_ok (meter opt ev db)"
  using assms increment_usage_ok[OF assms(1), of "cv_tenant_id ev" "cv_event_id ev"] by (force simp: meter_def)

lemma usage_ok_legacy: "usage_ok (db\<lparr>kb_legacy := l\<rparr>) = usage_ok db" "usage_ok (db\<lparr>kb_runs := rs\<rparr>) = usage_ok db"
  by (simp_all add: usage_ok_def billed_units_def ledger_units_def)

lemma usage_ok_dual_write: "dual_write_legacy env ev sha chain db = Inr db' \<Longrightarrow> usage_ok db \<Longrightarrow> usage_ok db'"
  by (rule usage_ok_mono[of db]) (simp_all add: dual_write_fields)

lemma usage_ok_links: "create_transformation_links env ev db = Inr db' \<Longrightarrow> usage_ok db \<Longrightarrow> usage_ok db'"
  by (rule usage_ok_mono[of db]) (simp_all add: links_fields)

lemma usage_ok_entry: "add_chain_entry c db = Inr db' \<Longrightarrow> usage_ok db \<Longrightarrow> usage_ok db'"
  by (auto simp: usage_ok_legacy dest: add_chain_entry_Inr)

lemma persist_event_usage_ok:
  assumes "persist_event env opt now sub db = Inr (db', res)" "honest env sub" "usage_ok db"
  shows "usage_ok db'"
  using assms(1,2)
proof (cases rule: persist_event_cases)
  case (new ev row chain previous seq db1)
  have db1: "db1 = db\<lparr>kb_events := kb_events db @ [row]\<rparr>" using insert_row_Inr[OF insert_event_Inr_row[OF new(6)]] by simp
  have "usage_ok db1" by (rule usage_ok_mono[OF assms(3)]) (auto simp: db1)
  then have m: "usage_ok (meter opt ev db1)" by (rule meter_usage_ok[of _ row]) (simp_all add: db1 params_fields[OF new(5)])
  let ?c = "chain_entry ev seq (str_or (cv_sha256_hash ev) []) previous (compute_chain_hash (cs_H (en_cte env)) (str_or (cv_sha256_hash ev) []) previous)"
  from new(7) obtain db2 db3 db4 where steps:
    "mark_superseded now (cv_tenant_id ev) (cv_event_id ev) (sn_supersedes sub) (meter opt ev db1) = Inr db2"
    "(if wo_skip_chain_write opt then Inr db2 else insert_chain_entry ?c db2) = Inr db3"
    "(if wo_dual_write opt then dual_write_legacy env ev (str_or (cv_sha256_hash ev) []) chain db3 else Inr db3) = Inr db4"
    "create_transformation_links env ev db4 = Inr db'"
    unfolding complete_write_def and_then_eq_Inr_iff by blast
  obtain f where f: "kb_events db2 = map f (kb_events (meter opt ev db1))" "kb_ledger db2 = kb_ledger (meter opt ev db1)"
    "kb_counters db2 = kb_counters (meter opt ev db1)" "\<And>r. tv_event_id (f r) = tv_event_id r \<and> tv_tenant_id (f r) = tv_tenant_id r"
    using mark_superseded_fields[OF steps(1), of env] by metis
  have "usage_ok db2" by (rule usage_ok_mono[OF m f(2,3)]) (simp add: f image_image)
  then have "usage_ok db3" using steps(2) usage_ok_entry by (auto simp: insert_chain_entry_def split: if_splits)
  then have "usage_ok db4" using steps(3) usage_ok_dual_write by (auto split: if_splits)
  then show ?thesis by (rule usage_ok_links[OF steps(4)])
qed (use assms(3) in simp)

lemma meter_all_usage_ok:
  assumes "for_each (\<lambda>(_, ev, _) db. Inr (meter opt ev db)) items db = Inr db'" "usage_ok db"
    and "\<forall>(_, ev, _) \<in> set items. (cv_tenant_id ev, cv_event_id ev) \<in> (\<lambda>r. (tv_tenant_id r, tv_event_id r)) ` set (kb_events db)"
  shows "usage_ok db'"
  using assms
proof (induction items arbitrary: db)
  case (Cons z items)
  obtain sub ev c where z: "z = (sub, ev, c)" using prod_cases3 by blast
  have "usage_ok (meter opt ev db)" using Cons.prems(2,3) by (auto simp: z intro: meter_usage_ok)
  then show ?case using Cons.IH[of "meter opt ev db"] Cons.prems(1,3) by (simp add: z)
qed simp

lemma insert_rows_frame:
  "insert_rows rs db = Inr (db', ins) \<Longrightarrow> kb_ledger db' = kb_ledger db \<and> kb_counters db' = kb_counters db \<and> kb_links db' = kb_links db"
proof (induction rs arbitrary: db ins)
  case (Cons r rs)
  from Cons.prems obtain db1 landed ins' where "insert_canonical_row r db = Inr (db1, landed)" "insert_rows rs db1 = Inr (db', ins')"
    by (auto simp: and_then_eq_Inr_iff)
  with Cons.IH[OF this(2)] insert_row_Inr[OF this(1)] show ?case by (auto split: if_splits)
qed simp

lemma insert_chunks_frame:
  "insert_chunks env now css db = Inr (db', ids) \<Longrightarrow> kb_ledger db' = kb_ledger db \<and> kb_counters db' = kb_counters db \<and> kb_links db' = kb_links db"
proof (induction css arbitrary: db ids)
  case (Cons items css)
  from Cons.prems obtain db1 ids1 ids2 where "batch_insert_canonical_events env now items db = Inr (db1, ids1)"
    "insert_chunks env now css db1 = Inr (db', ids2)" by (auto simp: and_then_eq_Inr_iff)
  moreover from this(1) obtain rows ins where "insert_rows rows db = Inr (db1, ins)"
    by (auto simp: batch_insert_canonical_events_def and_then_eq_Inr_iff split: if_splits)
  ultimately show ?case using Cons.IH insert_rows_frame by metis
qed simp

text \<open>A batch only adds rows to the table of the events.\<close>

lemma for_each_events:
  assumes "for_each f xs db = Inr db'" "\<And>x db db'. f x db = Inr db' \<Longrightarrow> kb_events db' = kb_events db"
  shows "kb_events db' = kb_events db"
  using for_each_keeps[of xs f "\<lambda>d. kb_events d = kb_events db" db db'] assms by auto

lemma batch_events:
  assumes "write_batch env opt now t subs evs db = Inr (db', res)" "canon_ok env db"
    and "\<forall>ev \<in> set evs. cv_tenant_id ev = t \<and> sealed_ok (en_can env) ev \<and> columns_keep env ev"
  shows "\<exists>rows. kb_events db' = kb_events db @ rows \<and> list_all (\<lambda>r. tv_tenant_id r = t) rows \<and> (usage_ok db \<longrightarrow> usage_ok db')"
  using assms
proof (rule write_batch_steps)
  fix previous seq new rows db1 db2 db3 db4
  assume plan: "plan_batch (cs_H (en_cte env)) (stored_keys t evs db) previous seq (zip subs evs) = (res, new)" "good_items env t new"
    and rows: "planned_rows env now new rows" "kb_events db1 = kb_events db @ rows" "kb_legacy db1 = kb_legacy db"
    and ins: "insert_chunks env now (chunked 50 new) db = Inr (db1, map tv_event_id rows)"
    and steps: "for_each (\<lambda>(_, _, c). add_chain_entry c) new db1 = Inr db2" "for_each (\<lambda>(_, ev, _). create_transformation_links env ev) new db2 = Inr db3"
      "for_each (\<lambda>(_, ev, _) db. Inr (meter opt ev db)) new db3 = Inr db4"
      "(if wo_dual_write opt then for_each (\<lambda>(_, ev, c). dual_write_legacy env ev (hc_event_hash c) (hc_chain_hash c)) new db4 else Inr db4) = Inr db'"
  note frame = insert_chunks_frame[OF ins]
  have e2: "kb_events db2 = kb_events db1" by (rule for_each_events[OF steps(1)]) (auto dest: add_chain_entry_Inr)
  have e3: "kb_events db3 = kb_events db2" by (rule for_each_events[OF steps(2)]) (auto dest: links_fields)
  have e4: "kb_events db4 = kb_events db3" by (rule for_each_events[OF steps(3)]) auto
  have e5: "kb_events db' = kb_events db4" using steps(4) for_each_events[of _ new db4 db'] dual_write_fields(1) by (fastforce split: if_splits)
  have "usage_ok db'" if u: "usage_ok db"
  proof -
    have u1: "usage_ok db1" by (rule usage_ok_mono[OF u]) (auto simp: frame rows(2))
    have u2: "usage_ok db2" using for_each_cases[of "\<lambda>_ c. add_chain_entry c" new db1 db2 usage_ok, OF steps(1) usage_ok_entry u1] .
    have u3: "usage_ok db3" using for_each_cases[of "\<lambda>ev _. create_transformation_links env ev" new db2 db3 usage_ok, OF steps(2) usage_ok_links u2] .
    have "(cv_tenant_id ev, cv_event_id ev) \<in> (\<lambda>r. (tv_tenant_id r, tv_event_id r)) ` set (kb_events db3)" if i: "(sub, ev, c) \<in> set new" for sub ev c
    proof -
      have "cv_event_id ev \<in> set (map tv_event_id rows)" using planned_rows_fields[OF rows(1)] i by force
      then obtain r where r: "r \<in> set rows" "tv_event_id r = cv_event_id ev" by auto
      have "tv_tenant_id r = cv_tenant_id ev" using planned_rows_good[OF rows(1) plan(2) r(1)] plan(2) i by (auto simp: good_items_def)
      then show ?thesis using r by (force simp: e3 e2 rows(2))
    qed
    then have "usage_ok db4" using meter_all_usage_ok[OF steps(3) u3] by auto
    then show ?thesis using steps(4) usage_ok_dual_write
      for_each_cases[of "\<lambda>ev c. dual_write_legacy env ev (hc_event_hash c) (hc_chain_hash c)" new db4 db' usage_ok] by (auto split: if_splits)
  qed
  moreover have "list_all (\<lambda>r. tv_tenant_id r = t) rows" using planned_rows_good[OF rows(1) plan(2)] by (simp add: list_all_iff)
  ultimately show ?thesis using e2 e3 e4 e5 rows(2) by (intro exI[of _ rows]) simp
qed

section \<open>The contract of a writing operation\<close>

text \<open>
  What an operation on the tables promises: on tables with a good chain it keeps chain and counters good. Then any number of its calls
  leave a chain that the verifier accepts.
\<close>

locale store_operation =
  fixes env :: store_env and op :: "canonical_db \<Rightarrow> canonical_db \<Rightarrow> bool"
  assumes keeps_chain: "op db db' \<Longrightarrow> canon_ok env db \<Longrightarrow> canon_ok env db'"
    and keeps_usage: "op db db' \<Longrightarrow> canon_ok env db \<Longrightarrow> usage_ok db \<Longrightarrow> usage_ok db'"
begin

lemma calls_keep:
  assumes "op\<^sup>*\<^sup>* db db'" "canon_ok env db" "usage_ok db"
  shows "canon_ok env db' \<and> usage_ok db'"
  using assms by (induction rule: rtranclp_induct) (auto intro: keeps_chain keeps_usage)

lemma calls_verify:
  assumes "op\<^sup>*\<^sup>* db db'" "canon_ok env db" "usage_ok db"
  shows "ck_valid (verify_chain_canonical env t db') \<longleftrightarrow> \<not> no_evidence t db'"
  using calls_keep[OF assms] canon_ok_verifies by blast

end

definition event_written :: "store_env \<Rightarrow> canonical_db \<Rightarrow> canonical_db \<Rightarrow> bool" where
  "event_written env db db' \<longleftrightarrow> (\<exists>opt now sub res. honest env sub \<and> persist_event env opt now sub db = Inr (db', res))"

definition batch_written :: "store_env \<Rightarrow> canonical_db \<Rightarrow> canonical_db \<Rightarrow> bool" where
  "batch_written env db db' \<longleftrightarrow> (\<exists>opt now subs res. list_all (honest env) subs \<and> persist_events_batch env opt now subs db = Inr (db', res))"

definition legacy_written :: "store_env \<Rightarrow> canonical_db \<Rightarrow> canonical_db \<Rightarrow> bool" where
  "legacy_written env db db' \<longleftrightarrow> (\<exists>now i t inp l r. store_event (en_cte env) now i t inp (kb_legacy db) = Inr (l, r) \<and> db' = db\<lparr>kb_legacy := l\<rparr>)"

definition run_recorded :: "store_env \<Rightarrow> canonical_db \<Rightarrow> canonical_db \<Rightarrow> bool" where
  "run_recorded env db db' \<longleftrightarrow> (\<exists>run i. create_ingestion_run run db = Inr (db', i)) \<or>
     (\<exists>now i t a b errors. complete_ingestion_run env now i t a b errors db = Inr db')"

lemma run_recorded_runs: "run_recorded env db db' \<Longrightarrow> \<exists>rs. db' = db\<lparr>kb_runs := rs\<rparr>"
  by (auto simp: run_recorded_def create_ingestion_run_def complete_ingestion_run_def Let_def split: if_splits)

interpretation single: store_operation env "event_written env" for env
  by unfold_locales (auto simp: event_written_def intro: persist_event_ok persist_event_usage_ok)

interpretation batch: store_operation env "batch_written env" for env
proof unfold_locales
  fix db db' assume "batch_written env db db'" and ok: "canon_ok env db"
  then obtain opt now subs res where b: "\<forall>s \<in> set subs. honest env s" "persist_events_batch env opt now subs db = Inr (db', res)"
    by (auto simp: batch_written_def list_all_iff)
  show "canon_ok env db'" by (rule persist_events_batch_ok[OF b(2,1) ok])
  show "usage_ok db'" if "usage_ok db"
    using b(2,1)
  proof (cases rule: honest_batch_cases)
    case (batch t evs)
    from batch_events[OF batch(2) ok batch(3)] that show ?thesis by blast
  qed (use that in simp)
qed

interpretation legacy: store_operation env "legacy_written env" for env
  by unfold_locales (auto simp: legacy_written_def usage_ok_legacy intro: store_event_ok)

interpretation runs: store_operation env "run_recorded env" for env
  by unfold_locales (auto simp: usage_ok_legacy dest!: run_recorded_runs intro: canon_ok_same)

lemma canon_written_usage: "canon_written env db \<Longrightarrow> usage_ok db"
proof (induction rule: canon_written.induct)
  case canon_empty
  then show ?case by (simp add: usage_ok_def empty_canonical_db_def billed_units_def ledger_units_def)
next
  case (canon_event db sub opt now db' res)
  then have "event_written env db db'" unfolding event_written_def by blast
  from single.keeps_usage[OF this canon_written_ok[OF canon_event(1)]] canon_event show ?case by simp
next
  case (canon_batch db subs opt now db' rs)
  then have "batch_written env db db'" unfolding batch_written_def by blast
  from batch.keeps_usage[OF this canon_written_ok[OF canon_batch(1)]] canon_batch show ?case by simp
next
  case (canon_legacy db now i t inp l r)
  then show ?case by (simp add: usage_ok_legacy)
next
  case (canon_run db run db' i)
  then have "run_recorded env db db'" unfolding run_recorded_def by blast
  from runs.keeps_usage[OF this canon_written_ok[OF canon_run(1)]] canon_run show ?case by simp
next
  case (canon_run_done db now run_id t a b errors db')
  then have "run_recorded env db db'" unfolding run_recorded_def by blast
  from runs.keeps_usage[OF this canon_written_ok[OF canon_run_done(1)]] canon_run_done show ?case by simp
qed

text \<open>
  Claim C20 (invariant). No event is billed twice and none that was not stored: whatever has been written, the units that a tenant's monthly
  counters sum to are the events of the tenant in the ledger, each once, and at most the events stored for it.
\<close>

theorem usage_counted_once:
  assumes "canon_written env db"
  shows "billed_units t db = ledger_units t db \<and> distinct (map (\<lambda>(u, e, _). (u, e)) (kb_ledger db)) \<and>
    billed_units t db \<le> length (filter (\<lambda>r. tv_tenant_id r = t) (kb_events db))"
proof -
  note ok = canon_written_usage[OF assms]
  let ?l = "filter (\<lambda>(u, _, _). u = t) (kb_ledger db)" and ?key = "\<lambda>(u, e, _). (u, e)"
  have "distinct (map ?key (kb_ledger db))" using ok by (simp add: usage_ok_def)
  then have "distinct (map ?key ?l)" by (rule distinct_map_filter)
  then have "length ?l = card (set (map ?key ?l))" using distinct_card[of "map ?key ?l"] by simp
  also have "\<dots> \<le> card ((\<lambda>r. (tv_tenant_id r, tv_event_id r)) ` set (filter (\<lambda>r. tv_tenant_id r = t) (kb_events db)))"
    using ok by (intro card_mono) (fastforce simp: usage_ok_def)+
  also have "\<dots> \<le> length (filter (\<lambda>r. tv_tenant_id r = t) (kb_events db))"
    by (meson card_image_le card_length finite_set le_trans)
  finally show ?thesis using ok by (simp add: usage_ok_def ledger_units_def)
qed

theorem usage_counted_once_witness: "billed_units ''t1'' canon_toy2 = 2 \<and> length (kb_ledger canon_toy2) = 2"
proof -
  have "ledger_units ''t1'' canon_toy2 = 2" "length (kb_ledger canon_toy2) = 2" by code_simp+
  then show ?thesis using usage_counted_once[OF canon_written_toy(2), of "''t1''"] by simp
qed

section \<open>Supersession\<close>

lemma complete_write_events:
  assumes "complete_write env opt now sub ev seq sha previous chain computed db = Inr (db', res)"
  shows "\<exists>db1. mark_superseded now (cv_tenant_id ev) (cv_event_id ev) (sn_supersedes sub) (meter opt ev db) = Inr db1 \<and> kb_events db' = kb_events db1"
proof -
  from assms obtain db1 db2 db3 where steps:
    "mark_superseded now (cv_tenant_id ev) (cv_event_id ev) (sn_supersedes sub) (meter opt ev db) = Inr db1"
    "(if wo_skip_chain_write opt then Inr db1 else insert_chain_entry (chain_entry ev seq sha previous computed) db1) = Inr db2"
    "(if wo_dual_write opt then dual_write_legacy env ev sha chain db2 else Inr db2) = Inr db3"
    "create_transformation_links env ev db3 = Inr db'"
    unfolding complete_write_def and_then_eq_Inr_iff by blast
  have "kb_events db2 = kb_events db1" using steps(2) by (auto simp: insert_chain_entry_def dest: add_chain_entry_Inr split: if_splits)
  moreover have "kb_events db3 = kb_events db2" using steps(3) by (auto dest: dual_write_fields split: if_splits)
  moreover have "kb_events db' = kb_events db3" by (rule links_fields[OF steps(4)])
  ultimately show ?thesis using steps(1) by auto
qed

lemma mark_superseded_rows:
  assumes "mark_superseded now t e (Some old) db = Inr db'"
  obtains f where "\<And>r. f r = r \<or> tv_event_id r = old \<and> tv_tenant_id r = t \<and> tv_status r = ''active'' \<and> f r = r\<lparr>tv_status := ''superseded'', tv_amended_at := Some now\<rparr>" "kb_events db' = map f (kb_events db)" "\<And>r. tv_event_id (f r) = tv_event_id r \<and> tv_tenant_id (f r) = tv_tenant_id r"
    "\<And>r. tv_event_id r = old \<and> tv_tenant_id r = t \<Longrightarrow> tv_status (f r) \<noteq> ''active''" "\<And>r. \<not> (tv_event_id r = old \<and> tv_tenant_id r = t) \<Longrightarrow> f r = r"
proof -
  let ?f = "\<lambda>r. if tv_event_id r = old \<and> tv_tenant_id r = t \<and> tv_status r = ''active'' then r\<lparr>tv_status := ''superseded'', tv_amended_at := Some now\<rparr> else r"
  from assms show thesis by (intro that[of ?f]) (auto simp: mark_superseded_def split: if_splits)
qed

text \<open>
  Claim C19 (functional). An amendment that is stored takes the place of the event it names when that event is of the same tenant: it is not active
  any more and no query of the tenant's lots returns it. The only change to the stored events is that an active one of the tenant with the
  named identifier becomes superseded, with the time of the call; an event of another tenant stays as it was, also when it is the one named.
\<close>

theorem amendment_supersedes:
  assumes "persist_event env opt now sub db = Inr (db', res)" "honest env sub" "\<not> cr_idempotent res" "sn_supersedes sub = Some old"
    and "t = cv_tenant_id (sn_event sub)"
  shows "list_all (\<lambda>r. tv_event_id r = old \<and> tv_tenant_id r = t \<longrightarrow> tv_status r \<noteq> ''active'') (kb_events db') \<and>
    (\<forall>tlc a b. old \<notin> tv_event_id ` set (active_rows t tlc a b db')) \<and>
    list_all (\<lambda>r. r \<in> set (kb_events db') \<or> tv_event_id r = old \<and> tv_tenant_id r = t \<and> tv_status r = ''active'' \<and>
      r\<lparr>tv_status := ''superseded'', tv_amended_at := Some now\<rparr> \<in> set (kb_events db')) (kb_events db)"
  using assms(1,2)
proof (cases rule: persist_event_cases)
  case (replay r)
  then show ?thesis using assms(3) by (simp add: replay_answer_def)
next
  case (new ev row chain previous seq db1)
  have t: "cv_tenant_id ev = t" using prepared_tenant[OF new(1)] assms(5) by simp
  have db1: "db1 = db\<lparr>kb_events := kb_events db @ [row]\<rparr>" using insert_row_Inr[OF insert_event_Inr_row[OF new(6)]] by simp
  obtain db2 where db2: "mark_superseded now t (cv_event_id ev) (Some old) (meter opt ev db1) = Inr db2" "kb_events db' = kb_events db2"
    using complete_write_events[OF new(7)] t assms(4) by auto
  obtain f where g: "\<And>r. f r = r \<or> tv_event_id r = old \<and> tv_tenant_id r = t \<and> tv_status r = ''active'' \<and> f r = r\<lparr>tv_status := ''superseded'', tv_amended_at := Some now\<rparr>"
    and f: "kb_events db' = map f (kb_events db @ [row])" "\<And>r. tv_event_id (f r) = tv_event_id r \<and> tv_tenant_id (f r) = tv_tenant_id r"
      "\<And>r. tv_event_id r = old \<and> tv_tenant_id r = t \<Longrightarrow> tv_status (f r) \<noteq> ''active''" "\<And>r. \<not> (tv_event_id r = old \<and> tv_tenant_id r = t) \<Longrightarrow> f r = r"
    using mark_superseded_rows[OF db2(1)] db2(2) by (auto simp: db1)
  have gone: "tv_status r \<noteq> ''active''" if r: "r \<in> set (kb_events db')" "tv_event_id r = old" "tv_tenant_id r = t" for r
  proof -
    obtain x where "r = f x" using r(1) unfolding f(1) by auto
    then show ?thesis using f(2,3)[of x] r(2,3) by simp
  qed
  have kept: "f r \<in> set (kb_events db')" if "r \<in> set (kb_events db)" for r using that by (simp add: f(1))
  have "list_all (\<lambda>r. r \<in> set (kb_events db') \<or> tv_event_id r = old \<and> tv_tenant_id r = t \<and> tv_status r = ''active'' \<and>
      r\<lparr>tv_status := ''superseded'', tv_amended_at := Some now\<rparr> \<in> set (kb_events db')) (kb_events db)"
    unfolding list_all_iff using kept g by metis
  then show ?thesis using gone by (auto simp: list_all_iff active_rows_def)
qed

theorem amendment_supersedes_witness:
  "case persist_event canon_toy_env plain_options 9 (toy_submission ''e2'' ''L22'' (Some ''e1'')) canon_toy1 of
     Inl _ \<Rightarrow> False | Inr (db', res) \<Rightarrow> \<not> cr_idempotent res \<and> ''e1'' \<notin> tv_event_id ` set (active_rows ''t1'' ''L1'' None None db')"
proof -
  let ?p = "persist_event canon_toy_env plain_options 9 (toy_submission ''e2'' ''L22'' (Some ''e1'')) canon_toy1"
  have run: "case ?p of Inl _ \<Rightarrow> False | Inr (db', res) \<Rightarrow> \<not> cr_idempotent res" by code_simp
  have h: "honest canon_toy_env (toy_submission ''e2'' ''L22'' (Some ''e1''))" using toy_honest(2) by simp
  obtain db' res where p: "?p = Inr (db', res)" "\<not> cr_idempotent res" using run by (auto split: sum.splits)
  have "sn_supersedes (toy_submission ''e2'' ''L22'' (Some ''e1'')) = Some ''e1''" "''t1'' = cv_tenant_id (sn_event (toy_submission ''e2'' ''L22'' (Some ''e1'')))"
    by (simp_all add: toy_submission_def blank_event_def)
  from amendment_supersedes[OF p(1) h p(2) this] p(2) show ?thesis unfolding p(1) by simp
qed

text \<open>An amendment may name an event of another tenant: it is stored with that reference, and the event stays active.\<close>

lemma foreign_supersede_stored:
  "case persist_event canon_toy_env plain_options 9 ((toy_submission ''e9'' ''L9'' (Some ''e1''))
       \<lparr>sn_event := (sn_event (toy_submission ''e9'' ''L9'' None))\<lparr>cv_tenant_id := ''t2''\<rparr>\<rparr>) canon_toy1 of
     Inl _ \<Rightarrow> False
   | Inr (db', res) \<Rightarrow> map (\<lambda>r. (tv_event_id r, tv_tenant_id r, tv_status r, tv_supersedes r)) (kb_events db') =
       [(''e1'', ''t1'', ''active'', None), (''e9'', ''t2'', ''active'', Some ''e1'')]"
  by code_simp

text \<open>The batch writer stores the reference to the superseded event and leaves that event active.\<close>

lemma batch_leaves_superseded_active:
  "map (\<lambda>r. (tv_event_id r, tv_status r, tv_supersedes r)) (kb_events canon_toy2) =
     [(''e1'', ''active'', None), (''e2'', ''active'', Some ''e1'')]"
  by code_simp

text \<open>The batch writer makes chain entries also when it is told to skip them.\<close>

lemma batch_ignores_skip:
  "length (cd_chain (kb_legacy (kept_db empty_canonical_db (persist_events_batch canon_toy_env (plain_options\<lparr>wo_skip_chain_write := True\<rparr>) 9
     [toy_submission ''e1'' ''L1'' None] empty_canonical_db)))) = 1"
  by code_simp

text \<open>A quantity of zero passes the model of the event and is refused by the table, together with the batch it came in.\<close>

lemma zero_quantity_refused:
  "(let zero = (toy_submission ''e1'' ''L1'' None)\<lparr>sn_event := (sn_event (toy_submission ''e1'' ''L1'' None))\<lparr>cv_quantity := Fin 0\<rparr>\<rparr>
    in persist_event canon_toy_env plain_options 9 zero empty_canonical_db = Inl integrity_error \<and>
       persist_events_batch canon_toy_env plain_options 9 [toy_submission ''e2'' ''L22'' None, zero] empty_canonical_db = Inl integrity_error)"
  unfolding Let_def by (intro conjI; code_simp)

text \<open>
  A chained event with a copy in the legacy table is not tied to its entry: content and stored hash can be rewritten together, and the
  verifier accepts the result.
\<close>

definition rewritten_row :: "canonical_row \<Rightarrow> canonical_row" where
  "rewritten_row r = (let q = r\<lparr>tv_traceability_lot_code := ''L999''\<rparr>
     in q\<lparr>tv_sha256_hash := recompute_event_sha256 canon_toy_env (tv_event_id q) q [(''event_timestamp'', PStr ''1970-01-01'')]\<rparr>)"

definition dual_toy :: canonical_db where
  "dual_toy = kept_db empty_canonical_db (persist_event canon_toy_env (plain_options\<lparr>wo_dual_write := True\<rparr>) 9 (toy_submission ''e1'' ''L1'' None) empty_canonical_db)"

lemma dual_written_content_not_committed:
  "ck_valid (verify_chain_canonical canon_toy_env ''t1'' (dual_toy\<lparr>kb_events := map rewritten_row (kb_events dual_toy)\<rparr>)) \<and>
   map tv_traceability_lot_code (kb_events (dual_toy\<lparr>kb_events := map rewritten_row (kb_events dual_toy)\<rparr>)) = [''L999''] \<and>
   \<not> ck_valid (verify_chain_canonical canon_toy_env ''t1'' (canon_toy1\<lparr>kb_events := map rewritten_row (kb_events canon_toy1)\<rparr>))"
proof (intro conjI)
  show "ck_valid (verify_chain_canonical canon_toy_env ''t1'' (dual_toy\<lparr>kb_events := map rewritten_row (kb_events dual_toy)\<rparr>))" by code_simp
  show "map tv_traceability_lot_code (kb_events (dual_toy\<lparr>kb_events := map rewritten_row (kb_events dual_toy)\<rparr>)) = [''L999'']" by code_simp
  show "\<not> ck_valid (verify_chain_canonical canon_toy_env ''t1'' (canon_toy1\<lparr>kb_events := map rewritten_row (kb_events canon_toy1)\<rparr>))" by code_simp
qed

section \<open>Tenants\<close>

text \<open>Everything in the tables that is not a tenant's own.\<close>

definition others :: "string \<Rightarrow> canonical_db \<Rightarrow> canonical_db" where
  "others t db =
     \<lparr>kb_events = filter (\<lambda>r. tv_tenant_id r \<noteq> t) (kb_events db),
      kb_legacy = \<lparr>cd_events = filter (\<lambda>r. ce_tenant_id r \<noteq> t) (cd_events (kb_legacy db)), cd_kdes = filter (\<lambda>r. kr_tenant_id r \<noteq> t) (cd_kdes (kb_legacy db)),
        cd_chain = filter (\<lambda>r. hc_tenant_id r \<noteq> t) (cd_chain (kb_legacy db)), cd_alerts = cd_alerts (kb_legacy db)\<rparr>,
      kb_links = filter (\<lambda>l. lk_tenant_id l \<noteq> t) (kb_links db), kb_runs = kb_runs db,
      kb_ledger = filter (\<lambda>(u, _, _). u \<noteq> t) (kb_ledger db), kb_counters = filter (\<lambda>c. uc_tenant_id c \<noteq> t) (kb_counters db)\<rparr>"

lemma others_count_unit: "filter (\<lambda>c. uc_tenant_id c \<noteq> t) (count_unit t p cs) = filter (\<lambda>c. uc_tenant_id c \<noteq> t) cs"
proof (cases "list_ex (\<lambda>c. uc_tenant_id c = t \<and> uc_period_start c = fst p) cs")
  case True
  then have "count_unit t p cs = map (\<lambda>c. if uc_tenant_id c = t \<and> uc_period_start c = fst p then c\<lparr>uc_unit_count := Suc (uc_unit_count c)\<rparr> else c) cs"
    by (simp add: count_unit_def)
  then show ?thesis by (simp add: filter_map_frame)
qed (simp add: count_unit_def)

lemma others_meter: "cv_tenant_id ev = t \<Longrightarrow> others t (meter opt ev db) = others t db"
  by (simp add: meter_def increment_usage_for_event_def others_def Let_def others_count_unit)

lemma others_superseded: "mark_superseded now t e s db = Inr db' \<Longrightarrow> others t db' = others t db"
  by (auto simp: mark_superseded_def others_def filter_map_frame split: option.splits if_splits)

lemma others_entry: "add_chain_entry c db = Inr db' \<Longrightarrow> hc_tenant_id c = t \<Longrightarrow> others t db' = others t db"
  by (auto simp: others_def dest!: add_chain_entry_Inr)

lemma others_row: "insert_canonical_row r db = Inr (db', b) \<Longrightarrow> tv_tenant_id r = t \<Longrightarrow> others t db' = others t db"
  using insert_row_Inr[of r db db' b] by (auto simp: others_def split: if_splits)

lemma others_kdes:
  "insert_legacy_kdes ks l = Inr l' \<Longrightarrow> list_all (\<lambda>k. kr_tenant_id k = t) ks \<Longrightarrow> others t (db\<lparr>kb_legacy := l'\<rparr>) = others t (db\<lparr>kb_legacy := l\<rparr>)"
proof (induction ks arbitrary: l)
  case (Cons k ks)
  from Cons.prems(1) obtain l1 where l1: "insert_legacy_kde k l = Inr l1" "insert_legacy_kdes ks l1 = Inr l'" by (auto simp: and_then_eq_Inr_iff)
  have "others t (db\<lparr>kb_legacy := l1\<rparr>) = others t (db\<lparr>kb_legacy := l\<rparr>)"
    using l1(1) Cons.prems(2) by (auto simp: insert_legacy_kde_def insert_kde_def others_def split: if_splits)
  with Cons.IH[OF l1(2)] Cons.prems(2) show ?case by simp
qed simp

lemma others_dual_write:
  assumes "dual_write_legacy env ev sha chain db = Inr db'" "cv_tenant_id ev = t"
  shows "others t db' = others t db"
proof -
  from assms(1) obtain l l' where l: "insert_legacy (en_cte env) (legacy_row env ev sha chain) (kb_legacy db) = Inr l"
    "insert_legacy_kdes (kde_rows_of (en_cte env) (cv_tenant_id ev) (cv_event_id ev) (cv_kdes ev)) l = Inr l'" "db' = db\<lparr>kb_legacy := l'\<rparr>"
    by (auto simp: dual_write_legacy_def and_then_eq_Inr_iff)
  have "others t (db\<lparr>kb_legacy := l\<rparr>) = others t db"
    using l(1) assms(2) by (auto simp: insert_legacy_def legacy_row_def others_def split: if_splits)
  moreover have "list_all (\<lambda>k. kr_tenant_id k = t) (kde_rows_of (en_cte env) (cv_tenant_id ev) (cv_event_id ev) (cv_kdes ev))"
    using assms(2) by (auto simp: kde_rows_of_def list_all_iff)
  ultimately show ?thesis using others_kdes[OF l(2)] l(3) by simp
qed

lemma others_add_link: "add_link env ev ds x db = Inr db' \<Longrightarrow> cv_tenant_id ev = t \<Longrightarrow> others t db' = others t db"
  by (auto simp: add_link_def link_of_def Let_def others_def and_then_eq_Inr_iff split: pyval.splits sum.splits if_splits)

lemma others_links:
  assumes "create_transformation_links env ev db = Inr db'" "cv_tenant_id ev = t"
  shows "others t db' = others t db"
proof -
  have "others t db' = others t db" if "for_each (add_link env ev ds) xs db = Inr db'" for ds xs
    by (rule for_each_keeps[OF _ that, where P = "\<lambda>d. others t d = others t db"]) (simp_all add: others_add_link[OF _ assms(2)])
  then show ?thesis using assms(1) by (auto simp: create_transformation_links_def and_then_eq_Inr_iff split: if_splits pyval.splits)
qed

lemma others_complete_write:
  assumes "complete_write env opt now sub ev seq sha previous chain computed db = Inr (db', res)" "cv_tenant_id ev = t"
  shows "others t db' = others t db"
proof -
  let ?c = "chain_entry ev seq sha previous computed"
  from assms(1) obtain db1 db2 db3 where steps:
    "mark_superseded now (cv_tenant_id ev) (cv_event_id ev) (sn_supersedes sub) (meter opt ev db) = Inr db1"
    "(if wo_skip_chain_write opt then Inr db1 else insert_chain_entry ?c db1) = Inr db2"
    "(if wo_dual_write opt then dual_write_legacy env ev sha chain db2 else Inr db2) = Inr db3"
    "create_transformation_links env ev db3 = Inr db'"
    unfolding complete_write_def and_then_eq_Inr_iff by blast
  have "others t db1 = others t db" using others_superseded[of now t] others_meter[OF assms(2)] steps(1) assms(2) by metis
  moreover have "others t db2 = others t db1"
    using steps(2) others_entry[of ?c db1 db2 t] assms(2) by (auto simp: insert_chain_entry_def chain_entry_def split: if_splits)
  moreover have "others t db3 = others t db2" using steps(3) others_dual_write[OF _ assms(2)] by (auto split: if_splits)
  ultimately show ?thesis using others_links[OF steps(4) assms(2)] by simp
qed

lemma others_persist_event:
  assumes "persist_event env opt now sub db = Inr (db', res)" "cv_tenant_id (sn_event sub) = t"
  shows "others t db' = others t db"
proof -
  obtain ev where ev: "prepared env (sn_event sub) = Inr ev"
    and r: "db' = db \<or> write_new env opt now sub ev db = Inr (db', res)"
    using assms(1) unfolding persist_event_def and_then_eq_Inr_iff Let_def by (auto split: option.splits if_splits)
  have t: "cv_tenant_id ev = t" using prepared_tenant[OF ev] assms(2) by simp
  from r show ?thesis
  proof
    assume w: "write_new env opt now sub ev db = Inr (db', res)"
    obtain previous seq where nl: "next_link (cv_tenant_id ev) (kb_legacy db) = (previous, seq)" by fastforce
    from w obtain chain row z where pre: "event_to_params env now sub ev chain = Inr row" "insert_canonical_event row db = Inr z"
      "(case z of (db1, landed) \<Rightarrow> case (if landed \<or> str_or (cv_idempotency_key ev) [] = [] then None
          else stored_row (cv_tenant_id ev) (str_or (cv_idempotency_key ev) []) db1) of Some r \<Rightarrow> Inr (db1, replay_answer r)
        | None \<Rightarrow> complete_write env opt now sub ev seq (str_or (cv_sha256_hash ev) []) previous chain
           (compute_chain_hash (cs_H (en_cte env)) (str_or (cv_sha256_hash ev) []) previous) db1) = Inr (db', res)"
      unfolding write_new_def Let_def nl prod.case and_then_eq_Inr_iff by blast
    obtain db1 landed where z: "z = (db1, landed)" by fastforce
    have "others t db1 = others t db"
      using others_row[OF insert_event_Inr_row[OF pre(2)[unfolded z]]] params_fields[OF pre(1)] t by simp
    moreover have "others t db' = others t db1" using pre(3) others_complete_write[OF _ t] by (auto simp: z split: option.splits if_splits)
    ultimately show ?thesis by simp
  qed simp
qed

lemma others_insert_rows: "insert_rows rs db = Inr (db', ins) \<Longrightarrow> list_all (\<lambda>r. tv_tenant_id r = t) rs \<Longrightarrow> others t db' = others t db"
proof (induction rs arbitrary: db ins)
  case (Cons r rs)
  from Cons.prems(1) obtain db1 landed ins' where s: "insert_canonical_row r db = Inr (db1, landed)" "insert_rows rs db1 = Inr (db', ins')"
    by (auto simp: and_then_eq_Inr_iff)
  from Cons.IH[OF s(2)] others_row[OF s(1), of t] Cons.prems(2) show ?case by simp
qed simp

lemma others_insert_chunks:
  "insert_chunks env now css db = Inr (db', ids) \<Longrightarrow> list_all (\<lambda>(_, ev, _). cv_tenant_id ev = t) (concat css) \<Longrightarrow> others t db' = others t db"
proof (induction css arbitrary: db ids)
  case (Cons items css)
  from Cons.prems(1) obtain db1 ids1 ids2 where s: "batch_insert_canonical_events env now items db = Inr (db1, ids1)"
    "insert_chunks env now css db1 = Inr (db', ids2)" by (auto simp: and_then_eq_Inr_iff)
  from s(1) obtain rows ins where r: "map_err (\<lambda>(sub, ev, c). event_to_params env now sub ev (hc_chain_hash c)) items = Inr rows" "insert_rows rows db = Inr (db1, ins)"
    by (auto simp: batch_insert_canonical_events_def and_then_eq_Inr_iff split: if_splits)
  have rows: "planned_rows env now items rows"
    using map_err_all2[OF r(1)] by (auto simp: planned_rows_def elim!: list_all2_mono split: prod.splits)
  have "list_all (\<lambda>r. tv_tenant_id r = t) rows"
    unfolding list_all_iff
  proof
    fix x assume "x \<in> set rows"
    with rows show "tv_tenant_id x = t"
      by (rule planned_rows_mem) (use Cons.prems(2) params_fields(2) in \<open>fastforce simp: list_all_iff\<close>)
  qed
  then show ?case using others_insert_rows[OF r(2)] Cons.IH[OF s(2)] Cons.prems(2) by simp
qed simp

lemma others_for_each:
  assumes "for_each f xs db = Inr db'" "\<And>x db db'. x \<in> set xs \<Longrightarrow> f x db = Inr db' \<Longrightarrow> others t db' = others t db"
  shows "others t db' = others t db"
  using for_each_keeps[of xs f "\<lambda>d. others t d = others t db" db db'] assms by auto

lemma others_write_batch:
  assumes "write_batch env opt now t subs evs db = Inr (db', res)" "\<forall>ev \<in> set evs. cv_tenant_id ev = t"
  shows "others t db' = others t db"
proof -
  obtain previous seq where nl: "next_link t (kb_legacy db) = (previous, seq)" by fastforce
  obtain results new where plan: "plan_batch (cs_H (en_cte env)) (stored_keys t evs db) previous seq (zip subs evs) = (results, new)" by fastforce
  have items: "cv_tenant_id ev = t \<and> hc_tenant_id c = t" if "(sub, ev, c) \<in> set new" for sub ev c
    using plan_new[OF plan that] assms(2) by (auto dest: set_zip_rightD)
  obtain z where z: "insert_chunks env now (chunked 50 new) db = Inr z"
    using assms(1) unfolding write_batch_def Let_def nl plan prod.case and_then_eq_Inr_iff by blast
  obtain db1 ids where zz: "z = (db1, ids)" by fastforce
  let ?landed = "filter (\<lambda>(_, ev, _). cv_event_id ev \<in> set ids) new"
  from assms(1) obtain db2 db3 db4 where steps: "for_each (\<lambda>(_, _, c). add_chain_entry c) ?landed db1 = Inr db2"
    "for_each (\<lambda>(_, ev, _). create_transformation_links env ev) ?landed db2 = Inr db3"
    "for_each (\<lambda>(_, ev, _) db. Inr (meter opt ev db)) ?landed db3 = Inr db4"
    "(if wo_dual_write opt then for_each (\<lambda>(_, ev, c). dual_write_legacy env ev (hc_event_hash c) (hc_chain_hash c)) ?landed db4 else Inr db4) = Inr db'"
    unfolding write_batch_def Let_def nl plan prod.case z zz and_then_Inr by (auto simp: and_then_eq_Inr_iff)
  have "others t db1 = others t db"
    using items by (intro others_insert_chunks[OF z[unfolded zz]]) (auto simp: concat_chunked list_all_iff)
  moreover have "others t db2 = others t db1"
    by (rule others_for_each[OF steps(1)]) (use items others_entry in \<open>fastforce split: prod.splits\<close>)
  moreover have "others t db3 = others t db2"
    by (rule others_for_each[OF steps(2)]) (use items others_links in \<open>fastforce split: prod.splits\<close>)
  moreover have "others t db4 = others t db3"
    by (rule others_for_each[OF steps(3)]) (use items others_meter in \<open>fastforce split: prod.splits\<close>)
  moreover have "others t db' = others t db4"
  proof (cases "wo_dual_write opt")
    case True
    then have "for_each (\<lambda>(_, ev, c). dual_write_legacy env ev (hc_event_hash c) (hc_chain_hash c)) ?landed db4 = Inr db'" using steps(4) by simp
    then show ?thesis by (rule others_for_each) (use items others_dual_write in \<open>fastforce split: prod.splits\<close>)
  qed (use steps(4) in simp)
  ultimately show ?thesis by simp
qed

text \<open>
  Claim C17 (safety). A write touches the rows of its tenant only: one event or a batch, whatever the options and whatever event it claims
  to supersede, leaves every row of the other tenants in the event, chain, legacy, link, ledger and counter tables, their order, all
  alerts and all ingestion runs as they were.
\<close>

theorem canonical_writes_stay_in_tenant:
  "(persist_event env opt now sub db = Inr (db1, res) \<longrightarrow> others (cv_tenant_id (sn_event sub)) db1 = others (cv_tenant_id (sn_event sub)) db) \<and>
   (persist_events_batch env opt now (sub # rest) db = Inr (db2, results) \<longrightarrow>
      others (cv_tenant_id (sn_event sub)) db2 = others (cv_tenant_id (sn_event sub)) db)"
proof (intro conjI impI)
  assume "persist_events_batch env opt now (sub # rest) db = Inr (db2, results)"
  then show "others (cv_tenant_id (sn_event sub)) db2 = others (cv_tenant_id (sn_event sub)) db"
  proof (cases rule: persist_events_batch_cases)
    case (batch t evs)
    note all2 = map_err_all2[OF batch(2)]
    have t: "cv_tenant_id (sn_event sub) = t" using batch(1) by simp
    have "cv_tenant_id ev = t" if ev: "ev \<in> set evs" for ev
    proof -
      obtain i where i: "i < length evs" "evs ! i = ev" using ev by (auto simp: in_set_conv_nth)
      have "(sub # rest) ! i \<in> set (sub # rest)" using list_all2_lengthD[OF all2] i(1) by (metis nth_mem)
      then show ?thesis using prepared_tenant[of env] list_all2_nthD2[OF all2 i(1)] i(2) batch(1) by metis
    qed
    then show ?thesis using others_write_batch[OF batch(3)] t by blast
  qed simp
qed (rule others_persist_event, simp_all)

theorem canonical_writes_stay_in_tenant_witness:
  "case persist_event canon_toy_env plain_options 9 ((toy_submission ''e9'' ''L9'' (Some ''e1''))
       \<lparr>sn_event := (sn_event (toy_submission ''e9'' ''L9'' None))\<lparr>cv_tenant_id := ''t2''\<rparr>\<rparr>) canon_toy2 of
     Inl _ \<Rightarrow> False | Inr (db1, _) \<Rightarrow> others ''t2'' db1 = others ''t2'' canon_toy2 \<and> length (kb_events db1) = 3"
proof -
  let ?s = "(toy_submission ''e9'' ''L9'' (Some ''e1''))\<lparr>sn_event := (sn_event (toy_submission ''e9'' ''L9'' None))\<lparr>cv_tenant_id := ''t2''\<rparr>\<rparr>"
  let ?p = "persist_event canon_toy_env plain_options 9 ?s canon_toy2"
  have run: "case ?p of Inl _ \<Rightarrow> False | Inr (db1, _) \<Rightarrow> length (kb_events db1) = 3" by code_simp
  obtain db1 res where p: "?p = Inr (db1, res)" "length (kb_events db1) = 3" using run by (auto split: sum.splits)
  have "cv_tenant_id (sn_event ?s) = ''t2''" by simp
  with canonical_writes_stay_in_tenant[THEN conjunct1, rule_format, OF p(1)] p(2) show ?thesis unfolding p(1) by simp
qed

section \<open>The Merkle summary over both stores\<close>

text \<open>\<^verbatim>\<open>verify_chain_merkle\<close> of the legacy store with the answer of the canonical verifier it asks.\<close>

definition merkle_summary :: "store_env \<Rightarrow> string \<Rightarrow> canonical_db \<Rightarrow> MerkleVerification" where
  "merkle_summary env t db =
     (let v = verify_chain_canonical env t db
      in verify_chain_merkle (en_cte env)
           \<lparr>cw_valid = ck_valid v, cw_errors = ck_errors v, cw_chain_length = ck_chain_length v, cw_legacy_chain_rows = length (ck_legacy_chain_rows v)\<rparr>
           t (kb_legacy db))"

text \<open>On tables that were written the summary of a chain is valid exactly when no entry belongs to a legacy event alone.\<close>

lemma merkle_summary_valid:
  assumes "canon_written env db" "chain_of t (kb_legacy db) \<noteq> []"
  shows "mv_valid (merkle_summary env t db) \<longleftrightarrow> ck_legacy_chain_rows (verify_chain_canonical env t db) = []"
proof -
  let ?v = "verify_chain_canonical env t db"
  have "ck_valid ?v" using canon_ok_verifies[OF canon_written_ok[OF assms(1)], of t] assms(2) by (simp add: no_evidence_def)
  moreover from this have "ck_errors ?v = []" by (simp add: verify_chain_canonical_def Let_def)
  moreover have "ck_chain_length ?v = length (chain_of t (kb_legacy db))" by (simp add: verify_chain_canonical_def Let_def)
  ultimately show ?thesis using assms(2) by (simp add: merkle_summary_def verify_chain_merkle_def Let_def)
qed

text \<open>
  For an empty chain the summary counts the legacy events only: a tenant with canonical events and no entry is summarised as valid,
  where the canonical verifier refuses to attest it.
\<close>

definition chainless_toy :: canonical_db where
  "chainless_toy = kept_db empty_canonical_db (persist_event canon_toy_env (plain_options\<lparr>wo_skip_chain_write := True\<rparr>) 9
     (toy_submission ''e1'' ''L1'' None) empty_canonical_db)"

lemma merkle_summary_misses_canonical_events:
  "mv_valid (merkle_summary canon_toy_env ''t1'' chainless_toy) \<and> ck_no_chain_evidence (verify_chain_canonical canon_toy_env ''t1'' chainless_toy) \<and>
   \<not> ck_valid (verify_chain_canonical canon_toy_env ''t1'' chainless_toy)"
proof (intro conjI)
  show "mv_valid (merkle_summary canon_toy_env ''t1'' chainless_toy)" by code_simp
  show "ck_no_chain_evidence (verify_chain_canonical canon_toy_env ''t1'' chainless_toy)" by code_simp
  show "\<not> ck_valid (verify_chain_canonical canon_toy_env ''t1'' chainless_toy)" by code_simp
qed

end
