(* ===== verification/Spec2Isabelle.thy ===== *)
theory Spec2Isabelle
  imports FsmaValidation EnginePersistence Enforcement CircuitBreaker CteBatch AuditLog TaskQueue RecallWorksheet
    ExceptionQueue EpcisIngest IdentitySafety CanonicalSafety
begin

text \<open>
  RegEngine is a compliance service for the FDA Food Traceability Rule (FSMA 204). Events of
  the supply chain (harvesting, packing, shipping, receiving, transformation) are ingested for
  a tenant, normalised to one canonical form, judged by rules, possibly rejected, hashed into a
  tamper-evident chain and exported; failed rules open cases in an exception queue, and a
  request of the agency is answered by a package that passes a gate before it is submitted.
  This development models the core of the package \<^verbatim>\<open>src/services/shared\<close> that carries those
  decisions, the EPCIS normalisation of \<^verbatim>\<open>src/services/ingestion/app/epcis\<close> and the count of billable events; paths below are
  relative to the first unless they say otherwise.

  \<^bold>\<open>Ingestion.\<close>

  \<^item> \<^verbatim>\<open>fsma_validation.py\<close>: theory \<open>FsmaValidation\<close>. Check digits and validators of GS1
    identifiers and lot codes. Shown: single-digit errors are always detected, the exact blind
    spot of transpositions, computing and verifying agree, GTINs normalise to fourteen digits,
    validation fails closed.

  \<^item> \<^verbatim>\<open>epcis_lot_identity.py\<close>: theory \<open>LotIdentity\<close>. Lots as class URIs, digital links or bare
    tokens. Shown: a full identity parses back to itself, a rebuilt GTIN validates.

  \<^item> \<^verbatim>\<open>canonical_event.py\<close>: theories \<open>CanonicalEvent\<close> (the event, its versions, hash and key, the
    webhook and CSV normalisers) and \<open>EpcisCanonical\<close> (the EPCIS normaliser). The EPCIS rows of
    \<^verbatim>\<open>services/ingestion/app/epcis\<close> (\<^verbatim>\<open>extraction.py\<close>, \<^verbatim>\<open>normalization.py\<close>): theory \<open>EpcisIngest\<close>. Shown: a
    prepared event verifies and preparing is idempotent, nothing that a row or a document lacks
    is filled in, unknown versions are refused, the two EPCIS writers agree on the event type
    and can differ in the quantity.

  \<^item> \<^verbatim>\<open>identity_resolution\<close>: theories \<open>IdentityStore\<close> (all modules: registration, matching, merging,
    review, resolution of the references of an event, over four tables with the constraints of
    the migrations) and \<open>IdentitySafety\<close>; \<open>SequenceMatcher\<close> is the ratio of \<^verbatim>\<open>difflib\<close> that scores
    names. The locale \<open>identity_operation\<close> is the contract of the eight writing operations (a
    tenant that the service is not bound to is refused; on consistent tables the effect is
    lawful), the step relation \<open>id_step\<close> has a rule for each. Shown: the tables stay consistent,
    tenants do not touch each other, a split undoes the merge of one entity and does not undo
    that of several, a known reference is found again, lots are never registered.

  \<^bold>\<open>Rules.\<close>

  \<^item> \<^verbatim>\<open>rules/types.py\<close>, \<^verbatim>\<open>rules/utils.py\<close>, \<^verbatim>\<open>rules/verdict.py\<close>: theory \<open>RuleTypes\<close>. The rule, its
    result, the summary of an event with its tri-state verdict, dotted paths, and the status
    shown to regulators. Shown: when that status is \<open>PASS\<close>, and that a failing row decides.

  \<^item> \<^verbatim>\<open>rules/uom.py\<close>: theory \<open>Uom\<close>. Units of mass and of containers, temperatures, the lifecycle
    order of events. \<^verbatim>\<open>rules/ftl.py\<close>: theory \<open>Ftl\<close>. Coverage by the Food Traceability List.

  \<^item> \<^verbatim>\<open>rules/evaluators/stateless.py\<close>: theory \<open>StatelessEval\<close>. The five evaluators that look at
    one event. The locale \<open>rule_evaluator\<close> is the contract the engine relies on (the result
    names the rule and has a known outcome, a failure is explained); each evaluator interprets
    it, and every entry of the dispatch table satisfies it.

  \<^item> \<open>DbSession\<close>: the tables and the SQL statements of the engine, one open transaction, and the
    savepoint pattern around every write.

  \<^item> \<^verbatim>\<open>rules/evaluators/relational.py\<close>: theory \<open>RelationalEval\<close>. The three evaluators that query
    the other events of a lot. The locale \<open>relational_contract\<close> adds tenant isolation to the
    contract above (a \<open>sublocale\<close> gives that one back); each evaluator interprets it. Shown:
    isolation of tenants, the exact outcome of temporal order and identity, no verdict on
    masses without weights, exactness of the floating-point totals below \<open>2 ^ 53\<close>.

  \<^item> \<^verbatim>\<open>rules/engine.py\<close>: theories \<open>RulesEngine\<close> (all operations, and what evaluation computes) and
    \<open>EnginePersistence\<close> (what persistence leaves in the tables). The state of the engine object
    is the record \<open>engine\<close>: session, rule cache, time of loading, counters of clock readings and
    of fresh identifiers. The locale \<open>absorbing_write\<close> is the contract of a persistence step
    (in a usable transaction with savepoints it returns normally and leaves the transaction
    usable); dead-letter, marker, verdict stamping, evaluations and batches interpret it.
    Shown: when an event is compliant, consistent counters, agreement of the single and the
    batch path and where they differ, tenant frame of all writes, no evaluation row lost.

  \<^item> \<^verbatim>\<open>rules/enforcement.py\<close>: theory \<open>Enforcement\<close>. The reject decision under the configured mode
    and the process-wide bookkeeping around it. Shown: the decision is a function of mode and
    summary, the modes are ordered, a rejection is explained, unknown modes fail closed.

  \<^bold>\<open>Records that cannot be changed unnoticed.\<close>

  \<^item> \<^verbatim>\<open>merkle_tree.py\<close>: theory \<open>MerkleTree\<close>; \<^verbatim>\<open>cte_persistence/hashing.py\<close>: theory \<open>CteHashing\<close>. Event
    hashes, the hash chain, idempotency keys, trees and inclusion proofs. Shown: completeness,
    soundness and length of proofs, what roots and chain heads commit to, what hashes identify.

  \<^item> \<^verbatim>\<open>cte_persistence\<close> (\<^verbatim>\<open>core.py\<close>, \<^verbatim>\<open>models.py\<close>, \<^verbatim>\<open>writes.py\<close>, \<^verbatim>\<open>batch.py\<close>, \<^verbatim>\<open>verification.py\<close>): theories
    \<open>CteStore\<close> (tables with their unique keys, single writes), \<open>ChainVerify\<close> (verification and
    proofs) and \<open>CteBatch\<close> (batch writes). Shown: whatever was written verifies, a verified
    chain is committed to by its head, a batch leaves what single writes leave, a retry
    changes nothing.

  \<^item> \<^verbatim>\<open>canonical_persistence\<close> (\<^verbatim>\<open>writer.py\<close>, \<^verbatim>\<open>legacy_dual_write.py\<close>, \<^verbatim>\<open>verification.py\<close>, \<^verbatim>\<open>models.py\<close>)
    and the count of billable events (\<^verbatim>\<open>services/ingestion/app/stripe_billing/usage.py\<close>): theories
    \<open>CanonicalStore\<close> (the record \<open>canonical_db\<close> of the tables, which holds those of \<open>CteStore\<close>, and all
    operations), \<open>CanonicalChain\<close> (the chain that both writers share) and \<open>CanonicalSafety\<close>. The
    locale \<open>store_operation\<close> is the contract of a writing operation (it keeps the chain and the
    counters good); single writes, batches, the legacy writer and the ingestion runs interpret
    it. Shown: whatever both writers stored verifies, the head of an accepted chain commits to
    the content of the events, writes stay in their tenant, an amendment replaces its event,
    no event is billed twice, a trace ends and is complete unless it says otherwise; and where
    the batch writer and the Merkle summary fall behind.

  \<^item> \<^verbatim>\<open>audit_logging\<close>: theories \<open>AuditChain\<close> (\<^verbatim>\<open>schema.py\<close>, \<^verbatim>\<open>integrity.py\<close>) and \<open>AuditLog\<close> (\<^verbatim>\<open>storage.py\<close>,
    \<^verbatim>\<open>writer.py\<close>). The locale \<open>audit_backend_laws\<close> is the contract of a store, which the in-memory
    store interprets. Shown: what the chain commits to, the two verifiers agree, an audited
    call is recorded, which events still verify after they are read back.

  \<^bold>\<open>Answering a request.\<close>

  \<^item> \<^verbatim>\<open>request_workflow\<close>: theories \<open>RequestWorkflow\<close> (\<^verbatim>\<open>constants.py\<close>, \<^verbatim>\<open>utils.py\<close>, \<^verbatim>\<open>intake.py\<close>,
    \<^verbatim>\<open>collection.py\<close>, \<^verbatim>\<open>assembly.py\<close>), \<open>RequestSubmission\<close> (the gate, \<^verbatim>\<open>submission.py\<close>, \<^verbatim>\<open>queries.py\<close>)
    and \<open>WorkflowSafety\<close>. The state is the record \<open>wf_db\<close> of the tables; the step relation
    \<open>wf_step\<close> has a rule per operation and outcome. The locale \<open>tenant_operation\<close> is the contract
    of an operation of one tenant (it keeps the records of the others and the evidence),
    \<open>atomic_operation\<close> adds that a refused operation changes nothing; all eight operations
    interpret the first and all but the amendment the second. Shown: what a submission
    without force has passed, the invariant of the records, the tenant frame.

  \<^item> \<^verbatim>\<open>exception_queue.py\<close> and the state machine of the supplier remediation that writes the same
    table (\<^verbatim>\<open>services/ingestion/app/remediation/state.py\<close>): theory \<open>ExceptionQueue\<close>. The locale \<open>queue_operation\<close> is the contract of
    its operations, the reachability relation \<open>queue_reach\<close> is closed under them. Shown: the life
    cycle of a case, the cases of an evaluation, and that a critical failure stops the package.

  \<^item> \<^verbatim>\<open>recall_reconstruction\<close>: theories \<open>RecallCustody\<close> (\<^verbatim>\<open>labels.py\<close>, \<^verbatim>\<open>records.py\<close>, \<^verbatim>\<open>chain.py\<close>) and
    \<open>RecallWorksheet\<close> (\<^verbatim>\<open>worksheet.py\<close>). Shown: what stands behind a row that is not unresolved,
    every pallet is covered, the lineage is the transitive closure, cycles included.

  \<^item> \<^verbatim>\<open>fda_export\<close>: theory \<open>FdaExport\<close>. Shown: redacted rows do not depend on personal data,
    pagination is complete or reports its cap, export windows are bounded.

  \<^bold>\<open>Infrastructure.\<close>

  \<^item> \<^verbatim>\<open>permissions.py\<close>: theory \<open>Permissions\<close>. Shown: nobody whose permissions are a list confers
    more than he has.

  \<^item> \<^verbatim>\<open>task_queue.py\<close>: theory \<open>TaskQueue\<close>. Every transaction of producers and workers is a step.
    Shown: locks and attempts are consistent in every reachable state, no task is lost, a task
    that always fails ends dead after its attempts, whatever becomes of the others.

  \<^item> \<^verbatim>\<open>circuit_breaker.py\<close>, \<^verbatim>\<open>circuit_breaker_store.py\<close>: theory \<open>CircuitBreaker\<close>. The locale
    \<open>circuit_store_laws\<close> is the contract of the store protocol, the in-memory store interprets
    it; an abstract circuit is refined by every operation, and the invariant of reachable
    states is proved by rule induction over the steps of a breaker.

  This theory holds the properties that span the engine, the enforcement and the status.

  \<^bold>\<open>How the language is modelled.\<close> \<open>Prelude\<close> has exceptions as the left summand and the
  sequencing \<open>and_then\<close>. \<open>PyFloat\<close> is IEEE double arithmetic with round to even on rationals,
  infinities and NaN (the sign of zero is not kept). \<open>PyBase\<close> has the dynamic values of the
  payloads (\<open>pyval\<close>), strings of 8-bit characters with the methods the source calls, \<open>float()\<close>,
  truth, \<open>str\<close>; \<open>PyDict\<close> has ordered dictionaries, grouping and sorting. What the interpreter
  does beyond that is the record \<open>pyrt\<close>, a parameter of the definitions that use it:
  \<open>str.format\<close>, regular expressions, JSON, date parsing, fresh identifiers, \<open>repr\<close> of containers,
  and the database's reading of a text as \<open>uuid\<close>.

  \<^bold>\<open>Parameters.\<close> The database server refuses statements or commits according to an arbitrary
  function; what a statement does otherwise is the SQL of the source. The clock is a function
  of the number of readings in the engine and an argument of each operation elsewhere.
  SHA-256 and HMAC are functions; where a property needs it, the hypotheses are the form of
  the output (hexadecimal) and that the finitely many strings hashed in the statement do not
  collide. The function a breaker protects and the handler of a task are their outcomes. The
  similarity of PostgreSQL's trigrams is a function or absent; fresh identifiers are in the
  spelling of the server (\<open>uuid_texts\<close>). The checks that pydantic makes of the field types of a
  canonical event, what the driver reads back from a \<open>jsonb\<close> column (assumed to keep what is hashed,
  in \<open>columns_keep\<close>) and the decoding of percent-encoded bytes beyond ASCII are functions. The
  metrics client and the tenant context of the enforcement are a record \<open>surroundings\<close>.

  \<^bold>\<open>Termination.\<close> Every definition is total and no fuel is used: most loops are structural
  recursion; the chunks of a batch recurse on the length of the rest, the layers of a tree on
  the length of the layer, the search for ancestors on the pallets not yet seen, a trace on the lots not yet expanded, pagination on
  the rows below the cap, percent-decoding on the length of the text, the matching blocks of two
  texts on the length of the first.

  \<^bold>\<open>Not modelled.\<close> Log messages and metrics other than those that decide something; the Redis
  and PostgreSQL backends of breaker and audit log, which only call the client; the graph messages
  that the canonical writer stages for after the commit; concurrent
  transactions, except in the task queue, whose steps interleave; characters beyond 8 bits.
  The web routes, the frontend, the migrations and the calls of brokers, graph and
  language-model services are outside.
\<close>

section \<open>Properties that span components\<close>

text \<open>The persisted rows of an evaluated event, as a consumer of the tables reads them.\<close>

definition status_rows :: "EvaluationSummary \<Rightarrow> pydict list" where
  "status_rows s = map (\<lambda>r. [(''result'', PStr (rr_result r))]) (es_results s)"

lemma py_lower_tokens:
  "py_lower ''pass'' = ''pass''" "py_lower ''fail'' = ''fail''" "py_lower ''warn'' = ''warn''"
  "py_lower ''skip'' = ''skip''" "py_lower ''error'' = ''error''" "py_lower ''no_verdict'' = ''no_verdict''"
  by code_simp+

lemma status_row_token:
  "rr_result r \<in> {''pass'', ''fail'', ''warn'', ''skip'', ''error''} \<Longrightarrow>
   rule_result_token [(''result'', PStr (rr_result r))] = rr_result r"
  by (auto simp: rule_result_token_def py_lower_tokens)

lemma verdict_lower: "py_lower (str_or (Some (verdict s)) []) = verdict s"
  by (simp add: verdict_def str_or_def py_lower_tokens split: option.split bool.split)

text \<open>The results of an evaluated event have one of five outcomes, and none is out of scope.\<close>

lemma evaluate_event_tokens:
  assumes "evaluate_event env en event persist tenant = (en', Inr s)"
  shows "list_all (\<lambda>r. rr_result r \<in> {''pass'', ''fail'', ''warn'', ''skip'', ''error''}) (es_results s) \<and>
         es_not_ftl_scoped s = 0 \<and> tallied s"
  using assms
proof (cases rule: evaluate_event_cases)
  case empty
  then show ?thesis by (simp add: tallied_def count_result_def)
next
  case (run rules)
  have tok: "list_all (\<lambda>r. rr_result r \<in> {''pass'', ''fail'', ''warn'', ''skip'', ''error''}) (es_results s)"
    unfolding list_all_iff using list_all2_result_tokens [OF run(4)] by blast
  then have "list_all (\<lambda>r. rr_result r \<noteq> ''not_ftl_scoped'') (es_results s)"
    by (rule list.pred_mono_strong) auto
  then have "es_not_ftl_scoped s = 0" using run(2) by (simp add: tallied_def count_result_0)
  with tok run(2) show ?thesis by blast
qed

lemma pass_rows_clean:
  assumes "compliant s = Some True" and "tallied s" and "r \<in> set (es_results s)"
  shows "rr_result r \<noteq> ''fail'' \<and> rr_result r \<noteq> ''error''"
  using assms by (auto simp: compliant_True_iff tallied_def count_result_0 list_all_iff)

text \<open>
  What exports and auditors see agrees with what the engine decided: from
  the stored rows, verdict and reason of an evaluated event, the regulator-facing status is
  \<open>PASS\<close> exactly when the engine's verdict was \<open>pass\<close> and some rule gave an affirmative result.
\<close>

theorem persisted_status_coherent:
  assumes "evaluate_event env en event persist tenant = (en', Inr s)"
  shows "ev_status (classify_event_verdict (Some (status_rows s)) (Some (verdict s)) (verdict_reason s)) = ''PASS'' \<longleftrightarrow>
         verdict s = ''pass'' \<and> list_ex (\<lambda>r. rr_result r = ''pass'' \<or> rr_result r = ''warn'') (es_results s)"
proof -
  have tok: "rule_result_token [(''result'', PStr (rr_result r))] = rr_result r" if "r \<in> set (es_results s)" for r
    using evaluate_event_tokens [OF assms] that by (intro status_row_token) (simp add: list_all_iff)
  have rows: "list_ex (\<lambda>r. rule_result_token r = ''pass'' \<or> rule_result_token r = ''warn'') (status_rows s) \<longleftrightarrow>
      list_ex (\<lambda>r. rr_result r = ''pass'' \<or> rr_result r = ''warn'') (es_results s)"
    "list_all (\<lambda>r. rule_result_token r \<noteq> ''fail'' \<and> rule_result_token r \<noteq> ''error'') (status_rows s) \<longleftrightarrow>
      list_all (\<lambda>r. rr_result r \<noteq> ''fail'' \<and> rr_result r \<noteq> ''error'') (es_results s)"
    using tok by (auto simp: status_rows_def list_ex_iff list_all_iff)
  have "list_all (\<lambda>r. rr_result r \<noteq> ''fail'' \<and> rr_result r \<noteq> ''error'') (es_results s)" if "verdict s = ''pass''"
    using that pass_rows_clean evaluate_event_tokens [OF assms] by (auto simp: verdict_cases(1) list_all_iff)
  moreover have "verdict s = ''pass'' \<longleftrightarrow> verdict s \<noteq> ''fail'' \<and> verdict s \<noteq> ''no_verdict''"
    by (auto simp: verdict_def split: option.split bool.split)
  ultimately show ?thesis
    unfolding classify_pass_char verdict_lower using rows by blast
qed

theorem persisted_status_coherent_witness:
  "\<exists>s. snd (evaluate_event sample_env (sample_engine [sample_rule] []) sample_event False (Some ''A'')) = Inr s \<and>
       ev_status (classify_event_verdict (Some (status_rows s)) (Some (verdict s)) (verdict_reason s)) \<noteq> ''PASS''"
proof -
  obtain en' s where run: "evaluate_event sample_env (sample_engine [sample_rule] []) sample_event False (Some ''A'') = (en', Inr s)"
    and "verdict s = ''fail''"
    using sample_run by (rule run_okE) auto
  with persisted_status_coherent [OF run] show ?thesis by auto
qed

text \<open>
  Claim C13 (safety). A crashed evaluator blocks the event under full enforcement: if a rule of
  an evaluated event, not classified as outside the list, ended in an error, then in mode
  \<open>all\<close> the event is rejected; the crash is never waved through.
\<close>

theorem crashed_rule_blocks_event:
  assumes "evaluate_event env en event persist tenant = (en', Inr s)"
    and "is_ftl_food event \<noteq> Some False" and "r \<in> set (es_results s)" and "rr_result r = ''error''"
    and "mode_of (su_enforce su) = mode_all"
  shows "fst (snd (should_reject rt su st s))"
proof -
  have t: "tallied s" and sc: "es_not_ftl_scoped s = 0" using evaluate_event_tokens [OF assms(1)] by simp_all
  have err: "es_errored s \<noteq> 0"
    using t assms(3,4) by (auto simp: tallied_def count_result_0 list_all_iff)
  have "0 < es_total_rules s \<and> es_no_verdict_reason s = None"
    using assms(1)
  proof (cases rule: evaluate_event_cases)
    case empty
    then show ?thesis using assms(3) by simp
  qed (use assms(2) in auto)
  then have "compliant s = Some False" using err sc by (simp add: compliant_False_iff)
  then show ?thesis using assms(5) by (simp add: should_reject_by_mode)
qed

definition crashing_rule :: RuleDefinition where
  "crashing_rule = sample_rule\<lparr>rd_evaluation_logic := PDict [(''field'', PInt 3)]\<rparr>"

theorem crashed_rule_blocks_event_witness:
  "\<exists>s. snd (evaluate_event sample_env (sample_engine [crashing_rule] []) sample_event False (Some ''A'')) = Inr s \<and>
       fst (snd (should_reject example_rt (enforcing ''all'') fresh_state s))"
proof -
  have "run_ok (evaluate_event sample_env (sample_engine [crashing_rule] []) sample_event False (Some ''A''))
      (\<lambda>s. list_ex (\<lambda>r. rr_result r = ''error'') (es_results s))"
    by code_simp
  then obtain en' s where run: "evaluate_event sample_env (sample_engine [crashing_rule] []) sample_event False
      (Some ''A'') = (en', Inr s)"
    and e: "list_ex (\<lambda>r. rr_result r = ''error'') (es_results s)"
    by (rule run_okE)
  obtain r where r: "r \<in> set (es_results s)" "rr_result r = ''error''" using e by (auto simp: list_ex_iff)
  have "is_ftl_food sample_event \<noteq> Some False" by code_simp
  moreover have "mode_of (su_enforce (enforcing ''all'')) = mode_all" by code_simp
  ultimately show ?thesis using crashed_rule_blocks_event [OF run _ r] run by auto
qed

end
